(* ===== verification/Errors.thy ===== *)
theory Errors
  imports Main
begin

text \<open>
  The error enumerations of the contracts (the \<^verbatim>\<open>contracterror\<close> enums under src/), one
  \<^theory_text>\<open>datatype\<close> per enum with the source's constructors, and the type \<open>error\<close> that joins
  them: every \<^verbatim>\<open>panic_with_error!\<close> of the source is a value \<open>Inl\<close> of it. \<open>HostPanic\<close> is an
  uncoded abort: arithmetic overflow (the release profile sets overflow-checks), division by
  zero, \<open>unwrap\<close> on nothing, \<open>Vec::set\<close> out of range. \<open>AuthError\<close> is a failed
  \<open>require_auth\<close>; \<open>ExternalError\<close> is a panic inside a contract that is not part of the model.
  A Soroban transaction that aborts is rolled back, which is why an error carries no state.
\<close>

section \<open>Error enumerations\<close>

datatype access_control_error =
    AC_RoleNotFound
  | AC_Unauthorized
  | AC_AdminAlreadySet
  | AC_BadRoleUsage
  | AC_AnotherActionActive
  | AC_NoActionActive
  | AC_ActionNotReadyYet

datatype upgrade_error =
    UP_AnotherActionActive
  | UP_NoActionActive
  | UP_ActionNotReadyYet

datatype storage_error =
    ST_AlreadyInitialized
  | ST_ValueNotInitialized
  | ST_ValueMissing
  | ST_ValueConversionError

datatype token_error =
    TK_AlreadyInitialized
  | TK_InsufficientBalance
  | TK_InsufficientAllowance
  | TK_NegativeNotAllowed
  | TK_DecimalTooLarge
  | TK_PastTimeNotAllowed

datatype liquidity_pool_error =
    LP_AlreadyInitialized
  | LP_PlaneAlreadyInitialized
  | LP_RewardsAlreadyInitialized
  | LP_InvariantDoesNotHold
  | LP_PoolDepositKilled
  | LP_PoolSwapKilled
  | LP_PoolClaimKilled
  | LP_FutureShareIdNotSet

datatype stableswap_error =
    SS_AlreadyInitialized
  | SS_PlaneAlreadyInitialized
  | SS_RewardsAlreadyInitialized
  | SS_InvariantDoesNotHold
  | SS_PoolDepositKilled
  | SS_PoolSwapKilled
  | SS_PoolClaimKilled
  | SS_FutureShareIdNotSet
  | SS_MaxIterationsReached
  | SS_ZeroTokenNotAllowed
  | SS_RampTooEarly
  | SS_RampTimeLessThanMinimum
  | SS_RampOverMax
  | SS_RampTooFast
  | SS_AnotherActionActive
  | SS_NoActionActive
  | SS_ActionNotReadyYet

datatype validation_error =
    V_WrongInputVecSize
  | V_FeeOutOfBounds
  | V_AllCoinsRequired
  | V_InMinNotSatisfied
  | V_OutMinNotSatisfied
  | V_CannotSwapSameToken
  | V_InTokenOutOfBounds
  | V_OutTokenOutOfBounds
  | V_EmptyPool
  | V_InvalidDepositAmount
  | V_AdminFeeOutOfBounds
  | V_UnknownPoolType
  | V_ZeroSharesBurned
  | V_TooManySharesBurned
  | V_CannotComparePools
  | V_ZeroAmount
  | V_InsufficientBalance
  | V_InMaxNotSatisfied

datatype rewards_error =
    RW_PastTimeNotAllowed
  | RW_SameRewardsConfig

datatype gauge_error =
    GA_Unauthorized
  | GA_AlreadyInitialized
  | GA_InvalidConfig
  | GA_ConfigNotExpiredYet
  | GA_StartNotInFuture
  | GA_StartTooEarly
  | GA_TooManyConfigs
  | GA_InvalidRewardState

datatype pool_gauge_error =
    PG_ClaimKilled
  | PG_GaugesOverMax
  | PG_GaugeAlreadyExists
  | PG_GaugeNotFound

datatype feed_error =
    FD_AlreadyInitialized

datatype guard_error =
    GD_ResultsMismatch
  | GD_UnsupportedType
  | GD_InvalidValue
  | GD_TypesMismatch

datatype concentrated_error =
    CL_Unauthorized
  | CL_PoolAlreadyInitialized
  | CL_PlaneAlreadyInitialized
  | CL_RewardsAlreadyInitialized
  | CL_DepositKilled
  | CL_SwapKilled
  | CL_ClaimKilled
  | CL_TokensNotSorted
  | CL_InvalidTickRange
  | CL_InvalidAmount
  | CL_InvalidSqrtPrice
  | CL_InvalidTickSpacing
  | CL_TickOutOfBounds
  | CL_PriceOutOfBounds
  | CL_TickNotSpacedCorrectly
  | CL_TickLowerNotLessThanUpper
  | CL_TickLowerTooLow
  | CL_TickUpperTooHigh
  | CL_InvalidPriceLimit
  | CL_PositionNotFound
  | CL_TooManyPositions
  | CL_LiquidityAmountTooLarge
  | CL_InsufficientLiquidity
  | CL_LiquidityOverflow
  | CL_LiquidityUnderflow

datatype router_error =
    RT_PoolNotFound
  | RT_BadFee
  | RT_StableswapHashMissing
  | RT_PoolsOverMax
  | RT_StableswapPoolsOverMax
  | RT_PathIsEmpty
  | RT_TokensAreNotForReward
  | RT_LiquidityNotFilled
  | RT_LiquidityAlreadyFilled
  | RT_VotingShareExceedsMax
  | RT_LiquidityCalculationError
  | RT_RewardsNotConfigured
  | RT_RewardsAlreadyConfigured
  | RT_DuplicatesNotAllowed
  | RT_InvalidPoolType
  | RT_RewardDurationTooShort
  | RT_RewardAmountTooLow
  | RT_GaugeRewardsDisabledForPool
  | RT_UnsupportedTokensNum
  | RT_PathMustEndWithRewardToken
  | RT_ConcentratedPoolsOverMax
  | RT_RewardTokenChangeWhileActive
  | RT_SwapChainAmountIsZero
  | RT_TokensNotSorted
  | RT_InMaxNotSatisfied

datatype registry_error =
    RG_PoolAlreadyExists
  | RG_PoolNotFound

datatype swap_fee_error =
    SF_Unauthorized
  | SF_PathIsEmpty
  | SF_OutMinNotSatisfied
  | SF_InMaxNotSatisfied
  | SF_FeeFractionTooHigh

datatype calculator_error =
    LC_MaxIterationsReached

datatype error =
    HostPanic
  | AuthError
  | ExternalError
  | AccessControlError access_control_error
  | UpgradeError upgrade_error
  | StorageError storage_error
  | TokenError token_error
  | LiquidityPoolError liquidity_pool_error
  | StableswapError stableswap_error
  | ValidationError validation_error
  | RewardsError rewards_error
  | GaugeError gauge_error
  | PoolGaugeError pool_gauge_error
  | FeedError feed_error
  | GuardError guard_error
  | ConcentratedError concentrated_error
  | RouterError router_error
  | RegistryError registry_error
  | SwapFeeError swap_fee_error
  | CalculatorError calculator_error

end
