(* ===== verification/Prelude.thy ===== *)
theory Prelude
  imports Errors
begin

text \<open>
  What every component shares: the result type and its sequencing, Rust's integers with
  overflow checks, the transaction environment, and the lemma collections
  \<open>res_simps\<close> (inversion of successful runs) and \<open>u_simps\<close> (unfolding of the integer operations).

  Unsigned integers are \<open>nat\<close> values whose width is an explicit bound (\<open>U32_MAX\<close>, \<open>U64_MAX\<close>,
  \<open>U128_MAX\<close>, \<open>U256_MAX\<close>): an operation that would leave the width, or go below zero, is
  \<open>Inl HostPanic\<close>, as the release profile (overflow-checks = true) and the host's \<^verbatim>\<open>U256\<close> do.
  Signed integers are \<open>int\<close>, with casts written out.
\<close>

section \<open>Results\<close>

type_synonym 'a res = "error + 'a"

definition andthen :: "'a res \<Rightarrow> ('a \<Rightarrow> 'b res) \<Rightarrow> 'b res" where
  "andthen m f = (case m of Inl e \<Rightarrow> Inl e | Inr x \<Rightarrow> f x)"

definition require :: "bool \<Rightarrow> error \<Rightarrow> unit res" where
  "require b e = (if b then Inr () else Inl e)"

definition from_option :: "error \<Rightarrow> 'a option \<Rightarrow> 'a res" where
  "from_option e x = (case x of None \<Rightarrow> Inl e | Some v \<Rightarrow> Inr v)"

primrec fold_res :: "('a \<Rightarrow> 's \<Rightarrow> 's res) \<Rightarrow> 'a list \<Rightarrow> 's \<Rightarrow> 's res" where
  "fold_res f [] s = Inr s"
| "fold_res f (x # xs) s = andthen (f x s) (fold_res f xs)"

primrec map_res :: "('a \<Rightarrow> 'b res) \<Rightarrow> 'a list \<Rightarrow> 'b list res" where
  "map_res f [] = Inr []"
| "map_res f (x # xs) = andthen (f x) (\<lambda>y. andthen (map_res f xs) (\<lambda>ys. Inr (y # ys)))"

named_theorems res_simps
named_theorems u_simps

lemma andthen_simps [simp]:
  "andthen (Inl e) f = Inl e"
  "andthen (Inr x) f = f x"
  by (simp_all add: andthen_def)

lemma andthen_eq_Inr [res_simps]:
  "andthen m f = Inr y \<longleftrightarrow> (\<exists>x. m = Inr x \<and> f x = Inr y)"
  by (cases m) simp_all

lemma andthen_assoc: "andthen (andthen m f) g = andthen m (\<lambda>x. andthen (f x) g)"
  by (cases m) simp_all

lemma andthen_cong [fundef_cong]:
  "m = m' \<Longrightarrow> (\<And>x. m' = Inr x \<Longrightarrow> f x = f' x) \<Longrightarrow> andthen m f = andthen m' f'"
  by (cases m') simp_all

lemma require_simps [simp]:
  "require True e = Inr ()"
  "require False e = Inl e"
  by (simp_all add: require_def)

lemma require_eq_Inr [res_simps]: "require b e = Inr u \<longleftrightarrow> b"
  by (cases b) simp_all

lemma from_option_simps [simp]:
  "from_option e None = Inl e"
  "from_option e (Some v) = Inr v"
  by (simp_all add: from_option_def)

lemma from_option_eq_Inr [res_simps]: "from_option e x = Inr v \<longleftrightarrow> x = Some v"
  by (cases x) simp_all

lemma if_Inl_eq_Inr [res_simps]:
  "(if b then Inl e else r) = Inr y \<longleftrightarrow> \<not> b \<and> r = Inr y"
  "(if b then r else Inl e) = Inr y \<longleftrightarrow> b \<and> r = Inr y"
  by simp_all

lemma fold_res_append:
  "fold_res f (xs @ ys) s = andthen (fold_res f xs s) (fold_res f ys)"
proof (induction xs arbitrary: s)
  case Nil
  show ?case by simp
next
  case (Cons x xs)
  then show ?case by (cases "f x s") simp_all
qed

lemma fold_res_invariant:
  assumes "fold_res f xs s = Inr t" and "P s"
    and "\<And>x s s'. x \<in> set xs \<Longrightarrow> P s \<Longrightarrow> f x s = Inr s' \<Longrightarrow> P s'"
  shows "P t"
  using assms
proof (induction xs arbitrary: s)
  case Nil
  then show ?case by simp
next
  case (Cons x xs)
  from Cons.prems(1) obtain s' where "f x s = Inr s'" and "fold_res f xs s' = Inr t"
    by (auto simp: res_simps)
  with Cons show ?case by (meson list.set_intros)
qed

section \<open>Integers\<close>

definition U32_MAX :: nat where
  "U32_MAX = 4294967295"

definition U64_MAX :: nat where
  "U64_MAX = 18446744073709551615"

definition U128_MAX :: nat where
  "U128_MAX = 340282366920938463463374607431768211455"

definition U256_MAX :: nat where
  "U256_MAX = 115792089237316195423570985008687907853269984665640564039457584007913129639935"

definition I128_MAX :: nat where
  "I128_MAX = 170141183460469231731687303715884105727"

definition u_add :: "nat \<Rightarrow> nat \<Rightarrow> nat \<Rightarrow> nat res" where
  "u_add M a b = (if a + b \<le> M then Inr (a + b) else Inl HostPanic)"

definition u_sub :: "nat \<Rightarrow> nat \<Rightarrow> nat res" where
  "u_sub a b = (if b \<le> a then Inr (a - b) else Inl HostPanic)"

definition u_mul :: "nat \<Rightarrow> nat \<Rightarrow> nat \<Rightarrow> nat res" where
  "u_mul M a b = (if a * b \<le> M then Inr (a * b) else Inl HostPanic)"

definition u_div :: "nat \<Rightarrow> nat \<Rightarrow> nat res" where
  "u_div a b = (if b = 0 then Inl HostPanic else Inr (a div b))"

definition u_rem :: "nat \<Rightarrow> nat \<Rightarrow> nat res" where
  "u_rem a b = (if b = 0 then Inl HostPanic else Inr (a mod b))"

definition u_pow :: "nat \<Rightarrow> nat \<Rightarrow> nat \<Rightarrow> nat res" where
  "u_pow M a n = (if a ^ n \<le> M then Inr (a ^ n) else Inl HostPanic)"

definition u_fit :: "nat \<Rightarrow> nat \<Rightarrow> nat res" where
  \<comment> \<open>\<open>to_u128().unwrap()\<close>: a wider value that must fit the width \<open>M\<close>\<close>
  "u_fit M a = (if a \<le> M then Inr a else Inl HostPanic)"

definition sat_add :: "nat \<Rightarrow> nat \<Rightarrow> nat \<Rightarrow> nat" where
  "sat_add M a b = min (a + b) M"

definition sat_sub :: "nat \<Rightarrow> nat \<Rightarrow> nat" where
  "sat_sub a b = a - b"

definition sat_mul :: "nat \<Rightarrow> nat \<Rightarrow> nat \<Rightarrow> nat" where
  "sat_mul M a b = min (a * b) M"

definition as_i128 :: "nat \<Rightarrow> int" where
  \<comment> \<open>\<open>x as i128\<close> for an u128 \<open>x\<close>: two's complement\<close>
  "as_i128 x = (if x \<le> I128_MAX then int x else int x - 340282366920938463463374607431768211456)"

definition as_u128 :: "int \<Rightarrow> nat" where
  \<comment> \<open>\<open>x as u128\<close> for an i128 \<open>x\<close>\<close>
  "as_u128 x = nat (x mod 340282366920938463463374607431768211456)"

definition as_u32 :: "nat \<Rightarrow> nat" where
  \<comment> \<open>\<open>x as u32\<close>: truncation\<close>
  "as_u32 x = x mod 4294967296"

abbreviation "u32_add \<equiv> u_add U32_MAX"
abbreviation "u32_mul \<equiv> u_mul U32_MAX"
abbreviation "u64_add \<equiv> u_add U64_MAX"
abbreviation "u64_mul \<equiv> u_mul U64_MAX"
abbreviation "u64_pow \<equiv> u_pow U64_MAX"
abbreviation "u128_add \<equiv> u_add U128_MAX"
abbreviation "u128_mul \<equiv> u_mul U128_MAX"
abbreviation "u256_add \<equiv> u_add U256_MAX"
abbreviation "u256_mul \<equiv> u_mul U256_MAX"
abbreviation "to_u128 \<equiv> u_fit U128_MAX"

lemmas u_defs = u_add_def u_sub_def u_mul_def u_div_def u_rem_def u_pow_def u_fit_def

lemmas max_defs = U32_MAX_def U64_MAX_def U128_MAX_def U256_MAX_def I128_MAX_def

lemma U64_MAX_eq: "U64_MAX = 2 ^ 64 - 1"
  by (simp add: U64_MAX_def)

lemma U128_MAX_eq: "U128_MAX = 2 ^ 128 - 1"
  by (simp add: U128_MAX_def)

lemma U256_MAX_eq: "U256_MAX = 2 ^ 256 - 1"
  by (simp add: U256_MAX_def)

lemma le_U128_MAX_iff: "x \<le> U128_MAX \<longleftrightarrow> x < 2 ^ 128"
  by (auto simp: U128_MAX_def)

lemma le_U256_MAX_iff: "x \<le> U256_MAX \<longleftrightarrow> x < 2 ^ 256"
  by (auto simp: U256_MAX_def)

lemma u_add_eq_Inr [res_simps]: "u_add M a b = Inr c \<longleftrightarrow> c = a + b \<and> a + b \<le> M"
  by (auto simp: u_add_def)

lemma u_sub_eq_Inr [res_simps]: "u_sub a b = Inr c \<longleftrightarrow> c = a - b \<and> b \<le> a"
  by (auto simp: u_sub_def)

lemma u_mul_eq_Inr [res_simps]: "u_mul M a b = Inr c \<longleftrightarrow> c = a * b \<and> a * b \<le> M"
  by (auto simp: u_mul_def)

lemma u_div_eq_Inr [res_simps]: "u_div a b = Inr c \<longleftrightarrow> c = a div b \<and> b \<noteq> 0"
  by (auto simp: u_div_def)

lemma u_rem_eq_Inr [res_simps]: "u_rem a b = Inr c \<longleftrightarrow> c = a mod b \<and> b \<noteq> 0"
  by (auto simp: u_rem_def)

lemma u_pow_eq_Inr [res_simps]: "u_pow M a n = Inr c \<longleftrightarrow> c = a ^ n \<and> a ^ n \<le> M"
  by (auto simp: u_pow_def)

lemma u_fit_eq_Inr [res_simps]: "u_fit M a = Inr c \<longleftrightarrow> c = a \<and> a \<le> M"
  by (auto simp: u_fit_def)

lemma u_ok [u_simps]:
  "a + b \<le> M \<Longrightarrow> u_add M a b = Inr (a + b)"
  "b \<le> a \<Longrightarrow> u_sub a b = Inr (a - b)"
  "a * b \<le> M \<Longrightarrow> u_mul M a b = Inr (a * b)"
  "b \<noteq> 0 \<Longrightarrow> u_div a b = Inr (a div b)"
  "b \<noteq> 0 \<Longrightarrow> u_rem a b = Inr (a mod b)"
  "a ^ n \<le> M \<Longrightarrow> u_pow M a n = Inr (a ^ n)"
  "a \<le> M \<Longrightarrow> u_fit M a = Inr a"
  by (simp_all add: u_defs)

lemma as_i128_small [u_simps]: "x \<le> I128_MAX \<Longrightarrow> as_i128 x = int x"
  by (simp add: as_i128_def)

lemma as_u32_small [u_simps]: "x \<le> U32_MAX \<Longrightarrow> as_u32 x = x"
  by (simp add: as_u32_def U32_MAX_def)

lemma as_i128_nonneg_iff: "x \<le> U128_MAX \<Longrightarrow> 0 \<le> as_i128 x \<longleftrightarrow> x \<le> I128_MAX"
  by (simp add: as_i128_def U128_MAX_def)

lemma as_u128_nonneg: "0 \<le> x \<Longrightarrow> x \<le> int I128_MAX \<Longrightarrow> as_u128 x = nat x"
  by (simp add: as_u128_def I128_MAX_def)

text \<open>Signed 128-bit arithmetic aborts when the result leaves the range.\<close>

definition i128_fits :: "int \<Rightarrow> bool" where
  "i128_fits x \<longleftrightarrow> - (2 ^ 127) \<le> x \<and> x < 2 ^ 127"

definition i128_add :: "int \<Rightarrow> int \<Rightarrow> int res" where
  "i128_add x y = (if i128_fits (x + y) then Inr (x + y) else Inl HostPanic)"

definition i128_sub :: "int \<Rightarrow> int \<Rightarrow> int res" where
  "i128_sub x y = (if i128_fits (x - y) then Inr (x - y) else Inl HostPanic)"

lemma i128_eq_Inr [res_simps]:
  "i128_add x y = Inr z \<longleftrightarrow> z = x + y \<and> i128_fits (x + y)"
  "i128_sub x y = Inr z \<longleftrightarrow> z = x - y \<and> i128_fits (x - y)"
  by (auto simp: i128_add_def i128_sub_def)

section \<open>The transaction environment\<close>

text \<open>
  Addresses are opaque: numbers. \<open>env\<close> is what the host tells a contract in one call: the
  ledger's close time and sequence number, the addresses whose authorization the call carries
  (\<^verbatim>\<open>require_auth\<close> aborts for any other), and the contract's own address.
\<close>

type_synonym address = nat
type_synonym symbol = string

record env =
  ledger_timestamp :: nat
  ledger_sequence :: nat
  authorized :: "address \<Rightarrow> bool"
  current_contract :: address

definition require_auth :: "env \<Rightarrow> address \<Rightarrow> unit res" where
  "require_auth e a = require (authorized e a) AuthError"

lemma require_auth_eq_Inr [res_simps]: "require_auth e a = Inr u \<longleftrightarrow> authorized e a"
  by (simp add: require_auth_def res_simps)

lemma require_auth_cases [simp]:
  "authorized e a \<Longrightarrow> require_auth e a = Inr ()"
  "\<not> authorized e a \<Longrightarrow> require_auth e a = Inl AuthError"
  by (simp_all add: require_auth_def)

end
