(* ===== verification/U256_Math.thy ===== *)
theory U256_Math
  imports Prelude
begin

text \<open>
  \<^verbatim>\<open>utils/src/u256_math.rs\<close>: the integer square root of a \<open>U256\<close>, Newton's iteration from
  above. The loop is a tail recursion whose measure is the previous iterate \<open>y\<close>; the host's
  \<open>add\<close> and \<open>div\<close> can abort, so the result is a \<open>res\<close>. The lemmas show that it never does,
  except at the largest \<open>U256\<close>, and that the result is the floor of the square root.
\<close>

function sqrt_loop :: "nat \<Rightarrow> nat \<Rightarrow> nat \<Rightarrow> nat res" where
  "sqrt_loop n z y =
     (if z < y then
        andthen (u_div n z) (\<lambda>q.
        andthen (u256_add q z) (\<lambda>s.
        sqrt_loop n (s div 2) z))
      else Inr y)"
  by pat_completeness auto
termination
  by (relation "measure (\<lambda>(n, z, y). y)") auto

declare sqrt_loop.simps [simp del]

definition u256_sqrt :: "nat \<Rightarrow> nat res" where
  "u256_sqrt n =
     andthen (u256_add n 1) (\<lambda>m.
     andthen (u_div m 2) (\<lambda>z.
     sqrt_loop n z n))"

lemma newton_step_ge:
  fixes n s w :: nat
  assumes "0 < w" and "s * s \<le> n"
  shows "s \<le> (n div w + w) div 2"
proof -
  have "2 * s \<le> n div w + w"
  proof (cases "2 * s \<le> w")
    case False
    define k where "k = 2 * s - w"
    have s2: "2 * s = k + w" using False by (simp add: k_def)
    have "0 \<le> (int k - int w) * (int k - int w)" by simp
    then have "int (4 * (k * w)) \<le> int ((k + w) * (k + w))" by (simp add: algebra_simps)
    then have "4 * (k * w) \<le> (k + w) * (k + w)" by (simp only: of_nat_le_iff)
    then have "k * w \<le> s * s" by (simp flip: s2)
    with assms have "k \<le> n div w"
      by (metis less_eq_div_iff_mult_less_eq order_trans)
    then show ?thesis using s2 by simp
  qed simp
  then show ?thesis by simp
qed

lemma newton_no_overflow:
  fixes n z :: nat
  assumes "1 \<le> z" and "z \<le> n"
  shows "n div z + z \<le> n + 1"
proof -
  have "1 \<le> n div z" using assms by (simp add: Suc_leI div_greater_zero_iff)
  then obtain q w where "n div z = Suc q" and "z = Suc w"
    using assms by (metis One_nat_def Suc_le_D)
  moreover have "n div z * z \<le> n" by simp
  ultimately show ?thesis by simp
qed

lemma newton_stop:
  fixes n y :: nat
  assumes "0 < y" and "y \<le> (n div y + y) div 2"
  shows "y * y \<le> n"
proof -
  have "y \<le> n div y" using assms(2) by linarith
  then show ?thesis using assms(1) by (simp add: less_eq_div_iff_mult_less_eq)
qed

text \<open>
  The invariant: \<open>z\<close> is the Newton step from \<open>y\<close>, and every \<open>s\<close> with \<open>s * s \<le> n\<close> is at most \<open>y\<close>.
\<close>

lemma sqrt_loop_correct:
  assumes "0 < y" and "y \<le> n" and "n < U256_MAX" and "z = (n div y + y) div 2"
    and "\<And>s. s * s \<le> n \<Longrightarrow> s \<le> y"
  shows "\<exists>r. sqrt_loop n z y = Inr r \<and> r * r \<le> n \<and> n < (r + 1) * (r + 1)"
  using assms
proof (induction n z y rule: sqrt_loop.induct)
  case (1 n z y)
  show ?case
  proof (cases "z < y")
    case True
    have above: "\<And>s. s * s \<le> n \<Longrightarrow> s \<le> z"
      using newton_step_ge [OF "1.prems"(1)] "1.prems"(4) by simp
    have z: "1 \<le> z" using above [of 1] "1.prems"(1,2) by simp
    have fits: "n div z + z \<le> U256_MAX"
      using newton_no_overflow [OF z, of n] True "1.prems"(2,3) by linarith
    have "\<exists>r. sqrt_loop n ((n div z + z) div 2) z = Inr r \<and> r * r \<le> n \<and> n < (r + 1) * (r + 1)"
    proof (rule "1.IH")
      show "u_div n z = Inr (n div z)" and "u256_add (n div z) z = Inr (n div z + z)"
        using z fits by (simp_all add: u_defs)
      show "z \<le> n" using True "1.prems"(2) by simp
    qed (use True z above "1.prems"(3) in simp_all)
    then show ?thesis
      using True z fits by (simp add: sqrt_loop.simps [of n z y] u_defs)
  next
    case False
    have "y * y \<le> n" using newton_stop [OF "1.prems"(1)] False "1.prems"(4) by simp
    moreover have "n < (y + 1) * (y + 1)"
    proof -
      have "\<not> (y + 1) * (y + 1) \<le> n"
        using "1.prems"(5) [of "y + 1"] by linarith
      then show ?thesis by simp
    qed
    ultimately show ?thesis using False by (simp add: sqrt_loop.simps [of n z y])
  qed
qed

lemma square_le_self: "s * s \<le> n \<Longrightarrow> s \<le> (n :: nat)"
  by (metis le_square order_trans)

lemma u256_sqrt_correct:
  assumes "n < U256_MAX"
  shows "\<exists>r. u256_sqrt n = Inr r \<and> r * r \<le> n \<and> n < (r + 1) * (r + 1)"
proof (cases "n = 0")
  case True
  then show ?thesis by (simp add: u256_sqrt_def u_defs sqrt_loop.simps [of 0 0 0] U256_MAX_def)
next
  case False
  have "\<exists>r. sqrt_loop n ((n div n + n) div 2) n = Inr r \<and> r * r \<le> n \<and> n < (r + 1) * (r + 1)"
  proof (rule sqrt_loop_correct)
    show "0 < n" using False by simp
    show "\<And>s. s * s \<le> n \<Longrightarrow> s \<le> n" by (rule square_le_self)
  qed (simp_all add: assms)
  then show ?thesis using assms False by (simp add: u256_sqrt_def u_defs)
qed

lemma u256_sqrt_eqI:
  assumes "n < U256_MAX" and "r * r \<le> n" and "n < (r + 1) * (r + 1)"
  shows "u256_sqrt n = Inr r"
proof -
  obtain r' where r': "u256_sqrt n = Inr r'" "r' * r' \<le> n" "n < (r' + 1) * (r' + 1)"
    using u256_sqrt_correct [OF assms(1)] by blast
  have "r' < r + 1" using r'(2) assms(3) by (meson le_less_trans mult_le_mono not_le)
  moreover have "r < r' + 1" using r'(3) assms(2) by (meson le_less_trans mult_le_mono not_le)
  ultimately show ?thesis using r'(1) by simp
qed

lemma u256_sqrt_InrD:
  assumes "u256_sqrt n = Inr r"
  shows "n < U256_MAX" and "r * r \<le> n" and "n < (r + 1) * (r + 1)"
proof -
  show n: "n < U256_MAX" using assms by (auto simp: u256_sqrt_def res_simps)
  show "r * r \<le> n" "n < (r + 1) * (r + 1)" using u256_sqrt_correct [OF n] assms by auto
qed

text \<open>
  Claim C37: for every \<open>U256\<close> below the largest one the routine terminates, never aborts and
  returns the floor of the square root.
\<close>

theorem u256_sqrt_is_floor_sqrt:
  assumes "n < U256_MAX"
  shows "u256_sqrt n = Inr r \<longleftrightarrow> r * r \<le> n \<and> n < (r + 1) * (r + 1)"
  using assms u256_sqrt_eqI u256_sqrt_InrD by blast


theorem u256_sqrt_witness: "u256_sqrt 99 = Inr 9"
  using u256_sqrt_is_floor_sqrt [of 99 9] by (simp add: U256_MAX_def)

end
