(* ===== verification/Concentrated_Weight.thy ===== *)
theory Concentrated_Weight
  imports Prelude
begin

text \<open>
  \<^verbatim>\<open>rewards/src/concentrated_weight.rs\<close>: the weight, in basis points, of a concentrated
  position in the rewards, by the distance of its range from the current tick. Ticks are
  \<open>i32\<close> values (\<open>int\<close>); the differences are taken in \<open>i64\<close> and fit.
\<close>

definition BPS_DENOMINATOR :: nat where
  "BPS_DENOMINATOR = 10000"

definition MIN_MULTIPLIER_BPS :: nat where
  "MIN_MULTIPLIER_BPS = 0"

definition FEE_TO_DISTANCE_MULTIPLIER :: nat where
  "FEE_TO_DISTANCE_MULTIPLIER = 50"

definition max_distance_for_fee :: "nat \<Rightarrow> nat res" where
  "max_distance_for_fee fee = u32_mul fee FEE_TO_DISTANCE_MULTIPLIER"

definition tick_distance_from_range :: "int \<Rightarrow> int \<Rightarrow> int \<Rightarrow> nat" where
  "tick_distance_from_range tick_current tick_lower tick_upper =
     (if tick_upper \<le> tick_lower then 0
      else if tick_current < tick_lower then as_u32 (nat (tick_lower - tick_current))
      else if tick_upper \<le> tick_current then max (as_u32 (nat (tick_current - tick_upper))) 1
      else 0)"

definition distance_multiplier_bps :: "nat \<Rightarrow> nat \<Rightarrow> nat res" where
  "distance_multiplier_bps distance_ticks max_distance_ticks =
     (if distance_ticks = 0 then Inr BPS_DENOMINATOR
      else if max_distance_ticks = 0 \<or> max_distance_ticks \<le> distance_ticks
      then Inr MIN_MULTIPLIER_BPS
      else
        andthen (u_sub max_distance_ticks distance_ticks) (\<lambda>rem.
        andthen (u_sub BPS_DENOMINATOR MIN_MULTIPLIER_BPS) (\<lambda>dynamic_range.
        andthen (u128_mul dynamic_range rem) (\<lambda>x.
        andthen (u128_mul x rem) (\<lambda>y.
        andthen (u128_mul max_distance_ticks max_distance_ticks) (\<lambda>z.
        andthen (u_div y z) (\<lambda>scaled.
        u32_add MIN_MULTIPLIER_BPS (as_u32 scaled))))))))"

definition position_multiplier_bps :: "int \<Rightarrow> int \<Rightarrow> int \<Rightarrow> nat \<Rightarrow> nat res" where
  "position_multiplier_bps tick_current tick_lower tick_upper fee =
     andthen (max_distance_for_fee fee) (\<lambda>m.
     distance_multiplier_bps (tick_distance_from_range tick_current tick_lower tick_upper) m)"

definition apply_multiplier :: "nat \<Rightarrow> nat \<Rightarrow> nat" where
  "apply_multiplier amount multiplier_bps =
     sat_mul U128_MAX amount (min multiplier_bps BPS_DENOMINATOR) div BPS_DENOMINATOR"

lemmas weight_defs = BPS_DENOMINATOR_def MIN_MULTIPLIER_BPS_def FEE_TO_DISTANCE_MULTIPLIER_def

lemma decay_bounds:
  fixes d m :: nat
  assumes "0 < d" and "d < m" and "m \<le> U32_MAX"
  shows "10000 * (m - d) * (m - d) \<le> U128_MAX" and "m * m \<le> U128_MAX"
    and "10000 * (m - d) * (m - d) div (m * m) \<le> 10000"
proof -
  have mm: "(m - d) * (m - d) \<le> m * m" by (intro mult_le_mono) simp_all
  have "m * m \<le> U32_MAX * U32_MAX" using assms(3) by (intro mult_le_mono)
  then show "m * m \<le> U128_MAX" and "10000 * (m - d) * (m - d) \<le> U128_MAX"
    using mm by (simp_all add: U32_MAX_def U128_MAX_def)
  have "10000 * (m - d) * (m - d) div (m * m) \<le> 10000 * (m * m) div (m * m)"
    using mm by (intro div_le_mono) simp
  then show "10000 * (m - d) * (m - d) div (m * m) \<le> 10000" using assms by simp
qed

lemma distance_multiplier_eq:
  assumes "m \<le> U32_MAX"
  shows "distance_multiplier_bps d m = Inr
    (if d = 0 then 10000 else if m \<le> d then 0 else 10000 * (m - d) * (m - d) div (m * m))"
proof (cases "0 < d \<and> d < m")
  case True
  note b = decay_bounds [OF True [THEN conjunct1] True [THEN conjunct2] assms]
  have fst: "10000 * (m - d) \<le> U128_MAX"
    using assms by (simp add: U32_MAX_def U128_MAX_def)
  have "10000 * (m - d) * (m - d) div (m * m) \<le> U32_MAX" using b(3) by (simp add: U32_MAX_def)
  with True b fst show ?thesis
    by (simp add: distance_multiplier_bps_def weight_defs u_defs as_u32_small)
qed (auto simp: distance_multiplier_bps_def weight_defs)

lemma decay_antitone:
  fixes d d' m :: nat
  assumes "d \<le> d'"
  shows "10000 * (m - d') * (m - d') div (m * m) \<le> 10000 * (m - d) * (m - d) div (m * m)"
  using assms by (intro div_le_mono mult_le_mono) simp_all

lemma tick_distance_small:
  assumes "\<bar>c\<bar> < 2 ^ 31" and "\<bar>l\<bar> < 2 ^ 31" and "\<bar>u\<bar> < 2 ^ 31" and "l < u"
  shows "tick_distance_from_range c l u =
    nat (if c < l then l - c else if u \<le> c then max (c - u) 1 else 0)"
proof -
  have "c < l \<Longrightarrow> nat (l - c) \<le> U32_MAX" "u \<le> c \<Longrightarrow> nat (c - u) \<le> U32_MAX"
    using assms by (auto simp: U32_MAX_def abs_less_iff)
  with assms(4) show ?thesis
    by (auto simp: tick_distance_from_range_def as_u32_small max_def)
qed

text \<open>
  Claim C36: the weight of a position is total and between 0 and 10000: the full 10000
  exactly when the current tick is inside the half-open range, and outside it the quadratic
  decay, which never grows as the price moves away and is zero from the fee's maximal distance on.
\<close>

theorem position_multiplier_spec:
  assumes "\<bar>c\<bar> < 2 ^ 31" and "\<bar>l\<bar> < 2 ^ 31" and "\<bar>u\<bar> < 2 ^ 31" and "l < u"
    and "0 < fee" and "fee * 50 \<le> U32_MAX"
  defines "d \<equiv> nat (if c < l then l - c else if u \<le> c then max (c - u) 1 else 0)"
  shows "\<exists>w. position_multiplier_bps c l u fee = Inr w \<and> w \<le> 10000 \<and>
    (w = 10000 \<longleftrightarrow> l \<le> c \<and> c < u) \<and> (fee * 50 \<le> d \<longrightarrow> w = 0) \<and>
    (0 < d \<and> d < fee * 50 \<longrightarrow>
      w * (fee * 50)\<^sup>2 \<le> 10000 * (fee * 50 - d)\<^sup>2 \<and> 10000 * (fee * 50 - d)\<^sup>2 < (w + 1) * (fee * 50)\<^sup>2)"
proof -
  define m where "m = fee * 50"
  have m: "0 < m" "m \<le> U32_MAX" using assms(5,6) by (auto simp: m_def)
  define w where "w = (if d = 0 then 10000 else if m \<le> d then 0 else 10000 * (m - d) * (m - d) div (m * m))"
  have run: "position_multiplier_bps c l u fee = Inr w"
    using tick_distance_small [OF assms(1-4)] distance_multiplier_eq [OF m(2), of d] assms(6)
    by (simp add: position_multiplier_bps_def max_distance_for_fee_def weight_defs u_defs
        w_def d_def m_def)
  have inside: "d = 0 \<longleftrightarrow> l \<le> c \<and> c < u" using assms(4) by (auto simp: d_def max_def split: if_splits)
  have lt: "w < 10000" if "0 < d" "d < m"
  proof -
    have "(m - d) * (m - d) < m * m" using that by (intro mult_strict_mono) auto
    then have "10000 * (m - d) * (m - d) < 10000 * (m * m)" by simp
    then have "10000 * (m - d) * (m - d) div (m * m) < 10000"
      using m(1) by (simp add: div_less_iff_less_mult)
    with that show ?thesis by (simp add: w_def)
  qed
  have exact: "w * m\<^sup>2 \<le> 10000 * (m - d)\<^sup>2 \<and> 10000 * (m - d)\<^sup>2 < (w + 1) * m\<^sup>2" if "0 < d" "d < m"
  proof -
    have w: "w = 10000 * (m - d)\<^sup>2 div m\<^sup>2" using that by (simp add: w_def power2_eq_square mult.assoc)
    have "0 < m\<^sup>2" using m by simp
    then show ?thesis unfolding w
      using dividend_less_div_times [of "m\<^sup>2" "10000 * (m - d)\<^sup>2"] by (simp add: algebra_simps)
  qed
  have "w \<le> 10000" using lt by (cases "0 < d \<and> d < m") (auto simp: w_def less_imp_le)
  moreover have "w = 10000 \<longleftrightarrow> d = 0"
    using lt m by (cases "0 < d \<and> d < m") (auto simp: w_def)
  moreover have "m \<le> d \<longrightarrow> w = 0" using m by (auto simp: w_def)
  ultimately show ?thesis using run exact inside unfolding m_def by blast
qed

theorem position_multiplier_spec_witness:
  "\<exists>w. position_multiplier_bps (-250) 0 100 10 = Inr w \<and>
    w * 500\<^sup>2 \<le> 10000 * 250\<^sup>2 \<and> 10000 * 250\<^sup>2 < (w + 1) * 500\<^sup>2"
proof -
  obtain w where "position_multiplier_bps (-250) 0 100 10 = Inr w"
    "w * 500\<^sup>2 \<le> 10000 * (500 - 250)\<^sup>2 \<and> 10000 * (500 - 250)\<^sup>2 < (w + 1) * 500\<^sup>2"
    using position_multiplier_spec [of "-250" 0 100 10] by (auto simp: U32_MAX_def)
  then show ?thesis by (intro exI [of _ w]) simp
qed

text \<open>Applying a weight never increases a balance and is monotone in both arguments.\<close>

lemma apply_multiplier_bounds:
  assumes "a \<le> U128_MAX"
  shows "apply_multiplier a w \<le> a"
    and "a \<le> a' \<Longrightarrow> w \<le> w' \<Longrightarrow> apply_multiplier a w \<le> apply_multiplier a' w'"
proof -
  have "sat_mul U128_MAX a (min w 10000) \<le> a * 10000"
    by (simp add: sat_mul_def min.coboundedI1)
  then have "sat_mul U128_MAX a (min w 10000) div 10000 \<le> a * 10000 div 10000" by (rule div_le_mono)
  then show "apply_multiplier a w \<le> a" by (simp add: apply_multiplier_def weight_defs)
  assume "a \<le> a'" and "w \<le> w'"
  then have "a * min w 10000 \<le> a' * min w' 10000" by (intro mult_le_mono) auto
  then show "apply_multiplier a w \<le> apply_multiplier a' w'"
    unfolding apply_multiplier_def weight_defs sat_mul_def by (intro div_le_mono) linarith
qed

end
