(* ===== verification/Fixed_Point.thy ===== *)
theory Fixed_Point
  imports Prelude
begin

text \<open>
  The interface of \<^verbatim>\<open>soroban_fixed_point_math\<close> (a dependency that is not part of the
  repository): \<open>fixed_mul_floor\<close> and \<open>fixed_mul_ceil\<close> on u128 and on \<open>U256\<close>. The library is a
  parameter of every definition that calls it, a record of four functions where \<open>None\<close> is a
  panic; what the contracts rely on (its documentation) is the locale \<open>fixed_point_lib\<close>.

  The u128 functions use a wider intermediate product, so they are defined whenever the
  denominator is not zero and the quotient fits. The \<open>U256\<close> functions are only known to be right
  when they return, and to return when the product fits 256 bits.
\<close>

section \<open>Division rounding up\<close>

definition ceil_div :: "nat \<Rightarrow> nat \<Rightarrow> nat" where
  "ceil_div a b = a div b + (if a mod b = 0 then 0 else 1)"

lemma ceil_div_mult_ge: "0 < b \<Longrightarrow> a \<le> ceil_div a b * b"
proof -
  assume "0 < b"
  have a: "a = a div b * b + a mod b" by simp
  have "a mod b < b" using \<open>0 < b\<close> by simp
  then have "a \<le> a div b * b + b" using a by linarith
  then show ?thesis using a by (auto simp: ceil_div_def algebra_simps)
qed

lemma ceil_div_le: "0 < b \<Longrightarrow> a \<le> q * b \<Longrightarrow> ceil_div a b \<le> q"
proof -
  assume b: "0 < b" and a: "a \<le> q * b"
  have "a div b \<le> q" using a b by (metis div_le_mono nonzero_mult_div_cancel_right neq0_conv)
  moreover have "a div b \<noteq> q" if "a mod b \<noteq> 0"
  proof
    assume "a div b = q"
    then have "a = q * b + a mod b" by (metis div_mult_mod_eq)
    with that a show False by linarith
  qed
  ultimately show ?thesis by (auto simp: ceil_div_def)
qed

lemma ceil_div_0 [simp]: "ceil_div 0 b = 0"
  by (simp add: ceil_div_def)

lemma ceil_div_1 [simp]: "ceil_div a (Suc 0) = a"
  by (simp add: ceil_div_def)

lemma ceil_div_mult_lt: "0 < b \<Longrightarrow> ceil_div a b * b < a + b"
proof -
  assume b: "0 < b"
  have a: "a = a div b * b + a mod b" by simp
  show ?thesis
  proof (cases "a mod b = 0")
    case True
    then have "ceil_div a b * b = a" by (auto simp: ceil_div_def)
    with b show ?thesis by simp
  next
    case False
    then have "ceil_div a b * b = a div b * b + b" by (simp add: ceil_div_def)
    with a False show ?thesis by linarith
  qed
qed

lemma div_le_ceil_div: "a div b \<le> ceil_div a b"
  by (simp add: ceil_div_def)

lemma ceil_div_le_Suc_div: "ceil_div a b \<le> a div b + 1"
  by (simp add: ceil_div_def)

lemma ceil_div_mono: "a \<le> a' \<Longrightarrow> 0 < b \<Longrightarrow> ceil_div a b \<le> ceil_div a' b"
  by (meson ceil_div_le ceil_div_mult_ge order_trans)

lemma ceil_div_pos: "0 < a \<Longrightarrow> 0 < b \<Longrightarrow> 0 < ceil_div a b"
  using ceil_div_mult_ge [of b a] by (cases "ceil_div a b") auto

section \<open>Multiplication and division in one step\<close>

text \<open>
  What a caller of a mul-div routine relies on: inside its domain, the floor and the ceiling of
  the exact quotient. The library's two widths and the repository's own 512-bit routine
  (\<open>U512\<close>) are instances.
\<close>

locale mul_div =
  fixes mfloor :: "nat \<Rightarrow> nat \<Rightarrow> nat \<Rightarrow> nat res"
    and mceil :: "nat \<Rightarrow> nat \<Rightarrow> nat \<Rightarrow> nat res"
    and in_dom :: "nat \<Rightarrow> nat \<Rightarrow> nat \<Rightarrow> bool"
  assumes dom_pos: "in_dom a b d \<Longrightarrow> 0 < d"
    and mfloor_dom: "in_dom a b d \<Longrightarrow> mfloor a b d = Inr (a * b div d)"
    and mceil_dom: "in_dom a b d \<Longrightarrow> mceil a b d = Inr (ceil_div (a * b) d)"
begin

lemma floor_bounds:
  assumes "in_dom a b d" and "mfloor a b d = Inr r"
  shows "r * d \<le> a * b" and "a * b < (r + 1) * d"
proof -
  have r: "r = a * b div d" and d: "0 < d"
    using assms mfloor_dom dom_pos by auto
  show "r * d \<le> a * b" by (simp add: r)
  show "a * b < (r + 1) * d"
    using d by (simp add: r dividend_less_div_times)
qed

lemma ceil_bounds:
  assumes "in_dom a b d" and "mceil a b d = Inr r"
  shows "a * b \<le> r * d" and "r * d < a * b + d"
proof -
  have r: "r = ceil_div (a * b) d" and d: "0 < d"
    using assms mceil_dom dom_pos by auto
  show "a * b \<le> r * d" using d by (simp add: r ceil_div_mult_ge)
  show "r * d < a * b + d" using d by (simp add: r ceil_div_mult_lt)
qed

lemma floor_le_ceil:
  assumes "in_dom a b d" and "mfloor a b d = Inr lo" and "mceil a b d = Inr hi"
  shows "lo \<le> hi" and "hi \<le> lo + 1"
  using assms mfloor_dom mceil_dom by (auto simp: ceil_div_def)

end

section \<open>The library\<close>

record fixed_point =
  fixed_mul_floor :: "nat \<Rightarrow> nat \<Rightarrow> nat \<Rightarrow> nat option"
  fixed_mul_ceil :: "nat \<Rightarrow> nat \<Rightarrow> nat \<Rightarrow> nat option"
  fixed_mul_floor_256 :: "nat \<Rightarrow> nat \<Rightarrow> nat \<Rightarrow> nat option"
  fixed_mul_ceil_256 :: "nat \<Rightarrow> nat \<Rightarrow> nat \<Rightarrow> nat option"

definition mul_floor :: "fixed_point \<Rightarrow> nat \<Rightarrow> nat \<Rightarrow> nat \<Rightarrow> nat res" where
  "mul_floor fp x y d = from_option HostPanic (fixed_mul_floor fp x y d)"

definition mul_ceil :: "fixed_point \<Rightarrow> nat \<Rightarrow> nat \<Rightarrow> nat \<Rightarrow> nat res" where
  "mul_ceil fp x y d = from_option HostPanic (fixed_mul_ceil fp x y d)"

definition mul_floor_256 :: "fixed_point \<Rightarrow> nat \<Rightarrow> nat \<Rightarrow> nat \<Rightarrow> nat res" where
  "mul_floor_256 fp x y d = from_option HostPanic (fixed_mul_floor_256 fp x y d)"

definition mul_ceil_256 :: "fixed_point \<Rightarrow> nat \<Rightarrow> nat \<Rightarrow> nat \<Rightarrow> nat res" where
  "mul_ceil_256 fp x y d = from_option HostPanic (fixed_mul_ceil_256 fp x y d)"

locale fixed_point_lib =
  fixes fp :: fixed_point
  assumes floor_128: "fixed_mul_floor fp x y d =
      (if d \<noteq> 0 \<and> x * y div d \<le> U128_MAX then Some (x * y div d) else None)"
    and ceil_128: "fixed_mul_ceil fp x y d =
      (if d \<noteq> 0 \<and> ceil_div (x * y) d \<le> U128_MAX then Some (ceil_div (x * y) d) else None)"
    and floor_256_sound: "fixed_mul_floor_256 fp x y d = Some r \<Longrightarrow> d \<noteq> 0 \<and> r = x * y div d"
    and floor_256_def: "d \<noteq> 0 \<Longrightarrow> x * y \<le> U256_MAX \<Longrightarrow>
      fixed_mul_floor_256 fp x y d = Some (x * y div d)"
    and ceil_256_sound: "fixed_mul_ceil_256 fp x y d = Some r \<Longrightarrow> d \<noteq> 0 \<and> r = ceil_div (x * y) d"
    and ceil_256_def: "d \<noteq> 0 \<Longrightarrow> x * y \<le> U256_MAX \<Longrightarrow>
      fixed_mul_ceil_256 fp x y d = Some (ceil_div (x * y) d)"
begin

lemma mul_floor_eq:
  "mul_floor fp x y d = (if d \<noteq> 0 \<and> x * y div d \<le> U128_MAX then Inr (x * y div d) else Inl HostPanic)"
  by (simp add: mul_floor_def floor_128)

lemma mul_ceil_eq:
  "mul_ceil fp x y d =
    (if d \<noteq> 0 \<and> ceil_div (x * y) d \<le> U128_MAX then Inr (ceil_div (x * y) d) else Inl HostPanic)"
  by (simp add: mul_ceil_def ceil_128)

lemma mul_floor_eq_Inr:
  "mul_floor fp x y d = Inr r \<longleftrightarrow> d \<noteq> 0 \<and> r = x * y div d \<and> x * y div d \<le> U128_MAX"
  by (auto simp: mul_floor_eq)

lemma mul_ceil_eq_Inr:
  "mul_ceil fp x y d = Inr r \<longleftrightarrow> d \<noteq> 0 \<and> r = ceil_div (x * y) d \<and> ceil_div (x * y) d \<le> U128_MAX"
  by (auto simp: mul_ceil_eq)

lemma mul_floor_256_InrD: "mul_floor_256 fp x y d = Inr r \<Longrightarrow> d \<noteq> 0 \<and> r = x * y div d"
  by (simp add: mul_floor_256_def from_option_eq_Inr floor_256_sound)

lemma mul_floor_256_ok:
  "d \<noteq> 0 \<Longrightarrow> x * y \<le> U256_MAX \<Longrightarrow> mul_floor_256 fp x y d = Inr (x * y div d)"
  by (simp add: mul_floor_256_def floor_256_def)

lemma mul_ceil_256_InrD: "mul_ceil_256 fp x y d = Inr r \<Longrightarrow> d \<noteq> 0 \<and> r = ceil_div (x * y) d"
  by (simp add: mul_ceil_256_def from_option_eq_Inr ceil_256_sound)

lemma mul_ceil_256_ok:
  "d \<noteq> 0 \<Longrightarrow> x * y \<le> U256_MAX \<Longrightarrow> mul_ceil_256 fp x y d = Inr (ceil_div (x * y) d)"
  by (simp add: mul_ceil_256_def ceil_256_def)

end

sublocale fixed_point_lib \<subseteq> narrow: mul_div "mul_floor fp" "mul_ceil fp"
  "\<lambda>a b d. d \<noteq> 0 \<and> ceil_div (a * b) d \<le> U128_MAX"
  by unfold_locales
    (auto simp: mul_floor_eq mul_ceil_eq dest: order_trans [OF div_le_ceil_div])

sublocale fixed_point_lib \<subseteq> wide: mul_div "mul_floor_256 fp" "mul_ceil_256 fp"
  "\<lambda>a b d. d \<noteq> 0 \<and> a * b \<le> U256_MAX"
  by unfold_locales (auto simp: mul_floor_256_ok mul_ceil_256_ok)

text \<open>
  A concrete library that satisfies the contract: the exact quotients, with the panics the
  documentation gives. Witnesses evaluate the model with it.
\<close>

definition exact_fixed_point :: fixed_point where
  "exact_fixed_point = \<lparr>
     fixed_mul_floor = (\<lambda>x y d. if d \<noteq> 0 \<and> x * y div d \<le> U128_MAX then Some (x * y div d) else None),
     fixed_mul_ceil = (\<lambda>x y d. if d \<noteq> 0 \<and> ceil_div (x * y) d \<le> U128_MAX
       then Some (ceil_div (x * y) d) else None),
     fixed_mul_floor_256 = (\<lambda>x y d. if d \<noteq> 0 \<and> x * y \<le> U256_MAX then Some (x * y div d) else None),
     fixed_mul_ceil_256 = (\<lambda>x y d. if d \<noteq> 0 \<and> x * y \<le> U256_MAX
       then Some (ceil_div (x * y) d) else None) \<rparr>"

interpretation exact: fixed_point_lib exact_fixed_point
  by unfold_locales (auto simp: exact_fixed_point_def split: if_splits)

lemma exact_lib [simp, intro]: "fixed_point_lib exact_fixed_point"
  by (rule exact.fixed_point_lib_axioms)

end
