(* ===== verification/CP_Math.thy ===== *)
theory CP_Math
  imports Fixed_Point U256_Math
begin

text \<open>
  \<^verbatim>\<open>liquidity_pool/src/pool.rs\<close>, the arithmetic of the constant-product pool, and the invariant
  check that its two swap handlers share. Amounts and reserves are \<open>u128\<close>; the stored fee is an
  argument \<open>fee\<close>, the result of reading it. The theorems give the meaning of the two quotes: the
  product of the reserves never falls, the check cannot fail, and the strict-receive quote is the
  least input that buys the requested output.
\<close>

section \<open>The code\<close>

definition FEE_MULTIPLIER :: nat where
  "FEE_MULTIPLIER = 10000"

definition get_deposit_amounts ::
  "fixed_point \<Rightarrow> nat \<Rightarrow> nat \<Rightarrow> nat \<Rightarrow> nat \<Rightarrow> nat \<Rightarrow> nat \<Rightarrow> (nat \<times> nat) res" where
  "get_deposit_amounts fp desired_a min_a desired_b min_b reserve_a reserve_b =
     (if reserve_a = 0 \<and> reserve_b = 0 then Inr (desired_a, desired_b)
      else
        andthen (mul_floor fp desired_a reserve_b reserve_a) (\<lambda>amount_b.
        if amount_b \<le> desired_b then
          if amount_b < min_b then Inl (ValidationError V_InvalidDepositAmount)
          else Inr (desired_a, amount_b)
        else
          andthen (mul_floor fp desired_b reserve_a reserve_b) (\<lambda>amount_a.
          if desired_a < amount_a \<or> amount_a < min_a
          then Inl (ValidationError V_InvalidDepositAmount)
          else Inr (amount_a, desired_b))))"

definition get_amount_out ::
  "fixed_point \<Rightarrow> nat res \<Rightarrow> nat \<Rightarrow> nat \<Rightarrow> nat \<Rightarrow> (nat \<times> nat) res" where
  "get_amount_out fp fee in_amount reserve_sell reserve_buy =
     (if in_amount = 0 then Inr (0, 0)
      else
        andthen fee (\<lambda>fee_fraction.
        andthen (u_sub FEE_MULTIPLIER fee_fraction) (\<lambda>k.
        andthen (u128_mul in_amount k) (\<lambda>x.
        let in_after_fee = x div FEE_MULTIPLIER in
        andthen (u128_add reserve_sell in_after_fee) (\<lambda>denom.
        andthen (mul_floor fp in_after_fee reserve_buy denom) (\<lambda>raw_out.
        andthen (u_sub in_amount in_after_fee) (\<lambda>fee_amount.
        Inr (raw_out, fee_amount))))))))"

definition get_amount_out_strict_receive ::
  "fixed_point \<Rightarrow> nat res \<Rightarrow> nat \<Rightarrow> nat \<Rightarrow> nat \<Rightarrow> (nat \<times> nat) res" where
  "get_amount_out_strict_receive fp fee out_amount reserve_sell reserve_buy =
     (if out_amount = 0 then Inr (0, 0)
      else if reserve_buy \<le> out_amount then Inl (ValidationError V_InsufficientBalance)
      else
        andthen fee (\<lambda>fee_fraction.
        andthen (u_sub reserve_buy out_amount) (\<lambda>left.
        andthen (mul_ceil fp reserve_sell out_amount left) (\<lambda>dx_after_fee.
        andthen (u_sub FEE_MULTIPLIER fee_fraction) (\<lambda>k.
        andthen (mul_ceil fp dx_after_fee FEE_MULTIPLIER k) (\<lambda>dx_before_fee.
        andthen (u_sub dx_before_fee dx_after_fee) (\<lambda>fee_amount.
        Inr (dx_before_fee, fee_amount))))))))"

text \<open>The part of the fee that stays in the pool, and the check of the swap handlers.\<close>

definition residue_numerator :: "nat \<Rightarrow> nat \<Rightarrow> nat res" where
  "residue_numerator base_fee_fraction protocol_fee_fraction =
     andthen (u128_mul base_fee_fraction protocol_fee_fraction) (\<lambda>x.
     andthen (u_sub base_fee_fraction (x div FEE_MULTIPLIER)) (\<lambda>pool_fee_frac.
     u_sub FEE_MULTIPLIER pool_fee_frac))"

definition new_invariant_factor :: "nat \<Rightarrow> nat \<Rightarrow> nat \<Rightarrow> nat \<Rightarrow> nat res" where
  "new_invariant_factor residue reserve old_reserve out =
     andthen (u_sub reserve old_reserve) (\<lambda>grown.
     if out < grown then
       andthen (u256_mul FEE_MULTIPLIER old_reserve) (\<lambda>x.
       andthen (u_sub grown out) (\<lambda>d.
       andthen (u256_mul residue d) (\<lambda>y. u256_add x y)))
     else
       andthen (u256_mul FEE_MULTIPLIER old_reserve) (\<lambda>x.
       andthen (u256_mul FEE_MULTIPLIER reserve) (\<lambda>y.
       andthen (u256_add x y) (\<lambda>s.
       andthen (u128_add old_reserve out) (\<lambda>o1.
       andthen (u256_mul FEE_MULTIPLIER o1) (\<lambda>z. u_sub s z))))))"

definition check_invariant ::
  "nat \<Rightarrow> nat \<Rightarrow> nat \<Rightarrow> nat \<Rightarrow> nat \<Rightarrow> nat \<Rightarrow> nat \<Rightarrow> unit res" where
  "check_invariant residue new_reserve_a reserve_a out_a new_reserve_b reserve_b out_b =
     andthen (new_invariant_factor residue new_reserve_a reserve_a out_a) (\<lambda>new_inv_a.
     andthen (new_invariant_factor residue new_reserve_b reserve_b out_b) (\<lambda>new_inv_b.
     andthen (u256_mul FEE_MULTIPLIER reserve_a) (\<lambda>old_inv_a.
     andthen (u256_mul FEE_MULTIPLIER reserve_b) (\<lambda>old_inv_b.
     andthen (u256_mul new_inv_a new_inv_b) (\<lambda>new_inv.
     andthen (u256_mul old_inv_a old_inv_b) (\<lambda>old_inv.
     if new_inv < old_inv then Inl (LiquidityPoolError LP_InvariantDoesNotHold) else Inr ()))))))"

section \<open>Arithmetic\<close>

text \<open>Selling \<open>d\<close> after the fee for \<open>o\<close>: the pool's product does not fall exactly when \<open>o\<close> is affordable.\<close>

lemma product_kept_iff:
  fixes x y d out :: nat
  assumes "out \<le> y"
  shows "x * y \<le> (x + d) * (y - out) \<longleftrightarrow> out * (x + d) \<le> d * y"
proof -
  have "(x + d) * (y - out) + out * (x + d) = x * y + d * y"
    using assms by (metis add_mult_distrib add_mult_distrib2 le_add_diff_inverse2 mult.commute)
  then show ?thesis by linarith
qed

lemma quote_le_reserve: "d * y div (x + d) \<le> (y :: nat)"
  by (metis div_le_mono div_mult_self_is_m add_leD2 le0 le_add2 le_neq_implies_less mult.commute
      mult_le_mono1 nonzero_mult_div_cancel_left div_by_0 add_is_0 le_refl mult_is_0 not_less_zero)

lemma product_kept: "x * y \<le> (x + d) * (y - d * y div (x + d))" for x y d :: nat
  unfolding product_kept_iff [OF quote_le_reserve] by simp

section \<open>The two quotes\<close>

lemma get_amount_out_InrD:
  assumes "fixed_point_lib fp" and "get_amount_out fp (Inr f) dx x y = Inr (out, fee)" and "0 < dx"
  defines "d \<equiv> dx * (FEE_MULTIPLIER - f) div FEE_MULTIPLIER"
  shows "f \<le> FEE_MULTIPLIER" and "out = d * y div (x + d)" and "fee = dx - d" and "d \<le> dx"
    and "x + d \<noteq> 0"
  using assms
  by (auto simp: get_amount_out_def res_simps Let_def fixed_point_lib.mul_floor_eq_Inr split: if_splits)

lemma strict_receive_InrD:
  assumes "fixed_point_lib fp" and "get_amount_out_strict_receive fp (Inr f) dy x y = Inr (dx, fee)"
    and "0 < dy"
  defines "d \<equiv> ceil_div (x * dy) (y - dy)"
  shows "f < FEE_MULTIPLIER" and "dy < y" and "dx = ceil_div (d * FEE_MULTIPLIER) (FEE_MULTIPLIER - f)"
    and "fee = dx - d" and "d \<le> dx"
  using assms
  by (auto simp: get_amount_out_strict_receive_def res_simps Let_def
      fixed_point_lib.mul_ceil_eq_Inr split: if_splits)

lemma ceil_div_le_iff: "0 < d \<Longrightarrow> ceil_div a d \<le> n \<longleftrightarrow> a \<le> n * d"
proof
  assume d: "0 < d" and "ceil_div a d \<le> n"
  then have "ceil_div a d * d \<le> n * d" by (intro mult_le_mono1)
  then show "a \<le> n * d" using ceil_div_mult_ge [OF d, of a] by linarith
next
  assume d: "0 < d" and "a \<le> n * d"
  then have "ceil_div a d * d < n * d + d" using ceil_div_mult_lt [OF d, of a] by linarith
  then have "ceil_div a d * d < (n + 1) * d" by simp
  then have "ceil_div a d < n + 1" by (simp only: mult_less_cancel2)
  then show "ceil_div a d \<le> n" by simp
qed

text \<open>A quote without the fee buys \<open>dy\<close> exactly when the input after the fee reaches the rounded-up price.\<close>

lemma buys_iff:
  fixes x y d dy :: nat
  assumes "dy < y" and "0 < x + d"
  shows "dy \<le> d * y div (x + d) \<longleftrightarrow> ceil_div (x * dy) (y - dy) \<le> d"
proof -
  have "dy \<le> d * y div (x + d) \<longleftrightarrow> dy * (x + d) \<le> d * y"
    using assms(2) by (simp add: less_eq_div_iff_mult_less_eq)
  also have "\<dots> \<longleftrightarrow> x * dy \<le> d * (y - dy)"
  proof -
    have "d * y = d * (y - dy) + d * dy" using assms(1) by (simp flip: add_mult_distrib2)
    moreover have "dy * (x + d) = x * dy + d * dy" by (simp add: algebra_simps)
    ultimately show ?thesis by linarith
  qed
  also have "\<dots> \<longleftrightarrow> ceil_div (x * dy) (y - dy) \<le> d"
    using assms(1) by (simp add: ceil_div_le_iff)
  finally show ?thesis .
qed

text \<open>
  Claim C21: the two quotes are exact inverses. If selling \<open>dx\<close> is quoted for receiving exactly
  \<open>dy\<close>, then any input whose sale is quoted at all buys at least \<open>dy\<close> if and only if it is at
  least \<open>dx\<close>: the quoted input suffices, and nothing less does.
\<close>

theorem strict_receive_is_least_input:
  assumes "fixed_point_lib fp"
    and "get_amount_out_strict_receive fp (Inr f) dy x y = Inr (dx, fee)" and "0 < dy"
    and "get_amount_out fp (Inr f) dx' x y = Inr (dy', fee')" and "0 < dx'"
  shows "dy \<le> dy' \<longleftrightarrow> dx \<le> dx'"
proof -
  define d where "d = ceil_div (x * dy) (y - dy)"
  define d' where "d' = dx' * (FEE_MULTIPLIER - f) div FEE_MULTIPLIER"
  note s = strict_receive_InrD [OF assms(1-3), folded d_def]
  note q = get_amount_out_InrD [OF assms(1,4,5), folded d'_def]
  have D: "0 < FEE_MULTIPLIER" by (simp add: FEE_MULTIPLIER_def)
  have "dy \<le> dy' \<longleftrightarrow> d \<le> d'"
    unfolding q(2) d_def using s(2) q(5) by (intro buys_iff) auto
  also have "\<dots> \<longleftrightarrow> d * FEE_MULTIPLIER \<le> dx' * (FEE_MULTIPLIER - f)"
    unfolding d'_def using D by (simp add: less_eq_div_iff_mult_less_eq)
  also have "\<dots> \<longleftrightarrow> dx \<le> dx'"
    unfolding s(3) using s(1) by (simp add: ceil_div_le_iff)
  finally show ?thesis .
qed

theorem strict_receive_is_least_input_witness:
  "get_amount_out_strict_receive exact_fixed_point (Inr 30) 900 10000 10000 = Inr (993, 3) \<and>
   (900 :: nat) \<le> 900 \<longleftrightarrow> (993 :: nat) \<le> 993"
proof -
  have s: "get_amount_out_strict_receive exact_fixed_point (Inr 30) 900 10000 10000 = Inr (993, 3)"
    and q: "get_amount_out exact_fixed_point (Inr 30) 993 10000 10000 = Inr (900, 3)"
    by (simp_all add: get_amount_out_strict_receive_def get_amount_out_def FEE_MULTIPLIER_def u_defs
        mul_ceil_def mul_floor_def exact_fixed_point_def ceil_div_def U128_MAX_def Let_def)
  show ?thesis using strict_receive_is_least_input [OF exact_lib s _ q] s by simp
qed

section \<open>The invariant check cannot fail\<close>

lemma fee_multiple_fits:
  assumes "a \<le> U128_MAX" and "r \<le> FEE_MULTIPLIER"
  shows "r * a \<le> U256_MAX div 4"
proof -
  have "r * a \<le> FEE_MULTIPLIER * U128_MAX" using assms by (intro mult_le_mono)
  also have "\<dots> \<le> U256_MAX div 4" by (simp add: FEE_MULTIPLIER_def U128_MAX_def U256_MAX_def)
  finally show ?thesis .
qed

lemma quarters_fit: "a \<le> U256_MAX div 4 \<Longrightarrow> b \<le> U256_MAX div 4 \<Longrightarrow> a \<le> U256_MAX \<and> a + b \<le> U256_MAX"
  by (simp add: U256_MAX_def)

lemma factor_in:
  assumes "x + dx \<le> U128_MAX" and "r \<le> FEE_MULTIPLIER" and "0 < dx"
  shows "new_invariant_factor r (x + dx) x 0 = Inr (FEE_MULTIPLIER * x + r * dx)"
proof -
  have "FEE_MULTIPLIER * x \<le> U256_MAX div 4" "r * dx \<le> U256_MAX div 4"
    using assms(1,2) by (simp_all add: fee_multiple_fits)
  with quarters_fit [OF this] quarters_fit [OF this(2,1)] show ?thesis
    using assms(3) by (simp add: new_invariant_factor_def u_defs)
qed

lemma factor_out:
  assumes "y \<le> U128_MAX" and "out \<le> y"
  shows "new_invariant_factor r y y out =
    (if y + out \<le> U128_MAX then Inr (FEE_MULTIPLIER * (y - out)) else Inl HostPanic)"
proof -
  have "FEE_MULTIPLIER * y \<le> U256_MAX div 4" using assms(1) by (simp add: fee_multiple_fits)
  moreover from quarters_fit [OF this this] have "FEE_MULTIPLIER * (y + out) \<le> U256_MAX"
    using assms(2) by (meson add_le_mono le_refl le_trans mult_le_mono2 add_mult_distrib2 [THEN eq_refl])
  moreover have "FEE_MULTIPLIER * (y + out) \<le> FEE_MULTIPLIER * y + FEE_MULTIPLIER * y"
    using assms(2) by (simp add: add_mult_distrib2)
  moreover have "FEE_MULTIPLIER * y + FEE_MULTIPLIER * y - FEE_MULTIPLIER * (y + out) = FEE_MULTIPLIER * (y - out)"
    by (simp add: diff_mult_distrib2 add_mult_distrib2)
  ultimately show ?thesis
    using quarters_fit by (simp add: new_invariant_factor_def u_defs)
qed

lemma residue_bound:
  assumes "residue_numerator f p = Inr r" and "f \<le> FEE_MULTIPLIER" and "p \<le> FEE_MULTIPLIER"
  shows "FEE_MULTIPLIER - f \<le> r" and "r \<le> FEE_MULTIPLIER"
  using assms by (auto simp: residue_numerator_def res_simps)

lemma invariant_holds:
  fixes x y dx d out r :: nat
  assumes "FEE_MULTIPLIER * d \<le> r * dx" and "out * (x + d) \<le> d * y" and "out \<le> y" and "0 < dx"
  shows "(FEE_MULTIPLIER * x) * (FEE_MULTIPLIER * y) \<le>
    (FEE_MULTIPLIER * x + r * dx) * (FEE_MULTIPLIER * (y - out))"
proof -
  have "x * y \<le> (x + d) * (y - out)" using product_kept_iff [OF assms(3)] assms(2) by blast
  then have "(FEE_MULTIPLIER * FEE_MULTIPLIER) * (x * y) \<le> (FEE_MULTIPLIER * FEE_MULTIPLIER) * ((x + d) * (y - out))"
    by (rule mult_le_mono2)
  also have "\<dots> = (FEE_MULTIPLIER * x + FEE_MULTIPLIER * d) * (FEE_MULTIPLIER * (y - out))"
    by (simp add: algebra_simps)
  also have "\<dots> \<le> (FEE_MULTIPLIER * x + r * dx) * (FEE_MULTIPLIER * (y - out))"
    using assms(1) by (intro mult_le_mono1) simp
  finally show ?thesis by (simp add: algebra_simps)
qed

text \<open>
  What the check does on the amounts of a swap: it passes when its products fit their widths, and
  otherwise the host's arithmetic aborts.
\<close>

definition check_fits :: "nat \<Rightarrow> nat \<Rightarrow> nat \<Rightarrow> nat \<Rightarrow> nat \<Rightarrow> bool" where
  "check_fits r x dx y out \<longleftrightarrow> y + out \<le> U128_MAX \<and>
     (FEE_MULTIPLIER * x + r * dx) * (FEE_MULTIPLIER * (y - out)) \<le> U256_MAX"

lemma check_invariant_eq:
  assumes d: "FEE_MULTIPLIER * d \<le> r * dx" "out * (x + d) \<le> d * y" "out \<le> y" "0 < dx"
    and fits: "x + dx \<le> U128_MAX" "y \<le> U128_MAX" "r \<le> FEE_MULTIPLIER"
  shows "check_invariant r (x + dx) x 0 y y out = (if check_fits r x dx y out then Inr () else Inl HostPanic)"
    and "check_invariant r y y out (x + dx) x 0 = (if check_fits r x dx y out then Inr () else Inl HostPanic)"
proof -
  have F: "FEE_MULTIPLIER * x \<le> U256_MAX" "FEE_MULTIPLIER * y \<le> U256_MAX"
    using fee_multiple_fits [of x FEE_MULTIPLIER] fee_multiple_fits [of y FEE_MULTIPLIER] fits(1,2)
    by (simp_all add: U256_MAX_def)
  define old where "old = (FEE_MULTIPLIER * x) * (FEE_MULTIPLIER * y)"
  define new where "new = (FEE_MULTIPLIER * x + r * dx) * (FEE_MULTIPLIER * (y - out))"
  have le: "old \<le> new" using invariant_holds [OF d] by (simp add: old_def new_def)
  note factors = factor_in [OF fits(1,3) d(4)] factor_out [OF fits(2) d(3)]
  have muls: "u256_mul (FEE_MULTIPLIER * x + r * dx) (FEE_MULTIPLIER * (y - out)) = (if new \<le> U256_MAX then Inr new else Inl HostPanic)"
    "u256_mul (FEE_MULTIPLIER * (y - out)) (FEE_MULTIPLIER * x + r * dx) = (if new \<le> U256_MAX then Inr new else Inl HostPanic)"
    "u256_mul (FEE_MULTIPLIER * x) (FEE_MULTIPLIER * y) = (if old \<le> U256_MAX then Inr old else Inl HostPanic)"
    "u256_mul (FEE_MULTIPLIER * y) (FEE_MULTIPLIER * x) = (if old \<le> U256_MAX then Inr old else Inl HostPanic)"
    unfolding u_mul_def new_def old_def by (simp_all only: mult.commute)
  have old: "u256_mul FEE_MULTIPLIER x = Inr (FEE_MULTIPLIER * x)" "u256_mul FEE_MULTIPLIER y = Inr (FEE_MULTIPLIER * y)"
    using F by (simp_all add: u_mul_def)
  have fits_new: "check_fits r x dx y out \<longleftrightarrow> y + out \<le> U128_MAX \<and> new \<le> U256_MAX"
    by (simp only: check_fits_def new_def)
  show "check_invariant r (x + dx) x 0 y y out = (if check_fits r x dx y out then Inr () else Inl HostPanic)"
    "check_invariant r y y out (x + dx) x 0 = (if check_fits r x dx y out then Inr () else Inl HostPanic)"
    unfolding check_invariant_def factors fits_new using le
    by (cases "y + out \<le> U128_MAX"; cases "new \<le> U256_MAX"; simp add: muls old)+
qed

text \<open>Everything fits while the reserves stay below \<open>2^114\<close>.\<close>

lemma check_fits_below:
  assumes "x + dx < 2 ^ 114" and "y < 2 ^ 114" and "out \<le> y" and "r \<le> FEE_MULTIPLIER"
  shows "check_fits r x dx y out"
proof -
  have "FEE_MULTIPLIER * x + r * dx \<le> FEE_MULTIPLIER * (x + dx)" using assms(4) by (simp add: add_mult_distrib2)
  also have "\<dots> \<le> FEE_MULTIPLIER * 2 ^ 114" using assms(1) by (intro mult_le_mono2) linarith
  finally have "FEE_MULTIPLIER * x + r * dx \<le> FEE_MULTIPLIER * 2 ^ 114" .
  moreover have "FEE_MULTIPLIER * (y - out) \<le> FEE_MULTIPLIER * 2 ^ 114" using assms(2) by (intro mult_le_mono2) linarith
  ultimately have "(FEE_MULTIPLIER * x + r * dx) * (FEE_MULTIPLIER * (y - out)) \<le> (FEE_MULTIPLIER * 2 ^ 114) * (FEE_MULTIPLIER * 2 ^ 114)"
    by (rule mult_le_mono)
  also have "\<dots> \<le> U256_MAX" by (simp add: FEE_MULTIPLIER_def U256_MAX_def)
  finally show ?thesis using assms(2,3) by (simp add: check_fits_def U128_MAX_def)
qed

text \<open>Both quotes give the check what it needs.\<close>

lemma sell_quote_ok:
  assumes lib: "fixed_point_lib fp" and q: "get_amount_out fp (Inr f) dx x y = Inr (out, fee)" and dx: "0 < dx"
    and r: "residue_numerator f p = Inr r" and p: "p \<le> FEE_MULTIPLIER"
  shows "\<exists>d. FEE_MULTIPLIER * d \<le> r * dx \<and> out * (x + d) \<le> d * y \<and> out \<le> y \<and> d \<le> dx \<and> fee = dx - d"
proof (intro exI conjI)
  define d where "d = dx * (FEE_MULTIPLIER - f) div FEE_MULTIPLIER"
  note i = get_amount_out_InrD [OF lib q dx, folded d_def]
  have "FEE_MULTIPLIER * d \<le> dx * (FEE_MULTIPLIER - f)" by (simp add: d_def)
  also have "\<dots> \<le> r * dx" using residue_bound(1) [OF r i(1) p] by (simp add: mult.commute)
  finally show "FEE_MULTIPLIER * d \<le> r * dx" .
  show "out * (x + d) \<le> d * y" by (simp add: i(2))
  show "out \<le> y" unfolding i(2) by (rule quote_le_reserve)
  show "d \<le> dx" "fee = dx - d" by (rule i)+
qed

lemma buy_quote_ok:
  assumes lib: "fixed_point_lib fp" and q: "get_amount_out_strict_receive fp (Inr f) out x y = Inr (dx, fee)"
    and out: "0 < out" and r: "residue_numerator f p = Inr r" and p: "p \<le> FEE_MULTIPLIER"
  shows "\<exists>d. FEE_MULTIPLIER * d \<le> r * dx \<and> out * (x + d) \<le> d * y \<and> out \<le> y \<and> d \<le> dx \<and> fee = dx - d"
proof (intro exI conjI)
  define d where "d = ceil_div (x * out) (y - out)"
  note i = strict_receive_InrD [OF lib q out, folded d_def]
  have "d * FEE_MULTIPLIER \<le> dx * (FEE_MULTIPLIER - f)"
    unfolding i(3) using i(1) by (intro ceil_div_mult_ge) simp
  also have "\<dots> \<le> dx * r" using residue_bound(1) [OF r _ p] i(1) by simp
  finally show "FEE_MULTIPLIER * d \<le> r * dx" by (simp add: mult.commute)
  have "x * out \<le> d * (y - out)" unfolding d_def using i(2) by (intro ceil_div_mult_ge) simp
  moreover have "d * y = d * (y - out) + d * out" using i(2) by (simp flip: add_mult_distrib2)
  moreover have "out * (x + d) = x * out + d * out" by (simp add: algebra_simps)
  ultimately show "out * (x + d) \<le> d * y" by linarith
  show "out \<le> y" "d \<le> dx" "fee = dx - d" using i by simp_all
qed

end
