(* ===== verification/Delayed_Action.thy ===== *)
theory Delayed_Action
  imports Prelude
begin

text \<open>
  The interface the repository's time locks share: a value is committed with a deadline, can be
  applied only when the deadline has passed, and can be reverted. Ownership transfer
  (access_control), contract upgrade (upgrade) and the stableswap fee change follow it.
  The locale states what the operations of such a component promise, whatever other operations
  the component has; its lemmas are about whole histories of timestamped calls.
\<close>

section \<open>Histories of calls\<close>

text \<open>A history lists the successful calls with their ledger times, the most recent first.\<close>

inductive history :: "(nat \<Rightarrow> 'op \<Rightarrow> 's \<Rightarrow> 's res) \<Rightarrow> 's \<Rightarrow> (nat \<times> 'op) list \<Rightarrow> 's \<Rightarrow> bool"
  for step :: "nat \<Rightarrow> 'op \<Rightarrow> 's \<Rightarrow> 's res" and s0 :: 's where
  history_start: "history step s0 [] s0"
| history_step: "history step s0 h s \<Longrightarrow> step now a s = Inr s' \<Longrightarrow> history step s0 ((now, a) # h) s'"

inductive_cases history_ConsE: "history step s0 (x # h) s"
inductive_simps history_Nil [simp]: "history step s0 [] s"

text \<open>What an operation does to one lock; \<open>None\<close> for an operation that does not touch it.\<close>

datatype 'v daction = DCommit 'v | DApply | DRevert

text \<open>The last operation of the history on the lock is a commit of \<open>v\<close>, at time \<open>t\<close>.\<close>

definition committed_at ::
  "('op \<Rightarrow> 'v daction option) \<Rightarrow> (nat \<times> 'op) list \<Rightarrow> nat \<Rightarrow> 'v \<Rightarrow> bool" where
  "committed_at kind h t v \<longleftrightarrow>
     (\<exists>h1 a h2. h = h1 @ (t, a) # h2 \<and> kind a = Some (DCommit v) \<and> (\<forall>x \<in> set h1. kind (snd x) = None))"

lemma committed_at_now: "kind a = Some (DCommit v) \<Longrightarrow> committed_at kind ((t, a) # h) t v"
  unfolding committed_at_def by (metis append_Nil empty_iff empty_set)

lemma committed_at_later:
  assumes "committed_at kind h t v" and "kind a = None"
  shows "committed_at kind ((t', a) # h) t v"
proof -
  from assms(1) obtain h1 b h2 where
    "h = h1 @ (t, b) # h2" "kind b = Some (DCommit v)" "\<forall>x \<in> set h1. kind (snd x) = None"
    unfolding committed_at_def by blast
  with assms(2) have "(t', a) # h = ((t', a) # h1) @ (t, b) # h2"
    "\<forall>x \<in> set ((t', a) # h1). kind (snd x) = None" by simp_all
  with \<open>kind b = _\<close> show ?thesis unfolding committed_at_def by blast
qed

section \<open>The contract of a time lock\<close>

locale delayed_action =
  fixes dl_step :: "nat \<Rightarrow> 'op \<Rightarrow> 's \<Rightarrow> 's res"
    and dl_kind :: "'op \<Rightarrow> 'v daction option"
    and dl_deadline :: "'s \<Rightarrow> nat"
    and dl_pending :: "'s \<Rightarrow> 'v option"
    and dl_current :: "'s \<Rightarrow> 'v option"
    and dl_guarded :: "'s \<Rightarrow> bool"
    and dl_delay :: nat
  assumes commit_sets: "dl_step now a s = Inr s' \<Longrightarrow> dl_kind a = Some (DCommit v) \<Longrightarrow>
      dl_deadline s = 0 \<and> dl_deadline s' = now + dl_delay \<and> dl_pending s' = Some v \<and>
      dl_current s' = dl_current s"
    and apply_sets: "dl_step now a s = Inr s' \<Longrightarrow> dl_kind a = Some DApply \<Longrightarrow>
      dl_deadline s \<noteq> 0 \<and> (dl_guarded s \<longrightarrow> dl_deadline s \<le> now) \<and>
      dl_deadline s' = 0 \<and> dl_current s' = dl_pending s"
    and revert_sets: "dl_step now a s = Inr s' \<Longrightarrow> dl_kind a = Some DRevert \<Longrightarrow>
      dl_deadline s' = 0 \<and> dl_current s' = dl_current s"
    and other_keeps: "dl_step now a s = Inr s' \<Longrightarrow> dl_kind a = None \<Longrightarrow>
      dl_deadline s' = dl_deadline s \<and> dl_pending s' = dl_pending s \<and>
      (dl_current s \<noteq> None \<longrightarrow> dl_current s' = dl_current s)"
begin

text \<open>
  While a deadline is set, the last operation on the lock is the commit that set it: a second
  commit is refused, and apply and revert clear it.
\<close>

lemma pending_committed:
  assumes "history dl_step s0 h s" and "dl_deadline s0 = 0" and "dl_deadline s \<noteq> 0"
  shows "\<exists>t v. committed_at dl_kind h t v \<and> dl_deadline s = t + dl_delay \<and> dl_pending s = Some v"
  using assms(1,3)
proof (induction rule: history.induct)
  case history_start
  with assms(2) show ?case by simp
next
  case (history_step h s now a s')
  show ?case
  proof (cases "dl_kind a")
    case None
    from other_keeps [OF history_step.hyps(2) None]
    have same: "dl_deadline s' = dl_deadline s" "dl_pending s' = dl_pending s" by simp_all
    with history_step.prems have "dl_deadline s \<noteq> 0" by simp
    from history_step.IH [OF this] obtain t v where
      c: "committed_at dl_kind h t v" "dl_deadline s = t + dl_delay" "dl_pending s = Some v" by blast
    show ?thesis
      by (intro exI [of _ t] exI [of _ v]) (simp add: same c committed_at_later None)
  next
    case (Some k)
    show ?thesis
    proof (cases k)
      case (DCommit v)
      with Some commit_sets [OF history_step.hyps(2)] committed_at_now [of dl_kind a v]
      show ?thesis by blast
    next
      case DApply
      with Some apply_sets [OF history_step.hyps(2)] history_step.prems show ?thesis by simp
    next
      case DRevert
      with Some revert_sets [OF history_step.hyps(2)] history_step.prems show ?thesis by simp
    qed
  qed
qed

text \<open>
  The value in force changes only by an apply, of a value whose commit is the last operation on
  the lock and is at least a full delay old.
\<close>

lemma change_after_delay:
  assumes "history dl_step s0 h s" and "dl_deadline s0 = 0" and "dl_step now a s = Inr s'"
    and "dl_guarded s" and "dl_current s \<noteq> None" and "dl_current s' \<noteq> dl_current s"
  shows "\<exists>t v. committed_at dl_kind h t v \<and> t + dl_delay \<le> now \<and> dl_current s' = Some v"
proof -
  have a: "dl_kind a = Some DApply"
    using assms(3,5,6) commit_sets revert_sets other_keeps by (metis daction.exhaust option.exhaust)
  from apply_sets [OF assms(3) a] assms(4) have nz: "dl_deadline s \<noteq> 0"
    and due: "dl_deadline s \<le> now" and cur: "dl_current s' = dl_pending s" by auto
  from pending_committed [OF assms(1,2) nz] due cur show ?thesis by metis
qed

end

end
