(* ===== verification/Access_Control.thy ===== *)
theory Access_Control
  imports Delayed_Action
begin

text \<open>
  \<^verbatim>\<open>access_control/src\<close>: the roles, the instance-storage keys they live under, the guards the
  contracts call, and the delayed transfer of the two roles that need a delay (Admin and
  EmergencyAdmin). The storage is a record of three maps, one per type of stored value, indexed
  by the source's \<^verbatim>\<open>DataKey\<close>; TTL bumps have no effect on what a call computes and are left out.
  The module is used by every contract; \<open>Managed\<close> lifts it to their entry points.
\<close>

section \<open>Roles and keys\<close>

datatype role =
    Admin
  | EmergencyAdmin
  | RewardsAdmin
  | OperationsAdmin
  | PauseAdmin
  | EmergencyPauseAdmin
  | SystemFeeAdmin

fun has_many_users :: "role \<Rightarrow> bool" where
  "has_many_users Admin = False"
| "has_many_users EmergencyAdmin = False"
| "has_many_users RewardsAdmin = False"
| "has_many_users OperationsAdmin = False"
| "has_many_users PauseAdmin = False"
| "has_many_users EmergencyPauseAdmin = True"
| "has_many_users SystemFeeAdmin = False"

fun is_transfer_delayed :: "role \<Rightarrow> bool" where
  "is_transfer_delayed Admin = True"
| "is_transfer_delayed EmergencyAdmin = True"
| "is_transfer_delayed RewardsAdmin = False"
| "is_transfer_delayed OperationsAdmin = False"
| "is_transfer_delayed PauseAdmin = False"
| "is_transfer_delayed EmergencyPauseAdmin = False"
| "is_transfer_delayed SystemFeeAdmin = False"

fun as_symbol :: "role \<Rightarrow> symbol" where
  "as_symbol Admin = ''Admin''"
| "as_symbol EmergencyAdmin = ''EmergencyAdmin''"
| "as_symbol RewardsAdmin = ''RewardsAdmin''"
| "as_symbol OperationsAdmin = ''OperationsAdmin''"
| "as_symbol PauseAdmin = ''PauseAdmin''"
| "as_symbol EmergencyPauseAdmin = ''EmergencyPauseAdmin''"
| "as_symbol SystemFeeAdmin = ''SystemFeeAdmin''"

definition from_symbol :: "symbol \<Rightarrow> role res" where
  "from_symbol v =
     (if v = ''Admin'' then Inr Admin
      else if v = ''EmergencyAdmin'' then Inr EmergencyAdmin
      else if v = ''RewardsAdmin'' then Inr RewardsAdmin
      else if v = ''OperationsAdmin'' then Inr OperationsAdmin
      else if v = ''PauseAdmin'' then Inr PauseAdmin
      else if v = ''EmergencyPauseAdmin'' then Inr EmergencyPauseAdmin
      else if v = ''SystemFeeAdmin'' then Inr SystemFeeAdmin
      else Inl (AccessControlError AC_BadRoleUsage))"

datatype ac_key =
    K_Admin
  | K_EmergencyAdmin
  | K_Operator
  | K_OperationsAdmin
  | K_PauseAdmin
  | K_EmPauseAdmins
  | K_SystemFeeAdmin
  | K_FutureAdmin
  | K_FutureEmergencyAdmin
  | K_TransferOwnershipDeadline
  | K_EmAdminTransferOwnershipDeadline
  | K_EmergencyMode

fun get_key :: "role \<Rightarrow> ac_key" where
  "get_key Admin = K_Admin"
| "get_key EmergencyAdmin = K_EmergencyAdmin"
| "get_key RewardsAdmin = K_Operator"
| "get_key OperationsAdmin = K_OperationsAdmin"
| "get_key PauseAdmin = K_PauseAdmin"
| "get_key EmergencyPauseAdmin = K_EmPauseAdmins"
| "get_key SystemFeeAdmin = K_SystemFeeAdmin"

fun get_future_key :: "role \<Rightarrow> ac_key res" where
  "get_future_key Admin = Inr K_FutureAdmin"
| "get_future_key EmergencyAdmin = Inr K_FutureEmergencyAdmin"
| "get_future_key _ = Inl (AccessControlError AC_BadRoleUsage)"

fun get_future_deadline_key :: "role \<Rightarrow> ac_key res" where
  "get_future_deadline_key Admin = Inr K_TransferOwnershipDeadline"
| "get_future_deadline_key EmergencyAdmin = Inr K_EmAdminTransferOwnershipDeadline"
| "get_future_deadline_key _ = Inl (AccessControlError AC_BadRoleUsage)"

record access_control =
  ac_addr :: "ac_key \<rightharpoonup> address"
  ac_addrs :: "ac_key \<rightharpoonup> address list"
  ac_time :: "ac_key \<rightharpoonup> nat"
  ac_emergency :: "bool option"

definition empty_access_control :: access_control where
  "empty_access_control =
     \<lparr>ac_addr = Map.empty, ac_addrs = Map.empty, ac_time = Map.empty, ac_emergency = None\<rparr>"

definition ADMIN_ACTIONS_DELAY :: nat where
  "ADMIN_ACTIONS_DELAY = 3 * 86400"

section \<open>Emergency mode\<close>

definition get_emergency_mode :: "access_control \<Rightarrow> bool" where
  "get_emergency_mode ac = (case ac_emergency ac of None \<Rightarrow> False | Some b \<Rightarrow> b)"

definition set_emergency_mode :: "bool \<Rightarrow> access_control \<Rightarrow> access_control" where
  "set_emergency_mode b ac = ac\<lparr>ac_emergency := Some b\<rparr>"

section \<open>Role management\<close>

definition get_role_safe :: "access_control \<Rightarrow> role \<Rightarrow> address option res" where
  "get_role_safe ac r =
     (if has_many_users r then Inl (AccessControlError AC_BadRoleUsage)
      else Inr (ac_addr ac (get_key r)))"

definition get_role :: "access_control \<Rightarrow> role \<Rightarrow> address res" where
  "get_role ac r =
     andthen (case r of Admin \<Rightarrow> Inr () | _ \<Rightarrow> Inl (AccessControlError AC_BadRoleUsage)) (\<lambda>_.
     andthen (get_role_safe ac r) (\<lambda>opt.
     from_option (AccessControlError AC_RoleNotFound) opt))"

definition set_role_address :: "role \<Rightarrow> address \<Rightarrow> access_control \<Rightarrow> access_control res" where
  "set_role_address r a ac =
     (if has_many_users r then Inl (AccessControlError AC_BadRoleUsage)
      else andthen (get_role_safe ac r) (\<lambda>addr.
        if addr \<noteq> None \<and> is_transfer_delayed r then Inl (AccessControlError AC_BadRoleUsage)
        else Inr (ac\<lparr>ac_addr := (ac_addr ac)(get_key r \<mapsto> a)\<rparr>)))"

definition get_role_addresses :: "access_control \<Rightarrow> role \<Rightarrow> address list res" where
  "get_role_addresses ac r =
     (if \<not> has_many_users r then Inl (AccessControlError AC_BadRoleUsage)
      else Inr (case ac_addrs ac (get_key r) of None \<Rightarrow> [] | Some as \<Rightarrow> as))"

definition set_role_addresses :: "role \<Rightarrow> address list \<Rightarrow> access_control \<Rightarrow> access_control res" where
  "set_role_addresses r as ac =
     (if \<not> has_many_users r \<or> is_transfer_delayed r then Inl (AccessControlError AC_BadRoleUsage)
      else Inr (ac\<lparr>ac_addrs := (ac_addrs ac)(get_key r \<mapsto> as)\<rparr>))"

definition address_has_role :: "access_control \<Rightarrow> address \<Rightarrow> role \<Rightarrow> bool res" where
  "address_has_role ac a r =
     (if has_many_users r then andthen (get_role_addresses ac r) (\<lambda>as. Inr (a \<in> set as))
      else andthen (get_role_safe ac r) (\<lambda>opt.
        Inr (case opt of Some ra \<Rightarrow> a = ra | None \<Rightarrow> False)))"

definition assert_address_has_role :: "access_control \<Rightarrow> address \<Rightarrow> role \<Rightarrow> unit res" where
  "assert_address_has_role ac a r =
     andthen (address_has_role ac a r) (\<lambda>b. require b (AccessControlError AC_Unauthorized))"

section \<open>Delayed transfer of a role\<close>

definition get_transfer_ownership_deadline :: "access_control \<Rightarrow> role \<Rightarrow> nat res" where
  "get_transfer_ownership_deadline ac r =
     andthen (get_future_deadline_key r) (\<lambda>k.
     Inr (case ac_time ac k of None \<Rightarrow> 0 | Some t \<Rightarrow> t))"

definition put_transfer_ownership_deadline :: "role \<Rightarrow> nat \<Rightarrow> access_control \<Rightarrow> access_control res" where
  "put_transfer_ownership_deadline r t ac =
     andthen (get_future_deadline_key r) (\<lambda>k.
     Inr (ac\<lparr>ac_time := (ac_time ac)(k \<mapsto> t)\<rparr>))"

definition get_future_address :: "access_control \<Rightarrow> role \<Rightarrow> address res" where
  "get_future_address ac r =
     (if \<not> is_transfer_delayed r \<or> has_many_users r then Inl (AccessControlError AC_BadRoleUsage)
      else andthen (get_future_key r) (\<lambda>k.
        from_option (AccessControlError AC_NoActionActive) (ac_addr ac k)))"

definition commit_transfer_ownership ::
  "nat \<Rightarrow> role \<Rightarrow> address \<Rightarrow> access_control \<Rightarrow> access_control res" where
  "commit_transfer_ownership now r future_address ac =
     (if \<not> is_transfer_delayed r \<or> has_many_users r then Inl (AccessControlError AC_BadRoleUsage)
      else andthen (get_transfer_ownership_deadline ac r) (\<lambda>d.
        if d \<noteq> 0 then Inl (AccessControlError AC_AnotherActionActive)
        else andthen (u64_add now ADMIN_ACTIONS_DELAY) (\<lambda>deadline.
          andthen (put_transfer_ownership_deadline r deadline ac) (\<lambda>ac.
          andthen (get_future_key r) (\<lambda>k.
          Inr (ac\<lparr>ac_addr := (ac_addr ac)(k \<mapsto> future_address)\<rparr>))))))"

definition has_role_value :: "access_control \<Rightarrow> role \<Rightarrow> bool" where
  "has_role_value ac r \<longleftrightarrow> ac_addr ac (get_key r) \<noteq> None \<or> ac_addrs ac (get_key r) \<noteq> None"

definition apply_transfer_ownership ::
  "nat \<Rightarrow> role \<Rightarrow> access_control \<Rightarrow> (address \<times> access_control) res" where
  "apply_transfer_ownership now r ac =
     andthen
       (if has_role_value ac r
        then andthen (get_transfer_ownership_deadline ac r) (\<lambda>d.
          if now < d then Inl (AccessControlError AC_ActionNotReadyYet) else Inr ())
        else Inr ()) (\<lambda>_.
     andthen (get_transfer_ownership_deadline ac r) (\<lambda>d.
     if d = 0 then Inl (AccessControlError AC_NoActionActive)
     else andthen (put_transfer_ownership_deadline r 0 ac) (\<lambda>ac.
       andthen (get_future_key r) (\<lambda>k.
       andthen (from_option (StorageError ST_ValueNotInitialized) (ac_addr ac k)) (\<lambda>future_address.
       Inr (future_address, ac\<lparr>ac_addr := (ac_addr ac)(get_key r \<mapsto> future_address)\<rparr>))))))"

definition revert_transfer_ownership :: "role \<Rightarrow> access_control \<Rightarrow> access_control res" where
  "revert_transfer_ownership r ac = put_transfer_ownership_deadline r 0 ac"

section \<open>Guards\<close>

definition or_else :: "bool res \<Rightarrow> unit res \<Rightarrow> unit res" where
  \<comment> \<open>the short-circuit disjunction whose last operand panics\<close>
  "or_else m k = andthen m (\<lambda>b. if b then Inr () else k)"

abbreviation unauthorized :: "unit res" where
  "unauthorized \<equiv> Inl (AccessControlError AC_Unauthorized)"

definition require_rewards_admin_or_owner :: "access_control \<Rightarrow> address \<Rightarrow> unit res" where
  "require_rewards_admin_or_owner ac a =
     or_else (address_has_role ac a Admin)
     (or_else (address_has_role ac a RewardsAdmin) unauthorized)"

definition require_operations_admin_or_owner :: "access_control \<Rightarrow> address \<Rightarrow> unit res" where
  "require_operations_admin_or_owner ac a =
     or_else (address_has_role ac a OperationsAdmin)
     (or_else (address_has_role ac a Admin) unauthorized)"

definition require_system_fee_admin_or_owner :: "access_control \<Rightarrow> address \<Rightarrow> unit res" where
  "require_system_fee_admin_or_owner ac a =
     or_else (address_has_role ac a SystemFeeAdmin)
     (or_else (address_has_role ac a Admin) unauthorized)"

definition require_pause_or_emergency_pause_admin_or_owner ::
  "access_control \<Rightarrow> address \<Rightarrow> unit res" where
  "require_pause_or_emergency_pause_admin_or_owner ac a =
     or_else (address_has_role ac a PauseAdmin)
     (or_else (address_has_role ac a EmergencyPauseAdmin)
     (or_else (address_has_role ac a Admin) unauthorized))"

definition require_pause_admin_or_owner :: "access_control \<Rightarrow> address \<Rightarrow> unit res" where
  "require_pause_admin_or_owner ac a =
     or_else (address_has_role ac a PauseAdmin)
     (or_else (address_has_role ac a Admin) unauthorized)"

section \<open>Lemmas\<close>

definition holds :: "access_control \<Rightarrow> address \<Rightarrow> role \<Rightarrow> bool" where
  \<comment> \<open>who holds a role: the abstract reading of the stored maps\<close>
  "holds ac a r \<longleftrightarrow>
     (if has_many_users r then (\<exists>as. ac_addrs ac (get_key r) = Some as \<and> a \<in> set as)
      else ac_addr ac (get_key r) = Some a)"

lemma address_has_role_holds: "address_has_role ac a r = Inr (holds ac a r)"
  by (cases "ac_addrs ac (get_key r)"; cases "ac_addr ac (get_key r)")
    (auto simp: address_has_role_def get_role_addresses_def get_role_safe_def holds_def)

lemma assert_address_has_role_eq_Inr [res_simps]:
  "assert_address_has_role ac a r = Inr u \<longleftrightarrow> holds ac a r"
  by (simp add: assert_address_has_role_def address_has_role_holds res_simps)

lemma or_else_holds [simp]:
  "or_else (Inr b) k = (if b then Inr () else k)"
  by (simp add: or_else_def)

lemma require_role_eq_Inr [res_simps]:
  "require_rewards_admin_or_owner ac a = Inr u \<longleftrightarrow> holds ac a RewardsAdmin \<or> holds ac a Admin"
  "require_operations_admin_or_owner ac a = Inr u \<longleftrightarrow> holds ac a OperationsAdmin \<or> holds ac a Admin"
  "require_system_fee_admin_or_owner ac a = Inr u \<longleftrightarrow> holds ac a SystemFeeAdmin \<or> holds ac a Admin"
  "require_pause_admin_or_owner ac a = Inr u \<longleftrightarrow> holds ac a PauseAdmin \<or> holds ac a Admin"
  "require_pause_or_emergency_pause_admin_or_owner ac a = Inr u \<longleftrightarrow>
     holds ac a PauseAdmin \<or> holds ac a EmergencyPauseAdmin \<or> holds ac a Admin"
  by (auto simp: require_rewards_admin_or_owner_def require_operations_admin_or_owner_def
      require_system_fee_admin_or_owner_def require_pause_admin_or_owner_def
      require_pause_or_emergency_pause_admin_or_owner_def address_has_role_holds)

lemma get_key_inject [simp]: "get_key r = get_key r' \<longleftrightarrow> r = r'"
  by (cases r; cases r') simp_all

lemma as_symbol_inject: "as_symbol r = as_symbol r' \<Longrightarrow> r = r'"
  by (cases r; cases r') simp_all

text \<open>
  A role's key is never one of the keys of the transfer in progress.
\<close>

lemma get_key_not_future [simp]:
  "get_key r \<noteq> K_FutureAdmin" "get_key r \<noteq> K_FutureEmergencyAdmin"
  "K_FutureAdmin \<noteq> get_key r" "K_FutureEmergencyAdmin \<noteq> get_key r"
  by (cases r; simp)+


section \<open>Histories of role changes\<close>

text \<open>
  Every state-changing operation of the module as one step; a history is any sequence of
  successful ones at any times. Contracts reach the module's state through these only.
\<close>

datatype ac_op =
    SetRoleAddress role address
  | SetRoleAddresses role "address list"
  | CommitTransfer role address
  | ApplyTransfer role
  | RevertTransfer role
  | SetEmergencyMode bool

fun ac_step :: "nat \<Rightarrow> ac_op \<Rightarrow> access_control \<Rightarrow> access_control res" where
  "ac_step now (SetRoleAddress r a) ac = set_role_address r a ac"
| "ac_step now (SetRoleAddresses r as) ac = set_role_addresses r as ac"
| "ac_step now (CommitTransfer r a) ac = commit_transfer_ownership now r a ac"
| "ac_step now (ApplyTransfer r) ac =
     andthen (apply_transfer_ownership now r ac) (\<lambda>p. Inr (snd p))"
| "ac_step now (RevertTransfer r) ac = revert_transfer_ownership r ac"
| "ac_step now (SetEmergencyMode b) ac = Inr (set_emergency_mode b ac)"

definition transfer_kind :: "role \<Rightarrow> ac_op \<Rightarrow> address daction option" where
  "transfer_kind r a = (case a of
      CommitTransfer r' f \<Rightarrow> if r' = r then Some (DCommit f) else None
    | ApplyTransfer r' \<Rightarrow> if r' = r then Some DApply else None
    | RevertTransfer r' \<Rightarrow> if r' = r then Some DRevert else None
    | _ \<Rightarrow> None)"

definition transfer_deadline :: "role \<Rightarrow> access_control \<Rightarrow> nat" where
  "transfer_deadline r ac = (case get_transfer_ownership_deadline ac r of Inl _ \<Rightarrow> 0 | Inr d \<Rightarrow> d)"

definition transfer_pending :: "role \<Rightarrow> access_control \<Rightarrow> address option" where
  "transfer_pending r ac = (case get_future_key r of Inl _ \<Rightarrow> None | Inr k \<Rightarrow> ac_addr ac k)"

lemmas transfer_defs = transfer_deadline_def transfer_pending_def transfer_kind_def
  set_role_address_def set_role_addresses_def commit_transfer_ownership_def
  apply_transfer_ownership_def revert_transfer_ownership_def get_role_safe_def
  put_transfer_ownership_deadline_def get_transfer_ownership_deadline_def has_role_value_def
  set_emergency_mode_def

lemma delayed_role_cases: "is_transfer_delayed r \<Longrightarrow> (r = Admin \<Longrightarrow> P) \<Longrightarrow> (r = EmergencyAdmin \<Longrightarrow> P) \<Longrightarrow> P"
  by (cases r) auto

lemma transfer_commit:
  assumes "ac_step now a ac = Inr ac'" and "transfer_kind r a = Some (DCommit v)"
  shows "transfer_deadline r ac = 0 \<and> transfer_deadline r ac' = now + ADMIN_ACTIONS_DELAY \<and>
    transfer_pending r ac' = Some v \<and> ac_addr ac' (get_key r) = ac_addr ac (get_key r)"
proof -
  have a: "a = CommitTransfer r v"
    using assms(2) by (auto simp: transfer_kind_def split: ac_op.splits if_splits)
  with assms(1) have "is_transfer_delayed r" by (auto simp: transfer_defs res_simps)
  with assms(1) show ?thesis
    by (elim delayed_role_cases) (auto simp: a transfer_defs res_simps split: if_splits)
qed

lemma transfer_apply:
  assumes "ac_step now a ac = Inr ac'" and "transfer_kind r a = Some DApply"
  shows "transfer_deadline r ac \<noteq> 0 \<and>
    (has_role_value ac r \<longrightarrow> transfer_deadline r ac \<le> now) \<and>
    transfer_deadline r ac' = 0 \<and> ac_addr ac' (get_key r) = transfer_pending r ac"
proof -
  have a: "a = ApplyTransfer r"
    using assms(2) by (auto simp: transfer_kind_def split: ac_op.splits if_splits)
  with assms(1) have "is_transfer_delayed r"
    by (cases r) (auto simp: transfer_defs res_simps split: if_splits)
  with assms(1) show ?thesis
    by (elim delayed_role_cases) (auto simp: a transfer_defs res_simps split: if_splits)
qed

lemma transfer_revert:
  assumes "ac_step now a ac = Inr ac'" and "transfer_kind r a = Some DRevert"
  shows "transfer_deadline r ac' = 0 \<and> ac_addr ac' (get_key r) = ac_addr ac (get_key r)"
proof -
  have a: "a = RevertTransfer r"
    using assms(2) by (auto simp: transfer_kind_def split: ac_op.splits if_splits)
  show ?thesis using assms(1) by (cases r) (auto simp: a transfer_defs res_simps)
qed

lemma transfer_other:
  assumes "ac_step now a ac = Inr ac'" and "transfer_kind r a = None" and "is_transfer_delayed r"
  shows "transfer_deadline r ac' = transfer_deadline r ac \<and>
    transfer_pending r ac' = transfer_pending r ac \<and>
    (ac_addr ac (get_key r) \<noteq> None \<longrightarrow> ac_addr ac' (get_key r) = ac_addr ac (get_key r))"
proof -
  show ?thesis
  proof (cases a)
    case (SetRoleAddress r' x)
    then show ?thesis using assms
      by (cases r'; cases r) (auto simp: transfer_defs res_simps split: if_splits)
  next
    case (CommitTransfer r' x)
    then show ?thesis using assms
      by (cases r'; cases r) (auto simp: transfer_defs res_simps split: if_splits)
  next
    case (ApplyTransfer r')
    then show ?thesis using assms
      by (cases r'; cases r) (auto simp: transfer_defs res_simps split: if_splits)
  next
    case (RevertTransfer r')
    then show ?thesis using assms
      by (cases r'; cases r) (auto simp: transfer_defs res_simps split: if_splits)
  qed (use assms in \<open>auto simp: transfer_defs res_simps split: if_splits sum.splits\<close>)
qed

interpretation admin_transfer: delayed_action ac_step "transfer_kind Admin"
  "transfer_deadline Admin" "transfer_pending Admin" "\<lambda>ac. ac_addr ac (get_key Admin)"
  "\<lambda>ac. has_role_value ac Admin" ADMIN_ACTIONS_DELAY
  by unfold_locales
    (simp_all add: transfer_commit transfer_apply transfer_revert transfer_other del: get_key.simps)

interpretation emergency_transfer: delayed_action ac_step "transfer_kind EmergencyAdmin"
  "transfer_deadline EmergencyAdmin" "transfer_pending EmergencyAdmin"
  "\<lambda>ac. ac_addr ac (get_key EmergencyAdmin)"
  "\<lambda>ac. has_role_value ac EmergencyAdmin" ADMIN_ACTIONS_DELAY
  by unfold_locales
    (simp_all add: transfer_commit transfer_apply transfer_revert transfer_other del: get_key.simps)

section \<open>Properties\<close>

text \<open>
  Claim C33: over every history of the module's operations, the admin changes only by applying
  a transfer that was committed at least three days earlier and neither reverted, re-committed
  nor applied since, and the new admin is the committed address. The first admin is set
  without a delay, which is why the admin is assumed set.
\<close>

theorem admin_change_is_delayed:
  assumes "history ac_step empty_access_control h ac" and "ac_step now a ac = Inr ac'"
    and "ac_addr ac (get_key Admin) \<noteq> None"
    and "ac_addr ac' (get_key Admin) \<noteq> ac_addr ac (get_key Admin)"
  shows "\<exists>t new. committed_at (transfer_kind Admin) h t new \<and> t + 259200 \<le> now \<and>
    ac_addr ac' (get_key Admin) = Some new"
  using admin_transfer.change_after_delay [OF assms(1) _ assms(2) _ assms(3,4)] assms(3)
  by (simp add: ADMIN_ACTIONS_DELAY_def has_role_value_def transfer_deadline_def
      get_transfer_ownership_deadline_def empty_access_control_def)

definition sample_history :: "(nat \<times> ac_op) list" where
  "sample_history = [(100, CommitTransfer Admin 8), (5, SetRoleAddress Admin 7)]"

definition sample_ac :: access_control where
  "sample_ac = \<lparr>ac_addr = [K_Admin \<mapsto> 7, K_FutureAdmin \<mapsto> 8], ac_addrs = Map.empty,
     ac_time = [K_TransferOwnershipDeadline \<mapsto> 259300], ac_emergency = None\<rparr>"

lemma sample_history_runs: "history ac_step empty_access_control sample_history sample_ac"
  unfolding sample_history_def
  by (rule history_step, rule history_step, rule history_start)
    (auto simp: transfer_defs empty_access_control_def sample_ac_def ADMIN_ACTIONS_DELAY_def
      u_defs max_defs fun_eq_iff)

theorem admin_change_is_delayed_witness:
  "\<exists>t new. committed_at (transfer_kind Admin) sample_history t new \<and> t + 259200 \<le> 300000 \<and>
    Some 8 = Some new"
proof -
  define ac' where "ac' = sample_ac\<lparr>ac_addr := [K_Admin \<mapsto> 8, K_FutureAdmin \<mapsto> 8],
    ac_time := [K_TransferOwnershipDeadline \<mapsto> 0]\<rparr>"
  have "ac_step 300000 (ApplyTransfer Admin) sample_ac = Inr ac'"
    by (simp add: transfer_defs sample_ac_def ac'_def fun_upd_twist)
  from admin_change_is_delayed [OF sample_history_runs this] show ?thesis
    by (simp add: sample_ac_def ac'_def)
qed

text \<open>
  Role names are a faithful encoding: reading back the symbol of a role gives the
  role, and a symbol that is accepted is the name of the role it is read as.
\<close>

theorem role_symbol_round_trip:
  "from_symbol v = Inr r \<longleftrightarrow> v = as_symbol r"
  by (cases r) (auto simp: from_symbol_def)

end
