(* ===== verification/Managed.thy ===== *)
theory Managed
  imports Access_Control
begin

text \<open>
  \<^verbatim>\<open>upgrade/src\<close> and the administrative entry points that every contract of the repository
  implements on top of \<^verbatim>\<open>access_control\<close> and \<^verbatim>\<open>upgrade\<close> (the traits \<^verbatim>\<open>AdminInterface\<close>,
  \<^verbatim>\<open>UpgradeableContract\<close> and \<^verbatim>\<open>TransferableContract\<close>), as \<^verbatim>\<open>fees_collector/src/contract.rs\<close>
  has them: that contract consists of nothing else, and the other contracts repeat the same
  handlers. A wasm hash is a number; the running code is part of the state, so that an upgrade
  is visible.
\<close>

section \<open>The upgrade module\<close>

record upgrade_state =
  up_deadline :: "nat option"
  up_future_wasm :: "nat option"
  up_wasm :: nat

definition UPGRADE_DELAY :: nat where
  "UPGRADE_DELAY = 3 * 86400"

definition get_upgrade_deadline :: "upgrade_state \<Rightarrow> nat" where
  "get_upgrade_deadline up = (case up_deadline up of None \<Rightarrow> 0 | Some d \<Rightarrow> d)"

definition put_upgrade_deadline :: "nat \<Rightarrow> upgrade_state \<Rightarrow> upgrade_state" where
  "put_upgrade_deadline d up = up\<lparr>up_deadline := Some d\<rparr>"

definition put_future_wasm :: "nat \<Rightarrow> upgrade_state \<Rightarrow> upgrade_state" where
  "put_future_wasm w up = up\<lparr>up_future_wasm := Some w\<rparr>"

definition commit_upgrade :: "nat \<Rightarrow> nat \<Rightarrow> upgrade_state \<Rightarrow> upgrade_state res" where
  "commit_upgrade now new_wasm_hash up =
     (if get_upgrade_deadline up \<noteq> 0 then Inl (UpgradeError UP_AnotherActionActive)
      else andthen (u64_add now UPGRADE_DELAY) (\<lambda>deadline.
        Inr (put_future_wasm new_wasm_hash (put_upgrade_deadline deadline up))))"

definition apply_upgrade :: "nat \<Rightarrow> bool \<Rightarrow> upgrade_state \<Rightarrow> (nat \<times> upgrade_state) res" where
  "apply_upgrade now emergency_mode up =
     (if \<not> emergency_mode \<and> now < get_upgrade_deadline up
      then Inl (UpgradeError UP_ActionNotReadyYet)
      else if get_upgrade_deadline up = 0 then Inl (UpgradeError UP_NoActionActive)
      else andthen (from_option (StorageError ST_ValueNotInitialized) (up_future_wasm up))
        (\<lambda>new_wasm_hash. Inr (new_wasm_hash, (put_upgrade_deadline 0 up)\<lparr>up_wasm := new_wasm_hash\<rparr>)))"

definition revert_upgrade :: "upgrade_state \<Rightarrow> upgrade_state" where
  "revert_upgrade up = put_upgrade_deadline 0 up"

section \<open>Entry points\<close>

record managed =
  mg_ac :: access_control
  mg_up :: upgrade_state

definition with_ac :: "(access_control \<Rightarrow> access_control res) \<Rightarrow> managed \<Rightarrow> managed res" where
  "with_ac f m = andthen (f (mg_ac m)) (\<lambda>ac. Inr (m\<lparr>mg_ac := ac\<rparr>))"

definition as_role :: "env \<Rightarrow> address \<Rightarrow> role \<Rightarrow> access_control \<Rightarrow> unit res" where
  \<comment> \<open>the two first lines of every privileged handler\<close>
  "as_role e a r ac = andthen (require_auth e a) (\<lambda>_. assert_address_has_role ac a r)"

definition init_admin :: "address \<Rightarrow> managed \<Rightarrow> managed res" where
  "init_admin account m =
     andthen (get_role_safe (mg_ac m) Admin) (\<lambda>cur.
     if cur \<noteq> None then Inl (AccessControlError AC_AdminAlreadySet)
     else with_ac (set_role_address Admin account) m)"

definition entry_commit_upgrade :: "env \<Rightarrow> address \<Rightarrow> nat \<Rightarrow> managed \<Rightarrow> managed res" where
  "entry_commit_upgrade e admin new_wasm_hash m =
     andthen (as_role e admin Admin (mg_ac m)) (\<lambda>_.
     andthen (commit_upgrade (ledger_timestamp e) new_wasm_hash (mg_up m)) (\<lambda>up.
     Inr (m\<lparr>mg_up := up\<rparr>)))"

definition entry_apply_upgrade :: "env \<Rightarrow> address \<Rightarrow> managed \<Rightarrow> (nat \<times> managed) res" where
  "entry_apply_upgrade e admin m =
     andthen (as_role e admin Admin (mg_ac m)) (\<lambda>_.
     andthen (apply_upgrade (ledger_timestamp e) (get_emergency_mode (mg_ac m)) (mg_up m)) (\<lambda>p.
     Inr (fst p, m\<lparr>mg_up := snd p\<rparr>)))"

definition entry_revert_upgrade :: "env \<Rightarrow> address \<Rightarrow> managed \<Rightarrow> managed res" where
  "entry_revert_upgrade e admin m =
     andthen (as_role e admin Admin (mg_ac m)) (\<lambda>_.
     Inr (m\<lparr>mg_up := revert_upgrade (mg_up m)\<rparr>))"

definition entry_set_emergency_mode :: "env \<Rightarrow> address \<Rightarrow> bool \<Rightarrow> managed \<Rightarrow> managed res" where
  "entry_set_emergency_mode e emergency_admin v m =
     andthen (as_role e emergency_admin EmergencyAdmin (mg_ac m)) (\<lambda>_.
     Inr (m\<lparr>mg_ac := set_emergency_mode v (mg_ac m)\<rparr>))"

definition entry_commit_transfer_ownership ::
  "env \<Rightarrow> address \<Rightarrow> symbol \<Rightarrow> address \<Rightarrow> managed \<Rightarrow> managed res" where
  "entry_commit_transfer_ownership e admin role_name new_address m =
     andthen (as_role e admin Admin (mg_ac m)) (\<lambda>_.
     andthen (from_symbol role_name) (\<lambda>r.
     with_ac (commit_transfer_ownership (ledger_timestamp e) r new_address) m))"

definition entry_apply_transfer_ownership :: "env \<Rightarrow> address \<Rightarrow> symbol \<Rightarrow> managed \<Rightarrow> managed res" where
  "entry_apply_transfer_ownership e admin role_name m =
     andthen (as_role e admin Admin (mg_ac m)) (\<lambda>_.
     andthen (from_symbol role_name) (\<lambda>r.
     with_ac (\<lambda>ac. andthen (apply_transfer_ownership (ledger_timestamp e) r ac) (\<lambda>p. Inr (snd p))) m))"

definition entry_revert_transfer_ownership :: "env \<Rightarrow> address \<Rightarrow> symbol \<Rightarrow> managed \<Rightarrow> managed res" where
  "entry_revert_transfer_ownership e admin role_name m =
     andthen (as_role e admin Admin (mg_ac m)) (\<lambda>_.
     andthen (from_symbol role_name) (\<lambda>r.
     with_ac (revert_transfer_ownership r) m))"

definition entry_get_future_address :: "symbol \<Rightarrow> managed \<Rightarrow> address res" where
  "entry_get_future_address role_name m =
     andthen (from_symbol role_name) (\<lambda>r.
     andthen (get_transfer_ownership_deadline (mg_ac m) r) (\<lambda>d.
     if d = 0 then
       andthen (get_role_safe (mg_ac m) r) (\<lambda>opt.
       from_option (AccessControlError AC_RoleNotFound) opt)
     else get_future_address (mg_ac m) r))"

section \<open>One step of a managed contract\<close>

datatype managed_op =
    InitAdmin address
  | CommitUpgrade address nat
  | ApplyUpgrade address
  | RevertUpgrade address
  | SetEmergency address bool
  | CommitTransferOwnership address symbol address
  | ApplyTransferOwnership address symbol
  | RevertTransferOwnership address symbol

fun managed_entry :: "env \<Rightarrow> managed_op \<Rightarrow> managed \<Rightarrow> managed res" where
  "managed_entry e (InitAdmin a) m = init_admin a m"
| "managed_entry e (CommitUpgrade a w) m = entry_commit_upgrade e a w m"
| "managed_entry e (ApplyUpgrade a) m = andthen (entry_apply_upgrade e a m) (\<lambda>p. Inr (snd p))"
| "managed_entry e (RevertUpgrade a) m = entry_revert_upgrade e a m"
| "managed_entry e (SetEmergency a v) m = entry_set_emergency_mode e a v m"
| "managed_entry e (CommitTransferOwnership a r x) m = entry_commit_transfer_ownership e a r x m"
| "managed_entry e (ApplyTransferOwnership a r) m = entry_apply_transfer_ownership e a r m"
| "managed_entry e (RevertTransferOwnership a r) m = entry_revert_transfer_ownership e a r m"

text \<open>A call carries its own environment; the ledger's close time is the history's.\<close>

definition managed_step :: "nat \<Rightarrow> env \<times> managed_op \<Rightarrow> managed \<Rightarrow> managed res" where
  "managed_step now c m = managed_entry ((fst c)\<lparr>ledger_timestamp := now\<rparr>) (snd c) m"

definition upgrade_kind :: "env \<times> managed_op \<Rightarrow> nat daction option" where
  "upgrade_kind c = (case snd c of
      CommitUpgrade _ w \<Rightarrow> Some (DCommit w)
    | ApplyUpgrade _ \<Rightarrow> Some DApply
    | RevertUpgrade _ \<Rightarrow> Some DRevert
    | _ \<Rightarrow> None)"

definition entry_transfer_kind :: "role \<Rightarrow> env \<times> managed_op \<Rightarrow> address daction option" where
  "entry_transfer_kind r c = (case snd c of
      CommitTransferOwnership _ s x \<Rightarrow> if s = as_symbol r then Some (DCommit x) else None
    | ApplyTransferOwnership _ s \<Rightarrow> if s = as_symbol r then Some DApply else None
    | RevertTransferOwnership _ s \<Rightarrow> if s = as_symbol r then Some DRevert else None
    | _ \<Rightarrow> None)"

text \<open>The steps of the modules that an entry point is made of.\<close>

definition ac_op_of :: "managed_op \<Rightarrow> ac_op option" where
  "ac_op_of a = (case a of
      InitAdmin x \<Rightarrow> Some (SetRoleAddress Admin x)
    | SetEmergency _ v \<Rightarrow> Some (SetEmergencyMode v)
    | CommitTransferOwnership _ s x \<Rightarrow>
        (case from_symbol s of Inl _ \<Rightarrow> None | Inr r \<Rightarrow> Some (CommitTransfer r x))
    | ApplyTransferOwnership _ s \<Rightarrow>
        (case from_symbol s of Inl _ \<Rightarrow> None | Inr r \<Rightarrow> Some (ApplyTransfer r))
    | RevertTransferOwnership _ s \<Rightarrow>
        (case from_symbol s of Inl _ \<Rightarrow> None | Inr r \<Rightarrow> Some (RevertTransfer r))
    | _ \<Rightarrow> None)"

lemmas upgrade_defs = commit_upgrade_def apply_upgrade_def revert_upgrade_def
  put_upgrade_deadline_def put_future_wasm_def get_upgrade_deadline_def

lemmas entry_defs = init_admin_def entry_commit_upgrade_def entry_apply_upgrade_def
  entry_revert_upgrade_def entry_set_emergency_mode_def entry_commit_transfer_ownership_def
  entry_apply_transfer_ownership_def entry_revert_transfer_ownership_def with_ac_def

lemma as_role_eq_Inr [res_simps]: "as_role e a r ac = Inr u \<longleftrightarrow> authorized e a \<and> holds ac a r"
  by (simp add: as_role_def res_simps)

lemma from_symbol_as_symbol [simp]: "from_symbol (as_symbol r) = Inr r"
  by (cases r) (simp_all add: from_symbol_def)

lemma from_symbol_InrD: "from_symbol s = Inr r \<Longrightarrow> s = as_symbol r"
  by (auto simp: from_symbol_def split: if_splits)

text \<open>An entry point is one step of the access-control module, or does not change its state.\<close>

lemma managed_step_ac:
  assumes "managed_step now c m = Inr m'"
  shows "(case ac_op_of (snd c) of None \<Rightarrow> mg_ac m' = mg_ac m
    | Some a \<Rightarrow> ac_step now a (mg_ac m) = Inr (mg_ac m'))"
  using assms
  by (cases "snd c") (auto simp: managed_step_def entry_defs ac_op_of_def res_simps split: if_splits)

lemma entry_transfer_kind_ac_op:
  assumes "managed_step now c m = Inr m'"
  shows "entry_transfer_kind r c = (case ac_op_of (snd c) of None \<Rightarrow> None | Some a \<Rightarrow> transfer_kind r a)"
  using assms
  by (cases "snd c") (auto simp: managed_step_def entry_defs ac_op_of_def res_simps
      entry_transfer_kind_def transfer_kind_def dest!: from_symbol_InrD as_symbol_inject split: if_splits)

section \<open>The delays, for the entry points\<close>

lemma managed_transfer_delayed:
  assumes "is_transfer_delayed r"
  shows "delayed_action managed_step (entry_transfer_kind r) (\<lambda>m. transfer_deadline r (mg_ac m))
    (\<lambda>m. transfer_pending r (mg_ac m)) (\<lambda>m. ac_addr (mg_ac m) (get_key r))
    (\<lambda>m. has_role_value (mg_ac m) r) ADMIN_ACTIONS_DELAY"
proof unfold_locales
  fix now c m m' v
  assume step: "managed_step now c m = Inr m'"
  note a = managed_step_ac [OF step] and k = entry_transfer_kind_ac_op [OF step, of r]
  show "entry_transfer_kind r c = Some (DCommit v) \<Longrightarrow> transfer_deadline r (mg_ac m) = 0 \<and>
      transfer_deadline r (mg_ac m') = now + ADMIN_ACTIONS_DELAY \<and>
      transfer_pending r (mg_ac m') = Some v \<and>
      ac_addr (mg_ac m') (get_key r) = ac_addr (mg_ac m) (get_key r)"
    using a k transfer_commit by (simp split: option.splits)
  show "entry_transfer_kind r c = Some DApply \<Longrightarrow> transfer_deadline r (mg_ac m) \<noteq> 0 \<and>
      (has_role_value (mg_ac m) r \<longrightarrow> transfer_deadline r (mg_ac m) \<le> now) \<and>
      transfer_deadline r (mg_ac m') = 0 \<and>
      ac_addr (mg_ac m') (get_key r) = transfer_pending r (mg_ac m)"
    using a k transfer_apply by (simp split: option.splits)
  show "entry_transfer_kind r c = Some DRevert \<Longrightarrow> transfer_deadline r (mg_ac m') = 0 \<and>
      ac_addr (mg_ac m') (get_key r) = ac_addr (mg_ac m) (get_key r)"
    using a k transfer_revert by (simp split: option.splits)
  show "entry_transfer_kind r c = None \<Longrightarrow>
      transfer_deadline r (mg_ac m') = transfer_deadline r (mg_ac m) \<and>
      transfer_pending r (mg_ac m') = transfer_pending r (mg_ac m) \<and>
      (ac_addr (mg_ac m) (get_key r) \<noteq> None \<longrightarrow>
        ac_addr (mg_ac m') (get_key r) = ac_addr (mg_ac m) (get_key r))"
    using a k transfer_other [OF _ _ assms] by (simp split: option.splits)
qed

interpretation managed_admin: delayed_action managed_step "entry_transfer_kind Admin"
  "\<lambda>m. transfer_deadline Admin (mg_ac m)" "\<lambda>m. transfer_pending Admin (mg_ac m)"
  "\<lambda>m. ac_addr (mg_ac m) (get_key Admin)" "\<lambda>m. has_role_value (mg_ac m) Admin" ADMIN_ACTIONS_DELAY
  by (rule managed_transfer_delayed) simp

interpretation managed_upgrade: delayed_action managed_step upgrade_kind
  "\<lambda>m. get_upgrade_deadline (mg_up m)" "\<lambda>m. up_future_wasm (mg_up m)"
  "\<lambda>m. Some (up_wasm (mg_up m))" "\<lambda>m. \<not> get_emergency_mode (mg_ac m)" UPGRADE_DELAY
proof unfold_locales
  fix now c m m' v
  assume step: "managed_step now c m = Inr m'"
  note defs = managed_step_def entry_defs upgrade_defs upgrade_kind_def res_simps
  show "upgrade_kind c = Some (DCommit v) \<Longrightarrow> get_upgrade_deadline (mg_up m) = 0 \<and>
      get_upgrade_deadline (mg_up m') = now + UPGRADE_DELAY \<and> up_future_wasm (mg_up m') = Some v \<and>
      Some (up_wasm (mg_up m')) = Some (up_wasm (mg_up m))"
    using step by (cases "snd c") (auto simp: defs split: if_splits)
  show "upgrade_kind c = Some DApply \<Longrightarrow> get_upgrade_deadline (mg_up m) \<noteq> 0 \<and>
      (\<not> get_emergency_mode (mg_ac m) \<longrightarrow> get_upgrade_deadline (mg_up m) \<le> now) \<and>
      get_upgrade_deadline (mg_up m') = 0 \<and> Some (up_wasm (mg_up m')) = up_future_wasm (mg_up m)"
    using step by (cases "snd c") (auto simp: defs split: if_splits)
  show "upgrade_kind c = Some DRevert \<Longrightarrow> get_upgrade_deadline (mg_up m') = 0 \<and>
      Some (up_wasm (mg_up m')) = Some (up_wasm (mg_up m))"
    using step by (cases "snd c") (auto simp: defs split: if_splits)
  show "upgrade_kind c = None \<Longrightarrow> get_upgrade_deadline (mg_up m') = get_upgrade_deadline (mg_up m) \<and>
      up_future_wasm (mg_up m') = up_future_wasm (mg_up m) \<and>
      (Some (up_wasm (mg_up m)) \<noteq> None \<longrightarrow> Some (up_wasm (mg_up m')) = Some (up_wasm (mg_up m)))"
    using step by (cases "snd c") (auto simp: defs split: if_splits)
qed

section \<open>Properties\<close>

definition new_managed :: "nat \<Rightarrow> managed" where
  "new_managed wasm = \<lparr>mg_ac = empty_access_control,
     mg_up = \<lparr>up_deadline = None, up_future_wasm = None, up_wasm = wasm\<rparr>\<rparr>"

text \<open>
  Claim C34: over every history of calls to a managed contract, while it is not in emergency
  mode, the running code changes only by applying an upgrade that was committed at least three
  days earlier, is the last upgrade operation, and is the code then committed.
\<close>

theorem upgrade_is_delayed:
  assumes "history managed_step (new_managed w0) h m" and "managed_step now c m = Inr m'"
    and "\<not> get_emergency_mode (mg_ac m)" and "up_wasm (mg_up m') \<noteq> up_wasm (mg_up m)"
  shows "\<exists>t. committed_at upgrade_kind h t (up_wasm (mg_up m')) \<and> t + 259200 \<le> now"
  using managed_upgrade.change_after_delay [OF assms(1) _ assms(2,3)] assms(4)
  by (auto simp: UPGRADE_DELAY_def new_managed_def get_upgrade_deadline_def)

definition anyone :: env where
  \<comment> \<open>a call that everyone has signed\<close>
  "anyone = \<lparr>ledger_timestamp = 0, ledger_sequence = 0, authorized = (\<lambda>_. True), current_contract = 0\<rparr>"

definition sample_managed :: managed where
  "sample_managed = \<lparr>mg_ac = \<lparr>ac_addr = [K_Admin \<mapsto> 7], ac_addrs = Map.empty, ac_time = Map.empty,
       ac_emergency = None\<rparr>,
     mg_up = \<lparr>up_deadline = Some 259210, up_future_wasm = Some 42, up_wasm = 1\<rparr>\<rparr>"

lemma sample_managed_history:
  "history managed_step (new_managed 1) [(10, anyone, CommitUpgrade 7 42), (5, anyone, InitAdmin 7)]
    sample_managed"
  by (rule history_step, rule history_step, rule history_start)
    (auto simp: managed_step_def entry_defs upgrade_defs new_managed_def empty_access_control_def
      sample_managed_def anyone_def as_role_def require_auth_def holds_def assert_address_has_role_def
      address_has_role_holds get_role_safe_def set_role_address_def UPGRADE_DELAY_def u_defs max_defs)

theorem upgrade_is_delayed_witness:
  "\<exists>t. committed_at upgrade_kind [(10, anyone, CommitUpgrade 7 42), (5, anyone, InitAdmin 7)] t 42 \<and>
    t + 259200 \<le> 259210"
proof -
  define m' where "m' = sample_managed\<lparr>mg_up := \<lparr>up_deadline = Some 0, up_future_wasm = Some 42,
    up_wasm = 42\<rparr>\<rparr>"
  have "managed_step 259210 (anyone, ApplyUpgrade 7) sample_managed = Inr m'"
    by (simp add: managed_step_def entry_defs upgrade_defs sample_managed_def m'_def anyone_def
        as_role_def require_auth_def holds_def assert_address_has_role_def address_has_role_holds
        get_emergency_mode_def)
  from upgrade_is_delayed [OF sample_managed_history this] show ?thesis
    by (simp add: m'_def sample_managed_def get_emergency_mode_def)
qed

fun needed_role :: "managed_op \<Rightarrow> (address \<times> role) option" where
  \<comment> \<open>who has to sign an entry point, and the role that needs; \<open>init_admin\<close> needs no admin yet\<close>
  "needed_role (InitAdmin _) = None"
| "needed_role (CommitUpgrade a _) = Some (a, Admin)"
| "needed_role (ApplyUpgrade a) = Some (a, Admin)"
| "needed_role (RevertUpgrade a) = Some (a, Admin)"
| "needed_role (SetEmergency a _) = Some (a, EmergencyAdmin)"
| "needed_role (CommitTransferOwnership a _ _) = Some (a, Admin)"
| "needed_role (ApplyTransferOwnership a _) = Some (a, Admin)"
| "needed_role (RevertTransferOwnership a _) = Some (a, Admin)"

definition same_holders :: "managed \<Rightarrow> managed \<Rightarrow> role \<Rightarrow> bool" where
  "same_holders m m' r \<longleftrightarrow> (\<forall>a. holds (mg_ac m') a r = holds (mg_ac m) a r)"

fun allowed_change :: "managed_op \<Rightarrow> managed \<Rightarrow> managed \<Rightarrow> bool" where
  \<comment> \<open>the part of the state that an entry point may change\<close>
  "allowed_change (InitAdmin _) m m' \<longleftrightarrow> False"
| "allowed_change (CommitUpgrade _ h) m m' \<longleftrightarrow>
     mg_ac m' = mg_ac m \<and> up_wasm (mg_up m') = up_wasm (mg_up m) \<and> up_future_wasm (mg_up m') = Some h"
| "allowed_change (ApplyUpgrade _) m m' \<longleftrightarrow> mg_ac m' = mg_ac m \<and> Some (up_wasm (mg_up m')) = up_future_wasm (mg_up m)"
| "allowed_change (RevertUpgrade _) m m' \<longleftrightarrow> mg_ac m' = mg_ac m \<and> up_wasm (mg_up m') = up_wasm (mg_up m)"
| "allowed_change (SetEmergency _ v) m m' \<longleftrightarrow> m' = m\<lparr>mg_ac := (mg_ac m)\<lparr>ac_emergency := Some v\<rparr>\<rparr>"
| "allowed_change (CommitTransferOwnership _ s _) m m' \<longleftrightarrow> mg_up m' = mg_up m \<and>
     get_emergency_mode (mg_ac m') = get_emergency_mode (mg_ac m) \<and> (\<forall>r. same_holders m m' r)"
| "allowed_change (ApplyTransferOwnership _ s) m m' \<longleftrightarrow> mg_up m' = mg_up m \<and>
     get_emergency_mode (mg_ac m') = get_emergency_mode (mg_ac m) \<and> (\<forall>r. as_symbol r \<noteq> s \<longrightarrow> same_holders m m' r)"
| "allowed_change (RevertTransferOwnership _ s) m m' \<longleftrightarrow> mg_up m' = mg_up m \<and>
     get_emergency_mode (mg_ac m') = get_emergency_mode (mg_ac m) \<and> (\<forall>r. same_holders m m' r)"

lemma as_role_cases:
  "as_role e a r ac = (if \<not> authorized e a then Inl AuthError else if holds ac a r then Inr () else unauthorized)"
  by (auto simp: as_role_def require_auth_def assert_address_has_role_def address_has_role_holds require_def)

lemma get_key_admins: "get_key r = K_Admin \<longleftrightarrow> r = Admin" "get_key r = K_EmergencyAdmin \<longleftrightarrow> r = EmergencyAdmin"
  by (cases r; simp)+

lemma transfer_keeps:
  "commit_transfer_ownership now r x ac = Inr ac' \<Longrightarrow> holds ac' a r' = holds ac a r' \<and> ac_emergency ac' = ac_emergency ac"
  "apply_transfer_ownership now r ac = Inr (y, ac') \<Longrightarrow> (r' \<noteq> r \<longrightarrow> holds ac' a r' = holds ac a r') \<and> ac_emergency ac' = ac_emergency ac"
  "revert_transfer_ownership r ac = Inr ac' \<Longrightarrow> holds ac' a r' = holds ac a r' \<and> ac_emergency ac' = ac_emergency ac"
    apply (cases r; auto simp: commit_transfer_ownership_def put_transfer_ownership_deadline_def res_simps holds_def split: if_splits; fail)
   apply (cases r; auto simp: apply_transfer_ownership_def put_transfer_ownership_deadline_def res_simps holds_def get_key_admins split: if_splits; fail)
  apply (cases r; auto simp: revert_transfer_ownership_def put_transfer_ownership_deadline_def res_simps holds_def; fail)
  done

lemma entry_guarded:
  assumes "needed_role op = Some (a, r)"
  obtains k where "managed_entry e op m = andthen (as_role e a r (mg_ac m)) k"
  using assms
  by (cases op) (auto simp: entry_commit_upgrade_def entry_apply_upgrade_def entry_revert_upgrade_def entry_set_emergency_mode_def
      entry_commit_transfer_ownership_def entry_apply_transfer_ownership_def entry_revert_transfer_ownership_def andthen_assoc)

lemma entry_change_allowed:
  assumes "managed_entry e op m = Inr m'" and "needed_role op = Some (a, r)"
  shows "allowed_change op m m'"
proof (cases op)
  case (CommitTransferOwnership x s y)
  with assms(1) obtain r ac where "commit_transfer_ownership (ledger_timestamp e) r y (mg_ac m) = Inr ac" "m' = m\<lparr>mg_ac := ac\<rparr>"
    by (auto simp: entry_commit_transfer_ownership_def with_ac_def andthen_eq_Inr)
  then show ?thesis using transfer_keeps(1) CommitTransferOwnership by (auto simp: same_holders_def get_emergency_mode_def)
next
  case (ApplyTransferOwnership x s)
  with assms(1) obtain r y ac where fs: "from_symbol s = Inr r"
    and ap: "apply_transfer_ownership (ledger_timestamp e) r (mg_ac m) = Inr (y, ac)" and m': "m' = m\<lparr>mg_ac := ac\<rparr>"
    by (auto simp: entry_apply_transfer_ownership_def with_ac_def andthen_eq_Inr)
  have "holds ac b q = holds (mg_ac m) b q" if "as_symbol q \<noteq> s" for b q
    using transfer_keeps(2) [OF ap, of q b] from_symbol_InrD [OF fs] that by auto
  then show ?thesis using transfer_keeps(2) [OF ap] ApplyTransferOwnership m' by (simp add: same_holders_def get_emergency_mode_def)
next
  case (RevertTransferOwnership x s)
  with assms(1) obtain r ac where "revert_transfer_ownership r (mg_ac m) = Inr ac" "m' = m\<lparr>mg_ac := ac\<rparr>"
    by (auto simp: entry_revert_transfer_ownership_def with_ac_def andthen_eq_Inr)
  then show ?thesis using transfer_keeps(3) RevertTransferOwnership by (auto simp: same_holders_def get_emergency_mode_def)
next
  case (InitAdmin x)
  with assms(2) show ?thesis by simp
qed (use assms(1) in \<open>auto simp: entry_commit_upgrade_def entry_apply_upgrade_def entry_revert_upgrade_def
    entry_set_emergency_mode_def upgrade_defs set_emergency_mode_def res_simps split: if_splits\<close>)

text \<open>
  Claim C35: who may change what. Once the admin is set, \<open>init_admin\<close> is an error, and every other
  entry point is an error unless the caller signed it and holds the role it needs: the emergency switch the emergency admin's, the
  upgrade and transfer handlers the admin's. A successful call changes its own part of the state only: upgrades leave
  roles and emergency mode alone, the emergency switch all but the mode, and of the transfers only an apply
  changes a holder, of the role it names.
\<close>

theorem managed_changes_need_role:
  assumes "ac_addr (mg_ac m) K_Admin \<noteq> None"
  shows "case needed_role op of
      None \<Rightarrow> managed_entry e op m = Inl (AccessControlError AC_AdminAlreadySet)
    | Some (a, r) \<Rightarrow>
        (\<not> authorized e a \<longrightarrow> managed_entry e op m = Inl AuthError) \<and>
        (authorized e a \<and> \<not> holds (mg_ac m) a r \<longrightarrow> managed_entry e op m = Inl (AccessControlError AC_Unauthorized)) \<and>
        (\<forall>m'. managed_entry e op m = Inr m' \<longrightarrow> authorized e a \<and> holds (mg_ac m) a r \<and> allowed_change op m m')"
proof (cases "needed_role op")
  case None
  with assms show ?thesis by (cases op) (auto simp: entry_defs get_role_safe_def)
next
  case (Some p)
  obtain a r where p: "p = (a, r)" by fastforce
  from Some p obtain k where k: "managed_entry e op m = andthen (as_role e a r (mg_ac m)) k"
    using entry_guarded by metis
  show ?thesis using entry_change_allowed [of e op m] by (auto simp: Some p k as_role_cases split: if_splits)
qed

theorem managed_changes_need_role_witness:
  "managed_entry anyone (SetEmergency 7 True) sample_managed = Inl (AccessControlError AC_Unauthorized)"
proof -
  have "ac_addr (mg_ac sample_managed) K_Admin \<noteq> None" by (simp add: sample_managed_def)
  from managed_changes_need_role [OF this, of anyone "SetEmergency 7 True"] show ?thesis
    by (auto simp: sample_managed_def anyone_def holds_def)
qed

end
