(* ===== verification/Reward_Storage.thy ===== *)
theory Reward_Storage
  imports Prelude
begin

text \<open>
  \<^verbatim>\<open>rewards/src/storage.rs\<close>: the rewards state of a pool, with the per-manager cache of the
  aggregated reward pages. \<^verbatim>\<open>Storage\<close> is created once per manager, so the cache starts
  empty in every call (\<open>new_storage\<close>). A page that only exists in the legacy layout, a map from
  cell number to value, is converted to a vector when it is first read.
\<close>

section \<open>Stored data\<close>

record pool_reward_config =
  tps :: nat
  expired_at :: nat

record pool_reward_data =
  block :: nat
  accumulated :: nat
  claimed :: nat
  last_time :: nat

record user_reward_data =
  pool_accumulated :: nat
  to_claim :: nat
  last_block :: nat

record rewards =
  rw_config :: "pool_reward_config option"
  rw_data :: "pool_reward_data option"
  rw_user_data :: "address \<rightharpoonup> user_reward_data"
  rw_inv_legacy :: "nat \<times> nat \<rightharpoonup> (nat \<times> nat) list"
  rw_inv :: "nat \<times> nat \<rightharpoonup> nat list"
  rw_inv_cache :: "nat \<times> nat \<rightharpoonup> nat list"
  rw_token :: "address option"
  rw_boost_token :: "address option"
  rw_boost_feed :: "address option"
  rw_working_balance :: "address \<rightharpoonup> nat"
  rw_working_supply :: "nat option"
  rw_excluded_shares :: "nat option"
  rw_user_state :: "address \<rightharpoonup> bool"

definition empty_rewards :: rewards where
  "empty_rewards = \<lparr>rw_config = None, rw_data = None, rw_user_data = Map.empty,
     rw_inv_legacy = Map.empty, rw_inv = Map.empty, rw_inv_cache = Map.empty, rw_token = None,
     rw_boost_token = None, rw_boost_feed = None, rw_working_balance = Map.empty,
     rw_working_supply = None, rw_excluded_shares = None, rw_user_state = Map.empty\<rparr>"

definition new_storage :: "rewards \<Rightarrow> rewards" where
  "new_storage s = s\<lparr>rw_inv_cache := Map.empty\<rparr>"

section \<open>Getters and setters\<close>

definition get_pool_reward_config :: "rewards \<Rightarrow> pool_reward_config" where
  "get_pool_reward_config s =
     (case rw_config s of Some v \<Rightarrow> v | None \<Rightarrow> \<lparr>tps = 0, expired_at = 0\<rparr>)"

definition set_pool_reward_config :: "pool_reward_config \<Rightarrow> rewards \<Rightarrow> rewards" where
  "set_pool_reward_config c s = s\<lparr>rw_config := Some c\<rparr>"

definition get_pool_reward_data :: "rewards \<Rightarrow> pool_reward_data" where
  "get_pool_reward_data s = (case rw_data s of Some v \<Rightarrow> v
     | None \<Rightarrow> \<lparr>block = 0, accumulated = 0, claimed = 0, last_time = 0\<rparr>)"

definition set_pool_reward_data :: "pool_reward_data \<Rightarrow> rewards \<Rightarrow> rewards" where
  "set_pool_reward_data d s = s\<lparr>rw_data := Some d\<rparr>"

definition set_user_reward_data :: "address \<Rightarrow> user_reward_data \<Rightarrow> rewards \<Rightarrow> rewards" where
  "set_user_reward_data u d s = s\<lparr>rw_user_data := (rw_user_data s)(u \<mapsto> d)\<rparr>"

definition get_reward_token :: "rewards \<Rightarrow> address res" where
  "get_reward_token s = from_option (StorageError ST_ValueNotInitialized) (rw_token s)"

definition put_reward_token :: "address \<Rightarrow> rewards \<Rightarrow> rewards" where
  "put_reward_token a s = s\<lparr>rw_token := Some a\<rparr>"

definition has_reward_token :: "rewards \<Rightarrow> bool" where
  "has_reward_token s \<longleftrightarrow> rw_token s \<noteq> None"

definition put_reward_boost_token :: "address \<Rightarrow> rewards \<Rightarrow> rewards" where
  "put_reward_boost_token a s = s\<lparr>rw_boost_token := Some a\<rparr>"

definition put_reward_boost_feed :: "address \<Rightarrow> rewards \<Rightarrow> rewards" where
  "put_reward_boost_feed a s = s\<lparr>rw_boost_feed := Some a\<rparr>"

definition set_working_balance :: "address \<Rightarrow> nat \<Rightarrow> rewards \<Rightarrow> rewards" where
  "set_working_balance u v s = s\<lparr>rw_working_balance := (rw_working_balance s)(u \<mapsto> v)\<rparr>"

definition set_working_supply :: "nat \<Rightarrow> rewards \<Rightarrow> rewards" where
  "set_working_supply v s = s\<lparr>rw_working_supply := Some v\<rparr>"

definition get_total_excluded_shares :: "rewards \<Rightarrow> nat" where
  "get_total_excluded_shares s = (case rw_excluded_shares s of Some v \<Rightarrow> v | None \<Rightarrow> 0)"

definition set_total_excluded_shares :: "nat \<Rightarrow> rewards \<Rightarrow> rewards" where
  "set_total_excluded_shares v s = s\<lparr>rw_excluded_shares := Some v\<rparr>"

definition get_user_rewards_state :: "rewards \<Rightarrow> address \<Rightarrow> bool" where
  "get_user_rewards_state s u = (case rw_user_state s u of Some v \<Rightarrow> v | None \<Rightarrow> True)"

definition put_user_rewards_state :: "address \<Rightarrow> bool \<Rightarrow> rewards \<Rightarrow> rewards" where
  "put_user_rewards_state u v s = s\<lparr>rw_user_state := (rw_user_state s)(u \<mapsto> v)\<rparr>"

section \<open>Aggregated pages\<close>

definition store_inv :: "nat \<Rightarrow> nat \<Rightarrow> nat list \<Rightarrow> rewards \<Rightarrow> rewards" where
  "store_inv pow page v s =
     s\<lparr>rw_inv_cache := (rw_inv_cache s)((pow, page) \<mapsto> v), rw_inv := (rw_inv s)((pow, page) \<mapsto> v)\<rparr>"

definition load_inv :: "nat \<Rightarrow> nat \<Rightarrow> rewards \<Rightarrow> nat list \<times> rewards" where
  "load_inv pow page s =
     (case rw_inv_cache s (pow, page) of
        Some cached \<Rightarrow> (cached, s)
      | None \<Rightarrow>
        (case rw_inv s (pow, page) of
           Some v \<Rightarrow> (v, s\<lparr>rw_inv_cache := (rw_inv_cache s)((pow, page) \<mapsto> v)\<rparr>)
         | None \<Rightarrow>
           (case rw_inv_legacy s (pow, page) of
              Some legacy_map \<Rightarrow>
                let new_vec = map snd legacy_map; s' = store_inv pow page new_vec s
                in (new_vec, s'\<lparr>rw_inv_cache := (rw_inv_cache s')((pow, page) \<mapsto> new_vec)\<rparr>)
            | None \<Rightarrow> ([], s))))"

section \<open>What the pages hold\<close>

text \<open>The page a read returns, wherever it is kept.\<close>

definition page_of :: "rewards \<Rightarrow> nat \<times> nat \<Rightarrow> nat list" where
  "page_of s k = (case rw_inv_cache s k of Some v \<Rightarrow> v
     | None \<Rightarrow> (case rw_inv s k of Some v \<Rightarrow> v
     | None \<Rightarrow> (case rw_inv_legacy s k of Some m \<Rightarrow> map snd m | None \<Rightarrow> [])))"

text \<open>The cache never disagrees with the persistent pages.\<close>

definition cache_ok :: "rewards \<Rightarrow> bool" where
  "cache_ok s \<longleftrightarrow> (\<forall>k v. rw_inv_cache s k = Some v \<longrightarrow> rw_inv s k = Some v)"

text \<open>Two states that differ in the representation of the pages only.\<close>

definition same_but_pages :: "rewards \<Rightarrow> rewards \<Rightarrow> bool" where
  "same_but_pages s s' \<longleftrightarrow>
     s' = s\<lparr>rw_inv := rw_inv s', rw_inv_cache := rw_inv_cache s'\<rparr>"

lemma fst_load_inv [simp]: "fst (load_inv p g s) = page_of s (p, g)"
  by (simp add: load_inv_def page_of_def Let_def split: option.splits)

lemma page_of_load_inv [simp]: "page_of (snd (load_inv p g s)) = page_of s"
  by (rule ext) (auto simp: load_inv_def page_of_def store_inv_def Let_def split: option.splits if_splits)

lemma page_of_store_inv [simp]: "page_of (store_inv p g v s) = (page_of s)((p, g) := v)"
  by (rule ext) (auto simp: page_of_def store_inv_def split: option.splits)

lemma cache_ok_load_inv [simp]: "cache_ok s \<Longrightarrow> cache_ok (snd (load_inv p g s))"
  by (auto simp: load_inv_def cache_ok_def store_inv_def Let_def split: option.splits if_splits)

lemma cache_ok_store_inv [simp]: "cache_ok s \<Longrightarrow> cache_ok (store_inv p g v s)"
  by (auto simp: cache_ok_def store_inv_def)

lemma cache_ok_new_storage [simp]: "cache_ok (new_storage s)"
  by (simp add: cache_ok_def new_storage_def)

lemma page_of_new_storage: "cache_ok s \<Longrightarrow> page_of (new_storage s) = page_of s"
  by (rule ext) (auto simp: page_of_def new_storage_def cache_ok_def split: option.splits)

lemma same_but_pages_refl [simp]: "same_but_pages s s"
  by (simp add: same_but_pages_def)

lemma same_but_pages_trans: "same_but_pages s t \<Longrightarrow> same_but_pages t u \<Longrightarrow> same_but_pages s u"
  by (cases s; cases t; cases u) (simp add: same_but_pages_def)

lemma same_but_pages_load [simp]: "same_but_pages s (snd (load_inv p g s))"
  by (simp add: same_but_pages_def load_inv_def store_inv_def Let_def split: option.splits)

lemma same_but_pages_store [simp]: "same_but_pages s (store_inv p g v s)"
  by (simp add: same_but_pages_def store_inv_def)

lemma same_but_pagesD:
  assumes "same_but_pages s s'"
  shows "rw_config s' = rw_config s" "rw_data s' = rw_data s" "rw_user_data s' = rw_user_data s"
    "rw_token s' = rw_token s" "rw_boost_token s' = rw_boost_token s"
    "rw_boost_feed s' = rw_boost_feed s" "rw_working_balance s' = rw_working_balance s"
    "rw_working_supply s' = rw_working_supply s" "rw_excluded_shares s' = rw_excluded_shares s"
    "rw_user_state s' = rw_user_state s"
  using assms by (cases s; cases s'; simp add: same_but_pages_def)+

lemma get_set_reward_data [simp]: "get_pool_reward_data (set_pool_reward_data d s) = d"
  by (simp add: get_pool_reward_data_def set_pool_reward_data_def)

lemma set_reward_data_pages [simp]:
  "page_of (set_pool_reward_data d s) = page_of s" "cache_ok (set_pool_reward_data d s) = cache_ok s"
  by (auto simp: set_pool_reward_data_def page_of_def cache_ok_def split: option.splits)

lemma page_of_fields [simp]:
  "page_of (s\<lparr>rw_user_data := a\<rparr>) = page_of s" "page_of (s\<lparr>rw_config := b\<rparr>) = page_of s"
  "page_of (s\<lparr>rw_working_balance := d\<rparr>) = page_of s" "page_of (s\<lparr>rw_working_supply := e\<rparr>) = page_of s"
  "page_of (s\<lparr>rw_excluded_shares := f\<rparr>) = page_of s" "page_of (s\<lparr>rw_user_state := g\<rparr>) = page_of s"
  "cache_ok (s\<lparr>rw_user_data := a\<rparr>) = cache_ok s" "cache_ok (s\<lparr>rw_config := b\<rparr>) = cache_ok s"
  "cache_ok (s\<lparr>rw_working_balance := d\<rparr>) = cache_ok s" "cache_ok (s\<lparr>rw_working_supply := e\<rparr>) = cache_ok s"
  "cache_ok (s\<lparr>rw_excluded_shares := f\<rparr>) = cache_ok s" "cache_ok (s\<lparr>rw_user_state := g\<rparr>) = cache_ok s"
  by (auto simp: page_of_def cache_ok_def fun_eq_iff split: option.splits)

lemma reward_data_fields [simp]:
  "get_pool_reward_data (s\<lparr>rw_user_data := a\<rparr>) = get_pool_reward_data s"
  "get_pool_reward_data (s\<lparr>rw_config := b\<rparr>) = get_pool_reward_data s"
  "get_pool_reward_data (s\<lparr>rw_working_balance := d\<rparr>) = get_pool_reward_data s"
  "get_pool_reward_data (s\<lparr>rw_working_supply := e\<rparr>) = get_pool_reward_data s"
  "get_pool_reward_data (s\<lparr>rw_excluded_shares := f\<rparr>) = get_pool_reward_data s"
  "get_pool_reward_data (s\<lparr>rw_user_state := g\<rparr>) = get_pool_reward_data s"
  "get_pool_reward_data (s\<lparr>rw_inv_cache := h\<rparr>) = get_pool_reward_data s"
  by (simp_all add: get_pool_reward_data_def)

lemmas reward_accessors = get_pool_reward_config_def set_pool_reward_config_def
  get_pool_reward_data_def set_pool_reward_data_def set_user_reward_data_def
  set_working_balance_def set_working_supply_def get_total_excluded_shares_def
  set_total_excluded_shares_def get_user_rewards_state_def put_user_rewards_state_def

end
