(* ===== verification/Reward_Pages.thy ===== *)
theory Reward_Pages
  imports Reward_Storage
begin

text \<open>
  The aggregated reward pages of \<^verbatim>\<open>rewards/src/manager.rs\<close>: \<open>add_reward_inv\<close> records the reward
  per share of a new block at every level, where a cell of level \<open>pow\<close> sums \<open>page_size ^ pow\<close>
  blocks, and \<open>calculate_reward\<close> reads a range of blocks through the largest aligned cells. The
  theory proves that the structure implements the plain log of per-block values, which is
  stated as the locale \<open>block_log\<close>.
\<close>

section \<open>Reading and writing cells\<close>

definition get_reward_inv_data :: "nat \<Rightarrow> nat \<Rightarrow> nat \<Rightarrow> rewards \<Rightarrow> nat list \<times> rewards" where
  "get_reward_inv_data page_size pow page s =
     (let p = load_inv pow page s; v = fst p in
      (if pow = 0 then v @ replicate (page_size - length v) 0 else v, snd p))"

definition vec_get_or_0 :: "nat list \<Rightarrow> nat \<Rightarrow> nat" where
  "vec_get_or_0 xs i = (if i < length xs then xs ! i else 0)"

definition vec_set :: "nat list \<Rightarrow> nat \<Rightarrow> nat \<Rightarrow> nat list res" where
  "vec_set xs i v = (if i < length xs then Inr (xs[i := v]) else Inl HostPanic)"

definition add_level :: "nat \<Rightarrow> nat \<Rightarrow> nat \<Rightarrow> nat \<Rightarrow> rewards \<Rightarrow> rewards res" where
  "add_level P b v pow s =
     andthen (u64_pow P pow) (\<lambda>cell_size.
     andthen (u64_mul cell_size P) (\<lambda>page_size.
     andthen (u_rem b page_size) (\<lambda>r.
     andthen (u_div r cell_size) (\<lambda>c.
     andthen (u_div b page_size) (\<lambda>page_number.
     let cell_idx = as_u32 c;
         rd = get_reward_inv_data P pow page_number s;
         page = fst rd in
     andthen (u128_add (vec_get_or_0 page cell_idx) v) (\<lambda>new_val.
     andthen (if 0 < pow \<and> cell_idx = length page then Inr (page @ [new_val])
              else vec_set page cell_idx new_val) (\<lambda>page'.
     Inr (store_inv pow page_number page' (snd rd)))))))))"

fun add_levels :: "nat \<Rightarrow> nat \<Rightarrow> nat \<Rightarrow> nat list \<Rightarrow> rewards \<Rightarrow> rewards res" where
  "add_levels P b v [] s = Inr s"
| "add_levels P b v (pow # pows) s =
     andthen (if 0 < pow
              then andthen (u64_add b 1) (\<lambda>b1. andthen (u64_pow P (pow - 1)) (\<lambda>q. Inr (b1 < q)))
              else Inr False) (\<lambda>stop.
     if stop then Inr s
     else andthen (add_level P b v pow s) (add_levels P b v pows))"

definition add_reward_inv :: "nat \<Rightarrow> nat \<Rightarrow> nat \<Rightarrow> rewards \<Rightarrow> rewards res" where
  "add_reward_inv P b v s = add_levels P b v [0..<255] s"

section \<open>Summing a range\<close>

fun find_max_pow :: "nat \<Rightarrow> nat \<Rightarrow> nat \<Rightarrow> nat list \<Rightarrow> nat \<Rightarrow> nat res" where
  "find_max_pow P start_block end_block [] max_pow = Inr max_pow"
| "find_max_pow P start_block end_block (pow # pows) max_pow =
     andthen (u64_pow P pow) (\<lambda>q.
     andthen (u64_add start_block q) (\<lambda>x.
     andthen (u_sub x 1) (\<lambda>y.
     if end_block < y then Inr pow else find_max_pow P start_block end_block pows pow)))"

fun find_pow :: "nat \<Rightarrow> nat \<Rightarrow> nat list \<Rightarrow> nat res" where
  "find_pow P b [] = Inr 0"
| "find_pow P b (i # is) =
     andthen (u64_pow P i) (\<lambda>q.
     andthen (u_rem b q) (\<lambda>r.
     if r = 0 then Inr i else find_pow P b is))"

definition pows_down :: "nat \<Rightarrow> nat list" where
  "pows_down max_pow = rev [0..<Suc max_pow]"

lemma find_pow_pos: "find_pow P b is = Inr i \<Longrightarrow> 0 < P ^ i"
  by (induction "is") (auto simp: res_simps split: if_splits)

lemma next_block_closer:
  fixes b q e :: nat
  assumes "0 < q" and "\<not> e < b + q"
  shows "Suc e - (b + q) < Suc e - b"
  using assms by linarith

function reward_loop :: "nat \<Rightarrow> nat \<Rightarrow> nat \<Rightarrow> nat \<Rightarrow> nat \<Rightarrow> rewards \<Rightarrow> (nat \<times> rewards) res" where
  "reward_loop P max_pow end_block b result s =
     (if end_block < b then Inr (result, s)
      else
        andthen (find_pow P b (pows_down max_pow)) (\<lambda>pow.
        andthen (u64_pow P pow) (\<lambda>cell_size.
        andthen (u64_mul cell_size P) (\<lambda>page_size.
        andthen (u_rem b page_size) (\<lambda>r.
        andthen (u_div r cell_size) (\<lambda>cell_idx.
        andthen (u_div b page_size) (\<lambda>page_number.
        andthen (u64_add b cell_size) (\<lambda>next_block.
        let rd = get_reward_inv_data P pow page_number s in
        andthen (u128_add result (vec_get_or_0 (fst rd) (as_u32 cell_idx))) (\<lambda>result'.
        if end_block < next_block
        then andthen (u64_add end_block 1) (\<lambda>b'. reward_loop P max_pow end_block b' result' (snd rd))
        else reward_loop P max_pow end_block next_block result' (snd rd))))))))))"
  by pat_completeness auto
termination
  by (relation "measure (\<lambda>(P, max_pow, end_block, b, result, s). Suc end_block - b)")
    (auto simp: res_simps dest!: find_pow_pos intro: next_block_closer)

declare reward_loop.simps [simp del]

definition calculate_reward :: "nat \<Rightarrow> nat \<Rightarrow> nat \<Rightarrow> rewards \<Rightarrow> (nat \<times> rewards) res" where
  "calculate_reward P start_block end_block s =
     andthen (find_max_pow P start_block end_block [1..<255] 0) (\<lambda>max_pow.
     reward_loop P max_pow end_block start_block 0 s)"


section \<open>What the pages mean\<close>

text \<open>
  \<open>recorded v n\<close>: the values of the blocks 1 to \<open>n\<close> that have been recorded. Cell \<open>j\<close> of level
  \<open>p\<close> covers the blocks from \<open>j * P ^ p\<close> up to, but not including, \<open>(j + 1) * P ^ p\<close>; it lies in page
  \<open>j div P\<close> at index \<open>j mod P\<close>. Level \<open>p\<close> is in use from the block \<open>P ^ (p - 1) - 1\<close> on, so its cell
  0 misses the earlier blocks: it is the one cell that does not hold its sum, and the one that
  is never read, because blocks are numbered from 1.
\<close>

definition recorded :: "(nat \<Rightarrow> nat) \<Rightarrow> nat \<Rightarrow> nat \<Rightarrow> nat" where
  "recorded v n b = (if 1 \<le> b \<and> b \<le> n then v b else 0)"

definition level_active :: "nat \<Rightarrow> nat \<Rightarrow> nat \<Rightarrow> bool" where
  "level_active P n p \<longleftrightarrow> p = 0 \<or> P ^ (p - 1) \<le> n + 1"

definition cells_started :: "nat \<Rightarrow> nat \<Rightarrow> nat \<Rightarrow> nat" where
  "cells_started P n p = (if 1 \<le> n \<and> level_active P n p then n div P ^ p + 1 else 0)"

definition cell :: "nat \<Rightarrow> (nat \<times> nat \<Rightarrow> nat list) \<Rightarrow> nat \<Rightarrow> nat \<Rightarrow> nat" where
  "cell P pg p j = vec_get_or_0 (pg (p, j div P)) (j mod P)"

definition pages_ok :: "nat \<Rightarrow> (nat \<Rightarrow> nat) \<Rightarrow> nat \<Rightarrow> (nat \<times> nat \<Rightarrow> nat list) \<Rightarrow> bool" where
  "pages_ok P v n pg \<longleftrightarrow>
     (\<forall>p j. (0 < j \<or> p = 0) \<longrightarrow> cell P pg p j = (\<Sum>b = j * P ^ p ..< (j + 1) * P ^ p. recorded v n b)) \<and>
     (\<forall>p. cell P pg p 0 \<le> (\<Sum>b = 1 .. n. v b)) \<and>
     (\<forall>p g. 0 < p \<longrightarrow> length (pg (p, g)) = min P (cells_started P n p - g * P))"


text \<open>The effect of recording \<open>x\<close> for block \<open>b\<close> on the levels of a set \<open>A\<close>.\<close>

definition levels_updated ::
  "nat \<Rightarrow> nat \<Rightarrow> nat \<Rightarrow> nat set \<Rightarrow> (nat \<times> nat \<Rightarrow> nat list) \<Rightarrow> (nat \<times> nat \<Rightarrow> nat list) \<Rightarrow> bool" where
  "levels_updated P b x A pg pg' \<longleftrightarrow>
     (\<forall>p j. cell P pg' p j = cell P pg p j + (if p \<in> A \<and> j = b div P ^ p then x else 0)) \<and>
     (\<forall>p g. p \<notin> A \<longrightarrow> pg' (p, g) = pg (p, g)) \<and>
     (\<forall>p g. p \<in> A \<longrightarrow> 0 < p \<longrightarrow> length (pg' (p, g)) =
        (if g = b div P ^ p div P then max (length (pg (p, g))) (b div P ^ p mod P + 1)
         else length (pg (p, g))))"

lemma levels_updated_empty: "levels_updated P b x {} pg pg"
  by (simp add: levels_updated_def)

lemma levels_updated_Un:
  assumes "levels_updated P b x A pg pg'" and "levels_updated P b x B pg' pg''" and "A \<inter> B = {}"
  shows "levels_updated P b x (A \<union> B) pg pg''"
  using assms unfolding levels_updated_def by auto

lemma vec_get_or_0_append_zeros [simp]: "vec_get_or_0 (xs @ replicate k 0) i = vec_get_or_0 xs i"
  by (auto simp: vec_get_or_0_def nth_append)

lemma vec_get_or_0_update:
  "i < length xs \<Longrightarrow> vec_get_or_0 (xs[i := v]) k = (if k = i then v else vec_get_or_0 xs k)"
  by (auto simp: vec_get_or_0_def)

lemma vec_get_or_0_snoc:
  "vec_get_or_0 (xs @ [v]) k = (if k = length xs then v else vec_get_or_0 xs k)"
  by (auto simp: vec_get_or_0_def nth_append)

lemma cell_index:
  fixes b P q :: nat
  assumes "0 < q"
  shows "b mod (q * P) div q = b div q mod P" and "b div (q * P) = b div q div P"
  using assms by (simp_all add: mod_mult2_eq div_mult2_eq)

lemma get_reward_inv_data_page:
  "fst (get_reward_inv_data P p g s) =
     (if p = 0 then page_of s (p, g) @ replicate (P - length (page_of s (p, g))) 0 else page_of s (p, g))"
  "snd (get_reward_inv_data P p g s) = snd (load_inv p g s)"
  by (simp_all add: get_reward_inv_data_def Let_def)

lemma add_level_effect:
  assumes "add_level P b x p s = Inr s'" and "0 < P" and "P \<le> U32_MAX"
  shows "levels_updated P b x {p} (page_of s) (page_of s')"
    and "same_but_pages s s'" and "cache_ok s \<Longrightarrow> cache_ok s'"
proof -
  define q where "q = P ^ p"
  define g where "g = b div q div P"
  define c where "c = b div q mod P"
  define rd where "rd = get_reward_inv_data P p g s"
  have q: "0 < q" using assms(2) by (simp add: q_def)
  have cP: "c < P" using assms(2) by (simp add: c_def)
  then have c32: "as_u32 c = c" using assms(3) by (simp add: as_u32_small)
  note idx = cell_index [OF q, of b P, folded c_def g_def]
  from assms(1) obtain page' where
    upd: "(if 0 < p \<and> c = length (fst rd) then Inr (fst rd @ [vec_get_or_0 (fst rd) c + x])
      else vec_set (fst rd) c (vec_get_or_0 (fst rd) c + x)) = (Inr page' :: nat list res)"
    and s': "s' = store_inv p g page' (snd rd)"
    unfolding add_level_def by (auto simp: res_simps Let_def idx rd_def c32 simp flip: q_def cong: if_cong)
  have val: "vec_get_or_0 page' i = vec_get_or_0 (page_of s (p, g)) i + (if i = c then x else 0)" for i
    using upd by (auto simp: rd_def get_reward_inv_data_page vec_set_def vec_get_or_0_update
        vec_get_or_0_snoc split: if_splits)
  have len: "0 < p \<Longrightarrow> length page' = max (length (page_of s (p, g))) (c + 1)"
    using upd by (auto simp: rd_def get_reward_inv_data_page vec_set_def split: if_splits)
  have pg: "page_of s' = (page_of s)((p, g) := page')"
    by (simp add: s' rd_def get_reward_inv_data_page)
  have same_cell: "j div P = g \<and> j mod P = c \<longleftrightarrow> j = b div q" for j
    by (metis c_def g_def div_mult_mod_eq)
  show "levels_updated P b x {p} (page_of s) (page_of s')"
    unfolding levels_updated_def
  proof (intro conjI allI impI)
    fix p' j
    show "cell P (page_of s') p' j =
        cell P (page_of s) p' j + (if p' \<in> {p} \<and> j = b div P ^ p' then x else 0)"
    proof (cases "p' = p \<and> j div P = g")
      case True
      with same_cell [of j] have "j mod P = c \<longleftrightarrow> j = b div P ^ p" by (simp add: q_def)
      with True show ?thesis by (simp add: cell_def pg val)
    next
      case False
      with same_cell [of j] have "\<not> (p' = p \<and> j = b div P ^ p')" by (auto simp: q_def)
      with False show ?thesis by (auto simp: cell_def pg)
    qed
  qed (auto simp: pg len g_def c_def q_def)
  show "same_but_pages s s'"
    unfolding s' rd_def get_reward_inv_data_page
    by (rule same_but_pages_trans [OF same_but_pages_load same_but_pages_store])
  show "cache_ok s \<Longrightarrow> cache_ok s'"
    by (simp add: s' rd_def get_reward_inv_data_page)
qed

lemma level_inactive_above:
  assumes "\<not> level_active P n p" and "p \<le> p'" and "0 < P"
  shows "\<not> level_active P n p'"
proof -
  have "P ^ (p - 1) \<le> P ^ (p' - 1)" using assms by (intro power_increasing) auto
  then show ?thesis using assms by (auto simp: level_active_def)
qed

lemma add_levels_effect:
  assumes "add_levels P b x ps s = Inr s'" and "0 < P" and "P \<le> U32_MAX"
    and "sorted ps" and "distinct ps"
  shows "levels_updated P b x {p \<in> set ps. level_active P b p} (page_of s) (page_of s') \<and>
    same_but_pages s s' \<and> (cache_ok s \<longrightarrow> cache_ok s')"
  using assms
proof (induction ps arbitrary: s)
  case Nil
  then show ?case by (simp add: levels_updated_empty)
next
  case (Cons p ps)
  show ?case
  proof (cases "level_active P b p")
    case True
    then have "\<not> (0 < p \<and> b + 1 < P ^ (p - 1))" by (auto simp: level_active_def)
    with Cons.prems(1) obtain t where t: "add_level P b x p s = Inr t" "add_levels P b x ps t = Inr s'"
      by (auto simp: res_simps split: if_splits)
    have split: "{p' \<in> set (p # ps). level_active P b p'} = {p} \<union> {p' \<in> set ps. level_active P b p'}"
      using True by auto
    have disj: "{p} \<inter> {p' \<in> set ps. level_active P b p'} = {}" using Cons.prems(5) by auto
    note e = add_level_effect [OF t(1) Cons.prems(2,3)]
    have "sorted ps" "distinct ps" using Cons.prems(4,5) by auto
    from Cons.IH [OF t(2) Cons.prems(2,3) this] e show ?thesis
      unfolding split using levels_updated_Un [OF _ _ disj] same_but_pages_trans by blast
  next
    case False
    then have "0 < p" and stop: "b + 1 < P ^ (p - 1)" by (auto simp: level_active_def)
    have none: "{p' \<in> set (p # ps). level_active P b p'} = {}"
      using False Cons.prems(2,4) level_inactive_above by auto
    have "s' = s" using Cons.prems(1) \<open>0 < p\<close> stop by (auto simp: res_simps split: if_splits)
    then show ?thesis unfolding none by (simp add: levels_updated_empty)
  qed
qed

lemma level_inactive_255:
  assumes "2 \<le> P" and "b + 1 \<le> U64_MAX" and "255 \<le> p"
  shows "\<not> level_active P b p"
proof -
  have "(2 :: nat) ^ 254 \<le> 2 ^ (p - 1)" using assms(3) by (intro power_increasing) auto
  also have "\<dots> \<le> P ^ (p - 1)" using assms(1) by (intro power_mono) auto
  finally show ?thesis using assms(2,3) by (simp add: level_active_def U64_MAX_def)
qed

lemma add_reward_inv_effect:
  assumes "add_reward_inv P b x s = Inr s'" and "2 \<le> P" and "P \<le> U32_MAX"
  shows "levels_updated P b x {p. level_active P b p} (page_of s) (page_of s')"
    and "same_but_pages s s'" and "cache_ok s \<Longrightarrow> cache_ok s'"
proof -
  have "b + 1 \<le> U64_MAX"
    using assms(1) by (auto simp: add_reward_inv_def upt_rec [of 0] upt_rec [of "Suc 0"] res_simps)
  then have all: "{p \<in> set [0..<255]. level_active P b p} = {p. level_active P b p}"
    using level_inactive_255 [OF assms(2)] by (auto simp: not_le [symmetric])
  have "0 < P" using assms(2) by simp
  from add_levels_effect [OF assms(1) [unfolded add_reward_inv_def] this assms(3)]
  show "levels_updated P b x {p. level_active P b p} (page_of s) (page_of s')"
    and "same_but_pages s s'" and "cache_ok s \<Longrightarrow> cache_ok s'"
    by (simp_all only: all sorted_upt distinct_upt simp_thms)
qed


section \<open>Recording a block keeps the pages right\<close>

lemma mem_cell:
  fixes q :: nat
  assumes "0 < q"
  shows "b \<in> {j * q ..< (j + 1) * q} \<longleftrightarrow> j = b div q"
proof
  assume "b \<in> {j * q ..< (j + 1) * q}"
  then show "j = b div q" by (auto simp: mult.commute intro!: div_nat_eqI [symmetric])
next
  assume j: "j = b div q"
  show "b \<in> {j * q ..< (j + 1) * q}"
    using dividend_less_div_times [OF assms, of b] by (simp add: j)
qed

lemma pages_okD:
  assumes "pages_ok P v n pg"
  shows "0 < j \<or> p = 0 \<Longrightarrow> cell P pg p j = (\<Sum>b = j * P ^ p ..< (j + 1) * P ^ p. recorded v n b)"
    and "cell P pg p 0 \<le> (\<Sum>b = 1 .. n. v b)"
    and "0 < p \<Longrightarrow> length (pg (p, g)) = min P (cells_started P n p - g * P)"
  using assms unfolding pages_ok_def by blast+

lemma sum_cell_recorded:
  assumes "0 < q"
  shows "(\<Sum>b = j * q ..< (j + 1) * q. recorded (v(Suc n := x)) (Suc n) b) =
    (\<Sum>b = j * q ..< (j + 1) * q. recorded v n b) + (if j = Suc n div q then x else 0)"
proof -
  have "recorded (v(Suc n := x)) (Suc n) b = recorded v n b + (if b = Suc n then x else 0)" for b
    by (auto simp: recorded_def)
  then have "(\<Sum>b = j * q ..< (j + 1) * q. recorded (v(Suc n := x)) (Suc n) b) =
      (\<Sum>b = j * q ..< (j + 1) * q. recorded v n b) +
      (\<Sum>b = j * q ..< (j + 1) * q. if b = Suc n then x else 0)"
    by (simp only: sum.distrib)
  also have "(\<Sum>b = j * q ..< (j + 1) * q. if b = Suc n then x else 0) =
      (if Suc n \<in> {j * q ..< (j + 1) * q} then x else 0)"
    by (subst sum.delta) auto
  finally show ?thesis by (simp only: mem_cell [OF assms])
qed

lemma cells_started_cases:
  assumes "2 \<le> P" and "0 < p"
  shows "cells_started P n p = Suc n div P ^ p \<or> cells_started P n p = Suc n div P ^ p + 1"
proof (cases "1 \<le> n \<and> level_active P n p")
  case True
  then show ?thesis by (auto simp: cells_started_def div_Suc)
next
  case False
  have step: "P ^ p = P * P ^ (p - 1)" using assms(2) by (cases p) auto
  have "Suc n < P ^ p"
  proof (cases "n = 0")
    case True
    have "1 * 2 \<le> P ^ (p - 1) * P" using assms(1) by (intro mult_le_mono) auto
    with True step show ?thesis by (simp add: mult.commute)
  next
    case ne: False
    with False assms(2) have "n + 1 < P ^ (p - 1)" by (auto simp: level_active_def)
    also have "\<dots> \<le> P ^ p" unfolding step using assms(1) by simp
    finally show ?thesis by simp
  qed
  with False show ?thesis by (simp add: cells_started_def)
qed

lemma page_length_step:
  fixes J cs P :: nat
  assumes "cs = J \<or> cs = J + 1" and "0 < P"
  shows "J mod P \<le> min P (cs - J div P * P)"
    and "max (min P (cs - J div P * P)) (J mod P + 1) = min P (J + 1 - J div P * P)"
    and "g \<noteq> J div P \<Longrightarrow> min P (cs - g * P) = min P (J + 1 - g * P)"
proof -
  have J: "J = J div P * P + J mod P" by simp
  have m: "J mod P < P" using assms(2) by simp
  show "J mod P \<le> min P (cs - J div P * P)" using assms J m by linarith
  show "max (min P (cs - J div P * P)) (J mod P + 1) = min P (J + 1 - J div P * P)"
    using assms J m by linarith
  assume "g \<noteq> J div P"
  then consider "g + 1 \<le> J div P" | "J div P + 1 \<le> g" by linarith
  then show "min P (cs - g * P) = min P (J + 1 - g * P)"
  proof cases
    case 1
    then have "(g + 1) * P \<le> J div P * P" by (rule mult_le_mono1)
    also have "\<dots> \<le> J" by simp
    finally have "P \<le> J - g * P" by simp
    then show ?thesis using assms(1) by auto
  next
    case 2
    then have "(J div P + 1) * P \<le> g * P" by (rule mult_le_mono1)
    moreover have "(J div P + 1) * P = J div P * P + P" by simp
    ultimately have "J + 1 \<le> g * P" using J m by linarith
    then show ?thesis using assms(1) by auto
  qed
qed

lemma level_active_mono: "level_active P n p \<Longrightarrow> n \<le> m \<Longrightarrow> level_active P m p"
  by (auto simp: level_active_def)

lemma level_inactive_div: "0 < P \<Longrightarrow> \<not> level_active P n p \<Longrightarrow> n div P ^ p = 0"
proof -
  assume "0 < P" and "\<not> level_active P n p"
  then have "0 < p" and "n < P ^ (p - 1)" by (auto simp: level_active_def)
  moreover have "P ^ (p - 1) \<le> P ^ p" using \<open>0 < P\<close> by (intro power_increasing) auto
  ultimately show ?thesis by simp
qed

lemma pages_ok_add:
  assumes ok: "pages_ok P v n pg" and P: "2 \<le> P"
    and upd: "levels_updated P (Suc n) x {p. level_active P (Suc n) p} pg pg'"
  shows "pages_ok P (v(Suc n := x)) (Suc n) pg'"
proof -
  have cell': "cell P pg' p j = cell P pg p j +
      (if level_active P (Suc n) p \<and> j = Suc n div P ^ p then x else 0)" for p j
    using upd by (simp add: levels_updated_def)
  have inactive: "\<not> level_active P (Suc n) p \<Longrightarrow> Suc n div P ^ p = 0" for p
    using level_inactive_div P by simp
  show ?thesis
    unfolding pages_ok_def
  proof (intro conjI allI impI)
    fix p j :: nat
    assume j: "0 < j \<or> p = 0"
    have q: "0 < P ^ p" using P by simp
    have "cell P pg p j = (\<Sum>b = j * P ^ p ..< (j + 1) * P ^ p. recorded v n b)"
      by (rule pages_okD(1) [OF ok j])
    moreover have "level_active P (Suc n) p \<or> j \<noteq> Suc n div P ^ p"
      using j inactive [of p] by (auto simp: level_active_def)
    ultimately show "cell P pg' p j =
        (\<Sum>b = j * P ^ p ..< (j + 1) * P ^ p. recorded (v(Suc n := x)) (Suc n) b)"
      unfolding sum_cell_recorded [OF q] cell' by auto
  next
    fix p
    have "cell P pg' p 0 \<le> cell P pg p 0 + x" by (simp add: cell')
    also have "cell P pg p 0 \<le> (\<Sum>b = 1..n. v b)" by (rule pages_okD(2) [OF ok])
    also have "(\<Sum>b = 1..n. v b) + x = (\<Sum>b = 1..Suc n. (v(Suc n := x)) b)" by simp
    finally show "cell P pg' p 0 \<le> (\<Sum>b = 1..Suc n. (v(Suc n := x)) b)" by simp
  next
    fix p g :: nat
    assume p: "0 < p"
    have len: "length (pg (p, g)) = min P (cells_started P n p - g * P)"
      by (rule pages_okD(3) [OF ok p])
    show "length (pg' (p, g)) = min P (cells_started P (Suc n) p - g * P)"
    proof (cases "level_active P (Suc n) p")
      case True
      have "0 < P" using P by simp
      note step = page_length_step(2,3) [OF cells_started_cases [OF P p, of n] this]
      from True have cs: "cells_started P (Suc n) p = Suc n div P ^ p + 1" by (simp add: cells_started_def)
      have "length (pg' (p, g)) =
          (if g = Suc n div P ^ p div P then max (length (pg (p, g))) (Suc n div P ^ p mod P + 1)
           else length (pg (p, g)))"
        using upd True p by (simp add: levels_updated_def)
      also have "\<dots> = min P (Suc n div P ^ p + 1 - g * P)"
      proof (cases "g = Suc n div P ^ p div P")
        case True
        then show ?thesis unfolding len using step(1) by (simp only: simp_thms if_True)
      next
        case False
        then show ?thesis using step(2) [OF False] by (simp only: len simp_thms if_False)
      qed
      finally show ?thesis unfolding cs .
    next
      case False
      moreover from False have "\<not> level_active P n p" using level_active_mono [of P n p "Suc n"] by auto
      ultimately show ?thesis using upd len by (simp add: levels_updated_def cells_started_def)
    qed
  qed
qed

section \<open>Reading a range\<close>

lemma find_pow_divides:
  "find_pow P b is = Inr i \<Longrightarrow> b mod P ^ i = 0"
  by (induction "is") (auto simp: res_simps split: if_splits)

lemma read_cell:
  assumes "0 < P" and "P \<le> U32_MAX"
  shows "vec_get_or_0 (fst (get_reward_inv_data P p (j div P) s)) (as_u32 (j mod P)) =
    cell P (page_of s) p j"
proof -
  have "j mod P < P" using assms(1) by simp
  then show ?thesis using assms(2) by (simp add: as_u32_small get_reward_inv_data_page cell_def)
qed

lemma sum_recorded_beyond:
  "n < b \<Longrightarrow> (\<Sum>i = b ..< c. recorded v n i) = 0"
  by (auto simp: recorded_def intro!: sum.neutral)

text \<open>
  The last cell of a range may reach beyond the last block: what it holds there is zero only when
  \<open>n\<close> is the last recorded block.
\<close>

lemma aligned_cell_sum:
  assumes ok: "pages_ok P v n pg" and P: "0 < P" and al: "b mod P ^ p = 0" and b: "1 \<le> b" "b \<le> n"
  defines "b' \<equiv> (if n < b + P ^ p then n + 1 else b + P ^ p)"
  shows "cell P pg p (b div P ^ p) = (\<Sum>i = b ..< b'. v i)"
proof -
  define q where "q = P ^ p"
  have q: "0 < q" using P by (simp add: q_def)
  define j where "j = b div q"
  have bj: "b = j * q" using al by (auto simp: j_def q_def)
  have j: "0 < j \<or> p = 0" using bj b(1) by (cases j) auto
  have b': "b < b'" "b' \<le> n + 1" using b q by (auto simp: b'_def q_def)
  have "cell P pg p j = (\<Sum>i = j * q ..< (j + 1) * q. recorded v n i)"
    unfolding q_def by (rule pages_okD(1) [OF ok j])
  also have "\<dots> = (\<Sum>i = b ..< b + q. recorded v n i)"
    by (simp add: bj add.commute)
  also have "\<dots> = (\<Sum>i = b ..< b'. recorded v n i)"
  proof (cases "n < b + q")
    case True
    have "(\<Sum>i = b ..< b + q. recorded v n i) =
        (\<Sum>i = b ..< n + 1. recorded v n i) + (\<Sum>i = n + 1 ..< b + q. recorded v n i)"
      using True b by (intro sum.atLeastLessThan_concat [symmetric]) auto
    then show ?thesis using True by (simp add: b'_def q_def sum_recorded_beyond)
  qed (simp add: b'_def q_def)
  also have "\<dots> = (\<Sum>i = b ..< b'. v i)"
    using b' b(1) by (intro sum.cong) (auto simp: recorded_def)
  finally show ?thesis by (simp add: j_def q_def)
qed

text \<open>One turn of the loop, in terms of cells.\<close>

lemma reward_loop_turn:
  fixes s :: rewards
  assumes P: "0 < P" "P \<le> U32_MAX" and b: "b \<le> n" and p: "find_pow P b (pows_down m) = Inr p"
  defines "b' \<equiv> (if n < b + P ^ p then n + 1 else b + P ^ p)"
    and "c \<equiv> cell P (page_of s) p (b div P ^ p)"
    and "t \<equiv> snd (load_inv p (b div P ^ p div P) s)"
  shows "reward_loop P m n b acc s =
    (if P ^ p \<le> U64_MAX \<and> P ^ p * P \<le> U64_MAX \<and> b + P ^ p \<le> U64_MAX \<and> acc + c \<le> U128_MAX \<and>
        b' \<le> U64_MAX then reward_loop P m n b' (acc + c) t else Inl HostPanic)"
proof -
  define q where "q = P ^ p"
  have q: "0 < q" using P by (simp add: q_def)
  note idx = cell_index [OF q, of b P]
  have c: "vec_get_or_0 (fst (get_reward_inv_data P p (b div q div P) s)) (as_u32 (b div q mod P)) = c"
    using read_cell [OF P] by (simp add: c_def q_def)
  have t: "snd (get_reward_inv_data P p (b div q div P) s) = t"
    by (simp add: t_def q_def get_reward_inv_data_page)
  have b': "b' = (if n < b + q then n + 1 else b + q)" by (simp add: b'_def q_def)
  show ?thesis
    using b q P by (simp add: reward_loop.simps [of P m n b acc s] p u_pow_def u_mul_def u_rem_def
        u_div_def u_add_def Let_def idx c t b' flip: q_def cong: if_cong)
qed

lemma reward_loop_sum:
  assumes "reward_loop P m n b acc s = Inr (r, s')" and "pages_ok P v n (page_of s)"
    and P: "0 < P" "P \<le> U32_MAX" and "1 \<le> b" and "b \<le> n + 1"
  shows "r = acc + (\<Sum>i = b..n. v i) \<and> page_of s' = page_of s \<and> same_but_pages s s' \<and>
    (cache_ok s \<longrightarrow> cache_ok s')"
  using assms
proof (induction "Suc n - b" arbitrary: b acc s rule: less_induct)
  case less
  show ?case
  proof (cases "n < b")
    case True
    with less.prems(1) show ?thesis by (simp add: reward_loop.simps [of P m n b])
  next
    case False
    then have bn: "b \<le> n" by simp
    from less.prems(1) False obtain p where p: "find_pow P b (pows_down m) = Inr p"
      by (auto simp: reward_loop.simps [of P m n b] res_simps)
    define b' where "b' = (if n < b + P ^ p then n + 1 else b + P ^ p)"
    define t where "t = snd (load_inv p (b div P ^ p div P) s)"
    have b': "b < b'" "b' \<le> n + 1" using bn P by (auto simp: b'_def)
    have c: "cell P (page_of s) p (b div P ^ p) = (\<Sum>i = b ..< b'. v i)"
      unfolding b'_def
      by (rule aligned_cell_sum [OF less.prems(2) P(1) find_pow_divides [OF p] less.prems(5) bn])
    have loop: "reward_loop P m n b' (acc + (\<Sum>i = b ..< b'. v i)) t = Inr (r, s')"
      using less.prems(1) unfolding reward_loop_turn [OF P bn p, folded b'_def t_def] c
      by (simp add: t_def split: if_splits)
    have "r = acc + (\<Sum>i = b ..< b'. v i) + (\<Sum>i = b'..n. v i) \<and> page_of s' = page_of t \<and>
        same_but_pages t s' \<and> (cache_ok t \<longrightarrow> cache_ok s')"
    proof (rule less.hyps [OF _ loop])
      show "Suc n - b' < Suc n - b" using b' by linarith
      show "pages_ok P v n (page_of t)" using less.prems(2) by (simp add: t_def)
    qed (use b' less.prems(5) P in simp_all)
    moreover have "(\<Sum>i = b ..< b'. v i) + (\<Sum>i = b'..n. v i) = (\<Sum>i = b..n. v i)"
      using b' sum.atLeastLessThan_concat [of b b' "n + 1" v] by (simp add: atLeastLessThanSuc_atLeastAtMost)
    moreover have "same_but_pages s t" "cache_ok s \<longrightarrow> cache_ok t" "page_of t = page_of s"
      by (simp_all add: t_def)
    ultimately show ?thesis using same_but_pages_trans by auto
  qed
qed

lemma calculate_reward_sum:
  assumes "calculate_reward P b n s = Inr (r, s')" and "pages_ok P v n (page_of s)"
    and "0 < P" "P \<le> U32_MAX" and "1 \<le> b" and "b \<le> n + 1"
  shows "r = (\<Sum>i = b..n. v i)" and "page_of s' = page_of s" and "same_but_pages s s'"
    and "cache_ok s \<Longrightarrow> cache_ok s'"
proof -
  from assms(1) obtain m where "reward_loop P m n b 0 s = Inr (r, s')"
    by (auto simp: calculate_reward_def res_simps)
  from reward_loop_sum [OF this assms(2-6)]
  show "r = (\<Sum>i = b..n. v i)" and "page_of s' = page_of s" and "same_but_pages s s'"
    and "cache_ok s \<Longrightarrow> cache_ok s'" by simp_all
qed

section \<open>Neither operation aborts\<close>

text \<open>
  The levels in use at block \<open>n\<close> have cells of at most \<open>P * (n + 1)\<close> blocks, so that all the powers
  computed fit when \<open>P * P * (n + 1)\<close> does. With the page size of 100 that the contracts use this is
  more than \<open>10 ^ 15\<close> blocks.
\<close>

lemma page_size_32: "P * P * (n + 1) \<le> U64_MAX \<Longrightarrow> P \<le> U32_MAX"
proof (rule ccontr)
  assume a: "P * P * (n + 1) \<le> U64_MAX" and "\<not> P \<le> U32_MAX"
  then have "4294967296 \<le> P" by (simp add: U32_MAX_def)
  then have "4294967296 * 4294967296 \<le> P * P" by (intro mult_le_mono)
  also have "\<dots> \<le> P * P * (n + 1)" by simp
  finally show False using a by (simp add: U64_MAX_def)
qed

lemma power_step: "0 < p \<Longrightarrow> (P :: nat) ^ p = P * P ^ (p - 1)"
  by (cases p) auto

lemma level_power:
  assumes "level_active P b p" and "0 < P"
  shows "P ^ p \<le> P * (b + 1)"
proof (cases "p = 0")
  case False
  with assms have "P ^ (p - 1) \<le> b + 1" by (simp add: level_active_def)
  then have "P * P ^ (p - 1) \<le> P * (b + 1)" by (rule mult_le_mono2)
  with False show ?thesis by (simp add: power_step)
qed (use assms in auto)

lemma bound_monos:
  fixes P n :: nat
  assumes "P * P * (n + 1) \<le> M" and "2 \<le> P"
  shows "x \<le> P * (n + 1) \<Longrightarrow> x * P \<le> M" and "x \<le> P * (n + 1) \<Longrightarrow> x \<le> M"
    and "x \<le> P * (n + 1) \<Longrightarrow> n + 1 + x \<le> M" and "n + 1 \<le> M"
proof -
  have "(P + 1) * (n + 1) \<le> P * P * (n + 1)"
  proof (rule mult_le_mono1)
    have "2 * P \<le> P * P" using assms(2) by (rule mult_le_mono1)
    then show "P + 1 \<le> P * P" using assms(2) by linarith
  qed
  then have sum: "n + 1 + P * (n + 1) \<le> M" using assms(1) by (simp add: algebra_simps)
  show "x \<le> P * (n + 1) \<Longrightarrow> n + 1 + x \<le> M" "n + 1 \<le> M" "x \<le> P * (n + 1) \<Longrightarrow> x \<le> M"
    using sum by linarith+
  assume "x \<le> P * (n + 1)"
  then have "x * P \<le> P * (n + 1) * P" by (rule mult_le_mono1)
  also have "\<dots> \<le> M" using assms(1) by (simp add: algebra_simps)
  finally show "x * P \<le> M" .
qed

lemma cell_le_total:
  assumes "pages_ok P v n pg"
  shows "cell P pg p j \<le> (\<Sum>b = 1..n. v b)"
proof (cases "0 < j \<or> p = 0")
  case True
  have "(\<Sum>b = j * P ^ p ..< (j + 1) * P ^ p. recorded v n b) =
      (\<Sum>b \<in> {j * P ^ p ..< (j + 1) * P ^ p} \<inter> {1..n}. v b)"
    by (subst sum.inter_restrict) (auto simp: recorded_def intro!: sum.cong)
  also have "\<dots> \<le> (\<Sum>b = 1..n. v b)" by (intro sum_mono2) auto
  finally show ?thesis using pages_okD(1) [OF assms True] by simp
next
  case False
  then show ?thesis using pages_okD(2) [OF assms] by auto
qed

lemma add_level_total:
  assumes P: "2 \<le> P" "P * P * (b + 1) \<le> U64_MAX" and act: "level_active P b p"
    and val: "cell P (page_of s) p (b div P ^ p) + x \<le> U128_MAX"
    and len: "0 < p \<Longrightarrow> b div P ^ p mod P \<le> length (page_of s (p, b div P ^ p div P))"
  shows "\<exists>s'. add_level P b x p s = Inr s'"
proof -
  define q where "q = P ^ p"
  have q: "0 < q" using P(1) by (simp add: q_def)
  note idx = cell_index [OF q, of b P]
  have P0: "0 < P" using P(1) by simp
  have P32: "P \<le> U32_MAX" using page_size_32 [OF P(2)] .
  have fits: "q \<le> U64_MAX" "q * P \<le> U64_MAX"
    using bound_monos(1,2) [OF P(2,1) level_power [OF act P0]] by (simp_all add: q_def)
  define rd where "rd = get_reward_inv_data P p (b div q div P) s"
  define c where "c = b div q mod P"
  have cP: "c < P" using P0 by (simp add: c_def)
  have c32: "as_u32 c = c" using cP P32 by (simp add: as_u32_small)
  have old: "vec_get_or_0 (fst rd) c + x \<le> U128_MAX"
    using val read_cell [OF P0 P32, of p "b div q" s] c32 by (simp add: rd_def c_def q_def)
  have "\<exists>page'. (if 0 < p \<and> c = length (fst rd) then Inr (fst rd @ [vec_get_or_0 (fst rd) c + x])
      else vec_set (fst rd) c (vec_get_or_0 (fst rd) c + x)) = (Inr page' :: nat list res)"
    using len cP by (auto simp: rd_def get_reward_inv_data_page vec_set_def c_def q_def)
  then show ?thesis
    using q P0 fits old
    by (auto simp: add_level_def u_pow_def u_mul_def u_rem_def u_div_def u_add_def Let_def idx c32
        simp flip: q_def c_def rd_def cong: if_cong)
qed

lemma add_levels_total:
  assumes P: "2 \<le> P" "P * P * (b + 1) \<le> U64_MAX"
    and val: "\<And>p. k \<le> p \<Longrightarrow> cell P (page_of s) p (b div P ^ p) + x \<le> U128_MAX"
    and len: "\<And>p. k \<le> p \<Longrightarrow> 0 < p \<Longrightarrow> level_active P b p \<Longrightarrow>
      b div P ^ p mod P \<le> length (page_of s (p, b div P ^ p div P))"
    and prev: "k = 0 \<or> level_active P b (k - 1)"
  shows "\<exists>s'. add_levels P b x [k..<m] s = Inr s'"
  using val len prev
proof (induction "m - k" arbitrary: k s)
  case 0
  then show ?case by simp
next
  case (Suc d)
  then have km: "k < m" by simp
  have P0: "0 < P" using P(1) by simp
  have P32: "P \<le> U32_MAX" using page_size_32 [OF P(2)] .
  have b1: "b + 1 \<le> U64_MAX" using bound_monos(4) [OF P(2,1)] .
  have test: "0 < k \<Longrightarrow> P ^ (k - 1) \<le> U64_MAX"
    using Suc.prems(3) level_power [of P b "k - 1"] P0 bound_monos(2) [OF P(2,1)] by auto
  show ?case
  proof (cases "level_active P b k")
    case True
    then have go: "0 < k \<Longrightarrow> \<not> b + 1 < P ^ (k - 1)" by (auto simp: level_active_def)
    obtain t where t: "add_level P b x k s = Inr t"
      using add_level_total [OF P True] Suc.prems(1,2) True by blast
    from add_level_effect(1) [OF t P0 P32]
    have upd: "levels_updated P b x {k} (page_of s) (page_of t)" .
    have keep: "Suc k \<le> p \<Longrightarrow> cell P (page_of t) p j = cell P (page_of s) p j \<and>
        page_of t (p, g) = page_of s (p, g)" for p j g
      using upd by (simp add: levels_updated_def)
    have "\<exists>s'. add_levels P b x [Suc k..<m] t = Inr s'"
    proof (rule Suc.hyps(1))
      show "d = m - Suc k" using Suc.hyps(2) by simp
      show "Suc k \<le> p \<Longrightarrow> cell P (page_of t) p (b div P ^ p) + x \<le> U128_MAX" for p
        using keep Suc.prems(1) [of p] by simp
      show "Suc k \<le> p \<Longrightarrow> 0 < p \<Longrightarrow> level_active P b p \<Longrightarrow>
          b div P ^ p mod P \<le> length (page_of t (p, b div P ^ p div P))" for p
        using keep Suc.prems(2) [of p] by simp
      show "Suc k = 0 \<or> level_active P b (Suc k - 1)" using True by simp
    qed
    then show ?thesis
      using km go test b1 t by (cases "0 < k") (simp_all add: upt_conv_Cons u_add_def u_pow_def)
  next
    case False
    then have "0 < k" "b + 1 < P ^ (k - 1)" by (auto simp: level_active_def)
    then show ?thesis using km test b1 by (simp add: upt_conv_Cons u_add_def u_pow_def)
  qed
qed

lemma add_reward_inv_total:
  assumes ok: "pages_ok P v n (page_of s)" and P: "2 \<le> P" "P * P * (n + 2) \<le> U64_MAX"
    and fits: "(\<Sum>b = 1..n. v b) + x \<le> U128_MAX"
  shows "\<exists>s'. add_reward_inv P (Suc n) x s = Inr s'"
  unfolding add_reward_inv_def
proof (rule add_levels_total [OF P(1)])
  show "P * P * (Suc n + 1) \<le> U64_MAX" using P(2) by simp
  show "cell P (page_of s) p (Suc n div P ^ p) + x \<le> U128_MAX" for p
    using cell_le_total [OF ok, of p "Suc n div P ^ p"] fits by linarith
  show "Suc n div P ^ p mod P \<le> length (page_of s (p, Suc n div P ^ p div P))" if "0 < p" for p
    unfolding pages_okD(3) [OF ok that]
    using page_length_step(1) [OF cells_started_cases [OF P(1) that, of n]] P(1) by simp
qed simp


lemma find_max_pow_total:
  assumes P: "2 \<le> P" "P * P * (n + 1) \<le> U64_MAX" and b: "1 \<le> b" "b \<le> n + 1"
    and prev: "P ^ k \<le> P * (n + 1)" and m: "P ^ m \<le> P * (n + 1)"
  shows "\<exists>r. find_max_pow P b n [k..<l] m = Inr r \<and> P ^ r \<le> P * (n + 1)"
  using prev m
proof (induction "l - k" arbitrary: k m)
  case 0
  then show ?case by simp
next
  case (Suc d)
  then have kl: "k < l" by simp
  have fits: "P ^ k \<le> U64_MAX" "b + P ^ k \<le> U64_MAX"
    using bound_monos(2,3) [OF P(2,1) Suc.prems(1)] b(2) by linarith+
  show ?case
  proof (cases "n < b + P ^ k - 1")
    case True
    with kl fits b Suc.prems(1) show ?thesis
      by (auto simp: upt_conv_Cons u_pow_def u_add_def u_sub_def)
  next
    case False
    then have "P ^ k \<le> n + 1" using b by simp
    then have "P * P ^ k \<le> P * (n + 1)" by (rule mult_le_mono2)
    then have "\<exists>r. find_max_pow P b n [Suc k..<l] k = Inr r \<and> P ^ r \<le> P * (n + 1)"
      using Suc.hyps Suc.prems(1) by simp
    with False kl fits b show ?thesis
      by (auto simp: upt_conv_Cons u_pow_def u_add_def u_sub_def)
  qed
qed

lemma find_pow_total:
  assumes "0 < P" and "\<And>i. i \<in> set is \<Longrightarrow> P ^ i \<le> U64_MAX"
  shows "\<exists>i. find_pow P b is = Inr i \<and> (i = 0 \<or> i \<in> set is)"
  using assms
proof (induction "is")
  case (Cons i "is")
  then obtain r where "find_pow P b is = Inr r" "r = 0 \<or> r \<in> set is" by auto
  with Cons.prems show ?case by (auto simp: u_pow_def u_rem_def)
qed simp

lemma reward_loop_total:
  assumes ok: "pages_ok P v n (page_of s)" and P: "2 \<le> P" "P * P * (n + 1) \<le> U64_MAX"
    and m: "P ^ m \<le> P * (n + 1)" and b: "1 \<le> b" "b \<le> n + 1"
    and fits: "acc + (\<Sum>i = b..n. v i) \<le> U128_MAX"
  shows "\<exists>r. reward_loop P m n b acc s = Inr r"
  using ok b fits
proof (induction "Suc n - b" arbitrary: b acc s rule: less_induct)
  case less
  show ?case
  proof (cases "n < b")
    case True
    then show ?thesis by (simp add: reward_loop.simps [of P m n b])
  next
    case False
    then have bn: "b \<le> n" by simp
    have P0: "0 < P" using P(1) by simp
    have small: "i \<le> m \<Longrightarrow> P ^ i \<le> P * (n + 1)" for i
      using power_increasing [of i m P] P0 m by linarith
    have "\<exists>i. find_pow P b (pows_down m) = Inr i \<and> (i = 0 \<or> i \<in> set (pows_down m))"
    proof (rule find_pow_total [OF P0])
      fix i assume "i \<in> set (pows_down m)"
      then have "i \<le> m" by (auto simp: pows_down_def)
      then show "P ^ i \<le> U64_MAX" using bound_monos(2) [OF P(2,1) small] by blast
    qed
    then obtain p where p: "find_pow P b (pows_down m) = Inr p" "p \<le> m"
      by (auto simp: pows_down_def)
    define b' where "b' = (if n < b + P ^ p then n + 1 else b + P ^ p)"
    define t where "t = snd (load_inv p (b div P ^ p div P) s)"
    note lim = bound_monos [OF P(2,1)]
    have b': "b < b'" "b' \<le> n + 1" using bn P by (auto simp: b'_def)
    have c: "cell P (page_of s) p (b div P ^ p) = (\<Sum>i = b ..< b'. v i)"
      unfolding b'_def
      by (rule aligned_cell_sum [OF less.prems(1) P0 find_pow_divides [OF p(1)] less.prems(2) bn])
    have split: "(\<Sum>i = b ..< b'. v i) + (\<Sum>i = b'..n. v i) = (\<Sum>i = b..n. v i)"
      using b' sum.atLeastLessThan_concat [of b b' "n + 1" v] by (simp add: atLeastLessThanSuc_atLeastAtMost)
    have "\<exists>r. reward_loop P m n b' (acc + (\<Sum>i = b ..< b'. v i)) t = Inr r"
    proof (rule less.hyps)
      show "Suc n - b' < Suc n - b" using b' by linarith
    qed (use b' less.prems split in \<open>simp_all add: t_def\<close>)
    moreover have "b + P ^ p \<le> U64_MAX" "b' \<le> U64_MAX"
      using lim(3,4) small [OF p(2)] bn b' by fastforce+
    ultimately show ?thesis
      unfolding reward_loop_turn [OF P0 page_size_32 [OF P(2)] bn p(1), folded b'_def t_def] c
      using lim(1,2) [OF small [OF p(2)]] less.prems(4) split by (simp add: t_def)
  qed
qed

lemma calculate_reward_total:
  assumes "pages_ok P v n (page_of s)" and P: "2 \<le> P" "P * P * (n + 1) \<le> U64_MAX"
    and "1 \<le> b" "b \<le> n + 1" and "(\<Sum>i = b..n. v i) \<le> U128_MAX"
  shows "\<exists>s'. calculate_reward P b n s = Inr (\<Sum>i = b..n. v i, s')"
proof -
  have "\<exists>m. find_max_pow P b n [1..<255] 0 = Inr m \<and> P ^ m \<le> P * (n + 1)"
    using assms(4,5) P by (intro find_max_pow_total) auto
  then obtain m where m: "find_max_pow P b n [1..<255] 0 = Inr m" "P ^ m \<le> P * (n + 1)" by blast
  obtain r s' where "reward_loop P m n b 0 s = Inr (r, s')"
    using reward_loop_total [OF assms(1) P m(2) assms(4,5), of 0] assms(6) by auto
  with m(1) have run: "calculate_reward P b n s = Inr (r, s')" by (simp add: calculate_reward_def)
  have "0 < P" using P(1) by simp
  from calculate_reward_sum(1) [OF run assms(1) this page_size_32 [OF P(2)] assms(4,5)] run
  show ?thesis by blast
qed

lemma pages_ok_empty: "0 < P \<Longrightarrow> pages_ok P v 0 (\<lambda>_. [])"
  by (auto simp: pages_ok_def cell_def vec_get_or_0_def recorded_def cells_started_def)


section \<open>The contract: a log of blocks\<close>

text \<open>
  What the manager relies on. A log has recorded the values \<open>v 1, \<dots>, v n\<close>; the next block can be
  appended, and the sum from any block to the last one can be read.
\<close>

primrec add_blocks :: "(nat \<Rightarrow> nat \<Rightarrow> 's \<Rightarrow> 's res) \<Rightarrow> nat \<Rightarrow> nat list \<Rightarrow> 's \<Rightarrow> 's res" where
  "add_blocks add n [] s = Inr s"
| "add_blocks add n (x # xs) s = andthen (add (Suc n) x s) (add_blocks add (Suc n) xs)"

locale block_log =
  fixes bl_ok :: "(nat \<Rightarrow> nat) \<Rightarrow> nat \<Rightarrow> 's \<Rightarrow> bool"
    and bl_add :: "nat \<Rightarrow> nat \<Rightarrow> 's \<Rightarrow> 's res"
    and bl_sum :: "nat \<Rightarrow> nat \<Rightarrow> 's \<Rightarrow> (nat \<times> 's) res"
    and bl_cap :: nat
  assumes add_ok: "bl_ok v n s \<Longrightarrow> bl_add (Suc n) x s = Inr s' \<Longrightarrow> bl_ok (v(Suc n := x)) (Suc n) s'"
    and sum_ok: "bl_ok v n s \<Longrightarrow> bl_sum b n s = Inr (r, s') \<Longrightarrow> 1 \<le> b \<Longrightarrow> b \<le> n + 1 \<Longrightarrow>
      r = (\<Sum>i = b..n. v i) \<and> bl_ok v n s'"
    and add_total: "bl_ok v n s \<Longrightarrow> n < bl_cap \<Longrightarrow> (\<Sum>i = 1..n. v i) + x \<le> U128_MAX \<Longrightarrow>
      \<exists>s'. bl_add (Suc n) x s = Inr s'"
    and sum_total: "bl_ok v n s \<Longrightarrow> n \<le> bl_cap \<Longrightarrow> (\<Sum>i = 1..n. v i) \<le> U128_MAX \<Longrightarrow>
      1 \<le> b \<Longrightarrow> b \<le> n + 1 \<Longrightarrow> \<exists>r. bl_sum b n s = Inr r"
begin

lemma blocks_recorded:
  assumes "bl_ok v n s" and "n + length xs \<le> bl_cap" and "(\<Sum>i = 1..n. v i) + sum_list xs \<le> U128_MAX"
  shows "\<exists>s' v'. add_blocks bl_add n xs s = Inr s' \<and> bl_ok v' (n + length xs) s' \<and>
    (\<forall>i \<le> n. v' i = v i) \<and> (\<forall>i < length xs. v' (n + 1 + i) = xs ! i)"
  using assms
proof (induction xs arbitrary: v n s)
  case Nil
  then show ?case by auto
next
  case (Cons x xs)
  obtain t where t: "bl_add (Suc n) x s = Inr t"
    using add_total [OF Cons.prems(1)] Cons.prems(2,3) by fastforce
  let ?v = "v(Suc n := x)"
  have "(\<Sum>i = 1..Suc n. ?v i) = (\<Sum>i = 1..n. v i) + x" by simp
  then obtain s' v' where s': "add_blocks bl_add (Suc n) xs t = Inr s'"
    "bl_ok v' (Suc n + length xs) s'" and old: "\<forall>i \<le> Suc n. v' i = ?v i"
    and new: "\<forall>i < length xs. v' (Suc n + 1 + i) = xs ! i"
    using Cons.IH [OF add_ok [OF Cons.prems(1) t]] Cons.prems(2,3) by force
  have "v' (n + 1 + i) = (x # xs) ! i" if "i < length (x # xs)" for i
    using that old new by (cases i) auto
  moreover have "v' i = v i" if "i \<le> n" for i using that old by simp
  ultimately show ?case using t s' by auto
qed

text \<open>Reading from block \<open>a\<close> gives exactly what was appended from \<open>a\<close> on.\<close>

lemma sum_of_appended:
  assumes "bl_ok v 0 s" and "length xs \<le> bl_cap" and "sum_list xs \<le> U128_MAX"
    and "1 \<le> a" and "a \<le> length xs"
  shows "\<exists>s1 s2. add_blocks bl_add 0 xs s = Inr s1 \<and>
    bl_sum a (length xs) s1 = Inr (sum_list (drop (a - 1) xs), s2)"
proof -
  obtain s1 v' where s1: "add_blocks bl_add 0 xs s = Inr s1" "bl_ok v' (length xs) s1"
    and v': "\<forall>i < length xs. v' (1 + i) = xs ! i"
    using blocks_recorded [OF assms(1), of xs] assms(2,3) by auto
  have from_c: "(\<Sum>i = c + 1..length xs. v' i) = sum_list (drop c xs)" for c
  proof -
    have "sum_list (drop c xs) = (\<Sum>i = 0..<length xs - c. xs ! (c + i))"
      by (simp add: sum_list_sum_nth)
    also have "\<dots> = (\<Sum>i = 0..<length xs - c. v' (1 + (c + i)))" using v' by (intro sum.cong) auto
    also have "\<dots> = (\<Sum>i = c + 1..length xs. v' i)"
      by (rule sum.reindex_bij_witness [of _ "\<lambda>i. i - (c + 1)" "\<lambda>i. c + 1 + i"]) auto
    finally show ?thesis ..
  qed
  have "(\<Sum>i = 1..length xs. v' i) \<le> U128_MAX" using from_c [of 0] assms(3) by simp
  then obtain r s2 where r: "bl_sum a (length xs) s1 = Inr (r, s2)"
    using sum_total [OF s1(2) assms(2) _ assms(4)] assms(5) by fastforce
  have "r = (\<Sum>i = a..length xs. v' i)" using sum_ok [OF s1(2) r assms(4)] assms(5) by simp
  with s1(1) r from_c [of "a - 1"] assms(4) show ?thesis by auto
qed

end

text \<open>
  The pages of a pool, read and written by a new manager each time, are such a log, of as many
  blocks as the powers of the page size allow.
\<close>

definition page_capacity :: "nat \<Rightarrow> nat" where
  "page_capacity P = U64_MAX div (P * P) - 2"

lemma page_capacity_bound:
  assumes "2 \<le> P" and "n \<le> page_capacity P" and "P * P * 2 \<le> U64_MAX"
  shows "P * P * (n + 2) \<le> U64_MAX"
proof -
  have "2 \<le> U64_MAX div (P * P)"
    using assms(1,3) by (simp add: less_eq_div_iff_mult_less_eq mult.commute)
  then have "n + 2 \<le> U64_MAX div (P * P)" using assms(2) by (simp add: page_capacity_def)
  then show ?thesis using assms(1) by (simp add: less_eq_div_iff_mult_less_eq mult.commute)
qed

lemma pages_block_log:
  assumes P: "2 \<le> P" "P * P * 2 \<le> U64_MAX"
  shows "block_log (\<lambda>v n s. pages_ok P v n (page_of s) \<and> cache_ok s)
    (\<lambda>b x s. add_reward_inv P b x (new_storage s)) (\<lambda>b n s. calculate_reward P b n (new_storage s))
    (page_capacity P)"
proof -
  have P0: "0 < P" using P(1) by simp
  have P32: "P \<le> U32_MAX" using P(2) page_size_32 [of P 1] by simp
  show ?thesis
  proof unfold_locales
    fix v n x and s s' :: rewards
    assume ok: "pages_ok P v n (page_of s) \<and> cache_ok s"
      and run: "add_reward_inv P (Suc n) x (new_storage s) = Inr s'"
    note e = add_reward_inv_effect [OF run P(1) P32]
    show "pages_ok P (v(Suc n := x)) (Suc n) (page_of s') \<and> cache_ok s'"
      using ok e(3) pages_ok_add [OF _ P(1) e(1)] by (simp add: page_of_new_storage)
  next
    fix v n b r and s s' :: rewards
    assume ok: "pages_ok P v n (page_of s) \<and> cache_ok s" and b: "1 \<le> b" "b \<le> n + 1"
      and run: "calculate_reward P b n (new_storage s) = Inr (r, s')"
    from ok have "pages_ok P v n (page_of (new_storage s))" by (simp add: page_of_new_storage)
    from calculate_reward_sum [OF run this P0 P32 b] ok
    show "r = (\<Sum>i = b..n. v i) \<and> pages_ok P v n (page_of s') \<and> cache_ok s'"
      by (simp add: page_of_new_storage)
  next
    fix v n x and s :: rewards
    assume ok: "pages_ok P v n (page_of s) \<and> cache_ok s" and "n < page_capacity P"
      and fits: "(\<Sum>i = 1..n. v i) + x \<le> U128_MAX"
    then have "P * P * (n + 2) \<le> U64_MAX" using page_capacity_bound [OF P(1) _ P(2)] by simp
    with ok show "\<exists>s'. add_reward_inv P (Suc n) x (new_storage s) = Inr s'"
      by (intro add_reward_inv_total [OF _ P(1) _ fits]) (simp_all add: page_of_new_storage)
  next
    fix v n b and s :: rewards
    assume ok: "pages_ok P v n (page_of s) \<and> cache_ok s" and "n \<le> page_capacity P"
      and fits: "(\<Sum>i = 1..n. v i) \<le> U128_MAX" and b: "1 \<le> b" "b \<le> n + 1"
    then have "P * P * (n + 2) \<le> U64_MAX" using page_capacity_bound [OF P(1) _ P(2)] by simp
    moreover have "P * P * (n + 1) \<le> P * P * (n + 2)" by simp
    ultimately have n: "P * P * (n + 1) \<le> U64_MAX" by linarith
    have "(\<Sum>i = b..n. v i) \<le> (\<Sum>i = 1..n. v i)" using b by (intro sum_mono2) auto
    then have "(\<Sum>i = b..n. v i) \<le> U128_MAX" using fits by linarith
    from calculate_reward_total [OF _ P(1) n b this, of "new_storage s"] ok
    show "\<exists>r. calculate_reward P b n (new_storage s) = Inr r"
      by (auto simp: page_of_new_storage)
  qed
qed

text \<open>The contracts use pages of 100 cells.\<close>

definition PAGE_SIZE :: nat where
  "PAGE_SIZE = 100"

interpretation pool_pages: block_log "\<lambda>v n s. pages_ok PAGE_SIZE v n (page_of s) \<and> cache_ok s"
  "\<lambda>b x s. add_reward_inv PAGE_SIZE b x (new_storage s)"
  "\<lambda>b n s. calculate_reward PAGE_SIZE b n (new_storage s)" "page_capacity PAGE_SIZE"
  by (rule pages_block_log) (simp_all add: PAGE_SIZE_def U64_MAX_def)

text \<open>
  Claim C11: the paged, multi-level reward log computes what a plain list would. After the
  values \<open>xs\<close> have been recorded as blocks 1, 2, \<dots>, each by a manager of its own, reading from
  block \<open>a\<close> to the latest block returns the sum of the values from \<open>a\<close> on, and none of the
  operations aborts, for up to \<open>10 ^ 15\<close> blocks.
\<close>

theorem calculate_reward_sums_blocks:
  assumes "length xs \<le> 10 ^ 15" and "sum_list xs \<le> U128_MAX" and "1 \<le> a" and "a \<le> length xs"
  shows "\<exists>s1 s2.
    add_blocks (\<lambda>b x s. add_reward_inv PAGE_SIZE b x (new_storage s)) 0 xs empty_rewards = Inr s1 \<and>
    calculate_reward PAGE_SIZE a (length xs) (new_storage s1) = Inr (sum_list (drop (a - 1) xs), s2)"
proof (rule pool_pages.sum_of_appended [OF _ _ assms(2-4)])
  show "pages_ok PAGE_SIZE (\<lambda>_. 0) 0 (page_of empty_rewards) \<and> cache_ok empty_rewards"
  proof
    have "page_of empty_rewards = (\<lambda>_. [])" by (auto simp: page_of_def empty_rewards_def)
    then show "pages_ok PAGE_SIZE (\<lambda>_. 0) 0 (page_of empty_rewards)"
      using pages_ok_empty [of PAGE_SIZE] by (simp add: PAGE_SIZE_def)
    show "cache_ok empty_rewards" by (simp add: cache_ok_def empty_rewards_def)
  qed
  show "length xs \<le> page_capacity PAGE_SIZE"
    using assms(1) by (simp add: page_capacity_def PAGE_SIZE_def U64_MAX_def)
qed

theorem calculate_reward_sums_blocks_witness:
  "\<exists>s1 s2.
    add_blocks (\<lambda>b x s. add_reward_inv PAGE_SIZE b x (new_storage s)) 0 [5, 0, 7, 9] empty_rewards = Inr s1 \<and>
    calculate_reward PAGE_SIZE 2 4 (new_storage s1) = Inr (16, s2)"
proof -
  have e: "length [5, 0, 7, 9 :: nat] = 4" "sum_list (drop (2 - 1) [5, 0, 7, 9 :: nat]) = 16"
    by simp_all
  have h: "length [5, 0, 7, 9 :: nat] \<le> 10 ^ 15" "sum_list [5, 0, 7, 9] \<le> U128_MAX" "1 \<le> (2 :: nat)"
    "2 \<le> length [5, 0, 7, 9 :: nat]"
    by (simp_all add: U128_MAX_def)
  show ?thesis using calculate_reward_sums_blocks [OF h] by (simp only: e)
qed

end
