(* ===== verification/Tokens.thy ===== *)
theory Tokens
  imports Prelude
begin

text \<open>
  The tokens a contract calls. A token contract is not part of the calling contract: its
  operations are a parameter of the model, over a world \<open>'w\<close> that holds the state of all token
  contracts. The locale \<open>token_ledger\<close> states what the callers rely on, the SEP-41 behaviour of a
  transfer between different accounts; \<open>Share_Token\<close> interprets it on the repository's own token.
\<close>

record 'w tokens =
  tk_transfer :: "address \<Rightarrow> address \<Rightarrow> address \<Rightarrow> int \<Rightarrow> 'w \<Rightarrow> 'w res"
  tk_balance :: "address \<Rightarrow> address \<Rightarrow> 'w \<Rightarrow> int"

locale token_ledger =
  fixes tk :: "'w tokens"
  assumes transfer_moves: "tk_transfer tk t a b x w = Inr w' \<Longrightarrow> a \<noteq> b \<Longrightarrow>
      0 \<le> x \<and> x \<le> tk_balance tk t a w \<and>
      tk_balance tk t a w' = tk_balance tk t a w - x \<and>
      tk_balance tk t b w' = tk_balance tk t b w + x"
    and transfer_frame: "tk_transfer tk t a b x w = Inr w' \<Longrightarrow> a \<noteq> b \<Longrightarrow>
      t' \<noteq> t \<or> c \<noteq> a \<and> c \<noteq> b \<Longrightarrow> tk_balance tk t' c w' = tk_balance tk t' c w"
    and transfer_self: "tk_transfer tk t a a x w = Inr w' \<Longrightarrow> tk_balance tk t' c w' = tk_balance tk t' c w"
begin

lemma transfer_keeps_third:
  "tk_transfer tk t a b x w = Inr w' \<Longrightarrow> c \<noteq> a \<Longrightarrow> tk_balance tk t' c w \<le> tk_balance tk t' c w'"
  using transfer_moves [of t a b x w w'] transfer_frame [of t a b x w w' t' c] transfer_self [of t a x w w' t' c]
  by (cases "a = b"; cases "c = b"; cases "t' = t") auto

lemma transfer_from_loses:
  "tk_transfer tk t a b x w = Inr w' \<Longrightarrow> a \<noteq> b \<Longrightarrow> tk_balance tk t a w' = tk_balance tk t a w - x"
  using transfer_moves by blast

lemma transfer_to_gains:
  "tk_transfer tk t a b x w = Inr w' \<Longrightarrow> a \<noteq> b \<Longrightarrow> tk_balance tk t b w' = tk_balance tk t b w + x"
  using transfer_moves by blast

text \<open>A transfer moves value inside its token and creates none.\<close>

lemma transfer_conserves:
  assumes "tk_transfer tk t a b x w = Inr w'" and "a \<noteq> b" and "finite U" and "a \<in> U" and "b \<in> U"
  shows "(\<Sum>c \<in> U. tk_balance tk t' c w') = (\<Sum>c \<in> U. tk_balance tk t' c w)"
proof (cases "t' = t")
  case True
  have rest: "(\<Sum>c \<in> U - {a, b}. tk_balance tk t c w') = (\<Sum>c \<in> U - {a, b}. tk_balance tk t c w)"
    using transfer_frame [OF assms(1,2)] by (intro sum.cong) auto
  have split: "(\<Sum>c \<in> U. f c) = f a + f b + (\<Sum>c \<in> U - {a, b}. f c)" for f :: "address \<Rightarrow> int"
  proof -
    have "U = insert a (insert b (U - {a, b}))" using assms(4,5) by auto
    then show ?thesis
      using assms(2,3) by (metis add.assoc finite_Diff finite_insert insert_Diff_single
          insert_iff Diff_iff sum.insert)
  qed
  show ?thesis
    using True rest transfer_moves [OF assms(1,2)]
    by (simp add: split [of "\<lambda>c. tk_balance tk t c w'"] split [of "\<lambda>c. tk_balance tk t c w"])
next
  case False
  then show ?thesis using transfer_frame [OF assms(1,2)] by (intro sum.cong) auto
qed

end

end
