(* ===== verification/Rewards.thy ===== *)
theory Rewards
  imports Reward_Pages Fixed_Point Concentrated_Weight Tokens
begin

text \<open>
  \<^verbatim>\<open>rewards/src/manager.rs\<close> with its two plugins (\<^verbatim>\<open>opt_out\<close>, \<^verbatim>\<open>locked_boost\<close>): accrual of the
  pool's reward by time, settlement of users by blocks, and the working balances that weigh them.
  The state is \<open>rewards\<close>; what a call reads outside it is the context: the ledger, the page
  size, the fixed-point library, and the two contracts behind the boost, the locked token's
  balances and the feed of the total locked amount (not under src/: a failing balance call is
  \<open>None\<close>, as the source's \<^verbatim>\<open>try_balance\<close>).
\<close>

record reward_ctx =
  rc_env :: env
  rc_fp :: fixed_point
  rc_page_size :: nat
  rc_boost_balance :: "address \<Rightarrow> address \<Rightarrow> int option"
  rc_total_locked :: "address \<Rightarrow> nat res"

definition REWARD_PRECISION :: nat where
  "REWARD_PRECISION = 10000000000000000000000"

section \<open>Opting out\<close>

definition set_user_rewards_state :: "address \<Rightarrow> nat \<Rightarrow> bool \<Rightarrow> rewards \<Rightarrow> rewards res" where
  "set_user_rewards_state user user_share_balance value s =
     (let current_state = get_user_rewards_state s user in
      if current_state = value then Inr s
      else
        let total_excluded = get_total_excluded_shares s in
        andthen
          (case (current_state, value) of
             (True, False) \<Rightarrow> u128_add total_excluded user_share_balance
           | (False, True) \<Rightarrow> Inr (sat_sub total_excluded user_share_balance)
           | _ \<Rightarrow> Inr total_excluded) (\<lambda>total_excluded.
        Inr (put_user_rewards_state user value (set_total_excluded_shares total_excluded s))))"

definition opt_out_effective_balance :: "rewards \<Rightarrow> address \<Rightarrow> nat \<Rightarrow> nat" where
  "opt_out_effective_balance s user share_balance =
     (if get_user_rewards_state s user then share_balance else 0)"

section \<open>Boost\<close>

definition get_user_boost_balance :: "reward_ctx \<Rightarrow> rewards \<Rightarrow> address \<Rightarrow> nat" where
  "get_user_boost_balance c s user =
     (case rw_boost_token s of
        Some token \<Rightarrow> (case rc_boost_balance c token user of Some balance \<Rightarrow> as_u128 balance | None \<Rightarrow> 0)
      | None \<Rightarrow> 0)"

definition get_total_locked :: "reward_ctx \<Rightarrow> rewards \<Rightarrow> nat res" where
  "get_total_locked c s =
     (case rw_boost_feed s of Some feed \<Rightarrow> rc_total_locked c feed | None \<Rightarrow> Inr 0)"

definition boost_effective_balance ::
  "reward_ctx \<Rightarrow> rewards \<Rightarrow> address \<Rightarrow> nat \<Rightarrow> nat \<Rightarrow> nat res" where
  "boost_effective_balance c s user share_balance total_share =
     (let lock_balance = get_user_boost_balance c s user in
      andthen (get_total_locked c s) (\<lambda>total_locked.
      andthen
        (if 0 < total_locked then
           andthen (mul_floor (rc_fp c) lock_balance total_share total_locked) (\<lambda>x.
           andthen (u128_mul 3 x) (\<lambda>y.
           u128_add share_balance (y div 2)))
         else Inr share_balance) (\<lambda>adjusted_balance.
      andthen (u128_mul share_balance 5) (\<lambda>z.
      let max_effective_balance = z div 2 in
      Inr (if max_effective_balance < adjusted_balance then max_effective_balance
           else adjusted_balance)))))"

definition calculate_effective_balance ::
  "reward_ctx \<Rightarrow> rewards \<Rightarrow> address \<Rightarrow> nat \<Rightarrow> nat \<Rightarrow> nat res" where
  "calculate_effective_balance c s user share_balance total_share =
     boost_effective_balance c s user (opt_out_effective_balance s user share_balance) total_share"

definition calculate_effective_balance_with_multiplier ::
  "reward_ctx \<Rightarrow> rewards \<Rightarrow> address \<Rightarrow> nat \<Rightarrow> nat \<Rightarrow> nat \<Rightarrow> nat res" where
  "calculate_effective_balance_with_multiplier c s user share_balance total_share multiplier_bps =
     andthen (calculate_effective_balance c s user share_balance total_share) (\<lambda>effective_balance.
     Inr (apply_multiplier effective_balance multiplier_bps))"

definition calculate_effective_balance_for_tick_range ::
  "reward_ctx \<Rightarrow> rewards \<Rightarrow> address \<Rightarrow> nat \<Rightarrow> nat \<Rightarrow> int \<Rightarrow> int \<Rightarrow> int \<Rightarrow> nat \<Rightarrow> nat res" where
  "calculate_effective_balance_for_tick_range c s user share_balance total_share
     tick_current tick_lower tick_upper fee =
     andthen (position_multiplier_bps tick_current tick_lower tick_upper fee) (\<lambda>multiplier.
     calculate_effective_balance_with_multiplier c s user share_balance total_share multiplier)"

section \<open>Pool reward data\<close>

definition update_reward_inv :: "reward_ctx \<Rightarrow> nat \<Rightarrow> nat \<Rightarrow> rewards \<Rightarrow> rewards res" where
  "update_reward_inv c tokens working_supply s =
     andthen
       (if 0 < working_supply
        then andthen (mul_floor_256 (rc_fp c) REWARD_PRECISION tokens working_supply) to_u128
        else Inr 0) (\<lambda>reward_per_share.
     add_reward_inv (rc_page_size c) (block (get_pool_reward_data s)) reward_per_share s)"

definition create_new_rewards_data ::
  "reward_ctx \<Rightarrow> nat \<Rightarrow> nat \<Rightarrow> pool_reward_data \<Rightarrow> rewards \<Rightarrow> (pool_reward_data \<times> rewards) res" where
  "create_new_rewards_data c generated_tokens working_supply new_data s =
     andthen (update_reward_inv c generated_tokens working_supply (set_pool_reward_data new_data s)) (\<lambda>s.
     Inr (new_data, s))"

definition generated ::
  "nat \<Rightarrow> nat \<Rightarrow> nat \<Rightarrow> nat \<Rightarrow> nat res" where
  \<comment> \<open>the reward of the seconds from \<open>from\<close> to \<open>to\<close>\<close>
  "generated working_supply from to rate =
     (if working_supply = 0 then Inr 0
      else andthen (u_sub to from) (\<lambda>seconds. u128_mul seconds rate))"

definition next_data :: "pool_reward_data \<Rightarrow> nat \<Rightarrow> nat \<Rightarrow> pool_reward_data res" where
  "next_data data tokens now =
     andthen (u64_add (block data) 1) (\<lambda>b.
     andthen (u128_add (accumulated data) tokens) (\<lambda>acc.
     Inr \<lparr>block = b, accumulated = acc, claimed = claimed data, last_time = now\<rparr>))"

definition update_rewards_data ::
  "reward_ctx \<Rightarrow> nat \<Rightarrow> rewards \<Rightarrow> (pool_reward_data \<times> rewards) res" where
  "update_rewards_data c working_supply s =
     (let config = get_pool_reward_config s;
          data = get_pool_reward_data s;
          now = ledger_timestamp (rc_env c) in
      if now \<le> expired_at config then
        andthen (generated working_supply (last_time data) now (tps config)) (\<lambda>generated_tokens.
        andthen (next_data data generated_tokens now) (\<lambda>d.
        create_new_rewards_data c generated_tokens working_supply d s))
      else if last_time data < expired_at config then
        andthen (generated working_supply (last_time data) (expired_at config) (tps config)) (\<lambda>generated_tokens.
        andthen (next_data data generated_tokens (expired_at config)) (\<lambda>d.
        create_new_rewards_data c generated_tokens working_supply d s))
      else Inr (data, s))"

definition snapshot_rewards_data ::
  "reward_ctx \<Rightarrow> nat \<Rightarrow> rewards \<Rightarrow> (pool_reward_data \<times> rewards) res" where
  "snapshot_rewards_data c working_supply s =
     (let data = get_pool_reward_data s; now = ledger_timestamp (rc_env c) in
      if last_time data = now then Inr (data, s)
      else
        andthen (next_data data 0 now) (\<lambda>d.
        create_new_rewards_data c 0 working_supply d s))"

section \<open>Working balances\<close>

definition get_working_supply :: "nat \<Rightarrow> rewards \<Rightarrow> nat \<times> rewards" where
  "get_working_supply total_shares s =
     (case rw_working_supply s of
        Some v \<Rightarrow> (v, s)
      | None \<Rightarrow> (total_shares, set_working_supply total_shares s))"

definition get_working_balance :: "address \<Rightarrow> nat \<Rightarrow> rewards \<Rightarrow> nat \<times> rewards" where
  "get_working_balance user user_balance_shares s =
     (case rw_working_balance s user of
        Some v \<Rightarrow> (v, s)
      | None \<Rightarrow> (user_balance_shares, set_working_balance user user_balance_shares s))"

definition update_working_balance ::
  "reward_ctx \<Rightarrow> address \<Rightarrow> nat \<Rightarrow> nat \<Rightarrow> rewards \<Rightarrow> ((nat \<times> nat) \<times> rewards) res" where
  "update_working_balance c user total_shares new_share_balance s =
     (let (prev_working_balance, s) = get_working_balance user new_share_balance s;
          (prev_working_supply, s) = get_working_supply total_shares s in
      andthen (calculate_effective_balance c s user new_share_balance total_shares) (\<lambda>working_balance.
      andthen (u128_add prev_working_supply working_balance) (\<lambda>x.
      andthen (u_sub x prev_working_balance) (\<lambda>new_working_supply.
      Inr ((prev_working_balance, prev_working_supply),
        set_working_balance user working_balance (set_working_supply new_working_supply s))))))"

section \<open>Users\<close>

definition create_new_user_data ::
  "address \<Rightarrow> pool_reward_data \<Rightarrow> nat \<Rightarrow> rewards \<Rightarrow> user_reward_data \<times> rewards" where
  "create_new_user_data user pool_data amount s =
     (let new_data = \<lparr>pool_accumulated = accumulated pool_data, to_claim = amount,
        last_block = block pool_data\<rparr>
      in (new_data, set_user_reward_data user new_data s))"

definition calculate_user_reward ::
  "reward_ctx \<Rightarrow> nat \<Rightarrow> nat \<Rightarrow> nat \<Rightarrow> rewards \<Rightarrow> (nat \<times> rewards) res" where
  "calculate_user_reward c start_block end_block user_share s =
     andthen (calculate_reward (rc_page_size c) start_block end_block s) (\<lambda>(result, s).
     andthen (mul_floor_256 (rc_fp c) result user_share REWARD_PRECISION) (\<lambda>x.
     andthen (to_u128 x) (\<lambda>reward. Inr (reward, s))))"

definition update_user_reward ::
  "reward_ctx \<Rightarrow> pool_reward_data \<Rightarrow> address \<Rightarrow> nat \<Rightarrow> rewards \<Rightarrow> (user_reward_data \<times> rewards) res" where
  "update_user_reward c pool_data user user_balance_shares s =
     (case rw_user_data s user of
        Some user_data \<Rightarrow>
          if pool_accumulated user_data = accumulated pool_data then Inr (user_data, s)
          else if user_balance_shares = 0
          then Inr (create_new_user_data user pool_data (to_claim user_data) s)
          else
            andthen (u64_add (last_block user_data) 1) (\<lambda>start_block.
            andthen (calculate_user_reward c start_block (block pool_data) user_balance_shares s) (\<lambda>(reward, s).
            andthen (u128_add (to_claim user_data) reward) (\<lambda>amount.
            Inr (create_new_user_data user pool_data amount s))))
      | None \<Rightarrow> Inr (create_new_user_data user pool_data 0 s))"

definition checkpoint_user ::
  "reward_ctx \<Rightarrow> address \<Rightarrow> nat \<Rightarrow> nat \<Rightarrow> rewards \<Rightarrow> (user_reward_data \<times> rewards) res" where
  "checkpoint_user c user total_shares user_balance_shares s =
     andthen (update_working_balance c user total_shares user_balance_shares s)
       (\<lambda>((working_balance, new_working_supply), s).
     andthen (update_rewards_data c new_working_supply s) (\<lambda>(pool_data, s).
     update_user_reward c pool_data user working_balance s))"

definition get_amount_to_claim ::
  "reward_ctx \<Rightarrow> address \<Rightarrow> nat \<Rightarrow> nat \<Rightarrow> rewards \<Rightarrow> (nat \<times> rewards) res" where
  "get_amount_to_claim c user total_shares user_balance_shares s =
     andthen (checkpoint_user c user total_shares user_balance_shares s) (\<lambda>(d, s). Inr (to_claim d, s))"

definition claim_reward ::
  "reward_ctx \<Rightarrow> 'w tokens \<Rightarrow> address \<Rightarrow> nat \<Rightarrow> nat \<Rightarrow> rewards \<times> 'w \<Rightarrow> (nat \<times> rewards \<times> 'w) res" where
  "claim_reward c tk user total_shares user_balance_shares sw =
     andthen (checkpoint_user c user total_shares user_balance_shares (fst sw)) (\<lambda>(d, s).
     let reward_amount = to_claim d; pool_data = get_pool_reward_data s in
     andthen (u128_add (claimed pool_data) reward_amount) (\<lambda>total_claimed.
     let s = set_pool_reward_data (pool_data\<lparr>claimed := total_claimed\<rparr>) s in
     andthen (get_reward_token s) (\<lambda>reward_token.
     andthen (tk_transfer tk reward_token (current_contract (rc_env c)) user (as_i128 reward_amount)
       (snd sw)) (\<lambda>w.
     Inr (reward_amount, set_user_reward_data user (d\<lparr>to_claim := 0\<rparr>) s, w)))))"

section \<open>Configuration and totals\<close>

definition set_reward_config :: "reward_ctx \<Rightarrow> nat \<Rightarrow> nat \<Rightarrow> nat \<Rightarrow> rewards \<Rightarrow> rewards res" where
  "set_reward_config c total_shares expired_at_arg rate s =
     (let now = ledger_timestamp (rc_env c); old_config = get_pool_reward_config s in
      andthen
        (if rate = 0 then Inr now
         else if expired_at old_config = expired_at_arg then Inl (RewardsError RW_SameRewardsConfig)
         else Inr expired_at_arg) (\<lambda>new_expired_at.
      if new_expired_at < now then Inl (RewardsError RW_PastTimeNotAllowed)
      else if expired_at old_config < now \<and> rate = 0 then Inr s
      else
        let (working_supply, s) = get_working_supply total_shares s in
        andthen (update_rewards_data c working_supply s) (\<lambda>(_, s).
        andthen (snapshot_rewards_data c working_supply s) (\<lambda>(_, s).
        Inr (set_pool_reward_config \<lparr>tps = rate, expired_at = new_expired_at\<rparr> s)))))"

definition get_total_accumulated_reward :: "reward_ctx \<Rightarrow> nat \<Rightarrow> rewards \<Rightarrow> (nat \<times> rewards) res" where
  "get_total_accumulated_reward c total_shares s =
     (let (working_supply, s) = get_working_supply total_shares s in
      andthen (update_rewards_data c working_supply s) (\<lambda>(data, s). Inr (accumulated data, s)))"

definition adjust_total_accumulated_reward :: "reward_ctx \<Rightarrow> nat \<Rightarrow> int \<Rightarrow> rewards \<Rightarrow> rewards res" where
  "adjust_total_accumulated_reward c total_shares diff s =
     (let (working_supply, s) = get_working_supply total_shares s in
      andthen (update_rewards_data c working_supply s) (\<lambda>(data, s).
      andthen (if 0 \<le> diff then u128_add (accumulated data) (as_u128 diff)
               else if diff = - (2 ^ 127) then Inl HostPanic
               else u_sub (accumulated data) (as_u128 \<bar>diff\<bar>)) (\<lambda>acc.
      Inr (set_pool_reward_data (data\<lparr>accumulated := acc\<rparr>) s))))"

definition get_total_claimed_reward :: "reward_ctx \<Rightarrow> nat \<Rightarrow> rewards \<Rightarrow> (nat \<times> rewards) res" where
  "get_total_claimed_reward c total_shares s =
     (let (working_supply, s) = get_working_supply total_shares s in
      andthen (update_rewards_data c working_supply s) (\<lambda>(data, s). Inr (claimed data, s)))"

definition get_total_configured_reward :: "reward_ctx \<Rightarrow> nat \<Rightarrow> rewards \<Rightarrow> (nat \<times> rewards) res" where
  "get_total_configured_reward c total_shares s =
     (let config = get_pool_reward_config s; (working_supply, s) = get_working_supply total_shares s in
      andthen (update_rewards_data c working_supply s) (\<lambda>(data, s).
      let now = ledger_timestamp (rc_env c) in
      if expired_at config \<le> now then Inr (accumulated data, s)
      else
        andthen (u_sub (expired_at config) now) (\<lambda>d.
        andthen (u128_mul d (tps config)) (\<lambda>outstanding_reward.
        andthen (u128_add (accumulated data) outstanding_reward) (\<lambda>total. Inr (total, s))))))"

end
