(* ===== verification/Reward_Solvency.thy ===== *)
theory Reward_Solvency
  imports Rewards
begin

text \<open>
  What the rewards manager guarantees: how much accrues, how much a balance weighs, and that the
  pool never owes its users more than it has accrued. The argument for the last is a sum over
  users, in units of \<open>1 / REWARD_PRECISION\<close>: what is settled plus what the recorded blocks still
  give to the user's current weight.
\<close>

section \<open>Weights\<close>

lemma effective_balance_eq:
  assumes "fixed_point_lib (rc_fp c)" and "calculate_effective_balance c s u b tot = Inr e"
  shows "\<exists>locked. get_total_locked c s = Inr locked \<and>
    e = (if \<not> get_user_rewards_state s u then 0
         else min (b + (if 0 < locked
           then 3 * (get_user_boost_balance c s u * tot div locked) div 2 else 0)) (b * 5 div 2))"
  using assms(2)
  by (auto simp: calculate_effective_balance_def boost_effective_balance_def opt_out_effective_balance_def
      Let_def res_simps fixed_point_lib.mul_floor_eq_Inr [OF assms(1)] split: if_splits)

text \<open>
  The balance that counts for rewards lies between the share balance and two and
  a half times it, and is zero exactly for a user who opted out or has no shares.
\<close>

theorem effective_balance_bounds:
  assumes "fixed_point_lib (rc_fp c)" and "calculate_effective_balance c s u b tot = Inr e"
  shows "if get_user_rewards_state s u then b \<le> e \<and> 2 * e \<le> 5 * b else e = 0"
proof -
  obtain locked where e: "e = (if \<not> get_user_rewards_state s u then 0
      else min (b + (if 0 < locked
        then 3 * (get_user_boost_balance c s u * tot div locked) div 2 else 0)) (b * 5 div 2))"
    using effective_balance_eq [OF assms] by blast
  have "b \<le> b * 5 div 2" "2 * (b * 5 div 2) \<le> 5 * b" by simp_all
  then show ?thesis by (auto simp: e min_def)
qed

definition sample_env :: env where
  "sample_env = \<lparr>ledger_timestamp = 100, ledger_sequence = 1, authorized = (\<lambda>_. True), current_contract = 9\<rparr>"

definition sample_ctx :: reward_ctx where
  \<comment> \<open>a boosted pool: everyone has 30 of the 60 locked tokens\<close>
  "sample_ctx = \<lparr>rc_env = sample_env, rc_fp = exact_fixed_point, rc_page_size = 100,
     rc_boost_balance = (\<lambda>_ _. Some 30), rc_total_locked = (\<lambda>_. Inr 60)\<rparr>"

theorem effective_balance_bounds_witness:
  "calculate_effective_balance sample_ctx
     (empty_rewards\<lparr>rw_boost_token := Some 1, rw_boost_feed := Some 2\<rparr>) 5 100 200 = Inr 250 \<and>
    100 \<le> (250 :: nat) \<and> 2 * 250 \<le> 5 * (100 :: nat)"
proof -
  let ?s = "empty_rewards\<lparr>rw_boost_token := Some 1, rw_boost_feed := Some 2\<rparr>"
  have run: "calculate_effective_balance sample_ctx ?s 5 100 200 = Inr 250"
    by (simp add: calculate_effective_balance_def boost_effective_balance_def sample_ctx_def
        opt_out_effective_balance_def get_user_rewards_state_def empty_rewards_def Let_def
        get_user_boost_balance_def get_total_locked_def exact_fixed_point_def mul_floor_def u_defs
        U128_MAX_def as_u128_def)
  have st: "get_user_rewards_state ?s 5" by (simp add: get_user_rewards_state_def empty_rewards_def)
  from effective_balance_bounds [OF _ run] st run show ?thesis by (simp add: sample_ctx_def)
qed

definition eff :: "rewards \<Rightarrow> (address \<Rightarrow> nat) \<Rightarrow> address \<Rightarrow> nat" where
  \<comment> \<open>the weight of a user: the stored working balance, or the share balance before the first checkpoint\<close>
  "eff s sh u = (case rw_working_balance s u of Some w \<Rightarrow> w | None \<Rightarrow> sh u)"

definition supply_ok :: "address set \<Rightarrow> (address \<Rightarrow> nat) \<Rightarrow> nat \<Rightarrow> rewards \<Rightarrow> bool" where
  \<comment> \<open>the working supply, before the first checkpoint the total of the shares, covers all weights\<close>
  "supply_ok U sh tot s \<longleftrightarrow>
     (\<Sum>u \<in> U. eff s sh u) \<le> (case rw_working_supply s of Some ws \<Rightarrow> ws | None \<Rightarrow> tot)"

lemma sum_upd:
  fixes f :: "address \<Rightarrow> nat"
  assumes "finite U" and "u \<in> U"
  shows "(\<Sum>x \<in> U. (f(u := y)) x) + f u = (\<Sum>x \<in> U. f x) + y"
proof -
  have "(\<Sum>x \<in> U. g x) = g u + (\<Sum>x \<in> U - {u}. g x)" for g :: "address \<Rightarrow> nat"
    using assms by (rule sum.remove)
  from this [of f] this [of "f(u := y)"] show ?thesis by simp
qed

lemma get_working_balance_eq:
  "get_working_balance u (sh u) s =
    (eff s sh u, s\<lparr>rw_working_balance := (rw_working_balance s)(u \<mapsto> eff s sh u)\<rparr>)"
proof (cases "rw_working_balance s u")
  case (Some w)
  then have "(rw_working_balance s)(u \<mapsto> w) = rw_working_balance s" by (simp add: map_upd_triv)
  with Some show ?thesis by (simp add: get_working_balance_def eff_def)
qed (simp add: get_working_balance_def eff_def set_working_balance_def)

lemma get_working_supply_ok:
  assumes "get_working_supply tot s = (ws, s')" and "supply_ok U sh tot s"
  shows "(\<Sum>x \<in> U. eff s sh x) \<le> ws" and "s' = s\<lparr>rw_working_supply := Some ws\<rparr>"
  using assms by (cases s; auto simp: get_working_supply_def supply_ok_def set_working_supply_def
      split: option.splits)+

lemma eff_fields [simp]:
  "eff (s\<lparr>rw_working_supply := x\<rparr>) sh = eff s sh"
  "eff (s\<lparr>rw_working_balance := (rw_working_balance s)(u \<mapsto> w)\<rparr>) sh = (eff s sh)(u := w)"
  by (auto simp: eff_def)

lemma update_working_balance_effect:
  assumes run: "update_working_balance c u tot (sh u) s = Inr ((pb, ps), s')"
    and U: "finite U" "u \<in> U" and ok: "supply_ok U sh tot s"
  shows "pb = eff s sh u" and "(\<Sum>x \<in> U. eff s sh x) \<le> ps"
    and "\<exists>w. eff s' sh = (eff s sh)(u := w)" and "supply_ok U sh tot' s'"
    and "\<exists>w ws. s' = s\<lparr>rw_working_balance := (rw_working_balance s)(u \<mapsto> w), rw_working_supply := Some ws\<rparr>"
proof -
  define s1 where "s1 = s\<lparr>rw_working_balance := (rw_working_balance s)(u \<mapsto> eff s sh u)\<rparr>"
  have e1: "eff s1 sh = eff s sh" by (simp add: s1_def)
  have "rw_working_supply s1 = rw_working_supply s" by (simp add: s1_def)
  then have ok1: "supply_ok U sh tot s1" using ok by (simp add: supply_ok_def e1)
  obtain ws s2 where ws: "get_working_supply tot s1 = (ws, s2)" by fastforce
  note sup = get_working_supply_ok [OF ws ok1, unfolded e1]
  from run obtain w x y where add: "u128_add ws w = Inr x" "u_sub x (eff s sh u) = Inr y"
    and out: "((eff s sh u, ws), set_working_balance u w (set_working_supply y s2)) = ((pb, ps), s')"
    unfolding update_working_balance_def Let_def get_working_balance_eq [of u sh s, folded s1_def] prod.case ws
    by (elim andthen_eq_Inr [THEN iffD1, elim_format] exE conjE) (auto dest: Inr_inject)
  have w: "pb = eff s sh u" "ps = ws" "pb \<le> ps + w"
    "s' = s\<lparr>rw_working_balance := (rw_working_balance s)(u \<mapsto> w), rw_working_supply := Some (ps + w - pb)\<rparr>"
    using add out by (auto simp: u_add_eq_Inr u_sub_eq_Inr set_working_balance_def set_working_supply_def
        s1_def sup(2))
  then show "pb = eff s sh u" and "(\<Sum>x \<in> U. eff s sh x) \<le> ps" using sup(1) by simp_all
  have e: "eff s' sh = (eff s sh)(u := w)" by (simp add: w(4))
  then show "\<exists>w. eff s' sh = (eff s sh)(u := w)" by blast
  have "(\<Sum>x \<in> U. eff s' sh x) \<le> ps + w - pb"
    unfolding e using sum_upd [OF U, of "eff s sh" w] w(1-3) sup(1) by linarith
  then show "supply_ok U sh tot' s'" by (simp add: supply_ok_def w(4))
  show "\<exists>w ws. s' = s\<lparr>rw_working_balance := (rw_working_balance s)(u \<mapsto> w), rw_working_supply := Some ws\<rparr>"
    using w(4) by blast
qed

section \<open>Accrual\<close>

lemma generated_InrD:
  "generated ws a b r = Inr g \<Longrightarrow> ws = 0 \<Longrightarrow> g = 0"
  "generated ws a b r = Inr g \<Longrightarrow> 0 < ws \<Longrightarrow> g = (b - a) * r \<and> a \<le> b"
  by (auto simp: generated_def res_simps)

text \<open>The value recorded for a block that distributes \<open>g\<close> tokens over the weight \<open>ws\<close>.\<close>

definition per_share :: "nat \<Rightarrow> nat \<Rightarrow> nat" where
  "per_share g ws = (if 0 < ws then REWARD_PRECISION * g div ws else 0)"

lemma per_share_le: "ws * per_share g ws \<le> REWARD_PRECISION * g"
  by (simp add: per_share_def)

lemma per_share_0 [simp]: "per_share 0 ws = 0"
  by (simp add: per_share_def)

definition block_added :: "nat \<Rightarrow> nat \<Rightarrow> nat \<Rightarrow> (nat \<Rightarrow> nat) \<Rightarrow> rewards \<Rightarrow> (nat \<Rightarrow> nat) \<Rightarrow> rewards \<Rightarrow> bool" where
  \<comment> \<open>one new block that distributes \<open>g\<close> tokens over the weight \<open>ws\<close>\<close>
  "block_added P ws g v s v' s' \<longleftrightarrow>
     (let n = block (get_pool_reward_data s) in
      v' = v(Suc n := per_share g ws) \<and> (ws = 0 \<longrightarrow> g = 0) \<and>
      pages_ok P v' (Suc n) (page_of s') \<and> cache_ok s' \<and>
      (\<exists>t. same_but_pages (set_pool_reward_data \<lparr>block = Suc n,
         accumulated = accumulated (get_pool_reward_data s) + g,
         claimed = claimed (get_pool_reward_data s), last_time = t\<rparr> s) s'))"

locale manager_ctx =
  fixes c :: reward_ctx
  assumes lib: "fixed_point_lib (rc_fp c)"
    and page_size: "2 \<le> rc_page_size c" "rc_page_size c \<le> U32_MAX"
begin

lemma new_block:
  assumes "create_new_rewards_data c g ws d s = Inr (d', s')" and "next_data (get_pool_reward_data s) g t = Inr d"
    and "pages_ok (rc_page_size c) v (block (get_pool_reward_data s)) (page_of s)" and "cache_ok s"
    and "ws = 0 \<Longrightarrow> g = 0"
  shows "\<exists>v'. block_added (rc_page_size c) ws g v s v' s'" and "d' = d" and "get_pool_reward_data s' = d"
proof -
  let ?n = "block (get_pool_reward_data s)"
  let ?s = "set_pool_reward_data d s"
  have d: "d = \<lparr>block = Suc ?n, accumulated = accumulated (get_pool_reward_data s) + g,
      claimed = claimed (get_pool_reward_data s), last_time = t\<rparr>"
    using assms(2) by (auto simp: next_data_def res_simps)
  from assms(1) have d': "d' = d"
    and add: "add_reward_inv (rc_page_size c) (Suc ?n) (per_share g ws) ?s = Inr s'"
    using d by (auto simp: create_new_rewards_data_def update_reward_inv_def res_simps per_share_def
        dest!: fixed_point_lib.mul_floor_256_InrD [OF lib] split: if_splits)
  note e = add_reward_inv_effect [OF add page_size]
  have "pages_ok (rc_page_size c) (v(Suc ?n := per_share g ws)) (Suc ?n) (page_of s')"
    using pages_ok_add [OF _ page_size(1) e(1)] assms(3) by simp
  with e(2,3) assms(4,5) show "\<exists>v'. block_added (rc_page_size c) ws g v s v' s'"
    unfolding block_added_def Let_def d by auto
  show "d' = d" by (rule d')
  show "get_pool_reward_data s' = d"
    using same_but_pagesD(2) [OF e(2)] by (simp add: get_pool_reward_data_def set_pool_reward_data_def)
qed

lemma update_rewards_cases:
  assumes "update_rewards_data c ws s = Inr (d, s')"
    and "pages_ok (rc_page_size c) v (block (get_pool_reward_data s)) (page_of s)" and "cache_ok s"
  shows "(s' = s \<or> (\<exists>g v'. block_added (rc_page_size c) ws g v s v' s')) \<and> d = get_pool_reward_data s'"
  using assms(1) new_block [OF _ _ assms(2,3)] generated_InrD(1)
  by (simp add: update_rewards_data_def Let_def res_simps split: if_splits) metis+

lemma snapshot_rewards_cases:
  assumes "snapshot_rewards_data c ws s = Inr (d, s')"
    and "pages_ok (rc_page_size c) v (block (get_pool_reward_data s)) (page_of s)" and "cache_ok s"
  shows "(s' = s \<or> (\<exists>g v'. block_added (rc_page_size c) ws g v s v' s')) \<and> d = get_pool_reward_data s'"
  using assms(1) new_block [OF _ _ assms(2,3)]
  by (simp add: snapshot_rewards_data_def Let_def res_simps split: if_splits) metis+


end

section \<open>Solvency\<close>

definition unpaid :: "(nat \<Rightarrow> nat) \<Rightarrow> rewards \<Rightarrow> address \<Rightarrow> nat" where
  \<comment> \<open>what the blocks after the user's last checkpoint give per unit of weight\<close>
  "unpaid v s u = (case rw_user_data s u of None \<Rightarrow> 0
     | Some ud \<Rightarrow> (\<Sum>i = last_block ud + 1..block (get_pool_reward_data s). v i))"

definition settled :: "rewards \<Rightarrow> address \<Rightarrow> nat" where
  "settled s u = (case rw_user_data s u of None \<Rightarrow> 0 | Some ud \<Rightarrow> to_claim ud)"

definition user_ok :: "(nat \<Rightarrow> nat) \<Rightarrow> rewards \<Rightarrow> address \<Rightarrow> bool" where
  "user_ok v s u \<longleftrightarrow> (case rw_user_data s u of None \<Rightarrow> True | Some ud \<Rightarrow>
     last_block ud \<le> block (get_pool_reward_data s) \<and>
     pool_accumulated ud \<le> accumulated (get_pool_reward_data s) \<and>
     (pool_accumulated ud = accumulated (get_pool_reward_data s) \<longrightarrow> unpaid v s u = 0))"

definition owed :: "(nat \<Rightarrow> nat) \<Rightarrow> (address \<Rightarrow> nat) \<Rightarrow> rewards \<Rightarrow> address \<Rightarrow> nat" where
  "owed v e s u = REWARD_PRECISION * settled s u + e u * unpaid v s u"

definition core_ok ::
  "nat \<Rightarrow> address set \<Rightarrow> (address \<Rightarrow> nat) \<Rightarrow> (nat \<Rightarrow> nat) \<Rightarrow> rewards \<Rightarrow> bool" where
  "core_ok P U e v s \<longleftrightarrow>
     pages_ok P v (block (get_pool_reward_data s)) (page_of s) \<and> cache_ok s \<and> (\<forall>u. user_ok v s u) \<and>
     (\<Sum>u \<in> U. owed v e s u) + REWARD_PRECISION * claimed (get_pool_reward_data s)
       \<le> REWARD_PRECISION * accumulated (get_pool_reward_data s)"

definition rewards_inv ::
  "nat \<Rightarrow> address set \<Rightarrow> (address \<Rightarrow> nat) \<Rightarrow> nat \<Rightarrow> rewards \<Rightarrow> bool" where
  "rewards_inv P U sh tot s \<longleftrightarrow> supply_ok U sh tot s \<and> (\<exists>v. core_ok P U (eff s sh) v s)"

text \<open>A new block distributes at most what it adds to the accumulated total.\<close>

lemma core_ok_block:
  assumes ok: "core_ok P U e v s" and add: "block_added P ws g v s v' s'"
    and ws: "(\<Sum>u \<in> U. e u) \<le> ws"
  shows "core_ok P U e v' s'"
proof -
  define d where "d = get_pool_reward_data s"
  define x where "x = per_share g ws"
  from add obtain t where v': "v' = v(Suc (block d) := x)"
    and pages: "pages_ok P v' (Suc (block d)) (page_of s')" "cache_ok s'"
    and g0: "ws = 0 \<longrightarrow> g = 0"
    and s': "same_but_pages (set_pool_reward_data \<lparr>block = Suc (block d),
      accumulated = accumulated d + g, claimed = claimed d, last_time = t\<rparr> s) s'"
    unfolding block_added_def Let_def d_def [symmetric] x_def [symmetric] by (elim conjE exE) (rule that)
  have d': "get_pool_reward_data s' = \<lparr>block = Suc (block d),
      accumulated = accumulated d + g, claimed = claimed d, last_time = t\<rparr>"
    using same_but_pagesD(2) [OF s'] by (simp add: get_pool_reward_data_def set_pool_reward_data_def)
  have ud: "rw_user_data s' = rw_user_data s"
    using same_but_pagesD(3) [OF s'] by (simp add: set_pool_reward_data_def)
  have users: "user_ok v s u" for u using ok by (simp add: core_ok_def)
  have un: "unpaid v' s' u = unpaid v s u + (if rw_user_data s u = None then 0 else x)" for u
  proof (cases "rw_user_data s u")
    case (Some a)
    with users [of u] have "last_block a \<le> block d" by (simp add: user_ok_def d_def)
    moreover have "(\<Sum>i = Suc (last_block a)..block d. v' i) = (\<Sum>i = Suc (last_block a)..block d. v i)"
      by (intro sum.cong) (auto simp: v')
    ultimately show ?thesis using Some by (simp add: unpaid_def ud d' d_def [symmetric] v')
  qed (simp add: unpaid_def ud)
  have "user_ok v' s' u" for u
  proof (cases "rw_user_data s u")
    case (Some a)
    have "x = 0" if "g = 0" using that by (simp add: x_def)
    with Some users [of u] show ?thesis
      by (auto simp: user_ok_def ud d' un d_def [symmetric])
  qed (simp add: user_ok_def ud)
  moreover have "(\<Sum>u \<in> U. owed v' e s' u) \<le> (\<Sum>u \<in> U. owed v e s u + e u * x)"
    by (intro sum_mono) (auto simp: owed_def un settled_def ud algebra_simps)
  moreover have "(\<Sum>u \<in> U. owed v e s u + e u * x) = (\<Sum>u \<in> U. owed v e s u) + (\<Sum>u \<in> U. e u) * x"
    by (simp add: sum.distrib sum_distrib_right)
  moreover have "(\<Sum>u \<in> U. e u) * x \<le> REWARD_PRECISION * g"
    using mult_le_mono1 [OF ws, of x] per_share_le [of ws g] unfolding x_def by linarith
  moreover have "(\<Sum>u \<in> U. owed v e s u) + REWARD_PRECISION * claimed d \<le> REWARD_PRECISION * accumulated d"
    using ok by (simp add: core_ok_def d_def)
  ultimately show ?thesis using pages by (simp add: core_ok_def d' algebra_simps)
qed

text \<open>Only some fields matter.\<close>

lemma core_ok_cong:
  assumes "core_ok P U e v s" and "get_pool_reward_data s' = get_pool_reward_data s"
    and "rw_user_data s' = rw_user_data s" and "page_of s' = page_of s" and "cache_ok s'"
  shows "core_ok P U e v s'"
proof -
  have "unpaid v s' = unpaid v s" "settled s' = settled s"
    unfolding unpaid_def [abs_def] settled_def [abs_def] assms(2,3) by (rule refl)+
  then show ?thesis
    using assms by (simp add: core_ok_def user_ok_def owed_def [abs_def] cong: option.case_cong)
qed

text \<open>Settling a user at the weight its blocks were distributed for.\<close>

lemma core_ok_user:
  assumes ok: "core_ok P U e v s" and U: "finite U"
    and amount: "REWARD_PRECISION * amount \<le> owed v e s u"
  defines "s' \<equiv> snd (create_new_user_data u (get_pool_reward_data s) amount s)"
  shows "core_ok P U e v s'" and "unpaid v s' u = 0"
proof -
  have d: "get_pool_reward_data s' = get_pool_reward_data s" and page: "page_of s' = page_of s"
    and cache: "cache_ok s' = cache_ok s"
    and ud: "rw_user_data s' = (rw_user_data s)(u \<mapsto> \<lparr>pool_accumulated = accumulated (get_pool_reward_data s),
      to_claim = amount, last_block = block (get_pool_reward_data s)\<rparr>)"
    by (simp_all add: s'_def create_new_user_data_def Let_def set_user_reward_data_def)
  show un: "unpaid v s' u = 0" by (simp add: unpaid_def ud d)
  have other: "unpaid v s' x = unpaid v s x" "settled s' x = settled s x" "user_ok v s' x = user_ok v s x"
    if "x \<noteq> u" for x
    using that by (simp_all add: unpaid_def settled_def user_ok_def ud d cong: option.case_cong)
  have "user_ok v s' x" for x
    using ok other(3) [of x] un by (cases "x = u") (auto simp: core_ok_def user_ok_def ud d)
  moreover have "owed v e s' x \<le> owed v e s x" for x
    using other(1,2) [of x] amount un by (cases "x = u") (auto simp: owed_def settled_def ud)
  then have "(\<Sum>x \<in> U. owed v e s' x) \<le> (\<Sum>x \<in> U. owed v e s x)" by (intro sum_mono)
  ultimately show "core_ok P U e v s'" using ok by (simp add: core_ok_def d page cache)
qed

text \<open>A user with nothing unpaid can take any weight.\<close>

lemma core_ok_reweigh:
  assumes "core_ok P U e v s" and "unpaid v s u = 0"
  shows "core_ok P U (e(u := w)) v s"
proof -
  have "owed v (e(u := w)) s x = owed v e s x" for x using assms(2) by (simp add: owed_def)
  with assms(1) show ?thesis by (simp add: core_ok_def)
qed


lemma core_okD:
  assumes "core_ok P U e v s"
  shows "pages_ok P v (block (get_pool_reward_data s)) (page_of s)" and "cache_ok s" and "user_ok v s u"
  using assms by (simp_all add: core_ok_def)

lemma rewards_inv_cong:
  assumes "rewards_inv P U sh tot s" and "get_pool_reward_data s' = get_pool_reward_data s"
    and "rw_user_data s' = rw_user_data s" and "page_of s' = page_of s" and "cache_ok s'"
    and "rw_working_balance s' = rw_working_balance s" and "rw_working_supply s' = rw_working_supply s"
  shows "rewards_inv P U sh tot s'"
proof -
  from assms(1) obtain v where v: "core_ok P U (eff s sh) v s" "supply_ok U sh tot s" by (auto simp: rewards_inv_def)
  have e: "eff s' sh = eff s sh" by (simp add: eff_def [abs_def] assms(6))
  from core_ok_cong [OF v(1) assms(2-5)] v(2) show ?thesis
    by (auto simp: rewards_inv_def supply_ok_def e assms(7) cong: option.case_cong)
qed

lemma block_added_fields:
  assumes "block_added P ws g v s v' s'"
  shows "rw_working_balance s' = rw_working_balance s" and "rw_working_supply s' = rw_working_supply s"
    and "rw_user_data s' = rw_user_data s"
proof -
  from assms obtain d where "same_but_pages (set_pool_reward_data d s) s'"
    unfolding block_added_def Let_def by blast
  from same_but_pagesD [OF this]
  show "rw_working_balance s' = rw_working_balance s" and "rw_working_supply s' = rw_working_supply s"
    and "rw_user_data s' = rw_user_data s" by (simp_all add: set_pool_reward_data_def)
qed

section \<open>Every operation keeps the pool solvent\<close>

text \<open>Settlement as \<open>update_user_reward\<close> does it, for the weight the blocks were distributed for.\<close>

context manager_ctx begin

lemma floor_reward:
  assumes "mul_floor_256 (rc_fp c) r w REWARD_PRECISION = Inr x"
  shows "REWARD_PRECISION * x \<le> w * r"
  using fixed_point_lib.mul_floor_256_InrD [OF lib assms] by (simp add: mult.commute)

lemma update_user_reward_ok:
  assumes run: "update_user_reward c (get_pool_reward_data s) u (e u) s = Inr (ud, s')"
    and ok: "core_ok (rc_page_size c) U e v s" and U: "finite U"
  shows "core_ok (rc_page_size c) U e v s'" and "unpaid v s' u = 0"
    and "rw_user_data s' u = Some ud" and "get_pool_reward_data s' = get_pool_reward_data s"
    and "rw_working_balance s' = rw_working_balance s" and "rw_working_supply s' = rw_working_supply s"
proof -
  let ?P = "rc_page_size c"
  let ?d = "get_pool_reward_data s"
  have all: "core_ok ?P U e v s' \<and> unpaid v s' u = 0 \<and> rw_user_data s' u = Some ud \<and>
      get_pool_reward_data s' = ?d \<and> rw_working_balance s' = rw_working_balance s \<and>
      rw_working_supply s' = rw_working_supply s"
  proof (cases "rw_user_data s u")
    case None
    with run have s': "s' = snd (create_new_user_data u ?d 0 s)" "ud = fst (create_new_user_data u ?d 0 s)"
      by (auto simp: update_user_reward_def)
    with core_ok_user [OF ok U, of 0 u] show ?thesis
      by (simp add: create_new_user_data_def Let_def set_user_reward_data_def)
  next
    case (Some a)
    have uok: "user_ok v s u" using ok by (simp add: core_ok_def)
    consider "pool_accumulated a = accumulated ?d" "ud = a" "s' = s"
      | "e u = 0" "(ud, s') = create_new_user_data u ?d (to_claim a) s"
      | r t x where "calculate_reward ?P (last_block a + 1) (block ?d) s = Inr (r, t)"
          "mul_floor_256 (rc_fp c) r (e u) REWARD_PRECISION = Inr x"
          "(ud, s') = create_new_user_data u ?d (to_claim a + x) t"
      using run Some by (auto simp: update_user_reward_def calculate_user_reward_def res_simps split: if_splits)
    then show ?thesis
    proof cases
      case 1
      with ok uok Some show ?thesis by (simp add: user_ok_def)
    next
      case 2
      have s': "s' = snd (create_new_user_data u ?d (to_claim a) s)" using 2(2) by (metis snd_conv)
      have "REWARD_PRECISION * to_claim a \<le> owed v e s u" by (simp add: owed_def settled_def Some)
      from core_ok_user [OF ok U this] 2(2) show ?thesis
        unfolding s' by (simp add: create_new_user_data_def Let_def set_user_reward_data_def)
    next
      case 3
      have pages: "pages_ok ?P v (block ?d) (page_of s)" and cache: "cache_ok s"
        using ok by (simp_all add: core_ok_def)
      have P0: "0 < ?P" using page_size by simp
      have "last_block a + 1 \<le> block ?d + 1" using uok Some by (simp add: user_ok_def)
      from calculate_reward_sum [OF 3(1) pages P0 page_size(2) _ this]
      have r: "r = unpaid v s u" and t: "page_of t = page_of s" "same_but_pages s t" "cache_ok t"
        using cache Some by (simp_all add: unpaid_def)
      have dt: "get_pool_reward_data t = ?d"
        using same_but_pagesD(2) [OF t(2)] by (simp add: get_pool_reward_data_def)
      note ut = same_but_pagesD(3) [OF t(2)]
      have okt: "core_ok ?P U e v t" using core_ok_cong [OF ok dt ut t(1,3)] .
      have s': "s' = snd (create_new_user_data u (get_pool_reward_data t) (to_claim a + x) t)"
        unfolding dt using 3(3) by (metis snd_conv)
      have same: "unpaid v t u = unpaid v s u" "settled t u = to_claim a"
        by (simp_all add: unpaid_def settled_def ut dt Some)
      have "REWARD_PRECISION * (to_claim a + x) \<le> owed v e t u"
        using floor_reward [OF 3(2)] by (simp add: owed_def same r algebra_simps)
      from core_ok_user [OF okt U this] 3(3) same_but_pagesD(7,8) [OF t(2)] show ?thesis
        unfolding s' by (simp add: create_new_user_data_def Let_def set_user_reward_data_def dt)
    qed
  qed
  then show "core_ok ?P U e v s'" and "unpaid v s' u = 0" and "rw_user_data s' u = Some ud"
    and "get_pool_reward_data s' = ?d" and "rw_working_balance s' = rw_working_balance s"
    and "rw_working_supply s' = rw_working_supply s" by simp_all
qed

lemma update_rewards_ok:
  assumes run: "update_rewards_data c ws s = Inr (d, s')" and ok: "core_ok (rc_page_size c) U e v s"
    and ws: "(\<Sum>u \<in> U. e u) \<le> ws"
  shows "\<exists>v'. core_ok (rc_page_size c) U e v' s'" and "d = get_pool_reward_data s'"
    and "rw_working_balance s' = rw_working_balance s" and "rw_working_supply s' = rw_working_supply s"
    and "rw_user_data s' = rw_user_data s"
  using update_rewards_cases [OF run core_okD(1,2) [OF ok]] core_ok_block [OF ok _ ws] block_added_fields ok
  by metis+

lemma snapshot_rewards_ok:
  assumes run: "snapshot_rewards_data c ws s = Inr (d, s')" and ok: "core_ok (rc_page_size c) U e v s"
    and ws: "(\<Sum>u \<in> U. e u) \<le> ws"
  shows "\<exists>v'. core_ok (rc_page_size c) U e v' s'"
    and "rw_working_balance s' = rw_working_balance s" and "rw_working_supply s' = rw_working_supply s"
  using snapshot_rewards_cases [OF run core_okD(1,2) [OF ok]] core_ok_block [OF ok _ ws] block_added_fields ok
  by metis+

lemma checkpoint_ok:
  assumes run: "checkpoint_user c u tot (sh u) s = Inr (ud, s')"
    and inv: "rewards_inv (rc_page_size c) U sh tot s" and U: "finite U" "u \<in> U"
  shows "rewards_inv (rc_page_size c) U sh tot s'" and "rw_user_data s' u = Some ud"
    and "\<exists>w. rw_working_balance s' = (rw_working_balance s)(u \<mapsto> w)" and "rw_working_supply s' \<noteq> None"
    and "\<exists>v. core_ok (rc_page_size c) U (eff s' sh) v s' \<and> unpaid v s' u = 0"
proof -
  let ?P = "rc_page_size c" and ?e = "eff s sh"
  from inv obtain v where sup: "supply_ok U sh tot s" and core: "core_ok ?P U ?e v s"
    by (auto simp: rewards_inv_def)
  from run obtain pb ps s1 d s2 where r1: "update_working_balance c u tot (sh u) s = Inr ((pb, ps), s1)"
    and r2: "update_rewards_data c ps s1 = Inr (d, s2)" and r3: "update_user_reward c d u pb s2 = Inr (ud, s')"
    by (auto simp: checkpoint_user_def res_simps)
  note w = update_working_balance_effect [OF r1 U sup]
  from w(5) obtain y ws where
    s1: "s1 = s\<lparr>rw_working_balance := (rw_working_balance s)(u \<mapsto> y), rw_working_supply := Some ws\<rparr>"
    by blast
  obtain x where x: "eff s1 sh = ?e(u := x)" using w(3) by blast
  have "core_ok ?P U ?e v s1"
    by (rule core_ok_cong [OF core]) (use core in \<open>simp_all add: s1 core_ok_def\<close>)
  note u2 = update_rewards_ok [OF r2 this w(2)]
  then obtain v' where core2: "core_ok ?P U ?e v' s2" by blast
  note u3 = update_user_reward_ok [where e = ?e, OF r3 [unfolded u2(2) w(1)] core2 U(1)]
  have core': "core_ok ?P U (eff s1 sh) v' s'" unfolding x by (rule core_ok_reweigh [OF u3(1,2)])
  moreover have e: "eff s' sh = eff s1 sh" by (simp add: eff_def [abs_def] u2(3) u3(5))
  moreover have "supply_ok U sh tot s'" using w(4) by (simp add: supply_ok_def e u2(4) u3(6) cong: option.case_cong)
  ultimately show "rewards_inv ?P U sh tot s'" by (auto simp: rewards_inv_def)
  show "rw_user_data s' u = Some ud" by (rule u3(3))
  show "\<exists>w. rw_working_balance s' = (rw_working_balance s)(u \<mapsto> w)" "rw_working_supply s' \<noteq> None"
    using s1 by (auto simp: u2(3,4) u3(5,6))
  show "\<exists>v. core_ok ?P U (eff s' sh) v s' \<and> unpaid v s' u = 0"
    unfolding e using core' u3(2) by blast
qed

text \<open>A settled user can be weighed again, which is what a contract does after a change of shares.\<close>

lemma reweigh_ok:
  assumes run: "update_working_balance c u tot (sh u) s = Inr (p, s')"
    and core: "core_ok P U (eff s sh) v s" "unpaid v s u = 0" and sup: "supply_ok U sh tot s"
    and U: "finite U" "u \<in> U"
  shows "rewards_inv P U sh tot s'"
proof -
  obtain pb ps where p: "p = (pb, ps)" by fastforce
  note w = update_working_balance_effect [OF run [unfolded p] U sup]
  from w(5) obtain y ws where
    s': "s' = s\<lparr>rw_working_balance := (rw_working_balance s)(u \<mapsto> y), rw_working_supply := Some ws\<rparr>" by blast
  obtain x where x: "eff s' sh = (eff s sh)(u := x)" using w(3) by blast
  have "core_ok P U (eff s' sh) v s"
    unfolding x by (rule core_ok_reweigh [OF core])
  then have "core_ok P U (eff s' sh) v s'"
    by (rule core_ok_cong) (use core(1) in \<open>simp_all add: s' core_ok_def\<close>)
  with w(4) show ?thesis by (auto simp: rewards_inv_def)
qed

lemma claim_ok:
  assumes run: "claim_reward c tk u tot (sh u) (s, w) = Inr (amount, s', w')"
    and inv: "rewards_inv (rc_page_size c) U sh tot s" and U: "finite U" "u \<in> U"
  shows "rewards_inv (rc_page_size c) U sh tot s'"
proof -
  let ?P = "rc_page_size c"
  from run obtain ud t where cp: "checkpoint_user c u tot (sh u) s = Inr (ud, t)"
    and s': "s' = set_user_reward_data u (ud\<lparr>to_claim := 0\<rparr>)
      (set_pool_reward_data ((get_pool_reward_data t)\<lparr>claimed := claimed (get_pool_reward_data t) + to_claim ud\<rparr>) t)"
    by (auto simp: claim_reward_def Let_def res_simps)
  note c = checkpoint_ok [OF cp inv U]
  from c(1) obtain v where core: "core_ok ?P U (eff t sh) v t" and sup: "supply_ok U sh tot t"
    by (auto simp: rewards_inv_def)
  let ?e = "eff t sh"
  let ?d = "get_pool_reward_data t"
  have d: "get_pool_reward_data s' = ?d\<lparr>claimed := claimed ?d + to_claim ud\<rparr>"
    and ud': "rw_user_data s' = (rw_user_data t)(u \<mapsto> ud\<lparr>to_claim := 0\<rparr>)"
    and pg: "page_of s' = page_of t" "cache_ok s' = cache_ok t"
    by (simp_all add: s' set_user_reward_data_def) (simp add: set_pool_reward_data_def)
  have e: "eff s' sh = ?e" and ws: "rw_working_supply s' = rw_working_supply t"
    by (simp_all add: s' eff_def [abs_def] set_user_reward_data_def set_pool_reward_data_def)
  have un: "unpaid v s' x = unpaid v t x" for x
    using c(2) by (simp add: unpaid_def ud' d cong: option.case_cong)
  have users: "user_ok v s' x" for x
    using core_okD(3) [OF core, of x] c(2) un [of x]
    by (cases "x = u") (simp_all add: user_ok_def ud' d cong: option.case_cong)
  have "owed v ?e s' = (owed v ?e t)(u := ?e u * unpaid v t u)"
    using c(2) by (auto simp: owed_def un settled_def ud')
  moreover have "owed v ?e t u = ?e u * unpaid v t u + REWARD_PRECISION * to_claim ud"
    using c(2) by (simp add: owed_def settled_def)
  ultimately have "(\<Sum>x \<in> U. owed v ?e s' x) + REWARD_PRECISION * to_claim ud = (\<Sum>x \<in> U. owed v ?e t x)"
    using sum_upd [OF U, of "owed v ?e t" "?e u * unpaid v t u"] by simp
  with core users have "core_ok ?P U ?e v s'" by (simp add: core_ok_def d pg algebra_simps)
  with sup show ?thesis
    by (auto simp: rewards_inv_def e supply_ok_def ws cong: option.case_cong)
qed

text \<open>The pool-level operations: accrual at the current working supply.\<close>

lemma supply_ok_weights:
  assumes "supply_ok U sh tot s" and "rw_working_supply s = Some ws"
    and "rw_working_balance s' = rw_working_balance s" and "rw_working_supply s' = rw_working_supply s"
  shows "supply_ok U sh tot s'" and "eff s' sh = eff s sh"
  using assms by (simp_all add: supply_ok_def eff_def [abs_def])

lemma refresh_ok:
  assumes inv: "rewards_inv (rc_page_size c) U sh tot s"
    and ws: "get_working_supply tot s = (ws, s1)" and run: "update_rewards_data c ws s1 = Inr (d, s')"
  shows "rewards_inv (rc_page_size c) U sh tot s'" and "(\<Sum>x \<in> U. eff s' sh x) \<le> ws"
    and "rw_working_supply s' = Some ws" and "d = get_pool_reward_data s'"
proof -
  from inv obtain v where core: "core_ok (rc_page_size c) U (eff s sh) v s" and sup: "supply_ok U sh tot s"
    by (auto simp: rewards_inv_def)
  note w = get_working_supply_ok [OF ws sup]
  have "core_ok (rc_page_size c) U (eff s sh) v s1"
    by (rule core_ok_cong [OF core]) (use core in \<open>simp_all add: w(2) core_ok_def\<close>)
  note u = update_rewards_ok [OF run this w(1)]
  have e: "eff s' sh = eff s sh" by (simp add: eff_def [abs_def] u(3) w(2))
  show "rw_working_supply s' = Some ws" by (simp add: u(4) w(2))
  then show "rewards_inv (rc_page_size c) U sh tot s'" and "(\<Sum>x \<in> U. eff s' sh x) \<le> ws"
    using u(1) w(1) by (auto simp: rewards_inv_def e supply_ok_def)
  show "d = get_pool_reward_data s'" by (rule u(2))
qed

lemma set_reward_config_ok:
  assumes run: "set_reward_config c tot ex rate s = Inr s'"
    and inv: "rewards_inv (rc_page_size c) U sh tot s"
  shows "rewards_inv (rc_page_size c) U sh tot s'"
proof -
  obtain ws s1 where ws: "get_working_supply tot s = (ws, s1)" by fastforce
  from run consider "s' = s"
    | d s2 d' s3 cfg where "update_rewards_data c ws s1 = Inr (d, s2)"
        "snapshot_rewards_data c ws s2 = Inr (d', s3)" "s' = set_pool_reward_config cfg s3"
    by (auto simp: set_reward_config_def Let_def res_simps ws split: if_splits)
  then show ?thesis
  proof cases
    case 1
    with inv show ?thesis by simp
  next
    case 2
    note r = refresh_ok [OF inv ws 2(1)]
    from r(1) obtain v where core: "core_ok (rc_page_size c) U (eff s2 sh) v s2" and sup: "supply_ok U sh tot s2"
      by (auto simp: rewards_inv_def)
    note sn = snapshot_rewards_ok [OF 2(2) core r(2)]
    note w = supply_ok_weights [OF sup r(3) sn(2,3)]
    from sn(1) w have "rewards_inv (rc_page_size c) U sh tot s3" by (auto simp: rewards_inv_def)
    then show ?thesis
      by (rule rewards_inv_cong)
        (use \<open>rewards_inv _ U sh tot s3\<close> in \<open>auto simp: 2(3) set_pool_reward_config_def rewards_inv_def core_ok_def\<close>)
  qed
qed

end


text \<open>The managers the contracts make, for any ledger and boost.\<close>

definition pool_reward_ctx ::
  "env \<Rightarrow> (address \<Rightarrow> address \<Rightarrow> int option) \<Rightarrow> (address \<Rightarrow> nat res) \<Rightarrow> reward_ctx" where
  "pool_reward_ctx e boost locked = \<lparr>rc_env = e, rc_fp = exact_fixed_point, rc_page_size = PAGE_SIZE,
     rc_boost_balance = boost, rc_total_locked = locked\<rparr>"

interpretation pool_manager: manager_ctx "pool_reward_ctx e boost locked" for e boost locked
  by (rule manager_ctx.intro) (simp_all add: pool_reward_ctx_def PAGE_SIZE_def U32_MAX_def)

end
