(* ===== verification/Reward_Runs.thy ===== *)
theory Reward_Runs
  imports Reward_Solvency
begin

text \<open>
  Whole runs of the rewards module, as its contracts use it, and the solvency of every run.
\<close>

section \<open>Runs\<close>

text \<open>
  A run is a sequence of calls by the contract: each makes a new manager and passes it the total
  it keeps and the user's share balance. A change of a user's shares is preceded by a checkpoint
  of that user; a deposit or withdrawal is followed by a new weighing, and a transfer by new
  checkpoints (\<^verbatim>\<open>token/src/contract.rs\<close>). A burn by the holder, which the token allows without
  telling the pool, lowers the balance only. The administrator may correct the accumulated total by hand
  (\<^verbatim>\<open>adjust_total_accumulated_reward\<close>); \<open>raises\<close> says that a correction does not lower it. A lower
  total may equal the one a user was last settled at, and then a checkpoint takes the user for settled
  although blocks are unpaid (\<open>lowered_total_skips_settlement\<close>).
\<close>

datatype rw_op =
    RwCheckpoint address
  | RwClaim address
  | RwSetShares address nat nat
  | RwTransfer address address nat
  | RwBurn address nat
  | RwOptState address bool
  | RwSetConfig nat nat
  | RwAmount address
  | RwRefresh
  | RwTotalClaimed
  | RwTotalConfigured
  | RwAdjust int

fun rw_users :: "rw_op \<Rightarrow> address set" where
  "rw_users (RwCheckpoint u) = {u}"
| "rw_users (RwClaim u) = {u}"
| "rw_users (RwSetShares u x t) = {u}"
| "rw_users (RwTransfer a b x) = {a, b}"
| "rw_users (RwBurn u x) = {u}"
| "rw_users (RwOptState u b) = {u}"
| "rw_users (RwSetConfig ex r) = {}"
| "rw_users (RwAmount u) = {u}"
| "rw_users RwRefresh = {}"
| "rw_users RwTotalClaimed = {}"
| "rw_users RwTotalConfigured = {}"
| "rw_users (RwAdjust d) = {}"

fun raises :: "rw_op \<Rightarrow> bool" where
  "raises (RwAdjust d) \<longleftrightarrow> 0 \<le> d"
| "raises _ \<longleftrightarrow> True"

record 'w rw_world =
  ww_rewards :: rewards
  ww_shares :: "address \<Rightarrow> nat"
  ww_total :: nat
  ww_world :: 'w

definition run_checkpoint :: "reward_ctx \<Rightarrow> address \<Rightarrow> 'w rw_world \<Rightarrow> 'w rw_world res" where
  "run_checkpoint c u x =
     andthen (checkpoint_user c u (ww_total x) (ww_shares x u) (new_storage (ww_rewards x))) (\<lambda>(_, s).
     Inr (x\<lparr>ww_rewards := s\<rparr>))"

definition run_reweigh :: "reward_ctx \<Rightarrow> address \<Rightarrow> 'w rw_world \<Rightarrow> 'w rw_world res" where
  "run_reweigh c u x =
     andthen (update_working_balance c u (ww_total x) (ww_shares x u) (ww_rewards x)) (\<lambda>(_, s).
     Inr (x\<lparr>ww_rewards := s\<rparr>))"

definition move_shares :: "address \<Rightarrow> address \<Rightarrow> nat \<Rightarrow> 'w rw_world \<Rightarrow> 'w rw_world res" where
  "move_shares a b n x =
     andthen (u_sub (ww_shares x a) n) (\<lambda>left.
     let sh = (ww_shares x)(a := left) in Inr (x\<lparr>ww_shares := sh(b := sh b + n)\<rparr>))"

fun rw_step :: "'w tokens \<Rightarrow> reward_ctx \<times> rw_op \<Rightarrow> 'w rw_world \<Rightarrow> 'w rw_world res" where
  "rw_step tk (c, RwCheckpoint u) x = run_checkpoint c u x"
| "rw_step tk (c, RwClaim u) x =
     andthen (claim_reward c tk u (ww_total x) (ww_shares x u) (new_storage (ww_rewards x), ww_world x))
       (\<lambda>(_, s, w). Inr (x\<lparr>ww_rewards := s, ww_world := w\<rparr>))"
| "rw_step tk (c, RwSetShares u n t) x =
     andthen (run_checkpoint c u x) (\<lambda>x.
     run_reweigh c u (x\<lparr>ww_shares := (ww_shares x)(u := n), ww_total := t\<rparr>))"
| "rw_step tk (c, RwTransfer a b n) x =
     andthen (run_checkpoint c a x) (\<lambda>x.
     andthen (run_checkpoint c b x) (\<lambda>x.
     andthen (move_shares a b n x) (\<lambda>x.
     andthen (run_checkpoint c a x) (run_checkpoint c b))))"
| "rw_step tk (c, RwBurn u n) x =
     andthen (u_sub (ww_shares x u) n) (\<lambda>left. Inr (x\<lparr>ww_shares := (ww_shares x)(u := left)\<rparr>))"
| "rw_step tk (c, RwOptState u b) x =
     andthen (set_user_rewards_state u (ww_shares x u) b (new_storage (ww_rewards x))) (\<lambda>s.
     Inr (x\<lparr>ww_rewards := s\<rparr>))"
| "rw_step tk (c, RwSetConfig ex r) x =
     andthen (set_reward_config c (ww_total x) ex r (new_storage (ww_rewards x))) (\<lambda>s.
     Inr (x\<lparr>ww_rewards := s\<rparr>))"
| "rw_step tk (c, RwAmount u) x =
     andthen (get_amount_to_claim c u (ww_total x) (ww_shares x u) (new_storage (ww_rewards x))) (\<lambda>(_, s).
     Inr (x\<lparr>ww_rewards := s\<rparr>))"
| "rw_step tk (c, RwRefresh) x =
     andthen (get_total_accumulated_reward c (ww_total x) (new_storage (ww_rewards x))) (\<lambda>(_, s).
     Inr (x\<lparr>ww_rewards := s\<rparr>))"
| "rw_step tk (c, RwTotalClaimed) x =
     andthen (get_total_claimed_reward c (ww_total x) (new_storage (ww_rewards x))) (\<lambda>(_, s).
     Inr (x\<lparr>ww_rewards := s\<rparr>))"
| "rw_step tk (c, RwTotalConfigured) x =
     andthen (get_total_configured_reward c (ww_total x) (new_storage (ww_rewards x))) (\<lambda>(_, s).
     Inr (x\<lparr>ww_rewards := s\<rparr>))"
| "rw_step tk (c, RwAdjust d) x =
     andthen (adjust_total_accumulated_reward c (ww_total x) d (new_storage (ww_rewards x))) (\<lambda>s.
     Inr (x\<lparr>ww_rewards := s\<rparr>))"

definition run_inv :: "nat \<Rightarrow> address set \<Rightarrow> 'w rw_world \<Rightarrow> bool" where
  "run_inv P U x \<longleftrightarrow> rewards_inv P U (ww_shares x) (ww_total x) (ww_rewards x)"

section \<open>Every step keeps the invariant\<close>

lemma rewards_inv_new_storage:
  assumes "rewards_inv P U sh tot s"
  shows "rewards_inv P U sh tot (new_storage s)"
proof (rule rewards_inv_cong [OF assms])
  from assms have "cache_ok s" by (auto simp: rewards_inv_def core_ok_def)
  then show "page_of (new_storage s) = page_of s" by (rule page_of_new_storage)
qed (simp_all add: new_storage_def cache_ok_def)

lemma eff_shares:
  assumes "rw_working_balance s u \<noteq> None"
  shows "eff s (sh(u := x)) = eff s sh"
  using assms by (auto simp: eff_def fun_eq_iff split: option.splits)

lemma core_ok_weight_mono:
  assumes "core_ok P U e v s" and "\<And>u. e' u \<le> e u"
  shows "core_ok P U e' v s"
proof -
  have "(\<Sum>u \<in> U. owed v e' s u) \<le> (\<Sum>u \<in> U. owed v e s u)"
    unfolding owed_def by (intro sum_mono add_left_mono mult_le_mono1 assms(2))
  with assms(1) show ?thesis by (simp add: core_ok_def)
qed

lemma opt_state_ok:
  assumes "set_user_rewards_state u b v s = Inr s'" and "rewards_inv P U sh tot s"
  shows "rewards_inv P U sh tot s'"
proof (rule rewards_inv_cong [OF assms(2)])
  have c: "cache_ok s" using assms(2) by (auto simp: rewards_inv_def core_ok_def)
  show "get_pool_reward_data s' = get_pool_reward_data s" "rw_user_data s' = rw_user_data s"
    "page_of s' = page_of s" "cache_ok s'" "rw_working_balance s' = rw_working_balance s"
    "rw_working_supply s' = rw_working_supply s"
    using assms(1) c by (auto simp: set_user_rewards_state_def Let_def res_simps
        put_user_rewards_state_def set_total_excluded_shares_def split: if_splits)
qed

lemma raised_ok:
  assumes "rewards_inv P U sh tot s" and "d = get_pool_reward_data s"
  shows "rewards_inv P U sh tot (set_pool_reward_data (d\<lparr>accumulated := accumulated d + n\<rparr>) s)"
proof -
  let ?s = "set_pool_reward_data (d\<lparr>accumulated := accumulated d + n\<rparr>) s"
  from assms(1) obtain v where v: "core_ok P U (eff s sh) v s" and sup: "supply_ok U sh tot s" by (auto simp: rewards_inv_def)
  have data: "get_pool_reward_data ?s = d\<lparr>accumulated := accumulated d + n\<rparr>" "rw_user_data ?s = rw_user_data s"
    "page_of ?s = page_of s" "cache_ok ?s = cache_ok s" "eff ?s sh = eff s sh" "supply_ok U sh tot ?s = supply_ok U sh tot s"
    by (simp_all add: set_pool_reward_data_def get_pool_reward_data_def page_of_def [abs_def] cache_ok_def eff_def [abs_def]
        supply_ok_def cong: option.case_cong)
  have un: "unpaid v ?s u = unpaid v s u" for u unfolding unpaid_def data by (simp add: assms(2) cong: option.case_cong)
  have "user_ok v ?s u" for u
    using core_okD(3) [OF v, of u] unfolding user_ok_def data un by (auto simp: assms(2) split: option.splits)
  moreover have "owed v (eff s sh) ?s u = owed v (eff s sh) s u" for u
    by (simp add: owed_def un settled_def data)
  ultimately have "core_ok P U (eff s sh) v ?s"
    using v unfolding core_ok_def data by (auto simp: assms(2) algebra_simps)
  with sup show ?thesis by (auto simp: rewards_inv_def data)
qed

text \<open>
  Why a correction must not lower the total: a user whose last settlement saw the present total is
  taken for settled, whatever blocks were added since.
\<close>

lemma lowered_total_skips_settlement:
  assumes "rw_user_data s u = Some ud" and "pool_accumulated ud = accumulated d"
  shows "update_user_reward c d u ws s = Inr (ud, s)"
  using assms by (simp add: update_user_reward_def)

context manager_ctx begin

lemma refresh_inv:
  assumes "rewards_inv (rc_page_size c) U sh tot s" and "get_working_supply tot s = (ws, s1)"
    and "update_rewards_data c ws s1 = Inr (d, s')"
  shows "rewards_inv (rc_page_size c) U sh tot s'"
  by (rule refresh_ok(1) [OF assms])

lemma adjust_ok:
  assumes run: "adjust_total_accumulated_reward c tot diff s = Inr s'" and "0 \<le> diff"
    and inv: "rewards_inv (rc_page_size c) U sh tot s"
  shows "rewards_inv (rc_page_size c) U sh tot s'"
proof -
  obtain ws s1 where ws: "get_working_supply tot s = (ws, s1)" by fastforce
  from run assms(2) obtain d s2 where up: "update_rewards_data c ws s1 = Inr (d, s2)"
    and s': "s' = set_pool_reward_data (d\<lparr>accumulated := accumulated d + as_u128 diff\<rparr>) s2"
    by (auto simp: adjust_total_accumulated_reward_def Let_def ws res_simps)
  note r = refresh_ok [OF inv ws up]
  show ?thesis unfolding s' by (rule raised_ok [OF r(1,4)])
qed

lemma run_checkpoint_ok:
  assumes run: "run_checkpoint c u x = Inr x'" and inv: "run_inv (rc_page_size c) U x" and U: "finite U" "u \<in> U"
  shows "run_inv (rc_page_size c) U x'"
    and "\<exists>w. rw_working_balance (ww_rewards x') = (rw_working_balance (ww_rewards x))(u \<mapsto> w)"
    and "rw_working_supply (ww_rewards x') \<noteq> None"
    and "\<exists>v. core_ok (rc_page_size c) U (eff (ww_rewards x') (ww_shares x')) v (ww_rewards x') \<and>
      unpaid v (ww_rewards x') u = 0"
    and "ww_shares x' = ww_shares x" and "ww_total x' = ww_total x"
proof -
  from run obtain ud s where cp: "checkpoint_user c u (ww_total x) (ww_shares x u) (new_storage (ww_rewards x)) = Inr (ud, s)"
    and x': "x' = x\<lparr>ww_rewards := s\<rparr>"
    by (auto simp: run_checkpoint_def res_simps)
  note k = checkpoint_ok [OF cp rewards_inv_new_storage [OF inv [unfolded run_inv_def]] U]
  show "\<exists>w. rw_working_balance (ww_rewards x') = (rw_working_balance (ww_rewards x))(u \<mapsto> w)"
    using k(3) by (simp add: x' new_storage_def)
  show "run_inv (rc_page_size c) U x'" and "rw_working_supply (ww_rewards x') \<noteq> None"
    and "\<exists>v. core_ok (rc_page_size c) U (eff (ww_rewards x') (ww_shares x')) v (ww_rewards x') \<and>
      unpaid v (ww_rewards x') u = 0"
    and "ww_shares x' = ww_shares x" and "ww_total x' = ww_total x"
    using k(1,4,5) by (simp_all add: x' run_inv_def)
qed

lemma set_shares_ok:
  assumes cp: "run_checkpoint c u x = Inr y" and inv: "run_inv (rc_page_size c) U x" and U: "finite U" "u \<in> U"
    and up: "run_reweigh c u (y\<lparr>ww_shares := (ww_shares y)(u := n), ww_total := t\<rparr>) = Inr x'"
  shows "run_inv (rc_page_size c) U x'"
proof -
  define sh where "sh = (ww_shares y)(u := n)"
  note k = run_checkpoint_ok [OF cp inv U]
  have e: "eff (ww_rewards y) sh = eff (ww_rewards y) (ww_shares y)"
    unfolding sh_def by (rule eff_shares) (use k(2) in auto)
  from up obtain p s where up': "update_working_balance c u t (sh u) (ww_rewards y) = Inr (p, s)"
    and x': "x' = y\<lparr>ww_shares := sh, ww_total := t, ww_rewards := s\<rparr>"
    by (auto simp: run_reweigh_def res_simps sh_def)
  from k(4) obtain v where v: "core_ok (rc_page_size c) U (eff (ww_rewards y) sh) v (ww_rewards y)"
    "unpaid v (ww_rewards y) u = 0"
    unfolding e by blast
  have "supply_ok U sh t (ww_rewards y)"
    using k(1,3) by (auto simp: run_inv_def rewards_inv_def supply_ok_def e)
  from reweigh_ok [OF up' v this U] show ?thesis by (simp add: x' run_inv_def)
qed

lemma transfer_ok:
  assumes c1: "run_checkpoint c a x = Inr x1" and c2: "run_checkpoint c b x1 = Inr x2"
    and mv: "move_shares a b n x2 = Inr x3"
    and c3: "run_checkpoint c a x3 = Inr x4" and c4: "run_checkpoint c b x4 = Inr x5"
    and inv: "run_inv (rc_page_size c) U x" and U: "finite U" "a \<in> U" "b \<in> U"
  shows "run_inv (rc_page_size c) U x5"
proof -
  note k1 = run_checkpoint_ok [OF c1 inv U(1,2)]
  note k2 = run_checkpoint_ok [OF c2 k1(1) U(1,3)]
  from k1(2) k2(2) have wb: "rw_working_balance (ww_rewards x2) a \<noteq> None"
    "rw_working_balance (ww_rewards x2) b \<noteq> None" by auto
  from mv obtain sh where x3: "x3 = x2\<lparr>ww_shares := sh\<rparr>"
    and e: "eff (ww_rewards x2) sh = eff (ww_rewards x2) (ww_shares x2)"
    using wb by (auto simp: move_shares_def Let_def res_simps eff_shares)
  have "run_inv (rc_page_size c) U x3"
    using k2(1) by (simp add: x3 run_inv_def rewards_inv_def supply_ok_def e)
  from run_checkpoint_ok(1) [OF c4 run_checkpoint_ok(1) [OF c3 this U(1,2)] U(1,3)] show ?thesis .
qed

lemma burn_ok:
  assumes "run_inv (rc_page_size c) U x" and "left \<le> ww_shares x u"
  shows "run_inv (rc_page_size c) U (x\<lparr>ww_shares := (ww_shares x)(u := left)\<rparr>)"
proof -
  let ?s = "ww_rewards x" and ?sh = "(ww_shares x)(u := left)"
  have e: "eff ?s ?sh y \<le> eff ?s (ww_shares x) y" for y
    using assms(2) by (auto simp: eff_def split: option.splits)
  then have "(\<Sum>y \<in> U. eff ?s ?sh y) \<le> (\<Sum>y \<in> U. eff ?s (ww_shares x) y)" by (intro sum_mono)
  moreover from assms(1) obtain v where v: "core_ok (rc_page_size c) U (eff ?s (ww_shares x)) v ?s"
    and sup: "supply_ok U (ww_shares x) (ww_total x) ?s"
    by (auto simp: run_inv_def rewards_inv_def)
  from core_ok_weight_mono [OF v e] have "core_ok (rc_page_size c) U (eff ?s ?sh) v ?s" .
  ultimately show ?thesis
    using sup by (auto simp: run_inv_def rewards_inv_def supply_ok_def)
qed

lemma rw_step_ok:
  assumes run: "rw_step tk (c, a) x = Inr x'" and inv: "run_inv (rc_page_size c) U x"
    and U: "finite U" "rw_users a \<subseteq> U" and up: "raises a"
  shows "run_inv (rc_page_size c) U x'"
proof -
  obtain ws s1 where ws: "get_working_supply (ww_total x) (new_storage (ww_rewards x)) = (ws, s1)" by fastforce
  note inv' = rewards_inv_new_storage [OF inv [unfolded run_inv_def]]
  show ?thesis
  proof (cases a)
    case (RwCheckpoint u)
    with run U run_checkpoint_ok(1) [OF _ inv U(1)] show ?thesis by simp
  next
    case (RwClaim u)
    with run U obtain am s w where "claim_reward c tk u (ww_total x) (ww_shares x u)
        (new_storage (ww_rewards x), ww_world x) = Inr (am, s, w)" "x' = x\<lparr>ww_rewards := s, ww_world := w\<rparr>"
      by (auto simp: res_simps)
    with claim_ok [OF _ inv' U(1)] RwClaim U show ?thesis by (simp add: run_inv_def)
  next
    case (RwSetShares u n t)
    with run U set_shares_ok [OF _ inv U(1)] show ?thesis by (auto simp: res_simps)
  next
    case (RwTransfer p q n)
    with run U transfer_ok [OF _ _ _ _ _ inv U(1)] show ?thesis by (auto simp: res_simps)
  next
    case (RwBurn u n)
    with run burn_ok [OF inv] show ?thesis by (auto simp: res_simps)
  next
    case (RwOptState u b)
    with run opt_state_ok [OF _ inv'] show ?thesis by (auto simp: res_simps run_inv_def)
  next
    case (RwSetConfig ex r)
    with run set_reward_config_ok [OF _ inv'] show ?thesis by (auto simp: res_simps run_inv_def)
  next
    case (RwAmount u)
    with run have "run_checkpoint c u x = Inr x'" by (auto simp: get_amount_to_claim_def run_checkpoint_def res_simps)
    with U RwAmount run_checkpoint_ok(1) [OF _ inv U(1)] show ?thesis by simp
  next
    case (RwAdjust d)
    with run up adjust_ok [OF _ _ inv'] show ?thesis by (auto simp: res_simps run_inv_def)
  qed (use run ws refresh_inv [OF inv' ws] in \<open>auto simp: run_inv_def get_total_accumulated_reward_def
    get_total_claimed_reward_def get_total_configured_reward_def res_simps Let_def split: if_splits\<close>)
qed

end

section \<open>Solvency\<close>

definition new_world :: "(address \<Rightarrow> nat) \<Rightarrow> nat \<Rightarrow> 'w \<Rightarrow> 'w rw_world" where
  "new_world sh tot w = \<lparr>ww_rewards = empty_rewards, ww_shares = sh, ww_total = tot, ww_world = w\<rparr>"

lemma run_inv_new:
  assumes "0 < P" and "(\<Sum>u \<in> U. sh u) \<le> tot"
  shows "run_inv P U (new_world sh tot w)"
proof -
  have page: "page_of empty_rewards = (\<lambda>_. [])" by (auto simp: page_of_def empty_rewards_def)
  have "core_ok P U (eff empty_rewards sh) (\<lambda>_. 0) empty_rewards"
    using pages_ok_empty [OF assms(1)]
    by (simp add: core_ok_def page owed_def settled_def unpaid_def user_ok_def)
      (simp add: empty_rewards_def cache_ok_def get_pool_reward_data_def)
  moreover have "supply_ok U sh tot empty_rewards"
    using assms(2) by (simp add: supply_ok_def empty_rewards_def eff_def)
  ultimately show ?thesis by (auto simp: rewards_inv_def run_inv_def new_world_def)
qed

lemma rewards_inv_solvent:
  assumes "rewards_inv P U sh tot s"
  shows "(\<Sum>u \<in> U. settled s u) + claimed (get_pool_reward_data s) \<le> accumulated (get_pool_reward_data s)"
proof -
  obtain v where "core_ok P U (eff s sh) v s" using assms by (auto simp: rewards_inv_def)
  then have "(\<Sum>u \<in> U. owed v (eff s sh) s u) + REWARD_PRECISION * claimed (get_pool_reward_data s)
      \<le> REWARD_PRECISION * accumulated (get_pool_reward_data s)" by (simp add: core_ok_def)
  moreover have "REWARD_PRECISION * (\<Sum>u \<in> U. settled s u) \<le> (\<Sum>u \<in> U. owed v (eff s sh) s u)"
    unfolding sum_distrib_left by (intro sum_mono) (simp add: owed_def)
  ultimately have "REWARD_PRECISION * ((\<Sum>u \<in> U. settled s u) + claimed (get_pool_reward_data s))
      \<le> REWARD_PRECISION * accumulated (get_pool_reward_data s)" by (simp add: algebra_simps)
  then show ?thesis by (simp add: REWARD_PRECISION_def)
qed

text \<open>
  Claim C10: the rewards of a pool are solvent over every run: whatever the sequence of
  checkpoints, claims, deposits and withdrawals, share transfers and burns, opt-outs, boost
  changes, reconfigurations, queries of amounts and totals, and corrections that do not lower the accumulated total,
  at any ledger times, what all users together have been paid and what is settled for them to claim
  never exceeds what the pool has accumulated.
\<close>

theorem rewards_solvent:
  assumes "fold_res (rw_step tk) ops (new_world sh tot w) = Inr x"
    and "finite U" and "(\<Sum>u \<in> U. sh u) \<le> tot"
    and "\<forall>(c, a) \<in> set ops. fixed_point_lib (rc_fp c) \<and> rc_page_size c = PAGE_SIZE \<and> rw_users a \<subseteq> U \<and> raises a"
  shows "(\<Sum>u \<in> U. settled (ww_rewards x) u) + claimed (get_pool_reward_data (ww_rewards x))
    \<le> accumulated (get_pool_reward_data (ww_rewards x))"
proof -
  have "run_inv PAGE_SIZE U x"
  proof (rule fold_res_invariant [OF assms(1)])
    show "run_inv PAGE_SIZE U (new_world sh tot w)"
      by (rule run_inv_new [OF _ assms(3)]) (simp add: PAGE_SIZE_def)
    fix ca y y'
    assume "ca \<in> set ops" and inv: "run_inv PAGE_SIZE U y" and step: "rw_step tk ca y = Inr y'"
    obtain c a where ca: "ca = (c, a)" by fastforce
    from assms(4) \<open>ca \<in> set ops\<close> have h: "fixed_point_lib (rc_fp c)" "rc_page_size c = PAGE_SIZE"
      "rw_users a \<subseteq> U" "raises a" by (auto simp: ca)
    have "manager_ctx c" using h(1) by (rule manager_ctx.intro) (simp_all add: h(2) PAGE_SIZE_def U32_MAX_def)
    from manager_ctx.rw_step_ok [OF this step [unfolded ca] _ assms(2) h(3,4)] inv
    show "run_inv PAGE_SIZE U y'" by (simp add: h(2))
  qed
  then show ?thesis unfolding run_inv_def by (rule rewards_inv_solvent)
qed

definition at_time :: "nat \<Rightarrow> reward_ctx" where
  "at_time t = pool_reward_ctx (sample_env\<lparr>ledger_timestamp := t\<rparr>) (\<lambda>_ _. None) (\<lambda>_. Inr 0)"

definition sample_ops :: "(reward_ctx \<times> rw_op) list" where
  \<comment> \<open>two users hold 300 and 100, 10 tokens per second from time 100 to 1000, one checkpoint at 200\<close>
  "sample_ops = [(at_time 100, RwSetShares 5 300 400), (at_time 100, RwSetConfig 1000 10), (at_time 200, RwCheckpoint 5)]"

text \<open>The loops over levels are unrolled one level at a time when a run is evaluated.\<close>

lemma add_levels_unroll:
  "add_levels P b v [k..<m] s =
    (if k < m
     then andthen (if 0 < k
          then andthen (u64_add b 1) (\<lambda>b1. andthen (u64_pow P (k - 1)) (\<lambda>q. Inr (b1 < q)))
          else Inr False) (\<lambda>stop.
        if stop then Inr s
        else andthen (add_level P b v k s) (add_levels P b v [Suc k..<m]))
     else Inr s)"
  by (simp add: upt_rec [of k m] del: upt_Suc)

lemma find_max_pow_unroll:
  "find_max_pow P a n [k..<m] r =
    (if k < m
     then andthen (u64_pow P k) (\<lambda>q.
       andthen (u64_add a q) (\<lambda>x.
       andthen (u_sub x 1) (\<lambda>y.
       if n < y then Inr k else find_max_pow P a n [Suc k..<m] k)))
     else Inr r)"
  by (simp add: upt_rec [of k m] del: upt_Suc)

lemmas run_defs = Let_def run_checkpoint_def run_reweigh_def checkpoint_user_def update_working_balance_def
  get_working_balance_def get_working_supply_def calculate_effective_balance_def boost_effective_balance_def
  opt_out_effective_balance_def get_user_boost_balance_def get_total_locked_def
  update_rewards_data_def generated_def next_data_def create_new_rewards_data_def update_reward_inv_def
  snapshot_rewards_data_def add_reward_inv_def add_level_def get_reward_inv_data_def load_inv_def store_inv_def
  update_user_reward_def create_new_user_data_def calculate_user_reward_def calculate_reward_def
  reward_loop.simps pows_down_def set_reward_config_def reward_accessors new_storage_def empty_rewards_def
  at_time_def pool_reward_ctx_def sample_env_def PAGE_SIZE_def REWARD_PRECISION_def
  mul_floor_256_def exact_fixed_point_def u_defs U64_MAX_def U128_MAX_def U256_MAX_def as_u32_def
  vec_get_or_0_def vec_set_def settled_def add_levels_unroll find_max_pow_unroll

lemma sample_ops_run:
  "\<exists>x. fold_res (rw_step tk) sample_ops (new_world ((\<lambda>_. 0)(6 := 100)) 100 ()) = Inr x \<and>
    settled (ww_rewards x) 5 = 750 \<and> accumulated (get_pool_reward_data (ww_rewards x)) = 1000"
  unfolding sample_ops_def new_world_def by (simp add: run_defs del: upt_rec_numeral add_levels.simps find_max_pow.simps)

theorem rewards_solvent_witness:
  "\<forall>tk :: unit tokens. \<exists>x. fold_res (rw_step tk) sample_ops (new_world ((\<lambda>_. 0)(6 := 100)) 100 ()) = Inr x \<and>
    settled (ww_rewards x) 5 = 750 \<and> accumulated (get_pool_reward_data (ww_rewards x)) = 1000 \<and>
    (\<Sum>u \<in> {5, 6}. settled (ww_rewards x) u) + claimed (get_pool_reward_data (ww_rewards x)) \<le> 1000"
proof
  fix tk :: "unit tokens"
  obtain x where x: "fold_res (rw_step tk) sample_ops (new_world ((\<lambda>_. 0)(6 := 100)) 100 ()) = Inr x"
    "settled (ww_rewards x) 5 = 750" "accumulated (get_pool_reward_data (ww_rewards x)) = 1000"
    using sample_ops_run by blast
  have "(\<Sum>u \<in> {5, 6}. settled (ww_rewards x) u) + claimed (get_pool_reward_data (ww_rewards x)) \<le> 1000"
    using rewards_solvent [OF x(1), of "{5, 6}"] x(3)
    by (simp add: sample_ops_def at_time_def pool_reward_ctx_def)
  with x show "\<exists>x. fold_res (rw_step tk) sample_ops (new_world ((\<lambda>_. 0)(6 := 100)) 100 ()) = Inr x \<and>
    settled (ww_rewards x) 5 = 750 \<and> accumulated (get_pool_reward_data (ww_rewards x)) = 1000 \<and>
    (\<Sum>u \<in> {5, 6}. settled (ww_rewards x) u) + claimed (get_pool_reward_data (ww_rewards x)) \<le> 1000"
    by blast
qed

end
