(* ===== verification/Share_Token.thy ===== *)
theory Share_Token
  imports Managed Tokens
begin

text \<open>
  \<^verbatim>\<open>token/src\<close>, the share token of a pool (balances, allowances, the token interface), and
  \<^verbatim>\<open>token_share/src/lib.rs\<close>, the pool's side of it. The token tells its pool, which is its admin,
  about the users of a transfer; the pool is another contract, so the two calls are a parameter
  over the pool's state \<open>'w\<close>. An allowance lives in temporary storage up to its expiration; the
  check on the expiration makes an entry that outlives it worthless, so TTLs are left out.
\<close>

section \<open>State\<close>

record allowance_value =
  al_amount :: int
  al_expiration :: nat

record token_state =
  tok_ac :: access_control
  tok_balance :: "address \<rightharpoonup> int"
  tok_allowance :: "address \<times> address \<rightharpoonup> allowance_value"
  tok_metadata :: "(nat \<times> string \<times> string) option"
  tok_wasm :: nat

definition empty_token :: token_state where
  "empty_token = \<lparr>tok_ac = empty_access_control, tok_balance = Map.empty, tok_allowance = Map.empty,
     tok_metadata = None, tok_wasm = 0\<rparr>"

section \<open>Balances and allowances\<close>

definition read_balance :: "token_state \<Rightarrow> address \<Rightarrow> int" where
  "read_balance t a = (case tok_balance t a of Some b \<Rightarrow> b | None \<Rightarrow> 0)"

definition write_balance :: "address \<Rightarrow> int \<Rightarrow> token_state \<Rightarrow> token_state" where
  "write_balance a v t = t\<lparr>tok_balance := (tok_balance t)(a \<mapsto> v)\<rparr>"

definition receive_balance :: "address \<Rightarrow> int \<Rightarrow> token_state \<Rightarrow> token_state res" where
  "receive_balance a amount t =
     andthen (i128_add (read_balance t a) amount) (\<lambda>b. Inr (write_balance a b t))"

definition spend_balance :: "address \<Rightarrow> int \<Rightarrow> token_state \<Rightarrow> token_state res" where
  "spend_balance a amount t =
     (if read_balance t a < amount then Inl (TokenError TK_InsufficientBalance)
      else andthen (i128_sub (read_balance t a) amount) (\<lambda>b. Inr (write_balance a b t)))"

definition read_allowance :: "env \<Rightarrow> token_state \<Rightarrow> address \<Rightarrow> address \<Rightarrow> allowance_value" where
  "read_allowance e t from spender =
     (case tok_allowance t (from, spender) of
        Some allowance \<Rightarrow>
          if al_expiration allowance < ledger_sequence e then allowance\<lparr>al_amount := 0\<rparr> else allowance
      | None \<Rightarrow> \<lparr>al_amount = 0, al_expiration = 0\<rparr>)"

definition write_allowance ::
  "env \<Rightarrow> address \<Rightarrow> address \<Rightarrow> int \<Rightarrow> nat \<Rightarrow> token_state \<Rightarrow> token_state res" where
  "write_allowance e from spender amount expiration_ledger t =
     (if 0 < amount \<and> expiration_ledger < ledger_sequence e
      then Inl (TokenError TK_PastTimeNotAllowed)
      else Inr (t\<lparr>tok_allowance := (tok_allowance t)((from, spender) \<mapsto>
        \<lparr>al_amount = amount, al_expiration = expiration_ledger\<rparr>)\<rparr>))"

definition spend_allowance ::
  "env \<Rightarrow> address \<Rightarrow> address \<Rightarrow> int \<Rightarrow> token_state \<Rightarrow> token_state res" where
  "spend_allowance e from spender amount t =
     (let allowance = read_allowance e t from spender in
      if al_amount allowance < amount then Inl (TokenError TK_InsufficientAllowance)
      else if 0 < amount then
        andthen (i128_sub (al_amount allowance) amount) (\<lambda>left.
        write_allowance e from spender left (al_expiration allowance) t)
      else Inr t)"

section \<open>The calls to the pool\<close>

record 'w pool_calls =
  checkpoint_reward_call :: "address \<Rightarrow> address \<Rightarrow> address \<Rightarrow> nat \<Rightarrow> 'w \<Rightarrow> 'w res"
  checkpoint_working_balance_call :: "address \<Rightarrow> address \<Rightarrow> address \<Rightarrow> nat \<Rightarrow> 'w \<Rightarrow> 'w res"

definition checkpoint_user_rewards ::
  "'w pool_calls \<Rightarrow> env \<Rightarrow> address \<Rightarrow> token_state \<Rightarrow> 'w \<Rightarrow> 'w res" where
  "checkpoint_user_rewards pc e user t w =
     andthen (get_role (tok_ac t) Admin) (\<lambda>pool_address.
     if user = pool_address then Inr w
     else checkpoint_reward_call pc pool_address (current_contract e) user (as_u128 (read_balance t user)) w)"

definition checkpoint_user_working_balance ::
  "'w pool_calls \<Rightarrow> env \<Rightarrow> address \<Rightarrow> token_state \<Rightarrow> 'w \<Rightarrow> 'w res" where
  "checkpoint_user_working_balance pc e user t w =
     andthen (get_role (tok_ac t) Admin) (\<lambda>pool_address.
     if user = pool_address then Inr w
     else checkpoint_working_balance_call pc pool_address (current_contract e) user
       (as_u128 (read_balance t user)) w)"

section \<open>The contract\<close>

definition check_nonnegative_amount :: "int \<Rightarrow> unit res" where
  "check_nonnegative_amount amount =
     (if amount < 0 then Inl (TokenError TK_NegativeNotAllowed) else Inr ())"

definition initialize ::
  "address \<Rightarrow> nat \<Rightarrow> string \<Rightarrow> string \<Rightarrow> token_state \<Rightarrow> token_state res" where
  "initialize admin decimal name symb t =
     andthen (get_role_safe (tok_ac t) Admin) (\<lambda>cur.
     if cur \<noteq> None then Inl (TokenError TK_AlreadyInitialized)
     else
       andthen (set_role_address Admin admin (tok_ac t)) (\<lambda>ac.
       if 255 < decimal then Inl (TokenError TK_DecimalTooLarge)
       else Inr (t\<lparr>tok_ac := ac, tok_metadata := Some (decimal, name, symb)\<rparr>)))"

definition mint :: "env \<Rightarrow> address \<Rightarrow> int \<Rightarrow> token_state \<Rightarrow> token_state res" where
  "mint e to amount t =
     andthen (check_nonnegative_amount amount) (\<lambda>_.
     andthen (get_role (tok_ac t) Admin) (\<lambda>admin.
     andthen (require_auth e admin) (\<lambda>_.
     receive_balance to amount t)))"

definition approve ::
  "env \<Rightarrow> address \<Rightarrow> address \<Rightarrow> int \<Rightarrow> nat \<Rightarrow> token_state \<Rightarrow> token_state res" where
  "approve e from spender amount expiration_ledger t =
     andthen (require_auth e from) (\<lambda>_.
     andthen (check_nonnegative_amount amount) (\<lambda>_.
     write_allowance e from spender amount expiration_ledger t))"

definition move_with_checkpoints ::
  "'w pool_calls \<Rightarrow> env \<Rightarrow> address \<Rightarrow> address \<Rightarrow> (token_state \<Rightarrow> token_state res) \<Rightarrow>
    token_state \<times> 'w \<Rightarrow> (token_state \<times> 'w) res" where
  \<comment> \<open>both transfers: checkpoints of both sides around the change of balances\<close>
  "move_with_checkpoints pc e from to move tw =
     andthen (checkpoint_user_rewards pc e from (fst tw) (snd tw)) (\<lambda>w.
     andthen (checkpoint_user_rewards pc e to (fst tw) w) (\<lambda>w.
     andthen (move (fst tw)) (\<lambda>t.
     andthen (checkpoint_user_working_balance pc e from t w) (\<lambda>w.
     andthen (checkpoint_user_working_balance pc e to t w) (\<lambda>w.
     Inr (t, w))))))"

definition transfer ::
  "'w pool_calls \<Rightarrow> env \<Rightarrow> address \<Rightarrow> address \<Rightarrow> int \<Rightarrow> token_state \<times> 'w \<Rightarrow> (token_state \<times> 'w) res" where
  "transfer pc e from to amount tw =
     andthen (require_auth e from) (\<lambda>_.
     andthen (check_nonnegative_amount amount) (\<lambda>_.
     move_with_checkpoints pc e from to
       (\<lambda>t. andthen (spend_balance from amount t) (receive_balance to amount)) tw))"

definition transfer_from ::
  "'w pool_calls \<Rightarrow> env \<Rightarrow> address \<Rightarrow> address \<Rightarrow> address \<Rightarrow> int \<Rightarrow> token_state \<times> 'w \<Rightarrow>
    (token_state \<times> 'w) res" where
  "transfer_from pc e spender from to amount tw =
     andthen (require_auth e spender) (\<lambda>_.
     andthen (check_nonnegative_amount amount) (\<lambda>_.
     move_with_checkpoints pc e from to
       (\<lambda>t. andthen (spend_allowance e from spender amount t) (\<lambda>t.
         andthen (spend_balance from amount t) (receive_balance to amount))) tw))"

definition burn :: "env \<Rightarrow> address \<Rightarrow> int \<Rightarrow> token_state \<Rightarrow> token_state res" where
  "burn e from amount t =
     andthen (require_auth e from) (\<lambda>_.
     andthen (check_nonnegative_amount amount) (\<lambda>_.
     spend_balance from amount t))"

definition burn_from :: "env \<Rightarrow> address \<Rightarrow> address \<Rightarrow> int \<Rightarrow> token_state \<Rightarrow> token_state res" where
  "burn_from e spender from amount t =
     andthen (require_auth e spender) (\<lambda>_.
     andthen (check_nonnegative_amount amount) (\<lambda>_.
     andthen (spend_allowance e from spender amount t) (spend_balance from amount)))"

definition token_upgrade :: "env \<Rightarrow> address \<Rightarrow> nat \<Rightarrow> token_state \<Rightarrow> token_state res" where
  "token_upgrade e admin new_wasm_hash t =
     andthen (as_role e admin Admin (tok_ac t)) (\<lambda>_. Inr (t\<lparr>tok_wasm := new_wasm_hash\<rparr>))"

section \<open>One step of the token\<close>

datatype token_op =
    TkMint address int
  | TkApprove address address int nat
  | TkTransfer address address int
  | TkTransferFrom address address address int
  | TkBurn address int
  | TkBurnFrom address address int

fun token_step ::
  "'w pool_calls \<Rightarrow> env \<Rightarrow> token_op \<Rightarrow> token_state \<times> 'w \<Rightarrow> (token_state \<times> 'w) res" where
  "token_step pc e (TkMint to x) tw = andthen (mint e to x (fst tw)) (\<lambda>t. Inr (t, snd tw))"
| "token_step pc e (TkApprove a b x l) tw = andthen (approve e a b x l (fst tw)) (\<lambda>t. Inr (t, snd tw))"
| "token_step pc e (TkTransfer a b x) tw = transfer pc e a b x tw"
| "token_step pc e (TkTransferFrom s a b x) tw = transfer_from pc e s a b x tw"
| "token_step pc e (TkBurn a x) tw = andthen (burn e a x (fst tw)) (\<lambda>t. Inr (t, snd tw))"
| "token_step pc e (TkBurnFrom s a x) tw = andthen (burn_from e s a x (fst tw)) (\<lambda>t. Inr (t, snd tw))"

text \<open>What an operation adds to the supply, and the accounts it touches.\<close>

fun minted :: "token_op \<Rightarrow> int" where
  "minted (TkMint to x) = x"
| "minted (TkBurn a x) = - x"
| "minted (TkBurnFrom s a x) = - x"
| "minted _ = 0"

fun accounts :: "token_op \<Rightarrow> address set" where
  "accounts (TkMint to x) = {to}"
| "accounts (TkApprove a b x l) = {}"
| "accounts (TkTransfer a b x) = {a, b}"
| "accounts (TkTransferFrom s a b x) = {a, b}"
| "accounts (TkBurn a x) = {a}"
| "accounts (TkBurnFrom s a x) = {a}"

section \<open>Lemmas\<close>

lemma read_write_balance [simp]:
  "read_balance (write_balance a v t) c = (if c = a then v else read_balance t c)"
  by (simp add: read_balance_def write_balance_def)

lemma read_balance_fields [simp]:
  "read_balance (t\<lparr>tok_allowance := x\<rparr>) = read_balance t"
  "read_balance (t\<lparr>tok_ac := y\<rparr>) = read_balance t"
  by (auto simp: read_balance_def)

lemma receive_balance_InrD:
  "receive_balance a x t = Inr t' \<Longrightarrow> read_balance t' = (read_balance t)(a := read_balance t a + x) \<and>
    tok_allowance t' = tok_allowance t \<and> tok_ac t' = tok_ac t"
  by (auto simp: receive_balance_def res_simps write_balance_def read_balance_def)

lemma spend_balance_InrD:
  "spend_balance a x t = Inr t' \<Longrightarrow> x \<le> read_balance t a \<and>
    read_balance t' = (read_balance t)(a := read_balance t a - x) \<and>
    tok_allowance t' = tok_allowance t \<and> tok_ac t' = tok_ac t"
  by (auto simp: spend_balance_def res_simps write_balance_def read_balance_def split: if_splits)

lemma spend_allowance_InrD:
  assumes "spend_allowance e from spender x t = Inr t'"
  shows "x \<le> al_amount (read_allowance e t from spender)" and "read_balance t' = read_balance t"
    and "0 < x \<Longrightarrow> al_amount (read_allowance e t' from spender) = al_amount (read_allowance e t from spender) - x"
    and "tok_ac t' = tok_ac t"
  using assms
  by (auto simp: spend_allowance_def write_allowance_def Let_def res_simps read_allowance_def
      read_balance_def split: if_splits option.splits)

lemma check_nonnegative_eq_Inr [res_simps]: "check_nonnegative_amount x = Inr u \<longleftrightarrow> 0 \<le> x"
  by (auto simp: check_nonnegative_amount_def)

lemma move_with_checkpoints_InrD:
  "move_with_checkpoints pc e a b move (t, w) = Inr (t', w') \<Longrightarrow> move t = Inr t'"
  by (auto simp: move_with_checkpoints_def res_simps)

lemma transfer_InrD:
  assumes "transfer pc e a b x (t, w) = Inr (t', w')"
  shows "authorized e a" and "0 \<le> x" and "x \<le> read_balance t a" and "tok_ac t' = tok_ac t"
    and "read_balance t' = (let f = (read_balance t)(a := read_balance t a - x) in f(b := f b + x))"
    and "tok_allowance t' = tok_allowance t"
proof -
  from assms have au: "authorized e a" "0 \<le> x"
    and "andthen (spend_balance a x t) (receive_balance b x) = Inr t'"
    by (auto simp: transfer_def res_simps dest: move_with_checkpoints_InrD)
  then obtain s where "spend_balance a x t = Inr s" "receive_balance b x s = Inr t'"
    by (auto simp: res_simps)
  from spend_balance_InrD [OF this(1)] receive_balance_InrD [OF this(2)] au
  show "authorized e a" "0 \<le> x" "x \<le> read_balance t a" "tok_ac t' = tok_ac t"
    "read_balance t' = (let f = (read_balance t)(a := read_balance t a - x) in f(b := f b + x))"
    "tok_allowance t' = tok_allowance t"
    by (simp_all add: Let_def)
qed

lemma transfer_from_InrD:
  assumes "transfer_from pc e s a b x (t, w) = Inr (t', w')"
  shows "authorized e s" and "0 \<le> x" and "x \<le> read_balance t a"
    and "x \<le> al_amount (read_allowance e t a s)"
    and "read_balance t' = (let f = (read_balance t)(a := read_balance t a - x) in f(b := f b + x))"
    and "0 < x \<Longrightarrow> al_amount (read_allowance e t' a s) = al_amount (read_allowance e t a s) - x"
proof -
  from assms have au: "authorized e s" "0 \<le> x"
    and "andthen (spend_allowance e a s x t) (\<lambda>t.
      andthen (spend_balance a x t) (receive_balance b x)) = Inr t'"
    by (auto simp: transfer_from_def res_simps dest: move_with_checkpoints_InrD)
  then obtain t1 t2 where st: "spend_allowance e a s x t = Inr t1" "spend_balance a x t1 = Inr t2"
    "receive_balance b x t2 = Inr t'"
    by (auto simp: res_simps)
  note al = spend_allowance_InrD [OF st(1)]
  note sp = spend_balance_InrD [OF st(2)]
  note rc = receive_balance_InrD [OF st(3)]
  have "read_allowance e t' a s = read_allowance e t1 a s"
    using sp rc by (simp add: read_allowance_def)
  with al sp rc au show "authorized e s" "0 \<le> x" "x \<le> read_balance t a"
    "x \<le> al_amount (read_allowance e t a s)"
    "read_balance t' = (let f = (read_balance t)(a := read_balance t a - x) in f(b := f b + x))"
    "0 < x \<Longrightarrow> al_amount (read_allowance e t' a s) = al_amount (read_allowance e t a s) - x"
    by (simp_all add: Let_def)
qed

lemma burn_InrD:
  assumes "burn e a x t = Inr t'"
  shows "authorized e a" and "0 \<le> x" and "x \<le> read_balance t a"
    and "read_balance t' = (read_balance t)(a := read_balance t a - x)"
  using assms spend_balance_InrD by (auto simp: burn_def res_simps)

lemma burn_from_InrD:
  assumes "burn_from e s a x t = Inr t'"
  shows "authorized e s" and "0 \<le> x" and "x \<le> read_balance t a"
    and "x \<le> al_amount (read_allowance e t a s)"
    and "read_balance t' = (read_balance t)(a := read_balance t a - x)"
proof -
  from assms obtain t1 where "authorized e s" "0 \<le> x" "spend_allowance e a s x t = Inr t1"
    "spend_balance a x t1 = Inr t'" by (auto simp: burn_from_def res_simps)
  with spend_allowance_InrD(1,2) [OF this(3)] spend_balance_InrD [OF this(4)]
  show "authorized e s" "0 \<le> x" "x \<le> read_balance t a" "x \<le> al_amount (read_allowance e t a s)"
    "read_balance t' = (read_balance t)(a := read_balance t a - x)" by simp_all
qed

lemma mint_InrD:
  assumes "mint e a x t = Inr t'"
  shows "0 \<le> x" and "\<exists>admin. ac_addr (tok_ac t) K_Admin = Some admin \<and> authorized e admin"
    and "read_balance t' = (read_balance t)(a := read_balance t a + x)"
  using assms receive_balance_InrD
  by (auto simp: mint_def res_simps get_role_def get_role_safe_def)

lemma approve_InrD:
  assumes "approve e a b x l t = Inr t'"
  shows "read_balance t' = read_balance t"
  using assms by (auto simp: approve_def write_allowance_def res_simps split: if_splits)

lemma sum_fun_upd:
  fixes f :: "address \<Rightarrow> int"
  assumes "finite U" and "u \<in> U"
  shows "(\<Sum>x \<in> U. (f(u := y)) x) = (\<Sum>x \<in> U. f x) - f u + y"
proof -
  have "(\<Sum>x \<in> U. g x) = g u + (\<Sum>x \<in> U - {u}. g x)" for g :: "address \<Rightarrow> int"
    using assms by (rule sum.remove)
  from this [of f] this [of "f(u := y)"] show ?thesis by simp
qed

lemma move_sum:
  fixes f :: "address \<Rightarrow> int"
  assumes "finite U" and "a \<in> U" and "b \<in> U"
  shows "(\<Sum>c \<in> U. (let g = f(a := f a - x) in g(b := g b + x)) c) = (\<Sum>c \<in> U. f c)"
  using assms by (simp add: Let_def sum_fun_upd del: fun_upd_apply)


section \<open>The token as a ledger\<close>

text \<open>
  A world of such tokens, by address, whose pools take no notice of transfers: the instance of
  the ledger interface that the contracts rely on for any token.
\<close>

definition silent_pool :: "unit pool_calls" where
  "silent_pool = \<lparr>checkpoint_reward_call = (\<lambda>_ _ _ _ _. Inr ()),
     checkpoint_working_balance_call = (\<lambda>_ _ _ _ _. Inr ())\<rparr>"

definition token_world :: "env \<Rightarrow> (address \<Rightarrow> token_state) tokens" where
  "token_world e = \<lparr>
     tk_transfer = (\<lambda>t a b x W.
       andthen (transfer silent_pool (e\<lparr>current_contract := t\<rparr>) a b x (W t, ())) (\<lambda>p.
       Inr (W(t := fst p)))),
     tk_balance = (\<lambda>t a W. read_balance (W t) a)\<rparr>"

interpretation share_tokens: token_ledger "token_world e" for e
proof unfold_locales
  fix t a b x W W'
  assume tr: "tk_transfer (token_world e) t a b x W = Inr W'" and ab: "a \<noteq> b"
  then obtain t' where run: "transfer silent_pool (e\<lparr>current_contract := t\<rparr>) a b x (W t, ()) = Inr (t', ())"
    and W': "W' = W(t := t')"
    by (auto simp: token_world_def res_simps)
  note d = transfer_InrD [OF run]
  show "0 \<le> x \<and> x \<le> tk_balance (token_world e) t a W \<and>
      tk_balance (token_world e) t a W' = tk_balance (token_world e) t a W - x \<and>
      tk_balance (token_world e) t b W' = tk_balance (token_world e) t b W + x"
    using d ab by (simp add: token_world_def W' Let_def)
  show "t0 \<noteq> t \<or> c \<noteq> a \<and> c \<noteq> b \<Longrightarrow>
      tk_balance (token_world e) t0 c W' = tk_balance (token_world e) t0 c W" for t0 c
    using d ab by (auto simp: token_world_def W' Let_def)
next
  fix t a x W W' t0 c
  assume "tk_transfer (token_world e) t a a x W = Inr W'"
  then obtain t' where run: "transfer silent_pool (e\<lparr>current_contract := t\<rparr>) a a x (W t, ()) = Inr (t', ())"
    and W': "W' = W(t := t')"
    by (auto simp: token_world_def res_simps)
  show "tk_balance (token_world e) t0 c W' = tk_balance (token_world e) t0 c W"
    using transfer_InrD(5) [OF run] by (simp add: token_world_def W' Let_def)
qed

lemma token_world_ledger [simp, intro]: "token_ledger (token_world e)"
  by (rule share_tokens.token_ledger_axioms)

section \<open>Properties\<close>

lemma token_step_balances:
  assumes "token_step pc e a (t, w) = Inr (t', w')" and "finite U" and "accounts a \<subseteq> U"
  shows "(\<Sum>c \<in> U. read_balance t' c) = (\<Sum>c \<in> U. read_balance t c) + minted a"
    and "(\<forall>c. 0 \<le> read_balance t c) \<Longrightarrow> 0 \<le> read_balance t' c"
  using assms
proof (atomize (full), cases a)
  case (TkMint to x)
  with assms have "mint e to x t = Inr t'" by (auto simp: res_simps)
  from mint_InrD [OF this] TkMint assms(2,3) show "(sum (read_balance t') U = sum (read_balance t) U + minted a) \<and>
      ((\<forall>c. 0 \<le> read_balance t c) \<longrightarrow> 0 \<le> read_balance t' c)"
    by (simp add: sum_fun_upd del: fun_upd_apply) auto
next
  case (TkApprove p q x l)
  with assms show "(sum (read_balance t') U = sum (read_balance t) U + minted a) \<and>
      ((\<forall>c. 0 \<le> read_balance t c) \<longrightarrow> 0 \<le> read_balance t' c)"
    by (auto simp: res_simps dest: approve_InrD)
next
  case (TkTransfer p q x)
  with assms have run: "transfer pc e p q x (t, w) = Inr (t', w')" by simp
  note d = transfer_InrD [OF run]
  have U: "p \<in> U" "q \<in> U" using TkTransfer assms(3) by auto
  show "(sum (read_balance t') U = sum (read_balance t) U + minted a) \<and>
      ((\<forall>c. 0 \<le> read_balance t c) \<longrightarrow> 0 \<le> read_balance t' c)"
    using TkTransfer d move_sum [OF assms(2) U, of "read_balance t" x] by (auto simp: Let_def)
next
  case (TkTransferFrom s p q x)
  with assms have run: "transfer_from pc e s p q x (t, w) = Inr (t', w')" by simp
  note d = transfer_from_InrD [OF run]
  have U: "p \<in> U" "q \<in> U" using TkTransferFrom assms(3) by auto
  show "(sum (read_balance t') U = sum (read_balance t) U + minted a) \<and>
      ((\<forall>c. 0 \<le> read_balance t c) \<longrightarrow> 0 \<le> read_balance t' c)"
    using TkTransferFrom d move_sum [OF assms(2) U, of "read_balance t" x] by (auto simp: Let_def)
next
  case (TkBurn p x)
  with assms have "burn e p x t = Inr t'" by (auto simp: res_simps)
  from burn_InrD [OF this] TkBurn assms(2,3) show "(sum (read_balance t') U = sum (read_balance t) U + minted a) \<and>
      ((\<forall>c. 0 \<le> read_balance t c) \<longrightarrow> 0 \<le> read_balance t' c)"
    by (simp add: sum_fun_upd del: fun_upd_apply) auto
next
  case (TkBurnFrom s p x)
  with assms have "burn_from e s p x t = Inr t'" by (auto simp: res_simps)
  from burn_from_InrD [OF this] TkBurnFrom assms(2,3) show "(sum (read_balance t') U = sum (read_balance t) U + minted a) \<and>
      ((\<forall>c. 0 \<le> read_balance t c) \<longrightarrow> 0 \<le> read_balance t' c)"
    by (simp add: sum_fun_upd del: fun_upd_apply) auto
qed

text \<open>
  Claim C31: over every sequence of token operations, whatever the pool does in the calls the
  token makes, the sum of all balances is what was minted minus what was burned, and no balance
  is ever negative.
\<close>

theorem token_supply_conserved:
  assumes "fold_res (\<lambda>(e, a). token_step pc e a) ops (empty_token\<lparr>tok_ac := ac\<rparr>, w) = Inr (t, w')"
    and "finite U" and "\<forall>(e, a) \<in> set ops. accounts a \<subseteq> U"
  shows "(\<Sum>c \<in> U. read_balance t c) = (\<Sum>(e, a) \<leftarrow> ops. minted a) \<and> (\<forall>c. 0 \<le> read_balance t c)"
proof -
  have gen: "(\<Sum>c \<in> U. read_balance t c) = (\<Sum>c \<in> U. read_balance t0 c) + (\<Sum>(e, a) \<leftarrow> ops. minted a) \<and>
      ((\<forall>c. 0 \<le> read_balance t0 c) \<longrightarrow> (\<forall>c. 0 \<le> read_balance t c))"
    if "fold_res (\<lambda>(e, a). token_step pc e a) ops (t0, w0) = Inr (t, w')" for t0 w0
    using that assms(3)
  proof (induction ops arbitrary: t0 w0)
    case Nil
    then show ?case by simp
  next
    case (Cons ea ops)
    obtain e a where ea: "ea = (e, a)" by fastforce
    from Cons.prems(1) obtain t1 w1 where st: "token_step pc e a (t0, w0) = Inr (t1, w1)"
      and rest: "fold_res (\<lambda>(e, a). token_step pc e a) ops (t1, w1) = Inr (t, w')"
      by (auto simp: ea res_simps)
    have "accounts a \<subseteq> U" using Cons.prems(2) by (simp add: ea)
    note b = token_step_balances [OF st assms(2) this]
    from Cons.IH [OF rest] Cons.prems(2) b(1) b(2) show ?case by (auto simp: ea)
  qed
  have z: "read_balance (empty_token\<lparr>tok_ac := ac\<rparr>) c = 0" for c
    by (simp add: read_balance_def empty_token_def)
  from gen [OF assms(1)] z show ?thesis by simp
qed

definition token_admin :: access_control where
  "token_admin = empty_access_control\<lparr>ac_addr := [K_Admin \<mapsto> 1]\<rparr>"

definition sample_token_ops :: "(env \<times> token_op) list" where
  "sample_token_ops = [(anyone, TkMint 5 100), (anyone, TkApprove 5 7 40 10),
     (anyone, TkTransferFrom 7 5 6 30), (anyone, TkBurn 6 10)]"

lemma sample_token_run:
  "\<exists>t. fold_res (\<lambda>(e, a). token_step silent_pool e a) sample_token_ops
      (empty_token\<lparr>tok_ac := token_admin\<rparr>, ()) = Inr (t, ()) \<and>
    read_balance t 5 = 70 \<and> read_balance t 6 = 20 \<and> al_amount (read_allowance anyone t 5 7) = 10"
  unfolding sample_token_ops_def
  by (simp add: mint_def approve_def transfer_from_def burn_def check_nonnegative_amount_def
      move_with_checkpoints_def checkpoint_user_rewards_def checkpoint_user_working_balance_def
      get_role_def get_role_safe_def token_admin_def empty_access_control_def silent_pool_def
      require_auth_def anyone_def receive_balance_def spend_balance_def spend_allowance_def
      write_allowance_def read_allowance_def read_balance_def write_balance_def empty_token_def
      i128_add_def i128_sub_def i128_fits_def Let_def)

theorem token_supply_conserved_witness:
  "\<exists>t. read_balance t 5 = 70 \<and> read_balance t 6 = 20 \<and>
    (\<Sum>c \<in> {5, 6}. read_balance t c) = (\<Sum>(e, a) \<leftarrow> sample_token_ops. minted a) \<and>
    (\<forall>c. 0 \<le> read_balance t c)"
proof -
  obtain t where t: "fold_res (\<lambda>(e, a). token_step silent_pool e a) sample_token_ops
      (empty_token\<lparr>tok_ac := token_admin\<rparr>, ()) = Inr (t, ())" "read_balance t 5 = 70" "read_balance t 6 = 20"
    using sample_token_run by blast
  have "finite {5, 6 :: address}" "\<forall>(e, a) \<in> set sample_token_ops. accounts a \<subseteq> {5, 6}"
    by (simp_all add: sample_token_ops_def)
  from token_supply_conserved [OF t(1) this] t(2,3) show ?thesis by blast
qed

text \<open>
  Claim C32: a balance goes down only with the holder's authorization, or by the hand of a
  spender who is authorized, for at most the allowance the holder gave that is still valid.
\<close>

theorem balance_decrease_authorized:
  assumes "token_step pc e a (t, w) = Inr (t', w')" and "read_balance t' c < read_balance t c"
  shows "authorized e c \<or>
    (\<exists>s. authorized e s \<and> read_balance t c - read_balance t' c \<le> al_amount (read_allowance e t c s))"
proof (cases a)
  case (TkMint to x)
  with assms have "mint e to x t = Inr t'" by (auto simp: res_simps)
  from mint_InrD [OF this] assms(2) show ?thesis by (auto split: if_splits)
next
  case (TkApprove p q x l)
  with assms show ?thesis by (auto simp: res_simps dest!: approve_InrD)
next
  case (TkTransfer p q x)
  with assms have run: "transfer pc e p q x (t, w) = Inr (t', w')" by simp
  from transfer_InrD [OF run] assms(2) show ?thesis by (auto simp: Let_def split: if_splits)
next
  case (TkTransferFrom s p q x)
  with assms have run: "transfer_from pc e s p q x (t, w) = Inr (t', w')" by simp
  from transfer_from_InrD [OF run] assms(2) show ?thesis by (auto simp: Let_def split: if_splits)
next
  case (TkBurn p x)
  with assms have "burn e p x t = Inr t'" by (auto simp: res_simps)
  from burn_InrD [OF this] assms(2) show ?thesis by (auto split: if_splits)
next
  case (TkBurnFrom s p x)
  with assms have "burn_from e s p x t = Inr t'" by (auto simp: res_simps)
  from burn_from_InrD [OF this] assms(2) show ?thesis by (auto split: if_splits)
qed

definition only :: "address \<Rightarrow> env" where
  "only a = anyone\<lparr>authorized := (\<lambda>x. x = a)\<rparr>"

theorem balance_decrease_authorized_witness:
  "\<exists>s. authorized (only 7) s \<and> 25 \<le> al_amount (read_allowance (only 7)
    (empty_token\<lparr>tok_balance := [5 \<mapsto> 100], tok_allowance := [(5, 7) \<mapsto> \<lparr>al_amount = 40, al_expiration = 3\<rparr>]\<rparr>) 5 s)"
proof -
  let ?t = "empty_token\<lparr>tok_balance := [5 \<mapsto> 100],
    tok_allowance := [(5, 7) \<mapsto> \<lparr>al_amount = 40, al_expiration = 3\<rparr>]\<rparr>"
  have "\<exists>t'. token_step silent_pool (only 7) (TkBurnFrom 7 5 25) (?t, ()) = Inr (t', ()) \<and>
      read_balance t' 5 = 75 \<and> read_balance ?t 5 = 100"
    by (simp add: burn_from_def check_nonnegative_amount_def require_auth_def only_def anyone_def
        spend_balance_def spend_allowance_def write_allowance_def read_allowance_def read_balance_def
        write_balance_def empty_token_def i128_sub_def i128_fits_def Let_def)
  then obtain t' where "token_step silent_pool (only 7) (TkBurnFrom 7 5 25) (?t, ()) = Inr (t', ())"
    and b: "read_balance t' 5 = 75" "read_balance ?t 5 = 100" by blast
  from balance_decrease_authorized [OF this(1), of 5] b show ?thesis
    by (auto simp: only_def)
qed

section \<open>The pool's side\<close>

text \<open>
  \<^verbatim>\<open>token_share\<close>: the pool keeps the address of its share token and its own count of the
  shares; it mints and burns through the token contract \<open>sc\<close>, a parameter as any other contract.
\<close>

record share_state =
  sh_token :: "address option"
  sh_total :: "nat option"

record 'w share_calls =
  share_balance_call :: "address \<Rightarrow> address \<Rightarrow> 'w \<Rightarrow> int"
  share_mint_call :: "address \<Rightarrow> address \<Rightarrow> int \<Rightarrow> 'w \<Rightarrow> 'w res"
  share_burn_call :: "address \<Rightarrow> address \<Rightarrow> int \<Rightarrow> 'w \<Rightarrow> 'w res"

definition get_token_share :: "share_state \<Rightarrow> address res" where
  "get_token_share s = from_option (StorageError ST_ValueNotInitialized) (sh_token s)"

definition put_token_share :: "address \<Rightarrow> share_state \<Rightarrow> share_state" where
  "put_token_share a s = s\<lparr>sh_token := Some a\<rparr>"

definition get_total_shares :: "share_state \<Rightarrow> nat" where
  "get_total_shares s = (case sh_total s of Some v \<Rightarrow> v | None \<Rightarrow> 0)"

definition put_total_shares :: "nat \<Rightarrow> share_state \<Rightarrow> share_state" where
  "put_total_shares v s = s\<lparr>sh_total := Some v\<rparr>"

definition get_user_balance_shares :: "'w share_calls \<Rightarrow> share_state \<Rightarrow> 'w \<Rightarrow> address \<Rightarrow> nat res" where
  "get_user_balance_shares sc s w user =
     andthen (get_token_share s) (\<lambda>token. Inr (as_u128 (share_balance_call sc token user w)))"

definition burn_shares ::
  "'w share_calls \<Rightarrow> address \<Rightarrow> nat \<Rightarrow> share_state \<times> 'w \<Rightarrow> (share_state \<times> 'w) res" where
  "burn_shares sc from amount sw =
     andthen (u_sub (get_total_shares (fst sw)) amount) (\<lambda>tot.
     let s = put_total_shares tot (fst sw) in
     andthen (get_token_share s) (\<lambda>share_contract.
     andthen (share_burn_call sc share_contract from (as_i128 amount) (snd sw)) (\<lambda>w.
     Inr (s, w))))"

definition mint_shares ::
  "'w share_calls \<Rightarrow> address \<Rightarrow> int \<Rightarrow> share_state \<times> 'w \<Rightarrow> (share_state \<times> 'w) res" where
  "mint_shares sc to amount sw =
     andthen (u128_add (get_total_shares (fst sw)) (as_u128 amount)) (\<lambda>tot.
     let s = put_total_shares tot (fst sw) in
     andthen (get_token_share s) (\<lambda>share_contract.
     andthen (share_mint_call sc share_contract to amount (snd sw)) (\<lambda>w.
     Inr (s, w))))"

end
