(* ===== verification/Reward_Claims.thy ===== *)
theory Reward_Claims
  imports Reward_Runs Share_Token
begin

text \<open>
  The functional behaviour of the two operations a user sees: how much a pool accrues between two
  updates, and what a claim pays.
\<close>

section \<open>Accrual by time\<close>

lemma create_new_rewards_data_fst:
  "create_new_rewards_data c g ws d s = Inr (d', s') \<Longrightarrow> d' = d"
  by (auto simp: create_new_rewards_data_def res_simps)

lemma update_writes:
  assumes "update_rewards_data c ws s = Inr (d, s')" and "rc_page_size c = PAGE_SIZE"
  shows "get_pool_reward_data s' = d" and "get_pool_reward_config s' = get_pool_reward_config s"
    and "rw_user_data s' = rw_user_data s"
proof -
  have new: "get_pool_reward_data s' = d \<and> get_pool_reward_config s' = get_pool_reward_config s \<and> rw_user_data s' = rw_user_data s"
    if "create_new_rewards_data c g ws d s = Inr (d, s')" for g
  proof -
    from that obtain b v where "add_reward_inv PAGE_SIZE b v (set_pool_reward_data d s) = Inr s'"
      by (auto simp: create_new_rewards_data_def update_reward_inv_def res_simps assms(2))
    from same_but_pagesD [OF add_reward_inv_effect(2) [OF this]] show ?thesis
      by (simp add: PAGE_SIZE_def U32_MAX_def get_pool_reward_data_def get_pool_reward_config_def set_pool_reward_data_def)
  qed
  have "d = get_pool_reward_data s \<and> s' = s \<or> (\<exists>g d0. create_new_rewards_data c g ws d0 s = Inr (d, s'))"
    using assms(1) by (auto simp: update_rewards_data_def Let_def andthen_eq_Inr split: if_splits)
  then consider "d = get_pool_reward_data s" "s' = s" | g where "create_new_rewards_data c g ws d s = Inr (d, s')"
    using create_new_rewards_data_fst by metis
  then show "get_pool_reward_data s' = d" and "get_pool_reward_config s' = get_pool_reward_config s"
    and "rw_user_data s' = rw_user_data s" using new by (cases; simp)+
qed

lemma update_accrues:
  assumes "update_rewards_data c ws s = Inr (d, s')"
    and "last_time (get_pool_reward_data s) \<le> ledger_timestamp (rc_env c)"
  defines "d0 \<equiv> get_pool_reward_data s" and "cfg \<equiv> get_pool_reward_config s"
    and "now \<equiv> ledger_timestamp (rc_env c)"
  shows "accumulated d = accumulated d0 +
      (if ws = 0 then 0 else (min now (expired_at cfg) - last_time d0) * tps cfg) \<and>
    last_time d = max (last_time d0) (min now (expired_at cfg)) \<and> claimed d = claimed d0 \<and>
    block d = block d0 + (if now \<le> expired_at cfg \<or> last_time d0 < expired_at cfg then 1 else 0)"
proof -
  consider "now \<le> expired_at cfg" | "expired_at cfg < now" "last_time d0 < expired_at cfg"
    | "expired_at cfg < now" "expired_at cfg \<le> last_time d0" by linarith
  then show ?thesis
  proof cases
    case 1
    then obtain g where g: "generated ws (last_time d0) now (tps cfg) = Inr g" "next_data d0 g now = Inr d"
      using assms(1) by (auto simp: update_rewards_data_def Let_def res_simps d0_def cfg_def now_def
          dest: create_new_rewards_data_fst)
    with 1 assms(2) show ?thesis
      by (auto simp: next_data_def res_simps generated_def d0_def now_def min_def split: if_splits)
  next
    case 2
    then obtain g where g: "generated ws (last_time d0) (expired_at cfg) (tps cfg) = Inr g"
      "next_data d0 g (expired_at cfg) = Inr d"
      using assms(1) by (auto simp: update_rewards_data_def Let_def res_simps d0_def cfg_def now_def
          dest: create_new_rewards_data_fst)
    with 2 show ?thesis by (auto simp: next_data_def res_simps generated_def split: if_splits)
  next
    case 3
    then have "d = d0"
      using assms(1) by (auto simp: update_rewards_data_def Let_def d0_def cfg_def now_def)
    with 3 show ?thesis by simp
  qed
qed

text \<open>
  Claim C29: an update adds exactly the configured rate times the seconds since the last update
  that lie before the expiration (nothing when nobody has weight), moves the clock to the end of
  that interval and leaves the claimed total alone. The clock never passes the expiration and
  never goes back, and the new data are what the manager keeps, so no second is paid twice. The configuration and the users'
  data stay as they are.
\<close>

theorem update_rewards_accrual:
  assumes "update_rewards_data c ws s = Inr (d, s')"
    and "last_time (get_pool_reward_data s) \<le> ledger_timestamp (rc_env c)" and "rc_page_size c = PAGE_SIZE"
  defines "d0 \<equiv> get_pool_reward_data s" and "cfg \<equiv> get_pool_reward_config s"
    and "now \<equiv> ledger_timestamp (rc_env c)"
  shows "accumulated d = accumulated d0 +
      (if ws = 0 then 0 else (min now (expired_at cfg) - last_time d0) * tps cfg) \<and>
    last_time d = max (last_time d0) (min now (expired_at cfg)) \<and> claimed d = claimed d0 \<and>
    block d = block d0 + (if now \<le> expired_at cfg \<or> last_time d0 < expired_at cfg then 1 else 0) \<and>
    get_pool_reward_data s' = d \<and> get_pool_reward_config s' = cfg \<and> rw_user_data s' = rw_user_data s"
  using update_accrues [OF assms(1,2)] update_writes [OF assms(1,3)] unfolding d0_def cfg_def now_def by simp

definition accruing :: rewards where
  "accruing = empty_rewards\<lparr>rw_config := Some \<lparr>tps = 10, expired_at = 1000\<rparr>,
     rw_data := Some \<lparr>block = 1, accumulated = 7, claimed = 2, last_time = 100\<rparr>\<rparr>"

theorem update_rewards_accrual_witness:
  "\<exists>d s'. update_rewards_data (at_time 5000) 400 accruing = Inr (d, s') \<and>
    accumulated d = 9007 \<and> last_time d = 1000 \<and> claimed d = 2 \<and> get_pool_reward_data s' = d"
proof -
  have "\<exists>d s'. update_rewards_data (at_time 5000) 400 accruing = Inr (d, s')"
    by (simp add: run_defs accruing_def del: upt_rec_numeral add_levels.simps find_max_pow.simps)
  then obtain d s' where run: "update_rewards_data (at_time 5000) 400 accruing = Inr (d, s')" by blast
  have "get_pool_reward_data accruing = \<lparr>block = 1, accumulated = 7, claimed = 2, last_time = 100\<rparr>"
    "get_pool_reward_config accruing = \<lparr>tps = 10, expired_at = 1000\<rparr>"
    "ledger_timestamp (rc_env (at_time 5000)) = 5000" "rc_page_size (at_time 5000) = PAGE_SIZE"
    by (simp_all add: accruing_def get_pool_reward_data_def get_pool_reward_config_def at_time_def
        pool_reward_ctx_def)
  with update_rewards_accrual [OF run] run show ?thesis by simp
qed

section \<open>Claims\<close>

text \<open>
  Claim C30: a successful claim pays the user exactly what the checkpoint settled, out of the
  pool's own balance of the reward token, adds it to the claimed total and leaves the user with
  nothing to claim.
\<close>

theorem claim_reward_pays:
  assumes "token_ledger tk" and "claim_reward c tk u tot b (s, w) = Inr (amount, s', w')"
    and "u \<noteq> current_contract (rc_env c)"
  shows "\<exists>ud t token. checkpoint_user c u tot b s = Inr (ud, t) \<and> amount = to_claim ud \<and>
    rw_token t = Some token \<and>
    tk_balance tk token u w' = tk_balance tk token u w + int amount \<and>
    tk_balance tk token (current_contract (rc_env c)) w' =
      tk_balance tk token (current_contract (rc_env c)) w - int amount \<and>
    claimed (get_pool_reward_data s') = claimed (get_pool_reward_data t) + amount \<and> settled s' u = 0"
proof -
  from assms(2) obtain ud t token where cp: "checkpoint_user c u tot b s = Inr (ud, t)"
    and amount: "amount = to_claim ud" "claimed (get_pool_reward_data t) + amount \<le> U128_MAX"
    and token: "rw_token t = Some token"
    and tr: "tk_transfer tk token (current_contract (rc_env c)) u (as_i128 amount) w = Inr w'"
    and s': "s' = set_user_reward_data u (ud\<lparr>to_claim := 0\<rparr>)
      (set_pool_reward_data ((get_pool_reward_data t)\<lparr>claimed := claimed (get_pool_reward_data t) + amount\<rparr>) t)"
    by (auto simp: claim_reward_def Let_def res_simps get_reward_token_def set_pool_reward_data_def)
  note moves = token_ledger.transfer_moves [OF assms(1) tr] assms(3)
  have "as_i128 amount = int amount"
    using moves amount(2) as_i128_nonneg_iff [of amount] by (simp add: as_i128_small)
  with cp amount token moves show ?thesis
    by (simp add: s' set_user_reward_data_def settled_def)
qed


definition reward_tokens :: "address \<Rightarrow> token_state" where
  \<comment> \<open>the reward token is contract 3; the pool, address 9, holds 5000 of it\<close>
  "reward_tokens = (\<lambda>_. empty_token\<lparr>tok_ac := token_admin\<rparr>)
     (3 := empty_token\<lparr>tok_ac := token_admin, tok_balance := [9 \<mapsto> 5000]\<rparr>)"

definition claiming :: rewards where
  \<comment> \<open>user 5 holds 300 of the weight 400 and was settled at block 1\<close>
  "claiming = accruing\<lparr>rw_token := Some 3, rw_working_supply := Some 400,
     rw_working_balance := [5 \<mapsto> 300], rw_inv := [(0, 0) \<mapsto> [0, 7], (1, 0) \<mapsto> [7]],
     rw_user_data := [5 \<mapsto> \<lparr>pool_accumulated = 7, to_claim = 4, last_block = 1\<rparr>]\<rparr>"

lemma claiming_runs:
  "\<exists>s' W'. claim_reward (at_time 200) (token_world anyone) 5 400 300 (claiming, reward_tokens) =
    Inr (754, s', W')"
  by (simp add: run_defs claim_reward_def claiming_def accruing_def get_reward_token_def token_world_def
      transfer_def move_with_checkpoints_def checkpoint_user_rewards_def checkpoint_user_working_balance_def
      get_role_def get_role_safe_def token_admin_def empty_access_control_def silent_pool_def
      require_auth_def anyone_def receive_balance_def spend_balance_def check_nonnegative_amount_def
      read_balance_def write_balance_def empty_token_def reward_tokens_def
      i128_add_def i128_sub_def i128_fits_def as_i128_def I128_MAX_def
      del: upt_rec_numeral add_levels.simps find_max_pow.simps)

theorem claim_reward_pays_witness:
  "\<exists>s' W'. claim_reward (at_time 200) (token_world anyone) 5 400 300 (claiming, reward_tokens) =
      Inr (754, s', W') \<and> settled s' 5 = 0"
proof -
  obtain s' W' where run: "claim_reward (at_time 200) (token_world anyone) 5 400 300 (claiming, reward_tokens) =
      Inr (754, s', W')" using claiming_runs by blast
  have "5 \<noteq> current_contract (rc_env (at_time 200))" by (simp add: at_time_def pool_reward_ctx_def sample_env_def)
  from claim_reward_pays [OF token_world_ledger run this] run show ?thesis by blast
qed

end
