(* ===== verification/Gauge.thy ===== *)
theory Gauge
  imports Fixed_Point Tokens
begin

text \<open>
  \<^verbatim>\<open>rewards_gauge/src\<close>: the contract that pays one extra reward token to the users of a pool.
  Distributors schedule rewards (a start, a rate per second, an end) and deposit them in full; the
  pool reports a user's working balance before it changes, and the contract keeps a cumulative
  reward per unit of working balance (\<open>inv\<close>). Only the pool may call it. The upgrade entry point
  replaces the contract's code and is the field \<open>g_wasm\<close>.
\<close>

section \<open>State\<close>

record gauge_config =
  gc_start_at :: nat
  gc_tps :: nat
  gc_expired_at :: nat

record global_reward_data =
  gd_epoch :: nat
  gd_inv :: nat
  gd_accumulated :: nat
  gd_claimed :: nat

record gauge_user_data =
  gu_epoch :: nat
  gu_last_inv :: nat
  gu_to_claim :: nat

record gauge =
  g_pool :: address
  g_reward_token :: address
  g_configs :: "gauge_config list"
  g_global :: global_reward_data
  g_users :: "address \<Rightarrow> gauge_user_data option"
  g_wasm :: "nat option"

definition GAUGE_PRECISION :: nat where
  "GAUGE_PRECISION = 10000000000000000000000"

definition MAX_REWARD_CONFIGS :: nat where
  "MAX_REWARD_CONFIGS = 10"

definition empty_global :: global_reward_data where
  "empty_global = \<lparr>gd_epoch = 0, gd_inv = 0, gd_accumulated = 0, gd_claimed = 0\<rparr>"

definition gauge_constructor :: "address \<Rightarrow> address \<Rightarrow> gauge" where
  "gauge_constructor pool reward_token = \<lparr>g_pool = pool, g_reward_token = reward_token,
     g_configs = [], g_global = empty_global, g_users = (\<lambda>_. None), g_wasm = None\<rparr>"

definition empty_user :: gauge_user_data where
  "empty_user = \<lparr>gu_epoch = 0, gu_last_inv = 0, gu_to_claim = 0\<rparr>"

definition gauge_user :: "gauge \<Rightarrow> address \<Rightarrow> gauge_user_data" where
  "gauge_user g user = (case g_users g user of Some d \<Rightarrow> d | None \<Rightarrow> empty_user)"

definition put_gauge_user :: "address \<Rightarrow> gauge_user_data \<Rightarrow> gauge \<Rightarrow> gauge" where
  "put_gauge_user user d g = g\<lparr>g_users := (g_users g)(user \<mapsto> d)\<rparr>"

section \<open>Checkpoints\<close>

definition accrue_config ::
  "fixed_point \<Rightarrow> nat \<Rightarrow> nat \<Rightarrow> nat \<Rightarrow> gauge_config \<Rightarrow>
   global_reward_data \<times> gauge_config list \<Rightarrow> (global_reward_data \<times> gauge_config list) res" where
  "accrue_config fp working_supply now epoch config acc =
     (let (new_data, configs_updated) = acc in
      if now < gc_start_at config then Inr (new_data, configs_updated @ [config])
      else
        let reward_start = if gc_start_at config < epoch then epoch else gc_start_at config;
            reward_end = if now < gc_expired_at config then now else gc_expired_at config in
        andthen (u_sub reward_end reward_start) (\<lambda>seconds.
        andthen (u128_mul seconds (gc_tps config)) (\<lambda>generated_tokens.
        andthen (if 0 < working_supply
                 then mul_floor fp generated_tokens GAUGE_PRECISION working_supply
                 else Inr 0) (\<lambda>reward_per_share.
        andthen (u256_add (gd_inv new_data) reward_per_share) (\<lambda>inv.
        andthen (u128_add (gd_accumulated new_data) generated_tokens) (\<lambda>total.
        Inr (new_data\<lparr>gd_inv := inv, gd_accumulated := total\<rparr>,
             if now < gc_expired_at config then configs_updated @ [config] else configs_updated)))))))"

definition checkpoint_global :: "fixed_point \<Rightarrow> nat \<Rightarrow> nat \<Rightarrow> gauge \<Rightarrow> (global_reward_data \<times> gauge) res" where
  "checkpoint_global fp now working_supply g =
     andthen (fold_res (accrue_config fp working_supply now (gd_epoch (g_global g))) (g_configs g)
       ((g_global g)\<lparr>gd_epoch := now\<rparr>, [])) (\<lambda>(new_data, configs_updated).
     Inr (new_data, g\<lparr>g_global := new_data, g_configs := configs_updated\<rparr>))"

definition checkpoint_gauge_user ::
  "global_reward_data \<Rightarrow> address \<Rightarrow> nat \<Rightarrow> gauge \<Rightarrow> (gauge_user_data \<times> gauge) res" where
  "checkpoint_gauge_user global_data user working_balance g =
     (let user_data = gauge_user g user in
      if gu_epoch user_data = gd_epoch global_data then Inr (user_data, g)
      else if working_balance = 0 then
        let new_data = \<lparr>gu_epoch = gd_epoch global_data, gu_last_inv = gd_inv global_data,
          gu_to_claim = gu_to_claim user_data\<rparr>
        in Inr (new_data, put_gauge_user user new_data g)
      else
        andthen (u_sub (gd_inv global_data) (gu_last_inv user_data)) (\<lambda>grown.
        andthen (u256_mul working_balance grown) (\<lambda>x.
        andthen (to_u128 (x div GAUGE_PRECISION)) (\<lambda>reward.
        andthen (u128_add (gu_to_claim user_data) reward) (\<lambda>owed.
        let new_data = \<lparr>gu_epoch = gd_epoch global_data, gu_last_inv = gd_inv global_data,
          gu_to_claim = owed\<rparr>
        in Inr (new_data, put_gauge_user user new_data g))))))"

section \<open>Entry points\<close>

definition only_pool :: "env \<Rightarrow> address \<Rightarrow> gauge \<Rightarrow> unit res" where
  \<comment> \<open>the two guards every entry point of the pool starts with\<close>
  "only_pool e pool g =
     andthen (require_auth e pool) (\<lambda>_.
     require (g_pool g = pool) (GaugeError GA_Unauthorized))"

definition gauge_schedule_rewards_config ::
  "env \<Rightarrow> fixed_point \<Rightarrow> 'w tokens \<Rightarrow> address \<Rightarrow> address \<Rightarrow> nat option \<Rightarrow> nat \<Rightarrow> nat \<Rightarrow> nat \<Rightarrow>
   gauge \<times> 'w \<Rightarrow> (gauge \<times> 'w) res" where
  "gauge_schedule_rewards_config e fp tk pool distributor start_at duration rate working_supply gw =
     (let (g, w) = gw; now = ledger_timestamp e in
      andthen (require_auth e pool) (\<lambda>_.
      andthen (require_auth e distributor) (\<lambda>_.
      andthen (require (g_pool g = pool) (GaugeError GA_Unauthorized)) (\<lambda>_.
      if duration = 0 \<or> rate = 0 then Inl (GaugeError GA_InvalidConfig)
      else
        andthen (u128_mul rate duration) (\<lambda>new_reward.
        andthen (tk_transfer tk (g_reward_token g) distributor (current_contract e)
          (as_i128 new_reward) w) (\<lambda>w.
        andthen (checkpoint_global fp now working_supply g) (\<lambda>(_, g).
        let config_start_at = (case start_at of Some t \<Rightarrow> t | None \<Rightarrow> now) in
        if config_start_at < now then Inl (GaugeError GA_StartTooEarly)
        else
          andthen (u64_add config_start_at duration) (\<lambda>config_expired_at.
          let current_configs = g_configs g @ [\<lparr>gc_start_at = config_start_at, gc_tps = rate,
            gc_expired_at = config_expired_at\<rparr>] in
          if MAX_REWARD_CONFIGS < length current_configs then Inl (GaugeError GA_TooManyConfigs)
          else Inr (g\<lparr>g_configs := current_configs\<rparr>, w)))))))))"

definition gauge_checkpoint_user ::
  "env \<Rightarrow> fixed_point \<Rightarrow> address \<Rightarrow> address \<Rightarrow> nat \<Rightarrow> nat \<Rightarrow> gauge \<Rightarrow> gauge res" where
  "gauge_checkpoint_user e fp pool user working_balance working_supply g =
     andthen (only_pool e pool g) (\<lambda>_.
     andthen (checkpoint_global fp (ledger_timestamp e) working_supply g) (\<lambda>(global_data, g).
     andthen (checkpoint_gauge_user global_data user working_balance g) (\<lambda>(_, g). Inr g)))"

definition gauge_claim ::
  "env \<Rightarrow> fixed_point \<Rightarrow> 'w tokens \<Rightarrow> address \<Rightarrow> address \<Rightarrow> nat \<Rightarrow> nat \<Rightarrow> gauge \<times> 'w \<Rightarrow>
   (nat \<times> gauge \<times> 'w) res" where
  "gauge_claim e fp tk pool user working_balance working_supply gw =
     (let (g, w) = gw in
      andthen (only_pool e pool g) (\<lambda>_.
      andthen (checkpoint_global fp (ledger_timestamp e) working_supply g) (\<lambda>(global_data, g).
      andthen (checkpoint_gauge_user global_data user working_balance g) (\<lambda>(user_data, g).
      let user_reward = gu_to_claim user_data;
          max_payable = sat_sub (gd_accumulated global_data) (gd_claimed global_data);
          transfer_amount = min user_reward max_payable in
      andthen (u128_add (gd_claimed global_data) transfer_amount) (\<lambda>total.
      let g = put_gauge_user user (user_data\<lparr>gu_to_claim := 0\<rparr>)
                (g\<lparr>g_global := global_data\<lparr>gd_claimed := total\<rparr>\<rparr>) in
      andthen (tk_transfer tk (g_reward_token g) (current_contract e) user (as_i128 transfer_amount) w) (\<lambda>w.
      Inr (transfer_amount, g, w)))))))"

definition gauge_get_user_reward ::
  "env \<Rightarrow> fixed_point \<Rightarrow> address \<Rightarrow> address \<Rightarrow> nat \<Rightarrow> nat \<Rightarrow> gauge \<Rightarrow> (nat \<times> gauge) res" where
  "gauge_get_user_reward e fp pool user working_balance working_supply g =
     andthen (only_pool e pool g) (\<lambda>_.
     andthen (checkpoint_global fp (ledger_timestamp e) working_supply g) (\<lambda>(global_data, g).
     andthen (checkpoint_gauge_user global_data user working_balance g) (\<lambda>(user_data, g).
     Inr (gu_to_claim user_data, g))))"

definition gauge_set_reward_state ::
  "env \<Rightarrow> address \<Rightarrow> global_reward_data \<Rightarrow> gauge_config list \<Rightarrow> gauge \<Rightarrow> gauge res" where
  "gauge_set_reward_state e pool global_data configs g =
     andthen (only_pool e pool g) (\<lambda>_.
     if gd_accumulated global_data < gd_claimed global_data then Inl (GaugeError GA_InvalidRewardState)
     else if gd_inv global_data < gd_inv (g_global g) then Inl (GaugeError GA_InvalidRewardState)
     else Inr (g\<lparr>g_global := global_data, g_configs := configs\<rparr>))"

definition gauge_current_configs :: "env \<Rightarrow> gauge \<Rightarrow> gauge_config list" where
  "gauge_current_configs e g = filter (\<lambda>c. ledger_timestamp e \<le> gc_expired_at c) (g_configs g)"

definition aggregate_config :: "nat \<Rightarrow> gauge_config \<Rightarrow> gauge_config \<Rightarrow> gauge_config res" where
  "aggregate_config now config total_config =
     (if gc_start_at config \<le> now \<and> now < gc_expired_at config then
        andthen (u128_add (gc_tps total_config) (gc_tps config)) (\<lambda>rate.
        Inr (total_config\<lparr>gc_tps := rate,
          gc_expired_at := (if gc_expired_at total_config = 0 \<or> gc_expired_at config < gc_expired_at total_config
            then gc_expired_at config else gc_expired_at total_config)\<rparr>))
      else Inr total_config)"

definition gauge_get_reward_config :: "env \<Rightarrow> gauge \<Rightarrow> gauge_config res" where
  "gauge_get_reward_config e g =
     fold_res (aggregate_config (ledger_timestamp e)) (g_configs g)
       \<lparr>gc_start_at = ledger_timestamp e, gc_tps = 0, gc_expired_at = 0\<rparr>"

definition gauge_upgrade :: "env \<Rightarrow> address \<Rightarrow> nat \<Rightarrow> gauge \<Rightarrow> gauge res" where
  "gauge_upgrade e pool new_wasm_hash g =
     andthen (only_pool e pool g) (\<lambda>_. Inr (g\<lparr>g_wasm := Some new_wasm_hash\<rparr>))"

end
