(* ===== verification/Gauge_Runs.thy ===== *)
theory Gauge_Runs
  imports Gauge Share_Token
begin

text \<open>
  What the reward gauge promises: the rewards it owes are always covered, by its accounts and by
  its token balance. The operations of the pool and of distributors are a step relation over the
  gauge, the working balances that the pool reports, and the token world; the covering is an
  invariant of every reachable state, by rule induction.
\<close>

section \<open>Accrual of one schedule\<close>

definition config_gen :: "nat \<Rightarrow> nat \<Rightarrow> gauge_config \<Rightarrow> nat" where
  "config_gen epoch now c = (if now < gc_start_at c then 0
     else (min now (gc_expired_at c) - max epoch (gc_start_at c)) * gc_tps c)"

definition config_left :: "nat \<Rightarrow> gauge_config \<Rightarrow> nat" where
  \<comment> \<open>the deposit of a schedule that has not accrued yet\<close>
  "config_left epoch c = (gc_expired_at c - max epoch (gc_start_at c)) * gc_tps c"

definition config_ok :: "nat \<Rightarrow> gauge_config \<Rightarrow> bool" where
  "config_ok epoch c \<longleftrightarrow> gc_start_at c < gc_expired_at c \<and> epoch < gc_expired_at c"

definition left_of :: "gauge \<Rightarrow> nat" where
  "left_of g = sum_list (map (config_left (gd_epoch (g_global g))) (g_configs g))"

lemma config_left_split:
  assumes "config_ok epoch c" and "epoch \<le> now"
  shows "config_left epoch c = config_gen epoch now c + (if now < gc_expired_at c then config_left now c else 0)"
proof -
  have "gc_expired_at c - max epoch (gc_start_at c) =
    (if now < gc_start_at c then 0 else min now (gc_expired_at c) - max epoch (gc_start_at c)) +
    (if now < gc_expired_at c then gc_expired_at c - max now (gc_start_at c) else 0)"
    using assms by (auto simp: config_ok_def max_def min_def)
  then show ?thesis
    unfolding config_left_def config_gen_def by (simp add: add_mult_distrib split: if_splits)
qed

lemma config_gen_now [simp]: "config_gen now now c = 0"
  by (simp add: config_gen_def max_def min_def)

lemma accrue_config_InrD:
  assumes "accrue_config fp W now epoch c (d, cs) = Inr (d', cs')"
    and "fixed_point_lib fp" and "config_ok epoch c" and "epoch \<le> now"
  shows "\<exists>X. d' = d\<lparr>gd_inv := gd_inv d + X, gd_accumulated := gd_accumulated d + config_gen epoch now c\<rparr> \<and>
      X * W \<le> config_gen epoch now c * GAUGE_PRECISION \<and> (config_gen epoch now c = 0 \<longrightarrow> X = 0) \<and>
      cs' = cs @ (if now < gc_expired_at c then [c] else [])"
proof (cases "now < gc_start_at c")
  case True
  then show ?thesis
    using assms(1,3) by (intro exI [of _ 0]) (auto simp: accrue_config_def config_gen_def config_ok_def)
next
  case False
  have bounds: "(if gc_start_at c < epoch then epoch else gc_start_at c) = max epoch (gc_start_at c)"
    "(if now < gc_expired_at c then now else gc_expired_at c) = min now (gc_expired_at c)"
    by (auto simp: max_def min_def)
  have gen: "config_gen epoch now c = (min now (gc_expired_at c) - max epoch (gc_start_at c)) * gc_tps c"
    using False by (simp add: config_gen_def)
  from assms(1) False obtain X where
    X: "(if 0 < W then mul_floor fp (config_gen epoch now c) GAUGE_PRECISION W else Inr 0) = Inr X"
    and d': "d' = d\<lparr>gd_inv := gd_inv d + X, gd_accumulated := gd_accumulated d + config_gen epoch now c\<rparr>"
    and cs': "cs' = (if now < gc_expired_at c then cs @ [c] else cs)"
    unfolding gen by (auto simp: accrue_config_def Let_def res_simps bounds)
  from X have "X * W \<le> config_gen epoch now c * GAUGE_PRECISION \<and> (config_gen epoch now c = 0 \<longrightarrow> X = 0)"
    by (auto simp: fixed_point_lib.mul_floor_eq_Inr [OF assms(2)] split: if_splits)
  with d' cs' show ?thesis by auto
qed

definition gen_all :: "nat \<Rightarrow> nat \<Rightarrow> gauge_config list \<Rightarrow> nat" where
  "gen_all epoch now cs = sum_list (map (config_gen epoch now) cs)"

lemma accrue_all_InrD:
  assumes "fold_res (accrue_config fp W now epoch) cs (d, ks) = Inr (d', ks')"
    and "fixed_point_lib fp" and "\<forall>c \<in> set cs. config_ok epoch c" and "epoch \<le> now"
  shows "\<exists>X. d' = d\<lparr>gd_inv := gd_inv d + X, gd_accumulated := gd_accumulated d + gen_all epoch now cs\<rparr> \<and>
      X * W \<le> gen_all epoch now cs * GAUGE_PRECISION \<and> (gen_all epoch now cs = 0 \<longrightarrow> X = 0) \<and>
      ks' = ks @ filter (\<lambda>c. now < gc_expired_at c) cs"
  using assms(1,3)
proof (induction cs arbitrary: d ks)
  case Nil
  then show ?case by (intro exI [of _ 0]) (simp add: gen_all_def)
next
  case (Cons c cs)
  from Cons.prems(1) obtain d1 ks1 where
    one: "accrue_config fp W now epoch c (d, ks) = Inr (d1, ks1)"
    and rest: "fold_res (accrue_config fp W now epoch) cs (d1, ks1) = Inr (d', ks')"
    by (auto simp: res_simps)
  from accrue_config_InrD [OF one assms(2) _ assms(4)] Cons.prems(2) obtain X where
    X: "d1 = d\<lparr>gd_inv := gd_inv d + X, gd_accumulated := gd_accumulated d + config_gen epoch now c\<rparr>"
      "X * W \<le> config_gen epoch now c * GAUGE_PRECISION" "config_gen epoch now c = 0 \<longrightarrow> X = 0"
      "ks1 = ks @ (if now < gc_expired_at c then [c] else [])" by auto
  from Cons.IH [OF rest] Cons.prems(2) obtain Y where
    Y: "d' = d1\<lparr>gd_inv := gd_inv d1 + Y, gd_accumulated := gd_accumulated d1 + gen_all epoch now cs\<rparr>"
      "Y * W \<le> gen_all epoch now cs * GAUGE_PRECISION" "gen_all epoch now cs = 0 \<longrightarrow> Y = 0"
      "ks' = ks1 @ filter (\<lambda>c. now < gc_expired_at c) cs" by auto
  show ?case
    using X Y by (intro exI [of _ "X + Y"]) (auto simp: gen_all_def add_mult_distrib)
qed

lemma left_all_split:
  assumes "\<forall>c \<in> set cs. config_ok epoch c" and "epoch \<le> now"
  shows "sum_list (map (config_left epoch) cs) = gen_all epoch now cs +
    sum_list (map (config_left now) (filter (\<lambda>c. now < gc_expired_at c) cs))"
  using assms(1) by (induction cs) (auto simp: gen_all_def config_left_split [OF _ assms(2)])

text \<open>A checkpoint moves the deposits that became due from the schedules to the accumulated reward.\<close>

definition accrued :: "nat \<Rightarrow> nat \<Rightarrow> nat \<Rightarrow> nat \<Rightarrow> gauge \<Rightarrow> gauge \<Rightarrow> bool" where
  "accrued now W G X g g' \<longleftrightarrow>
     g_global g' = (g_global g)\<lparr>gd_epoch := now, gd_inv := gd_inv (g_global g) + X,
       gd_accumulated := gd_accumulated (g_global g) + G\<rparr> \<and>
     X * W \<le> G * GAUGE_PRECISION \<and> (G = 0 \<longrightarrow> X = 0) \<and> (now = gd_epoch (g_global g) \<longrightarrow> G = 0) \<and>
     left_of g = G + left_of g' \<and> (\<forall>c \<in> set (g_configs g'). config_ok now c) \<and>
     g_users g' = g_users g \<and> g_pool g' = g_pool g \<and> g_reward_token g' = g_reward_token g"

lemma checkpoint_global_InrD:
  assumes "checkpoint_global fp now W g = Inr (d, g')" and "fixed_point_lib fp"
    and "\<forall>c \<in> set (g_configs g). config_ok (gd_epoch (g_global g)) c" and "gd_epoch (g_global g) \<le> now"
  shows "d = g_global g'" and "\<exists>G X. accrued now W G X g g'"
proof -
  let ?epoch = "gd_epoch (g_global g)"
  from assms(1) obtain ks where
    f: "fold_res (accrue_config fp W now ?epoch) (g_configs g) ((g_global g)\<lparr>gd_epoch := now\<rparr>, []) = Inr (d, ks)"
    and g': "g' = g\<lparr>g_global := d, g_configs := ks\<rparr>"
    by (auto simp: checkpoint_global_def res_simps)
  show "d = g_global g'" by (simp add: g')
  have idle: "now = ?epoch \<longrightarrow> gen_all ?epoch now (g_configs g) = 0"
    by (auto simp: gen_all_def intro: sum_list_0)
  have kept: "config_ok now c" if "c \<in> set (g_configs g)" and "now < gc_expired_at c" for c
    using assms(3) that by (auto simp: config_ok_def)
  from accrue_all_InrD [OF f assms(2-4)] obtain X where
    X: "d = (g_global g)\<lparr>gd_epoch := now, gd_inv := gd_inv (g_global g) + X,
       gd_accumulated := gd_accumulated (g_global g) + gen_all ?epoch now (g_configs g)\<rparr>"
      "X * W \<le> gen_all ?epoch now (g_configs g) * GAUGE_PRECISION"
      "gen_all ?epoch now (g_configs g) = 0 \<longrightarrow> X = 0"
      "ks = filter (\<lambda>c. now < gc_expired_at c) (g_configs g)" by auto
  then have "accrued now W (gen_all ?epoch now (g_configs g)) X g g'"
    using idle kept left_all_split [OF assms(3,4)]
    by (auto simp: accrued_def g' left_of_def)
  then show "\<exists>G X. accrued now W G X g g'" by blast
qed

section \<open>What users are owed\<close>

definition owed_scaled :: "(address \<Rightarrow> nat) \<Rightarrow> gauge \<Rightarrow> address \<Rightarrow> nat" where
  \<comment> \<open>scaled by the precision: the settled reward, and the part of the index not settled yet\<close>
  "owed_scaled weight g u = GAUGE_PRECISION * gu_to_claim (gauge_user g u) +
     weight u * (gd_inv (g_global g) - gu_last_inv (gauge_user g u))"

definition user_settled :: "gauge \<Rightarrow> address \<Rightarrow> bool" where
  "user_settled g u \<longleftrightarrow> gu_last_inv (gauge_user g u) \<le> gd_inv (g_global g) \<and>
     gu_epoch (gauge_user g u) \<le> gd_epoch (g_global g) \<and>
     (gu_epoch (gauge_user g u) = gd_epoch (g_global g) \<longrightarrow>
        gu_last_inv (gauge_user g u) = gd_inv (g_global g))"

definition payable :: "gauge \<Rightarrow> nat" where
  "payable g = gd_accumulated (g_global g) - gd_claimed (g_global g)"

definition gauge_inv :: "address set \<Rightarrow> (address \<Rightarrow> nat) \<Rightarrow> gauge \<Rightarrow> bool" where
  "gauge_inv U weight g \<longleftrightarrow>
     (\<forall>c \<in> set (g_configs g). config_ok (gd_epoch (g_global g)) c) \<and>
     (\<forall>u \<in> U. user_settled g u) \<and>
     gd_claimed (g_global g) \<le> gd_accumulated (g_global g) \<and>
     (\<Sum>u \<in> U. owed_scaled weight g u) \<le> GAUGE_PRECISION * payable g"

lemma gauge_user_put [simp]:
  "gauge_user (put_gauge_user u d g) v = (if v = u then d else gauge_user g v)"
  by (simp add: gauge_user_def put_gauge_user_def)

lemma put_gauge_user_fields [simp]:
  "g_global (put_gauge_user u d g) = g_global g"
  "g_configs (put_gauge_user u d g) = g_configs g"
  "g_pool (put_gauge_user u d g) = g_pool g"
  "g_reward_token (put_gauge_user u d g) = g_reward_token g"
  by (simp_all add: put_gauge_user_def)

lemma gauge_inv_accrued:
  assumes "gauge_inv U weight g" and "accrued now W G X g g'" and "finite U"
    and "(\<Sum>u \<in> U. weight u) \<le> W" and "gd_epoch (g_global g) \<le> now"
  shows "gauge_inv U weight g'" and "payable g' = payable g + G"
proof -
  note a = assms(2)[unfolded accrued_def]
  note i = assms(1)[unfolded gauge_inv_def]
  have users: "gauge_user g' u = gauge_user g u" for u using a by (simp add: gauge_user_def)
  show pay: "payable g' = payable g + G" using a i by (simp add: payable_def)
  have settled: "user_settled g' u" if "u \<in> U" for u
    using a i that assms(5) by (fastforce simp: user_settled_def users)
  have owed: "owed_scaled weight g' u = owed_scaled weight g u + weight u * X" if "u \<in> U" for u
  proof -
    have "gu_last_inv (gauge_user g u) \<le> gd_inv (g_global g)" using i that by (auto simp: user_settled_def)
    then have "gd_inv (g_global g') - gu_last_inv (gauge_user g u) =
      (gd_inv (g_global g) - gu_last_inv (gauge_user g u)) + X" using a by simp
    then show ?thesis by (simp add: owed_scaled_def users add_mult_distrib2)
  qed
  have "(\<Sum>u \<in> U. owed_scaled weight g' u) = (\<Sum>u \<in> U. owed_scaled weight g u) + (\<Sum>u \<in> U. weight u) * X"
    by (simp add: owed sum.distrib sum_distrib_right)
  also have "\<dots> \<le> GAUGE_PRECISION * payable g + W * X"
    using i assms(4) by (intro add_mono mult_le_mono1) auto
  also have "\<dots> \<le> GAUGE_PRECISION * payable g'"
    using a by (simp add: pay add_mult_distrib2 mult.commute)
  finally show "gauge_inv U weight g'"
    using a i settled by (simp add: gauge_inv_def)
qed

text \<open>Settling a user pays out whole units, so it never raises what is owed.\<close>

lemma checkpoint_gauge_user_InrD:
  assumes "checkpoint_gauge_user (g_global g) u (weight u) g = Inr (d, g')"
    and "gauge_inv U weight g" and "u \<in> U" and "finite U"
  shows "gauge_user g' u = d" and "gu_last_inv d = gd_inv (g_global g)"
    and "gu_to_claim d = (if gu_epoch (gauge_user g u) = gd_epoch (g_global g) then gu_to_claim (gauge_user g u)
       else gu_to_claim (gauge_user g u) +
         weight u * (gd_inv (g_global g) - gu_last_inv (gauge_user g u)) div GAUGE_PRECISION)"
    and "gauge_inv U weight g'" and "g_global g' = g_global g" and "left_of g' = left_of g"
    and "g_reward_token g' = g_reward_token g" and "g_pool g' = g_pool g"
    and "\<And>w'. gauge_inv U (weight(u := w')) g'"
proof -
  note i = assms(2)[unfolded gauge_inv_def]
  have u: "user_settled g u" using i assms(3) by blast
  have cases: "(g' = g \<and> d = gauge_user g u \<and> gu_epoch d = gd_epoch (g_global g)) \<or>
    (g' = put_gauge_user u d g \<and> gu_epoch (gauge_user g u) \<noteq> gd_epoch (g_global g) \<and>
     gu_epoch d = gd_epoch (g_global g) \<and>
     gu_last_inv d = gd_inv (g_global g) \<and> gu_to_claim d = gu_to_claim (gauge_user g u) +
       weight u * (gd_inv (g_global g) - gu_last_inv (gauge_user g u)) div GAUGE_PRECISION)"
    using assms(1) by (auto simp: checkpoint_gauge_user_def Let_def res_simps split: if_splits)
  then show user: "gauge_user g' u = d" and last: "gu_last_inv d = gd_inv (g_global g)"
    and "gu_to_claim d = (if gu_epoch (gauge_user g u) = gd_epoch (g_global g) then gu_to_claim (gauge_user g u)
       else gu_to_claim (gauge_user g u) +
         weight u * (gd_inv (g_global g) - gu_last_inv (gauge_user g u)) div GAUGE_PRECISION)"
    using u by (auto simp: user_settled_def)
  from cases show same: "g_global g' = g_global g" "left_of g' = left_of g"
    "g_reward_token g' = g_reward_token g" "g_pool g' = g_pool g"
    by (auto simp: left_of_def)
  have others: "gauge_user g' v = gauge_user g v" if "v \<noteq> u" for v using cases that by auto
  have epoch: "gu_epoch d = gd_epoch (g_global g)" using cases by auto
  have settled: "\<forall>v \<in> U. user_settled g' v"
    using i others last user epoch by (metis le_refl same(1) user_settled_def)
  have "owed_scaled weight g' v \<le> owed_scaled weight g v" for v
  proof (cases "v = u")
    case True
    show ?thesis
      using cases True u times_div_less_eq_dividend
      by (auto simp: owed_scaled_def add_mult_distrib2 mult.commute)
  next
    case False
    then show ?thesis by (simp add: owed_scaled_def others same)
  qed
  then have "(\<Sum>v \<in> U. owed_scaled weight g' v) \<le> (\<Sum>v \<in> U. owed_scaled weight g v)" by (rule sum_mono)
  then have total: "(\<Sum>v \<in> U. owed_scaled weight g' v) \<le> GAUGE_PRECISION * payable g'"
    using i by (simp add: payable_def same)
  have configs: "g_configs g' = g_configs g" using cases by auto
  show "gauge_inv U weight g'" using i settled total by (simp add: gauge_inv_def same configs)
  show "gauge_inv U (weight(u := w')) g'" for w'
  proof -
    have "owed_scaled (weight(u := w')) g' v = owed_scaled weight g' v" for v
      by (cases "v = u") (simp_all add: owed_scaled_def user last same)
    then show ?thesis using i settled total by (simp add: gauge_inv_def same configs)
  qed
qed

section \<open>Runs\<close>

text \<open>
  One step of the world as a gauge at address \<open>me\<close> sees it. The pool calls it before a working
  balance changes, with the balance the user had and a supply that covers all of them; time does not
  run backwards; the distributor and the user of a call are accounts, not the gauge itself.
  In a step \<open>other\<close> anything else happens that takes nothing from the gauge.
\<close>

type_synonym 'w gauge_state = "gauge \<times> (address \<Rightarrow> nat) \<times> 'w"

definition called_at :: "address \<Rightarrow> env \<Rightarrow> gauge \<Rightarrow> bool" where
  "called_at me e g \<longleftrightarrow> current_contract e = me \<and> gd_epoch (g_global g) \<le> ledger_timestamp e"

inductive gauge_step ::
  "fixed_point \<Rightarrow> 'w tokens \<Rightarrow> address \<Rightarrow> address set \<Rightarrow> 'w gauge_state \<Rightarrow> 'w gauge_state \<Rightarrow> bool"
  for fp tk me U where
  schedule: "called_at me e g \<Longrightarrow> d \<noteq> me \<Longrightarrow> (\<Sum>u \<in> U. weight u) \<le> supply \<Longrightarrow>
    gauge_schedule_rewards_config e fp tk p d start duration rate supply (g, w) = Inr (g', w') \<Longrightarrow>
    gauge_step fp tk me U (g, weight, w) (g', weight, w')"
| checkpoint: "called_at me e g \<Longrightarrow> u \<in> U \<Longrightarrow> (\<Sum>u \<in> U. weight u) \<le> supply \<Longrightarrow>
    gauge_checkpoint_user e fp p u (weight u) supply g = Inr g' \<Longrightarrow>
    gauge_step fp tk me U (g, weight, w) (g', weight(u := new_weight), w)"
| claim: "called_at me e g \<Longrightarrow> u \<in> U \<Longrightarrow> u \<noteq> me \<Longrightarrow> (\<Sum>u \<in> U. weight u) \<le> supply \<Longrightarrow>
    gauge_claim e fp tk p u (weight u) supply (g, w) = Inr (amount, g', w') \<Longrightarrow>
    gauge_step fp tk me U (g, weight, w) (g', weight(u := new_weight), w')"
| inform: "called_at me e g \<Longrightarrow> u \<in> U \<Longrightarrow> (\<Sum>u \<in> U. weight u) \<le> supply \<Longrightarrow>
    gauge_get_user_reward e fp p u (weight u) supply g = Inr (amount, g') \<Longrightarrow>
    gauge_step fp tk me U (g, weight, w) (g', weight, w)"
| replace_code: "gauge_upgrade e p wasm g = Inr g' \<Longrightarrow>
    gauge_step fp tk me U (g, weight, w) (g', weight, w)"
| other: "tk_balance tk (g_reward_token g) me w \<le> tk_balance tk (g_reward_token g) me w' \<Longrightarrow>
    gauge_step fp tk me U (g, weight, w) (g, weight, w')"

inductive gauge_reachable ::
  "fixed_point \<Rightarrow> 'w tokens \<Rightarrow> address \<Rightarrow> address set \<Rightarrow> 'w gauge_state \<Rightarrow> bool"
  for fp tk me U where
  deployed: "0 \<le> tk_balance tk token me w \<Longrightarrow>
    gauge_reachable fp tk me U (gauge_constructor pool token, weight, w)"
| stepped: "gauge_reachable fp tk me U s \<Longrightarrow> gauge_step fp tk me U s s' \<Longrightarrow>
    gauge_reachable fp tk me U s'"

inductive_cases gauge_stepE: "gauge_step fp tk me U (g, weight, w) s'"

definition backed :: "'w tokens \<Rightarrow> address \<Rightarrow> gauge \<Rightarrow> 'w \<Rightarrow> bool" where
  "backed tk me g w \<longleftrightarrow> int (payable g + left_of g) \<le> tk_balance tk (g_reward_token g) me w"

definition gauge_state_ok ::
  "'w tokens \<Rightarrow> address \<Rightarrow> address set \<Rightarrow> 'w gauge_state \<Rightarrow> bool" where
  "gauge_state_ok tk me U s = (let (g, weight, w) = s in gauge_inv U weight g \<and> backed tk me g w)"

text \<open>The two libraries the gauge runs on.\<close>

locale gauge_host =
  fixes fp :: fixed_point and tk :: "'w tokens"
  assumes lib: "fixed_point_lib fp" and ledger: "token_ledger tk"
begin

lemma accrued_backed:
  assumes "gauge_inv U weight g" and "accrued now W G X g g'" and "finite U"
    and "(\<Sum>u \<in> U. weight u) \<le> W" and "gd_epoch (g_global g) \<le> now"
  shows "payable g' + left_of g' = payable g + left_of g"
  using gauge_inv_accrued(2) [OF assms] assms(2) by (simp add: accrued_def)

lemma settle_ok:
  assumes cg: "checkpoint_global fp now W g = Inr (d, g1)" and cu: "checkpoint_gauge_user d u (weight u) g1 = Inr (ud, g')"
    and ok: "gauge_inv U weight g" "finite U" "u \<in> U" "(\<Sum>u \<in> U. weight u) \<le> W" "gd_epoch (g_global g) \<le> now"
  shows "gauge_inv U (weight(u := n)) g'" and "gauge_inv U weight g'" and "gauge_user g' u = ud"
    and "payable g' + left_of g' = payable g + left_of g"
    and "g_reward_token g' = g_reward_token g" and "g_global g' = d"
    and "gu_last_inv ud = gd_inv d"
proof -
  have configs: "\<forall>c \<in> set (g_configs g). config_ok (gd_epoch (g_global g)) c"
    using ok(1) by (simp add: gauge_inv_def)
  note g = checkpoint_global_InrD [OF cg lib configs ok(5)]
  then obtain G X where acc: "accrued now W G X g g1" by blast
  note inv1 = gauge_inv_accrued(1) [OF ok(1) acc ok(2,4,5)]
  note u = checkpoint_gauge_user_InrD [OF cu [unfolded g(1)] inv1 ok(3,2)]
  show "gauge_inv U (weight(u := n)) g'" "gauge_inv U weight g'" "gauge_user g' u = ud" by (rule u)+
  show "payable g' + left_of g' = payable g + left_of g"
    using accrued_backed [OF ok(1) acc ok(2,4,5)] u(5,6) by (simp add: payable_def)
  show "g_reward_token g' = g_reward_token g" using u(7) acc by (simp add: accrued_def)
  show "g_global g' = d" "gu_last_inv ud = gd_inv d" using u g(1) by simp_all
qed

lemma schedule_ok:
  assumes run: "gauge_schedule_rewards_config e fp tk p d start duration rate W (g, w) = Inr (g', w')"
    and call: "called_at me e g" "d \<noteq> me" "(\<Sum>u \<in> U. weight u) \<le> W" "finite U"
    and ok: "gauge_inv U weight g" "backed tk me g w"
  shows "gauge_inv U weight g'" and "backed tk me g' w'"
proof -
  let ?now = "ledger_timestamp e" let ?new = "rate * duration"
  define begins where "begins = (case start of Some t \<Rightarrow> t | None \<Rightarrow> ?now)"
  define c where "c = \<lparr>gc_start_at = begins, gc_tps = rate, gc_expired_at = begins + duration\<rparr>"
  from run call(1) obtain gd g1 where
    tr: "tk_transfer tk (g_reward_token g) d me (as_i128 ?new) w = Inr w'"
    and cg: "checkpoint_global fp ?now W g = Inr (gd, g1)" and new: "?new \<le> U128_MAX"
    and starts: "?now \<le> begins" and lasts: "0 < duration"
    and g': "g' = g1\<lparr>g_configs := g_configs g1 @ [c]\<rparr>"
    unfolding gauge_schedule_rewards_config_def called_at_def
    by (auto simp: Let_def res_simps c_def simp flip: begins_def)
  have c: "gc_expired_at c = gc_start_at c + duration" "gc_tps c = rate" "?now \<le> gc_start_at c" "0 < duration"
    using starts lasts by (simp_all add: c_def)
  have configs: "\<forall>c \<in> set (g_configs g). config_ok (gd_epoch (g_global g)) c"
    and time: "gd_epoch (g_global g) \<le> ?now"
    using ok(1) call(1) by (simp_all add: gauge_inv_def called_at_def)
  from checkpoint_global_InrD(2) [OF cg lib configs time] obtain G X where acc: "accrued ?now W G X g g1" by blast
  have epoch: "gd_epoch (g_global g1) = ?now" and token: "g_reward_token g1 = g_reward_token g"
    using acc by (simp_all add: accrued_def)
  have "config_ok ?now c" and left: "config_left ?now c = ?new"
    using c by (simp_all add: config_ok_def config_left_def max_def mult.commute)
  then show "gauge_inv U weight g'"
    using gauge_inv_accrued(1) [OF ok(1) acc call(4,3) time] epoch
    by (simp add: gauge_inv_def g' user_settled_def owed_scaled_def gauge_user_def payable_def)
  note moves = token_ledger.transfer_moves [OF ledger tr call(2)]
  have "as_i128 ?new = int ?new" using moves new as_i128_nonneg_iff [OF new] by (simp add: as_i128_small)
  moreover have "left_of g' = left_of g1 + ?new" using left epoch by (simp add: left_of_def g')
  moreover have "payable g' = payable g1" by (simp add: payable_def g')
  ultimately show "backed tk me g' w'"
    using ok(2) moves accrued_backed [OF ok(1) acc call(4,3) time] token
    by (simp add: backed_def g')
qed

lemma claim_ok:
  assumes run: "gauge_claim e fp tk p u (weight u) W (g, w) = Inr (amount, g', w')"
    and call: "called_at me e g" "u \<in> U" "u \<noteq> me" "(\<Sum>u \<in> U. weight u) \<le> W" "finite U"
    and ok: "gauge_inv U weight g" "backed tk me g w"
  shows "gauge_inv U (weight(u := n)) g'" and "backed tk me g' w'"
    and "\<exists>g1. gauge_get_user_reward e fp p u (weight u) W g = Inr (amount, g1)"
    and "owed_scaled weight g' u = 0"
    and "tk_balance tk (g_reward_token g) u w' = tk_balance tk (g_reward_token g) u w + int amount"
    and "int amount \<le> tk_balance tk (g_reward_token g) me w"
proof -
  let ?now = "ledger_timestamp e"
  have me: "current_contract e = me" and time: "gd_epoch (g_global g) \<le> ?now"
    using call(1) by (simp_all add: called_at_def)
  from run obtain gd g1 ud g2 where
    guard: "only_pool e p g = Inr ()" and
    cg: "checkpoint_global fp ?now W g = Inr (gd, g1)" and
    cu: "checkpoint_gauge_user gd u (weight u) g1 = Inr (ud, g2)" and
    amount: "amount = min (gu_to_claim ud) (sat_sub (gd_accumulated gd) (gd_claimed gd))" and
    fits: "gd_claimed gd + amount \<le> U128_MAX" and
    g': "g' = put_gauge_user u (ud\<lparr>gu_to_claim := 0\<rparr>) (g2\<lparr>g_global := gd\<lparr>gd_claimed := gd_claimed gd + amount\<rparr>\<rparr>)" and
    tr: "tk_transfer tk (g_reward_token g2) me u (as_i128 amount) w = Inr w'"
    by (auto simp: gauge_claim_def Let_def res_simps me)
  note s = settle_ok [OF cg cu ok(1) call(5,2,4) time]
  have inv2: "gauge_inv U weight g2" by (rule s)
  have rest: "payable g2 + left_of g2 = payable g + left_of g" by (rule s)
  have gd: "g_global g2 = gd" and token: "g_reward_token g2 = g_reward_token g"
    and user: "gauge_user g2 u = ud" by (rule s)+
  have le: "owed_scaled weight g2 u \<le> (\<Sum>v \<in> U. owed_scaled weight g2 v)"
    using call(2,5) by (intro member_le_sum) auto
  also have "\<dots> \<le> GAUGE_PRECISION * payable g2" using inv2 by (simp add: gauge_inv_def)
  finally have "GAUGE_PRECISION * gu_to_claim ud \<le> GAUGE_PRECISION * payable g2"
    unfolding owed_scaled_def user by (rule add_leD1)
  then have "gu_to_claim ud \<le> payable g2" by (simp add: GAUGE_PRECISION_def del: distrib_left_numeral)
  then have full: "amount = gu_to_claim ud" and pay: "amount \<le> payable g2"
    by (simp_all add: amount payable_def gd sat_sub_def)
  have owed: "owed_scaled (weight(u := n)) g' v =
      (if v = u then 0 else owed_scaled weight g2 v)" for v
    using s(7) by (simp add: owed_scaled_def g' gd gauge_user_def put_gauge_user_def)
  have owed_u: "owed_scaled weight g2 u = GAUGE_PRECISION * amount"
    using s(7) by (simp add: owed_scaled_def user gd full)
  have "(\<Sum>v \<in> U. owed_scaled (weight(u := n)) g' v) + GAUGE_PRECISION * amount =
      (\<Sum>v \<in> U. owed_scaled weight g2 v)"
    using call(2,5) by (simp add: owed sum.remove [of U u] owed_u)
  moreover have "payable g' + amount = payable g2"
    using pay by (simp add: payable_def g' gd)
  moreover have "(\<Sum>v \<in> U. owed_scaled weight g2 v) \<le> GAUGE_PRECISION * payable g2"
    using inv2 by (simp add: gauge_inv_def)
  ultimately have total: "(\<Sum>v \<in> U. owed_scaled (weight(u := n)) g' v) \<le> GAUGE_PRECISION * payable g'"
    by (metis add_le_cancel_right add_mult_distrib2)
  have settled: "\<forall>v \<in> U. user_settled g' v"
    using inv2 user by (auto simp: gauge_inv_def user_settled_def g' gd gauge_user_def put_gauge_user_def)
  have claimed: "gd_claimed (g_global g') \<le> gd_accumulated (g_global g')"
    using pay inv2 unfolding g' payable_def gauge_inv_def gd by simp linarith
  show "gauge_inv U (weight(u := n)) g'"
    using total settled claimed inv2 by (simp add: gauge_inv_def g' gd)
  have "me \<noteq> u" using call(3) by simp
  note moves = token_ledger.transfer_moves [OF ledger tr this]
  have i: "as_i128 amount = int amount"
    using moves fits as_i128_nonneg_iff [of amount] by (simp add: as_i128_small)
  have "left_of g' = left_of g2" by (simp add: left_of_def g' gd)
  then show "backed tk me g' w'"
    using moves i token rest \<open>payable g' + amount = payable g2\<close> ok(2) by (simp add: backed_def g')
  show "\<exists>g1. gauge_get_user_reward e fp p u (weight u) W g = Inr (amount, g1)"
    using guard cg cu full by (simp add: gauge_get_user_reward_def)
  show "owed_scaled weight g' u = 0"
    using s(7) by (simp add: owed_scaled_def g' gd gauge_user_def put_gauge_user_def)
  show "tk_balance tk (g_reward_token g) u w' = tk_balance tk (g_reward_token g) u w + int amount"
    "int amount \<le> tk_balance tk (g_reward_token g) me w"
    using moves i token by simp_all
qed

lemma step_ok:
  assumes "gauge_step fp tk me U s s'" and "gauge_state_ok tk me U s" and "finite U"
  shows "gauge_state_ok tk me U s'"
  using assms
proof (induction rule: gauge_step.induct)
  case (schedule e g d weight W p start duration rate w g' w')
  then show ?case using schedule_ok by (simp add: gauge_state_ok_def)
next
  case (checkpoint e g u weight W p g' w new_weight)
  then obtain d g1 ud where "checkpoint_global fp (ledger_timestamp e) W g = Inr (d, g1)"
    and "checkpoint_gauge_user d u (weight u) g1 = Inr (ud, g')"
    by (auto simp: gauge_checkpoint_user_def res_simps)
  from settle_ok [where U = U and weight = weight, OF this] checkpoint show ?case
    by (simp add: gauge_state_ok_def called_at_def backed_def del: of_nat_add)
next
  case (claim e g u weight W p w amount g' w' new_weight)
  then show ?case using claim_ok by (simp add: gauge_state_ok_def)
next
  case (inform e g u weight W p amount g' w)
  then obtain d g1 ud where "checkpoint_global fp (ledger_timestamp e) W g = Inr (d, g1)"
    and "checkpoint_gauge_user d u (weight u) g1 = Inr (ud, g')"
    by (auto simp: gauge_get_user_reward_def res_simps)
  from settle_ok [where U = U and weight = weight, OF this] inform show ?case
    by (simp add: gauge_state_ok_def called_at_def backed_def del: of_nat_add)
next
  case (replace_code e p wasm g g' weight w)
  then show ?case
    by (auto simp: gauge_state_ok_def gauge_upgrade_def res_simps gauge_inv_def backed_def payable_def
        left_of_def user_settled_def owed_scaled_def gauge_user_def)
next
  case (other g w w' weight)
  then show ?case by (simp add: gauge_state_ok_def backed_def)
qed

lemma reachable_ok:
  assumes "gauge_reachable fp tk me U s" and "finite U"
  shows "gauge_state_ok tk me U s"
  using assms
proof (induction rule: gauge_reachable.induct)
  case (deployed token w pool weight)
  then show ?case
    by (simp add: gauge_state_ok_def gauge_inv_def gauge_constructor_def empty_global_def user_settled_def
        gauge_user_def empty_user_def owed_scaled_def backed_def payable_def left_of_def)
next
  case (stepped s s')
  then show ?case using step_ok by blast
qed

end

interpretation share_host: gauge_host exact_fixed_point "token_world e" for e
  by unfold_locales

section \<open>Properties\<close>

text \<open>
  Claim C14: the gauge is always covered. In every reachable state what its users can still
  claim, the settled rewards and the whole units of the index they have not settled, is at most
  the accumulated reward not claimed yet; and the gauge's token balance pays that reward and,
  besides it, everything its running and future schedules will accrue.
\<close>

theorem gauge_always_covered:
  assumes "fixed_point_lib fp" and "token_ledger tk" and "gauge_reachable fp tk me U (g, weight, w)"
    and "finite U"
  shows "(\<Sum>u \<in> U. owed_scaled weight g u div GAUGE_PRECISION) \<le> payable g \<and>
    int (payable g + left_of g) \<le> tk_balance tk (g_reward_token g) me w"
proof
  have ok: "gauge_state_ok tk me U (g, weight, w)"
    using gauge_host.reachable_ok [OF gauge_host.intro] assms by blast
  then show "int (payable g + left_of g) \<le> tk_balance tk (g_reward_token g) me w"
    by (simp add: gauge_state_ok_def backed_def)
  let ?P = GAUGE_PRECISION
  have "?P * (\<Sum>u \<in> U. owed_scaled weight g u div ?P) \<le> (\<Sum>u \<in> U. owed_scaled weight g u)"
    unfolding sum_distrib_left by (intro sum_mono) (rule times_div_less_eq_dividend)
  also have "\<dots> \<le> ?P * payable g" using ok by (simp add: gauge_state_ok_def gauge_inv_def)
  finally show "(\<Sum>u \<in> U. owed_scaled weight g u div ?P) \<le> payable g"
    by (simp add: GAUGE_PRECISION_def)
qed

definition gauge_env :: "nat \<Rightarrow> env" where
  "gauge_env now = anyone\<lparr>ledger_timestamp := now, current_contract := 9\<rparr>"

definition gauge_tokens :: "address \<Rightarrow> token_state" where
  "gauge_tokens = (\<lambda>_. empty_token)(3 := empty_token\<lparr>tok_ac := token_admin, tok_balance := [7 \<mapsto> 1000]\<rparr>)"

definition sample_weights :: "address \<Rightarrow> nat" where
  "sample_weights = (\<lambda>_. 0)(5 := 300, 6 := 100)"

definition funded_gauge :: gauge where
  \<comment> \<open>at time 1000, account 7 schedules 10 units a second for 100 seconds\<close>
  "funded_gauge = (gauge_constructor 2 3)\<lparr>g_global := empty_global\<lparr>gd_epoch := 1000\<rparr>,
     g_configs := [\<lparr>gc_start_at = 1000, gc_tps = 10, gc_expired_at = 1100\<rparr>]\<rparr>"

definition funded_tokens :: "address \<Rightarrow> token_state" where
  "funded_tokens = (\<lambda>_. empty_token)(3 := empty_token\<lparr>tok_ac := token_admin, tok_balance := [7 \<mapsto> 0, 9 \<mapsto> 1000]\<rparr>)"

lemmas gauge_run_defs = gauge_env_def anyone_def gauge_tokens_def funded_gauge_def funded_tokens_def
  sample_weights_def gauge_constructor_def empty_global_def checkpoint_global_def accrue_config_def
  checkpoint_gauge_user_def only_pool_def require_def require_auth_def gauge_user_def empty_user_def
  put_gauge_user_def token_world_def transfer_def move_with_checkpoints_def
  checkpoint_user_rewards_def checkpoint_user_working_balance_def get_role_def get_role_safe_def
  silent_pool_def receive_balance_def spend_balance_def check_nonnegative_amount_def read_balance_def
  write_balance_def empty_token_def i128_add_def i128_sub_def i128_fits_def as_i128_def I128_MAX_def
  token_admin_def empty_access_control_def u_defs max_defs MAX_REWARD_CONFIGS_def GAUGE_PRECISION_def
  mul_floor_def exact_fixed_point_def sat_sub_def Let_def

lemma scheduling_run:
  "gauge_schedule_rewards_config (gauge_env 1000) exact_fixed_point (token_world anyone) 2 7 None 100 10 400
     (gauge_constructor 2 3, gauge_tokens) = Inr (funded_gauge, funded_tokens)"
  by (auto simp: gauge_schedule_rewards_config_def gauge_run_defs fun_eq_iff)

lemma funded_reachable:
  "gauge_reachable exact_fixed_point (token_world anyone) 9 {5, 6} (funded_gauge, sample_weights, funded_tokens)"
proof (rule gauge_reachable.stepped)
  show "gauge_reachable exact_fixed_point (token_world anyone) 9 {5, 6}
    (gauge_constructor 2 3, sample_weights, gauge_tokens)"
    by (rule gauge_reachable.deployed) (simp add: gauge_run_defs)
  show "gauge_step exact_fixed_point (token_world anyone) 9 {5, 6}
    (gauge_constructor 2 3, sample_weights, gauge_tokens) (funded_gauge, sample_weights, funded_tokens)"
    by (rule gauge_step.schedule [OF _ _ _ scheduling_run])
      (simp_all add: called_at_def gauge_env_def gauge_constructor_def empty_global_def sample_weights_def)
qed

theorem gauge_always_covered_witness:
  "\<exists>g :: gauge. g_configs g \<noteq> [] \<and> (\<Sum>u \<in> {5, 6}. owed_scaled sample_weights g u div GAUGE_PRECISION) \<le> payable g \<and>
    int (payable g + left_of g) \<le> tk_balance (token_world anyone) (g_reward_token g) 9 funded_tokens"
  using gauge_always_covered [OF exact_lib token_world_ledger funded_reachable]
  by (intro exI [of _ funded_gauge] conjI) (simp_all add: funded_gauge_def)

text \<open>
  A claim pays in full. In a reachable state a successful claim transfers exactly
  the reward that the gauge would have reported for the user at that moment (its cap on the
  amount never binds), the gauge held that much, and nothing stays owed to the user.
\<close>

theorem gauge_claim_pays_in_full:
  assumes "fixed_point_lib fp" and "token_ledger tk" and "gauge_reachable fp tk me U (g, weight, w)"
    and "finite U" and "called_at me e g" and "u \<in> U" and "u \<noteq> me" and "(\<Sum>u \<in> U. weight u) \<le> W"
    and "gauge_claim e fp tk p u (weight u) W (g, w) = Inr (amount, g', w')"
  shows "(\<exists>g1. gauge_get_user_reward e fp p u (weight u) W g = Inr (amount, g1)) \<and>
    tk_balance tk (g_reward_token g) u w' = tk_balance tk (g_reward_token g) u w + int amount \<and>
    int amount \<le> tk_balance tk (g_reward_token g) me w \<and> owed_scaled weight g' u = 0"
proof -
  have host: "gauge_host fp tk" using assms(1,2) by (rule gauge_host.intro)
  have ok: "gauge_inv U weight g" "backed tk me g w"
    using gauge_host.reachable_ok [OF host assms(3,4)] by (simp_all add: gauge_state_ok_def)
  note c = gauge_host.claim_ok [OF host assms(9,5,6,7,8,4) ok]
  with c show ?thesis by blast
qed

definition running_global :: global_reward_data where
  "running_global = \<lparr>gd_epoch = 1050, gd_inv = 12500000000000000000000, gd_accumulated = 500, gd_claimed = 0\<rparr>"

lemma running_checkpoint:
  "checkpoint_global exact_fixed_point 1050 400 funded_gauge =
     Inr (running_global, funded_gauge\<lparr>g_global := running_global\<rparr>)"
  by (simp add: gauge_run_defs running_global_def)

lemma running_user:
  "checkpoint_gauge_user running_global 5 300 (funded_gauge\<lparr>g_global := running_global\<rparr>) =
     Inr (\<lparr>gu_epoch = 1050, gu_last_inv = 12500000000000000000000, gu_to_claim = 375\<rparr>,
       put_gauge_user 5 \<lparr>gu_epoch = 1050, gu_last_inv = 12500000000000000000000, gu_to_claim = 375\<rparr>
         (funded_gauge\<lparr>g_global := running_global\<rparr>))"
  by (simp add: gauge_run_defs running_global_def)

lemma running_transfer:
  "\<exists>W'. tk_transfer (token_world anyone) 3 9 5 375 funded_tokens = Inr W'"
  by (simp add: gauge_run_defs)

lemma running_claim:
  "\<exists>g' W'. gauge_claim (gauge_env 1050) exact_fixed_point (token_world anyone) 2 5
     (sample_weights 5) 400 (funded_gauge, funded_tokens) = Inr (375, g', W')"
proof -
  have guard: "only_pool (gauge_env 1050) 2 funded_gauge = Inr ()"
    and token: "g_reward_token funded_gauge = 3" "current_contract (gauge_env 1050) = 9"
      "ledger_timestamp (gauge_env 1050) = 1050" "sample_weights 5 = 300"
    by (simp_all add: gauge_run_defs)
  from running_transfer obtain W' where
    moved: "tk_transfer (token_world anyone) 3 9 5 375 funded_tokens = Inr W'" by blast
  show ?thesis
    by (simp add: gauge_claim_def guard token running_checkpoint running_user)
      (simp add: running_global_def sat_sub_def U128_MAX_def u_add_def as_i128_def I128_MAX_def token moved)
qed

theorem gauge_claim_pays_in_full_witness:
  "\<exists>g' W'. gauge_claim (gauge_env 1050) exact_fixed_point (token_world anyone) 2 5 300 400
      (funded_gauge, funded_tokens) = Inr (375, g', W') \<and> owed_scaled sample_weights g' 5 = 0"
proof -
  have w5: "sample_weights 5 = 300" by (simp add: sample_weights_def)
  obtain g' W' where run: "gauge_claim (gauge_env 1050) exact_fixed_point (token_world anyone) 2 5
      (sample_weights 5) 400 (funded_gauge, funded_tokens) = Inr (375, g', W')" using running_claim by blast
  have "called_at 9 (gauge_env 1050) funded_gauge" and "(\<Sum>u \<in> {5, 6}. sample_weights u) \<le> 400"
    by (simp_all add: called_at_def gauge_env_def funded_gauge_def empty_global_def sample_weights_def)
  from gauge_claim_pays_in_full [OF exact_lib token_world_ledger funded_reachable _ this(1) _ _ this(2) run]
  show ?thesis using run by (simp add: w5)
qed

end
