(* ===== verification/Host_Values.thy ===== *)
theory Host_Values
  imports Prelude
begin

text \<open>
  Values of the host, as far as contracts look into them: the dynamic values that generic contracts
  pass on (\<^verbatim>\<open>Val\<close>), the host's maps, which are sorted by key, and
  vectors, with the counted loops over them.
\<close>

section \<open>Dynamic values\<close>

datatype val =
    V_Bool bool
  | V_Void
  | V_U32 nat
  | V_I32 int
  | V_U64 nat
  | V_I64 int
  | V_U128 nat
  | V_I128 int
  | V_U256 nat
  | V_I256 int
  | V_Bytes "nat list"
  | V_String string
  | V_Symbol symbol
  | V_Vec "val list"
  | V_Map "(val \<times> val) list"
  | V_Address address
  | V_Error nat
  | V_Timepoint nat
  | V_Duration nat

section \<open>Vectors\<close>

fun first_index_of :: "'a \<Rightarrow> 'a list \<Rightarrow> nat option" where
  \<comment> \<open>\<^verbatim>\<open>Vec::first_index_of\<close>\<close>
  "first_index_of a [] = None"
| "first_index_of a (b # bs) = (if a = b then Some 0 else map_option Suc (first_index_of a bs))"

section \<open>Sorted maps\<close>

fun map_set :: "'k::linorder \<Rightarrow> 'v \<Rightarrow> ('k \<times> 'v) list \<Rightarrow> ('k \<times> 'v) list" where
  \<comment> \<open>\<^verbatim>\<open>Map::set\<close>\<close>
  "map_set k v [] = [(k, v)]"
| "map_set k v ((k', v') # m) =
    (if k < k' then (k, v) # (k', v') # m
     else if k = k' then (k, v) # m
     else (k', v') # map_set k v m)"

definition map_remove :: "'k \<Rightarrow> ('k \<times> 'v) list \<Rightarrow> ('k \<times> 'v) list" where
  \<comment> \<open>\<^verbatim>\<open>Map::remove\<close>\<close>
  "map_remove k m = filter (\<lambda>p. fst p \<noteq> k) m"

abbreviation map_sorted :: "('k::linorder \<times> 'v) list \<Rightarrow> bool" where
  "map_sorted m \<equiv> sorted_wrt (<) (map fst m)"

lemma map_set_keys: "fst ` set (map_set k v m) = insert k (fst ` set m)"
  by (induction k v m rule: map_set.induct) auto

lemma map_set_get [simp]: "map_sorted m \<Longrightarrow> map_of (map_set k v m) = (map_of m)(k \<mapsto> v)"
proof (induction k v m rule: map_set.induct)
  case (2 k v k' v' m)
  then show ?case by (auto simp: fun_eq_iff)
qed simp

lemma map_set_sorted [simp]: "map_sorted m \<Longrightarrow> map_sorted (map_set k v m)"
proof (induction k v m rule: map_set.induct)
  case (2 k v k' v' m)
  have "\<forall>y \<in> fst ` set (map_set k v m). k' < y" if "\<not> k < k'" "k \<noteq> k'"
    unfolding map_set_keys using that 2 by auto
  then show ?case using 2 by auto
qed simp

lemma map_remove_sorted [simp]: "map_sorted m \<Longrightarrow> map_sorted (map_remove k m)"
  unfolding map_remove_def by (induction m) auto

lemma map_remove_get [simp]: "map_of (map_remove k m) = (map_of m)(k := None)"
  unfolding map_remove_def by (induction m) (auto simp: fun_eq_iff)

lemma map_sorted_distinct: "map_sorted m \<Longrightarrow> distinct (map fst m)"
  by (simp add: strict_sorted_iff)

text \<open>Sums over the values of a map.\<close>

lemma map_sum_set:
  fixes f :: "'k::linorder \<times> 'v \<Rightarrow> nat"
  assumes "map_sorted m"
  shows "sum_list (map f (map_set k v m)) + (case map_of m k of None \<Rightarrow> 0 | Some v' \<Rightarrow> f (k, v')) =
    f (k, v) + sum_list (map f m)"
  using assms
proof (induction k v m rule: map_set.induct)
  case (2 k v k' v' m)
  have "map_of m k = None" if "k < k'"
    using 2(2) that by (auto simp: map_of_eq_None_iff)
  then show ?case using 2 by (auto split: option.splits)
qed simp

chapter \<open>Vectors and counted loops\<close>

text \<open>
  The host's vectors and counted loops over them: \<open>vec.get(i).unwrap()\<close> and \<open>vec.set(i, v)\<close> abort
  out of range, and \<open>for i in 0..n\<close> threads a state through its iterations. \<open>upto_rule\<close> is the
  loop's proof rule, with the number of iterations done as the invariant's argument.
\<close>

definition item :: "'a list \<Rightarrow> nat \<Rightarrow> 'a res" where
  "item xs i = (if i < length xs then Inr (xs ! i) else Inl HostPanic)"

definition put_item :: "nat \<Rightarrow> 'a \<Rightarrow> 'a list \<Rightarrow> 'a list res" where
  "put_item i v xs = (if i < length xs then Inr (xs[i := v]) else Inl HostPanic)"

definition for_upto :: "nat \<Rightarrow> (nat \<Rightarrow> 's \<Rightarrow> 's res) \<Rightarrow> 's \<Rightarrow> 's res" where
  "for_upto n f s = fold_res f [0..<n] s"

lemma item_eq_Inr [res_simps]: "item xs i = Inr v \<longleftrightarrow> i < length xs \<and> v = xs ! i"
  by (auto simp: item_def)

lemma put_item_eq_Inr [res_simps]: "put_item i v xs = Inr ys \<longleftrightarrow> i < length xs \<and> ys = xs[i := v]"
  by (auto simp: put_item_def)

lemma item_ok [u_simps]: "i < length xs \<Longrightarrow> item xs i = Inr (xs ! i)"
  by (simp add: item_def)

lemma put_item_ok [u_simps]: "i < length xs \<Longrightarrow> put_item i v xs = Inr (xs[i := v])"
  by (simp add: put_item_def)

lemma for_upto_0 [simp]: "for_upto 0 f s = Inr s"
  by (simp add: for_upto_def)

lemma for_upto_Suc: "for_upto (Suc n) f s = andthen (for_upto n f s) (f n)"
  by (cases "for_upto n f s"; cases "f n (projr (for_upto n f s))")
    (simp_all add: for_upto_def fold_res_append)

lemma upto_rule:
  assumes "for_upto n f s = Inr t" and "P 0 s"
    and "\<And>i s s'. i < n \<Longrightarrow> P i s \<Longrightarrow> f i s = Inr s' \<Longrightarrow> P (Suc i) s'"
  shows "P n t"
  using assms
proof (induction n arbitrary: t)
  case 0
  then show ?case by simp
next
  case (Suc n)
  from Suc.prems(1) obtain u where u: "for_upto n f s = Inr u" "f n u = Inr t"
    by (auto simp: for_upto_Suc res_simps)
  have "P n u" using Suc.IH [OF u(1) Suc.prems(2)] Suc.prems(3) less_SucI by blast
  then show ?case using Suc.prems(3) [OF _ _ u(2)] by simp
qed

lemma map_res_length: "map_res f xs = Inr ys \<Longrightarrow> length ys = length xs"
  by (induction xs arbitrary: ys) (auto simp: res_simps)

lemma map_res_nth: "map_res f xs = Inr ys \<Longrightarrow> i < length xs \<Longrightarrow> f (xs ! i) = Inr (ys ! i)"
  by (induction xs arbitrary: ys i) (auto simp: res_simps nth_Cons split: nat.splits)

lemma map_res_all: "(\<And>x. x \<in> set xs \<Longrightarrow> f x = Inr (g x)) \<Longrightarrow> map_res f xs = Inr (map g xs)"
  by (induction xs) simp_all

end
