(* ===== verification/Pool_Gauges.thy ===== *)
theory Pool_Gauges
  imports Gauge_Runs Host_Values
begin

text \<open>
  \<^verbatim>\<open>liquidity_pool_reward_gauge/src\<close>: the pool's side of the reward gauges, a map from
  reward token to gauge contract, in the order of its keys as the host keeps it. The gauges are
  separate contracts, reached through \<open>gauge_calls\<close>; the locale \<open>gauge_contracts_for\<close> is
  what a pool relies on when it calls them, and the repository's own gauge is shown to provide it.
\<close>

section \<open>The state and the calls\<close>

record pool_gauges =
  pg_gauges :: "(address \<times> address) list"
  pg_claim_killed :: bool

record 'w gauge_calls =
  gk_reward_token :: "address \<Rightarrow> 'w \<Rightarrow> address res"
  gk_reward_config :: "env \<Rightarrow> address \<Rightarrow> 'w \<Rightarrow> gauge_config res"
  gk_checkpoint_user :: "env \<Rightarrow> address \<Rightarrow> address \<Rightarrow> nat \<Rightarrow> nat \<Rightarrow> 'w \<Rightarrow> 'w res"
  gk_claim :: "env \<Rightarrow> address \<Rightarrow> address \<Rightarrow> nat \<Rightarrow> nat \<Rightarrow> 'w \<Rightarrow> (nat \<times> 'w) res"
  gk_user_reward :: "env \<Rightarrow> address \<Rightarrow> address \<Rightarrow> nat \<Rightarrow> nat \<Rightarrow> 'w \<Rightarrow> (nat \<times> 'w) res"
  gk_schedule :: "env \<Rightarrow> address \<Rightarrow> address \<Rightarrow> nat option \<Rightarrow> nat \<Rightarrow> nat \<Rightarrow> nat \<Rightarrow> 'w \<Rightarrow> 'w res"
  gk_upgrade :: "env \<Rightarrow> address \<Rightarrow> nat \<Rightarrow> 'w \<Rightarrow> 'w res"

definition MAX_GAUGES :: nat where
  "MAX_GAUGES = 4"

definition no_gauges :: pool_gauges where
  "no_gauges = \<lparr>pg_gauges = [], pg_claim_killed = False\<rparr>"

section \<open>Operations\<close>

definition gauges_add :: "'w gauge_calls \<Rightarrow> address \<Rightarrow> pool_gauges \<times> 'w \<Rightarrow> pool_gauges res" where
  "gauges_add gk gauge_address pw =
     (let (p, w) = pw in
      andthen (gk_reward_token gk gauge_address w) (\<lambda>reward_token.
      if map_of (pg_gauges p) reward_token \<noteq> None then Inl (PoolGaugeError PG_GaugeAlreadyExists)
      else
        let configured_gauges = map_set reward_token gauge_address (pg_gauges p) in
        if MAX_GAUGES < length configured_gauges then Inl (PoolGaugeError PG_GaugesOverMax)
        else Inr (p\<lparr>pg_gauges := configured_gauges\<rparr>)))"

definition gauges_remove :: "address \<Rightarrow> pool_gauges \<Rightarrow> pool_gauges res" where
  "gauges_remove reward_token p =
     (if map_of (pg_gauges p) reward_token = None then Inl (PoolGaugeError PG_GaugeNotFound)
      else Inr (p\<lparr>pg_gauges := filter (\<lambda>(k, _). k \<noteq> reward_token) (pg_gauges p)\<rparr>))"

definition gauges_upgrade :: "'w gauge_calls \<Rightarrow> env \<Rightarrow> nat \<Rightarrow> pool_gauges \<Rightarrow> 'w \<Rightarrow> 'w res" where
  "gauges_upgrade gk e new_wasm p w =
     fold_res (\<lambda>(_, gauge). gk_upgrade gk e gauge new_wasm) (pg_gauges p) w"

definition gauges_kill_claim :: "pool_gauges \<Rightarrow> pool_gauges" where
  "gauges_kill_claim p = p\<lparr>pg_claim_killed := True\<rparr>"

definition gauges_unkill_claim :: "pool_gauges \<Rightarrow> pool_gauges" where
  "gauges_unkill_claim p = p\<lparr>pg_claim_killed := False\<rparr>"

definition gauges_checkpoint_user ::
  "'w gauge_calls \<Rightarrow> env \<Rightarrow> address \<Rightarrow> nat \<Rightarrow> nat \<Rightarrow> pool_gauges \<Rightarrow> 'w \<Rightarrow> 'w res" where
  "gauges_checkpoint_user gk e user working_balance working_supply p w =
     fold_res (\<lambda>(_, gauge). gk_checkpoint_user gk e gauge user working_balance working_supply)
       (pg_gauges p) w"

definition claim_one ::
  "'w gauge_calls \<Rightarrow> env \<Rightarrow> address \<Rightarrow> nat \<Rightarrow> nat \<Rightarrow> address \<times> address \<Rightarrow>
   (address \<times> nat) list \<times> 'w \<Rightarrow> ((address \<times> nat) list \<times> 'w) res" where
  "claim_one gk e user working_balance working_supply entry rw =
     andthen (gk_claim gk e (snd entry) user working_balance working_supply (snd rw)) (\<lambda>(claimed_amount, w).
     Inr (map_set (fst entry) claimed_amount (fst rw), w))"

definition gauges_claim ::
  "'w gauge_calls \<Rightarrow> env \<Rightarrow> address \<Rightarrow> nat \<Rightarrow> nat \<Rightarrow> pool_gauges \<Rightarrow> 'w \<Rightarrow> ((address \<times> nat) list \<times> 'w) res" where
  "gauges_claim gk e user working_balance working_supply p w =
     (if pg_claim_killed p then Inl (PoolGaugeError PG_ClaimKilled)
      else fold_res (claim_one gk e user working_balance working_supply) (pg_gauges p) ([], w))"

record gauge_info =
  gi_user_reward :: int
  gi_tps :: int
  gi_expired_at :: int

definition info_one ::
  "'w gauge_calls \<Rightarrow> env \<Rightarrow> address \<Rightarrow> nat \<Rightarrow> nat \<Rightarrow> address \<times> address \<Rightarrow>
   (address \<times> gauge_info) list \<times> 'w \<Rightarrow> ((address \<times> gauge_info) list \<times> 'w) res" where
  "info_one gk e user working_balance working_supply entry rw =
     andthen (gk_reward_config gk e (snd entry) (snd rw)) (\<lambda>reward_config.
     andthen (gk_user_reward gk e (snd entry) user working_balance working_supply (snd rw)) (\<lambda>(user_reward, w).
     Inr (map_set (fst entry)
       \<lparr>gi_user_reward = as_i128 user_reward, gi_tps = as_i128 (gc_tps reward_config),
        gi_expired_at = as_i128 (gc_expired_at reward_config)\<rparr> (fst rw), w)))"

definition gauges_get_rewards_info ::
  "'w gauge_calls \<Rightarrow> env \<Rightarrow> address \<Rightarrow> nat \<Rightarrow> nat \<Rightarrow> pool_gauges \<Rightarrow> 'w \<Rightarrow> ((address \<times> gauge_info) list \<times> 'w) res" where
  "gauges_get_rewards_info gk e user working_balance working_supply p w =
     fold_res (info_one gk e user working_balance working_supply) (pg_gauges p) ([], w)"

definition gauges_schedule_rewards_config ::
  "'w gauge_calls \<Rightarrow> env \<Rightarrow> address \<Rightarrow> address \<Rightarrow> nat option \<Rightarrow> nat \<Rightarrow> nat \<Rightarrow> nat \<Rightarrow> 'w \<Rightarrow> 'w res" where
  "gauges_schedule_rewards_config gk e gauge distributor start_at duration rate working_supply w =
     andthen (gk_schedule gk e gauge distributor start_at duration rate working_supply w) (\<lambda>w.
     andthen (gk_reward_token gk gauge w) (\<lambda>_.
     andthen (u64_add (case start_at of Some t \<Rightarrow> t | None \<Rightarrow> ledger_timestamp e) duration) (\<lambda>_. Inr w)))"

section \<open>What a pool relies on\<close>

text \<open>
  Whatever a gauge does when the pool at \<open>me\<close> calls it, it takes nothing from the pool:
  checkpoints, views and upgrades move no token, claims and schedules move the tokens of others.
\<close>

locale gauge_contracts_for =
  fixes gk :: "'w gauge_calls" and tk :: "'w tokens" and me :: address
  assumes checkpoint_moves_nothing: "gk_checkpoint_user gk e g u b s w = Inr w' \<Longrightarrow> current_contract e = me \<Longrightarrow>
      tk_balance tk t c w' = tk_balance tk t c w"
    and reward_moves_nothing: "gk_user_reward gk e g u b s w = Inr (x, w') \<Longrightarrow> current_contract e = me \<Longrightarrow>
      tk_balance tk t c w' = tk_balance tk t c w"
    and upgrade_moves_nothing: "gk_upgrade gk e g h w = Inr w' \<Longrightarrow> current_contract e = me \<Longrightarrow>
      tk_balance tk t c w' = tk_balance tk t c w"
    and claim_takes_nothing: "gk_claim gk e g u b s w = Inr (x, w') \<Longrightarrow> current_contract e = me \<Longrightarrow>
      tk_balance tk t me w \<le> tk_balance tk t me w'"
    and schedule_takes_nothing: "gk_schedule gk e g d st du r s w = Inr w' \<Longrightarrow> current_contract e = me \<Longrightarrow>
      d \<noteq> me \<Longrightarrow> tk_balance tk t me w \<le> tk_balance tk t me w'"
begin

lemma gauges_checkpoint_keeps:
  assumes "gauges_checkpoint_user gk e u b s p w = Inr w'" and "current_contract e = me"
  shows "tk_balance tk t c w' = tk_balance tk t c w"
  using assms(1) unfolding gauges_checkpoint_user_def
  by (rule fold_res_invariant) (auto simp: checkpoint_moves_nothing [OF _ assms(2)])

lemma gauges_upgrade_keeps:
  assumes "gauges_upgrade gk e h p w = Inr w'" and "current_contract e = me"
  shows "tk_balance tk t c w' = tk_balance tk t c w"
  using assms(1) unfolding gauges_upgrade_def
  by (rule fold_res_invariant) (auto simp: upgrade_moves_nothing [OF _ assms(2)])

lemma gauges_claim_keeps:
  assumes "gauges_claim gk e u b s p w = Inr (r, w')" and "current_contract e = me"
  shows "tk_balance tk t me w \<le> tk_balance tk t me w'"
proof -
  have "fold_res (claim_one gk e u b s) (pg_gauges p) ([], w) = Inr (r, w')"
    using assms(1) by (simp add: gauges_claim_def split: if_splits)
  then have "tk_balance tk t me w \<le> tk_balance tk t me (snd (r, w'))"
    by (rule fold_res_invariant)
      (auto simp: claim_one_def res_simps intro: order_trans dest: claim_takes_nothing [OF _ assms(2), where t = t])
  then show ?thesis by simp
qed

lemma gauges_info_keeps:
  assumes "gauges_get_rewards_info gk e u b s p w = Inr (r, w')" and "current_contract e = me"
  shows "tk_balance tk t c w' = tk_balance tk t c w"
proof -
  have "tk_balance tk t c (snd (r, w')) = tk_balance tk t c w"
    using assms(1) unfolding gauges_get_rewards_info_def
    by (rule fold_res_invariant)
      (auto simp: info_one_def res_simps simp: reward_moves_nothing [OF _ assms(2)])
  then show ?thesis by simp
qed

lemma gauges_schedule_keeps:
  assumes "gauges_schedule_rewards_config gk e g d st du r s w = Inr w'" and "current_contract e = me"
    and "d \<noteq> me"
  shows "tk_balance tk t me w \<le> tk_balance tk t me w'"
  using assms(1) schedule_takes_nothing [OF _ assms(2,3)]
  by (auto simp: gauges_schedule_rewards_config_def res_simps)

end

section \<open>The repository's gauges\<close>

text \<open>
  A world with gauges at some addresses and tokens at others. A call runs the gauge's entry point
  with the pool as invoker; the host refuses a call back into the running pool.
\<close>

type_synonym gauge_world = "(address \<Rightarrow> gauge option) \<times> (address \<Rightarrow> token_state)"

definition gauge_world_tokens :: "env \<Rightarrow> gauge_world tokens" where
  "gauge_world_tokens te = \<lparr>
     tk_transfer = (\<lambda>t a b x (G, W). andthen (tk_transfer (token_world te) t a b x W) (\<lambda>W. Inr (G, W))),
     tk_balance = (\<lambda>t a (G, W). tk_balance (token_world te) t a W)\<rparr>"

definition invoke_gauge :: "env \<Rightarrow> address \<Rightarrow> (env \<Rightarrow> gauge \<Rightarrow> 'a res) \<Rightarrow> gauge_world \<Rightarrow> 'a res" where
  "invoke_gauge e a f w =
     (if a = current_contract e then Inl HostPanic
      else andthen (from_option HostPanic (fst w a))
        (f (e\<lparr>current_contract := a, authorized := (\<lambda>x. x = current_contract e \<or> authorized e x)\<rparr>)))"

definition gauge_contracts :: "fixed_point \<Rightarrow> env \<Rightarrow> gauge_world gauge_calls" where
  "gauge_contracts fp te = \<lparr>
     gk_reward_token = (\<lambda>a w. andthen (from_option HostPanic (fst w a)) (\<lambda>g. Inr (g_reward_token g))),
     gk_reward_config = (\<lambda>e a w. invoke_gauge e a gauge_get_reward_config w),
     gk_checkpoint_user = (\<lambda>e a u b s w.
       andthen (invoke_gauge e a (\<lambda>e' g. gauge_checkpoint_user e' fp (current_contract e) u b s g) w) (\<lambda>g.
       Inr ((fst w)(a \<mapsto> g), snd w))),
     gk_claim = (\<lambda>e a u b s w.
       andthen (invoke_gauge e a (\<lambda>e' g.
         gauge_claim e' fp (token_world te) (current_contract e) u b s (g, snd w)) w) (\<lambda>(x, g, W).
       Inr (x, (fst w)(a \<mapsto> g), W))),
     gk_user_reward = (\<lambda>e a u b s w.
       andthen (invoke_gauge e a (\<lambda>e' g. gauge_get_user_reward e' fp (current_contract e) u b s g) w) (\<lambda>(x, g).
       Inr (x, (fst w)(a \<mapsto> g), snd w))),
     gk_schedule = (\<lambda>e a d st du r s w.
       andthen (invoke_gauge e a (\<lambda>e' g.
         gauge_schedule_rewards_config e' fp (token_world te) (current_contract e) d st du r s (g, snd w)) w)
       (\<lambda>(g, W). Inr ((fst w)(a \<mapsto> g), W))),
     gk_upgrade = (\<lambda>e a h w.
       andthen (invoke_gauge e a (\<lambda>e' g. gauge_upgrade e' (current_contract e) h g) w) (\<lambda>g.
       Inr ((fst w)(a \<mapsto> g), snd w)))\<rparr>"

lemma checkpoint_global_token:
  "checkpoint_global fp now s g = Inr (d, g') \<Longrightarrow> g_reward_token g' = g_reward_token g"
  by (auto simp: checkpoint_global_def res_simps)

lemma checkpoint_gauge_user_token:
  "checkpoint_gauge_user d u b g = Inr (ud, g') \<Longrightarrow> g_reward_token g' = g_reward_token g"
  by (auto simp: checkpoint_gauge_user_def Let_def res_simps split: if_splits)

lemma claim_transfers:
  assumes "gauge_claim e fp tk p u b s (g, w) = Inr (x, g', w')"
  shows "\<exists>y. tk_transfer tk (g_reward_token g) (current_contract e) u y w = Inr w'"
proof -
  from assms obtain d g1 ud g2 amount where
    "checkpoint_global fp (ledger_timestamp e) s g = Inr (d, g1)"
    and "checkpoint_gauge_user d u b g1 = Inr (ud, g2)"
    and tr: "tk_transfer tk (g_reward_token g2) (current_contract e) u (as_i128 amount) w = Inr w'"
    by (auto simp: gauge_claim_def Let_def res_simps)
  then have "g_reward_token g2 = g_reward_token g"
    using checkpoint_global_token checkpoint_gauge_user_token by metis
  with tr show ?thesis by auto
qed

lemma schedule_transfers:
  assumes "gauge_schedule_rewards_config e fp tk p d st du r s (g, w) = Inr (g', w')"
  shows "\<exists>y. tk_transfer tk (g_reward_token g) d (current_contract e) y w = Inr w'"
  using assms by (auto simp: gauge_schedule_rewards_config_def Let_def res_simps split: if_splits)

interpretation pool_gauge_world: gauge_contracts_for "gauge_contracts fp te" "gauge_world_tokens te" me
  for fp te me
proof unfold_locales
  fix e g u b s w w' t c h x d st du r
  show "tk_balance (gauge_world_tokens te) t c w' = tk_balance (gauge_world_tokens te) t c w"
    if "gk_checkpoint_user (gauge_contracts fp te) e g u b s w = Inr w'"
    using that by (auto simp: gauge_contracts_def gauge_world_tokens_def res_simps split: prod.splits)
  show "tk_balance (gauge_world_tokens te) t c w' = tk_balance (gauge_world_tokens te) t c w"
    if "gk_user_reward (gauge_contracts fp te) e g u b s w = Inr (x, w')"
    using that by (auto simp: gauge_contracts_def gauge_world_tokens_def res_simps split: prod.splits)
  show "tk_balance (gauge_world_tokens te) t c w' = tk_balance (gauge_world_tokens te) t c w"
    if "gk_upgrade (gauge_contracts fp te) e g h w = Inr w'"
    using that by (auto simp: gauge_contracts_def gauge_world_tokens_def res_simps split: prod.splits)
  show "tk_balance (gauge_world_tokens te) t me w \<le> tk_balance (gauge_world_tokens te) t me w'"
    if run: "gk_claim (gauge_contracts fp te) e g u b s w = Inr (x, w')" and "current_contract e = me"
  proof -
    from run that(2) obtain y tok where "g \<noteq> me"
      and "tk_transfer (token_world te) tok g u y (snd w) = Inr (snd w')"
      by (auto simp: gauge_contracts_def invoke_gauge_def res_simps dest!: claim_transfers split: if_splits)
    then show ?thesis
      using share_tokens.transfer_keeps_third by (auto simp: gauge_world_tokens_def split: prod.splits)
  qed
  show "tk_balance (gauge_world_tokens te) t me w \<le> tk_balance (gauge_world_tokens te) t me w'"
    if run: "gk_schedule (gauge_contracts fp te) e g d st du r s w = Inr w'" and "d \<noteq> me"
  proof -
    from run obtain y tok where "tk_transfer (token_world te) tok d g y (snd w) = Inr (snd w')"
      by (auto simp: gauge_contracts_def invoke_gauge_def res_simps dest!: schedule_transfers split: if_splits)
    then show ?thesis
      using share_tokens.transfer_keeps_third that(2) by (auto simp: gauge_world_tokens_def split: prod.splits)
  qed
qed

lemma gauge_world_transfer:
  "tk_transfer (gauge_world_tokens te) t a b x w = Inr w' \<Longrightarrow>
    tk_transfer (token_world te) t a b x (snd w) = Inr (snd w')"
  by (auto simp: gauge_world_tokens_def res_simps split: prod.splits)

lemma gauge_world_balance:
  "tk_balance (gauge_world_tokens te) t a w = tk_balance (token_world te) t a (snd w)"
  by (simp add: gauge_world_tokens_def split: prod.splits)

interpretation gauge_world_ledger: token_ledger "gauge_world_tokens te" for te
  by (rule token_ledger.intro; drule gauge_world_transfer; unfold gauge_world_balance)
    (erule (1) share_tokens.transfer_moves, erule (2) share_tokens.transfer_frame,
      erule share_tokens.transfer_self)

end
