(* ===== verification/Pool_Base.thy ===== *)
theory Pool_Base
  imports Managed Reward_Claims Pool_Gauges
begin

text \<open>
  What every pool has, whatever its curve: the administrative state, the share count, the rewards
  of \<^verbatim>\<open>rewards\<close>, the gauges of \<^verbatim>\<open>liquidity_pool_reward_gauge\<close>, the kill switches and the
  addresses of its plane, router and configuration. The crates of the three kinds of pools repeat
  this part of the code; it is stated here once, over every extension of the record \<open>pool\<close>,
  from \<^verbatim>\<open>liquidity_pool/src\<close>. What a pool calls (tokens, the share token, gauges, the plane, the
  contracts behind the boost) is a parameter over a world \<open>'w\<close>. A handler takes the state and the
  world and returns both, or an error that rolls both back; events are left out.
\<close>

section \<open>State\<close>

record pool =
  pl_managed :: managed
  pl_shares :: share_state
  pl_rewards :: rewards
  pl_gauges :: pool_gauges
  pl_plane :: "address option"
  pl_router :: "address option"
  pl_killed_swap :: bool
  pl_killed_deposit :: bool
  pl_killed_claim :: bool
  pl_token_future_wasm :: "nat option"
  pl_gauge_future_wasm :: "nat option"
  pl_protocol_fee_fraction :: nat
  pl_sync_ledger :: nat
  pl_config_storage :: "address option"

text \<open>The contracts a pool calls; the deployment of the share token includes its initialization.\<close>

record 'w host_calls =
  cc_fp :: fixed_point
  cc_tokens :: "'w tokens"
  cc_shares :: "'w share_calls"
  cc_gauges :: "'w gauge_calls"
  cc_plane_update :: "address \<Rightarrow> address \<Rightarrow> symbol \<Rightarrow> nat list \<Rightarrow> nat list \<Rightarrow> 'w \<Rightarrow> 'w res"
  cc_deploy_share :: "nat \<Rightarrow> address list \<Rightarrow> 'w \<Rightarrow> (address \<times> 'w) res"
  cc_decimals :: "'w \<Rightarrow> address \<Rightarrow> nat"
  cc_share_upgrade :: "address \<Rightarrow> address \<Rightarrow> nat \<Rightarrow> 'w \<Rightarrow> 'w res"
  cc_boost_balance :: "'w \<Rightarrow> address \<Rightarrow> address \<Rightarrow> int option"
  cc_total_locked :: "'w \<Rightarrow> address \<Rightarrow> nat res"

definition pool_reward_context :: "'w host_calls \<Rightarrow> env \<Rightarrow> 'w \<Rightarrow> reward_ctx" where
  "pool_reward_context x e w = \<lparr>rc_env = e, rc_fp = cc_fp x, rc_page_size = PAGE_SIZE,
     rc_boost_balance = cc_boost_balance x w, rc_total_locked = cc_total_locked x w\<rparr>"

definition stored :: "'a option \<Rightarrow> 'a res" where
  \<comment> \<open>the getter of a storage key without a default\<close>
  "stored v = from_option (StorageError ST_ValueNotInitialized) v"

definition has_plane :: "'z pool_scheme \<Rightarrow> bool" where
  "has_plane s \<longleftrightarrow> pl_plane s \<noteq> None"

definition pay :: "'w host_calls \<Rightarrow> env \<Rightarrow> address \<Rightarrow> address \<Rightarrow> nat \<Rightarrow> 'w \<Rightarrow> 'w res" where
  "pay x e token to amount w =
     tk_transfer (cc_tokens x) token (current_contract e) to (as_i128 amount) w"

definition collect :: "'w host_calls \<Rightarrow> env \<Rightarrow> address \<Rightarrow> address \<Rightarrow> nat \<Rightarrow> 'w \<Rightarrow> 'w res" where
  "collect x e token from amount w =
     tk_transfer (cc_tokens x) token from (current_contract e) (as_i128 amount) w"

definition refund :: "'w host_calls \<Rightarrow> env \<Rightarrow> address \<Rightarrow> address \<Rightarrow> nat \<Rightarrow> nat \<Rightarrow> 'w \<Rightarrow> 'w res" where
  "refund x e token user taken used w =
     (if used < taken then andthen (u_sub taken used) (\<lambda>rest. pay x e token user rest w) else Inr w)"

definition sync_one ::
  "'w host_calls \<Rightarrow> env \<Rightarrow> address option \<Rightarrow> 'w \<Rightarrow> address \<times> nat \<times> nat \<Rightarrow> nat res" where
  "sync_one x e reward_token w entry =
     (let (token, reserve, protocol_fee) = entry in
      if Some token = reward_token then Inr reserve
      else
        andthen (u_sub (as_u128 (tk_balance (cc_tokens x) token (current_contract e) w)) protocol_fee)
          (\<lambda>available_balance.
        Inr (if reserve < available_balance then available_balance else reserve)))"

section \<open>Rewards and gauges around an operation\<close>

definition gauge_checkpoint ::
  "'w host_calls \<Rightarrow> env \<Rightarrow> address \<Rightarrow> nat \<Rightarrow> nat \<Rightarrow> 'z pool_scheme \<times> 'w \<Rightarrow> ('z pool_scheme \<times> 'w) res" where
  \<comment> \<open>the gauges see the working balance and supply as they are, with defaults for new users\<close>
  "gauge_checkpoint x e user user_shares total_shares sw =
     (let (s, w) = sw;
          (working_balance, r) = get_working_balance user user_shares (pl_rewards s);
          (working_supply, r) = get_working_supply total_shares r in
      andthen (gauges_checkpoint_user (cc_gauges x) e user working_balance working_supply (pl_gauges s) w) (\<lambda>w.
      Inr (s\<lparr>pl_rewards := r\<rparr>, w)))"

definition rewards_checkpoint ::
  "'w host_calls \<Rightarrow> env \<Rightarrow> address \<Rightarrow> nat \<Rightarrow> nat \<Rightarrow> 'z pool_scheme \<times> 'w \<Rightarrow> (user_reward_data \<times> 'z pool_scheme \<times> 'w) res" where
  "rewards_checkpoint x e user total_shares user_shares sw =
     (let (s, w) = sw in
      andthen (checkpoint_user (pool_reward_context x e w) user total_shares user_shares (pl_rewards s)) (\<lambda>(d, r).
      Inr (d, s\<lparr>pl_rewards := r\<rparr>, w)))"

definition rewards_reweigh ::
  "'w host_calls \<Rightarrow> env \<Rightarrow> address \<Rightarrow> nat \<Rightarrow> nat \<Rightarrow> 'z pool_scheme \<times> 'w \<Rightarrow> ('z pool_scheme \<times> 'w) res" where
  "rewards_reweigh x e user total_shares user_shares sw =
     (let (s, w) = sw in
      andthen (update_working_balance (pool_reward_context x e w) user total_shares user_shares (pl_rewards s)) (\<lambda>(_, r).
      Inr (s\<lparr>pl_rewards := r\<rparr>, w)))"

definition new_manager :: "'z pool_scheme \<Rightarrow> 'z pool_scheme" where
  \<comment> \<open>\<open>rewards.manager()\<close>: a manager starts with an empty page cache\<close>
  "new_manager s = s\<lparr>pl_rewards := new_storage (pl_rewards s)\<rparr>"

definition settle_user ::
  "'w host_calls \<Rightarrow> env \<Rightarrow> address \<Rightarrow> 'z pool_scheme \<times> 'w \<Rightarrow> (nat \<times> nat \<times> 'z pool_scheme \<times> 'w) res" where
  \<comment> \<open>the prologue of deposit and withdraw: settle the user's rewards before the shares change\<close>
  "settle_user x e user sw =
     (let (s, w) = sw; total_shares = get_total_shares (pl_shares s) in
      andthen (get_user_balance_shares (cc_shares x) (pl_shares s) w user) (\<lambda>user_shares.
      andthen (gauge_checkpoint x e user user_shares total_shares (new_manager s, w)) (\<lambda>sw.
      andthen (rewards_checkpoint x e user total_shares user_shares sw) (\<lambda>(_, s, w).
      Inr (total_shares, user_shares, s, w)))))"

definition claim_covered ::
  "'w host_calls \<Rightarrow> env \<Rightarrow> address \<Rightarrow> 'w \<Rightarrow> address \<times> nat \<times> nat \<Rightarrow> unit res" where
  \<comment> \<open>after a claim in a pool token, the balance still covers the reserve and the protocol's fee\<close>
  "claim_covered x e reward_token w entry =
     (let (token, reserve, protocol_fee) = entry in
      if token \<noteq> reward_token then Inr ()
      else
        let balance = as_u128 (tk_balance (cc_tokens x) token (current_contract e) w) in
        andthen (u128_add reserve protocol_fee) (\<lambda>needed.
        if balance < needed then Inl (ValidationError V_InsufficientBalance) else Inr ()))"

end
