(* ===== verification/Pool_Admin.thy ===== *)
theory Pool_Admin
  imports Pool_Base
begin

text \<open>
  The entry points that the pools share: privileged addresses and kill switches, upgrades, the
  transfer of roles, and the rewards and gauge interfaces, from \<^verbatim>\<open>liquidity_pool/src/contract.rs\<close>,
  over every extension of the common state.
\<close>

section \<open>Guards\<close>

definition pool_role :: "env \<Rightarrow> address \<Rightarrow> (access_control \<Rightarrow> address \<Rightarrow> unit res) \<Rightarrow> 'z pool_scheme \<Rightarrow> unit res" where
  \<comment> \<open>\<open>admin.require_auth()\<close> and one of the \<open>require_..._or_owner\<close> guards\<close>
  "pool_role e admin guard s =
     andthen (require_auth e admin) (\<lambda>_. guard (mg_ac (pl_managed s)) admin)"

definition pool_admin :: "env \<Rightarrow> address \<Rightarrow> 'z pool_scheme \<Rightarrow> unit res" where
  "pool_admin e admin s = as_role e admin Admin (mg_ac (pl_managed s))"

definition on_managed :: "(managed \<Rightarrow> managed res) \<Rightarrow> 'z pool_scheme \<Rightarrow> 'z pool_scheme res" where
  "on_managed f s = andthen (f (pl_managed s)) (\<lambda>m. Inr (s\<lparr>pl_managed := m\<rparr>))"

definition or_router ::
  "env \<Rightarrow> address \<Rightarrow> (access_control \<Rightarrow> address \<Rightarrow> unit res) \<Rightarrow> 'z pool_scheme \<Rightarrow> unit res" where
  \<comment> \<open>the router is privileged too\<close>
  "or_router e admin guard s =
     andthen (require_auth e admin) (\<lambda>_.
     andthen (stored (pl_router s)) (\<lambda>router.
     if admin \<noteq> router then guard (mg_ac (pl_managed s)) admin else Inr ()))"

section \<open>Administration\<close>

record privileged =
  pv_emergency_admin :: address
  pv_rewards_admin :: address
  pv_operations_admin :: address
  pv_pause_admin :: address
  pv_emergency_pause_admins :: "address list"
  pv_system_fee_admin :: address

definition set_privileged_roles :: "privileged \<Rightarrow> access_control \<Rightarrow> access_control res" where
  "set_privileged_roles p ac =
     andthen (set_role_address RewardsAdmin (pv_rewards_admin p) ac) (\<lambda>ac.
     andthen (set_role_address OperationsAdmin (pv_operations_admin p) ac) (\<lambda>ac.
     andthen (set_role_address PauseAdmin (pv_pause_admin p) ac) (\<lambda>ac.
     andthen (set_role_addresses EmergencyPauseAdmin (pv_emergency_pause_admins p) ac) (\<lambda>ac.
     set_role_address SystemFeeAdmin (pv_system_fee_admin p) ac))))"

definition pl_set_privileged_addrs :: "env \<Rightarrow> address \<Rightarrow> privileged \<Rightarrow> 'z pool_scheme \<Rightarrow> 'z pool_scheme res" where
  "pl_set_privileged_addrs e admin p s =
     andthen (pool_admin e admin s) (\<lambda>_. on_managed (with_ac (set_privileged_roles p)) s)"

definition pl_get_privileged_addrs :: "'z pool_scheme \<Rightarrow> (symbol \<times> address list) list res" where
  "pl_get_privileged_addrs s =
     (let ac = mg_ac (pl_managed s) in
      andthen (map_res (\<lambda>r. andthen (get_role_safe ac r) (\<lambda>v.
        Inr (as_symbol r, case v of Some a \<Rightarrow> [a] | None \<Rightarrow> [])))
        [Admin, EmergencyAdmin, RewardsAdmin, OperationsAdmin, PauseAdmin, SystemFeeAdmin]) (\<lambda>single.
      andthen (get_role_addresses ac EmergencyPauseAdmin) (\<lambda>many.
      Inr (single @ [(as_symbol EmergencyPauseAdmin, many)]))))"

definition set_config_storage_once :: "address \<Rightarrow> 'z pool_scheme \<Rightarrow> 'z pool_scheme res" where
  "set_config_storage_once config_storage s =
     (if pl_config_storage s \<noteq> None then Inl (StorageError ST_AlreadyInitialized)
      else Inr (s\<lparr>pl_config_storage := Some config_storage\<rparr>))"

definition pl_init_config_storage :: "env \<Rightarrow> address \<Rightarrow> address \<Rightarrow> 'z pool_scheme \<Rightarrow> 'z pool_scheme res" where
  "pl_init_config_storage e admin config_storage s =
     andthen (pool_admin e admin s) (\<lambda>_. set_config_storage_once config_storage s)"

definition pl_kill_deposit :: "env \<Rightarrow> address \<Rightarrow> 'z pool_scheme \<Rightarrow> 'z pool_scheme res" where
  "pl_kill_deposit e admin s =
     andthen (pool_role e admin require_pause_or_emergency_pause_admin_or_owner s) (\<lambda>_.
     Inr (s\<lparr>pl_killed_deposit := True\<rparr>))"

definition pl_kill_swap :: "env \<Rightarrow> address \<Rightarrow> 'z pool_scheme \<Rightarrow> 'z pool_scheme res" where
  "pl_kill_swap e admin s =
     andthen (pool_role e admin require_pause_or_emergency_pause_admin_or_owner s) (\<lambda>_.
     Inr (s\<lparr>pl_killed_swap := True\<rparr>))"

definition pl_kill_claim :: "env \<Rightarrow> address \<Rightarrow> 'z pool_scheme \<Rightarrow> 'z pool_scheme res" where
  "pl_kill_claim e admin s =
     andthen (pool_role e admin require_pause_or_emergency_pause_admin_or_owner s) (\<lambda>_.
     Inr (s\<lparr>pl_killed_claim := True\<rparr>))"

definition pl_unkill_deposit :: "env \<Rightarrow> address \<Rightarrow> 'z pool_scheme \<Rightarrow> 'z pool_scheme res" where
  "pl_unkill_deposit e admin s =
     andthen (pool_role e admin require_pause_admin_or_owner s) (\<lambda>_. Inr (s\<lparr>pl_killed_deposit := False\<rparr>))"

definition pl_unkill_swap :: "env \<Rightarrow> address \<Rightarrow> 'z pool_scheme \<Rightarrow> 'z pool_scheme res" where
  "pl_unkill_swap e admin s =
     andthen (pool_role e admin require_pause_admin_or_owner s) (\<lambda>_. Inr (s\<lparr>pl_killed_swap := False\<rparr>))"

definition pl_unkill_claim :: "env \<Rightarrow> address \<Rightarrow> 'z pool_scheme \<Rightarrow> 'z pool_scheme res" where
  "pl_unkill_claim e admin s =
     andthen (pool_role e admin require_pause_admin_or_owner s) (\<lambda>_. Inr (s\<lparr>pl_killed_claim := False\<rparr>))"

definition pl_set_pools_plane :: "env \<Rightarrow> address \<Rightarrow> address \<Rightarrow> 'z pool_scheme \<Rightarrow> 'z pool_scheme res" where
  "pl_set_pools_plane e admin plane s =
     andthen (pool_admin e admin s) (\<lambda>_. Inr (s\<lparr>pl_plane := Some plane\<rparr>))"

section \<open>Upgrades and transfers of roles\<close>

definition pl_commit_upgrade :: "env \<Rightarrow> address \<Rightarrow> nat \<Rightarrow> nat \<Rightarrow> nat \<Rightarrow> 'z pool_scheme \<Rightarrow> 'z pool_scheme res" where
  "pl_commit_upgrade e admin new_wasm_hash token_new_wasm_hash gauges_new_wasm_hash s =
     andthen (on_managed (entry_commit_upgrade e admin new_wasm_hash) s) (\<lambda>s.
     Inr (s\<lparr>pl_token_future_wasm := Some token_new_wasm_hash,
            pl_gauge_future_wasm := Some gauges_new_wasm_hash\<rparr>))"

definition pl_apply_upgrade ::
  "'w host_calls \<Rightarrow> env \<Rightarrow> address \<Rightarrow> 'z pool_scheme \<times> 'w \<Rightarrow> ((nat \<times> nat) \<times> 'z pool_scheme \<times> 'w) res" where
  "pl_apply_upgrade x e admin sw =
     (let (s, w) = sw in
      andthen (entry_apply_upgrade e admin (pl_managed s)) (\<lambda>(new_wasm_hash, m).
      let s = s\<lparr>pl_managed := m\<rparr> in
      andthen (stored (pl_token_future_wasm s)) (\<lambda>token_new_wasm_hash.
      andthen (get_token_share (pl_shares s)) (\<lambda>share_contract.
      andthen (cc_share_upgrade x share_contract (current_contract e) token_new_wasm_hash w) (\<lambda>w.
      andthen (stored (pl_gauge_future_wasm s)) (\<lambda>gauge_new_wasm_hash.
      andthen (gauges_upgrade (cc_gauges x) e gauge_new_wasm_hash (pl_gauges s) w) (\<lambda>w.
      Inr ((new_wasm_hash, token_new_wasm_hash), s, w))))))))"

definition pl_revert_upgrade :: "env \<Rightarrow> address \<Rightarrow> 'z pool_scheme \<Rightarrow> 'z pool_scheme res" where
  "pl_revert_upgrade e admin = on_managed (entry_revert_upgrade e admin)"

definition pl_set_emergency_mode :: "env \<Rightarrow> address \<Rightarrow> bool \<Rightarrow> 'z pool_scheme \<Rightarrow> 'z pool_scheme res" where
  "pl_set_emergency_mode e emergency_admin v = on_managed (entry_set_emergency_mode e emergency_admin v)"

definition pl_commit_transfer_ownership :: "env \<Rightarrow> address \<Rightarrow> symbol \<Rightarrow> address \<Rightarrow> 'z pool_scheme \<Rightarrow> 'z pool_scheme res" where
  "pl_commit_transfer_ownership e admin role_name new_address =
     on_managed (entry_commit_transfer_ownership e admin role_name new_address)"

definition pl_apply_transfer_ownership :: "env \<Rightarrow> address \<Rightarrow> symbol \<Rightarrow> 'z pool_scheme \<Rightarrow> 'z pool_scheme res" where
  "pl_apply_transfer_ownership e admin role_name = on_managed (entry_apply_transfer_ownership e admin role_name)"

definition pl_revert_transfer_ownership :: "env \<Rightarrow> address \<Rightarrow> symbol \<Rightarrow> 'z pool_scheme \<Rightarrow> 'z pool_scheme res" where
  "pl_revert_transfer_ownership e admin role_name = on_managed (entry_revert_transfer_ownership e admin role_name)"

section \<open>Rewards\<close>

definition pl_initialize_boost_config :: "address \<Rightarrow> address \<Rightarrow> 'z pool_scheme \<Rightarrow> 'z pool_scheme res" where
  "pl_initialize_boost_config reward_boost_token reward_boost_feed s =
     (if rw_boost_token (pl_rewards s) \<noteq> None then Inl (LiquidityPoolError LP_RewardsAlreadyInitialized)
      else Inr (s\<lparr>pl_rewards := put_reward_boost_feed reward_boost_feed
        (put_reward_boost_token reward_boost_token (pl_rewards s))\<rparr>))"

definition with_rewards ::
  "'w host_calls \<Rightarrow> env \<Rightarrow> (reward_ctx \<Rightarrow> nat \<Rightarrow> rewards \<Rightarrow> ('a \<times> rewards) res) \<Rightarrow> 'z pool_scheme \<times> 'w \<Rightarrow>
   ('a \<times> 'z pool_scheme) res" where
  \<comment> \<open>one call of a fresh manager, with the total of the shares\<close>
  "with_rewards x e f sw =
     (let (s, w) = sw in
      andthen (f (pool_reward_context x e w) (get_total_shares (pl_shares s)) (new_storage (pl_rewards s))) (\<lambda>(v, r).
      Inr (v, s\<lparr>pl_rewards := r\<rparr>)))"

definition pl_set_reward_boost_config :: "env \<Rightarrow> address \<Rightarrow> address \<Rightarrow> address \<Rightarrow> 'z pool_scheme \<Rightarrow> 'z pool_scheme res" where
  "pl_set_reward_boost_config e admin reward_boost_token reward_boost_feed s =
     andthen (pool_admin e admin s) (\<lambda>_.
     Inr (s\<lparr>pl_rewards := put_reward_boost_feed reward_boost_feed
       (put_reward_boost_token reward_boost_token (pl_rewards s))\<rparr>))"

definition pl_set_rewards_config ::
  "'w host_calls \<Rightarrow> env \<Rightarrow> address \<Rightarrow> nat \<Rightarrow> nat \<Rightarrow> 'z pool_scheme \<times> 'w \<Rightarrow> 'z pool_scheme res" where
  "pl_set_rewards_config x e admin expired rate sw =
     andthen (or_router e admin require_rewards_admin_or_owner (fst sw)) (\<lambda>_.
     andthen (with_rewards x e (\<lambda>c total_shares r.
       andthen (set_reward_config c total_shares expired rate r) (\<lambda>r. Inr ((), r))) sw) (\<lambda>(_, s). Inr s))"

definition reward_balance_to_keep :: "'w host_calls \<Rightarrow> env \<Rightarrow> 'z pool_scheme \<times> 'w \<Rightarrow> (nat \<times> 'z pool_scheme) res" where
  \<comment> \<open>what \<open>get_unused_reward\<close> keeps back for rewards: all that was configured and not yet claimed\<close>
  "reward_balance_to_keep x e =
     with_rewards x e (\<lambda>c total_shares r.
       andthen (get_total_configured_reward c total_shares r) (\<lambda>(configured, r).
       andthen (get_total_claimed_reward c total_shares r) (\<lambda>(total_claimed, r).
       andthen (u_sub configured total_claimed) (\<lambda>keep. Inr (keep, r)))))"

definition gauge_and_rewards ::
  "'w host_calls \<Rightarrow> env \<Rightarrow> address \<Rightarrow> nat \<Rightarrow> 'z pool_scheme \<times> 'w \<Rightarrow> (user_reward_data \<times> 'z pool_scheme \<times> 'w) res" where
  \<comment> \<open>the gauges' and then the manager's checkpoint of a user with a given balance\<close>
  "gauge_and_rewards x e user user_shares sw =
     (let (s, w) = sw; total_shares = get_total_shares (pl_shares s) in
      andthen (gauge_checkpoint x e user user_shares total_shares (new_manager s, w)) (\<lambda>sw.
      rewards_checkpoint x e user total_shares user_shares sw))"

definition pl_get_user_reward ::
  "'w host_calls \<Rightarrow> env \<Rightarrow> address \<Rightarrow> 'z pool_scheme \<times> 'w \<Rightarrow> (nat \<times> 'z pool_scheme \<times> 'w) res" where
  "pl_get_user_reward x e user sw =
     (let (s, w) = sw in
      andthen (get_user_balance_shares (cc_shares x) (pl_shares s) w user) (\<lambda>user_shares.
      andthen (gauge_and_rewards x e user user_shares sw) (\<lambda>(d, s, w). Inr (to_claim d, s, w))))"

record rewards_info =
  ri_tps :: int
  ri_exp_at :: int
  ri_state :: bool
  ri_supply :: int
  ri_working_balance :: int
  ri_working_supply :: int
  ri_boost_balance :: int
  ri_boost_supply :: int
  ri_acc :: int
  ri_last_time :: int
  ri_pool_acc :: int
  ri_block :: int
  ri_usr_block :: int
  ri_to_claim :: int
  ri_new_working_balance :: int
  ri_new_working_supply :: int

definition pl_get_rewards_info ::
  "'w host_calls \<Rightarrow> env \<Rightarrow> address \<Rightarrow> 'z pool_scheme \<times> 'w \<Rightarrow> (rewards_info \<times> 'z pool_scheme \<times> 'w) res" where
  "pl_get_rewards_info x e user sw =
     (let (s, w) = sw; config = get_pool_reward_config (pl_rewards s);
          total_shares = get_total_shares (pl_shares s) in
      andthen (get_user_balance_shares (cc_shares x) (pl_shares s) w user) (\<lambda>user_shares.
      let c = pool_reward_context x e w; r = new_storage (pl_rewards s);
          (working_balance, r) = get_working_balance user user_shares r;
          (working_supply, r) = get_working_supply total_shares r in
      andthen (get_total_locked c r) (\<lambda>boost_supply.
      let boost_balance = get_user_boost_balance c r user; state = get_user_rewards_state r user in
      andthen (gauge_checkpoint x e user user_shares total_shares (s\<lparr>pl_rewards := r\<rparr>, w)) (\<lambda>sw.
      andthen (rewards_checkpoint x e user total_shares user_shares sw) (\<lambda>(user_data, s, w).
      let pool_data = get_pool_reward_data (pl_rewards s);
          (new_balance, r) = get_working_balance user user_shares (pl_rewards s);
          (new_supply, r) = get_working_supply total_shares r in
      Inr (\<lparr>ri_tps = as_i128 (tps config), ri_exp_at = as_i128 (expired_at config), ri_state = state,
        ri_supply = as_i128 total_shares, ri_working_balance = as_i128 working_balance,
        ri_working_supply = as_i128 working_supply, ri_boost_balance = as_i128 boost_balance,
        ri_boost_supply = as_i128 boost_supply, ri_acc = as_i128 (accumulated pool_data),
        ri_last_time = as_i128 (last_time pool_data), ri_pool_acc = as_i128 (pool_accumulated user_data),
        ri_block = as_i128 (block pool_data), ri_usr_block = as_i128 (last_block user_data),
        ri_to_claim = as_i128 (to_claim user_data), ri_new_working_balance = as_i128 new_balance,
        ri_new_working_supply = as_i128 new_supply\<rparr>, s\<lparr>pl_rewards := r\<rparr>, w))))))"

definition pl_estimate_working_balance ::
  "'w host_calls \<Rightarrow> env \<Rightarrow> address \<Rightarrow> nat \<Rightarrow> 'z pool_scheme \<times> 'w \<Rightarrow> ((nat \<times> nat) \<times> 'z pool_scheme) res" where
  "pl_estimate_working_balance x e user new_user_shares sw =
     (let (s, w) = sw; total_shares = get_total_shares (pl_shares s) in
      andthen (get_user_balance_shares (cc_shares x) (pl_shares s) w user) (\<lambda>user_shares.
      andthen (if user_shares \<le> new_user_shares
               then andthen (u_sub new_user_shares user_shares) (\<lambda>d. u128_add total_shares d)
               else andthen (u_sub user_shares new_user_shares) (\<lambda>d. u_sub total_shares d)) (\<lambda>new_total.
      let (prev_balance, r) = get_working_balance user user_shares (new_storage (pl_rewards s));
          (prev_supply, r) = get_working_supply total_shares r in
      andthen (calculate_effective_balance (pool_reward_context x e w) r user new_user_shares new_total) (\<lambda>new_balance.
      andthen (u128_add prev_supply new_balance) (\<lambda>y.
      andthen (u_sub y prev_balance) (\<lambda>new_supply.
      Inr ((new_balance, new_supply), s\<lparr>pl_rewards := r\<rparr>)))))))"

definition pl_checkpoint_reward ::
  "'w host_calls \<Rightarrow> env \<Rightarrow> address \<Rightarrow> address \<Rightarrow> nat \<Rightarrow> 'z pool_scheme \<times> 'w \<Rightarrow> ('z pool_scheme \<times> 'w) res" where
  "pl_checkpoint_reward x e token_contract user user_shares sw =
     andthen (require_auth e token_contract) (\<lambda>_.
     andthen (get_token_share (pl_shares (fst sw))) (\<lambda>share_contract.
     if token_contract \<noteq> share_contract then Inl (AccessControlError AC_Unauthorized)
     else andthen (gauge_and_rewards x e user user_shares sw) (\<lambda>(_, sw). Inr sw)))"

definition pl_checkpoint_working_balance ::
  "'w host_calls \<Rightarrow> env \<Rightarrow> address \<Rightarrow> address \<Rightarrow> nat \<Rightarrow> 'z pool_scheme \<times> 'w \<Rightarrow> ('z pool_scheme \<times> 'w) res" where
  "pl_checkpoint_working_balance x e token_contract user user_shares sw =
     andthen (require_auth e token_contract) (\<lambda>_.
     andthen (get_token_share (pl_shares (fst sw))) (\<lambda>share_contract.
     if token_contract \<noteq> share_contract then Inl (AccessControlError AC_Unauthorized)
     else andthen (gauge_and_rewards x e user user_shares sw) (\<lambda>(_, sw). Inr sw)))"

definition pl_get_total_accumulated_reward :: "'w host_calls \<Rightarrow> env \<Rightarrow> 'z pool_scheme \<times> 'w \<Rightarrow> (nat \<times> 'z pool_scheme) res" where
  "pl_get_total_accumulated_reward x e = with_rewards x e get_total_accumulated_reward"

definition pl_get_total_configured_reward :: "'w host_calls \<Rightarrow> env \<Rightarrow> 'z pool_scheme \<times> 'w \<Rightarrow> (nat \<times> 'z pool_scheme) res" where
  "pl_get_total_configured_reward x e = with_rewards x e get_total_configured_reward"

definition pl_get_total_claimed_reward :: "'w host_calls \<Rightarrow> env \<Rightarrow> 'z pool_scheme \<times> 'w \<Rightarrow> (nat \<times> 'z pool_scheme) res" where
  "pl_get_total_claimed_reward x e = with_rewards x e get_total_claimed_reward"

definition pl_adjust_total_accumulated_reward ::
  "'w host_calls \<Rightarrow> env \<Rightarrow> address \<Rightarrow> int \<Rightarrow> 'z pool_scheme \<times> 'w \<Rightarrow> 'z pool_scheme res" where
  "pl_adjust_total_accumulated_reward x e admin diff sw =
     andthen (pool_role e admin require_rewards_admin_or_owner (fst sw)) (\<lambda>_.
     andthen (with_rewards x e (\<lambda>c total_shares r.
       andthen (adjust_total_accumulated_reward c total_shares diff r) (\<lambda>r. Inr ((), r))) sw) (\<lambda>(_, s). Inr s))"

definition change_rewards_state ::
  "'w host_calls \<Rightarrow> env \<Rightarrow> address \<Rightarrow> bool \<Rightarrow> 'z pool_scheme \<times> 'w \<Rightarrow> ('z pool_scheme \<times> 'w) res" where
  \<comment> \<open>the common body of \<open>set_rewards_state\<close> and \<open>admin_set_rewards_state\<close>\<close>
  "change_rewards_state x e user state sw =
     (let (s, w) = sw; total_shares = get_total_shares (pl_shares s) in
      andthen (get_user_balance_shares (cc_shares x) (pl_shares s) w user) (\<lambda>user_shares.
      andthen (gauge_checkpoint x e user user_shares total_shares (new_manager s, w)) (\<lambda>(s, w).
      andthen (set_user_rewards_state user user_shares state (pl_rewards s)) (\<lambda>r.
      andthen (rewards_checkpoint x e user total_shares user_shares (s\<lparr>pl_rewards := r\<rparr>, w)) (\<lambda>(_, sw).
      gauge_checkpoint x e user user_shares total_shares sw)))))"

definition pl_set_rewards_state ::
  "'w host_calls \<Rightarrow> env \<Rightarrow> address \<Rightarrow> bool \<Rightarrow> 'z pool_scheme \<times> 'w \<Rightarrow> ('z pool_scheme \<times> 'w) res" where
  "pl_set_rewards_state x e user state sw =
     andthen (require_auth e user) (\<lambda>_. change_rewards_state x e user state sw)"

definition pl_admin_set_rewards_state ::
  "'w host_calls \<Rightarrow> env \<Rightarrow> address \<Rightarrow> address \<Rightarrow> bool \<Rightarrow> 'z pool_scheme \<times> 'w \<Rightarrow> ('z pool_scheme \<times> 'w) res" where
  "pl_admin_set_rewards_state x e admin user state sw =
     andthen (pool_role e admin require_operations_admin_or_owner (fst sw)) (\<lambda>_.
     change_rewards_state x e user state sw)"

section \<open>Gauges\<close>

definition on_gauges :: "(pool_gauges \<Rightarrow> pool_gauges res) \<Rightarrow> 'z pool_scheme \<Rightarrow> 'z pool_scheme res" where
  "on_gauges f s = andthen (f (pl_gauges s)) (\<lambda>p. Inr (s\<lparr>pl_gauges := p\<rparr>))"

definition pl_gauge_add :: "'w host_calls \<Rightarrow> env \<Rightarrow> address \<Rightarrow> address \<Rightarrow> 'z pool_scheme \<times> 'w \<Rightarrow> 'z pool_scheme res" where
  "pl_gauge_add x e admin gauge_address sw =
     andthen (or_router e admin require_operations_admin_or_owner (fst sw)) (\<lambda>_.
     on_gauges (\<lambda>p. gauges_add (cc_gauges x) gauge_address (p, snd sw)) (fst sw))"

definition pl_gauge_remove :: "env \<Rightarrow> address \<Rightarrow> address \<Rightarrow> 'z pool_scheme \<Rightarrow> 'z pool_scheme res" where
  "pl_gauge_remove e admin reward_token s =
     andthen (pool_admin e admin s) (\<lambda>_. on_gauges (gauges_remove reward_token) s)"

definition working_pair :: "address \<Rightarrow> nat \<Rightarrow> nat \<Rightarrow> 'z pool_scheme \<Rightarrow> nat \<times> nat \<times> 'z pool_scheme" where
  "working_pair user user_shares total_shares s =
     (let (working_balance, r) = get_working_balance user user_shares (new_storage (pl_rewards s));
          (working_supply, r) = get_working_supply total_shares r
      in (working_balance, working_supply, s\<lparr>pl_rewards := r\<rparr>))"

definition pl_gauge_schedule_reward ::
  "'w host_calls \<Rightarrow> env \<Rightarrow> address \<Rightarrow> address \<Rightarrow> address \<Rightarrow> nat option \<Rightarrow> nat \<Rightarrow> nat \<Rightarrow> 'z pool_scheme \<times> 'w \<Rightarrow>
   ('z pool_scheme \<times> 'w) res" where
  "pl_gauge_schedule_reward x e router distributor gauge start_at duration rate sw =
     (let (s, w) = sw in
      andthen (require_auth e router) (\<lambda>_.
      andthen (require_auth e distributor) (\<lambda>_.
      andthen (stored (pl_router s)) (\<lambda>the_router.
      if router \<noteq> the_router then Inl (AccessControlError AC_Unauthorized)
      else
        let (working_supply, r) = get_working_supply (get_total_shares (pl_shares s)) (new_storage (pl_rewards s)) in
        andthen (gauges_schedule_rewards_config (cc_gauges x) e gauge distributor start_at duration rate
          working_supply w) (\<lambda>w.
        Inr (s\<lparr>pl_rewards := r\<rparr>, w))))))"

definition pl_kill_gauges_claim :: "env \<Rightarrow> address \<Rightarrow> 'z pool_scheme \<Rightarrow> 'z pool_scheme res" where
  "pl_kill_gauges_claim e admin s =
     andthen (pool_role e admin require_pause_or_emergency_pause_admin_or_owner s) (\<lambda>_.
     on_gauges (\<lambda>p. Inr (gauges_kill_claim p)) s)"

definition pl_unkill_gauges_claim :: "env \<Rightarrow> address \<Rightarrow> 'z pool_scheme \<Rightarrow> 'z pool_scheme res" where
  "pl_unkill_gauges_claim e admin s =
     andthen (pool_role e admin require_pause_admin_or_owner s) (\<lambda>_.
     on_gauges (\<lambda>p. Inr (gauges_unkill_claim p)) s)"

definition pl_gauges_claim ::
  "'w host_calls \<Rightarrow> env \<Rightarrow> address \<Rightarrow> 'z pool_scheme \<times> 'w \<Rightarrow> ((address \<times> nat) list \<times> 'z pool_scheme \<times> 'w) res" where
  "pl_gauges_claim x e user sw =
     (let (s, w) = sw in
      andthen (require_auth e user) (\<lambda>_.
      andthen (get_user_balance_shares (cc_shares x) (pl_shares s) w user) (\<lambda>user_shares.
      let (working_balance, working_supply, s) =
        working_pair user user_shares (get_total_shares (pl_shares s)) s in
      andthen (gauges_claim (cc_gauges x) e user working_balance working_supply (pl_gauges s) w) (\<lambda>(claims, w).
      Inr (claims, s, w)))))"

definition pl_gauges_get_reward_info ::
  "'w host_calls \<Rightarrow> env \<Rightarrow> address \<Rightarrow> 'z pool_scheme \<times> 'w \<Rightarrow> ((address \<times> gauge_info) list \<times> 'z pool_scheme \<times> 'w) res" where
  "pl_gauges_get_reward_info x e user sw =
     (let (s, w) = sw in
      andthen (get_user_balance_shares (cc_shares x) (pl_shares s) w user) (\<lambda>user_shares.
      let (working_balance, working_supply, s) =
        working_pair user user_shares (get_total_shares (pl_shares s)) s in
      andthen (gauges_get_rewards_info (cc_gauges x) e user working_balance working_supply (pl_gauges s) w)
        (\<lambda>(infos, w).
      Inr (infos, s, w))))"

end
