(* ===== verification/CP_Pool.thy ===== *)
theory CP_Pool
  imports CP_Math Pool_Admin
begin

text \<open>
  \<^verbatim>\<open>liquidity_pool/src/contract.rs\<close>: the constant-product pool. Its state extends the common
  state of \<open>Pool_Base\<close> by the two tokens, their reserves and the protocol's fees; this theory holds
  deposits, withdrawals and swaps.
\<close>

section \<open>State\<close>

record cp_pool = pool +
  cp_token_a :: "address option"
  cp_token_b :: "address option"
  cp_reserve_a :: "nat option"
  cp_reserve_b :: "nat option"
  cp_fee_fraction :: "nat option"
  cp_protocol_fee_a :: nat
  cp_protocol_fee_b :: nat

definition new_cp_pool :: "nat \<Rightarrow> cp_pool" where
  "new_cp_pool wasm = \<lparr>pl_managed = new_managed wasm,
     pl_shares = \<lparr>sh_token = None, sh_total = None\<rparr>, pl_rewards = empty_rewards, pl_gauges = no_gauges,
     pl_plane = None, pl_router = None, pl_killed_swap = False, pl_killed_deposit = False,
     pl_killed_claim = False, pl_token_future_wasm = None, pl_gauge_future_wasm = None,
     pl_protocol_fee_fraction = 0, pl_sync_ledger = 0, pl_config_storage = None,
     cp_token_a = None, cp_token_b = None, cp_reserve_a = None, cp_reserve_b = None,
     cp_fee_fraction = None, cp_protocol_fee_a = 0, cp_protocol_fee_b = 0\<rparr>"

definition cp_get_tokens :: "cp_pool \<Rightarrow> (address \<times> address) res" where
  "cp_get_tokens s = andthen (stored (cp_token_a s)) (\<lambda>a. andthen (stored (cp_token_b s)) (\<lambda>b. Inr (a, b)))"

definition cp_stored_reserves :: "cp_pool \<Rightarrow> (nat \<times> nat) res" where
  "cp_stored_reserves s = andthen (stored (cp_reserve_a s)) (\<lambda>a. andthen (stored (cp_reserve_b s)) (\<lambda>b. Inr (a, b)))"

definition put_reserves :: "nat \<Rightarrow> nat \<Rightarrow> cp_pool \<Rightarrow> cp_pool" where
  "put_reserves a b s = s\<lparr>cp_reserve_a := Some a, cp_reserve_b := Some b\<rparr>"

definition pick :: "nat \<Rightarrow> 'a \<times> 'a \<Rightarrow> 'a" where
  \<comment> \<open>\<open>vec.get(i).unwrap()\<close> on a vector of two, for an index already checked\<close>
  "pick i p = (if i = 0 then fst p else snd p)"

definition update_plane :: "'w host_calls \<Rightarrow> env \<Rightarrow> cp_pool \<Rightarrow> 'w \<Rightarrow> 'w res" where
  "update_plane x e s w =
     andthen (stored (cp_fee_fraction s)) (\<lambda>fee.
     andthen (cp_stored_reserves s) (\<lambda>(a, b).
     andthen (stored (pl_plane s)) (\<lambda>plane.
     cc_plane_update x plane (current_contract e) ''standard'' [fee] [a, b] w)))"

section \<open>Synchronizing the reserves\<close>

definition sync_reserves :: "'w host_calls \<Rightarrow> env \<Rightarrow> cp_pool \<Rightarrow> 'w \<Rightarrow> cp_pool res" where
  "sync_reserves x e s w =
     (if pl_sync_ledger s = ledger_sequence e then Inr s
      else
        andthen (cp_get_tokens s) (\<lambda>(token_a, token_b).
        let reward_token = rw_token (pl_rewards s) in
        andthen (cp_stored_reserves s) (\<lambda>(reserve_a, reserve_b).
        if get_total_shares (pl_shares s) = 0 then Inr (s\<lparr>pl_sync_ledger := ledger_sequence e\<rparr>)
        else
          andthen (sync_one x e reward_token w (token_a, reserve_a, cp_protocol_fee_a s)) (\<lambda>a.
          andthen (sync_one x e reward_token w (token_b, reserve_b, cp_protocol_fee_b s)) (\<lambda>b.
          Inr ((if (a, b) \<noteq> (reserve_a, reserve_b) then put_reserves a b s else s)
            \<lparr>pl_sync_ledger := ledger_sequence e\<rparr>))))))"

section \<open>Rewards and gauges around an operation\<close>

section \<open>Deposits\<close>

definition new_total_shares ::
  "fixed_point \<Rightarrow> nat \<Rightarrow> nat \<Rightarrow> nat \<Rightarrow> nat \<Rightarrow> nat \<Rightarrow> nat res" where
  "new_total_shares fp total_shares reserve_a reserve_b new_reserve_a new_reserve_b =
     (if 0 < reserve_a \<and> 0 < reserve_b then
        andthen (mul_floor fp new_reserve_a total_shares reserve_a) (\<lambda>shares_a.
        andthen (mul_floor fp new_reserve_b total_shares reserve_b) (\<lambda>shares_b.
        Inr (min shares_a shares_b)))
      else
        andthen (u256_mul new_reserve_a new_reserve_b) (\<lambda>product.
        andthen (u256_sqrt product) (\<lambda>root. to_u128 root)))"

definition deposit_tokens ::
  "'w host_calls \<Rightarrow> env \<Rightarrow> address \<Rightarrow> nat \<times> nat \<Rightarrow> nat \<times> nat \<Rightarrow> cp_pool \<times> 'w \<Rightarrow>
   ((nat \<times> nat) \<times> cp_pool \<times> 'w) res" where
  \<comment> \<open>take the desired amounts, book the part that keeps the ratio, return the rest\<close>
  "deposit_tokens x e user desired reserves sw =
     (let (s, w) = sw; (desired_a, desired_b) = desired; (reserve_a, reserve_b) = reserves in
      andthen (cp_get_tokens s) (\<lambda>(token_a, token_b).
      andthen (collect x e token_a user desired_a w) (\<lambda>w.
      andthen (collect x e token_b user desired_b w) (\<lambda>w.
      andthen (get_deposit_amounts (cc_fp x) desired_a 0 desired_b 0 reserve_a reserve_b) (\<lambda>(amount_a, amount_b).
      andthen (u128_add reserve_a amount_a) (\<lambda>new_reserve_a.
      andthen (u128_add reserve_b amount_b) (\<lambda>new_reserve_b.
      andthen (refund x e token_a user desired_a amount_a w) (\<lambda>w.
      andthen (refund x e token_b user desired_b amount_b w) (\<lambda>w.
      Inr ((amount_a, amount_b), put_reserves new_reserve_a new_reserve_b s, w))))))))))"

definition deposit_shares ::
  "'w host_calls \<Rightarrow> env \<Rightarrow> address \<Rightarrow> nat \<Rightarrow> nat \<Rightarrow> nat \<times> nat \<Rightarrow> cp_pool \<times> 'w \<Rightarrow> (nat \<times> cp_pool \<times> 'w) res" where
  \<comment> \<open>mint the shares for the growth of the reserves, checkpoint and report them\<close>
  "deposit_shares x e user user_shares min_shares reserves sw =
     (let (s, w) = sw; (reserve_a, reserve_b) = reserves; total_shares = get_total_shares (pl_shares s) in
      andthen (cp_stored_reserves s) (\<lambda>(new_reserve_a, new_reserve_b).
      andthen (new_total_shares (cc_fp x) total_shares reserve_a reserve_b new_reserve_a new_reserve_b)
        (\<lambda>new_total.
      andthen (u_sub new_total total_shares) (\<lambda>shares_to_mint.
      if shares_to_mint < min_shares then Inl (ValidationError V_OutMinNotSatisfied)
      else
        andthen (mint_shares (cc_shares x) user (as_i128 shares_to_mint) (pl_shares s, w)) (\<lambda>(sh, w).
        let s = new_manager ((put_reserves new_reserve_a new_reserve_b s)\<lparr>pl_shares := sh\<rparr>) in
        andthen (gauge_checkpoint x e user 0 0 (s, w)) (\<lambda>sw.
        andthen (u128_add user_shares shares_to_mint) (\<lambda>new_user_shares.
        andthen (rewards_reweigh x e user new_total new_user_shares sw) (\<lambda>(s, w).
        andthen (update_plane x e s w) (\<lambda>w. Inr (shares_to_mint, s, w))))))))))"

definition cp_deposit ::
  "'w host_calls \<Rightarrow> env \<Rightarrow> address \<Rightarrow> nat list \<Rightarrow> nat \<Rightarrow> cp_pool \<times> 'w \<Rightarrow>
   (((nat \<times> nat) \<times> nat) \<times> cp_pool \<times> 'w) res" where
  "cp_deposit x e user desired_amounts min_shares sw =
     (let (s, w) = sw in
      andthen (require_auth e user) (\<lambda>_.
      if pl_killed_deposit s then Inl (LiquidityPoolError LP_PoolDepositKilled)
      else if length desired_amounts \<noteq> 2 then Inl (ValidationError V_WrongInputVecSize)
      else
        andthen (sync_reserves x e s w) (\<lambda>s.
        andthen (cp_stored_reserves s) (\<lambda>(reserve_a, reserve_b).
        andthen (settle_user x e user (s, w)) (\<lambda>(_, user_shares, s, w).
        let desired_a = desired_amounts ! 0; desired_b = desired_amounts ! 1 in
        if (reserve_a = 0 \<and> reserve_b = 0) \<and> (desired_a = 0 \<or> desired_b = 0)
        then Inl (ValidationError V_AllCoinsRequired)
        else
          andthen (deposit_tokens x e user (desired_a, desired_b) (reserve_a, reserve_b) (s, w)) (\<lambda>(amounts, s, w).
          andthen (deposit_shares x e user user_shares min_shares (reserve_a, reserve_b) (s, w))
            (\<lambda>(shares_to_mint, s, w).
          Inr ((amounts, shares_to_mint), s, w))))))))"

definition cp_estimate_deposit :: "'w host_calls \<Rightarrow> env \<Rightarrow> nat list \<Rightarrow> cp_pool \<times> 'w \<Rightarrow> (nat \<times> cp_pool) res" where
  "cp_estimate_deposit x e desired_amounts sw =
     (let (s, w) = sw in
      if length desired_amounts \<noteq> 2 then Inl (ValidationError V_WrongInputVecSize)
      else
        andthen (sync_reserves x e s w) (\<lambda>s.
        andthen (cp_stored_reserves s) (\<lambda>(reserve_a, reserve_b).
        let desired_a = desired_amounts ! 0; desired_b = desired_amounts ! 1 in
        if (reserve_a = 0 \<and> reserve_b = 0) \<and> (desired_a = 0 \<or> desired_b = 0)
        then Inl (ValidationError V_AllCoinsRequired)
        else
          andthen (get_deposit_amounts (cc_fp x) desired_a 0 desired_b 0 reserve_a reserve_b) (\<lambda>(amount_a, amount_b).
          andthen (u128_add reserve_a amount_a) (\<lambda>new_reserve_a.
          andthen (u128_add reserve_b amount_b) (\<lambda>new_reserve_b.
          let total_shares = get_total_shares (pl_shares s) in
          andthen (new_total_shares (cc_fp x) total_shares reserve_a reserve_b new_reserve_a new_reserve_b)
            (\<lambda>new_total.
          andthen (u_sub new_total total_shares) (\<lambda>minted. Inr (minted, s)))))))))"

section \<open>Swaps\<close>

definition check_indices :: "nat \<Rightarrow> nat \<Rightarrow> unit res" where
  "check_indices in_idx out_idx =
     (if in_idx = out_idx then Inl (ValidationError V_CannotSwapSameToken)
      else if 1 < in_idx then Inl (ValidationError V_InTokenOutOfBounds)
      else if 1 < out_idx then Inl (ValidationError V_OutTokenOutOfBounds)
      else Inr ())"

definition protocol_share :: "nat \<Rightarrow> cp_pool \<Rightarrow> (nat \<times> nat) res" where
  \<comment> \<open>the protocol's and the providers' part of a fee\<close>
  "protocol_share total_fee s =
     andthen (u128_mul total_fee (pl_protocol_fee_fraction s)) (\<lambda>p.
     let protocol_fee = p div FEE_MULTIPLIER in
     andthen (u_sub total_fee protocol_fee) (\<lambda>lp_fee. Inr (protocol_fee, lp_fee)))"

definition pool_residue :: "cp_pool \<Rightarrow> nat res" where
  "pool_residue s =
     andthen (stored (cp_fee_fraction s)) (\<lambda>base_fee_fraction.
     residue_numerator base_fee_fraction (pl_protocol_fee_fraction s))"

definition credit_reserve :: "nat \<Rightarrow> nat \<Rightarrow> nat \<Rightarrow> nat \<Rightarrow> cp_pool \<Rightarrow> (nat \<times> nat \<times> cp_pool) res" where
  \<comment> \<open>add the input to the reserve of the sold token\<close>
  "credit_reserve in_idx in_amount reserve_a reserve_b s =
     (if in_idx = 0 then
        andthen (u128_add reserve_a in_amount) (\<lambda>a. Inr (a, reserve_b, s\<lparr>cp_reserve_a := Some a\<rparr>))
      else
        andthen (u128_add reserve_b in_amount) (\<lambda>b. Inr (reserve_a, b, s\<lparr>cp_reserve_b := Some b\<rparr>)))"

definition settle_swap ::
  "'w host_calls \<Rightarrow> env \<Rightarrow> address \<Rightarrow> nat \<Rightarrow> nat \<Rightarrow> (nat \<times> nat) res \<Rightarrow> nat \<Rightarrow> nat \<Rightarrow> nat \<Rightarrow> nat \<Rightarrow> cp_pool \<times> 'w \<Rightarrow>
   (cp_pool \<times> 'w) res" where
  \<comment> \<open>the common end of both swaps: the invariant check, the payment, the fee and the new reserves\<close>
  "settle_swap x e user out_idx out_amount fee_split reserve_a reserve_b new_reserve_a new_reserve_b sw =
     (let (s, w) = sw in
      andthen (pool_residue s) (\<lambda>residue.
      let (out_a, out_b) = (if out_idx = 0 then (out_amount, 0) else (0, out_amount)) in
      andthen (check_invariant residue new_reserve_a reserve_a out_a new_reserve_b reserve_b out_b) (\<lambda>_.
      andthen fee_split (\<lambda>(protocol_fee, lp_fee).
      andthen (cp_get_tokens s) (\<lambda>(token_a, token_b).
      andthen
        (if out_idx = 0 then
           andthen (pay x e token_a user out_a w) (\<lambda>w.
           andthen (u_sub new_reserve_a out_a) (\<lambda>new_a.
           andthen (u_sub new_reserve_b protocol_fee) (\<lambda>new_b.
           andthen (u128_add (cp_protocol_fee_b s) protocol_fee) (\<lambda>fee_b.
           Inr (put_reserves new_a new_b (s\<lparr>cp_protocol_fee_b := fee_b\<rparr>), w)))))
         else
           andthen (pay x e token_b user out_b w) (\<lambda>w.
           andthen (u_sub new_reserve_a protocol_fee) (\<lambda>new_a.
           andthen (u_sub new_reserve_b out_b) (\<lambda>new_b.
           andthen (u128_add (cp_protocol_fee_a s) protocol_fee) (\<lambda>fee_a.
           Inr (put_reserves new_a new_b (s\<lparr>cp_protocol_fee_a := fee_a\<rparr>), w)))))) (\<lambda>(s, w).
      andthen (update_plane x e s w) (\<lambda>w. Inr (s, w))))))))"

definition cp_swap ::
  "'w host_calls \<Rightarrow> env \<Rightarrow> address \<Rightarrow> nat \<Rightarrow> nat \<Rightarrow> nat \<Rightarrow> nat \<Rightarrow> cp_pool \<times> 'w \<Rightarrow> (nat \<times> cp_pool \<times> 'w) res" where
  "cp_swap x e user in_idx out_idx in_amount out_min sw =
     (let (s, w) = sw in
      andthen (require_auth e user) (\<lambda>_.
      if pl_killed_swap s then Inl (LiquidityPoolError LP_PoolSwapKilled)
      else
        andthen (check_indices in_idx out_idx) (\<lambda>_.
        if in_amount = 0 then Inl (ValidationError V_ZeroAmount)
        else
          andthen (sync_reserves x e s w) (\<lambda>s.
          andthen (cp_stored_reserves s) (\<lambda>(reserve_a, reserve_b).
          andthen (cp_get_tokens s) (\<lambda>tokens.
          let reserve_sell = pick in_idx (reserve_a, reserve_b);
              reserve_buy = pick out_idx (reserve_a, reserve_b) in
          if reserve_sell = 0 \<or> reserve_buy = 0 then Inl (ValidationError V_EmptyPool)
          else
            andthen (get_amount_out (cc_fp x) (stored (cp_fee_fraction s)) in_amount reserve_sell reserve_buy)
              (\<lambda>(out, total_fee).
            andthen (protocol_share total_fee s) (\<lambda>(protocol_fee, lp_fee).
            if out < out_min then Inl (ValidationError V_OutMinNotSatisfied)
            else
              andthen (collect x e (pick in_idx tokens) user in_amount w) (\<lambda>w.
              andthen (credit_reserve in_idx in_amount reserve_a reserve_b s) (\<lambda>(new_reserve_a, new_reserve_b, s).
              andthen (settle_swap x e user out_idx out (Inr (protocol_fee, lp_fee)) reserve_a reserve_b
                new_reserve_a new_reserve_b (s, w)) (\<lambda>(s, w).
              Inr (out, s, w))))))))))))"

definition cp_estimate_swap ::
  "'w host_calls \<Rightarrow> env \<Rightarrow> nat \<Rightarrow> nat \<Rightarrow> nat \<Rightarrow> cp_pool \<times> 'w \<Rightarrow> (nat \<times> cp_pool) res" where
  "cp_estimate_swap x e in_idx out_idx in_amount sw =
     (let (s, w) = sw in
      andthen (check_indices in_idx out_idx) (\<lambda>_.
      andthen (sync_reserves x e s w) (\<lambda>s.
      andthen (cp_stored_reserves s) (\<lambda>reserves.
      andthen (get_amount_out (cc_fp x) (stored (cp_fee_fraction s)) in_amount
        (pick in_idx reserves) (pick out_idx reserves)) (\<lambda>(out, _). Inr (out, s))))))"

definition cp_swap_strict_receive ::
  "'w host_calls \<Rightarrow> env \<Rightarrow> address \<Rightarrow> nat \<Rightarrow> nat \<Rightarrow> nat \<Rightarrow> nat \<Rightarrow> cp_pool \<times> 'w \<Rightarrow> (nat \<times> cp_pool \<times> 'w) res" where
  "cp_swap_strict_receive x e user in_idx out_idx out_amount in_max sw =
     (let (s, w) = sw in
      andthen (require_auth e user) (\<lambda>_.
      if pl_killed_swap s then Inl (LiquidityPoolError LP_PoolSwapKilled)
      else
        andthen (check_indices in_idx out_idx) (\<lambda>_.
        if out_amount = 0 then Inl (ValidationError V_ZeroAmount)
        else
          andthen (sync_reserves x e s w) (\<lambda>s.
          andthen (cp_stored_reserves s) (\<lambda>(reserve_a, reserve_b).
          andthen (cp_get_tokens s) (\<lambda>tokens.
          let reserve_sell = pick in_idx (reserve_a, reserve_b);
              reserve_buy = pick out_idx (reserve_a, reserve_b) in
          if reserve_sell = 0 \<or> reserve_buy = 0 then Inl (ValidationError V_EmptyPool)
          else
            andthen (get_amount_out_strict_receive (cc_fp x) (stored (cp_fee_fraction s)) out_amount
              reserve_sell reserve_buy) (\<lambda>(in_amount, total_fee).
            if in_max < in_amount then Inl (ValidationError V_InMaxNotSatisfied)
            else
              andthen (collect x e (pick in_idx tokens) user in_max w) (\<lambda>w.
              andthen (refund x e (pick in_idx tokens) user in_max in_amount w) (\<lambda>w.
              andthen (credit_reserve in_idx in_amount reserve_a reserve_b s) (\<lambda>(new_reserve_a, new_reserve_b, s).
              andthen (settle_swap x e user out_idx out_amount (protocol_share total_fee s) reserve_a reserve_b
                new_reserve_a new_reserve_b (s, w)) (\<lambda>(s, w).
              Inr (in_amount, s, w))))))))))))"

definition cp_estimate_swap_strict_receive ::
  "'w host_calls \<Rightarrow> env \<Rightarrow> nat \<Rightarrow> nat \<Rightarrow> nat \<Rightarrow> cp_pool \<times> 'w \<Rightarrow> (nat \<times> cp_pool) res" where
  "cp_estimate_swap_strict_receive x e in_idx out_idx out_amount sw =
     (let (s, w) = sw in
      andthen (check_indices in_idx out_idx) (\<lambda>_.
      andthen (sync_reserves x e s w) (\<lambda>s.
      andthen (cp_stored_reserves s) (\<lambda>reserves.
      andthen (get_amount_out_strict_receive (cc_fp x) (stored (cp_fee_fraction s)) out_amount
        (pick in_idx reserves) (pick out_idx reserves)) (\<lambda>(in_amount, _). Inr (in_amount, s))))))"

section \<open>Withdrawals\<close>

definition cp_withdraw ::
  "'w host_calls \<Rightarrow> env \<Rightarrow> address \<Rightarrow> nat \<Rightarrow> nat list \<Rightarrow> cp_pool \<times> 'w \<Rightarrow> ((nat \<times> nat) \<times> cp_pool \<times> 'w) res" where
  "cp_withdraw x e user share_amount min_amounts sw =
     (let (s, w) = sw in
      andthen (require_auth e user) (\<lambda>_.
      if length min_amounts \<noteq> 2 then Inl (ValidationError V_WrongInputVecSize)
      else
        andthen (sync_reserves x e s w) (\<lambda>s.
        andthen (settle_user x e user (s, w)) (\<lambda>(total_shares, user_shares, s, w).
        andthen (burn_shares (cc_shares x) user share_amount (pl_shares s, w)) (\<lambda>(sh, w).
        let s = s\<lparr>pl_shares := sh\<rparr> in
        andthen (cp_stored_reserves s) (\<lambda>(reserve_a, reserve_b).
        andthen (mul_floor (cc_fp x) reserve_a share_amount total_shares) (\<lambda>out_a.
        andthen (mul_floor (cc_fp x) reserve_b share_amount total_shares) (\<lambda>out_b.
        if out_a < min_amounts ! 0 \<or> out_b < min_amounts ! 1
        then Inl (ValidationError V_OutMinNotSatisfied)
        else
          andthen (cp_get_tokens s) (\<lambda>(token_a, token_b).
          andthen (pay x e token_a user out_a w) (\<lambda>w.
          andthen (pay x e token_b user out_b w) (\<lambda>w.
          andthen (u_sub reserve_a out_a) (\<lambda>new_reserve_a.
          andthen (u_sub reserve_b out_b) (\<lambda>new_reserve_b.
          let s = new_manager (put_reserves new_reserve_a new_reserve_b s) in
          andthen (u_sub user_shares share_amount) (\<lambda>new_user_shares.
          andthen (u_sub total_shares share_amount) (\<lambda>new_total.
          andthen (gauge_checkpoint x e user new_user_shares new_total (s, w)) (\<lambda>sw.
          andthen (rewards_reweigh x e user new_total new_user_shares sw) (\<lambda>(s, w).
          andthen (update_plane x e s w) (\<lambda>w.
          Inr ((out_a, out_b), s, w)))))))))))))))))))"

definition cp_get_reserves :: "'w host_calls \<Rightarrow> env \<Rightarrow> cp_pool \<times> 'w \<Rightarrow> ((nat \<times> nat) \<times> cp_pool) res" where
  "cp_get_reserves x e sw =
     (let (s, w) = sw in
      andthen (sync_reserves x e s w) (\<lambda>s.
      andthen (cp_stored_reserves s) (\<lambda>reserves. Inr (reserves, s))))"

end
