(* ===== verification/CP_Admin.thy ===== *)
theory CP_Admin
  imports CP_Pool
begin

text \<open>
  \<^verbatim>\<open>liquidity_pool/src/contract.rs\<close>, the entry points that know the pool's own storage besides
  trading: initialization, protocol fees, unused rewards and claims. With \<open>CP_Pool\<close> and
  \<open>Pool_Admin\<close> this is every state-changing entry point of the contract.
\<close>

section \<open>Initialization\<close>

definition cp_initialize ::
  "'w host_calls \<Rightarrow> env \<Rightarrow> address \<Rightarrow> privileged \<Rightarrow> address \<Rightarrow> nat \<Rightarrow> address list \<Rightarrow> nat \<times> nat \<Rightarrow>
   cp_pool \<times> 'w \<Rightarrow> (cp_pool \<times> 'w) res" where
  "cp_initialize x e admin privileged_addrs router lp_token_wasm_hash tokens fees_config sw =
     (let (s, w) = sw; (fee_fraction, protocol_fee_fraction) = fees_config; ac = mg_ac (pl_managed s) in
      andthen (get_role_safe ac Admin) (\<lambda>current.
      if current \<noteq> None then Inl (LiquidityPoolError LP_AlreadyInitialized)
      else
        andthen (set_role_address Admin admin ac) (\<lambda>ac.
        andthen (set_role_address EmergencyAdmin (pv_emergency_admin privileged_addrs) ac) (\<lambda>ac.
        andthen (set_privileged_roles privileged_addrs ac) (\<lambda>ac.
        if length tokens \<noteq> 2 then Inl (ValidationError V_WrongInputVecSize)
        else
          let token_a = tokens ! 0; token_b = tokens ! 1 in
          andthen (cc_deploy_share x lp_token_wasm_hash [token_a, token_b] w) (\<lambda>(share_contract, w).
          if FEE_MULTIPLIER - 1 < fee_fraction then Inl (ValidationError V_FeeOutOfBounds)
          else if FEE_MULTIPLIER - 1 < protocol_fee_fraction then Inl (ValidationError V_FeeOutOfBounds)
          else
            let s = s\<lparr>pl_managed := (pl_managed s)\<lparr>mg_ac := ac\<rparr>, pl_router := Some router,
                cp_fee_fraction := Some fee_fraction, pl_protocol_fee_fraction := protocol_fee_fraction,
                cp_token_a := Some token_a, cp_token_b := Some token_b,
                pl_shares := put_token_share share_contract (pl_shares s),
                cp_reserve_a := Some 0, cp_reserve_b := Some 0\<rparr> in
            andthen (update_plane x e s w) (\<lambda>w. Inr (s, w))))))))"

definition cp_init_pools_plane :: "address \<Rightarrow> cp_pool \<Rightarrow> cp_pool res" where
  "cp_init_pools_plane plane s =
     (if has_plane s then Inl (LiquidityPoolError LP_PlaneAlreadyInitialized)
      else Inr (s\<lparr>pl_plane := Some plane\<rparr>))"

definition cp_initialize_rewards_config :: "address \<Rightarrow> cp_pool \<Rightarrow> cp_pool res" where
  "cp_initialize_rewards_config reward_token s =
     (if has_reward_token (pl_rewards s) then Inl (LiquidityPoolError LP_RewardsAlreadyInitialized)
      else Inr (s\<lparr>pl_rewards := put_reward_token reward_token (pl_rewards s)\<rparr>))"

definition cp_initialize_all ::
  "'w host_calls \<Rightarrow> env \<Rightarrow> address \<Rightarrow> privileged \<Rightarrow> address \<Rightarrow> nat \<Rightarrow> address list \<Rightarrow> nat \<times> nat \<Rightarrow>
   address \<times> address \<times> address \<Rightarrow> address \<Rightarrow> address \<Rightarrow> cp_pool \<times> 'w \<Rightarrow> (cp_pool \<times> 'w) res" where
  "cp_initialize_all x e admin privileged_addrs router lp_token_wasm_hash tokens fees_config reward_config
     plane config_storage sw =
     (let (reward_token, reward_boost_token, reward_boost_feed) = reward_config; (s, w) = sw in
      andthen (set_config_storage_once config_storage s) (\<lambda>s.
      andthen (cp_init_pools_plane plane s) (\<lambda>s.
      andthen (cp_initialize x e admin privileged_addrs router lp_token_wasm_hash tokens fees_config (s, w)) (\<lambda>(s, w).
      andthen (pl_initialize_boost_config reward_boost_token reward_boost_feed s) (\<lambda>s.
      andthen (cp_initialize_rewards_config reward_token s) (\<lambda>s. Inr (s, w)))))))"

section \<open>Administration\<close>

definition cp_set_protocol_fee_fraction :: "env \<Rightarrow> address \<Rightarrow> nat \<Rightarrow> cp_pool \<Rightarrow> cp_pool res" where
  "cp_set_protocol_fee_fraction e admin new_fraction s =
     andthen (pool_role e admin require_operations_admin_or_owner s) (\<lambda>_.
     if FEE_MULTIPLIER < new_fraction then Inl (ValidationError V_FeeOutOfBounds)
     else Inr (s\<lparr>pl_protocol_fee_fraction := new_fraction\<rparr>))"

definition cp_claim_protocol_fees ::
  "'w host_calls \<Rightarrow> env \<Rightarrow> address \<Rightarrow> address \<Rightarrow> cp_pool \<times> 'w \<Rightarrow> ((nat \<times> nat) \<times> cp_pool \<times> 'w) res" where
  "cp_claim_protocol_fees x e admin destination sw =
     (let (s, w) = sw in
      andthen (pool_role e admin require_system_fee_admin_or_owner s) (\<lambda>_.
      andthen (cp_get_tokens s) (\<lambda>(token_a, token_b).
      let fee_a = cp_protocol_fee_a s; fee_b = cp_protocol_fee_b s in
      if fee_a = 0 \<and> fee_b = 0 then Inr ((0, 0), s, w)
      else
        andthen (if 0 < fee_a
                 then andthen (pay x e token_a destination fee_a w) (\<lambda>w. Inr (s\<lparr>cp_protocol_fee_a := 0\<rparr>, w))
                 else Inr (s, w)) (\<lambda>(s, w).
        andthen (if 0 < fee_b
                 then andthen (pay x e token_b destination fee_b w) (\<lambda>w. Inr (s\<lparr>cp_protocol_fee_b := 0\<rparr>, w))
                 else Inr (s, w)) (\<lambda>(s, w).
        Inr ((fee_a, fee_b), s, w))))))"

section \<open>Rewards\<close>

definition cp_get_unused_reward :: "'w host_calls \<Rightarrow> env \<Rightarrow> cp_pool \<times> 'w \<Rightarrow> (nat \<times> cp_pool) res" where
  "cp_get_unused_reward x e sw =
     (let w = snd sw in
      andthen (reward_balance_to_keep x e sw) (\<lambda>(keep, s).
      andthen (get_reward_token (pl_rewards s)) (\<lambda>reward_token.
      let reward_balance = as_u128 (tk_balance (cc_tokens x) reward_token (current_contract e) w) in
      andthen (cp_get_tokens s) (\<lambda>(token_a, token_b).
      andthen
        (if token_a = reward_token then
           andthen (cp_stored_reserves s) (\<lambda>(reserve_a, _). u128_add keep reserve_a)
         else if token_b = reward_token then
           andthen (cp_stored_reserves s) (\<lambda>(_, reserve_b). u128_add keep reserve_b)
         else Inr keep) (\<lambda>keep.
      Inr (if keep < reward_balance then reward_balance - keep else 0, s))))))"

definition cp_return_unused_reward ::
  "'w host_calls \<Rightarrow> env \<Rightarrow> address \<Rightarrow> cp_pool \<times> 'w \<Rightarrow> (nat \<times> cp_pool \<times> 'w) res" where
  "cp_return_unused_reward x e admin sw =
     (let (s, w) = sw in
      andthen (pool_role e admin require_rewards_admin_or_owner s) (\<lambda>_.
      andthen (cp_get_unused_reward x e (s, w)) (\<lambda>(unused_reward, s).
      if unused_reward = 0 then Inr (0, s, w)
      else
        andthen (get_reward_token (pl_rewards s)) (\<lambda>reward_token.
        andthen (stored (pl_router s)) (\<lambda>router.
        andthen (pay x e reward_token router unused_reward w) (\<lambda>w.
        Inr (unused_reward, s, w)))))))"

definition cp_claim :: "'w host_calls \<Rightarrow> env \<Rightarrow> address \<Rightarrow> cp_pool \<times> 'w \<Rightarrow> (nat \<times> cp_pool \<times> 'w) res" where
  "cp_claim x e user sw =
     (let (s, w) = sw; total_shares = get_total_shares (pl_shares s) in
      if pl_killed_claim s then Inl (LiquidityPoolError LP_PoolClaimKilled)
      else
        andthen (get_user_balance_shares (cc_shares x) (pl_shares s) w user) (\<lambda>user_shares.
        andthen (gauge_checkpoint x e user user_shares total_shares (new_manager s, w)) (\<lambda>(s, w).
        andthen (claim_reward (pool_reward_context x e w) (cc_tokens x) user total_shares user_shares (pl_rewards s, w))
          (\<lambda>(reward, r, w).
        let s = s\<lparr>pl_rewards := r\<rparr> in
        andthen (cp_get_tokens s) (\<lambda>(token_a, token_b).
        andthen (get_reward_token r) (\<lambda>reward_token.
        andthen (cp_stored_reserves s) (\<lambda>(reserve_a, reserve_b).
        andthen (claim_covered x e reward_token w (token_a, reserve_a, cp_protocol_fee_a s)) (\<lambda>_.
        andthen (claim_covered x e reward_token w (token_b, reserve_b, cp_protocol_fee_b s)) (\<lambda>_.
        andthen (gauge_checkpoint x e user user_shares total_shares (new_manager s, w)) (\<lambda>(s, w).
        Inr (reward, s, w)))))))))))"

end
