(* ===== verification/Pool_Runs.thy ===== *)
theory Pool_Runs
  imports Pool_Admin
begin

text \<open>
  The shared entry points of \<open>Pool_Admin\<close> as one datatype with its execution, and what holds for all
  of them: they leave the shares and the curve's own storage alone (\<open>same_books\<close>), and they take no
  token from the pool. The locale \<open>pool_host\<close> collects what a pool relies on in the contracts it
  calls.
\<close>

section \<open>What the shared steps do\<close>

lemma gauge_checkpoint_InrD:
  assumes "gauge_checkpoint x e u us tot (s, w) = Inr (s', w')"
  shows "\<exists>r b p. s' = s\<lparr>pl_rewards := r\<rparr> \<and> gauges_checkpoint_user (cc_gauges x) e u b p (pl_gauges s) w = Inr w'"
  using assms by (auto simp: gauge_checkpoint_def Let_def res_simps split: prod.splits)

lemma rewards_checkpoint_InrD:
  assumes "rewards_checkpoint x e u tot us (s, w) = Inr (d, s', w')"
  shows "w' = w \<and> (\<exists>r. s' = s\<lparr>pl_rewards := r\<rparr>)"
  using assms by (auto simp: rewards_checkpoint_def Let_def res_simps)

lemma rewards_reweigh_InrD:
  assumes "rewards_reweigh x e u tot us (s, w) = Inr (s', w')"
  shows "w' = w \<and> (\<exists>r. s' = s\<lparr>pl_rewards := r\<rparr>)"
  using assms by (auto simp: rewards_reweigh_def Let_def res_simps)

lemma settle_user_effect:
  assumes "settle_user x e u (s, w) = Inr (tot, us, s', w')"
  shows "tot = get_total_shares (pl_shares s) \<and> get_user_balance_shares (cc_shares x) (pl_shares s) w u = Inr us \<and>
    (\<exists>r. s' = s\<lparr>pl_rewards := r\<rparr>) \<and>
    (\<exists>b p. gauges_checkpoint_user (cc_gauges x) e u b p (pl_gauges s) w = Inr w')"
proof -
  from assms obtain s1 w1 d where g: "gauge_checkpoint x e u us tot (new_manager s, w) = Inr (s1, w1)"
    and c: "rewards_checkpoint x e u tot us (s1, w1) = Inr (d, s', w')"
    and b: "get_user_balance_shares (cc_shares x) (pl_shares s) w u = Inr us"
    and t: "tot = get_total_shares (pl_shares s)"
    by (auto simp: settle_user_def Let_def res_simps)
  from gauge_checkpoint_InrD [OF g] rewards_checkpoint_InrD [OF c] b t show ?thesis
    by (auto simp: new_manager_def)
qed

lemma sync_one_InrD:
  assumes "sync_one x e rt w (t, r, f) = Inr r'"
  shows "r \<le> r' \<and> (r' \<noteq> r \<longrightarrow> Some t \<noteq> rt \<and> r' + f = as_u128 (tk_balance (cc_tokens x) t (current_contract e) w))"
  using assms by (auto simp: sync_one_def res_simps split: if_splits)

lemma mint_shares_InrD:
  assumes "mint_shares sc u n (sh, w) = Inr (sh', w')"
  shows "get_total_shares sh' = get_total_shares sh + as_u128 n \<and>
    (\<exists>t. sh_token sh = Some t \<and> share_mint_call sc t u n w = Inr w')"
  using assms
  by (auto simp: mint_shares_def Let_def res_simps get_token_share_def put_total_shares_def get_total_shares_def)

lemma burn_shares_InrD:
  assumes "burn_shares sc u n (sh, w) = Inr (sh', w')"
  shows "n \<le> get_total_shares sh \<and> get_total_shares sh' = get_total_shares sh - n \<and>
    (\<exists>t. sh_token sh = Some t \<and> share_burn_call sc t u (as_i128 n) w = Inr w')"
  using assms
  by (auto simp: burn_shares_def Let_def res_simps get_token_share_def put_total_shares_def get_total_shares_def)

section \<open>Entry points\<close>

datatype manage_op =
    PlSetPrivileged address privileged
  | PlKillDeposit address
  | PlKillSwap address
  | PlKillClaim address
  | PlUnkillDeposit address
  | PlUnkillSwap address
  | PlUnkillClaim address
  | PlCommitUpgrade address nat nat nat
  | PlApplyUpgrade address
  | PlRevertUpgrade address
  | PlSetEmergency address bool
  | PlCommitTransfer address symbol address
  | PlApplyTransfer address symbol
  | PlRevertTransfer address symbol
  | PlInitConfigStorage address address
  | PlSetPlane address address

datatype reward_op =
    PlInitBoost address address
  | PlSetBoost address address address
  | PlSetRewardsConfig address nat nat
  | PlUserReward address
  | PlRewardsInfo address
  | PlEstimateWorking address nat
  | PlCheckpointReward address address nat
  | PlCheckpointWorking address address nat
  | PlTotalAccumulated
  | PlTotalConfigured
  | PlTotalClaimed
  | PlAdjust address int
  | PlSetRewardsState address bool
  | PlAdminSetRewardsState address address bool

datatype gauge_op =
    PlGaugeAdd address address
  | PlGaugeRemove address address
  | PlGaugeSchedule address address address "nat option" nat nat
  | PlKillGauges address
  | PlUnkillGauges address
  | PlGaugesClaim address
  | PlGaugesInfo address

datatype shared_op =
    PlManage manage_op
  | PlReward reward_op
  | PlGauge gauge_op

text \<open>The three shapes of a handler: it returns a value, it only reads the world, or neither.\<close>

definition effect :: "('a \<times> 's \<times> 'w) res \<Rightarrow> ('s \<times> 'w) res" where
  "effect r = andthen r (\<lambda>(_, sw). Inr sw)"

definition reading :: "'w \<Rightarrow> ('a \<times> 's) res \<Rightarrow> ('s \<times> 'w) res" where
  "reading w r = andthen r (\<lambda>(_, s). Inr (s, w))"

definition local :: "'w \<Rightarrow> 's res \<Rightarrow> ('s \<times> 'w) res" where
  "local w r = andthen r (\<lambda>s. Inr (s, w))"

lemma local_eq_Inr [res_simps]: "local w r = Inr (s', w') \<longleftrightarrow> r = Inr s' \<and> w' = w"
  by (auto simp: local_def res_simps)

lemma reading_eq_Inr [res_simps]: "reading w r = Inr (s', w') \<longleftrightarrow> (\<exists>v. r = Inr (v, s')) \<and> w' = w"
  by (auto simp: reading_def res_simps)

lemma effect_eq_Inr [res_simps]: "effect r = Inr (s', w') \<longleftrightarrow> (\<exists>v. r = Inr (v, s', w'))"
  by (auto simp: effect_def res_simps)

primrec manage_exec ::
  "'w host_calls \<Rightarrow> env \<Rightarrow> 'z pool_scheme \<Rightarrow> 'w \<Rightarrow> manage_op \<Rightarrow> ('z pool_scheme \<times> 'w) res" where
  "manage_exec x e s w (PlSetPrivileged a p) = local w (pl_set_privileged_addrs e a p s)"
| "manage_exec x e s w (PlKillDeposit a) = local w (pl_kill_deposit e a s)"
| "manage_exec x e s w (PlKillSwap a) = local w (pl_kill_swap e a s)"
| "manage_exec x e s w (PlKillClaim a) = local w (pl_kill_claim e a s)"
| "manage_exec x e s w (PlUnkillDeposit a) = local w (pl_unkill_deposit e a s)"
| "manage_exec x e s w (PlUnkillSwap a) = local w (pl_unkill_swap e a s)"
| "manage_exec x e s w (PlUnkillClaim a) = local w (pl_unkill_claim e a s)"
| "manage_exec x e s w (PlCommitUpgrade a h t g) = local w (pl_commit_upgrade e a h t g s)"
| "manage_exec x e s w (PlApplyUpgrade a) = effect (pl_apply_upgrade x e a (s, w))"
| "manage_exec x e s w (PlRevertUpgrade a) = local w (pl_revert_upgrade e a s)"
| "manage_exec x e s w (PlSetEmergency a v) = local w (pl_set_emergency_mode e a v s)"
| "manage_exec x e s w (PlCommitTransfer a r n) = local w (pl_commit_transfer_ownership e a r n s)"
| "manage_exec x e s w (PlApplyTransfer a r) = local w (pl_apply_transfer_ownership e a r s)"
| "manage_exec x e s w (PlRevertTransfer a r) = local w (pl_revert_transfer_ownership e a r s)"
| "manage_exec x e s w (PlInitConfigStorage a c) = local w (pl_init_config_storage e a c s)"
| "manage_exec x e s w (PlSetPlane a p) = local w (pl_set_pools_plane e a p s)"

primrec reward_exec ::
  "'w host_calls \<Rightarrow> env \<Rightarrow> 'z pool_scheme \<Rightarrow> 'w \<Rightarrow> reward_op \<Rightarrow> ('z pool_scheme \<times> 'w) res" where
  "reward_exec x e s w (PlInitBoost t f) = local w (pl_initialize_boost_config t f s)"
| "reward_exec x e s w (PlSetBoost a t f) = local w (pl_set_reward_boost_config e a t f s)"
| "reward_exec x e s w (PlSetRewardsConfig a t r) = local w (pl_set_rewards_config x e a t r (s, w))"
| "reward_exec x e s w (PlUserReward u) = effect (pl_get_user_reward x e u (s, w))"
| "reward_exec x e s w (PlRewardsInfo u) = effect (pl_get_rewards_info x e u (s, w))"
| "reward_exec x e s w (PlEstimateWorking u n) = reading w (pl_estimate_working_balance x e u n (s, w))"
| "reward_exec x e s w (PlCheckpointReward t u n) = pl_checkpoint_reward x e t u n (s, w)"
| "reward_exec x e s w (PlCheckpointWorking t u n) = pl_checkpoint_working_balance x e t u n (s, w)"
| "reward_exec x e s w PlTotalAccumulated = reading w (pl_get_total_accumulated_reward x e (s, w))"
| "reward_exec x e s w PlTotalConfigured = reading w (pl_get_total_configured_reward x e (s, w))"
| "reward_exec x e s w PlTotalClaimed = reading w (pl_get_total_claimed_reward x e (s, w))"
| "reward_exec x e s w (PlAdjust a d) = local w (pl_adjust_total_accumulated_reward x e a d (s, w))"
| "reward_exec x e s w (PlSetRewardsState u v) = pl_set_rewards_state x e u v (s, w)"
| "reward_exec x e s w (PlAdminSetRewardsState a u v) = pl_admin_set_rewards_state x e a u v (s, w)"

primrec gauge_exec ::
  "'w host_calls \<Rightarrow> env \<Rightarrow> 'z pool_scheme \<Rightarrow> 'w \<Rightarrow> gauge_op \<Rightarrow> ('z pool_scheme \<times> 'w) res" where
  "gauge_exec x e s w (PlGaugeAdd a g) = local w (pl_gauge_add x e a g (s, w))"
| "gauge_exec x e s w (PlGaugeRemove a t) = local w (pl_gauge_remove e a t s)"
| "gauge_exec x e s w (PlGaugeSchedule r d g st du n) = pl_gauge_schedule_reward x e r d g st du n (s, w)"
| "gauge_exec x e s w (PlKillGauges a) = local w (pl_kill_gauges_claim e a s)"
| "gauge_exec x e s w (PlUnkillGauges a) = local w (pl_unkill_gauges_claim e a s)"
| "gauge_exec x e s w (PlGaugesClaim u) = effect (pl_gauges_claim x e u (s, w))"
| "gauge_exec x e s w (PlGaugesInfo u) = effect (pl_gauges_get_reward_info x e u (s, w))"

primrec shared_exec ::
  "'w host_calls \<Rightarrow> env \<Rightarrow> 'z pool_scheme \<Rightarrow> 'w \<Rightarrow> shared_op \<Rightarrow> ('z pool_scheme \<times> 'w) res" where
  "shared_exec x e s w (PlManage a) = manage_exec x e s w a"
| "shared_exec x e s w (PlReward a) = reward_exec x e s w a"
| "shared_exec x e s w (PlGauge a) = gauge_exec x e s w a"

section \<open>The curve's storage is left alone\<close>

definition same_books :: "'z pool_scheme \<Rightarrow> 'z pool_scheme \<Rightarrow> bool" where
  "same_books s s' \<longleftrightarrow> pl_shares s' = pl_shares s \<and> pool.more s' = pool.more s"

lemma same_books_refl [simp]: "same_books s s"
  by (simp add: same_books_def)

lemma same_books_trans [trans]: "same_books s t \<Longrightarrow> same_books t u \<Longrightarrow> same_books s u"
  by (simp add: same_books_def)

lemma same_books_fields [simp]:
  "same_books s (s\<lparr>pl_rewards := r\<rparr>)" "same_books s (s\<lparr>pl_gauges := g\<rparr>)" "same_books s (s\<lparr>pl_managed := m\<rparr>)"
  "same_books s (s\<lparr>pl_plane := p\<rparr>)" "same_books s (s\<lparr>pl_router := p\<rparr>)" "same_books s (s\<lparr>pl_killed_swap := k\<rparr>)"
  "same_books s (s\<lparr>pl_killed_deposit := k\<rparr>)" "same_books s (s\<lparr>pl_killed_claim := k\<rparr>)"
  "same_books s (s\<lparr>pl_protocol_fee_fraction := n\<rparr>)" "same_books s (s\<lparr>pl_config_storage := p\<rparr>)"
  "same_books s (s\<lparr>pl_sync_ledger := l\<rparr>)" "same_books s (new_manager s)"
  by (simp_all add: same_books_def new_manager_def)

lemma same_books_two [simp]:
  "same_books s (s\<lparr>pl_token_future_wasm := f, pl_gauge_future_wasm := g\<rparr>)"
  by (simp add: same_books_def)

named_theorems same_books_intros

lemma on_managed_same [same_books_intros]: "on_managed f s = Inr s' \<Longrightarrow> same_books s s'"
  by (auto simp: on_managed_def res_simps)

lemma on_gauges_same [same_books_intros]: "on_gauges f s = Inr s' \<Longrightarrow> same_books s s'"
  by (auto simp: on_gauges_def res_simps)

lemma with_rewards_same [same_books_intros]: "with_rewards x e f (s, w) = Inr (v, s') \<Longrightarrow> same_books s s'"
  by (auto simp: with_rewards_def res_simps)

lemma gauge_checkpoint_same:
  "gauge_checkpoint x e u us tot (s, w) = Inr (s', w') \<Longrightarrow> same_books s s'"
  by (drule gauge_checkpoint_InrD) auto

lemma rewards_checkpoint_same:
  "rewards_checkpoint x e u tot us (s, w) = Inr (d, s', w') \<Longrightarrow> same_books s s'"
  by (drule rewards_checkpoint_InrD) auto

lemma gauge_and_rewards_InrD:
  assumes "gauge_and_rewards x e u us (s, w) = Inr (d, s', w')"
  shows "\<exists>s1. gauge_checkpoint x e u us (get_total_shares (pl_shares s)) (new_manager s, w) = Inr (s1, w') \<and> same_books s s'"
proof -
  from assms obtain s1 w1 where a: "gauge_checkpoint x e u us (get_total_shares (pl_shares s)) (new_manager s, w) = Inr (s1, w1)"
    and b: "rewards_checkpoint x e u (get_total_shares (pl_shares s)) us (s1, w1) = Inr (d, s', w')"
    by (auto simp: gauge_and_rewards_def Let_def res_simps)
  have "same_books s s'"
    using same_books_fields(12) [of s] gauge_checkpoint_same [OF a] rewards_checkpoint_same [OF b]
    by (blast intro: same_books_trans)
  then show ?thesis using a rewards_checkpoint_InrD [OF b] by auto
qed

lemma change_rewards_state_InrD:
  assumes "change_rewards_state x e u v (s, w) = Inr (s', w')"
  shows "\<exists>us s1 w1 s2. gauge_checkpoint x e u us (get_total_shares (pl_shares s)) (new_manager s, w) = Inr (s1, w1) \<and>
    gauge_checkpoint x e u us (get_total_shares (pl_shares s)) (s2, w1) = Inr (s', w') \<and> same_books s s'"
proof -
  from assms obtain us s1 w1 r d s2 w2 where
    a: "gauge_checkpoint x e u us (get_total_shares (pl_shares s)) (new_manager s, w) = Inr (s1, w1)" and
    b: "rewards_checkpoint x e u (get_total_shares (pl_shares s)) us (s1\<lparr>pl_rewards := r\<rparr>, w1) = Inr (d, s2, w2)" and
    c: "gauge_checkpoint x e u us (get_total_shares (pl_shares s)) (s2, w2) = Inr (s', w')"
    by (auto simp: change_rewards_state_def Let_def res_simps)
  have "same_books s s'"
    using same_books_fields(12) [of s] gauge_checkpoint_same [OF a] rewards_checkpoint_same [OF b]
      gauge_checkpoint_same [OF c] same_books_fields(1) [of s1 r] by (blast intro: same_books_trans)
  then show ?thesis using a c rewards_checkpoint_InrD [OF b] by blast
qed

lemma rewards_info_InrD:
  assumes "pl_get_rewards_info x e u (s, w) = Inr (v, s', w')"
  shows "\<exists>us r s1. gauge_checkpoint x e u us (get_total_shares (pl_shares s)) (s\<lparr>pl_rewards := r\<rparr>, w) = Inr (s1, w') \<and>
    same_books s s'"
proof -
  from assms obtain us r s1 w1 d s2 r2 where
    a: "gauge_checkpoint x e u us (get_total_shares (pl_shares s)) (s\<lparr>pl_rewards := r\<rparr>, w) = Inr (s1, w1)" and
    b: "rewards_checkpoint x e u (get_total_shares (pl_shares s)) us (s1, w1) = Inr (d, s2, w')" and
    s': "s' = s2\<lparr>pl_rewards := r2\<rparr>"
    unfolding pl_get_rewards_info_def Let_def split_beta by (fastforce simp: res_simps)
  have "same_books s s'"
    using same_books_fields(1) [of s r] gauge_checkpoint_same [OF a] rewards_checkpoint_same [OF b]
      same_books_fields(1) [of s2 r2] unfolding s' by (blast intro: same_books_trans)
  then show ?thesis using a rewards_checkpoint_InrD [OF b] by blast
qed

lemma manage_same:
  assumes "manage_exec x e s w a = Inr (s', w')"
  shows "same_books s s'"
proof (cases a)
  case (PlSetPrivileged b p)
  with assms show ?thesis by (auto simp: res_simps pl_set_privileged_addrs_def dest: same_books_intros)
next
  case (PlCommitUpgrade b h t g)
  with assms show ?thesis
    by (auto simp: res_simps pl_commit_upgrade_def dest!: same_books_intros intro: same_books_trans)
next
  case (PlApplyUpgrade b)
  with assms show ?thesis by (auto simp: res_simps pl_apply_upgrade_def Let_def)
qed (use assms in \<open>auto simp: res_simps pl_kill_deposit_def pl_kill_swap_def pl_kill_claim_def pl_unkill_deposit_def
  pl_unkill_swap_def pl_unkill_claim_def pl_revert_upgrade_def
  pl_set_emergency_mode_def pl_commit_transfer_ownership_def pl_apply_transfer_ownership_def
  pl_revert_transfer_ownership_def pl_init_config_storage_def set_config_storage_once_def
  pl_set_pools_plane_def dest: same_books_intros\<close>)

lemma reward_same:
  assumes "reward_exec x e s w a = Inr (s', w')"
  shows "same_books s s'"
proof (cases a)
  case (PlRewardsInfo u)
  with assms show ?thesis by (auto simp: res_simps dest: rewards_info_InrD)
next
  case (PlUserReward u)
  with assms show ?thesis by (auto simp: res_simps pl_get_user_reward_def dest: gauge_and_rewards_InrD)
next
  case (PlEstimateWorking u n)
  with assms show ?thesis by (auto simp: res_simps pl_estimate_working_balance_def Let_def split_beta)
qed (use assms in \<open>auto simp: res_simps pl_initialize_boost_config_def
  pl_set_reward_boost_config_def pl_set_rewards_config_def pl_checkpoint_reward_def
  pl_checkpoint_working_balance_def pl_get_total_accumulated_reward_def
  pl_get_total_configured_reward_def pl_get_total_claimed_reward_def pl_adjust_total_accumulated_reward_def
  pl_set_rewards_state_def pl_admin_set_rewards_state_def
  dest: same_books_intros gauge_and_rewards_InrD change_rewards_state_InrD\<close>)

lemma gauge_same:
  assumes "gauge_exec x e s w a = Inr (s', w')"
  shows "same_books s s'"
  using assms
  by (cases a) (auto simp: res_simps pl_gauge_add_def pl_gauge_remove_def pl_gauge_schedule_reward_def Let_def
      pl_kill_gauges_claim_def pl_unkill_gauges_claim_def pl_gauges_claim_def
      pl_gauges_get_reward_info_def working_pair_def dest: same_books_intros split: prod.splits)

lemma shared_same: "shared_exec x e s w a = Inr (s', w') \<Longrightarrow> same_books s s'"
  by (cases a) (auto dest: manage_same reward_same gauge_same)

end
