(* ===== verification/Pool_Host.thy ===== *)
theory Pool_Host
  imports Pool_Runs
begin

text \<open>
  What a pool relies on in the contracts it calls, as the locale \<open>pool_host\<close>: tokens keep ledgers,
  and gauges, share token, plane and upgrades take nothing from the pool. In it the shared entry
  points leave the pool at least as many tokens as before, and a pool's payments and receipts move
  exactly their amounts. \<open>quiet_host\<close> extends it for exact accounts of what everybody holds.
\<close>

section \<open>Keeping at least as much\<close>

definition no_less :: "'w tokens \<Rightarrow> address \<Rightarrow> 'w \<Rightarrow> 'w \<Rightarrow> bool" where
  \<comment> \<open>the account \<open>me\<close> holds at least as much of every token\<close>
  "no_less tk me w w' \<longleftrightarrow> (\<forall>t. tk_balance tk t me w \<le> tk_balance tk t me w')"

lemma no_less_refl [simp]: "no_less tk me w w"
  by (simp add: no_less_def)

lemma no_less_trans: "no_less tk me a b \<Longrightarrow> no_less tk me b c \<Longrightarrow> no_less tk me a c"
  unfolding no_less_def by (meson order_trans)

lemma as_u128_le: "0 \<le> b \<Longrightarrow> int (as_u128 b) \<le> b"
  by (simp add: as_u128_def zmod_le_nonneg_dividend)

lemma as_i128_le: "as_i128 n \<le> int n"
  by (simp add: as_i128_def)

lemma as_i128_exact: "0 \<le> as_i128 n \<Longrightarrow> n \<le> U128_MAX \<Longrightarrow> as_i128 n = int n"
  by (simp add: as_i128_def U128_MAX_def split: if_splits)

section \<open>The reward token stays\<close>

lemma update_rewards_data_token:
  assumes "update_rewards_data c ws s = Inr (d, s')" and "rc_page_size c = PAGE_SIZE"
  shows "rw_token s' = rw_token s"
proof -
  have add: "rw_token t' = rw_token t" if "add_reward_inv PAGE_SIZE b v t = Inr t'" for b v t t'
    using same_but_pagesD(4) [OF add_reward_inv_effect(2) [OF that]] by (simp add: PAGE_SIZE_def U32_MAX_def)
  have "rw_token t' = rw_token t" if "create_new_rewards_data c g n d0 t = Inr (d1, t')" for g n d0 d1 t t'
    using that assms(2)
    by (auto simp: create_new_rewards_data_def update_reward_inv_def res_simps set_pool_reward_data_def dest!: add)
  with assms(1) show ?thesis by (auto simp: update_rewards_data_def Let_def res_simps split: if_splits)
qed

lemma working_supply_token [simp]: "rw_token (snd (get_working_supply n s)) = rw_token s"
  by (simp add: get_working_supply_def set_working_supply_def split: option.splits)

lemma totals_token:
  assumes "rc_page_size c = PAGE_SIZE"
  shows "get_total_configured_reward c n s = Inr (v, s') \<Longrightarrow> rw_token s' = rw_token s"
    and "get_total_claimed_reward c n s = Inr (v, s') \<Longrightarrow> rw_token s' = rw_token s"
  using update_rewards_data_token [OF _ assms] working_supply_token [of n s]
  by (auto simp: get_total_configured_reward_def get_total_claimed_reward_def Let_def split_beta res_simps
      split: if_splits)

lemma reward_balance_to_keep_token:
  assumes "reward_balance_to_keep x e (s, w) = Inr (n, s')"
  shows "rw_token (pl_rewards s') = rw_token (pl_rewards s)"
proof -
  have "rc_page_size (pool_reward_context x e w) = PAGE_SIZE" by (simp add: pool_reward_context_def)
  note keep = totals_token [OF this]
  from assms show ?thesis
    by (auto simp: reward_balance_to_keep_def with_rewards_def Let_def res_simps new_storage_def dest!: keep)
qed

section \<open>The contracts around a pool\<close>

locale pool_host =
  fixes x :: "'w host_calls" and me :: address
  assumes lib: "fixed_point_lib (cc_fp x)"
    and ledger: "token_ledger (cc_tokens x)"
    and gauges: "gauge_contracts_for (cc_gauges x) (cc_tokens x) me"
    and mint_takes_nothing: "share_mint_call (cc_shares x) t u n w = Inr w' \<Longrightarrow> no_less (cc_tokens x) me w w'"
    and burn_takes_nothing: "share_burn_call (cc_shares x) t u n w = Inr w' \<Longrightarrow> u \<noteq> me \<Longrightarrow>
      no_less (cc_tokens x) me w w'"
    and plane_takes_nothing: "cc_plane_update x p me k xs ys w = Inr w' \<Longrightarrow> no_less (cc_tokens x) me w w'"
    and upgrade_takes_nothing: "cc_share_upgrade x t me h w = Inr w' \<Longrightarrow> no_less (cc_tokens x) me w w'"
begin

abbreviation bal :: "address \<Rightarrow> 'w \<Rightarrow> int" where
  "bal t w \<equiv> tk_balance (cc_tokens x) t me w"

lemma collect_adds:
  assumes "collect x e t u n w = Inr w'" and "current_contract e = me" and "u \<noteq> me" and "n \<le> U128_MAX"
  shows "bal t w' = bal t w + int n" and "t' \<noteq> t \<Longrightarrow> bal t' w' = bal t' w"
proof -
  have tr: "tk_transfer (cc_tokens x) t u me (as_i128 n) w = Inr w'"
    using assms(1,2) by (simp add: collect_def)
  note m = token_ledger.transfer_moves [OF ledger tr assms(3)]
  then have "as_i128 n = int n" using as_i128_exact assms(4) by blast
  with m show "bal t w' = bal t w + int n" by simp
  show "t' \<noteq> t \<Longrightarrow> bal t' w' = bal t' w"
    using token_ledger.transfer_frame [OF ledger tr assms(3)] by blast
qed

lemma pay_takes:
  assumes "pay x e t u n w = Inr w'" and "current_contract e = me"
  shows "bal t w - int n \<le> bal t w'" and "t' \<noteq> t \<Longrightarrow> bal t' w' = bal t' w"
proof -
  have tr: "tk_transfer (cc_tokens x) t me u (as_i128 n) w = Inr w'"
    using assms by (simp add: pay_def)
  have "bal t w - int n \<le> bal t w' \<and> (t' \<noteq> t \<longrightarrow> bal t' w' = bal t' w)"
  proof (cases "u = me")
    case True
    then show ?thesis using token_ledger.transfer_self [OF ledger] tr by auto
  next
    case False
    then have "me \<noteq> u" by simp
    from token_ledger.transfer_moves [OF ledger tr this] token_ledger.transfer_frame [OF ledger tr this]
      as_i128_le [of n] show ?thesis by auto
  qed
  then show "bal t w - int n \<le> bal t w'" "t' \<noteq> t \<Longrightarrow> bal t' w' = bal t' w" by blast+
qed

lemma refund_takes:
  assumes "refund x e t u taken used w = Inr w'" and "current_contract e = me"
  shows "bal t w - int (taken - used) \<le> bal t w'" and "t' \<noteq> t \<Longrightarrow> bal t' w' = bal t' w"
proof -
  have "bal t w - int (taken - used) \<le> bal t w' \<and> (t' \<noteq> t \<longrightarrow> bal t' w' = bal t' w)"
  proof (cases "used < taken")
    case True
    then have "pay x e t u (taken - used) w = Inr w'" using assms(1) by (auto simp: refund_def res_simps)
    from pay_takes [OF this assms(2)] show ?thesis by blast
  next
    case False
    then show ?thesis using assms(1) by (simp add: refund_def)
  qed
  then show "bal t w - int (taken - used) \<le> bal t w'" "t' \<noteq> t \<Longrightarrow> bal t' w' = bal t' w" by blast+
qed

lemma gauge_no_less:
  assumes "gauges_checkpoint_user (cc_gauges x) e u b n p w = Inr w'" and "current_contract e = me"
  shows "no_less (cc_tokens x) me w w'"
  using gauge_contracts_for.gauges_checkpoint_keeps [OF gauges assms] by (simp add: no_less_def)

lemma gauge_step_no_less:
  "gauge_checkpoint x e u us tot (s, w) = Inr (s', w') \<Longrightarrow> current_contract e = me \<Longrightarrow> no_less (cc_tokens x) me w w'"
  using gauge_checkpoint_InrD gauge_no_less by metis

lemma apply_upgrade_no_less:
  assumes "pl_apply_upgrade x e a (s, w) = Inr (v, s', w')" and "current_contract e = me"
  shows "no_less (cc_tokens x) me w w'"
proof -
  from assms obtain t h w1 h' p where "cc_share_upgrade x t me h w = Inr w1"
    and "gauges_upgrade (cc_gauges x) e h' p w1 = Inr w'"
    by (auto simp: pl_apply_upgrade_def Let_def res_simps)
  then show ?thesis
    using upgrade_takes_nothing gauge_contracts_for.gauges_upgrade_keeps [OF gauges _ assms(2)]
    by (auto simp: no_less_def)
qed

lemma manage_no_less:
  assumes "manage_exec x e s w a = Inr (s', w')" and "current_contract e = me"
  shows "no_less (cc_tokens x) me w w'"
  using assms by (cases a) (auto simp: res_simps dest: apply_upgrade_no_less)

lemma two_checkpoints_no_less:
  assumes "change_rewards_state x e u v (s, w) = Inr (s', w')" and "current_contract e = me"
  shows "no_less (cc_tokens x) me w w'"
proof -
  from change_rewards_state_InrD [OF assms(1)] obtain us s1 w1 s2 where
    "gauge_checkpoint x e u us (get_total_shares (pl_shares s)) (new_manager s, w) = Inr (s1, w1)"
    and "gauge_checkpoint x e u us (get_total_shares (pl_shares s)) (s2, w1) = Inr (s', w')" by blast
  from this [THEN gauge_step_no_less, OF assms(2)] show ?thesis by (rule no_less_trans)
qed

lemma gauge_and_rewards_no_less:
  assumes "gauge_and_rewards x e u us (s, w) = Inr (d, s', w')" and "current_contract e = me"
  shows "no_less (cc_tokens x) me w w'"
  using gauge_and_rewards_InrD [OF assms(1)] gauge_step_no_less [OF _ assms(2)] by blast

lemma reward_no_less:
  assumes run: "reward_exec x e s w a = Inr (s', w')" and me: "current_contract e = me"
  shows "no_less (cc_tokens x) me w w'"
proof (cases a)
  case (PlRewardsInfo u)
  with run obtain v where "pl_get_rewards_info x e u (s, w) = Inr (v, s', w')" by (auto simp: res_simps)
  from rewards_info_InrD [OF this] gauge_step_no_less [OF _ me] show ?thesis by blast
next
  case (PlUserReward u)
  with run show ?thesis by (auto simp: res_simps pl_get_user_reward_def dest!: gauge_and_rewards_no_less [OF _ me])
next
  case (PlCheckpointReward t u n)
  with run show ?thesis by (auto simp: res_simps pl_checkpoint_reward_def dest!: gauge_and_rewards_no_less [OF _ me])
next
  case (PlCheckpointWorking t u n)
  with run show ?thesis
    by (auto simp: res_simps pl_checkpoint_working_balance_def dest!: gauge_and_rewards_no_less [OF _ me])
next
  case (PlSetRewardsState u v)
  with run show ?thesis by (auto simp: res_simps pl_set_rewards_state_def dest!: two_checkpoints_no_less [OF _ me])
next
  case (PlAdminSetRewardsState b u v)
  with run show ?thesis
    by (auto simp: res_simps pl_admin_set_rewards_state_def dest!: two_checkpoints_no_less [OF _ me])
qed (use run in \<open>auto simp: res_simps\<close>)

lemma gauge_ops_no_less:
  assumes run: "gauge_exec x e s w a = Inr (s', w')" and me: "current_contract e = me"
    and "\<not> authorized e me"
  shows "no_less (cc_tokens x) me w w'"
proof (cases a)
  case (PlGaugeSchedule r d g st du n)
  with run obtain ws where "authorized e d"
    and sc: "gauges_schedule_rewards_config (cc_gauges x) e g d st du n ws w = Inr w'"
    by (auto simp: res_simps pl_gauge_schedule_reward_def Let_def split: prod.splits if_splits)
  then have "d \<noteq> me" using assms(3) by auto
  then show ?thesis
    using gauge_contracts_for.gauges_schedule_keeps [OF gauges sc me] by (simp add: no_less_def)
next
  case (PlGaugesClaim u)
  with run obtain b n p r where "gauges_claim (cc_gauges x) e u b n p w = Inr (r, w')"
    by (auto simp: res_simps pl_gauges_claim_def Let_def split_beta)
  then show ?thesis using gauge_contracts_for.gauges_claim_keeps [OF gauges _ me] by (simp add: no_less_def)
next
  case (PlGaugesInfo u)
  with run obtain b n p r where "gauges_get_rewards_info (cc_gauges x) e u b n p w = Inr (r, w')"
    by (auto simp: res_simps pl_gauges_get_reward_info_def Let_def split_beta)
  then show ?thesis using gauge_contracts_for.gauges_info_keeps [OF gauges _ me] by (simp add: no_less_def)
qed (use run in \<open>auto simp: res_simps\<close>)

lemma shared_no_less:
  "shared_exec x e s w a = Inr (s', w') \<Longrightarrow> current_contract e = me \<Longrightarrow> \<not> authorized e me \<Longrightarrow>
    no_less (cc_tokens x) me w w'"
  by (cases a) (auto dest: manage_no_less reward_no_less gauge_ops_no_less)

text \<open>
  A claim of rewards pays from the pool; a balance that is checked afterwards when it is in the
  reward token covers what it covered before.
\<close>

lemma claim_keeps:
  assumes g1: "gauges_checkpoint_user (cc_gauges x) e u g p gs w = Inr w1"
    and cl: "claim_reward c (cc_tokens x) u n us (r, w1) = Inr (v, s1, w2)" "rc_env c = e"
    and rt: "get_reward_token s1 = Inr token"
    and g2: "gauges_checkpoint_user (cc_gauges x) e u h q gs' w2 = Inr w'" and me: "current_contract e = me"
    and k: "int (k + f) \<le> bal t w" and cc: "claim_covered x e token w2 (t, k, f) = Inr ()"
  shows "int (k + f) \<le> bal t w'"
proof -
  from cl rt have "\<exists>n. tk_transfer (cc_tokens x) token me u n w1 = Inr w2"
    by (auto simp: claim_reward_def Let_def res_simps get_reward_token_def set_user_reward_data_def me)
  then obtain n where tr: "tk_transfer (cc_tokens x) token me u n w1 = Inr w2" ..
  have w1: "bal t w \<le> bal t w1" using gauge_no_less [OF g1 me] by (simp add: no_less_def)
  have stay: "bal t w2 = bal t w1" if "t \<noteq> token"
    using token_ledger.transfer_self [OF ledger] token_ledger.transfer_frame [OF ledger tr] that tr by (cases "u = me") auto
  have "0 \<le> bal t w1" using k w1 by linarith
  then have pos: "0 \<le> bal t w2"
    using token_ledger.transfer_self [OF ledger] token_ledger.transfer_moves [OF ledger tr] stay tr
    by (cases "u = me"; cases "t = token") auto
  have "int (k + f) \<le> bal t w2"
  proof (cases "t = token")
    case True
    then have "k + f \<le> as_u128 (bal t w2)" using cc me by (auto simp: claim_covered_def Let_def res_simps not_less split: if_splits)
    with as_u128_le [OF pos] show ?thesis by linarith
  next
    case False
    then show ?thesis using stay k w1 by linarith
  qed
  also have "\<dots> \<le> bal t w'" using gauge_no_less [OF g2 me] by (simp add: no_less_def)
  finally show ?thesis .
qed

end

text \<open>
  A host in which, moreover, burning shares takes them from their holder and moves no other balance,
  and the plane moves none: what an exact account of a pool's payments needs.
\<close>

locale quiet_host = pool_host +
  assumes burn_takes: "share_burn_call (cc_shares x) t u n w = Inr w' \<Longrightarrow> 0 \<le> n"
      "share_burn_call (cc_shares x) t u n w = Inr w' \<Longrightarrow>
        tk_balance (cc_tokens x) t' c w' = tk_balance (cc_tokens x) t' c w - (if t' = t \<and> c = u then n else 0)"
    and plane_moves_nothing: "cc_plane_update x p me k xs ys w = Inr w' \<Longrightarrow>
      tk_balance (cc_tokens x) t' c w' = tk_balance (cc_tokens x) t' c w"
begin

lemma pay_moves:
  assumes "pay x e t u a w = Inr w'" and "current_contract e = me" and "u \<noteq> me" and "a \<le> U128_MAX"
  shows "tk_balance (cc_tokens x) t' c w' = tk_balance (cc_tokens x) t' c w +
    (if t' = t \<and> c = u then int a else if t' = t \<and> c = me then - int a else 0)"
proof -
  have tr: "tk_transfer (cc_tokens x) t me u (as_i128 a) w = Inr w'"
    using assms(1,2) by (simp add: pay_def)
  note m = token_ledger.transfer_moves [OF ledger tr assms(3) [symmetric]]
    and f = token_ledger.transfer_frame [OF ledger tr assms(3) [symmetric], of t' c]
  have "as_i128 a = int a" using as_i128_exact assms(4) m by blast
  with m f show ?thesis by auto
qed

lemma collect_moves:
  assumes "collect x e t u a w = Inr w'" and "current_contract e = me" and "u \<noteq> me" and "a \<le> U128_MAX"
  shows "tk_balance (cc_tokens x) t' c w' = tk_balance (cc_tokens x) t' c w +
    (if t' = t \<and> c = u then - int a else if t' = t \<and> c = me then int a else 0)"
proof -
  have tr: "tk_transfer (cc_tokens x) t u me (as_i128 a) w = Inr w'"
    using assms(1,2) by (simp add: collect_def)
  note m = token_ledger.transfer_moves [OF ledger tr assms(3)]
    and f = token_ledger.transfer_frame [OF ledger tr assms(3), of t' c]
  have "as_i128 a = int a" using as_i128_exact assms(4) m by blast
  with m f show ?thesis by auto
qed

end

end
