(* ===== verification/CP_Trading.thy ===== *)
theory CP_Trading
  imports CP_Admin Pool_Host
begin

text \<open>
  What the trading operations of the constant-product pool do: for each of them the effect of a
  successful call on the pool's books (shares, reserves, protocol fees) and the order of the calls
  it makes, and from these the properties of single operations.
\<close>

section \<open>The books\<close>

record books =
  bk_shares :: nat
  bk_tokens :: "address option \<times> address option"
  bk_reserves :: "nat option \<times> nat option"
  bk_fees :: "nat \<times> nat"

definition books_of :: "cp_pool \<Rightarrow> books" where
  "books_of s = \<lparr>bk_shares = get_total_shares (pl_shares s), bk_tokens = (cp_token_a s, cp_token_b s),
     bk_reserves = (cp_reserve_a s, cp_reserve_b s), bk_fees = (cp_protocol_fee_a s, cp_protocol_fee_b s)\<rparr>"

lemma books_of_fields [simp]:
  "books_of (s\<lparr>pl_rewards := r\<rparr>) = books_of s" "books_of (s\<lparr>pl_gauges := g\<rparr>) = books_of s"
  "books_of (s\<lparr>pl_managed := m\<rparr>) = books_of s" "books_of (s\<lparr>pl_sync_ledger := l\<rparr>) = books_of s"
  "books_of (s\<lparr>pl_plane := p\<rparr>) = books_of s" "books_of (s\<lparr>pl_router := p\<rparr>) = books_of s"
  "books_of (s\<lparr>pl_killed_swap := k\<rparr>) = books_of s" "books_of (s\<lparr>pl_killed_deposit := k\<rparr>) = books_of s"
  "books_of (s\<lparr>pl_killed_claim := k\<rparr>) = books_of s" "books_of (s\<lparr>cp_fee_fraction := f\<rparr>) = books_of s"
  "books_of (s\<lparr>pl_protocol_fee_fraction := n\<rparr>) = books_of s"
  "books_of (s\<lparr>pl_token_future_wasm := f\<rparr>) = books_of s" "books_of (s\<lparr>pl_gauge_future_wasm := f\<rparr>) = books_of s"
  "books_of (s\<lparr>pl_config_storage := p\<rparr>) = books_of s" "books_of (new_manager s) = books_of s"
  by (simp_all add: books_of_def new_manager_def)

lemma books_of_put_reserves [simp]:
  "books_of (put_reserves a b s) = (books_of s)\<lparr>bk_reserves := (Some a, Some b)\<rparr>"
  by (simp add: books_of_def put_reserves_def)

lemma stored_reserves_eq_Inr [res_simps]:
  "cp_stored_reserves s = Inr (a, b) \<longleftrightarrow> bk_reserves (books_of s) = (Some a, Some b)"
  by (auto simp: cp_stored_reserves_def stored_def res_simps books_of_def)

lemma get_tokens_eq_Inr [res_simps]:
  "cp_get_tokens s = Inr (a, b) \<longleftrightarrow> bk_tokens (books_of s) = (Some a, Some b)"
  by (auto simp: cp_get_tokens_def stored_def res_simps books_of_def)

lemma total_shares_books: "get_total_shares (pl_shares s) = bk_shares (books_of s)"
  by (simp add: books_of_def)

section \<open>Steps shared by the operations\<close>

lemma settle_user_InrD:
  assumes "settle_user x e u (s, w) = Inr (tot, us, s', w')"
  shows "tot = bk_shares (books_of s) \<and> get_user_balance_shares (cc_shares x) (pl_shares s) w u = Inr us \<and>
    (\<exists>r. s' = s\<lparr>pl_rewards := r\<rparr>) \<and>
    (\<exists>b p. gauges_checkpoint_user (cc_gauges x) e u b p (pl_gauges s) w = Inr w')"
  using settle_user_effect [OF assms] by (simp add: total_shares_books)

lemma same_books_of: "same_books s s' \<Longrightarrow> books_of s' = books_of s"
  by (cases s; cases s') (simp add: same_books_def books_of_def)

lemma sync_reserves_InrD:
  assumes "sync_reserves x e s w = Inr s'"
  shows "s' = s \<or>
    (\<exists>ta tb a b a' b'. bk_tokens (books_of s) = (Some ta, Some tb) \<and> bk_reserves (books_of s) = (Some a, Some b) \<and>
      s' = s\<lparr>cp_reserve_a := Some a', cp_reserve_b := Some b', pl_sync_ledger := ledger_sequence e\<rparr> \<and>
      a \<le> a' \<and> b \<le> b' \<and> (bk_shares (books_of s) = 0 \<longrightarrow> a' = a \<and> b' = b) \<and>
      (a' \<noteq> a \<longrightarrow> a' + cp_protocol_fee_a s = as_u128 (tk_balance (cc_tokens x) ta (current_contract e) w)) \<and>
      (b' \<noteq> b \<longrightarrow> b' + cp_protocol_fee_b s = as_u128 (tk_balance (cc_tokens x) tb (current_contract e) w)))"
proof (cases "pl_sync_ledger s = ledger_sequence e")
  case True
  then show ?thesis using assms by (simp add: sync_reserves_def)
next
  case False
  with assms obtain ta tb a b where tok: "bk_tokens (books_of s) = (Some ta, Some tb)"
    and res: "bk_reserves (books_of s) = (Some a, Some b)"
    and rest: "(if bk_shares (books_of s) = 0 then Inr (s\<lparr>pl_sync_ledger := ledger_sequence e\<rparr>)
      else andthen (sync_one x e (rw_token (pl_rewards s)) w (ta, a, cp_protocol_fee_a s)) (\<lambda>a'.
        andthen (sync_one x e (rw_token (pl_rewards s)) w (tb, b, cp_protocol_fee_b s)) (\<lambda>b'.
        Inr ((if (a', b') \<noteq> (a, b) then put_reserves a' b' s else s)
          \<lparr>pl_sync_ledger := ledger_sequence e\<rparr>)))) = Inr s'"
    by (auto simp: sync_reserves_def Let_def res_simps total_shares_books)
  have same: "s\<lparr>pl_sync_ledger := l\<rparr> = s\<lparr>cp_reserve_a := Some a, cp_reserve_b := Some b, pl_sync_ledger := l\<rparr>" for l
    using res by (cases s) (simp add: books_of_def)
  show ?thesis
  proof (cases "bk_shares (books_of s) = 0")
    case True
    then show ?thesis using rest tok res same by auto
  next
    case False
    with rest obtain a' b' where
      a': "sync_one x e (rw_token (pl_rewards s)) w (ta, a, cp_protocol_fee_a s) = Inr a'" and
      b': "sync_one x e (rw_token (pl_rewards s)) w (tb, b, cp_protocol_fee_b s) = Inr b'" and
      s': "s' = (if (a', b') \<noteq> (a, b) then put_reserves a' b' s else s)\<lparr>pl_sync_ledger := ledger_sequence e\<rparr>"
      by (auto simp: res_simps)
    have "s' = s\<lparr>cp_reserve_a := Some a', cp_reserve_b := Some b', pl_sync_ledger := ledger_sequence e\<rparr>"
      using s' same by (auto simp: put_reserves_def split: if_splits)
    with sync_one_InrD [OF a'] sync_one_InrD [OF b'] tok res False show ?thesis by auto
  qed
qed

section \<open>Swaps\<close>

text \<open>The books after a swap of \<open>dx\<close> of token \<open>i\<close> for \<open>dy\<close> of the other, with protocol fee \<open>pf\<close>.\<close>

definition traded :: "nat \<Rightarrow> nat \<Rightarrow> nat \<Rightarrow> nat \<Rightarrow> nat \<times> nat \<Rightarrow> books \<Rightarrow> books" where
  "traded i dx dy pf r b =
     (if i = 0 then b\<lparr>bk_reserves := (Some (fst r + dx - pf), Some (snd r - dy)),
        bk_fees := (fst (bk_fees b) + pf, snd (bk_fees b))\<rparr>
      else b\<lparr>bk_reserves := (Some (fst r - dy), Some (snd r + dx - pf)),
        bk_fees := (fst (bk_fees b), snd (bk_fees b) + pf)\<rparr>)"

lemma check_indices_eq_Inr [res_simps]:
  "check_indices i j = Inr u \<longleftrightarrow> (i = 0 \<and> j = 1 \<or> i = 1 \<and> j = 0)"
  by (auto simp: check_indices_def split: if_splits)

lemma pick_simps [simp]: "pick 0 p = fst p" "pick (Suc 0) p = snd p" "pick 1 p = snd p"
  by (simp_all add: pick_def)

lemma protocol_share_InrD:
  assumes "protocol_share fee s = Inr (pf, lf)"
  shows "pf = fee * pl_protocol_fee_fraction s div FEE_MULTIPLIER" and "pf + lf = fee"
  using assms by (auto simp: protocol_share_def Let_def res_simps)

lemma finish_swap_InrD:
  assumes cr: "credit_reserve i dx ra rb s = Inr (na, nb, s1)"
    and st: "settle_swap x e u j dy split ra rb na nb (s1, w) = Inr (s', w')"
    and ij: "i = 0 \<and> j = 1 \<or> i = 1 \<and> j = 0"
    and res: "bk_reserves (books_of s) = (Some ra, Some rb)"
  shows "\<exists>pf lf ta tb w1. split = Inr (pf, lf) \<and> bk_tokens (books_of s) = (Some ta, Some tb) \<and>
    pay x e (pick j (ta, tb)) u dy w = Inr w1 \<and> update_plane x e s' w1 = Inr w' \<and>
    books_of s' = traded i dx dy pf (ra, rb) (books_of s) \<and> pl_rewards s' = pl_rewards s \<and>
    dy \<le> pick j (ra, rb) \<and> pf \<le> pick i (ra, rb) + dx"
  using ij
proof
  assume ij: "i = 0 \<and> j = 1"
  then have s1: "na = ra + dx" "nb = rb" "s1 = s\<lparr>cp_reserve_a := Some (ra + dx)\<rparr>"
    using cr by (auto simp: credit_reserve_def res_simps)
  have tok: "bk_tokens (books_of s1) = bk_tokens (books_of s)" by (simp add: s1 books_of_def)
  from st ij obtain pf lf ta tb w1 where "split = Inr (pf, lf)"
    and "bk_tokens (books_of s1) = (Some ta, Some tb)" and "pay x e tb u dy w = Inr w1"
    and b: "pf \<le> na" "dy \<le> nb" and "update_plane x e s' w1 = Inr w'"
    and s': "s' = put_reserves (na - pf) (nb - dy) (s1\<lparr>cp_protocol_fee_a := cp_protocol_fee_a s1 + pf\<rparr>)"
    by (auto simp: settle_swap_def Let_def res_simps)
  then show ?thesis using ij tok by (auto simp: s' s1 traded_def books_of_def put_reserves_def)
next
  assume ij: "i = 1 \<and> j = 0"
  then have s1: "na = ra" "nb = rb + dx" "s1 = s\<lparr>cp_reserve_b := Some (rb + dx)\<rparr>"
    using cr by (auto simp: credit_reserve_def res_simps)
  have tok: "bk_tokens (books_of s1) = bk_tokens (books_of s)" by (simp add: s1 books_of_def)
  from st ij obtain pf lf ta tb w1 where "split = Inr (pf, lf)"
    and "bk_tokens (books_of s1) = (Some ta, Some tb)" and "pay x e ta u dy w = Inr w1"
    and b: "pf \<le> nb" "dy \<le> na" and "update_plane x e s' w1 = Inr w'"
    and s': "s' = put_reserves (na - dy) (nb - pf) (s1\<lparr>cp_protocol_fee_b := cp_protocol_fee_b s1 + pf\<rparr>)"
    by (auto simp: settle_swap_def Let_def res_simps)
  then show ?thesis using ij tok by (auto simp: s' s1 traded_def books_of_def put_reserves_def)
qed

text \<open>A completed swap, of either kind: the quote it used, the transfers it made, the new books.\<close>

definition swap_done ::
  "'w host_calls \<Rightarrow> env \<Rightarrow> address \<Rightarrow> nat \<Rightarrow> nat \<Rightarrow> nat \<Rightarrow> nat \<Rightarrow> nat \<Rightarrow> nat \<Rightarrow> cp_pool \<Rightarrow> cp_pool \<Rightarrow> 'w \<Rightarrow> 'w \<Rightarrow> bool" where
  "swap_done x e u i j dx dy fee pf s1 s' w1 w' \<longleftrightarrow>
     authorized e u \<and> (i = 0 \<and> j = 1 \<or> i = 1 \<and> j = 0) \<and> 0 < dx \<and> pf \<le> fee \<and>
     pf = fee * pl_protocol_fee_fraction s1 div FEE_MULTIPLIER \<and>
     (\<exists>ra rb ta tb w2. bk_reserves (books_of s1) = (Some ra, Some rb) \<and>
        bk_tokens (books_of s1) = (Some ta, Some tb) \<and> 0 < ra \<and> 0 < rb \<and> dy \<le> pick j (ra, rb) \<and>
        pay x e (pick j (ta, tb)) u dy w1 = Inr w2 \<and> update_plane x e s' w2 = Inr w' \<and>
        pf \<le> pick i (ra, rb) + dx \<and>
        books_of s' = traded i dx dy pf (ra, rb) (books_of s1)) \<and> pl_rewards s' = pl_rewards s1"

lemma cp_swap_InrD:
  assumes "cp_swap x e u i j dx m (s, w) = Inr (dy, s', w')"
  shows "\<exists>s1 fee pf w1 ra rb ta tb f. sync_reserves x e s w = Inr s1 \<and>
    bk_reserves (books_of s1) = (Some ra, Some rb) \<and> bk_tokens (books_of s1) = (Some ta, Some tb) \<and>
    cp_fee_fraction s1 = Some f \<and>
    get_amount_out (cc_fp x) (Inr f) dx (pick i (ra, rb)) (pick j (ra, rb)) = Inr (dy, fee) \<and>
    collect x e (pick i (ta, tb)) u dx w = Inr w1 \<and> m \<le> dy \<and> \<not> pl_killed_swap s \<and>
    swap_done x e u i j dx dy fee pf s1 s' w1 w'"
proof -
  from assms obtain s1 ra rb ta tb fee pf lf w1 na nb s2 where
    g: "authorized e u" "\<not> pl_killed_swap s" "i = 0 \<and> j = 1 \<or> i = 1 \<and> j = 0" "0 < dx" and
    sync: "sync_reserves x e s w = Inr s1" and res: "bk_reserves (books_of s1) = (Some ra, Some rb)" and
    tok: "bk_tokens (books_of s1) = (Some ta, Some tb)" and
    pos: "pick i (ra, rb) \<noteq> 0" "pick j (ra, rb) \<noteq> 0" and
    q: "get_amount_out (cc_fp x) (stored (cp_fee_fraction s1)) dx (pick i (ra, rb)) (pick j (ra, rb)) = Inr (dy, fee)" and
    sh: "protocol_share fee s1 = Inr (pf, lf)" and m: "m \<le> dy" and
    c: "collect x e (pick i (ta, tb)) u dx w = Inr w1" and
    cr: "credit_reserve i dx ra rb s1 = Inr (na, nb, s2)" and
    st: "settle_swap x e u j dy (Inr (pf, lf)) ra rb na nb (s2, w1) = Inr (s', w')"
    unfolding cp_swap_def Let_def by (fastforce simp: res_simps split: prod.splits)
  from q g(4) obtain f where f: "cp_fee_fraction s1 = Some f"
    by (auto simp: get_amount_out_def stored_def res_simps)
  from finish_swap_InrD [OF cr st g(3) res] protocol_share_InrD [OF sh] tok
  have "swap_done x e u i j dx dy fee pf s1 s' w1 w'"
    unfolding swap_done_def using g pos res by auto
  then show ?thesis using sync res tok f q c m g by (auto simp: stored_def)
qed

lemma cp_swap_strict_receive_InrD:
  assumes "cp_swap_strict_receive x e u i j dy m (s, w) = Inr (dx, s', w')"
    and lib: "fixed_point_lib (cc_fp x)"
  shows "\<exists>s1 fee pf w1 w2 ra rb ta tb f. sync_reserves x e s w = Inr s1 \<and>
    bk_reserves (books_of s1) = (Some ra, Some rb) \<and> bk_tokens (books_of s1) = (Some ta, Some tb) \<and>
    cp_fee_fraction s1 = Some f \<and> 0 < dy \<and>
    get_amount_out_strict_receive (cc_fp x) (Inr f) dy (pick i (ra, rb)) (pick j (ra, rb)) = Inr (dx, fee) \<and>
    collect x e (pick i (ta, tb)) u m w = Inr w1 \<and> refund x e (pick i (ta, tb)) u m dx w1 = Inr w2 \<and>
    dx \<le> m \<and> \<not> pl_killed_swap s \<and> swap_done x e u i j dx dy fee pf s1 s' w2 w'"
proof -
  from assms(1) obtain s1 ra rb ta tb fee w1 w2 na nb s2 where
    g: "authorized e u" "\<not> pl_killed_swap s" "i = 0 \<and> j = 1 \<or> i = 1 \<and> j = 0" "0 < dy" and
    sync: "sync_reserves x e s w = Inr s1" and res: "bk_reserves (books_of s1) = (Some ra, Some rb)" and
    tok: "bk_tokens (books_of s1) = (Some ta, Some tb)" and
    pos: "pick i (ra, rb) \<noteq> 0" "pick j (ra, rb) \<noteq> 0" and
    q: "get_amount_out_strict_receive (cc_fp x) (stored (cp_fee_fraction s1)) dy
      (pick i (ra, rb)) (pick j (ra, rb)) = Inr (dx, fee)" and
    m: "dx \<le> m" and c: "collect x e (pick i (ta, tb)) u m w = Inr w1" and
    rf: "refund x e (pick i (ta, tb)) u m dx w1 = Inr w2" and
    cr: "credit_reserve i dx ra rb s1 = Inr (na, nb, s2)" and
    st: "settle_swap x e u j dy (protocol_share fee s2) ra rb na nb (s2, w2) = Inr (s', w')"
    unfolding cp_swap_strict_receive_def Let_def by (fastforce simp: res_simps split: prod.splits)
  from q g(4) obtain f where f: "cp_fee_fraction s1 = Some f"
    by (auto simp: get_amount_out_strict_receive_def stored_def res_simps split: if_splits)
  have q': "get_amount_out_strict_receive (cc_fp x) (Inr f) dy (pick i (ra, rb)) (pick j (ra, rb)) = Inr (dx, fee)"
    using q f by (simp add: stored_def)
  have same: "protocol_share fee s2 = protocol_share fee s1"
    using cr by (auto simp: credit_reserve_def res_simps protocol_share_def split: if_splits)
  note sr = strict_receive_InrD [OF lib q' g(4)]
  have "0 < dx"
    using sr(3) pos g(4) sr(1,2) by (simp add: ceil_div_pos FEE_MULTIPLIER_def)
  from finish_swap_InrD [OF cr st g(3) res] same obtain pf lf ta' tb' w3 where
    "protocol_share fee s1 = Inr (pf, lf)" and "bk_tokens (books_of s1) = (Some ta', Some tb')" and
    "pay x e (pick j (ta', tb')) u dy w2 = Inr w3" "update_plane x e s' w3 = Inr w'"
    "books_of s' = traded i dx dy pf (ra, rb) (books_of s1)" "pl_rewards s' = pl_rewards s1"
    "dy \<le> pick j (ra, rb)" "pf \<le> pick i (ra, rb) + dx" by auto
  with protocol_share_InrD [of fee s1 pf lf] have "swap_done x e u i j dx dy fee pf s1 s' w2 w'"
    unfolding swap_done_def using g pos res \<open>0 < dx\<close> by auto
  then show ?thesis using sync res tok f q' c m rf g by blast
qed

section \<open>Deposits and withdrawals\<close>

lemma as_u128_i128 [simp]: "n \<le> U128_MAX \<Longrightarrow> as_u128 (as_i128 n) = n"
proof -
  assume n: "n \<le> U128_MAX"
  show "as_u128 (as_i128 n) = n"
  proof (cases "n \<le> I128_MAX")
    case True
    then show ?thesis by (simp add: as_i128_def as_u128_def I128_MAX_def nat_mod_as_int)
  next
    case False
    let ?B = "340282366920938463463374607431768211456 :: int"
    have "(int n - ?B) mod ?B = int n mod ?B" by simp
    also have "\<dots> = int n" using n by (simp add: U128_MAX_def)
    finally show ?thesis using False by (simp add: as_i128_def as_u128_def)
  qed
qed

lemma deposit_amounts_le:
  assumes "get_deposit_amounts fp da ma db mb ra rb = Inr (a, b)"
  shows "a \<le> da" and "b \<le> db"
  using assms by (auto simp: get_deposit_amounts_def res_simps split: if_splits)

lemma new_total_shares_le:
  assumes "new_total_shares fp t ra rb na nb = Inr n" and "fixed_point_lib fp"
  shows "n \<le> U128_MAX" and "0 < ra \<Longrightarrow> 0 < rb \<Longrightarrow> n * ra \<le> t * na \<and> n * rb \<le> t * nb"
proof -
  note floor = fixed_point_lib.mul_floor_eq_Inr [OF assms(2)]
  show "n \<le> U128_MAX"
    using assms(1) by (auto simp: new_total_shares_def res_simps floor split: if_splits)
  show "n * ra \<le> t * na \<and> n * rb \<le> t * nb" if "0 < ra" and "0 < rb"
  proof -
    have n: "n \<le> na * t div ra" "n \<le> nb * t div rb"
      using assms(1) that by (auto simp: new_total_shares_def res_simps floor)
    have "n * ra \<le> na * t" using n(1) that(1) by (simp add: less_eq_div_iff_mult_less_eq)
    moreover have "n * rb \<le> nb * t" using n(2) that(2) by (simp add: less_eq_div_iff_mult_less_eq)
    ultimately show ?thesis by (simp add: mult.commute)
  qed
qed

text \<open>A completed deposit: its calls in their order, and the new books.\<close>

lemma cp_deposit_InrD:
  assumes run: "cp_deposit x e u ds m (s, w) = Inr (((a, b), mt), s', w')"
    and lib: "fixed_point_lib (cc_fp x)"
  shows "\<exists>s1 ra rb ta tb g p w1 w2 w3 w4 w5 w6 sh w7 n h q.
    authorized e u \<and> \<not> pl_killed_deposit s \<and> length ds = 2 \<and> sync_reserves x e s w = Inr s1 \<and>
    bk_reserves (books_of s1) = (Some ra, Some rb) \<and> bk_tokens (books_of s1) = (Some ta, Some tb) \<and>
    (ra = 0 \<and> rb = 0 \<longrightarrow> 0 < ds ! 0 \<and> 0 < ds ! 1) \<and>
    get_deposit_amounts (cc_fp x) (ds ! 0) 0 (ds ! 1) 0 ra rb = Inr (a, b) \<and>
    ra + a \<le> U128_MAX \<and> rb + b \<le> U128_MAX \<and>
    new_total_shares (cc_fp x) (bk_shares (books_of s1)) ra rb (ra + a) (rb + b) = Inr n \<and>
    n = bk_shares (books_of s1) + mt \<and> m \<le> mt \<and>
    gauges_checkpoint_user (cc_gauges x) e u g p (pl_gauges s1) w = Inr w1 \<and>
    collect x e ta u (ds ! 0) w1 = Inr w2 \<and> collect x e tb u (ds ! 1) w2 = Inr w3 \<and>
    refund x e ta u (ds ! 0) a w3 = Inr w4 \<and> refund x e tb u (ds ! 1) b w4 = Inr w5 \<and>
    share_mint_call (cc_shares x) sh u (as_i128 mt) w5 = Inr w6 \<and>
    gauges_checkpoint_user (cc_gauges x) e u h q (pl_gauges s1) w6 = Inr w7 \<and> update_plane x e s' w7 = Inr w' \<and>
    books_of s' = (books_of s1)\<lparr>bk_shares := n, bk_reserves := (Some (ra + a), Some (rb + b))\<rparr>"
proof -
  from run obtain s1 ra rb tot us s2 w1 s3 wx where
    g: "authorized e u" "\<not> pl_killed_deposit s" "length ds = 2" and
    sync: "sync_reserves x e s w = Inr s1" and res: "bk_reserves (books_of s1) = (Some ra, Some rb)" and
    su: "settle_user x e u (s1, w) = Inr (tot, us, s2, w1)" and
    all: "\<not> ((ra = 0 \<and> rb = 0) \<and> (ds ! 0 = 0 \<or> ds ! 1 = 0))" and
    dt: "deposit_tokens x e u (ds ! 0, ds ! 1) (ra, rb) (s2, w1) = Inr ((a, b), s3, wx)" and
    dsh: "deposit_shares x e u us m (ra, rb) (s3, wx) = Inr (mt, s', w')"
    by (auto simp: cp_deposit_def Let_def res_simps)
  from dt obtain ta tb w2 w3 w4 where
    tok: "bk_tokens (books_of s2) = (Some ta, Some tb)" and
    w2: "collect x e ta u (ds ! 0) w1 = Inr w2" and w3: "collect x e tb u (ds ! 1) w2 = Inr w3" and
    am: "get_deposit_amounts (cc_fp x) (ds ! 0) 0 (ds ! 1) 0 ra rb = Inr (a, b)" and
    nn: "ra + a \<le> U128_MAX" "rb + b \<le> U128_MAX" and
    w4: "refund x e ta u (ds ! 0) a w3 = Inr w4" and w5: "refund x e tb u (ds ! 1) b w4 = Inr wx" and
    s3: "s3 = put_reserves (ra + a) (rb + b) s2"
    by (auto simp: deposit_tokens_def Let_def res_simps)
  from settle_user_InrD [OF su] obtain r b1 p1 where s2: "s2 = s1\<lparr>pl_rewards := r\<rparr>"
    and g1: "gauges_checkpoint_user (cc_gauges x) e u b1 p1 (pl_gauges s1) w = Inr w1" by auto
  have shares: "pl_shares s3 = pl_shares s1" by (simp add: s2 s3 put_reserves_def)
  have res3: "cp_stored_reserves s3 = Inr (ra + a, rb + b)" by (simp add: res_simps s3)
  have tot3: "bk_shares (books_of s3) = bk_shares (books_of s1)" by (simp add: s2 s3)
  from dsh obtain n sh w6 s6 w7 where
    n: "new_total_shares (cc_fp x) (bk_shares (books_of s1)) ra rb (ra + a) (rb + b) = Inr n" and
    mt: "n = bk_shares (books_of s1) + mt" and m: "m \<le> mt" and
    w6: "mint_shares (cc_shares x) u (as_i128 mt) (pl_shares s1, wx) = Inr (sh, w6)" and
    gc: "gauge_checkpoint x e u 0 0
      (new_manager ((put_reserves (ra + a) (rb + b) s3)\<lparr>pl_shares := sh\<rparr>), w6) = Inr (s6, w7)" and
    rr: "\<exists>k w8. rewards_reweigh x e u n k (s6, w7) = Inr (s', w8) \<and> update_plane x e s' w8 = Inr w'"
    by (auto simp: deposit_shares_def Let_def res3 tot3 shares total_shares_books res_simps not_less) blast
  have "mt \<le> U128_MAX" using new_total_shares_le(1) [OF n lib] mt by simp
  with mint_shares_InrD [OF w6] obtain sht where
    sht: "share_mint_call (cc_shares x) sht u (as_i128 mt) wx = Inr w6"
    and tot: "get_total_shares sh = n" by (auto simp: mt total_shares_books)
  from gauge_checkpoint_InrD [OF gc] obtain r6 b6 p6 where
    s6: "s6 = (new_manager ((put_reserves (ra + a) (rb + b) s3)\<lparr>pl_shares := sh\<rparr>))\<lparr>pl_rewards := r6\<rparr>"
    and g6: "gauges_checkpoint_user (cc_gauges x) e u b6 p6 (pl_gauges s1) w6 = Inr w7"
    by (auto simp: new_manager_def put_reserves_def s2 s3)
  from rr rewards_reweigh_InrD obtain r7 where s': "s' = s6\<lparr>pl_rewards := r7\<rparr>"
    and pl: "update_plane x e s' w7 = Inr w'" by metis
  have books: "books_of s' = (books_of s1)\<lparr>bk_shares := n, bk_reserves := (Some (ra + a), Some (rb + b))\<rparr>"
    using tot by (simp add: s' s6 new_manager_def put_reserves_def s2 s3 books_of_def)
  have tok': "bk_tokens (books_of s1) = (Some ta, Some tb)" using tok by (simp add: s2)
  have pos: "ra = 0 \<and> rb = 0 \<longrightarrow> 0 < ds ! 0 \<and> 0 < ds ! 1" using all by auto
  show ?thesis
    by (intro exI conjI) (rule g sync res tok' pos am nn n mt m g1 w2 w3 w4 w5 sht g6 pl books)+
qed

lemma cp_withdraw_InrD:
  assumes run: "cp_withdraw x e u n ms (s, w) = Inr ((a, b), s', w')"
    and lib: "fixed_point_lib (cc_fp x)"
  shows "\<exists>s1 ra rb ta tb g p w1 w2 w3 w4 sh w5 h q.
    authorized e u \<and> length ms = 2 \<and> sync_reserves x e s w = Inr s1 \<and>
    bk_reserves (books_of s1) = (Some ra, Some rb) \<and> bk_tokens (books_of s1) = (Some ta, Some tb) \<and>
    gauges_checkpoint_user (cc_gauges x) e u g p (pl_gauges s1) w = Inr w1 \<and>
    n \<le> bk_shares (books_of s1) \<and> 0 < bk_shares (books_of s1) \<and>
    share_burn_call (cc_shares x) sh u (as_i128 n) w1 = Inr w2 \<and>
    a = ra * n div bk_shares (books_of s1) \<and> b = rb * n div bk_shares (books_of s1) \<and>
    ms ! 0 \<le> a \<and> ms ! 1 \<le> b \<and> a \<le> ra \<and> b \<le> rb \<and>
    sh_token (pl_shares s1) = Some sh \<and> a \<le> U128_MAX \<and> b \<le> U128_MAX \<and>
    pay x e ta u a w2 = Inr w3 \<and> pay x e tb u b w3 = Inr w4 \<and>
    gauges_checkpoint_user (cc_gauges x) e u h q (pl_gauges s1) w4 = Inr w5 \<and> update_plane x e s' w5 = Inr w' \<and>
    books_of s' = (books_of s1)\<lparr>bk_shares := bk_shares (books_of s1) - n,
      bk_reserves := (Some (ra - a), Some (rb - b))\<rparr>"
proof -
  from run obtain s1 tot us s2 w1 sh w2 s3 where
    g: "authorized e u" "length ms = 2" and sync: "sync_reserves x e s w = Inr s1" and
    su: "settle_user x e u (s1, w) = Inr (tot, us, s2, w1)" and
    bs: "burn_shares (cc_shares x) u n (pl_shares s2, w1) = Inr (sh, w2)" and
    s3: "s3 = s2\<lparr>pl_shares := sh\<rparr>" and
    rest: "andthen (cp_stored_reserves s3) (\<lambda>(reserve_a, reserve_b).
        andthen (mul_floor (cc_fp x) reserve_a n tot) (\<lambda>out_a.
        andthen (mul_floor (cc_fp x) reserve_b n tot) (\<lambda>out_b.
        if out_a < ms ! 0 \<or> out_b < ms ! 1
        then Inl (ValidationError V_OutMinNotSatisfied)
        else
          andthen (cp_get_tokens s3) (\<lambda>(token_a, token_b).
          andthen (pay x e token_a u out_a w2) (\<lambda>w.
          andthen (pay x e token_b u out_b w) (\<lambda>w.
          andthen (u_sub reserve_a out_a) (\<lambda>new_reserve_a.
          andthen (u_sub reserve_b out_b) (\<lambda>new_reserve_b.
          let s = new_manager (put_reserves new_reserve_a new_reserve_b s3) in
          andthen (u_sub us n) (\<lambda>new_user_shares.
          andthen (u_sub tot n) (\<lambda>new_total.
          andthen (gauge_checkpoint x e u new_user_shares new_total (s, w)) (\<lambda>sw.
          andthen (rewards_reweigh x e u new_total new_user_shares sw) (\<lambda>(s, w).
          andthen (update_plane x e s w) (\<lambda>w.
          Inr ((out_a, out_b), s, w)))))))))))))) = Inr ((a, b), s', w')"
    by (auto simp: cp_withdraw_def Let_def res_simps)
  from settle_user_InrD [OF su] obtain r b1 p1 where s2: "s2 = s1\<lparr>pl_rewards := r\<rparr>"
    and tot: "tot = bk_shares (books_of s1)"
    and g1: "gauges_checkpoint_user (cc_gauges x) e u b1 p1 (pl_gauges s1) w = Inr w1" by auto
  from burn_shares_InrD [OF bs] obtain sht where n: "n \<le> bk_shares (books_of s1)"
    and tot': "get_total_shares sh = bk_shares (books_of s1) - n"
    and sht: "share_burn_call (cc_shares x) sht u (as_i128 n) w1 = Inr w2" "sh_token (pl_shares s1) = Some sht"
    by (auto simp: s2 total_shares_books)
  have b3: "books_of s3 = (books_of s1)\<lparr>bk_shares := bk_shares (books_of s1) - n\<rparr>"
    by (simp add: s3 s2 books_of_def tot')
  note floor = fixed_point_lib.mul_floor_eq_Inr [OF lib]
  from rest obtain ra rb ta tb w3 w4 s4 w5 k where
    res: "bk_reserves (books_of s1) = (Some ra, Some rb)" and tok: "bk_tokens (books_of s1) = (Some ta, Some tb)" and
    ab: "a = ra * n div tot" "b = rb * n div tot" "tot \<noteq> 0" "ms ! 0 \<le> a" "ms ! 1 \<le> b" "a \<le> ra" "b \<le> rb"
      "a \<le> U128_MAX" "b \<le> U128_MAX" and
    w3: "pay x e ta u a w2 = Inr w3" and w4: "pay x e tb u b w3 = Inr w4" and
    gc: "gauge_checkpoint x e u (us - n) (tot - n) (new_manager (put_reserves (ra - a) (rb - b) s3), w4) = Inr (s4, w5)" and
    rr: "\<exists>w6. rewards_reweigh x e u (tot - n) (us - n) (s4, w5) = Inr (s', w6) \<and> update_plane x e s' w6 = Inr w'"
    by (auto simp: Let_def res_simps floor b3 not_less)
  from gauge_checkpoint_InrD [OF gc] obtain r4 b4 p4 where
    s4: "s4 = (new_manager (put_reserves (ra - a) (rb - b) s3))\<lparr>pl_rewards := r4\<rparr>"
    and g4: "gauges_checkpoint_user (cc_gauges x) e u b4 p4 (pl_gauges s1) w4 = Inr w5"
    by (auto simp: new_manager_def put_reserves_def s3 s2)
  from rr rewards_reweigh_InrD obtain r7 where s': "s' = s4\<lparr>pl_rewards := r7\<rparr>"
    and pl: "update_plane x e s' w5 = Inr w'" by metis
  have books: "books_of s' = (books_of s1)\<lparr>bk_shares := bk_shares (books_of s1) - n,
      bk_reserves := (Some (ra - a), Some (rb - b))\<rparr>"
    by (simp add: s' s4 b3)
  have pos: "0 < bk_shares (books_of s1)" using ab(3) tot by simp
  show ?thesis
    by (intro exI conjI)
      (rule g sync res tok g1 n pos sht ab(1,2) [unfolded tot] ab(4-9) w3 w4 g4 pl books)+
qed

chapter \<open>What a single trade guarantees\<close>

text \<open>
  What one operation of the constant-product pool does to the value of its shares: the product of
  the reserves in a swap, the reserves behind a share in a deposit and a withdrawal, and the
  agreement of the estimates with the operations they estimate.
\<close>

section \<open>The product of the reserves\<close>

definition bk_product :: "books \<Rightarrow> nat" where
  "bk_product b = the (fst (bk_reserves b)) * the (snd (bk_reserves b))"

lemma sell_quote:
  assumes "fixed_point_lib fp" and "get_amount_out fp (Inr f) dx x y = Inr (out, fee)" and "0 < dx"
  shows "\<exists>d. out * (x + d) \<le> d * y \<and> out \<le> y \<and> d \<le> dx \<and> fee = dx - d"
proof (intro exI conjI)
  note i = get_amount_out_InrD [OF assms]
  let ?d = "dx * (FEE_MULTIPLIER - f) div FEE_MULTIPLIER"
  show "out * (x + ?d) \<le> ?d * y" by (simp add: i(2))
  show "out \<le> y" unfolding i(2) by (rule quote_le_reserve)
  show "?d \<le> dx" "fee = dx - ?d" by (rule i)+
qed

lemma buy_quote:
  assumes lib: "fixed_point_lib fp" and q: "get_amount_out_strict_receive fp (Inr f) out x y = Inr (dx, fee)"
    and out: "0 < out"
  shows "\<exists>d. out * (x + d) \<le> d * y \<and> out \<le> y \<and> d \<le> dx \<and> fee = dx - d"
proof (intro exI conjI)
  define d where "d = ceil_div (x * out) (y - out)"
  note i = strict_receive_InrD [OF lib q out, folded d_def]
  have "x * out \<le> d * (y - out)" unfolding d_def using i(2) by (intro ceil_div_mult_ge) simp
  moreover have "d * y = d * (y - out) + d * out" using i(2) by (simp flip: add_mult_distrib2)
  moreover have "out * (x + d) = x * out + d * out" by (simp add: algebra_simps)
  ultimately show "out * (x + d) \<le> d * y" by linarith
  show "out \<le> y" "d \<le> dx" "fee = dx - d" using i by simp_all
qed

lemma product_after_fee:
  fixes x y d dx out pf :: nat
  assumes "out * (x + d) \<le> d * y" and "out \<le> y" and "d \<le> dx" and "pf \<le> dx - d"
  shows "x * y \<le> (x + dx - pf) * (y - out)"
proof -
  have "x * y \<le> (x + d) * (y - out)" using product_kept_iff [OF assms(2)] assms(1) by blast
  also have "\<dots> \<le> (x + dx - pf) * (y - out)" using assms(3,4) by (intro mult_le_mono1) linarith
  finally show ?thesis .
qed

lemma swap_done_product:
  assumes sw: "swap_done x e u i j dx dy fee pf s1 s' w1 w'"
    and res: "bk_reserves (books_of s1) = (Some ra, Some rb)"
    and q: "\<exists>d. dy * (pick i (ra, rb) + d) \<le> d * pick j (ra, rb) \<and> dy \<le> pick j (ra, rb) \<and> d \<le> dx \<and> fee = dx - d"
  shows "bk_product (books_of s1) \<le> bk_product (books_of s')"
proof -
  have ij: "i = 0 \<and> j = 1 \<or> i = 1 \<and> j = 0" and pf: "pf \<le> fee"
    and b: "books_of s' = traded i dx dy pf (ra, rb) (books_of s1)"
    using sw res by (auto simp: swap_done_def)
  from q obtain d where d: "dy * (pick i (ra, rb) + d) \<le> d * pick j (ra, rb)" "dy \<le> pick j (ra, rb)"
    "d \<le> dx" "fee = dx - d" by blast
  have "pick i (ra, rb) * pick j (ra, rb) \<le> (pick i (ra, rb) + dx - pf) * (pick j (ra, rb) - dy)"
    using d pf by (intro product_after_fee [of _ _ d]) auto
  then show ?thesis using ij res by (auto simp: b traded_def bk_product_def mult.commute)
qed

lemma swap_effect:
  assumes "fixed_point_lib (cc_fp x)"
    and "cp_swap x e u i j amount limit (s, w) = Inr (r, s', w') \<or>
      cp_swap_strict_receive x e u i j amount limit (s, w) = Inr (r, s', w')"
  shows "\<exists>s1 dx dy fee pf w1. sync_reserves x e s w = Inr s1 \<and>
    swap_done x e u i j dx dy fee pf s1 s' w1 w' \<and> bk_product (books_of s1) \<le> bk_product (books_of s')"
  using assms(2)
proof
  assume "cp_swap x e u i j amount limit (s, w) = Inr (r, s', w')"
  from cp_swap_InrD [OF this] obtain s1 fee pf w1 ra rb f where sync: "sync_reserves x e s w = Inr s1"
    and res: "bk_reserves (books_of s1) = (Some ra, Some rb)"
    and q: "get_amount_out (cc_fp x) (Inr f) amount (pick i (ra, rb)) (pick j (ra, rb)) = Inr (r, fee)"
    and sw: "swap_done x e u i j amount r fee pf s1 s' w1 w'" by blast
  have "0 < amount" using sw by (simp add: swap_done_def)
  from swap_done_product [OF sw res sell_quote [OF assms(1) q this]] sync sw show ?thesis by blast
next
  assume "cp_swap_strict_receive x e u i j amount limit (s, w) = Inr (r, s', w')"
  from cp_swap_strict_receive_InrD [OF this assms(1)] obtain s1 fee pf w2 ra rb f where
    sync: "sync_reserves x e s w = Inr s1" and res: "bk_reserves (books_of s1) = (Some ra, Some rb)" and
    q: "get_amount_out_strict_receive (cc_fp x) (Inr f) amount (pick i (ra, rb)) (pick j (ra, rb)) = Inr (r, fee)" and
    pos: "0 < amount" and sw: "swap_done x e u i j r amount fee pf s1 s' w2 w'" by blast
  from swap_done_product [OF sw res buy_quote [OF assms(1) q pos]] sync sw show ?thesis by blast
qed

text \<open>
  Claim C6: a swap of either kind never lowers the product of the reserves (as they stand
  after synchronization), even though the protocol's part of the fee leaves them.
\<close>

theorem swap_product_never_falls:
  assumes "fixed_point_lib (cc_fp x)"
    and "cp_swap x e u i j amount limit (s, w) = Inr (r, s', w') \<or>
      cp_swap_strict_receive x e u i j amount limit (s, w) = Inr (r, s', w')"
  shows "\<exists>s1. sync_reserves x e s w = Inr s1 \<and> bk_product (books_of s1) \<le> bk_product (books_of s')"
  using swap_effect [OF assms] by blast

text \<open>
  Claim C17: the invariant check of the swap handlers never rejects a swap. For the input and
  the output of a quote of either kind, in either direction, on 128-bit reserves, \<open>check_invariant\<close>
  passes whenever its products fit their widths, as they do while the reserves stay below \<open>2^114\<close>;
  when they do not fit, the host's arithmetic aborts. The error \<open>InvariantDoesNotHold\<close> never
  arises: the quote's rounding already keeps the invariant.
\<close>

theorem invariant_check_never_rejects:
  assumes "fixed_point_lib fp" and "residue_numerator f p = Inr r" and "p \<le> FEE_MULTIPLIER"
    and "0 < x" and "0 < dx" and "0 < dy" and "x + dx \<le> U128_MAX" and "y \<le> U128_MAX"
    and "get_amount_out fp (Inr f) dx x y = Inr (dy, fee) \<or>
      get_amount_out_strict_receive fp (Inr f) dy x y = Inr (dx, fee)"
  shows "check_invariant r (x + dx) x 0 y y dy = (if check_fits r x dx y dy then Inr () else Inl HostPanic) \<and>
    check_invariant r y y dy (x + dx) x 0 = (if check_fits r x dx y dy then Inr () else Inl HostPanic) \<and>
    (x + dx < 2 ^ 114 \<longrightarrow> y < 2 ^ 114 \<longrightarrow> check_fits r x dx y dy)"
proof -
  from assms(9) obtain d where d: "FEE_MULTIPLIER * d \<le> r * dx" "dy * (x + d) \<le> d * y" "dy \<le> y"
    using sell_quote_ok [OF assms(1) _ assms(5,2,3)] buy_quote_ok [OF assms(1) _ assms(6,2,3)] by metis
  from assms(9) have "f \<le> FEE_MULTIPLIER"
    using get_amount_out_InrD(1) [OF assms(1) _ assms(5)] strict_receive_InrD(1) [OF assms(1) _ assms(6)]
    by (meson less_imp_le)
  note r = residue_bound(2) [OF assms(2) this assms(3)]
  from check_invariant_eq [OF d assms(5,7,8) r] check_fits_below [OF _ _ d(3) r] show ?thesis by blast
qed

theorem invariant_check_never_rejects_witness:
  "check_invariant 9985 10993 10000 0 10000 10000 900 = Inr ()"
proof -
  have "get_amount_out exact_fixed_point (Inr 30) 993 10000 10000 = Inr (900, 3)"
    by (simp add: get_amount_out_def FEE_MULTIPLIER_def u_defs mul_floor_def exact_fixed_point_def
        U128_MAX_def Let_def)
  moreover have "residue_numerator 30 5000 = Inr 9985"
    by (simp add: residue_numerator_def FEE_MULTIPLIER_def u_defs U128_MAX_def)
  ultimately show ?thesis
    using invariant_check_never_rejects [of exact_fixed_point 30 5000 9985 10000 993 900 10000 3]
    by (auto simp: FEE_MULTIPLIER_def U128_MAX_def)
qed

section \<open>Estimates\<close>

text \<open>
  Claim C20: the estimates are exact. When an operation succeeds, its estimate in the same state
  succeeds and returns the same amount: the output of a swap, the input of a strict-receive swap,
  the shares of a deposit.
\<close>

theorem estimates_are_exact:
  assumes "fixed_point_lib (cc_fp x)"
  shows "(cp_swap x e u i j dx m (s, w) = Inr (dy, s', w') \<longrightarrow>
      (\<exists>t. cp_estimate_swap x e i j dx (s, w) = Inr (dy, t))) \<and>
    (cp_swap_strict_receive x e u i j dy m (s, w) = Inr (dx, s', w') \<longrightarrow>
      (\<exists>t. cp_estimate_swap_strict_receive x e i j dy (s, w) = Inr (dx, t))) \<and>
    (cp_deposit x e u ds m (s, w) = Inr ((am, mt), s', w') \<longrightarrow>
      (\<exists>t. cp_estimate_deposit x e ds (s, w) = Inr (mt, t)))"
proof (intro conjI impI)
  show "\<exists>t. cp_estimate_swap x e i j dx (s, w) = Inr (dy, t)"
    if "cp_swap x e u i j dx m (s, w) = Inr (dy, s', w')"
    using cp_swap_InrD [OF that]
    by (auto simp: cp_estimate_swap_def res_simps swap_done_def stored_def)
  show "\<exists>t. cp_estimate_swap_strict_receive x e i j dy (s, w) = Inr (dx, t)"
    if "cp_swap_strict_receive x e u i j dy m (s, w) = Inr (dx, s', w')"
    using cp_swap_strict_receive_InrD [OF that assms]
    by (auto simp: cp_estimate_swap_strict_receive_def res_simps swap_done_def stored_def)
  show "\<exists>t. cp_estimate_deposit x e ds (s, w) = Inr (mt, t)"
    if run: "cp_deposit x e u ds m (s, w) = Inr ((am, mt), s', w')"
  proof -
    obtain a b where "am = (a, b)" by fastforce
    from cp_deposit_InrD [OF run [unfolded this] assms] show ?thesis
      by (auto simp: cp_estimate_deposit_def res_simps Let_def total_shares_books)
  qed
qed

section \<open>Deposits and withdrawals\<close>

lemma deposit_effect:
  assumes "fixed_point_lib (cc_fp x)" and "cp_deposit x e u ds m (s, w) = Inr (((a, b), mt), s', w')"
    and "sync_reserves x e s w = Inr s1" and "bk_reserves (books_of s1) = (Some ra, Some rb)"
    and "0 < ra" and "0 < rb"
  shows "bk_shares (books_of s') = bk_shares (books_of s1) + mt"
    and "bk_reserves (books_of s') = (Some (ra + a), Some (rb + b))"
    and "bk_shares (books_of s') * ra \<le> bk_shares (books_of s1) * (ra + a)"
    and "bk_shares (books_of s') * rb \<le> bk_shares (books_of s1) * (rb + b)"
proof -
  from cp_deposit_InrD [OF assms(2,1)] assms(3,4) obtain n where
    n: "new_total_shares (cc_fp x) (bk_shares (books_of s1)) ra rb (ra + a) (rb + b) = Inr n"
    "n = bk_shares (books_of s1) + mt" and
    b: "books_of s' = (books_of s1)\<lparr>bk_shares := n, bk_reserves := (Some (ra + a), Some (rb + b))\<rparr>"
    by auto
  show "bk_shares (books_of s') = bk_shares (books_of s1) + mt"
    "bk_reserves (books_of s') = (Some (ra + a), Some (rb + b))"
    "bk_shares (books_of s') * ra \<le> bk_shares (books_of s1) * (ra + a)"
    "bk_shares (books_of s') * rb \<le> bk_shares (books_of s1) * (rb + b)"
    using new_total_shares_le(2) [OF n(1) assms(1,5,6)] n(2) by (simp_all add: b)
qed

lemma pro_rata_kept: "(t - n) * r \<le> t * (r - r * n div t)" for t n r :: nat
proof -
  have "t * (n * r div t) \<le> n * r" by (rule times_div_less_eq_dividend)
  then show ?thesis by (simp add: diff_mult_distrib diff_mult_distrib2 mult.commute diff_le_mono2)
qed

text \<open>
  Claim C18: a deposit into a pool with reserves dilutes nobody. It takes at most the desired
  amounts and mints at least the requested minimum, and for both tokens the reserve per share
  does not fall (\<open>new shares * old reserve \<le> old shares * new reserve\<close>).
\<close>

theorem deposit_dilutes_nobody:
  assumes "fixed_point_lib (cc_fp x)" and "cp_deposit x e u ds m (s, w) = Inr (((a, b), mt), s', w')"
    and "sync_reserves x e s w = Inr s1" and "bk_reserves (books_of s1) = (Some ra, Some rb)"
    and "0 < ra" and "0 < rb"
  shows "a \<le> ds ! 0 \<and> b \<le> ds ! 1 \<and> m \<le> mt \<and> bk_shares (books_of s') = bk_shares (books_of s1) + mt \<and>
    bk_reserves (books_of s') = (Some (ra + a), Some (rb + b)) \<and>
    bk_shares (books_of s') * ra \<le> bk_shares (books_of s1) * (ra + a) \<and>
    bk_shares (books_of s') * rb \<le> bk_shares (books_of s1) * (rb + b)"
proof -
  have "get_deposit_amounts (cc_fp x) (ds ! 0) 0 (ds ! 1) 0 ra rb = Inr (a, b)" and "m \<le> mt"
    using cp_deposit_InrD [OF assms(2,1)] assms(3,4) by auto
  then show ?thesis using deposit_amounts_le deposit_effect [OF assms] by blast
qed

text \<open>The payments of a withdrawal in a world whose share token and plane touch no other token.\<close>

definition balances_moved ::
  "'w tokens \<Rightarrow> address \<Rightarrow> address \<Rightarrow> address \<Rightarrow> nat \<Rightarrow> address \<Rightarrow> nat \<Rightarrow> address \<Rightarrow> nat \<Rightarrow> 'w \<Rightarrow> 'w \<Rightarrow> bool" where
  \<comment> \<open>\<open>u\<close> receives \<open>a\<close> of \<open>ta\<close> and \<open>b\<close> of \<open>tb\<close> from \<open>me\<close> and gives up \<open>n\<close> of \<open>st\<close>; nothing else moves\<close>
  "balances_moved tk me u ta a tb b st n w w' \<longleftrightarrow>
     (\<forall>t c. tk_balance tk t c w' = tk_balance tk t c w +
        (if t = ta \<and> c = u then int a else if t = ta \<and> c = me then - int a
         else if t = tb \<and> c = u then int b else if t = tb \<and> c = me then - int b
         else if t = st \<and> c = u then - int n else 0))"

lemma withdraw_moves:
  assumes quiet: "quiet_host x me" and run: "cp_withdraw x e u n ms (s, w) = Inr ((a, b), s', w')"
    and me: "current_contract e = me" and um: "u \<noteq> me" and n: "n \<le> U128_MAX"
    and sync: "sync_reserves x e s w = Inr s1" and tok: "bk_tokens (books_of s1) = (Some ta, Some tb)"
    and st: "sh_token (pl_shares s1) = Some st" and d: "ta \<noteq> tb" "st \<noteq> ta" "st \<noteq> tb"
  shows "balances_moved (cc_tokens x) me u ta a tb b st n w w'"
proof -
  note host = quiet_host.axioms(1) [OF quiet]
  from cp_withdraw_InrD [OF run pool_host.lib [OF host]] sync tok st obtain g p w1 w2 w3 w4 w5 h q where
    g1: "gauges_checkpoint_user (cc_gauges x) e u g p (pl_gauges s1) w = Inr w1" and
    bu: "share_burn_call (cc_shares x) st u (as_i128 n) w1 = Inr w2" and
    ab: "a \<le> U128_MAX" "b \<le> U128_MAX" and
    p1: "pay x e ta u a w2 = Inr w3" and p2: "pay x e tb u b w3 = Inr w4" and
    g2: "gauges_checkpoint_user (cc_gauges x) e u h q (pl_gauges s1) w4 = Inr w5" and
    pl: "update_plane x e s' w5 = Inr w'" by fastforce
  have "as_i128 n = int n" using as_i128_exact n quiet_host.burn_takes(1) [OF quiet bu] by blast
  with quiet_host.burn_takes(2) [OF quiet bu]
  have burnt: "tk_balance (cc_tokens x) t c w2 = tk_balance (cc_tokens x) t c w1 +
      (if t = st \<and> c = u then - int n else 0)" for t c by simp
  have "tk_balance (cc_tokens x) t c w' = tk_balance (cc_tokens x) t c w5" for t c
    using pl me quiet_host.plane_moves_nothing [OF quiet] by (auto simp: update_plane_def res_simps)
  then show ?thesis unfolding balances_moved_def
    using d um by (auto simp: gauge_contracts_for.gauges_checkpoint_keeps [OF pool_host.gauges [OF host] g2 me]
      gauge_contracts_for.gauges_checkpoint_keeps [OF pool_host.gauges [OF host] g1 me] burnt
      quiet_host.pay_moves [OF quiet p2 me um ab(2)] quiet_host.pay_moves [OF quiet p1 me um ab(1)])
qed

text \<open>
  Claim C19: a withdrawal pays each token pro rata, rounded down, at least the requested
  minimum, and burns exactly the shares given in. The user's balances rise by the two amounts it
  returns and the pool's fall by them, the user's shares fall by the shares given in, no other
  balance of any token moves, the recorded reserves fall by the payments, and the reserve per share
  of those who stay is no smaller.
\<close>

theorem withdraw_is_pro_rata:
  assumes "quiet_host x me" and "cp_withdraw x e u n ms (s, w) = Inr ((a, b), s', w')"
    and "current_contract e = me" and "u \<noteq> me" and "n \<le> U128_MAX"
    and "sync_reserves x e s w = Inr s1" and "bk_reserves (books_of s1) = (Some ra, Some rb)"
    and "bk_tokens (books_of s1) = (Some ta, Some tb)" and "sh_token (pl_shares s1) = Some st"
    and "ta \<noteq> tb" and "st \<noteq> ta" and "st \<noteq> tb"
  shows "a = ra * n div bk_shares (books_of s1) \<and> b = rb * n div bk_shares (books_of s1) \<and>
    ms ! 0 \<le> a \<and> ms ! 1 \<le> b \<and> n \<le> bk_shares (books_of s1) \<and>
    balances_moved (cc_tokens x) me u ta a tb b st n w w' \<and>
    bk_shares (books_of s') = bk_shares (books_of s1) - n \<and>
    bk_reserves (books_of s') = (Some (ra - a), Some (rb - b)) \<and>
    bk_shares (books_of s') * ra \<le> bk_shares (books_of s1) * (ra - a) \<and>
    bk_shares (books_of s') * rb \<le> bk_shares (books_of s1) * (rb - b)"
  using cp_withdraw_InrD [OF assms(2) pool_host.lib [OF quiet_host.axioms(1) [OF assms(1)]]]
    withdraw_moves [OF assms(1-6,8-12)] assms(6,7)
  by (auto simp: pro_rata_kept)

section \<open>The value of the shares\<close>

text \<open>
  With \<open>T\<close> shares over reserves \<open>a\<close> and \<open>b\<close>, the value of a share is measured by
  \<open>a * b / T^2\<close>: it is kept by a step when \<open>T'^2 * a * b \<le> T^2 * a' * b'\<close>.
\<close>

definition value_kept :: "books \<Rightarrow> books \<Rightarrow> bool" where
  "value_kept b b' \<longleftrightarrow> (bk_shares b')\<^sup>2 * bk_product b \<le> (bk_shares b)\<^sup>2 * bk_product b'"

definition live :: "books \<Rightarrow> bool" where
  "live b \<longleftrightarrow> 0 < bk_shares b \<and>
     (\<exists>ra rb. bk_reserves b = (Some ra, Some rb) \<and> 0 < ra \<and> 0 < rb)"

lemma value_kept_refl [simp]: "value_kept b b"
  by (simp add: value_kept_def)

lemma live_product: "live b \<Longrightarrow> 0 < (bk_shares b)\<^sup>2 * bk_product b"
  by (auto simp: live_def bk_product_def)

lemma value_kept_trans:
  assumes "value_kept a b" and "value_kept b c" and "live b"
  shows "value_kept a c"
proof -
  let ?T = "\<lambda>b. (bk_shares b)\<^sup>2" and ?P = bk_product
  have "(?T c * ?P a) * (?T b * ?P b) = (?T b * ?P a) * (?T c * ?P b)" by simp
  also have "\<dots> \<le> (?T a * ?P b) * (?T b * ?P c)"
    using assms(1,2) unfolding value_kept_def by (rule mult_le_mono)
  also have "\<dots> = (?T a * ?P c) * (?T b * ?P b)" by simp
  finally show ?thesis using live_product [OF assms(3)] by (simp add: value_kept_def)
qed

lemma value_kept_product:
  "bk_shares b' = bk_shares b \<Longrightarrow> bk_product b \<le> bk_product b' \<Longrightarrow> value_kept b b'"
  by (simp add: value_kept_def)

lemma value_kept_ratios:
  assumes "bk_reserves b = (Some ra, Some rb)" and "bk_reserves b' = (Some ra', Some rb')"
    and "bk_shares b' * ra \<le> bk_shares b * ra'" and "bk_shares b' * rb \<le> bk_shares b * rb'"
  shows "value_kept b b'"
  using mult_le_mono [OF assms(3,4)] assms(1,2)
  by (simp add: value_kept_def bk_product_def power2_eq_square algebra_simps)

lemma sync_value:
  assumes "sync_reserves x e s w = Inr s1" and "live (books_of s)"
  shows "value_kept (books_of s) (books_of s1)" and "live (books_of s1)"
    and "bk_shares (books_of s1) = bk_shares (books_of s)" and "bk_tokens (books_of s1) = bk_tokens (books_of s)"
proof -
  from sync_reserves_InrD [OF assms(1)] consider "s1 = s" |
    a b a' b' where "bk_reserves (books_of s) = (Some a, Some b)" "a \<le> a'" "b \<le> b'"
      "s1 = s\<lparr>cp_reserve_a := Some a', cp_reserve_b := Some b', pl_sync_ledger := ledger_sequence e\<rparr>"
    by metis
  then have "value_kept (books_of s) (books_of s1) \<and> live (books_of s1) \<and>
    bk_shares (books_of s1) = bk_shares (books_of s) \<and> bk_tokens (books_of s1) = bk_tokens (books_of s)"
  proof cases
    case 1
    then show ?thesis using assms(2) by simp
  next
    case 2
    have b: "books_of s1 = (books_of s)\<lparr>bk_reserves := (Some a', Some b')\<rparr>"
      by (simp add: 2(4) books_of_def)
    have shares: "bk_shares (books_of s1) = bk_shares (books_of s)" by (simp add: b)
    have "bk_product (books_of s) \<le> bk_product (books_of s1)"
      using 2(2,3) by (simp add: bk_product_def b 2(1) mult_le_mono)
    from value_kept_product [OF shares this] show ?thesis using 2(1-3) assms(2)
      by (auto simp: b live_def)
  qed
  then show "value_kept (books_of s) (books_of s1)" "live (books_of s1)"
    "bk_shares (books_of s1) = bk_shares (books_of s)" "bk_tokens (books_of s1) = bk_tokens (books_of s)"
    by simp_all
qed

text \<open>Every trading operation keeps the value, and keeps the pool alive while shares are outstanding.\<close>

lemma swap_done_value:
  assumes sw: "swap_done x e u i j dx dy fee pf s1 s' w1 w'"
    and prod: "bk_product (books_of s1) \<le> bk_product (books_of s')" and live: "live (books_of s1)"
  shows "value_kept (books_of s1) (books_of s')" and "live (books_of s')"
proof -
  from sw obtain ra rb where "books_of s' = traded i dx dy pf (ra, rb) (books_of s1)"
    and ij: "i = 0 \<and> j = 1 \<or> i = 1 \<and> j = 0" by (auto simp: swap_done_def)
  then have shares: "bk_shares (books_of s') = bk_shares (books_of s1)"
    and some: "\<exists>a b. bk_reserves (books_of s') = (Some a, Some b)" by (auto simp: traded_def)
  from value_kept_product [OF shares prod] show "value_kept (books_of s1) (books_of s')" .
  have "0 < bk_product (books_of s1)" using live by (auto simp: live_def bk_product_def)
  then have "0 < bk_product (books_of s')" using prod by simp
  then show "live (books_of s')" using some live by (auto simp: live_def shares bk_product_def)
qed

lemma trade_value:
  assumes "fixed_point_lib (cc_fp x)" and "live (books_of s)"
    and "cp_swap x e u i j amount limit (s, w) = Inr (r, s', w') \<or>
      cp_swap_strict_receive x e u i j amount limit (s, w) = Inr (r, s', w')"
  shows "value_kept (books_of s) (books_of s') \<and> live (books_of s')"
proof -
  from swap_effect [OF assms(1,3)] obtain s1 dx dy fee pf w1 where sync: "sync_reserves x e s w = Inr s1"
    and sw: "swap_done x e u i j dx dy fee pf s1 s' w1 w'"
    and prod: "bk_product (books_of s1) \<le> bk_product (books_of s')" by blast
  from swap_done_value [OF sw prod] sync_value [OF sync assms(2)] value_kept_trans show ?thesis by blast
qed

lemma deposit_value:
  assumes "fixed_point_lib (cc_fp x)" and "live (books_of s)"
    and "cp_deposit x e u ds m (s, w) = Inr (((a, b), mt), s', w')"
  shows "value_kept (books_of s) (books_of s') \<and> live (books_of s')"
proof -
  from cp_deposit_InrD [OF assms(3,1)] obtain s1 where sync: "sync_reserves x e s w = Inr s1" by blast
  note sv = sync_value [OF sync assms(2)]
  from sv(2) obtain ra rb where r: "bk_reserves (books_of s1) = (Some ra, Some rb)" "0 < ra" "0 < rb"
    by (auto simp: live_def)
  note d = deposit_effect [OF assms(1,3) sync r]
  have "value_kept (books_of s1) (books_of s')" by (rule value_kept_ratios [OF r(1) d(2-4)])
  then show ?thesis using value_kept_trans [OF sv(1) _ sv(2)] d sv(2) r by (auto simp: live_def)
qed

lemma reserve_left: "t' * r \<le> t * (r - a) \<Longrightarrow> 0 < t' \<Longrightarrow> 0 < r \<Longrightarrow> 0 < r - a" for t t' r a :: nat
  by (rule ccontr) simp

lemma withdraw_value:
  assumes "fixed_point_lib (cc_fp x)" and "live (books_of s)"
    and "cp_withdraw x e u n ms (s, w) = Inr ((a, b), s', w')" and "0 < bk_shares (books_of s')"
  shows "value_kept (books_of s) (books_of s') \<and> live (books_of s')"
proof -
  from cp_withdraw_InrD [OF assms(3,1)] obtain s1 where sync: "sync_reserves x e s w = Inr s1" by blast
  note sv = sync_value [OF sync assms(2)]
  from sv(2) obtain ra rb where r: "bk_reserves (books_of s1) = (Some ra, Some rb)" "0 < ra" "0 < rb"
    by (auto simp: live_def)
  from cp_withdraw_InrD [OF assms(3,1)] sync r(1) have
    d: "bk_reserves (books_of s') = (Some (ra - a), Some (rb - b))"
      "bk_shares (books_of s') * ra \<le> bk_shares (books_of s1) * (ra - a)"
      "bk_shares (books_of s') * rb \<le> bk_shares (books_of s1) * (rb - b)"
    by (auto simp: pro_rata_kept)
  have "value_kept (books_of s1) (books_of s')" by (rule value_kept_ratios [OF r(1) d])
  moreover have "0 < ra - a" "0 < rb - b"
    using reserve_left [OF d(2)] reserve_left [OF d(3)] r(2,3) assms(4) by simp_all
  ultimately show ?thesis using value_kept_trans [OF sv(1) _ sv(2)] d(1) assms(4) by (auto simp: live_def)
qed

end
