(* ===== verification/CP_Runs.thy ===== *)
theory CP_Runs
  imports CP_Trading
begin

text \<open>
  Runs of an initialized constant-product pool: one constructor per entry point, their execution,
  and what holds over every sequence of them. Between two operations the world may change by
  itself (other contracts and users act), which is an explicit step.
\<close>

section \<open>Entry points\<close>

datatype trade_op =
    CpDeposit address "nat list" nat
  | CpEstimateDeposit "nat list"
  | CpSwap address nat nat nat nat
  | CpEstimateSwap nat nat nat
  | CpSwapStrict address nat nat nat nat
  | CpEstimateSwapStrict nat nat nat
  | CpWithdraw address nat "nat list"
  | CpGetReserves

datatype own_op =
    CpInitPlane address
  | CpBackfillPlane
  | CpSetProtocolFee address nat
  | CpClaimProtocolFees address address
  | CpInitRewards address
  | CpUnusedReward
  | CpReturnUnused address
  | CpClaim address

datatype cp_op =
    CpTrade trade_op
  | CpOwn own_op
  | CpShared shared_op

primrec trade_exec :: "'w host_calls \<Rightarrow> env \<Rightarrow> cp_pool \<Rightarrow> 'w \<Rightarrow> trade_op \<Rightarrow> (cp_pool \<times> 'w) res" where
  "trade_exec x e s w (CpDeposit u ds m) = effect (cp_deposit x e u ds m (s, w))"
| "trade_exec x e s w (CpEstimateDeposit ds) = reading w (cp_estimate_deposit x e ds (s, w))"
| "trade_exec x e s w (CpSwap u i j dx m) = effect (cp_swap x e u i j dx m (s, w))"
| "trade_exec x e s w (CpEstimateSwap i j dx) = reading w (cp_estimate_swap x e i j dx (s, w))"
| "trade_exec x e s w (CpSwapStrict u i j dy m) = effect (cp_swap_strict_receive x e u i j dy m (s, w))"
| "trade_exec x e s w (CpEstimateSwapStrict i j dy) = reading w (cp_estimate_swap_strict_receive x e i j dy (s, w))"
| "trade_exec x e s w (CpWithdraw u n ms) = effect (cp_withdraw x e u n ms (s, w))"
| "trade_exec x e s w CpGetReserves = reading w (cp_get_reserves x e (s, w))"

primrec own_exec :: "'w host_calls \<Rightarrow> env \<Rightarrow> cp_pool \<Rightarrow> 'w \<Rightarrow> own_op \<Rightarrow> (cp_pool \<times> 'w) res" where
  "own_exec x e s w (CpInitPlane p) = local w (cp_init_pools_plane p s)"
| "own_exec x e s w CpBackfillPlane = andthen (update_plane x e s w) (\<lambda>w. Inr (s, w))"
| "own_exec x e s w (CpSetProtocolFee a f) = local w (cp_set_protocol_fee_fraction e a f s)"
| "own_exec x e s w (CpClaimProtocolFees a d) = effect (cp_claim_protocol_fees x e a d (s, w))"
| "own_exec x e s w (CpInitRewards t) = local w (cp_initialize_rewards_config t s)"
| "own_exec x e s w CpUnusedReward = reading w (cp_get_unused_reward x e (s, w))"
| "own_exec x e s w (CpReturnUnused a) = effect (cp_return_unused_reward x e a (s, w))"
| "own_exec x e s w (CpClaim u) = effect (cp_claim x e u (s, w))"

primrec cp_exec :: "'w host_calls \<Rightarrow> env \<Rightarrow> cp_pool \<Rightarrow> 'w \<Rightarrow> cp_op \<Rightarrow> (cp_pool \<times> 'w) res" where
  "cp_exec x e s w (CpTrade a) = trade_exec x e s w a"
| "cp_exec x e s w (CpOwn a) = own_exec x e s w a"
| "cp_exec x e s w (CpShared a) = shared_exec x e s w a"

section \<open>Operations that leave the books alone\<close>

lemma cp_claim_InrD:
  assumes "cp_claim x e u (s, w) = Inr (v, s', w')"
  shows "\<exists>us g p w1 r c s1 w2 ta tb ra rb h q token. books_of s' = books_of s \<and>
    gauges_checkpoint_user (cc_gauges x) e u g p (pl_gauges s) w = Inr w1 \<and>
    claim_reward c (cc_tokens x) u (bk_shares (books_of s)) us (r, w1) = Inr (v, s1, w2) \<and> rc_env c = e \<and>
    get_reward_token s1 = Inr token \<and>
    bk_tokens (books_of s) = (Some ta, Some tb) \<and> bk_reserves (books_of s) = (Some ra, Some rb) \<and>
    claim_covered x e token w2 (ta, ra, fst (bk_fees (books_of s))) = Inr () \<and>
    claim_covered x e token w2 (tb, rb, snd (bk_fees (books_of s))) = Inr () \<and>
    gauges_checkpoint_user (cc_gauges x) e u h q (pl_gauges s) w2 = Inr w'"
proof -
  from assms obtain us s1 w1 r w2 ta tb token ra rb s2 where
    a: "gauge_checkpoint x e u us (get_total_shares (pl_shares s)) (new_manager s, w) = Inr (s1, w1)" and
    cl: "claim_reward (pool_reward_context x e w1) (cc_tokens x) u (get_total_shares (pl_shares s)) us
      (pl_rewards s1, w1) = Inr (v, r, w2)" and
    s2: "s2 = s1\<lparr>pl_rewards := r\<rparr>" and
    tok: "bk_tokens (books_of s1) = (Some ta, Some tb)" and rt: "get_reward_token r = Inr token" and
    res: "bk_reserves (books_of s1) = (Some ra, Some rb)" and
    ca: "claim_covered x e token w2 (ta, ra, cp_protocol_fee_a s1) = Inr ()" and
    cb: "claim_covered x e token w2 (tb, rb, cp_protocol_fee_b s1) = Inr ()" and
    b: "gauge_checkpoint x e u us (get_total_shares (pl_shares s)) (new_manager s2, w2) = Inr (s', w')"
    unfolding cp_claim_def Let_def by (auto simp: res_simps split: if_splits)
  from gauge_checkpoint_InrD [OF a] obtain r1 b1 p1 where s1: "s1 = (new_manager s)\<lparr>pl_rewards := r1\<rparr>"
    and g1: "gauges_checkpoint_user (cc_gauges x) e u b1 p1 (pl_gauges s) w = Inr w1"
    by (auto simp: new_manager_def)
  from gauge_checkpoint_InrD [OF b] obtain r2 b2 p2 where s': "s' = (new_manager s2)\<lparr>pl_rewards := r2\<rparr>"
    and g2: "gauges_checkpoint_user (cc_gauges x) e u b2 p2 (pl_gauges s) w2 = Inr w'"
    by (auto simp: new_manager_def s2 s1)
  have fees: "cp_protocol_fee_a s1 = fst (bk_fees (books_of s))" "cp_protocol_fee_b s1 = snd (bk_fees (books_of s))"
    by (simp_all add: s1 new_manager_def books_of_def)
  have books: "books_of s' = books_of s" by (simp add: s' s2 s1)
  have env: "rc_env (pool_reward_context x e w1) = e" by (simp add: pool_reward_context_def)
  have b1: "bk_tokens (books_of s) = (Some ta, Some tb)" "bk_reserves (books_of s) = (Some ra, Some rb)"
    using tok res by (simp_all add: s1)
  show ?thesis
    using g1 cl [unfolded total_shares_books] rt ca [unfolded fees] cb [unfolded fees] g2 books env b1 by blast
qed

lemma unused_reward_quiet:
  "cp_get_unused_reward x e (s, w) = Inr (v, s') \<Longrightarrow> books_of s' = books_of s"
  by (auto simp: cp_get_unused_reward_def reward_balance_to_keep_def Let_def res_simps dest!: with_rewards_same intro: same_books_of)

text \<open>Outside trading only the claim of the protocol's fees changes the books, and only the fees.\<close>

lemma claim_protocol_fees_InrD:
  assumes "cp_claim_protocol_fees x e a d (s, w) = Inr (v, s', w')"
  shows "\<exists>ta tb w1. bk_tokens (books_of s) = (Some ta, Some tb) \<and>
    books_of s' = (books_of s)\<lparr>bk_fees := (0, 0)\<rparr> \<and> v = bk_fees (books_of s) \<and>
    (if 0 < fst (bk_fees (books_of s)) then pay x e ta d (fst (bk_fees (books_of s))) w = Inr w1 else w1 = w) \<and>
    (if 0 < snd (bk_fees (books_of s)) then pay x e tb d (snd (bk_fees (books_of s))) w1 = Inr w' else w' = w1)"
proof -
  define fa where "fa = cp_protocol_fee_a s"
  define fb where "fb = cp_protocol_fee_b s"
  have fees: "bk_fees (books_of s) = (fa, fb)" by (simp add: books_of_def fa_def fb_def)
  from assms obtain ta tb where guard: "pool_role e a require_system_fee_admin_or_owner s = Inr ()"
    and tok: "bk_tokens (books_of s) = (Some ta, Some tb)"
    unfolding cp_claim_protocol_fees_def Let_def by (auto simp: res_simps)
  have tok': "cp_get_tokens s = Inr (ta, tb)" using tok by (simp add: res_simps)
  have rest: "(if fa = 0 \<and> fb = 0 then Inr ((0, 0), s, w)
      else
        andthen (if 0 < fa
                 then andthen (pay x e ta d fa w) (\<lambda>w. Inr (s\<lparr>cp_protocol_fee_a := 0\<rparr>, w))
                 else Inr (s, w)) (\<lambda>(s, w).
        andthen (if 0 < fb
                 then andthen (pay x e tb d fb w) (\<lambda>w. Inr (s\<lparr>cp_protocol_fee_b := 0\<rparr>, w))
                 else Inr (s, w)) (\<lambda>(s, w).
        Inr ((fa, fb), s, w)))) = Inr (v, s', w')"
    using assms unfolding cp_claim_protocol_fees_def Let_def prod.case guard tok' andthen_simps fa_def fb_def .
  have zero_a: "books_of (s\<lparr>cp_protocol_fee_a := 0\<rparr>) = (books_of s)\<lparr>bk_fees := (0, fb)\<rparr>"
    and zero_b: "books_of (s\<lparr>cp_protocol_fee_b := 0\<rparr>) = (books_of s)\<lparr>bk_fees := (fa, 0)\<rparr>"
    and zero: "books_of (s\<lparr>cp_protocol_fee_a := 0, cp_protocol_fee_b := 0\<rparr>) = (books_of s)\<lparr>bk_fees := (0, 0)\<rparr>"
    and none: "fa = 0 \<Longrightarrow> fb = 0 \<Longrightarrow> books_of s = (books_of s)\<lparr>bk_fees := (0, 0)\<rparr>"
    by (simp_all add: books_of_def fa_def fb_def)
  show ?thesis
  proof (cases "0 < fa"; cases "0 < fb")
    assume "0 < fa" "0 < fb"
    then show ?thesis using rest tok by (auto simp: fees res_simps zero)
  next
    assume "0 < fa" "\<not> 0 < fb"
    then show ?thesis using rest tok by (auto simp: fees res_simps zero_a)
  next
    assume "\<not> 0 < fa" "0 < fb"
    then show ?thesis using rest tok by (auto simp: fees res_simps zero_b)
  next
    assume z: "\<not> 0 < fa" "\<not> 0 < fb"
    then have "s' = s" "w' = w" "v = (0, 0)" using rest by auto
    then show ?thesis using z tok none by (simp add: fees)
  qed
qed

lemma own_books:
  assumes "own_exec x e s w a = Inr (s', w')"
  shows "bk_shares (books_of s') = bk_shares (books_of s) \<and> bk_tokens (books_of s') = bk_tokens (books_of s) \<and>
    bk_reserves (books_of s') = bk_reserves (books_of s)"
proof (cases a)
  case (CpClaimProtocolFees b d)
  with assms show ?thesis by (auto simp: res_simps dest!: claim_protocol_fees_InrD)
next
  case (CpReturnUnused b)
  with assms show ?thesis
    by (auto simp: res_simps cp_return_unused_reward_def dest!: unused_reward_quiet split: if_splits)
next
  case (CpClaim u)
  with assms show ?thesis by (auto simp: res_simps dest!: cp_claim_InrD)
next
  case CpUnusedReward
  with assms show ?thesis by (auto simp: res_simps dest!: unused_reward_quiet)
qed (use assms in \<open>auto simp: res_simps cp_set_protocol_fee_fraction_def cp_init_pools_plane_def
  cp_initialize_rewards_config_def\<close>)

lemma shared_books: "shared_exec x e s w a = Inr (s', w') \<Longrightarrow> books_of s' = books_of s"
  by (rule same_books_of) (rule shared_same)

section \<open>The value of a share over runs\<close>

lemma sync_trade:
  assumes "trade_exec x e s w a = Inr (s', w')"
    and "a = CpEstimateDeposit ds \<or> a = CpEstimateSwap i j n \<or> a = CpEstimateSwapStrict i j n \<or> a = CpGetReserves"
  shows "sync_reserves x e s w = Inr s' \<and> w' = w"
  using assms
  by (auto simp: res_simps cp_estimate_deposit_def cp_estimate_swap_def cp_estimate_swap_strict_receive_def
      cp_get_reserves_def Let_def split: if_splits)

lemma exec_value:
  assumes run: "cp_exec x e s w a = Inr (s', w')" and lib: "fixed_point_lib (cc_fp x)"
    and live: "live (books_of s)" and shares: "0 < bk_shares (books_of s')"
  shows "value_kept (books_of s) (books_of s') \<and> live (books_of s')"
proof (cases a)
  case (CpTrade t)
  show ?thesis
  proof (cases t)
    case (CpDeposit u ds m)
    with CpTrade run deposit_value [OF lib live] show ?thesis by (fastforce simp: res_simps)
  next
    case (CpSwap u i j dx m)
    with CpTrade run trade_value [OF lib live] show ?thesis by (fastforce simp: res_simps)
  next
    case (CpSwapStrict u i j dx m)
    with CpTrade run trade_value [OF lib live] show ?thesis by (fastforce simp: res_simps)
  next
    case (CpWithdraw u n ms)
    with CpTrade run withdraw_value [OF lib live _ shares] show ?thesis by (fastforce simp: res_simps)
  qed (use CpTrade run sync_trade sync_value live in \<open>metis cp_exec.simps(1)\<close>)+
next
  case (CpOwn b)
  with run have "own_exec x e s w b = Inr (s', w')" by simp
  note q = own_books [OF this]
  then have "value_kept (books_of s) (books_of s')" by (intro value_kept_product) (simp_all add: bk_product_def)
  with q live show ?thesis by (auto simp: live_def)
next
  case (CpShared b)
  with run live show ?thesis using shared_books by (metis cp_exec.simps(3) value_kept_refl)
qed

text \<open>
  A run: successful calls that a condition \<open>allow\<close> admits, and changes of the world within
  \<open>drift\<close>, through states that satisfy \<open>stay\<close>.
\<close>

inductive cp_run ::
  "'w host_calls \<Rightarrow> (env \<Rightarrow> cp_op \<Rightarrow> cp_pool \<Rightarrow> bool) \<Rightarrow> ('w \<Rightarrow> 'w \<Rightarrow> bool) \<Rightarrow> (cp_pool \<Rightarrow> bool) \<Rightarrow>
   cp_pool \<times> 'w \<Rightarrow> cp_pool \<times> 'w \<Rightarrow> bool"
  for x allow drift stay p where
  start: "cp_run x allow drift stay p p"
| call: "cp_run x allow drift stay p (s, w) \<Longrightarrow> cp_exec x e s w a = Inr (s', w') \<Longrightarrow> allow e a s \<Longrightarrow>
    stay s' \<Longrightarrow> cp_run x allow drift stay p (s', w')"
| world: "cp_run x allow drift stay p (s, w) \<Longrightarrow> drift w w' \<Longrightarrow> cp_run x allow drift stay p (s, w')"

lemma cp_run_value:
  assumes "cp_run x allow drift (\<lambda>s. 0 < bk_shares (books_of s)) p q" and "fixed_point_lib (cc_fp x)"
    and "live (books_of (fst p))"
  shows "value_kept (books_of (fst p)) (books_of (fst q)) \<and> live (books_of (fst q))"
  using assms
proof (induction rule: cp_run.induct)
  case start
  then show ?case by simp
next
  case (call s w e a s' w')
  then have v: "value_kept (books_of (fst p)) (books_of s)" and l: "live (books_of s)" by simp_all
  have "0 < bk_shares (books_of s')" using call by blast
  from exec_value [OF call(2) assms(2) l this] value_kept_trans [OF v _ l] show ?case by simp
next
  case (world s w w')
  then show ?case by simp
qed

text \<open>
  Claim C1: the value of a share never falls. Over every run of an initialized pool, whatever
  calls succeed in it (trades, estimates, administration, upgrades, rewards and gauges) and whatever
  the world does in between, as long as shares are outstanding, the product of the reserves per
  squared share at the end is at least what it was at the start, and both reserves stay positive.
\<close>

theorem share_value_never_falls:
  assumes "fixed_point_lib (cc_fp x)" and "live (books_of s)"
    and "cp_run x (\<lambda>_ _ _. True) (\<lambda>_ _. True) (\<lambda>s. 0 < bk_shares (books_of s)) (s, w) (s', w')"
  shows "(bk_shares (books_of s'))\<^sup>2 * bk_product (books_of s) \<le>
      (bk_shares (books_of s))\<^sup>2 * bk_product (books_of s') \<and> live (books_of s')"
  using cp_run_value [OF assms(3,1)] assms(2) by (simp add: value_kept_def)

end
