(* ===== verification/Pool_World.thy ===== *)
theory Pool_World
  imports Pool_Host
begin

text \<open>
  A world for the pools made of the repository's own contracts: gauges, tokens and the pool's share
  token, with a plane and a boost feed that answer without effect. It instantiates every parameter
  of the pools' models and is a \<open>pool_host\<close>.
\<close>

section \<open>The calls\<close>

definition share_calls_of :: "env \<Rightarrow> gauge_world share_calls" where
  "share_calls_of te = \<lparr>
     share_balance_call = (\<lambda>t u w. read_balance (snd w t) u),
     share_mint_call = (\<lambda>t u n w. andthen (mint (te\<lparr>current_contract := t\<rparr>) u n (snd w t)) (\<lambda>tok.
       Inr (fst w, (snd w)(t := tok)))),
     share_burn_call = (\<lambda>t u n w. andthen (burn (te\<lparr>current_contract := t\<rparr>) u n (snd w t)) (\<lambda>tok.
       Inr (fst w, (snd w)(t := tok))))\<rparr>"

definition standard_calls :: "env \<Rightarrow> gauge_world host_calls" where
  "standard_calls te = \<lparr>
     cc_fp = exact_fixed_point,
     cc_tokens = gauge_world_tokens te,
     cc_shares = share_calls_of te,
     cc_gauges = gauge_contracts exact_fixed_point te,
     cc_plane_update = (\<lambda>_ _ _ _ _ w. Inr w),
     cc_deploy_share = (\<lambda>_ _ w. Inr (50, w)),
     cc_decimals = (\<lambda>_ _. 7),
     cc_share_upgrade = (\<lambda>_ _ _ w. Inr w),
     cc_boost_balance = (\<lambda>_ _ _. None),
     cc_total_locked = (\<lambda>_ _. Inr 0)\<rparr>"

lemma standard_calls_simps [simp]:
  "cc_fp (standard_calls te) = exact_fixed_point" "cc_tokens (standard_calls te) = gauge_world_tokens te"
  "cc_shares (standard_calls te) = share_calls_of te"
  "cc_gauges (standard_calls te) = gauge_contracts exact_fixed_point te"
  "cc_plane_update (standard_calls te) p a n xs ys w = Inr w"
  "cc_share_upgrade (standard_calls te) t p h w = Inr w"
  "cc_boost_balance (standard_calls te) = (\<lambda>_ _ _. None)"
  "cc_total_locked (standard_calls te) = (\<lambda>_ _. Inr 0)"
  by (simp_all add: standard_calls_def)

section \<open>Calls and tokens\<close>

definition pool_env :: env where
  "pool_env = anyone\<lparr>current_contract := 9\<rparr>"

lemma pool_env_simps [simp]:
  "ledger_sequence pool_env = 0" "ledger_timestamp pool_env = 0" "authorized pool_env a"
  "current_contract pool_env = 9"
  by (simp_all add: pool_env_def anyone_def)

definition fair_env :: env where
  "fair_env = pool_env\<lparr>authorized := (\<lambda>a. a \<noteq> 9)\<rparr>"

lemma fair_env_simps [simp]:
  "ledger_sequence fair_env = 0" "current_contract fair_env = 9" "authorized fair_env a \<longleftrightarrow> a \<noteq> 9"
  by (simp_all add: fair_env_def)

definition pool_token :: token_state where
  "pool_token = empty_token\<lparr>tok_ac := token_admin, tok_balance := [9 \<mapsto> 10000, 5 \<mapsto> 5000]\<rparr>"

definition sample_world :: gauge_world where
  "sample_world = (Map.empty, (\<lambda>_. empty_token)(11 := pool_token, 12 := pool_token,
     50 := empty_token\<lparr>tok_ac := token_admin, tok_balance := [5 \<mapsto> 10000]\<rparr>))"

lemmas token_run_defs = transfer_def move_with_checkpoints_def checkpoint_user_rewards_def
  checkpoint_user_working_balance_def get_role_def get_role_safe_def token_admin_def
  empty_access_control_def silent_pool_def require_auth_def receive_balance_def spend_balance_def
  check_nonnegative_amount_def read_balance_def write_balance_def empty_token_def
  i128_add_def i128_sub_def i128_fits_def as_i128_def I128_MAX_def

text \<open>Moving tokens between the pool and user 5 in a world with enough of both.\<close>

lemma sample_moves:
  fixes a b :: int
  assumes "W t = empty_token\<lparr>tok_ac := token_admin, tok_balance := f\<rparr>" and "f p = Some a" and "f q = Some b"
    and "p \<noteq> q" and "0 \<le> n" and "n \<le> a" and "i128_fits (a - n)" and "i128_fits (b + n)"
    and "p \<noteq> 1" and "q \<noteq> 1" and "t = 11 \<or> t = 12"
  shows "tk_transfer (gauge_world_tokens anyone) t p q n (G, W) =
    Inr (G, W(t := empty_token\<lparr>tok_ac := token_admin, tok_balance := f(p \<mapsto> a - n, q \<mapsto> b + n)\<rparr>))"
  using assms
  by (simp add: gauge_world_tokens_def token_world_def transfer_def move_with_checkpoints_def
      checkpoint_user_rewards_def checkpoint_user_working_balance_def get_role_def get_role_safe_def
      token_admin_def empty_access_control_def silent_pool_def require_auth_def anyone_def
      receive_balance_def spend_balance_def check_nonnegative_amount_def read_balance_def
      write_balance_def empty_token_def i128_add_def i128_sub_def)

section \<open>The repository's world\<close>

interpretation standard_host: pool_host "standard_calls te" me for te me
proof (rule pool_host.intro)
  fix t u n w w' p k xs ys h
  show "fixed_point_lib (cc_fp (standard_calls te))" by simp
  show "token_ledger (cc_tokens (standard_calls te))"
    using gauge_world_ledger.token_ledger_axioms by simp
  show "gauge_contracts_for (cc_gauges (standard_calls te)) (cc_tokens (standard_calls te)) me"
    using pool_gauge_world.gauge_contracts_for_axioms by simp
  show "no_less (cc_tokens (standard_calls te)) me w w'"
    if "share_mint_call (cc_shares (standard_calls te)) t u n w = Inr w'"
    using that
    by (auto simp: share_calls_of_def res_simps no_less_def gauge_world_balance token_world_def)
      (frule mint_InrD(1), drule mint_InrD(3), simp)
  show "no_less (cc_tokens (standard_calls te)) me w w'"
    if "share_burn_call (cc_shares (standard_calls te)) t u n w = Inr w'" and "u \<noteq> me"
    using that
    by (auto simp: share_calls_of_def res_simps no_less_def gauge_world_balance token_world_def dest: burn_InrD(4))
  show "no_less (cc_tokens (standard_calls te)) me w w'"
    if "cc_plane_update (standard_calls te) p me k xs ys w = Inr w'"
    using that by simp
  show "no_less (cc_tokens (standard_calls te)) me w w'"
    if "cc_share_upgrade (standard_calls te) t me h w = Inr w'"
    using that by simp
qed

interpretation standard_quiet_host: quiet_host "standard_calls te" me for te me
proof (rule quiet_host.intro)
  show "pool_host (standard_calls te) me" by (rule standard_host.pool_host_axioms)
  show "quiet_host_axioms (standard_calls te) me"
    by unfold_locales
      (auto simp: share_calls_of_def res_simps gauge_world_balance token_world_def dest: burn_InrD(2,4))
qed

end
