(* ===== verification/CP_World.thy ===== *)
theory CP_World
  imports CP_Runs Pool_World
begin

text \<open>
  Concrete runs of the constant-product pool in the world of \<open>Pool_World\<close>: they show that the
  hypotheses of the theorems on the pool can hold.
\<close>

section \<open>A pool\<close>

definition sample_pool :: cp_pool where
  \<comment> \<open>the pool at address 9 trades token 11 against token 12 with a fee of 0.3 percent, half of it the protocol's\<close>
  "sample_pool = (new_cp_pool 1)\<lparr>cp_token_a := Some 11, cp_token_b := Some 12,
     cp_reserve_a := Some 10000, cp_reserve_b := Some 10000, cp_fee_fraction := Some 30,
     pl_protocol_fee_fraction := 5000, pl_plane := Some 60, pl_router := Some 61,
     pl_shares := \<lparr>sh_token = Some 50, sh_total = Some 10000\<rparr>\<rparr>"

definition after_swap :: gauge_world where
  "after_swap = (Map.empty, (snd sample_world)
     (11 := empty_token\<lparr>tok_ac := token_admin, tok_balance := [9 \<mapsto> 10993, 5 \<mapsto> 4007]\<rparr>,
      12 := empty_token\<lparr>tok_ac := token_admin, tok_balance := [9 \<mapsto> 9100, 5 \<mapsto> 5900]\<rparr>))"

definition swapped_pool :: cp_pool where
  "swapped_pool = sample_pool\<lparr>cp_reserve_a := Some 10992, cp_reserve_b := Some 9100, cp_protocol_fee_a := 1\<rparr>"

lemmas pool_run_defs = sample_pool_def new_cp_pool_def swapped_pool_def
  get_total_shares_def sync_reserves_def cp_stored_reserves_def cp_get_tokens_def stored_def pick_def
  protocol_share_def pool_residue_def residue_numerator_def credit_reserve_def settle_swap_def
  put_reserves_def update_plane_def check_indices_def check_invariant_def new_invariant_factor_def
  get_amount_out_def get_amount_out_strict_receive_def mul_floor_def mul_ceil_def exact_fixed_point_def
  ceil_div_def FEE_MULTIPLIER_def u_defs U128_MAX_def U256_MAX_def require_auth_def

lemma sample_collect:
  "collect (standard_calls anyone) pool_env 11 5 993 sample_world =
    Inr (Map.empty, (snd sample_world)
      (11 := empty_token\<lparr>tok_ac := token_admin, tok_balance := [9 \<mapsto> 10993, 5 \<mapsto> 4007]\<rparr>))"
  by (auto simp: collect_def sample_world_def pool_env_def pool_token_def fun_upd_twist i128_fits_def
      as_i128_def I128_MAX_def sample_moves [where f = "[9 \<mapsto> 10000, 5 \<mapsto> 5000]"] fun_eq_iff)

lemma sample_pay:
  "pay (standard_calls anyone) pool_env 12 5 900 (Map.empty, (snd sample_world)
      (11 := empty_token\<lparr>tok_ac := token_admin, tok_balance := [9 \<mapsto> 10993, 5 \<mapsto> 4007]\<rparr>)) = Inr after_swap"
  by (auto simp: pay_def sample_world_def after_swap_def pool_env_def pool_token_def i128_fits_def
      as_i128_def I128_MAX_def sample_moves [where f = "[9 \<mapsto> 10000, 5 \<mapsto> 5000]"] fun_eq_iff)

lemma sample_swap:
  "cp_swap (standard_calls anyone) pool_env 5 0 1 993 890 (sample_pool, sample_world) =
    Inr (900, swapped_pool, after_swap)"
  by (simp add: cp_swap_def pool_run_defs Let_def sample_collect sample_pay)

lemma sample_live: "live (books_of sample_pool)"
  by (simp add: live_def books_of_def sample_pool_def get_total_shares_def)

theorem swap_product_never_falls_witness:
  "\<exists>s1. sync_reserves (standard_calls anyone) pool_env sample_pool sample_world = Inr s1 \<and>
    bk_product (books_of s1) \<le> bk_product (books_of swapped_pool)"
  using swap_product_never_falls [of "standard_calls anyone", OF _ disjI1 [OF sample_swap]] by simp

theorem estimates_are_exact_witness:
  "\<exists>t. cp_estimate_swap (standard_calls anyone) pool_env 0 1 993 (sample_pool, sample_world) = Inr (900, t)"
proof -
  have "fixed_point_lib (cc_fp (standard_calls anyone))" by simp
  from estimates_are_exact [OF this] sample_swap show ?thesis by blast
qed

lemma cp_run_one:
  assumes "cp_exec x e s w a = Inr (s', w')" and "allow e a s" and "stay s'"
  shows "cp_run x allow drift stay (s, w) (s', w')"
  using cp_run.call [where s = s and w = w, OF cp_run.start] assms by blast

theorem share_value_never_falls_witness:
  "(10000 :: nat)\<^sup>2 * (10000 * 10000) \<le> 10000\<^sup>2 * (10992 * 9100) \<and> live (books_of swapped_pool)"
proof -
  let ?run = "cp_run (standard_calls anyone) (\<lambda>_ _ _. True) (\<lambda>_ _. True) (\<lambda>s. 0 < bk_shares (books_of s))"
  have exec: "cp_exec (standard_calls anyone) pool_env sample_pool sample_world (CpTrade (CpSwap 5 0 1 993 890)) =
      Inr (swapped_pool, after_swap)"
    by (simp add: sample_swap effect_def del: One_nat_def)
  have pos: "0 < bk_shares (books_of swapped_pool)"
    by (simp add: books_of_def swapped_pool_def sample_pool_def get_total_shares_def)
  have run: "?run (sample_pool, sample_world) (swapped_pool, after_swap)"
    by (rule cp_run_one [OF exec]) (simp_all add: pos)
  have books: "bk_shares (books_of sample_pool) = 10000" "bk_product (books_of sample_pool) = 10000 * 10000"
    "bk_shares (books_of swapped_pool) = 10000" "bk_product (books_of swapped_pool) = 10992 * 9100"
    by (simp_all add: books_of_def swapped_pool_def sample_pool_def get_total_shares_def bk_product_def)
  from share_value_never_falls [OF _ sample_live run] show ?thesis by (simp only: books) simp
qed

section \<open>A deposit and a withdrawal\<close>

definition first_rewards :: rewards where
  "first_rewards = empty_rewards\<lparr>
     rw_data := Some \<lparr>block = 1, accumulated = 0, claimed = 0, last_time = 0\<rparr>,
     rw_user_data := [5 \<mapsto> \<lparr>pool_accumulated = 0, to_claim = 0, last_block = 1\<rparr>],
     rw_inv := [(0, 0) \<mapsto> (replicate 100 0)[1 := 0], (1, 0) \<mapsto> [0]],
     rw_inv_cache := [(0, 0) \<mapsto> (replicate 100 0)[1 := 0], (1, 0) \<mapsto> [0]],
     rw_working_balance := [5 \<mapsto> 10000], rw_working_supply := Some 10000\<rparr>"

lemma no_gauges_checkpoint [simp]: "gauges_checkpoint_user gk e u b n no_gauges w = Inr w"
  by (simp add: gauges_checkpoint_user_def no_gauges_def)

lemma sample_user_shares:
  "share_balance_call (share_calls_of anyone) 50 5 sample_world = 10000"
  by (simp add: share_calls_of_def sample_world_def read_balance_def empty_token_def)

lemma sample_checkpoint:
  "checkpoint_user (pool_reward_context (standard_calls anyone) pool_env sample_world) 5 10000 10000
    (empty_rewards\<lparr>rw_working_supply := Some 10000, rw_working_balance := [5 \<mapsto> 10000]\<rparr>) =
   Inr (\<lparr>pool_accumulated = 0, to_claim = 0, last_block = 1\<rparr>, first_rewards)"
  by (simp add: run_defs pool_reward_context_def first_rewards_def
      del: upt_rec_numeral add_levels.simps find_max_pow.simps)

lemma sample_settle:
  "settle_user (standard_calls anyone) pool_env 5 (sample_pool, sample_world) =
    Inr (10000, 10000, sample_pool\<lparr>pl_rewards := first_rewards\<rparr>, sample_world)"
proof -
  have pool: "pl_shares sample_pool = \<lparr>sh_token = Some 50, sh_total = Some 10000\<rparr>"
    "pl_rewards sample_pool = empty_rewards" "pl_gauges sample_pool = no_gauges"
    by (simp_all add: sample_pool_def new_cp_pool_def)
  have "gauge_checkpoint (standard_calls anyone) pool_env 5 10000 10000 (new_manager sample_pool, sample_world) =
    Inr (sample_pool\<lparr>pl_rewards := empty_rewards\<lparr>rw_working_supply := Some 10000,
      rw_working_balance := [5 \<mapsto> 10000]\<rparr>\<rparr>, sample_world)"
    by (simp add: gauge_checkpoint_def new_manager_def pool get_working_balance_def get_working_supply_def
        new_storage_def empty_rewards_def set_working_balance_def set_working_supply_def)
  then show ?thesis
    by (simp add: settle_user_def pool get_total_shares_def get_user_balance_shares_def get_token_share_def
        sample_user_shares as_u128_def rewards_checkpoint_def sample_checkpoint)
qed

lemma sample_reweigh:
  "n \<in> {9000, 11000} \<Longrightarrow> \<exists>r. rewards_reweigh (standard_calls anyone) pool_env 5 n n
     (s\<lparr>pl_rewards := new_storage first_rewards\<rparr>, w) = Inr (s\<lparr>pl_rewards := r\<rparr>, w)"
  by (auto simp: rewards_reweigh_def first_rewards_def pool_reward_context_def run_defs)

definition holdings :: "int \<Rightarrow> int \<Rightarrow> token_state" where
  "holdings p u = empty_token\<lparr>tok_ac := token_admin, tok_balance := [9 \<mapsto> p, 5 \<mapsto> u]\<rparr>"

definition world_of :: "token_state \<Rightarrow> token_state \<Rightarrow> int \<Rightarrow> gauge_world" where
  "world_of a b n = (Map.empty, (\<lambda>_. empty_token)(11 := a, 12 := b,
     50 := empty_token\<lparr>tok_ac := token_admin, tok_balance := [5 \<mapsto> n]\<rparr>))"

lemma sample_world_of: "sample_world = world_of (holdings 10000 5000) (holdings 10000 5000) 10000"
  by (simp add: sample_world_def world_of_def holdings_def pool_token_def)

lemma holdings_move:
  assumes "0 \<le> n" and "i128_fits (p + n)" and "i128_fits (u - n)" and "n \<le> u" and "t = 11 \<or> t = 12"
    and "W t = holdings p u"
  shows "tk_transfer (gauge_world_tokens anyone) t 5 9 n (G, W) = Inr (G, W(t := holdings (p + n) (u - n)))"
  using assms
  by (simp add: sample_moves [where f = "[9 \<mapsto> p, 5 \<mapsto> u]" and a = u and b = p] holdings_def fun_upd_twist)

lemma holdings_move_back:
  assumes "0 \<le> n" and "i128_fits (u + n)" and "i128_fits (p - n)" and "n \<le> p" and "t = 11 \<or> t = 12"
    and "W t = holdings p u"
  shows "tk_transfer (gauge_world_tokens anyone) t 9 5 n (G, W) = Inr (G, W(t := holdings (p - n) (u + n)))"
  using assms
  by (simp add: sample_moves [where f = "[9 \<mapsto> p, 5 \<mapsto> u]" and a = p and b = u] holdings_def fun_upd_twist)

lemma sample_in:
  "collect (standard_calls anyone) pool_env 11 5 1000 (world_of (holdings 10000 5000) b n) =
    Inr (world_of (holdings 11000 4000) b n)"
  "collect (standard_calls anyone) pool_env 12 5 1000 (world_of a (holdings 10000 5000) n) =
    Inr (world_of a (holdings 11000 4000) n)"
  by (simp_all add: collect_def world_of_def holdings_move [where p = 10000 and u = 5000] i128_fits_def as_i128_def I128_MAX_def fun_upd_twist)

lemma sample_out:
  "pay (standard_calls anyone) pool_env 11 5 1000 (world_of (holdings 10000 5000) b n) =
    Inr (world_of (holdings 9000 6000) b n)"
  "pay (standard_calls anyone) pool_env 12 5 1000 (world_of a (holdings 10000 5000) n) =
    Inr (world_of a (holdings 9000 6000) n)"
  by (simp_all add: pay_def world_of_def holdings_move_back [where p = 10000 and u = 5000] i128_fits_def as_i128_def I128_MAX_def fun_upd_twist)

lemma sample_mint:
  "share_mint_call (share_calls_of anyone) 50 5 1000 (world_of a b 10000) = Inr (world_of a b 11000)"
  "share_burn_call (share_calls_of anyone) 50 5 1000 (world_of a b 10000) = Inr (world_of a b 9000)"
  by (simp_all add: share_calls_of_def world_of_def mint_def burn_def token_run_defs anyone_def)

lemma sample_mint_calls:
  "sh_token sh = Some 50 \<Longrightarrow> get_total_shares sh = 10000 \<Longrightarrow>
    mint_shares (share_calls_of anyone) 5 1000 (sh, world_of a b 10000) =
      Inr (sh\<lparr>sh_total := Some 11000\<rparr>, world_of a b 11000)"
  "sh_token sh = Some 50 \<Longrightarrow> get_total_shares sh = 10000 \<Longrightarrow>
    burn_shares (share_calls_of anyone) 5 1000 (sh, world_of a b 10000) =
      Inr (sh\<lparr>sh_total := Some 9000\<rparr>, world_of a b 9000)"
  using sample_mint
  by (simp_all add: mint_shares_def burn_shares_def get_token_share_def put_total_shares_def u_defs
      U128_MAX_def as_u128_def as_i128_def I128_MAX_def)

definition mid_pool :: "nat \<Rightarrow> cp_pool" where
  "mid_pool r = sample_pool\<lparr>pl_rewards := first_rewards, cp_reserve_a := Some r, cp_reserve_b := Some r\<rparr>"

lemma sample_finish:
  assumes "n \<in> {9000, 11000}" and "pl_gauges s = no_gauges" and "pl_rewards s = new_storage first_rewards"
  shows "\<exists>r. andthen (gauge_checkpoint (standard_calls anyone) pool_env 5 b tot (s, w)) (\<lambda>sw.
      rewards_reweigh (standard_calls anyone) pool_env 5 n n sw) = Inr (s\<lparr>pl_rewards := r\<rparr>, w)"
proof -
  have "s = s\<lparr>pl_rewards := new_storage first_rewards\<rparr>" using assms(3) by simp
  then obtain r where r: "rewards_reweigh (standard_calls anyone) pool_env 5 n n (s, w) = Inr (s\<lparr>pl_rewards := r\<rparr>, w)"
    using sample_reweigh [OF assms(1), of s w] by metis
  have "gauge_checkpoint (standard_calls anyone) pool_env 5 b tot (s, w) = Inr (s, w)"
    using assms(2,3)
    by (simp add: gauge_checkpoint_def get_working_balance_def get_working_supply_def
        new_storage_def first_rewards_def)
  with r show ?thesis by auto
qed

lemma sample_fields [simp]:
  "pl_killed_deposit sample_pool = False" "pl_sync_ledger sample_pool = 0"
  "cp_token_a sample_pool = Some 11" "cp_token_b sample_pool = Some 12"
  "cp_reserve_a sample_pool = Some 10000" "cp_reserve_b sample_pool = Some 10000"
  "cp_fee_fraction sample_pool = Some 30" "pl_plane sample_pool = Some 60"
  "pl_shares sample_pool = \<lparr>sh_token = Some 50, sh_total = Some 10000\<rparr>"
  "pl_gauges sample_pool = no_gauges"
  by (simp_all add: sample_pool_def new_cp_pool_def)

lemma sample_deposit:
  "\<exists>s' w'. cp_deposit (standard_calls anyone) pool_env 5 [1000, 1000] 1000 (sample_pool, sample_world) =
    Inr (((1000, 1000), 1000), s', w')"
proof -
  let ?x = "standard_calls anyone" and ?s = "sample_pool\<lparr>pl_rewards := first_rewards\<rparr>"
  let ?w = "world_of (holdings 11000 4000) (holdings 11000 4000)"
  have tok: "deposit_tokens ?x pool_env 5 (1000, 1000) (10000, 10000) (?s, sample_world) =
      Inr ((1000, 1000), put_reserves 11000 11000 ?s, ?w 10000)"
    by (simp add: deposit_tokens_def cp_get_tokens_def stored_def sample_world_of sample_in
        get_deposit_amounts_def mul_floor_def exact_fixed_point_def u_defs U128_MAX_def refund_def)
  let ?s2 = "new_manager ((put_reserves 11000 11000 (put_reserves 11000 11000 ?s))
    \<lparr>pl_shares := \<lparr>sh_token = Some 50, sh_total = Some 11000\<rparr>\<rparr>)"
  obtain r where fin: "andthen (gauge_checkpoint ?x pool_env 5 0 0 (?s2, ?w 11000)) (\<lambda>sw.
      rewards_reweigh ?x pool_env 5 11000 11000 sw) = Inr (?s2\<lparr>pl_rewards := r\<rparr>, ?w 11000)"
    using sample_finish [of 11000 ?s2 0 0 "?w 11000"] by (auto simp: new_manager_def put_reserves_def)
  then obtain p where g: "gauge_checkpoint ?x pool_env 5 0 0 (?s2, ?w 11000) = Inr p"
    and re: "rewards_reweigh ?x pool_env 5 11000 11000 p = Inr (?s2\<lparr>pl_rewards := r\<rparr>, ?w 11000)"
    by (auto simp: andthen_eq_Inr)
  have "new_total_shares exact_fixed_point 10000 10000 10000 11000 11000 = Inr 11000"
    by (simp add: new_total_shares_def mul_floor_def exact_fixed_point_def U128_MAX_def)
  moreover have "update_plane ?x pool_env (?s2\<lparr>pl_rewards := r\<rparr>) (?w 11000) = Inr (?w 11000)"
    by (simp add: update_plane_def stored_def cp_stored_reserves_def new_manager_def put_reserves_def)
  ultimately have sh: "deposit_shares ?x pool_env 5 10000 1000 (10000, 10000) (put_reserves 11000 11000 ?s, ?w 10000) =
      Inr (1000, ?s2\<lparr>pl_rewards := r\<rparr>, ?w 11000)"
    using g re
    by (simp add: deposit_shares_def cp_stored_reserves_def stored_def put_reserves_def get_total_shares_def
        u_defs U128_MAX_def as_i128_def I128_MAX_def sample_mint_calls)
  show ?thesis
    by (simp add: cp_deposit_def sync_reserves_def cp_stored_reserves_def stored_def sample_settle tok sh)
qed

lemma sample_withdraw:
  "\<exists>s' w'. cp_withdraw (standard_calls anyone) pool_env 5 1000 [900, 900] (sample_pool, sample_world) =
    Inr ((1000, 1000), s', w')"
proof -
  let ?x = "standard_calls anyone" and ?sh = "\<lparr>sh_token = Some 50, sh_total = Some 9000\<rparr>"
  let ?s = "sample_pool\<lparr>pl_rewards := first_rewards, pl_shares := ?sh\<rparr>"
  let ?s2 = "new_manager (put_reserves 9000 9000 ?s)"
  let ?w = "world_of (holdings 9000 6000) (holdings 9000 6000) 9000"
  obtain r where fin: "andthen (gauge_checkpoint ?x pool_env 5 9000 9000 (?s2, ?w)) (\<lambda>sw.
      rewards_reweigh ?x pool_env 5 9000 9000 sw) = Inr (?s2\<lparr>pl_rewards := r\<rparr>, ?w)"
    using sample_finish [of 9000 ?s2 9000 9000 ?w] by (auto simp: new_manager_def put_reserves_def)
  then obtain p where g: "gauge_checkpoint ?x pool_env 5 9000 9000 (?s2, ?w) = Inr p"
    and re: "rewards_reweigh ?x pool_env 5 9000 9000 p = Inr (?s2\<lparr>pl_rewards := r\<rparr>, ?w)"
    by (auto simp: andthen_eq_Inr)
  have "update_plane ?x pool_env (?s2\<lparr>pl_rewards := r\<rparr>) ?w = Inr ?w"
    by (simp add: update_plane_def stored_def cp_stored_reserves_def new_manager_def put_reserves_def)
  moreover have "burn_shares (share_calls_of anyone) 5 1000 (\<lparr>sh_token = Some 50, sh_total = Some 10000\<rparr>, sample_world) =
      Inr (?sh, world_of (holdings 10000 5000) (holdings 10000 5000) 9000)"
    by (simp add: sample_world_of sample_mint_calls get_total_shares_def)
  ultimately show ?thesis
    using g re
    by (simp add: cp_withdraw_def sync_reserves_def cp_stored_reserves_def cp_get_tokens_def stored_def sample_settle
        sample_out get_total_shares_def mul_floor_def exact_fixed_point_def
        u_defs U128_MAX_def)
qed

theorem deposit_dilutes_nobody_witness:
  "\<exists>s' w'. cp_deposit (standard_calls anyone) pool_env 5 [1000, 1000] 1000 (sample_pool, sample_world) =
      Inr (((1000, 1000), 1000), s', w') \<and> bk_shares (books_of s') * 10000 \<le> 10000 * (10000 + 1000)"
proof -
  obtain s' w' where run: "cp_deposit (standard_calls anyone) pool_env 5 [1000, 1000] 1000
      (sample_pool, sample_world) = Inr (((1000, 1000), 1000), s', w')" using sample_deposit by blast
  have "sync_reserves (standard_calls anyone) pool_env sample_pool sample_world = Inr sample_pool"
    "bk_reserves (books_of sample_pool) = (Some 10000, Some 10000)" "bk_shares (books_of sample_pool) = 10000"
    by (simp_all add: sync_reserves_def books_of_def get_total_shares_def)
  with deposit_dilutes_nobody [OF _ run this(1,2)] run show ?thesis by auto
qed

theorem withdraw_is_pro_rata_witness:
  "\<exists>s' w'. cp_withdraw (standard_calls anyone) pool_env 5 1000 [900, 900] (sample_pool, sample_world) =
      Inr ((1000, 1000), s', w') \<and> bk_shares (books_of s') = 9000 \<and>
      balances_moved (gauge_world_tokens anyone) 9 5 11 1000 12 1000 50 1000 sample_world w'"
proof -
  obtain s' w' where run: "cp_withdraw (standard_calls anyone) pool_env 5 1000 [900, 900]
      (sample_pool, sample_world) = Inr ((1000, 1000), s', w')" using sample_withdraw by blast
  have "sync_reserves (standard_calls anyone) pool_env sample_pool sample_world = Inr sample_pool"
    "bk_reserves (books_of sample_pool) = (Some 10000, Some 10000)" "bk_shares (books_of sample_pool) = 10000"
    "bk_tokens (books_of sample_pool) = (Some 11, Some 12)" "sh_token (pl_shares sample_pool) = Some 50"
    by (simp_all add: sync_reserves_def books_of_def get_total_shares_def sample_pool_def new_cp_pool_def)
  with withdraw_is_pro_rata [OF standard_quiet_host.quiet_host_axioms run _ _ _ this(1,2,4,5)] run show ?thesis
    by (auto simp: U128_MAX_def)
qed

end
