(* ===== verification/CP_Solvency.thy ===== *)
theory CP_Solvency
  imports CP_World
begin

text \<open>
  The pool can pay what its books say: for both tokens, its token balance covers the reserve and
  the protocol's fee. The locale \<open>pool_host\<close> collects what the pool relies on in the contracts
  it calls; the world of \<open>CP_World\<close> provides it.
\<close>

section \<open>Covered books\<close>

definition covered :: "'w tokens \<Rightarrow> address \<Rightarrow> cp_pool \<Rightarrow> 'w \<Rightarrow> bool" where
  "covered tk me s w \<longleftrightarrow>
     (\<exists>ta tb ra rb fa fb. books_of s = \<lparr>bk_shares = bk_shares (books_of s), bk_tokens = (Some ta, Some tb),
        bk_reserves = (Some ra, Some rb), bk_fees = (fa, fb)\<rparr> \<and> ta \<noteq> tb \<and>
        int (ra + fa) \<le> tk_balance tk ta me w \<and> int (rb + fb) \<le> tk_balance tk tb me w)"

lemma covered_iff:
  "covered tk me s w \<longleftrightarrow> (\<exists>ta tb ra rb fa fb. bk_tokens (books_of s) = (Some ta, Some tb) \<and>
     bk_reserves (books_of s) = (Some ra, Some rb) \<and> bk_fees (books_of s) = (fa, fb) \<and> ta \<noteq> tb \<and>
     int (ra + fa) \<le> tk_balance tk ta me w \<and> int (rb + fb) \<le> tk_balance tk tb me w)"
  by (cases "books_of s") (auto simp: covered_def)

lemma covered_mono:
  assumes "covered tk me s w" and "books_of s' = books_of s" and "no_less tk me w w'"
  shows "covered tk me s' w'"
proof -
  from assms(1) obtain ta tb ra rb fa fb where c: "bk_tokens (books_of s) = (Some ta, Some tb)"
    "bk_reserves (books_of s) = (Some ra, Some rb)" "bk_fees (books_of s) = (fa, fb)" "ta \<noteq> tb"
    "int (ra + fa) \<le> tk_balance tk ta me w" "int (rb + fb) \<le> tk_balance tk tb me w"
    unfolding covered_iff by blast
  have "int (ra + fa) \<le> tk_balance tk ta me w'" "int (rb + fb) \<le> tk_balance tk tb me w'"
    using c(5,6) assms(3) unfolding no_less_def by (auto intro: order_trans)
  with c(1-4) show ?thesis unfolding covered_iff assms(2) by blast
qed

text \<open>
  The calls that solvency is about: the pool runs as itself and signs nothing for others (a contract
  authorizes only the calls it makes), amounts are of their type, and unused rewards are returned
  only while the pool holds no protocol fee in the reward token. The last condition is needed:
  \<open>get_unused_reward\<close> keeps the reserve of such a token back, but not the protocol's fee in it
  (\<open>unused_reward_takes_fees\<close>).
\<close>

fun u128_arguments :: "trade_op \<Rightarrow> bool" where
  "u128_arguments (CpDeposit u ds m) \<longleftrightarrow> ds ! 0 \<le> U128_MAX \<and> ds ! 1 \<le> U128_MAX"
| "u128_arguments (CpSwap u i j dx m) \<longleftrightarrow> dx \<le> U128_MAX"
| "u128_arguments (CpSwapStrict u i j dy m) \<longleftrightarrow> m \<le> U128_MAX"
| "u128_arguments _ \<longleftrightarrow> True"

definition no_fee_in_reward_token :: "cp_pool \<Rightarrow> bool" where
  "no_fee_in_reward_token s \<longleftrightarrow>
     (rw_token (pl_rewards s) = cp_token_a s \<longrightarrow> cp_protocol_fee_a s = 0) \<and>
     (rw_token (pl_rewards s) = cp_token_b s \<longrightarrow> cp_protocol_fee_b s = 0)"

definition fair_call :: "address \<Rightarrow> env \<Rightarrow> cp_op \<Rightarrow> cp_pool \<Rightarrow> bool" where
  "fair_call me e op s \<longleftrightarrow> current_contract e = me \<and> \<not> authorized e me \<and>
     (case op of
        CpTrade a \<Rightarrow> u128_arguments a
      | CpOwn (CpReturnUnused _) \<Rightarrow> no_fee_in_reward_token s
      | _ \<Rightarrow> True)"

lemma unused_reward_token:
  assumes "cp_get_unused_reward x e (s, w) = Inr (n, s')"
  shows "rw_token (pl_rewards s') = rw_token (pl_rewards s)"
  using assms by (auto simp: cp_get_unused_reward_def Let_def res_simps dest: reward_balance_to_keep_token)

lemma unused_keeps_reserve:
  assumes "cp_get_unused_reward x e (s, w) = Inr (n, s')" and "get_reward_token (pl_rewards s') = Inr t"
    and "bk_tokens (books_of s) = (Some ta, Some tb)" and "bk_reserves (books_of s) = (Some ra, Some rb)" and "ta \<noteq> tb"
  shows "n \<le> as_u128 (tk_balance (cc_tokens x) t (current_contract e) w) - (if t = ta then ra else if t = tb then rb else 0)"
proof -
  from assms(1,2) obtain k0 k ta' tb' where n: "n = (if k < as_u128 (tk_balance (cc_tokens x) t (current_contract e) w)
      then as_u128 (tk_balance (cc_tokens x) t (current_contract e) w) - k else 0)"
    and k: "(if ta' = t then andthen (cp_stored_reserves s') (\<lambda>(reserve_a, _). u128_add k0 reserve_a)
      else if tb' = t then andthen (cp_stored_reserves s') (\<lambda>(_, reserve_b). u128_add k0 reserve_b)
      else Inr k0) = Inr k" and tok: "cp_get_tokens s' = Inr (ta', tb')"
    unfolding cp_get_unused_reward_def Let_def snd_conv by (clarsimp simp: andthen_eq_Inr split del: if_split)
  have bk: "books_of s' = books_of s" using unused_reward_quiet [OF assms(1)] .
  have "ta' = ta" "tb' = tb" "cp_stored_reserves s' = Inr (ra, rb)"
    using tok assms(3,4) unfolding bk [symmetric] by (simp_all add: books_of_def cp_get_tokens_def cp_stored_reserves_def stored_def)
  then have "(if t = ta then ra else if t = tb then rb else 0) \<le> k"
    using k by (auto simp: u_add_eq_Inr split: if_splits)
  moreover have "n \<le> as_u128 (tk_balance (cc_tokens x) t (current_contract e) w) - k" by (simp add: n)
  ultimately show ?thesis by (meson diff_le_mono2 order_trans)
qed

section \<open>Synchronization\<close>

context pool_host
begin

lemma plane_no_less:
  assumes "update_plane x e s w = Inr w'" and "current_contract e = me"
  shows "no_less (cc_tokens x) me w w'"
  using assms plane_takes_nothing by (auto simp: update_plane_def res_simps)

lemma sync_covered:
  assumes "sync_reserves x e s w = Inr s'" and "current_contract e = me" and "covered (cc_tokens x) me s w"
  shows "covered (cc_tokens x) me s' w"
  using sync_reserves_InrD [OF assms(1)]
proof
  assume "s' = s"
  then show ?thesis using assms(3) by simp
next
  assume "\<exists>ta tb a b a' b'. bk_tokens (books_of s) = (Some ta, Some tb) \<and> bk_reserves (books_of s) = (Some a, Some b) \<and>
      s' = s\<lparr>cp_reserve_a := Some a', cp_reserve_b := Some b', pl_sync_ledger := ledger_sequence e\<rparr> \<and>
      a \<le> a' \<and> b \<le> b' \<and> (bk_shares (books_of s) = 0 \<longrightarrow> a' = a \<and> b' = b) \<and>
      (a' \<noteq> a \<longrightarrow> a' + cp_protocol_fee_a s = as_u128 (tk_balance (cc_tokens x) ta (current_contract e) w)) \<and>
      (b' \<noteq> b \<longrightarrow> b' + cp_protocol_fee_b s = as_u128 (tk_balance (cc_tokens x) tb (current_contract e) w))"
  then obtain ta tb a b a' b' where tok: "bk_tokens (books_of s) = (Some ta, Some tb)"
    and res: "bk_reserves (books_of s) = (Some a, Some b)"
    and s': "s' = s\<lparr>cp_reserve_a := Some a', cp_reserve_b := Some b', pl_sync_ledger := ledger_sequence e\<rparr>"
    and ab: "a' \<noteq> a \<longrightarrow> a' + cp_protocol_fee_a s = as_u128 (bal ta w)"
      "b' \<noteq> b \<longrightarrow> b' + cp_protocol_fee_b s = as_u128 (bal tb w)"
    unfolding assms(2) by blast
  have fees: "bk_fees (books_of s) = (cp_protocol_fee_a s, cp_protocol_fee_b s)" by (simp add: books_of_def)
  from assms(3) tok res fees have c: "ta \<noteq> tb" "int (a + cp_protocol_fee_a s) \<le> bal ta w"
    "int (b + cp_protocol_fee_b s) \<le> bal tb w" by (auto simp: covered_iff)
  have "0 \<le> bal ta w" "0 \<le> bal tb w" using c by linarith+
  then have "int (a' + cp_protocol_fee_a s) \<le> bal ta w" "int (b' + cp_protocol_fee_b s) \<le> bal tb w"
    using ab c(2,3) as_u128_le by metis+
  moreover have "books_of s' = (books_of s)\<lparr>bk_reserves := (Some a', Some b')\<rparr>" by (simp add: s' books_of_def)
  ultimately show ?thesis using tok fees c(1) by (auto simp: covered_iff)
qed

section \<open>Trading\<close>

abbreviation funded :: "cp_pool \<Rightarrow> 'w \<Rightarrow> bool" where
  "funded s w \<equiv> covered (cc_tokens x) me s w"

lemma fundedI:
  "bk_tokens (books_of s) = (Some ta, Some tb) \<Longrightarrow> bk_reserves (books_of s) = (Some ra, Some rb) \<Longrightarrow>
   bk_fees (books_of s) = (fa, fb) \<Longrightarrow> ta \<noteq> tb \<Longrightarrow> int (ra + fa) \<le> bal ta w \<Longrightarrow> int (rb + fb) \<le> bal tb w \<Longrightarrow>
   funded s w"
  by (auto simp: covered_iff)

lemma fundedE:
  assumes "funded s w" and "bk_tokens (books_of s) = (Some ta, Some tb)" and "bk_reserves (books_of s) = (Some ra, Some rb)"
  obtains fa fb where "bk_fees (books_of s) = (fa, fb)" "ta \<noteq> tb" "int ra + int fa \<le> bal ta w" "int rb + int fb \<le> bal tb w"
  using assms by (auto simp: covered_iff)

lemma no_lessD: "no_less (cc_tokens x) me w w' \<Longrightarrow> bal t w \<le> bal t w'"
  by (simp add: no_less_def)

lemma swap_done_funded:
  assumes sw: "swap_done x e u i j dx dy fee pf s1 s' w1 w'" and me: "current_contract e = me"
    and bk: "bk_tokens (books_of s1) = (Some ta, Some tb)" "bk_reserves (books_of s1) = (Some ra, Some rb)"
      "bk_fees (books_of s1) = (fa, fb)" "ta \<noteq> tb"
    and held: "int (pick i (ra, rb)) + int (pick i (fa, fb)) + int dx \<le> bal (pick i (ta, tb)) w1"
      "int (pick j (ra, rb)) + int (pick j (fa, fb)) \<le> bal (pick j (ta, tb)) w1"
  shows "funded s' w'"
proof -
  from sw bk obtain w2 where ij: "i = 0 \<and> j = 1 \<or> i = 1 \<and> j = 0"
    and dy: "dy \<le> pick j (ra, rb)" and py: "pay x e (pick j (ta, tb)) u dy w1 = Inr w2"
    and pl: "update_plane x e s' w2 = Inr w'" and pf: "pf \<le> pick i (ra, rb) + dx"
    and b: "books_of s' = traded i dx dy pf (ra, rb) (books_of s1)"
    by (auto simp: swap_done_def)
  note keep = no_lessD [OF plane_no_less [OF pl me]]
  note out = pay_takes [OF py me]
  show ?thesis
    using ij
  proof
    assume c: "i = 0 \<and> j = 1"
    have "bal ta w1 \<le> bal ta w'" "bal tb w1 - int dy \<le> bal tb w'"
      using keep [of ta] keep [of tb] out(1) out(2) [of ta] bk(4) c by auto
    with c held dy pf b bk show ?thesis
      by (intro fundedI [of s' ta tb "ra + dx - pf" "rb - dy" "fa + pf" fb]) (auto simp: traded_def of_nat_diff)
  next
    assume c: "i = 1 \<and> j = 0"
    have "bal tb w1 \<le> bal tb w'" "bal ta w1 - int dy \<le> bal ta w'"
      using keep [of ta] keep [of tb] out(1) out(2) [of tb] bk(4) c by auto
    with c held dy pf b bk show ?thesis
      by (intro fundedI [of s' ta tb "ra - dy" "rb + dx - pf" fa "fb + pf"]) (auto simp: traded_def of_nat_diff)
  qed
qed

lemma pick_distinct: "ta \<noteq> tb \<Longrightarrow> i = 0 \<and> j = 1 \<or> i = 1 \<and> j = 0 \<Longrightarrow> pick j (ta, tb) \<noteq> pick i (ta, tb)"
  by (auto simp: pick_def)

lemma pick_both: "i = 0 \<and> j = 1 \<or> i = 1 \<and> j = 0 \<Longrightarrow> int ra + int fa \<le> bal ta w \<Longrightarrow> int rb + int fb \<le> bal tb w \<Longrightarrow>
  int (pick i (ra, rb)) + int (pick i (fa, fb)) \<le> bal (pick i (ta, tb)) w \<and>
  int (pick j (ra, rb)) + int (pick j (fa, fb)) \<le> bal (pick j (ta, tb)) w"
  by (auto simp: pick_def)

lemma swap_funded:
  assumes run: "cp_swap x e u i j dx m (s, w) = Inr (dy, s', w')" and me: "current_contract e = me"
    and "\<not> authorized e me" and "dx \<le> U128_MAX" and "funded s w"
  shows "funded s' w'"
proof -
  from cp_swap_InrD [OF run] obtain s1 fee pf w1 ra rb ta tb where sync: "sync_reserves x e s w = Inr s1"
    and res: "bk_reserves (books_of s1) = (Some ra, Some rb)" and tok: "bk_tokens (books_of s1) = (Some ta, Some tb)"
    and col: "collect x e (pick i (ta, tb)) u dx w = Inr w1" and sw: "swap_done x e u i j dx dy fee pf s1 s' w1 w'"
    by blast
  from fundedE [OF sync_covered [OF sync me assms(5)] tok res] obtain fa fb where
    fees: "bk_fees (books_of s1) = (fa, fb)" "ta \<noteq> tb" and h: "int ra + int fa \<le> bal ta w" "int rb + int fb \<le> bal tb w" .
  have ij: "i = 0 \<and> j = 1 \<or> i = 1 \<and> j = 0" and "u \<noteq> me" using sw assms(3) by (auto simp: swap_done_def)
  note inn = collect_adds [OF col me \<open>u \<noteq> me\<close> assms(4)]
  show ?thesis
    using pick_both [OF ij h] inn(1) inn(2) [OF pick_distinct [OF fees(2) ij]]
    by (intro swap_done_funded [OF sw me tok res fees]) simp_all
qed

lemma swap_strict_funded:
  assumes run: "cp_swap_strict_receive x e u i j dy m (s, w) = Inr (dx, s', w')" and me: "current_contract e = me"
    and "\<not> authorized e me" and "m \<le> U128_MAX" and "funded s w"
  shows "funded s' w'"
proof -
  from cp_swap_strict_receive_InrD [OF run lib] obtain s1 fee pf w1 w2 ra rb ta tb where
    sync: "sync_reserves x e s w = Inr s1"
    and res: "bk_reserves (books_of s1) = (Some ra, Some rb)" and tok: "bk_tokens (books_of s1) = (Some ta, Some tb)"
    and col: "collect x e (pick i (ta, tb)) u m w = Inr w1" and rf: "refund x e (pick i (ta, tb)) u m dx w1 = Inr w2"
    and dx: "dx \<le> m" and sw: "swap_done x e u i j dx dy fee pf s1 s' w2 w'"
    by blast
  from fundedE [OF sync_covered [OF sync me assms(5)] tok res] obtain fa fb where
    fees: "bk_fees (books_of s1) = (fa, fb)" "ta \<noteq> tb" and h: "int ra + int fa \<le> bal ta w" "int rb + int fb \<le> bal tb w" .
  have ij: "i = 0 \<and> j = 1 \<or> i = 1 \<and> j = 0" and "u \<noteq> me" using sw assms(3) by (auto simp: swap_done_def)
  note inn = collect_adds [OF col me \<open>u \<noteq> me\<close> assms(4)] and ret = refund_takes [OF rf me]
  note d = pick_distinct [OF fees(2) ij]
  show ?thesis
    using pick_both [OF ij h] inn(1) inn(2) [OF d] ret(1) ret(2) [OF d] dx
    by (intro swap_done_funded [OF sw me tok res fees]) (simp_all add: of_nat_diff)
qed

lemma deposit_funded:
  assumes run: "cp_deposit x e u ds m (s, w) = Inr (r, s', w')" and me: "current_contract e = me"
    and "\<not> authorized e me" and le: "ds ! 0 \<le> U128_MAX" "ds ! 1 \<le> U128_MAX" and "funded s w"
  shows "funded s' w'"
proof -
  obtain a b mt where r: "r = ((a, b), mt)" by (metis surj_pair)
  from cp_deposit_InrD [OF run [unfolded r] lib] obtain s1 ra rb ta tb g p w1 w2 w3 w4 w5 w6 sh w7 n h q where
    "authorized e u" and sync: "sync_reserves x e s w = Inr s1"
    and res: "bk_reserves (books_of s1) = (Some ra, Some rb)" and tok: "bk_tokens (books_of s1) = (Some ta, Some tb)"
    and am: "get_deposit_amounts (cc_fp x) (ds ! 0) 0 (ds ! 1) 0 ra rb = Inr (a, b)"
    and g1: "gauges_checkpoint_user (cc_gauges x) e u g p (pl_gauges s1) w = Inr w1"
    and c1: "collect x e ta u (ds ! 0) w1 = Inr w2" and c2: "collect x e tb u (ds ! 1) w2 = Inr w3"
    and f1: "refund x e ta u (ds ! 0) a w3 = Inr w4" and f2: "refund x e tb u (ds ! 1) b w4 = Inr w5"
    and mi: "share_mint_call (cc_shares x) sh u (as_i128 mt) w5 = Inr w6"
    and g2: "gauges_checkpoint_user (cc_gauges x) e u h q (pl_gauges s1) w6 = Inr w7"
    and pl: "update_plane x e s' w7 = Inr w'"
    and bk: "books_of s' = (books_of s1)\<lparr>bk_shares := n, bk_reserves := (Some (ra + a), Some (rb + b))\<rparr>" by blast
  from fundedE [OF sync_covered [OF sync me assms(6)] tok res] obtain fa fb where
    fees: "bk_fees (books_of s1) = (fa, fb)" "ta \<noteq> tb" and h: "int ra + int fa \<le> bal ta w" "int rb + int fb \<le> bal tb w" .
  have "u \<noteq> me" using \<open>authorized e u\<close> assms(3) by auto
  note grow = no_lessD [OF gauge_no_less [OF g1 me]] no_lessD [OF mint_takes_nothing [OF mi]]
    no_lessD [OF gauge_no_less [OF g2 me]] no_lessD [OF plane_no_less [OF pl me]]
  have ab: "a \<le> ds ! 0" "b \<le> ds ! 1" using deposit_amounts_le [OF am] by auto
  have "bal ta w + int a \<le> bal ta w'"
    using grow [of ta] collect_adds(1) [OF c1 me \<open>u \<noteq> me\<close> le(1)] collect_adds(2) [OF c2 me \<open>u \<noteq> me\<close> le(2), of ta]
      refund_takes(1) [OF f1 me] refund_takes(2) [OF f2 me, of ta] fees(2) ab by (simp add: of_nat_diff)
  moreover have "bal tb w + int b \<le> bal tb w'"
    using grow [of tb] collect_adds(2) [OF c1 me \<open>u \<noteq> me\<close> le(1), of tb] collect_adds(1) [OF c2 me \<open>u \<noteq> me\<close> le(2)]
      refund_takes(2) [OF f1 me, of tb] refund_takes(1) [OF f2 me] fees(2) ab by (simp add: of_nat_diff)
  ultimately show ?thesis
    using h tok fees by (intro fundedI [of s' ta tb "ra + a" "rb + b" fa fb]) (simp_all add: bk)
qed

lemma withdraw_funded:
  assumes run: "cp_withdraw x e u n ms (s, w) = Inr (r, s', w')" and me: "current_contract e = me"
    and "\<not> authorized e me" and "funded s w"
  shows "funded s' w'"
proof -
  obtain a b where r: "r = (a, b)" by fastforce
  from cp_withdraw_InrD [OF run [unfolded r] lib] obtain s1 ra rb ta tb g p w1 w2 w3 w4 sh w5 h q where
    "authorized e u" and sync: "sync_reserves x e s w = Inr s1"
    and res: "bk_reserves (books_of s1) = (Some ra, Some rb)" and tok: "bk_tokens (books_of s1) = (Some ta, Some tb)"
    and g1: "gauges_checkpoint_user (cc_gauges x) e u g p (pl_gauges s1) w = Inr w1"
    and bu: "share_burn_call (cc_shares x) sh u (as_i128 n) w1 = Inr w2" and ab: "a \<le> ra" "b \<le> rb"
    and p1: "pay x e ta u a w2 = Inr w3" and p2: "pay x e tb u b w3 = Inr w4"
    and g2: "gauges_checkpoint_user (cc_gauges x) e u h q (pl_gauges s1) w4 = Inr w5"
    and pl: "update_plane x e s' w5 = Inr w'"
    and bk: "books_of s' = (books_of s1)\<lparr>bk_shares := bk_shares (books_of s1) - n,
      bk_reserves := (Some (ra - a), Some (rb - b))\<rparr>" by blast
  from fundedE [OF sync_covered [OF sync me assms(4)] tok res] obtain fa fb where
    fees: "bk_fees (books_of s1) = (fa, fb)" "ta \<noteq> tb" and h: "int ra + int fa \<le> bal ta w" "int rb + int fb \<le> bal tb w" .
  have "u \<noteq> me" using \<open>authorized e u\<close> assms(3) by auto
  note grow = no_lessD [OF gauge_no_less [OF g1 me]] no_lessD [OF burn_takes_nothing [OF bu \<open>u \<noteq> me\<close>]]
    no_lessD [OF gauge_no_less [OF g2 me]] no_lessD [OF plane_no_less [OF pl me]]
  have "bal ta w - int a \<le> bal ta w'"
    using grow [of ta] pay_takes(1) [OF p1 me] pay_takes(2) [OF p2 me, of ta] fees(2) by simp
  moreover have "bal tb w - int b \<le> bal tb w'"
    using grow [of tb] pay_takes(2) [OF p1 me, of tb] pay_takes(1) [OF p2 me] fees(2) by simp
  ultimately show ?thesis
    using h tok fees ab by (intro fundedI [of s' ta tb "ra - a" "rb - b" fa fb]) (simp_all add: bk of_nat_diff)
qed

section \<open>Everything else\<close>

lemma claim_fees_funded:
  assumes run: "cp_claim_protocol_fees x e a d (s, w) = Inr (v, s', w')" and me: "current_contract e = me"
    and "funded s w"
  shows "funded s' w'"
proof -
  from claim_protocol_fees_InrD [OF run] obtain ta tb w1 where tok: "bk_tokens (books_of s) = (Some ta, Some tb)"
    and bk: "books_of s' = (books_of s)\<lparr>bk_fees := (0, 0)\<rparr>"
    and p1: "if 0 < fst (bk_fees (books_of s)) then pay x e ta d (fst (bk_fees (books_of s))) w = Inr w1 else w1 = w"
    and p2: "if 0 < snd (bk_fees (books_of s)) then pay x e tb d (snd (bk_fees (books_of s))) w1 = Inr w' else w' = w1"
    by blast
  from assms(3) tok obtain ra rb fa fb where res: "bk_reserves (books_of s) = (Some ra, Some rb)"
    and fees: "bk_fees (books_of s) = (fa, fb)" "ta \<noteq> tb" and h: "int ra + int fa \<le> bal ta w" "int rb + int fb \<le> bal tb w"
    by (auto simp: covered_iff)
  have "bal ta w - int fa \<le> bal ta w1 \<and> bal tb w1 = bal tb w"
    using p1 fees pay_takes(1) [of e ta d fa w w1] pay_takes(2) [of e ta d fa w w1 tb] me by (cases "0 < fa") auto
  moreover have "bal tb w1 - int fb \<le> bal tb w' \<and> bal ta w' = bal ta w1"
    using p2 fees pay_takes(1) [of e tb d fb w1 w'] pay_takes(2) [of e tb d fb w1 w' ta] me by (cases "0 < fb") auto
  ultimately show ?thesis
    using h tok res fees(2) by (intro fundedI [of s' ta tb ra rb 0 0]) (simp_all add: bk)
qed

lemma claim_funded:
  assumes run: "cp_claim x e u (s, w) = Inr (v, s', w')" and me: "current_contract e = me" and fd: "funded s w"
  shows "funded s' w'"
proof -
  from cp_claim_InrD [OF run] obtain us g p w1 r c s1 w2 ta tb ra rb h q token where
    bk: "books_of s' = books_of s" and g1: "gauges_checkpoint_user (cc_gauges x) e u g p (pl_gauges s) w = Inr w1"
    and cl: "claim_reward c (cc_tokens x) u (bk_shares (books_of s)) us (r, w1) = Inr (v, s1, w2)" "rc_env c = e"
    and rt: "get_reward_token s1 = Inr token"
    and tok: "bk_tokens (books_of s) = (Some ta, Some tb)" and res: "bk_reserves (books_of s) = (Some ra, Some rb)"
    and ca: "claim_covered x e token w2 (ta, ra, fst (bk_fees (books_of s))) = Inr ()"
    and cb: "claim_covered x e token w2 (tb, rb, snd (bk_fees (books_of s))) = Inr ()"
    and g2: "gauges_checkpoint_user (cc_gauges x) e u h q (pl_gauges s) w2 = Inr w'" by blast
  from fundedE [OF fd tok res] obtain fa fb where fees: "bk_fees (books_of s) = (fa, fb)" "ta \<noteq> tb"
    and hh: "int ra + int fa \<le> bal ta w" "int rb + int fb \<le> bal tb w" .
  note kept = claim_keeps [OF g1 cl rt g2 me]
  show ?thesis
    using kept [OF _ ca] kept [OF _ cb] hh tok res fees by (intro fundedI [of s' ta tb ra rb fa fb]) (simp_all add: bk)
qed

lemma same_books_funded: "funded s w \<Longrightarrow> books_of s' = books_of s \<Longrightarrow> no_less (cc_tokens x) me w w' \<Longrightarrow> funded s' w'"
  by (rule covered_mono)

lemma return_unused_funded:
  assumes run: "cp_return_unused_reward x e a (s, w) = Inr (v, s', w')" and me: "current_contract e = me"
    and fd: "funded s w" and no_fee: "no_fee_in_reward_token s"
  shows "funded s' w'"
proof -
  from run obtain n s1 where un: "cp_get_unused_reward x e (s, w) = Inr (n, s1)"
    and rest: "s' = s1" "w' = w \<or> (\<exists>t r. get_reward_token (pl_rewards s1) = Inr t \<and> pay x e t r n w = Inr w')"
    by (auto simp: cp_return_unused_reward_def Let_def res_simps split: if_splits)
  have bk: "books_of s' = books_of s" using unused_reward_quiet [OF un] rest(1) by simp
  show ?thesis
    using rest(2)
  proof
    assume "w' = w"
    then show ?thesis using same_books_funded [OF fd bk] by simp
  next
    assume "\<exists>t r. get_reward_token (pl_rewards s1) = Inr t \<and> pay x e t r n w = Inr w'"
    then obtain t r where rt: "get_reward_token (pl_rewards s1) = Inr t" and py: "pay x e t r n w = Inr w'" by blast
    then have t: "rw_token (pl_rewards s) = Some t"
      using unused_reward_token [OF un] by (auto simp: get_reward_token_def res_simps)
    from fd obtain ta tb ra rb fa fb where b: "bk_tokens (books_of s) = (Some ta, Some tb)"
      "bk_reserves (books_of s) = (Some ra, Some rb)" "bk_fees (books_of s) = (fa, fb)" "ta \<noteq> tb"
      and h: "int (ra + fa) \<le> bal ta w" "int (rb + fb) \<le> bal tb w" unfolding covered_iff by blast
    have fees: "t = ta \<Longrightarrow> fa = 0" "t = tb \<Longrightarrow> fb = 0"
      using no_fee t b(1,3) by (auto simp: no_fee_in_reward_token_def books_of_def)
    have n: "n \<le> as_u128 (bal t w) - (if t = ta then ra else if t = tb then rb else 0)"
      using unused_keeps_reserve [OF un rt b(1,2,4)] by (simp add: me)
    have kept: "int r \<le> bal t w'" if "int r \<le> bal t w" "n \<le> as_u128 (bal t w) - r" for r
    proof -
      have "int (as_u128 (bal t w)) \<le> bal t w" using that(1) by (intro as_u128_le) linarith
      then show ?thesis using pay_takes(1) [OF py me] that by linarith
    qed
    note same = pay_takes(2) [OF py me]
    have "int (ra + fa) \<le> bal ta w'"
      using kept [of ra] same [of ta] h(1) n fees(1) by (cases "t = ta") auto
    moreover have "int (rb + fb) \<le> bal tb w'"
      using kept [of rb] same [of tb] h(2) n fees(2) b(4) by (cases "t = tb") auto
    ultimately show ?thesis using b by (intro fundedI [of s' ta tb ra rb fa fb]) (simp_all add: bk)
  qed
qed

lemma own_funded:
  assumes run: "own_exec x e s w a = Inr (s', w')" and me: "current_contract e = me" and fd: "funded s w"
    and other: "\<And>b. a = CpReturnUnused b \<Longrightarrow> no_fee_in_reward_token s"
  shows "funded s' w'"
proof (cases a)
  case (CpReturnUnused b)
  with run other show ?thesis by (auto simp: res_simps intro: return_unused_funded [OF _ me fd])
next
  case (CpClaim u)
  with run show ?thesis by (auto simp: res_simps intro: claim_funded [OF _ me fd])
next
  case (CpClaimProtocolFees b d)
  with run show ?thesis by (auto simp: res_simps intro: claim_fees_funded [OF _ me fd])
next
  case CpBackfillPlane
  with run show ?thesis using same_books_funded [OF fd] plane_no_less [OF _ me] by (auto simp: res_simps)
next
  case CpUnusedReward
  with run show ?thesis using same_books_funded [OF fd] unused_reward_quiet by (fastforce simp: res_simps)
qed (use run in \<open>auto simp: res_simps cp_set_protocol_fee_fraction_def cp_init_pools_plane_def
  cp_initialize_rewards_config_def intro: same_books_funded [OF fd]\<close>)

lemma trade_funded:
  assumes run: "trade_exec x e s w a = Inr (s', w')" and me: "current_contract e = me" "\<not> authorized e me"
    and fd: "funded s w" and ok: "u128_arguments a"
  shows "funded s' w'"
proof (cases a)
  case (CpDeposit u ds m)
  with run obtain r where "cp_deposit x e u ds m (s, w) = Inr (r, s', w')" by (auto simp: res_simps)
  then show ?thesis using deposit_funded [OF _ me _ _ fd] ok CpDeposit by simp
next
  case (CpSwap u i j dx m)
  with run obtain r where "cp_swap x e u i j dx m (s, w) = Inr (r, s', w')" by (auto simp: res_simps)
  then show ?thesis using swap_funded [OF _ me _ fd] ok CpSwap by simp
next
  case (CpSwapStrict u i j dy m)
  with run obtain r where "cp_swap_strict_receive x e u i j dy m (s, w) = Inr (r, s', w')" by (auto simp: res_simps)
  then show ?thesis using swap_strict_funded [OF _ me _ fd] ok CpSwapStrict by simp
next
  case (CpWithdraw u n ms)
  with run obtain r where "cp_withdraw x e u n ms (s, w) = Inr (r, s', w')" by (auto simp: res_simps)
  then show ?thesis using withdraw_funded [OF _ me fd] by simp
qed (use sync_trade [OF run] sync_covered [OF _ me(1) fd] in blast)+

lemma exec_funded:
  assumes run: "cp_exec x e s w a = Inr (s', w')" and fair: "fair_call me e a s" and fd: "funded s w"
  shows "funded s' w'"
proof -
  have me: "current_contract e = me" "\<not> authorized e me" using fair by (auto simp: fair_call_def)
  show ?thesis
  proof (cases a)
    case (CpTrade b)
    with run fair trade_funded [OF _ me fd] show ?thesis by (simp add: fair_call_def)
  next
    case (CpOwn b)
    with run fair own_funded [OF _ me(1) fd, of b s' w'] show ?thesis by (cases b) (auto simp: fair_call_def)
  next
    case (CpShared b)
    with run have r: "shared_exec x e s w b = Inr (s', w')" by simp
    show ?thesis using same_books_funded [OF fd shared_books [OF r] shared_no_less [OF r me]] .
  qed
qed

lemma run_funded:
  assumes "cp_run x (fair_call me) (no_less (cc_tokens x) me) stay p q" and "funded (fst p) (snd p)"
  shows "funded (fst q) (snd q)"
  using assms
proof (induction rule: cp_run.induct)
  case start
  then show ?case .
next
  case (call s w e a s' w')
  then show ?case using exec_funded by simp
next
  case (world s w w')
  then show ?case using covered_mono [OF _ refl] by simp
qed

end

section \<open>The pool can always pay\<close>

text \<open>
  Claim C2: the pool can always pay. Over every run of its entry points, if the pool's token
  balances cover its reserves and the protocol's fees at the start, and nobody else can take tokens
  from it in between, they cover them at the end, for both tokens. The run is restricted by
  \<open>fair_call\<close>: no call is authorized by the pool itself, arguments are 128-bit values, and unused rewards
  are not returned while the pool holds a protocol fee in the reward token.
\<close>

theorem pool_stays_solvent:
  assumes "pool_host x me" and "covered (cc_tokens x) me s w"
    and "cp_run x (fair_call me) (no_less (cc_tokens x) me) (\<lambda>_. True) (s, w) (s', w')"
  shows "covered (cc_tokens x) me s' w'"
  using pool_host.run_funded [OF assms(1,3)] assms(2) by simp

lemma fair_swap:
  "cp_swap (standard_calls anyone) fair_env 5 0 1 993 890 (sample_pool, sample_world) =
    Inr (900, swapped_pool, after_swap)"
proof -
  have "collect (standard_calls anyone) fair_env t u n w = collect (standard_calls anyone) pool_env t u n w"
    "pay (standard_calls anyone) fair_env t u n w = pay (standard_calls anyone) pool_env t u n w" for t u n w
    by (simp_all add: collect_def pay_def)
  then show ?thesis by (simp add: cp_swap_def pool_run_defs Let_def sample_collect sample_pay)
qed

theorem pool_stays_solvent_witness:
  "covered (gauge_world_tokens anyone) 9 swapped_pool after_swap"
proof -
  have bal: "tk_balance (gauge_world_tokens anyone) t 9 sample_world = 10000" if "t = 11 \<or> t = 12" for t
    using that by (auto simp: gauge_world_balance token_world_def sample_world_def pool_token_def read_balance_def empty_token_def)
  have c: "covered (cc_tokens (standard_calls anyone)) 9 sample_pool sample_world"
    unfolding covered_iff by (auto simp: books_of_def bal sample_pool_def new_cp_pool_def)
  have "cp_run (standard_calls anyone) (fair_call 9) (no_less (cc_tokens (standard_calls anyone)) 9) (\<lambda>_. True)
      (sample_pool, sample_world) (swapped_pool, after_swap)"
    by (rule cp_run_one [where a = "CpTrade (CpSwap 5 0 1 993 890)" and e = fair_env])
      (simp_all add: fair_swap effect_def fair_call_def U128_MAX_def del: One_nat_def)
  from pool_stays_solvent [OF standard_host.pool_host_axioms c this] show ?thesis by simp
qed

section \<open>Unused rewards in a pool token\<close>

definition fee_pool :: cp_pool where
  \<comment> \<open>the reward token is the pool's first token, and the protocol has earned 7 of it\<close>
  "fee_pool = sample_pool\<lparr>pl_managed := sample_managed, pl_rewards := empty_rewards\<lparr>rw_token := Some 11\<rparr>,
     cp_protocol_fee_a := 7\<rparr>"

definition fee_world :: "int \<Rightarrow> int \<Rightarrow> gauge_world" where
  "fee_world p r = (Map.empty, (\<lambda>_. empty_token)
     (11 := empty_token\<lparr>tok_ac := token_admin, tok_balance := [9 \<mapsto> p, 61 \<mapsto> r]\<rparr>, 12 := pool_token))"

lemma fee_pool_books:
  "books_of fee_pool = \<lparr>bk_shares = 10000, bk_tokens = (Some 11, Some 12), bk_reserves = (Some 10000, Some 10000),
     bk_fees = (7, 0)\<rparr>"
  by (simp add: books_of_def fee_pool_def sample_pool_def new_cp_pool_def get_total_shares_def)

lemma fee_world_balance: "tk_balance (gauge_world_tokens anyone) 11 9 (fee_world p r) = p"
  "tk_balance (gauge_world_tokens anyone) 12 9 (fee_world p r) = 10000"
  by (simp_all add: gauge_world_balance token_world_def fee_world_def read_balance_def pool_token_def empty_token_def)

lemma fee_pool_unused:
  "\<exists>r. cp_get_unused_reward (standard_calls anyone) pool_env (fee_pool, fee_world 10007 0) =
    Inr (7, fee_pool\<lparr>pl_rewards := r\<rparr>) \<and> rw_token r = Some 11"
  by (simp add: cp_get_unused_reward_def reward_balance_to_keep_def with_rewards_def get_total_configured_reward_def
      get_total_claimed_reward_def get_working_supply_def get_reward_token_def run_defs pool_reward_context_def
      fee_world_balance as_u128_def fee_pool_def sample_pool_def new_cp_pool_def cp_get_tokens_def stored_def
      cp_stored_reserves_def get_total_shares_def del: upt_rec_numeral add_levels.simps find_max_pow.simps)

lemma fee_pool_pay:
  "pay (standard_calls anyone) pool_env 11 61 7 (fee_world 10007 0) = Inr (fee_world 10000 7)"
  by (simp add: pay_def fee_world_def i128_fits_def as_i128_def I128_MAX_def fun_upd_twist
      sample_moves [where f = "[9 \<mapsto> 10007, 61 \<mapsto> 0]" and a = 10007 and b = 0])

text \<open>
  Claim C38: the condition on returned unused rewards is needed. A pool that pays rewards in one
  of its own tokens and can pay everything it owes can return unused rewards and then no longer
  hold the protocol's fees: \<open>get_unused_reward\<close> does not keep them back.
\<close>

theorem unused_reward_takes_fees:
  "\<exists>(x :: gauge_world host_calls) e a s w v s' w'. pool_host x (current_contract e) \<and> covered (cc_tokens x) (current_contract e) s w \<and>
    cp_return_unused_reward x e a (s, w) = Inr (v, s', w') \<and> \<not> covered (cc_tokens x) (current_contract e) s' w'"
proof -
  let ?x = "standard_calls anyone"
  obtain r where un: "cp_get_unused_reward ?x pool_env (fee_pool, fee_world 10007 0) =
      Inr (7, fee_pool\<lparr>pl_rewards := r\<rparr>)" and r: "rw_token r = Some 11"
    using fee_pool_unused by blast
  have role: "pool_role pool_env 7 require_rewards_admin_or_owner fee_pool = Inr ()"
    by (simp add: pool_role_def require_auth_def require_rewards_admin_or_owner_def fee_pool_def sample_managed_def
        address_has_role_def get_role_safe_def or_else_def)
  have "cp_return_unused_reward ?x pool_env 7 (fee_pool, fee_world 10007 0) =
      Inr (7, fee_pool\<lparr>pl_rewards := r\<rparr>, fee_world 10000 7)"
    using un r role fee_pool_pay
    by (simp add: cp_return_unused_reward_def get_reward_token_def stored_def fee_pool_def sample_pool_def new_cp_pool_def)
  moreover have "covered (cc_tokens ?x) 9 fee_pool (fee_world 10007 0)"
    and "\<not> covered (cc_tokens ?x) 9 (fee_pool\<lparr>pl_rewards := r\<rparr>) (fee_world 10000 7)"
    by (simp_all add: covered_iff fee_pool_books fee_world_balance)
  ultimately show ?thesis using standard_host.pool_host_axioms [of anyone 9] unfolding pool_env_simps(4) [symmetric] by blast
qed

end
