(* ===== verification/SS_Math.thy ===== *)
theory SS_Math
  imports Host_Values Fixed_Point
begin

text \<open>
  \<^verbatim>\<open>liquidity_pool_stableswap/src/contract.rs\<close>, the numerical part: the invariant \<open>D\<close> of a vector of
  balances (\<open>_get_d\<close>) and the balance that restores it (\<open>_get_y\<close>, \<open>_get_y_d\<close>), both by Newton
  iteration in 256-bit integers with at most 255 rounds, the bound of the source's loops.
\<close>

definition NEWTON_ROUNDS :: nat where
  "NEWTON_ROUNDS = 255"

definition within_one :: "nat \<Rightarrow> nat \<Rightarrow> bool" where
  \<comment> \<open>equality with the precision of 1\<close>
  "within_one a b \<longleftrightarrow> (if b < a then a - b \<le> 1 else b - a \<le> 1)"

section \<open>The invariant\<close>

definition d_step :: "fixed_point \<Rightarrow> nat \<Rightarrow> nat \<Rightarrow> nat list \<Rightarrow> nat \<Rightarrow> nat \<Rightarrow> nat res" where
  \<comment> \<open>one round: \<open>d\<close> becomes \<open>(ann * s + d_p * n) * d / ((ann - 1) * d + (n + 1) * d_p)\<close>\<close>
  "d_step fp n ann xp s d =
     andthen (fold_res (\<lambda>x1 d_p. andthen (u128_mul x1 n) (\<lambda>k. mul_floor_256 fp d_p d k)) xp d) (\<lambda>d_p.
     andthen (u256_mul ann s) (\<lambda>ann_s.
     andthen (u256_mul d_p n) (\<lambda>d_p_n.
     andthen (u256_add ann_s d_p_n) (\<lambda>num.
     andthen (u_sub ann 1) (\<lambda>ann_1.
     andthen (u256_mul ann_1 d) (\<lambda>ann_1_d.
     andthen (u256_mul (n + 1) d_p) (\<lambda>n_1_d_p.
     andthen (u256_add ann_1_d n_1_d_p) (\<lambda>den.
     mul_floor_256 fp num d den))))))))"

primrec d_loop :: "nat \<Rightarrow> fixed_point \<Rightarrow> nat \<Rightarrow> nat \<Rightarrow> nat list \<Rightarrow> nat \<Rightarrow> nat \<Rightarrow> nat res" where
  "d_loop 0 fp n ann xp s d = Inl (StableswapError SS_MaxIterationsReached)"
| "d_loop (Suc k) fp n ann xp s d =
     andthen (d_step fp n ann xp s d) (\<lambda>d'.
     if within_one d' d then Inr d' else d_loop k fp n ann xp s d')"

definition get_d :: "fixed_point \<Rightarrow> nat \<Rightarrow> nat list \<Rightarrow> nat \<Rightarrow> nat res" where
  "get_d fp n xp amp =
     andthen (fold_res (\<lambda>x s. u256_add s x) xp 0) (\<lambda>s.
     if s = 0 then Inr 0
     else andthen (u128_mul amp n) (\<lambda>ann. d_loop NEWTON_ROUNDS fp n ann xp s s))"

section \<open>The balance on the curve\<close>

definition y_step :: "nat \<Rightarrow> nat \<Rightarrow> nat \<Rightarrow> nat \<Rightarrow> nat res" where
  \<comment> \<open>one round: \<open>y\<close> becomes \<open>(y * y + c) / (2 * y + b - d)\<close>\<close>
  "y_step c b d y =
     andthen (u256_mul y y) (\<lambda>yy.
     andthen (u256_add yy c) (\<lambda>num.
     andthen (u256_mul 2 y) (\<lambda>y2.
     andthen (u256_add y2 b) (\<lambda>y2b.
     andthen (u_sub y2b d) (\<lambda>den. u_div num den)))))"

primrec y_loop :: "nat \<Rightarrow> nat \<Rightarrow> nat \<Rightarrow> nat \<Rightarrow> nat \<Rightarrow> nat res" where
  "y_loop 0 c b d y = Inl (StableswapError SS_MaxIterationsReached)"
| "y_loop (Suc k) c b d y =
     andthen (y_step c b d y) (\<lambda>y'.
     if within_one y' y then to_u128 y' else y_loop k c b d y')"

definition y_coefficients :: "fixed_point \<Rightarrow> nat \<Rightarrow> nat \<Rightarrow> nat list \<Rightarrow> nat \<Rightarrow> (nat \<times> nat) res" where
  \<comment> \<open>the quadratic's \<open>c\<close> and \<open>b\<close> from the known balances\<close>
  "y_coefficients fp n ann known d =
     andthen (fold_res (\<lambda>x1 (c, s).
       andthen (u256_add s x1) (\<lambda>s.
       andthen (u256_mul x1 n) (\<lambda>k.
       andthen (mul_floor_256 fp c d k) (\<lambda>c. Inr (c, s))))) known (d, 0)) (\<lambda>(c, s).
     andthen (u256_mul c d) (\<lambda>cd.
     andthen (u256_mul ann n) (\<lambda>ann_n.
     andthen (u_div cd ann_n) (\<lambda>c.
     andthen (u_div d ann) (\<lambda>d_ann.
     andthen (u256_add s d_ann) (\<lambda>b. Inr (c, b)))))))"

definition known_balances :: "nat \<Rightarrow> nat \<Rightarrow> (nat \<Rightarrow> nat option) \<Rightarrow> nat list \<Rightarrow> nat list res" where
  \<comment> \<open>the balances other than \<open>skip\<close>, in order; \<open>changed\<close> replaces some of them\<close>
  "known_balances n skip changed xp =
     map_res (\<lambda>i. case changed i of Some x \<Rightarrow> Inr x | None \<Rightarrow> item xp i) (filter (\<lambda>i. i \<noteq> skip) [0..<n])"

definition get_y_indices :: "nat \<Rightarrow> nat \<Rightarrow> nat \<Rightarrow> unit res" where
  "get_y_indices n in_idx out_idx =
     (if in_idx = out_idx then Inl (ValidationError V_CannotSwapSameToken)
      else if n \<le> out_idx then Inl (ValidationError V_OutTokenOutOfBounds)
      else if n \<le> in_idx then Inl (ValidationError V_InTokenOutOfBounds)
      else Inr ())"

definition get_y :: "fixed_point \<Rightarrow> nat \<Rightarrow> nat res \<Rightarrow> nat \<Rightarrow> nat \<Rightarrow> nat \<Rightarrow> nat list \<Rightarrow> nat res" where
  \<comment> \<open>the amplification is a call that is made after the checks of the indices\<close>
  "get_y fp n amp_call in_idx out_idx x xp =
     andthen (get_y_indices n in_idx out_idx) (\<lambda>_.
     andthen amp_call (\<lambda>amp.
     andthen (get_d fp n xp amp) (\<lambda>d.
     andthen (u128_mul amp n) (\<lambda>ann.
     andthen (known_balances n out_idx [in_idx \<mapsto> x] xp) (\<lambda>known.
     andthen (y_coefficients fp n ann known d) (\<lambda>(c, b).
     y_loop NEWTON_ROUNDS c b d d))))))"

definition get_y_d :: "fixed_point \<Rightarrow> nat \<Rightarrow> nat \<Rightarrow> nat \<Rightarrow> nat list \<Rightarrow> nat \<Rightarrow> nat res" where
  "get_y_d fp n amp in_idx xp d =
     (if n \<le> in_idx then Inl (ValidationError V_InTokenOutOfBounds)
      else
        andthen (u128_mul amp n) (\<lambda>ann.
        andthen (known_balances n in_idx Map.empty xp) (\<lambda>known.
        andthen (y_coefficients fp n ann known d) (\<lambda>(c, b).
        y_loop NEWTON_ROUNDS c b d d))))"

end
