(* ===== verification/SS_Pool.thy ===== *)
theory SS_Pool
  imports SS_Math Pool_Admin
begin

text \<open>
  \<^verbatim>\<open>liquidity_pool_stableswap/src\<close>: the state of the stable pool (\<open>storage.rs\<close>), its scaling of
  balances to a common precision (\<open>normalize.rs\<close>), the report to the plane (\<open>plane.rs\<close>), the
  synchronization of its reserves, its amplification and its swaps (\<open>contract.rs\<close>). The state extends
  the common state of \<open>Pool_Base\<close>; getters that fill a missing entry return the new state.
\<close>

section \<open>State\<close>

record ss_pool = pool +
  ss_tokens :: "address list option"
  ss_decimals :: "nat list option"
  ss_reserves :: "nat list option"
  ss_initial_a :: "nat option"
  ss_initial_a_time :: "nat option"
  ss_future_a :: "nat option"
  ss_future_a_time :: "nat option"
  ss_fee :: "nat option"
  ss_future_fee :: "nat option"
  ss_deadline :: "nat option"
  ss_precision :: "nat option"
  ss_precision_mul :: "nat list option"
  ss_protocol_fees :: "nat list option"

definition FEE_DENOMINATOR :: nat where "FEE_DENOMINATOR = 10000"
definition MAX_A :: nat where "MAX_A = 1000000"
definition MAX_A_CHANGE :: nat where "MAX_A_CHANGE = 10"
definition MIN_RAMP_TIME :: nat where "MIN_RAMP_TIME = 86400"

definition new_ss_pool :: "nat \<Rightarrow> ss_pool" where
  "new_ss_pool wasm = \<lparr>pl_managed = new_managed wasm,
     pl_shares = \<lparr>sh_token = None, sh_total = None\<rparr>, pl_rewards = empty_rewards, pl_gauges = no_gauges,
     pl_plane = None, pl_router = None, pl_killed_swap = False, pl_killed_deposit = False,
     pl_killed_claim = False, pl_token_future_wasm = None, pl_gauge_future_wasm = None,
     pl_protocol_fee_fraction = 0, pl_sync_ledger = 0, pl_config_storage = None,
     ss_tokens = None, ss_decimals = None, ss_reserves = None, ss_initial_a = None, ss_initial_a_time = None,
     ss_future_a = None, ss_future_a_time = None, ss_fee = None, ss_future_fee = None, ss_deadline = None,
     ss_precision = None, ss_precision_mul = None, ss_protocol_fees = None\<rparr>"

section \<open>Precision\<close>

definition read_decimals :: "'w host_calls \<Rightarrow> 'w \<Rightarrow> address list \<Rightarrow> nat list" where
  "read_decimals x w tokens = map (cc_decimals x w) tokens"

definition precision_of :: "nat list \<Rightarrow> nat res" where
  "precision_of decimals = (if decimals = [] then Inl HostPanic else u_pow U128_MAX 10 (Max (set decimals)))"

definition precision_muls :: "nat list \<Rightarrow> nat list res" where
  "precision_muls decimals =
     andthen (precision_of decimals) (\<lambda>precision.
     map_res (\<lambda>d. andthen (u_pow U128_MAX 10 d) (\<lambda>p. u_div precision p)) decimals)"

fun scale_up :: "nat list \<Rightarrow> nat list \<Rightarrow> nat list res" where
  "scale_up [] rs = Inr []"
| "scale_up (m # ms) [] = Inl HostPanic"
| "scale_up (m # ms) (r # rs) = andthen (u128_mul m r) (\<lambda>y. andthen (scale_up ms rs) (\<lambda>ys. Inr (y # ys)))"

definition get_decimals :: "'w host_calls \<Rightarrow> 'w \<Rightarrow> ss_pool \<Rightarrow> (nat list \<times> ss_pool) res" where
  "get_decimals x w s =
     (case ss_decimals s of
        Some v \<Rightarrow> Inr (v, s)
      | None \<Rightarrow> andthen (stored (ss_tokens s)) (\<lambda>tokens.
          let v = read_decimals x w tokens in Inr (v, s\<lparr>ss_decimals := Some v\<rparr>)))"

definition get_precision :: "'w host_calls \<Rightarrow> 'w \<Rightarrow> ss_pool \<Rightarrow> (nat \<times> ss_pool) res" where
  "get_precision x w s =
     (case ss_precision s of
        Some v \<Rightarrow> Inr (v, s)
      | None \<Rightarrow> andthen (get_decimals x w s) (\<lambda>(decimals, s).
          andthen (precision_of decimals) (\<lambda>v. Inr (v, s\<lparr>ss_precision := Some v\<rparr>))))"

definition get_precision_mul :: "'w host_calls \<Rightarrow> 'w \<Rightarrow> ss_pool \<Rightarrow> (nat list \<times> ss_pool) res" where
  "get_precision_mul x w s =
     (case ss_precision_mul s of
        Some v \<Rightarrow> Inr (v, s)
      | None \<Rightarrow> andthen (get_decimals x w s) (\<lambda>(decimals, s).
          andthen (precision_muls decimals) (\<lambda>v. Inr (v, s\<lparr>ss_precision_mul := Some v\<rparr>))))"

definition scaled :: "'w host_calls \<Rightarrow> 'w \<Rightarrow> nat list \<Rightarrow> ss_pool \<Rightarrow> (nat list \<times> ss_pool) res" where
  \<comment> \<open>\<open>xp\<close>: the balances in the common precision\<close>
  "scaled x w reserves s =
     andthen (get_decimals x w s) (\<lambda>(decimals, s).
     andthen (precision_muls decimals) (\<lambda>muls.
     andthen (scale_up muls reserves) (\<lambda>xp. Inr (xp, s))))"

definition get_protocol_fees :: "ss_pool \<Rightarrow> (nat list \<times> ss_pool) res" where
  "get_protocol_fees s =
     (case ss_protocol_fees s of
        Some v \<Rightarrow> Inr (v, s)
      | None \<Rightarrow> andthen (stored (ss_tokens s)) (\<lambda>tokens.
          let fees = map (\<lambda>_. 0) tokens in Inr (fees, s\<lparr>ss_protocol_fees := Some fees\<rparr>)))"

definition ss_update_plane :: "'w host_calls \<Rightarrow> env \<Rightarrow> ss_pool \<times> 'w \<Rightarrow> (ss_pool \<times> 'w) res" where
  "ss_update_plane x e sw =
     (let (s, w) = sw in
      andthen (stored (ss_fee s)) (\<lambda>fee.
      andthen (stored (ss_initial_a s)) (\<lambda>initial_a.
      andthen (stored (ss_initial_a_time s)) (\<lambda>initial_a_time.
      andthen (stored (ss_future_a s)) (\<lambda>future_a.
      andthen (stored (ss_future_a_time s)) (\<lambda>future_a_time.
      andthen (stored (ss_reserves s)) (\<lambda>reserves.
      andthen (scaled x w reserves s) (\<lambda>(xp, s).
      andthen (stored (pl_plane s)) (\<lambda>plane.
      andthen (cc_plane_update x plane (current_contract e) ''stable''
        [fee, initial_a, initial_a_time, future_a, future_a_time] xp w) (\<lambda>w.
      Inr (s, w)))))))))))"

section \<open>Amplification\<close>

definition ramp_value :: "fixed_point \<Rightarrow> nat \<Rightarrow> nat \<Rightarrow> nat \<Rightarrow> nat \<Rightarrow> nat \<Rightarrow> nat res" where
  \<comment> \<open>the value at \<open>now\<close> on the line from \<open>a0\<close> at \<open>t0\<close> to \<open>a1\<close> at \<open>t1\<close>\<close>
  "ramp_value fp a0 t0 a1 t1 now =
     (if a0 < a1 then
        andthen (u_sub a1 a0) (\<lambda>rise.
        andthen (u_sub now t0) (\<lambda>elapsed.
        andthen (u_sub t1 t0) (\<lambda>span.
        andthen (mul_floor fp rise elapsed span) (\<lambda>step. u128_add a0 step))))
      else
        andthen (u_sub a0 a1) (\<lambda>fall.
        andthen (u_sub now t0) (\<lambda>elapsed.
        andthen (u_sub t1 t0) (\<lambda>span.
        andthen (mul_floor fp fall elapsed span) (\<lambda>step. u_sub a0 step)))))"

definition amp_of :: "fixed_point \<Rightarrow> env \<Rightarrow> ss_pool \<Rightarrow> nat res" where
  "amp_of fp e s =
     andthen (stored (ss_future_a_time s)) (\<lambda>t1.
     andthen (stored (ss_future_a s)) (\<lambda>a1.
     if ledger_timestamp e < t1 then
       andthen (stored (ss_initial_a s)) (\<lambda>a0.
       andthen (stored (ss_initial_a_time s)) (\<lambda>t0.
       ramp_value fp a0 t0 a1 t1 (ledger_timestamp e)))
     else Inr a1))"

section \<open>The curve over the pool's tokens\<close>

definition n_coins :: "ss_pool \<Rightarrow> nat res" where
  "n_coins s = andthen (stored (ss_tokens s)) (\<lambda>tokens. Inr (length tokens))"

definition pool_d :: "'w host_calls \<Rightarrow> ss_pool \<Rightarrow> nat list \<Rightarrow> nat \<Rightarrow> nat res" where
  "pool_d x s xp amp = andthen (n_coins s) (\<lambda>n. get_d (cc_fp x) n xp amp)"

definition pool_y :: "'w host_calls \<Rightarrow> env \<Rightarrow> ss_pool \<Rightarrow> nat \<Rightarrow> nat \<Rightarrow> nat \<Rightarrow> nat list \<Rightarrow> nat res" where
  "pool_y x e s in_idx out_idx v xp =
     andthen (n_coins s) (\<lambda>n. get_y (cc_fp x) n (amp_of (cc_fp x) e s) in_idx out_idx v xp)"

definition pool_y_d :: "'w host_calls \<Rightarrow> ss_pool \<Rightarrow> nat \<Rightarrow> nat \<Rightarrow> nat list \<Rightarrow> nat \<Rightarrow> nat res" where
  "pool_y_d x s amp in_idx xp d = andthen (n_coins s) (\<lambda>n. get_y_d (cc_fp x) n amp in_idx xp d)"

section \<open>Synchronizing the reserves\<close>

definition ss_sync_reserves :: "'w host_calls \<Rightarrow> env \<Rightarrow> ss_pool \<Rightarrow> 'w \<Rightarrow> ss_pool res" where
  "ss_sync_reserves x e s w =
     (if pl_sync_ledger s = ledger_sequence e then Inr s
      else
        andthen (stored (ss_tokens s)) (\<lambda>tokens.
        let reward_token = rw_token (pl_rewards s) in
        andthen (stored (ss_reserves s)) (\<lambda>reserves.
        if get_total_shares (pl_shares s) = 0 then Inr (s\<lparr>pl_sync_ledger := ledger_sequence e\<rparr>)
        else
          andthen (get_protocol_fees s) (\<lambda>(protocol_fees, s).
          andthen (map_res (sync_one x e reward_token w) (zip tokens (zip reserves protocol_fees))) (\<lambda>updated.
          let synced = updated @ drop (length updated) reserves in
          Inr ((if synced \<noteq> reserves then s\<lparr>ss_reserves := Some synced\<rparr> else s)
            \<lparr>pl_sync_ledger := ledger_sequence e\<rparr>))))))"

section \<open>Swaps\<close>

definition protocol_part :: "'w host_calls \<Rightarrow> nat \<Rightarrow> ss_pool \<Rightarrow> nat res" where
  "protocol_part x fee s = mul_ceil (cc_fp x) fee (pl_protocol_fee_fraction s) FEE_DENOMINATOR"

definition quote_dy ::
  "'w host_calls \<Rightarrow> env \<Rightarrow> ss_pool \<Rightarrow> nat list \<Rightarrow> nat list \<Rightarrow> nat \<Rightarrow> nat \<Rightarrow> nat \<Rightarrow> nat \<Rightarrow> nat res" where
  \<comment> \<open>the other side's balance on the curve after \<open>in_amount - dx_fee\<close> came in\<close>
  "quote_dy x e s precision_mul xp in_idx out_idx in_amount dx_fee =
     andthen (item xp in_idx) (\<lambda>xp_in.
     andthen (u_sub in_amount dx_fee) (\<lambda>net.
     andthen (item precision_mul in_idx) (\<lambda>mul_in.
     andthen (u128_mul net mul_in) (\<lambda>net_scaled.
     andthen (u128_add xp_in net_scaled) (\<lambda>v.
     pool_y x e s in_idx out_idx v xp)))))"

definition book_trade ::
  "'w host_calls \<Rightarrow> env \<Rightarrow> address \<Rightarrow> nat list \<Rightarrow> nat list \<Rightarrow> nat \<Rightarrow> nat \<Rightarrow> nat \<Rightarrow> nat \<Rightarrow> nat \<Rightarrow> ss_pool \<times> 'w \<Rightarrow>
   (ss_pool \<times> 'w) res" where
  \<comment> \<open>the common end of both swaps: the new reserves and fees, the payment, the plane\<close>
  "book_trade x e user coins old_balances in_idx out_idx dx dx_protocol_fee dy sw =
     (let (s, w) = sw in
      andthen (stored (ss_reserves s)) (\<lambda>reserves.
      andthen (item old_balances in_idx) (\<lambda>old_in.
      andthen (u128_add old_in dx) (\<lambda>gross.
      andthen (u_sub gross dx_protocol_fee) (\<lambda>new_in.
      andthen (put_item in_idx new_in reserves) (\<lambda>reserves.
      andthen (item old_balances out_idx) (\<lambda>old_out.
      andthen (u_sub old_out dy) (\<lambda>new_out.
      andthen (put_item out_idx new_out reserves) (\<lambda>reserves.
      andthen (get_protocol_fees (s\<lparr>ss_reserves := Some reserves\<rparr>)) (\<lambda>(fees, s).
      andthen (item fees in_idx) (\<lambda>fee_in.
      andthen (u128_add fee_in dx_protocol_fee) (\<lambda>new_fee.
      andthen (put_item in_idx new_fee fees) (\<lambda>fees.
      andthen (item coins out_idx) (\<lambda>token_out.
      andthen (pay x e token_out user dy w) (\<lambda>w.
      ss_update_plane x e (s\<lparr>ss_protocol_fees := Some fees\<rparr>, w))))))))))))))))"

definition reserves_not_empty :: "nat list \<Rightarrow> nat \<Rightarrow> nat \<Rightarrow> nat res" where
  \<comment> \<open>both reserves of a swap must be positive; the bought one is returned\<close>
  "reserves_not_empty balances in_idx out_idx =
     andthen (item balances in_idx) (\<lambda>reserve_sell.
     andthen (item balances out_idx) (\<lambda>reserve_buy.
     if reserve_sell = 0 \<or> reserve_buy = 0 then Inl (ValidationError V_EmptyPool) else Inr reserve_buy))"

definition ss_swap ::
  "'w host_calls \<Rightarrow> env \<Rightarrow> address \<Rightarrow> nat \<Rightarrow> nat \<Rightarrow> nat \<Rightarrow> nat \<Rightarrow> ss_pool \<times> 'w \<Rightarrow> (nat \<times> ss_pool \<times> 'w) res" where
  "ss_swap x e user in_idx out_idx in_amount out_min sw =
     (let (s, w) = sw in
      andthen (require_auth e user) (\<lambda>_.
      if pl_killed_swap s then Inl (StableswapError SS_PoolSwapKilled)
      else if in_amount = 0 then Inl (ValidationError V_ZeroAmount)
      else
        andthen (ss_sync_reserves x e s w) (\<lambda>s.
        andthen (get_precision_mul x w s) (\<lambda>(precision_mul, s).
        andthen (stored (ss_reserves s)) (\<lambda>old_balances.
        andthen (scaled x w old_balances s) (\<lambda>(xp, s).
        andthen (stored (ss_tokens s)) (\<lambda>coins.
        andthen (item coins in_idx) (\<lambda>input_coin.
        andthen (collect x e input_coin user in_amount w) (\<lambda>w.
        andthen (reserves_not_empty old_balances in_idx out_idx) (\<lambda>_.
        andthen (stored (ss_fee s)) (\<lambda>fee.
        andthen (mul_ceil (cc_fp x) in_amount fee FEE_DENOMINATOR) (\<lambda>dx_fee.
        andthen (protocol_part x dx_fee s) (\<lambda>dx_protocol_fee.
        andthen (quote_dy x e s precision_mul xp in_idx out_idx in_amount dx_fee) (\<lambda>y.
        andthen (item xp out_idx) (\<lambda>xp_out.
        andthen (u_sub xp_out y) (\<lambda>dy_up.
        andthen (u_sub dy_up 1) (\<lambda>dy_scaled.
        andthen (item precision_mul out_idx) (\<lambda>mul_out.
        andthen (u_div dy_scaled mul_out) (\<lambda>dy.
        if dy < out_min then Inl (ValidationError V_OutMinNotSatisfied)
        else
          andthen (book_trade x e user coins old_balances in_idx out_idx in_amount dx_protocol_fee dy (s, w)) (\<lambda>(s, w).
          Inr (dy, s, w)))))))))))))))))))))"

definition get_dy ::
  "'w host_calls \<Rightarrow> env \<Rightarrow> nat \<Rightarrow> nat \<Rightarrow> nat \<Rightarrow> ss_pool \<times> 'w \<Rightarrow> (nat \<times> ss_pool) res" where
  "get_dy x e i j dx sw =
     (let (s, w) = sw in
      andthen (stored (ss_fee s)) (\<lambda>fee.
      andthen (mul_ceil (cc_fp x) dx fee FEE_DENOMINATOR) (\<lambda>dx_fee.
      andthen (get_precision_mul x w s) (\<lambda>(precision_mul, s).
      andthen (stored (ss_reserves s)) (\<lambda>reserves.
      andthen (scaled x w reserves s) (\<lambda>(xp, s).
      andthen (quote_dy x e s precision_mul xp i j dx dx_fee) (\<lambda>y.
      if y = 0 then Inr (0, s)
      else
        andthen (item xp j) (\<lambda>xp_out.
        andthen (u_sub xp_out y) (\<lambda>dy_up.
        andthen (u_sub dy_up 1) (\<lambda>dy_scaled.
        andthen (item precision_mul j) (\<lambda>mul_out.
        andthen (u_div dy_scaled mul_out) (\<lambda>dy. Inr (dy, s)))))))))))))"

definition ss_estimate_swap ::
  "'w host_calls \<Rightarrow> env \<Rightarrow> nat \<Rightarrow> nat \<Rightarrow> nat \<Rightarrow> ss_pool \<times> 'w \<Rightarrow> (nat \<times> ss_pool) res" where
  "ss_estimate_swap x e in_idx out_idx in_amount sw =
     andthen (ss_sync_reserves x e (fst sw) (snd sw)) (\<lambda>s. get_dy x e in_idx out_idx in_amount (s, snd sw))"

definition input_needed :: "nat list \<Rightarrow> nat list \<Rightarrow> nat \<Rightarrow> nat \<Rightarrow> nat res" where
  \<comment> \<open>\<open>(x - xp[i] + 1) / precision_mul[i]\<close>, rounded down\<close>
  "input_needed precision_mul xp in_idx v =
     andthen (item xp in_idx) (\<lambda>xp_in.
     andthen (u_sub v xp_in) (\<lambda>dx_scaled.
     andthen (u128_add dx_scaled 1) (\<lambda>dx_up.
     andthen (item precision_mul in_idx) (\<lambda>mul_in. u_div dx_up mul_in))))"

definition add_fee :: "fixed_point \<Rightarrow> nat \<Rightarrow> nat \<Rightarrow> nat res" where
  "add_fee fp fee dx = andthen (u_sub FEE_DENOMINATOR fee) (\<lambda>rest. mul_ceil fp dx FEE_DENOMINATOR rest)"

definition ss_swap_strict_receive ::
  "'w host_calls \<Rightarrow> env \<Rightarrow> address \<Rightarrow> nat \<Rightarrow> nat \<Rightarrow> nat \<Rightarrow> nat \<Rightarrow> ss_pool \<times> 'w \<Rightarrow> (nat \<times> ss_pool \<times> 'w) res" where
  "ss_swap_strict_receive x e user in_idx out_idx out_amount in_max sw =
     (let (s, w) = sw in
      andthen (require_auth e user) (\<lambda>_.
      if pl_killed_swap s then Inl (StableswapError SS_PoolSwapKilled)
      else if out_amount = 0 then Inl (ValidationError V_ZeroAmount)
      else
        andthen (ss_sync_reserves x e s w) (\<lambda>s.
        andthen (get_precision_mul x w s) (\<lambda>(precision_mul, s).
        andthen (stored (ss_reserves s)) (\<lambda>old_balances.
        andthen (scaled x w old_balances s) (\<lambda>(xp, s).
        andthen (stored (ss_tokens s)) (\<lambda>coins.
        andthen (item coins in_idx) (\<lambda>input_coin.
        andthen (collect x e input_coin user in_max w) (\<lambda>w.
        andthen (reserves_not_empty old_balances in_idx out_idx) (\<lambda>reserve_buy.
        if reserve_buy \<le> out_amount then Inl (ValidationError V_InsufficientBalance)
        else
          andthen (item xp out_idx) (\<lambda>xp_out.
          andthen (item precision_mul out_idx) (\<lambda>mul_out.
          andthen (u128_mul out_amount mul_out) (\<lambda>out_scaled.
          if xp_out < out_scaled then Inl (ValidationError V_InsufficientBalance)
          else
            andthen (pool_y x e s out_idx in_idx (xp_out - out_scaled) xp) (\<lambda>v.
            andthen (input_needed precision_mul xp in_idx v) (\<lambda>dx_wo_fee.
            andthen (stored (ss_fee s)) (\<lambda>fee.
            andthen (add_fee (cc_fp x) fee dx_wo_fee) (\<lambda>dx.
            andthen (u_sub dx dx_wo_fee) (\<lambda>dx_fee.
            andthen (protocol_part x dx_fee s) (\<lambda>dx_protocol_fee.
            if in_max < dx then Inl (ValidationError V_InMaxNotSatisfied)
            else
              andthen (refund x e input_coin user in_max dx w) (\<lambda>w.
              andthen (book_trade x e user coins old_balances in_idx out_idx dx dx_protocol_fee out_amount (s, w))
                (\<lambda>(s, w).
              Inr (dx, s, w))))))))))))))))))))))"

definition get_dx ::
  "'w host_calls \<Rightarrow> env \<Rightarrow> nat \<Rightarrow> nat \<Rightarrow> nat \<Rightarrow> ss_pool \<times> 'w \<Rightarrow> (nat \<times> ss_pool) res" where
  "get_dx x e i j dy sw =
     (let (s, w) = sw in
      andthen (get_precision_mul x w s) (\<lambda>(precision_mul, s).
      andthen (stored (ss_reserves s)) (\<lambda>reserves.
      andthen (scaled x w reserves s) (\<lambda>(xp, s).
      andthen (item xp j) (\<lambda>xp_buy.
      andthen (item precision_mul j) (\<lambda>mul_out.
      andthen (u128_mul dy mul_out) (\<lambda>dy_scaled.
      if xp_buy \<le> dy_scaled then Inl (ValidationError V_InsufficientBalance)
      else
        andthen (pool_y x e s j i (xp_buy - dy_scaled) xp) (\<lambda>v.
        if v = 0 then Inr (0, s)
        else
          andthen (input_needed precision_mul xp i v) (\<lambda>dx.
          andthen (stored (ss_fee s)) (\<lambda>fee.
          andthen (add_fee (cc_fp x) fee dx) (\<lambda>dx_w_fee. Inr (dx_w_fee, s))))))))))))"

definition ss_estimate_swap_strict_receive ::
  "'w host_calls \<Rightarrow> env \<Rightarrow> nat \<Rightarrow> nat \<Rightarrow> nat \<Rightarrow> ss_pool \<times> 'w \<Rightarrow> (nat \<times> ss_pool) res" where
  "ss_estimate_swap_strict_receive x e in_idx out_idx out_amount sw =
     andthen (ss_sync_reserves x e (fst sw) (snd sw)) (\<lambda>s. get_dx x e in_idx out_idx out_amount (s, snd sw))"

end
