(* ===== verification/SS_Liquidity.thy ===== *)
theory SS_Liquidity
  imports SS_Pool
begin

text \<open>
  \<^verbatim>\<open>liquidity_pool_stableswap/src/contract.rs\<close>: deposits and the four ways to withdraw (balanced,
  imbalanced, in one coin), with their estimates. Loops over the coins are \<open>for_upto\<close> with the
  source's order of reads, transfers and writes.
\<close>

section \<open>What the liquidity operations share\<close>

definition finish_liquidity ::
  "'w host_calls \<Rightarrow> env \<Rightarrow> address \<Rightarrow> nat res \<Rightarrow> nat res \<Rightarrow> ss_pool \<times> 'w \<Rightarrow> (ss_pool \<times> 'w) res" where
  \<comment> \<open>checkpoint the resulting balance and supply, update the working balance, report to the plane\<close>
  "finish_liquidity x e user new_user_shares new_total_shares sw =
     andthen new_user_shares (\<lambda>user_shares.
     andthen new_total_shares (\<lambda>total_shares.
     andthen (gauge_checkpoint x e user user_shares total_shares (new_manager (fst sw), snd sw)) (\<lambda>sw.
     andthen (rewards_reweigh x e user total_shares user_shares sw) (\<lambda>sw.
     ss_update_plane x e sw))))"

definition imbalance_fee :: "fixed_point \<Rightarrow> nat res \<Rightarrow> nat \<Rightarrow> nat \<Rightarrow> nat \<Rightarrow> nat res" where
  \<comment> \<open>the fee on the distance of a balance from the ideal one: \<open>fee * n / (4 * (n - 1))\<close> of it\<close>
  "imbalance_fee fp fee_call n ideal_balance new_balance =
     (let difference = (if new_balance < ideal_balance then ideal_balance - new_balance
                        else new_balance - ideal_balance) in
      andthen fee_call (\<lambda>fee.
      andthen (u128_mul fee n) (\<lambda>fee_n.
      andthen (u_sub n 1) (\<lambda>n_1.
      andthen (u128_mul (FEE_DENOMINATOR * 4) n_1) (\<lambda>den.
      mul_ceil fp difference fee_n den)))))"

definition charge_imbalance ::
  "'w host_calls \<Rightarrow> ss_pool \<Rightarrow> nat \<Rightarrow> (nat \<Rightarrow> nat res) \<Rightarrow> nat list \<Rightarrow> nat \<Rightarrow>
   nat list \<times> nat list \<times> nat list \<Rightarrow> (nat list \<times> nat list \<times> nat list) res" where
  \<comment> \<open>one coin of the fee loop: its reserve keeps all but the protocol's part, the balance that counts
     for shares loses the whole fee\<close>
  "charge_imbalance x s n ideal_of old_balances i st =
     (let (reserves, new_balances, protocol_fees) = st in
      andthen (item new_balances i) (\<lambda>new_balance.
      andthen (item old_balances i) (\<lambda>old_balance.
      andthen (ideal_of old_balance) (\<lambda>ideal_balance.
      andthen (imbalance_fee (cc_fp x) (stored (ss_fee s)) n ideal_balance new_balance) (\<lambda>fee.
      andthen (protocol_part x fee s) (\<lambda>protocol_fee.
      andthen (item protocol_fees i) (\<lambda>f.
      andthen (u128_add f protocol_fee) (\<lambda>f.
      andthen (put_item i f protocol_fees) (\<lambda>protocol_fees.
      andthen (u_sub new_balance protocol_fee) (\<lambda>kept.
      andthen (put_item i kept reserves) (\<lambda>reserves.
      andthen (u_sub new_balance fee) (\<lambda>counted.
      andthen (put_item i counted new_balances) (\<lambda>new_balances.
      Inr (reserves, new_balances, protocol_fees))))))))))))))"

definition proportion :: "nat \<Rightarrow> nat \<Rightarrow> nat \<Rightarrow> nat res" where
  \<comment> \<open>\<open>a * b / c\<close> with plain 256-bit operations\<close>
  "proportion a b c = andthen (u256_mul a b) (\<lambda>p. u_div p c)"

section \<open>Deposits\<close>

definition deposit_balances :: "nat \<Rightarrow> nat list \<Rightarrow> nat list \<Rightarrow> nat \<Rightarrow> nat list \<Rightarrow> nat list res" where
  \<comment> \<open>one coin of the first loop of a deposit, without the transfer\<close>
  "deposit_balances token_supply amounts old_balances i new_balances =
     andthen (item amounts i) (\<lambda>in_amount.
     if token_supply = 0 \<and> in_amount = 0 then Inl (ValidationError V_AllCoinsRequired)
     else
       andthen (item old_balances i) (\<lambda>old.
       andthen (u128_add old in_amount) (\<lambda>new. put_item i new new_balances)))"

definition take_coin ::
  "'w host_calls \<Rightarrow> env \<Rightarrow> address \<Rightarrow> nat list \<Rightarrow> nat \<Rightarrow> nat list \<Rightarrow> nat list \<Rightarrow> nat \<Rightarrow> nat list \<times> 'w \<Rightarrow>
   (nat list \<times> 'w) res" where
  \<comment> \<open>the same with the transfer from the depositor\<close>
  "take_coin x e user coins token_supply amounts old_balances i st =
     (let (new_balances, w) = st in
      andthen (item amounts i) (\<lambda>in_amount.
      if token_supply = 0 \<and> in_amount = 0 then Inl (ValidationError V_AllCoinsRequired)
      else
        andthen (item coins i) (\<lambda>in_coin.
        andthen (if 0 < in_amount then collect x e in_coin user in_amount w else Inr w) (\<lambda>w.
        andthen (deposit_balances token_supply amounts old_balances i new_balances) (\<lambda>new_balances.
        Inr (new_balances, w))))))"

definition pool_d_if :: "'w host_calls \<Rightarrow> 'w \<Rightarrow> bool \<Rightarrow> nat list \<Rightarrow> nat \<Rightarrow> ss_pool \<Rightarrow> (nat \<times> ss_pool) res" where
  \<comment> \<open>\<open>D\<close> of the given balances, or 0 when there are no shares\<close>
  "pool_d_if x w b balances amp s =
     (if b then andthen (scaled x w balances s) (\<lambda>(xp, s). andthen (pool_d x s xp amp) (\<lambda>d. Inr (d, s)))
      else Inr (0, s))"

definition charge_deposit ::
  "'w host_calls \<Rightarrow> 'w \<Rightarrow> nat \<Rightarrow> nat \<Rightarrow> nat \<Rightarrow> nat \<Rightarrow> nat \<Rightarrow> nat list \<Rightarrow> nat list \<Rightarrow> nat list \<Rightarrow> ss_pool \<Rightarrow>
   (nat list \<times> nat list \<times> nat \<times> ss_pool) res" where
  \<comment> \<open>the balances and fees to book and the invariant that counts for shares; the first deposit is free\<close>
  "charge_deposit x w n token_supply amp d0 d1 old_balances new_balances protocol_fees s =
     (if 0 < token_supply then
        andthen (for_upto n (charge_imbalance x s n (\<lambda>old. andthen (proportion d1 old d0) to_u128) old_balances)
          (new_balances, new_balances, protocol_fees)) (\<lambda>(balances, counted, protocol_fees).
        andthen (pool_d_if x w True counted amp s) (\<lambda>(d2, s).
        Inr (balances, protocol_fees, d2, s)))
      else Inr (new_balances, protocol_fees, d1, s))"

definition shares_for_deposit :: "nat \<Rightarrow> nat \<Rightarrow> nat \<Rightarrow> nat \<Rightarrow> nat res" where
  "shares_for_deposit token_supply d0 d1 d2 =
     (if token_supply = 0 then to_u128 d1
      else andthen (u_sub d2 d0) (\<lambda>grown. andthen (proportion token_supply grown d0) to_u128))"

definition ss_deposit ::
  "'w host_calls \<Rightarrow> env \<Rightarrow> address \<Rightarrow> nat list \<Rightarrow> nat \<Rightarrow> ss_pool \<times> 'w \<Rightarrow>
   ((nat list \<times> nat) \<times> ss_pool \<times> 'w) res" where
  "ss_deposit x e user amounts min_shares sw =
     (let (s, w) = sw in
      andthen (require_auth e user) (\<lambda>_.
      if pl_killed_deposit s then Inl (StableswapError SS_PoolDepositKilled)
      else
        andthen (n_coins s) (\<lambda>n.
        if length amounts \<noteq> n then Inl (ValidationError V_WrongInputVecSize)
        else
          andthen (ss_sync_reserves x e s w) (\<lambda>s.
          andthen (settle_user x e user (s, w)) (\<lambda>(total_shares, user_shares, s, w).
          andthen (amp_of (cc_fp x) e s) (\<lambda>amp.
          let token_supply = get_total_shares (pl_shares s) in
          andthen (stored (ss_reserves s)) (\<lambda>old_balances.
          andthen (pool_d_if x w (0 < token_supply) old_balances amp s) (\<lambda>(d0, s).
          andthen (stored (ss_tokens s)) (\<lambda>coins.
          andthen (get_protocol_fees s) (\<lambda>(protocol_fees, s).
          andthen (for_upto n (take_coin x e user coins token_supply amounts old_balances) (old_balances, w))
            (\<lambda>(new_balances, w).
          andthen (pool_d_if x w True new_balances amp s) (\<lambda>(d1, s).
          if d1 \<le> d0 then Inl (StableswapError SS_InvariantDoesNotHold)
          else
            andthen (charge_deposit x w n token_supply amp d0 d1 old_balances new_balances protocol_fees s)
              (\<lambda>(balances, protocol_fees, d2, s).
            let s = s\<lparr>ss_reserves := Some balances, ss_protocol_fees := Some protocol_fees\<rparr> in
            andthen (shares_for_deposit token_supply d0 d1 d2) (\<lambda>mint_amount.
            if mint_amount < min_shares then Inl (ValidationError V_OutMinNotSatisfied)
            else
              andthen (mint_shares (cc_shares x) user (as_i128 mint_amount) (pl_shares s, w)) (\<lambda>(sh, w).
              andthen (finish_liquidity x e user (u128_add user_shares mint_amount) (u128_add total_shares mint_amount)
                (s\<lparr>pl_shares := sh\<rparr>, w)) (\<lambda>(s, w).
              Inr ((amounts, mint_amount), s, w)))))))))))))))))"

definition ss_estimate_deposit ::
  "'w host_calls \<Rightarrow> env \<Rightarrow> nat list \<Rightarrow> ss_pool \<times> 'w \<Rightarrow> (nat \<times> ss_pool) res" where
  "ss_estimate_deposit x e amounts sw =
     (let (s, w) = sw in
      andthen (n_coins s) (\<lambda>n.
      if length amounts \<noteq> n then Inl (ValidationError V_WrongInputVecSize)
      else
        andthen (ss_sync_reserves x e s w) (\<lambda>s.
        andthen (amp_of (cc_fp x) e s) (\<lambda>amp.
        let token_supply = get_total_shares (pl_shares s) in
        andthen (stored (ss_reserves s)) (\<lambda>old_balances.
        andthen (pool_d_if x w (0 < token_supply) old_balances amp s) (\<lambda>(d0, s).
        andthen (for_upto n (deposit_balances token_supply amounts old_balances) old_balances) (\<lambda>new_balances.
        andthen (pool_d_if x w True new_balances amp s) (\<lambda>(d1, s).
        if d1 \<le> d0 then Inl (StableswapError SS_InvariantDoesNotHold)
        else if 0 < token_supply then
          andthen (for_upto n (\<lambda>i counted.
            andthen (item counted i) (\<lambda>new_balance.
            andthen (item old_balances i) (\<lambda>old.
            andthen (proportion d1 old d0) (\<lambda>q.
            andthen (to_u128 q) (\<lambda>ideal_balance.
            andthen (imbalance_fee (cc_fp x) (stored (ss_fee s)) n ideal_balance new_balance) (\<lambda>fee.
            andthen (u_sub new_balance fee) (\<lambda>left. put_item i left counted))))))) new_balances) (\<lambda>counted.
          andthen (pool_d_if x w True counted amp s) (\<lambda>(d2, s).
          andthen (shares_for_deposit token_supply d0 d1 d2) (\<lambda>shares. Inr (shares, s))))
        else andthen (shares_for_deposit token_supply d0 d1 d1) (\<lambda>shares. Inr (shares, s))))))))))"

definition ss_calc_token_amount ::
  "'w host_calls \<Rightarrow> env \<Rightarrow> nat list \<Rightarrow> bool \<Rightarrow> ss_pool \<times> 'w \<Rightarrow> (nat \<times> ss_pool) res" where
  "ss_calc_token_amount x e amounts deposit sw =
     (let (s, w) = sw in
      andthen (n_coins s) (\<lambda>n.
      if length amounts \<noteq> n then Inl (ValidationError V_WrongInputVecSize)
      else
        andthen (ss_sync_reserves x e s w) (\<lambda>s.
        andthen (stored (ss_reserves s)) (\<lambda>old_reserves.
        andthen (amp_of (cc_fp x) e s) (\<lambda>amp.
        andthen (pool_d_if x w True old_reserves amp s) (\<lambda>(d0, s).
        andthen (for_upto n (\<lambda>i reserves.
          andthen (item reserves i) (\<lambda>r.
          andthen (item amounts i) (\<lambda>a.
          andthen (if deposit then u128_add r a else u_sub r a) (\<lambda>v. put_item i v reserves)))) old_reserves) (\<lambda>reserves.
        andthen (pool_d_if x w True reserves amp s) (\<lambda>(d1, s).
        andthen (if deposit then u_sub d1 d0 else u_sub d0 d1) (\<lambda>diff.
        andthen (mul_floor_256 (cc_fp x) diff (get_total_shares (pl_shares s)) d0) (\<lambda>q.
        andthen (to_u128 q) (\<lambda>shares. Inr (shares, s))))))))))))"

section \<open>Balanced withdrawals\<close>

definition give_share ::
  "'w host_calls \<Rightarrow> env \<Rightarrow> address \<Rightarrow> nat list \<Rightarrow> nat \<Rightarrow> nat \<Rightarrow> nat list \<Rightarrow> nat \<Rightarrow> nat list \<times> nat list \<times> 'w \<Rightarrow>
   (nat list \<times> nat list \<times> 'w) res" where
  \<comment> \<open>one coin of a balanced withdrawal\<close>
  "give_share x e user coins share_amount total_supply min_amounts i st =
     (let (reserves, amounts, w) = st in
      andthen (item reserves i) (\<lambda>r.
      andthen (mul_floor (cc_fp x) r share_amount total_supply) (\<lambda>value.
      andthen (item min_amounts i) (\<lambda>min_amount.
      if value < min_amount then Inl (ValidationError V_OutMinNotSatisfied)
      else
        andthen (u_sub r value) (\<lambda>left.
        andthen (put_item i left reserves) (\<lambda>reserves.
        andthen (item coins i) (\<lambda>coin.
        andthen (pay x e coin user value w) (\<lambda>w.
        Inr (reserves, amounts @ [value], w)))))))))"

definition ss_withdraw ::
  "'w host_calls \<Rightarrow> env \<Rightarrow> address \<Rightarrow> nat \<Rightarrow> nat list \<Rightarrow> ss_pool \<times> 'w \<Rightarrow> (nat list \<times> ss_pool \<times> 'w) res" where
  "ss_withdraw x e user share_amount min_amounts sw =
     (let (s, w) = sw in
      andthen (require_auth e user) (\<lambda>_.
      andthen (n_coins s) (\<lambda>n.
      if length min_amounts \<noteq> n then Inl (ValidationError V_WrongInputVecSize)
      else
        andthen (ss_sync_reserves x e s w) (\<lambda>s.
        andthen (settle_user x e user (s, w)) (\<lambda>(total_shares, user_shares, s, w).
        andthen (stored (ss_reserves s)) (\<lambda>reserves.
        andthen (stored (ss_tokens s)) (\<lambda>coins.
        andthen (for_upto n (give_share x e user coins share_amount (get_total_shares (pl_shares s)) min_amounts)
          (reserves, [], w)) (\<lambda>(reserves, amounts, w).
        andthen (burn_shares (cc_shares x) user share_amount (pl_shares s, w)) (\<lambda>(sh, w).
        andthen (finish_liquidity x e user (u_sub user_shares share_amount) (u_sub total_shares share_amount)
          (s\<lparr>ss_reserves := Some reserves, pl_shares := sh\<rparr>, w)) (\<lambda>(s, w).
        Inr (amounts, s, w)))))))))))"

section \<open>Imbalanced withdrawals\<close>

definition not_zero :: "nat \<Rightarrow> nat list \<Rightarrow> nat list res" where
  "not_zero i balances =
     andthen (item balances i) (\<lambda>b. if b = 0 then Inl (StableswapError SS_ZeroTokenNotAllowed) else Inr balances)"

definition pay_coin ::
  "'w host_calls \<Rightarrow> env \<Rightarrow> address \<Rightarrow> address list \<Rightarrow> nat list \<Rightarrow> nat \<Rightarrow> 'w \<Rightarrow> 'w res" where
  "pay_coin x e user coins amounts i w =
     andthen (item amounts i) (\<lambda>amount.
     if amount \<noteq> 0 then andthen (item coins i) (\<lambda>coin. pay x e coin user amount w) else Inr w)"

definition ss_remove_liquidity_imbalance ::
  "'w host_calls \<Rightarrow> env \<Rightarrow> address \<Rightarrow> nat list \<Rightarrow> nat \<Rightarrow> ss_pool \<times> 'w \<Rightarrow> (nat \<times> ss_pool \<times> 'w) res" where
  "ss_remove_liquidity_imbalance x e user amounts max_burn_amount sw =
     (let (s, w) = sw in
      andthen (require_auth e user) (\<lambda>_.
      if pl_killed_swap s then Inl (StableswapError SS_PoolSwapKilled)
      else
        andthen (n_coins s) (\<lambda>n.
        if length amounts \<noteq> n then Inl (ValidationError V_WrongInputVecSize)
        else
          andthen (ss_sync_reserves x e s w) (\<lambda>s.
          andthen (settle_user x e user (s, w)) (\<lambda>(total_shares, user_shares, s, w).
          let token_supply = get_total_shares (pl_shares s) in
          if token_supply = 0 then Inl (ValidationError V_EmptyPool)
          else
            andthen (amp_of (cc_fp x) e s) (\<lambda>amp.
            andthen (stored (ss_reserves s)) (\<lambda>old_balances.
            andthen (get_protocol_fees s) (\<lambda>(protocol_fees, s).
            andthen (pool_d_if x w True old_balances amp s) (\<lambda>(d0, s).
            andthen (for_upto n (\<lambda>i balances.
              andthen (item balances i) (\<lambda>b.
              andthen (item amounts i) (\<lambda>a.
              andthen (u_sub b a) (\<lambda>left.
              andthen (put_item i left balances) (not_zero i))))) old_balances) (\<lambda>new_balances.
            andthen (pool_d_if x w True new_balances amp s) (\<lambda>(d1, s).
            andthen (for_upto n (\<lambda>i st.
              andthen (charge_imbalance x s n (\<lambda>old. andthen (mul_floor_256 (cc_fp x) d1 old d0) to_u128) old_balances i st)
                (\<lambda>(reserves, counted, fees).
              andthen (not_zero i counted) (\<lambda>counted. Inr (reserves, counted, fees))))
              (old_balances, new_balances, protocol_fees)) (\<lambda>(reserves, counted, protocol_fees).
            let s = s\<lparr>ss_reserves := Some reserves, ss_protocol_fees := Some protocol_fees\<rparr> in
            andthen (pool_d_if x w True counted amp s) (\<lambda>(d2, s).
            andthen (u_sub d0 d2) (\<lambda>fallen.
            andthen (mul_floor_256 (cc_fp x) fallen token_supply d0) (\<lambda>q.
            andthen (to_u128 q) (\<lambda>burnt.
            if burnt = 0 then Inl (ValidationError V_ZeroSharesBurned)
            else
              andthen (u128_add burnt 1) (\<lambda>share_amount.
              if max_burn_amount < share_amount then Inl (ValidationError V_TooManySharesBurned)
              else
                andthen (burn_shares (cc_shares x) user max_burn_amount (pl_shares s, w)) (\<lambda>(sh, w).
                andthen
                  (if share_amount < max_burn_amount
                   then mint_shares (cc_shares x) user (as_i128 (max_burn_amount - share_amount)) (sh, w)
                   else Inr (sh, w)) (\<lambda>(sh, w).
                andthen (stored (ss_tokens s)) (\<lambda>coins.
                andthen (for_upto n (pay_coin x e user coins amounts) w) (\<lambda>w.
                andthen (finish_liquidity x e user (u_sub user_shares share_amount) (u_sub total_shares share_amount)
                  (s\<lparr>pl_shares := sh\<rparr>, w)) (\<lambda>(s, w).
                Inr (share_amount, s, w)))))))))))))))))))))))"

section \<open>Withdrawals in one coin\<close>

definition reduce_by_fee ::
  "'w host_calls \<Rightarrow> ss_pool \<Rightarrow> nat list \<Rightarrow> nat \<Rightarrow> nat \<Rightarrow> nat \<Rightarrow> nat \<Rightarrow> nat \<Rightarrow> nat list \<Rightarrow> nat list res" where
  \<comment> \<open>one coin of the fee loop of \<open>_calc_withdraw_one_coin\<close>\<close>
  "reduce_by_fee x s xp token_idx d0 d1 new_y j xp_reduced =
     (let n = length xp in
      andthen (item xp j) (\<lambda>xp_j.
      andthen (proportion xp_j d1 d0) (\<lambda>q.
      andthen (to_u128 q) (\<lambda>share.
      andthen (if j = token_idx then u_sub share new_y else u_sub xp_j share) (\<lambda>dx_expected.
      andthen (stored (ss_fee s)) (\<lambda>fee.
      andthen (u32_mul fee n) (\<lambda>fee_n.
      andthen (u_sub n 1) (\<lambda>n_1.
      andthen (u32_mul (FEE_DENOMINATOR * 4) n_1) (\<lambda>den.
      andthen (mul_ceil (cc_fp x) dx_expected fee_n den) (\<lambda>coin_fee.
      andthen (item xp_reduced j) (\<lambda>r.
      andthen (u_sub r coin_fee) (\<lambda>left. put_item j left xp_reduced))))))))))))"

definition calc_one_coin ::
  "'w host_calls \<Rightarrow> env \<Rightarrow> nat \<Rightarrow> nat \<Rightarrow> ss_pool \<times> 'w \<Rightarrow> ((nat \<times> nat) \<times> ss_pool) res" where
  \<comment> \<open>the amount of the coin for the shares, and the fee in it\<close>
  "calc_one_coin x e token_amount token_idx sw =
     (let (s, w) = sw in
      andthen (amp_of (cc_fp x) e s) (\<lambda>amp.
      let total_supply = get_total_shares (pl_shares s) in
      andthen (stored (ss_reserves s)) (\<lambda>reserves.
      andthen (scaled x w reserves s) (\<lambda>(xp, s).
      andthen (pool_d x s xp amp) (\<lambda>d0.
      andthen (proportion token_amount d0 total_supply) (\<lambda>taken.
      andthen (u_sub d0 taken) (\<lambda>d1.
      andthen (pool_y_d x s amp token_idx xp d1) (\<lambda>new_y.
      andthen (get_precision_mul x w s) (\<lambda>(precision_mul, s).
      andthen (item precision_mul token_idx) (\<lambda>mul.
      andthen (item xp token_idx) (\<lambda>xp_i.
      andthen (u_sub xp_i new_y) (\<lambda>diff.
      andthen (u_div diff mul) (\<lambda>dy_0.
      andthen (for_upto (length xp) (reduce_by_fee x s xp token_idx d0 d1 new_y) xp) (\<lambda>xp_reduced.
      andthen (item xp_reduced token_idx) (\<lambda>reduced.
      andthen (pool_y_d x s amp token_idx xp_reduced d1) (\<lambda>y.
      andthen (u_sub reduced y) (\<lambda>dy_up.
      andthen (u_sub dy_up 1) (\<lambda>dy_scaled.
      andthen (u_div dy_scaled mul) (\<lambda>dy.
      andthen (u_sub dy_0 dy) (\<lambda>dy_fee. Inr ((dy, dy_fee), s)))))))))))))))))))))"

definition ss_calc_withdraw_one_coin ::
  "'w host_calls \<Rightarrow> env \<Rightarrow> nat \<Rightarrow> nat \<Rightarrow> ss_pool \<times> 'w \<Rightarrow> (nat \<times> ss_pool) res" where
  "ss_calc_withdraw_one_coin x e share_amount i sw =
     andthen (ss_sync_reserves x e (fst sw) (snd sw)) (\<lambda>s.
     andthen (calc_one_coin x e share_amount i (s, snd sw)) (\<lambda>((dy, _), s). Inr (dy, s)))"

definition ss_withdraw_one_coin ::
  "'w host_calls \<Rightarrow> env \<Rightarrow> address \<Rightarrow> nat \<Rightarrow> nat \<Rightarrow> nat \<Rightarrow> ss_pool \<times> 'w \<Rightarrow> (nat list \<times> ss_pool \<times> 'w) res" where
  "ss_withdraw_one_coin x e user share_amount i min_amount sw =
     (let (s, w) = sw in
      andthen (require_auth e user) (\<lambda>_.
      if pl_killed_swap s then Inl (StableswapError SS_PoolSwapKilled)
      else
        andthen (ss_sync_reserves x e s w) (\<lambda>s.
        andthen (settle_user x e user (s, w)) (\<lambda>(total_shares, user_shares, s, w).
        andthen (calc_one_coin x e share_amount i (s, w)) (\<lambda>((dy, dy_fee), s).
        if dy < min_amount then Inl (ValidationError V_InMinNotSatisfied)
        else
          andthen (protocol_part x dy_fee s) (\<lambda>dy_protocol_fee.
          andthen (stored (ss_reserves s)) (\<lambda>reserves.
          andthen (item reserves i) (\<lambda>r.
          andthen (u_sub r dy) (\<lambda>r.
          andthen (u_sub r dy_protocol_fee) (\<lambda>r.
          andthen (put_item i r reserves) (\<lambda>reserves.
          andthen (get_protocol_fees (s\<lparr>ss_reserves := Some reserves\<rparr>)) (\<lambda>(protocol_fees, s).
          andthen (item protocol_fees i) (\<lambda>f.
          andthen (u128_add f dy_protocol_fee) (\<lambda>f.
          andthen (put_item i f protocol_fees) (\<lambda>protocol_fees.
          andthen (burn_shares (cc_shares x) user share_amount (pl_shares s, w)) (\<lambda>(sh, w).
          andthen (stored (ss_tokens s)) (\<lambda>coins.
          andthen (item coins i) (\<lambda>coin.
          andthen (pay x e coin user dy w) (\<lambda>w.
          andthen (finish_liquidity x e user (u_sub user_shares share_amount) (u_sub total_shares share_amount)
            (s\<lparr>ss_protocol_fees := Some protocol_fees, pl_shares := sh\<rparr>, w)) (\<lambda>(s, w).
          Inr (map (\<lambda>j. if j = i then dy else 0) [0..<length coins], s, w)))))))))))))))))))))"

definition ss_get_virtual_price :: "'w host_calls \<Rightarrow> env \<Rightarrow> ss_pool \<times> 'w \<Rightarrow> (nat \<times> ss_pool) res" where
  "ss_get_virtual_price x e sw =
     (let (s, w) = sw in
      andthen (ss_sync_reserves x e s w) (\<lambda>s.
      andthen (stored (ss_reserves s)) (\<lambda>reserves.
      andthen (scaled x w reserves s) (\<lambda>(xp, s).
      andthen (amp_of (cc_fp x) e s) (\<lambda>amp.
      andthen (pool_d x s xp amp) (\<lambda>d.
      andthen (get_precision x w s) (\<lambda>(precision, s).
      andthen (mul_floor_256 (cc_fp x) d precision (get_total_shares (pl_shares s))) (\<lambda>q.
      andthen (to_u128 q) (\<lambda>price. Inr (price, s))))))))))"

end
