(* ===== verification/SS_Admin.thy ===== *)
theory SS_Admin
  imports SS_Liquidity
begin

text \<open>
  \<^verbatim>\<open>liquidity_pool_stableswap/src/contract.rs\<close>: the amplification's ramp, the delayed change of the
  fee, protocol fees, initialization, rewards and claims. The remaining entry points of the contract
  repeat those of \<open>Pool_Admin\<close> word for word and are their instances at this pool's state.
\<close>

section \<open>The ramp\<close>

definition ss_ramp_a ::
  "'w host_calls \<Rightarrow> env \<Rightarrow> address \<Rightarrow> nat \<Rightarrow> nat \<Rightarrow> ss_pool \<times> 'w \<Rightarrow> (ss_pool \<times> 'w) res" where
  "ss_ramp_a x e admin future_a future_time sw =
     (let (s, w) = sw; now = ledger_timestamp e in
      andthen (pool_role e admin require_operations_admin_or_owner s) (\<lambda>_.
      andthen (stored (ss_initial_a_time s)) (\<lambda>started.
      andthen (u64_add started MIN_RAMP_TIME) (\<lambda>earliest.
      if now < earliest then Inl (StableswapError SS_RampTooEarly)
      else
        andthen (u64_add now MIN_RAMP_TIME) (\<lambda>soonest.
        if future_time < soonest then Inl (StableswapError SS_RampTimeLessThanMinimum)
        else
          andthen (amp_of (cc_fp x) e s) (\<lambda>initial_a.
          if \<not> (0 < future_a \<and> future_a < MAX_A) then Inl (StableswapError SS_RampOverMax)
          else
            andthen
              (if initial_a \<le> future_a
               then andthen (u128_mul initial_a MAX_A_CHANGE) (\<lambda>m. Inr (future_a \<le> m))
               else andthen (u128_mul future_a MAX_A_CHANGE) (\<lambda>m. Inr (initial_a \<le> m))) (\<lambda>slow.
            if \<not> slow then Inl (StableswapError SS_RampTooFast)
            else
              ss_update_plane x e
                (s\<lparr>ss_initial_a := Some initial_a, ss_future_a := Some future_a,
                   ss_initial_a_time := Some now, ss_future_a_time := Some future_time\<rparr>, w))))))))"

definition ss_stop_ramp_a :: "'w host_calls \<Rightarrow> env \<Rightarrow> address \<Rightarrow> ss_pool \<times> 'w \<Rightarrow> (ss_pool \<times> 'w) res" where
  "ss_stop_ramp_a x e admin sw =
     (let (s, w) = sw; now = ledger_timestamp e in
      andthen (pool_role e admin require_operations_admin_or_owner s) (\<lambda>_.
      andthen (amp_of (cc_fp x) e s) (\<lambda>current_a.
      ss_update_plane x e
        (s\<lparr>ss_initial_a := Some current_a, ss_future_a := Some current_a,
           ss_initial_a_time := Some now, ss_future_a_time := Some now\<rparr>, w))))"

section \<open>The fee\<close>

definition ss_commit_new_fee :: "env \<Rightarrow> address \<Rightarrow> nat \<Rightarrow> ss_pool \<Rightarrow> ss_pool res" where
  "ss_commit_new_fee e admin new_fee s =
     andthen (pool_role e admin require_operations_admin_or_owner s) (\<lambda>_.
     andthen (stored (ss_deadline s)) (\<lambda>deadline.
     if deadline \<noteq> 0 then Inl (StableswapError SS_AnotherActionActive)
     else if FEE_DENOMINATOR - 1 < new_fee then Inl (ValidationError V_FeeOutOfBounds)
     else
       andthen (u64_add (ledger_timestamp e) ADMIN_ACTIONS_DELAY) (\<lambda>deadline.
       Inr (s\<lparr>ss_deadline := Some deadline, ss_future_fee := Some new_fee\<rparr>))))"

definition ss_apply_new_fee :: "'w host_calls \<Rightarrow> env \<Rightarrow> address \<Rightarrow> ss_pool \<times> 'w \<Rightarrow> (ss_pool \<times> 'w) res" where
  "ss_apply_new_fee x e admin sw =
     (let (s, w) = sw in
      andthen (pool_role e admin require_operations_admin_or_owner s) (\<lambda>_.
      andthen (stored (ss_deadline s)) (\<lambda>deadline.
      if ledger_timestamp e < deadline then Inl (StableswapError SS_ActionNotReadyYet)
      else if deadline = 0 then Inl (StableswapError SS_NoActionActive)
      else
        andthen (stored (ss_future_fee s)) (\<lambda>fee.
        ss_update_plane x e (s\<lparr>ss_deadline := Some 0, ss_fee := Some fee\<rparr>, w)))))"

definition ss_revert_new_parameters :: "env \<Rightarrow> address \<Rightarrow> ss_pool \<Rightarrow> ss_pool res" where
  "ss_revert_new_parameters e admin s =
     andthen (pool_role e admin require_operations_admin_or_owner s) (\<lambda>_. Inr (s\<lparr>ss_deadline := Some 0\<rparr>))"

definition ss_set_protocol_fee_fraction :: "env \<Rightarrow> address \<Rightarrow> nat \<Rightarrow> ss_pool \<Rightarrow> ss_pool res" where
  "ss_set_protocol_fee_fraction e admin new_fraction s =
     andthen (pool_role e admin require_operations_admin_or_owner s) (\<lambda>_.
     if FEE_DENOMINATOR < new_fraction then Inl (ValidationError V_FeeOutOfBounds)
     else Inr (s\<lparr>pl_protocol_fee_fraction := new_fraction\<rparr>))"

definition pay_fee ::
  "'w host_calls \<Rightarrow> env \<Rightarrow> address \<Rightarrow> address list \<Rightarrow> nat list \<Rightarrow> nat \<Rightarrow> nat list \<times> 'w \<Rightarrow> (nat list \<times> 'w) res" where
  "pay_fee x e destination tokens collected i st =
     (let (fees, w) = st in
      andthen (item collected i) (\<lambda>fee.
      if fee = 0 then Inr (fees, w)
      else
        andthen (item tokens i) (\<lambda>token.
        andthen (pay x e token destination fee w) (\<lambda>w.
        andthen (put_item i 0 fees) (\<lambda>fees. Inr (fees, w))))))"

definition ss_claim_protocol_fees ::
  "'w host_calls \<Rightarrow> env \<Rightarrow> address \<Rightarrow> address \<Rightarrow> ss_pool \<times> 'w \<Rightarrow> (nat list \<times> ss_pool \<times> 'w) res" where
  "ss_claim_protocol_fees x e admin destination sw =
     (let (s, w) = sw in
      andthen (pool_role e admin require_system_fee_admin_or_owner s) (\<lambda>_.
      andthen (stored (ss_tokens s)) (\<lambda>tokens.
      andthen (get_protocol_fees s) (\<lambda>(collected, s).
      andthen (for_upto (length tokens) (pay_fee x e destination tokens collected) (collected, w)) (\<lambda>(fees, w).
      Inr (collected, s\<lparr>ss_protocol_fees := Some fees\<rparr>, w))))))"

section \<open>Initialization\<close>

definition ss_initialize ::
  "'w host_calls \<Rightarrow> env \<Rightarrow> address \<Rightarrow> privileged \<Rightarrow> address \<Rightarrow> nat \<Rightarrow> address list \<Rightarrow> nat \<Rightarrow> nat \<times> nat \<Rightarrow>
   ss_pool \<times> 'w \<Rightarrow> (ss_pool \<times> 'w) res" where
  "ss_initialize x e admin privileged_addrs router token_wasm_hash tokens amp fees_config sw =
     (let (s, w) = sw; (fee_fraction, protocol_fee_fraction) = fees_config; ac = mg_ac (pl_managed s);
          now = ledger_timestamp e in
      andthen (get_role_safe ac Admin) (\<lambda>current.
      if current \<noteq> None then Inl (StableswapError SS_AlreadyInitialized)
      else
        andthen (set_role_address Admin admin ac) (\<lambda>ac.
        andthen (set_role_address EmergencyAdmin (pv_emergency_admin privileged_addrs) ac) (\<lambda>ac.
        andthen (set_privileged_roles privileged_addrs ac) (\<lambda>ac.
        if FEE_DENOMINATOR - 1 < fee_fraction then Inl (ValidationError V_FeeOutOfBounds)
        else if FEE_DENOMINATOR - 1 < protocol_fee_fraction then Inl (ValidationError V_FeeOutOfBounds)
        else
          andthen (cc_deploy_share x token_wasm_hash tokens w) (\<lambda>(share_contract, w').
          ss_update_plane x e
            (s\<lparr>pl_managed := (pl_managed s)\<lparr>mg_ac := ac\<rparr>, pl_router := Some router,
               ss_fee := Some fee_fraction, pl_protocol_fee_fraction := protocol_fee_fraction,
               ss_tokens := Some tokens, ss_decimals := Some (read_decimals x w tokens),
               pl_shares := put_token_share share_contract (pl_shares s),
               ss_reserves := Some (map (\<lambda>_. 0) tokens),
               ss_initial_a := Some amp, ss_initial_a_time := Some now,
               ss_future_a := Some amp, ss_future_a_time := Some now, ss_deadline := Some 0\<rparr>, w')))))))"

definition ss_init_pools_plane :: "address \<Rightarrow> ss_pool \<Rightarrow> ss_pool res" where
  "ss_init_pools_plane plane s =
     (if has_plane s then Inl (StableswapError SS_PlaneAlreadyInitialized)
      else Inr (s\<lparr>pl_plane := Some plane\<rparr>))"

definition ss_initialize_rewards_config :: "address \<Rightarrow> ss_pool \<Rightarrow> ss_pool res" where
  "ss_initialize_rewards_config reward_token s =
     (if has_reward_token (pl_rewards s) then Inl (StableswapError SS_RewardsAlreadyInitialized)
      else Inr (s\<lparr>pl_rewards := put_reward_token reward_token (pl_rewards s)\<rparr>))"

definition ss_initialize_boost_config :: "address \<Rightarrow> address \<Rightarrow> ss_pool \<Rightarrow> ss_pool res" where
  "ss_initialize_boost_config reward_boost_token reward_boost_feed s =
     (if rw_boost_token (pl_rewards s) \<noteq> None then Inl (StableswapError SS_RewardsAlreadyInitialized)
      else Inr (s\<lparr>pl_rewards := put_reward_boost_feed reward_boost_feed
        (put_reward_boost_token reward_boost_token (pl_rewards s))\<rparr>))"

definition ss_initialize_all ::
  "'w host_calls \<Rightarrow> env \<Rightarrow> address \<Rightarrow> privileged \<Rightarrow> address \<Rightarrow> nat \<Rightarrow> address list \<Rightarrow> nat \<Rightarrow> nat \<times> nat \<Rightarrow>
   address \<times> address \<times> address \<Rightarrow> address \<Rightarrow> address \<Rightarrow> ss_pool \<times> 'w \<Rightarrow> (ss_pool \<times> 'w) res" where
  "ss_initialize_all x e admin privileged_addrs router token_wasm_hash coins amp fees_config reward_config
     plane config_storage sw =
     (let (reward_token, reward_boost_token, reward_boost_feed) = reward_config; (s, w) = sw in
      andthen (set_config_storage_once config_storage s) (\<lambda>s.
      andthen (ss_init_pools_plane plane s) (\<lambda>s.
      andthen (ss_initialize x e admin privileged_addrs router token_wasm_hash coins amp fees_config (s, w)) (\<lambda>(s, w).
      andthen (ss_initialize_boost_config reward_boost_token reward_boost_feed s) (\<lambda>s.
      andthen (ss_initialize_rewards_config reward_token s) (\<lambda>s. Inr (s, w)))))))"

section \<open>Rewards\<close>

definition ss_get_reserves :: "'w host_calls \<Rightarrow> env \<Rightarrow> ss_pool \<times> 'w \<Rightarrow> (nat list \<times> ss_pool) res" where
  "ss_get_reserves x e sw =
     andthen (ss_sync_reserves x e (fst sw) (snd sw)) (\<lambda>s.
     andthen (stored (ss_reserves s)) (\<lambda>reserves. Inr (reserves, s)))"

definition keep_pool_reserve ::
  "'w host_calls \<Rightarrow> env \<Rightarrow> address \<Rightarrow> address list \<Rightarrow> nat \<Rightarrow> ss_pool \<times> 'w \<Rightarrow> (nat \<times> ss_pool) res" where
  \<comment> \<open>if the reward token is one of the pool's, its reserve is kept back too\<close>
  "keep_pool_reserve x e reward_token tokens keep sw =
     (case first_index_of reward_token tokens of
        Some idx \<Rightarrow>
          andthen (ss_get_reserves x e sw) (\<lambda>(reserves, s).
          andthen (item reserves idx) (\<lambda>reserve.
          andthen (u128_add keep reserve) (\<lambda>keep. Inr (keep, s))))
      | None \<Rightarrow> Inr (keep, fst sw))"

definition ss_get_unused_reward :: "'w host_calls \<Rightarrow> env \<Rightarrow> ss_pool \<times> 'w \<Rightarrow> (nat \<times> ss_pool) res" where
  "ss_get_unused_reward x e sw =
     (let w = snd sw in
      andthen (reward_balance_to_keep x e sw) (\<lambda>(keep, s).
      andthen (get_reward_token (pl_rewards s)) (\<lambda>reward_token.
      let reward_balance = as_u128 (tk_balance (cc_tokens x) reward_token (current_contract e) w) in
      andthen (stored (ss_tokens s)) (\<lambda>tokens.
      andthen (keep_pool_reserve x e reward_token tokens keep (s, w)) (\<lambda>(keep, s).
      Inr (if keep < reward_balance then reward_balance - keep else 0, s))))))"

definition ss_return_unused_reward ::
  "'w host_calls \<Rightarrow> env \<Rightarrow> address \<Rightarrow> ss_pool \<times> 'w \<Rightarrow> (nat \<times> ss_pool \<times> 'w) res" where
  "ss_return_unused_reward x e admin sw =
     (let (s, w) = sw in
      andthen (pool_role e admin require_rewards_admin_or_owner s) (\<lambda>_.
      andthen (ss_get_unused_reward x e (s, w)) (\<lambda>(unused_reward, s).
      if unused_reward = 0 then Inr (0, s, w)
      else
        andthen (get_reward_token (pl_rewards s)) (\<lambda>reward_token.
        andthen (stored (pl_router s)) (\<lambda>router.
        andthen (pay x e reward_token router unused_reward w) (\<lambda>w.
        Inr (unused_reward, s, w)))))))"

definition coin_covered ::
  "'w host_calls \<Rightarrow> env \<Rightarrow> address list \<Rightarrow> address \<Rightarrow> nat list \<Rightarrow> nat list \<Rightarrow> 'w \<Rightarrow> nat \<Rightarrow> unit res" where
  "coin_covered x e tokens reward_token reserves protocol_fees w i =
     andthen (item tokens i) (\<lambda>token.
     if token \<noteq> reward_token then Inr ()
     else
       andthen (item reserves i) (\<lambda>reserve.
       andthen (item protocol_fees i) (\<lambda>fee. claim_covered x e reward_token w (token, reserve, fee))))"

definition ss_claim :: "'w host_calls \<Rightarrow> env \<Rightarrow> address \<Rightarrow> ss_pool \<times> 'w \<Rightarrow> (nat \<times> ss_pool \<times> 'w) res" where
  "ss_claim x e user sw =
     (let (s, w) = sw; total_shares = get_total_shares (pl_shares s) in
      if pl_killed_claim s then Inl (StableswapError SS_PoolClaimKilled)
      else
        andthen (get_user_balance_shares (cc_shares x) (pl_shares s) w user) (\<lambda>user_shares.
        andthen (gauge_checkpoint x e user user_shares total_shares (new_manager s, w)) (\<lambda>(s, w).
        andthen (claim_reward (pool_reward_context x e w) (cc_tokens x) user total_shares user_shares (pl_rewards s, w))
          (\<lambda>(reward, r, w).
        let s = s\<lparr>pl_rewards := r\<rparr> in
        andthen (stored (ss_tokens s)) (\<lambda>tokens.
        andthen (get_reward_token r) (\<lambda>reward_token.
        andthen (stored (ss_reserves s)) (\<lambda>reserves.
        andthen (get_protocol_fees s) (\<lambda>(protocol_fees, s).
        andthen (for_upto (length reserves) (\<lambda>i _. coin_covered x e tokens reward_token reserves protocol_fees w i) ())
          (\<lambda>_.
        andthen (gauge_checkpoint x e user user_shares total_shares (new_manager s, w)) (\<lambda>(s, w).
        Inr (reward, s, w)))))))))))"

end
