(* ===== verification/SS_Curve.thy ===== *)
theory SS_Curve
  imports SS_Math
begin

text \<open>
  What the Newton iterations of \<open>SS_Math\<close> compute. For the balance: the result is the
  quadratic's positive root rounded down, or one more where the quadratic is exactly one, the iteration never runs
  out of rounds, and it returns whenever the coefficients fit. For \<open>D\<close>: the result solves the
  StableSwap equation up to one unit, and it is the exact sum for a balanced pool.
\<close>

section \<open>The quadratic\<close>

definition curve_at :: "nat \<Rightarrow> nat \<Rightarrow> nat \<Rightarrow> nat \<Rightarrow> int" where
  \<comment> \<open>\<open>y * y + (b - d) * y - c\<close>, zero at the balance the iteration looks for\<close>
  "curve_at c b d y = int y * int y + (int b - int d) * int y - int c"

lemma y_step_eq_Inr:
  "y_step c b d y = Inr y' \<longleftrightarrow> y * y + c \<le> U256_MAX \<and> 2 * y + b \<le> U256_MAX \<and> d < 2 * y + b \<and>
    y' = (y * y + c) div (2 * y + b - d)"
  by (auto simp: y_step_def res_simps)

lemma y_step_bounds:
  assumes "y_step c b d y = Inr y'"
  shows "int y' * (2 * int y + int b - int d) \<le> int y * int y + int c"
    and "int y * int y + int c < (int y' + 1) * (2 * int y + int b - int d)"
    and "0 < 2 * int y + int b - int d"
proof -
  from assms have d: "d < 2 * y + b" and y': "y' = (y * y + c) div (2 * y + b - d)"
    by (simp_all add: y_step_eq_Inr)
  let ?q = "2 * y + b - d"
  have q: "int ?q = 2 * int y + int b - int d" "0 < ?q" using d by simp_all
  show "0 < 2 * int y + int b - int d" using q by simp
  have "y' * ?q \<le> y * y + c" using y' by simp
  then have "int (y' * ?q) \<le> int (y * y + c)" by (simp only: of_nat_le_iff)
  then show "int y' * (2 * int y + int b - int d) \<le> int y * int y + int c"
    using q(1) by (simp only: of_nat_mult of_nat_add)
  have "y * y + c < y' * ?q + ?q"
    using div_mult_mod_eq [of "y * y + c" ?q] mod_less_divisor [OF q(2)] unfolding y' by (metis nat_add_left_cancel_less)
  then have "y * y + c < (y' + 1) * ?q" by (simp only: distrib_right mult_1)
  then have "int (y * y + c) < int ((y' + 1) * ?q)" by (simp only: of_nat_less_iff)
  then show "int y * int y + int c < (int y' + 1) * (2 * int y + int b - int d)"
    using q(1) by (simp only: of_nat_mult of_nat_add of_nat_1)
qed

lemma within_one_iff: "within_one a b \<longleftrightarrow> \<bar>int a - int b\<bar> \<le> 1"
  by (auto simp: within_one_def)

lemma y_step_close:
  assumes "y_step c b d y = Inr y'" and "within_one y' y"
  shows "curve_at c b d y' \<le> 1" and "0 < curve_at c b d (y' + 1)"
proof -
  define \<delta> where "\<delta> = int y' - int y"
  have y: "int y = int y' - \<delta>" by (simp add: \<delta>_def)
  have d1: "\<bar>\<delta>\<bar> \<le> 1" using assms(2) by (simp add: within_one_iff \<delta>_def)
  then have dd: "\<delta> * \<delta> \<le> 1" by (auto simp: abs_le_iff) (metis abs_le_iff abs_mult_self_eq abs_ge_zero d1 mult_le_one)
  note b = y_step_bounds [OF assms(1), unfolded y]
  have "curve_at c b d y' \<le> \<delta> * \<delta>" using b(1) by (simp add: curve_at_def algebra_simps)
  with dd show "curve_at c b d y' \<le> 1" by linarith
  have "(\<delta> + 1) * (\<delta> + 1) < curve_at c b d (y' + 1)"
    using b(2) by (simp add: curve_at_def algebra_simps)
  then show "0 < curve_at c b d (y' + 1)" by (smt (verit) zero_le_square)
qed

lemma y_loop_close:
  assumes "y_loop k c b d y = Inr r"
  shows "curve_at c b d r \<le> 1" and "0 < curve_at c b d (r + 1)" and "r \<le> U128_MAX"
  using assms
proof (induction k arbitrary: y)
  case (Suc k)
  { case 1 with Suc(1) y_step_close(1) show ?case by (fastforce simp: res_simps split: if_splits) }
  { case 2 with Suc(2) y_step_close(2) show ?case by (fastforce simp: res_simps split: if_splits) }
  { case 3 with Suc(3) show ?case by (fastforce simp: res_simps split: if_splits) }
qed simp_all

section \<open>The iteration ends\<close>

text \<open>
  The root \<open>r\<close> rounded down. From any start one round leads to \<open>r\<close> or above it, and there each
  round halves the distance to \<open>r\<close>.
\<close>

definition floor_root :: "nat \<Rightarrow> nat \<Rightarrow> nat \<Rightarrow> nat \<Rightarrow> bool" where
  "floor_root c b d r \<longleftrightarrow> curve_at c b d r \<le> 0 \<and> 0 < curve_at c b d (r + 1)"

text \<open>
  What the iteration returns: the root rounded down, or one more when the quadratic is exactly one
  there.
\<close>

definition on_curve :: "nat \<Rightarrow> nat \<Rightarrow> nat \<Rightarrow> nat \<Rightarrow> bool" where
  "on_curve c b d y \<longleftrightarrow> floor_root c b d y \<or> 0 < y \<and> floor_root c b d (y - 1) \<and> curve_at c b d y = 1"

lemma curve_grows:
  assumes "0 < curve_at c b d y"
  shows "curve_at c b d y + 2 \<le> curve_at c b d (y + 1)"
proof -
  have "int c < int y * (int y + (int b - int d))" using assms by (simp add: curve_at_def algebra_simps)
  then have "0 < int y * (int y + (int b - int d))" by (rule le_less_trans [rotated]) simp
  then have "0 < int y" "0 < int y + (int b - int d)" by (simp_all add: zero_less_mult_iff)
  then show ?thesis by (simp add: curve_at_def algebra_simps)
qed

lemma on_curveI:
  assumes "curve_at c b d y \<le> 1" and "0 < curve_at c b d (y + 1)"
  shows "on_curve c b d y"
proof (cases "curve_at c b d y \<le> 0")
  case True
  then show ?thesis using assms(2) by (simp add: on_curve_def floor_root_def)
next
  case False
  then have one: "curve_at c b d y = 1" using assms(1) by simp
  then have "0 < y" by (cases y) (simp_all add: curve_at_def)
  moreover from this have "curve_at c b d (y - 1) \<le> 0"
    using curve_grows [of c b d "y - 1"] one by (cases "curve_at c b d (y - 1) \<le> 0") auto
  ultimately show ?thesis using one by (simp add: on_curve_def floor_root_def)
qed

lemma on_curve_close:
  assumes "on_curve c b d y"
  shows "curve_at c b d y \<le> 1" and "0 < curve_at c b d (y + 1)"
  using assms curve_grows [of c b d y] by (auto simp: on_curve_def floor_root_def)

lemma y_loop_on_curve: "y_loop k c b d y = Inr r \<Longrightarrow> on_curve c b d r"
  using y_loop_close(1,2) by (rule on_curveI)

lemma floor_root_exists: "\<exists>r. floor_root c b d r"
proof -
  have "int c < (1 + int c + int d) * 1" by simp
  also have "\<dots> \<le> (1 + int c + int d) * (1 + int c + int b)" by (rule mult_left_mono) simp_all
  finally have "0 < curve_at c b d (c + d + 1)" by (simp add: curve_at_def algebra_simps)
  moreover have "curve_at c b d 0 \<le> 0" by (simp add: curve_at_def)
  ultimately obtain k where "\<not> 0 < curve_at c b d k" and "0 < curve_at c b d (Suc k)"
    using ex_least_nat_less [of "\<lambda>k. 0 < curve_at c b d k" "c + d + 1"] by auto
  then show ?thesis by (auto simp: floor_root_def not_less)
qed

lemma floor_root_facts:
  assumes "floor_root c b d r"
  shows "int r * int r + (int b - int d) * int r \<le> int c"
    and "int c - int r * int r - (int b - int d) * int r \<le> 2 * int r + (int b - int d)"
    and "0 \<le> int r + (int b - int d)"
proof -
  from assms show "int r * int r + (int b - int d) * int r \<le> int c"
    and "int c - int r * int r - (int b - int d) * int r \<le> 2 * int r + (int b - int d)"
    by (simp_all add: floor_root_def curve_at_def algebra_simps)
  from assms have "0 < (int r + 1) * (int r + 1 + (int b - int d))"
    by (simp add: floor_root_def curve_at_def algebra_simps)
  then have "0 < int r + 1 + (int b - int d)" by (simp add: zero_less_mult_iff)
  then show "0 \<le> int r + (int b - int d)" by simp
qed

lemma y_step_above:
  assumes "floor_root c b d r" and "y_step c b d y = Inr y'"
  shows "r \<le> y'"
proof (rule ccontr)
  assume "\<not> r \<le> y'"
  then have "int y' + 1 \<le> int r" by simp
  note q = y_step_bounds [OF assms(2)]
  have "(int y' + 1) * (2 * int y + int b - int d) \<le> int r * (2 * int y + int b - int d)"
    using \<open>int y' + 1 \<le> int r\<close> q(3) by (intro mult_right_mono) simp_all
  moreover have "0 \<le> (int y - int r) * (int y - int r)" by (rule zero_le_square)
  ultimately show False using q(2) floor_root_facts(1) [OF assms(1)] by (simp add: algebra_simps)
qed

lemma y_step_halves:
  assumes "floor_root c b d r" and "y_step c b d y = Inr y'" and "r \<le> y"
  shows "y' - r \<le> max ((y - r) div 2) 1"
proof (rule ccontr)
  assume "\<not> ?thesis"
  then have e: "2 \<le> y' - r" "y - r < 2 * (y' - r)" by auto
  define e where "e = int y' - int r"
  define \<delta> where "\<delta> = int y - int r"
  define q where "q = 2 * int r + (int b - int d)"
  have y: "int y = int r + \<delta>" "int y' = int r + e" by (simp_all add: e_def \<delta>_def)
  have pos: "0 \<le> q" "0 \<le> \<delta>" using floor_root_facts(3) [OF assms(1)] assms(3) by (simp_all add: q_def \<delta>_def)
  have e2: "2 \<le> e" "\<delta> + 1 \<le> 2 * e" using e assms(3) by (simp_all add: e_def \<delta>_def of_nat_diff)
  have "0 < 2 * \<delta> + q" using y_step_bounds(3) [OF assms(2)] by (simp add: y q_def)
  have "e * (2 * \<delta> + q) \<le> \<delta> * \<delta> + q"
    using y_step_bounds(1) [OF assms(2)] floor_root_facts(2) [OF assms(1)] by (simp add: y q_def algebra_simps)
  moreover have "(\<delta> + 1) * \<delta> \<le> 2 * e * \<delta>" using e2(2) pos(2) by (rule mult_right_mono)
  moreover have "2 * q \<le> e * q" using e2(1) pos(1) by (rule mult_right_mono)
  ultimately show False using pos \<open>0 < 2 * \<delta> + q\<close> by (simp add: algebra_simps)
qed

lemma y_step_error: "y_step c b d y = Inl e \<Longrightarrow> e = HostPanic"
  by (auto simp: y_step_def u_defs split: if_splits)

lemma y_loop_near:
  assumes "floor_root c b d r" and "r \<le> y" and "y - r < 2 ^ k"
  shows "y_loop (Suc k) c b d y \<noteq> Inl (StableswapError SS_MaxIterationsReached)"
  using assms(2,3)
proof (induction k arbitrary: y)
  case 0
  have "within_one y' y" if "y_step c b d y = Inr y'" for y'
    using y_step_halves [OF assms(1) that] y_step_above [OF assms(1) that] "0.prems" by (simp add: within_one_def)
  then show ?case by (cases "y_step c b d y") (auto simp: u_fit_def dest: y_step_error)
next
  case (Suc k)
  show ?case
  proof (cases "y_step c b d y")
    case (Inl e)
    then show ?thesis using y_step_error [OF Inl] by simp
  next
    case (Inr y')
    note up = y_step_above [OF assms(1) Inr] and half = y_step_halves [OF assms(1) Inr Suc.prems(1)]
    show ?thesis
    proof (cases "y - r \<le> 1")
      case True
      then have "within_one y' y" using up half Suc.prems(1) by (auto simp: within_one_def)
      then show ?thesis by (simp add: Inr u_fit_def)
    next
      case False
      then have "y' - r < 2 ^ k" using half Suc.prems(2) by auto
      then show ?thesis using Suc.IH [OF up] Inr by (simp add: u_fit_def)
    qed
  qed
qed

lemma y_loop_ends: "y_loop NEWTON_ROUNDS c b d y \<noteq> Inl (StableswapError SS_MaxIterationsReached)"
proof -
  obtain r where r: "floor_root c b d r" using floor_root_exists by blast
  have n: "NEWTON_ROUNDS = Suc (Suc 253)" by (simp add: NEWTON_ROUNDS_def)
  show ?thesis
  proof (cases "y_step c b d y")
    case (Inl e)
    then show ?thesis using y_step_error [OF Inl] unfolding n y_loop.simps(2) by simp
  next
    case (Inr y')
    have "y_loop (Suc 253) c b d y' \<noteq> Inl (StableswapError SS_MaxIterationsReached)"
    proof (cases "y' < 2 ^ 253")
      case True
      from y_loop_near [OF r y_step_above [OF r Inr] le_less_trans [OF diff_le_self True]] show ?thesis .
    next
      case False
      then have "(2 ^ 253) * (2 ^ 253) \<le> y' * y'" by (intro mult_mono) simp_all
      then have "U256_MAX < y' * y'" by (simp add: U256_MAX_def)
      then show ?thesis unfolding y_loop.simps(2) by (simp add: y_step_def u_mul_def)
    qed
    then show ?thesis using Inr unfolding n y_loop.simps(2) [of "Suc 253"] by (simp add: u_fit_def del: y_loop.simps)
  qed
qed

lemma y_loop_fits:
  assumes "floor_root c b d r" and "Y * Y + c \<le> U256_MAX" and "2 * Y + b \<le> U256_MAX" and "Y < U128_MAX"
    and "r \<le> y" and "y \<le> Y" and "d < 2 * y + b"
  shows "y_loop k c b d y \<noteq> Inl HostPanic"
  using assms(5-7)
proof (induction k arbitrary: y)
  case (Suc k)
  have "y * y \<le> Y * Y" using Suc.prems(2) by (simp add: mult_le_mono)
  then have "y_step c b d y = Inr ((y * y + c) div (2 * y + b - d))" (is "_ = Inr ?y")
    using Suc.prems assms(2,3) by (simp add: y_step_eq_Inr)
  note up = y_step_above [OF assms(1) this] and half = y_step_halves [OF assms(1) this Suc.prems(1)]
    and b = y_step_bounds [OF this]
  show ?case
  proof (cases "within_one ?y y")
    case True
    then have "?y \<le> U128_MAX" using Suc.prems(2) assms(4) by (auto simp: within_one_def split: if_splits)
    then show ?thesis using \<open>y_step c b d y = Inr ?y\<close> True by (simp add: u_fit_def)
  next
    case False
    have le: "?y \<le> y"
    proof (rule ccontr)
      assume "\<not> ?y \<le> y"
      with half up Suc.prems(1) have "?y - y \<le> 1" by linarith
      with False \<open>\<not> ?y \<le> y\<close> show False by (simp add: within_one_def)
    qed
    have "d < 2 * ?y + b"
    proof (cases "?y = 0")
      case True
      then have "int (y * y + c) < int (2 * y + b - d)" using b(2) Suc.prems(3) by simp
      then have less: "y * y + c < 2 * y + b - d" by (simp only: of_nat_less_iff)
      have "2 \<le> y" using True False by (auto simp: within_one_def)
      then have "2 * y \<le> y * y" by simp
      then show ?thesis using less by linarith
    next
      case False
      then show ?thesis using floor_root_facts(3) [OF assms(1)] up by linarith
    qed
    then show ?thesis
      using Suc.IH [OF up] le Suc.prems(2) \<open>y_step c b d y = Inr ?y\<close> False by simp
  qed
qed simp


section \<open>The invariant\<close>

definition d_product :: "nat \<Rightarrow> nat list \<Rightarrow> nat \<Rightarrow> nat" where
  \<comment> \<open>\<open>D ^ (n + 1) / (n ^ n * prod xp)\<close>, rounded down factor by factor as the code does\<close>
  "d_product n xp d = foldl (\<lambda>p x. p * d div (x * n)) d xp"

definition d_excess :: "nat \<Rightarrow> nat \<Rightarrow> nat list \<Rightarrow> nat \<Rightarrow> int" where
  \<comment> \<open>the StableSwap equation \<open>ann * S + D = ann * D + D ^ (n + 1) / (n ^ n * prod xp)\<close>, as a difference\<close>
  "d_excess n ann xp d = int ann * int (sum_list xp) - (int ann - 1) * int d - int (d_product n xp d)"

definition d_slope :: "nat \<Rightarrow> nat \<Rightarrow> nat list \<Rightarrow> nat \<Rightarrow> nat" where
  "d_slope n ann xp d = (ann - 1) * d + (n + 1) * d_product n xp d"

lemma sum_256: "fold_res (\<lambda>x s. u256_add s x) xs t = Inr s \<Longrightarrow> s = t + sum_list xs"
proof (induction xs arbitrary: t)
  case (Cons x xs)
  from Cons.prems have "fold_res (\<lambda>x s. u256_add s x) xs (t + x) = Inr s" by (auto simp: res_simps)
  from Cons.IH [OF this] show ?case by simp
qed simp

context fixed_point_lib
begin

lemma d_product_fold:
  "fold_res (\<lambda>x1 d_p. andthen (u128_mul x1 n) (\<lambda>k. mul_floor_256 fp d_p d k)) xs p = Inr q \<Longrightarrow>
    q = foldl (\<lambda>p x. p * d div (x * n)) p xs"
  by (induction xs arbitrary: p) (auto simp: res_simps dest!: mul_floor_256_InrD)

lemma d_step_InrD:
  assumes "d_step fp n ann xp s d = Inr d'"
  shows "1 \<le> ann \<and> 0 < d_slope n ann xp d \<and>
    d' = (ann * s + d_product n xp d * n) * d div d_slope n ann xp d"
proof -
  from assms obtain p where p: "fold_res (\<lambda>x1 d_p. andthen (u128_mul x1 n) (\<lambda>k. mul_floor_256 fp d_p d k)) xp d = Inr p"
    and m: "mul_floor_256 fp (ann * s + p * n) d ((ann - 1) * d + (n + 1) * p) = Inr d'" and a: "1 \<le> ann"
    by (auto simp: d_step_def res_simps)
  have "p = d_product n xp d" using d_product_fold [OF p] by (simp add: d_product_def)
  with mul_floor_256_InrD [OF m] a show ?thesis unfolding d_slope_def by (simp only: neq0_conv simp_thms)
qed

lemma d_step_solves:
  assumes "d_step fp n ann xp (sum_list xp) d = Inr d'" and "within_one d' d"
  shows "- int (d_slope n ann xp d) \<le> int d * d_excess n ann xp d"
    and "int d * d_excess n ann xp d < 2 * int (d_slope n ann xp d)"
proof -
  let ?p = "d_product n xp d" and ?den = "d_slope n ann xp d"
  let ?num = "(ann * sum_list xp + ?p * n) * d"
  from d_step_InrD [OF assms(1)] have a: "1 \<le> ann" and den: "0 < ?den" and d': "d' = ?num div ?den" by simp_all
  define \<epsilon> where "\<epsilon> = int d' - int d"
  have e: "\<bar>\<epsilon>\<bar> \<le> 1" using assms(2) by (simp add: within_one_iff \<epsilon>_def)
  have lo: "d' * ?den \<le> ?num" by (simp add: d')
  have hi: "?num < d' * ?den + ?den"
    using div_mult_mod_eq [of ?num ?den] mod_less_divisor [OF den] unfolding d' by (metis nat_add_left_cancel_less)
  have "int (ann - 1) = int ann - 1" using a by simp
  then have dent: "int ?den = (int ann - 1) * int d + (int n + 1) * int ?p"
    by (simp only: d_slope_def of_nat_add of_nat_mult of_nat_1)
  have gap: "int ?num - int d * int ?den = int d * d_excess n ann xp d"
    by (simp add: d_excess_def dent algebra_simps)
  have "int d' * int ?den \<le> int ?num" "int ?num < int d' * int ?den + int ?den"
    using lo hi by (metis of_nat_le_iff of_nat_mult, metis of_nat_less_iff of_nat_mult of_nat_add)
  then have "\<epsilon> * int ?den \<le> int d * d_excess n ann xp d" "int d * d_excess n ann xp d < (\<epsilon> + 1) * int ?den"
    using gap by (simp_all add: \<epsilon>_def algebra_simps)
  moreover have "- int ?den \<le> \<epsilon> * int ?den" using mult_right_mono [of "- 1" \<epsilon> "int ?den"] e by simp
  moreover have "(\<epsilon> + 1) * int ?den \<le> 2 * int ?den" using e by (intro mult_right_mono) simp_all
  ultimately show "- int ?den \<le> int d * d_excess n ann xp d" "int d * d_excess n ann xp d < 2 * int ?den" by linarith+
qed

lemma d_loop_solves:
  assumes "d_loop k fp n ann xp (sum_list xp) d = Inr r"
  shows "\<exists>d. within_one r d \<and> - int (d_slope n ann xp d) \<le> int d * d_excess n ann xp d \<and>
    int d * d_excess n ann xp d < 2 * int (d_slope n ann xp d)"
  using assms
proof (induction k arbitrary: d)
  case (Suc k)
  from Suc.prems obtain d' where d': "d_step fp n ann xp (sum_list xp) d = Inr d'"
    and r: "(if within_one d' d then Inr d' else d_loop k fp n ann xp (sum_list xp) d') = Inr r"
    by (auto simp: res_simps)
  show ?case
  proof (cases "within_one d' d")
    case True
    then show ?thesis using r d_step_solves [OF d' True] by auto
  next
    case False
    then show ?thesis using r Suc.IH by simp
  qed
qed simp

end

section \<open>A balanced pool\<close>

lemma foldl_fixed: "(\<And>x. x \<in> set xs \<Longrightarrow> f p x = p) \<Longrightarrow> foldl f p xs = p"
  by (induction xs) simp_all

lemma fold_res_fixed: "(\<And>x. x \<in> set xs \<Longrightarrow> f x p = Inr p) \<Longrightarrow> fold_res f xs p = Inr p"
  by (induction xs) simp_all

lemma sum_256_ok: "t + sum_list xs \<le> U256_MAX \<Longrightarrow> fold_res (\<lambda>x s. u256_add s x) xs t = Inr (t + sum_list xs)"
  by (induction xs arbitrary: t) (simp_all add: u_add_def add.assoc)

context fixed_point_lib
begin

lemma balanced_step:
  assumes "0 < n" and "0 < x" and "0 < ann" and "x * n \<le> U128_MAX"
    and fits: "(ann + n) * (x * n) * (x * n) \<le> U256_MAX"
  shows "d_step fp n ann (replicate n x) (x * n) (x * n) = Inr (x * n)"
proof -
  let ?d = "x * n"
  have d: "0 < ?d" "1 \<le> ?d" using assms(1,2) by simp_all
  have "?d * ?d \<le> (ann + n) * ?d * ?d" using assms(1) by simp
  then have dd: "?d * ?d \<le> U256_MAX" using fits by linarith
  have p: "fold_res (\<lambda>x1 d_p. andthen (u128_mul x1 n) (\<lambda>k. mul_floor_256 fp d_p ?d k)) (replicate n x) ?d = Inr ?d"
    using mul_floor_256_ok [of ?d ?d ?d] dd d(1) assms(4) by (intro fold_res_fixed) (auto simp: u_mul_def)
  have "(ann + n) * ?d * 1 \<le> (ann + n) * ?d * ?d" using d(2) by (intro mult_le_mono2)
  then have small: "(ann + n) * ?d \<le> U256_MAX" using fits by linarith
  have num: "ann * ?d + ?d * n = (ann + n) * ?d" by (simp add: algebra_simps)
  have den: "(ann - 1) * ?d + (n + 1) * ?d = (ann + n) * ?d" using assms(3) by (cases ann) (simp_all add: algebra_simps)
  have "(ann + n) * ?d * ?d div ((ann + n) * ?d) = ?d" using d(1) assms(3) by simp
  then have "mul_floor_256 fp ((ann + n) * ?d) ?d ((ann + n) * ?d) = Inr ?d"
    using mul_floor_256_ok [of "(ann + n) * ?d" "(ann + n) * ?d" ?d] fits d(1) assms(3) by simp
  moreover have "ann * ?d \<le> U256_MAX" "?d * n \<le> U256_MAX" using small num by linarith+
  moreover have "(ann - 1) * ?d \<le> U256_MAX" "(n + 1) * ?d \<le> U256_MAX" using small den by linarith+
  ultimately show ?thesis
    using p small num den assms(3) by (simp only: d_step_def andthen_simps u_ok)
qed

lemma balanced_d:
  assumes "0 < n" and "0 < x" and "0 < amp" and "x * n \<le> U128_MAX" and "amp * n \<le> U128_MAX"
    and "(amp * n + n) * (x * n) * (x * n) \<le> U256_MAX"
  shows "get_d fp n (replicate n x) amp = Inr (x * n)"
proof -
  have s: "sum_list (replicate n x) = x * n" by (simp add: sum_list_replicate mult.commute)
  have "x * n \<le> U256_MAX" using assms(4) by (simp add: U128_MAX_def U256_MAX_def)
  then have f: "fold_res (\<lambda>x s. u256_add s x) (replicate n x) 0 = Inr (x * n)"
    using sum_256_ok [of 0 "replicate n x"] by (simp add: s)
  have r: "NEWTON_ROUNDS = Suc 254" by (simp add: NEWTON_ROUNDS_def)
  have "d_step fp n (amp * n) (replicate n x) (x * n) (x * n) = Inr (x * n)"
    using assms by (intro balanced_step) simp_all
  then have "d_loop NEWTON_ROUNDS fp n (amp * n) (replicate n x) (x * n) (x * n) = Inr (x * n)"
    unfolding r d_loop.simps(2) by (simp add: within_one_def)
  with f assms(1,2,5) show ?thesis by (simp add: get_d_def u_mul_def)
qed

end

section \<open>Errors\<close>

lemma known_balances_error: "known_balances n j m xp = Inl e \<Longrightarrow> e = HostPanic"
proof -
  have "map_res (\<lambda>i. case m i of Some x \<Rightarrow> Inr x | None \<Rightarrow> item xp i) is = Inl e \<Longrightarrow> e = HostPanic" for "is"
    by (induction "is") (auto simp: andthen_def item_def split: sum.splits option.splits if_splits)
  then show "known_balances n j m xp = Inl e \<Longrightarrow> e = HostPanic" unfolding known_balances_def .
qed

lemma mul_floor_256_error: "mul_floor_256 fp a b d = Inl e \<Longrightarrow> e = HostPanic"
  by (auto simp: mul_floor_256_def from_option_def split: option.splits)

lemma y_coefficients_error: "y_coefficients fp n ann known d = Inl e \<Longrightarrow> e = HostPanic"
proof -
  have f: "fold_res (\<lambda>x1 (c, s).
       andthen (u256_add s x1) (\<lambda>s.
       andthen (u256_mul x1 n) (\<lambda>k.
       andthen (mul_floor_256 fp c d k) (\<lambda>c. Inr (c, s))))) known cs = Inl e \<Longrightarrow> e = HostPanic" for cs
    by (induction known arbitrary: cs)
      (auto simp: andthen_def u_defs split: sum.splits if_splits dest: mul_floor_256_error)
  then show "y_coefficients fp n ann known d = Inl e \<Longrightarrow> e = HostPanic"
    unfolding y_coefficients_def by (auto simp: andthen_def u_defs split: sum.splits if_splits)
qed

section \<open>The curve's properties\<close>

text \<open>
  Claim C22: the balance that \<open>_get_y\<close> returns lies on the StableSwap curve. With the code's
  \<open>D\<close> and the quadratic's coefficients it is the positive root rounded down, the last balance at which
  the quadratic is not positive, or the balance after it when the quadratic is exactly one there.
\<close>

theorem stable_balance_on_curve:
  assumes "get_y fp n (Inr amp) in_idx out_idx x xp = Inr y"
  shows "\<exists>d known c b. get_d fp n xp amp = Inr d \<and> known_balances n out_idx [in_idx \<mapsto> x] xp = Inr known \<and>
    y_coefficients fp n (amp * n) known d = Inr (c, b) \<and> on_curve c b d y"
  using assms y_loop_on_curve by (fastforce simp: get_y_def res_simps split: if_splits)

lemma y_loop_numeral [simp]:
  "y_loop (numeral k) c b d y =
     andthen (y_step c b d y) (\<lambda>y'. if within_one y' y then to_u128 y' else y_loop (pred_numeral k) c b d y')"
  by (simp add: numeral_eq_Suc)

lemma sample_balanced_d: "get_d exact_fixed_point 2 [1000, 1000] 100 = Inr 2000"
  using exact.balanced_d [of 2 1000 100] by (simp add: U128_MAX_def U256_MAX_def numeral_2_eq_2)

lemma sample_known: "known_balances 2 1 [0 \<mapsto> 1010] [1000, 1000] = Inr [1010]"
  by (simp add: known_balances_def numeral_2_eq_2)

lemma sample_coefficients: "y_coefficients exact_fixed_point 2 200 [1010] 2000 = Inr (9900, 1020)"
  by (simp add: y_coefficients_def mul_floor_256_def exact_fixed_point_def u_defs U256_MAX_def)

lemma sample_y: "get_y exact_fixed_point 2 (Inr 100) 0 1 1010 [1000, 1000] = Inr 990"
  by (simp add: get_y_def get_y_indices_def sample_balanced_d sample_known sample_coefficients u_mul_def U128_MAX_def
      NEWTON_ROUNDS_def y_step_def u_defs U256_MAX_def within_one_def del: One_nat_def)

theorem stable_balance_on_curve_witness:
  "on_curve 9900 1020 2000 990"
  using stable_balance_on_curve [OF sample_y]
  by (simp add: sample_balanced_d sample_known sample_coefficients del: One_nat_def)

text \<open>
  The search for a balance always ends within its 255 rounds, whatever the
  coefficients: \<open>_get_y_d\<close> never fails with \<open>MaxIterationsReached\<close>, and \<open>_get_y\<close> only when the
  computation of \<open>D\<close> already did.
\<close>

theorem stable_balance_search_ends:
  "get_y_d fp n amp in_idx xp d \<noteq> Inl (StableswapError SS_MaxIterationsReached) \<and>
   (get_y fp n (Inr amp) in_idx out_idx x xp = Inl (StableswapError SS_MaxIterationsReached)) =
     (in_idx \<noteq> out_idx \<and> in_idx < n \<and> out_idx < n \<and>
      get_d fp n xp amp = Inl (StableswapError SS_MaxIterationsReached))"
proof (rule conjI)
  have rest: "andthen (u128_mul amp n) (\<lambda>ann.
      andthen (known_balances n j m xp) (\<lambda>known.
      andthen (y_coefficients fp n ann known d) (\<lambda>(c, b).
      y_loop NEWTON_ROUNDS c b d d))) \<noteq> Inl (StableswapError SS_MaxIterationsReached)" for j m d
    using y_loop_ends by (auto simp: andthen_def u_mul_def split: sum.splits if_splits
        dest: known_balances_error y_coefficients_error)
  then show "get_y_d fp n amp in_idx xp d \<noteq> Inl (StableswapError SS_MaxIterationsReached)"
    by (simp add: get_y_d_def)
  show "(get_y fp n (Inr amp) in_idx out_idx x xp = Inl (StableswapError SS_MaxIterationsReached)) =
     (in_idx \<noteq> out_idx \<and> in_idx < n \<and> out_idx < n \<and>
      get_d fp n xp amp = Inl (StableswapError SS_MaxIterationsReached))"
    using rest by (cases "get_d fp n xp amp") (auto simp: get_y_def get_y_indices_def)
qed

lemma y_loop_returns:
  assumes "0 < d + b" and "d \<le> 2 ^ 126" and "b \<le> 2 ^ 128" and "c \<le> 2 ^ 126 * (d + b)"
  shows "\<exists>y. y_loop NEWTON_ROUNDS c b d d = Inr y \<and> on_curve c b d y"
proof -
  obtain r where r: "floor_root c b d r" using floor_root_exists by blast
  have n: "NEWTON_ROUNDS = Suc 254" by (simp add: NEWTON_ROUNDS_def)
  have c: "c \<le> 2 ^ 126 * (2 ^ 126 + 2 ^ 128)"
    using assms(2-4) by (meson add_mono le_trans mult_le_mono2)
  have dd: "d * d \<le> 2 ^ 126 * 2 ^ 126" using assms(2) by (intro mult_le_mono)
  have small: "d * d + c \<le> U256_MAX" "2 * d + b \<le> U256_MAX"
    using c dd assms(2,3) by (simp_all add: U256_MAX_def)
  have step: "y_step c b d d = Inr ((d * d + c) div (d + b))" (is "_ = Inr ?y")
    using small assms(1) by (simp add: y_step_eq_Inr)
  have "d * d + c \<le> (d + 2 ^ 126) * (d + b)" using assms(4) by (simp add: algebra_simps)
  then have "?y \<le> (d + 2 ^ 126) * (d + b) div (d + b)" by (rule div_le_mono)
  also have "\<dots> = d + 2 ^ 126" using assms(1) by (intro nonzero_mult_div_cancel_right) simp
  finally have "?y \<le> d + 2 ^ 126" .
  then have y: "?y \<le> 2 ^ 127" using assms(2) by simp
  have "y_loop NEWTON_ROUNDS c b d d \<noteq> Inl HostPanic"
  proof (cases "within_one ?y d")
    case True
    then show ?thesis using y unfolding n y_loop.simps(2) step by (simp add: u_fit_def U128_MAX_def)
  next
    case False
    have up: "r \<le> ?y" by (rule y_step_above [OF r step])
    have "d < 2 * ?y + b"
    proof (cases "?y = 0")
      case True
      then have "d * d + c < d + b" using assms(1) by (auto simp: div_eq_0_iff)
      moreover have "2 \<le> d" using False True by (auto simp: within_one_def)
      then have "2 * d \<le> d * d" by simp
      ultimately show ?thesis by linarith
    next
      case False
      then show ?thesis using floor_root_facts(3) [OF r] up by linarith
    qed
    then have "y_loop 254 c b d ?y \<noteq> Inl HostPanic"
      using c assms(3) by (intro y_loop_fits [OF r _ _ _ up y]) (simp_all add: U256_MAX_def U128_MAX_def)
    then show ?thesis unfolding n y_loop.simps(2) step using False by simp
  qed
  moreover have "y_loop k c b d y = Inl e \<Longrightarrow> e = HostPanic \<or> e = StableswapError SS_MaxIterationsReached" for k y e
    by (induction k arbitrary: y) (auto simp: andthen_def u_fit_def split: sum.splits if_splits dest: y_step_error)
  ultimately have "y_loop NEWTON_ROUNDS c b d d \<noteq> Inl e" for e using y_loop_ends by metis
  then obtain y where "y_loop NEWTON_ROUNDS c b d d = Inr y" by (metis sum.exhaust)
  with y_loop_on_curve [OF this] show ?thesis by blast
qed

text \<open>
  Claim C23: the search of \<open>_get_y_d\<close> returns the balance on the curve, within its 255 rounds and
  without an overflow, whenever the quadratic's coefficients \<open>c\<close> and \<open>b\<close> are computed and are
  bounded: \<open>D\<close> up to \<open>2 ^ 126\<close>, \<open>b\<close> up to \<open>2 ^ 128\<close> and a quotient \<open>c / (D + b)\<close> up to \<open>2 ^ 126\<close>.
\<close>

theorem stable_balance_returns:
  assumes "0 < d + b" and "d \<le> 2 ^ 126" and "b \<le> 2 ^ 128" and "c \<le> 2 ^ 126 * (d + b)"
    and "in_idx < n" and "amp * n \<le> U128_MAX" and "known_balances n in_idx Map.empty xp = Inr known"
    and "y_coefficients fp n (amp * n) known d = Inr (c, b)"
  shows "\<exists>y. get_y_d fp n amp in_idx xp d = Inr y \<and> on_curve c b d y"
  using y_loop_returns [OF assms(1-4)] assms(5-8) by (simp add: get_y_d_def u_mul_def)

theorem stable_balance_returns_witness:
  "\<exists>y. get_y_d exact_fixed_point 2 100 1 [1010, 1000] 2000 = Inr y \<and> on_curve 9900 1020 2000 y"
proof -
  have "known_balances 2 1 Map.empty [1010, 1000] = Inr [1010]"
    by (simp add: known_balances_def numeral_2_eq_2 item_def)
  from stable_balance_returns [OF _ _ _ _ _ _ this, of 2000 1020 9900 100 exact_fixed_point]
  show ?thesis by (simp add: sample_coefficients U128_MAX_def)
qed

text \<open>
  Claim C24: what \<open>_get_d\<close> returns solves the StableSwap equation. For some \<open>D\<close> within one unit of
  the result, the equation's two sides differ by less than two of the iteration's slope divided by \<open>D\<close>;
  and a balanced pool's invariant is exactly the sum of its balances.
\<close>

theorem stable_invariant_solves:
  assumes "fixed_point_lib fp" and "get_d fp n xp amp = Inr r" and "0 < sum_list xp"
  shows "\<exists>d. within_one r d \<and> - int (d_slope n (amp * n) xp d) \<le> int d * d_excess n (amp * n) xp d \<and>
    int d * d_excess n (amp * n) xp d < 2 * int (d_slope n (amp * n) xp d)"
proof -
  from assms(2) obtain s where s: "fold_res (\<lambda>x s. u256_add s x) xp 0 = Inr s"
    and d: "(if s = 0 then Inr 0 else andthen (u128_mul amp n) (\<lambda>ann. d_loop NEWTON_ROUNDS fp n ann xp s s)) = Inr r"
    by (auto simp: get_d_def res_simps)
  have eq: "s = sum_list xp" using sum_256 [OF s] by simp
  then have "s \<noteq> 0" using assms(3) by linarith
  with d have "d_loop NEWTON_ROUNDS fp n (amp * n) xp s s = Inr r" by (auto simp: res_simps)
  then have "d_loop NEWTON_ROUNDS fp n (amp * n) xp (sum_list xp) (sum_list xp) = Inr r" by (simp only: eq)
  from fixed_point_lib.d_loop_solves [OF assms(1) this] show ?thesis .
qed

theorem stable_invariant_solves_witness:
  "\<exists>d. within_one 2000 d \<and> - int (d_slope 2 200 [1000, 1000] d) \<le> int d * d_excess 2 200 [1000, 1000] d \<and>
    int d * d_excess 2 200 [1000, 1000] d < 2 * int (d_slope 2 200 [1000, 1000] d)"
  using stable_invariant_solves [OF exact_lib sample_balanced_d] by simp

text \<open>
  The invariant of a pool of \<open>n\<close> equal balances is exactly their sum, for every
  amplification, found in the first round.
\<close>

theorem balanced_invariant_is_sum:
  assumes "fixed_point_lib fp" and "0 < n" and "0 < x" and "0 < amp" and "x * n \<le> U128_MAX" and "amp * n \<le> U128_MAX"
    and "(amp * n + n) * (x * n) * (x * n) \<le> U256_MAX"
  shows "get_d fp n (replicate n x) amp = Inr (n * x)"
  using fixed_point_lib.balanced_d [OF assms] by (simp add: mult.commute)

theorem balanced_invariant_is_sum_witness: "get_d exact_fixed_point 3 [500, 500, 500] 85 = Inr 1500"
  using balanced_invariant_is_sum [OF exact_lib, of 3 500 85]
  by (simp add: U128_MAX_def U256_MAX_def numeral_3_eq_3)

end
