(* ===== verification/SS_Runs.thy ===== *)
theory SS_Runs
  imports SS_Admin SS_Curve Pool_Host
begin

text \<open>
  The entry points of the stable pool as one datatype with its execution, and the effect of each
  successful call on the pool's storage: which reserves and protocol fees it books, what it pays
  and collects, and what it leaves alone.
\<close>

section \<open>Entry points\<close>

datatype ss_trade_op =
    SsDeposit address "nat list" nat
  | SsEstimateDeposit "nat list"
  | SsSwap address nat nat nat nat
  | SsEstimateSwap nat nat nat
  | SsSwapStrict address nat nat nat nat
  | SsEstimateSwapStrict nat nat nat
  | SsWithdraw address nat "nat list"
  | SsRemoveImbalance address "nat list" nat
  | SsWithdrawOne address nat nat nat
  | SsCalcWithdrawOne nat nat
  | SsCalcTokenAmount "nat list" bool
  | SsVirtualPrice
  | SsGetReserves

datatype ss_own_op =
    SsRampA address nat nat
  | SsStopRampA address
  | SsCommitFee address nat
  | SsApplyFee address
  | SsRevertFee address
  | SsSetProtocolFraction address nat
  | SsClaimProtocolFees address address
  | SsInitPlane address
  | SsInitRewards address
  | SsInitBoost address address
  | SsUnusedReward
  | SsReturnUnused address
  | SsClaim address
  | SsProtocolFees
  | SsDecimals
  | SsBackfillPlane

datatype ss_op = SsTrade ss_trade_op | SsOwn ss_own_op | SsShared shared_op

primrec ss_trade_exec ::
  "'w host_calls \<Rightarrow> env \<Rightarrow> ss_pool \<Rightarrow> 'w \<Rightarrow> ss_trade_op \<Rightarrow> (ss_pool \<times> 'w) res" where
  "ss_trade_exec x e s w (SsDeposit u as m) = effect (ss_deposit x e u as m (s, w))"
| "ss_trade_exec x e s w (SsEstimateDeposit as) = reading w (ss_estimate_deposit x e as (s, w))"
| "ss_trade_exec x e s w (SsSwap u i j a m) = effect (ss_swap x e u i j a m (s, w))"
| "ss_trade_exec x e s w (SsEstimateSwap i j a) = reading w (ss_estimate_swap x e i j a (s, w))"
| "ss_trade_exec x e s w (SsSwapStrict u i j a m) = effect (ss_swap_strict_receive x e u i j a m (s, w))"
| "ss_trade_exec x e s w (SsEstimateSwapStrict i j a) = reading w (ss_estimate_swap_strict_receive x e i j a (s, w))"
| "ss_trade_exec x e s w (SsWithdraw u n ms) = effect (ss_withdraw x e u n ms (s, w))"
| "ss_trade_exec x e s w (SsRemoveImbalance u as m) = effect (ss_remove_liquidity_imbalance x e u as m (s, w))"
| "ss_trade_exec x e s w (SsWithdrawOne u n i m) = effect (ss_withdraw_one_coin x e u n i m (s, w))"
| "ss_trade_exec x e s w (SsCalcWithdrawOne n i) = reading w (ss_calc_withdraw_one_coin x e n i (s, w))"
| "ss_trade_exec x e s w (SsCalcTokenAmount as b) = reading w (ss_calc_token_amount x e as b (s, w))"
| "ss_trade_exec x e s w SsVirtualPrice = reading w (ss_get_virtual_price x e (s, w))"
| "ss_trade_exec x e s w SsGetReserves = reading w (ss_get_reserves x e (s, w))"

primrec ss_own_exec :: "'w host_calls \<Rightarrow> env \<Rightarrow> ss_pool \<Rightarrow> 'w \<Rightarrow> ss_own_op \<Rightarrow> (ss_pool \<times> 'w) res" where
  "ss_own_exec x e s w (SsRampA a f t) = ss_ramp_a x e a f t (s, w)"
| "ss_own_exec x e s w (SsStopRampA a) = ss_stop_ramp_a x e a (s, w)"
| "ss_own_exec x e s w (SsCommitFee a f) = local w (ss_commit_new_fee e a f s)"
| "ss_own_exec x e s w (SsApplyFee a) = ss_apply_new_fee x e a (s, w)"
| "ss_own_exec x e s w (SsRevertFee a) = local w (ss_revert_new_parameters e a s)"
| "ss_own_exec x e s w (SsSetProtocolFraction a f) = local w (ss_set_protocol_fee_fraction e a f s)"
| "ss_own_exec x e s w (SsClaimProtocolFees a d) = effect (ss_claim_protocol_fees x e a d (s, w))"
| "ss_own_exec x e s w (SsInitPlane p) = local w (ss_init_pools_plane p s)"
| "ss_own_exec x e s w (SsInitRewards t) = local w (ss_initialize_rewards_config t s)"
| "ss_own_exec x e s w (SsInitBoost t f) = local w (ss_initialize_boost_config t f s)"
| "ss_own_exec x e s w SsUnusedReward = reading w (ss_get_unused_reward x e (s, w))"
| "ss_own_exec x e s w (SsReturnUnused a) = effect (ss_return_unused_reward x e a (s, w))"
| "ss_own_exec x e s w (SsClaim u) = effect (ss_claim x e u (s, w))"
| "ss_own_exec x e s w SsProtocolFees = reading w (get_protocol_fees s)"
| "ss_own_exec x e s w SsDecimals = reading w (get_decimals x w s)"
| "ss_own_exec x e s w SsBackfillPlane = ss_update_plane x e (s, w)"

primrec ss_exec :: "'w host_calls \<Rightarrow> env \<Rightarrow> ss_pool \<Rightarrow> 'w \<Rightarrow> ss_op \<Rightarrow> (ss_pool \<times> 'w) res" where
  "ss_exec x e s w (SsTrade a) = ss_trade_exec x e s w a"
| "ss_exec x e s w (SsOwn a) = ss_own_exec x e s w a"
| "ss_exec x e s w (SsShared a) = shared_exec x e s w a"

inductive ss_run ::
  "'w host_calls \<Rightarrow> (env \<Rightarrow> ss_op \<Rightarrow> ss_pool \<Rightarrow> bool) \<Rightarrow> ('w \<Rightarrow> 'w \<Rightarrow> bool) \<Rightarrow>
   ss_pool \<times> 'w \<Rightarrow> ss_pool \<times> 'w \<Rightarrow> bool"
  for x allow drift p where
  start: "ss_run x allow drift p p"
| call: "ss_run x allow drift p (s, w) \<Longrightarrow> ss_exec x e s w a = Inr (s', w') \<Longrightarrow> allow e a s \<Longrightarrow>
    ss_run x allow drift p (s', w')"
| world: "ss_run x allow drift p (s, w) \<Longrightarrow> drift w w' \<Longrightarrow> ss_run x allow drift p (s, w')"

section \<open>Filling the stored copies\<close>

definition fees_from :: "nat list option \<Rightarrow> address list option \<Rightarrow> nat list" where
  "fees_from fees tokens = (case fees of Some f \<Rightarrow> f
     | None \<Rightarrow> (case tokens of Some ts \<Rightarrow> map (\<lambda>_. 0) ts | None \<Rightarrow> []))"

definition fees_of :: "ss_pool \<Rightarrow> nat list" where
  \<comment> \<open>the protocol's fees, zero before the first entry\<close>
  "fees_of s = fees_from (ss_protocol_fees s) (ss_tokens s)"

definition strip :: "ss_pool \<Rightarrow> ss_pool" where
  "strip s = s\<lparr>ss_decimals := None, ss_precision := None, ss_precision_mul := None, ss_protocol_fees := None\<rparr>"

definition caches_only :: "ss_pool \<Rightarrow> ss_pool \<Rightarrow> bool" where
  \<comment> \<open>nothing but the stored copies of decimals, precisions and empty fees may have been filled in\<close>
  "caches_only s s' \<longleftrightarrow> strip s' = strip s \<and> fees_of s' = fees_of s"

lemma caches_only_refl [simp]: "caches_only s s"
  by (simp add: caches_only_def)

lemma caches_only_trans [trans]: "caches_only s t \<Longrightarrow> caches_only t u \<Longrightarrow> caches_only s u"
  by (simp add: caches_only_def)

lemma caches_only_update:
  "caches_only s (s\<lparr>ss_decimals := d\<rparr>)" "caches_only s (s\<lparr>ss_precision := p\<rparr>)" "caches_only s (s\<lparr>ss_precision_mul := m\<rparr>)"
  by (simp_all add: caches_only_def strip_def fees_of_def)

lemma caches_onlyD:
  assumes "caches_only s s'"
  shows "ss_tokens s' = ss_tokens s" "ss_reserves s' = ss_reserves s" "fees_of s' = fees_of s"
    "pl_shares s' = pl_shares s" "pl_rewards s' = pl_rewards s" "pl_gauges s' = pl_gauges s"
    "ss_initial_a s' = ss_initial_a s" "ss_initial_a_time s' = ss_initial_a_time s"
    "ss_future_a s' = ss_future_a s" "ss_future_a_time s' = ss_future_a_time s"
    "ss_fee s' = ss_fee s" "ss_future_fee s' = ss_future_fee s" "ss_deadline s' = ss_deadline s"
    "pl_protocol_fee_fraction s' = pl_protocol_fee_fraction s" "pl_plane s' = pl_plane s"
    "pl_sync_ledger s' = pl_sync_ledger s" "pl_managed s' = pl_managed s" "pl_killed_swap s' = pl_killed_swap s"
proof -
  have q: "strip s' = strip s" using assms by (simp add: caches_only_def)
  show "fees_of s' = fees_of s" using assms by (simp add: caches_only_def)
  show "ss_tokens s' = ss_tokens s" using arg_cong [OF q, of ss_tokens] by (simp add: strip_def)
  show "ss_reserves s' = ss_reserves s" using arg_cong [OF q, of ss_reserves] by (simp add: strip_def)
  show "pl_shares s' = pl_shares s" using arg_cong [OF q, of pl_shares] by (simp add: strip_def)
  show "pl_rewards s' = pl_rewards s" using arg_cong [OF q, of pl_rewards] by (simp add: strip_def)
  show "pl_gauges s' = pl_gauges s" using arg_cong [OF q, of pl_gauges] by (simp add: strip_def)
  show "ss_initial_a s' = ss_initial_a s" using arg_cong [OF q, of ss_initial_a] by (simp add: strip_def)
  show "ss_initial_a_time s' = ss_initial_a_time s" using arg_cong [OF q, of ss_initial_a_time] by (simp add: strip_def)
  show "ss_future_a s' = ss_future_a s" using arg_cong [OF q, of ss_future_a] by (simp add: strip_def)
  show "ss_future_a_time s' = ss_future_a_time s" using arg_cong [OF q, of ss_future_a_time] by (simp add: strip_def)
  show "ss_fee s' = ss_fee s" using arg_cong [OF q, of ss_fee] by (simp add: strip_def)
  show "ss_future_fee s' = ss_future_fee s" using arg_cong [OF q, of ss_future_fee] by (simp add: strip_def)
  show "ss_deadline s' = ss_deadline s" using arg_cong [OF q, of ss_deadline] by (simp add: strip_def)
  show "pl_protocol_fee_fraction s' = pl_protocol_fee_fraction s"
    using arg_cong [OF q, of pl_protocol_fee_fraction] by (simp add: strip_def)
  show "pl_plane s' = pl_plane s" using arg_cong [OF q, of pl_plane] by (simp add: strip_def)
  show "pl_sync_ledger s' = pl_sync_ledger s" using arg_cong [OF q, of pl_sync_ledger] by (simp add: strip_def)
  show "pl_managed s' = pl_managed s" using arg_cong [OF q, of pl_managed] by (simp add: strip_def)
  show "pl_killed_swap s' = pl_killed_swap s" using arg_cong [OF q, of pl_killed_swap] by (simp add: strip_def)
qed

named_theorems caching

lemma get_decimals_caches [caching]: "get_decimals x w s = Inr (v, s') \<Longrightarrow> caches_only s s'"
  by (auto simp: get_decimals_def Let_def res_simps caches_only_update split: option.splits)

lemma get_precision_caches [caching]: "get_precision x w s = Inr (v, s') \<Longrightarrow> caches_only s s'"
  by (auto simp: get_precision_def res_simps split: option.splits
      dest!: get_decimals_caches intro: caches_only_trans [OF _ caches_only_update(2)])

lemma get_precision_mul_caches [caching]: "get_precision_mul x w s = Inr (v, s') \<Longrightarrow> caches_only s s'"
  by (auto simp: get_precision_mul_def res_simps split: option.splits
      dest!: get_decimals_caches intro: caches_only_trans [OF _ caches_only_update(3)])

lemma scaled_caches [caching]: "scaled x w rs s = Inr (v, s') \<Longrightarrow> caches_only s s'"
  by (auto simp: scaled_def res_simps dest: get_decimals_caches)

lemma get_protocol_fees_caches [caching]: "get_protocol_fees s = Inr (v, s') \<Longrightarrow> caches_only s s'"
  by (auto simp: get_protocol_fees_def Let_def res_simps caches_only_def strip_def fees_of_def fees_from_def stored_def
      split: option.splits)

lemma get_protocol_fees_value: "get_protocol_fees s = Inr (v, s') \<Longrightarrow> v = fees_of s \<and> ss_protocol_fees s' = Some v"
  by (auto simp: get_protocol_fees_def Let_def res_simps fees_of_def fees_from_def stored_def split: option.splits)

lemma pool_d_if_caches [caching]: "pool_d_if x w b rs amp s = Inr (v, s') \<Longrightarrow> caches_only s s'"
  by (auto simp: pool_d_if_def res_simps dest: scaled_caches split: if_splits)

lemma update_plane_caches:
  assumes "ss_update_plane x e (s, w) = Inr (s', w')"
  shows "caches_only s s'" and "\<exists>p xs ys. cc_plane_update x p (current_contract e) ''stable'' xs ys w = Inr w'"
  using assms by (auto simp: ss_update_plane_def res_simps dest: scaled_caches)

section \<open>The loops over the coins\<close>

lemma take_coin_loop:
  assumes "for_upto n (take_coin x e u coins supply as old) (old, w) = Inr (news, w')"
  shows "length news = length old \<and> n \<le> length old \<and> n \<le> length as \<and> (\<forall>k < n. news ! k = old ! k + as ! k)"
proof -
  have "(\<lambda>i (news, w). length news = length old \<and> i \<le> length old \<and> i \<le> length as \<and>
      (\<forall>k < i. news ! k = old ! k + as ! k)) n (news, w')"
    by (rule upto_rule [OF assms])
      (auto simp: take_coin_def deposit_balances_def res_simps less_Suc_eq nth_list_update split: if_splits)
  then show ?thesis by simp
qed

text \<open>One coin of a fee loop, and what the loop leaves: reserve and fee together are the new balance and the old fee.\<close>

definition charge_step ::
  "nat \<Rightarrow> nat list \<times> nat list \<times> nat list \<Rightarrow> nat list \<times> nat list \<times> nat list \<Rightarrow> bool" where
  "charge_step i st st' \<longleftrightarrow> (case (st, st') of ((r, c, f), (r', c', f')) \<Rightarrow>
     \<exists>pf a. i < length r \<and> i < length c \<and> i < length f \<and> pf \<le> c ! i \<and>
       r' = r[i := c ! i - pf] \<and> f' = f[i := f ! i + pf] \<and> c' = c[i := a])"

lemma charge_imbalance_step:
  "charge_imbalance x s n g olds i st = Inr st' \<Longrightarrow> charge_step i st st'"
  by (cases st; cases st') (auto simp: charge_imbalance_def charge_step_def res_simps)

lemma charge_loop:
  assumes run: "for_upto n g (r0, c0, f0) = Inr (r, c, f)"
    and step: "\<And>i st st'. g i st = Inr st' \<Longrightarrow> charge_step i st st'"
  shows "length r = length r0 \<and> length f = length f0 \<and> n \<le> length r0 \<and> n \<le> length f0 \<and>
    (\<forall>k < n. r ! k + f ! k = c0 ! k + f0 ! k)"
proof -
  have "(\<lambda>i (r, c, f). length r = length r0 \<and> length c = length c0 \<and> length f = length f0 \<and>
      i \<le> length r0 \<and> i \<le> length f0 \<and>
      (\<forall>k < i. r ! k + f ! k = c0 ! k + f0 ! k) \<and> (\<forall>k \<ge> i. c ! k = c0 ! k \<and> f ! k = f0 ! k)) n (r, c, f)"
  proof (rule upto_rule [OF run])
    fix i st st'
    assume inv: "(\<lambda>(r, c, f). length r = length r0 \<and> length c = length c0 \<and> length f = length f0 \<and>
      i \<le> length r0 \<and> i \<le> length f0 \<and>
      (\<forall>k < i. r ! k + f ! k = c0 ! k + f0 ! k) \<and> (\<forall>k \<ge> i. c ! k = c0 ! k \<and> f ! k = f0 ! k)) st"
      and "g i st = Inr st'"
    from step [OF this(2)] inv
    show "(\<lambda>(r, c, f). length r = length r0 \<and> length c = length c0 \<and> length f = length f0 \<and>
      Suc i \<le> length r0 \<and> Suc i \<le> length f0 \<and>
      (\<forall>k < Suc i. r ! k + f ! k = c0 ! k + f0 ! k) \<and> (\<forall>k \<ge> Suc i. c ! k = c0 ! k \<and> f ! k = f0 ! k)) st'"
      by (cases st; cases st') (auto simp: charge_step_def less_Suc_eq)
  qed simp
  then show ?thesis by simp
qed

lemma give_share_loop:
  assumes "for_upto n (give_share x e u coins share supply ms) (r0, [], w) = Inr (r, as, w')"
    and "fixed_point_lib (cc_fp x)"
  shows "length r = length r0 \<and> length as = n \<and> n \<le> length r0 \<and> (\<forall>k < n. supply \<noteq> 0 \<and> as ! k = r0 ! k * share div supply \<and>
    as ! k \<le> r0 ! k \<and> ms ! k \<le> as ! k \<and> r ! k = r0 ! k - as ! k)"
proof -
  note floor = fixed_point_lib.mul_floor_eq_Inr [OF assms(2)]
  have "(\<lambda>i (r, as, w). length r = length r0 \<and> length as = i \<and> i \<le> length r0 \<and> (\<forall>k \<ge> i. r ! k = r0 ! k) \<and>
    (\<forall>k < i. supply \<noteq> 0 \<and> as ! k = r0 ! k * share div supply \<and>
      as ! k \<le> r0 ! k \<and> ms ! k \<le> as ! k \<and> r ! k = r0 ! k - as ! k)) n (r, as, w')"
    by (rule upto_rule [OF assms(1)])
      (auto simp: give_share_def res_simps floor less_Suc_eq nth_append not_less split: if_splits)
  then show ?thesis unfolding split_conv by blast
qed

lemma remove_loop:
  assumes "for_upto n (\<lambda>i balances.
      andthen (item balances i) (\<lambda>b.
      andthen (item as i) (\<lambda>a.
      andthen (u_sub b a) (\<lambda>left.
      andthen (put_item i left balances) (not_zero i))))) old = Inr news"
  shows "length news = length old \<and> n \<le> length old \<and> (\<forall>k < n. as ! k \<le> old ! k \<and> news ! k = old ! k - as ! k)"
proof -
  have "(\<lambda>i news. length news = length old \<and> i \<le> length old \<and> (\<forall>k < i. as ! k \<le> old ! k \<and> news ! k = old ! k - as ! k) \<and>
      (\<forall>k \<ge> i. news ! k = old ! k)) n news"
    by (rule upto_rule [OF assms]) (auto simp: not_zero_def res_simps less_Suc_eq split: if_splits)
  then show ?thesis by simp
qed

lemma pay_fee_loop:
  assumes "for_upto n (pay_fee x e d coins f0) (f0, w) = Inr (f, w')"
  shows "length f = length f0 \<and> n \<le> length f0 \<and> (\<forall>k < n. f ! k = 0)"
proof -
  have "(\<lambda>i (f, w). length f = length f0 \<and> i \<le> length f0 \<and> (\<forall>k < i. f ! k = 0) \<and> (\<forall>k \<ge> i. f ! k = f0 ! k)) n (f, w')"
    by (rule upto_rule [OF assms]) (auto simp: pay_fee_def res_simps less_Suc_eq split: if_splits)
  then show ?thesis by simp
qed

chapter \<open>The effect of each handler\<close>

text \<open>
  The effect of every successful call of the stable pool: the parameters it keeps (\<open>params_of\<close>), the
  reserves and fees it books, and the transfers it makes, as inversion lemmas.
\<close>

section \<open>Parameters\<close>

definition params_of :: "ss_pool \<Rightarrow> address list option \<times> (nat option \<times> nat option) \<times> (nat option \<times> nat option) \<times>
    (nat option \<times> nat option \<times> nat option)" where
  \<comment> \<open>the tokens, both ends of the ramp, and the fee with its lock\<close>
  "params_of s = (ss_tokens s, (ss_initial_a s, ss_initial_a_time s), (ss_future_a s, ss_future_a_time s),
     (ss_fee s, ss_future_fee s, ss_deadline s))"

lemma params_cached: "caches_only s s' \<Longrightarrow> params_of s' = params_of s"
  using caches_onlyD by (simp add: params_of_def)

lemma params_update [simp]:
  "params_of (s\<lparr>pl_rewards := r\<rparr>) = params_of s" "params_of (s\<lparr>pl_shares := h\<rparr>) = params_of s"
  "params_of (s\<lparr>ss_reserves := v\<rparr>) = params_of s" "params_of (s\<lparr>ss_protocol_fees := f\<rparr>) = params_of s"
  "params_of (s\<lparr>pl_sync_ledger := l\<rparr>) = params_of s" "params_of (s\<lparr>pl_plane := p\<rparr>) = params_of s"
  "params_of (s\<lparr>pl_protocol_fee_fraction := k\<rparr>) = params_of s"
  by (simp_all add: params_of_def)

lemma fees_of_update [simp]:
  "fees_of (s\<lparr>pl_rewards := r\<rparr>) = fees_of s" "fees_of (s\<lparr>pl_shares := h\<rparr>) = fees_of s"
  "fees_of (s\<lparr>ss_reserves := v\<rparr>) = fees_of s" "fees_of (s\<lparr>ss_protocol_fees := Some f\<rparr>) = f"
  "fees_of (s\<lparr>pl_sync_ledger := l\<rparr>) = fees_of s" "fees_of (s\<lparr>pl_plane := p\<rparr>) = fees_of s"
  "fees_of (s\<lparr>pl_protocol_fee_fraction := k\<rparr>) = fees_of s"
  by (simp_all add: fees_of_def fees_from_def)

lemma params_tokens: "params_of s' = params_of s \<Longrightarrow> ss_tokens s' = ss_tokens s"
  by (simp add: params_of_def)

section \<open>Synchronization\<close>

lemma zip3_nth: "i < length ts \<Longrightarrow> i < length rs \<Longrightarrow> i < length fs \<Longrightarrow> zip ts (zip rs fs) ! i = (ts ! i, rs ! i, fs ! i)"
  by simp

lemma ss_sync_InrD:
  assumes "ss_sync_reserves x e s w = Inr s'"
  shows "params_of s' = params_of s \<and> fees_of s' = fees_of s \<and> pl_shares s' = pl_shares s \<and> pl_rewards s' = pl_rewards s \<and>
    pl_gauges s' = pl_gauges s \<and> pl_managed s' = pl_managed s \<and> pl_protocol_fee_fraction s' = pl_protocol_fee_fraction s \<and>
    (ss_reserves s' = ss_reserves s \<or>
     (\<exists>ts rs rs'. ss_tokens s = Some ts \<and> ss_reserves s = Some rs \<and> ss_reserves s' = Some rs' \<and> length rs' = length rs \<and>
        0 < get_total_shares (pl_shares s) \<and>
        (\<forall>i < length rs. rs ! i \<le> rs' ! i \<and> (rs' ! i \<noteq> rs ! i \<longrightarrow> i < length ts \<and> i < length (fees_of s) \<and>
          rs' ! i + fees_of s ! i = as_u128 (tk_balance (cc_tokens x) (ts ! i) (current_contract e) w)))))"
proof (cases "pl_sync_ledger s = ledger_sequence e \<or> get_total_shares (pl_shares s) = 0")
  case True
  with assms have "s' = s \<or> s' = s\<lparr>pl_sync_ledger := ledger_sequence e\<rparr>"
    by (simp add: ss_sync_reserves_def Let_def res_simps split: if_splits)
  then show ?thesis by (elim disjE) simp_all
next
  case False
  define put where "put rs up t = (if up @ drop (length up) rs \<noteq> rs then t\<lparr>ss_reserves := Some (up @ drop (length up) rs)\<rparr> else t)
      \<lparr>pl_sync_ledger := ledger_sequence e\<rparr>" for rs up and t :: ss_pool
  from False assms have "andthen (stored (ss_tokens s)) (\<lambda>ts. andthen (stored (ss_reserves s)) (\<lambda>rs.
      andthen (get_protocol_fees s) (\<lambda>(fs, s1).
      andthen (map_res (sync_one x e (rw_token (pl_rewards s)) w) (zip ts (zip rs fs))) (\<lambda>up. Inr (put rs up s1))))) = Inr s'"
    by (simp only: ss_sync_reserves_def Let_def put_def de_Morgan_disj if_False)
  then obtain ts rs fs s1 up where ts: "ss_tokens s = Some ts" and rs: "ss_reserves s = Some rs"
    and fs: "get_protocol_fees s = Inr (fs, s1)"
    and up: "map_res (sync_one x e (rw_token (pl_rewards s)) w) (zip ts (zip rs fs)) = Inr up"
    and s': "s' = put rs up s1"
    by (auto simp: res_simps stored_def)
  note c = get_protocol_fees_caches [OF fs] and fs' = get_protocol_fees_value [OF fs]
  let ?rs = "up @ drop (length up) rs"
  have len: "length up \<le> length rs" "length up \<le> length ts" "length up \<le> length fs" "length up = length (zip ts (zip rs fs))"
    using map_res_length [OF up] by simp_all
  have el: "rs ! i \<le> ?rs ! i \<and> (?rs ! i \<noteq> rs ! i \<longrightarrow> i < length ts \<and> i < length fs \<and>
      ?rs ! i + fs ! i = as_u128 (tk_balance (cc_tokens x) (ts ! i) (current_contract e) w))" if "i < length rs" for i
  proof (cases "i < length up")
    case True
    then have "sync_one x e (rw_token (pl_rewards s)) w (ts ! i, rs ! i, fs ! i) = Inr (up ! i)"
      using map_res_nth [OF up, of i] len by (simp add: zip3_nth)
    from sync_one_InrD [OF this] True len show ?thesis by (auto simp: nth_append)
  next
    case False
    then have "?rs ! i = rs ! i" using that len(1) by (simp only: nth_append nth_drop if_False) simp
    then show ?thesis by simp
  qed
  have "ss_reserves s' = Some ?rs" "length ?rs = length rs"
    using rs caches_onlyD(2) [OF c] len(1) by (auto simp: s' put_def)
  moreover have "fees_of s' = fees_of s" "params_of s' = params_of s"
    using caches_onlyD(3) [OF c] params_cached [OF c] by (simp_all add: s' put_def)
  moreover have "pl_shares s' = pl_shares s" "pl_rewards s' = pl_rewards s" "pl_gauges s' = pl_gauges s"
    "pl_managed s' = pl_managed s" "pl_protocol_fee_fraction s' = pl_protocol_fee_fraction s"
    using caches_onlyD [OF c] by (simp_all add: s' put_def)
  moreover have "0 < get_total_shares (pl_shares s)" using False by simp
  ultimately show ?thesis using ts rs el fs' by blast
qed

section \<open>The end of a liquidity operation\<close>

lemma finish_liquidity_InrD:
  assumes "finish_liquidity x e u us tot (s, w) = Inr (s', w')"
  shows "\<exists>r nus ntot b p w1 pl xs ys. us = Inr nus \<and> tot = Inr ntot \<and> caches_only (s\<lparr>pl_rewards := r\<rparr>) s' \<and>
    gauges_checkpoint_user (cc_gauges x) e u b p (pl_gauges s) w = Inr w1 \<and>
    cc_plane_update x pl (current_contract e) ''stable'' xs ys w1 = Inr w'"
proof -
  from assms obtain nus ntot s1 w1 s2 w2 where n: "us = Inr nus" "tot = Inr ntot"
    and g: "gauge_checkpoint x e u nus ntot (new_manager s, w) = Inr (s1, w1)"
    and rr: "rewards_reweigh x e u ntot nus (s1, w1) = Inr (s2, w2)"
    and pl: "ss_update_plane x e (s2, w2) = Inr (s', w')"
    by (auto simp: finish_liquidity_def res_simps)
  from gauge_checkpoint_InrD [OF g] obtain r b p where s1: "s1 = s\<lparr>pl_rewards := r\<rparr>"
    and g1: "gauges_checkpoint_user (cc_gauges x) e u b p (pl_gauges s) w = Inr w1" by (auto simp: new_manager_def)
  from rewards_reweigh_InrD [OF rr] obtain r' where s2: "s2 = s\<lparr>pl_rewards := r'\<rparr>" "w2 = w1" by (auto simp: s1)
  from update_plane_caches [OF pl] n g1 s2 show ?thesis by metis
qed

section \<open>Deposits\<close>

lemma n_coins_eq_Inr: "n_coins s = Inr n \<longleftrightarrow> (\<exists>ts. ss_tokens s = Some ts \<and> n = length ts)"
  by (auto simp: n_coins_def stored_def res_simps)

lemma stored_eq_Inr [res_simps]: "stored v = Inr u \<longleftrightarrow> v = Some u"
  by (simp add: stored_def res_simps)

lemma settled:
  assumes "settle_user x e u (s, w) = Inr (tot, us, s', w')"
  shows "\<exists>r b p. s' = s\<lparr>pl_rewards := r\<rparr> \<and> tot = get_total_shares (pl_shares s) \<and>
    gauges_checkpoint_user (cc_gauges x) e u b p (pl_gauges s) w = Inr w'"
  using settle_user_effect [OF assms] by blast

lemma ss_deposit_InrD:
  assumes run: "ss_deposit x e u as m (s, w) = Inr (out, s', w')"
  shows "\<exists>s1 ts rs b p w1 news w2 sht w3 b' p' w4 pl xs ys rs'.
    authorized e u \<and> ss_sync_reserves x e s w = Inr s1 \<and> ss_tokens s1 = Some ts \<and> length as = length ts \<and>
    ss_reserves s1 = Some rs \<and> gauges_checkpoint_user (cc_gauges x) e u b p (pl_gauges s1) w = Inr w1 \<and>
    for_upto (length ts) (take_coin x e u ts (get_total_shares (pl_shares s1)) as rs) (rs, w1) = Inr (news, w2) \<and>
    fst out = as \<and> m \<le> snd out \<and> snd out \<le> U128_MAX \<and>
    share_mint_call (cc_shares x) sht u (as_i128 (snd out)) w2 = Inr w3 \<and>
    gauges_checkpoint_user (cc_gauges x) e u b' p' (pl_gauges s1) w3 = Inr w4 \<and>
    cc_plane_update x pl (current_contract e) ''stable'' xs ys w4 = Inr w' \<and>
    params_of s' = params_of s1 \<and> ss_reserves s' = Some rs' \<and>
    get_total_shares (pl_shares s') = get_total_shares (pl_shares s1) + snd out \<and>
    length rs' = length rs \<and> length (fees_of s') = length (fees_of s1) \<and>
    (0 < get_total_shares (pl_shares s1) \<longrightarrow> length ts \<le> length (fees_of s1)) \<and>
    (\<forall>k < length ts. rs' ! k + fees_of s' ! k = rs ! k + as ! k + fees_of s1 ! k)"
proof -
  let ?n = "length as"
  from run obtain s1 tot us s2 w1 amp rs d0 s3 fs s4 news w2 d1 s5 coins bal f2 d2 s6 mt sh w3 where
    au: "authorized e u" and sync: "ss_sync_reserves x e s w = Inr s1" and n: "n_coins s = Inr ?n"
    and su: "settle_user x e u (s1, w) = Inr (tot, us, s2, w1)"
    and rs: "ss_reserves s2 = Some rs" and d0: "pool_d_if x w1 (0 < get_total_shares (pl_shares s2)) rs amp s2 = Inr (d0, s3)"
    and coins: "ss_tokens s3 = Some coins" and fs: "get_protocol_fees s3 = Inr (fs, s4)"
    and tk: "for_upto ?n (take_coin x e u coins (get_total_shares (pl_shares s2)) as rs) (rs, w1) = Inr (news, w2)"
    and d1: "pool_d_if x w2 True news amp s4 = Inr (d1, s5)"
    and body: "charge_deposit x w2 ?n (get_total_shares (pl_shares s2)) amp d0 d1 rs news fs s5 = Inr (bal, f2, d2, s6)"
    and mt: "shares_for_deposit (get_total_shares (pl_shares s2)) d0 d1 d2 = Inr mt" "m \<le> mt"
    and mint: "mint_shares (cc_shares x) u (as_i128 mt) (pl_shares s6, w2) = Inr (sh, w3)"
    and fin: "finish_liquidity x e u (u128_add us mt) (u128_add tot mt)
      (s6\<lparr>ss_reserves := Some bal, ss_protocol_fees := Some f2, pl_shares := sh\<rparr>, w3) = Inr (s', w')"
    and out: "out = (as, mt)"
    by (auto simp: ss_deposit_def Let_def res_simps not_less)
  from n obtain ts where ts0: "ss_tokens s = Some ts" and len: "length as = length ts" by (auto simp: n_coins_eq_Inr)
  from settled [OF su] obtain r b p where s2: "s2 = s1\<lparr>pl_rewards := r\<rparr>"
    and g1: "gauges_checkpoint_user (cc_gauges x) e u b p (pl_gauges s1) w = Inr w1" by blast
  note sy = ss_sync_InrD [OF sync]
  have c3: "caches_only s2 s3" and c4: "caches_only s3 s4" and c5: "caches_only s4 s5"
    using d0 fs d1 by (auto dest: caching)
  have c25: "caches_only s2 s5" using c3 c4 c5 caches_only_trans by blast
  have ts1: "ss_tokens s1 = Some ts" using params_tokens [OF conjunct1 [OF sy]] ts0 by simp
  have coins': "coins = ts" using coins caches_onlyD(1) [OF c3] ts1 by (simp add: s2)
  have fs': "fs = fees_of s1" using get_protocol_fees_value [OF fs] caches_onlyD(3) [OF c3] by (simp add: s2)
  note tl = take_coin_loop [OF tk]
  have b: "caches_only s5 s6 \<and> length bal = length news \<and> length f2 = length fs \<and>
      (0 < get_total_shares (pl_shares s2) \<longrightarrow> ?n \<le> length fs) \<and>
      (\<forall>k < ?n. bal ! k + f2 ! k = news ! k + fs ! k)"
  proof (cases "0 < get_total_shares (pl_shares s2)")
    case True
    with body obtain c where
      cl: "for_upto ?n (charge_imbalance x s5 ?n (\<lambda>old. andthen (proportion d1 old d0) to_u128) rs)
        (news, news, fs) = Inr (bal, c, f2)" and d2: "pool_d_if x w2 True c amp s5 = Inr (d2, s6)"
      by (auto simp: charge_deposit_def res_simps)
    have "length bal = length news \<and> length f2 = length fs \<and> ?n \<le> length news \<and> ?n \<le> length fs \<and>
        (\<forall>k < ?n. bal ! k + f2 ! k = news ! k + fs ! k)"
      by (rule charge_loop [OF cl]) (erule charge_imbalance_step)
    then show ?thesis using pool_d_if_caches [OF d2] by simp
  next
    case False
    with body show ?thesis by (simp add: charge_deposit_def)
  qed
  have mtl: "mt \<le> U128_MAX" using mt(1) by (auto simp: shares_for_deposit_def res_simps split: if_splits)
  have c26: "caches_only s2 s6" using c25 b caches_only_trans by blast
  from mint_shares_InrD [OF mint] obtain sht where
    sht: "share_mint_call (cc_shares x) sht u (as_i128 mt) w2 = Inr w3"
    and tot: "get_total_shares sh = get_total_shares (pl_shares s6) + as_u128 (as_i128 mt)" by blast
  have mt': "as_u128 (as_i128 mt) = mt" using mtl by (simp add: as_u128_def as_i128_def U128_MAX_def I128_MAX_def)
  from finish_liquidity_InrD [OF fin] obtain r' b' p' w4 pl xs ys where
    c7: "caches_only (s6\<lparr>ss_reserves := Some bal, ss_protocol_fees := Some f2, pl_shares := sh, pl_rewards := r'\<rparr>) s'"
    and g2: "gauges_checkpoint_user (cc_gauges x) e u b' p' (pl_gauges s6) w3 = Inr w4"
    and pl: "cc_plane_update x pl (current_contract e) ''stable'' xs ys w4 = Inr w'" by auto
  have par: "params_of s' = params_of s1" using params_cached [OF c7] params_cached [OF c26] by (simp add: s2)
  have res: "ss_reserves s' = Some bal" "fees_of s' = f2" "pl_shares s' = sh" using caches_onlyD [OF c7] by simp_all
  have gg: "pl_gauges s6 = pl_gauges s1" "pl_shares s6 = pl_shares s1" using caches_onlyD [OF c26] by (simp_all add: s2)
  have rs1: "ss_reserves s1 = Some rs" using rs by (simp add: s2)
  show ?thesis
    by (intro exI conjI)
      (rule au sync ts1 len rs1 g1 tk [unfolded coins' s2 len, simplified] refl g2 [unfolded gg] pl par res(1) |
       use out mt(2) mtl sht tot mt' gg b tl res fs' s2 len in simp)+
qed

section \<open>Swaps\<close>

lemma book_trade_InrD:
  assumes "book_trade x e u coins olds i j dx pf dy (s, w) = Inr (s', w')"
  shows "\<exists>rs w1 pl xs ys. ss_reserves s = Some rs \<and> i < length rs \<and> j < length rs \<and> i < length (fees_of s) \<and>
    pf \<le> olds ! i + dx \<and> dy \<le> olds ! j \<and> j < length coins \<and> pay x e (coins ! j) u dy w = Inr w1 \<and>
    cc_plane_update x pl (current_contract e) ''stable'' xs ys w1 = Inr w' \<and> params_of s' = params_of s \<and>
    pl_shares s' = pl_shares s \<and> ss_reserves s' = Some (rs[i := olds ! i + dx - pf, j := olds ! j - dy]) \<and>
    fees_of s' = (fees_of s)[i := fees_of s ! i + pf]"
proof -
  from assms obtain rs fs s1 w1 where rs: "ss_reserves s = Some rs" "i < length rs" "j < length rs"
    "pf \<le> olds ! i + dx" "dy \<le> olds ! j" "j < length coins"
    and fs: "get_protocol_fees (s\<lparr>ss_reserves := Some (rs[i := olds ! i + dx - pf, j := olds ! j - dy])\<rparr>) = Inr (fs, s1)"
    and i: "i < length fs" and py: "pay x e (coins ! j) u dy w = Inr w1"
    and pl: "ss_update_plane x e (s1\<lparr>ss_protocol_fees := Some (fs[i := fs ! i + pf])\<rparr>, w1) = Inr (s', w')"
    by (auto simp: book_trade_def Let_def res_simps)
  note c = get_protocol_fees_caches [OF fs] and d = update_plane_caches(1) [OF pl]
  have "fs = fees_of s" using get_protocol_fees_value [OF fs] by simp
  then show ?thesis
    using rs i py update_plane_caches(2) [OF pl] caches_onlyD [OF c] caches_onlyD [OF d] params_cached [OF c] params_cached [OF d]
    by (intro exI [of _ rs] exI [of _ w1]) simp
qed

lemma get_y_indices_eq_Inr [res_simps]: "get_y_indices n i j = Inr v \<longleftrightarrow> i \<noteq> j \<and> i < n \<and> j < n"
  by (auto simp: get_y_indices_def)

lemma pool_y_InrD:
  assumes "pool_y x e s i j v xp = Inr y"
  shows "\<exists>ts. ss_tokens s = Some ts \<and> i \<noteq> j \<and> i < length ts \<and> j < length ts"
  using assms by (auto simp: pool_y_def n_coins_eq_Inr get_y_def res_simps)

text \<open>
  What both swaps do to the books: \<open>dx\<close> comes in, \<open>dy\<close> goes out, \<open>pf\<close> of the input is set aside.
\<close>

definition ss_traded ::
  "'w host_calls \<Rightarrow> env \<Rightarrow> address \<Rightarrow> nat \<Rightarrow> nat \<Rightarrow> nat \<Rightarrow> nat \<Rightarrow> nat \<Rightarrow> ss_pool \<Rightarrow> ss_pool \<Rightarrow> 'w \<Rightarrow> 'w \<Rightarrow> bool" where
  "ss_traded x e u i j dx dy pf s s' w w' \<longleftrightarrow>
     (\<exists>ts rs w1 pl xs ys. ss_tokens s = Some ts \<and> ss_reserves s = Some rs \<and> i \<noteq> j \<and> i < length ts \<and> j < length ts \<and>
        i < length rs \<and> j < length rs \<and> i < length (fees_of s) \<and> pf \<le> rs ! i + dx \<and> dy \<le> rs ! j \<and>
        pay x e (ts ! j) u dy w = Inr w1 \<and> cc_plane_update x pl (current_contract e) ''stable'' xs ys w1 = Inr w' \<and>
        params_of s' = params_of s \<and> pl_shares s' = pl_shares s \<and>
        ss_reserves s' = Some (rs[i := rs ! i + dx - pf, j := rs ! j - dy]) \<and>
        fees_of s' = (fees_of s)[i := fees_of s ! i + pf])"

lemma ss_tradedI:
  assumes bt: "book_trade x e u coins olds i j dx pf dy (s2, w) = Inr (s', w')"
    and y: "pool_y x e s2 a b v xp = Inr y" "(a, b) = (i, j) \<or> (a, b) = (j, i)"
    and c: "caches_only s1 s2" "ss_tokens s2 = Some coins" "ss_reserves s1 = Some olds"
  shows "ss_traded x e u i j dx dy pf s1 s' w w'"
proof -
  note eq = caches_onlyD [OF c(1)]
  from book_trade_InrD [OF bt] obtain rs w1 pl xs ys where rs: "ss_reserves s2 = Some rs" "i < length rs" "j < length rs"
    and rest: "i < length (fees_of s2)" "pf \<le> olds ! i + dx" "dy \<le> olds ! j" "pay x e (coins ! j) u dy w = Inr w1"
      "cc_plane_update x pl (current_contract e) ''stable'' xs ys w1 = Inr w'" "params_of s' = params_of s2"
      "pl_shares s' = pl_shares s2" "ss_reserves s' = Some (rs[i := olds ! i + dx - pf, j := olds ! j - dy])"
      "fees_of s' = (fees_of s2)[i := fees_of s2 ! i + pf]" by blast
  have "rs = olds" using rs(1) c(3) eq(2) by simp
  moreover from pool_y_InrD [OF y(1)] y(2) c(2) have "i \<noteq> j \<and> i < length coins \<and> j < length coins" by auto
  ultimately show ?thesis
    using rs rest c(2,3) eq(1-4) params_cached [OF c(1)] unfolding ss_traded_def
    by (intro exI [of _ coins] exI [of _ olds] exI [of _ w1] exI [of _ pl] exI [of _ xs] exI [of _ ys]) simp
qed

lemma ss_swap_InrD:
  assumes run: "ss_swap x e u i j dx m (s, w) = Inr (dy, s', w')"
  shows "\<exists>s1 ts w1 pf. authorized e u \<and> ss_sync_reserves x e s w = Inr s1 \<and> ss_tokens s1 = Some ts \<and> i < length ts \<and>
    collect x e (ts ! i) u dx w = Inr w1 \<and> m \<le> dy \<and> ss_traded x e u i j dx dy pf s1 s' w1 w'"
proof -
  from run obtain s1 mu s2 olds xp s3 coins w1 fee df pf y where
    au: "authorized e u" and sync: "ss_sync_reserves x e s w = Inr s1" and mu: "get_precision_mul x w s1 = Inr (mu, s2)"
    and olds: "ss_reserves s2 = Some olds" and sc: "scaled x w olds s2 = Inr (xp, s3)" and coins: "ss_tokens s3 = Some coins"
    and i: "i < length coins" and co: "collect x e (coins ! i) u dx w = Inr w1"
    and y: "quote_dy x e s3 mu xp i j dx df = Inr y" and m: "m \<le> dy"
    and bt: "book_trade x e u coins olds i j dx pf dy (s3, w1) = Inr (s', w')"
    by (auto simp: ss_swap_def Let_def res_simps not_less)
  have c: "caches_only s1 s2" "caches_only s2 s3" using mu sc by (auto dest: caching)
  from y obtain v where y': "pool_y x e s3 i j v xp = Inr y" by (auto simp: quote_dy_def res_simps)
  have c13: "caches_only s1 s3" using c caches_only_trans by blast
  have olds1: "ss_reserves s1 = Some olds" using olds caches_onlyD(2) [OF c(1)] by simp
  have "ss_traded x e u i j dx dy pf s1 s' w1 w'"
    by (rule ss_tradedI [OF bt y' _ c13 coins olds1]) simp
  moreover have "ss_tokens s1 = Some coins" using coins caches_onlyD(1) [OF c13] by simp
  ultimately show ?thesis using au sync i co m by blast
qed

lemma ss_swap_strict_InrD:
  assumes run: "ss_swap_strict_receive x e u i j dy m (s, w) = Inr (dx, s', w')"
  shows "\<exists>s1 ts w1 w2 pf. authorized e u \<and> ss_sync_reserves x e s w = Inr s1 \<and> ss_tokens s1 = Some ts \<and> i < length ts \<and>
    collect x e (ts ! i) u m w = Inr w1 \<and> dx \<le> m \<and> refund x e (ts ! i) u m dx w1 = Inr w2 \<and>
    ss_traded x e u i j dx dy pf s1 s' w2 w'"
proof -
  from run obtain s1 mu s2 olds xp s3 coins w1 xo mo v pf w2 where
    au: "authorized e u" and sync: "ss_sync_reserves x e s w = Inr s1" and mu: "get_precision_mul x w s1 = Inr (mu, s2)"
    and olds: "ss_reserves s2 = Some olds" and sc: "scaled x w olds s2 = Inr (xp, s3)" and coins: "ss_tokens s3 = Some coins"
    and i: "i < length coins" and co: "collect x e (coins ! i) u m w = Inr w1"
    and y: "pool_y x e s3 j i xo xp = Inr v" and m: "dx \<le> m" and rf: "refund x e (coins ! i) u m dx w1 = Inr w2"
    and bt: "book_trade x e u coins olds i j dx pf dy (s3, w2) = Inr (s', w')"
    by (auto simp: ss_swap_strict_receive_def Let_def res_simps not_less)
  have c: "caches_only s1 s2" "caches_only s2 s3" using mu sc by (auto dest: caching)
  have c13: "caches_only s1 s3" using c caches_only_trans by blast
  have olds1: "ss_reserves s1 = Some olds" using olds caches_onlyD(2) [OF c(1)] by simp
  have "ss_traded x e u i j dx dy pf s1 s' w2 w'"
    by (rule ss_tradedI [OF bt y _ c13 coins olds1]) simp
  moreover have "ss_tokens s1 = Some coins" using coins caches_onlyD(1) [OF c13] by simp
  ultimately show ?thesis using au sync i co m rf by blast
qed

section \<open>Withdrawals\<close>

text \<open>
  The common shape: coins are paid out (by a world transition), shares are burnt and perhaps some
  minted back, and the rest is bookkeeping on the pool.
\<close>

lemma ss_withdraw_InrD:
  assumes run: "ss_withdraw x e u n ms (s, w) = Inr (as, s', w')"
  shows "\<exists>s1 ts rs b p w1 rs' w2 sht w3 b' p' w4 pl xs ys.
    authorized e u \<and> ss_sync_reserves x e s w = Inr s1 \<and> ss_tokens s1 = Some ts \<and> ss_reserves s1 = Some rs \<and>
    gauges_checkpoint_user (cc_gauges x) e u b p (pl_gauges s1) w = Inr w1 \<and>
    for_upto (length ts) (give_share x e u ts n (get_total_shares (pl_shares s1)) ms) (rs, [], w1) = Inr (rs', as, w2) \<and>
    share_burn_call (cc_shares x) sht u (as_i128 n) w2 = Inr w3 \<and>
    gauges_checkpoint_user (cc_gauges x) e u b' p' (pl_gauges s1) w3 = Inr w4 \<and>
    cc_plane_update x pl (current_contract e) ''stable'' xs ys w4 = Inr w' \<and>
    params_of s' = params_of s1 \<and> ss_reserves s' = Some rs' \<and> fees_of s' = fees_of s1 \<and>
    n \<le> get_total_shares (pl_shares s1) \<and>
    get_total_shares (pl_shares s') = get_total_shares (pl_shares s1) - n"
proof -
  let ?n = "length ms"
  from run obtain s1 tot us s2 w1 rs coins rs' w2 sh w3 where
    au: "authorized e u" and sync: "ss_sync_reserves x e s w = Inr s1" and n: "n_coins s = Inr ?n"
    and su: "settle_user x e u (s1, w) = Inr (tot, us, s2, w1)"
    and rs: "ss_reserves s2 = Some rs" and coins: "ss_tokens s2 = Some coins"
    and lo: "for_upto ?n (give_share x e u coins n (get_total_shares (pl_shares s2)) ms) (rs, [], w1) = Inr (rs', as, w2)"
    and bs: "burn_shares (cc_shares x) u n (pl_shares s2, w2) = Inr (sh, w3)"
    and fin: "finish_liquidity x e u (u_sub us n) (u_sub tot n)
      (s2\<lparr>ss_reserves := Some rs', pl_shares := sh\<rparr>, w3) = Inr (s', w')"
    by (auto simp: ss_withdraw_def Let_def res_simps not_less)
  from n obtain ts where ts0: "ss_tokens s = Some ts" and len: "?n = length ts" by (auto simp: n_coins_eq_Inr)
  from settled [OF su] obtain r b p where s2: "s2 = s1\<lparr>pl_rewards := r\<rparr>"
    and g1: "gauges_checkpoint_user (cc_gauges x) e u b p (pl_gauges s1) w = Inr w1" by blast
  have ts1: "ss_tokens s1 = Some ts" using params_tokens [OF conjunct1 [OF ss_sync_InrD [OF sync]]] ts0 by simp
  have ct: "coins = ts" using coins ts1 by (simp add: s2)
  from burn_shares_InrD [OF bs] obtain sht where "n \<le> get_total_shares (pl_shares s1)"
    "get_total_shares sh = get_total_shares (pl_shares s1) - n"
    "share_burn_call (cc_shares x) sht u (as_i128 n) w2 = Inr w3" by (auto simp: s2)
  note br = this
  from finish_liquidity_InrD [OF fin] obtain r' b' p' w4 pl xs ys where
    c: "caches_only (s2\<lparr>ss_reserves := Some rs', pl_shares := sh, pl_rewards := r'\<rparr>) s'"
    and g2: "gauges_checkpoint_user (cc_gauges x) e u b' p' (pl_gauges s1) w3 = Inr w4"
    and pl: "cc_plane_update x pl (current_contract e) ''stable'' xs ys w4 = Inr w'" by (auto simp: s2)
  have par: "params_of s' = params_of s1" using params_cached [OF c] by (simp add: s2)
  have res: "ss_reserves s' = Some rs'" "fees_of s' = fees_of s1" "pl_shares s' = sh"
    using caches_onlyD [OF c] by (simp_all add: s2)
  have rs1: "ss_reserves s1 = Some rs" using rs by (simp add: s2)
  show ?thesis
    by (intro exI conjI)
      (rule au sync ts1 rs1 g1 lo [unfolded ct s2 len, simplified] br(3) g2 pl par res(1) | use res br in simp)+
qed

lemma ss_remove_imbalance_InrD:
  assumes run: "ss_remove_liquidity_imbalance x e u as m (s, w) = Inr (n, s', w')"
  shows "\<exists>s1 ts rs b p w1 rs' sht w2 sht' w3 w4 b' p' w5 pl xs ys.
    authorized e u \<and> ss_sync_reserves x e s w = Inr s1 \<and> ss_tokens s1 = Some ts \<and> ss_reserves s1 = Some rs \<and>
    length as = length ts \<and> gauges_checkpoint_user (cc_gauges x) e u b p (pl_gauges s1) w = Inr w1 \<and>
    share_burn_call (cc_shares x) sht u (as_i128 m) w1 = Inr w2 \<and>
    (w3 = w2 \<or> share_mint_call (cc_shares x) sht' u (as_i128 (m - n)) w2 = Inr w3) \<and>
    for_upto (length ts) (pay_coin x e u ts as) w3 = Inr w4 \<and>
    gauges_checkpoint_user (cc_gauges x) e u b' p' (pl_gauges s1) w4 = Inr w5 \<and>
    cc_plane_update x pl (current_contract e) ''stable'' xs ys w5 = Inr w' \<and>
    params_of s' = params_of s1 \<and> ss_reserves s' = Some rs' \<and> 0 < n \<and> n \<le> m \<and>
    length rs' = length rs \<and> length (fees_of s') = length (fees_of s1) \<and> length ts \<le> length rs \<and>
    length ts \<le> length (fees_of s1) \<and>
    (\<forall>k < length ts. as ! k \<le> rs ! k \<and> rs' ! k + fees_of s' ! k = rs ! k - as ! k + fees_of s1 ! k)"
proof -
  let ?n = "length as"
  from run obtain s1 tot us s2 w1 amp rs fs s3 d0 s4 news d1 s5 rs' co f2 d2 s6 q sh w2 sh' w3 coins w4 where
    au: "authorized e u" and sync: "ss_sync_reserves x e s w = Inr s1" and nc: "n_coins s = Inr ?n"
    and su: "settle_user x e u (s1, w) = Inr (tot, us, s2, w1)"
    and rs: "ss_reserves s2 = Some rs" and fs: "get_protocol_fees s2 = Inr (fs, s3)"
    and d0: "pool_d_if x w1 True rs amp s3 = Inr (d0, s4)"
    and lo: "for_upto ?n (\<lambda>i balances.
        andthen (item balances i) (\<lambda>b.
        andthen (item as i) (\<lambda>a.
        andthen (u_sub b a) (\<lambda>left.
        andthen (put_item i left balances) (not_zero i))))) rs = Inr news"
    and d1: "pool_d_if x w1 True news amp s4 = Inr (d1, s5)"
    and ch: "for_upto ?n (\<lambda>i st.
        andthen (charge_imbalance x s5 ?n (\<lambda>old. andthen (mul_floor_256 (cc_fp x) d1 old d0) to_u128) rs i st)
          (\<lambda>(reserves, counted, fees).
        andthen (not_zero i counted) (\<lambda>counted. Inr (reserves, counted, fees)))) (rs, news, fs) = Inr (rs', co, f2)"
    and d2: "pool_d_if x w1 True co amp (s5\<lparr>ss_reserves := Some rs', ss_protocol_fees := Some f2\<rparr>) = Inr (d2, s6)"
    and q: "0 < q" "n = q + 1" "n \<le> m"
    and bs: "burn_shares (cc_shares x) u m (pl_shares s6, w1) = Inr (sh, w2)"
    and mi: "(if n < m then mint_shares (cc_shares x) u (as_i128 (m - n)) (sh, w2) else Inr (sh, w2)) = Inr (sh', w3)"
    and coins: "ss_tokens s6 = Some coins" and pc: "for_upto ?n (pay_coin x e u coins as) w3 = Inr w4"
    and fin: "finish_liquidity x e u (u_sub us n) (u_sub tot n) (s6\<lparr>pl_shares := sh'\<rparr>, w4) = Inr (s', w')"
    by (auto simp: ss_remove_liquidity_imbalance_def Let_def res_simps not_less split del: if_split)
  from nc obtain ts where ts0: "ss_tokens s = Some ts" and len: "?n = length ts" by (auto simp: n_coins_eq_Inr)
  from settled [OF su] obtain r b p where s2: "s2 = s1\<lparr>pl_rewards := r\<rparr>"
    and g1: "gauges_checkpoint_user (cc_gauges x) e u b p (pl_gauges s1) w = Inr w1" by blast
  have ts1: "ss_tokens s1 = Some ts" using params_tokens [OF conjunct1 [OF ss_sync_InrD [OF sync]]] ts0 by simp
  have rs1: "ss_reserves s1 = Some rs" using rs by (simp add: s2)
  have c25: "caches_only s2 s5" using fs d0 d1 caches_only_trans by (blast dest: caching)
  note c6 = pool_d_if_caches [OF d2]
  note e5 = caches_onlyD [OF c25] and e6 = caches_onlyD [OF c6]
  have ct: "coins = ts" using coins e5 e6 ts1 by (simp add: s2)
  have fs': "fs = fees_of s1" using get_protocol_fees_value [OF fs] by (simp add: s2)
  note rl = remove_loop [OF lo]
  have cl: "length rs' = length rs \<and> length f2 = length fs \<and> ?n \<le> length rs \<and> ?n \<le> length fs \<and>
      (\<forall>k < ?n. rs' ! k + f2 ! k = news ! k + fs ! k)"
    by (rule charge_loop [OF ch])
      (auto simp: res_simps not_zero_def split: if_splits dest!: charge_imbalance_step)
  from burn_shares_InrD [OF bs] obtain sht where sht: "share_burn_call (cc_shares x) sht u (as_i128 m) w1 = Inr w2" by blast
  have mint: "\<exists>sht'. w3 = w2 \<or> share_mint_call (cc_shares x) sht' u (as_i128 (m - n)) w2 = Inr w3"
  proof (cases "n < m")
    case True
    then show ?thesis using mi mint_shares_InrD by (metis (full_types))
  qed (use mi in simp)
  from finish_liquidity_InrD [OF fin] obtain r' b' p' w5 pl xs ys where
    c7: "caches_only (s6\<lparr>pl_shares := sh', pl_rewards := r'\<rparr>) s'"
    and g2: "gauges_checkpoint_user (cc_gauges x) e u b' p' (pl_gauges s6) w4 = Inr w5"
    and pl: "cc_plane_update x pl (current_contract e) ''stable'' xs ys w5 = Inr w'" by auto
  have par: "params_of s' = params_of s1"
    using params_cached [OF c7] params_cached [OF c6] params_cached [OF c25] by (simp add: s2)
  have res: "ss_reserves s' = Some rs'" "fees_of s' = f2" using caches_onlyD [OF c7] e6 by simp_all
  have gg: "pl_gauges s6 = pl_gauges s1" using e5 e6 by (simp add: s2)
  have sum: "\<forall>k < length ts. as ! k \<le> rs ! k \<and> rs' ! k + f2 ! k = rs ! k - as ! k + fees_of s1 ! k"
    using rl cl by (simp add: len fs')
  have lens: "length rs' = length rs" "length f2 = length (fees_of s1)" "length ts \<le> length rs" "length ts \<le> length (fees_of s1)"
    using cl by (simp_all add: len fs')
  from mint obtain sht' where mt: "w3 = w2 \<or> share_mint_call (cc_shares x) sht' u (as_i128 (m - n)) w2 = Inr w3" by blast
  show ?thesis
    by (intro exI conjI)
      (rule au sync ts1 rs1 g1 len sht mt pc [unfolded ct len] g2 [unfolded gg] pl par res(1) lens(1,3,4) q(3) |
       use res lens sum q in simp)+
qed

lemma calc_one_coin_caches:
  assumes "calc_one_coin x e n i (s, w) = Inr (v, s')"
  shows "caches_only s s'"
proof -
  from assms obtain rs xp s1 mu where "scaled x w rs s = Inr (xp, s1)" and "get_precision_mul x w s1 = Inr (mu, s')"
    by (auto simp: calc_one_coin_def Let_def res_simps)
  then show ?thesis using caches_only_trans by (blast dest: caching)
qed

lemma ss_withdraw_one_InrD:
  assumes run: "ss_withdraw_one_coin x e u n i m (s, w) = Inr (as, s', w')"
  shows "\<exists>s1 ts rs b p w1 dy pf sht w2 w3 b' p' w4 pl xs ys.
    authorized e u \<and> ss_sync_reserves x e s w = Inr s1 \<and> ss_tokens s1 = Some ts \<and> ss_reserves s1 = Some rs \<and>
    gauges_checkpoint_user (cc_gauges x) e u b p (pl_gauges s1) w = Inr w1 \<and>
    share_burn_call (cc_shares x) sht u (as_i128 n) w1 = Inr w2 \<and> pay x e (ts ! i) u dy w2 = Inr w3 \<and>
    gauges_checkpoint_user (cc_gauges x) e u b' p' (pl_gauges s1) w3 = Inr w4 \<and>
    cc_plane_update x pl (current_contract e) ''stable'' xs ys w4 = Inr w' \<and>
    params_of s' = params_of s1 \<and> i < length ts \<and> i < length rs \<and> i < length (fees_of s1) \<and> dy + pf \<le> rs ! i \<and> m \<le> dy \<and>
    ss_reserves s' = Some (rs[i := rs ! i - dy - pf]) \<and> fees_of s' = (fees_of s1)[i := fees_of s1 ! i + pf] \<and>
    as = map (\<lambda>j. if j = i then dy else 0) [0..<length ts]"
proof -
  from run obtain s1 tot us s2 w1 dy df s3 pf rs fs s4 sh w2 coins w3 where
    au: "authorized e u" and sync: "ss_sync_reserves x e s w = Inr s1"
    and su: "settle_user x e u (s1, w) = Inr (tot, us, s2, w1)"
    and cc: "calc_one_coin x e n i (s2, w1) = Inr ((dy, df), s3)" and m: "m \<le> dy"
    and rs: "ss_reserves s3 = Some rs" and i: "i < length rs" "dy \<le> rs ! i" "pf \<le> rs ! i - dy"
    and fs: "get_protocol_fees (s3\<lparr>ss_reserves := Some (rs[i := rs ! i - dy - pf])\<rparr>) = Inr (fs, s4)" and fi: "i < length fs"
    and bs: "burn_shares (cc_shares x) u n (pl_shares s4, w1) = Inr (sh, w2)"
    and coins: "ss_tokens s4 = Some coins" and ci: "i < length coins" and py: "pay x e (coins ! i) u dy w2 = Inr w3"
    and fin: "finish_liquidity x e u (u_sub us n) (u_sub tot n)
      (s4\<lparr>ss_protocol_fees := Some (fs[i := fs ! i + pf]), pl_shares := sh\<rparr>, w3) = Inr (s', w')"
    and as: "as = map (\<lambda>j. if j = i then dy else 0) [0..<length coins]"
    by (auto simp: ss_withdraw_one_coin_def Let_def res_simps not_less)
  from settled [OF su] obtain r b p where s2: "s2 = s1\<lparr>pl_rewards := r\<rparr>"
    and g1: "gauges_checkpoint_user (cc_gauges x) e u b p (pl_gauges s1) w = Inr w1" by blast
  note c3 = calc_one_coin_caches [OF cc] and c4 = get_protocol_fees_caches [OF fs]
  note e3 = caches_onlyD [OF c3] and e4 = caches_onlyD [OF c4]
  have fs': "fs = fees_of s1" using get_protocol_fees_value [OF fs] e3 by (simp add: s2)
  have ts1: "ss_tokens s1 = Some coins" using coins e3 e4 by (simp add: s2)
  have rs1: "ss_reserves s1 = Some rs" using rs e3 by (simp add: s2)
  from burn_shares_InrD [OF bs] obtain sht where sht: "share_burn_call (cc_shares x) sht u (as_i128 n) w1 = Inr w2" by blast
  from finish_liquidity_InrD [OF fin] obtain r' b' p' w4 pl xs ys where
    c: "caches_only (s4\<lparr>ss_protocol_fees := Some (fs[i := fs ! i + pf]), pl_shares := sh, pl_rewards := r'\<rparr>) s'"
    and g2: "gauges_checkpoint_user (cc_gauges x) e u b' p' (pl_gauges s4) w3 = Inr w4"
    and pl: "cc_plane_update x pl (current_contract e) ''stable'' xs ys w4 = Inr w'" by auto
  have par: "params_of s' = params_of s1"
    using params_cached [OF c] params_cached [OF c4] params_cached [OF c3] by (simp add: s2)
  have res: "ss_reserves s' = Some (rs[i := rs ! i - dy - pf])" "fees_of s' = (fees_of s1)[i := fees_of s1 ! i + pf]"
    using caches_onlyD [OF c] e4 fs' by simp_all
  have gg: "pl_gauges s4 = pl_gauges s1" using e3 e4 by (simp add: s2)
  have le: "dy + pf \<le> rs ! i" using i by simp
  show ?thesis
    by (intro exI conjI)
      (rule au sync ts1 rs1 g1 sht py g2 [unfolded gg] pl par ci i(1) fi [unfolded fs'] le m res as)+
qed

section \<open>Everything else\<close>

lemma reward_balance_to_keep_same: "reward_balance_to_keep x e (s, w) = Inr (n, s') \<Longrightarrow> same_books s s'"
  by (auto simp: reward_balance_to_keep_def dest: with_rewards_same)

lemma ss_unused_reward_InrD:
  assumes "ss_get_unused_reward x e (s, w) = Inr (n, s')"
  shows "\<exists>s1 k. reward_balance_to_keep x e (s, w) = Inr (k, s1) \<and> (s' = s1 \<or> ss_sync_reserves x e s1 w = Inr s')"
proof -
  from assms obtain k s1 t ts k' where keep: "reward_balance_to_keep x e (s, w) = Inr (k, s1)"
    and r: "keep_pool_reserve x e t ts k (s1, w) = Inr (k', s')"
    by (auto simp: ss_get_unused_reward_def Let_def res_simps)
  from r have "s' = s1 \<or> ss_sync_reserves x e s1 w = Inr s'"
    by (auto simp: keep_pool_reserve_def ss_get_reserves_def res_simps split: option.splits)
  with keep show ?thesis by blast
qed

end
