(* ===== verification/SS_Params.thy ===== *)
theory SS_Params
  imports SS_Runs Delayed_Action
begin

text \<open>
  The amplification and the fee of the stable pool over its histories: only the ramp moves the
  amplification, within its bounds and without jumps, and the fee changes only three days after it
  was announced.
\<close>

section \<open>Who changes the parameters\<close>

lemma same_books_params: "same_books s s' \<Longrightarrow> params_of s' = params_of s"
  by (cases s; cases s') (simp add: same_books_def params_of_def)

lemma update_plane_params: "ss_update_plane x e (s, w) = Inr (s', w') \<Longrightarrow> params_of s' = params_of s"
  by (rule params_cached) (rule update_plane_caches(1))

lemma sync_params: "ss_sync_reserves x e s w = Inr s' \<Longrightarrow> params_of s' = params_of s"
  using conjunct1 [OF ss_sync_InrD] .

lemma quiet_trade:
  assumes "ss_trade_exec x e s w a = Inr (s', w')"
    and "a \<in> {SsEstimateDeposit as, SsEstimateSwap i j n, SsEstimateSwapStrict i j n, SsCalcWithdrawOne n i,
      SsCalcTokenAmount as b, SsVirtualPrice, SsGetReserves}"
  shows "w' = w \<and> (\<exists>s1. ss_sync_reserves x e s w = Inr s1 \<and> caches_only s1 s')"
proof -
  have dy: "get_dy x e i j n (s1, w) = Inr (v, s') \<Longrightarrow> caches_only s1 s'" for s1 v
    by (auto simp: get_dy_def Let_def res_simps split: if_splits intro: caches_only_trans dest!: caching)
  have dx: "get_dx x e i j n (s1, w) = Inr (v, s') \<Longrightarrow> caches_only s1 s'" for s1 v
    by (auto simp: get_dx_def Let_def res_simps split: if_splits intro: caches_only_trans dest!: caching)
  show ?thesis
    using assms(2,1)
  proof (elim insertE emptyE)
    assume "a = SsEstimateDeposit as"
    with assms(1) obtain v where "ss_estimate_deposit x e as (s, w) = Inr (v, s')" "w' = w" by (auto simp: res_simps)
    then show ?thesis
      by (auto simp: ss_estimate_deposit_def Let_def res_simps split: if_splits intro: caches_only_trans dest!: caching)
  next
    assume "a = SsEstimateSwap i j n"
    with assms(1) show ?thesis by (auto simp: ss_estimate_swap_def res_simps dest: dy)
  next
    assume "a = SsEstimateSwapStrict i j n"
    with assms(1) show ?thesis by (auto simp: ss_estimate_swap_strict_receive_def res_simps dest: dx)
  next
    assume "a = SsCalcWithdrawOne n i"
    with assms(1) show ?thesis by (auto simp: ss_calc_withdraw_one_coin_def res_simps dest: calc_one_coin_caches)
  next
    assume "a = SsCalcTokenAmount as b"
    with assms(1) show ?thesis
      by (auto simp: ss_calc_token_amount_def Let_def res_simps split: if_splits intro: caches_only_trans dest!: caching)
  next
    assume "a = SsVirtualPrice"
    with assms(1) show ?thesis
      by (auto simp: ss_get_virtual_price_def Let_def res_simps intro: caches_only_trans dest!: caching)
  next
    assume "a = SsGetReserves"
    with assms(1) show ?thesis by (auto simp: ss_get_reserves_def res_simps)
  qed
qed

lemma trade_params:
  assumes "ss_trade_exec x e s w a = Inr (s', w')"
  shows "params_of s' = params_of s"
proof (cases a)
  case (SsDeposit u as m)
  with assms obtain v where "ss_deposit x e u as m (s, w) = Inr (v, s', w')" by (auto simp: res_simps)
  from ss_deposit_InrD [OF this] sync_params show ?thesis by metis
next
  case (SsSwap u i j n m)
  with assms obtain v where "ss_swap x e u i j n m (s, w) = Inr (v, s', w')" by (auto simp: res_simps)
  from ss_swap_InrD [OF this] sync_params show ?thesis unfolding ss_traded_def by metis
next
  case (SsSwapStrict u i j n m)
  with assms obtain v where "ss_swap_strict_receive x e u i j n m (s, w) = Inr (v, s', w')" by (auto simp: res_simps)
  from ss_swap_strict_InrD [OF this] sync_params show ?thesis unfolding ss_traded_def by metis
next
  case (SsWithdraw u n ms)
  with assms obtain v where "ss_withdraw x e u n ms (s, w) = Inr (v, s', w')" by (auto simp: res_simps)
  from ss_withdraw_InrD [OF this] sync_params show ?thesis by metis
next
  case (SsRemoveImbalance u as m)
  with assms obtain v where "ss_remove_liquidity_imbalance x e u as m (s, w) = Inr (v, s', w')" by (auto simp: res_simps)
  from ss_remove_imbalance_InrD [OF this] sync_params show ?thesis by metis
next
  case (SsWithdrawOne u n i m)
  with assms obtain v where "ss_withdraw_one_coin x e u n i m (s, w) = Inr (v, s', w')" by (auto simp: res_simps)
  from ss_withdraw_one_InrD [OF this] sync_params show ?thesis by metis
qed (use quiet_trade [OF assms] sync_params params_cached in fastforce)+

definition moves_params :: "ss_op \<Rightarrow> bool" where
  "moves_params a \<longleftrightarrow> (case a of
      SsOwn (SsRampA _ _ _) \<Rightarrow> True | SsOwn (SsStopRampA _) \<Rightarrow> True | SsOwn (SsCommitFee _ _) \<Rightarrow> True
    | SsOwn (SsApplyFee _) \<Rightarrow> True | SsOwn (SsRevertFee _) \<Rightarrow> True | _ \<Rightarrow> False)"

lemma ss_claim_params:
  assumes "ss_claim x e u (s, w) = Inr (v, s', w')"
  shows "params_of s' = params_of s"
proof -
  from assms obtain us s1 w1 r w2 f s2 where
    a: "gauge_checkpoint x e u us (get_total_shares (pl_shares s)) (new_manager s, w) = Inr (s1, w1)"
    and f: "get_protocol_fees (s1\<lparr>pl_rewards := r\<rparr>) = Inr (f, s2)"
    and b: "gauge_checkpoint x e u us (get_total_shares (pl_shares s)) (new_manager s2, w2) = Inr (s', w')"
    unfolding ss_claim_def Let_def by (auto simp: res_simps split: if_splits)
  show ?thesis
    using same_books_params [OF gauge_checkpoint_same [OF a]] params_cached [OF get_protocol_fees_caches [OF f]]
      same_books_params [OF gauge_checkpoint_same [OF b]] by (simp add: new_manager_def)
qed

lemma own_params:
  assumes "ss_own_exec x e s w a = Inr (s', w')" and "\<not> moves_params (SsOwn a)"
  shows "params_of s' = params_of s"
proof (cases a)
  case (SsClaim u)
  with assms(1) show ?thesis by (auto simp: res_simps dest: ss_claim_params)
next
  case (SsClaimProtocolFees b d)
  with assms(1) show ?thesis
    by (auto simp: res_simps ss_claim_protocol_fees_def Let_def dest!: get_protocol_fees_caches params_cached)
next
  case SsUnusedReward
  with assms(1) obtain n where "ss_get_unused_reward x e (s, w) = Inr (n, s')" by (auto simp: res_simps)
  from ss_unused_reward_InrD [OF this] reward_balance_to_keep_same same_books_params sync_params show ?thesis by metis
next
  case (SsReturnUnused b)
  with assms(1) obtain n where "ss_get_unused_reward x e (s, w) = Inr (n, s')"
    by (auto simp: res_simps ss_return_unused_reward_def Let_def split: if_splits)
  from ss_unused_reward_InrD [OF this] reward_balance_to_keep_same same_books_params sync_params show ?thesis by metis
next
  case SsProtocolFees
  with assms(1) show ?thesis by (auto simp: res_simps dest!: get_protocol_fees_caches params_cached)
next
  case SsDecimals
  with assms(1) show ?thesis by (auto simp: res_simps dest!: get_decimals_caches params_cached)
next
  case SsBackfillPlane
  with assms(1) show ?thesis by (auto dest: update_plane_params)
qed (use assms in \<open>auto simp: moves_params_def res_simps ss_set_protocol_fee_fraction_def ss_init_pools_plane_def
  ss_initialize_rewards_config_def ss_initialize_boost_config_def split: if_splits\<close>)

lemma exec_params:
  assumes "ss_exec x e s w a = Inr (s', w')" and "\<not> moves_params a"
  shows "params_of s' = params_of s"
  using assms by (cases a) (auto dest: trade_params own_params shared_same [THEN same_books_params])

section \<open>Histories\<close>

text \<open>
  A history of the pool: calls at their ledger times, and in between the rest of the world doing
  whatever it does.
\<close>

datatype 'w ss_event = SsCall env ss_op | SsWorld 'w

fun ss_step :: "'w host_calls \<Rightarrow> nat \<Rightarrow> 'w ss_event \<Rightarrow> ss_pool \<times> 'w \<Rightarrow> (ss_pool \<times> 'w) res" where
  "ss_step x now (SsCall e a) sw = ss_exec x (e\<lparr>ledger_timestamp := now\<rparr>) (fst sw) (snd sw) a"
| "ss_step x now (SsWorld w) sw = Inr (fst sw, w)"

section \<open>The ramp\<close>

definition ramp_ok :: "nat \<Rightarrow> ss_pool \<Rightarrow> bool" where
  "ramp_ok now s \<longleftrightarrow> (\<exists>a0 t0 a1 t1. ss_initial_a s = Some a0 \<and> ss_initial_a_time s = Some t0 \<and>
     ss_future_a s = Some a1 \<and> ss_future_a_time s = Some t1 \<and>
     0 < a0 \<and> a0 < MAX_A \<and> 0 < a1 \<and> a1 < MAX_A \<and> t0 \<le> now)"

definition ramp_of :: "ss_pool \<Rightarrow> (nat option \<times> nat option) \<times> (nat option \<times> nat option)" where
  "ramp_of s = ((ss_initial_a s, ss_initial_a_time s), (ss_future_a s, ss_future_a_time s))"

definition lock_of :: "ss_pool \<Rightarrow> nat option \<times> nat option \<times> nat option" where
  "lock_of s = (ss_fee s, ss_future_fee s, ss_deadline s)"

lemma params_parts: "params_of s' = params_of s \<longleftrightarrow>
    ss_tokens s' = ss_tokens s \<and> ramp_of s' = ramp_of s \<and> lock_of s' = lock_of s"
  by (auto simp: params_of_def ramp_of_def lock_of_def)

lemma ramp_ok_cong: "ramp_of s' = ramp_of s \<Longrightarrow> ramp_ok now s' = ramp_ok now s"
  by (simp add: ramp_ok_def ramp_of_def)

lemma ramp_ok_mono: "ramp_ok now s \<Longrightarrow> now \<le> later \<Longrightarrow> ramp_ok later s"
  unfolding ramp_ok_def by (meson order_trans)

lemma ramp_share: "0 < span \<Longrightarrow> elapsed \<le> span \<Longrightarrow> rise * elapsed div span \<le> (rise :: nat)"
  by (metis div_le_mono mult_le_mono2 nonzero_mult_div_cancel_right neq0_conv)

lemma ramp_value_ok:
  assumes "fixed_point_lib fp" and "t0 \<le> now" and "now < t1" and "a0 \<le> U128_MAX" and "a1 \<le> U128_MAX"
  shows "ramp_value fp a0 t0 a1 t1 now = Inr
    (if a0 < a1 then a0 + (a1 - a0) * (now - t0) div (t1 - t0) else a0 - (a0 - a1) * (now - t0) div (t1 - t0))"
proof -
  have r: "(a1 - a0) * (now - t0) div (t1 - t0) \<le> a1 - a0" "(a0 - a1) * (now - t0) div (t1 - t0) \<le> a0 - a1"
    using assms(2,3) by (intro ramp_share; simp)+
  have "(a0 - a1) * (now - t0) div (t1 - t0) \<le> a0" using r(2) by linarith
  then show ?thesis
    using assms(2-5) r by (auto simp: ramp_value_def fixed_point_lib.mul_floor_eq [OF assms(1)] u_defs)
qed

lemma amp_of_ok:
  assumes "fixed_point_lib fp" and "ramp_ok (ledger_timestamp e) s"
  shows "\<exists>a. amp_of fp e s = Inr a \<and> 0 < a \<and> a < MAX_A"
proof -
  from assms(2) obtain a0 t0 a1 t1 where f: "ss_initial_a s = Some a0" "ss_initial_a_time s = Some t0"
    "ss_future_a s = Some a1" "ss_future_a_time s = Some t1"
    and b: "0 < a0" "a0 < MAX_A" "0 < a1" "a1 < MAX_A" "t0 \<le> ledger_timestamp e" unfolding ramp_ok_def by blast
  show ?thesis
  proof (cases "ledger_timestamp e < t1")
    case True
    let ?n = "ledger_timestamp e"
    have r: "(a1 - a0) * (?n - t0) div (t1 - t0) \<le> a1 - a0" "(a0 - a1) * (?n - t0) div (t1 - t0) \<le> a0 - a1"
      using b(5) True by (intro ramp_share; simp)+
    have "a0 \<le> U128_MAX" "a1 \<le> U128_MAX" using b by (simp_all add: MAX_A_def U128_MAX_def)
    from ramp_value_ok [OF assms(1) b(5) True this] f True b r show ?thesis
      by (auto simp: amp_of_def stored_def)
  next
    case False
    then show ?thesis using f b by (simp add: amp_of_def stored_def)
  qed
qed

lemma ss_ramp_a_InrD:
  assumes "ss_ramp_a x e a fa ft (s, w) = Inr (s', w')"
  shows "\<exists>c. amp_of (cc_fp x) e s = Inr c \<and> 0 < fa \<and> fa < MAX_A \<and> ledger_timestamp e + MIN_RAMP_TIME \<le> ft \<and>
    (if c \<le> fa then fa \<le> c * MAX_A_CHANGE else c \<le> fa * MAX_A_CHANGE) \<and>
    ramp_of s' = ((Some c, Some (ledger_timestamp e)), (Some fa, Some ft)) \<and> lock_of s' = lock_of s"
proof -
  from assms obtain c where c: "amp_of (cc_fp x) e s = Inr c" "0 < fa" "fa < MAX_A" "ledger_timestamp e + MIN_RAMP_TIME \<le> ft"
    "if c \<le> fa then fa \<le> c * MAX_A_CHANGE else c \<le> fa * MAX_A_CHANGE"
    and pl: "ss_update_plane x e (s\<lparr>ss_initial_a := Some c, ss_future_a := Some fa,
      ss_initial_a_time := Some (ledger_timestamp e), ss_future_a_time := Some ft\<rparr>, w) = Inr (s', w')"
    by (auto simp: ss_ramp_a_def Let_def res_simps not_less split: if_splits)
  from update_plane_params [OF pl] c show ?thesis by (auto simp: params_parts ramp_of_def lock_of_def)
qed

lemma ss_stop_ramp_a_InrD:
  assumes "ss_stop_ramp_a x e a (s, w) = Inr (s', w')"
  shows "\<exists>c. amp_of (cc_fp x) e s = Inr c \<and>
    ramp_of s' = ((Some c, Some (ledger_timestamp e)), (Some c, Some (ledger_timestamp e))) \<and> lock_of s' = lock_of s"
proof -
  from assms obtain c where c: "amp_of (cc_fp x) e s = Inr c"
    and pl: "ss_update_plane x e (s\<lparr>ss_initial_a := Some c, ss_future_a := Some c,
      ss_initial_a_time := Some (ledger_timestamp e), ss_future_a_time := Some (ledger_timestamp e)\<rparr>, w) = Inr (s', w')"
    by (auto simp: ss_stop_ramp_a_def Let_def res_simps)
  from update_plane_params [OF pl] c show ?thesis by (auto simp: params_parts ramp_of_def lock_of_def)
qed

lemma fee_ops_InrD:
  "ss_commit_new_fee e a f s = Inr s' \<Longrightarrow> ramp_of s' = ramp_of s \<and> f < FEE_DENOMINATOR \<and> ss_deadline s = Some 0 \<and>
    lock_of s' = (ss_fee s, Some f, Some (ledger_timestamp e + ADMIN_ACTIONS_DELAY))"
  "ss_revert_new_parameters e a s = Inr s' \<Longrightarrow> ramp_of s' = ramp_of s \<and> lock_of s' = (ss_fee s, ss_future_fee s, Some 0)"
  by (auto simp: ss_commit_new_fee_def ss_revert_new_parameters_def res_simps ramp_of_def lock_of_def FEE_DENOMINATOR_def)

lemma ss_apply_new_fee_InrD:
  assumes "ss_apply_new_fee x e a (s, w) = Inr (s', w')"
  shows "\<exists>d. ss_deadline s = Some d \<and> d \<noteq> 0 \<and> d \<le> ledger_timestamp e \<and> ramp_of s' = ramp_of s \<and>
    lock_of s' = (ss_future_fee s, ss_future_fee s, Some 0)"
proof -
  from assms obtain d f where d: "ss_deadline s = Some d" "d \<noteq> 0" "d \<le> ledger_timestamp e" "ss_future_fee s = Some f"
    and pl: "ss_update_plane x e (s\<lparr>ss_deadline := Some 0, ss_fee := Some f\<rparr>, w) = Inr (s', w')"
    by (auto simp: ss_apply_new_fee_def Let_def res_simps not_less)
  from update_plane_params [OF pl] d show ?thesis by (auto simp: params_parts ramp_of_def lock_of_def)
qed

lemma exec_ramp:
  assumes "fixed_point_lib (cc_fp x)" and "ss_exec x e s w a = Inr (s', w')" and "ramp_ok (ledger_timestamp e) s"
  shows "ramp_ok (ledger_timestamp e) s'"
proof (cases "\<exists>d fa ft. a = SsOwn (SsRampA d fa ft) \<or> a = SsOwn (SsStopRampA d)")
  case True
  from amp_of_ok [OF assms(1,3)] obtain c where c: "amp_of (cc_fp x) e s = Inr c" "0 < c" "c < MAX_A" by blast
  from True assms(2) have "(\<exists>d fa ft. ss_ramp_a x e d fa ft (s, w) = Inr (s', w')) \<or>
      (\<exists>d. ss_stop_ramp_a x e d (s, w) = Inr (s', w'))" by auto
  then show ?thesis
  proof
    assume "\<exists>d fa ft. ss_ramp_a x e d fa ft (s, w) = Inr (s', w')"
    then obtain d fa ft where "ss_ramp_a x e d fa ft (s, w) = Inr (s', w')" by blast
    from ss_ramp_a_InrD [OF this] c show ?thesis by (auto simp: ramp_ok_def ramp_of_def)
  next
    assume "\<exists>d. ss_stop_ramp_a x e d (s, w) = Inr (s', w')"
    then obtain d where "ss_stop_ramp_a x e d (s, w) = Inr (s', w')" by blast
    from ss_stop_ramp_a_InrD [OF this] c show ?thesis by (auto simp: ramp_ok_def ramp_of_def)
  qed
next
  case False
  have "ramp_of s' = ramp_of s"
  proof (cases "moves_params a")
    case True
    with False obtain d f where "a = SsOwn (SsCommitFee d f) \<or> a = SsOwn (SsApplyFee d) \<or> a = SsOwn (SsRevertFee d)"
      by (auto simp: moves_params_def split: ss_op.splits ss_own_op.splits)
    then show ?thesis
      using assms(2) fee_ops_InrD ss_apply_new_fee_InrD by (elim disjE) (fastforce simp: res_simps)+
  next
    case False
    then show ?thesis using exec_params [OF assms(2)] params_parts by blast
  qed
  then show ?thesis using assms(3) ramp_ok_cong by blast
qed

lemma history_ramp:
  assumes "history (ss_step x) p h q" and "fixed_point_lib (cc_fp x)" and "ramp_ok t (fst p)"
    and "sorted (t # map fst (rev h) @ [now])"
  shows "ramp_ok now (fst q)"
  using assms(1,4)
proof (induction arbitrary: now rule: history.induct)
  case history_start
  then show ?case using ramp_ok_mono [OF assms(3)] by simp
next
  case (history_step h s n a s')
  from history_step.prems have o: "sorted (t # map fst (rev h) @ [n])" and n: "n \<le> now"
    by (auto simp: sorted_append)
  have ok: "ramp_ok n (fst s)" by (rule history_step.IH [OF o])
  have "ramp_ok n (fst s')"
  proof (cases a)
    case (SsCall e b)
    then have "ss_exec x (e\<lparr>ledger_timestamp := n\<rparr>) (fst s) (snd s) b = Inr (fst s', snd s')"
      using history_step.hyps(2) by simp
    from exec_ramp [OF assms(2) this] ok show ?thesis by simp
  next
    case (SsWorld w)
    then show ?thesis using history_step.hyps(2) ok by auto
  qed
  then show ?case using n by (rule ramp_ok_mono)
qed

text \<open>
  Claim C25: over every history of the pool with times that do not go back, whatever calls
  succeed and whatever the world does, the amplification is defined at every later time and stays
  between 0 and \<open>MAX_A\<close> (exclusive).
\<close>

theorem amplification_stays_bounded:
  assumes "fixed_point_lib (cc_fp x)" and "ramp_ok t s0" and "history (ss_step x) (s0, w0) h (s, w)"
    and "sorted (t # map fst (rev h) @ [now])"
  shows "\<exists>a. amp_of (cc_fp x) (e\<lparr>ledger_timestamp := now\<rparr>) s = Inr a \<and> 0 < a \<and> a < MAX_A"
proof -
  have "ramp_ok now s" using history_ramp [OF assms(3,1) _ assms(4)] assms(2) by simp
  then have "ramp_ok (ledger_timestamp (e\<lparr>ledger_timestamp := now\<rparr>)) s" by simp
  from amp_of_ok [OF assms(1) this] show ?thesis .
qed

text \<open>
  Starting or stopping a ramp does not move the amplification at that moment; a ramp
  takes at least a day and changes it by a factor of at most ten.
\<close>

theorem ramp_is_smooth:
  assumes "fixed_point_lib (cc_fp x)" and "ss_ramp_a x e admin future_a future_time (s, w) = Inr (s', w')"
    and "ramp_ok (ledger_timestamp e) s"
  shows "amp_of (cc_fp x) e s' = amp_of (cc_fp x) e s \<and>
    amp_of (cc_fp x) (e\<lparr>ledger_timestamp := future_time\<rparr>) s' = Inr future_a \<and>
    ledger_timestamp e + 86400 \<le> future_time \<and>
    (\<exists>a. amp_of (cc_fp x) e s = Inr a \<and> future_a \<le> 10 * a \<and> a \<le> 10 * future_a)"
proof -
  let ?n = "ledger_timestamp e"
  from ss_ramp_a_InrD [OF assms(2)] obtain c where c: "amp_of (cc_fp x) e s = Inr c" and fa: "0 < future_a" "future_a < MAX_A"
    and t: "?n + MIN_RAMP_TIME \<le> future_time"
    and f: "if c \<le> future_a then future_a \<le> c * MAX_A_CHANGE else c \<le> future_a * MAX_A_CHANGE"
    and r: "ramp_of s' = ((Some c, Some ?n), (Some future_a, Some future_time))" by blast
  from amp_of_ok [OF assms(1,3)] c have cb: "c < MAX_A" by simp
  have less: "?n < future_time" using t by (simp add: MIN_RAMP_TIME_def)
  have "c \<le> U128_MAX" "future_a \<le> U128_MAX" using cb fa by (simp_all add: MAX_A_def U128_MAX_def)
  from ramp_value_ok [OF assms(1) order_refl less this] have "amp_of (cc_fp x) e s' = Inr c"
    using r less by (simp add: amp_of_def ramp_of_def stored_def)
  moreover have "amp_of (cc_fp x) (e\<lparr>ledger_timestamp := future_time\<rparr>) s' = Inr future_a"
    using r by (simp add: amp_of_def ramp_of_def stored_def)
  ultimately show ?thesis
    using c t f by (auto simp: MIN_RAMP_TIME_def MAX_A_CHANGE_def split: if_splits)
qed

section \<open>The fee's lock\<close>

definition fee_kind :: "'w ss_event \<Rightarrow> nat daction option" where
  "fee_kind a = (case a of
      SsCall _ (SsOwn (SsCommitFee _ f)) \<Rightarrow> Some (DCommit f)
    | SsCall _ (SsOwn (SsApplyFee _)) \<Rightarrow> Some DApply
    | SsCall _ (SsOwn (SsRevertFee _)) \<Rightarrow> Some DRevert
    | _ \<Rightarrow> None)"

definition fee_deadline :: "ss_pool \<Rightarrow> nat" where
  "fee_deadline s = (case ss_deadline s of None \<Rightarrow> 0 | Some d \<Rightarrow> d)"

lemma fee_kind_cases:
  "fee_kind a = Some (DCommit v) \<longleftrightarrow> (\<exists>e d. a = SsCall e (SsOwn (SsCommitFee d v)))"
  "fee_kind a = Some DApply \<longleftrightarrow> (\<exists>e d. a = SsCall e (SsOwn (SsApplyFee d)))"
  "fee_kind a = Some DRevert \<longleftrightarrow> (\<exists>e d. a = SsCall e (SsOwn (SsRevertFee d)))"
  by (auto simp: fee_kind_def split: ss_event.splits ss_op.splits ss_own_op.splits)

lemma other_events_keep_lock:
  assumes "ss_step x now a (s, w) = Inr (s', w')" and "fee_kind a = None"
  shows "lock_of s' = lock_of s"
proof (cases a)
  case (SsCall e b)
  with assms(1) have run: "ss_exec x (e\<lparr>ledger_timestamp := now\<rparr>) s w b = Inr (s', w')" by simp
  show ?thesis
  proof (cases "moves_params b")
    case True
    with assms(2) SsCall have "(\<exists>d fa ft. b = SsOwn (SsRampA d fa ft)) \<or> (\<exists>d. b = SsOwn (SsStopRampA d))"
      by (auto simp: moves_params_def fee_kind_def split: ss_op.splits ss_own_op.splits)
    then show ?thesis using run by (auto dest!: ss_ramp_a_InrD ss_stop_ramp_a_InrD)
  next
    case False
    then show ?thesis using exec_params [OF run] params_parts by blast
  qed
qed (use assms(1) in simp)

interpretation stable_fee: delayed_action "ss_step x" fee_kind "\<lambda>q. fee_deadline (fst q)"
  "\<lambda>q. ss_future_fee (fst q)" "\<lambda>q. ss_fee (fst q)" "\<lambda>_. True" ADMIN_ACTIONS_DELAY for x
proof unfold_locales
  fix now a q q' v
  assume step: "ss_step x now a q = Inr q'"
  show "fee_kind a = Some (DCommit v) \<Longrightarrow> fee_deadline (fst q) = 0 \<and>
      fee_deadline (fst q') = now + ADMIN_ACTIONS_DELAY \<and> ss_future_fee (fst q') = Some v \<and>
      ss_fee (fst q') = ss_fee (fst q)"
    using step by (cases q; cases q') (auto simp: fee_kind_cases fee_deadline_def res_simps lock_of_def dest!: fee_ops_InrD(1))
  show "fee_kind a = Some DApply \<Longrightarrow> fee_deadline (fst q) \<noteq> 0 \<and> (True \<longrightarrow> fee_deadline (fst q) \<le> now) \<and>
      fee_deadline (fst q') = 0 \<and> ss_fee (fst q') = ss_future_fee (fst q)"
    using step by (cases q; cases q')
      (auto simp: fee_kind_cases fee_deadline_def lock_of_def dest!: ss_apply_new_fee_InrD)
  show "fee_kind a = Some DRevert \<Longrightarrow> fee_deadline (fst q') = 0 \<and> ss_fee (fst q') = ss_fee (fst q)"
    using step by (cases q; cases q') (auto simp: fee_kind_cases fee_deadline_def res_simps lock_of_def dest!: fee_ops_InrD(2))
  show "fee_kind a = None \<Longrightarrow> fee_deadline (fst q') = fee_deadline (fst q) \<and>
      ss_future_fee (fst q') = ss_future_fee (fst q) \<and> (ss_fee (fst q) \<noteq> None \<longrightarrow> ss_fee (fst q') = ss_fee (fst q))"
    using other_events_keep_lock [of x now a "fst q" "snd q" "fst q'" "snd q'"] step
    by (simp add: fee_deadline_def lock_of_def)
qed

text \<open>
  Claim C26: over every history of the pool since its initialization, its fee changes only by
  applying the value whose announcement is the last operation on the lock, at least three days
  after it.
\<close>

theorem stable_fee_is_delayed:
  assumes "history (ss_step x) (s0, w0) h (s, w)" and "ss_deadline s0 = Some 0"
    and "ss_step x now a (s, w) = Inr (s', w')" and "ss_fee s = Some fee" and "ss_fee s' \<noteq> Some fee"
  shows "\<exists>t f. committed_at fee_kind h t f \<and> t + 259200 \<le> now \<and> ss_fee s' = Some f"
  using stable_fee.change_after_delay [OF assms(1) _ assms(3)] assms(2,4,5)
  by (simp add: fee_deadline_def ADMIN_ACTIONS_DELAY_def)

end
