(* ===== verification/SS_Solvency.thy ===== *)
theory SS_Solvency
  imports SS_Params
begin

text \<open>
  The stable pool can always pay: for each of its tokens, whatever their number, its balance covers
  the reserve and the protocol's fees, over every run of its entry points. The proofs are in the
  locale \<open>pool_host\<close>, as for the constant-product pool.
\<close>

section \<open>Covered books\<close>

definition ss_covered :: "'w tokens \<Rightarrow> address \<Rightarrow> ss_pool \<Rightarrow> 'w \<Rightarrow> bool" where
  "ss_covered tk me s w \<longleftrightarrow>
     (\<exists>ts rs. ss_tokens s = Some ts \<and> ss_reserves s = Some rs \<and> distinct ts \<and> length rs = length ts \<and>
        length (fees_of s) = length ts \<and> (\<forall>i < length ts. int (rs ! i + fees_of s ! i) \<le> tk_balance tk (ts ! i) me w))"

fun u128_trade :: "ss_trade_op \<Rightarrow> bool" where
  "u128_trade (SsDeposit u as m) \<longleftrightarrow> (\<forall>a \<in> set as. a \<le> U128_MAX)"
| "u128_trade (SsSwap u i j dx m) \<longleftrightarrow> dx \<le> U128_MAX"
| "u128_trade (SsSwapStrict u i j dy m) \<longleftrightarrow> m \<le> U128_MAX"
| "u128_trade _ \<longleftrightarrow> True"

definition ss_no_fee_in_reward_token :: "ss_pool \<Rightarrow> bool" where
  "ss_no_fee_in_reward_token s \<longleftrightarrow>
     (case (ss_tokens s, rw_token (pl_rewards s)) of
        (Some ts, Some t) \<Rightarrow> \<forall>i < length ts. ts ! i = t \<longrightarrow> fees_of s ! i = 0
      | _ \<Rightarrow> True)"

definition ss_fair_call :: "address \<Rightarrow> env \<Rightarrow> ss_op \<Rightarrow> ss_pool \<Rightarrow> bool" where
  \<comment> \<open>no authorization by the pool itself, 128-bit arguments, and no return of unused rewards while there is a protocol
    fee in the reward token\<close>
  "ss_fair_call me e op s \<longleftrightarrow> current_contract e = me \<and> \<not> authorized e me \<and>
     (case op of
        SsTrade a \<Rightarrow> u128_trade a
      | SsOwn (SsReturnUnused _) \<Rightarrow> ss_no_fee_in_reward_token s
      | _ \<Rightarrow> True)"

definition ledger_of :: "ss_pool \<Rightarrow> address list option \<times> nat list option \<times> nat list" where
  "ledger_of s = (ss_tokens s, ss_reserves s, fees_of s)"

lemma ss_covered_mono:
  assumes "ss_covered tk me s w" and "ledger_of s' = ledger_of s" and "no_less tk me w w'"
  shows "ss_covered tk me s' w'"
proof -
  from assms(1) obtain ts rs where c: "ss_tokens s = Some ts" "ss_reserves s = Some rs" "distinct ts" "length rs = length ts"
    "length (fees_of s) = length ts" and b: "\<forall>i < length ts. int (rs ! i + fees_of s ! i) \<le> tk_balance tk (ts ! i) me w"
    unfolding ss_covered_def by blast
  have "\<forall>i < length ts. int (rs ! i + fees_of s ! i) \<le> tk_balance tk (ts ! i) me w'"
    using b assms(3) unfolding no_less_def by (meson order_trans)
  with c assms(2) show ?thesis unfolding ss_covered_def ledger_of_def by auto
qed

lemma caches_ledger: "caches_only s s' \<Longrightarrow> ledger_of s' = ledger_of s"
  using caches_onlyD by (simp add: ledger_of_def)

lemma same_books_ledger: "same_books s s' \<Longrightarrow> ledger_of s' = ledger_of s"
  by (cases s; cases s') (simp add: same_books_def ledger_of_def fees_of_def)

lemma params_ledgerD: "params_of s' = params_of s \<Longrightarrow> ss_tokens s' = ss_tokens s"
  by (rule params_tokens)

lemma ss_claim_InrD:
  assumes "ss_claim x e u (s, w) = Inr (v, s', w')"
  shows "\<exists>us tot g p w1 r c s1 w2 ts rs h q token. ledger_of s' = ledger_of s \<and>
    gauges_checkpoint_user (cc_gauges x) e u g p (pl_gauges s) w = Inr w1 \<and>
    claim_reward c (cc_tokens x) u tot us (r, w1) = Inr (v, s1, w2) \<and> rc_env c = e \<and>
    get_reward_token s1 = Inr token \<and> ss_tokens s = Some ts \<and> ss_reserves s = Some rs \<and>
    for_upto (length rs) (\<lambda>i _. coin_covered x e ts token rs (fees_of s) w2 i) () = Inr () \<and>
    gauges_checkpoint_user (cc_gauges x) e u h q (pl_gauges s) w2 = Inr w'"
proof -
  from assms obtain us s1 w1 r w2 ts token rs s2 s3 fs where
    a: "gauge_checkpoint x e u us (get_total_shares (pl_shares s)) (new_manager s, w) = Inr (s1, w1)" and
    cl: "claim_reward (pool_reward_context x e w1) (cc_tokens x) u (get_total_shares (pl_shares s)) us
      (pl_rewards s1, w1) = Inr (v, r, w2)" and
    s2: "s2 = s1\<lparr>pl_rewards := r\<rparr>" and tok: "ss_tokens s1 = Some ts" and rt: "get_reward_token r = Inr token" and
    res: "ss_reserves s1 = Some rs" and fees: "get_protocol_fees s2 = Inr (fs, s3)" and
    co: "for_upto (length rs) (\<lambda>i _. coin_covered x e ts token rs fs w2 i) () = Inr ()" and
    b: "gauge_checkpoint x e u us (get_total_shares (pl_shares s)) (new_manager s3, w2) = Inr (s', w')"
    unfolding ss_claim_def Let_def by (auto simp: res_simps split: if_splits)
  from gauge_checkpoint_InrD [OF a] obtain r1 b1 p1 where s1: "s1 = (new_manager s)\<lparr>pl_rewards := r1\<rparr>"
    and g1: "gauges_checkpoint_user (cc_gauges x) e u b1 p1 (pl_gauges s) w = Inr w1"
    by (auto simp: new_manager_def)
  note c = caches_onlyD [OF get_protocol_fees_caches [OF fees]]
  from gauge_checkpoint_InrD [OF b] obtain r3 b3 p3 where s': "s' = (new_manager s3)\<lparr>pl_rewards := r3\<rparr>"
    and g2: "gauges_checkpoint_user (cc_gauges x) e u b3 p3 (pl_gauges s3) w2 = Inr w'"
    by (auto simp: new_manager_def)
  have f: "fees_of s2 = fees_of s" by (simp add: s2 s1 new_manager_def fees_of_def)
  have "ledger_of s' = ledger_of s"
    using c f by (simp add: s' s2 s1 new_manager_def ledger_of_def fees_of_def)
  moreover have fs: "fs = fees_of s" using get_protocol_fees_value [OF fees] f by simp
  moreover have gs: "pl_gauges s3 = pl_gauges s" using c by (simp add: s2 s1 new_manager_def)
  moreover have "ss_tokens s = Some ts" "ss_reserves s = Some rs" using tok res by (simp_all add: s1 new_manager_def)
  moreover have "rc_env (pool_reward_context x e w1) = e" by (simp add: pool_reward_context_def)
  ultimately show ?thesis using g1 cl rt co [unfolded fs] g2 [unfolded gs] by blast
qed

lemma sync_rewards: "ss_sync_reserves x e s w = Inr s' \<Longrightarrow> pl_rewards s' = pl_rewards s"
  using conjunct1 [OF conjunct2 [OF conjunct2 [OF conjunct2 [OF ss_sync_InrD]]]] .

context pool_host
begin

abbreviation backed :: "ss_pool \<Rightarrow> 'w \<Rightarrow> bool" where
  "backed s w \<equiv> ss_covered (cc_tokens x) me s w"

lemma backedI:
  "ss_tokens s = Some ts \<Longrightarrow> ss_reserves s = Some rs \<Longrightarrow> distinct ts \<Longrightarrow> length rs = length ts \<Longrightarrow>
   length (fees_of s) = length ts \<Longrightarrow> (\<And>i. i < length ts \<Longrightarrow> int (rs ! i + fees_of s ! i) \<le> bal (ts ! i) w) \<Longrightarrow> backed s w"
  by (auto simp: ss_covered_def)

lemma backedE:
  assumes "backed s w" and "ss_tokens s = Some ts" and "ss_reserves s = Some rs"
  shows "distinct ts" "length rs = length ts" "length (fees_of s) = length ts"
    "i < length ts \<Longrightarrow> int (rs ! i + fees_of s ! i) \<le> bal (ts ! i) w"
  using assms by (auto simp: ss_covered_def)

lemma sync_backed:
  assumes "ss_sync_reserves x e s w = Inr s'" and "current_contract e = me" and "backed s w"
  shows "backed s' w"
proof -
  note sy = ss_sync_InrD [OF assms(1)]
  from assms(3) obtain ts rs where c: "ss_tokens s = Some ts" "ss_reserves s = Some rs" unfolding ss_covered_def by blast
  note b = backedE [OF assms(3) c]
  have ts': "ss_tokens s' = Some ts" using params_tokens [OF conjunct1 [OF sy]] c(1) by simp
  have fs': "fees_of s' = fees_of s" using sy by blast
  from sy consider "ss_reserves s' = Some rs"
    | rs' where "ss_reserves s' = Some rs'" "length rs' = length rs"
      "\<forall>i < length rs. rs' ! i \<noteq> rs ! i \<longrightarrow> rs' ! i + fees_of s ! i = as_u128 (tk_balance (cc_tokens x) (ts ! i) me w)"
    unfolding assms(2) using c by auto
  then show ?thesis
  proof cases
    case 1
    then show ?thesis using ss_covered_mono [OF assms(3)] ts' fs' c by (simp add: ledger_of_def)
  next
    case (2 rs')
    show ?thesis
    proof (rule backedI [OF ts' 2(1) b(1)])
      fix i
      assume i: "i < length ts"
      have pos: "0 \<le> bal (ts ! i) w" using b(4) [OF i] by linarith
      have "int (rs' ! i + fees_of s ! i) \<le> bal (ts ! i) w"
      proof (cases "rs' ! i = rs ! i")
        case True
        then show ?thesis using b(4) [OF i] by simp
      next
        case False
        then have "rs' ! i + fees_of s ! i = as_u128 (bal (ts ! i) w)" using 2(3) i b(2) by simp
        then show ?thesis using as_u128_le [OF pos] by simp
      qed
      then show "int (rs' ! i + fees_of s' ! i) \<le> bal (ts ! i) w" by (simp add: fs')
    qed (use 2(2) b fs' in simp_all)
  qed
qed

section \<open>Payments in a loop\<close>

lemma take_coins:
  assumes run: "for_upto (length ts) (take_coin x e u ts supply as old) (old, w) = Inr (news, w')"
    and ts: "distinct ts" and me: "current_contract e = me" "u \<noteq> me" and k: "k < length ts"
    and as: "\<forall>k < length ts. as ! k \<le> U128_MAX"
  shows "bal (ts ! k) w' = bal (ts ! k) w + int (as ! k)"
proof -
  define P where "P i st \<longleftrightarrow> (\<forall>k < length ts. bal (ts ! k) (snd st) = bal (ts ! k) w + (if k < i then int (as ! k) else 0))"
    for i and st :: "nat list \<times> 'w"
  have "P (length ts) (news, w')"
  proof (rule upto_rule [OF run, of P])
    fix i st st'
    assume i: "i < length ts" and inv: "P i st" and step: "take_coin x e u ts supply as old i st = Inr st'"
    from step have "(if 0 < as ! i then collect x e (ts ! i) u (as ! i) (snd st) else Inr (snd st)) = Inr (snd st')"
      by (cases st) (auto simp: take_coin_def res_simps)
    then have "bal (ts ! k) (snd st') = bal (ts ! k) (snd st) + (if k = i then int (as ! i) else 0)" if "k < length ts" for k
      using collect_adds [OF _ me, of "ts ! i" "as ! i" "snd st" "snd st'"] as i that ts
      by (cases "0 < as ! i") (auto simp: nth_eq_iff_index_eq)
    then show "P (Suc i) st'" using inv by (auto simp: P_def)
  qed (simp add: P_def)
  then show ?thesis using k by (simp add: P_def)
qed

lemma pay_distinct:
  assumes "pay x e (ts ! i) u n w1 = Inr w2" and "distinct ts" and "i < length ts" "k < length ts" and "current_contract e = me"
  shows "bal (ts ! k) w1 - (if k = i then int n else 0) \<le> bal (ts ! k) w2"
  using pay_takes [OF assms(1,5)] assms(2-4) by (auto simp: nth_eq_iff_index_eq)

text \<open>
  Paying out \<open>a k\<close> of every coin \<open>k\<close> before \<open>i\<close>: the invariant of the loops that pay, and its step.
\<close>

definition paid_out :: "address list \<Rightarrow> (nat \<Rightarrow> nat) \<Rightarrow> 'w \<Rightarrow> nat \<Rightarrow> 'w \<Rightarrow> bool" where
  "paid_out ts a w i w1 \<longleftrightarrow> (\<forall>k < length ts. bal (ts ! k) w - (if k < i then int (a k) else 0) \<le> bal (ts ! k) w1)"

lemma paid_out_start: "paid_out ts a w 0 w"
  by (simp add: paid_out_def)

lemma paid_out_step:
  assumes "paid_out ts a w i w1" and "w2 = w1 \<and> a i = 0 \<or> pay x e (ts ! i) u (a i) w1 = Inr w2"
    and "distinct ts" and "i < length ts" and "current_contract e = me"
  shows "paid_out ts a w (Suc i) w2"
  unfolding paid_out_def
proof (intro allI impI)
  fix k
  assume k: "k < length ts"
  have "bal (ts ! k) w1 - (if k = i then int (a i) else 0) \<le> bal (ts ! k) w2"
    using assms(2) pay_distinct [OF _ assms(3,4) k assms(5)] by auto
  moreover have "bal (ts ! k) w - (if k < i then int (a k) else 0) \<le> bal (ts ! k) w1"
    using assms(1) k by (simp add: paid_out_def)
  ultimately show "bal (ts ! k) w - (if k < Suc i then int (a k) else 0) \<le> bal (ts ! k) w2"
    by (cases "k = i"; cases "k < i") auto
qed

lemma paid_out_cong: "paid_out ts a w i w1 \<Longrightarrow> (\<And>k. k < i \<Longrightarrow> a k = b k) \<Longrightarrow> paid_out ts b w i w1"
  by (simp add: paid_out_def) (smt (verit))

lemma paid_out_all: "paid_out ts a w (length ts) w' \<Longrightarrow> k < length ts \<Longrightarrow> bal (ts ! k) w - int (a k) \<le> bal (ts ! k) w'"
  by (auto simp: paid_out_def)

lemma give_shares:
  assumes run: "for_upto (length ts) (give_share x e u ts n supply ms) (rs, [], w) = Inr (rs', as, w')"
    and ts: "distinct ts" and me: "current_contract e = me" and k: "k < length ts"
  shows "bal (ts ! k) w - int (as ! k) \<le> bal (ts ! k) w'"
proof -
  define P where "P i st \<longleftrightarrow> (case st of (rs, as, w1) \<Rightarrow> length as = i \<and> paid_out ts ((!) as) w i w1)"
    for i and st :: "nat list \<times> nat list \<times> 'w"
  have "P (length ts) (rs', as, w')"
  proof (rule upto_rule [OF run, of P])
    fix i st st'
    assume i: "i < length ts" and inv: "P i st" and step: "give_share x e u ts n supply ms i st = Inr st'"
    obtain r1 a1 w1 where st: "st = (r1, a1, w1)" by (cases st)
    from step obtain r2 v w2 where st': "st' = (r2, a1 @ [v], w2)" and py: "pay x e (ts ! i) u v w1 = Inr w2"
      by (auto simp: st give_share_def res_simps split: if_splits)
    from inv have l: "length a1 = i" and p: "paid_out ts ((!) a1) w i w1" by (simp_all add: st P_def)
    have "paid_out ts ((!) (a1 @ [v])) w i w1" using paid_out_cong [OF p] l by (simp add: nth_append)
    from paid_out_step [OF this disjI2 ts i me] py l show "P (Suc i) st'" by (simp add: st' P_def nth_append)
  qed (simp add: P_def paid_out_start)
  then show ?thesis using paid_out_all [OF _ k] by (simp add: P_def)
qed

lemma pay_coins:
  assumes run: "for_upto (length ts) (pay_coin x e u ts as) w = Inr w'"
    and ts: "distinct ts" and me: "current_contract e = me" and k: "k < length ts"
  shows "bal (ts ! k) w - int (as ! k) \<le> bal (ts ! k) w'"
proof -
  have "paid_out ts ((!) as) w (length ts) w'"
  proof (rule upto_rule [OF run, of "paid_out ts ((!) as) w"])
    fix i w1 w2
    assume i: "i < length ts" and inv: "paid_out ts ((!) as) w i w1" and "pay_coin x e u ts as i w1 = Inr w2"
    then have "w2 = w1 \<and> as ! i = 0 \<or> pay x e (ts ! i) u (as ! i) w1 = Inr w2"
      by (auto simp: pay_coin_def res_simps split: if_splits)
    from paid_out_step [OF inv this ts i me] show "paid_out ts ((!) as) w (Suc i) w2" .
  qed (rule paid_out_start)
  from paid_out_all [OF this k] show ?thesis .
qed

lemma pay_fees:
  assumes run: "for_upto (length ts) (pay_fee x e d ts fs) (fs, w) = Inr (f, w')"
    and ts: "distinct ts" and me: "current_contract e = me" and k: "k < length ts"
  shows "bal (ts ! k) w - int (fs ! k) \<le> bal (ts ! k) w'"
proof -
  have "paid_out ts ((!) fs) w (length ts) (snd (f, w'))"
  proof (rule upto_rule [OF run, of "\<lambda>i st. paid_out ts ((!) fs) w i (snd st)"])
    fix i st st'
    assume i: "i < length ts" and inv: "paid_out ts ((!) fs) w i (snd st)" and "pay_fee x e d ts fs i st = Inr st'"
    then have "snd st' = snd st \<and> fs ! i = 0 \<or> pay x e (ts ! i) d (fs ! i) (snd st) = Inr (snd st')"
      by (cases st) (auto simp: pay_fee_def res_simps split: if_splits)
    from paid_out_step [OF inv this ts i me] show "paid_out ts ((!) fs) w (Suc i) (snd st')" .
  qed (simp add: paid_out_start)
  then show ?thesis using paid_out_all [OF _ k] by simp
qed

section \<open>Trading\<close>

lemma no_lessD: "no_less (cc_tokens x) me w w' \<Longrightarrow> bal t w \<le> bal t w'"
  by (simp add: no_less_def)

lemma plane_keeps: "cc_plane_update x p (current_contract e) k xs ys w = Inr w' \<Longrightarrow> current_contract e = me \<Longrightarrow>
    bal t w \<le> bal t w'"
  using plane_takes_nothing no_lessD by metis

lemma gauge_keeps: "gauges_checkpoint_user (cc_gauges x) e u b n p w = Inr w' \<Longrightarrow> current_contract e = me \<Longrightarrow>
    bal t w \<le> bal t w'"
  using gauge_no_less no_lessD by metis

lemma deposit_backed:
  assumes run: "ss_deposit x e u as m (s, w) = Inr (v, s', w')" and me: "current_contract e = me" "\<not> authorized e me"
    and fd: "backed s w" and as: "\<forall>a \<in> set as. a \<le> U128_MAX"
  shows "backed s' w'"
proof -
  from ss_deposit_InrD [OF run] obtain s1 ts rs b p w1 news w2 sht w3 b' p' w4 pl xs ys rs' where
    au: "authorized e u" and sync: "ss_sync_reserves x e s w = Inr s1" and ts: "ss_tokens s1 = Some ts"
    and len: "length as = length ts" and rs: "ss_reserves s1 = Some rs"
    and g1: "gauges_checkpoint_user (cc_gauges x) e u b p (pl_gauges s1) w = Inr w1"
    and lo: "for_upto (length ts) (take_coin x e u ts (get_total_shares (pl_shares s1)) as rs) (rs, w1) = Inr (news, w2)"
    and mi: "share_mint_call (cc_shares x) sht u (as_i128 (snd v)) w2 = Inr w3"
    and g2: "gauges_checkpoint_user (cc_gauges x) e u b' p' (pl_gauges s1) w3 = Inr w4"
    and pl: "cc_plane_update x pl (current_contract e) ''stable'' xs ys w4 = Inr w'"
    and par: "params_of s' = params_of s1" and rs': "ss_reserves s' = Some rs'" "length rs' = length rs"
      "length (fees_of s') = length (fees_of s1)"
    and sum: "\<forall>k < length ts. rs' ! k + fees_of s' ! k = rs ! k + as ! k + fees_of s1 ! k" by blast
  have um: "u \<noteq> me" using au me(2) by auto
  note b = backedE [OF sync_backed [OF sync me(1) fd] ts rs]
  have ts': "ss_tokens s' = Some ts" using params_tokens [OF par] ts by simp
  show ?thesis
  proof (rule backedI [OF ts' rs'(1) b(1)])
    fix k
    assume k: "k < length ts"
    have "\<forall>k < length ts. as ! k \<le> U128_MAX" using as len by (metis nth_mem)
    from take_coins [OF lo b(1) me(1) um k this] have "bal (ts ! k) w2 = bal (ts ! k) w1 + int (as ! k)" .
    moreover have "bal (ts ! k) w \<le> bal (ts ! k) w1" by (rule gauge_keeps [OF g1 me(1)])
    moreover have "bal (ts ! k) w2 \<le> bal (ts ! k) w3" by (rule no_lessD [OF mint_takes_nothing [OF mi]])
    moreover have "bal (ts ! k) w3 \<le> bal (ts ! k) w4" by (rule gauge_keeps [OF g2 me(1)])
    moreover have "bal (ts ! k) w4 \<le> bal (ts ! k) w'" by (rule plane_keeps [OF pl me(1)])
    moreover have "int (rs' ! k + fees_of s' ! k) = int (rs ! k + fees_of s1 ! k) + int (as ! k)" using sum k by simp
    ultimately show "int (rs' ! k + fees_of s' ! k) \<le> bal (ts ! k) w'" using b(4) [OF k] by linarith
  qed (use rs' b in simp_all)
qed

lemma traded_backed:
  assumes tr: "ss_traded x e u i j dx dy pf s s' w w'" and me: "current_contract e = me"
    and ts: "ss_tokens s = Some ts" and rs: "ss_reserves s = Some rs" and d: "distinct ts"
    and l: "length rs = length ts" "length (fees_of s) = length ts"
    and held: "\<And>k. k < length ts \<Longrightarrow> int (rs ! k + fees_of s ! k) + (if k = i then int dx else 0) \<le> bal (ts ! k) w"
  shows "backed s' w'"
proof -
  from tr ts rs obtain w1 pl xs ys where ij: "i \<noteq> j" "i < length ts" "j < length ts" and pf: "pf \<le> rs ! i + dx" "dy \<le> rs ! j"
    and py: "pay x e (ts ! j) u dy w = Inr w1" and pl: "cc_plane_update x pl (current_contract e) ''stable'' xs ys w1 = Inr w'"
    and par: "params_of s' = params_of s" and rs': "ss_reserves s' = Some (rs[i := rs ! i + dx - pf, j := rs ! j - dy])"
    and fs': "fees_of s' = (fees_of s)[i := fees_of s ! i + pf]" unfolding ss_traded_def by auto
  have ts': "ss_tokens s' = Some ts" using params_tokens [OF par] ts by simp
  show ?thesis
  proof (rule backedI [OF ts' rs' d])
    fix k
    assume k: "k < length ts"
    have "bal (ts ! k) w - (if k = j then int dy else 0) \<le> bal (ts ! k) w1" by (rule pay_distinct [OF py d ij(3) k me])
    moreover have "bal (ts ! k) w1 \<le> bal (ts ! k) w'" by (rule plane_keeps [OF pl me])
    ultimately have "int (rs ! k + fees_of s ! k) + (if k = i then int dx else 0) - (if k = j then int dy else 0) \<le> bal (ts ! k) w'"
      using held [OF k] by linarith
    then show "int (rs[i := rs ! i + dx - pf, j := rs ! j - dy] ! k + fees_of s' ! k) \<le> bal (ts ! k) w'"
      using ij pf l k by (cases "k = i"; cases "k = j") (simp_all add: fs' of_nat_diff)
  qed (use l fs' in simp_all)
qed

lemma swap_backed:
  assumes run: "ss_swap x e u i j dx m (s, w) = Inr (dy, s', w')" and me: "current_contract e = me" "\<not> authorized e me"
    and fd: "backed s w" and dx: "dx \<le> U128_MAX"
  shows "backed s' w'"
proof -
  from ss_swap_InrD [OF run] obtain s1 ts w1 pf where au: "authorized e u" and sync: "ss_sync_reserves x e s w = Inr s1"
    and ts: "ss_tokens s1 = Some ts" and i: "i < length ts" and co: "collect x e (ts ! i) u dx w = Inr w1"
    and tr: "ss_traded x e u i j dx dy pf s1 s' w1 w'" by blast
  have um: "u \<noteq> me" using au me(2) by auto
  from tr obtain rs where rs: "ss_reserves s1 = Some rs" unfolding ss_traded_def by blast
  note b = backedE [OF sync_backed [OF sync me(1) fd] ts rs]
  note c = collect_adds [OF co me(1) um dx]
  show ?thesis
  proof (rule traded_backed [OF tr me(1) ts rs b(1-3)])
    fix k
    assume k: "k < length ts"
    show "int (rs ! k + fees_of s1 ! k) + (if k = i then int dx else 0) \<le> bal (ts ! k) w1"
      using b(4) [OF k] c(1) c(2) [of "ts ! k"] b(1) i k by (auto simp: nth_eq_iff_index_eq)
  qed
qed

lemma swap_strict_backed:
  assumes run: "ss_swap_strict_receive x e u i j dy m (s, w) = Inr (dx, s', w')" and me: "current_contract e = me" "\<not> authorized e me"
    and fd: "backed s w" and m: "m \<le> U128_MAX"
  shows "backed s' w'"
proof -
  from ss_swap_strict_InrD [OF run] obtain s1 ts w1 w2 pf where au: "authorized e u" and sync: "ss_sync_reserves x e s w = Inr s1"
    and ts: "ss_tokens s1 = Some ts" and i: "i < length ts" and co: "collect x e (ts ! i) u m w = Inr w1" and le: "dx \<le> m"
    and rf: "refund x e (ts ! i) u m dx w1 = Inr w2" and tr: "ss_traded x e u i j dx dy pf s1 s' w2 w'" by blast
  have um: "u \<noteq> me" using au me(2) by auto
  from tr obtain rs where rs: "ss_reserves s1 = Some rs" unfolding ss_traded_def by blast
  note b = backedE [OF sync_backed [OF sync me(1) fd] ts rs]
  note c = collect_adds [OF co me(1) um m] and r = refund_takes [OF rf me(1)]
  show ?thesis
  proof (rule traded_backed [OF tr me(1) ts rs b(1-3)])
    fix k
    assume k: "k < length ts"
    show "int (rs ! k + fees_of s1 ! k) + (if k = i then int dx else 0) \<le> bal (ts ! k) w2"
    proof (cases "k = i")
      case True
      then show ?thesis using b(4) [OF k] c(1) r(1) le by (simp add: of_nat_diff)
    next
      case False
      then have "ts ! k \<noteq> ts ! i" using b(1) i k by (simp add: nth_eq_iff_index_eq)
      then show ?thesis using b(4) [OF k] c(2) r(2) False by simp
    qed
  qed
qed

lemma withdraw_backed:
  assumes run: "ss_withdraw x e u n ms (s, w) = Inr (as, s', w')" and me: "current_contract e = me" "\<not> authorized e me"
    and fd: "backed s w"
  shows "backed s' w'"
proof -
  from ss_withdraw_InrD [OF run] obtain s1 ts rs b p w1 rs' w2 sht w3 b' p' w4 pl xs ys where
    au: "authorized e u" and sync: "ss_sync_reserves x e s w = Inr s1" and ts: "ss_tokens s1 = Some ts"
    and rs: "ss_reserves s1 = Some rs" and g1: "gauges_checkpoint_user (cc_gauges x) e u b p (pl_gauges s1) w = Inr w1"
    and lo: "for_upto (length ts) (give_share x e u ts n (get_total_shares (pl_shares s1)) ms) (rs, [], w1) = Inr (rs', as, w2)"
    and bu: "share_burn_call (cc_shares x) sht u (as_i128 n) w2 = Inr w3"
    and g2: "gauges_checkpoint_user (cc_gauges x) e u b' p' (pl_gauges s1) w3 = Inr w4"
    and pl: "cc_plane_update x pl (current_contract e) ''stable'' xs ys w4 = Inr w'"
    and par: "params_of s' = params_of s1" and rs': "ss_reserves s' = Some rs'" and fs: "fees_of s' = fees_of s1" by blast
  have um: "u \<noteq> me" using au me(2) by auto
  note b = backedE [OF sync_backed [OF sync me(1) fd] ts rs] and gl = give_share_loop [OF lo lib]
  have ts': "ss_tokens s' = Some ts" using params_tokens [OF par] ts by simp
  show ?thesis
  proof (rule backedI [OF ts' rs' b(1)])
    fix k
    assume k: "k < length ts"
    have "bal (ts ! k) w1 - int (as ! k) \<le> bal (ts ! k) w2" by (rule give_shares [OF lo b(1) me(1) k])
    moreover have "bal (ts ! k) w \<le> bal (ts ! k) w1" by (rule gauge_keeps [OF g1 me(1)])
    moreover have "bal (ts ! k) w2 \<le> bal (ts ! k) w3" by (rule no_lessD [OF burn_takes_nothing [OF bu um]])
    moreover have "bal (ts ! k) w3 \<le> bal (ts ! k) w4" by (rule gauge_keeps [OF g2 me(1)])
    moreover have "bal (ts ! k) w4 \<le> bal (ts ! k) w'" by (rule plane_keeps [OF pl me(1)])
    moreover have "int (rs' ! k) = int (rs ! k) - int (as ! k)"
    proof -
      have "as ! k \<le> rs ! k" "rs' ! k = rs ! k - as ! k" using gl k by blast+
      then show ?thesis by (simp only: of_nat_diff)
    qed
    ultimately show "int (rs' ! k + fees_of s' ! k) \<le> bal (ts ! k) w'" using b(4) [OF k] fs by simp
  qed (use gl b fs in simp_all)
qed

lemma remove_imbalance_backed:
  assumes run: "ss_remove_liquidity_imbalance x e u as m (s, w) = Inr (n, s', w')"
    and me: "current_contract e = me" "\<not> authorized e me" and fd: "backed s w"
  shows "backed s' w'"
proof -
  from ss_remove_imbalance_InrD [OF run] obtain s1 ts rs b p w1 rs' sht w2 sht' w3 w4 b' p' w5 pl xs ys where
    au: "authorized e u" and sync: "ss_sync_reserves x e s w = Inr s1" and ts: "ss_tokens s1 = Some ts"
    and rs: "ss_reserves s1 = Some rs" and g1: "gauges_checkpoint_user (cc_gauges x) e u b p (pl_gauges s1) w = Inr w1"
    and bu: "share_burn_call (cc_shares x) sht u (as_i128 m) w1 = Inr w2"
    and mi: "w3 = w2 \<or> share_mint_call (cc_shares x) sht' u (as_i128 (m - n)) w2 = Inr w3"
    and lo: "for_upto (length ts) (pay_coin x e u ts as) w3 = Inr w4"
    and g2: "gauges_checkpoint_user (cc_gauges x) e u b' p' (pl_gauges s1) w4 = Inr w5"
    and pl: "cc_plane_update x pl (current_contract e) ''stable'' xs ys w5 = Inr w'"
    and par: "params_of s' = params_of s1" and rs': "ss_reserves s' = Some rs'" "length rs' = length rs"
      "length (fees_of s') = length (fees_of s1)"
    and sum: "\<forall>k < length ts. as ! k \<le> rs ! k \<and> rs' ! k + fees_of s' ! k = rs ! k - as ! k + fees_of s1 ! k" by blast
  have um: "u \<noteq> me" using au me(2) by auto
  note b = backedE [OF sync_backed [OF sync me(1) fd] ts rs]
  have ts': "ss_tokens s' = Some ts" using params_tokens [OF par] ts by simp
  show ?thesis
  proof (rule backedI [OF ts' rs'(1) b(1)])
    fix k
    assume k: "k < length ts"
    have "bal (ts ! k) w3 - int (as ! k) \<le> bal (ts ! k) w4" by (rule pay_coins [OF lo b(1) me(1) k])
    moreover have "bal (ts ! k) w \<le> bal (ts ! k) w1" by (rule gauge_keeps [OF g1 me(1)])
    moreover have "bal (ts ! k) w1 \<le> bal (ts ! k) w2" by (rule no_lessD [OF burn_takes_nothing [OF bu um]])
    moreover have "bal (ts ! k) w2 \<le> bal (ts ! k) w3" using mi no_lessD [OF mint_takes_nothing] by auto
    moreover have "bal (ts ! k) w4 \<le> bal (ts ! k) w5" by (rule gauge_keeps [OF g2 me(1)])
    moreover have "bal (ts ! k) w5 \<le> bal (ts ! k) w'" by (rule plane_keeps [OF pl me(1)])
    moreover have "int (rs' ! k + fees_of s' ! k) = int (rs ! k + fees_of s1 ! k) - int (as ! k)"
      using sum k by (auto simp: of_nat_diff)
    ultimately show "int (rs' ! k + fees_of s' ! k) \<le> bal (ts ! k) w'" using b(4) [OF k] by linarith
  qed (use rs' b in simp_all)
qed

lemma withdraw_one_backed:
  assumes run: "ss_withdraw_one_coin x e u n i m (s, w) = Inr (as, s', w')"
    and me: "current_contract e = me" "\<not> authorized e me" and fd: "backed s w"
  shows "backed s' w'"
proof -
  from ss_withdraw_one_InrD [OF run] obtain s1 ts rs b p w1 dy pf sht w2 w3 b' p' w4 pl xs ys where
    au: "authorized e u" and sync: "ss_sync_reserves x e s w = Inr s1" and ts: "ss_tokens s1 = Some ts"
    and rs: "ss_reserves s1 = Some rs" and g1: "gauges_checkpoint_user (cc_gauges x) e u b p (pl_gauges s1) w = Inr w1"
    and bu: "share_burn_call (cc_shares x) sht u (as_i128 n) w1 = Inr w2" and py: "pay x e (ts ! i) u dy w2 = Inr w3"
    and g2: "gauges_checkpoint_user (cc_gauges x) e u b' p' (pl_gauges s1) w3 = Inr w4"
    and pl: "cc_plane_update x pl (current_contract e) ''stable'' xs ys w4 = Inr w'"
    and par: "params_of s' = params_of s1" and i: "i < length ts" and le: "dy + pf \<le> rs ! i"
    and rs': "ss_reserves s' = Some (rs[i := rs ! i - dy - pf])" "fees_of s' = (fees_of s1)[i := fees_of s1 ! i + pf]" by blast
  have um: "u \<noteq> me" using au me(2) by auto
  note b = backedE [OF sync_backed [OF sync me(1) fd] ts rs]
  have ts': "ss_tokens s' = Some ts" using params_tokens [OF par] ts by simp
  show ?thesis
  proof (rule backedI [OF ts' rs'(1) b(1)])
    fix k
    assume k: "k < length ts"
    have "bal (ts ! k) w2 - (if k = i then int dy else 0) \<le> bal (ts ! k) w3" by (rule pay_distinct [OF py b(1) i k me(1)])
    moreover have "bal (ts ! k) w \<le> bal (ts ! k) w1" by (rule gauge_keeps [OF g1 me(1)])
    moreover have "bal (ts ! k) w1 \<le> bal (ts ! k) w2" by (rule no_lessD [OF burn_takes_nothing [OF bu um]])
    moreover have "bal (ts ! k) w3 \<le> bal (ts ! k) w4" by (rule gauge_keeps [OF g2 me(1)])
    moreover have "bal (ts ! k) w4 \<le> bal (ts ! k) w'" by (rule plane_keeps [OF pl me(1)])
    moreover have "int (rs[i := rs ! i - dy - pf] ! k + fees_of s' ! k) =
        int (rs ! k + fees_of s1 ! k) - (if k = i then int dy else 0)"
      using i b(2,3) le by (auto simp: rs'(2) of_nat_diff)
    ultimately show "int (rs[i := rs ! i - dy - pf] ! k + fees_of s' ! k) \<le> bal (ts ! k) w'" using b(4) [OF k] by linarith
  qed (use rs' b in simp_all)
qed

section \<open>Everything else\<close>

lemma pay_fees_zero:
  assumes run: "for_upto n (pay_fee x e d ts fs) (fs, w) = Inr (f, w')" and n: "n \<le> length fs"
  shows "length f = length fs \<and> (\<forall>k < n. f ! k = 0)"
proof -
  have "(\<lambda>i st. length (fst st) = length fs \<and> (\<forall>k < i. fst st ! k = 0) \<and> (\<forall>k \<ge> i. fst st ! k = fs ! k)) n (f, w')"
  proof (rule upto_rule [OF run])
    fix i st st'
    assume i: "i < n" and inv: "length (fst st) = length fs \<and> (\<forall>k < i. fst st ! k = 0) \<and> (\<forall>k \<ge> i. fst st ! k = fs ! k)"
      and "pay_fee x e d ts fs i st = Inr st'"
    then have "fst st' = fst st \<and> fs ! i = 0 \<or> fst st' = (fst st)[i := 0]"
      by (cases st) (auto simp: pay_fee_def res_simps split: if_splits)
    then show "length (fst st') = length fs \<and> (\<forall>k < Suc i. fst st' ! k = 0) \<and> (\<forall>k \<ge> Suc i. fst st' ! k = fs ! k)"
      using inv i n by (auto simp: less_Suc_eq nth_list_update)
  qed simp
  then show ?thesis by simp
qed

lemma claim_fees_backed:
  assumes run: "ss_claim_protocol_fees x e a d (s, w) = Inr (v, s', w')" and me: "current_contract e = me"
    and fd: "backed s w"
  shows "backed s' w'"
proof -
  from run obtain ts fs s1 f where ts: "ss_tokens s = Some ts" and gf: "get_protocol_fees s = Inr (fs, s1)"
    and lo: "for_upto (length ts) (pay_fee x e d ts fs) (fs, w) = Inr (f, w')" and s': "s' = s1\<lparr>ss_protocol_fees := Some f\<rparr>"
    by (auto simp: ss_claim_protocol_fees_def Let_def res_simps)
  note c = caches_onlyD [OF get_protocol_fees_caches [OF gf]] and fs = get_protocol_fees_value [OF gf]
  from fd ts obtain rs where rs: "ss_reserves s = Some rs" unfolding ss_covered_def by blast
  note b = backedE [OF fd ts rs]
  have l: "length fs = length ts" using fs b(3) by simp
  have z: "length f = length fs \<and> (\<forall>k < length ts. f ! k = 0)" by (rule pay_fees_zero [OF lo]) (simp add: l)
  have f': "fees_of s' = f" by (simp add: s' fees_of_def fees_from_def)
  show ?thesis
  proof (rule backedI [of s' ts rs])
    fix k
    assume k: "k < length ts"
    have "bal (ts ! k) w - int (fs ! k) \<le> bal (ts ! k) w'" by (rule pay_fees [OF lo b(1) me k])
    then show "int (rs ! k + fees_of s' ! k) \<le> bal (ts ! k) w'" using b(4) [OF k] z k fs by (simp add: f')
  qed (use c ts rs b z l f' s' in simp_all)
qed

lemma coin_checked:
  assumes "for_upto n (\<lambda>i _. coin_covered x e ts t rs fs w i) () = Inr v" and "k < n"
  shows "coin_covered x e ts t rs fs w k = Inr ()"
proof -
  have "(\<lambda>i _. \<forall>k < i. coin_covered x e ts t rs fs w k = Inr ()) n v"
    by (rule upto_rule [OF assms(1)]) (auto simp: less_Suc_eq)
  then show ?thesis using assms(2) by simp
qed

lemma claim_backed:
  assumes run: "ss_claim x e u (s, w) = Inr (v, s', w')" and me: "current_contract e = me" and fd: "backed s w"
  shows "backed s' w'"
proof -
  from ss_claim_InrD [OF run] obtain us tot g p w1 r c s1 w2 ts rs h q token where
    led: "ledger_of s' = ledger_of s" and g1: "gauges_checkpoint_user (cc_gauges x) e u g p (pl_gauges s) w = Inr w1"
    and cl: "claim_reward c (cc_tokens x) u tot us (r, w1) = Inr (v, s1, w2)" "rc_env c = e"
    and rt: "get_reward_token s1 = Inr token" and ts: "ss_tokens s = Some ts" and rs: "ss_reserves s = Some rs"
    and co: "for_upto (length rs) (\<lambda>i _. coin_covered x e ts token rs (fees_of s) w2 i) () = Inr ()"
    and g2: "gauges_checkpoint_user (cc_gauges x) e u h q (pl_gauges s) w2 = Inr w'" by blast
  note b = backedE [OF fd ts rs]
  show ?thesis
  proof (rule backedI [of s' ts rs])
    fix k
    assume k: "k < length ts"
    have "coin_covered x e ts token rs (fees_of s) w2 k = Inr ()" using coin_checked [OF co] k b(2) by simp
    then have cc: "claim_covered x e token w2 (ts ! k, rs ! k, fees_of s ! k) = Inr ()"
      by (auto simp: coin_covered_def claim_covered_def res_simps split: if_splits)
    from claim_keeps [OF g1 cl rt g2 me b(4) [OF k] cc]
    show "int (rs ! k + fees_of s' ! k) \<le> bal (ts ! k) w'" using led by (simp add: ledger_of_def)
  qed (use led ts rs b in \<open>simp_all add: ledger_of_def\<close>)
qed

lemma ledger_backed: "backed s w \<Longrightarrow> ledger_of s' = ledger_of s \<Longrightarrow> no_less (cc_tokens x) me w w' \<Longrightarrow> backed s' w'"
  by (rule ss_covered_mono)

lemma unused_backed:
  assumes "ss_get_unused_reward x e (s, w) = Inr (n, s')" and "current_contract e = me" and "backed s w"
  shows "backed s' w"
proof -
  from ss_unused_reward_InrD [OF assms(1)] obtain s1 k where k: "reward_balance_to_keep x e (s, w) = Inr (k, s1)"
    and "s' = s1 \<or> ss_sync_reserves x e s1 w = Inr s'" by blast
  moreover have "backed s1 w"
    using ledger_backed [OF assms(3) same_books_ledger [OF reward_balance_to_keep_same [OF k]] no_less_refl] .
  ultimately show ?thesis using sync_backed [OF _ assms(2)] by blast
qed

lemma unused_token:
  assumes "ss_get_unused_reward x e (s, w) = Inr (n, s')"
  shows "rw_token (pl_rewards s') = rw_token (pl_rewards s) \<and> ss_tokens s' = ss_tokens s"
proof -
  from ss_unused_reward_InrD [OF assms] obtain s1 k where k: "reward_balance_to_keep x e (s, w) = Inr (k, s1)"
    and s: "s' = s1 \<or> ss_sync_reserves x e s1 w = Inr s'" by blast
  have "ss_tokens s1 = ss_tokens s" using params_tokens [OF same_books_params [OF reward_balance_to_keep_same [OF k]]] .
  moreover have "ss_tokens s' = ss_tokens s1" using s params_tokens [OF sync_params] by metis
  moreover have "rw_token (pl_rewards s') = rw_token (pl_rewards s1)" using s sync_rewards by metis
  ultimately show ?thesis using reward_balance_to_keep_token [OF k] by simp
qed

lemma unused_fees:
  assumes "ss_get_unused_reward x e (s, w) = Inr (n, s')"
  shows "fees_of s' = fees_of s"
proof -
  from ss_unused_reward_InrD [OF assms] obtain s1 k where k: "reward_balance_to_keep x e (s, w) = Inr (k, s1)"
    and s: "s' = s1 \<or> ss_sync_reserves x e s1 w = Inr s'" by blast
  have "fees_of s1 = fees_of s" using same_books_ledger [OF reward_balance_to_keep_same [OF k]] by (simp add: ledger_of_def)
  then show ?thesis using s ss_sync_InrD by metis
qed

lemma first_index_of_Some: "first_index_of t ts = Some i \<Longrightarrow> i < length ts \<and> ts ! i = t"
  by (induction ts arbitrary: i) (auto split: if_splits)

lemma first_index_of_None: "first_index_of t ts = None \<longleftrightarrow> t \<notin> set ts"
  by (induction ts) auto

lemma unused_keeps:
  assumes "ss_get_unused_reward x e (s, w) = Inr (n, s')" and "get_reward_token (pl_rewards s') = Inr t"
    and "ss_tokens s' = Some ts" and "ss_reserves s' = Some rs" and "distinct ts" and "i < length ts" and "ts ! i = t"
  shows "n \<le> as_u128 (tk_balance (cc_tokens x) t (current_contract e) w) - rs ! i"
proof -
  from assms(1) obtain k0 s1 t1 ts1 k where t1: "get_reward_token (pl_rewards s1) = Inr t1" and ts1: "ss_tokens s1 = Some ts1"
    and keep: "keep_pool_reserve x e t1 ts1 k0 (s1, w) = Inr (k, s')"
    and n: "n = (if k < as_u128 (tk_balance (cc_tokens x) t1 (current_contract e) w)
      then as_u128 (tk_balance (cc_tokens x) t1 (current_contract e) w) - k else 0)"
    unfolding ss_get_unused_reward_def Let_def snd_conv stored_def
    by (clarsimp simp: andthen_eq_Inr from_option_eq_Inr split del: if_split)
  from keep have s': "s' = s1 \<or> ss_sync_reserves x e s1 w = Inr s'"
    by (auto simp: keep_pool_reserve_def ss_get_reserves_def res_simps split: option.splits)
  have "ts1 = ts" "t1 = t"
    using s' t1 ts1 assms(2,3) params_tokens [OF sync_params] sync_rewards by (metis option.inject, metis sum.inject(2))
  moreover have "first_index_of t ts = Some i"
    using assms(5-7) first_index_of_Some [of t ts] first_index_of_None [of t ts] nth_eq_iff_index_eq [OF assms(5)] nth_mem
    by (metis option.exhaust)
  ultimately have "rs ! i \<le> k"
    using keep assms(4) by (auto simp: keep_pool_reserve_def ss_get_reserves_def item_def u_add_eq_Inr res_simps split: if_splits)
  moreover have "n \<le> as_u128 (tk_balance (cc_tokens x) t (current_contract e) w) - k" by (simp add: n \<open>t1 = t\<close>)
  ultimately show ?thesis by (meson diff_le_mono2 order_trans)
qed

lemma return_unused_backed:
  assumes run: "ss_return_unused_reward x e a (s, w) = Inr (v, s', w')" and me: "current_contract e = me"
    and fd: "backed s w" and no_fee: "ss_no_fee_in_reward_token s"
  shows "backed s' w'"
proof -
  from run obtain n s1 where un: "ss_get_unused_reward x e (s, w) = Inr (n, s1)"
    and rest: "s' = s1" "w' = w \<or> (\<exists>t r. get_reward_token (pl_rewards s1) = Inr t \<and> pay x e t r n w = Inr w')"
    by (auto simp: ss_return_unused_reward_def Let_def res_simps split: if_splits)
  have b1: "backed s' w" using unused_backed [OF un me fd] rest(1) by simp
  show ?thesis
    using rest(2)
  proof
    assume "w' = w"
    then show ?thesis using b1 by simp
  next
    assume "\<exists>t r. get_reward_token (pl_rewards s1) = Inr t \<and> pay x e t r n w = Inr w'"
    then obtain t r where rt: "get_reward_token (pl_rewards s1) = Inr t" and py: "pay x e t r n w = Inr w'" by blast
    then have t: "rw_token (pl_rewards s) = Some t"
      using unused_token [OF un] by (auto simp: get_reward_token_def res_simps)
    from b1 obtain ts rs where c: "ss_tokens s' = Some ts" "ss_reserves s' = Some rs" unfolding ss_covered_def by blast
    note be = backedE [OF b1 c]
    have ts: "ss_tokens s = Some ts" using unused_token [OF un] c rest(1) by simp
    have "int (rs ! k + fees_of s' ! k) \<le> bal (ts ! k) w'" if k: "k < length ts" for k
    proof (cases "ts ! k = t")
      case True
      have "fees_of s' ! k = 0"
        using no_fee ts t k True unused_fees [OF un] rest(1) by (simp add: ss_no_fee_in_reward_token_def)
      moreover from this have le: "int (rs ! k) \<le> bal t w" using be(4) [OF k] True by simp
      then have "int (as_u128 (bal t w)) \<le> bal t w" by (intro as_u128_le) linarith
      moreover have "n \<le> as_u128 (bal t w) - rs ! k"
        using unused_keeps [OF un rt c [unfolded rest(1)] be(1) k True] me by simp
      ultimately show ?thesis using pay_takes(1) [OF py me] le True by simp
    next
      case False
      then show ?thesis using pay_takes(2) [OF py me False] be(4) [OF k] by simp
    qed
    then show ?thesis using be by (intro backedI [OF c]) simp_all
  qed
qed

lemma own_backed:
  assumes run: "ss_own_exec x e s w a = Inr (s', w')" and me: "current_contract e = me" and fd: "backed s w"
    and other: "\<And>b. a = SsReturnUnused b \<Longrightarrow> ss_no_fee_in_reward_token s"
  shows "backed s' w'"
proof -
  have plane: "backed s' w'" if "ss_update_plane x e (s1, w) = Inr (s', w')" and "ledger_of s1 = ledger_of s" for s1
  proof -
    from update_plane_caches [OF that(1)] obtain p xs ys where c: "caches_only s1 s'"
      and "cc_plane_update x p (current_contract e) ''stable'' xs ys w = Inr w'" by blast
    from plane_takes_nothing [OF this(2) [unfolded me]] show ?thesis
      using ledger_backed [OF fd] caches_ledger [OF c] that(2) by simp
  qed
  show ?thesis
  proof (cases a)
    case (SsReturnUnused b)
    with run other show ?thesis by (auto simp: res_simps intro!: return_unused_backed [OF _ me fd])
  next
    case (SsClaim u)
    with run show ?thesis by (auto simp: res_simps intro: claim_backed [OF _ me fd])
  next
    case (SsClaimProtocolFees b d)
    with run show ?thesis by (auto simp: res_simps intro: claim_fees_backed [OF _ me fd])
  next
    case SsUnusedReward
    with run show ?thesis by (auto simp: res_simps intro: unused_backed [OF _ me fd])
  next
    case SsBackfillPlane
    with run show ?thesis by (auto intro: plane)
  next
    case (SsRampA b f t)
    with run show ?thesis
      by (auto simp: ss_ramp_a_def Let_def res_simps ledger_of_def fees_of_def intro!: plane split: if_splits)
  next
    case (SsStopRampA b)
    with run show ?thesis by (auto simp: ss_stop_ramp_a_def Let_def res_simps ledger_of_def fees_of_def intro!: plane)
  next
    case (SsApplyFee b)
    with run show ?thesis by (auto simp: ss_apply_new_fee_def Let_def res_simps ledger_of_def fees_of_def intro!: plane)
  next
    case SsProtocolFees
    with run show ?thesis using ledger_backed [OF fd caches_ledger [OF get_protocol_fees_caches]] by (auto simp: res_simps)
  next
    case SsDecimals
    with run obtain v where "get_decimals x w s = Inr (v, s')" "w' = w" by (auto simp: res_simps)
    then show ?thesis using ledger_backed [OF fd caches_ledger [OF get_decimals_caches] no_less_refl] by simp
  qed (use run in \<open>auto simp: res_simps ss_commit_new_fee_def ss_revert_new_parameters_def ss_set_protocol_fee_fraction_def
    ss_init_pools_plane_def ss_initialize_rewards_config_def ss_initialize_boost_config_def ledger_of_def fees_of_def
    intro!: ledger_backed [OF fd]\<close>)
qed

lemma trade_backed:
  assumes run: "ss_trade_exec x e s w a = Inr (s', w')" and me: "current_contract e = me" "\<not> authorized e me"
    and fd: "backed s w" and ok: "u128_trade a"
  shows "backed s' w'"
proof -
  have quiet: "backed s' w'" if "\<exists>as i j n b. a \<in> {SsEstimateDeposit as, SsEstimateSwap i j n, SsEstimateSwapStrict i j n,
      SsCalcWithdrawOne n i, SsCalcTokenAmount as b, SsVirtualPrice, SsGetReserves}"
  proof -
    from that quiet_trade [OF run] obtain s1 where "w' = w" and sy: "ss_sync_reserves x e s w = Inr s1" and "caches_only s1 s'"
      by blast
    then show ?thesis using ledger_backed [OF sync_backed [OF sy me(1) fd] caches_ledger no_less_refl] by simp
  qed
  show ?thesis
  proof (cases a)
    case (SsDeposit u as m)
    with run obtain r where "ss_deposit x e u as m (s, w) = Inr (r, s', w')" by (auto simp: res_simps)
    from deposit_backed [OF this me fd] ok SsDeposit show ?thesis by simp
  next
    case (SsSwap u i j dx m)
    with run obtain r where "ss_swap x e u i j dx m (s, w) = Inr (r, s', w')" by (auto simp: res_simps)
    from swap_backed [OF this me fd] ok SsSwap show ?thesis by simp
  next
    case (SsSwapStrict u i j dy m)
    with run obtain r where "ss_swap_strict_receive x e u i j dy m (s, w) = Inr (r, s', w')" by (auto simp: res_simps)
    from swap_strict_backed [OF this me fd] ok SsSwapStrict show ?thesis by simp
  next
    case (SsWithdraw u n ms)
    with run obtain r where "ss_withdraw x e u n ms (s, w) = Inr (r, s', w')" by (auto simp: res_simps)
    from withdraw_backed [OF this me fd] show ?thesis .
  next
    case (SsRemoveImbalance u as m)
    with run obtain r where "ss_remove_liquidity_imbalance x e u as m (s, w) = Inr (r, s', w')" by (auto simp: res_simps)
    from remove_imbalance_backed [OF this me fd] show ?thesis .
  next
    case (SsWithdrawOne u n i m)
    with run obtain r where "ss_withdraw_one_coin x e u n i m (s, w) = Inr (r, s', w')" by (auto simp: res_simps)
    from withdraw_one_backed [OF this me fd] show ?thesis .
  qed (auto intro!: quiet)
qed

lemma exec_backed:
  assumes run: "ss_exec x e s w a = Inr (s', w')" and fair: "ss_fair_call me e a s" and fd: "backed s w"
  shows "backed s' w'"
proof -
  have me: "current_contract e = me" "\<not> authorized e me" using fair by (auto simp: ss_fair_call_def)
  show ?thesis
  proof (cases a)
    case (SsTrade b)
    with run fair trade_backed [OF _ me fd] show ?thesis by (simp add: ss_fair_call_def)
  next
    case (SsOwn b)
    with run fair show ?thesis by (intro own_backed [OF _ me(1) fd, of b s' w']) (auto simp: ss_fair_call_def)
  next
    case (SsShared b)
    with run have r: "shared_exec x e s w b = Inr (s', w')" by simp
    show ?thesis using ledger_backed [OF fd same_books_ledger [OF shared_same [OF r]] shared_no_less [OF r me]] .
  qed
qed

lemma run_backed:
  assumes "ss_run x (ss_fair_call me) (no_less (cc_tokens x) me) p q" and "backed (fst p) (snd p)"
  shows "backed (fst q) (snd q)"
  using assms
proof (induction rule: ss_run.induct)
  case (call s w e a s' w')
  then show ?case using exec_backed by simp
next
  case (world s w w')
  then show ?case using ledger_backed by simp
qed simp

end

section \<open>The stable pool is always solvent\<close>

text \<open>
  Claim C3: a stable pool that can pay what it owes (for every token, balance at least
  reserve plus protocol fee) can do so after every run of its entry points, with the world adding
  tokens to it in between, if no call is authorized by the pool itself, arguments are 128-bit
  values, and unused rewards are not returned while the pool holds a protocol fee in the reward token.
\<close>

theorem stable_pool_stays_solvent:
  assumes "pool_host x me" and "ss_covered (cc_tokens x) me s w"
    and "ss_run x (ss_fair_call me) (no_less (cc_tokens x) me) (s, w) (s', w')"
  shows "ss_covered (cc_tokens x) me s' w'"
  using pool_host.run_backed [OF assms(1,3)] assms(2) by simp

end
