(* ===== verification/SS_Entries.thy ===== *)
theory SS_Entries
  imports SS_Admin
begin

text \<open>
  The entry points of \<^verbatim>\<open>liquidity_pool_stableswap/src/contract.rs\<close> that repeat those of the
  constant-product pool word for word: each is the common definition of \<open>Pool_Admin\<close> at the stable
  pool's state. \<open>SS_Runs\<close> executes them as \<open>SsShared\<close>.
\<close>

definition ss_set_privileged_addrs ::
  "env \<Rightarrow> address \<Rightarrow> privileged \<Rightarrow> ss_pool \<Rightarrow> ss_pool res" where
  "ss_set_privileged_addrs = pl_set_privileged_addrs"

definition ss_get_privileged_addrs :: "ss_pool \<Rightarrow> (symbol \<times> address list) list res" where
  "ss_get_privileged_addrs = pl_get_privileged_addrs"

definition ss_init_config_storage ::
  "env \<Rightarrow> address \<Rightarrow> address \<Rightarrow> ss_pool \<Rightarrow> ss_pool res" where
  "ss_init_config_storage = pl_init_config_storage"

definition ss_kill_deposit :: "env \<Rightarrow> address \<Rightarrow> ss_pool \<Rightarrow> ss_pool res" where
  "ss_kill_deposit = pl_kill_deposit"

definition ss_kill_swap :: "env \<Rightarrow> address \<Rightarrow> ss_pool \<Rightarrow> ss_pool res" where
  "ss_kill_swap = pl_kill_swap"

definition ss_kill_claim :: "env \<Rightarrow> address \<Rightarrow> ss_pool \<Rightarrow> ss_pool res" where
  "ss_kill_claim = pl_kill_claim"

definition ss_unkill_deposit :: "env \<Rightarrow> address \<Rightarrow> ss_pool \<Rightarrow> ss_pool res" where
  "ss_unkill_deposit = pl_unkill_deposit"

definition ss_unkill_swap :: "env \<Rightarrow> address \<Rightarrow> ss_pool \<Rightarrow> ss_pool res" where
  "ss_unkill_swap = pl_unkill_swap"

definition ss_unkill_claim :: "env \<Rightarrow> address \<Rightarrow> ss_pool \<Rightarrow> ss_pool res" where
  "ss_unkill_claim = pl_unkill_claim"

definition ss_set_pools_plane ::
  "env \<Rightarrow> address \<Rightarrow> address \<Rightarrow> ss_pool \<Rightarrow> ss_pool res" where
  "ss_set_pools_plane = pl_set_pools_plane"

definition ss_commit_upgrade ::
  "env \<Rightarrow> address \<Rightarrow> nat \<Rightarrow> nat \<Rightarrow> nat \<Rightarrow> ss_pool \<Rightarrow> ss_pool res" where
  "ss_commit_upgrade = pl_commit_upgrade"

definition ss_apply_upgrade ::
  "'w host_calls \<Rightarrow> env \<Rightarrow> address \<Rightarrow> ss_pool \<times> 'w \<Rightarrow> ((nat \<times> nat) \<times> ss_pool \<times> 'w) res" where
  "ss_apply_upgrade = pl_apply_upgrade"

definition ss_revert_upgrade :: "env \<Rightarrow> address \<Rightarrow> ss_pool \<Rightarrow> ss_pool res" where
  "ss_revert_upgrade = pl_revert_upgrade"

definition ss_set_emergency_mode ::
  "env \<Rightarrow> address \<Rightarrow> bool \<Rightarrow> ss_pool \<Rightarrow> ss_pool res" where
  "ss_set_emergency_mode = pl_set_emergency_mode"

definition ss_commit_transfer_ownership ::
  "env \<Rightarrow> address \<Rightarrow> symbol \<Rightarrow> address \<Rightarrow> ss_pool \<Rightarrow> ss_pool res" where
  "ss_commit_transfer_ownership = pl_commit_transfer_ownership"

definition ss_apply_transfer_ownership ::
  "env \<Rightarrow> address \<Rightarrow> symbol \<Rightarrow> ss_pool \<Rightarrow> ss_pool res" where
  "ss_apply_transfer_ownership = pl_apply_transfer_ownership"

definition ss_revert_transfer_ownership ::
  "env \<Rightarrow> address \<Rightarrow> symbol \<Rightarrow> ss_pool \<Rightarrow> ss_pool res" where
  "ss_revert_transfer_ownership = pl_revert_transfer_ownership"

definition ss_set_reward_boost_config ::
  "env \<Rightarrow> address \<Rightarrow> address \<Rightarrow> address \<Rightarrow> ss_pool \<Rightarrow> ss_pool res" where
  "ss_set_reward_boost_config = pl_set_reward_boost_config"

definition ss_set_rewards_config ::
  "'w host_calls \<Rightarrow> env \<Rightarrow> address \<Rightarrow> nat \<Rightarrow> nat \<Rightarrow> ss_pool \<times> 'w \<Rightarrow> ss_pool res" where
  "ss_set_rewards_config = pl_set_rewards_config"

definition ss_get_user_reward ::
  "'w host_calls \<Rightarrow> env \<Rightarrow> address \<Rightarrow> ss_pool \<times> 'w \<Rightarrow> (nat \<times> ss_pool \<times> 'w) res" where
  "ss_get_user_reward = pl_get_user_reward"

definition ss_get_rewards_info ::
  "'w host_calls \<Rightarrow> env \<Rightarrow> address \<Rightarrow> ss_pool \<times> 'w \<Rightarrow> (rewards_info \<times> ss_pool \<times> 'w) res" where
  "ss_get_rewards_info = pl_get_rewards_info"

definition ss_estimate_working_balance ::
  "'w host_calls \<Rightarrow> env \<Rightarrow> address \<Rightarrow> nat \<Rightarrow> ss_pool \<times> 'w \<Rightarrow> ((nat \<times> nat) \<times> ss_pool) res" where
  "ss_estimate_working_balance = pl_estimate_working_balance"

definition ss_checkpoint_reward ::
  "'w host_calls \<Rightarrow> env \<Rightarrow> address \<Rightarrow> address \<Rightarrow> nat \<Rightarrow> ss_pool \<times> 'w \<Rightarrow> (ss_pool \<times> 'w) res" where
  "ss_checkpoint_reward = pl_checkpoint_reward"

definition ss_checkpoint_working_balance ::
  "'w host_calls \<Rightarrow> env \<Rightarrow> address \<Rightarrow> address \<Rightarrow> nat \<Rightarrow> ss_pool \<times> 'w \<Rightarrow> (ss_pool \<times> 'w) res" where
  "ss_checkpoint_working_balance = pl_checkpoint_working_balance"

definition ss_get_total_accumulated_reward ::
  "'w host_calls \<Rightarrow> env \<Rightarrow> ss_pool \<times> 'w \<Rightarrow> (nat \<times> ss_pool) res" where
  "ss_get_total_accumulated_reward = pl_get_total_accumulated_reward"

definition ss_get_total_configured_reward ::
  "'w host_calls \<Rightarrow> env \<Rightarrow> ss_pool \<times> 'w \<Rightarrow> (nat \<times> ss_pool) res" where
  "ss_get_total_configured_reward = pl_get_total_configured_reward"

definition ss_get_total_claimed_reward ::
  "'w host_calls \<Rightarrow> env \<Rightarrow> ss_pool \<times> 'w \<Rightarrow> (nat \<times> ss_pool) res" where
  "ss_get_total_claimed_reward = pl_get_total_claimed_reward"

definition ss_adjust_total_accumulated_reward ::
  "'w host_calls \<Rightarrow> env \<Rightarrow> address \<Rightarrow> int \<Rightarrow> ss_pool \<times> 'w \<Rightarrow> ss_pool res" where
  "ss_adjust_total_accumulated_reward = pl_adjust_total_accumulated_reward"

definition ss_set_rewards_state ::
  "'w host_calls \<Rightarrow> env \<Rightarrow> address \<Rightarrow> bool \<Rightarrow> ss_pool \<times> 'w \<Rightarrow> (ss_pool \<times> 'w) res" where
  "ss_set_rewards_state = pl_set_rewards_state"

definition ss_admin_set_rewards_state ::
  "'w host_calls \<Rightarrow> env \<Rightarrow> address \<Rightarrow> address \<Rightarrow> bool \<Rightarrow> ss_pool \<times> 'w \<Rightarrow> (ss_pool \<times> 'w) res" where
  "ss_admin_set_rewards_state = pl_admin_set_rewards_state"

definition ss_gauge_add ::
  "'w host_calls \<Rightarrow> env \<Rightarrow> address \<Rightarrow> address \<Rightarrow> ss_pool \<times> 'w \<Rightarrow> ss_pool res" where
  "ss_gauge_add = pl_gauge_add"

definition ss_gauge_remove ::
  "env \<Rightarrow> address \<Rightarrow> address \<Rightarrow> ss_pool \<Rightarrow> ss_pool res" where
  "ss_gauge_remove = pl_gauge_remove"

definition ss_gauge_schedule_reward ::
  "'w host_calls \<Rightarrow> env \<Rightarrow> address \<Rightarrow> address \<Rightarrow> address \<Rightarrow> nat option \<Rightarrow> nat \<Rightarrow> nat \<Rightarrow> ss_pool \<times> 'w \<Rightarrow> (ss_pool \<times> 'w) res" where
  "ss_gauge_schedule_reward = pl_gauge_schedule_reward"

definition ss_kill_gauges_claim :: "env \<Rightarrow> address \<Rightarrow> ss_pool \<Rightarrow> ss_pool res" where
  "ss_kill_gauges_claim = pl_kill_gauges_claim"

definition ss_unkill_gauges_claim :: "env \<Rightarrow> address \<Rightarrow> ss_pool \<Rightarrow> ss_pool res" where
  "ss_unkill_gauges_claim = pl_unkill_gauges_claim"

definition ss_gauges_claim ::
  "'w host_calls \<Rightarrow> env \<Rightarrow> address \<Rightarrow> ss_pool \<times> 'w \<Rightarrow> ((address \<times> nat) list \<times> ss_pool \<times> 'w) res" where
  "ss_gauges_claim = pl_gauges_claim"

definition ss_gauges_get_reward_info ::
  "'w host_calls \<Rightarrow> env \<Rightarrow> address \<Rightarrow> ss_pool \<times> 'w \<Rightarrow> ((address \<times> gauge_info) list \<times> ss_pool \<times> 'w) res" where
  "ss_gauges_get_reward_info = pl_gauges_get_reward_info"

end
