(* ===== verification/SS_World.thy ===== *)
theory SS_World
  imports SS_Solvency SS_Entries Pool_World
begin

text \<open>
  What a trade on the stable pool pays, and concrete runs of the pool in the world of
  \<open>Pool_World\<close>, which show that the hypotheses of the theorems on the pool can hold.
\<close>

section \<open>What a trade reads and moves\<close>

definition trade_view ::
  "'w host_calls \<Rightarrow> env \<Rightarrow> ss_pool \<Rightarrow> 'w \<Rightarrow> ss_pool \<Rightarrow> nat list \<Rightarrow> nat list \<Rightarrow> nat list \<Rightarrow> ss_pool \<Rightarrow> nat \<Rightarrow> bool" where
  \<comment> \<open>synchronized, the pool has the reserves \<open>rs\<close>, scaled by the multipliers \<open>mu\<close> to \<open>xp\<close>, and the fee \<open>fee\<close>\<close>
  "trade_view x e s w s1 mu rs xp s3 fee \<longleftrightarrow>
     (\<exists>s2. ss_sync_reserves x e s w = Inr s1 \<and> get_precision_mul x w s1 = Inr (mu, s2) \<and>
        ss_reserves s2 = Some rs \<and> scaled x w rs s2 = Inr (xp, s3) \<and> ss_fee s3 = Some fee)"

definition curve_of ::
  "'w host_calls \<Rightarrow> env \<Rightarrow> ss_pool \<Rightarrow> nat \<Rightarrow> nat \<Rightarrow> nat \<Rightarrow> nat list \<Rightarrow> nat \<Rightarrow> nat \<Rightarrow> nat \<Rightarrow> bool" where
  \<comment> \<open>the code's \<open>D\<close> of the balances \<open>xp\<close>, and the coefficients for balance \<open>j\<close> with balance \<open>i\<close> replaced by \<open>v\<close>\<close>
  "curve_of x e s i j v xp c b d \<longleftrightarrow>
     (\<exists>ts amp known. ss_tokens s = Some ts \<and> amp_of (cc_fp x) e s = Inr amp \<and> get_d (cc_fp x) (length ts) xp amp = Inr d \<and>
        known_balances (length ts) j [i \<mapsto> v] xp = Inr known \<and>
        y_coefficients (cc_fp x) (length ts) (amp * length ts) known d = Inr (c, b))"

definition balances_traded ::
  "'w tokens \<Rightarrow> address \<Rightarrow> address \<Rightarrow> address \<Rightarrow> nat \<Rightarrow> address \<Rightarrow> nat \<Rightarrow> 'w \<Rightarrow> 'w \<Rightarrow> bool" where
  \<comment> \<open>\<open>u\<close> pays \<open>dx\<close> of \<open>ti\<close> to \<open>me\<close> and receives \<open>dy\<close> of \<open>tj\<close>; nothing else moves\<close>
  "balances_traded tk me u ti dx tj dy w w' \<longleftrightarrow>
     (\<forall>t c. tk_balance tk t c w' = tk_balance tk t c w +
        (if t = ti \<and> c = u then - int dx else if t = ti \<and> c = me then int dx
         else if t = tj \<and> c = u then int dy else if t = tj \<and> c = me then - int dy else 0))"

lemma pool_y_curve:
  assumes "pool_y x e s i j v xp = Inr y"
  shows "\<exists>c b d. curve_of x e s i j v xp c b d \<and> on_curve c b d y"
proof -
  from assms obtain ts amp d known c b where "ss_tokens s = Some ts" "amp_of (cc_fp x) e s = Inr amp"
    "get_d (cc_fp x) (length ts) xp amp = Inr d" "known_balances (length ts) j [i \<mapsto> v] xp = Inr known"
    "y_coefficients (cc_fp x) (length ts) (amp * length ts) known d = Inr (c, b)"
    and y: "y_loop NEWTON_ROUNDS c b d d = Inr y"
    by (auto simp: pool_y_def n_coins_eq_Inr get_y_def res_simps)
  then have "curve_of x e s i j v xp c b d" by (auto simp: curve_of_def)
  then show ?thesis using y_loop_on_curve [OF y] by blast
qed

lemma trade_view_caches:
  assumes "trade_view x e s w s1 mu rs xp s3 fee"
  shows "caches_only s1 s3" and "ss_reserves s1 = Some rs" and "ss_sync_reserves x e s w = Inr s1"
proof -
  from assms obtain s2 where "caches_only s1 s2" "caches_only s2 s3" "ss_reserves s2 = Some rs" "ss_sync_reserves x e s w = Inr s1"
    by (auto simp: trade_view_def dest: caching)
  then show "caches_only s1 s3" "ss_reserves s1 = Some rs" "ss_sync_reserves x e s w = Inr s1"
    using caches_onlyD(2) [of s1 s2] caches_only_trans by auto
qed

lemma scale_up_le: "scale_up ms rs = Inr ys \<Longrightarrow> y \<in> set ys \<Longrightarrow> y \<le> U128_MAX"
  by (induction ms rs arbitrary: ys rule: scale_up.induct) (auto simp: res_simps)

lemma scaled_le: "scaled x w rs s = Inr (xp, s') \<Longrightarrow> j < length xp \<Longrightarrow> xp ! j \<le> U128_MAX"
  using scale_up_le nth_mem by (fastforce simp: scaled_def res_simps)

lemma ss_swap_parts:
  assumes run: "ss_swap x e u i j dx m (s, w) = Inr (dy, s', w')"
  shows "\<exists>s1 mu rs xp s3 fee df pf y ts w1. trade_view x e s w s1 mu rs xp s3 fee \<and>
    mul_ceil (cc_fp x) dx fee FEE_DENOMINATOR = Inr df \<and> protocol_part x df s3 = Inr pf \<and>
    quote_dy x e s3 mu xp i j dx df = Inr y \<and> j < length xp \<and> j < length mu \<and> y + 1 \<le> xp ! j \<and> mu ! j \<noteq> 0 \<and>
    dy = (xp ! j - y - 1) div mu ! j \<and> m \<le> dy \<and> ss_tokens s1 = Some ts \<and> collect x e (ts ! i) u dx w = Inr w1 \<and>
    ss_traded x e u i j dx dy pf s1 s' w1 w'"
proof -
  from run obtain s1 mu s2 rs xp s3 coins w1 fee df pf y where
    view: "ss_sync_reserves x e s w = Inr s1" "get_precision_mul x w s1 = Inr (mu, s2)" "ss_reserves s2 = Some rs"
      "scaled x w rs s2 = Inr (xp, s3)" "ss_fee s3 = Some fee" and coins: "ss_tokens s3 = Some coins"
    and co: "collect x e (coins ! i) u dx w = Inr w1" and df: "mul_ceil (cc_fp x) dx fee FEE_DENOMINATOR = Inr df"
    and pf: "protocol_part x df s3 = Inr pf" and y: "quote_dy x e s3 mu xp i j dx df = Inr y"
    and r: "j < length xp" "j < length mu" "y \<le> xp ! j" "1 \<le> xp ! j - y" "mu ! j \<noteq> 0" "dy = (xp ! j - y - 1) div mu ! j" "m \<le> dy"
    and bt: "book_trade x e u coins rs i j dx pf dy (s3, w1) = Inr (s', w')"
    by (auto simp: ss_swap_def Let_def res_simps not_less)
  have v: "trade_view x e s w s1 mu rs xp s3 fee" using view by (auto simp: trade_view_def)
  note c = trade_view_caches [OF v]
  from y obtain v where y': "pool_y x e s3 i j v xp = Inr y" by (auto simp: quote_dy_def res_simps)
  have "ss_traded x e u i j dx dy pf s1 s' w1 w'" by (rule ss_tradedI [OF bt y' _ c(1) coins c(2)]) simp
  moreover have "ss_tokens s1 = Some coins" using coins caches_onlyD(1) [OF c(1)] by simp
  moreover have "y + 1 \<le> xp ! j" using r(3,4) by linarith
  ultimately show ?thesis using v df pf y r co by blast
qed

lemma traded_balances:
  assumes quiet: "quiet_host x me" and tr: "ss_traded x e u i j dx dy pf s s' w w'" and ts: "ss_tokens s = Some ts"
    and me: "current_contract e = me" and um: "u \<noteq> me" and "dy \<le> U128_MAX"
  shows "tk_balance (cc_tokens x) t c w' = tk_balance (cc_tokens x) t c w +
    (if t = ts ! j \<and> c = u then int dy else if t = ts ! j \<and> c = me then - int dy else 0)"
proof -
  from tr ts obtain w1 pl xs ys where p: "pay x e (ts ! j) u dy w = Inr w1"
    and pl: "cc_plane_update x pl (current_contract e) ''stable'' xs ys w1 = Inr w'" by (auto simp: ss_traded_def)
  from quiet_host.pay_moves [OF quiet p me um assms(6)] quiet_host.plane_moves_nothing [OF quiet pl [unfolded me]]
  show ?thesis by simp
qed

lemma distinct_tokens:
  assumes "ss_traded x e u i j dx dy pf s s' w w'" and "ss_tokens s = Some ts" and "distinct ts"
  shows "ts ! i \<noteq> ts ! j"
  using assms by (auto simp: ss_traded_def nth_eq_iff_index_eq)

section \<open>What a swap pays\<close>

text \<open>
  Claim C27: what a swap pays is what the estimate says, in the same ledger: whenever a swap
  succeeds, \<open>estimate_swap\<close> with the same arguments returns the amount paid, except that it returns 0
  when the curve's balance \<open>y\<close> of the bought token is 0.
\<close>

theorem stable_estimate_is_exact:
  assumes "ss_swap x e u i j dx m (s, w) = Inr (dy, s', w')"
  shows "\<exists>s1 mu rs xp s3 fee df y. trade_view x e s w s1 mu rs xp s3 fee \<and>
    mul_ceil (cc_fp x) dx fee FEE_DENOMINATOR = Inr df \<and> quote_dy x e s3 mu xp i j dx df = Inr y \<and>
    dy = (xp ! j - y - 1) div mu ! j \<and>
    ss_estimate_swap x e i j dx (s, w) = Inr (if y = 0 then 0 else dy, s3)"
proof -
  from ss_swap_parts [OF assms] obtain s1 mu rs xp s3 fee df y where v: "trade_view x e s w s1 mu rs xp s3 fee"
    and q: "mul_ceil (cc_fp x) dx fee FEE_DENOMINATOR = Inr df" "quote_dy x e s3 mu xp i j dx df = Inr y"
    "j < length xp" "j < length mu" "y + 1 \<le> xp ! j" "mu ! j \<noteq> 0" "dy = (xp ! j - y - 1) div mu ! j" by blast
  from v obtain s2 where r: "ss_sync_reserves x e s w = Inr s1" "get_precision_mul x w s1 = Inr (mu, s2)" "ss_reserves s2 = Some rs"
    "scaled x w rs s2 = Inr (xp, s3)" "ss_fee s3 = Some fee" by (auto simp: trade_view_def)
  have fee: "ss_fee s1 = Some fee" using r(5) caches_onlyD(11) [OF trade_view_caches(1) [OF v]] by simp
  have "get_dy x e i j dx (s1, w) = Inr (if y = 0 then 0 else dy, s3)"
  proof -
    have "1 \<le> xp ! j - y" "y \<le> xp ! j" using q(5) by linarith+
    then show ?thesis using fee q r by (simp add: get_dy_def stored_def item_def u_sub_def u_div_def)
  qed
  then have "ss_estimate_swap x e i j dx (s, w) = Inr (if y = 0 then 0 else dy, s3)"
    using r(1) by (simp add: ss_estimate_swap_def)
  with v q(1,2,7) show ?thesis by blast
qed

lemma curve_positive_above:
  assumes "0 < curve_at c b d y" and "y \<le> z"
  shows "0 < curve_at c b d z"
proof -
  let ?b = "int b - int d"
  have c: "int c < int y * (int y + ?b)" using assms(1) by (simp add: curve_at_def algebra_simps)
  then have pos: "0 < int y + ?b" by (smt (verit) of_nat_0_le_iff zero_less_mult_iff)
  have "int y * (int y + ?b) \<le> int z * (int z + ?b)"
    using pos assms(2) by (intro mult_mono) auto
  with c show ?thesis by (simp add: curve_at_def algebra_simps)
qed

text \<open>
  Claim C7: what a swap pays, and that it stays above the code's curve. Take the quadratic that the
  code computes from its rounded \<open>D\<close> of the scaled balances before the swap and the scaled balance of the
  sold token with the input less its fee. The payment is the scaled balance of the bought token less the
  quadratic's root and one, in units of the token, rounded down, so the quadratic is strictly positive at the
  scaled balance left. The user pays exactly the input and receives exactly the payment, at least the
  requested minimum, no other balance moves, and the books take the input less the protocol's part and
  give the payment. (The theorem is about the code's rounded \<open>D\<close>: it does not say that the exact
  invariant never falls by a rounding.)
\<close>

theorem stable_swap_stays_above_curve:
  assumes "quiet_host x me" and "ss_swap x e u i j dx m (s, w) = Inr (dy, s', w')"
    and "current_contract e = me" and "u \<noteq> me" and "dx \<le> U128_MAX" and "ss_tokens s = Some ts" and "distinct ts"
  shows "\<exists>s1 mu rs xp s3 fee df pf y c b d. trade_view x e s w s1 mu rs xp s3 fee \<and>
    mul_ceil (cc_fp x) dx fee FEE_DENOMINATOR = Inr df \<and> protocol_part x df s3 = Inr pf \<and>
    curve_of x e s3 i j (xp ! i + (dx - df) * mu ! i) xp c b d \<and> on_curve c b d y \<and> y < xp ! j \<and>
    dy = (xp ! j - (y + 1)) div mu ! j \<and> 0 < curve_at c b d (xp ! j - dy * mu ! j) \<and> m \<le> dy \<and>
    balances_traded (cc_tokens x) me u (ts ! i) dx (ts ! j) dy w w' \<and>
    pf \<le> rs ! i + dx \<and> dy \<le> rs ! j \<and> ss_reserves s' = Some (rs[i := rs ! i + dx - pf, j := rs ! j - dy]) \<and>
    fees_of s' = (fees_of s)[i := fees_of s ! i + pf]"
proof -
  from ss_swap_parts [OF assms(2)] obtain s1 mu rs xp s3 fee df pf y ts1 w1 where v: "trade_view x e s w s1 mu rs xp s3 fee"
    and q: "mul_ceil (cc_fp x) dx fee FEE_DENOMINATOR = Inr df" "protocol_part x df s3 = Inr pf"
    and y: "quote_dy x e s3 mu xp i j dx df = Inr y" and r: "j < length xp" "y + 1 \<le> xp ! j" "dy = (xp ! j - y - 1) div mu ! j"
      "m \<le> dy" and ts1: "ss_tokens s1 = Some ts1" and co: "collect x e (ts1 ! i) u dx w = Inr w1"
    and tr: "ss_traded x e u i j dx dy pf s1 s' w1 w'" by blast
  note sy = ss_sync_InrD [OF trade_view_caches(3) [OF v]]
  have ts: "ts1 = ts" using params_tokens [OF conjunct1 [OF sy]] ts1 assms(6) by simp
  from y have "pool_y x e s3 i j (xp ! i + (dx - df) * mu ! i) xp = Inr y" by (auto simp: quote_dy_def res_simps)
  from pool_y_curve [OF this] obtain c b d where cu: "curve_of x e s3 i j (xp ! i + (dx - df) * mu ! i) xp c b d"
    and on: "on_curve c b d y" by blast
  have le: "dy * mu ! j \<le> xp ! j - y - 1" unfolding r(3) by (rule div_times_less_eq_dividend)
  then have "y + 1 \<le> xp ! j - dy * mu ! j" using r(2) by linarith
  from curve_positive_above [OF on_curve_close(2) [OF on] this] have pos: "0 < curve_at c b d (xp ! j - dy * mu ! j)" .
  from v have "xp ! j \<le> U128_MAX" using scaled_le r(1) by (auto simp: trade_view_def)
  then have "dy \<le> U128_MAX" unfolding r(3) by (meson diff_le_self div_le_dividend le_trans)
  note moved = traded_balances [OF assms(1) tr ts1 assms(3,4) this]
    quiet_host.collect_moves [OF assms(1) co assms(3-5)]
  have bal: "balances_traded (cc_tokens x) me u (ts ! i) dx (ts ! j) dy w w'"
    unfolding balances_traded_def using moved distinct_tokens [OF tr ts1] assms(4,7) ts by auto
  have books: "pf \<le> rs ! i + dx" "dy \<le> rs ! j" "ss_reserves s' = Some (rs[i := rs ! i + dx - pf, j := rs ! j - dy])"
    "fees_of s' = (fees_of s)[i := fees_of s ! i + pf]"
    using tr trade_view_caches(2) [OF v] sy by (auto simp: ss_traded_def)
  have "y < xp ! j" "dy = (xp ! j - (y + 1)) div mu ! j" using r(2,3) by simp_all
  with v q cu on pos r(4) bal books show ?thesis by blast
qed

section \<open>What a swap with a fixed output costs\<close>

lemma ss_strict_parts:
  assumes run: "ss_swap_strict_receive x e u i j dy m (s, w) = Inr (dx, s', w')" and lib: "fixed_point_lib (cc_fp x)"
  shows "\<exists>s1 mu rs xp s3 fee pf v ts w1 w2. trade_view x e s w s1 mu rs xp s3 fee \<and>
    pool_y x e s3 j i (xp ! j - dy * mu ! j) xp = Inr v \<and> dy * mu ! j \<le> xp ! j \<and> xp ! i \<le> v \<and> 0 < mu ! i \<and>
    fee < FEE_DENOMINATOR \<and> dx = ceil_div ((v - xp ! i + 1) div mu ! i * FEE_DENOMINATOR) (FEE_DENOMINATOR - fee) \<and>
    ss_tokens s1 = Some ts \<and> collect x e (ts ! i) u m w = Inr w1 \<and> dx \<le> m \<and> refund x e (ts ! i) u m dx w1 = Inr w2 \<and>
    ss_traded x e u i j dx dy pf s1 s' w2 w'"
proof -
  from run obtain s1 mu s2 rs xp s3 coins w1 v fee pf w2 where
    view: "ss_sync_reserves x e s w = Inr s1" "get_precision_mul x w s1 = Inr (mu, s2)" "ss_reserves s2 = Some rs"
      "scaled x w rs s2 = Inr (xp, s3)" "ss_fee s3 = Some fee" and coins: "ss_tokens s3 = Some coins"
    and co: "collect x e (coins ! i) u m w = Inr w1"
    and y: "pool_y x e s3 j i (xp ! j - dy * mu ! j) xp = Inr v" "dy * mu ! j \<le> xp ! j" "xp ! i \<le> v" "mu ! i \<noteq> 0"
    and fee: "fee \<le> FEE_DENOMINATOR" "mul_ceil (cc_fp x) ((v - xp ! i + 1) div mu ! i) FEE_DENOMINATOR (FEE_DENOMINATOR - fee) = Inr dx"
    and m: "dx \<le> m" and rf: "refund x e (coins ! i) u m dx w1 = Inr w2"
    and bt: "book_trade x e u coins rs i j dx pf dy (s3, w2) = Inr (s', w')"
    by (auto simp: ss_swap_strict_receive_def input_needed_def add_fee_def Let_def res_simps not_less)
  have v: "trade_view x e s w s1 mu rs xp s3 fee" using view by (auto simp: trade_view_def)
  note c = trade_view_caches [OF v]
  have "ss_traded x e u i j dx dy pf s1 s' w2 w'" by (rule ss_tradedI [OF bt y(1) _ c(1) coins c(2)]) simp
  moreover have "ss_tokens s1 = Some coins" using coins caches_onlyD(1) [OF c(1)] by simp
  moreover have "fee < FEE_DENOMINATOR" "dx = ceil_div ((v - xp ! i + 1) div mu ! i * FEE_DENOMINATOR) (FEE_DENOMINATOR - fee)"
    using fee fixed_point_lib.mul_ceil_eq_Inr [OF lib] by auto
  ultimately show ?thesis using v y co m rf by blast
qed

lemma refunded_balances:
  assumes quiet: "quiet_host x me" and co: "collect x e t u m w = Inr w1" and rf: "refund x e t u m a w1 = Inr w2"
    and "current_contract e = me" and "u \<noteq> me" and "m \<le> U128_MAX" and "a \<le> m"
  shows "tk_balance (cc_tokens x) t' c w2 = tk_balance (cc_tokens x) t' c w +
    (if t' = t \<and> c = u then - int a else if t' = t \<and> c = me then int a else 0)"
proof (cases "a < m")
  case True
  then have p: "pay x e t u (m - a) w1 = Inr w2" using rf by (auto simp: refund_def res_simps)
  show ?thesis
    using quiet_host.pay_moves [OF quiet p assms(4,5)] quiet_host.collect_moves [OF quiet co assms(4-6)] assms(6,7)
    by (auto simp: of_nat_diff)
next
  case False
  then show ?thesis using quiet_host.collect_moves [OF quiet co assms(4-6)] assms(7) rf by (simp add: refund_def)
qed

text \<open>
  Claim C28: the input of a swap with a fixed output is rounded down to the token's precision, in the
  user's favour. With \<open>v\<close> the curve's balance of the sold token after the payment, the scaled need is
  \<open>v - xp ! i + 1\<close>; it is divided by the token's multiplier rounding down, the fee is added rounding up, and that is
  exactly what the user pays. So the input is nothing precisely when the need is below the multiplier.
\<close>

theorem strict_receive_rounds_down:
  assumes "quiet_host x me" and "ss_swap_strict_receive x e u i j dy m (s, w) = Inr (dx, s', w')"
    and "current_contract e = me" and "u \<noteq> me" and "m \<le> U128_MAX" and "dy \<le> U128_MAX"
    and "ss_tokens s = Some ts" and "distinct ts"
  shows "\<exists>s1 mu rs xp s3 fee v c b d. trade_view x e s w s1 mu rs xp s3 fee \<and> dy * mu ! j \<le> xp ! j \<and>
    curve_of x e s3 j i (xp ! j - dy * mu ! j) xp c b d \<and> on_curve c b d v \<and> xp ! i \<le> v \<and> fee < FEE_DENOMINATOR \<and>
    dx = ceil_div ((v - xp ! i + 1) div mu ! i * FEE_DENOMINATOR) (FEE_DENOMINATOR - fee) \<and>
    (dx = 0 \<longleftrightarrow> v - xp ! i + 1 < mu ! i) \<and> dx \<le> m \<and>
    balances_traded (cc_tokens x) me u (ts ! i) dx (ts ! j) dy w w'"
proof -
  from ss_strict_parts [OF assms(2) pool_host.lib [OF quiet_host.axioms(1) [OF assms(1)]]]
  obtain s1 mu rs xp s3 fee pf v ts1 w1 w2 where view: "trade_view x e s w s1 mu rs xp s3 fee"
    and y: "pool_y x e s3 j i (xp ! j - dy * mu ! j) xp = Inr v" and q: "dy * mu ! j \<le> xp ! j" "xp ! i \<le> v" "fee < FEE_DENOMINATOR"
      "dx = ceil_div ((v - xp ! i + 1) div mu ! i * FEE_DENOMINATOR) (FEE_DENOMINATOR - fee)" "dx \<le> m" and mu: "0 < mu ! i"
    and ts1: "ss_tokens s1 = Some ts1" and co: "collect x e (ts1 ! i) u m w = Inr w1"
    and rf: "refund x e (ts1 ! i) u m dx w1 = Inr w2" and tr: "ss_traded x e u i j dx dy pf s1 s' w2 w'" by blast
  have ts: "ts1 = ts" using params_tokens [OF conjunct1 [OF ss_sync_InrD [OF trade_view_caches(3) [OF view]]]] ts1 assms(7) by simp
  from pool_y_curve [OF y] obtain c b d where cu: "curve_of x e s3 j i (xp ! j - dy * mu ! j) xp c b d" "on_curve c b d v" by blast
  have "dx = 0 \<longleftrightarrow> (v - xp ! i + 1) div mu ! i * FEE_DENOMINATOR \<le> 0"
    unfolding q(4) using ceil_div_mult_ge [of "FEE_DENOMINATOR - fee" "(v - xp ! i + 1) div mu ! i * FEE_DENOMINATOR"] q(3) by auto
  also have "\<dots> \<longleftrightarrow> v - xp ! i + 1 < mu ! i" using mu by (simp add: FEE_DENOMINATOR_def div_eq_0_iff)
  finally have free: "dx = 0 \<longleftrightarrow> v - xp ! i + 1 < mu ! i" .
  have bal: "balances_traded (cc_tokens x) me u (ts ! i) dx (ts ! j) dy w w'"
    unfolding balances_traded_def
    using traded_balances [OF assms(1) tr ts1 assms(3,4,6)] refunded_balances [OF assms(1) co rf assms(3-5) q(5)]
      distinct_tokens [OF tr ts1] assms(4,8) ts by auto
  show ?thesis by (intro exI conjI) (rule view cu q free bal)+
qed

section \<open>A stable pool\<close>

definition stable_pool :: ss_pool where
  \<comment> \<open>the pool at address 9 trades token 11 (0 decimals) against token 12 (1 decimal) without a fee\<close>
  "stable_pool = (new_ss_pool 1)\<lparr>ss_tokens := Some [11, 12], ss_decimals := Some [0, 1], ss_precision_mul := Some [10, 1],
     ss_reserves := Some [100, 1000], ss_initial_a := Some 100, ss_initial_a_time := Some 0, ss_future_a := Some 100,
     ss_future_a_time := Some 0, ss_fee := Some 0, ss_deadline := Some 0, ss_protocol_fees := Some [0, 0],
     pl_managed := sample_managed, pl_plane := Some 60, pl_router := Some 61,
     pl_shares := \<lparr>sh_token = Some 50, sh_total = Some 2000\<rparr>\<rparr>"

definition stable_swapped :: ss_pool where
  "stable_swapped = stable_pool\<lparr>ss_reserves := Some [101, 991]\<rparr>"

definition stable_drained :: ss_pool where
  "stable_drained = stable_pool\<lparr>ss_reserves := Some [100, 995]\<rparr>"

definition tokens_world :: "(address \<Rightarrow> int option) \<Rightarrow> (address \<Rightarrow> int option) \<Rightarrow> gauge_world" where
  "tokens_world f g = (Map.empty, (snd sample_world)
     (11 := empty_token\<lparr>tok_ac := token_admin, tok_balance := f\<rparr>, 12 := empty_token\<lparr>tok_ac := token_admin, tok_balance := g\<rparr>))"

definition stable_world :: gauge_world where
  "stable_world = tokens_world [9 \<mapsto> 10000, 5 \<mapsto> 5000] [9 \<mapsto> 10000, 5 \<mapsto> 5000]"

lemma stable_moves:
  "collect (standard_calls anyone) fair_env 11 5 1 stable_world =
    Inr (tokens_world [9 \<mapsto> 10001, 5 \<mapsto> 4999] [9 \<mapsto> 10000, 5 \<mapsto> 5000])"
  "pay (standard_calls anyone) fair_env 12 5 9 (tokens_world [9 \<mapsto> 10001, 5 \<mapsto> 4999] [9 \<mapsto> 10000, 5 \<mapsto> 5000]) =
    Inr (tokens_world [9 \<mapsto> 10001, 5 \<mapsto> 4999] [9 \<mapsto> 9991, 5 \<mapsto> 5009])"
  "collect (standard_calls anyone) fair_env 11 5 0 stable_world = Inr stable_world"
  "pay (standard_calls anyone) fair_env 12 5 5 stable_world =
    Inr (tokens_world [9 \<mapsto> 10000, 5 \<mapsto> 5000] [9 \<mapsto> 9995, 5 \<mapsto> 5005])"
  by (simp_all add: collect_def pay_def stable_world_def tokens_world_def i128_fits_def as_i128_def I128_MAX_def fun_upd_twist
      sample_moves [where f = "[9 \<mapsto> 10000, 5 \<mapsto> 5000]" and a = 5000 and b = 10000]
      sample_moves [where f = "[9 \<mapsto> 10000, 5 \<mapsto> 5000]" and a = 10000 and b = 5000])

lemma all_less_two: "(\<forall>i < Suc (Suc 0). P i) \<longleftrightarrow> P 0 \<and> P 1"
  by (auto simp: less_Suc_eq)

lemma stable_muls: "precision_muls [0, 1] = Inr [10, 1]" "precision_muls [0, Suc 0] = Inr [10, 1]"
  by (simp_all add: precision_muls_def precision_of_def u_defs U128_MAX_def)

lemma stable_d: "pool_d x stable_pool [1000, 1000] 100 = Inr 2000" if "cc_fp x = exact_fixed_point" for x :: "'w host_calls"
  using that sample_balanced_d by (simp add: pool_d_def n_coins_def stored_def stable_pool_def numeral_2_eq_2)

lemma stable_amp: "amp_of fp fair_env stable_pool = Inr 100"
  by (simp add: amp_of_def stored_def stable_pool_def fair_env_def pool_env_def anyone_def)

lemma stable_pool_fields:
  "ss_tokens stable_pool = Some [11, 12]" "ss_reserves stable_pool = Some [100, 1000]" "ss_fee stable_pool = Some 0"
  "ss_decimals stable_pool = Some [0, 1]" "ss_precision_mul stable_pool = Some [10, 1]" "pl_killed_swap stable_pool = False"
  "ss_protocol_fees stable_pool = Some [0, 0]" "pl_protocol_fee_fraction stable_pool = 0" "pl_sync_ledger stable_pool = 0"
  "pl_plane stable_pool = Some 60" "ss_initial_a stable_pool = Some 100" "ss_initial_a_time stable_pool = Some 0"
  "ss_future_a stable_pool = Some 100" "ss_future_a_time stable_pool = Some 0" "ss_deadline stable_pool = Some 0"
  by (simp_all add: stable_pool_def new_ss_pool_def)

lemma stable_scaled [simp]:
  "ss_sync_reserves x fair_env stable_pool w = Inr stable_pool"
  "get_precision_mul x w stable_pool = Inr ([10, 1], stable_pool)"
  "scaled x w [100, 1000] stable_pool = Inr ([1000, 1000], stable_pool)"
  by (simp_all add: ss_sync_reserves_def get_precision_mul_def scaled_def get_decimals_def stable_pool_fields stable_muls
      u_defs U128_MAX_def del: One_nat_def)

lemma stable_book:
  "book_trade (standard_calls anyone) fair_env 5 [11, 12] [100, 1000] 0 1 1 0 9
     (stable_pool, tokens_world [9 \<mapsto> 10001, 5 \<mapsto> 4999] [9 \<mapsto> 10000, 5 \<mapsto> 5000]) =
   Inr (stable_swapped, tokens_world [9 \<mapsto> 10001, 5 \<mapsto> 4999] [9 \<mapsto> 9991, 5 \<mapsto> 5009])"
  "book_trade (standard_calls anyone) fair_env 5 [11, 12] [100, 1000] 0 1 0 0 5 (stable_pool, stable_world) =
   Inr (stable_drained, tokens_world [9 \<mapsto> 10000, 5 \<mapsto> 5000] [9 \<mapsto> 9995, 5 \<mapsto> 5005])"
  by (simp_all add: book_trade_def stored_def item_def put_item_def u_defs U128_MAX_def get_protocol_fees_def
      stable_pool_fields stable_moves ss_update_plane_def scaled_def get_decimals_def stable_muls
      stable_swapped_def stable_drained_def)

lemma stable_y: "pool_y (standard_calls anyone) fair_env stable_pool 0 1 1010 [1000, 1000] = Inr 990"
  using sample_y by (simp add: pool_y_def stable_amp n_coins_def stored_def stable_pool_fields numeral_2_eq_2 del: One_nat_def)

lemma stable_quote: "quote_dy (standard_calls anyone) fair_env stable_pool [10, 1] [1000, 1000] 0 1 1 0 = Inr 990"
  using stable_y by (simp add: quote_dy_def item_def u_defs U128_MAX_def del: One_nat_def)

lemma no_fee: "mul_ceil exact_fixed_point n 0 FEE_DENOMINATOR = Inr 0" "mul_ceil exact_fixed_point 0 n FEE_DENOMINATOR = Inr 0"
  by (simp_all add: mul_ceil_def exact_fixed_point_def ceil_div_def FEE_DENOMINATOR_def U128_MAX_def)

lemma stable_swap:
  "ss_swap (standard_calls anyone) fair_env 5 0 1 1 9 (stable_pool, stable_world) =
    Inr (9, stable_swapped, tokens_world [9 \<mapsto> 10001, 5 \<mapsto> 4999] [9 \<mapsto> 9991, 5 \<mapsto> 5009])"
  by (simp add: ss_swap_def require_auth_def stable_pool_fields stored_def item_def stable_moves reserves_not_empty_def
      no_fee protocol_part_def stable_quote stable_book u_sub_def u_div_def Let_def del: One_nat_def)

lemma stable_view:
  "trade_view (standard_calls anyone) fair_env stable_pool w s1 mu rs xp s3 fee \<longleftrightarrow>
    s1 = stable_pool \<and> mu = [10, 1] \<and> rs = [100, 1000] \<and> xp = [1000, 1000] \<and> s3 = stable_pool \<and> fee = 0"
  by (auto simp: trade_view_def stable_pool_fields simp del: One_nat_def)

lemma stable_curve:
  "curve_of (standard_calls anyone) fair_env stable_pool 0 1 1010 [1000, 1000] c b d \<longleftrightarrow> c = 9900 \<and> b = 1020 \<and> d = 2000"
  by (auto simp: curve_of_def stable_pool_fields stable_amp numeral_2_eq_2 [symmetric] sample_balanced_d sample_known
      sample_coefficients simp del: One_nat_def)

theorem stable_estimate_is_exact_witness:
  "\<exists>t. ss_estimate_swap (standard_calls anyone) fair_env 0 1 1 (stable_pool, stable_world) = Inr (9, t)"
  using stable_estimate_is_exact [OF stable_swap]
  by (auto simp: stable_view no_fee stable_quote simp del: One_nat_def)

theorem stable_swap_stays_above_curve_witness:
  "0 < curve_at 9900 1020 2000 (1000 - 9 * 1) \<and>
    balances_traded (gauge_world_tokens anyone) 9 5 11 1 12 9 stable_world
      (tokens_world [9 \<mapsto> 10001, 5 \<mapsto> 4999] [9 \<mapsto> 9991, 5 \<mapsto> 5009])"
  using stable_swap_stays_above_curve [OF standard_quiet_host.quiet_host_axioms stable_swap _ _ _ stable_pool_fields(1), where me = 9]
  by (auto simp: stable_view stable_curve no_fee U128_MAX_def simp del: One_nat_def)

section \<open>A strict swap for nothing\<close>

lemma strict_known: "known_balances 2 0 [1 \<mapsto> 995] [1000, 1000] = Inr [995]"
  by (simp add: known_balances_def numeral_2_eq_2)

lemma strict_coefficients: "y_coefficients exact_fixed_point 2 200 [995] 2000 = Inr (10050, 1005)"
  by (simp add: y_coefficients_def mul_floor_256_def exact_fixed_point_def u_defs U256_MAX_def)

lemma stable_strict_y: "pool_y (standard_calls anyone) fair_env stable_pool 1 0 995 [1000, 1000] = Inr 1005"
proof -
  have "get_y exact_fixed_point 2 (Inr 100) 1 0 995 [1000, 1000] = Inr 1005"
    by (simp add: get_y_def get_y_indices_def sample_balanced_d strict_known strict_coefficients u_mul_def U128_MAX_def
        NEWTON_ROUNDS_def y_step_def u_defs U256_MAX_def within_one_def del: One_nat_def)
  then show ?thesis
    by (simp add: pool_y_def stable_amp n_coins_def stored_def stable_pool_fields numeral_2_eq_2 del: One_nat_def)
qed

lemma stable_strict:
  "ss_swap_strict_receive (standard_calls anyone) fair_env 5 0 1 5 0 (stable_pool, stable_world) =
    Inr (0, stable_drained, tokens_world [9 \<mapsto> 10000, 5 \<mapsto> 5000] [9 \<mapsto> 9995, 5 \<mapsto> 5005])"
  by (simp add: ss_swap_strict_receive_def require_auth_def stable_pool_fields stored_def item_def stable_moves reserves_not_empty_def
      no_fee protocol_part_def stable_strict_y input_needed_def add_fee_def refund_def stable_book u_defs U128_MAX_def Let_def del: One_nat_def)

lemma stable_strict_curve:
  "curve_of (standard_calls anyone) fair_env stable_pool 1 0 995 [1000, 1000] c b d \<longleftrightarrow> c = 10050 \<and> b = 1005 \<and> d = 2000"
  by (auto simp: curve_of_def stable_pool_fields stable_amp numeral_2_eq_2 [symmetric] sample_balanced_d strict_known
      strict_coefficients simp del: One_nat_def)

text \<open>
  So in a pool of a token without decimals and one with a decimal, a user buys five units of the second
  and pays no unit of the first.
\<close>

theorem strict_receive_rounds_down_witness:
  "\<exists>v. on_curve 10050 1005 2000 v \<and> v - 1000 + 1 < 10 \<and>
    balances_traded (gauge_world_tokens anyone) 9 5 11 0 12 5 stable_world
      (tokens_world [9 \<mapsto> 10000, 5 \<mapsto> 5000] [9 \<mapsto> 9995, 5 \<mapsto> 5005])"
  using strict_receive_rounds_down [OF standard_quiet_host.quiet_host_axioms stable_strict _ _ _ _ stable_pool_fields(1), where me = 9]
  by (auto simp: stable_view stable_strict_curve U128_MAX_def simp del: One_nat_def)

section \<open>Histories\<close>

definition fair_at :: "nat \<Rightarrow> env" where
  "fair_at t = fair_env\<lparr>ledger_timestamp := t\<rparr>"

lemma fair_at_simps [simp]:
  "ledger_timestamp (fair_at t) = t" "current_contract (fair_at t) = 9" "authorized (fair_at t) a \<longleftrightarrow> a \<noteq> 9"
  "fair_env\<lparr>ledger_timestamp := t\<rparr> = fair_at t"
  by (simp_all add: fair_at_def)

definition ramped_pool :: ss_pool where
  "ramped_pool = stable_pool\<lparr>ss_initial_a_time := Some 100000, ss_future_a := Some 200, ss_future_a_time := Some 200000\<rparr>"

definition committed_pool :: ss_pool where
  "committed_pool = stable_pool\<lparr>ss_deadline := Some 259210, ss_future_fee := Some 30\<rparr>"

lemma stable_operator: "pool_role (fair_at t) 7 require_operations_admin_or_owner stable_pool = Inr ()"
  "pool_role (fair_at t) 7 require_operations_admin_or_owner committed_pool = Inr ()"
  by (simp_all add: pool_role_def require_auth_def require_operations_admin_or_owner_def sample_managed_def stable_pool_def
      committed_pool_def new_ss_pool_def address_has_role_def get_role_safe_def or_else_def)

lemma stable_plane:
  assumes "s = stable_pool\<lparr>ss_initial_a := a0, ss_initial_a_time := t0, ss_future_a := a1, ss_future_a_time := t1,
     ss_fee := f, ss_future_fee := g, ss_deadline := d\<rparr>"
    and "\<exists>v0 u0 v1 u1 h. a0 = Some v0 \<and> t0 = Some u0 \<and> a1 = Some v1 \<and> t1 = Some u1 \<and> f = Some h"
  shows "ss_update_plane (standard_calls te) e (s, w) = Inr (s, w)"
  using assms
  by (auto simp: ss_update_plane_def stored_def scaled_def get_decimals_def stable_pool_fields stable_muls u_defs U128_MAX_def)

lemma stable_ramp:
  "ss_ramp_a (standard_calls anyone) (fair_at 100000) 7 200 200000 (stable_pool, w) = Inr (ramped_pool, w)"
proof -
  have "ss_update_plane (standard_calls anyone) (fair_at 100000) (stable_pool\<lparr>ss_initial_a := Some 100, ss_future_a := Some 200,
      ss_initial_a_time := Some 100000, ss_future_a_time := Some 200000\<rparr>, w) = Inr (ramped_pool, w)"
    by (subst stable_plane) (auto simp: ramped_pool_def stable_pool_def new_ss_pool_def)
  then show ?thesis
    by (simp add: ss_ramp_a_def stable_operator stored_def stable_pool_fields amp_of_def u_defs U64_MAX_def U128_MAX_def
        MIN_RAMP_TIME_def MAX_A_def MAX_A_CHANGE_def)
qed

lemma stable_ramp_ok: "0 \<le> t \<Longrightarrow> ramp_ok t stable_pool"
  by (simp add: ramp_ok_def stable_pool_fields MAX_A_def)

theorem ramp_is_smooth_witness:
  "amp_of exact_fixed_point (fair_at 200000) ramped_pool = Inr 200 \<and>
    amp_of exact_fixed_point (fair_at 100000) ramped_pool = amp_of exact_fixed_point (fair_at 100000) stable_pool"
proof -
  have "fixed_point_lib (cc_fp (standard_calls anyone))" "ramp_ok (ledger_timestamp (fair_at 100000)) stable_pool"
    by (simp_all add: stable_ramp_ok)
  note r = ramp_is_smooth [OF this(1) stable_ramp this(2)]
  have "(fair_at 100000)\<lparr>ledger_timestamp := 200000\<rparr> = fair_at 200000" by (simp add: fair_at_def del: fair_at_simps(4))
  then show ?thesis using r by auto
qed

theorem amplification_stays_bounded_witness:
  "\<exists>a. amp_of exact_fixed_point (fair_at 150000) ramped_pool = Inr a \<and> 0 < a \<and> a < MAX_A"
proof -
  have "history (ss_step (standard_calls anyone)) (stable_pool, stable_world)
      [(100000, SsCall fair_env (SsOwn (SsRampA 7 200 200000)))] (ramped_pool, stable_world)"
    by (rule history_step [OF history_start]) (simp add: stable_ramp)
  from amplification_stays_bounded [OF _ stable_ramp_ok [of 0] this, of 150000 fair_env] show ?thesis by simp
qed

lemma stable_fee_history:
  "history (ss_step (standard_calls anyone)) (stable_pool, stable_world)
     [(10, SsCall fair_env (SsOwn (SsCommitFee 7 30)))] (committed_pool, stable_world)"
  by (rule history_step [OF history_start])
    (simp add: ss_commit_new_fee_def stable_operator stored_def stable_pool_fields FEE_DENOMINATOR_def ADMIN_ACTIONS_DELAY_def
      u_defs U64_MAX_def committed_pool_def local_def)

theorem stable_fee_is_delayed_witness:
  "\<exists>t f. committed_at fee_kind [(10, SsCall fair_env (SsOwn (SsCommitFee 7 30)) :: gauge_world ss_event)] t f \<and>
    t + 259200 \<le> 259210 \<and> Some 30 = Some f"
proof -
  let ?s = "committed_pool\<lparr>ss_deadline := Some 0, ss_fee := Some 30\<rparr>"
  have f: "ss_deadline committed_pool = Some 259210" "ss_future_fee committed_pool = Some 30" "ss_fee committed_pool = Some 0"
    by (simp_all add: committed_pool_def stable_pool_fields)
  have "ss_update_plane (standard_calls anyone) (fair_at 259210) (?s, stable_world) = Inr (?s, stable_world)"
    by (subst stable_plane) (auto simp: committed_pool_def stable_pool_def new_ss_pool_def)
  then have "ss_step (standard_calls anyone) 259210 (SsCall fair_env (SsOwn (SsApplyFee 7))) (committed_pool, stable_world) =
      Inr (?s, stable_world)"
    by (simp add: ss_apply_new_fee_def stable_operator stored_def f)
  from stable_fee_is_delayed [OF stable_fee_history _ this f(3)] show ?thesis by (simp add: stable_pool_fields)
qed

section \<open>A run\<close>

theorem stable_pool_stays_solvent_witness:
  "ss_covered (gauge_world_tokens anyone) 9 stable_swapped (tokens_world [9 \<mapsto> 10001, 5 \<mapsto> 4999] [9 \<mapsto> 9991, 5 \<mapsto> 5009])"
proof -
  have "ss_covered (cc_tokens (standard_calls anyone)) 9 stable_pool stable_world"
    by (simp add: ss_covered_def stable_pool_fields fees_of_def fees_from_def all_less_two gauge_world_balance token_world_def
        stable_world_def tokens_world_def read_balance_def empty_token_def)
  moreover have "ss_run (standard_calls anyone) (ss_fair_call 9) (no_less (cc_tokens (standard_calls anyone)) 9)
      (stable_pool, stable_world) (stable_swapped, tokens_world [9 \<mapsto> 10001, 5 \<mapsto> 4999] [9 \<mapsto> 9991, 5 \<mapsto> 5009])"
    by (rule ss_run.call [OF ss_run.start, where a = "SsTrade (SsSwap 5 0 1 1 9)" and e = fair_env])
      (simp_all add: stable_swap effect_def ss_fair_call_def U128_MAX_def del: One_nat_def)
  ultimately show ?thesis using stable_pool_stays_solvent [OF standard_host.pool_host_axioms] by fastforce
qed

end
