(* ===== verification/U512.thy ===== *)
theory U512
  imports Fixed_Point
begin

text \<open>
  \<^verbatim>\<open>liquidity_pool_concentrated/src/u512.rs\<close>: \<open>a * b / d\<close> with a 512-bit product, by
  schoolbook multiplication and long division (a byte at a time for \<open>d < 2\<^sup>2\<^sup>4\<^sup>8\<close>, a bit at a time
  above), on the host's \<^verbatim>\<open>U256\<close>. A \<^verbatim>\<open>U256\<close> is a \<open>nat\<close> of at most \<open>U256_MAX\<close>: the host's
  \<open>add\<close>, \<open>sub\<close>, \<open>mul\<close>, \<open>div\<close> and \<open>rem_euclid\<close> abort on overflow and on a zero divisor, its
  \<open>shl\<close> drops the bits that leave the width. The lemmas show that the partial products, carries
  and remainders never abort, and that the result is the exact rounded quotient whenever that
  quotient fits a \<^verbatim>\<open>U256\<close>.
\<close>

section \<open>The host's 256-bit shifts and byte order\<close>

definition u256_shl :: "nat \<Rightarrow> nat \<Rightarrow> nat" where
  "u256_shl x k = x * 2 ^ k mod 2 ^ 256"

definition u256_shr :: "nat \<Rightarrow> nat \<Rightarrow> nat" where
  "u256_shr x k = x div 2 ^ k"

definition to_be_bytes :: "nat \<Rightarrow> nat list" where
  "to_be_bytes x = map (\<lambda>i. x div 256 ^ (31 - i) mod 256) [0..<32]"

section \<open>The code\<close>

record u512 =
  u512_hi :: nat
  u512_lo :: nat

definition lo128 :: "nat \<Rightarrow> nat res" where
  "lo128 a = u_sub a (u256_shl (u256_shr a 128) 128)"

definition wrapping_add :: "nat \<Rightarrow> nat \<Rightarrow> (nat \<times> bool) res" where
  "wrapping_add a b =
     andthen (u_sub U256_MAX a) (\<lambda>remaining.
     if b \<le> remaining then
       andthen (u256_add a b) (\<lambda>s. Inr (s, False))
     else
       andthen (u_sub b remaining) (\<lambda>x.
       andthen (u_sub x 1) (\<lambda>y. Inr (y, True))))"

definition u256_full_mul :: "nat \<Rightarrow> nat \<Rightarrow> u512 res" where
  "u256_full_mul a b =
     andthen (lo128 a) (\<lambda>a_lo.
     andthen (Inr (u256_shr a 128)) (\<lambda>a_hi.
     andthen (lo128 b) (\<lambda>b_lo.
     andthen (Inr (u256_shr b 128)) (\<lambda>b_hi.
     andthen (u256_mul a_lo b_lo) (\<lambda>lo_lo.
     andthen (u256_mul a_hi b_lo) (\<lambda>hi_lo.
     andthen (u256_mul a_lo b_hi) (\<lambda>lo_hi.
     andthen (u256_mul a_hi b_hi) (\<lambda>hi_hi.
     andthen (wrapping_add hi_lo lo_hi) (\<lambda>(cross, cross_carried).
     andthen (Inr (of_bool cross_carried)) (\<lambda>cross_carry.
     andthen (lo128 cross) (\<lambda>cross_lo.
     andthen (wrapping_add lo_lo (u256_shl cross_lo 128)) (\<lambda>(lo, lo_carried).
     andthen (Inr (of_bool lo_carried)) (\<lambda>lo_carry.
     andthen (u256_add hi_hi (u256_shr cross 128)) (\<lambda>h1.
     andthen (u256_add h1 (u256_shl cross_carry 128)) (\<lambda>h2.
     andthen (u256_add h2 lo_carry) (\<lambda>hi.
     Inr \<lparr>u512_hi = hi, u512_lo = lo\<rparr>))))))))))))))))"

definition div_byte :: "nat \<Rightarrow> nat \<Rightarrow> nat \<times> nat \<Rightarrow> (nat \<times> nat) res" where
  "div_byte d byte_val = (\<lambda>(quotient, remainder).
     andthen (u256_add (u256_shl remainder 8) byte_val) (\<lambda>r.
     andthen (u_div r d) (\<lambda>q_chunk.
     andthen (u_rem r d) (\<lambda>remainder.
     andthen (u256_add (u256_shl quotient 8) q_chunk) (\<lambda>quotient.
     Inr (quotient, remainder))))))"

definition u512_div_bytes :: "nat \<Rightarrow> nat \<Rightarrow> nat \<Rightarrow> (nat \<times> nat) res" where
  "u512_div_bytes hi lo d = fold_res (div_byte d) (to_be_bytes hi @ to_be_bytes lo) (0, 0)"

definition div_bit :: "nat \<Rightarrow> nat \<Rightarrow> nat \<times> nat \<Rightarrow> (nat \<times> nat) res" where
  "div_bit d b = (\<lambda>(quotient, remainder).
     andthen (wrapping_add remainder remainder) (\<lambda>(doubled, carry).
     andthen (if b \<noteq> 0 then u256_add doubled 1 else Inr doubled) (\<lambda>rem_with_bit.
     if carry \<or> d \<le> rem_with_bit then
       andthen
         (if carry then
            andthen (u_sub U256_MAX d) (\<lambda>c.
            andthen (u256_add c 1) (\<lambda>complement.
            u256_add rem_with_bit complement))
          else u_sub rem_with_bit d) (\<lambda>remainder.
       andthen (u256_add (u256_shl quotient 1) 1) (\<lambda>quotient.
       Inr (quotient, remainder)))
     else Inr (u256_shl quotient 1, rem_with_bit))))"

definition lo_bit :: "nat \<Rightarrow> nat \<Rightarrow> nat" where
  \<comment> \<open>bit \<open>255 - i\<close> of \<open>lo\<close>: byte \<open>i / 8\<close> of its big-endian bytes, bit \<open>7 - i % 8\<close>\<close>
  "lo_bit lo i = to_be_bytes lo ! (i div 8) div 2 ^ (7 - i mod 8) mod 2"

definition u512_div_bits :: "nat \<Rightarrow> nat \<Rightarrow> nat \<Rightarrow> (nat \<times> nat) res" where
  "u512_div_bits hi lo d = fold_res (div_bit d) (map (lo_bit lo) [0..<256]) (0, hi)"

definition mul_div_internal :: "nat \<Rightarrow> nat \<Rightarrow> nat \<Rightarrow> bool \<Rightarrow> nat res" where
  "mul_div_internal a b d round_up =
     (if a = 0 \<or> b = 0 then Inr 0
      else if u256_shr a 128 = 0 \<and> u256_shr b 128 = 0 then
        andthen (u256_mul a b) (\<lambda>product.
        andthen (u_div product d) (\<lambda>quotient.
        andthen (u_rem product d) (\<lambda>remainder.
        if round_up \<and> remainder \<noteq> 0 then u256_add quotient 1 else Inr quotient)))
      else
        andthen (u256_full_mul a b) (\<lambda>product.
        andthen
          (if u256_shr d 248 = 0
           then u512_div_bytes (u512_hi product) (u512_lo product) d
           else u512_div_bits (u512_hi product) (u512_lo product) d) (\<lambda>(quotient, remainder).
        if round_up \<and> remainder \<noteq> 0 then u256_add quotient 1 else Inr quotient)))"

definition mul_div_floor :: "nat \<Rightarrow> nat \<Rightarrow> nat \<Rightarrow> nat res" where
  "mul_div_floor a b d = mul_div_internal a b d False"

definition mul_div_ceil :: "nat \<Rightarrow> nat \<Rightarrow> nat \<Rightarrow> nat res" where
  "mul_div_ceil a b d = mul_div_internal a b d True"

section \<open>The product\<close>

lemma lo128_eq:
  assumes "a < 2 ^ 256"
  shows "lo128 a = Inr (a mod 2 ^ 128)"
proof -
  have le: "a div 2 ^ 128 * 2 ^ 128 \<le> a" by (rule div_times_less_eq_dividend)
  with assms have "a div 2 ^ 128 * 2 ^ 128 mod 2 ^ 256 = a div 2 ^ 128 * 2 ^ 128"
    by (intro mod_less) linarith
  with le show ?thesis
    by (simp only: lo128_def u256_shl_def u256_shr_def u_sub_def minus_div_mult_eq_mod if_True)
qed

lemma wrapping_add_eq:
  assumes "a < 2 ^ 256" and "b < 2 ^ 256"
  shows "wrapping_add a b = Inr ((a + b) mod 2 ^ 256, 2 ^ 256 \<le> a + b)"
proof -
  obtain M :: nat where M: "2 ^ 256 = M" "U256_MAX = M - 1" "0 < M"
    by (simp add: U256_MAX_def)
  note ab = assms [unfolded M(1)]
  have "(a + b) mod M = (if a + b < M then a + b else a + b - M)"
    using ab by (simp add: mod_if)
  then show ?thesis
    unfolding M(1) wrapping_add_def u_defs M(2) using ab M(3) by auto
qed

lemma carry_split: "x = of_bool (M \<le> x) * M + x mod M" if "x < 2 * M" for x M :: nat
  using that by (cases "M \<le> x") (auto simp: le_mod_geq)

lemma schoolbook:
  fixes al ah bl bh A :: nat
  assumes "hl + lh = c * (A * A) + cross" and "ll + cross mod A * A = c' * (A * A) + lo"
    and "ll = al * bl" and "hl = ah * bl" and "lh = al * bh" and "hh = ah * bh"
  shows "(hh + cross div A + c * A + c') * (A * A) + lo = (ah * A + al) * (bh * A + bl)"
proof -
  have "(ah * A + al) * (bh * A + bl) = hh * (A * A) + (hl + lh) * A + ll"
    using assms(3-6) by (simp add: algebra_simps)
  also have "\<dots> = hh * (A * A) + c * (A * A) * A + cross * A + ll"
    by (simp add: assms(1) algebra_simps)
  also have "cross * A = cross div A * (A * A) + cross mod A * A"
    by (metis (no_types) add_mult_distrib div_mult_mod_eq mult.assoc)
  finally show ?thesis
    using assms(2) by (simp add: algebra_simps)
qed

lemma u256_full_mul_eq:
  assumes "a < 2 ^ 256" and "b < 2 ^ 256"
  shows "\<exists>p. u256_full_mul a b = Inr p \<and> u512_hi p * 2 ^ 256 + u512_lo p = a * b
    \<and> u512_lo p < 2 ^ 256"
proof -
  define A :: nat where "A = 2 ^ 128"
  have AA: "2 ^ 256 = A * A" by (simp add: A_def)
  define al ah bl bh where "al = a mod A" and "ah = a div A" and "bl = b mod A" and "bh = b div A"
  have small: "al < A" "ah < A" "bl < A" "bh < A"
    using assms by (simp_all add: al_def ah_def bl_def bh_def A_def)
  have prod: "x * y < A * A" if "x < A" and "y < A" for x y
    using that by (rule mult_strict_mono') simp_all
  define cross where "cross = (ah * bl + al * bh) mod (A * A)"
  define c :: nat where "c = of_bool (A * A \<le> ah * bl + al * bh)"
  define lo where "lo = (al * bl + cross mod A * A) mod (A * A)"
  define c' :: nat where "c' = of_bool (A * A \<le> al * bl + cross mod A * A)"
  have cross: "ah * bl + al * bh = c * (A * A) + cross"
    unfolding cross_def c_def by (rule carry_split) (use prod [of ah bl] prod [of al bh] small in linarith)
  have crossA: "cross mod A * A < A * A"
    by (simp add: A_def)
  have lo: "al * bl + cross mod A * A = c' * (A * A) + lo"
    unfolding lo_def c'_def by (rule carry_split) (use prod [of al bl] small crossA in linarith)
  define hi where "hi = ah * bh + cross div A + c * A + c'"
  have total: "hi * (A * A) + lo = a * b"
    using schoolbook [OF cross lo refl refl refl refl]
    by (simp add: hi_def al_def ah_def bl_def bh_def)
  have "a * b < 2 ^ 256 * 2 ^ 256"
    using assms by (rule mult_strict_mono') simp_all
  then have "hi * (A * A) < A * A * (A * A)"
    unfolding AA total [symmetric] by linarith
  then have hi: "hi < A * A" by simp
  have "lo < A * A" by (simp add: lo_def A_def)
  have "cross < A * A" by (simp add: cross_def A_def)
  have fits: "u256_mul x y = Inr (x * y)" if "x < A" and "y < A" for x y
    using prod [OF that] by (simp only: u_mul_def le_U256_MAX_iff AA if_True)
  have adds: "u256_add (ah * bh) (cross div A) = Inr (ah * bh + cross div A)"
    "u256_add (ah * bh + cross div A) (c * A) = Inr (ah * bh + cross div A + c * A)"
    "u256_add (ah * bh + cross div A + c * A) c' = Inr hi"
    using hi by (simp_all add: u_add_def le_U256_MAX_iff AA hi_def del: power_numeral)
  have sh: "u256_shl (cross mod A) 128 = cross mod A * A" "u256_shl c 128 = c * A"
    "u256_shr cross 128 = cross div A" "u256_shr a 128 = ah" "u256_shr b 128 = bh"
    using crossA by (simp_all add: u256_shl_def u256_shr_def A_def c_def ah_def bh_def)
  have lo128s: "lo128 a = Inr al" "lo128 b = Inr bl" "lo128 cross = Inr (cross mod A)"
    using lo128_eq [OF assms(1)] lo128_eq [OF assms(2)] lo128_eq [of cross] \<open>cross < A * A\<close>
    by (simp_all only: al_def bl_def A_def AA)
  have wraps:
    "wrapping_add (ah * bl) (al * bh) = Inr (cross, A * A \<le> ah * bl + al * bh)"
    "wrapping_add (al * bl) (cross mod A * A) = Inr (lo, A * A \<le> al * bl + cross mod A * A)"
    using wrapping_add_eq [of "ah * bl" "al * bh"] wrapping_add_eq [of "al * bl" "cross mod A * A"]
      small prod crossA by (simp_all only: AA cross_def lo_def)
  have "u256_full_mul a b = Inr \<lparr>u512_hi = hi, u512_lo = lo\<rparr>"
    by (simp only: u256_full_mul_def lo128s sh andthen_simps fits small wraps prod.case
        c_def [symmetric] c'_def [symmetric] adds)
  with total \<open>lo < A * A\<close> AA show ?thesis by auto
qed

section \<open>Long division\<close>

lemma fold_digits:
  "foldl (\<lambda>v b. v * c + b) h (map (\<lambda>i. x div c ^ (n - 1 - i) mod c) [0..<n]) = h * c ^ n + x mod c ^ n"
  for x c h :: nat
proof (induction n arbitrary: h)
  case (Suc n)
  have "map (\<lambda>i. x div c ^ (Suc n - 1 - i) mod c) [0..<Suc n]
    = x div c ^ n mod c # map (\<lambda>i. x div c ^ (n - 1 - i) mod c) [0..<n]"
    by (simp add: upt_conv_Cons map_Suc_upt [symmetric] del: upt_Suc)
  then show ?case
    using Suc [of "h * c + x div c ^ n mod c"] mod_mult2_eq [of x "c ^ n" c]
    by (simp add: algebra_simps)
qed simp

lemma fold_bytes: "x < 2 ^ 256 \<Longrightarrow> foldl (\<lambda>v b. v * 256 + b) h (to_be_bytes x) = h * 2 ^ 256 + x"
  using fold_digits [of 256 h x 32] by (simp add: to_be_bytes_def)

lemma to_be_bytes_less: "b \<in> set (to_be_bytes x) \<Longrightarrow> b < 256"
  by (auto simp: to_be_bytes_def)

lemma lo_bit_eq: "i < 256 \<Longrightarrow> lo_bit x i = x div 2 ^ (255 - i) mod 2"
proof -
  assume i: "i < 256"
  define y where "y = x div 256 ^ (31 - i div 8)"
  define k where "k = 7 - i mod 8"
  obtain q r where "i div 8 = q" and "i mod 8 = r" and qr: "i = 8 * q + r" "r < 8" "q < 32"
  proof (rule that [OF refl refl])
    show "i = 8 * (i div 8) + i mod 8" by simp
    show "i mod 8 < 8" by simp
    show "i div 8 < 32" using i by (rule less_mult_imp_div_less [of i 32 8, simplified])
  qed
  then have k: "k < 8" and e: "255 - i = 8 * (31 - i div 8) + k"
    by (simp_all add: k_def)
  have two8: "(2 :: nat) ^ 8 = 256" by simp
  have "i div 8 < 32" using i by (rule less_mult_imp_div_less [of i 32 8, simplified])
  then have "lo_bit x i = y mod 2 ^ 8 div 2 ^ k mod 2"
    by (simp add: lo_bit_def to_be_bytes_def y_def k_def)
  also have "\<dots> = of_bool (bit (take_bit 8 y) k)"
    by (simp add: take_bit_eq_mod bit_iff_odd mod_2_eq_odd)
  also have "\<dots> = of_bool (bit y k)"
    using k by (simp add: bit_take_bit_iff)
  also have "\<dots> = y div 2 ^ k mod 2"
    by (simp add: bit_iff_odd mod_2_eq_odd)
  also have "y div 2 ^ k = x div 2 ^ (255 - i)"
    by (simp only: e y_def power_add power_mult div_mult2_eq two8)
  finally show ?thesis .
qed

lemma fold_bits:
  assumes "x < 2 ^ 256"
  shows "foldl (\<lambda>v b. v * 2 + b) h (map (lo_bit x) [0..<256]) = h * 2 ^ 256 + x"
proof -
  have "map (lo_bit x) [0..<256] = map (\<lambda>i. x div 2 ^ (256 - 1 - i) mod 2) [0..<256]"
    by (rule map_cong) (simp_all add: lo_bit_eq)
  with fold_digits [of 2 h x 256] assms show ?thesis by (simp only: mod_less)
qed

lemma lo_bits_less: "b \<in> set (map (lo_bit x) bs) \<Longrightarrow> b < 2"
  by (auto simp: lo_bit_def)

lemma long_div_step:
  fixes v d b c :: nat
  assumes "0 < d"
  shows "(v * c + b) div d = v div d * c + (v mod d * c + b) div d"
    and "(v * c + b) mod d = (v mod d * c + b) mod d"
proof -
  have "v * c + b = d * (v div d * c) + (v mod d * c + b)"
    by (metis (no_types) add.assoc add_mult_distrib div_mult_mod_eq mult.commute mult.left_commute)
  then show "(v * c + b) div d = v div d * c + (v mod d * c + b) div d"
    and "(v * c + b) mod d = (v mod d * c + b) mod d"
    using assms by (metis div_mult_self2 add.commute less_not_refl2, metis mod_mult_self2 add.commute)
qed

lemma div_byte_eq:
  assumes "0 < d" and "d < 2 ^ 248" and "b < 256"
  shows "div_byte d b (v div d mod 2 ^ 256, v mod d) =
    Inr ((v * 256 + b) div d mod 2 ^ 256, (v * 256 + b) mod d)"
proof -
  define r where "r = v mod d * 256 + b"
  define q where "q = v div d mod 2 ^ 248"
  have "v mod d + 1 \<le> 2 ^ 248" using assms mod_less_divisor [OF assms(1), of v] by linarith
  then have r: "v mod d * 256 < 2 ^ 256" "r < 2 ^ 256" using assms(3) by (simp_all add: r_def)
  have "r < d * 256" using assms mod_less_divisor [OF assms(1), of v] by (simp add: r_def)
  then have c: "r div d < 256" by (simp add: less_mult_imp_div_less mult.commute)
  have q': "v div d * 256 mod 2 ^ 256 = q * 256"
    using mult_mod_left [of "v div d" "2 ^ 248" 256] by (simp add: q_def)
  have q: "v div d mod 2 ^ 256 * 256 mod 2 ^ 256 = q * 256"
    by (rule trans [OF mod_mult_left_eq q'])
  have q2: "q * 256 + r div d < 2 ^ 256"
    using c mod_less_divisor [of "2 ^ 248" "v div d"] by (simp add: q_def)
  have "(v div d * 256 + r div d) mod 2 ^ 256 = (q * 256 + r div d) mod 2 ^ 256"
    by (rule mod_add_cong [OF _ refl]) (metis q' mod_mod_trivial)
  then have quot: "(v * 256 + b) div d mod 2 ^ 256 = q * 256 + r div d"
    unfolding long_div_step(1) [OF assms(1)] r_def [symmetric] mod_less [OF q2] .
  have "u256_add (u256_shl (v mod d) 8) b = Inr r"
    using r by (simp add: u256_shl_def u_add_def U256_MAX_def r_def)
  moreover have "u256_add (u256_shl (v div d mod 2 ^ 256) 8) (r div d) = Inr (q * 256 + r div d)"
    using q q2 by (simp add: u256_shl_def u_add_def U256_MAX_def)
  moreover have "u_div r d = Inr (r div d)" and "u_rem r d = Inr (r mod d)"
    using assms by (simp_all add: u_defs)
  ultimately show ?thesis
    by (simp only: div_byte_def prod.case andthen_simps quot long_div_step(2) [OF assms(1)]
        r_def [symmetric])
qed

lemma div_bytes_loop:
  assumes "0 < d" and "d < 2 ^ 248" and "\<And>b. b \<in> set bs \<Longrightarrow> b < 256"
  shows "fold_res (div_byte d) bs (v div d mod 2 ^ 256, v mod d)
    = (let w = foldl (\<lambda>v b. v * 256 + b) v bs in Inr (w div d mod 2 ^ 256, w mod d))"
  using assms(3)
proof (induction bs arbitrary: v)
  case (Cons b bs)
  then show ?case
    using div_byte_eq [OF assms(1,2), of b v] by (simp only: fold_res.simps foldl.simps andthen_simps) simp
qed (simp only: fold_res.simps foldl.simps Let_def)

lemma u512_div_bytes_eq:
  assumes "0 < d" and "d < 2 ^ 248" and "hi < 2 ^ 256" and "lo < 2 ^ 256"
  shows "u512_div_bytes hi lo d =
    Inr ((hi * 2 ^ 256 + lo) div d mod 2 ^ 256, (hi * 2 ^ 256 + lo) mod d)"
proof -
  have "fold_res (div_byte d) (to_be_bytes hi @ to_be_bytes lo) (0 div d mod 2 ^ 256, 0 mod d)
    = Inr ((hi * 2 ^ 256 + lo) div d mod 2 ^ 256, (hi * 2 ^ 256 + lo) mod d)"
    by (subst div_bytes_loop [OF assms(1,2)])
      (auto dest: to_be_bytes_less simp: fold_bytes [OF assms(3)] fold_bytes [OF assms(4)] Let_def
        simp del: power_numeral)
  then show ?thesis
    by (simp only: u512_div_bytes_def div_0 mod_0)
qed

lemma div_bit_eq:
  assumes "0 < d" and "d < 2 ^ 256" and "b < 2"
  shows "div_bit d b (v div d mod 2 ^ 256, v mod d) =
    Inr ((v * 2 + b) div d mod 2 ^ 256, (v * 2 + b) mod d)"
proof -
  obtain M N :: nat where M: "2 ^ 256 = M" "U256_MAX = M - 1" "M = 2 * N" "0 < N"
    by (rule that [of "2 ^ 256" "2 ^ 255"]) (simp_all add: U256_MAX_def)
  define r where "r = v mod d"
  define q where "q = v div d"
  note d = assms(1) assms(2) [unfolded M(1)]
  have r: "r < d" using assms(1) by (simp add: r_def)
  have b: "b = 0 \<or> b = 1" using assms(3) by linarith
  have wrap: "wrapping_add r r = Inr (if 2 * r < M then 2 * r else 2 * r - M, M \<le> 2 * r)"
    using wrapping_add_eq [of r r] r d unfolding M(1) by (simp add: mod_if flip: mult_2)
  have dbl: "q mod M * 2 mod M + 1 \<le> M - 1"
  proof -
    have "q mod M * 2 mod M = q mod M mod N * 2"
      unfolding M(3) using mult_mod_left [of "q mod M" N 2] by (simp add: M(3) mult.commute)
    then show ?thesis using M(3,4) mod_less_divisor [OF M(4), of "q mod M"] by linarith
  qed
  have bit: "(r * 2 + b) div d = of_bool (d \<le> r * 2 + b)"
    "(r * 2 + b) mod d = (if d \<le> r * 2 + b then r * 2 + b - d else r * 2 + b)"
  proof -
    have "r * 2 + b < 2 * d" using r b by linarith
    then show "(r * 2 + b) div d = of_bool (d \<le> r * 2 + b)"
      and "(r * 2 + b) mod d = (if d \<le> r * 2 + b then r * 2 + b - d else r * 2 + b)"
      using le_div_geq [OF assms(1), of "r * 2 + b"] le_mod_geq [of d "r * 2 + b"]
      by (cases "d \<le> r * 2 + b"; simp)+
  qed
  have quot: "(q * 2 + k) mod M = q mod M * 2 mod M + k" if "k \<le> 1" for k
  proof -
    have "(q * 2 + k) mod M = (q mod M * 2 mod M + k) mod M"
      by (simp add: mod_add_left_eq mod_mult_left_eq)
    then show ?thesis using dbl that M(3,4) by (simp add: mod_less)
  qed
  have step: "(v * 2 + b) div d = q * 2 + of_bool (d \<le> r * 2 + b)"
    "(v * 2 + b) mod d = (if d \<le> r * 2 + b then r * 2 + b - d else r * 2 + b)"
    using long_div_step [OF assms(1), of v 2 b] bit by (simp_all flip: q_def r_def)
  have q1: "(q * 2 + of_bool B) mod M = q mod M * 2 mod M + of_bool B" for B
    by (rule quot) simp
  show ?thesis
    unfolding step q1 M(1) q_def [symmetric] r_def [symmetric] div_bit_def prod.case wrap
      andthen_simps u256_shl_def u_defs M(2)
    using b r d dbl M(3,4) unfolding M(1) by (elim disjE) (auto simp: u_defs M(2); linarith)+
qed

lemma div_bits_loop:
  assumes "0 < d" and "d < 2 ^ 256" and "\<And>b. b \<in> set bs \<Longrightarrow> b < 2"
  shows "fold_res (div_bit d) bs (v div d mod 2 ^ 256, v mod d)
    = (let w = foldl (\<lambda>v b. v * 2 + b) v bs in Inr (w div d mod 2 ^ 256, w mod d))"
  using assms(3)
proof (induction bs arbitrary: v)
  case (Cons b bs)
  then show ?case
    using div_bit_eq [OF assms(1,2), of b v] by (simp only: fold_res.simps foldl.simps andthen_simps) simp
qed (simp only: fold_res.simps foldl.simps Let_def)

lemma u512_div_bits_eq:
  assumes "hi < d" and "d < 2 ^ 256" and "lo < 2 ^ 256"
  shows "u512_div_bits hi lo d =
    Inr ((hi * 2 ^ 256 + lo) div d mod 2 ^ 256, (hi * 2 ^ 256 + lo) mod d)"
proof -
  have d: "0 < d" using assms(1) by simp
  have "fold_res (div_bit d) (map (lo_bit lo) [0..<256]) (hi div d mod 2 ^ 256, hi mod d)
    = Inr ((hi * 2 ^ 256 + lo) div d mod 2 ^ 256, (hi * 2 ^ 256 + lo) mod d)"
    using div_bits_loop [OF d assms(2) lo_bits_less]
    by (simp only: fold_bits [OF assms(3)] Let_def)
  then show ?thesis
    using assms(1) by (simp only: u512_div_bits_def div_less mod_less mod_0)
qed

section \<open>The quotient\<close>

lemma shr_zero_iff: "u256_shr x k = 0 \<longleftrightarrow> x < 2 ^ k"
  by (simp add: u256_shr_def div_eq_0_iff)

lemma mul_div_internal_eq:
  assumes "a \<le> U256_MAX" and "b \<le> U256_MAX" and "d \<le> U256_MAX" and "0 < d"
    and fits: "a * b div d \<le> U256_MAX"
  shows "mul_div_internal a b d up =
    (if up \<and> a * b mod d \<noteq> 0 then u256_add (a * b div d) 1 else Inr (a * b div d))"
proof -
  note w = assms(1-3) [unfolded le_U256_MAX_iff]
  consider (zero) "a = 0 \<or> b = 0"
    | (fast) "a \<noteq> 0" "b \<noteq> 0" "a < 2 ^ 128" "b < 2 ^ 128"
    | (slow) "a \<noteq> 0" "b \<noteq> 0" "\<not> (a < 2 ^ 128 \<and> b < 2 ^ 128)"
    by blast
  then show ?thesis
  proof cases
    case zero
    then show ?thesis by (auto simp: mul_div_internal_def)
  next
    case fast
    have "a * b < 2 ^ 128 * 2 ^ 128" using fast(3,4) by (rule mult_strict_mono') simp_all
    then have "u256_mul a b = Inr (a * b)"
      by (simp add: u_mul_def le_U256_MAX_iff)
    with fast assms(4) show ?thesis
      by (simp only: mul_div_internal_def shr_zero_iff u_div_def u_rem_def andthen_simps) simp
  next
    case slow
    obtain p where p: "u256_full_mul a b = Inr p"
      and ab: "u512_hi p * 2 ^ 256 + u512_lo p = a * b" and lo: "u512_lo p < 2 ^ 256"
      using u256_full_mul_eq [OF w(1,2)] by blast
    have "a * b < (U256_MAX + 1) * d"
      using fits assms(4) by (metis div_less_iff_less_mult less_Suc_eq_le Suc_eq_plus1)
    then have "u512_hi p * 2 ^ 256 < d * 2 ^ 256"
      unfolding ab [symmetric] by (simp add: U256_MAX_def)
    then have hi: "u512_hi p < d" by simp
    from hi w(3) have hi256: "u512_hi p < 2 ^ 256" by (rule order_less_trans)
    have "(if u256_shr d 248 = 0 then u512_div_bytes (u512_hi p) (u512_lo p) d
        else u512_div_bits (u512_hi p) (u512_lo p) d) = Inr (a * b div d, a * b mod d)"
      using u512_div_bytes_eq [OF assms(4) _ hi256 lo] u512_div_bits_eq [OF hi w(3) lo]
        mod_less [OF fits [unfolded le_U256_MAX_iff]]
      by (cases "d < 2 ^ 248") (simp_all only: ab shr_zero_iff if_True if_False)
    with slow p show ?thesis
      by (simp only: mul_div_internal_def shr_zero_iff andthen_simps prod.case) simp
  qed
qed

lemma mul_div_floor_exact:
  assumes "a \<le> U256_MAX" and "b \<le> U256_MAX" and "d \<le> U256_MAX" and "0 < d"
    and "a * b div d \<le> U256_MAX"
  shows "mul_div_floor a b d = Inr (a * b div d)"
  using mul_div_internal_eq [OF assms] by (simp add: mul_div_floor_def)

lemma mul_div_ceil_exact:
  assumes "a \<le> U256_MAX" and "b \<le> U256_MAX" and "d \<le> U256_MAX" and "0 < d"
    and "ceil_div (a * b) d \<le> U256_MAX"
  shows "mul_div_ceil a b d = Inr (ceil_div (a * b) d)"
  using mul_div_internal_eq [OF assms(1-4), of True] assms(5) div_le_ceil_div [of "a * b" d]
  by (cases "a * b mod d = 0") (simp_all add: mul_div_ceil_def ceil_div_def u_add_def)

text \<open>
  So the routine meets the contract of \<open>mul_div\<close> wherever the rounded-up quotient fits. It also
  returns 0, whatever the divisor (0 included), when a factor is 0.
\<close>

definition mul_div_dom :: "nat \<Rightarrow> nat \<Rightarrow> nat \<Rightarrow> bool" where
  "mul_div_dom a b d \<longleftrightarrow> a \<le> U256_MAX \<and> b \<le> U256_MAX \<and> d \<le> U256_MAX \<and> 0 < d
    \<and> ceil_div (a * b) d \<le> U256_MAX"

interpretation u512: mul_div mul_div_floor mul_div_ceil mul_div_dom
  by unfold_locales
    (auto simp: mul_div_dom_def intro!: mul_div_floor_exact mul_div_ceil_exact
      elim: order_trans [OF div_le_ceil_div])

lemma mul_div_zero: "a = 0 \<or> b = 0 \<Longrightarrow> mul_div_internal a b d up = Inr 0"
  by (simp add: mul_div_internal_def)

end
