(* ===== verification/Bitmap.thy ===== *)
theory Bitmap
  imports U512 "HOL-Library.Word" "HOL-Library.Signed_Division"
begin

text \<open>
  \<^verbatim>\<open>liquidity_pool_concentrated/src/bitmap.rs\<close> and \<open>constants.rs\<close>: bit searches on the 32
  big-endian bytes of a \<^verbatim>\<open>U256\<close>, and the addressing of ticks, chunks and bitmap words. Bytes are
  \<open>8 word\<close>s, ticks (\<^verbatim>\<open>i32\<close>) are \<open>int\<close>s. The lemmas read a word as the set of its bit positions:
  \<open>set_bit\<close> inserts or removes one, the two searches return the greatest member up to a position
  and the least member from it.
\<close>

unbundle bit_operations_syntax

section \<open>Constants\<close>

definition MIN_TICK :: int where
  "MIN_TICK = - 887272"

definition MAX_TICK :: int where
  "MAX_TICK = 887272"

definition CL_FEE_DENOMINATOR :: nat where
  "CL_FEE_DENOMINATOR = 10000"

definition MAX_USER_POSITIONS :: nat where
  "MAX_USER_POSITIONS = 20"

definition TICKS_PER_CHUNK :: int where
  "TICKS_PER_CHUNK = 16"

definition max_liquidity_per_tick :: "int \<Rightarrow> nat res" where
  "max_liquidity_per_tick tick_spacing =
     (if tick_spacing = 0 then Inl HostPanic
      else andthen (u128_add (as_u128 ((MAX_TICK - MIN_TICK) sdiv tick_spacing)) 1) (\<lambda>num_ticks.
        u_div U128_MAX num_ticks))"

lemmas tick_defs = MIN_TICK_def MAX_TICK_def TICKS_PER_CHUNK_def

section \<open>Bit searches\<close>

definition u256_to_array :: "nat \<Rightarrow> 8 word list" where
  "u256_to_array v = map word_of_nat (to_be_bytes v)"

definition u256_from_array :: "8 word list \<Rightarrow> nat" where
  "u256_from_array bytes = foldl (\<lambda>v b. v * 256 + unat b) 0 bytes"

definition set_bit_be :: "8 word list \<Rightarrow> nat \<Rightarrow> bool \<Rightarrow> 8 word list" where
  "set_bit_be w bit_pos value =
     (if 256 \<le> bit_pos then w
      else let byte_idx = 31 - bit_pos div 8; msk = push_bit (bit_pos mod 8) 1 in
        if value then w[byte_idx := w ! byte_idx OR msk]
        else w[byte_idx := w ! byte_idx AND NOT msk])"

definition leading_zeros_u8 :: "8 word \<Rightarrow> nat" where
  "leading_zeros_u8 b = length (takeWhile Not (map (bit b) [7, 6, 5, 4, 3, 2, 1, 0]))"

definition trailing_zeros_u8 :: "8 word \<Rightarrow> nat" where
  "trailing_zeros_u8 b = length (takeWhile Not (map (bit b) [0, 1, 2, 3, 4, 5, 6, 7]))"

primrec scan_prev :: "8 word list \<Rightarrow> nat list \<Rightarrow> nat option" where
  "scan_prev w [] = None"
| "scan_prev w (byte_idx # rest) =
     (if w ! byte_idx \<noteq> 0 then Some ((31 - byte_idx) * 8 + (7 - leading_zeros_u8 (w ! byte_idx)))
      else scan_prev w rest)"

definition find_prev_set_bit :: "8 word list \<Rightarrow> nat \<Rightarrow> nat option" where
  "find_prev_set_bit w from_bit =
     (let from_bit = min from_bit 255;
          start_byte = (255 - from_bit) div 8;
          start_bit_in_byte = from_bit mod 8;
          msk = ucast (push_bit (start_bit_in_byte + 1) 1 - 1 :: 16 word) :: 8 word;
          masked = w ! start_byte AND msk
      in if masked \<noteq> 0 then Some ((31 - start_byte) * 8 + (7 - leading_zeros_u8 masked))
         else scan_prev w [start_byte + 1 ..< 32])"

primrec scan_next :: "8 word list \<Rightarrow> nat list \<Rightarrow> nat option" where
  "scan_next w [] = None"
| "scan_next w (byte_idx # rest) =
     (if w ! byte_idx \<noteq> 0 then Some ((31 - byte_idx) * 8 + trailing_zeros_u8 (w ! byte_idx))
      else scan_next w rest)"

definition find_next_set_bit :: "8 word list \<Rightarrow> nat \<Rightarrow> nat option" where
  "find_next_set_bit w from_bit =
     (let from_bit = min from_bit 255;
          start_byte = (255 - from_bit) div 8;
          start_bit_in_byte = from_bit mod 8;
          msk = NOT (push_bit start_bit_in_byte 1 - 1) :: 8 word;
          masked = w ! start_byte AND msk
      in if masked \<noteq> 0 then Some ((31 - start_byte) * 8 + trailing_zeros_u8 masked)
         else if 0 < start_byte then scan_next w (rev [0 ..< start_byte])
         else None)"

section \<open>Addressing\<close>

text \<open>
  An arithmetic right shift of an \<^verbatim>\<open>i32\<close> is division rounding down, a mask with 255 the
  remainder of it; \<^verbatim>\<open>/\<close> and \<^verbatim>\<open>%\<close> truncate towards zero. A pool's spacing is positive
  (\<open>initialize\<close> refuses any other), so the division by it does not abort.
\<close>

definition chunk_bitmap_position :: "int \<Rightarrow> int \<times> nat" where
  "chunk_bitmap_position chunk_pos = (chunk_pos div 256, nat (chunk_pos mod 256))"

definition word_bitmap_position :: "int \<Rightarrow> int \<times> nat" where
  "word_bitmap_position chunk_bitmap_word_pos =
     (chunk_bitmap_word_pos div 256, nat (chunk_bitmap_word_pos mod 256))"

definition compress_tick :: "int \<Rightarrow> int \<Rightarrow> int" where
  "compress_tick tick spacing =
     (let compressed = tick sdiv spacing in
      if tick < 0 \<and> tick smod spacing \<noteq> 0 then compressed - 1 else compressed)"

definition clamp_tick :: "int \<Rightarrow> int" where
  "clamp_tick tick = min (max tick MIN_TICK) MAX_TICK"

definition saturate_i32 :: "int \<Rightarrow> int" where
  "saturate_i32 x = max (- (2 ^ 31)) (min x (2 ^ 31 - 1))"

definition compressed_to_tick :: "int \<Rightarrow> int \<Rightarrow> int" where
  "compressed_to_tick compressed spacing = clamp_tick (saturate_i32 (compressed * spacing))"

lemma compress_tick_div:
  assumes "0 < spacing"
  shows "compress_tick tick spacing = tick div spacing"
proof -
  have "- ((- tick) div spacing) - (if (- tick) mod spacing \<noteq> 0 then 1 else 0) = tick div spacing"
    using assms zdiv_zminus1_eq_if [of spacing "- tick"] by simp
  then show ?thesis
    using assms
    by (auto simp: compress_tick_def signed_divide_int_def signed_modulo_int_def sgn_if Let_def)
qed

section \<open>A word as the set of its bits\<close>

definition byte_bit :: "8 word list \<Rightarrow> nat \<Rightarrow> bool" where
  "byte_bit w n \<longleftrightarrow> bit (w ! (31 - n div 8)) (n mod 8)"

lemma byte_bit_at: "i < 32 \<Longrightarrow> k < 8 \<Longrightarrow> byte_bit w ((31 - i) * 8 + k) \<longleftrightarrow> bit (w ! i) k"
  by (simp add: byte_bit_def)

lemma lt8_cases: "k < 8 \<longleftrightarrow> k = 0 \<or> k = 1 \<or> k = 2 \<or> k = 3 \<or> k = 4 \<or> k = 5 \<or> k = 6 \<or> k = (7 :: nat)"
  by linarith

lemma byte_nonzero:
  fixes b :: "8 word"
  assumes "b \<noteq> 0"
  shows "bit b 0 \<or> bit b 1 \<or> bit b 2 \<or> bit b 3 \<or> bit b 4 \<or> bit b 5 \<or> bit b 6 \<or> bit b 7"
proof (rule ccontr)
  assume none: "\<not> ?thesis"
  have "b = 0"
  proof (rule bit_word_eqI)
    fix k assume "k < LENGTH(8)"
    then have "k < 8" by simp
    with none show "bit b k \<longleftrightarrow> bit 0 k" by (simp add: lt8_cases) blast
  qed
  with assms show False ..
qed

lemma byte_bit_less: "bit (b :: 8 word) k \<Longrightarrow> k < 8"
  using bit_imp_le_length [of b k] by simp

lemma takeWhile_stops: "x \<in> set xs \<Longrightarrow> \<not> P x \<Longrightarrow> length (takeWhile P xs) < length xs"
  by (induction xs) auto

lemma first_hit:
  assumes "x \<in> set ks" and "P x"
  shows "length (takeWhile Not (map P ks)) < length ks"
    and "P (ks ! length (takeWhile Not (map P ks)))"
    and "i < length (takeWhile Not (map P ks)) \<Longrightarrow> \<not> P (ks ! i)"
proof -
  let ?n = "length (takeWhile Not (map P ks))"
  have "True \<in> set (map P ks)" 
    using imageI [OF assms(1), of P] assms(2) by simp
  then show n: "?n < length ks"
    using takeWhile_stops [of True "map P ks" Not] by simp
  show "P (ks ! ?n)"
    using nth_length_takeWhile [of Not "map P ks"] n by simp
  show "\<not> P (ks ! i)" if i: "i < ?n"
    using nth_mem [OF i] set_takeWhileD [of "takeWhile Not (map P ks) ! i" Not "map P ks"]
      takeWhile_nth [OF i] n i by simp
qed

lemma bits_up: "i < 8 \<Longrightarrow> [0, 1, 2, 3, 4, 5, 6, 7 :: nat] ! i = i"
  by (auto simp: lt8_cases)

lemma bits_down: "i < 8 \<Longrightarrow> [7, 6, 5, 4, 3, 2, 1, 0 :: nat] ! i = 7 - i"
  by (auto simp: lt8_cases)

lemma leading_zeros_top:
  assumes "b \<noteq> 0"
  shows "bit b (7 - leading_zeros_u8 b)" and "bit b k \<Longrightarrow> k \<le> 7 - leading_zeros_u8 b"
proof -
  let ?ks = "[7, 6, 5, 4, 3, 2, 1, 0 :: nat]"
  obtain x where x: "x \<in> set ?ks" "bit b x" using byte_nonzero [OF assms] by auto
  note hit = first_hit [of x ?ks "bit b", OF x, folded leading_zeros_u8_def]
  show "bit b (7 - leading_zeros_u8 b)"
    using hit(1,2) bits_down [of "leading_zeros_u8 b"] by simp
  assume k: "bit b k"
  show "k \<le> 7 - leading_zeros_u8 b"
  proof (rule ccontr)
    assume "\<not> ?thesis"
    with byte_bit_less [OF k] hit(1) have "7 - k < leading_zeros_u8 b" and "7 - (7 - k) = k" by simp_all
    with hit(3) [of "7 - k"] bits_down [of "7 - k"] k show False by simp
  qed
qed

lemma trailing_zeros_low:
  assumes "b \<noteq> 0"
  shows "bit b (trailing_zeros_u8 b)" and "bit b k \<Longrightarrow> trailing_zeros_u8 b \<le> k"
proof -
  let ?ks = "[0, 1, 2, 3, 4, 5, 6, 7 :: nat]"
  obtain x where x: "x \<in> set ?ks" "bit b x" using byte_nonzero [OF assms] by auto
  note hit = first_hit [of x ?ks "bit b", OF x, folded trailing_zeros_u8_def]
  show "bit b (trailing_zeros_u8 b)"
    using hit(1,2) bits_up [of "trailing_zeros_u8 b"] by simp
  assume k: "bit b k"
  show "trailing_zeros_u8 b \<le> k"
  proof (rule ccontr)
    assume "\<not> ?thesis"
    with hit(3) [of k] bits_up [OF byte_bit_less [OF k]] k show False by simp
  qed
qed

text \<open>\<open>greatest_upto\<close> and \<open>least_from\<close>: what the two searches look for.\<close>

definition greatest_upto :: "(nat \<Rightarrow> bool) \<Rightarrow> nat \<Rightarrow> nat option \<Rightarrow> bool" where
  "greatest_upto P f r \<longleftrightarrow> (case r of
     None \<Rightarrow> \<forall>n. n \<le> f \<longrightarrow> \<not> P n
   | Some m \<Rightarrow> P m \<and> m \<le> f \<and> (\<forall>n. n \<le> f \<longrightarrow> P n \<longrightarrow> n \<le> m))"

definition least_from :: "(nat \<Rightarrow> bool) \<Rightarrow> nat \<Rightarrow> nat \<Rightarrow> nat option \<Rightarrow> bool" where
  "least_from P f h r \<longleftrightarrow> (case r of
     None \<Rightarrow> \<forall>n. f \<le> n \<longrightarrow> n < h \<longrightarrow> \<not> P n
   | Some m \<Rightarrow> P m \<and> f \<le> m \<and> m < h \<and> (\<forall>n. f \<le> n \<longrightarrow> P n \<longrightarrow> m \<le> n))"

text \<open>A scan of whole bytes, in either direction.\<close>

lemma byte_bit_split: "k < 32 \<Longrightarrow> byte_bit w n \<and> (31 - k) * 8 \<le> n \<and> n < (32 - k) * 8 \<longleftrightarrow>
  (\<exists>j < 8. n = (31 - k) * 8 + j \<and> bit (w ! k) j)"
proof -
  assume k: "k < 32"
  have "byte_bit w n \<longleftrightarrow> bit (w ! k) (n - (31 - k) * 8)" if "(31 - k) * 8 \<le> n" and "n < (32 - k) * 8"
  proof -
    have "n - (31 - k) * 8 < 8" using that k by linarith
    with byte_bit_at [OF k this, of w] that show ?thesis by simp
  qed
  moreover have "n < (32 - k) * 8" if "n = (31 - k) * 8 + j" and "j < 8" for j
    using that k by linarith
  moreover have "\<exists>j < 8. n = (31 - k) * 8 + j" if "(31 - k) * 8 \<le> n" and "n < (32 - k) * 8"
    using that k by (intro exI [of _ "n - (31 - k) * 8"]) linarith
  ultimately show ?thesis by fastforce
qed

lemma scan_prev_greatest:
  assumes "k \<le> 32"
  shows "case scan_prev w [k ..< 32] of
      None \<Rightarrow> \<forall>n. n < (32 - k) * 8 \<longrightarrow> \<not> byte_bit w n
    | Some m \<Rightarrow> byte_bit w m \<and> m < (32 - k) * 8 \<and> (\<forall>n. n < (32 - k) * 8 \<longrightarrow> byte_bit w n \<longrightarrow> n \<le> m)"
  using assms
proof (induction "32 - k" arbitrary: k)
  case 0
  then show ?case by simp
next
  case (Suc d)
  then have k: "k < 32" by simp
  then have list: "[k ..< 32] = k # [Suc k ..< 32]" by (simp add: upt_conv_Cons)
  note split = byte_bit_split [OF k, of w]
  have next_k: "32 - Suc k = 31 - k" by simp
  show ?case
  proof (cases "w ! k = 0")
    case True
    then have none: "byte_bit w n \<Longrightarrow> n < (32 - k) * 8 \<Longrightarrow> n < (31 - k) * 8" for n
      using split [of n] by (auto simp: not_less)
    have "(31 - k) * 8 \<le> (32 - k) * 8" by simp
    moreover have "d = 32 - Suc k" and "Suc k \<le> 32" using Suc.hyps(2) k by simp_all
    note Suc.hyps(1) [OF this]
    ultimately show ?thesis
      using True unfolding list next_k
      by (auto split: option.splits dest: none elim: order_less_le_trans)
  next
    case False
    let ?t = "7 - leading_zeros_u8 (w ! k)"
    have t: "bit (w ! k) ?t" and max: "\<And>j. bit (w ! k) j \<Longrightarrow> j \<le> ?t"
      using leading_zeros_top [OF False] by auto
    have "byte_bit w ((31 - k) * 8 + ?t) \<and> (31 - k) * 8 \<le> (31 - k) * 8 + ?t
        \<and> (31 - k) * 8 + ?t < (32 - k) * 8"
      using split t byte_bit_less [OF t] by blast
    moreover have "n \<le> (31 - k) * 8 + ?t" if "byte_bit w n" and "n < (32 - k) * 8" for n
      using split [of n] max that by (cases "(31 - k) * 8 \<le> n") auto
    ultimately show ?thesis
      using False unfolding list by simp
  qed
qed

lemma scan_next_least:
  assumes "k \<le> 32"
  shows "case scan_next w (rev [0 ..< k]) of
      None \<Rightarrow> \<forall>n. (32 - k) * 8 \<le> n \<longrightarrow> n < 256 \<longrightarrow> \<not> byte_bit w n
    | Some m \<Rightarrow> byte_bit w m \<and> (32 - k) * 8 \<le> m \<and> m < 256
        \<and> (\<forall>n. (32 - k) * 8 \<le> n \<longrightarrow> n < 256 \<longrightarrow> byte_bit w n \<longrightarrow> m \<le> n)"
  using assms
proof (induction k)
  case 0
  then show ?case by simp
next
  case (Suc k)
  then have k: "k < 32" by simp
  note split = byte_bit_split [OF k, of w]
  have next_k: "32 - Suc k = 31 - k" by simp
  have top: "(32 - k) * 8 \<le> 256" by simp
  show ?case
  proof (cases "w ! k = 0")
    case True
    then have none: "byte_bit w n \<Longrightarrow> (31 - k) * 8 \<le> n \<Longrightarrow> (32 - k) * 8 \<le> n" for n
      using split [of n] by (auto simp: not_less [symmetric])
    have "(31 - k) * 8 \<le> (32 - k) * 8" by simp
    with Suc.IH k True none show ?thesis
      unfolding next_k by (auto split: option.splits elim: order_trans)
  next
    case False
    let ?t = "trailing_zeros_u8 (w ! k)"
    have t: "bit (w ! k) ?t" and min: "\<And>j. bit (w ! k) j \<Longrightarrow> ?t \<le> j"
      using trailing_zeros_low [OF False] by auto
    have at: "byte_bit w ((31 - k) * 8 + ?t) \<and> (31 - k) * 8 \<le> (31 - k) * 8 + ?t
        \<and> (31 - k) * 8 + ?t < (32 - k) * 8"
      using split t byte_bit_less [OF t] by blast
    moreover have "(31 - k) * 8 + ?t < 256"
      using at top by linarith
    moreover have "(31 - k) * 8 + ?t \<le> n" if "byte_bit w n" and "(31 - k) * 8 \<le> n" for n
      using split [of n] min that byte_bit_less [OF t] k
      by (cases "n < (32 - k) * 8") auto
    ultimately show ?thesis
      using False unfolding next_k by simp
  qed
qed

lemma prev_mask:
  fixes b :: "8 word"
  shows "bit (b AND ucast (push_bit (t + 1) 1 - 1 :: 16 word)) j \<longleftrightarrow> bit b j \<and> j \<le> t"
proof -
  have m: "(push_bit (t + 1) 1 - 1 :: 16 word) = mask (t + 1)"
    by (simp only: push_bit_of_1 mask_eq_exp_minus_1)
  show ?thesis
    unfolding m using byte_bit_less [of b j]
    by (auto simp: bit_and_iff bit_ucast_iff bit_mask_iff simp del: mask_Suc_exp)
qed

lemma next_mask:
  fixes b :: "8 word"
  shows "bit (b AND NOT (push_bit t 1 - 1)) j \<longleftrightarrow> bit b j \<and> t \<le> j"
proof -
  have m: "(push_bit t 1 - 1 :: 8 word) = mask t"
    by (simp only: push_bit_of_1 mask_eq_exp_minus_1)
  show ?thesis
    unfolding m using byte_bit_less [of b j]
    by (auto simp: bit_and_iff bit_not_iff bit_mask_iff)
qed

lemma start_byte:
  fixes g :: nat
  assumes "g < 256"
  shows "(255 - g) div 8 < 32" and "g = (31 - (255 - g) div 8) * 8 + g mod 8"
proof -
  obtain q r where q: "g div 8 = q" and r: "g mod 8 = r" by simp
  have g: "g = 8 * q + r" and "r < 8" using q r by auto
  then have "q < 32" using assms by linarith
  have "255 - g = 7 - r + 8 * (31 - q)"
    using g \<open>r < 8\<close> \<open>q < 32\<close> by linarith
  then have "(255 - g) div 8 = 31 - q" by simp
  with g r \<open>q < 32\<close> show "(255 - g) div 8 < 32" and "g = (31 - (255 - g) div 8) * 8 + g mod 8"
    by simp_all
qed

lemma find_prev_set_bit_greatest:
  "greatest_upto (byte_bit w) (min f 255) (find_prev_set_bit w f)"
proof -
  define g where "g = min f 255"
  define s where "s = (255 - g) div 8"
  define t where "t = g mod 8"
  have g: "g < 256" and t: "t < 8" by (simp_all add: g_def t_def)
  have s: "s < 32" and gs: "g = (31 - s) * 8 + t"
    using start_byte [OF g] by (simp_all add: s_def t_def)
  let ?b = "w ! s AND ucast (push_bit (t + 1) 1 - 1 :: 16 word) :: 8 word"
  note split = byte_bit_split [OF s, of w]
  have below: "n < (32 - s) * 8" if "n \<le> g" for n
    using that gs t s by linarith
  have find: "find_prev_set_bit w f = (if ?b \<noteq> 0 then Some ((31 - s) * 8 + (7 - leading_zeros_u8 ?b))
      else scan_prev w [s + 1 ..< 32])"
    by (simp only: find_prev_set_bit_def Let_def g_def s_def t_def)
  show ?thesis
  proof (cases "?b = 0")
    case False
    let ?t = "7 - leading_zeros_u8 ?b"
    have top: "bit (w ! s) ?t" "?t \<le> t"
      using leading_zeros_top(1) [OF False] unfolding prev_mask by auto
    have max: "j \<le> ?t" if "bit (w ! s) j" and "j \<le> t" for j
      using leading_zeros_top(2) [OF False, of j] that unfolding prev_mask by simp
    have "byte_bit w ((31 - s) * 8 + ?t)"
      using split [of "(31 - s) * 8 + ?t"] top byte_bit_less [OF top(1)] by blast
    moreover have "n \<le> (31 - s) * 8 + ?t" if "n \<le> g" and "byte_bit w n" for n
    proof (cases "(31 - s) * 8 \<le> n")
      case True
      with that below split obtain j where "n = (31 - s) * 8 + j" and "bit (w ! s) j" by blast
      with that gs max show ?thesis by simp
    qed simp
    ultimately show ?thesis
      using False top gs unfolding find g_def [symmetric] greatest_upto_def by simp
  next
    case True
    then have none: "\<not> (bit (w ! s) j \<and> j \<le> t)" for j
      using prev_mask [of "w ! s" t j] by simp
    have low: "n < (31 - s) * 8" if "n \<le> g" and "byte_bit w n" for n
    proof (rule ccontr)
      assume "\<not> ?thesis"
      with that below split obtain j where "n = (31 - s) * 8 + j" and "bit (w ! s) j"
        by (auto simp: not_less)
      with that gs none [of j] show False by simp
    qed
    have g0: "(31 - s) * 8 \<le> g" using gs by simp
    have "Suc s \<le> 32" and "32 - Suc s = 31 - s" using s by simp_all
    note scan = scan_prev_greatest [OF this(1), of w, unfolded this(2)]
    have found: "find_prev_set_bit w f = scan_prev w [Suc s ..< 32]"
      using True unfolding find by simp
    show ?thesis
    proof (cases "find_prev_set_bit w f")
      case None
      with scan low found show ?thesis by (auto simp: greatest_upto_def g_def [symmetric])
    next
      case (Some m)
      with scan have "byte_bit w m" and "m < (31 - s) * 8"
        and "\<And>n. n < (31 - s) * 8 \<Longrightarrow> byte_bit w n \<Longrightarrow> n \<le> m"
        unfolding found by simp_all
      with low g0 Some show ?thesis by (simp add: greatest_upto_def g_def [symmetric])
    qed
  qed
qed

lemma find_next_set_bit_least:
  "least_from (byte_bit w) (min f 255) 256 (find_next_set_bit w f)"
proof -
  define g where "g = min f 255"
  define s where "s = (255 - g) div 8"
  define t where "t = g mod 8"
  have g: "g < 256" and t: "t < 8" by (simp_all add: g_def t_def)
  have s: "s < 32" and gs: "g = (31 - s) * 8 + t"
    using start_byte [OF g] by (simp_all add: s_def t_def)
  let ?b = "w ! s AND NOT (push_bit t 1 - 1)"
  note split = byte_bit_split [OF s, of w]
  have scan0: "scan_next w (rev [0 ..< 0]) = None" by simp
  have find: "find_next_set_bit w f = (if ?b \<noteq> 0 then Some ((31 - s) * 8 + trailing_zeros_u8 ?b)
      else scan_next w (rev [0 ..< s]))"
    by (cases "s = 0") (simp_all only: find_next_set_bit_def Let_def g_def [symmetric] s_def [symmetric]
        t_def [symmetric] neq0_conv scan0 if_True if_False simp_thms less_irrefl)
  show ?thesis
  proof (cases "?b = 0")
    case False
    let ?t = "trailing_zeros_u8 ?b"
    have low: "bit (w ! s) ?t" "t \<le> ?t"
      using trailing_zeros_low(1) [OF False] unfolding next_mask by auto
    have min: "?t \<le> j" if "bit (w ! s) j" and "t \<le> j" for j
      using trailing_zeros_low(2) [OF False, of j] that unfolding next_mask by simp
    have at: "byte_bit w ((31 - s) * 8 + ?t)" "(31 - s) * 8 + ?t < (32 - s) * 8"
      using split [of "(31 - s) * 8 + ?t"] low byte_bit_less [OF low(1)] by blast+
    moreover have "(32 - s) * 8 \<le> 256" by simp
    moreover have "(31 - s) * 8 + ?t \<le> n" if "g \<le> n" and "byte_bit w n" for n
    proof (cases "n < (32 - s) * 8")
      case True
      with that gs split [of n] obtain j where "n = (31 - s) * 8 + j" and "bit (w ! s) j" by auto
      with that gs min show ?thesis by simp
    next
      case False
      with at(2) show ?thesis by linarith
    qed
    ultimately show ?thesis
      using False low gs unfolding find g_def [symmetric] least_from_def by simp
  next
    case True
    then have none: "\<not> (bit (w ! s) j \<and> t \<le> j)" for j
      using next_mask [of "w ! s" t j] by simp
    have high: "(32 - s) * 8 \<le> n" if "g \<le> n" and "byte_bit w n" for n
    proof (rule ccontr)
      assume "\<not> ?thesis"
      with that gs split [of n] obtain j where "n = (31 - s) * 8 + j" and "bit (w ! s) j"
        by (auto simp: not_less)
      with that gs none [of j] show False by simp
    qed
    have g1: "g \<le> (32 - s) * 8" using gs t s by linarith
    have "s \<le> 32" using s by simp
    note scan = scan_next_least [OF this, of w]
    have found: "find_next_set_bit w f = scan_next w (rev [0 ..< s])"
      using True unfolding find by simp
    show ?thesis
    proof (cases "find_next_set_bit w f")
      case None
      with scan high found show ?thesis by (auto simp: least_from_def g_def [symmetric])
    next
      case (Some m)
      with scan have m: "byte_bit w m" "(32 - s) * 8 \<le> m" "m < 256"
        and least: "\<And>n. (32 - s) * 8 \<le> n \<Longrightarrow> n < 256 \<Longrightarrow> byte_bit w n \<Longrightarrow> m \<le> n"
        unfolding found by simp_all
      have "m \<le> n" if "g \<le> n" and "byte_bit w n" for n
        using high [OF that] least [of n] that m(3) by (cases "n < 256") simp_all
      with m g1 Some show ?thesis by (simp add: least_from_def g_def [symmetric])
    qed
  qed
qed

section \<open>Words as numbers\<close>

lemma length_to_array [simp]: "length (u256_to_array x) = 32"
  by (simp add: u256_to_array_def to_be_bytes_def)

lemma to_array_bit: "n < 256 \<Longrightarrow> byte_bit (u256_to_array x) n \<longleftrightarrow> bit x n"
proof -
  assume n: "n < 256"
  obtain q r where q: "n div 8 = q" and r: "n mod 8 = r" by simp
  then have nqr: "n = 8 * q + r" "r < 8" by auto
  with n have q32: "q < 32" by linarith
  have "u256_to_array x ! (31 - q) = word_of_nat (x div 256 ^ (31 - (31 - q)) mod 2 ^ 8)"
    using q32 by (simp add: u256_to_array_def to_be_bytes_def)
  also have "31 - (31 - q) = q" using q32 by simp
  finally have byte: "u256_to_array x ! (31 - q) = word_of_nat (take_bit 8 (x div 256 ^ q))"
    by (simp add: take_bit_eq_mod)
  have "(256 :: nat) ^ q = 2 ^ (8 * q)" by (simp add: power_mult)
  then have "x div 256 ^ q = drop_bit (8 * q) x" by (simp add: drop_bit_eq_div)
  with byte nqr show ?thesis
    by (simp add: byte_bit_def q r bit_of_nat_iff bit_take_bit_iff bit_drop_bit_eq)
qed

lemma append_byte_bit:
  fixes b :: "8 word"
  shows "bit (v * 256 + unat b) n \<longleftrightarrow> (if n < 8 then bit b n else bit v (n - 8))"
proof -
  have "push_bit 8 v AND unat b = 0"
    by (rule bit_eqI) (auto simp: bit_simps dest: byte_bit_less)
  from disjunctive_add_eq_or [OF this] have "v * 256 + unat b = push_bit 8 v OR unat b"
    by (simp add: push_bit_eq_mult mult.commute)
  then show ?thesis
    by (auto simp: bit_simps dest: byte_bit_less)
qed

lemma fold_bytes_bit:
  "bit (foldl (\<lambda>v b. v * 256 + unat b) 0 (ws :: 8 word list)) n
    \<longleftrightarrow> n < 8 * length ws \<and> bit (ws ! (length ws - 1 - n div 8)) (n mod 8)"
proof (induction ws arbitrary: n rule: rev_induct)
  case (snoc b ws)
  show ?case
  proof (cases "n < 8")
    case False
    then have "(n - 8) div 8 = n div 8 - 1" and "(n - 8) mod 8 = n mod 8" and "0 < n div 8"
      by (simp_all add: le_div_geq le_mod_geq)
    with False show ?thesis
      using snoc [of "n - 8"] less_diff_conv2 [of 8 n "8 * length ws"]
      by (simp add: append_byte_bit nth_append) auto
  qed (simp add: append_byte_bit nth_append)
qed simp

lemma from_array_bit: "length w = 32 \<Longrightarrow> bit (u256_from_array w) n \<longleftrightarrow> n < 256 \<and> byte_bit w n"
  by (simp add: u256_from_array_def fold_bytes_bit byte_bit_def)

lemma less_exp_of_bits:
  fixes x :: nat
  assumes "\<And>n. bit x n \<Longrightarrow> n < k"
  shows "x < 2 ^ k"
proof -
  have "take_bit k x = x"
    by (rule bit_eqI) (auto simp: bit_take_bit_iff dest: assms)
  then show ?thesis by (metis take_bit_nat_less_exp)
qed

lemma from_array_less: "length w = 32 \<Longrightarrow> u256_from_array w < 2 ^ 256"
  by (rule less_exp_of_bits) (simp add: from_array_bit)

lemma set_bit_be_bit:
  assumes "p < 256" and "n < 256" and "length w = 32"
  shows "byte_bit (set_bit_be w p v) n \<longleftrightarrow> (if n = p then v else byte_bit w n)"
proof -
  have m: "bit (push_bit (p mod 8) 1 :: 8 word) (n mod 8) \<longleftrightarrow> n mod 8 = p mod 8"
    by (auto simp: bit_push_bit_iff bit_1_iff possible_bit_word simp del: push_bit_of_1)
  have idx: "31 - n div 8 = 31 - p div 8 \<longleftrightarrow> n div 8 = p div 8"
  proof -
    have "n div 8 < 32" and "p div 8 < 32" using assms(1,2) by (simp_all add: div_less_iff_less_mult)
    then show ?thesis by linarith
  qed
  have np: "n = p \<longleftrightarrow> n div 8 = p div 8 \<and> n mod 8 = p mod 8"
    by (metis div_mult_mod_eq)
  have self: "bit (push_bit (p mod 8) 1 :: 8 word) (p mod 8)"
    by (simp add: bit_push_bit_iff possible_bit_word del: push_bit_of_1)
  have len: "31 - n div 8 < length w" using assms(3) by simp
  show ?thesis
  proof (cases "n div 8 = p div 8")
    case True
    then have at: "byte_bit (set_bit_be w p v) n \<longleftrightarrow>
      bit (if v then w ! (31 - n div 8) OR push_bit (p mod 8) 1
           else w ! (31 - n div 8) AND NOT (push_bit (p mod 8) 1)) (n mod 8)"
      using assms(1) len by (simp add: set_bit_be_def byte_bit_def Let_def)
    show ?thesis
      unfolding at using True m np self
      by (simp add: byte_bit_def bit_or_iff bit_and_iff bit_not_iff possible_bit_word del: push_bit_of_1)
  next
    case False
    with idx np assms(1) show ?thesis
      by (simp add: set_bit_be_def byte_bit_def Let_def)
  qed
qed

lemma length_set_bit_be [simp]: "length (set_bit_be w p v) = length w"
  by (simp add: set_bit_be_def Let_def)

definition write_bit :: "nat \<Rightarrow> nat \<Rightarrow> bool \<Rightarrow> nat" where
  \<comment> \<open>the callers' read-modify-write of a stored word\<close>
  "write_bit word p v = u256_from_array (set_bit_be (u256_to_array word) p v)"

lemma write_bit_bit:
  assumes "p < 256"
  shows "bit (write_bit x p v) n \<longleftrightarrow> n < 256 \<and> (if n = p then v else bit x n)"
  using assms
  by (auto simp: write_bit_def from_array_bit set_bit_be_bit to_array_bit)

lemma write_bit_zero_iff:
  "p < 256 \<Longrightarrow> write_bit x p v = 0 \<longleftrightarrow> \<not> v \<and> (\<forall>n < 256. n \<noteq> p \<longrightarrow> \<not> bit x n)"
  by (auto simp: bit_eq_iff write_bit_bit)

lemma find_prev_word:
  "greatest_upto (bit x) (min f 255) (find_prev_set_bit (u256_to_array x) f)"
  using find_prev_set_bit_greatest [of "u256_to_array x" f]
  by (auto simp: greatest_upto_def to_array_bit split: option.splits)

lemma find_next_word:
  "least_from (\<lambda>n. n < 256 \<and> bit x n) (min f 255) 256 (find_next_set_bit (u256_to_array x) f)"
  using find_next_set_bit_least [of "u256_to_array x" f]
  by (auto simp: least_from_def to_array_bit split: option.splits)

end
