(* ===== verification/CL_Math.thy ===== *)
theory CL_Math
  imports Bitmap U256_Math
begin

text \<open>
  \<^verbatim>\<open>liquidity_pool_concentrated/src/math.rs\<close>: square-root prices in Q64.96 at ticks, amounts
  between two prices, the price after an amount, fee growth in Q128.128, and liquidity for an
  amount. A result that \<^verbatim>\<open>to_u128\<close> cannot narrow is \<open>None\<close>. The fixed-point library is the
  parameter \<open>fp\<close> of the functions that call it.
\<close>

section \<open>Constants\<close>

definition Q96 :: nat where
  "Q96 = 79228162514264337593543950336"

definition Q128 :: nat where
  "Q128 = 340282366920938463463374607431768211456"

definition MIN_SQRT_RATIO :: nat where
  "MIN_SQRT_RATIO = 4295128739"

definition MAX_SQRT_RATIO :: nat where
  "MAX_SQRT_RATIO = 0xfffd8963efd1fc6a506488495d951d5263988d26"

definition TICK_MULTIPLIERS :: "nat list" where
  "TICK_MULTIPLIERS = [
    0xfffcb933bd6fad37aa2d162d1a594001,
    0xfff97272373d413259a46990580e213a,
    0xfff2e50f5f656932ef12357cf3c7fdcc,
    0xffe5caca7e10e4e61c3624eaa0941cd0,
    0xffcb9843d60f6159c9db58835c926644,
    0xff973b41fa98c081472e6896dfb254c0,
    0xff2ea16466c96a3843ec78b326b52861,
    0xfe5dee046a99a2a811c461f1969c3053,
    0xfcbe86c7900a88aedcffc83b479aa3a4,
    0xf987a7253ac413176f2b074cf7815e54,
    0xf3392b0822b70005940c7a398e4b70f3,
    0xe7159475a2c29b7443b29c7fa6e889d9,
    0xd097f3bdfd2022b8845ad8f792aa5825,
    0xa9f746462d870fdf8a65dc1f90e061e5,
    0x70d869a156d2a1b890bb3df62baf32f7,
    0x31be135f97d08fd981231505542fcfa6,
    0x09aa508b5b7a84e1c677de54f3e99bc9,
    0x005d6af8dedb81196699c329225ee604,
    0x0002216e584f5fa1ea926041bedfe98,
    0x000048a170391f7dc42444e8fa2]"

definition LOG_SQRT10001 :: nat where
  "LOG_SQRT10001 = 255738958999603826347141"

definition TICK_LOW_ERROR :: nat where
  "TICK_LOW_ERROR = 3402992956809132418596140100660247210"

definition TICK_HI_ERROR :: nat where
  "TICK_HI_ERROR = 291339464771989622907027621153398088495"

section \<open>Wide arithmetic\<close>

definition wrapping_sub_u256 :: "nat \<Rightarrow> nat \<Rightarrow> nat res" where
  "wrapping_sub_u256 a b =
     (if b \<le> a then u_sub a b
      else
        andthen (u_sub U256_MAX b) (\<lambda>x.
        andthen (u256_add x a) (\<lambda>y.
        u256_add y 1)))"

definition wrapping_add_u256 :: "nat \<Rightarrow> nat \<Rightarrow> nat res" where
  "wrapping_add_u256 a b =
     andthen (u_sub U256_MAX a) (\<lambda>remaining.
     if b \<le> remaining then u256_add a b
     else andthen (u_sub b remaining) (\<lambda>x. u_sub x 1))"

definition narrow_u128 :: "nat \<Rightarrow> nat option" where
  \<comment> \<open>\<open>U256::to_u128\<close>\<close>
  "narrow_u128 v = (if v \<le> U128_MAX then Some v else None)"

definition u256_to_u128 :: "nat \<Rightarrow> nat res" where
  "u256_to_u128 v = from_option (ConcentratedError CL_LiquidityOverflow) (narrow_u128 v)"

definition u256_div_round_up :: "nat \<Rightarrow> nat \<Rightarrow> nat res" where
  "u256_div_round_up numerator denominator =
     (if denominator = 0 then Inl (ConcentratedError CL_InvalidAmount)
      else if numerator = 0 then Inr 0
      else
        andthen (u_div numerator denominator) (\<lambda>quotient.
        andthen (u_rem numerator denominator) (\<lambda>remainder.
        if remainder \<noteq> 0 then u256_add quotient 1 else Inr quotient)))"

definition u256_mul_shift_128 :: "fixed_point \<Rightarrow> nat \<Rightarrow> nat \<Rightarrow> nat res" where
  "u256_mul_shift_128 fp a b = mul_floor_256 fp a b Q128"

definition u256_mul_div :: "fixed_point \<Rightarrow> nat \<Rightarrow> nat \<Rightarrow> nat \<Rightarrow> bool \<Rightarrow> nat res" where
  "u256_mul_div fp a b denominator round_up =
     (if denominator = 0 then Inl (ConcentratedError CL_InvalidAmount)
      else if round_up then mul_ceil_256 fp a b denominator
      else mul_floor_256 fp a b denominator)"

definition MASK64 :: nat where
  "MASK64 = 0xFFFFFFFFFFFFFFFF"

definition widening_mul :: "nat \<Rightarrow> nat \<Rightarrow> (nat \<times> nat) res" where
  "widening_mul a b =
     (let a0 = a AND MASK64; a1 = drop_bit 64 a; b0 = b AND MASK64; b1 = drop_bit 64 b in
      andthen (u128_mul a0 b0) (\<lambda>p00.
      andthen (u128_mul a0 b1) (\<lambda>p01.
      andthen (u128_mul a1 b0) (\<lambda>p10.
      andthen (u128_mul a1 b1) (\<lambda>p11.
      andthen (u128_add (drop_bit 64 p00) (p01 AND MASK64)) (\<lambda>m.
      andthen (u128_add m (p10 AND MASK64)) (\<lambda>mid.
      andthen (Inr ((p00 AND MASK64) OR push_bit 64 (mid AND MASK64))) (\<lambda>lo.
      andthen (u128_add p11 (drop_bit 64 p01)) (\<lambda>h1.
      andthen (u128_add h1 (drop_bit 64 p10)) (\<lambda>h2.
      andthen (u128_add h2 (drop_bit 64 mid)) (\<lambda>hi.
      Inr (hi, lo))))))))))))"

section \<open>Ticks and prices\<close>

definition sqrt_ratio_at_tick :: "fixed_point \<Rightarrow> int \<Rightarrow> nat res" where
  "sqrt_ratio_at_tick fp tick =
     (if \<not> (MIN_TICK \<le> tick \<and> tick \<le> MAX_TICK) then Inl (ConcentratedError CL_TickOutOfBounds)
      else
        let abs_tick = nat \<bar>tick\<bar> in
        andthen
          (fold_res (\<lambda>(i, mul) ratio.
             if bit abs_tick i then u256_mul_shift_128 fp ratio mul else Inr ratio)
           (enumerate 0 TICK_MULTIPLIERS) Q128) (\<lambda>ratio.
        andthen (if 0 < tick then u_div U256_MAX ratio else Inr ratio) (\<lambda>ratio.
        let sqrt_price_x96 = u256_shr ratio 32 in
        if ratio mod 2 ^ 32 \<noteq> 0 then u256_add sqrt_price_x96 1 else Inr sqrt_price_x96)))"

definition leading_zeros_u128 :: "nat \<Rightarrow> nat" where
  "leading_zeros_u128 x = length (takeWhile Not (map (bit x) (rev [0..<128])))"

definition most_significant_bit :: "nat \<Rightarrow> nat \<Rightarrow> nat res" where
  "most_significant_bit ratio_hi ratio_lo =
     (if 0 < ratio_hi then
        andthen (u_sub 127 (leading_zeros_u128 ratio_hi)) (\<lambda>n. u32_add 128 n)
      else u_sub 127 (leading_zeros_u128 ratio_lo))"

definition shl_u128 :: "nat \<Rightarrow> nat \<Rightarrow> nat" where
  "shl_u128 x k = x * 2 ^ k mod 2 ^ 128"

definition normalize_ratio :: "nat \<Rightarrow> nat \<Rightarrow> nat \<Rightarrow> nat" where
  "normalize_ratio msb ratio_hi ratio_lo =
     (if 128 \<le> msb then
        let s = msb - 127 in shl_u128 ratio_hi (128 - s) OR drop_bit s ratio_lo
      else shl_u128 ratio_lo (127 - msb))"

definition log_2_bit :: "nat \<Rightarrow> int \<times> nat \<Rightarrow> (int \<times> nat) res" where
  \<comment> \<open>one round of the fractional part: square, and keep the integer bit of the square\<close>
  "log_2_bit bit_pos = (\<lambda>(log_2, r).
     andthen (widening_mul r r) (\<lambda>(sq_hi, sq_lo).
     let f = drop_bit 127 sq_hi in
     Inr (log_2 OR push_bit bit_pos (int f),
       if f = 0 then shl_u128 sq_hi 1 OR drop_bit 127 sq_lo else sq_hi)))"

definition as_i32 :: "int \<Rightarrow> int" where
  "as_i32 x = (x + 2 ^ 31) mod 2 ^ 32 - 2 ^ 31"

definition signed_log :: "bool \<Rightarrow> nat \<Rightarrow> nat \<Rightarrow> (int \<times> nat) res" where
  \<comment> \<open>the product as \<open>hi * 2^128 + lo\<close> with a signed \<open>hi\<close>\<close>
  "signed_log neg mul_hi mul_lo =
     (if \<not> neg then Inr (as_i128 mul_hi, mul_lo)
      else
        andthen (i128_sub 0 (as_i128 mul_hi)) (\<lambda>hi.
        if mul_lo = 0 then Inr (hi, 0)
        else
          andthen (i128_sub hi 1) (\<lambda>hi.
          Inr (hi, (2 ^ 128 - mul_lo) mod 2 ^ 128))))"

definition tick_at_sqrt_ratio :: "fixed_point \<Rightarrow> nat \<Rightarrow> int res" where
  "tick_at_sqrt_ratio fp sqrt_price_x96 =
     (if sqrt_price_x96 < MIN_SQRT_RATIO \<or> MAX_SQRT_RATIO \<le> sqrt_price_x96
      then Inl (ConcentratedError CL_PriceOutOfBounds)
      else
        let ratio = u256_shl sqrt_price_x96 32; ratio_hi_u256 = u256_shr ratio 128 in
        andthen (u256_to_u128 ratio_hi_u256) (\<lambda>ratio_hi.
        andthen (u_sub ratio (u256_shl ratio_hi_u256 128)) (\<lambda>ratio_lo_u256.
        andthen (u256_to_u128 ratio_lo_u256) (\<lambda>ratio_lo.
        andthen (most_significant_bit ratio_hi ratio_lo) (\<lambda>msb.
        andthen
          (fold_res log_2_bit (rev [50..<64])
            (push_bit 64 (int msb - 128), normalize_ratio msb ratio_hi ratio_lo)) (\<lambda>(log_2, _).
        andthen (widening_mul (nat \<bar>log_2\<bar>) LOG_SQRT10001) (\<lambda>(mul_hi, mul_lo).
        andthen (signed_log (log_2 < 0) mul_hi mul_lo) (\<lambda>(log_hi, log_lo).
        andthen (i128_sub log_hi (if log_lo < TICK_LOW_ERROR then 1 else 0)) (\<lambda>low.
        andthen (i128_add log_hi (if 2 ^ 128 \<le> log_lo + TICK_HI_ERROR then 1 else 0)) (\<lambda>high.
        let tick_low = as_i32 low; tick_hi = as_i32 high in
        if tick_low = tick_hi then Inr tick_low
        else
          andthen (sqrt_ratio_at_tick fp tick_hi) (\<lambda>p.
          Inr (if p \<le> sqrt_price_x96 then tick_hi else tick_low))))))))))))"

section \<open>Amounts between two prices\<close>

definition amount0_delta_u256 :: "nat \<Rightarrow> nat \<Rightarrow> nat \<Rightarrow> bool \<Rightarrow> nat option res" where
  "amount0_delta_u256 sqrt_price_a_x96 sqrt_price_b_x96 liquidity round_up =
     (if liquidity = 0 then Inr (Some 0)
      else
        let sa = min sqrt_price_a_x96 sqrt_price_b_x96; sb = max sqrt_price_a_x96 sqrt_price_b_x96 in
        if sa = 0 then Inr None
        else
          andthen (u_sub sb sa) (\<lambda>diff.
          andthen (u256_mul liquidity Q96) (\<lambda>numerator1.
          andthen (if round_up then mul_div_ceil numerator1 diff sb
                   else mul_div_floor numerator1 diff sb) (\<lambda>temp.
          andthen (if round_up then u256_div_round_up temp sa else u_div temp sa) (\<lambda>amount.
          Inr (Some amount))))))"

definition amount1_delta_u256 :: "nat \<Rightarrow> nat \<Rightarrow> nat \<Rightarrow> bool \<Rightarrow> nat res" where
  "amount1_delta_u256 sqrt_price_a_x96 sqrt_price_b_x96 liquidity round_up =
     (if liquidity = 0 then Inr 0
      else
        let sa = min sqrt_price_a_x96 sqrt_price_b_x96; sb = max sqrt_price_a_x96 sqrt_price_b_x96 in
        andthen (u_sub sb sa) (\<lambda>diff.
        if round_up then mul_div_ceil liquidity diff Q96 else mul_div_floor liquidity diff Q96))"

definition amount0_delta :: "nat \<Rightarrow> nat \<Rightarrow> nat \<Rightarrow> bool \<Rightarrow> nat res" where
  "amount0_delta sqrt_price_a_x96 sqrt_price_b_x96 liquidity round_up =
     andthen (amount0_delta_u256 sqrt_price_a_x96 sqrt_price_b_x96 liquidity round_up) (\<lambda>r.
     case r of Some v \<Rightarrow> Inr (case narrow_u128 v of Some a \<Rightarrow> a | None \<Rightarrow> U128_MAX)
     | None \<Rightarrow> Inl (ConcentratedError CL_InvalidSqrtPrice))"

definition try_amount0_delta :: "nat \<Rightarrow> nat \<Rightarrow> nat \<Rightarrow> bool \<Rightarrow> nat option res" where
  "try_amount0_delta sqrt_price_a_x96 sqrt_price_b_x96 liquidity round_up =
     andthen (amount0_delta_u256 sqrt_price_a_x96 sqrt_price_b_x96 liquidity round_up) (\<lambda>r.
     Inr (case r of Some v \<Rightarrow> narrow_u128 v | None \<Rightarrow> None))"

definition amount1_delta :: "nat \<Rightarrow> nat \<Rightarrow> nat \<Rightarrow> bool \<Rightarrow> nat res" where
  "amount1_delta sqrt_price_a_x96 sqrt_price_b_x96 liquidity round_up =
     andthen (amount1_delta_u256 sqrt_price_a_x96 sqrt_price_b_x96 liquidity round_up) (\<lambda>v.
     Inr (case narrow_u128 v of Some a \<Rightarrow> a | None \<Rightarrow> U128_MAX))"

definition try_amount1_delta :: "nat \<Rightarrow> nat \<Rightarrow> nat \<Rightarrow> bool \<Rightarrow> nat option res" where
  "try_amount1_delta sqrt_price_a_x96 sqrt_price_b_x96 liquidity round_up =
     andthen (amount1_delta_u256 sqrt_price_a_x96 sqrt_price_b_x96 liquidity round_up) (\<lambda>v.
     Inr (narrow_u128 v))"

definition mul_div_u128 :: "fixed_point \<Rightarrow> nat \<Rightarrow> nat \<Rightarrow> nat \<Rightarrow> bool \<Rightarrow> nat res" where
  "mul_div_u128 fp amount numerator denominator round_up =
     (if denominator = 0 then Inl (ConcentratedError CL_InvalidAmount)
      else if round_up then mul_ceil fp amount numerator denominator
      else mul_floor fp amount numerator denominator)"

definition fee_growth_delta_x128 :: "fixed_point \<Rightarrow> nat \<Rightarrow> nat \<Rightarrow> nat res" where
  "fee_growth_delta_x128 fp fee_amount liquidity =
     (if fee_amount = 0 \<or> liquidity = 0 then Inr 0
      else u256_mul_div fp fee_amount Q128 liquidity False)"

definition mul_div_fee_growth :: "fixed_point \<Rightarrow> nat \<Rightarrow> nat \<Rightarrow> nat res" where
  "mul_div_fee_growth fp growth_delta_x128 liquidity =
     (if liquidity = 0 then Inr 0
      else
        andthen (u256_mul_div fp growth_delta_x128 liquidity Q128 False) (\<lambda>v.
        u256_to_u128 v))"

definition liquidity_for_amount0 :: "nat \<Rightarrow> nat \<Rightarrow> nat \<Rightarrow> nat res" where
  "liquidity_for_amount0 sqrt_price_a_x96 sqrt_price_b_x96 amount0 =
     (if amount0 = 0 then Inr 0
      else
        let sa = min sqrt_price_a_x96 sqrt_price_b_x96; sb = max sqrt_price_a_x96 sqrt_price_b_x96 in
        andthen (u_sub sb sa) (\<lambda>diff.
        if diff = 0 then Inr 0
        else
          andthen (mul_div_floor sa sb Q96) (\<lambda>intermediate.
          andthen (mul_div_floor amount0 intermediate diff) (\<lambda>r.
          u256_to_u128 r))))"

definition liquidity_for_amount1 :: "nat \<Rightarrow> nat \<Rightarrow> nat \<Rightarrow> nat res" where
  "liquidity_for_amount1 sqrt_price_a_x96 sqrt_price_b_x96 amount1 =
     (if amount1 = 0 then Inr 0
      else
        let sa = min sqrt_price_a_x96 sqrt_price_b_x96; sb = max sqrt_price_a_x96 sqrt_price_b_x96 in
        andthen (u_sub sb sa) (\<lambda>diff.
        if diff = 0 then Inr 0
        else
          andthen (mul_div_floor amount1 Q96 diff) (\<lambda>r.
          u256_to_u128 r)))"

section \<open>The price after an amount\<close>

definition next_price_add_amount0 :: "nat \<Rightarrow> nat \<Rightarrow> nat \<Rightarrow> nat res" where
  "next_price_add_amount0 sqrt_price_x96 numerator1 amt =
     andthen (u_div U256_MAX sqrt_price_x96) (\<lambda>threshold.
     if amt \<le> threshold then
       andthen (u256_mul amt sqrt_price_x96) (\<lambda>product.
       andthen (u256_add numerator1 product) (\<lambda>denominator.
       mul_div_ceil numerator1 sqrt_price_x96 denominator))
     else
       andthen (u_div numerator1 sqrt_price_x96) (\<lambda>term.
       andthen (u256_add term amt) (\<lambda>denominator.
       u256_div_round_up numerator1 denominator)))"

definition next_price_sub_amount0 :: "nat \<Rightarrow> nat \<Rightarrow> nat \<Rightarrow> nat res" where
  "next_price_sub_amount0 sqrt_price_x96 numerator1 amt =
     andthen (u_div U256_MAX sqrt_price_x96) (\<lambda>threshold.
     if amt \<le> threshold then
       andthen (u256_mul amt sqrt_price_x96) (\<lambda>product.
       if numerator1 \<le> product then Inl (ConcentratedError CL_PriceOutOfBounds)
       else
         andthen (u_sub numerator1 product) (\<lambda>denominator.
         if denominator = 0 then Inl (ConcentratedError CL_PriceOutOfBounds)
         else mul_div_ceil numerator1 sqrt_price_x96 denominator))
     else Inl (ConcentratedError CL_PriceOutOfBounds))"

definition get_next_sqrt_price_from_amount0 :: "nat \<Rightarrow> nat \<Rightarrow> nat \<Rightarrow> bool \<Rightarrow> nat res" where
  "get_next_sqrt_price_from_amount0 sqrt_price_x96 liquidity amount add =
     (if amount = 0 then Inr sqrt_price_x96
      else
        andthen (u256_mul liquidity Q96) (\<lambda>numerator1.
        if add then next_price_add_amount0 sqrt_price_x96 numerator1 amount
        else next_price_sub_amount0 sqrt_price_x96 numerator1 amount))"

definition get_next_sqrt_price_from_amount1 :: "nat \<Rightarrow> nat \<Rightarrow> nat \<Rightarrow> bool \<Rightarrow> nat res" where
  "get_next_sqrt_price_from_amount1 sqrt_price_x96 liquidity amount add =
     (if add then
        andthen (mul_div_floor amount Q96 liquidity) (\<lambda>quotient.
        u256_add sqrt_price_x96 quotient)
      else
        andthen (mul_div_ceil amount Q96 liquidity) (\<lambda>quotient.
        if sqrt_price_x96 \<le> quotient then Inl (ConcentratedError CL_PriceOutOfBounds)
        else u_sub sqrt_price_x96 quotient))"

definition get_next_sqrt_price_from_input :: "nat \<Rightarrow> nat \<Rightarrow> nat \<Rightarrow> bool \<Rightarrow> nat res" where
  "get_next_sqrt_price_from_input sqrt_price_x96 liquidity amount_in zero_for_one =
     (if zero_for_one then get_next_sqrt_price_from_amount0 sqrt_price_x96 liquidity amount_in True
      else get_next_sqrt_price_from_amount1 sqrt_price_x96 liquidity amount_in True)"

definition get_next_sqrt_price_from_output :: "nat \<Rightarrow> nat \<Rightarrow> nat \<Rightarrow> bool \<Rightarrow> nat res" where
  "get_next_sqrt_price_from_output sqrt_price_x96 liquidity amount_out zero_for_one =
     (if zero_for_one then get_next_sqrt_price_from_amount1 sqrt_price_x96 liquidity amount_out False
      else get_next_sqrt_price_from_amount0 sqrt_price_x96 liquidity amount_out False)"

definition sqrt_price_from_amounts :: "nat \<Rightarrow> nat \<Rightarrow> nat res" where
  "sqrt_price_from_amounts amount0 amount1 =
     (if amount0 = 0 \<or> amount1 = 0 then Inl (ConcentratedError CL_InvalidAmount)
      else
        andthen (u256_mul Q96 Q96) (\<lambda>q192.
        andthen (mul_div_floor amount1 q192 amount0) (\<lambda>ratio_q192.
        andthen (u256_sqrt ratio_q192) (\<lambda>sqrt_price.
        if sqrt_price < MIN_SQRT_RATIO \<or> MAX_SQRT_RATIO \<le> sqrt_price
        then Inl (ConcentratedError CL_PriceOutOfBounds)
        else Inr sqrt_price))))"

end
