(* ===== verification/CL_Ticks.thy ===== *)
theory CL_Ticks
  imports CL_Math
begin

text \<open>
  The ticks of a concentrated pool: \<^verbatim>\<open>liquidity_pool_concentrated/src/storage.rs\<close> (chunks of
  16 ticks, their write-back cache) and the tick operations of \<^verbatim>\<open>contract/internal.rs\<close>: the
  three-level index (chunk, bitmap of chunks, bitmap of bitmap words), the searches for the next
  initialized tick, and the update of a tick's liquidity. Storage is a record of maps; an absent
  chunk has no entry, an absent bitmap word reads as 0. Positions in the index are bounded by the
  tick range, so the \<^verbatim>\<open>i32\<close> arithmetic on them does not overflow.
\<close>

section \<open>Storage\<close>

record tick_info =
  fee_growth_outside_0 :: nat
  fee_growth_outside_1 :: nat
  liquidity_gross :: nat
  liquidity_net :: int

type_synonym tick_chunk = "tick_info list"

record tick_store =
  ts_chunks :: "int \<Rightarrow> tick_chunk option"
  ts_chunk_bitmap :: "int \<Rightarrow> nat"
  ts_word_bitmap :: "int \<Rightarrow> nat"
  ts_min_init :: int
  ts_max_init :: int

definition no_ticks :: tick_store where
  "no_ticks = \<lparr>ts_chunks = (\<lambda>_. None), ts_chunk_bitmap = (\<lambda>_. 0), ts_word_bitmap = (\<lambda>_. 0),
     ts_min_init = MAX_TICK, ts_max_init = MIN_TICK\<rparr>"

definition empty_tick :: tick_info where
  "empty_tick = \<lparr>fee_growth_outside_0 = 0, fee_growth_outside_1 = 0, liquidity_gross = 0, liquidity_net = 0\<rparr>"

definition compress_tick_storage :: "int \<Rightarrow> int \<Rightarrow> int" where
  "compress_tick_storage tick spacing =
     (let compressed = tick sdiv spacing in
      if tick < 0 \<and> tick smod spacing \<noteq> 0 then compressed - 1 else compressed)"

definition chunk_address :: "int \<Rightarrow> int \<times> nat" where
  "chunk_address compressed_tick =
     (compressed_tick div TICKS_PER_CHUNK, nat (compressed_tick mod TICKS_PER_CHUNK))"

definition set_tick_chunk :: "int \<Rightarrow> tick_chunk \<Rightarrow> tick_store \<Rightarrow> tick_store" where
  "set_tick_chunk chunk_pos chunk ts = ts\<lparr>ts_chunks := (ts_chunks ts)(chunk_pos := Some chunk)\<rparr>"

definition new_empty_chunk :: tick_chunk where
  "new_empty_chunk = replicate (nat TICKS_PER_CHUNK) empty_tick"

definition get_or_create_tick_chunk :: "tick_store \<Rightarrow> int \<Rightarrow> tick_chunk" where
  "get_or_create_tick_chunk ts chunk_pos =
     (case ts_chunks ts chunk_pos of Some c \<Rightarrow> c | None \<Rightarrow> new_empty_chunk)"

definition get_tick :: "tick_store \<Rightarrow> int \<Rightarrow> int \<Rightarrow> tick_info" where
  "get_tick ts tick spacing =
     (let (chunk_pos, slot) = chunk_address (compress_tick_storage tick spacing) in
      case ts_chunks ts chunk_pos of Some chunk \<Rightarrow> chunk ! slot | None \<Rightarrow> empty_tick)"

section \<open>The write-back cache of a swap\<close>

record chunk_cache =
  ch_cache :: "int \<Rightarrow> tick_chunk option"
  ch_dirty :: "int \<Rightarrow> bool"

definition new_cache :: chunk_cache where
  "new_cache = \<lparr>ch_cache = (\<lambda>_. None), ch_dirty = (\<lambda>_. False)\<rparr>"

definition remember :: "int \<Rightarrow> tick_chunk \<Rightarrow> chunk_cache \<Rightarrow> chunk_cache" where
  "remember chunk_pos chunk cc = cc\<lparr>ch_cache := (ch_cache cc)(chunk_pos := Some chunk)\<rparr>"

definition cache_get_chunk :: "tick_store \<Rightarrow> int \<Rightarrow> chunk_cache \<Rightarrow> tick_chunk option \<times> chunk_cache" where
  "cache_get_chunk ts chunk_pos cc =
     (case ch_cache cc chunk_pos of
        Some cached \<Rightarrow> (Some cached, cc)
      | None \<Rightarrow>
          (case ts_chunks ts chunk_pos of
             Some c \<Rightarrow> (Some c, remember chunk_pos c cc)
           | None \<Rightarrow> (None, cc)))"

definition cache_get_or_create_chunk :: "tick_store \<Rightarrow> int \<Rightarrow> chunk_cache \<Rightarrow> tick_chunk \<times> chunk_cache" where
  "cache_get_or_create_chunk ts chunk_pos cc =
     (case ch_cache cc chunk_pos of
        Some cached \<Rightarrow> (cached, cc)
      | None \<Rightarrow> let chunk = get_or_create_tick_chunk ts chunk_pos in (chunk, remember chunk_pos chunk cc))"

definition cache_set_chunk :: "int \<Rightarrow> tick_chunk \<Rightarrow> chunk_cache \<Rightarrow> chunk_cache" where
  "cache_set_chunk chunk_pos chunk cc =
     (remember chunk_pos chunk cc)\<lparr>ch_dirty := (ch_dirty cc)(chunk_pos := True)\<rparr>"

definition cache_get_tick :: "tick_store \<Rightarrow> int \<Rightarrow> int \<Rightarrow> chunk_cache \<Rightarrow> tick_info \<times> chunk_cache" where
  "cache_get_tick ts tick spacing cc =
     (let (chunk_pos, slot) = chunk_address (compress_tick_storage tick spacing);
          (chunk, cc) = cache_get_chunk ts chunk_pos cc in
      (case chunk of Some chunk \<Rightarrow> chunk ! slot | None \<Rightarrow> empty_tick, cc))"

definition cache_flush :: "chunk_cache \<Rightarrow> tick_store \<Rightarrow> tick_store" where
  \<comment> \<open>every dirty chunk goes to storage\<close>
  "cache_flush cc ts = ts\<lparr>ts_chunks := (\<lambda>chunk_pos.
     if ch_dirty cc chunk_pos
     then (case ch_cache cc chunk_pos of Some chunk \<Rightarrow> Some chunk | None \<Rightarrow> ts_chunks ts chunk_pos)
     else ts_chunks ts chunk_pos)\<rparr>"

section \<open>The index\<close>

definition update_chunk_bitmap_bit :: "int \<Rightarrow> bool \<Rightarrow> tick_store \<Rightarrow> tick_store" where
  "update_chunk_bitmap_bit chunk_pos has_initialized ts =
     (let (word_pos, bit_pos) = chunk_bitmap_position chunk_pos;
          word = u256_to_array (ts_chunk_bitmap ts word_pos);
          was_empty = (word = replicate 32 0);
          word = set_bit_be word bit_pos has_initialized;
          is_empty = (word = replicate 32 0);
          ts = ts\<lparr>ts_chunk_bitmap := (ts_chunk_bitmap ts)(word_pos := u256_from_array word)\<rparr> in
      if was_empty \<noteq> is_empty then
        let (l2_word_pos, l2_bit_pos) = word_bitmap_position word_pos;
            l2_word = u256_to_array (ts_word_bitmap ts l2_word_pos);
            l2_word = set_bit_be l2_word l2_bit_pos (\<not> is_empty) in
        ts\<lparr>ts_word_bitmap := (ts_word_bitmap ts)(l2_word_pos := u256_from_array l2_word)\<rparr>
      else ts)"

definition slot_initialized :: "tick_chunk \<Rightarrow> nat \<Rightarrow> bool" where
  "slot_initialized chunk s \<longleftrightarrow> 0 < liquidity_gross (chunk ! s)"

definition chunk_has_initialized :: "tick_chunk \<Rightarrow> bool" where
  "chunk_has_initialized chunk \<longleftrightarrow> (\<exists>i \<in> set [0 ..< nat TICKS_PER_CHUNK]. slot_initialized chunk i)"

definition scan_chunk_highest_init :: "tick_chunk \<Rightarrow> nat option" where
  "scan_chunk_highest_init chunk = List.find (slot_initialized chunk) (rev [0 ..< nat TICKS_PER_CHUNK])"

definition scan_chunk_lowest_init :: "tick_chunk \<Rightarrow> nat option" where
  "scan_chunk_lowest_init chunk = List.find (slot_initialized chunk) [0 ..< nat TICKS_PER_CHUNK]"

definition extreme_tick_in_bitmap_word :: "tick_store \<Rightarrow> int \<Rightarrow> int \<Rightarrow> bool \<Rightarrow> int" where
  "extreme_tick_in_bitmap_word ts word_pos spacing highest =
     (let word = u256_to_array (ts_chunk_bitmap ts word_pos);
          none = (if highest then MIN_TICK else MAX_TICK) in
      case (if highest then find_prev_set_bit word 255 else find_next_set_bit word 0) of
        Some b \<Rightarrow>
          let chunk_pos = word_pos * 256 + int b;
              chunk = get_or_create_tick_chunk ts chunk_pos in
          (case (if highest then scan_chunk_highest_init chunk else scan_chunk_lowest_init chunk) of
             Some s \<Rightarrow> compressed_to_tick (chunk_pos * TICKS_PER_CHUNK + int s) spacing
           | None \<Rightarrow> none)
      | None \<Rightarrow> none)"

definition search_word_bitmap :: "tick_store \<Rightarrow> bool \<Rightarrow> int \<Rightarrow> nat \<Rightarrow> int option" where
  \<comment> \<open>the closures \<open>search\<close> and \<open>search_bit\<close>\<close>
  "search_word_bitmap ts lte l2_pos from =
     (let l2_word = u256_to_array (ts_word_bitmap ts l2_pos) in
      map_option (\<lambda>b. l2_pos * 256 + int b)
        (if lte then find_prev_set_bit l2_word from else find_next_set_bit l2_word from))"

definition search_own_l2_word :: "tick_store \<Rightarrow> bool \<Rightarrow> int \<Rightarrow> nat \<Rightarrow> int option" where
  \<comment> \<open>the current level-2 word, without its own bit\<close>
  "search_own_l2_word ts lte l2_pos l2_bit =
     (if lte \<and> 0 < l2_bit then search_word_bitmap ts lte l2_pos (l2_bit - 1)
      else if \<not> lte \<and> l2_bit < 255 then search_word_bitmap ts lte l2_pos (l2_bit + 1)
      else None)"

definition find_adjacent_bitmap_word :: "tick_store \<Rightarrow> int \<Rightarrow> bool \<Rightarrow> int option" where
  "find_adjacent_bitmap_word ts current_word_pos lte =
     (let (l2_pos, l2_bit) = word_bitmap_position current_word_pos in
      case search_own_l2_word ts lte l2_pos l2_bit of
        Some p \<Rightarrow> Some p
      | None \<Rightarrow> search_word_bitmap ts lte (if lte then l2_pos - 1 else l2_pos + 1) (if lte then 255 else 0))"

definition find_next_global_tick :: "tick_store \<Rightarrow> int \<Rightarrow> int \<Rightarrow> bool \<Rightarrow> int" where
  "find_next_global_tick ts from_tick spacing lte =
     (let (chunk_pos, _) = chunk_address (compress_tick from_tick spacing);
          (word_pos, _) = chunk_bitmap_position chunk_pos;
          tick = extreme_tick_in_bitmap_word ts word_pos spacing lte in
      if lte \<and> tick \<noteq> MIN_TICK then tick
      else if \<not> lte \<and> tick \<noteq> MAX_TICK then tick
      else
        let (l2_pos, l2_bit) = word_bitmap_position word_pos in
        case search_own_l2_word ts lte l2_pos l2_bit of
          Some found_word_pos \<Rightarrow> extreme_tick_in_bitmap_word ts found_word_pos spacing lte
        | None \<Rightarrow>
            (case search_word_bitmap ts lte (if lte then l2_pos - 1 else l2_pos + 1) (if lte then 255 else 0) of
               Some found_word_pos \<Rightarrow> extreme_tick_in_bitmap_word ts found_word_pos spacing lte
             | None \<Rightarrow> if lte then MIN_TICK else MAX_TICK))"

section \<open>The next initialized tick\<close>

definition find_in_word_down :: "tick_store \<Rightarrow> int \<Rightarrow> int \<Rightarrow> nat \<Rightarrow> chunk_cache \<Rightarrow> int option \<times> chunk_cache" where
  \<comment> \<open>step 2 downwards: the previous chunk of the same bitmap word\<close>
  "find_in_word_down ts spacing bm_word_pos bm_bit_pos cc =
     (case (if 0 < bm_bit_pos
            then find_prev_set_bit (u256_to_array (ts_chunk_bitmap ts bm_word_pos)) (bm_bit_pos - 1)
            else None) of
        Some found_bit \<Rightarrow>
          let found_chunk_pos = bm_word_pos * 256 + int found_bit;
              (chunk, cc) = cache_get_or_create_chunk ts found_chunk_pos cc in
          (map_option (\<lambda>s. compressed_to_tick (found_chunk_pos * TICKS_PER_CHUNK + int s) spacing)
            (scan_chunk_highest_init chunk), cc)
      | None \<Rightarrow> (None, cc))"

definition find_in_word_up :: "tick_store \<Rightarrow> int \<Rightarrow> int \<Rightarrow> nat \<Rightarrow> chunk_cache \<Rightarrow> int option \<times> chunk_cache" where
  \<comment> \<open>step 2 upwards: the next chunk of the same bitmap word\<close>
  "find_in_word_up ts spacing bm_word_pos bm_bit_pos cc =
     (case (if bm_bit_pos < 255
            then find_next_set_bit (u256_to_array (ts_chunk_bitmap ts bm_word_pos)) (bm_bit_pos + 1)
            else None) of
        Some found_bit \<Rightarrow>
          let found_chunk_pos = bm_word_pos * 256 + int found_bit;
              (chunk, cc) = cache_get_or_create_chunk ts found_chunk_pos cc in
          (map_option (\<lambda>s. compressed_to_tick (found_chunk_pos * TICKS_PER_CHUNK + int s) spacing)
            (scan_chunk_lowest_init chunk), cc)
      | None \<Rightarrow> (None, cc))"

definition find_in_chunk :: "int \<Rightarrow> int \<Rightarrow> nat list \<Rightarrow> tick_chunk option \<Rightarrow> int option" where
  \<comment> \<open>step 1: the slots of the current chunk, in the order of the search\<close>
  "find_in_chunk spacing chunk_pos slots chunk =
     (case chunk of
        Some chunk \<Rightarrow>
          map_option (\<lambda>s. compressed_to_tick (chunk_pos * TICKS_PER_CHUNK + int s) spacing)
            (List.find (slot_initialized chunk) slots)
      | None \<Rightarrow> None)"

definition find_beyond_word :: "tick_store \<Rightarrow> int \<Rightarrow> int \<Rightarrow> bool \<Rightarrow> int option" where
  \<comment> \<open>step 3: the extreme tick of the nearest non-empty bitmap word\<close>
  "find_beyond_word ts spacing bm_word_pos lte =
     (case find_adjacent_bitmap_word ts bm_word_pos lte of
        Some target_word \<Rightarrow>
          let tick = extreme_tick_in_bitmap_word ts target_word spacing lte in
          if tick \<noteq> (if lte then MIN_TICK else MAX_TICK) then Some tick else None
      | None \<Rightarrow> None)"

definition find_tick_down :: "tick_store \<Rightarrow> int \<Rightarrow> int \<Rightarrow> chunk_cache \<Rightarrow> (int \<times> bool) \<times> chunk_cache" where
  "find_tick_down ts compressed spacing cc =
     (let (chunk_pos, slot) = chunk_address compressed;
          (chunk, cc) = cache_get_chunk ts chunk_pos cc in
      case find_in_chunk spacing chunk_pos (rev [0 ..< slot + 1]) chunk of
        Some t \<Rightarrow> ((t, True), cc)
      | None \<Rightarrow>
          let (bm_word_pos, bm_bit_pos) = chunk_bitmap_position chunk_pos;
              (found, cc) = find_in_word_down ts spacing bm_word_pos bm_bit_pos cc in
          (case found of
             Some t \<Rightarrow> ((t, True), cc)
           | None \<Rightarrow>
               (case find_beyond_word ts spacing bm_word_pos True of
                  Some t \<Rightarrow> ((t, True), cc)
                | None \<Rightarrow> ((compressed_to_tick (bm_word_pos * 256 * TICKS_PER_CHUNK) spacing, False), cc))))"

definition find_tick_up :: "tick_store \<Rightarrow> int \<Rightarrow> int \<Rightarrow> chunk_cache \<Rightarrow> (int \<times> bool) \<times> chunk_cache" where
  "find_tick_up ts compressed spacing cc =
     (let (chunk_pos, slot) = chunk_address (saturate_i32 (compressed + 1));
          (chunk, cc) = cache_get_chunk ts chunk_pos cc in
      case find_in_chunk spacing chunk_pos [slot ..< nat TICKS_PER_CHUNK] chunk of
        Some t \<Rightarrow> ((t, True), cc)
      | None \<Rightarrow>
          let (bm_word_pos, bm_bit_pos) = chunk_bitmap_position chunk_pos;
              (found, cc) = find_in_word_up ts spacing bm_word_pos bm_bit_pos cc in
          (case found of
             Some t \<Rightarrow> ((t, True), cc)
           | None \<Rightarrow>
               (case find_beyond_word ts spacing bm_word_pos False of
                  Some t \<Rightarrow> ((t, True), cc)
                | None \<Rightarrow>
                    ((compressed_to_tick ((bm_word_pos * 256 + 255) * TICKS_PER_CHUNK + (TICKS_PER_CHUNK - 1)) spacing,
                      False), cc))))"

definition find_initialized_tick_in_word ::
  "tick_store \<Rightarrow> int \<Rightarrow> int \<Rightarrow> bool \<Rightarrow> chunk_cache \<Rightarrow> (int \<times> bool) \<times> chunk_cache" where
  "find_initialized_tick_in_word ts tick spacing lte cc =
     (let compressed = compress_tick tick spacing in
      if lte then find_tick_down ts compressed spacing cc else find_tick_up ts compressed spacing cc)"

section \<open>A tick's liquidity\<close>

definition change_gross :: "int \<Rightarrow> int \<Rightarrow> nat \<Rightarrow> nat res" where
  "change_gross spacing liquidity_delta gross =
     (let delta = nat \<bar>liquidity_delta\<bar> in
      if 0 \<le> liquidity_delta then
        if U128_MAX < gross + delta then Inl (ConcentratedError CL_LiquidityOverflow)
        else
          andthen (max_liquidity_per_tick spacing) (\<lambda>max_per_tick.
          if max_per_tick < gross + delta then Inl (ConcentratedError CL_LiquidityOverflow)
          else Inr (gross + delta))
      else if gross < delta then Inl (ConcentratedError CL_LiquidityUnderflow)
      else Inr (gross - delta))"

definition change_net :: "bool \<Rightarrow> int \<Rightarrow> int \<Rightarrow> int res" where
  "change_net is_upper liquidity_delta net =
     (let n = (if is_upper then net - liquidity_delta else net + liquidity_delta) in
      if i128_fits n then Inr n else Inl (ConcentratedError CL_LiquidityOverflow))"

definition index_opened :: "int \<Rightarrow> int \<Rightarrow> tick_store \<Rightarrow> tick_store" where
  \<comment> \<open>a tick became initialized: set its chunk's bit, widen the bounds\<close>
  "index_opened tick_idx chunk_pos ts =
     (let ts = update_chunk_bitmap_bit chunk_pos True ts;
          ts = (if tick_idx < ts_min_init ts then ts\<lparr>ts_min_init := tick_idx\<rparr> else ts) in
      if ts_max_init ts < tick_idx then ts\<lparr>ts_max_init := tick_idx\<rparr> else ts)"

definition index_closed :: "int \<Rightarrow> int \<Rightarrow> int \<Rightarrow> tick_chunk \<Rightarrow> tick_store \<Rightarrow> tick_store" where
  \<comment> \<open>a tick lost its last liquidity: clear the bit of an empty chunk, shrink the bounds\<close>
  "index_closed tick_idx spacing chunk_pos chunk ts =
     (let ts = (if \<not> chunk_has_initialized chunk then update_chunk_bitmap_bit chunk_pos False ts else ts);
          ts = (if tick_idx = ts_min_init ts
                then ts\<lparr>ts_min_init := find_next_global_tick ts tick_idx spacing False\<rparr> else ts) in
      if tick_idx = ts_max_init ts
      then ts\<lparr>ts_max_init := find_next_global_tick ts tick_idx spacing True\<rparr> else ts)"

definition update_tick_liquidity ::
  "int \<Rightarrow> int \<Rightarrow> nat \<Rightarrow> nat \<Rightarrow> int \<Rightarrow> int \<Rightarrow> bool \<Rightarrow> tick_store \<Rightarrow> tick_store res" where
  \<comment> \<open>the first four arguments are what it reads from the pool: spacing, current tick, fee growth\<close>
  "update_tick_liquidity spacing tick_now growth0 growth1 tick_idx liquidity_delta is_upper ts =
     (let (chunk_pos, slot_idx) = chunk_address (compress_tick tick_idx spacing);
          chunk = get_or_create_tick_chunk ts chunk_pos;
          tick = chunk ! slot_idx;
          was_initialized = 0 < liquidity_gross tick in
      andthen (change_gross spacing liquidity_delta (liquidity_gross tick)) (\<lambda>gross.
      andthen (change_net is_upper liquidity_delta (liquidity_net tick)) (\<lambda>net.
      let is_initialized = 0 < gross;
          tick = tick\<lparr>liquidity_gross := gross, liquidity_net := net\<rparr>;
          tick =
            (if \<not> was_initialized \<and> is_initialized then
               (if tick_idx \<le> tick_now
                then tick\<lparr>fee_growth_outside_0 := growth0, fee_growth_outside_1 := growth1\<rparr> else tick)
             else if was_initialized \<and> \<not> is_initialized
             then tick\<lparr>fee_growth_outside_0 := 0, fee_growth_outside_1 := 0\<rparr>
             else tick);
          chunk = chunk[slot_idx := tick];
          ts = set_tick_chunk chunk_pos chunk ts in
      Inr (if \<not> was_initialized \<and> is_initialized then index_opened tick_idx chunk_pos ts
           else if was_initialized \<and> \<not> is_initialized then index_closed tick_idx spacing chunk_pos chunk ts
           else ts))))"

end
