(* ===== verification/CL_Swap.thy ===== *)
theory CL_Swap
  imports CL_Ticks
begin

text \<open>
  The swap of a concentrated pool, from \<^verbatim>\<open>contract/internal.rs\<close>: one step between two prices
  (\<open>compute_swap_step\<close>), the crossing of a tick, and the loop \<open>swap_loop\<close> that runs steps until the
  amount is used up, the price limit is reached or no liquidity is ahead. The loop's constants are
  the record \<open>swap_params\<close>, its variables the record \<open>swap_state\<close>; the loop is a
  \<^theory_text>\<open>partial_function\<close>, so not returning is the value \<open>None\<close>. The fees and the growth of
  fees that the loop writes to storage are variables of it.
\<close>

section \<open>One step\<close>

record swap_step =
  st_sqrt_next :: nat
  st_amount_in :: nat
  st_amount_out :: nat
  st_fee :: nat

definition reach_or_move :: "bool \<Rightarrow> nat \<Rightarrow> nat option \<Rightarrow> nat \<Rightarrow> nat res \<Rightarrow> nat res" where
  \<comment> \<open>the target if the amount reaches it, else the price after the amount, not beyond the target\<close>
  "reach_or_move zero_for_one sqrt_target to_target amount computed =
     (if (case to_target of Some a \<Rightarrow> a \<le> amount | None \<Rightarrow> False) then Inr sqrt_target
      else
        andthen computed (\<lambda>computed.
        Inr (if zero_for_one then max computed sqrt_target else min computed sqrt_target)))"

definition step_price_in :: "nat \<Rightarrow> nat \<Rightarrow> nat \<Rightarrow> nat \<Rightarrow> bool \<Rightarrow> nat res" where
  "step_price_in sqrt_current sqrt_target liquidity less_fee zero_for_one =
     andthen (if zero_for_one then try_amount0_delta sqrt_target sqrt_current liquidity True
              else try_amount1_delta sqrt_current sqrt_target liquidity True) (\<lambda>amount_in_to_target.
     reach_or_move zero_for_one sqrt_target amount_in_to_target less_fee
       (get_next_sqrt_price_from_input sqrt_current liquidity less_fee zero_for_one))"

definition step_price_out :: "nat \<Rightarrow> nat \<Rightarrow> nat \<Rightarrow> nat \<Rightarrow> bool \<Rightarrow> nat res" where
  "step_price_out sqrt_current sqrt_target liquidity amount_remaining zero_for_one =
     andthen (if zero_for_one then try_amount1_delta sqrt_target sqrt_current liquidity False
              else try_amount0_delta sqrt_current sqrt_target liquidity False) (\<lambda>amount_out_to_target.
     reach_or_move zero_for_one sqrt_target amount_out_to_target amount_remaining
       (get_next_sqrt_price_from_output sqrt_current liquidity amount_remaining zero_for_one))"

definition step_amounts :: "nat \<Rightarrow> nat \<Rightarrow> nat \<Rightarrow> bool \<Rightarrow> (nat \<times> nat) res" where
  \<comment> \<open>what a move of the price takes in (rounded up) and pays out (rounded down)\<close>
  "step_amounts sqrt_current sqrt_next liquidity zero_for_one =
     andthen (if zero_for_one then amount0_delta sqrt_next sqrt_current liquidity True
              else amount1_delta sqrt_current sqrt_next liquidity True) (\<lambda>amount_in.
     andthen (if zero_for_one then amount1_delta sqrt_next sqrt_current liquidity False
              else amount0_delta sqrt_current sqrt_next liquidity False) (\<lambda>amount_out.
     Inr (amount_in, amount_out)))"

definition compute_swap_step ::
  "fixed_point \<Rightarrow> nat \<Rightarrow> nat \<Rightarrow> nat \<Rightarrow> nat \<Rightarrow> nat \<Rightarrow> bool \<Rightarrow> bool \<Rightarrow> swap_step res" where
  "compute_swap_step fp sqrt_current sqrt_target liquidity amount_remaining fee zero_for_one exact_input =
     (if liquidity = 0 then
        Inr \<lparr>st_sqrt_next = sqrt_target, st_amount_in = 0, st_amount_out = 0, st_fee = 0\<rparr>
      else
        andthen (u_sub CL_FEE_DENOMINATOR fee) (\<lambda>fee_complement.
        if exact_input then
          andthen (mul_div_u128 fp amount_remaining fee_complement CL_FEE_DENOMINATOR False) (\<lambda>less_fee.
          andthen (step_price_in sqrt_current sqrt_target liquidity less_fee zero_for_one) (\<lambda>sqrt_next.
          andthen (step_amounts sqrt_current sqrt_next liquidity zero_for_one) (\<lambda>(amount_in, amount_out).
          andthen (if sqrt_next = sqrt_target then mul_div_u128 fp amount_in fee fee_complement True
                   else Inr (sat_sub amount_remaining amount_in)) (\<lambda>fee_amount.
          Inr \<lparr>st_sqrt_next = sqrt_next, st_amount_in = amount_in, st_amount_out = amount_out,
               st_fee = fee_amount\<rparr>))))
        else
          andthen (step_price_out sqrt_current sqrt_target liquidity amount_remaining zero_for_one) (\<lambda>sqrt_next.
          andthen (step_amounts sqrt_current sqrt_next liquidity zero_for_one) (\<lambda>(amount_in, amount_out).
          andthen (mul_div_u128 fp amount_in fee fee_complement True) (\<lambda>fee_amount.
          Inr \<lparr>st_sqrt_next = sqrt_next, st_amount_in = amount_in,
               st_amount_out = (if amount_remaining < amount_out then amount_remaining else amount_out),
               st_fee = fee_amount\<rparr>)))))"

definition validate_price_limit :: "nat \<Rightarrow> bool \<Rightarrow> nat \<Rightarrow> nat res" where
  "validate_price_limit sqrt_price zero_for_one sqrt_price_limit =
     (let limit =
        (if sqrt_price_limit = 0
         then (if zero_for_one then MIN_SQRT_RATIO + 1 else MAX_SQRT_RATIO - 1)
         else sqrt_price_limit) in
      if zero_for_one then
        (if limit \<le> MIN_SQRT_RATIO \<or> sqrt_price \<le> limit
         then Inl (ConcentratedError CL_InvalidPriceLimit) else Inr limit)
      else if MAX_SQRT_RATIO \<le> limit \<or> limit \<le> sqrt_price
      then Inl (ConcentratedError CL_InvalidPriceLimit) else Inr limit)"

definition direction_from_indexes :: "nat \<Rightarrow> nat \<Rightarrow> bool res" where
  "direction_from_indexes in_idx out_idx =
     (if in_idx = out_idx then Inl (ValidationError V_CannotSwapSameToken)
      else if 1 < in_idx then Inl (ValidationError V_InTokenOutOfBounds)
      else if 1 < out_idx then Inl (ValidationError V_OutTokenOutOfBounds)
      else Inr (in_idx = 0 \<and> out_idx = 1))"

definition add_fee_growth_global ::
  "fixed_point \<Rightarrow> bool \<Rightarrow> nat \<Rightarrow> nat \<Rightarrow> nat \<times> nat \<Rightarrow> (nat \<times> nat \<times> nat) res" where
  \<comment> \<open>the growth per unit of liquidity, and both global accumulators after it\<close>
  "add_fee_growth_global fp zero_for_one fee_amount_for_lp liquidity growth =
     (let (growth0, growth1) = growth in
      if fee_amount_for_lp = 0 \<or> liquidity = 0 then Inr (0, growth0, growth1)
      else
        andthen (fee_growth_delta_x128 fp fee_amount_for_lp liquidity) (\<lambda>growth_delta.
        if zero_for_one
        then andthen (wrapping_add_u256 growth0 growth_delta) (\<lambda>g. Inr (growth_delta, g, growth1))
        else andthen (wrapping_add_u256 growth1 growth_delta) (\<lambda>g. Inr (growth_delta, growth0, g))))"

definition flip_outside :: "nat \<times> nat \<Rightarrow> tick_info \<Rightarrow> tick_info res" where
  "flip_outside growth tick =
     andthen (wrapping_sub_u256 (fst growth) (fee_growth_outside_0 tick)) (\<lambda>g0.
     andthen (wrapping_sub_u256 (snd growth) (fee_growth_outside_1 tick)) (\<lambda>g1.
     Inr (tick\<lparr>fee_growth_outside_0 := g0, fee_growth_outside_1 := g1\<rparr>)))"

definition cross_tick ::
  "tick_store \<Rightarrow> int \<Rightarrow> nat \<times> nat \<Rightarrow> int \<Rightarrow> chunk_cache \<Rightarrow> (int \<times> chunk_cache) res" where
  "cross_tick ts spacing growth tick_idx cc =
     (let (chunk_pos, slot_idx) = chunk_address (compress_tick tick_idx spacing);
          (chunk, cc) = cache_get_or_create_chunk ts chunk_pos cc in
      andthen (flip_outside growth (chunk ! slot_idx)) (\<lambda>tick.
      Inr (liquidity_net tick, cache_set_chunk chunk_pos (chunk[slot_idx := tick]) cc)))"

section \<open>The loop\<close>

record swap_params =
  sp_fp :: fixed_point
  sp_ticks :: tick_store
  sp_zero_for_one :: bool
  sp_exact_input :: bool
  sp_dry_run :: bool
  sp_price_limit :: nat
  sp_fee :: nat
  sp_spacing :: int
  sp_tick_bound :: int
  sp_protocol_fraction :: nat

record swap_state =
  sw_remaining :: nat
  sw_calculated :: nat
  sw_total_fee :: nat
  sw_price :: nat
  sw_tick :: int
  sw_liquidity :: nat
  sw_last_liquidity :: nat
  sw_last_tick :: int
  sw_crossed :: bool
  sw_fees :: "nat \<times> nat"
  sw_growth :: "nat \<times> nat"
  sw_cache :: chunk_cache

definition swap_stops :: "swap_params \<Rightarrow> swap_state \<Rightarrow> bool" where
  \<comment> \<open>the condition of the \<open>while\<close> and the two breaks at its top\<close>
  "swap_stops p s \<longleftrightarrow> sw_remaining s = 0 \<or> sw_price s = sp_price_limit p \<or>
     (if sp_zero_for_one p then sw_tick s < sp_tick_bound p else sp_tick_bound p \<le> sw_tick s)"

definition swap_target :: "swap_params \<Rightarrow> nat \<Rightarrow> nat" where
  "swap_target p next_tick_price =
     (if sp_zero_for_one p
      then (if next_tick_price < sp_price_limit p then sp_price_limit p else next_tick_price)
      else if sp_price_limit p < next_tick_price then sp_price_limit p else next_tick_price)"

definition book_amounts :: "swap_params \<Rightarrow> swap_step \<Rightarrow> swap_state \<Rightarrow> swap_state" where
  "book_amounts p step s =
     (if sp_exact_input p then
        s\<lparr>sw_remaining := sat_sub (sat_sub (sw_remaining s) (st_amount_in step)) (st_fee step),
          sw_calculated := sat_add U128_MAX (sw_calculated s) (st_amount_out step)\<rparr>
      else
        s\<lparr>sw_remaining := sat_sub (sw_remaining s) (st_amount_out step),
          sw_calculated := sat_add U128_MAX (sat_add U128_MAX (sw_calculated s) (st_amount_in step)) (st_fee step)\<rparr>)"

definition add_protocol_fee :: "bool \<Rightarrow> nat \<Rightarrow> nat \<times> nat \<Rightarrow> nat \<times> nat" where
  "add_protocol_fee zero_for_one protocol_cut fees =
     (if zero_for_one then (sat_add U128_MAX (fst fees) protocol_cut, snd fees)
      else (fst fees, sat_add U128_MAX (snd fees) protocol_cut))"

definition book_fees :: "swap_params \<Rightarrow> swap_step \<Rightarrow> swap_state \<Rightarrow> swap_state res" where
  "book_fees p step s =
     (if sp_dry_run p then Inr s
      else
        andthen (mul_div_u128 (sp_fp p) (st_fee step) (sp_protocol_fraction p) CL_FEE_DENOMINATOR False)
          (\<lambda>protocol_cut.
        andthen (add_fee_growth_global (sp_fp p) (sp_zero_for_one p) (sat_sub (st_fee step) protocol_cut)
          (sw_liquidity s) (sw_growth s)) (\<lambda>(_, growth).
        Inr (s\<lparr>sw_fees := add_protocol_fee (sp_zero_for_one p) protocol_cut (sw_fees s),
               sw_total_fee := sat_add U128_MAX (sw_total_fee s) (st_fee step),
               sw_growth := growth\<rparr>))))"

definition apply_net :: "bool \<Rightarrow> int \<Rightarrow> nat \<Rightarrow> nat res" where
  \<comment> \<open>the active liquidity after crossing a tick\<close>
  "apply_net zero_for_one net liquidity =
     andthen (if zero_for_one then i128_sub 0 net else Inr net) (\<lambda>net.
     if net < 0 then
       andthen (i128_sub 0 net) (\<lambda>m.
       if liquidity < as_u128 m then Inl (ConcentratedError CL_LiquidityUnderflow)
       else u_sub liquidity (as_u128 m))
     else Inr (sat_add U128_MAX liquidity (as_u128 net)))"

definition cross_initialized :: "swap_params \<Rightarrow> int \<Rightarrow> swap_state \<Rightarrow> swap_state res" where
  "cross_initialized p next_tick s =
     andthen
       (if sp_dry_run p
        then let (tick, cc) = cache_get_tick (sp_ticks p) next_tick (sp_spacing p) (sw_cache s)
             in Inr (liquidity_net tick, cc)
        else cross_tick (sp_ticks p) (sp_spacing p) (sw_growth s) next_tick (sw_cache s)) (\<lambda>(net, cc).
     andthen (apply_net (sp_zero_for_one p) net (sw_liquidity s)) (\<lambda>liquidity.
     Inr (s\<lparr>sw_cache := cc, sw_liquidity := liquidity, sw_last_tick := next_tick, sw_crossed := True\<rparr>)))"

definition tick_after_reaching :: "bool \<Rightarrow> int \<Rightarrow> int" where
  "tick_after_reaching zero_for_one next_tick =
     (if zero_for_one then max (saturate_i32 (next_tick - 1)) MIN_TICK else min next_tick MAX_TICK)"

definition move_price :: "swap_params \<Rightarrow> int \<times> bool \<Rightarrow> nat \<Rightarrow> nat \<Rightarrow> nat \<Rightarrow> swap_state \<Rightarrow> swap_state res" where
  \<comment> \<open>the end of a round: the new price, and the tick that goes with it\<close>
  "move_price p next next_tick_price sqrt_price_start sqrt_next s =
     (let (next_tick, next_tick_initialized) = next; s = s\<lparr>sw_price := sqrt_next\<rparr> in
      if sqrt_next = next_tick_price then
        andthen (if next_tick_initialized then cross_initialized p next_tick s else Inr s) (\<lambda>s.
        Inr (s\<lparr>sw_tick := tick_after_reaching (sp_zero_for_one p) next_tick\<rparr>))
      else if sqrt_next \<noteq> sqrt_price_start then
        andthen (tick_at_sqrt_ratio (sp_fp p) sqrt_next) (\<lambda>tick. Inr (s\<lparr>sw_tick := tick\<rparr>))
      else Inr s)"

definition note_liquidity :: "swap_state \<Rightarrow> swap_state" where
  "note_liquidity s = (if 0 < sw_liquidity s then s\<lparr>sw_last_liquidity := sw_liquidity s\<rparr> else s)"

definition swap_round :: "swap_params \<Rightarrow> swap_state \<Rightarrow> swap_state res" where
  "swap_round p s =
     (let s = note_liquidity s;
          (next, cc) = find_initialized_tick_in_word (sp_ticks p) (sw_tick s) (sp_spacing p)
            (sp_zero_for_one p) (sw_cache s);
          s = s\<lparr>sw_cache := cc\<rparr> in
      andthen (sqrt_ratio_at_tick (sp_fp p) (fst next)) (\<lambda>next_tick_price.
      andthen (compute_swap_step (sp_fp p) (sw_price s) (swap_target p next_tick_price) (sw_liquidity s)
        (sw_remaining s) (sp_fee p) (sp_zero_for_one p) (sp_exact_input p)) (\<lambda>step.
      andthen (book_fees p step (book_amounts p step s)) (\<lambda>t.
      move_price p next next_tick_price (sw_price s) (st_sqrt_next step) t))))"

partial_function (option) swap_rounds :: "swap_params \<Rightarrow> swap_state \<Rightarrow> swap_state res option" where
  "swap_rounds p s =
     (if swap_stops p s then Some (Inr s)
      else case swap_round p s of Inl e \<Rightarrow> Some (Inl e) | Inr s' \<Rightarrow> swap_rounds p s')"

definition swap_amounts_signed :: "bool \<Rightarrow> bool \<Rightarrow> nat \<Rightarrow> nat \<Rightarrow> (int \<times> int) res" where
  "swap_amounts_signed zero_for_one exact_input amount_spec_used amount_calculated =
     (let used = as_i128 amount_spec_used; calculated = as_i128 amount_calculated in
      if zero_for_one then
        (if exact_input then andthen (i128_sub 0 calculated) (\<lambda>n. Inr (used, n))
         else andthen (i128_sub 0 used) (\<lambda>n. Inr (calculated, n)))
      else if exact_input then andthen (i128_sub 0 calculated) (\<lambda>n. Inr (n, used))
      else andthen (i128_sub 0 used) (\<lambda>n. Inr (n, calculated)))"

end
