(* ===== verification/CL_Pool.thy ===== *)
theory CL_Pool
  imports CL_Swap Pool_Admin Concentrated_Weight
begin

text \<open>
  \<^verbatim>\<open>liquidity_pool_concentrated/src/types.rs\<close> and \<open>storage.rs\<close>: the state of a concentrated
  pool, an extension of the common state of \<open>Pool_Base\<close>; and \<^verbatim>\<open>plane.rs\<close>: what the pool reports
  to its plane after every change.

  The tokens, the fee and the tick spacing are set together, once, by \<open>initialize\<close>; their getters
  have no default, so they form one optional record. Price, tick and the growth of fees are set at
  the same time and are only read after one of these.
\<close>

section \<open>State\<close>

record cl_config =
  cf_token0 :: address
  cf_token1 :: address
  cf_fee :: nat
  cf_spacing :: int

record slot0 =
  sqrt_price_x96 :: nat
  slot_tick :: int

record position_data =
  inside_0_last :: nat
  inside_1_last :: nat
  po_liquidity :: nat
  tokens_owed_0 :: nat
  tokens_owed_1 :: nat

record user_state =
  us_positions :: "(int \<times> int) list"
  us_raw :: nat
  us_weighted :: nat

record cl_pool = pool +
  cl_config :: "cl_config option"
  cl_slot0 :: slot0
  cl_liquidity :: nat
  cl_fee_growth :: "nat \<times> nat"
  cl_protocol_fees :: "nat \<times> nat"
  cl_reserves :: "nat \<times> nat"
  cl_total_raw :: nat
  cl_total_weighted :: nat
  cl_full_range :: nat
  cl_ticks :: tick_store
  cl_positions :: "address \<times> int \<times> int \<Rightarrow> position_data option"
  cl_users :: "address \<Rightarrow> user_state option"

definition new_cl_pool :: "nat \<Rightarrow> cl_pool" where
  "new_cl_pool wasm = \<lparr>pl_managed = new_managed wasm,
     pl_shares = \<lparr>sh_token = None, sh_total = None\<rparr>, pl_rewards = empty_rewards, pl_gauges = no_gauges,
     pl_plane = None, pl_router = None, pl_killed_swap = False, pl_killed_deposit = False,
     pl_killed_claim = False, pl_token_future_wasm = None, pl_gauge_future_wasm = None,
     pl_protocol_fee_fraction = 5000, pl_sync_ledger = 0, pl_config_storage = None,
     cl_config = None, cl_slot0 = \<lparr>sqrt_price_x96 = 0, slot_tick = 0\<rparr>, cl_liquidity = 0,
     cl_fee_growth = (0, 0), cl_protocol_fees = (0, 0), cl_reserves = (0, 0), cl_total_raw = 0,
     cl_total_weighted = 0, cl_full_range = 0, cl_ticks = no_ticks, cl_positions = (\<lambda>_. None),
     cl_users = (\<lambda>_. None)\<rparr>"

definition no_user :: user_state where
  "no_user = \<lparr>us_positions = [], us_raw = 0, us_weighted = 0\<rparr>"

definition get_user_state :: "cl_pool \<Rightarrow> address \<Rightarrow> user_state" where
  "get_user_state s user = (case cl_users s user of Some u \<Rightarrow> u | None \<Rightarrow> no_user)"

definition set_user_state :: "address \<Rightarrow> user_state \<Rightarrow> cl_pool \<Rightarrow> cl_pool" where
  "set_user_state user u s = s\<lparr>cl_users := (cl_users s)(user := Some u)\<rparr>"

definition set_position :: "address \<Rightarrow> int \<Rightarrow> int \<Rightarrow> position_data \<Rightarrow> cl_pool \<Rightarrow> cl_pool" where
  "set_position owner tick_lower tick_upper v s =
     s\<lparr>cl_positions := (cl_positions s)((owner, tick_lower, tick_upper) := Some v)\<rparr>"

definition remove_position :: "address \<Rightarrow> int \<Rightarrow> int \<Rightarrow> cl_pool \<Rightarrow> cl_pool" where
  "remove_position owner tick_lower tick_upper s =
     s\<lparr>cl_positions := (cl_positions s)((owner, tick_lower, tick_upper) := None)\<rparr>"

section \<open>The report to the plane\<close>

definition MIN_EXACT_TICK_STEPS :: nat where
  "MIN_EXACT_TICK_STEPS = 8"

definition MAX_EXACT_TICK_STEPS :: nat where
  "MAX_EXACT_TICK_STEPS = 20"

definition TARGET_PRICE_DISTANCE_TICKS :: nat where
  "TARGET_PRICE_DISTANCE_TICKS = 5700"

definition exact_tick_steps_for_spacing :: "int \<Rightarrow> nat" where
  "exact_tick_steps_for_spacing spacing =
     (if spacing \<le> 0 then 0
      else case List.find (\<lambda>steps.
          TARGET_PRICE_DISTANCE_TICKS \<le> sat_mul U32_MAX (sat_mul U32_MAX steps (steps + 1) div 2) (nat spacing))
        [MIN_EXACT_TICK_STEPS ..< MAX_EXACT_TICK_STEPS] of
        Some steps \<Rightarrow> steps
      | None \<Rightarrow> MAX_EXACT_TICK_STEPS)"

definition usable_ticks :: "int \<Rightarrow> int \<times> int" where
  \<comment> \<open>the outermost multiples of the spacing inside the tick range\<close>
  "usable_ticks spacing =
     (let tick_lower = MIN_TICK - MIN_TICK smod spacing;
          tick_lower = (if tick_lower < MIN_TICK then saturate_i32 (tick_lower + spacing) else tick_lower);
          tick_upper = MAX_TICK - MAX_TICK smod spacing;
          tick_upper = (if MAX_TICK < tick_upper then saturate_i32 (tick_upper - spacing) else tick_upper)
      in (tick_lower, tick_upper))"

definition full_range_ticks_for_spacing :: "int \<Rightarrow> (int \<times> int) option" where
  "full_range_ticks_for_spacing spacing =
     (if spacing \<le> 0 then None
      else let (tick_lower, tick_upper) = usable_ticks spacing in
        if tick_upper \<le> tick_lower then None else Some (tick_lower, tick_upper))"

definition apply_liquidity_net :: "nat \<Rightarrow> int \<Rightarrow> bool \<Rightarrow> nat res" where
  "apply_liquidity_net liquidity net zero_for_one =
     (if 0 \<le> net then
        Inr (if zero_for_one then sat_sub liquidity (as_u128 net) else sat_add U128_MAX liquidity (as_u128 net))
      else
        andthen (i128_sub 0 net) (\<lambda>m.
        Inr (if zero_for_one then sat_add U128_MAX liquidity (as_u128 m) else sat_sub liquidity (as_u128 m))))"

definition within_limit :: "bool \<Rightarrow> int \<Rightarrow> int \<Rightarrow> bool" where
  "within_limit lte limit_compressed c = (if lte then limit_compressed \<le> c else c \<le> limit_compressed)"

definition tick_and_net :: "int \<Rightarrow> int \<Rightarrow> tick_chunk \<Rightarrow> nat \<Rightarrow> int \<times> int" where
  "tick_and_net spacing chunk_pos chunk i =
     (compressed_to_tick (chunk_pos * TICKS_PER_CHUNK + int i) spacing, liquidity_net (chunk ! i))"

definition scan_within ::
  "bool \<Rightarrow> int \<Rightarrow> int \<Rightarrow> int \<Rightarrow> nat list \<Rightarrow> tick_chunk option \<Rightarrow> (int \<times> int) option" where
  \<comment> \<open>the first initialized slot of a chunk that the limit does not exclude\<close>
  "scan_within lte limit_compressed spacing chunk_pos slots chunk =
     (case chunk of
        Some chunk \<Rightarrow> map_option (tick_and_net spacing chunk_pos chunk)
          (List.find (\<lambda>i. slot_initialized chunk i
             \<and> within_limit lte limit_compressed (chunk_pos * TICKS_PER_CHUNK + int i)) slots)
      | None \<Rightarrow> None)"

definition scan_first ::
  "bool \<Rightarrow> int \<Rightarrow> int \<Rightarrow> int \<Rightarrow> nat list \<Rightarrow> tick_chunk option \<Rightarrow> (int \<times> int) option" where
  \<comment> \<open>the first initialized slot of a chunk, unless the limit excludes it\<close>
  "scan_first lte limit_compressed spacing chunk_pos slots chunk =
     (case chunk of
        Some chunk \<Rightarrow>
          (case List.find (slot_initialized chunk) slots of
             Some i \<Rightarrow> if within_limit lte limit_compressed (chunk_pos * TICKS_PER_CHUNK + int i)
               then Some (tick_and_net spacing chunk_pos chunk i) else None
           | None \<Rightarrow> None)
      | None \<Rightarrow> None)"

definition all_slots :: "bool \<Rightarrow> nat list" where
  "all_slots lte = (if lte then rev [0 ..< nat TICKS_PER_CHUNK] else [0 ..< nat TICKS_PER_CHUNK])"

definition find_same_word ::
  "tick_store \<Rightarrow> int \<Rightarrow> int \<Rightarrow> bool \<Rightarrow> int \<times> nat \<Rightarrow> chunk_cache \<Rightarrow> (int \<times> int) option \<times> chunk_cache" where
  "find_same_word ts limit_compressed spacing lte pos cc =
     (let (bm_word_pos, bm_bit_pos) = pos; word = u256_to_array (ts_chunk_bitmap ts bm_word_pos) in
      case (if lte then (if 0 < bm_bit_pos then find_prev_set_bit word (bm_bit_pos - 1) else None)
            else if bm_bit_pos < 255 then find_next_set_bit word (bm_bit_pos + 1) else None) of
        Some found_bit \<Rightarrow>
          let found_chunk_pos = bm_word_pos * 256 + int found_bit;
              (chunk, cc) = cache_get_chunk ts found_chunk_pos cc in
          (scan_within lte limit_compressed spacing found_chunk_pos (all_slots lte) chunk, cc)
      | None \<Rightarrow> (None, cc))"

definition find_other_word ::
  "tick_store \<Rightarrow> int \<Rightarrow> int \<Rightarrow> bool \<Rightarrow> int \<Rightarrow> chunk_cache \<Rightarrow> (int \<times> int) option \<times> chunk_cache" where
  "find_other_word ts limit_compressed spacing lte bm_word_pos cc =
     (case find_adjacent_bitmap_word ts bm_word_pos lte of
        Some adj_word_pos \<Rightarrow>
          (let bm_arr = u256_to_array (ts_chunk_bitmap ts adj_word_pos) in
           case (if lte then find_prev_set_bit bm_arr 255 else find_next_set_bit bm_arr 0) of
             Some b \<Rightarrow>
               let found_chunk_pos = adj_word_pos * 256 + int b;
                   (chunk, cc) = cache_get_chunk ts found_chunk_pos cc in
               (scan_first lte limit_compressed spacing found_chunk_pos (all_slots lte) chunk, cc)
           | None \<Rightarrow> (None, cc))
      | None \<Rightarrow> (None, cc))"

definition find_initialized_tick ::
  "tick_store \<Rightarrow> int \<Rightarrow> int \<Rightarrow> int \<Rightarrow> bool \<Rightarrow> chunk_cache \<Rightarrow> (int \<times> int) option \<times> chunk_cache" where
  "find_initialized_tick ts compressed limit_compressed spacing lte cc =
     (let (chunk_pos, slot) = chunk_address (if lte then compressed else saturate_i32 (compressed + 1));
          (chunk, cc) = cache_get_chunk ts chunk_pos cc;
          slots = (if lte then rev [0 ..< slot + 1] else [slot ..< nat TICKS_PER_CHUNK]) in
      case scan_within lte limit_compressed spacing chunk_pos slots chunk of
        Some r \<Rightarrow> (Some r, cc)
      | None \<Rightarrow>
          let pos = chunk_bitmap_position chunk_pos;
              (found, cc) = find_same_word ts limit_compressed spacing lte pos cc in
          (case found of
             Some r \<Rightarrow> (Some r, cc)
           | None \<Rightarrow> find_other_word ts limit_compressed spacing lte (fst pos) cc))"

definition step_target :: "nat \<Rightarrow> int" where
  "step_target step = int ((step + 1) * (step + 2) div 2)"

definition compute_amounts :: "nat \<Rightarrow> nat \<Rightarrow> nat \<Rightarrow> bool \<Rightarrow> (nat \<times> nat) res" where
  "compute_amounts sqrt_a sqrt_b liquidity zero_for_one =
     (if zero_for_one then
        andthen (amount0_delta sqrt_b sqrt_a liquidity True) (\<lambda>a.
        andthen (amount1_delta sqrt_b sqrt_a liquidity False) (\<lambda>b. Inr (a, b)))
      else
        andthen (amount1_delta sqrt_a sqrt_b liquidity True) (\<lambda>a.
        andthen (amount0_delta sqrt_a sqrt_b liquidity False) (\<lambda>b. Inr (a, b))))"

definition amounts_at ::
  "slot0 \<Rightarrow> nat \<Rightarrow> nat \<Rightarrow> nat \<Rightarrow> bool \<Rightarrow> (nat \<times> nat) res" where
  \<comment> \<open>both amounts of a liquidity over a range of prices, by where the current price is\<close>
  "amounts_at slot sqrt_lower sqrt_upper liquidity round_up =
     (if sqrt_price_x96 slot \<le> sqrt_lower then
        andthen (amount0_delta sqrt_lower sqrt_upper liquidity round_up) (\<lambda>a. Inr (a, 0))
      else if sqrt_price_x96 slot < sqrt_upper then
        andthen (amount0_delta (sqrt_price_x96 slot) sqrt_upper liquidity round_up) (\<lambda>a.
        andthen (amount1_delta sqrt_lower (sqrt_price_x96 slot) liquidity round_up) (\<lambda>b. Inr (a, b)))
      else
        andthen (amount1_delta sqrt_lower sqrt_upper liquidity round_up) (\<lambda>b. Inr (0, b)))"

definition compute_full_range_reserves :: "fixed_point \<Rightarrow> slot0 \<Rightarrow> int \<Rightarrow> nat \<Rightarrow> (nat \<times> nat) res" where
  "compute_full_range_reserves fp slot spacing full_range_liquidity =
     (if full_range_liquidity = 0 then Inr (0, 0)
      else case full_range_ticks_for_spacing spacing of
        None \<Rightarrow> Inr (0, 0)
      | Some (tick_lower, tick_upper) \<Rightarrow>
          andthen (sqrt_ratio_at_tick fp tick_lower) (\<lambda>sqrt_lower.
          andthen (sqrt_ratio_at_tick fp tick_upper) (\<lambda>sqrt_upper.
          amounts_at slot sqrt_lower sqrt_upper full_range_liquidity False)))"

definition full_range_liquidity_net_adjustment :: "int \<Rightarrow> int \<Rightarrow> int \<times> int \<Rightarrow> nat \<Rightarrow> int res" where
  "full_range_liquidity_net_adjustment tick spacing full_range full_range_liquidity =
     (if full_range_liquidity = 0 \<or> spacing \<le> 0 then Inr 0
      else
        let compressed = compress_tick tick spacing; fl = as_i128 full_range_liquidity in
        if compressed = compress_tick (fst full_range) spacing then i128_sub 0 fl
        else if compressed = compress_tick (snd full_range) spacing then Inr fl
        else Inr 0)"

end
