(* ===== verification/CL_Plane.thy ===== *)
theory CL_Plane
  imports CL_Pool
begin

text \<open>
  \<^verbatim>\<open>liquidity_pool_concentrated/src/plane.rs\<close>, second half: the amounts that move the price by
  one, three, six, ... tick spacings in both directions, without the positions over the full
  range, and the call that reports them. The walk over the initialized ticks of one step is a
  \<^theory_text>\<open>partial_function\<close>; a walk that would not end exhausts the budget and aborts.
\<close>

record plane_walk =
  wk_sqrt :: nat
  wk_liquidity :: nat
  wk_cursor :: int
  wk_cache :: chunk_cache
  wk_in :: nat
  wk_out :: nat

record plane_ctx =
  pc_fp :: fixed_point
  pc_ticks :: tick_store
  pc_spacing :: int
  pc_zero_for_one :: bool
  pc_full_range :: "int \<times> int"
  pc_full_range_liquidity :: nat

definition sat_i128 :: "int \<Rightarrow> int" where
  "sat_i128 x = max (- (2 ^ 127)) (min x (2 ^ 127 - 1))"

definition walk_amounts :: "plane_ctx \<Rightarrow> nat \<Rightarrow> plane_walk \<Rightarrow> plane_walk res" where
  \<comment> \<open>add the amounts from the cursor to a price\<close>
  "walk_amounts c sqrt_to w =
     andthen (compute_amounts (wk_sqrt w) sqrt_to (wk_liquidity w) (pc_zero_for_one c)) (\<lambda>(amt_in, amt_out).
     Inr (w\<lparr>wk_in := sat_add U128_MAX (wk_in w) amt_in, wk_out := sat_add U128_MAX (wk_out w) amt_out\<rparr>))"

definition walk_cross :: "plane_ctx \<Rightarrow> int \<times> int \<Rightarrow> plane_walk \<Rightarrow> plane_walk res" where
  \<comment> \<open>move the cursor over an initialized tick\<close>
  "walk_cross c init w =
     (let (init_tick, raw_liquidity_net) = init in
      andthen (sqrt_ratio_at_tick (pc_fp c) init_tick) (\<lambda>sqrt_init.
      andthen (walk_amounts c sqrt_init w) (\<lambda>w.
      andthen (full_range_liquidity_net_adjustment init_tick (pc_spacing c) (pc_full_range c)
        (pc_full_range_liquidity c)) (\<lambda>adj.
      andthen (apply_liquidity_net (wk_liquidity w) (sat_i128 (raw_liquidity_net + adj)) (pc_zero_for_one c))
        (\<lambda>liquidity.
      let cursor = compress_tick init_tick (pc_spacing c) in
      Inr (w\<lparr>wk_liquidity := liquidity, wk_sqrt := sqrt_init,
             wk_cursor := (if pc_zero_for_one c then cursor - 1 else cursor)\<rparr>))))))"

definition walk_find :: "plane_ctx \<Rightarrow> int \<Rightarrow> int \<Rightarrow> plane_walk \<Rightarrow> (int \<times> int) option \<times> plane_walk" where
  \<comment> \<open>the next initialized tick before the target\<close>
  "walk_find c target_tick limit_compressed w =
     (let (maybe_init, cc) = find_initialized_tick (pc_ticks c) (wk_cursor w) limit_compressed (pc_spacing c)
            (pc_zero_for_one c) (wk_cache w) in
      (case maybe_init of
         Some (tick, net) \<Rightarrow>
           if (if pc_zero_for_one c then target_tick \<le> tick else tick \<le> target_tick)
           then Some (tick, net) else None
       | None \<Rightarrow> None, w\<lparr>wk_cache := cc\<rparr>))"

definition walk_saturated :: "plane_walk \<Rightarrow> bool" where
  "walk_saturated w \<longleftrightarrow> wk_in w = U128_MAX \<or> wk_out w = U128_MAX"

partial_function (option) walk_ticks :: "plane_ctx \<Rightarrow> int \<Rightarrow> int \<Rightarrow> plane_walk \<Rightarrow> plane_walk res option" where
  "walk_ticks c target_tick limit_compressed w =
     (case fst (walk_find c target_tick limit_compressed w) of
        None \<Rightarrow> Some (Inr (snd (walk_find c target_tick limit_compressed w)))
      | Some init \<Rightarrow>
          (case walk_cross c init (snd (walk_find c target_tick limit_compressed w)) of
             Inl e \<Rightarrow> Some (Inl e)
           | Inr w' \<Rightarrow>
               if walk_saturated w' then Some (Inr w')
               else walk_ticks c target_tick limit_compressed w'))"

definition step_compressed :: "plane_ctx \<Rightarrow> int \<Rightarrow> nat \<Rightarrow> int" where
  "step_compressed c compressed_current i =
     (if pc_zero_for_one c then saturate_i32 (compressed_current - step_target i)
      else saturate_i32 (saturate_i32 (compressed_current + step_target i) + 1))"

definition step_tick :: "plane_ctx \<Rightarrow> int \<Rightarrow> nat \<Rightarrow> int" where
  "step_tick c compressed_current i =
     (let t = saturate_i32 (step_compressed c compressed_current i * pc_spacing c) in
      if pc_zero_for_one c then max t MIN_TICK else min t MAX_TICK)"

definition collect_step :: "plane_ctx \<Rightarrow> int \<Rightarrow> nat \<Rightarrow> bool \<times> plane_walk \<Rightarrow> (bool \<times> plane_walk) res" where
  \<comment> \<open>one step: its amounts are left in the walk, the flag says that no step is left\<close>
  "collect_step c compressed_current i st =
     (let (exhausted, w) = st; w = w\<lparr>wk_in := 0, wk_out := 0\<rparr> in
      if exhausted then Inr (True, w)
      else
        let target_tick = step_tick c compressed_current i;
            target_compressed = step_compressed c compressed_current i in
        andthen (sqrt_ratio_at_tick (pc_fp c) target_tick) (\<lambda>sqrt_step_target.
        if sqrt_step_target = wk_sqrt w then Inr (True, w)
        else
          andthen (case walk_ticks c target_tick target_compressed w of Some r \<Rightarrow> r | None \<Rightarrow> Inl HostPanic) (\<lambda>w.
          andthen (if wk_sqrt w \<noteq> sqrt_step_target \<and> 0 < wk_liquidity w \<and> \<not> walk_saturated w
                   then walk_amounts c sqrt_step_target w else Inr w) (\<lambda>w.
          Inr (target_tick \<le> MIN_TICK \<or> MAX_TICK \<le> target_tick,
               w\<lparr>wk_sqrt := sqrt_step_target,
                 wk_cursor := (if pc_zero_for_one c then target_compressed else target_compressed - 1)\<rparr>)))))"

definition collect_exact_direction_steps ::
  "plane_ctx \<Rightarrow> slot0 \<Rightarrow> nat \<Rightarrow> nat \<Rightarrow> nat list res" where
  "collect_exact_direction_steps c slot steps base_liquidity =
     (if pc_spacing c \<le> 0 \<or> sqrt_price_x96 slot = 0 then Inr (replicate (2 * steps) 0)
      else
        let compressed_current = compress_tick (slot_tick slot) (pc_spacing c);
            c = c\<lparr>pc_full_range := (case full_range_ticks_for_spacing (pc_spacing c) of Some r \<Rightarrow> r | None \<Rightarrow> (0, 0))\<rparr>;
            w = \<lparr>wk_sqrt = sqrt_price_x96 slot, wk_liquidity = base_liquidity, wk_cursor = compressed_current,
                 wk_cache = new_cache, wk_in = 0, wk_out = 0\<rparr> in
        andthen
          (fold_res (\<lambda>i (st, amounts).
             andthen (collect_step c compressed_current i st) (\<lambda>st.
             Inr (st, amounts @ [wk_in (snd st), wk_out (snd st)])))
           [0 ..< steps] ((False, w), [])) (\<lambda>(_, amounts).
        Inr amounts))"

definition PLANE_DATA_VERSION :: nat where
  "PLANE_DATA_VERSION = 1"

definition get_pool_data :: "fixed_point \<Rightarrow> cl_pool \<Rightarrow> (nat list \<times> nat list) res" where
  "get_pool_data fp s =
     andthen (stored (cl_config s)) (\<lambda>cf.
     let spacing = cf_spacing cf; exact_steps = exact_tick_steps_for_spacing spacing;
         full_range_liquidity = cl_full_range s;
         base = sat_sub (cl_liquidity s) full_range_liquidity;
         c = (\<lambda>z. \<lparr>pc_fp = fp, pc_ticks = cl_ticks s, pc_spacing = spacing, pc_zero_for_one = z,
                pc_full_range = (0, 0), pc_full_range_liquidity = full_range_liquidity\<rparr>) in
     andthen (compute_full_range_reserves fp (cl_slot0 s) spacing full_range_liquidity) (\<lambda>(full0, full1).
     andthen (collect_exact_direction_steps (c True) (cl_slot0 s) exact_steps base) (\<lambda>steps_0_to_1.
     andthen (collect_exact_direction_steps (c False) (cl_slot0 s) exact_steps base) (\<lambda>steps_1_to_0.
     Inr ([PLANE_DATA_VERSION, cf_fee cf, (if 0 < spacing then nat spacing else 0), exact_steps],
          [fst (cl_reserves s), snd (cl_reserves s), full0, full1] @ steps_0_to_1 @ steps_1_to_0)))))"

definition cl_update_plane :: "'w host_calls \<Rightarrow> env \<Rightarrow> cl_pool \<Rightarrow> 'w \<Rightarrow> 'w res" where
  "cl_update_plane x e s w =
     andthen (get_pool_data (cc_fp x) s) (\<lambda>(init_args, reserves).
     andthen (stored (pl_plane s)) (\<lambda>plane.
     cc_plane_update x plane (current_contract e) ''concentrated'' init_args reserves w))"

end
