(* ===== verification/CL_Positions.thy ===== *)
theory CL_Positions
  imports CL_Plane
begin

text \<open>
  Positions of a concentrated pool, from \<^verbatim>\<open>contract/internal.rs\<close> and \<open>contract/extensions.rs\<close>:
  a position is a liquidity over a range of ticks with the fees it is owed; a user's state lists its
  ranges with the raw liquidity and the liquidity weighted by the distance of the ranges from the
  current tick, which stands for the shares of the other pools in the rewards. This theory holds
  the bookkeeping, deposits, withdrawals and the collection of fees.
\<close>

section \<open>Ranges\<close>

definition check_ticks_internal :: "cl_pool \<Rightarrow> int \<Rightarrow> int \<Rightarrow> unit res" where
  "check_ticks_internal s tick_lower tick_upper =
     (if tick_upper \<le> tick_lower then Inl (ConcentratedError CL_TickLowerNotLessThanUpper)
      else if tick_lower < MIN_TICK then Inl (ConcentratedError CL_TickLowerTooLow)
      else if MAX_TICK < tick_upper then Inl (ConcentratedError CL_TickUpperTooHigh)
      else
        andthen (stored (cl_config s)) (\<lambda>cf.
        if cf_spacing cf \<le> 0 then Inl (ConcentratedError CL_InvalidTickSpacing)
        else if tick_lower smod cf_spacing cf \<noteq> 0 \<or> tick_upper smod cf_spacing cf \<noteq> 0
        then Inl (ConcentratedError CL_TickNotSpacedCorrectly)
        else Inr ()))"

definition full_range_ticks :: "cl_pool \<Rightarrow> (int \<times> int) res" where
  "full_range_ticks s =
     andthen (stored (cl_config s)) (\<lambda>cf.
     if cf_spacing cf \<le> 0 then Inl (ConcentratedError CL_InvalidTickSpacing)
     else
       let (tick_lower, tick_upper) = usable_ticks (cf_spacing cf) in
       andthen (check_ticks_internal s tick_lower tick_upper) (\<lambda>_. Inr (tick_lower, tick_upper)))"

definition ensure_user_range_exists :: "address \<Rightarrow> int \<Rightarrow> int \<Rightarrow> cl_pool \<Rightarrow> cl_pool res" where
  "ensure_user_range_exists user tick_lower tick_upper s =
     (let u = get_user_state s user in
      if (tick_lower, tick_upper) \<in> set (us_positions u) then Inr s
      else if MAX_USER_POSITIONS \<le> length (us_positions u) then Inl (ConcentratedError CL_TooManyPositions)
      else Inr (set_user_state user (u\<lparr>us_positions := us_positions u @ [(tick_lower, tick_upper)]\<rparr>) s))"

definition remove_user_range_if_empty :: "address \<Rightarrow> int \<Rightarrow> int \<Rightarrow> cl_pool \<Rightarrow> cl_pool" where
  "remove_user_range_if_empty user tick_lower tick_upper s =
     (let u = get_user_state s user in
      set_user_state user
        (u\<lparr>us_positions := filter (\<lambda>r. r \<noteq> (tick_lower, tick_upper)) (us_positions u)\<rparr>) s)"

section \<open>Weighted liquidity\<close>

definition range_weight :: "int \<Rightarrow> nat \<Rightarrow> int \<times> int \<Rightarrow> nat \<Rightarrow> nat \<Rightarrow> nat res" where
  \<comment> \<open>add the weight of a range with a liquidity\<close>
  "range_weight tick_current fee rg liq weighted =
     (if liq = 0 then Inr weighted
      else
        andthen (position_multiplier_bps tick_current (fst rg) (snd rg) fee) (\<lambda>multiplier.
        Inr (sat_add U128_MAX weighted (apply_multiplier liq multiplier))))"

definition range_liquidity :: "cl_pool \<Rightarrow> address \<Rightarrow> int \<times> int \<Rightarrow> nat \<Rightarrow> int \<times> int \<Rightarrow> nat" where
  \<comment> \<open>the stored liquidity of a range, or the assumed one of the target range\<close>
  "range_liquidity s user target target_liquidity rg =
     (if rg = target then target_liquidity
      else case cl_positions s (user, fst rg, snd rg) of
        Some position \<Rightarrow> po_liquidity position | None \<Rightarrow> 0)"

definition compute_user_weighted_liquidity :: "cl_pool \<Rightarrow> address \<Rightarrow> int \<Rightarrow> int \<Rightarrow> nat \<Rightarrow> nat res" where
  "compute_user_weighted_liquidity s user target_lower target_upper target_liquidity =
     andthen (stored (cl_config s)) (\<lambda>cf.
     let tick_current = slot_tick (cl_slot0 s); fee = cf_fee cf; target = (target_lower, target_upper);
         ranges = us_positions (get_user_state s user) in
     andthen
       (fold_res (\<lambda>rg. range_weight tick_current fee rg (range_liquidity s user target target_liquidity rg))
         ranges 0) (\<lambda>weighted.
     if target \<notin> set ranges then range_weight tick_current fee target target_liquidity weighted
     else Inr weighted))"

definition recompute_user_weighted_liquidity :: "address \<Rightarrow> cl_pool \<Rightarrow> cl_pool res" where
  "recompute_user_weighted_liquidity user s =
     andthen (compute_user_weighted_liquidity s user 0 0 0) (\<lambda>weighted.
     let u = get_user_state s user; prev_weighted = us_weighted u;
         total_weighted =
           (if prev_weighted \<le> weighted
            then sat_add U128_MAX (cl_total_weighted s) (weighted - prev_weighted)
            else sat_sub (cl_total_weighted s) (prev_weighted - weighted)) in
     Inr ((set_user_state user (u\<lparr>us_weighted := weighted\<rparr>) s)\<lparr>cl_total_weighted := total_weighted\<rparr>))"

definition update_user_raw_liquidity :: "address \<Rightarrow> int \<Rightarrow> cl_pool \<Rightarrow> cl_pool res" where
  "update_user_raw_liquidity user delta s =
     (let u = get_user_state s user in
      if 0 \<le> delta then
        let inc = as_u128 delta in
        Inr (set_user_state user (u\<lparr>us_raw := sat_add U128_MAX (us_raw u) inc\<rparr>)
          (s\<lparr>cl_total_raw := sat_add U128_MAX (cl_total_raw s) inc\<rparr>))
      else
        andthen (i128_sub 0 delta) (\<lambda>d.
        let dec = as_u128 d in
        if us_raw u < dec then Inl (ConcentratedError CL_LiquidityUnderflow)
        else if cl_total_raw s < dec then Inl (ConcentratedError CL_LiquidityUnderflow)
        else Inr (set_user_state user (u\<lparr>us_raw := us_raw u - dec\<rparr>)
          (s\<lparr>cl_total_raw := cl_total_raw s - dec\<rparr>))))"

definition user_weighted :: "cl_pool \<Rightarrow> address \<Rightarrow> nat" where
  "user_weighted s user = us_weighted (get_user_state s user)"

definition rewards_checkpoint_user ::
  "'w host_calls \<Rightarrow> env \<Rightarrow> address \<Rightarrow> cl_pool \<times> 'w \<Rightarrow> (user_reward_data \<times> cl_pool \<times> 'w) res" where
  "rewards_checkpoint_user x e user sw =
     (let (s, w) = sw; total_weighted = cl_total_weighted s; weighted = user_weighted s user in
      andthen (gauge_checkpoint x e user weighted total_weighted (new_manager s, w)) (\<lambda>sw.
      rewards_checkpoint x e user total_weighted weighted sw))"

definition rewards_refresh_working_balance ::
  "'w host_calls \<Rightarrow> env \<Rightarrow> address \<Rightarrow> cl_pool \<times> 'w \<Rightarrow> (cl_pool \<times> 'w) res" where
  "rewards_refresh_working_balance x e user sw =
     (let (s, w) = sw; total_weighted = cl_total_weighted s; weighted = user_weighted s user in
      andthen (gauge_checkpoint x e user weighted total_weighted (new_manager s, w)) (\<lambda>sw.
      rewards_reweigh x e user total_weighted weighted sw))"

section \<open>Fees of a position\<close>

definition growth_inside :: "int \<Rightarrow> int \<Rightarrow> int \<Rightarrow> nat \<Rightarrow> nat \<Rightarrow> nat \<Rightarrow> nat res" where
  \<comment> \<open>the growth of the fees of one token inside a range\<close>
  "growth_inside tick_current tick_lower tick_upper global lower_outside upper_outside =
     andthen (if tick_lower \<le> tick_current then Inr lower_outside
              else wrapping_sub_u256 global lower_outside) (\<lambda>below.
     andthen (if tick_current < tick_upper then Inr upper_outside
              else wrapping_sub_u256 global upper_outside) (\<lambda>above.
     andthen (wrapping_sub_u256 global below) (\<lambda>x.
     wrapping_sub_u256 x above)))"

definition compute_fee_growth_inside :: "cl_pool \<Rightarrow> int \<Rightarrow> int \<Rightarrow> int \<Rightarrow> (nat \<times> nat) res" where
  "compute_fee_growth_inside s tick_lower tick_upper tick_current =
     andthen (stored (cl_config s)) (\<lambda>cf.
     let (global0, global1) = cl_fee_growth s;
         lower = get_tick (cl_ticks s) tick_lower (cf_spacing cf);
         upper = get_tick (cl_ticks s) tick_upper (cf_spacing cf) in
     andthen (growth_inside tick_current tick_lower tick_upper global0
       (fee_growth_outside_0 lower) (fee_growth_outside_0 upper)) (\<lambda>inside0.
     andthen (growth_inside tick_current tick_lower tick_upper global1
       (fee_growth_outside_1 lower) (fee_growth_outside_1 upper)) (\<lambda>inside1.
     Inr (inside0, inside1))))"

definition accrue_position_fees ::
  "fixed_point \<Rightarrow> cl_pool \<Rightarrow> int \<Rightarrow> int \<Rightarrow> int \<Rightarrow> position_data \<Rightarrow> position_data res" where
  "accrue_position_fees fp s tick_lower tick_upper tick_current position =
     andthen (compute_fee_growth_inside s tick_lower tick_upper tick_current) (\<lambda>(inside0, inside1).
     andthen (wrapping_sub_u256 inside0 (inside_0_last position)) (\<lambda>delta0.
     andthen (wrapping_sub_u256 inside1 (inside_1_last position)) (\<lambda>delta1.
     andthen (mul_div_fee_growth fp delta0 (po_liquidity position)) (\<lambda>owed0.
     andthen (mul_div_fee_growth fp delta1 (po_liquidity position)) (\<lambda>owed1.
     Inr (position\<lparr>tokens_owed_0 := sat_add U128_MAX (tokens_owed_0 position) owed0,
       tokens_owed_1 := sat_add U128_MAX (tokens_owed_1 position) owed1,
       inside_0_last := inside0, inside_1_last := inside1\<rparr>))))))"

definition get_or_create_position :: "cl_pool \<Rightarrow> address \<Rightarrow> int \<Rightarrow> int \<Rightarrow> position_data res" where
  "get_or_create_position s owner tick_lower tick_upper =
     (case cl_positions s (owner, tick_lower, tick_upper) of
        Some position \<Rightarrow> Inr position
      | None \<Rightarrow>
          andthen (compute_fee_growth_inside s tick_lower tick_upper (slot_tick (cl_slot0 s)))
            (\<lambda>(inside0, inside1).
          Inr \<lparr>inside_0_last = inside0, inside_1_last = inside1, po_liquidity = 0,
               tokens_owed_0 = 0, tokens_owed_1 = 0\<rparr>))"

definition find_position :: "cl_pool \<Rightarrow> address \<Rightarrow> int \<Rightarrow> int \<Rightarrow> position_data res" where
  "find_position s owner tick_lower tick_upper =
     from_option (ConcentratedError CL_PositionNotFound) (cl_positions s (owner, tick_lower, tick_upper))"

definition pay_some :: "'w host_calls \<Rightarrow> env \<Rightarrow> address \<Rightarrow> address \<Rightarrow> nat \<Rightarrow> 'w \<Rightarrow> 'w res" where
  \<comment> \<open>a transfer out, unless the amount is 0\<close>
  "pay_some x e token to amount w = (if 0 < amount then pay x e token to amount w else Inr w)"

definition collect_some :: "'w host_calls \<Rightarrow> env \<Rightarrow> address \<Rightarrow> address \<Rightarrow> nat \<Rightarrow> 'w \<Rightarrow> 'w res" where
  "collect_some x e token from amount w = (if 0 < amount then collect x e token from amount w else Inr w)"

definition pay_both :: "'w host_calls \<Rightarrow> env \<Rightarrow> cl_config \<Rightarrow> address \<Rightarrow> nat \<times> nat \<Rightarrow> 'w \<Rightarrow> 'w res" where
  "pay_both x e cf to amounts w =
     andthen (pay_some x e (cf_token0 cf) to (fst amounts) w) (\<lambda>w.
     pay_some x e (cf_token1 cf) to (snd amounts) w)"

definition take_reserves :: "nat \<times> nat \<Rightarrow> cl_pool \<Rightarrow> cl_pool res" where
  \<comment> \<open>the reserves after paying out, which must cover it\<close>
  "take_reserves amounts s =
     (let (res0, res1) = cl_reserves s in
      if res0 < fst amounts \<or> res1 < snd amounts then Inl (ValidationError V_InsufficientBalance)
      else Inr (s\<lparr>cl_reserves := (res0 - fst amounts, res1 - snd amounts)\<rparr>))"

definition store_or_drop :: "address \<Rightarrow> int \<Rightarrow> int \<Rightarrow> position_data \<Rightarrow> cl_pool \<Rightarrow> cl_pool" where
  \<comment> \<open>write a position back, or remove it with its range when nothing is left of it\<close>
  "store_or_drop owner tick_lower tick_upper position s =
     (if po_liquidity position = 0 \<and> tokens_owed_0 position = 0 \<and> tokens_owed_1 position = 0
      then remove_user_range_if_empty owner tick_lower tick_upper (remove_position owner tick_lower tick_upper s)
      else set_position owner tick_lower tick_upper position s)"

definition collect_internal ::
  "'w host_calls \<Rightarrow> env \<Rightarrow> address \<Rightarrow> int \<Rightarrow> int \<Rightarrow> nat list \<Rightarrow> bool \<Rightarrow> cl_pool \<times> 'w \<Rightarrow>
   ((nat \<times> nat) \<times> cl_pool \<times> 'w) res" where
  "collect_internal x e owner tick_lower tick_upper requested_amounts require_owner_auth sw =
     (let (s, w) = sw in
      andthen (if require_owner_auth then require_auth e owner else Inr ()) (\<lambda>_.
      if length requested_amounts \<noteq> 2 then Inl (ValidationError V_WrongInputVecSize)
      else
        andthen (find_position s owner tick_lower tick_upper) (\<lambda>position.
        andthen (accrue_position_fees (cc_fp x) s tick_lower tick_upper (slot_tick (cl_slot0 s)) position)
          (\<lambda>position.
        let amounts = (min (tokens_owed_0 position) (requested_amounts ! 0),
              min (tokens_owed_1 position) (requested_amounts ! 1));
            position = position\<lparr>tokens_owed_0 := tokens_owed_0 position - fst amounts,
              tokens_owed_1 := tokens_owed_1 position - snd amounts\<rparr>;
            s = store_or_drop owner tick_lower tick_upper position s in
        andthen (stored (cl_config s)) (\<lambda>cf.
        andthen (take_reserves amounts s) (\<lambda>s.
        andthen (pay_both x e cf owner amounts w) (\<lambda>w.
        andthen (cl_update_plane x e s w) (\<lambda>w.
        Inr (amounts, s, w)))))))))"

definition claim_position_fees ::
  "'w host_calls \<Rightarrow> env \<Rightarrow> address \<Rightarrow> int \<Rightarrow> int \<Rightarrow> cl_pool \<times> 'w \<Rightarrow> ((nat \<times> nat) \<times> cl_pool \<times> 'w) res" where
  "claim_position_fees x e owner tick_lower tick_upper sw =
     collect_internal x e owner tick_lower tick_upper [U128_MAX, U128_MAX] True sw"

definition get_position_fees :: "fixed_point \<Rightarrow> cl_pool \<Rightarrow> address \<Rightarrow> int \<Rightarrow> int \<Rightarrow> (nat \<times> nat) res" where
  "get_position_fees fp s owner tick_lower tick_upper =
     andthen (check_ticks_internal s tick_lower tick_upper) (\<lambda>_.
     andthen (find_position s owner tick_lower tick_upper) (\<lambda>position.
     andthen (accrue_position_fees fp s tick_lower tick_upper (slot_tick (cl_slot0 s)) position) (\<lambda>position.
     Inr (tokens_owed_0 position, tokens_owed_1 position))))"

definition get_all_position_fees :: "fixed_point \<Rightarrow> cl_pool \<Rightarrow> address \<Rightarrow> (nat \<times> nat) res" where
  "get_all_position_fees fp s owner =
     fold_res (\<lambda>(tick_lower, tick_upper) (total0, total1).
       case cl_positions s (owner, tick_lower, tick_upper) of
         None \<Rightarrow> Inr (total0, total1)
       | Some position \<Rightarrow>
           andthen (accrue_position_fees fp s tick_lower tick_upper (slot_tick (cl_slot0 s)) position) (\<lambda>position.
           Inr (sat_add U128_MAX total0 (tokens_owed_0 position), sat_add U128_MAX total1 (tokens_owed_1 position))))
     (us_positions (get_user_state s owner)) (0, 0)"

definition claim_range ::
  "fixed_point \<Rightarrow> address \<Rightarrow> int \<Rightarrow> int \<times> int \<Rightarrow> (nat \<times> nat) \<times> cl_pool \<Rightarrow> ((nat \<times> nat) \<times> cl_pool) res" where
  \<comment> \<open>one range of \<open>claim_all_position_fees\<close>\<close>
  "claim_range fp owner tick_current rg st =
     (let ((total0, total1), s) = st; (tick_lower, tick_upper) = rg in
      case cl_positions s (owner, tick_lower, tick_upper) of
        None \<Rightarrow> Inr st
      | Some position \<Rightarrow>
          andthen (accrue_position_fees fp s tick_lower tick_upper tick_current position) (\<lambda>position.
          Inr ((sat_add U128_MAX total0 (tokens_owed_0 position), sat_add U128_MAX total1 (tokens_owed_1 position)),
            store_or_drop owner tick_lower tick_upper (position\<lparr>tokens_owed_0 := 0, tokens_owed_1 := 0\<rparr>) s)))"

definition claim_all_position_fees ::
  "'w host_calls \<Rightarrow> env \<Rightarrow> address \<Rightarrow> cl_pool \<times> 'w \<Rightarrow> ((nat \<times> nat) \<times> cl_pool \<times> 'w) res" where
  "claim_all_position_fees x e owner sw =
     (let (s, w) = sw in
      andthen (require_auth e owner) (\<lambda>_.
      let ranges = us_positions (get_user_state s owner) in
      if ranges = [] then Inr ((0, 0), s, w)
      else
        andthen (stored (cl_config s)) (\<lambda>cf.
        andthen (fold_res (claim_range (cc_fp x) owner (slot_tick (cl_slot0 s))) ranges ((0, 0), s)) (\<lambda>(totals, s).
        andthen (take_reserves totals s) (\<lambda>s.
        andthen (pay_both x e cf owner totals w) (\<lambda>w.
        andthen (cl_update_plane x e s w) (\<lambda>w.
        Inr (totals, s, w))))))))"

end
