(* ===== verification/CL_Liquidity.thy ===== *)
theory CL_Liquidity
  imports CL_Positions
begin

text \<open>
  Deposits into and withdrawals from a range of ticks (\<^verbatim>\<open>contract/extensions.rs\<close>), their
  previews, and the pool interface over the full range (\<^verbatim>\<open>contract/liquidity_pool_interface.rs\<close>).
\<close>

section \<open>Liquidity and amounts\<close>

definition init_sqrt_price_for_range :: "fixed_point \<Rightarrow> int \<Rightarrow> int \<Rightarrow> nat \<Rightarrow> nat \<Rightarrow> slot0 res" where
  "init_sqrt_price_for_range fp tick_lower tick_upper desired_amount0 desired_amount1 =
     andthen (sqrt_price_from_amounts desired_amount0 desired_amount1) (\<lambda>sqrt_price.
     andthen (tick_at_sqrt_ratio fp sqrt_price) (\<lambda>tick.
     if tick < tick_lower \<or> tick_upper \<le> tick then Inl (ConcentratedError CL_TickOutOfBounds)
     else Inr \<lparr>sqrt_price_x96 = sqrt_price, slot_tick = tick\<rparr>))"

definition amounts_for_liquidity ::
  "fixed_point \<Rightarrow> slot0 \<Rightarrow> int \<Rightarrow> int \<Rightarrow> nat \<Rightarrow> bool \<Rightarrow> (nat \<times> nat) res" where
  "amounts_for_liquidity fp slot tick_lower tick_upper liquidity round_up =
     andthen (sqrt_ratio_at_tick fp tick_lower) (\<lambda>sqrt_lower.
     andthen (sqrt_ratio_at_tick fp tick_upper) (\<lambda>sqrt_upper.
     amounts_at slot sqrt_lower sqrt_upper liquidity round_up))"

definition max_liquidity_for_amounts_at_slot ::
  "fixed_point \<Rightarrow> slot0 \<Rightarrow> int \<Rightarrow> int \<Rightarrow> nat \<Rightarrow> nat \<Rightarrow> nat res" where
  "max_liquidity_for_amounts_at_slot fp slot tick_lower tick_upper desired_amount0 desired_amount1 =
     (if desired_amount0 = 0 \<and> desired_amount1 = 0 then Inr 0
      else
        andthen (sqrt_ratio_at_tick fp tick_lower) (\<lambda>sqrt_lower.
        andthen (sqrt_ratio_at_tick fp tick_upper) (\<lambda>sqrt_upper.
        if sqrt_price_x96 slot \<le> sqrt_lower then liquidity_for_amount0 sqrt_lower sqrt_upper desired_amount0
        else if sqrt_upper \<le> sqrt_price_x96 slot then liquidity_for_amount1 sqrt_lower sqrt_upper desired_amount1
        else
          andthen (liquidity_for_amount0 (sqrt_price_x96 slot) sqrt_upper desired_amount0) (\<lambda>l0.
          andthen (liquidity_for_amount1 sqrt_lower (sqrt_price_x96 slot) desired_amount1) (\<lambda>l1.
          Inr (min l0 l1))))))"

definition max_liquidity_for_amounts :: "fixed_point \<Rightarrow> cl_pool \<Rightarrow> int \<Rightarrow> int \<Rightarrow> nat \<Rightarrow> nat \<Rightarrow> nat res" where
  "max_liquidity_for_amounts fp s = max_liquidity_for_amounts_at_slot fp (cl_slot0 s)"

section \<open>Deposits\<close>

definition estimate_deposit_position ::
  "fixed_point \<Rightarrow> cl_pool \<Rightarrow> int \<Rightarrow> int \<Rightarrow> nat list \<Rightarrow> ((nat \<times> nat) \<times> nat) res" where
  "estimate_deposit_position fp s tick_lower tick_upper desired_amounts =
     (if length desired_amounts \<noteq> 2 then Inl (ValidationError V_WrongInputVecSize)
      else
        let desired0 = desired_amounts ! 0; desired1 = desired_amounts ! 1 in
        if desired0 = 0 \<and> desired1 = 0 then Inl (ValidationError V_ZeroAmount)
        else
          andthen (check_ticks_internal s tick_lower tick_upper) (\<lambda>_.
          andthen
            (if cl_total_raw s = 0 then
               (if desired0 = 0 \<or> desired1 = 0 then Inl (ValidationError V_AllCoinsRequired)
                else init_sqrt_price_for_range fp tick_lower tick_upper desired0 desired1)
             else Inr (cl_slot0 s)) (\<lambda>slot.
          andthen (max_liquidity_for_amounts_at_slot fp slot tick_lower tick_upper desired0 desired1) (\<lambda>liquidity.
          if liquidity = 0 then Inl (ValidationError V_OutMinNotSatisfied)
          else if I128_MAX < liquidity then Inl (ConcentratedError CL_LiquidityAmountTooLarge)
          else
            andthen (stored (cl_config s)) (\<lambda>cf.
            andthen (max_liquidity_per_tick (cf_spacing cf)) (\<lambda>max_per_tick.
            if max_per_tick < liquidity then Inl (ConcentratedError CL_LiquidityOverflow)
            else
              andthen (amounts_for_liquidity fp slot tick_lower tick_upper liquidity True) (\<lambda>(amount0, amount1).
              Inr ((min amount0 desired0, min amount1 desired1), liquidity))))))))"

definition tick_change :: "int \<Rightarrow> int \<Rightarrow> bool \<Rightarrow> cl_pool \<Rightarrow> cl_pool res" where
  \<comment> \<open>\<open>update_tick_liquidity\<close> on the pool's ticks\<close>
  "tick_change tick_idx liquidity_delta is_upper s =
     andthen (stored (cl_config s)) (\<lambda>cf.
     andthen (update_tick_liquidity (cf_spacing cf) (slot_tick (cl_slot0 s)) (fst (cl_fee_growth s))
       (snd (cl_fee_growth s)) tick_idx liquidity_delta is_upper (cl_ticks s)) (\<lambda>ts.
     Inr (s\<lparr>cl_ticks := ts\<rparr>)))"

definition first_price :: "fixed_point \<Rightarrow> int \<Rightarrow> int \<Rightarrow> nat \<Rightarrow> nat \<Rightarrow> cl_pool \<Rightarrow> cl_pool res" where
  \<comment> \<open>the price of an empty pool comes from the first deposit\<close>
  "first_price fp tick_lower tick_upper desired0 desired1 s =
     (if cl_total_raw s = 0 then
        (if 0 < desired0 \<and> 0 < desired1 then
           andthen (init_sqrt_price_for_range fp tick_lower tick_upper desired0 desired1) (\<lambda>slot.
           Inr (s\<lparr>cl_slot0 := slot\<rparr>))
         else Inl (ValidationError V_AllCoinsRequired))
      else Inr s)"

definition deposit_amounts ::
  "'w host_calls \<Rightarrow> env \<Rightarrow> address \<Rightarrow> nat \<times> nat \<Rightarrow> nat \<times> nat \<Rightarrow> cl_pool \<times> 'w \<Rightarrow> (cl_pool \<times> 'w) res" where
  \<comment> \<open>take the desired amounts, return what is not needed, book the rest\<close>
  "deposit_amounts x e sender desired amounts sw =
     (let (s, w) = sw in
      andthen (stored (cl_config s)) (\<lambda>cf.
      andthen (collect_some x e (cf_token0 cf) sender (fst desired) w) (\<lambda>w.
      andthen (collect_some x e (cf_token1 cf) sender (snd desired) w) (\<lambda>w.
      andthen (u_sub (fst desired) (fst amounts)) (\<lambda>refund0.
      andthen (u_sub (snd desired) (snd amounts)) (\<lambda>refund1.
      andthen (pay_both x e cf sender (refund0, refund1) w) (\<lambda>w.
      andthen (u128_add (fst (cl_reserves s)) (fst amounts)) (\<lambda>r0.
      andthen (u128_add (snd (cl_reserves s)) (snd amounts)) (\<lambda>r1.
      Inr (s\<lparr>cl_reserves := (r0, r1)\<rparr>, w))))))))))"

definition in_range :: "cl_pool \<Rightarrow> int \<Rightarrow> int \<Rightarrow> bool" where
  "in_range s tick_lower tick_upper \<longleftrightarrow>
     tick_lower \<le> slot_tick (cl_slot0 s) \<and> slot_tick (cl_slot0 s) < tick_upper"

definition add_liquidity :: "bool \<Rightarrow> int \<Rightarrow> int \<Rightarrow> nat \<Rightarrow> cl_pool \<Rightarrow> cl_pool res" where
  \<comment> \<open>the active and the full-range liquidity after a deposit\<close>
  "add_liquidity full tick_lower tick_upper liquidity s =
     (let s = (if in_range s tick_lower tick_upper
               then s\<lparr>cl_liquidity := sat_add U128_MAX (cl_liquidity s) liquidity\<rparr> else s) in
      if full then
        (if U128_MAX < cl_full_range s + liquidity then Inl (ConcentratedError CL_LiquidityOverflow)
         else Inr (s\<lparr>cl_full_range := cl_full_range s + liquidity\<rparr>))
      else Inr s)"

definition grow_position :: "fixed_point \<Rightarrow> address \<Rightarrow> int \<Rightarrow> int \<Rightarrow> nat \<Rightarrow> cl_pool \<Rightarrow> cl_pool res" where
  \<comment> \<open>settle the fees of the depositor's position and add the liquidity to it\<close>
  "grow_position fp sender tick_lower tick_upper liquidity s =
     andthen (get_or_create_position s sender tick_lower tick_upper) (\<lambda>position.
     andthen (accrue_position_fees fp s tick_lower tick_upper (slot_tick (cl_slot0 s)) position) (\<lambda>position.
     ensure_user_range_exists sender tick_lower tick_upper
       (set_position sender tick_lower tick_upper
         (position\<lparr>po_liquidity := sat_add U128_MAX (po_liquidity position) liquidity\<rparr>) s)))"

definition settle_weight ::
  "'w host_calls \<Rightarrow> env \<Rightarrow> address \<Rightarrow> int \<Rightarrow> cl_pool \<times> 'w \<Rightarrow> (cl_pool \<times> 'w) res" where
  \<comment> \<open>the liquidity of the user changed: the raw and weighted totals and the working balance follow\<close>
  "settle_weight x e user delta sw =
     (let (s, w) = sw in
      andthen (update_user_raw_liquidity user delta s) (\<lambda>s.
      andthen (recompute_user_weighted_liquidity user s) (\<lambda>s.
      rewards_refresh_working_balance x e user (s, w))))"

definition before_change ::
  "'w host_calls \<Rightarrow> env \<Rightarrow> address \<Rightarrow> cl_pool \<times> 'w \<Rightarrow> (cl_pool \<times> 'w) res" where
  \<comment> \<open>the user's rewards are settled with the weight of now\<close>
  "before_change x e user sw =
     (let (s, w) = sw in
      andthen (recompute_user_weighted_liquidity user s) (\<lambda>s.
      andthen (rewards_checkpoint_user x e user (s, w)) (\<lambda>(_, sw). Inr sw)))"

definition is_full_range :: "cl_pool \<Rightarrow> int \<Rightarrow> int \<Rightarrow> bool res" where
  "is_full_range s tick_lower tick_upper =
     andthen (full_range_ticks s) (\<lambda>full. Inr ((tick_lower, tick_upper) = full))"

definition deposit_position ::
  "'w host_calls \<Rightarrow> env \<Rightarrow> address \<Rightarrow> int \<Rightarrow> int \<Rightarrow> nat list \<Rightarrow> nat \<Rightarrow> cl_pool \<times> 'w \<Rightarrow>
   (((nat \<times> nat) \<times> nat) \<times> cl_pool \<times> 'w) res" where
  "deposit_position x e sender tick_lower tick_upper desired_amounts min_liquidity sw =
     (let (s, w) = sw in
      andthen (require_auth e sender) (\<lambda>_.
      if pl_killed_deposit s then Inl (ConcentratedError CL_DepositKilled)
      else if length desired_amounts \<noteq> 2 then Inl (ValidationError V_WrongInputVecSize)
      else
        let desired0 = desired_amounts ! 0; desired1 = desired_amounts ! 1 in
        if desired0 = 0 \<and> desired1 = 0 then Inl (ValidationError V_ZeroAmount)
        else
          andthen (check_ticks_internal s tick_lower tick_upper) (\<lambda>_.
          andthen (is_full_range s tick_lower tick_upper) (\<lambda>full.
          andthen (first_price (cc_fp x) tick_lower tick_upper desired0 desired1 s) (\<lambda>s.
          andthen (before_change x e sender (s, w)) (\<lambda>(s, w).
          andthen (max_liquidity_for_amounts (cc_fp x) s tick_lower tick_upper desired0 desired1) (\<lambda>liquidity.
          if I128_MAX < liquidity then Inl (ConcentratedError CL_LiquidityAmountTooLarge)
          else if liquidity = 0 \<or> liquidity < min_liquidity then Inl (ValidationError V_OutMinNotSatisfied)
          else
            andthen (amounts_for_liquidity (cc_fp x) (cl_slot0 s) tick_lower tick_upper liquidity True)
              (\<lambda>(amount0, amount1).
            let amounts = (min amount0 desired0, min amount1 desired1) in
            andthen (deposit_amounts x e sender (desired0, desired1) amounts (s, w)) (\<lambda>(s, w).
            andthen (tick_change tick_lower (as_i128 liquidity) False s) (\<lambda>s.
            andthen (tick_change tick_upper (as_i128 liquidity) True s) (\<lambda>s.
            andthen (grow_position (cc_fp x) sender tick_lower tick_upper liquidity s) (\<lambda>s.
            andthen (add_liquidity full tick_lower tick_upper liquidity s) (\<lambda>s.
            andthen (settle_weight x e sender (as_i128 liquidity) (s, w)) (\<lambda>(s, w).
            andthen (cl_update_plane x e s w) (\<lambda>w.
            Inr ((amounts, liquidity), s, w))))))))))))))))"

section \<open>Withdrawals\<close>

definition with_owed :: "nat \<times> nat \<Rightarrow> position_data \<Rightarrow> (nat \<times> nat) res" where
  \<comment> \<open>principal and fees\<close>
  "with_owed amounts position =
     (if U128_MAX < fst amounts + tokens_owed_0 position \<or> U128_MAX < snd amounts + tokens_owed_1 position
      then Inl (ConcentratedError CL_InvalidAmount)
      else Inr (fst amounts + tokens_owed_0 position, snd amounts + tokens_owed_1 position))"

definition estimate_withdraw_position ::
  "fixed_point \<Rightarrow> cl_pool \<Rightarrow> address \<Rightarrow> int \<Rightarrow> int \<Rightarrow> nat \<Rightarrow> (nat \<times> nat) res" where
  "estimate_withdraw_position fp s owner tick_lower tick_upper amount =
     (if amount = 0 then Inl (ValidationError V_ZeroAmount)
      else if I128_MAX < amount then Inl (ConcentratedError CL_LiquidityAmountTooLarge)
      else
        andthen (check_ticks_internal s tick_lower tick_upper) (\<lambda>_.
        andthen (find_position s owner tick_lower tick_upper) (\<lambda>position.
        if po_liquidity position < amount then Inl (ConcentratedError CL_InsufficientLiquidity)
        else
          andthen (accrue_position_fees fp s tick_lower tick_upper (slot_tick (cl_slot0 s)) position) (\<lambda>position.
          andthen (amounts_for_liquidity fp (cl_slot0 s) tick_lower tick_upper amount False) (\<lambda>amounts.
          andthen (with_owed amounts position) (\<lambda>totals.
          andthen (take_reserves totals s) (\<lambda>_. Inr totals)))))))"

definition drop_liquidity :: "bool \<Rightarrow> int \<Rightarrow> int \<Rightarrow> nat \<Rightarrow> cl_pool \<Rightarrow> cl_pool res" where
  \<comment> \<open>the active and the full-range liquidity after a withdrawal\<close>
  "drop_liquidity full tick_lower tick_upper amount s =
     andthen (if in_range s tick_lower tick_upper then
         (if cl_liquidity s < amount then Inl (ConcentratedError CL_LiquidityUnderflow)
          else Inr (s\<lparr>cl_liquidity := cl_liquidity s - amount\<rparr>))
       else Inr s) (\<lambda>s.
     if full then
       (if cl_full_range s < amount then Inl (ConcentratedError CL_LiquidityUnderflow)
        else Inr (s\<lparr>cl_full_range := cl_full_range s - amount\<rparr>))
     else Inr s)"

definition withdraw_position ::
  "'w host_calls \<Rightarrow> env \<Rightarrow> address \<Rightarrow> int \<Rightarrow> int \<Rightarrow> nat \<Rightarrow> nat list \<Rightarrow> cl_pool \<times> 'w \<Rightarrow>
   ((nat \<times> nat) \<times> cl_pool \<times> 'w) res" where
  "withdraw_position x e owner tick_lower tick_upper amount min_amounts sw =
     (let (s, w) = sw in
      andthen (require_auth e owner) (\<lambda>_.
      if amount = 0 then Inl (ValidationError V_ZeroAmount)
      else if I128_MAX < amount then Inl (ConcentratedError CL_LiquidityAmountTooLarge)
      else if length min_amounts \<noteq> 2 then Inl (ValidationError V_WrongInputVecSize)
      else
        andthen (check_ticks_internal s tick_lower tick_upper) (\<lambda>_.
        andthen (is_full_range s tick_lower tick_upper) (\<lambda>full.
        andthen (before_change x e owner (s, w)) (\<lambda>(s, w).
        andthen (find_position s owner tick_lower tick_upper) (\<lambda>position.
        andthen (accrue_position_fees (cc_fp x) s tick_lower tick_upper (slot_tick (cl_slot0 s)) position)
          (\<lambda>position.
        if po_liquidity position < amount then Inl (ConcentratedError CL_InsufficientLiquidity)
        else
          andthen (amounts_for_liquidity (cc_fp x) (cl_slot0 s) tick_lower tick_upper amount False) (\<lambda>amounts.
          andthen (with_owed amounts position) (\<lambda>totals.
          if fst totals < min_amounts ! 0 \<or> snd totals < min_amounts ! 1
          then Inl (ValidationError V_OutMinNotSatisfied)
          else
            andthen (take_reserves totals s) (\<lambda>s.
            let position = position\<lparr>po_liquidity := po_liquidity position - amount,
                  tokens_owed_0 := 0, tokens_owed_1 := 0\<rparr>;
                s = store_or_drop owner tick_lower tick_upper position s in
            andthen (tick_change tick_lower (- as_i128 amount) False s) (\<lambda>s.
            andthen (tick_change tick_upper (- as_i128 amount) True s) (\<lambda>s.
            andthen (drop_liquidity full tick_lower tick_upper amount s) (\<lambda>s.
            andthen (settle_weight x e owner (- as_i128 amount) (s, w)) (\<lambda>(s, w).
            andthen (stored (cl_config s)) (\<lambda>cf.
            andthen (pay_both x e cf owner totals w) (\<lambda>w.
            andthen (cl_update_plane x e s w) (\<lambda>w.
            Inr (totals, s, w))))))))))))))))))"

section \<open>The pool interface over the full range\<close>

definition cl_deposit ::
  "'w host_calls \<Rightarrow> env \<Rightarrow> address \<Rightarrow> nat list \<Rightarrow> nat \<Rightarrow> cl_pool \<times> 'w \<Rightarrow>
   (((nat \<times> nat) \<times> nat) \<times> cl_pool \<times> 'w) res" where
  "cl_deposit x e user desired_amounts min_shares sw =
     andthen (full_range_ticks (fst sw)) (\<lambda>(tick_lower, tick_upper).
     deposit_position x e user tick_lower tick_upper desired_amounts min_shares sw)"

definition cl_estimate_deposit :: "fixed_point \<Rightarrow> cl_pool \<Rightarrow> nat list \<Rightarrow> nat res" where
  "cl_estimate_deposit fp s desired_amounts =
     andthen (full_range_ticks s) (\<lambda>(tick_lower, tick_upper).
     andthen (estimate_deposit_position fp s tick_lower tick_upper desired_amounts) (\<lambda>(_, liquidity).
     Inr liquidity))"

definition cl_withdraw ::
  "'w host_calls \<Rightarrow> env \<Rightarrow> address \<Rightarrow> nat \<Rightarrow> nat list \<Rightarrow> cl_pool \<times> 'w \<Rightarrow> ((nat \<times> nat) \<times> cl_pool \<times> 'w) res" where
  "cl_withdraw x e user share_amount min_amounts sw =
     (if length min_amounts \<noteq> 2 then Inl (ValidationError V_WrongInputVecSize)
      else
        andthen (full_range_ticks (fst sw)) (\<lambda>(tick_lower, tick_upper).
        withdraw_position x e user tick_lower tick_upper share_amount min_amounts sw))"

section \<open>Other views\<close>

definition get_chunk_bitmap_batch :: "cl_pool \<Rightarrow> int \<Rightarrow> nat \<Rightarrow> nat list" where
  "get_chunk_bitmap_batch s start_word count =
     map (\<lambda>i. ts_chunk_bitmap (cl_ticks s) (start_word + int i)) [0 ..< count]"

definition get_ticks_batch :: "cl_pool \<Rightarrow> int list \<Rightarrow> tick_info list res" where
  "get_ticks_batch s ts =
     andthen (stored (cl_config s)) (\<lambda>cf. Inr (map (\<lambda>t. get_tick (cl_ticks s) t (cf_spacing cf)) ts))"

definition tick_from_amounts :: "fixed_point \<Rightarrow> nat \<Rightarrow> nat \<Rightarrow> int res" where
  "tick_from_amounts fp amount0 amount1 =
     andthen (sqrt_price_from_amounts amount0 amount1) (\<lambda>sqrt_price. tick_at_sqrt_ratio fp sqrt_price)"

definition get_tick_bounds :: "cl_pool \<Rightarrow> int \<times> int" where
  "get_tick_bounds s = (ts_min_init (cl_ticks s), ts_max_init (cl_ticks s))"

end
