(* ===== verification/CL_Trade.thy ===== *)
theory CL_Trade
  imports CL_Liquidity
begin

text \<open>
  Swaps of a concentrated pool: \<open>swap_loop\<close>, \<open>simulate_swap_amounts\<close> and \<open>swap_internal\<close> of
  \<^verbatim>\<open>contract/internal.rs\<close>, and the four entry points of \<open>liquidity_pool_interface.rs\<close>. A pool
  takes the user's maximum and returns what an exact-output swap does not use; what an exact-input
  swap does not use goes to the liquidity that was active last.
\<close>

section \<open>The loop on a pool\<close>

definition start_params ::
  "fixed_point \<Rightarrow> bool \<Rightarrow> bool \<Rightarrow> int \<Rightarrow> nat \<Rightarrow> cl_config \<Rightarrow> cl_pool \<Rightarrow> swap_params" where
  "start_params fp dry_run zero_for_one amount_specified price_limit cf s =
     \<lparr>sp_fp = fp, sp_ticks = cl_ticks s, sp_zero_for_one = zero_for_one, sp_exact_input = (0 < amount_specified),
      sp_dry_run = dry_run, sp_price_limit = price_limit, sp_fee = cf_fee cf, sp_spacing = cf_spacing cf,
      sp_tick_bound = (if zero_for_one then ts_min_init (cl_ticks s) else ts_max_init (cl_ticks s)),
      sp_protocol_fraction = pl_protocol_fee_fraction s\<rparr>"

definition start_state :: "bool \<Rightarrow> int \<Rightarrow> cl_pool \<Rightarrow> swap_state" where
  "start_state dry_run amount_specified s =
     \<lparr>sw_remaining = nat \<bar>amount_specified\<bar>, sw_calculated = 0, sw_total_fee = 0,
      sw_price = sqrt_price_x96 (cl_slot0 s), sw_tick = slot_tick (cl_slot0 s),
      sw_liquidity = cl_liquidity s, sw_last_liquidity = cl_liquidity s,
      sw_last_tick = slot_tick (cl_slot0 s), sw_crossed = False,
      sw_fees = (if dry_run then (0, 0) else cl_protocol_fees s), sw_growth = cl_fee_growth s,
      sw_cache = new_cache\<rparr>"

definition swap_loop ::
  "fixed_point \<Rightarrow> bool \<Rightarrow> int \<Rightarrow> nat \<Rightarrow> bool \<Rightarrow> cl_pool \<Rightarrow> (nat \<times> swap_state) res" where
  \<comment> \<open>the part of the amount that was used, and the variables after the loop\<close>
  "swap_loop fp zero_for_one amount_specified sqrt_price_limit dry_run s =
     (if amount_specified = 0 then Inl (ValidationError V_ZeroAmount)
      else if cl_total_raw s = 0 then Inl (ValidationError V_EmptyPool)
      else
        andthen (stored (cl_config s)) (\<lambda>cf.
        andthen (validate_price_limit (sqrt_price_x96 (cl_slot0 s)) zero_for_one sqrt_price_limit) (\<lambda>price_limit.
        andthen
          (case swap_rounds (start_params fp dry_run zero_for_one amount_specified price_limit cf s)
                  (start_state dry_run amount_specified s) of
             Some r \<Rightarrow> r | None \<Rightarrow> Inl HostPanic) (\<lambda>st.
        if \<not> 0 < amount_specified \<and> 0 < sw_remaining st then Inl (ConcentratedError CL_InsufficientLiquidity)
        else Inr (sat_sub (nat \<bar>amount_specified\<bar>) (sw_remaining st), st)))))"

definition swap_store :: "swap_state \<Rightarrow> cl_pool \<Rightarrow> cl_pool" where
  \<comment> \<open>what a real swap has written to storage when the loop returns\<close>
  "swap_store st s = s\<lparr>cl_ticks := cache_flush (sw_cache st) (cl_ticks s), cl_protocol_fees := sw_fees st,
     cl_liquidity := sw_liquidity st, cl_fee_growth := sw_growth st,
     cl_slot0 := \<lparr>sqrt_price_x96 = sw_price st, slot_tick = sw_tick st\<rparr>\<rparr>"

definition simulate_swap_amounts :: "fixed_point \<Rightarrow> bool \<Rightarrow> int \<Rightarrow> nat \<Rightarrow> cl_pool \<Rightarrow> (int \<times> int) res" where
  "simulate_swap_amounts fp zero_for_one amount_specified sqrt_price_limit s =
     andthen (swap_loop fp zero_for_one amount_specified sqrt_price_limit True s) (\<lambda>(used, st).
     swap_amounts_signed zero_for_one (0 < amount_specified) used (sw_calculated st))"

section \<open>A real swap\<close>

definition swap_transfers ::
  "'w host_calls \<Rightarrow> env \<Rightarrow> address \<Rightarrow> address \<Rightarrow> address \<Rightarrow> bool \<Rightarrow> nat \<Rightarrow> nat \<Rightarrow> nat \<Rightarrow> 'w \<Rightarrow> 'w res" where
  \<comment> \<open>the user's maximum in, the unused part back for an exact output, the output to the user\<close>
  "swap_transfers x e sender in_token out_token exact_input user_max_in actual_in actual_out w =
     andthen (collect_some x e in_token sender user_max_in w) (\<lambda>w.
     andthen (if exact_input then Inr w
              else andthen (u_sub user_max_in actual_in) (\<lambda>rest. pay_some x e in_token sender rest w)) (\<lambda>w.
     pay_some x e out_token sender actual_out w))"

definition book_flow :: "int \<Rightarrow> nat \<Rightarrow> nat \<Rightarrow> nat res" where
  \<comment> \<open>a reserve after a signed amount, without the protocol's fee\<close>
  "book_flow amount pf_delta res =
     (if 0 < amount then andthen (u_sub (as_u128 amount) pf_delta) (\<lambda>d. u128_add res d)
      else if amount < 0 then andthen (i128_sub 0 amount) (\<lambda>m. u_sub res (as_u128 m))
      else Inr res)"

definition tick_surplus :: "bool \<Rightarrow> nat \<Rightarrow> int \<Rightarrow> int \<Rightarrow> tick_store \<Rightarrow> tick_store res" where
  \<comment> \<open>the growth of the surplus counts as inside the ranges left at the last crossed tick\<close>
  "tick_surplus zero_for_one growth_delta spacing last_crossed_tick ts =
     (let tick = get_tick ts last_crossed_tick spacing in
      andthen
        (if zero_for_one
         then andthen (wrapping_add_u256 (fee_growth_outside_0 tick) growth_delta)
           (\<lambda>g. Inr (tick\<lparr>fee_growth_outside_0 := g\<rparr>))
         else andthen (wrapping_add_u256 (fee_growth_outside_1 tick) growth_delta)
           (\<lambda>g. Inr (tick\<lparr>fee_growth_outside_1 := g\<rparr>))) (\<lambda>tick.
      let (chunk_pos, slot_idx) = chunk_address (compress_tick last_crossed_tick spacing);
          chunk = get_or_create_tick_chunk ts chunk_pos in
      Inr (set_tick_chunk chunk_pos (chunk[slot_idx := tick]) ts)))"

definition distribute_surplus ::
  "fixed_point \<Rightarrow> bool \<Rightarrow> nat \<Rightarrow> swap_state \<Rightarrow> cl_config \<Rightarrow> cl_pool \<Rightarrow> (nat \<times> cl_pool) res" where
  \<comment> \<open>what the providers get of the input that was not swapped\<close>
  "distribute_surplus fp zero_for_one unswapped st cf s =
     (if 0 < unswapped \<and> 0 < sw_last_liquidity st then
        andthen (mul_div_u128 fp unswapped (pl_protocol_fee_fraction s) CL_FEE_DENOMINATOR False) (\<lambda>protocol_cut.
        andthen (u_sub unswapped protocol_cut) (\<lambda>surplus_for_lp.
        let s = (if 0 < protocol_cut
                 then s\<lparr>cl_protocol_fees := add_protocol_fee zero_for_one protocol_cut (cl_protocol_fees s)\<rparr> else s) in
        andthen (add_fee_growth_global fp zero_for_one surplus_for_lp (sw_last_liquidity st) (cl_fee_growth s))
          (\<lambda>(growth_delta, growth).
        let s = s\<lparr>cl_fee_growth := growth\<rparr> in
        andthen
          (if sw_crossed st \<and> growth_delta \<noteq> 0
           then andthen (tick_surplus zero_for_one growth_delta (cf_spacing cf) (sw_last_tick st) (cl_ticks s))
             (\<lambda>ts. Inr (s\<lparr>cl_ticks := ts\<rparr>))
           else Inr s) (\<lambda>s.
        Inr (surplus_for_lp, s)))))
      else Inr (0, s))"

definition book_reserves ::
  "int \<times> int \<Rightarrow> nat \<times> nat \<Rightarrow> cl_pool \<Rightarrow> (nat \<times> nat) res" where
  "book_reserves amounts pf_delta s =
     andthen (book_flow (fst amounts) (fst pf_delta) (fst (cl_reserves s))) (\<lambda>r0.
     andthen (book_flow (snd amounts) (snd pf_delta) (snd (cl_reserves s))) (\<lambda>r1. Inr (r0, r1)))"

definition add_surplus :: "bool \<Rightarrow> nat \<Rightarrow> nat \<times> nat \<Rightarrow> (nat \<times> nat) res" where
  "add_surplus zero_for_one surplus reserves =
     (if zero_for_one then andthen (u128_add (fst reserves) surplus) (\<lambda>r. Inr (r, snd reserves))
      else andthen (u128_add (snd reserves) surplus) (\<lambda>r. Inr (fst reserves, r)))"

record swap_result =
  sr_amount0 :: int
  sr_amount1 :: int
  sr_liquidity :: nat
  sr_sqrt_price :: nat
  sr_tick :: int

definition fee_delta :: "swap_state \<Rightarrow> cl_pool \<Rightarrow> (nat \<times> nat) res" where
  \<comment> \<open>the protocol's fees of this swap\<close>
  "fee_delta st s =
     andthen (u_sub (fst (sw_fees st)) (fst (cl_protocol_fees s))) (\<lambda>d0.
     andthen (u_sub (snd (sw_fees st)) (snd (cl_protocol_fees s))) (\<lambda>d1. Inr (d0, d1)))"

definition swap_internal ::
  "'w host_calls \<Rightarrow> env \<Rightarrow> address \<Rightarrow> bool \<Rightarrow> int \<Rightarrow> nat \<Rightarrow> nat \<Rightarrow> cl_pool \<times> 'w \<Rightarrow>
   (swap_result \<times> cl_pool \<times> 'w) res" where
  "swap_internal x e sender zero_for_one amount_specified sqrt_price_limit user_max_in sw =
     (let (s, w) = sw; exact_input = (0 < amount_specified) in
      andthen (swap_loop (cc_fp x) zero_for_one amount_specified sqrt_price_limit False s) (\<lambda>(used, st).
      andthen (fee_delta st s) (\<lambda>pf_delta.
      if exact_input \<and> used = 0 then Inl (ConcentratedError CL_InsufficientLiquidity)
      else
        andthen (swap_amounts_signed zero_for_one exact_input used (sw_calculated st)) (\<lambda>(amount0, amount1).
        andthen (stored (cl_config s)) (\<lambda>cf.
        let s = swap_store st s;
            (in_token, out_token) =
              (if zero_for_one then (cf_token0 cf, cf_token1 cf) else (cf_token1 cf, cf_token0 cf));
            actual_in = as_u128 (if zero_for_one then amount0 else amount1) in
        andthen (i128_sub 0 (if zero_for_one then amount1 else amount0)) (\<lambda>out_signed.
        let actual_out = as_u128 out_signed in
        if user_max_in < actual_in then Inl (ValidationError V_InMaxNotSatisfied)
        else
          andthen (swap_transfers x e sender in_token out_token exact_input user_max_in actual_in actual_out w) (\<lambda>w.
          andthen (book_reserves (amount0, amount1) pf_delta s) (\<lambda>reserves.
          andthen
            (if exact_input then
               andthen (u_sub user_max_in actual_in) (\<lambda>unswapped.
               distribute_surplus (cc_fp x) zero_for_one unswapped st cf s)
             else Inr (0, s)) (\<lambda>(surplus, s).
          andthen (add_surplus zero_for_one surplus reserves) (\<lambda>reserves.
          let s = s\<lparr>cl_reserves := reserves\<rparr> in
          andthen (cl_update_plane x e s w) (\<lambda>w.
          Inr (\<lparr>sr_amount0 = amount0, sr_amount1 = amount1, sr_liquidity = sw_liquidity st,
                 sr_sqrt_price = sw_price st, sr_tick = sw_tick st\<rparr>, s, w))))))))))))"

section \<open>Entry points\<close>

definition amount_received :: "bool \<Rightarrow> int \<Rightarrow> int \<Rightarrow> nat res" where
  "amount_received zero_for_one amount0 amount1 =
     (let amount = (if zero_for_one then amount1 else amount0) in
      if 0 < amount then Inl (ConcentratedError CL_InvalidAmount)
      else andthen (i128_sub 0 amount) (\<lambda>m. Inr (as_u128 m)))"

definition amount_spent :: "bool \<Rightarrow> int \<Rightarrow> int \<Rightarrow> nat res" where
  "amount_spent zero_for_one amount0 amount1 =
     (let amount = (if zero_for_one then amount0 else amount1) in
      if amount \<le> 0 then Inl (ConcentratedError CL_InvalidAmount) else Inr (as_u128 amount))"

definition cl_swap ::
  "'w host_calls \<Rightarrow> env \<Rightarrow> address \<Rightarrow> nat \<Rightarrow> nat \<Rightarrow> nat \<Rightarrow> nat \<Rightarrow> cl_pool \<times> 'w \<Rightarrow> (nat \<times> cl_pool \<times> 'w) res" where
  "cl_swap x e user in_idx out_idx in_amount out_min sw =
     andthen (direction_from_indexes in_idx out_idx) (\<lambda>zero_for_one.
     andthen (require_auth e user) (\<lambda>_.
     if pl_killed_swap (fst sw) then Inl (ConcentratedError CL_SwapKilled)
     else
       andthen (swap_internal x e user zero_for_one (as_i128 in_amount) 0 in_amount sw) (\<lambda>(r, sw).
       andthen (amount_received zero_for_one (sr_amount0 r) (sr_amount1 r)) (\<lambda>amount_out.
       if amount_out < out_min then Inl (ValidationError V_OutMinNotSatisfied)
       else Inr (amount_out, sw)))))"

definition cl_estimate_swap :: "fixed_point \<Rightarrow> cl_pool \<Rightarrow> nat \<Rightarrow> nat \<Rightarrow> nat \<Rightarrow> nat res" where
  "cl_estimate_swap fp s in_idx out_idx in_amount =
     andthen (direction_from_indexes in_idx out_idx) (\<lambda>zero_for_one.
     andthen (simulate_swap_amounts fp zero_for_one (as_i128 in_amount) 0 s) (\<lambda>(amount0, amount1).
     amount_received zero_for_one amount0 amount1))"

definition cl_swap_strict_receive ::
  "'w host_calls \<Rightarrow> env \<Rightarrow> address \<Rightarrow> nat \<Rightarrow> nat \<Rightarrow> nat \<Rightarrow> nat \<Rightarrow> cl_pool \<times> 'w \<Rightarrow> (nat \<times> cl_pool \<times> 'w) res" where
  "cl_swap_strict_receive x e user in_idx out_idx out_amount in_max sw =
     andthen (direction_from_indexes in_idx out_idx) (\<lambda>zero_for_one.
     andthen (require_auth e user) (\<lambda>_.
     if pl_killed_swap (fst sw) then Inl (ConcentratedError CL_SwapKilled)
     else
       andthen (i128_sub 0 (as_i128 out_amount)) (\<lambda>amount_specified.
       andthen (swap_internal x e user zero_for_one amount_specified 0 in_max sw) (\<lambda>(r, sw).
       andthen (amount_spent zero_for_one (sr_amount0 r) (sr_amount1 r)) (\<lambda>amount_in.
       Inr (amount_in, sw))))))"

definition cl_estimate_swap_strict_receive :: "fixed_point \<Rightarrow> cl_pool \<Rightarrow> nat \<Rightarrow> nat \<Rightarrow> nat \<Rightarrow> nat res" where
  "cl_estimate_swap_strict_receive fp s in_idx out_idx out_amount =
     (if out_amount = 0 then Inr 0
      else
        andthen (direction_from_indexes in_idx out_idx) (\<lambda>zero_for_one.
        andthen (i128_sub 0 (as_i128 out_amount)) (\<lambda>amount_specified.
        andthen (simulate_swap_amounts fp zero_for_one amount_specified 0 s) (\<lambda>(amount0, amount1).
        amount_spent zero_for_one amount0 amount1))))"

end
