(* ===== verification/CL_Admin.thy ===== *)
theory CL_Admin
  imports CL_Trade
begin

text \<open>
  The entry points of a concentrated pool besides trading that differ from those of the other
  pools (\<^verbatim>\<open>contract/managed.rs\<close>, \<open>liquidity_pool_interface.rs\<close>, \<open>admin.rs\<close>, \<open>rewards_impl.rs\<close>,
  \<open>rewards_gauge_impl.rs\<close>, \<open>upgradeable.rs\<close>, \<open>plane.rs\<close>): the shares of a user are the weighted
  liquidity, which is computed anew before rewards are settled. Privileged addresses, kill switches,
  transfers of roles and the reverting of upgrades are those of \<open>Pool_Admin\<close>.
\<close>

section \<open>Initialization\<close>

definition cl_initialize ::
  "'w host_calls \<Rightarrow> env \<Rightarrow> address \<Rightarrow> privileged \<Rightarrow> address \<Rightarrow> address list \<Rightarrow> nat \<Rightarrow> int \<Rightarrow> nat \<Rightarrow>
   cl_pool \<times> 'w \<Rightarrow> (cl_pool \<times> 'w) res" where
  "cl_initialize x e admin privileged_addrs router tokens fee tick_spacing protocol_fee_fraction sw =
     (let (s, w) = sw; ac = mg_ac (pl_managed s) in
      andthen (get_role_safe ac Admin) (\<lambda>current.
      if current \<noteq> None then Inl (ConcentratedError CL_PoolAlreadyInitialized)
      else if length tokens \<noteq> 2 then Inl (ValidationError V_WrongInputVecSize)
      else if CL_FEE_DENOMINATOR \<le> fee then Inl (ValidationError V_FeeOutOfBounds)
      else if tick_spacing \<le> 0 then Inl (ConcentratedError CL_InvalidTickSpacing)
      else if tokens ! 1 \<le> tokens ! 0 then Inl (ConcentratedError CL_TokensNotSorted)
      else
        andthen (set_role_address Admin admin ac) (\<lambda>ac.
        andthen (set_role_address EmergencyAdmin (pv_emergency_admin privileged_addrs) ac) (\<lambda>ac.
        andthen (set_privileged_roles privileged_addrs ac) (\<lambda>ac.
        if CL_FEE_DENOMINATOR < protocol_fee_fraction then Inl (ValidationError V_FeeOutOfBounds)
        else
          andthen (sqrt_ratio_at_tick (cc_fp x) 0) (\<lambda>sqrt_price.
          let s = s\<lparr>pl_managed := (pl_managed s)\<lparr>mg_ac := ac\<rparr>, pl_router := Some router,
              cl_config := Some \<lparr>cf_token0 = tokens ! 0, cf_token1 = tokens ! 1, cf_fee = fee,
                cf_spacing = tick_spacing\<rparr>,
              cl_liquidity := 0, cl_fee_growth := (0, 0), cl_protocol_fees := (0, 0),
              pl_protocol_fee_fraction := protocol_fee_fraction, pl_killed_deposit := False,
              pl_killed_swap := False, pl_killed_claim := False, cl_full_range := 0, cl_reserves := (0, 0),
              cl_slot0 := \<lparr>sqrt_price_x96 = sqrt_price, slot_tick = 0\<rparr>\<rparr> in
          andthen (cl_update_plane x e s w) (\<lambda>w. Inr (s, w))))))))"

definition cl_init_pools_plane :: "address \<Rightarrow> cl_pool \<Rightarrow> cl_pool res" where
  "cl_init_pools_plane plane s =
     (if has_plane s then Inl (ConcentratedError CL_PlaneAlreadyInitialized)
      else Inr (s\<lparr>pl_plane := Some plane\<rparr>))"

definition cl_initialize_rewards_config :: "address \<Rightarrow> cl_pool \<Rightarrow> cl_pool res" where
  "cl_initialize_rewards_config reward_token s =
     (if has_reward_token (pl_rewards s) then Inl (ConcentratedError CL_RewardsAlreadyInitialized)
      else Inr (s\<lparr>pl_rewards := put_reward_token reward_token (pl_rewards s)\<rparr>))"

definition cl_initialize_boost_config :: "address \<Rightarrow> address \<Rightarrow> cl_pool \<Rightarrow> cl_pool res" where
  "cl_initialize_boost_config reward_boost_token reward_boost_feed s =
     (if rw_boost_token (pl_rewards s) \<noteq> None then Inl (ConcentratedError CL_RewardsAlreadyInitialized)
      else Inr (s\<lparr>pl_rewards := put_reward_boost_feed reward_boost_feed
        (put_reward_boost_token reward_boost_token (pl_rewards s))\<rparr>))"

definition cl_initialize_all ::
  "'w host_calls \<Rightarrow> env \<Rightarrow> address \<Rightarrow> privileged \<Rightarrow> address \<Rightarrow> address list \<Rightarrow> nat \<Rightarrow> int \<Rightarrow> nat \<Rightarrow>
   address \<times> address \<times> address \<Rightarrow> address \<Rightarrow> cl_pool \<times> 'w \<Rightarrow> (cl_pool \<times> 'w) res" where
  "cl_initialize_all x e admin privileged_addrs router tokens fee tick_spacing protocol_fee_fraction reward_config
     plane sw =
     (let (reward_token, reward_boost_token, reward_boost_feed) = reward_config; (s, w) = sw in
      andthen (cl_init_pools_plane plane s) (\<lambda>s.
      andthen (cl_initialize x e admin privileged_addrs router tokens fee tick_spacing protocol_fee_fraction (s, w))
        (\<lambda>(s, w).
      andthen (cl_initialize_boost_config reward_boost_token reward_boost_feed s) (\<lambda>s.
      andthen (cl_initialize_rewards_config reward_token s) (\<lambda>s. Inr (s, w))))))"

section \<open>Administration\<close>

definition cl_set_protocol_fee_fraction :: "env \<Rightarrow> address \<Rightarrow> nat \<Rightarrow> cl_pool \<Rightarrow> cl_pool res" where
  "cl_set_protocol_fee_fraction e admin new_fraction s =
     andthen (pool_role e admin require_operations_admin_or_owner s) (\<lambda>_.
     if CL_FEE_DENOMINATOR < new_fraction then Inl (ValidationError V_FeeOutOfBounds)
     else Inr (s\<lparr>pl_protocol_fee_fraction := new_fraction\<rparr>))"

definition cl_claim_protocol_fees ::
  "'w host_calls \<Rightarrow> env \<Rightarrow> address \<Rightarrow> address \<Rightarrow> cl_pool \<times> 'w \<Rightarrow> ((nat \<times> nat) \<times> cl_pool \<times> 'w) res" where
  "cl_claim_protocol_fees x e admin destination sw =
     (let (s, w) = sw; fees = cl_protocol_fees s in
      andthen (pool_role e admin require_system_fee_admin_or_owner s) (\<lambda>_.
      if fees = (0, 0) then Inr ((0, 0), s, w)
      else
        andthen (stored (cl_config s)) (\<lambda>cf.
        andthen (pay_both x e cf destination fees w) (\<lambda>w.
        Inr (fees, s\<lparr>cl_protocol_fees := (0, 0)\<rparr>, w)))))"

definition cl_apply_upgrade ::
  "'w host_calls \<Rightarrow> env \<Rightarrow> address \<Rightarrow> cl_pool \<times> 'w \<Rightarrow> ((nat \<times> nat) \<times> cl_pool \<times> 'w) res" where
  "cl_apply_upgrade x e admin sw =
     (let (s, w) = sw in
      andthen (entry_apply_upgrade e admin (pl_managed s)) (\<lambda>(new_wasm_hash, m).
      let s = s\<lparr>pl_managed := m\<rparr> in
      andthen (stored (pl_token_future_wasm s)) (\<lambda>token_new_wasm_hash.
      andthen (stored (pl_gauge_future_wasm s)) (\<lambda>gauge_new_wasm_hash.
      andthen (gauges_upgrade (cc_gauges x) e gauge_new_wasm_hash (pl_gauges s) w) (\<lambda>w.
      Inr ((new_wasm_hash, token_new_wasm_hash), s, w))))))"

section \<open>Rewards\<close>

definition cl_with_rewards ::
  "'w host_calls \<Rightarrow> env \<Rightarrow> (reward_ctx \<Rightarrow> nat \<Rightarrow> rewards \<Rightarrow> ('a \<times> rewards) res) \<Rightarrow> cl_pool \<times> 'w \<Rightarrow>
   ('a \<times> cl_pool) res" where
  \<comment> \<open>one call of a fresh manager, with the total of the weighted liquidity\<close>
  "cl_with_rewards x e f sw =
     (let (s, w) = sw in
      andthen (f (pool_reward_context x e w) (cl_total_weighted s) (new_storage (pl_rewards s))) (\<lambda>(v, r).
      Inr (v, s\<lparr>pl_rewards := r\<rparr>)))"

definition cl_set_rewards_config ::
  "'w host_calls \<Rightarrow> env \<Rightarrow> address \<Rightarrow> nat \<Rightarrow> nat \<Rightarrow> cl_pool \<times> 'w \<Rightarrow> cl_pool res" where
  "cl_set_rewards_config x e admin expired rate sw =
     andthen (or_router e admin require_rewards_admin_or_owner (fst sw)) (\<lambda>_.
     andthen (cl_with_rewards x e (\<lambda>c total_weighted r.
       andthen (set_reward_config c total_weighted expired rate r) (\<lambda>r. Inr ((), r))) sw) (\<lambda>(_, s). Inr s))"

definition cl_get_unused_reward :: "'w host_calls \<Rightarrow> env \<Rightarrow> cl_pool \<times> 'w \<Rightarrow> (nat \<times> cl_pool) res" where
  "cl_get_unused_reward x e sw =
     (let w = snd sw in
      andthen (cl_with_rewards x e (\<lambda>c total_weighted r.
        andthen (get_total_configured_reward c total_weighted r) (\<lambda>(configured, r).
        andthen (get_total_claimed_reward c total_weighted r) (\<lambda>(total_claimed, r).
        Inr (sat_sub configured total_claimed, r)))) sw) (\<lambda>(keep, s).
      andthen (get_reward_token (pl_rewards s)) (\<lambda>reward_token.
      let reward_balance = as_u128 (tk_balance (cc_tokens x) reward_token (current_contract e) w) in
      andthen (stored (cl_config s)) (\<lambda>cf.
      let keep =
        (if reward_token = cf_token0 cf
         then sat_add U128_MAX (sat_add U128_MAX keep (fst (cl_reserves s))) (fst (cl_protocol_fees s))
         else if reward_token = cf_token1 cf
         then sat_add U128_MAX (sat_add U128_MAX keep (snd (cl_reserves s))) (snd (cl_protocol_fees s))
         else keep) in
      Inr (sat_sub reward_balance keep, s)))))"

definition cl_return_unused_reward ::
  "'w host_calls \<Rightarrow> env \<Rightarrow> address \<Rightarrow> cl_pool \<times> 'w \<Rightarrow> (nat \<times> cl_pool \<times> 'w) res" where
  "cl_return_unused_reward x e admin sw =
     (let (s, w) = sw in
      andthen (pool_role e admin require_rewards_admin_or_owner s) (\<lambda>_.
      andthen (cl_get_unused_reward x e (s, w)) (\<lambda>(unused_reward, s).
      if unused_reward = 0 then Inr (0, s, w)
      else
        andthen (get_reward_token (pl_rewards s)) (\<lambda>reward_token.
        andthen (stored (pl_router s)) (\<lambda>router.
        andthen (pay x e reward_token router unused_reward w) (\<lambda>w.
        Inr (unused_reward, s, w)))))))"

definition cl_get_rewards_info ::
  "'w host_calls \<Rightarrow> env \<Rightarrow> address \<Rightarrow> cl_pool \<times> 'w \<Rightarrow> (rewards_info \<times> cl_pool \<times> 'w) res" where
  "cl_get_rewards_info x e user sw =
     (let (s, w) = sw; config = get_pool_reward_config (pl_rewards s);
          total_weighted = cl_total_weighted s; weighted = user_weighted s user;
          c = pool_reward_context x e w; r = new_storage (pl_rewards s);
          state = get_user_rewards_state r user;
          (working_balance, r) = get_working_balance user weighted r;
          (working_supply, r) = get_working_supply total_weighted r;
          boost_balance = get_user_boost_balance c r user in
      andthen (get_total_locked c r) (\<lambda>boost_supply.
      andthen (gauge_checkpoint x e user weighted total_weighted (s\<lparr>pl_rewards := r\<rparr>, w)) (\<lambda>sw.
      andthen (rewards_checkpoint x e user total_weighted weighted sw) (\<lambda>(user_data, s, w).
      let pool_data = get_pool_reward_data (pl_rewards s);
          (new_balance, r) = get_working_balance user weighted (pl_rewards s);
          (new_supply, r) = get_working_supply total_weighted r in
      Inr (\<lparr>ri_tps = as_i128 (tps config), ri_exp_at = as_i128 (expired_at config), ri_state = state,
        ri_supply = as_i128 total_weighted, ri_working_balance = as_i128 working_balance,
        ri_working_supply = as_i128 working_supply, ri_boost_balance = as_i128 boost_balance,
        ri_boost_supply = as_i128 boost_supply, ri_acc = as_i128 (accumulated pool_data),
        ri_last_time = as_i128 (last_time pool_data), ri_pool_acc = as_i128 (pool_accumulated user_data),
        ri_block = as_i128 (block pool_data), ri_usr_block = as_i128 (last_block user_data),
        ri_to_claim = as_i128 (to_claim user_data), ri_new_working_balance = as_i128 new_balance,
        ri_new_working_supply = as_i128 new_supply\<rparr>, s\<lparr>pl_rewards := r\<rparr>, w)))))"

definition cl_get_user_reward ::
  "'w host_calls \<Rightarrow> env \<Rightarrow> address \<Rightarrow> cl_pool \<times> 'w \<Rightarrow> (nat \<times> cl_pool \<times> 'w) res" where
  "cl_get_user_reward x e user sw =
     (let (s, w) = sw in
      andthen (recompute_user_weighted_liquidity user s) (\<lambda>s.
      andthen (rewards_checkpoint_user x e user (s, w)) (\<lambda>(d, s, w). Inr (to_claim d, s, w))))"

definition cl_estimate_working_balance ::
  "'w host_calls \<Rightarrow> env \<Rightarrow> address \<Rightarrow> int \<Rightarrow> int \<Rightarrow> nat \<Rightarrow> cl_pool \<times> 'w \<Rightarrow> ((nat \<times> nat) \<times> cl_pool) res" where
  "cl_estimate_working_balance x e user tick_lower tick_upper new_liquidity sw =
     (let (s, w) = sw in
      andthen (compute_user_weighted_liquidity s user tick_lower tick_upper new_liquidity) (\<lambda>new_weighted.
      let total_weighted = cl_total_weighted s; weighted = user_weighted s user;
          new_total =
            (if weighted \<le> new_weighted then sat_add U128_MAX total_weighted (new_weighted - weighted)
             else sat_sub total_weighted (weighted - new_weighted));
          (prev_balance, r) = get_working_balance user weighted (new_storage (pl_rewards s));
          (prev_supply, r) = get_working_supply total_weighted r in
      andthen (calculate_effective_balance (pool_reward_context x e w) r user new_weighted new_total) (\<lambda>new_balance.
      let new_supply =
        (if prev_balance \<le> new_balance then sat_add U128_MAX prev_supply (new_balance - prev_balance)
         else sat_sub prev_supply (prev_balance - new_balance)) in
      Inr ((new_balance, new_supply), s\<lparr>pl_rewards := r\<rparr>))))"

definition cl_get_total_accumulated_reward :: "'w host_calls \<Rightarrow> env \<Rightarrow> cl_pool \<times> 'w \<Rightarrow> (nat \<times> cl_pool) res" where
  "cl_get_total_accumulated_reward x e = cl_with_rewards x e get_total_accumulated_reward"

definition cl_get_total_configured_reward :: "'w host_calls \<Rightarrow> env \<Rightarrow> cl_pool \<times> 'w \<Rightarrow> (nat \<times> cl_pool) res" where
  "cl_get_total_configured_reward x e = cl_with_rewards x e get_total_configured_reward"

definition cl_get_total_claimed_reward :: "'w host_calls \<Rightarrow> env \<Rightarrow> cl_pool \<times> 'w \<Rightarrow> (nat \<times> cl_pool) res" where
  "cl_get_total_claimed_reward x e = cl_with_rewards x e get_total_claimed_reward"

definition cl_adjust_total_accumulated_reward ::
  "'w host_calls \<Rightarrow> env \<Rightarrow> address \<Rightarrow> int \<Rightarrow> cl_pool \<times> 'w \<Rightarrow> cl_pool res" where
  "cl_adjust_total_accumulated_reward x e admin diff sw =
     andthen (pool_role e admin require_rewards_admin_or_owner (fst sw)) (\<lambda>_.
     andthen (cl_with_rewards x e (\<lambda>c total_weighted r.
       andthen (adjust_total_accumulated_reward c total_weighted diff r) (\<lambda>r. Inr ((), r))) sw) (\<lambda>(_, s). Inr s))"

definition cl_claim :: "'w host_calls \<Rightarrow> env \<Rightarrow> address \<Rightarrow> cl_pool \<times> 'w \<Rightarrow> (nat \<times> cl_pool \<times> 'w) res" where
  "cl_claim x e user sw =
     (let (s, w) = sw in
      if pl_killed_claim s then Inl (ConcentratedError CL_ClaimKilled)
      else
        andthen (require_auth e user) (\<lambda>_.
        andthen (recompute_user_weighted_liquidity user s) (\<lambda>s.
        let total_weighted = cl_total_weighted s; weighted = user_weighted s user in
        andthen (gauge_checkpoint x e user weighted total_weighted (new_manager s, w)) (\<lambda>(s, w).
        andthen (claim_reward (pool_reward_context x e w) (cc_tokens x) user total_weighted weighted
          (pl_rewards s, w)) (\<lambda>(reward, r, w).
        let s = s\<lparr>pl_rewards := r\<rparr> in
        andthen (get_reward_token r) (\<lambda>reward_token.
        andthen (stored (cl_config s)) (\<lambda>cf.
        andthen
          (if reward_token = cf_token0 cf
           then claim_covered x e reward_token w (cf_token0 cf, fst (cl_reserves s), fst (cl_protocol_fees s))
           else claim_covered x e reward_token w (cf_token1 cf, snd (cl_reserves s), snd (cl_protocol_fees s))) (\<lambda>_.
        andthen (gauge_checkpoint x e user weighted total_weighted (new_manager s, w)) (\<lambda>(s, w).
        Inr (reward, s, w))))))))))"

definition cl_change_rewards_state ::
  "'w host_calls \<Rightarrow> env \<Rightarrow> address \<Rightarrow> bool \<Rightarrow> cl_pool \<times> 'w \<Rightarrow> (cl_pool \<times> 'w) res" where
  \<comment> \<open>the common body of \<open>set_rewards_state\<close> and \<open>admin_set_rewards_state\<close>\<close>
  "cl_change_rewards_state x e user state sw =
     (let (s, w) = sw in
      andthen (recompute_user_weighted_liquidity user s) (\<lambda>s.
      let total_weighted = cl_total_weighted s; weighted = user_weighted s user in
      andthen (gauge_checkpoint x e user weighted total_weighted (new_manager s, w)) (\<lambda>(s, w).
      andthen (set_user_rewards_state user weighted state (pl_rewards s)) (\<lambda>r.
      andthen (rewards_checkpoint x e user total_weighted weighted (s\<lparr>pl_rewards := r\<rparr>, w)) (\<lambda>(_, sw).
      gauge_checkpoint x e user weighted total_weighted sw)))))"

definition cl_set_rewards_state ::
  "'w host_calls \<Rightarrow> env \<Rightarrow> address \<Rightarrow> bool \<Rightarrow> cl_pool \<times> 'w \<Rightarrow> (cl_pool \<times> 'w) res" where
  "cl_set_rewards_state x e user state sw =
     andthen (require_auth e user) (\<lambda>_. cl_change_rewards_state x e user state sw)"

definition cl_admin_set_rewards_state ::
  "'w host_calls \<Rightarrow> env \<Rightarrow> address \<Rightarrow> address \<Rightarrow> bool \<Rightarrow> cl_pool \<times> 'w \<Rightarrow> (cl_pool \<times> 'w) res" where
  "cl_admin_set_rewards_state x e admin user state sw =
     andthen (pool_role e admin require_operations_admin_or_owner (fst sw)) (\<lambda>_.
     cl_change_rewards_state x e user state sw)"

section \<open>Gauges\<close>

definition cl_gauge_schedule_reward ::
  "'w host_calls \<Rightarrow> env \<Rightarrow> address \<Rightarrow> address \<Rightarrow> address \<Rightarrow> nat option \<Rightarrow> nat \<Rightarrow> nat \<Rightarrow> cl_pool \<times> 'w \<Rightarrow>
   (cl_pool \<times> 'w) res" where
  "cl_gauge_schedule_reward x e router distributor gauge start_at duration rate sw =
     (let (s, w) = sw in
      andthen (require_auth e router) (\<lambda>_.
      andthen (require_auth e distributor) (\<lambda>_.
      andthen (stored (pl_router s)) (\<lambda>the_router.
      if router \<noteq> the_router then Inl (ConcentratedError CL_Unauthorized)
      else
        let (working_supply, r) = get_working_supply (cl_total_weighted s) (new_storage (pl_rewards s)) in
        andthen (gauges_schedule_rewards_config (cc_gauges x) e gauge distributor start_at duration rate
          working_supply w) (\<lambda>w.
        Inr (s\<lparr>pl_rewards := r\<rparr>, w))))))"

definition cl_gauges_claim ::
  "'w host_calls \<Rightarrow> env \<Rightarrow> address \<Rightarrow> cl_pool \<times> 'w \<Rightarrow> ((address \<times> nat) list \<times> cl_pool \<times> 'w) res" where
  "cl_gauges_claim x e user sw =
     (let (s, w) = sw in
      andthen (require_auth e user) (\<lambda>_.
      andthen (recompute_user_weighted_liquidity user s) (\<lambda>s.
      let (working_balance, working_supply, s) = working_pair user (user_weighted s user) (cl_total_weighted s) s in
      andthen (gauges_claim (cc_gauges x) e user working_balance working_supply (pl_gauges s) w) (\<lambda>(claims, w).
      Inr (claims, s, w)))))"

definition cl_gauges_get_reward_info ::
  "'w host_calls \<Rightarrow> env \<Rightarrow> address \<Rightarrow> cl_pool \<times> 'w \<Rightarrow> ((address \<times> gauge_info) list \<times> cl_pool \<times> 'w) res" where
  "cl_gauges_get_reward_info x e user sw =
     (let (s, w) = sw in
      andthen (recompute_user_weighted_liquidity user s) (\<lambda>s.
      let (working_balance, working_supply, s) = working_pair user (user_weighted s user) (cl_total_weighted s) s in
      andthen (gauges_get_rewards_info (cc_gauges x) e user working_balance working_supply (pl_gauges s) w)
        (\<lambda>(infos, w).
      Inr (infos, s, w))))"

end
