(* ===== verification/CL_Entries.thy ===== *)
theory CL_Entries
  imports CL_Admin
begin

text \<open>
  The entry points of a concentrated pool that repeat those of the constant-product pool: each is
  the common definition of \<open>Pool_Admin\<close> at the concentrated pool's state. \<open>CL_Runs\<close> executes them
  as \<open>ClShared\<close>.
\<close>

definition cl_set_privileged_addrs ::
  "env \<Rightarrow> address \<Rightarrow> privileged \<Rightarrow> cl_pool \<Rightarrow> cl_pool res" where
  "cl_set_privileged_addrs = pl_set_privileged_addrs"

definition cl_get_privileged_addrs :: "cl_pool \<Rightarrow> (symbol \<times> address list) list res" where
  "cl_get_privileged_addrs = pl_get_privileged_addrs"

definition cl_kill_deposit :: "env \<Rightarrow> address \<Rightarrow> cl_pool \<Rightarrow> cl_pool res" where
  "cl_kill_deposit = pl_kill_deposit"

definition cl_kill_swap :: "env \<Rightarrow> address \<Rightarrow> cl_pool \<Rightarrow> cl_pool res" where
  "cl_kill_swap = pl_kill_swap"

definition cl_kill_claim :: "env \<Rightarrow> address \<Rightarrow> cl_pool \<Rightarrow> cl_pool res" where
  "cl_kill_claim = pl_kill_claim"

definition cl_unkill_deposit :: "env \<Rightarrow> address \<Rightarrow> cl_pool \<Rightarrow> cl_pool res" where
  "cl_unkill_deposit = pl_unkill_deposit"

definition cl_unkill_swap :: "env \<Rightarrow> address \<Rightarrow> cl_pool \<Rightarrow> cl_pool res" where
  "cl_unkill_swap = pl_unkill_swap"

definition cl_unkill_claim :: "env \<Rightarrow> address \<Rightarrow> cl_pool \<Rightarrow> cl_pool res" where
  "cl_unkill_claim = pl_unkill_claim"

definition cl_set_pools_plane ::
  "env \<Rightarrow> address \<Rightarrow> address \<Rightarrow> cl_pool \<Rightarrow> cl_pool res" where
  "cl_set_pools_plane = pl_set_pools_plane"

definition cl_commit_upgrade ::
  "env \<Rightarrow> address \<Rightarrow> nat \<Rightarrow> nat \<Rightarrow> nat \<Rightarrow> cl_pool \<Rightarrow> cl_pool res" where
  "cl_commit_upgrade = pl_commit_upgrade"

definition cl_revert_upgrade :: "env \<Rightarrow> address \<Rightarrow> cl_pool \<Rightarrow> cl_pool res" where
  "cl_revert_upgrade = pl_revert_upgrade"

definition cl_set_emergency_mode ::
  "env \<Rightarrow> address \<Rightarrow> bool \<Rightarrow> cl_pool \<Rightarrow> cl_pool res" where
  "cl_set_emergency_mode = pl_set_emergency_mode"

definition cl_commit_transfer_ownership ::
  "env \<Rightarrow> address \<Rightarrow> symbol \<Rightarrow> address \<Rightarrow> cl_pool \<Rightarrow> cl_pool res" where
  "cl_commit_transfer_ownership = pl_commit_transfer_ownership"

definition cl_apply_transfer_ownership ::
  "env \<Rightarrow> address \<Rightarrow> symbol \<Rightarrow> cl_pool \<Rightarrow> cl_pool res" where
  "cl_apply_transfer_ownership = pl_apply_transfer_ownership"

definition cl_revert_transfer_ownership ::
  "env \<Rightarrow> address \<Rightarrow> symbol \<Rightarrow> cl_pool \<Rightarrow> cl_pool res" where
  "cl_revert_transfer_ownership = pl_revert_transfer_ownership"

definition cl_set_reward_boost_config ::
  "env \<Rightarrow> address \<Rightarrow> address \<Rightarrow> address \<Rightarrow> cl_pool \<Rightarrow> cl_pool res" where
  "cl_set_reward_boost_config = pl_set_reward_boost_config"

definition cl_gauge_add ::
  "'w host_calls \<Rightarrow> env \<Rightarrow> address \<Rightarrow> address \<Rightarrow> cl_pool \<times> 'w \<Rightarrow> cl_pool res" where
  "cl_gauge_add = pl_gauge_add"

definition cl_gauge_remove ::
  "env \<Rightarrow> address \<Rightarrow> address \<Rightarrow> cl_pool \<Rightarrow> cl_pool res" where
  "cl_gauge_remove = pl_gauge_remove"

definition cl_kill_gauges_claim :: "env \<Rightarrow> address \<Rightarrow> cl_pool \<Rightarrow> cl_pool res" where
  "cl_kill_gauges_claim = pl_kill_gauges_claim"

definition cl_unkill_gauges_claim :: "env \<Rightarrow> address \<Rightarrow> cl_pool \<Rightarrow> cl_pool res" where
  "cl_unkill_gauges_claim = pl_unkill_gauges_claim"

end
