(* ===== verification/CL_Runs.thy ===== *)
theory CL_Runs
  imports CL_Entries Pool_Host
begin

text \<open>
  Runs of an initialized concentrated pool: one constructor per entry point that can change the
  pool or the world, their execution, and the books (tokens, reserves, the protocol's fees) with
  the steps that leave them alone. Pure estimates have no effect and are not part of a run.
\<close>

section \<open>Entry points\<close>

datatype cl_trade_op =
    ClDeposit address "nat list" nat
  | ClDepositPosition address int int "nat list" nat
  | ClWithdraw address nat "nat list"
  | ClWithdrawPosition address int int nat "nat list"
  | ClSwap address nat nat nat nat
  | ClSwapStrict address nat nat nat nat
  | ClClaimFees address int int
  | ClClaimAllFees address

datatype cl_own_op =
    ClInitPlane address
  | ClBackfillPlane
  | ClSetProtocolFee address nat
  | ClClaimProtocolFees address address
  | ClApplyUpgrade address
  | ClInitRewards address
  | ClInitBoost address address
  | ClSetRewardsConfig address nat nat
  | ClUnusedReward
  | ClReturnUnused address
  | ClRewardsInfo address
  | ClUserReward address
  | ClEstimateWorking address int int nat
  | ClTotalAccumulated
  | ClTotalConfigured
  | ClTotalClaimed
  | ClAdjust address int
  | ClClaim address
  | ClSetRewardsState address bool
  | ClAdminSetRewardsState address address bool
  | ClGaugeSchedule address address address "nat option" nat nat
  | ClGaugesClaim address
  | ClGaugesInfo address

datatype cl_op = ClTrade cl_trade_op | ClOwn cl_own_op | ClShared shared_op

primrec cl_trade_exec :: "'w host_calls \<Rightarrow> env \<Rightarrow> cl_pool \<Rightarrow> 'w \<Rightarrow> cl_trade_op \<Rightarrow> (cl_pool \<times> 'w) res" where
  "cl_trade_exec x e s w (ClDeposit u ds m) = effect (cl_deposit x e u ds m (s, w))"
| "cl_trade_exec x e s w (ClDepositPosition u l h ds m) = effect (deposit_position x e u l h ds m (s, w))"
| "cl_trade_exec x e s w (ClWithdraw u n ms) = effect (cl_withdraw x e u n ms (s, w))"
| "cl_trade_exec x e s w (ClWithdrawPosition u l h n ms) = effect (withdraw_position x e u l h n ms (s, w))"
| "cl_trade_exec x e s w (ClSwap u i j n m) = effect (cl_swap x e u i j n m (s, w))"
| "cl_trade_exec x e s w (ClSwapStrict u i j n m) = effect (cl_swap_strict_receive x e u i j n m (s, w))"
| "cl_trade_exec x e s w (ClClaimFees u l h) = effect (claim_position_fees x e u l h (s, w))"
| "cl_trade_exec x e s w (ClClaimAllFees u) = effect (claim_all_position_fees x e u (s, w))"

primrec cl_own_exec :: "'w host_calls \<Rightarrow> env \<Rightarrow> cl_pool \<Rightarrow> 'w \<Rightarrow> cl_own_op \<Rightarrow> (cl_pool \<times> 'w) res" where
  "cl_own_exec x e s w (ClInitPlane p) = local w (cl_init_pools_plane p s)"
| "cl_own_exec x e s w ClBackfillPlane = andthen (cl_update_plane x e s w) (\<lambda>w. Inr (s, w))"
| "cl_own_exec x e s w (ClSetProtocolFee a f) = local w (cl_set_protocol_fee_fraction e a f s)"
| "cl_own_exec x e s w (ClClaimProtocolFees a d) = effect (cl_claim_protocol_fees x e a d (s, w))"
| "cl_own_exec x e s w (ClApplyUpgrade a) = effect (cl_apply_upgrade x e a (s, w))"
| "cl_own_exec x e s w (ClInitRewards t) = local w (cl_initialize_rewards_config t s)"
| "cl_own_exec x e s w (ClInitBoost t f) = local w (cl_initialize_boost_config t f s)"
| "cl_own_exec x e s w (ClSetRewardsConfig a n r) = local w (cl_set_rewards_config x e a n r (s, w))"
| "cl_own_exec x e s w ClUnusedReward = reading w (cl_get_unused_reward x e (s, w))"
| "cl_own_exec x e s w (ClReturnUnused a) = effect (cl_return_unused_reward x e a (s, w))"
| "cl_own_exec x e s w (ClRewardsInfo u) = effect (cl_get_rewards_info x e u (s, w))"
| "cl_own_exec x e s w (ClUserReward u) = effect (cl_get_user_reward x e u (s, w))"
| "cl_own_exec x e s w (ClEstimateWorking u l h n) = reading w (cl_estimate_working_balance x e u l h n (s, w))"
| "cl_own_exec x e s w ClTotalAccumulated = reading w (cl_get_total_accumulated_reward x e (s, w))"
| "cl_own_exec x e s w ClTotalConfigured = reading w (cl_get_total_configured_reward x e (s, w))"
| "cl_own_exec x e s w ClTotalClaimed = reading w (cl_get_total_claimed_reward x e (s, w))"
| "cl_own_exec x e s w (ClAdjust a d) = local w (cl_adjust_total_accumulated_reward x e a d (s, w))"
| "cl_own_exec x e s w (ClClaim u) = effect (cl_claim x e u (s, w))"
| "cl_own_exec x e s w (ClSetRewardsState u v) = cl_set_rewards_state x e u v (s, w)"
| "cl_own_exec x e s w (ClAdminSetRewardsState a u v) = cl_admin_set_rewards_state x e a u v (s, w)"
| "cl_own_exec x e s w (ClGaugeSchedule r d g st du n) = cl_gauge_schedule_reward x e r d g st du n (s, w)"
| "cl_own_exec x e s w (ClGaugesClaim u) = effect (cl_gauges_claim x e u (s, w))"
| "cl_own_exec x e s w (ClGaugesInfo u) = effect (cl_gauges_get_reward_info x e u (s, w))"

text \<open>Of the shared entry points a concentrated pool has those of \<open>CL_Entries\<close>.\<close>

fun has_manage :: "manage_op \<Rightarrow> bool" where
  "has_manage (PlApplyUpgrade _) \<longleftrightarrow> False"
| "has_manage (PlInitConfigStorage _ _) \<longleftrightarrow> False"
| "has_manage _ \<longleftrightarrow> True"

fun has_shared :: "shared_op \<Rightarrow> bool" where
  "has_shared (PlManage a) \<longleftrightarrow> has_manage a"
| "has_shared (PlReward (PlSetBoost _ _ _)) \<longleftrightarrow> True"
| "has_shared (PlReward _) \<longleftrightarrow> False"
| "has_shared (PlGauge (PlGaugeSchedule _ _ _ _ _ _)) \<longleftrightarrow> False"
| "has_shared (PlGauge (PlGaugesClaim _)) \<longleftrightarrow> False"
| "has_shared (PlGauge (PlGaugesInfo _)) \<longleftrightarrow> False"
| "has_shared (PlGauge _) \<longleftrightarrow> True"

primrec cl_exec :: "'w host_calls \<Rightarrow> env \<Rightarrow> cl_pool \<Rightarrow> 'w \<Rightarrow> cl_op \<Rightarrow> (cl_pool \<times> 'w) res" where
  "cl_exec x e s w (ClTrade a) = cl_trade_exec x e s w a"
| "cl_exec x e s w (ClOwn a) = cl_own_exec x e s w a"
| "cl_exec x e s w (ClShared a) = (if has_shared a then shared_exec x e s w a else Inl HostPanic)"

inductive cl_run ::
  "'w host_calls \<Rightarrow> (env \<Rightarrow> cl_op \<Rightarrow> cl_pool \<Rightarrow> bool) \<Rightarrow> ('w \<Rightarrow> 'w \<Rightarrow> bool) \<Rightarrow>
   cl_pool \<times> 'w \<Rightarrow> cl_pool \<times> 'w \<Rightarrow> bool"
  for x allow drift p where
  start: "cl_run x allow drift p p"
| call: "cl_run x allow drift p (s, w) \<Longrightarrow> cl_exec x e s w a = Inr (s', w') \<Longrightarrow> allow e a s \<Longrightarrow>
    cl_run x allow drift p (s', w')"
| world: "cl_run x allow drift p (s, w) \<Longrightarrow> drift w w' \<Longrightarrow> cl_run x allow drift p (s, w')"

lemma cl_run_one:
  "cl_exec x e s w a = Inr (s', w') \<Longrightarrow> allow e a s \<Longrightarrow> cl_run x allow drift (s, w) (s', w')"
  by (rule cl_run.call [OF cl_run.start])

section \<open>The books\<close>

definition cl_books :: "cl_pool \<Rightarrow> cl_config option \<times> (nat \<times> nat) \<times> nat \<times> nat" where
  "cl_books s = (cl_config s, cl_reserves s, cl_protocol_fees s)"

definition side :: "bool \<Rightarrow> 'a \<times> 'a \<Rightarrow> 'a" where
  \<comment> \<open>the entry of the first or of the second token\<close>
  "side b p = (if b then fst p else snd p)"

definition side_token :: "bool \<Rightarrow> cl_config \<Rightarrow> address" where
  "side_token b cf = side b (cf_token0 cf, cf_token1 cf)"

lemma side_simps [simp]: "side True p = fst p" "side False p = snd p"
  "side_token True cf = cf_token0 cf" "side_token False cf = cf_token1 cf"
  by (simp_all add: side_def side_token_def)

lemma cl_books_fields [simp]:
  "cl_books (s\<lparr>cl_slot0 := a\<rparr>) = cl_books s" "cl_books (s\<lparr>cl_liquidity := n\<rparr>) = cl_books s"
  "cl_books (s\<lparr>cl_fee_growth := g\<rparr>) = cl_books s" "cl_books (s\<lparr>cl_total_raw := n\<rparr>) = cl_books s"
  "cl_books (s\<lparr>cl_total_weighted := n\<rparr>) = cl_books s" "cl_books (s\<lparr>cl_full_range := n\<rparr>) = cl_books s"
  "cl_books (s\<lparr>cl_ticks := t\<rparr>) = cl_books s" "cl_books (s\<lparr>cl_positions := p\<rparr>) = cl_books s"
  "cl_books (s\<lparr>cl_users := u\<rparr>) = cl_books s" "cl_books (s\<lparr>pl_rewards := r\<rparr>) = cl_books s"
  "cl_books (s\<lparr>pl_managed := m\<rparr>) = cl_books s" "cl_books (s\<lparr>pl_gauges := gs\<rparr>) = cl_books s"
  "cl_books (s\<lparr>pl_plane := a'\<rparr>) = cl_books s" "cl_books (s\<lparr>pl_protocol_fee_fraction := n\<rparr>) = cl_books s"
  "cl_books (new_manager s) = cl_books s"
  by (simp_all add: cl_books_def new_manager_def)

lemma cl_books_put [simp]:
  "cl_books (s\<lparr>cl_reserves := r\<rparr>) = (cl_config s, r, cl_protocol_fees s)"
  "cl_books (s\<lparr>cl_protocol_fees := r\<rparr>) = (cl_config s, cl_reserves s, r)"
  by (simp_all add: cl_books_def)

lemma cl_books_same: "same_books s s' \<Longrightarrow> cl_books s' = cl_books s"
  by (cases s; cases s') (simp add: same_books_def cl_books_def)

lemma cl_booksD:
  assumes "cl_books s' = cl_books s"
  shows "cl_config s' = cl_config s" "cl_reserves s' = cl_reserves s" "cl_protocol_fees s' = cl_protocol_fees s"
  using assms by (simp_all add: cl_books_def)

section \<open>Steps that leave the books alone\<close>

lemma user_steps_books [simp]:
  "cl_books (set_user_state u us s) = cl_books s" "cl_books (set_position u l h p s) = cl_books s"
  "cl_books (remove_position u l h s) = cl_books s" "cl_books (remove_user_range_if_empty u l h s) = cl_books s"
  "cl_books (store_or_drop u l h p s) = cl_books s"
  by (simp_all add: set_user_state_def set_position_def remove_position_def remove_user_range_if_empty_def
      store_or_drop_def Let_def)

lemma recompute_books: "recompute_user_weighted_liquidity u s = Inr s' \<Longrightarrow> cl_books s' = cl_books s"
  by (auto simp: recompute_user_weighted_liquidity_def Let_def res_simps)

lemma raw_books: "update_user_raw_liquidity u d s = Inr s' \<Longrightarrow> cl_books s' = cl_books s"
  by (auto simp: update_user_raw_liquidity_def Let_def res_simps split: if_splits)

lemma tick_change_books: "tick_change t d b s = Inr s' \<Longrightarrow> cl_books s' = cl_books s"
  by (auto simp: tick_change_def res_simps)

lemma first_price_books: "first_price fp l h a b s = Inr s' \<Longrightarrow> cl_books s' = cl_books s"
  by (auto simp: first_price_def res_simps split: if_splits)

lemma range_books: "ensure_user_range_exists u l h s = Inr s' \<Longrightarrow> cl_books s' = cl_books s"
  by (auto simp: ensure_user_range_exists_def Let_def split: if_splits)

lemma grow_books: "grow_position fp u l h n s = Inr s' \<Longrightarrow> cl_books s' = cl_books s"
  by (auto simp: grow_position_def res_simps dest!: range_books)

lemma add_liquidity_books: "add_liquidity f l h n s = Inr s' \<Longrightarrow> cl_books s' = cl_books s"
  by (auto simp: add_liquidity_def Let_def split: if_splits)

lemma drop_liquidity_books: "drop_liquidity f l h n s = Inr s' \<Longrightarrow> cl_books s' = cl_books s"
  by (auto simp: drop_liquidity_def res_simps split: if_splits)

lemma gauge_checkpoint_books: "gauge_checkpoint x e u us tot (s, w) = Inr (s', w') \<Longrightarrow> cl_books s' = cl_books s"
  by (rule cl_books_same) (rule gauge_checkpoint_same)

lemma rewards_checkpoint_books:
  "rewards_checkpoint x e u tot us (s, w) = Inr (d, s', w') \<Longrightarrow> cl_books s' = cl_books s \<and> w' = w"
  by (drule rewards_checkpoint_InrD) auto

lemma rewards_reweigh_books:
  "rewards_reweigh x e u tot us (s, w) = Inr (s', w') \<Longrightarrow> cl_books s' = cl_books s \<and> w' = w"
  by (drule rewards_reweigh_InrD) auto

lemma cl_with_rewards_books: "cl_with_rewards x e f (s, w) = Inr (v, s') \<Longrightarrow> cl_books s' = cl_books s"
  by (auto simp: cl_with_rewards_def res_simps)

lemma working_pair_books: "working_pair u us tot s = (b, n, s') \<Longrightarrow> cl_books s' = cl_books s"
  by (auto simp: working_pair_def Let_def split: prod.splits)

text \<open>Steps that also checkpoint the gauges change the world by exactly these checkpoints.\<close>

lemma checkpoint_user_books:
  assumes "rewards_checkpoint_user x e u (s, w) = Inr (d, s', w')"
  shows "cl_books s' = cl_books s \<and> (\<exists>b p g. gauges_checkpoint_user (cc_gauges x) e u b p g w = Inr w')"
proof -
  from assms obtain s1 w1 n m where g: "gauge_checkpoint x e u m n (new_manager s, w) = Inr (s1, w1)"
    and r: "rewards_checkpoint x e u n m (s1, w1) = Inr (d, s', w')"
    by (auto simp: rewards_checkpoint_user_def Let_def res_simps)
  show ?thesis
    using gauge_checkpoint_InrD [OF g] gauge_checkpoint_books [OF g] rewards_checkpoint_books [OF r] by auto
qed

lemma before_change_books:
  assumes "before_change x e u (s, w) = Inr (s', w')"
  shows "cl_books s' = cl_books s \<and> (\<exists>b p g. gauges_checkpoint_user (cc_gauges x) e u b p g w = Inr w')"
proof -
  from assms obtain s1 d where "recompute_user_weighted_liquidity u s = Inr s1"
    and "rewards_checkpoint_user x e u (s1, w) = Inr (d, s', w')"
    by (auto simp: before_change_def res_simps)
  then show ?thesis using recompute_books checkpoint_user_books by metis
qed

lemma settle_weight_books:
  assumes "settle_weight x e u d (s, w) = Inr (s', w')"
  shows "cl_books s' = cl_books s \<and> (\<exists>b p g. gauges_checkpoint_user (cc_gauges x) e u b p g w = Inr w')"
proof -
  from assms obtain s1 s2 s3 n m w1 where "update_user_raw_liquidity u d s = Inr s1"
    "recompute_user_weighted_liquidity u s1 = Inr s2"
    and g: "gauge_checkpoint x e u m n (new_manager s2, w) = Inr (s3, w1)"
    and r: "rewards_reweigh x e u n m (s3, w1) = Inr (s', w')"
    by (auto simp: settle_weight_def rewards_refresh_working_balance_def Let_def res_simps)
  then show ?thesis
    using gauge_checkpoint_InrD [OF g] gauge_checkpoint_books [OF g] rewards_reweigh_books [OF r]
    by (auto simp: raw_books recompute_books)
qed

end
