(* ===== verification/CL_Sqrt.thy ===== *)
theory CL_Sqrt
  imports CL_Math
begin

text \<open>
  The price at a tick: \<open>sqrt_ratio_at_tick\<close> is total on the ticks from \<open>MIN_TICK\<close> to
  \<open>MAX_TICK\<close>, and its values lie between the price at the one and at the other, the constants
  \<open>MIN_SQRT_RATIO\<close> and \<open>MAX_SQRT_RATIO\<close>, and do not fall as the tick grows. From \<open>t\<close> to
  \<open>t + 1\<close> a carry replaces the multipliers of the low bits \<open>0, ..., k - 1\<close> by that of bit \<open>k\<close>,
  which is not above their product: twenty comparisons decide it, the floors included.
\<close>

section \<open>The product\<close>

definition ratio_step :: "(nat \<Rightarrow> bool) \<Rightarrow> nat \<times> nat \<Rightarrow> nat \<Rightarrow> nat" where
  "ratio_step S = (\<lambda>(i, m) r. if S i then r * m div Q128 else r)"

definition ratio_of :: "(nat \<Rightarrow> bool) \<Rightarrow> nat" where
  "ratio_of S = fold (ratio_step S) (enumerate 0 TICK_MULTIPLIERS) Q128"

lemma ratio_step_le: "m \<le> Q128 \<Longrightarrow> ratio_step S (i, m) r \<le> r"
proof -
  assume "m \<le> Q128"
  then have "r * m div Q128 \<le> r * Q128 div Q128" by (intro div_le_mono mult_le_mono2)
  also have "\<dots> = r" by (simp add: Q128_def)
  finally show ?thesis by (simp add: ratio_step_def)
qed

lemma ratio_step_mono:
  assumes "r \<le> r'" and "m \<le> Q128" and "\<And>n. S' n \<Longrightarrow> S n"
  shows "ratio_step S (i, m) r \<le> ratio_step S' (i, m) r'"
proof (cases "S' i")
  case True
  with assms show ?thesis by (simp add: ratio_step_def div_le_mono)
next
  case False
  then have "ratio_step S' (i, m) r' = r'" by (simp add: ratio_step_def)
  with ratio_step_le [OF assms(2), of S i r] assms(1) show ?thesis by simp
qed

lemma fold_ratio_mono:
  assumes "r \<le> r'" and "\<And>i m. (i, m) \<in> set ms \<Longrightarrow> m \<le> Q128" and "\<And>n. S' n \<Longrightarrow> S n"
  shows "fold (ratio_step S) ms r \<le> fold (ratio_step S') ms r'"
  using assms
proof (induction ms arbitrary: r r')
  case Nil
  then show ?case by simp
next
  case (Cons im ms)
  obtain i m where im: "im = (i, m)" by (cases im)
  have "m \<le> Q128" by (rule Cons.prems(2) [of i m]) (simp add: im)
  then have "ratio_step S (i, m) r \<le> ratio_step S' (i, m) r'"
    using Cons.prems(1,3) by (intro ratio_step_mono) simp_all
  then have "fold (ratio_step S) ms (ratio_step S (i, m) r) \<le> fold (ratio_step S') ms (ratio_step S' (i, m) r')"
    by (rule Cons.IH) (use Cons.prems(2,3) in \<open>auto intro: list.set_intros(2)\<close>)
  then show ?case by (simp add: im)
qed

lemma multipliers_small: "(i, m) \<in> set (enumerate 0 TICK_MULTIPLIERS) \<Longrightarrow> m \<le> Q128"
proof -
  assume "(i, m) \<in> set (enumerate 0 TICK_MULTIPLIERS)"
  then have "m \<in> set TICK_MULTIPLIERS" by (auto simp: in_set_enumerate_eq)
  moreover have "\<forall>m \<in> set TICK_MULTIPLIERS. m \<le> Q128" by (simp add: TICK_MULTIPLIERS_def Q128_def)
  ultimately show ?thesis by blast
qed

lemma ratio_of_mono: "(\<And>n. S' n \<Longrightarrow> S n) \<Longrightarrow> ratio_of S \<le> ratio_of S'"
  unfolding ratio_of_def by (rule fold_ratio_mono) (auto dest: multipliers_small)

lemma ratio_of_le: "ratio_of S \<le> Q128"
proof -
  have "ratio_of S \<le> ratio_of (\<lambda>_. False)" by (rule ratio_of_mono) simp
  also have "\<dots> = Q128" by (simp add: ratio_of_def ratio_step_def TICK_MULTIPLIERS_def)
  finally show ?thesis .
qed

lemma ratio_step_shift: "ratio_step S (i, m) r = (if S i then drop_bit 128 (r * m) else r)"
proof -
  have "Q128 = 2 ^ 128" by (simp add: Q128_def)
  then show ?thesis by (simp only: ratio_step_def prod.case drop_bit_eq_div)
qed

definition times :: "nat list \<Rightarrow> nat \<Rightarrow> nat" where
  \<comment> \<open>multiply by the multipliers with these indices\<close>
  "times is r = fold (\<lambda>i r. drop_bit 128 (r * TICK_MULTIPLIERS ! i)) is r"

lemma times_Nil: "times [] r = r"
  by (simp add: times_def)

lemma times_append: "times (is @ js) r = times js (times is r)"
  by (simp add: times_def)

lemma times_mono: "r \<le> r' \<Longrightarrow> times is r \<le> times is r'"
proof (induction "is" arbitrary: r r')
  case (Cons i "is")
  have "drop_bit 128 (r * TICK_MULTIPLIERS ! i) \<le> drop_bit 128 (r' * TICK_MULTIPLIERS ! i)"
    using Cons.prems by (simp add: drop_bit_eq_div div_le_mono)
  with Cons.IH show ?case by (simp add: times_def)
qed (simp add: times_def)

lemma fold_filter_enumerate:
  "fold (ratio_step S) (enumerate k (drop k TICK_MULTIPLIERS)) r = times (filter S [k ..< 20]) r"
proof (induction "20 - k" arbitrary: k r)
  case 0
  then show ?case by (simp add: times_def TICK_MULTIPLIERS_def)
next
  case (Suc n)
  then have k: "k < 20" by simp
  have "length TICK_MULTIPLIERS = 20" by (simp add: TICK_MULTIPLIERS_def)
  with k have "drop k TICK_MULTIPLIERS = TICK_MULTIPLIERS ! k # drop (Suc k) TICK_MULTIPLIERS"
    by (simp add: Cons_nth_drop_Suc)
  moreover have "[k ..< 20] = k # [Suc k ..< 20]" using k by (simp add: upt_conv_Cons)
  ultimately show ?case
    using Suc.hyps(1) [of "Suc k"] Suc.hyps(2) by (simp add: ratio_step_shift times_def)
qed

lemma ratio_of_times: "ratio_of S = times (filter S [0 ..< 20]) Q128"
  unfolding ratio_of_def using fold_filter_enumerate [of S 0] by simp

text \<open>The products over all indices below \<open>k\<close>, one multiplication at a time.\<close>

definition low_product :: "nat \<Rightarrow> nat" where
  "low_product k = times [0 ..< k] Q128"

lemma low_next: "low_product k = a \<Longrightarrow> j = Suc k \<Longrightarrow> low_product j = drop_bit 128 (a * TICK_MULTIPLIERS ! k)"
  by (simp add: low_product_def times_def)

lemma low_0: "low_product 0 = 340282366920938463463374607431768211456"
  by (simp add: low_product_def times_def Q128_def)

lemma low_1: "low_product 1 = 340265354078544963557816517032075149313"
  using low_next [OF low_0, of 1] by (simp add: TICK_MULTIPLIERS_def)

lemma low_2: "low_product 2 = 340231330945450418515964920540021147198"
  using low_next [OF low_1, of 2] by (simp add: TICK_MULTIPLIERS_def)

lemma low_3: "low_product 3 = 340163294884840501567246455576441303173"
  using low_next [OF low_2, of 3] by (simp add: TICK_MULTIPLIERS_def)

lemma low_4: "low_product 4 = 340027263576413978334042125129128142263"
  using low_next [OF low_3, of 4] by (simp add: TICK_MULTIPLIERS_def)

lemma low_5: "low_product 5 = 339755364134575681238502878529008278326"
  using low_next [OF low_4, of 5] by (simp add: TICK_MULTIPLIERS_def)

lemma low_6: "low_product 6 = 339212217342146842559531600927033253847"
  using low_next [OF low_5, of 6] by (simp add: TICK_MULTIPLIERS_def)

lemma low_7: "low_product 7 = 338128527259088467778511436198880488164"
  using low_next [OF low_6, of 7] by (simp add: TICK_MULTIPLIERS_def)

lemma low_8: "low_product 8 = 335971522311117552149334092109581418674"
  using low_next [OF low_7, of 8] by (simp add: TICK_MULTIPLIERS_def)

lemma low_9: "low_product 9 = 331698704829854243503582989311158516586"
  using low_next [OF low_8, of 9] by (simp add: TICK_MULTIPLIERS_def)

lemma low_10: "low_product 10 = 323315401242583425022802937239550140918"
  using low_next [OF low_9, of 10] by (simp add: TICK_MULTIPLIERS_def)

lemma low_11: "low_product 11 = 307179074178916392659402722612948179612"
  using low_next [OF low_10, of 11] by (simp add: TICK_MULTIPLIERS_def)

lemma low_12: "low_product 12 = 277282266700509388632609933215391170106"
  using low_next [OF low_11, of 12] by (simp add: TICK_MULTIPLIERS_def)

lemma low_13: "low_product 13 = 225934749830749445986089663015556949343"
  using low_next [OF low_12, of 13] by (simp add: TICK_MULTIPLIERS_def)

lemma low_14: "low_product 14 = 150004713758184102711002566140788444796"
  using low_next [OF low_13, of 14] by (simp add: TICK_MULTIPLIERS_def)

lemma low_15: "low_product 15 = 66122407008436832627027740713496573148"
  using low_next [OF low_14, of 15] by (simp add: TICK_MULTIPLIERS_def)

lemma low_16: "low_product 16 = 12848018414553970828728179856918040433"
  using low_next [OF low_15, of 16] by (simp add: TICK_MULTIPLIERS_def)

lemma low_17: "low_product 17 = 485077512873820763967752669154895175"
  using low_next [OF low_16, of 17] by (simp add: TICK_MULTIPLIERS_def)

lemma low_18: "low_product 18 = 691450548841240133896843047535567"
  using low_next [OF low_17, of 18] by (simp add: TICK_MULTIPLIERS_def)

lemma low_19: "low_product 19 = 1404950724947776134837143967"
  using low_next [OF low_18, of 19] by (simp add: TICK_MULTIPLIERS_def)

lemma low_product_ge:
  assumes "k < 20"
  shows "TICK_MULTIPLIERS ! k \<le> low_product k"
proof -
  have upt: "[0 ..< 20] = [0, 1, 2, 3, 4, 5, 6, 7, 8, 9, 10, 11, 12, 13, 14, 15, 16, 17, 18, 19 :: nat]"
    by (simp add: upt_conv_Cons)
  have "\<forall>k \<in> set [0 ..< 20]. TICK_MULTIPLIERS ! k \<le> low_product k"
    unfolding upt list.set ball_simps
      low_0 low_1 low_2 low_3 low_4 low_5 low_6 low_7 low_8 low_9 low_10 low_11 low_12 low_13 low_14 low_15 low_16 low_17 low_18 low_19
    by (simp add: TICK_MULTIPLIERS_def)
  with assms show ?thesis by simp
qed

section \<open>The product falls with the tick\<close>

lemma lowest_zero_bit:
  fixes t :: nat
  assumes "t + 1 < 2 ^ n"
  obtains k where "k < n" and "\<not> bit t k" and "\<And>i. i < k \<Longrightarrow> bit t i"
proof -
  have "\<exists>k < n. \<not> bit t k"
  proof (rule ccontr)
    assume "\<not> (\<exists>k < n. \<not> bit t k)"
    then have "take_bit n t = mask n" by (intro bit_eqI) (auto simp: bit_take_bit_iff bit_mask_iff)
    then have "mask n \<le> t" by (metis take_bit_nat_less_eq_self)
    with assms show False by (simp add: mask_eq_exp_minus_1)
  qed
  then obtain k where k: "k < n" "\<not> bit t k" by blast
  define m where "m = (LEAST k. \<not> bit t k)"
  have "\<not> bit t m" unfolding m_def using k(2) by (rule LeastI)
  moreover have "m \<le> k" unfolding m_def using k(2) by (rule Least_le)
  moreover have "bit t i" if "i < m" for i using that not_less_Least unfolding m_def by blast
  ultimately show ?thesis using that k(1) by (meson le_less_trans)
qed

lemma bits_of_Suc:
  fixes t :: nat
  assumes "\<not> bit t k" and "\<And>i. i < k \<Longrightarrow> bit t i"
  shows "bit (t + 1) i \<longleftrightarrow> i = k \<or> k < i \<and> bit t i"
proof -
  define h where "h = drop_bit (Suc k) t"
  have "take_bit (Suc k) t = mask k"
    using assms by (intro bit_eqI) (auto simp: bit_take_bit_iff bit_mask_iff less_Suc_eq)
  then have t: "t = push_bit (Suc k) h + mask k"
    unfolding h_def using bits_ident [of "Suc k" t] by simp
  then have "t + 1 = push_bit (Suc k) h + push_bit k 1" by (simp add: mask_eq_exp_minus_1)
  also have "\<dots> = push_bit (Suc k) h OR push_bit k 1"
    by (rule disjunctive_add_eq_or)
      (auto intro!: bit_eqI simp: bit_and_iff bit_push_bit_iff bit_1_iff bit_exp_iff simp del: push_bit_of_1 push_bit_Suc)
  finally show ?thesis
    by (auto simp: bit_or_iff bit_push_bit_iff bit_1_iff bit_exp_iff h_def bit_drop_bit_eq Suc_le_eq simp del: push_bit_of_1 push_bit_Suc)
qed

lemma ratio_of_Suc:
  fixes t :: nat
  assumes "t + 1 < 2 ^ 20"
  shows "ratio_of (bit (t + 1)) \<le> ratio_of (bit t)"
proof -
  obtain k where k: "k < 20" "\<not> bit t k" "\<And>i. i < k \<Longrightarrow> bit t i"
    using lowest_zero_bit [OF assms] by blast
  note b = bits_of_Suc [OF k(2,3)]
  define high where "high = filter (bit t) [Suc k ..< 20]"
  have split: "[0 ..< 20] = [0 ..< k] @ k # [Suc k ..< 20]"
    using k(1) by (metis upt_conv_Cons upt_add_eq_append le0 less_imp_add_positive add_0)
  have low: "filter (bit t) [0 ..< k] = [0 ..< k]" "filter (bit (t + 1)) [0 ..< k] = []"
    using k(3) b by (auto simp: filter_id_conv filter_empty_conv)
  have up: "filter (bit (t + 1)) [Suc k ..< 20] = high"
    unfolding high_def by (rule filter_cong) (use b in auto)
  have "filter (bit t) [0 ..< 20] = [0 ..< k] @ high"
    using k(2) low(1) by (simp add: split high_def)
  moreover have "filter (bit (t + 1)) [0 ..< 20] = [k] @ high"
    using b [of k] low(2) up by (simp add: split)
  ultimately have r: "ratio_of (bit t) = times high (low_product k)"
    "ratio_of (bit (t + 1)) = times high (times [k] Q128)"
    by (simp_all only: ratio_of_times times_append low_product_def)
  have "times [k] Q128 = TICK_MULTIPLIERS ! k"
  proof -
    have "Q128 = 2 ^ 128" by (simp add: Q128_def)
    then show ?thesis by (simp only: times_def fold_simps drop_bit_eq_div) simp
  qed
  then have "times [k] Q128 \<le> low_product k" using low_product_ge [OF k(1)] by simp
  then show ?thesis unfolding r by (rule times_mono)
qed

lemma ratio_of_antimono:
  fixes s t :: nat
  assumes "s \<le> t" and "t < 2 ^ 20"
  shows "ratio_of (bit t) \<le> ratio_of (bit s)"
  using assms
proof (induction t rule: dec_induct)
  case base
  then show ?case by simp
next
  case (step n)
  then show ?case using ratio_of_Suc [of n] by simp
qed

definition MIN_RATIO :: nat where
  \<comment> \<open>the product at the largest tick\<close>
  "MIN_RATIO = ratio_of (bit (887272 :: nat))"

lemma MIN_RATIO_eq: "MIN_RATIO = 18447437462383981825"
  by (simp add: MIN_RATIO_def ratio_of_times times_def TICK_MULTIPLIERS_def Q128_def upt_conv_Cons bit_0)


lemma ratio_bound:
  fixes t :: nat
  assumes "t \<le> 887272"
  shows "MIN_RATIO \<le> ratio_of (bit t)"
  unfolding MIN_RATIO_def using assms by (intro ratio_of_antimono) simp_all

section \<open>The price\<close>

lemma mul_shift_eq:
  assumes "fixed_point_lib fp" and "r \<le> Q128" and "m \<le> U128_MAX"
  shows "u256_mul_shift_128 fp r m = Inr (r * m div Q128)"
proof -
  have "r * m \<le> Q128 * U128_MAX" using assms by (intro mult_le_mono)
  also have "\<dots> \<le> U256_MAX" by (simp add: Q128_def max_defs)
  finally show ?thesis
    unfolding u256_mul_shift_128_def
    by (intro fixed_point_lib.mul_floor_256_ok [OF assms(1)]) (simp_all add: Q128_def)
qed

lemma product_eq:
  assumes "fixed_point_lib fp" and "r \<le> Q128" and "\<And>i m. (i, m) \<in> set ms \<Longrightarrow> m \<le> U128_MAX"
  shows "fold_res (\<lambda>(i, mul) ratio. if bit (n :: nat) i then u256_mul_shift_128 fp ratio mul else Inr ratio) ms r =
    Inr (fold (ratio_step (bit n)) ms r)"
  using assms(2,3)
proof (induction ms arbitrary: r)
  case Nil
  then show ?case by simp
next
  case (Cons im ms)
  obtain i m where im: "im = (i, m)" by (cases im)
  have m: "m \<le> U128_MAX" by (rule Cons.prems(2) [of i m]) (simp add: im)
  then have "ratio_step (bit n) (i, m) r \<le> Q128"
    using Cons.prems(1) ratio_step_le [of m "bit n" i r] by (simp add: U128_MAX_def Q128_def)
  then have "fold_res (\<lambda>(i, mul) ratio. if bit n i then u256_mul_shift_128 fp ratio mul else Inr ratio) ms
      (ratio_step (bit n) (i, m) r) = Inr (fold (ratio_step (bit n)) ms (ratio_step (bit n) (i, m) r))"
    by (rule Cons.IH) (use Cons.prems(2) in \<open>auto intro: list.set_intros(2)\<close>)
  moreover have "(if bit n i then u256_mul_shift_128 fp r m else Inr r) = Inr (ratio_step (bit n) (i, m) r)"
    by (simp add: ratio_step_def mul_shift_eq [OF assms(1) Cons.prems(1) m])
  ultimately show ?case by (simp only: im fold_res.simps prod.case andthen_simps fold_simps)
qed

lemma sqrt_ratio_at_tick_eq:
  assumes "fixed_point_lib fp" and "MIN_TICK \<le> t" and "t \<le> MAX_TICK"
  defines "r \<equiv> ratio_of (bit (nat \<bar>t\<bar>))"
  shows "sqrt_ratio_at_tick fp t = Inr (ceil_div (if 0 < t then U256_MAX div r else r) (2 ^ 32))"
proof -
  have small: "\<And>i m. (i, m) \<in> set (enumerate 0 TICK_MULTIPLIERS) \<Longrightarrow> m \<le> U128_MAX"
  proof -
    fix i m assume "(i, m) \<in> set (enumerate 0 TICK_MULTIPLIERS)"
    then have "m \<in> set TICK_MULTIPLIERS" by (auto simp: in_set_enumerate_eq)
    moreover have "\<forall>m \<in> set TICK_MULTIPLIERS. m \<le> U128_MAX" by (simp add: TICK_MULTIPLIERS_def U128_MAX_def)
    ultimately show "m \<le> U128_MAX" by blast
  qed
  have r: "MIN_RATIO \<le> r" "r \<le> Q128"
    using assms(2,3) ratio_bound ratio_of_le by (auto simp: r_def tick_defs)
  have pos: "0 < r" using r by (simp add: MIN_RATIO_eq)
  define y where "y = (if 0 < t then U256_MAX div r else r)"
  have y: "y \<le> U256_MAX" using r by (auto simp: y_def Q128_def U256_MAX_def intro: order_trans [OF div_le_dividend])
  have fit: "u256_shr y 32 = y div 2 ^ 32" by (simp add: u256_shr_def)
  have c: "y div 2 ^ 32 + 1 \<le> U256_MAX"
  proof -
    have "y div 2 ^ 32 \<le> U256_MAX div 2 ^ 32" using y by (rule div_le_mono)
    also have "\<dots> + 1 \<le> U256_MAX" by (simp add: U256_MAX_def)
    finally show ?thesis by simp
  qed
  have inv: "(if 0 < t then u_div U256_MAX r else Inr r) = Inr y"
    using pos by (simp add: y_def u_div_def)
  have p: "fold_res (\<lambda>(i, mul) ratio. if bit (nat \<bar>t\<bar>) i then u256_mul_shift_128 fp ratio mul else Inr ratio)
      (enumerate 0 TICK_MULTIPLIERS) Q128 = Inr r"
    unfolding r_def ratio_of_def by (rule product_eq [OF assms(1) order_refl small])
  show ?thesis
    unfolding y_def [symmetric]
    using assms(2,3) c by (simp add: sqrt_ratio_at_tick_def p inv Let_def fit ceil_div_def u_add_def)
qed


lemma ratio_ends:
  shows "ceil_div 18447437462383981825 (2 ^ 32) = MIN_SQRT_RATIO"
    and "ceil_div (U256_MAX div 18447437462383981825) (2 ^ 32) = MAX_SQRT_RATIO"
  by (simp_all add: ceil_div_def MIN_SQRT_RATIO_def MAX_SQRT_RATIO_def U256_MAX_def)

lemma ratio_at_ends:
  assumes "fixed_point_lib fp"
  shows "sqrt_ratio_at_tick fp MIN_TICK = Inr MIN_SQRT_RATIO"
    and "sqrt_ratio_at_tick fp MAX_TICK = Inr MAX_SQRT_RATIO"
proof -
  have "nat \<bar>MIN_TICK\<bar> = 887272" "nat \<bar>MAX_TICK\<bar> = 887272" by (simp_all add: tick_defs)
  then have r: "ratio_of (bit (nat \<bar>MIN_TICK\<bar>)) = 18447437462383981825"
    "ratio_of (bit (nat \<bar>MAX_TICK\<bar>)) = 18447437462383981825"
    using MIN_RATIO_eq by (simp_all add: MIN_RATIO_def)
  show "sqrt_ratio_at_tick fp MIN_TICK = Inr MIN_SQRT_RATIO"
    by (subst sqrt_ratio_at_tick_eq [OF assms])
      (simp_all only: r, simp_all add: tick_defs MIN_SQRT_RATIO_def ceil_div_def)
  show "sqrt_ratio_at_tick fp MAX_TICK = Inr MAX_SQRT_RATIO"
    by (subst sqrt_ratio_at_tick_eq [OF assms])
      (simp_all only: r, simp_all add: tick_defs MAX_SQRT_RATIO_def ceil_div_def U256_MAX_def)
qed

lemma sqrt_ratio_bounds:
  assumes "fixed_point_lib fp" and "MIN_TICK \<le> t" and "t \<le> MAX_TICK"
  shows "\<exists>p. sqrt_ratio_at_tick fp t = Inr p \<and> MIN_SQRT_RATIO \<le> p \<and> p \<le> MAX_SQRT_RATIO"
proof -
  define r where "r = ratio_of (bit (nat \<bar>t\<bar>))"
  have r: "18447437462383981825 \<le> r" "r \<le> Q128"
    using assms(2,3) ratio_bound [of "nat \<bar>t\<bar>"] ratio_of_le by (auto simp: r_def tick_defs MIN_RATIO_eq)
  define y where "y = (if 0 < t then U256_MAX div r else r)"
  have "18447437462383981825 \<le> U256_MAX div r"
  proof -
    have "U256_MAX div Q128 \<le> U256_MAX div r" using r by (intro div_le_mono2) simp_all
    then show ?thesis by (simp add: U256_MAX_def Q128_def)
  qed
  moreover have "U256_MAX div r \<le> U256_MAX div 18447437462383981825" using r by (intro div_le_mono2) simp_all
  ultimately have y: "18447437462383981825 \<le> y" "y \<le> U256_MAX div 18447437462383981825"
    using r by (auto simp: y_def Q128_def U256_MAX_def)
  have "ceil_div 18447437462383981825 (2 ^ 32) \<le> ceil_div y (2 ^ 32)"
    and "ceil_div y (2 ^ 32) \<le> ceil_div (U256_MAX div 18447437462383981825) (2 ^ 32)"
    using y by (simp_all add: ceil_div_mono del: power_numeral)
  then have "MIN_SQRT_RATIO \<le> ceil_div y (2 ^ 32) \<and> ceil_div y (2 ^ 32) \<le> MAX_SQRT_RATIO"
    unfolding ratio_ends by blast
  moreover have "sqrt_ratio_at_tick fp t = Inr (ceil_div y (2 ^ 32))"
    unfolding y_def r_def by (rule sqrt_ratio_at_tick_eq [OF assms])
  ultimately show ?thesis by blast
qed


lemma ratio_of_positive:
  fixes t :: nat
  assumes "0 < t" and "t \<le> 887272"
  shows "Q128 \<le> U256_MAX div ratio_of (bit t)"
proof -
  have "ratio_of (bit t) \<le> ratio_of (bit (1 :: nat))" using assms by (intro ratio_of_antimono) simp_all
  also have "\<dots> = 340265354078544963557816517032075149313"
    by (simp add: ratio_of_times times_def TICK_MULTIPLIERS_def Q128_def upt_conv_Cons bit_1_iff bit_0)
  finally have "U256_MAX div 340265354078544963557816517032075149313 \<le> U256_MAX div ratio_of (bit t)"
    using ratio_bound [OF assms(2)] by (intro div_le_mono2) (simp_all add: MIN_RATIO_eq)
  then show ?thesis by (simp add: U256_MAX_def Q128_def)
qed

lemma sqrt_ratio_mono:
  assumes fp: "fixed_point_lib fp" and "s \<le> t" and s: "MIN_TICK \<le> s" and t: "t \<le> MAX_TICK"
    and "sqrt_ratio_at_tick fp s = Inr p" and "sqrt_ratio_at_tick fp t = Inr q"
  shows "p \<le> q"
proof -
  define a b where "a = ratio_of (bit (nat \<bar>s\<bar>))" and "b = ratio_of (bit (nat \<bar>t\<bar>))"
  have p: "p = ceil_div (if 0 < s then U256_MAX div a else a) (2 ^ 32)"
    using sqrt_ratio_at_tick_eq [OF fp s] assms unfolding a_def by simp
  have q: "q = ceil_div (if 0 < t then U256_MAX div b else b) (2 ^ 32)"
    using sqrt_ratio_at_tick_eq [OF fp _ t] assms unfolding b_def by simp
  have small: "nat \<bar>s\<bar> \<le> 887272" "nat \<bar>t\<bar> \<le> 887272"
    using assms(2) s t unfolding tick_defs by linarith+
  have "(if 0 < s then U256_MAX div a else a) \<le> (if 0 < t then U256_MAX div b else b)"
  proof (cases "0 < s")
    case True
    then have "b \<le> a" unfolding a_def b_def using assms(2) small by (intro ratio_of_antimono) simp_all
    moreover have "0 < b" using ratio_bound [OF small(2)] by (simp add: b_def MIN_RATIO_eq)
    ultimately show ?thesis using True assms(2) by (simp add: div_le_mono2)
  next
    case False
    show ?thesis
    proof (cases "0 < t")
      case True
      have "a \<le> Q128" unfolding a_def by (rule ratio_of_le)
      with ratio_of_positive [of "nat \<bar>t\<bar>"] small True False show ?thesis by (simp add: b_def)
    next
      case nonpos: False
      then have "a \<le> b" unfolding a_def b_def using assms(2) small by (intro ratio_of_antimono) simp_all
      with False nonpos show ?thesis by simp
    qed
  qed
  then show ?thesis unfolding p q by (rule ceil_div_mono) simp
qed

end
