(* ===== verification/CL_Price.thy ===== *)
theory CL_Price
  imports CL_Math
begin

text \<open>
  What the price arithmetic of \<open>CL_Math\<close> computes: the wrapping operations are addition and
  subtraction modulo \<open>2\<^sup>2\<^sup>5\<^sup>6\<close>, \<open>widening_mul\<close> is the exact product, an amount between two prices is
  the rounded exact amount, and a price reached by an amount is rounded so that moving there takes
  no more than that amount in and gives no less than that amount out.
\<close>

section \<open>Wrapping and widening\<close>

lemma wrapping_add_u256_eq:
  assumes "a < 2 ^ 256" and "b < 2 ^ 256"
  shows "wrapping_add_u256 a b = Inr ((a + b) mod 2 ^ 256)"
proof -
  have "wrapping_add_u256 a b = andthen (wrapping_add a b) (\<lambda>r. Inr (fst r))"
    by (simp add: wrapping_add_u256_def wrapping_add_def andthen_assoc u_defs)
  then show ?thesis by (simp only: wrapping_add_eq [OF assms] andthen_simps fst_conv)
qed

lemma wrapping_sub_u256_eq:
  assumes "a < 2 ^ 256" and "b < 2 ^ 256"
  shows "wrapping_sub_u256 a b = Inr (nat ((int a - int b) mod 2 ^ 256))"
proof -
  obtain M :: nat where M: "2 ^ 256 = M" "U256_MAX = M - 1" "0 < M"
    by (simp add: U256_MAX_def)
  have M': "(2 :: int) ^ 256 = int M" unfolding M(1) [symmetric] by simp
  note ab = assms [unfolded M(1)]
  have "nat ((int a - int b) mod int M) = (if b \<le> a then a - b else M - b + a)"
  proof (cases "b \<le> a")
    case True
    then have "(int a - int b) mod int M = int ((a - b) mod M)" by (simp add: zmod_int of_nat_diff)
    then show ?thesis using True ab by simp
  next
    case False
    then have "(int a - int b) mod int M = (int a - int b + int M) mod int M" by simp
    also have "int a - int b + int M = int (M - b + a)" using False ab by simp
    finally have "(int a - int b) mod int M = int ((M - b + a) mod M)" by (simp only: zmod_int)
    then show ?thesis using False ab by simp
  qed
  then show ?thesis
    unfolding M' wrapping_sub_u256_def u_defs M(2) using ab M(3) by auto
qed

lemma wrapping_sub_less: "wrapping_sub_u256 a b = Inr c \<Longrightarrow> a < 2 ^ 256 \<Longrightarrow> b < 2 ^ 256 \<Longrightarrow> c < 2 ^ 256"
  by (auto simp: wrapping_sub_u256_eq nat_less_iff)

lemma wrapping_add_less: "wrapping_add_u256 a b = Inr c \<Longrightarrow> a < 2 ^ 256 \<Longrightarrow> b < 2 ^ 256 \<Longrightarrow> c < 2 ^ 256"
  by (auto simp: wrapping_add_u256_eq)

lemma wrapping_add_sub:
  assumes "a < 2 ^ 256" and "b < 2 ^ 256"
  shows "andthen (wrapping_add_u256 a b) (\<lambda>c. wrapping_sub_u256 c b) = Inr a"
proof -
  have "(int ((a + b) mod 2 ^ 256) - int b) mod 2 ^ 256 = int a mod 2 ^ 256"
    by (simp add: of_nat_mod mod_diff_left_eq)
  also have "\<dots> = int a" using assms(1) by simp
  finally show ?thesis
    using assms by (simp add: wrapping_add_u256_eq wrapping_sub_u256_eq)
qed

lemma mask64: "x AND MASK64 = x mod 2 ^ 64"
proof -
  have "MASK64 = mask 64" by (simp add: MASK64_def mask_eq_exp_minus_1)
  then show ?thesis using take_bit_eq_mask [of 64 x] take_bit_eq_mod [of 64 x] by (simp only:)
qed

lemma or_shift:
  fixes x y :: nat
  assumes "x < 2 ^ k"
  shows "x OR push_bit k y = x + y * 2 ^ k"
proof -
  have "x AND push_bit k y = 0"
  proof (rule bit_eqI)
    fix n
    have "take_bit k x = x" using assms by (simp add: take_bit_nat_eq_self)
    then have "bit x n \<Longrightarrow> n < k" by (metis bit_take_bit_iff)
    then show "bit (x AND push_bit k y) n \<longleftrightarrow> bit 0 n" by (auto simp: bit_simps)
  qed
  from disjunctive_add_eq_or [OF this] show ?thesis by (simp add: push_bit_eq_mult)
qed

lemma half_mul:
  fixes a0 a1 b0 b1 H :: nat
  assumes "a0 < H" "a1 < H" "b0 < H" "b1 < H"
    and mid: "mid = a0 * b0 div H + a0 * b1 mod H + a1 * b0 mod H"
  shows "(a1 * b1 + a0 * b1 div H + a1 * b0 div H + mid div H) * (H * H) + (a0 * b0 mod H + mid mod H * H)
    = (a1 * H + a0) * (b1 * H + b0)"
proof -
  have m: "mid div H * (H * H) + mid mod H * H = mid * H"
    by (metis (no_types) add_mult_distrib div_mult_mod_eq mult.assoc)
  have "(a1 * H + a0) * (b1 * H + b0) = a1 * b1 * (H * H) + a0 * b1 * H + a1 * b0 * H + a0 * b0"
    by (simp add: algebra_simps)
  also have "a0 * b1 * H = a0 * b1 div H * (H * H) + a0 * b1 mod H * H"
    by (metis (no_types) add_mult_distrib div_mult_mod_eq mult.assoc)
  also have "a1 * b0 * H = a1 * b0 div H * (H * H) + a1 * b0 mod H * H"
    by (metis (no_types) add_mult_distrib div_mult_mod_eq mult.assoc)
  also have "a0 * b0 = a0 * b0 div H * H + a0 * b0 mod H"
    by simp
  finally show ?thesis using m unfolding mid by (simp add: algebra_simps)
qed

lemma widening_mul_eq:
  assumes "a < 2 ^ 128" and "b < 2 ^ 128"
  shows "widening_mul a b = Inr (a * b div 2 ^ 128, a * b mod 2 ^ 128)"
proof -
  define H :: nat where "H = 2 ^ 64"
  have HH: "2 ^ 128 = H * H" by (simp add: H_def)
  define a0 a1 b0 b1 where "a0 = a mod H" and "a1 = a div H" and "b0 = b mod H" and "b1 = b div H"
  have small: "a0 < H" "a1 < H" "b0 < H" "b1 < H"
    using assms by (simp_all add: a0_def a1_def b0_def b1_def H_def)
  have prod: "x * y < H * H" if "x < H" and "y < H" for x y
    using that by (rule mult_strict_mono') simp_all
  define mid where "mid = a0 * b0 div H + a0 * b1 mod H + a1 * b0 mod H"
  define lo where "lo = a0 * b0 mod H + mid mod H * H"
  define hi where "hi = a1 * b1 + a0 * b1 div H + a1 * b0 div H + mid div H"
  have total: "hi * (H * H) + lo = a * b"
    using half_mul [OF small mid_def] by (simp add: hi_def lo_def a0_def a1_def b0_def b1_def)
  have H: "0 < H" by (simp add: H_def)
  have lo: "lo < H * H"
  proof -
    have "mid mod H \<le> H - 1" and "a0 * b0 mod H < H"
      using mod_less_divisor [OF H, of mid] mod_less_divisor [OF H, of "a0 * b0"] by linarith+
    then have "mid mod H * H \<le> (H - 1) * H" by (intro mult_le_mono1)
    with \<open>a0 * b0 mod H < H\<close> have "lo < (H - 1) * H + H" unfolding lo_def by linarith
    then show ?thesis using H by (simp add: diff_mult_distrib)
  qed
  have "a * b < H * H * (H * H)"
    using assms unfolding HH by (intro mult_strict_mono') simp_all
  with total have "hi * (H * H) < H * H * (H * H)" by linarith
  then have hi: "hi < H * H" by simp
  have "a0 * b0 div H < H" using prod [OF small(1,3)] by (simp add: less_mult_imp_div_less)
  then have mid3: "mid < 3 * H"
    using mod_less_divisor [OF H, of "a0 * b1"] mod_less_divisor [OF H, of "a1 * b0"]
    unfolding mid_def by linarith
  have mul: "u128_mul x y = Inr (x * y)" if "x < H" and "y < H" for x y
    using prod [OF that] by (simp only: u_mul_def le_U128_MAX_iff HH if_True)
  have add: "u128_add x y = Inr (x + y)" if "x + y < H * H" for x y
    using that by (simp only: u_add_def le_U128_MAX_iff HH if_True)
  have halves: "a AND MASK64 = a0" "b AND MASK64 = b0" "drop_bit 64 a = a1" "drop_bit 64 b = b1"
    by (simp_all only: mask64 drop_bit_eq_div a0_def a1_def b0_def b1_def H_def)
  have mask: "x AND MASK64 = x mod H" "drop_bit 64 x = x div H" for x
    by (simp_all only: mask64 drop_bit_eq_div H_def)
  have H3: "3 * H < H * H" by (simp add: H_def)
  have mids: "u128_add (a0 * b0 div H) (a0 * b1 mod H) = Inr (a0 * b0 div H + a0 * b1 mod H)"
    "u128_add (a0 * b0 div H + a0 * b1 mod H) (a1 * b0 mod H) = Inr mid"
    using mid3 H3 unfolding mid_def by (intro add; linarith)+
  have his: "u128_add (a1 * b1) (a0 * b1 div H) = Inr (a1 * b1 + a0 * b1 div H)"
    "u128_add (a1 * b1 + a0 * b1 div H) (a1 * b0 div H) = Inr (a1 * b1 + a0 * b1 div H + a1 * b0 div H)"
    "u128_add (a1 * b1 + a0 * b1 div H + a1 * b0 div H) (mid div H) = Inr hi"
    using hi unfolding hi_def by (intro add; linarith)+
  have lo_or: "a0 * b0 mod H OR push_bit 64 (mid mod H) = lo"
    using or_shift [of "a0 * b0 mod H" 64 "mid mod H"] mod_less_divisor [OF H, of "a0 * b0"]
    by (simp add: lo_def H_def)
  have "widening_mul a b = Inr (hi, lo)"
    unfolding widening_mul_def Let_def halves
    by (simp only: mul small andthen_simps mask mids his lo_or)
  moreover have "hi = a * b div (H * H)" and "lo = a * b mod (H * H)"
    using div_mult_self3 [of "H * H" hi lo] lo H unfolding total [symmetric] by simp_all
  ultimately show ?thesis by (simp only: HH)
qed

section \<open>Amounts\<close>

text \<open>
  The prices a pool holds lie between \<open>MIN_SQRT_RATIO\<close> and \<open>MAX_SQRT_RATIO\<close>; all that the
  arithmetic needs is that they are positive and below \<open>2\<^sup>1\<^sup>6\<^sup>0\<close>.
\<close>

definition price_ok :: "nat \<Rightarrow> bool" where
  "price_ok p \<longleftrightarrow> 0 < p \<and> p < 2 ^ 160"

lemma price_fits: "price_ok p \<Longrightarrow> p \<le> U256_MAX"
  by (simp add: price_ok_def U256_MAX_def)

lemma sqrt_bounds_ok:
  "MIN_SQRT_RATIO \<le> p \<Longrightarrow> p \<le> MAX_SQRT_RATIO \<Longrightarrow> price_ok p"
  by (simp add: price_ok_def MIN_SQRT_RATIO_def MAX_SQRT_RATIO_def)

lemma Q96_pos: "0 < Q96" and Q96_pow: "Q96 = 2 ^ 96" and Q96_fits: "Q96 \<le> U256_MAX"
  by (simp_all add: Q96_def U256_MAX_def)

lemma liquidity_scaled: "l \<le> U128_MAX \<Longrightarrow> l * Q96 < 2 ^ 224"
  by (simp add: Q96_def U128_MAX_def)

lemma liquidity_scaled_fits: "l \<le> U128_MAX \<Longrightarrow> l * Q96 \<le> U256_MAX"
  by (simp add: Q96_def U128_MAX_def U256_MAX_def)

definition amount0_between :: "nat \<Rightarrow> nat \<Rightarrow> nat \<Rightarrow> bool \<Rightarrow> nat" where
  \<comment> \<open>\<open>L * 2^96 * (q - p) / q / p\<close>, rounded twice in the same direction\<close>
  "amount0_between p q l up =
     (if up then ceil_div (ceil_div (l * Q96 * (q - p)) q) p else l * Q96 * (q - p) div q div p)"

definition amount1_between :: "nat \<Rightarrow> nat \<Rightarrow> nat \<Rightarrow> bool \<Rightarrow> nat" where
  "amount1_between p q l up = (if up then ceil_div (l * (q - p)) Q96 else l * (q - p) div Q96)"

lemma mul_div_up_down:
  assumes "mul_div_dom a b d"
  shows "(if up then mul_div_ceil a b d else mul_div_floor a b d) =
    Inr (if up then ceil_div (a * b) d else a * b div d)"
  using u512.mfloor_dom [OF assms] u512.mceil_dom [OF assms] by simp

lemma u256_div_round_up_eq: "d \<noteq> 0 \<Longrightarrow> n \<le> U256_MAX \<Longrightarrow> u256_div_round_up n d = Inr (ceil_div n d)"
proof -
  assume d: "d \<noteq> 0" and n: "n \<le> U256_MAX"
  have "n div d + 1 \<le> U256_MAX" if "n mod d \<noteq> 0"
  proof -
    have "1 < d" using that d by (cases "d = 1") auto
    moreover have "0 < n" using that by (cases n) auto
    ultimately have "n div d < n" by simp
    with n show ?thesis by linarith
  qed
  with d show ?thesis by (auto simp: u256_div_round_up_def u_defs ceil_div_def)
qed

lemma ceil_mult_le: "0 < q \<Longrightarrow> k \<le> q \<Longrightarrow> ceil_div (n * k) q \<le> n"
  by (rule ceil_div_le) simp_all

lemma amount0_delta_u256_eq:
  assumes "0 < p" and "p \<le> q" and "q \<le> U256_MAX" and "l \<le> U128_MAX"
  shows "amount0_delta_u256 p q l up = Inr (Some (amount0_between p q l up))"
    and "amount0_delta_u256 q p l up = Inr (Some (amount0_between p q l up))"
proof -
  note N = liquidity_scaled_fits [OF assms(4)]
  have q: "0 < q" using assms by simp
  have "ceil_div (l * Q96 * (q - p)) q \<le> l * Q96"
    using q by (intro ceil_mult_le) simp_all
  then have c: "ceil_div (l * Q96 * (q - p)) q \<le> U256_MAX" using N by linarith
  then have dom: "mul_div_dom (l * Q96) (q - p) q"
    using N assms q by (simp add: mul_div_dom_def)
  have mm: "min p q = p" "max p q = q" "min q p = p" "max q p = q" using assms(2) by simp_all
  have "amount0_delta_u256 p q l up = Inr (Some (amount0_between p q l up)) \<and>
    amount0_delta_u256 q p l up = Inr (Some (amount0_between p q l up))"
  proof (cases "l = 0")
    case False
    have s: "u_sub q p = Inr (q - p)" and m: "u256_mul l Q96 = Inr (l * Q96)"
      using assms(2) N by (simp_all add: u_defs)
    show ?thesis
      unfolding amount0_delta_u256_def Let_def mm s m andthen_simps mul_div_up_down [OF dom]
      using False assms(1) c by (auto simp: amount0_between_def u256_div_round_up_eq u_div_def)
  qed (auto simp: amount0_delta_u256_def amount0_between_def)
  then show "amount0_delta_u256 p q l up = Inr (Some (amount0_between p q l up))"
    and "amount0_delta_u256 q p l up = Inr (Some (amount0_between p q l up))" by blast+
qed

lemma amount1_delta_u256_eq:
  assumes "p \<le> q" and "q < 2 ^ 160" and "l \<le> U128_MAX"
  shows "amount1_delta_u256 p q l up = Inr (amount1_between p q l up)"
    and "amount1_delta_u256 q p l up = Inr (amount1_between p q l up)"
proof -
  have "ceil_div (l * (q - p)) Q96 \<le> U128_MAX * 2 ^ 64"
  proof (rule ceil_div_le)
    have "l * (q - p) \<le> U128_MAX * 2 ^ 160" using assms by (intro mult_le_mono) simp_all
    then show "l * (q - p) \<le> U128_MAX * 2 ^ 64 * Q96" by (simp add: Q96_def)
  qed (rule Q96_pos)
  also have "\<dots> \<le> U256_MAX" by (simp add: U128_MAX_def U256_MAX_def)
  finally have dom: "mul_div_dom l (q - p) Q96"
    using assms Q96_pos Q96_fits by (simp add: mul_div_dom_def U128_MAX_def U256_MAX_def)
  have mm: "min p q = p" "max p q = q" "min q p = p" "max q p = q" using assms(1) by simp_all
  have s: "u_sub q p = Inr (q - p)" using assms(1) by (simp add: u_defs)
  show "amount1_delta_u256 p q l up = Inr (amount1_between p q l up)"
    and "amount1_delta_u256 q p l up = Inr (amount1_between p q l up)"
    unfolding amount1_delta_u256_def Let_def mm s andthen_simps mul_div_up_down [OF dom]
    by (simp_all add: amount1_between_def)
qed

lemma amount_rounding:
  shows "amount0_between p q l False \<le> amount0_between p q l True"
    and "amount1_between p q l False \<le> amount1_between p q l True"
proof -
  have "n div q div p \<le> ceil_div (ceil_div n q) p" for n
    by (rule order_trans [OF div_le_mono [OF div_le_ceil_div] div_le_ceil_div])
  then show "amount0_between p q l False \<le> amount0_between p q l True"
    by (simp add: amount0_between_def)
  show "amount1_between p q l False \<le> amount1_between p q l True"
    by (simp add: amount1_between_def div_le_ceil_div)
qed

lemma narrow_or_max: "(case narrow_u128 v of Some a \<Rightarrow> a | None \<Rightarrow> U128_MAX) = min v U128_MAX"
  by (simp add: narrow_u128_def)

lemma amount0_delta_eq:
  assumes "0 < p" and "p \<le> q" and "q \<le> U256_MAX" and "l \<le> U128_MAX"
  shows "amount0_delta p q l up = Inr (min (amount0_between p q l up) U128_MAX)"
    and "amount0_delta q p l up = Inr (min (amount0_between p q l up) U128_MAX)"
    and "try_amount0_delta p q l up = Inr (narrow_u128 (amount0_between p q l up))"
    and "try_amount0_delta q p l up = Inr (narrow_u128 (amount0_between p q l up))"
  by (simp_all only: amount0_delta_def try_amount0_delta_def amount0_delta_u256_eq [OF assms]
      andthen_simps option.case narrow_or_max)

lemma amount1_delta_eq:
  assumes "p \<le> q" and "q < 2 ^ 160" and "l \<le> U128_MAX"
  shows "amount1_delta p q l up = Inr (min (amount1_between p q l up) U128_MAX)"
    and "amount1_delta q p l up = Inr (min (amount1_between p q l up) U128_MAX)"
    and "try_amount1_delta p q l up = Inr (narrow_u128 (amount1_between p q l up))"
    and "try_amount1_delta q p l up = Inr (narrow_u128 (amount1_between p q l up))"
  by (simp_all only: amount1_delta_def try_amount1_delta_def amount1_delta_u256_eq [OF assms]
      andthen_simps narrow_or_max)

section \<open>The price after an amount\<close>

text \<open>
  Token 0 comes in: the price falls to some \<open>r\<close> that the amount pays for, \<open>l * 2^96 * p \<le> r * (l * 2^96 + a * p)\<close>;
  token 1 comes in: it rises by at most \<open>a * 2^96 / l\<close>; and for amounts that leave the pool the
  price moves at least as far as they take it.
\<close>

lemma price_after_amount0_in:
  assumes run: "get_next_sqrt_price_from_amount0 p l a True = Inr r"
    and p: "price_ok p" and l: "0 < l" "l \<le> U128_MAX"
  shows "r \<le> p" and "l * Q96 * p \<le> r * (l * Q96 + a * p)" and "0 < r"
proof -
  define N where "N = l * Q96"
  have N: "0 < N" "N \<le> U256_MAX" using l Q96_pos liquidity_scaled_fits by (simp_all add: N_def)
  have p0: "0 < p" "p \<le> U256_MAX" using p price_fits by (simp_all add: price_ok_def)
  have "r \<le> p \<and> N * p \<le> r * (N + a * p)"
  proof (cases "a = 0")
    case True
    then show ?thesis using run by (simp add: get_next_sqrt_price_from_amount0_def)
  next
    case a: False
    have next_eq: "next_price_add_amount0 p N a = Inr r"
      using run a N by (simp add: get_next_sqrt_price_from_amount0_def u_mul_def N_def)
    show ?thesis
    proof (cases "a \<le> U256_MAX div p")
      case True
      with next_eq p0 have d: "N + a * p \<le> U256_MAX" and c: "mul_div_ceil N p (N + a * p) = Inr r"
        by (auto simp: next_price_add_amount0_def res_simps)
      have "ceil_div (N * p) (N + a * p) \<le> p"
        using N by (intro ceil_div_le) (simp_all add: algebra_simps)
      then have "mul_div_dom N p (N + a * p)" using N p0 d by (simp add: mul_div_dom_def)
      with c have r: "r = ceil_div (N * p) (N + a * p)" using u512.mceil_dom by simp
      show ?thesis
        using \<open>ceil_div (N * p) (N + a * p) \<le> p\<close> ceil_div_mult_ge [of "N + a * p" "N * p"] N
        by (simp add: r)
    next
      case False
      with next_eq p0 have c: "u256_div_round_up N (N div p + a) = Inr r"
        by (auto simp: next_price_add_amount0_def res_simps)
      have d: "0 < N div p + a" using a by simp
      with c N have r: "r = ceil_div N (N div p + a)" by (simp add: u256_div_round_up_eq)
      have ge: "N \<le> r * (N div p + a)" using ceil_div_mult_ge [OF d, of N] by (simp add: r)
      have "N * p \<le> r * (N div p + a) * p" using ge by simp
      also have "\<dots> = r * (N div p * p + a * p)" by (simp add: algebra_simps)
      also have "\<dots> \<le> r * (N + a * p)" by (intro mult_le_mono2 add_le_mono1) simp
      finally have "N * p \<le> r * (N + a * p)" .
      moreover have "N < (N div p + 1) * p" using p0(1) by (simp add: dividend_less_div_times)
      then have "N \<le> p * (N div p + a)"
        using a mult_le_mono2 [of "N div p + 1" "N div p + a" p] by (simp add: mult.commute)
      then have "r \<le> p" unfolding r by (intro ceil_div_le d) 
      ultimately show ?thesis by blast
    qed
  qed
  then show "r \<le> p" and "l * Q96 * p \<le> r * (l * Q96 + a * p)" by (simp_all add: N_def)
  then show "0 < r" using N p0 by (cases r) (simp_all add: N_def)
qed

lemma amount0_paid:
  assumes "l * Q96 * p \<le> r * (l * Q96 + a * p)" and "0 < r" and "r \<le> p"
  shows "amount0_between r p l True \<le> a"
proof -
  have "l * Q96 * (p - r) \<le> (a * r) * p"
    using assms(1,3) by (simp add: algebra_simps diff_mult_distrib2 le_diff_conv)
  then have "ceil_div (l * Q96 * (p - r)) p \<le> a * r"
    using assms by (intro ceil_div_le) simp_all
  then show ?thesis
    using assms(2) unfolding amount0_between_def by (simp add: ceil_div_le)
qed

lemma amount0_paid_above:
  assumes "l * Q96 * p \<le> r * (l * Q96 + a * p)" and "0 < r" and "r \<le> s" and "s \<le> p"
  shows "amount0_between s p l True \<le> a"
proof (rule amount0_paid)
  show "l * Q96 * p \<le> s * (l * Q96 + a * p)"
    using assms(1,3) by (meson mult_le_mono1 order_trans)
qed (use assms in simp_all)

lemma price_after_amount1_in:
  assumes run: "get_next_sqrt_price_from_amount1 p l a True = Inr r"
    and l: "0 < l" "l \<le> U128_MAX" and a: "a \<le> U128_MAX"
  shows "r = p + a * Q96 div l"
proof -
  have "ceil_div (a * Q96) l \<le> a * Q96" using l by (intro ceil_div_le) simp_all
  then have "mul_div_dom a Q96 l"
    using a l liquidity_scaled_fits [OF a] Q96_fits by (simp add: mul_div_dom_def U128_MAX_def U256_MAX_def)
  with run show ?thesis
    using u512.mfloor_dom by (auto simp: get_next_sqrt_price_from_amount1_def res_simps)
qed

lemma amount1_paid:
  assumes "p \<le> r" and "r \<le> p + a * Q96 div l"
  shows "amount1_between p r l True \<le> a"
proof -
  have "l * (r - p) \<le> l * (a * Q96 div l)" using assms by (intro mult_le_mono2) simp
  also have "\<dots> \<le> a * Q96" by (simp add: mult.commute)
  finally show ?thesis unfolding amount1_between_def by (simp add: ceil_div_le Q96_pos)
qed

text \<open>
  Amounts that leave the pool: as long as the amount is at most what lies between the price \<open>p\<close>
  and a target \<open>t\<close>, the price it takes does not pass \<open>t\<close>, and what lies on the way covers it.
\<close>

lemma price_after_amount1_out:
  assumes run: "get_next_sqrt_price_from_amount1 p l a False = Inr r"
    and l: "0 < l" "l \<le> U128_MAX" and a: "a \<le> U128_MAX"
    and t: "t \<le> p" "a \<le> amount1_between t p l False"
  shows "t \<le> r" and "r \<le> p" and "a \<le> amount1_between r p l False"
proof -
  have "ceil_div (a * Q96) l \<le> a * Q96" using l by (intro ceil_div_le) simp_all
  then have "mul_div_dom a Q96 l"
    using a l liquidity_scaled_fits [OF a] Q96_fits by (simp add: mul_div_dom_def U128_MAX_def U256_MAX_def)
  with run have r: "r = p - ceil_div (a * Q96) l" and "ceil_div (a * Q96) l < p"
    using u512.mceil_dom by (auto simp: get_next_sqrt_price_from_amount1_def res_simps not_le)
  have "a * Q96 \<le> l * (p - t)"
    using t(2) Q96_pos by (simp add: amount1_between_def less_eq_div_iff_mult_less_eq)
  then have "ceil_div (a * Q96) l \<le> p - t" using l by (intro ceil_div_le) (simp_all add: mult.commute)
  then show "t \<le> r" and "r \<le> p" using t(1) by (simp_all add: r)
  have "p - r = ceil_div (a * Q96) l" using \<open>ceil_div (a * Q96) l < p\<close> by (simp add: r)
  then have "a * Q96 \<le> l * (p - r)"
    using ceil_div_mult_ge [OF l(1), of "a * Q96"] by (simp add: mult.commute)
  then show "a \<le> amount1_between r p l False"
    using Q96_pos by (simp add: amount1_between_def less_eq_div_iff_mult_less_eq)
qed

lemma price_after_amount0_out:
  assumes run: "get_next_sqrt_price_from_amount0 p l a False = Inr r"
    and p: "price_ok p" and l: "0 < l" "l \<le> U128_MAX"
    and t: "p \<le> t" "price_ok t" "a \<le> amount0_between p t l False"
  shows "r \<le> t" and "p \<le> r" and "a \<le> amount0_between p r l False"
proof -
  define N where "N = l * Q96"
  have N: "0 < N" "N \<le> U256_MAX" using l Q96_pos liquidity_scaled_fits by (simp_all add: N_def)
  have p0: "0 < p" "p \<le> U256_MAX" using p price_fits by (simp_all add: price_ok_def)
  have t0: "0 < t" "t \<le> U256_MAX" using t price_fits by (simp_all add: price_ok_def)
  have "r \<le> t \<and> p \<le> r \<and> a \<le> amount0_between p r l False"
  proof (cases "a = 0")
    case True
    then show ?thesis using run t(1) by (simp add: get_next_sqrt_price_from_amount0_def)
  next
    case a: False
    have "next_price_sub_amount0 p N a = Inr r"
      using run a N by (simp add: get_next_sqrt_price_from_amount0_def u_mul_def N_def)
    with p0 have below: "a * p < N" and c: "mul_div_ceil N p (N - a * p) = Inr r"
      by (auto simp: next_price_sub_amount0_def res_simps split: if_splits)
    have d: "0 < N - a * p" using below by simp
    have "a * p * t \<le> N * (t - p)"
      using t(3) p0(1) t0(1) by (simp add: amount0_between_def less_eq_div_iff_mult_less_eq N_def)
    then have "N * p \<le> t * (N - a * p)"
      using t(1) by (simp add: diff_mult_distrib2 le_diff_conv2 algebra_simps)
    then have rt: "ceil_div (N * p) (N - a * p) \<le> t" using d by (intro ceil_div_le)
    then have "mul_div_dom N p (N - a * p)" using N p0 t0 d by (simp add: mul_div_dom_def)
    with c have r: "r = ceil_div (N * p) (N - a * p)" using u512.mceil_dom by simp
    have ge: "N * p \<le> r * (N - a * p)" using ceil_div_mult_ge [OF d, of "N * p"] by (simp add: r)
    have "r * (N - a * p) \<le> r * N" by simp
    with ge have "N * p \<le> N * r" by (simp only: mult.commute [of N r])
    then have pr: "p \<le> r" using N by (metis mult.commute mult_le_cancel1)
    have r0: "0 < r" using pr p0 by simp
    have "a * p * r \<le> N * (r - p)"
    proof -
      have "a * p \<le> N" using below by simp
      then have "r * (a * p) \<le> r * N" by (rule mult_le_mono2)
      with ge have "N * p + r * (a * p) \<le> r * N" unfolding diff_mult_distrib2 by linarith
      then show ?thesis by (simp add: diff_mult_distrib2 ac_simps)
    qed
    then have "a \<le> amount0_between p r l False"
      using p0(1) r0 by (simp add: amount0_between_def less_eq_div_iff_mult_less_eq N_def)
    with rt pr r show ?thesis by simp
  qed
  then show "r \<le> t" and "p \<le> r" and "a \<le> amount0_between p r l False" by blast+
qed

end
