(* ===== verification/CL_Steps.thy ===== *)
theory CL_Steps
  imports CL_Swap CL_Sqrt CL_Price
begin

text \<open>
  What one step of a swap does, and why the loop ends. An exact-input step never takes more than
  what remains, fee included; a step that stops short of its target uses up what remains. A round
  that goes on has reached the price of the next tick, which lies strictly ahead: downwards the
  tick falls, upwards it grows, and both are bounded.
\<close>

section \<open>One step\<close>

definition ahead :: "bool \<Rightarrow> nat \<Rightarrow> nat \<Rightarrow> bool" where
  \<comment> \<open>the target lies in the direction of the swap\<close>
  "ahead zero_for_one sqrt_current sqrt_target \<longleftrightarrow>
     (if zero_for_one then sqrt_target \<le> sqrt_current else sqrt_current \<le> sqrt_target)"

definition taken :: "bool \<Rightarrow> nat \<Rightarrow> nat \<Rightarrow> nat \<Rightarrow> nat" where
  "taken z p q l = (if z then amount0_between q p l True else amount1_between p q l True)"

definition given :: "bool \<Rightarrow> nat \<Rightarrow> nat \<Rightarrow> nat \<Rightarrow> nat" where
  "given z p q l = (if z then amount1_between q p l False else amount0_between p q l False)"

lemma price_ok_bounds: "price_ok p \<Longrightarrow> 0 < p \<and> p < 2 ^ 160 \<and> p \<le> U256_MAX"
  using price_fits by (simp add: price_ok_def)

lemma step_amounts_eq:
  assumes "price_ok p" and "price_ok q" and "ahead z p q" and "l \<le> U128_MAX"
  shows "step_amounts p q l z = Inr (min (taken z p q l) U128_MAX, min (given z p q l) U128_MAX)"
proof (cases z)
  case True
  with assms have "q \<le> p" by (simp add: ahead_def)
  with assms True price_ok_bounds [of p] price_ok_bounds [of q] show ?thesis
    by (simp add: step_amounts_def taken_def given_def amount0_delta_eq amount1_delta_eq)
next
  case False
  with assms have "p \<le> q" by (simp add: ahead_def)
  with assms False price_ok_bounds [of p] price_ok_bounds [of q] show ?thesis
    by (simp add: step_amounts_def taken_def given_def amount0_delta_eq amount1_delta_eq)
qed

lemma step_price_in_eq:
  assumes "price_ok p" and "price_ok t" and "ahead z p t" and "l \<le> U128_MAX"
  shows "step_price_in p t l a z =
    reach_or_move z t (narrow_u128 (taken z p t l)) a (get_next_sqrt_price_from_input p l a z)"
  using assms price_ok_bounds [of p] price_ok_bounds [of t]
  by (cases z) (simp_all add: step_price_in_def taken_def ahead_def amount0_delta_eq amount1_delta_eq)

lemma step_price_out_eq:
  assumes "price_ok p" and "price_ok t" and "ahead z p t" and "l \<le> U128_MAX"
  shows "step_price_out p t l a z =
    reach_or_move z t (narrow_u128 (given z p t l)) a (get_next_sqrt_price_from_output p l a z)"
  using assms price_ok_bounds [of p] price_ok_bounds [of t]
  by (cases z) (simp_all add: step_price_out_def given_def ahead_def amount0_delta_eq amount1_delta_eq)

lemma reach_or_move_cases:
  assumes "reach_or_move z t (narrow_u128 v) a computed = Inr q"
  obtains "v \<le> a" and "q = t"
  | r where "computed = Inr r" and "a < v \<or> U128_MAX < v" and "q = (if z then max r t else min r t)"
  using assms by (auto simp: reach_or_move_def narrow_u128_def res_simps not_le split: if_splits)

text \<open>The price after an exact input lies between the current price and the target, and costs at most the input.\<close>

lemma step_price_in_cost:
  assumes run: "step_price_in p t l a z = Inr q"
    and p: "price_ok p" and t: "price_ok t" "ahead z p t" and l: "0 < l" "l \<le> U128_MAX" and a: "a \<le> U128_MAX"
  shows "ahead z p q" and "ahead z q t" and "price_ok q" and "taken z p q l \<le> a"
proof -
  from run have "reach_or_move z t (narrow_u128 (taken z p t l)) a (get_next_sqrt_price_from_input p l a z) = Inr q"
    using step_price_in_eq [OF p t l(2)] by simp
  then have "ahead z p q \<and> ahead z q t \<and> price_ok q \<and> taken z p q l \<le> a"
  proof (cases rule: reach_or_move_cases)
    case 1
    with t show ?thesis by (simp add: ahead_def)
  next
    case (2 r)
    show ?thesis
    proof (cases z)
      case True
      with 2 have r: "get_next_sqrt_price_from_amount0 p l a True = Inr r"
        by (simp add: get_next_sqrt_price_from_input_def)
      note b = price_after_amount0_in [OF r p l]
      have "q = max r t" "t \<le> p" using 2 True t by (simp_all add: ahead_def)
      moreover from this have "amount0_between q p l True \<le> a"
        using b by (intro amount0_paid_above [OF b(2,3)]) simp_all
      ultimately show ?thesis using True b p t by (auto simp: ahead_def taken_def price_ok_def)
    next
      case False
      with 2 have "get_next_sqrt_price_from_amount1 p l a True = Inr r"
        by (simp add: get_next_sqrt_price_from_input_def)
      from price_after_amount1_in [OF this l a] have r: "r = p + a * Q96 div l" .
      have "q = min r t" "p \<le> t" using 2 False t by (simp_all add: ahead_def)
      moreover from this r have "amount1_between p q l True \<le> a" by (intro amount1_paid) simp_all
      ultimately show ?thesis using False r p t by (auto simp: ahead_def taken_def price_ok_def)
    qed
  qed
  then show "ahead z p q" "ahead z q t" "price_ok q" "taken z p q l \<le> a" by simp_all
qed

text \<open>The price after an exact output that stops short of the target pays the whole output.\<close>

lemma step_price_out_pays:
  assumes run: "step_price_out p t l a z = Inr q"
    and p: "price_ok p" and t: "price_ok t" "ahead z p t" and l: "0 < l" "l \<le> U128_MAX" and a: "a \<le> U128_MAX"
  shows "ahead z p q" and "ahead z q t" and "price_ok q" and "q = t \<or> a \<le> given z p q l"
proof -
  from run have "reach_or_move z t (narrow_u128 (given z p t l)) a (get_next_sqrt_price_from_output p l a z) = Inr q"
    using step_price_out_eq [OF p t l(2)] by simp
  then have "ahead z p q \<and> ahead z q t \<and> price_ok q \<and> (q = t \<or> a \<le> given z p q l)"
  proof (cases rule: reach_or_move_cases)
    case 1
    with t show ?thesis by (simp add: ahead_def)
  next
    case (2 r)
    then have more: "a \<le> given z p t l" using a by auto
    show ?thesis
    proof (cases z)
      case True
      with 2 have r: "get_next_sqrt_price_from_amount1 p l a False = Inr r"
        by (simp add: get_next_sqrt_price_from_output_def)
      have tp: "t \<le> p" using True t by (simp add: ahead_def)
      have "a \<le> amount1_between t p l False" using more True by (simp add: given_def)
      note b = price_after_amount1_out [OF r l a tp this]
      then have "q = r" using 2 True by simp
      with b True p t tp show ?thesis by (auto simp: ahead_def given_def price_ok_def)
    next
      case False
      with 2 have r: "get_next_sqrt_price_from_amount0 p l a False = Inr r"
        by (simp add: get_next_sqrt_price_from_output_def)
      have tp: "p \<le> t" using False t by (simp add: ahead_def)
      have "a \<le> amount0_between p t l False" using more False by (simp add: given_def)
      note b = price_after_amount0_out [OF r p l tp t(1) this]
      then have "q = r" using 2 False by simp
      with b False p t tp show ?thesis by (auto simp: ahead_def given_def price_ok_def)
    qed
  qed
  then show "ahead z p q" "ahead z q t" "price_ok q" "q = t \<or> a \<le> given z p q l" by simp_all
qed


lemma fee_on_top:
  assumes "a \<le> r * (D - f) div D" and "f < D"
  shows "a + ceil_div (a * f) (D - f) \<le> r"
proof -
  have d: "0 < D" "0 < D - f" using assms(2) by simp_all
  have ad: "a * D \<le> r * (D - f)"
    using assms(1) d(1) by (metis (no_types) less_eq_div_iff_mult_less_eq)
  have "a * (D - f) \<le> r * (D - f)" using ad by (meson diff_le_self le_trans mult_le_mono2)
  then have ar: "a \<le> r" using d(2) by simp
  have "a * f = a * D - a * (D - f)" using assms(2) by (simp add: diff_mult_distrib2)
  also have "\<dots> \<le> (r - a) * (D - f)" using ad by (simp add: diff_mult_distrib)
  finally have "ceil_div (a * f) (D - f) \<le> r - a" using d(2) by (intro ceil_div_le)
  with ar show ?thesis by linarith
qed

lemma mul_div_u128_InrD:
  assumes "fixed_point_lib fp" and "mul_div_u128 fp a n d up = Inr r"
  shows "d \<noteq> 0 \<and> r \<le> U128_MAX \<and> r = (if up then ceil_div (a * n) d else a * n div d)"
  using assms fixed_point_lib.mul_floor_eq_Inr [OF assms(1)] fixed_point_lib.mul_ceil_eq_Inr [OF assms(1)]
  by (auto simp: mul_div_u128_def split: if_splits)

lemma exact_in_step:
  assumes fp: "fixed_point_lib fp" and run: "compute_swap_step fp p t l a fee z True = Inr st"
    and p: "price_ok p" and t: "price_ok t" "ahead z p t" and l: "l \<le> U128_MAX" and a: "a \<le> U128_MAX"
  shows "ahead z p (st_sqrt_next st)" and "ahead z (st_sqrt_next st) t" and "price_ok (st_sqrt_next st)"
    and "st_amount_in st + st_fee st \<le> a"
    and "st_sqrt_next st = t \<or> st_amount_in st + st_fee st = a"
proof -
  have "ahead z p (st_sqrt_next st) \<and> ahead z (st_sqrt_next st) t \<and> price_ok (st_sqrt_next st) \<and>
    st_amount_in st + st_fee st \<le> a \<and> (st_sqrt_next st = t \<or> st_amount_in st + st_fee st = a)"
  proof (cases "l = 0")
    case True
    with run t show ?thesis by (auto simp: compute_swap_step_def ahead_def)
  next
    case False
    from run False obtain less q i out f where fee: "fee \<le> CL_FEE_DENOMINATOR"
      and less: "mul_div_u128 fp a (CL_FEE_DENOMINATOR - fee) CL_FEE_DENOMINATOR False = Inr less"
      and q: "step_price_in p t l less z = Inr q"
      and amounts: "step_amounts p q l z = Inr (i, out)"
      and f: "(if q = t then mul_div_u128 fp i fee (CL_FEE_DENOMINATOR - fee) True
        else Inr (sat_sub a i)) = Inr f"
      and st: "st = \<lparr>st_sqrt_next = q, st_amount_in = i, st_amount_out = out, st_fee = f\<rparr>"
      by (auto simp: compute_swap_step_def res_simps simp del: if_Inl_eq_Inr)
    have less_eq: "less = a * (CL_FEE_DENOMINATOR - fee) div CL_FEE_DENOMINATOR" "less \<le> U128_MAX"
      using mul_div_u128_InrD [OF fp less] by simp_all
    have "a * (CL_FEE_DENOMINATOR - fee) div CL_FEE_DENOMINATOR \<le> a * CL_FEE_DENOMINATOR div CL_FEE_DENOMINATOR"
      by (intro div_le_mono mult_le_mono2) simp
    then have less_a: "less \<le> a" unfolding less_eq(1) by (simp add: CL_FEE_DENOMINATOR_def)
    note b = step_price_in_cost [OF q p t _ l less_eq(2)]
    have "i = min (taken z p q l) U128_MAX"
      using amounts b False step_amounts_eq [OF p b(3) b(1) l] by simp
    with b(4) False have i: "i \<le> less" by auto
    have "i + f \<le> a \<and> (q = t \<or> i + f = a)"
    proof (cases "q = t")
      case True
      with f have "mul_div_u128 fp i fee (CL_FEE_DENOMINATOR - fee) True = Inr f" by simp
      from mul_div_u128_InrD [OF fp this] have "CL_FEE_DENOMINATOR - fee \<noteq> 0"
        and "f = ceil_div (i * fee) (CL_FEE_DENOMINATOR - fee)" by simp_all
      with fee_on_top [of i a CL_FEE_DENOMINATOR fee] i less_eq(1) True show ?thesis by simp
    next
      case no: False
      with f i less_a show ?thesis by (auto simp: sat_sub_def)
    qed
    with b False st show ?thesis by simp
  qed
  then show "ahead z p (st_sqrt_next st)" "ahead z (st_sqrt_next st) t" "price_ok (st_sqrt_next st)"
    "st_amount_in st + st_fee st \<le> a" "st_sqrt_next st = t \<or> st_amount_in st + st_fee st = a"
    by simp_all
qed

lemma exact_out_step:
  assumes run: "compute_swap_step fp p t l a fee z False = Inr st"
    and p: "price_ok p" and t: "price_ok t" "ahead z p t" and l: "l \<le> U128_MAX" and a: "a \<le> U128_MAX"
  shows "ahead z p (st_sqrt_next st)" and "ahead z (st_sqrt_next st) t" and "price_ok (st_sqrt_next st)"
    and "st_amount_out st \<le> a"
    and "st_sqrt_next st = t \<or> st_amount_out st = a"
proof -
  have "ahead z p (st_sqrt_next st) \<and> ahead z (st_sqrt_next st) t \<and> price_ok (st_sqrt_next st) \<and>
    st_amount_out st \<le> a \<and> (st_sqrt_next st = t \<or> st_amount_out st = a)"
  proof (cases "l = 0")
    case True
    with run t show ?thesis by (auto simp: compute_swap_step_def ahead_def)
  next
    case False
    from run False obtain q i out f where q: "step_price_out p t l a z = Inr q"
      and amounts: "step_amounts p q l z = Inr (i, out)"
      and st: "st = \<lparr>st_sqrt_next = q, st_amount_in = i, st_amount_out = (if a < out then a else out), st_fee = f\<rparr>"
      by (auto simp: compute_swap_step_def res_simps simp del: if_Inl_eq_Inr)
    note b = step_price_out_pays [OF q p t _ l a]
    have "out = min (given z p q l) U128_MAX"
      using amounts b False step_amounts_eq [OF p b(3) b(1) l] by simp
    with b False st a show ?thesis by auto
  qed
  then show "ahead z p (st_sqrt_next st)" "ahead z (st_sqrt_next st) t" "price_ok (st_sqrt_next st)"
    "st_amount_out st \<le> a" "st_sqrt_next st = t \<or> st_amount_out st = a"
    by simp_all
qed

section \<open>The next tick lies ahead\<close>

lemma slots_below: "List.find P (rev [0 ..< n]) = Some s \<Longrightarrow> s < n"
  by (auto simp: find_Some_iff rev_nth)

lemma slots_from: "List.find P [k ..< n] = Some s \<Longrightarrow> k \<le> s \<and> s < n"
  by (auto simp: find_Some_iff)

end
