(* ===== verification/CL_Index.thy ===== *)
theory CL_Index
  imports CL_Ticks
begin

text \<open>
  The three-level tick index refines the set of initialized ticks. \<open>initd\<close> reads the set off the
  chunks; \<open>index_ok\<close> says that a bit of a chunk bitmap is set exactly for a chunk with an
  initialized tick, and a bit of a word bitmap exactly for a chunk bitmap that is not 0. Under it
  the searches return the nearest initialized tick, or a boundary with none in between, and
  \<open>update_tick_liquidity\<close> keeps it. Compressed ticks number the slots: chunk \<open>p\<close> holds
  \<open>16 p, \<dots>, 16 p + 15\<close>, bitmap word \<open>w\<close> the chunks \<open>256 w, \<dots>, 256 w + 255\<close>.
\<close>

section \<open>The abstract set\<close>

definition initd :: "tick_store \<Rightarrow> int \<Rightarrow> bool" where
  "initd ts c \<longleftrightarrow> (case ts_chunks ts (c div 16) of
     Some chunk \<Rightarrow> slot_initialized chunk (nat (c mod 16)) | None \<Rightarrow> False)"

definition chunk_live :: "tick_store \<Rightarrow> int \<Rightarrow> bool" where
  "chunk_live ts p \<longleftrightarrow> (\<exists>c. c div 16 = p \<and> initd ts c)"

definition index_ok :: "tick_store \<Rightarrow> bool" where
  "index_ok ts \<longleftrightarrow>
     (\<forall>p chunk. ts_chunks ts p = Some chunk \<longrightarrow> length chunk = 16)
   \<and> (\<forall>p. bit (ts_chunk_bitmap ts (p div 256)) (nat (p mod 256)) \<longleftrightarrow> chunk_live ts p)
   \<and> (\<forall>w. bit (ts_word_bitmap ts (w div 256)) (nat (w mod 256)) \<longleftrightarrow> ts_chunk_bitmap ts w \<noteq> 0)
   \<and> (\<forall>w. ts_chunk_bitmap ts w < 2 ^ 256)"

definition ticks_in_range :: "int \<Rightarrow> tick_store \<Rightarrow> bool" where
  "ticks_in_range spacing ts \<longleftrightarrow> 0 < spacing
   \<and> (\<forall>c. initd ts c \<longrightarrow> MIN_TICK \<le> c * spacing \<and> c * spacing \<le> MAX_TICK)"

lemma index_okD:
  assumes "index_ok ts"
  shows "ts_chunks ts p = Some chunk \<Longrightarrow> length chunk = 16"
    and "bit (ts_chunk_bitmap ts (p div 256)) (nat (p mod 256)) \<longleftrightarrow> chunk_live ts p"
    and "bit (ts_word_bitmap ts (w div 256)) (nat (w mod 256)) \<longleftrightarrow> ts_chunk_bitmap ts w \<noteq> 0"
    and "ts_chunk_bitmap ts w < 2 ^ 256"
  using assms by (simp_all add: index_ok_def)

lemma index_ok_no_ticks: "index_ok no_ticks"
  by (simp add: index_ok_def no_ticks_def chunk_live_def initd_def)

lemma ticks_in_range_no_ticks: "0 < spacing \<Longrightarrow> ticks_in_range spacing no_ticks"
  by (simp add: ticks_in_range_def no_ticks_def initd_def)

section \<open>Positions\<close>

lemma div256: "u = u div 256 * 256 + u mod 256 \<and> 0 \<le> u mod 256 \<and> u mod 256 < 256" for u :: int
  by simp

lemma div16: "u = u div 16 * 16 + u mod 16 \<and> 0 \<le> u mod 16 \<and> u mod 16 < 16" for u :: int
  by simp

lemma pos_of_bit:
  assumes "b < 256"
  shows "(w * 256 + int b) div 256 = w" and "nat ((w * 256 + int b) mod 256) = b"
  using assms by auto

lemma slot_of: "s < 16 \<Longrightarrow> (p * 16 + int s) div 16 = p" "s < 16 \<Longrightarrow> nat ((p * 16 + int s) mod 16) = s"
  by auto

lemma initd_slot: "s < 16 \<Longrightarrow> initd ts (p * 16 + int s) \<longleftrightarrow>
  (case ts_chunks ts p of Some chunk \<Rightarrow> slot_initialized chunk s | None \<Rightarrow> False)"
  by (simp only: initd_def slot_of)

lemma slot_form: "c div 16 = p \<Longrightarrow> c = p * 16 + int (nat (c mod 16)) \<and> nat (c mod 16) < 16"
  by auto

lemma chunk_live_slot: "chunk_live ts p \<longleftrightarrow> (\<exists>s < 16. initd ts (p * 16 + int s))"
  unfolding chunk_live_def using slot_form slot_of(1) by metis

lemma compressed_to_tick_in_range:
  "MIN_TICK \<le> c * spacing \<Longrightarrow> c * spacing \<le> MAX_TICK \<Longrightarrow> compressed_to_tick c spacing = c * spacing"
  by (simp add: compressed_to_tick_def clamp_tick_def saturate_i32_def tick_defs)

lemma compressed_to_tick_clamp: "compressed_to_tick c spacing = min (max (c * spacing) MIN_TICK) MAX_TICK"
  by (auto simp: compressed_to_tick_def clamp_tick_def saturate_i32_def tick_defs min_def max_def)

section \<open>Scans of a chunk\<close>

lemma find_rev_upt:
  "List.find P (rev [a ..< b]) = Some s \<Longrightarrow> a \<le> s \<and> s < b \<and> P s \<and> (\<forall>j. s < j \<longrightarrow> j < b \<longrightarrow> \<not> P j)"
  "List.find P (rev [a ..< b]) = None \<Longrightarrow> a \<le> j \<Longrightarrow> j < b \<Longrightarrow> \<not> P j"
proof (induction b)
  case (Suc b)
  { case 1
    then show ?case using Suc.IH(1) less_Suc_eq by (fastforce split: if_splits)
  next
    case 2
    then show ?case using Suc.IH(2) less_Suc_eq by (auto split: if_splits)
  }
qed simp_all

lemma find_upt:
  "List.find P [a ..< b] = Some s \<Longrightarrow> a \<le> s \<and> s < b \<and> P s \<and> (\<forall>j. a \<le> j \<longrightarrow> j < s \<longrightarrow> \<not> P j)"
  "List.find P [a ..< b] = None \<Longrightarrow> a \<le> j \<Longrightarrow> j < b \<Longrightarrow> \<not> P j"
proof -
  assume "List.find P [a ..< b] = Some s"
  then obtain i where "i < length [a ..< b]" "P ([a ..< b] ! i)" "s = [a ..< b] ! i"
    and "\<forall>j < i. \<not> P ([a ..< b] ! j)"
    by (auto simp: find_Some_iff)
  then have s: "s = a + i" "a + i < b" "P s" and before: "\<And>j. j < i \<Longrightarrow> \<not> P (a + j)" by auto
  have "\<not> P j" if "a \<le> j" and "j < s" for j
    using before [of "j - a"] that s(1) by simp
  with s show "a \<le> s \<and> s < b \<and> P s \<and> (\<forall>j. a \<le> j \<longrightarrow> j < s \<longrightarrow> \<not> P j)" by simp
next
  show "List.find P [a ..< b] = None \<Longrightarrow> a \<le> j \<Longrightarrow> j < b \<Longrightarrow> \<not> P j"
    by (simp add: find_None_iff)
qed

section \<open>The extreme tick of a bitmap word\<close>

definition word_tick :: "tick_store \<Rightarrow> int \<Rightarrow> int \<Rightarrow> bool" where
  \<comment> \<open>compressed tick \<open>c\<close> is initialized and lies in bitmap word \<open>w\<close>\<close>
  "word_tick ts w c \<longleftrightarrow> initd ts c \<and> c div 16 div 256 = w"

lemma get_or_create_initd:
  assumes "index_ok ts" and "s < 16"
  shows "slot_initialized (get_or_create_tick_chunk ts p) s \<longleftrightarrow> initd ts (p * 16 + int s)"
  using assms(2)
  by (auto simp: initd_slot get_or_create_tick_chunk_def new_empty_chunk_def slot_initialized_def
      empty_tick_def TICKS_PER_CHUNK_def split: option.splits)

lemma word_bit:
  assumes "index_ok ts" and "b < 256"
  shows "bit (ts_chunk_bitmap ts w) b \<longleftrightarrow> chunk_live ts (w * 256 + int b)"
  using index_okD(2) [OF assms(1), of "w * 256 + int b"] by (simp only: pos_of_bit [OF assms(2)])

lemma word_form: "p div 256 = w \<Longrightarrow> p = w * 256 + int (nat (p mod 256)) \<and> nat (p mod 256) < 256"
  by auto

lemma word_tick_le:
  assumes "index_ok ts" and "word_tick ts w c"
  shows "bit (ts_chunk_bitmap ts w) (nat (c div 16 mod 256))"
    and "c div 16 = w * 256 + int (nat (c div 16 mod 256))"
proof -
  show "c div 16 = w * 256 + int (nat (c div 16 mod 256))"
    using assms(2) word_form [of "c div 16" w] unfolding word_tick_def by blast
  have "chunk_live ts (c div 16)" using assms(2) by (auto simp: word_tick_def chunk_live_def)
  then show "bit (ts_chunk_bitmap ts w) (nat (c div 16 mod 256))"
    using index_okD(2) [OF assms(1), of "c div 16"] assms(2) by (simp add: word_tick_def)
qed

lemma extreme_highest:
  assumes ok: "index_ok ts" and range: "ticks_in_range spacing ts"
  shows "(\<exists>c. word_tick ts w c \<and> extreme_tick_in_bitmap_word ts w spacing True = c * spacing
        \<and> (\<forall>c'. word_tick ts w c' \<longrightarrow> c' \<le> c))
    \<or> (\<forall>c. \<not> word_tick ts w c) \<and> extreme_tick_in_bitmap_word ts w spacing True = MIN_TICK"
proof (cases "find_prev_set_bit (u256_to_array (ts_chunk_bitmap ts w)) 255")
  case None
  with find_prev_word [of "ts_chunk_bitmap ts w" 255]
  have none: "\<And>n. n \<le> 255 \<Longrightarrow> \<not> bit (ts_chunk_bitmap ts w) n" by (simp add: greatest_upto_def)
  have "\<not> word_tick ts w c" for c
    using word_tick_le(1) [OF ok, of w c] none by auto
  moreover have "extreme_tick_in_bitmap_word ts w spacing True = MIN_TICK"
    using None by (simp add: extreme_tick_in_bitmap_word_def)
  ultimately show ?thesis by blast
next
  case (Some b)
  with find_prev_word [of "ts_chunk_bitmap ts w" 255]
  have b: "bit (ts_chunk_bitmap ts w) b" "b \<le> 255"
    and top: "\<And>n. n \<le> 255 \<Longrightarrow> bit (ts_chunk_bitmap ts w) n \<Longrightarrow> n \<le> b" by (auto simp: greatest_upto_def)
  let ?p = "w * 256 + int b"
  let ?ch = "get_or_create_tick_chunk ts ?p"
  from b have "chunk_live ts ?p" using word_bit [OF ok, of b w] by simp
  then obtain s0 where "s0 < 16" "slot_initialized ?ch s0"
    using get_or_create_initd [OF ok] by (auto simp: chunk_live_slot)
  then obtain s where s: "scan_chunk_highest_init ?ch = Some s"
    using find_rev_upt(2) [of "slot_initialized ?ch" 0 16 s0]
    by (cases "scan_chunk_highest_init ?ch") (auto simp: scan_chunk_highest_init_def TICKS_PER_CHUNK_def)
  then have s16: "s < 16" and init: "slot_initialized ?ch s" and last: "\<And>j. s < j \<Longrightarrow> j < 16 \<Longrightarrow> \<not> slot_initialized ?ch j"
    using find_rev_upt(1) [of "slot_initialized ?ch" 0 16 s] by (auto simp: scan_chunk_highest_init_def TICKS_PER_CHUNK_def)
  let ?c = "?p * 16 + int s"
  have c: "initd ts ?c" using init get_or_create_initd [OF ok s16] by simp
  have wt: "word_tick ts w ?c" using c s16 b(2) by (simp add: word_tick_def slot_of pos_of_bit(1))
  have "c' \<le> ?c" if "word_tick ts w c'" for c'
  proof -
    define q where "q = c' div 16"
    define r where "r = nat (c' mod 16)"
    define b' where "b' = nat (q mod 256)"
    have w': "bit (ts_chunk_bitmap ts w) b'" "q = w * 256 + int b'"
      using word_tick_le [OF ok that] by (simp_all only: q_def b'_def)
    have c': "c' = q * 16 + int r" "r < 16" "int r < 16" by (simp_all add: q_def r_def)
    have live: "initd ts (q * 16 + int r)" using that c' by (simp add: word_tick_def)
    have "b' \<le> b" using top [OF _ w'(1)] w'(1) b'_def by simp
    show ?thesis
    proof (cases "b' = b")
      case True
      with live w' have "slot_initialized ?ch r" using get_or_create_initd [OF ok c'(2), of ?p] by simp
      then have "r \<le> s" using last [of r] c'(2) by (meson not_le)
      with True show ?thesis unfolding c'(1) w'(2) by simp
    next
      case False
      with \<open>b' \<le> b\<close> have "q + 1 \<le> ?p" using w'(2) by linarith
      then show ?thesis using c'(1,3) unfolding ring_distribs by linarith
    qed
  qed
  moreover have "extreme_tick_in_bitmap_word ts w spacing True = ?c * spacing"
    using Some s range c compressed_to_tick_in_range [of ?c spacing]
    by (simp add: extreme_tick_in_bitmap_word_def Let_def TICKS_PER_CHUNK_def ticks_in_range_def)
  ultimately show ?thesis using wt by blast
qed

lemma extreme_lowest:
  assumes ok: "index_ok ts" and range: "ticks_in_range spacing ts"
  shows "(\<exists>c. word_tick ts w c \<and> extreme_tick_in_bitmap_word ts w spacing False = c * spacing
        \<and> (\<forall>c'. word_tick ts w c' \<longrightarrow> c \<le> c'))
    \<or> (\<forall>c. \<not> word_tick ts w c) \<and> extreme_tick_in_bitmap_word ts w spacing False = MAX_TICK"
proof (cases "find_next_set_bit (u256_to_array (ts_chunk_bitmap ts w)) 0")
  case None
  with find_next_word [of "ts_chunk_bitmap ts w" 0]
  have none: "\<And>n. n < 256 \<Longrightarrow> \<not> bit (ts_chunk_bitmap ts w) n" by (simp add: least_from_def)
  have "\<not> word_tick ts w c" for c
    using word_tick_le(1) [OF ok, of w c] none by auto
  moreover have "extreme_tick_in_bitmap_word ts w spacing False = MAX_TICK"
    using None by (simp add: extreme_tick_in_bitmap_word_def)
  ultimately show ?thesis by blast
next
  case (Some b)
  with find_next_word [of "ts_chunk_bitmap ts w" 0]
  have b: "bit (ts_chunk_bitmap ts w) b" "b < 256"
    and low: "\<And>n. n < 256 \<Longrightarrow> bit (ts_chunk_bitmap ts w) n \<Longrightarrow> b \<le> n" by (auto simp: least_from_def)
  let ?p = "w * 256 + int b"
  let ?ch = "get_or_create_tick_chunk ts ?p"
  from b have "chunk_live ts ?p" using word_bit [OF ok, of b w] by simp
  then obtain s0 where "s0 < 16" "slot_initialized ?ch s0"
    using get_or_create_initd [OF ok] by (auto simp: chunk_live_slot)
  then obtain s where s: "scan_chunk_lowest_init ?ch = Some s"
    using find_upt(2) [of "slot_initialized ?ch" 0 16 s0]
    by (cases "scan_chunk_lowest_init ?ch") (auto simp: scan_chunk_lowest_init_def TICKS_PER_CHUNK_def)
  then have s16: "s < 16" and init: "slot_initialized ?ch s" and first: "\<And>j. j < s \<Longrightarrow> \<not> slot_initialized ?ch j"
    using find_upt(1) [of "slot_initialized ?ch" 0 16 s] by (auto simp: scan_chunk_lowest_init_def TICKS_PER_CHUNK_def)
  let ?c = "?p * 16 + int s"
  have c: "initd ts ?c" using init get_or_create_initd [OF ok s16] by simp
  have wt: "word_tick ts w ?c" using c s16 b(2) by (simp add: word_tick_def slot_of pos_of_bit(1))
  have "?c \<le> c'" if "word_tick ts w c'" for c'
  proof -
    define q where "q = c' div 16"
    define r where "r = nat (c' mod 16)"
    define b' where "b' = nat (q mod 256)"
    have w': "bit (ts_chunk_bitmap ts w) b'" "q = w * 256 + int b'"
      using word_tick_le [OF ok that] by (simp_all only: q_def b'_def)
    have c': "c' = q * 16 + int r" "r < 16" "int r < 16" by (simp_all add: q_def r_def)
    have live: "initd ts (q * 16 + int r)" using that c' by (simp add: word_tick_def)
    have "b' < 256" by (simp add: b'_def)
    then have "b \<le> b'" using low [OF _ w'(1)] by simp
    show ?thesis
    proof (cases "b' = b")
      case True
      with live w' have "slot_initialized ?ch r" using get_or_create_initd [OF ok c'(2), of ?p] by simp
      then have "s \<le> r" using first [of r] by (meson not_le)
      with True show ?thesis unfolding c'(1) w'(2) by simp
    next
      case False
      with \<open>b \<le> b'\<close> have "?p + 1 \<le> q" using w'(2) by linarith
      moreover have "int s < 16" using s16 by simp
      ultimately show ?thesis using c'(1) unfolding ring_distribs by linarith
    qed
  qed
  moreover have "extreme_tick_in_bitmap_word ts w spacing False = ?c * spacing"
    using Some s range c compressed_to_tick_in_range [of ?c spacing]
    by (simp add: extreme_tick_in_bitmap_word_def Let_def TICKS_PER_CHUNK_def ticks_in_range_def)
  ultimately show ?thesis using wt by blast
qed

section \<open>The nearest bitmap word\<close>

lemma search_down:
  assumes "index_ok ts" and "from \<le> 255"
  shows "case search_word_bitmap ts True l2 from of
      None \<Rightarrow> \<forall>u. u div 256 = l2 \<longrightarrow> u \<le> l2 * 256 + int from \<longrightarrow> ts_chunk_bitmap ts u = 0
    | Some v \<Rightarrow> v div 256 = l2 \<and> v \<le> l2 * 256 + int from \<and> ts_chunk_bitmap ts v \<noteq> 0
        \<and> (\<forall>u. v < u \<longrightarrow> u div 256 = l2 \<longrightarrow> u \<le> l2 * 256 + int from \<longrightarrow> ts_chunk_bitmap ts u = 0)"
proof -
  have live: "bit (ts_word_bitmap ts l2) n \<longleftrightarrow> ts_chunk_bitmap ts (l2 * 256 + int n) \<noteq> 0" if "n < 256" for n
    using index_okD(3) [OF assms(1), of "l2 * 256 + int n"] by (simp only: pos_of_bit [OF that])
  have form: "u = l2 * 256 + int (nat (u mod 256)) \<and> nat (u mod 256) < 256" if "u div 256 = l2" for u
    using that by auto
  note found = find_prev_word [of "ts_word_bitmap ts l2" "from"]
  show ?thesis
  proof (cases "find_prev_set_bit (u256_to_array (ts_word_bitmap ts l2)) from")
    case None
    with found assms(2) have none: "\<And>n. n \<le> from \<Longrightarrow> \<not> bit (ts_word_bitmap ts l2) n"
      by (simp add: greatest_upto_def)
    have "ts_chunk_bitmap ts u = 0" if "u div 256 = l2" and "u \<le> l2 * 256 + int from" for u
    proof -
      note f = form [OF that(1)]
      then have "nat (u mod 256) \<le> from" using that(2) by linarith
      with none live [of "nat (u mod 256)"] f show ?thesis by auto
    qed
    with None show ?thesis by (simp add: search_word_bitmap_def)
  next
    case (Some b)
    with found assms(2) have b: "bit (ts_word_bitmap ts l2) b" "b \<le> from"
      and top: "\<And>n. n \<le> from \<Longrightarrow> bit (ts_word_bitmap ts l2) n \<Longrightarrow> n \<le> b" by (auto simp: greatest_upto_def)
    have "ts_chunk_bitmap ts u = 0"
      if "l2 * 256 + int b < u" and "u div 256 = l2" and "u \<le> l2 * 256 + int from" for u
    proof (rule ccontr)
      assume u: "ts_chunk_bitmap ts u \<noteq> 0"
      note f = form [OF that(2)]
      then have "nat (u mod 256) \<le> from" using that(3) by linarith
      with top [of "nat (u mod 256)"] live [of "nat (u mod 256)"] f u have "nat (u mod 256) \<le> b" by auto
      with f that(1) show False by linarith
    qed
    moreover have "ts_chunk_bitmap ts (l2 * 256 + int b) \<noteq> 0" using live [of b] b assms(2) by simp
    moreover have "(l2 * 256 + int b) div 256 = l2" using b assms(2) by (intro pos_of_bit(1)) simp
    ultimately show ?thesis using Some b by (simp add: search_word_bitmap_def)
  qed
qed

lemma search_up:
  assumes "index_ok ts" and "from \<le> 255"
  shows "case search_word_bitmap ts False l2 from of
      None \<Rightarrow> \<forall>u. u div 256 = l2 \<longrightarrow> l2 * 256 + int from \<le> u \<longrightarrow> ts_chunk_bitmap ts u = 0
    | Some v \<Rightarrow> v div 256 = l2 \<and> l2 * 256 + int from \<le> v \<and> ts_chunk_bitmap ts v \<noteq> 0
        \<and> (\<forall>u. u < v \<longrightarrow> u div 256 = l2 \<longrightarrow> l2 * 256 + int from \<le> u \<longrightarrow> ts_chunk_bitmap ts u = 0)"
proof -
  have live: "bit (ts_word_bitmap ts l2) n \<longleftrightarrow> ts_chunk_bitmap ts (l2 * 256 + int n) \<noteq> 0" if "n < 256" for n
    using index_okD(3) [OF assms(1), of "l2 * 256 + int n"] by (simp only: pos_of_bit [OF that])
  have form: "u = l2 * 256 + int (nat (u mod 256)) \<and> nat (u mod 256) < 256" if "u div 256 = l2" for u
    using that by auto
  note found = find_next_word [of "ts_word_bitmap ts l2" "from"]
  have m: "min from 255 = from" using assms(2) by simp
  show ?thesis
  proof (cases "find_next_set_bit (u256_to_array (ts_word_bitmap ts l2)) from")
    case None
    with found m have none: "\<And>n. from \<le> n \<Longrightarrow> n < 256 \<Longrightarrow> \<not> bit (ts_word_bitmap ts l2) n"
      by (simp add: least_from_def)
    have "ts_chunk_bitmap ts u = 0" if "u div 256 = l2" and "l2 * 256 + int from \<le> u" for u
    proof -
      note f = form [OF that(1)]
      then have "from \<le> nat (u mod 256)" using that(2) by linarith
      with none live [of "nat (u mod 256)"] f show ?thesis by auto
    qed
    with None show ?thesis by (simp add: search_word_bitmap_def)
  next
    case (Some b)
    with found m have b: "bit (ts_word_bitmap ts l2) b" "b < 256" "from \<le> b"
      and low: "\<And>n. from \<le> n \<Longrightarrow> n < 256 \<Longrightarrow> bit (ts_word_bitmap ts l2) n \<Longrightarrow> b \<le> n"
      by (auto simp: least_from_def)
    have "ts_chunk_bitmap ts u = 0"
      if "u < l2 * 256 + int b" and "u div 256 = l2" and "l2 * 256 + int from \<le> u" for u
    proof (rule ccontr)
      assume u: "ts_chunk_bitmap ts u \<noteq> 0"
      note f = form [OF that(2)]
      then have "from \<le> nat (u mod 256)" using that(3) by linarith
      with low [of "nat (u mod 256)"] live [of "nat (u mod 256)"] f u have "b \<le> nat (u mod 256)" by auto
      with f that(1) show False by linarith
    qed
    moreover have "ts_chunk_bitmap ts (l2 * 256 + int b) \<noteq> 0" using live [of b] b by simp
    moreover have "(l2 * 256 + int b) div 256 = l2" using b(2) by (rule pos_of_bit(1))
    ultimately show ?thesis using Some b by (simp add: search_word_bitmap_def)
  qed
qed

lemma adjacent_down:
  assumes ok: "index_ok ts" and some: "find_adjacent_bitmap_word ts w True = Some v"
  shows "v < w" and "ts_chunk_bitmap ts v \<noteq> 0" and "\<And>u. v < u \<Longrightarrow> u < w \<Longrightarrow> ts_chunk_bitmap ts u = 0"
proof -
  let ?l = "w div 256" and ?b = "nat (w mod 256)"
  have wf: "w = ?l * 256 + int ?b" "?b < 256" by auto
  define own where "own = search_own_l2_word ts True ?l ?b"
  have own: "case own of
      None \<Rightarrow> \<forall>u. u div 256 = ?l \<longrightarrow> u < w \<longrightarrow> ts_chunk_bitmap ts u = 0
    | Some v \<Rightarrow> v < w \<and> v div 256 = ?l \<and> ts_chunk_bitmap ts v \<noteq> 0
        \<and> (\<forall>u. v < u \<longrightarrow> u div 256 = ?l \<longrightarrow> u < w \<longrightarrow> ts_chunk_bitmap ts u = 0)"
  proof (cases "?b = 0")
    case True
    then have "u div 256 \<noteq> ?l" if "u < w" for u
      using that wf(1) div_mult_mod_eq [of u 256] pos_mod_sign [of 256 u] by fastforce
    with True show ?thesis by (auto simp: own_def search_own_l2_word_def)
  next
    case False
    then have o: "own = search_word_bitmap ts True ?l (?b - 1)" by (simp add: own_def search_own_l2_word_def)
    have le: "u \<le> ?l * 256 + int (?b - 1) \<longleftrightarrow> u < w" for u using wf False by linarith
    show ?thesis
      using search_down [OF ok, of "?b - 1" ?l] wf(2) unfolding o le by (auto split: option.splits)
  qed
  have "v < w \<and> ts_chunk_bitmap ts v \<noteq> 0 \<and> (\<forall>u. v < u \<longrightarrow> u < w \<longrightarrow> ts_chunk_bitmap ts u = 0)"
  proof (cases own)
    case (Some v')
    then have v: "v' = v" using some by (simp add: find_adjacent_bitmap_word_def word_bitmap_position_def own_def)
    with own Some have "v div 256 = ?l" by simp
    then have "u div 256 = ?l" if "v < u" and "u < w" for u
      using that zdiv_mono1 [of v u 256] zdiv_mono1 [of u w 256] by simp
    with own Some v show ?thesis by simp
  next
    case None
    then have far: "search_word_bitmap ts True (?l - 1) 255 = Some v"
      using some by (simp add: find_adjacent_bitmap_word_def word_bitmap_position_def own_def)
    from search_down [OF ok, of 255 "?l - 1"] have v: "v div 256 = ?l - 1" "ts_chunk_bitmap ts v \<noteq> 0"
      "v \<le> (?l - 1) * 256 + 255"
      and high: "\<And>u. v < u \<Longrightarrow> u div 256 = ?l - 1 \<Longrightarrow> u \<le> (?l - 1) * 256 + 255 \<Longrightarrow> ts_chunk_bitmap ts u = 0"
      unfolding far by auto
    have "ts_chunk_bitmap ts u = 0" if "v < u" and "u < w" for u
    proof (cases "u div 256 = ?l")
      case True
      with own None that show ?thesis by simp
    next
      case False
      have "?l - 1 \<le> u div 256" and "u div 256 \<le> ?l"
        using that zdiv_mono1 [of v u 256] zdiv_mono1 [of u w 256] v(1) by simp_all
      with False have "u div 256 = ?l - 1" by simp
      moreover from this have "u \<le> (?l - 1) * 256 + 255"
        using div256 [of u] unfolding ring_distribs by linarith
      ultimately show ?thesis using high that by blast
    qed
    moreover have "v < w" using v(3) wf unfolding ring_distribs by linarith
    ultimately show ?thesis using v(2) by blast
  qed
  then show "v < w" and "ts_chunk_bitmap ts v \<noteq> 0" and "\<And>u. v < u \<Longrightarrow> u < w \<Longrightarrow> ts_chunk_bitmap ts u = 0"
    by blast+
qed

lemma adjacent_up:
  assumes ok: "index_ok ts" and some: "find_adjacent_bitmap_word ts w False = Some v"
  shows "w < v" and "ts_chunk_bitmap ts v \<noteq> 0" and "\<And>u. w < u \<Longrightarrow> u < v \<Longrightarrow> ts_chunk_bitmap ts u = 0"
proof -
  let ?l = "w div 256" and ?b = "nat (w mod 256)"
  have wf: "w = ?l * 256 + int ?b" "?b < 256" by auto
  define own where "own = search_own_l2_word ts False ?l ?b"
  have own: "case own of
      None \<Rightarrow> \<forall>u. u div 256 = ?l \<longrightarrow> w < u \<longrightarrow> ts_chunk_bitmap ts u = 0
    | Some v \<Rightarrow> w < v \<and> v div 256 = ?l \<and> ts_chunk_bitmap ts v \<noteq> 0
        \<and> (\<forall>u. u < v \<longrightarrow> u div 256 = ?l \<longrightarrow> w < u \<longrightarrow> ts_chunk_bitmap ts u = 0)"
  proof (cases "?b < 255")
    case False
    then have "u div 256 \<noteq> ?l" if "w < u" for u
      using that wf div_mult_mod_eq [of u 256] pos_mod_bound [of 256 u] by fastforce
    with False show ?thesis by (auto simp: own_def search_own_l2_word_def)
  next
    case True
    then have o: "own = search_word_bitmap ts False ?l (?b + 1)" by (simp add: own_def search_own_l2_word_def)
    have le: "?l * 256 + int (?b + 1) \<le> u \<longleftrightarrow> w < u" for u using wf by linarith
    show ?thesis
      using search_up [OF ok, of "?b + 1" ?l] True unfolding o le by (auto split: option.splits)
  qed
  have "w < v \<and> ts_chunk_bitmap ts v \<noteq> 0 \<and> (\<forall>u. w < u \<longrightarrow> u < v \<longrightarrow> ts_chunk_bitmap ts u = 0)"
  proof (cases own)
    case (Some v')
    then have v: "v' = v" using some by (simp add: find_adjacent_bitmap_word_def word_bitmap_position_def own_def)
    with own Some have "v div 256 = ?l" by simp
    then have "u div 256 = ?l" if "w < u" and "u < v" for u
      using that zdiv_mono1 [of w u 256] zdiv_mono1 [of u v 256] by simp
    with own Some v show ?thesis by simp
  next
    case None
    then have far: "search_word_bitmap ts False (?l + 1) 0 = Some v"
      using some by (simp add: find_adjacent_bitmap_word_def word_bitmap_position_def own_def)
    from search_up [OF ok, of 0 "?l + 1"] have v: "v div 256 = ?l + 1" "ts_chunk_bitmap ts v \<noteq> 0"
      "(?l + 1) * 256 \<le> v"
      and low: "\<And>u. u < v \<Longrightarrow> u div 256 = ?l + 1 \<Longrightarrow> (?l + 1) * 256 \<le> u \<Longrightarrow> ts_chunk_bitmap ts u = 0"
      unfolding far by auto
    have "ts_chunk_bitmap ts u = 0" if "w < u" and "u < v" for u
    proof (cases "u div 256 = ?l")
      case True
      with own None that show ?thesis by simp
    next
      case False
      have "?l \<le> u div 256" and "u div 256 \<le> ?l + 1"
        using that zdiv_mono1 [of w u 256] zdiv_mono1 [of u v 256] v(1) by simp_all
      with False have "u div 256 = ?l + 1" by simp
      moreover from this have "(?l + 1) * 256 \<le> u"
        using div256 [of u] unfolding ring_distribs by linarith
      ultimately show ?thesis using low that by blast
    qed
    moreover have "w < v" using v(3) wf unfolding ring_distribs by linarith
    ultimately show ?thesis using v(2) by blast
  qed
  then show "w < v" and "ts_chunk_bitmap ts v \<noteq> 0" and "\<And>u. w < u \<Longrightarrow> u < v \<Longrightarrow> ts_chunk_bitmap ts u = 0"
    by blast+
qed

section \<open>The search\<close>

text \<open>The cache of a swap holds chunks whose initialized slots are those of storage.\<close>

definition slots_agree :: "tick_store \<Rightarrow> int \<Rightarrow> tick_chunk \<Rightarrow> bool" where
  "slots_agree ts p chunk \<longleftrightarrow> length chunk = 16
   \<and> (\<forall>s < 16. slot_initialized chunk s \<longleftrightarrow> initd ts (p * 16 + int s))"

definition cache_ok :: "tick_store \<Rightarrow> chunk_cache \<Rightarrow> bool" where
  "cache_ok ts cc \<longleftrightarrow> (\<forall>p chunk. ch_cache cc p = Some chunk \<longrightarrow> slots_agree ts p chunk)"

lemma cache_ok_new: "cache_ok ts new_cache"
  by (simp add: cache_ok_def new_cache_def)

lemma cache_ok_remember: "cache_ok ts cc \<Longrightarrow> slots_agree ts p chunk \<Longrightarrow> cache_ok ts (remember p chunk cc)"
  by (simp add: cache_ok_def remember_def)

lemma stored_agree: "index_ok ts \<Longrightarrow> ts_chunks ts p = Some chunk \<Longrightarrow> slots_agree ts p chunk"
  by (auto simp: slots_agree_def initd_slot index_okD(1))

lemma created_agree:
  assumes "index_ok ts"
  shows "slots_agree ts p (get_or_create_tick_chunk ts p)"
proof -
  have "length (get_or_create_tick_chunk ts p) = 16"
    using assms by (auto simp: get_or_create_tick_chunk_def new_empty_chunk_def TICKS_PER_CHUNK_def
        index_okD(1) split: option.splits)
  with get_or_create_initd [OF assms] show ?thesis unfolding slots_agree_def by blast
qed

lemma cache_get_chunk_agree:
  assumes "index_ok ts" and "cache_ok ts cc" and "cache_get_chunk ts p cc = (r, cc')"
  shows "cache_ok ts cc'" and "case r of Some chunk \<Rightarrow> slots_agree ts p chunk
    | None \<Rightarrow> \<forall>s < 16. \<not> initd ts (p * 16 + int s)"
proof -
  have "cache_ok ts cc' \<and> (case r of Some chunk \<Rightarrow> slots_agree ts p chunk
    | None \<Rightarrow> \<forall>s < 16. \<not> initd ts (p * 16 + int s))"
  proof (cases "ch_cache cc p")
    case None
    show ?thesis
    proof (cases "ts_chunks ts p")
      case (Some chunk)
      with None assms(3) have "r = Some chunk" and "cc' = remember p chunk cc"
        by (simp_all add: cache_get_chunk_def)
      then show ?thesis using stored_agree [OF assms(1) Some] cache_ok_remember [OF assms(2)] by simp
    qed (use None assms in \<open>auto simp: cache_get_chunk_def initd_slot\<close>)
  next
    case (Some chunk)
    with assms(3) have "r = Some chunk" and "cc' = cc" by (simp_all add: cache_get_chunk_def)
    with Some assms(2) show ?thesis by (simp add: cache_ok_def)
  qed
  then show "cache_ok ts cc'" and "case r of Some chunk \<Rightarrow> slots_agree ts p chunk
    | None \<Rightarrow> \<forall>s < 16. \<not> initd ts (p * 16 + int s)" by blast+
qed

lemma cache_get_or_create_agree:
  assumes "index_ok ts" and "cache_ok ts cc" and "cache_get_or_create_chunk ts p cc = (chunk, cc')"
  shows "cache_ok ts cc'" and "slots_agree ts p chunk"
proof -
  have "cache_ok ts cc' \<and> slots_agree ts p chunk"
  proof (cases "ch_cache cc p")
    case None
    then have "chunk = get_or_create_tick_chunk ts p" and "cc' = remember p chunk cc"
      using assms(3) by (auto simp: cache_get_or_create_chunk_def Let_def)
    with created_agree [OF assms(1)] cache_ok_remember [OF assms(2)] show ?thesis by simp
  qed (use assms in \<open>auto simp: cache_get_or_create_chunk_def cache_ok_def\<close>)
  then show "cache_ok ts cc'" and "slots_agree ts p chunk" by blast+
qed

lemma initd_in_chunk: "initd ts c \<Longrightarrow> initd ts (c div 16 * 16 + int (nat (c mod 16)))"
  by simp

lemma initd_chunk_live: "initd ts c \<Longrightarrow> chunk_live ts (c div 16)"
  by (auto simp: chunk_live_def)

lemma chunk_step_down:
  assumes "slots_agree ts p chunk" and "p = k div 16"
  shows "List.find (slot_initialized chunk) (rev [0 ..< nat (k mod 16) + 1]) = Some s \<Longrightarrow>
      initd ts (p * 16 + int s) \<and> p * 16 + int s \<le> k \<and> (\<forall>c. p * 16 + int s < c \<longrightarrow> c \<le> k \<longrightarrow> \<not> initd ts c)"
    and "List.find (slot_initialized chunk) (rev [0 ..< nat (k mod 16) + 1]) = None \<Longrightarrow>
      c \<le> k \<Longrightarrow> c div 16 = p \<Longrightarrow> \<not> initd ts c"
proof -
  have k: "k = p * 16 + k mod 16" "0 \<le> k mod 16" "k mod 16 < 16" using assms(2) by auto
  have agree: "s < 16 \<Longrightarrow> slot_initialized chunk s \<longleftrightarrow> initd ts (p * 16 + int s)" for s
    using assms(1) by (simp add: slots_agree_def)
  have slot: "nat (c mod 16) < nat (k mod 16) + 1 \<and> c = p * 16 + int (nat (c mod 16))"
    if "c div 16 = p" and "c \<le> k" for c
  proof -
    have "c = p * 16 + c mod 16" using that by auto
    with that(2) k have "c mod 16 \<le> k mod 16" by linarith
    then have "nat (c mod 16) \<le> nat (k mod 16)" by (rule nat_mono)
    moreover have "c = p * 16 + int (nat (c mod 16))" using that(1) by auto
    ultimately show ?thesis by simp
  qed
  { assume "List.find (slot_initialized chunk) (rev [0 ..< nat (k mod 16) + 1]) = Some s"
    from find_rev_upt(1) [OF this] have s: "s < nat (k mod 16) + 1" "slot_initialized chunk s"
      and last: "\<And>j. s < j \<Longrightarrow> j < nat (k mod 16) + 1 \<Longrightarrow> \<not> slot_initialized chunk j" by auto
    have s16: "s < 16" and le: "p * 16 + int s \<le> k" using s k by linarith+
    moreover have "\<not> initd ts c" if "p * 16 + int s < c" and "c \<le> k" for c
    proof -
      have "c div 16 = p"
        using zdiv_mono1 [of "p * 16 + int s" c 16] zdiv_mono1 [of c k 16] that s16 assms(2) by simp
      with slot that have c: "nat (c mod 16) < nat (k mod 16) + 1" "c = p * 16 + int (nat (c mod 16))" by blast+
      with that(1) have "s < nat (c mod 16)" by linarith
      then have "\<not> slot_initialized chunk (nat (c mod 16))" using last c(1) by blast
      moreover have "nat (c mod 16) < 16" by simp
      ultimately show ?thesis using agree c(2) by metis
    qed
    ultimately show "initd ts (p * 16 + int s) \<and> p * 16 + int s \<le> k
        \<and> (\<forall>c. p * 16 + int s < c \<longrightarrow> c \<le> k \<longrightarrow> \<not> initd ts c)"
      using agree [OF s16] s(2) by blast }
  assume none: "List.find (slot_initialized chunk) (rev [0 ..< nat (k mod 16) + 1]) = None"
    and c: "c \<le> k" "c div 16 = p"
  note f = slot [OF c(2,1)]
  then have "\<not> slot_initialized chunk (nat (c mod 16))" using find_rev_upt(2) [OF none] by simp
  moreover have "nat (c mod 16) < 16" by auto
  ultimately show "\<not> initd ts c" using agree f by metis
qed

lemma chunk_step_up:
  assumes "slots_agree ts p chunk" and "p = k div 16"
  shows "List.find (slot_initialized chunk) [nat (k mod 16) ..< 16] = Some s \<Longrightarrow>
      initd ts (p * 16 + int s) \<and> k \<le> p * 16 + int s \<and> (\<forall>c. k \<le> c \<longrightarrow> c < p * 16 + int s \<longrightarrow> \<not> initd ts c)
      \<and> (p * 16 + int s) div 16 = p"
    and "List.find (slot_initialized chunk) [nat (k mod 16) ..< 16] = None \<Longrightarrow>
      k \<le> c \<Longrightarrow> c div 16 = p \<Longrightarrow> \<not> initd ts c"
proof -
  have k: "k = p * 16 + k mod 16" "0 \<le> k mod 16" "k mod 16 < 16" using assms(2) by auto
  have agree: "s < 16 \<Longrightarrow> slot_initialized chunk s \<longleftrightarrow> initd ts (p * 16 + int s)" for s
    using assms(1) by (simp add: slots_agree_def)
  have slot: "nat (k mod 16) \<le> nat (c mod 16) \<and> c = p * 16 + int (nat (c mod 16))"
    if "c div 16 = p" and "k \<le> c" for c
  proof -
    have "c = p * 16 + c mod 16" using that by auto
    with that(2) k have "k mod 16 \<le> c mod 16" by linarith
    then have "nat (k mod 16) \<le> nat (c mod 16)" by (rule nat_mono)
    moreover have "c = p * 16 + int (nat (c mod 16))" using that(1) by auto
    ultimately show ?thesis by simp
  qed
  { assume "List.find (slot_initialized chunk) [nat (k mod 16) ..< 16] = Some s"
    from find_upt(1) [OF this] have s: "nat (k mod 16) \<le> s" "s < 16" "slot_initialized chunk s"
      and first: "\<And>j. nat (k mod 16) \<le> j \<Longrightarrow> j < s \<Longrightarrow> \<not> slot_initialized chunk j" by auto
    have le: "k \<le> p * 16 + int s" using s(1) k by linarith
    moreover have "\<not> initd ts c" if "c < p * 16 + int s" and "k \<le> c" for c
    proof -
      have "c div 16 = p"
        using zdiv_mono1 [of c "p * 16 + int s" 16] zdiv_mono1 [of k c 16] that s(2) assms(2) by simp
      with slot that have c: "nat (k mod 16) \<le> nat (c mod 16)" "c = p * 16 + int (nat (c mod 16))" by blast+
      with that(1) have "nat (c mod 16) < s" by linarith
      then have "\<not> slot_initialized chunk (nat (c mod 16))" using first c(1) by blast
      moreover have "nat (c mod 16) < 16" by simp
      ultimately show ?thesis using agree c(2) by metis
    qed
    ultimately show "initd ts (p * 16 + int s) \<and> k \<le> p * 16 + int s
        \<and> (\<forall>c. k \<le> c \<longrightarrow> c < p * 16 + int s \<longrightarrow> \<not> initd ts c) \<and> (p * 16 + int s) div 16 = p"
      using agree [OF s(2)] s(3) slot_of(1) [OF s(2)] by blast }
  assume none: "List.find (slot_initialized chunk) [nat (k mod 16) ..< 16] = None"
    and c: "k \<le> c" "c div 16 = p"
  note f = slot [OF c(2,1)]
  have "nat (c mod 16) < 16" by auto
  moreover from this have "\<not> slot_initialized chunk (nat (c mod 16))" using find_upt(2) [OF none] f by simp
  ultimately show "\<not> initd ts c" using agree f by metis
qed

lemma scan_chunk:
  assumes "slots_agree ts p chunk"
  shows "scan_chunk_highest_init chunk = Some s \<Longrightarrow>
      initd ts (p * 16 + int s) \<and> (\<forall>c. p * 16 + int s < c \<longrightarrow> c div 16 = p \<longrightarrow> \<not> initd ts c)
      \<and> (p * 16 + int s) div 16 = p"
    and "scan_chunk_highest_init chunk = None \<Longrightarrow> \<not> chunk_live ts p"
    and "scan_chunk_lowest_init chunk = Some s \<Longrightarrow>
      initd ts (p * 16 + int s) \<and> (\<forall>c. c < p * 16 + int s \<longrightarrow> c div 16 = p \<longrightarrow> \<not> initd ts c)
      \<and> (p * 16 + int s) div 16 = p"
    and "scan_chunk_lowest_init chunk = None \<Longrightarrow> \<not> chunk_live ts p"
proof -
  have top: "p = (p * 16 + 15) div 16" and m15: "nat ((p * 16 + 15) mod 16) + 1 = 16" by auto
  have bot: "p = (p * 16) div 16" and m0: "nat ((p * 16) mod 16) = 0" by auto
  have in_p: "p * 16 \<le> c \<and> c \<le> p * 16 + 15" if "c div 16 = p" for c
    using that by auto
  note hi = chunk_step_down [OF assms top, unfolded m15]
  note lo = chunk_step_up [OF assms bot, unfolded m0]
  { assume s: "scan_chunk_highest_init chunk = Some s"
    then have "s < 16" using find_rev_upt(1) [of "slot_initialized chunk" 0 16 s]
      by (simp add: scan_chunk_highest_init_def TICKS_PER_CHUNK_def)
    with hi(1) [of s] s in_p slot_of(1) [of s p]
    show "initd ts (p * 16 + int s) \<and> (\<forall>c. p * 16 + int s < c \<longrightarrow> c div 16 = p \<longrightarrow> \<not> initd ts c)
      \<and> (p * 16 + int s) div 16 = p"
      by (auto simp: scan_chunk_highest_init_def TICKS_PER_CHUNK_def) }
  { assume "scan_chunk_highest_init chunk = None"
    with hi(2) in_p show "\<not> chunk_live ts p"
      by (auto simp: scan_chunk_highest_init_def TICKS_PER_CHUNK_def chunk_live_def) }
  { assume "scan_chunk_lowest_init chunk = Some s"
    with lo(1) [of s] in_p
    show "initd ts (p * 16 + int s) \<and> (\<forall>c. c < p * 16 + int s \<longrightarrow> c div 16 = p \<longrightarrow> \<not> initd ts c)
      \<and> (p * 16 + int s) div 16 = p"
      by (auto simp: scan_chunk_lowest_init_def TICKS_PER_CHUNK_def) }
  { assume "scan_chunk_lowest_init chunk = None"
    with lo(2) in_p show "\<not> chunk_live ts p"
      by (auto simp: scan_chunk_lowest_init_def TICKS_PER_CHUNK_def chunk_live_def) }
qed

lemma in_range_tick:
  "ticks_in_range spacing ts \<Longrightarrow> initd ts c \<Longrightarrow> compressed_to_tick c spacing = c * spacing"
  by (simp add: ticks_in_range_def compressed_to_tick_in_range)

lemma word_step_down:
  assumes ok: "index_ok ts" and range: "ticks_in_range spacing ts" and cok: "cache_ok ts cc"
    and run: "find_in_word_down ts spacing w b cc = (r, cc')"
    and p: "p = w * 256 + int b" "b < 256"
  shows "cache_ok ts cc'" and "case r of
      Some t \<Rightarrow> \<exists>c. initd ts c \<and> t = c * spacing \<and> c div 16 < p
        \<and> (\<forall>c'. c < c' \<longrightarrow> c' div 16 < p \<longrightarrow> \<not> initd ts c')
    | None \<Rightarrow> \<forall>c. c div 16 < p \<longrightarrow> c div 16 div 256 = w \<longrightarrow> \<not> initd ts c"
proof -
  have pw: "p div 256 = w" using p by (simp add: pos_of_bit(1))
  define found where "found = (if 0 < b then find_prev_set_bit (u256_to_array (ts_chunk_bitmap ts w)) (b - 1) else None)"
  have bits: "case found of None \<Rightarrow> \<forall>n. n < b \<longrightarrow> \<not> bit (ts_chunk_bitmap ts w) n
    | Some m \<Rightarrow> bit (ts_chunk_bitmap ts w) m \<and> m < b \<and> (\<forall>n. m < n \<longrightarrow> n < b \<longrightarrow> \<not> bit (ts_chunk_bitmap ts w) n)"
  proof (cases "0 < b")
    case True
    then have "min (b - 1) 255 = b - 1" and lt: "\<And>n. n \<le> b - 1 \<longleftrightarrow> n < b" using p(2) by auto
    with find_prev_word [of "ts_chunk_bitmap ts w" "b - 1"] True show ?thesis
      by (fastforce simp: found_def greatest_upto_def split: option.splits)
  qed (simp add: found_def)
  have dead: "\<not> initd ts c" if "c div 16 = q" and "q div 256 = w" and "\<not> bit (ts_chunk_bitmap ts w) (nat (q mod 256))" for c q
    using that index_okD(2) [OF ok, of q] initd_chunk_live [of ts c] by auto
  have off: "q div 256 = w \<Longrightarrow> q = w * 256 + int (nat (q mod 256))" for q
    using word_form [of q w] by blast
  have "cache_ok ts cc' \<and> (case r of
      Some t \<Rightarrow> \<exists>c. initd ts c \<and> t = c * spacing \<and> c div 16 < p
        \<and> (\<forall>c'. c < c' \<longrightarrow> c' div 16 < p \<longrightarrow> \<not> initd ts c')
    | None \<Rightarrow> \<forall>c. c div 16 < p \<longrightarrow> c div 16 div 256 = w \<longrightarrow> \<not> initd ts c)"
  proof (cases found)
    case None
    then have "r = None" and "cc' = cc" using run by (simp_all add: find_in_word_down_def found_def [symmetric])
    moreover have "\<not> initd ts c" if "c div 16 < p" and "c div 16 div 256 = w" for c
    proof -
      have "nat (c div 16 mod 256) < b" using off [OF that(2)] that(1) p(1) by linarith
      then show ?thesis using bits None that by (intro dead [OF refl that(2)]) simp
    qed
    ultimately show ?thesis using cok by simp
  next
    case (Some m)
    with bits have m: "bit (ts_chunk_bitmap ts w) m" "m < b"
      and gap: "\<And>n. m < n \<Longrightarrow> n < b \<Longrightarrow> \<not> bit (ts_chunk_bitmap ts w) n" by simp_all
    let ?q = "w * 256 + int m"
    have m256: "m < 256" using m(2) p(2) by linarith
    have qp: "?q < p" using m(2) p(1) by linarith
    obtain chunk cc1 where get: "cache_get_or_create_chunk ts ?q cc = (chunk, cc1)" by fastforce
    note agree = cache_get_or_create_agree [OF ok cok get]
    have live: "chunk_live ts ?q" using m(1) word_bit [OF ok m256, of w] by simp
    then obtain s where s: "scan_chunk_highest_init chunk = Some s"
      using scan_chunk(2) [OF agree(2)] by (cases "scan_chunk_highest_init chunk") auto
    let ?c = "?q * 16 + int s"
    from scan_chunk(1) [OF agree(2) s] have c: "initd ts ?c" "?c div 16 = ?q"
      and last: "\<And>c'. ?c < c' \<Longrightarrow> c' div 16 = ?q \<Longrightarrow> \<not> initd ts c'" by blast+
    have r: "r = Some (?c * spacing)" and cc': "cc' = cc1"
      using run get s in_range_tick [OF range c(1)]
      by (simp_all add: find_in_word_down_def found_def [symmetric] Some Let_def TICKS_PER_CHUNK_def)
    have "\<not> initd ts c'" if "?c < c'" and "c' div 16 < p" for c'
    proof (cases "c' div 16 = ?q")
      case False
      have "?q \<le> c' div 16" using zdiv_mono1 [of ?c c' 16] that(1) c(2) by simp
      with False have above: "?q < c' div 16" by simp
      have w': "c' div 16 div 256 = w"
        using zdiv_mono1 [of ?q "c' div 16" 256] zdiv_mono1 [of "c' div 16" p 256] pw above that(2)
          pos_of_bit(1) [OF m256, of w] by simp
      from off [OF w'] have "m < nat (c' div 16 mod 256)" and "nat (c' div 16 mod 256) < b"
        using above that(2) p(1) by linarith+
      then show ?thesis using gap by (intro dead [OF refl w']) simp
    qed (use last that in blast)
    then show ?thesis using r cc' agree(1) c qp by auto
  qed
  then show "cache_ok ts cc'" and "case r of
      Some t \<Rightarrow> \<exists>c. initd ts c \<and> t = c * spacing \<and> c div 16 < p
        \<and> (\<forall>c'. c < c' \<longrightarrow> c' div 16 < p \<longrightarrow> \<not> initd ts c')
    | None \<Rightarrow> \<forall>c. c div 16 < p \<longrightarrow> c div 16 div 256 = w \<longrightarrow> \<not> initd ts c" by blast+
qed

lemma word_step_up:
  assumes ok: "index_ok ts" and range: "ticks_in_range spacing ts" and cok: "cache_ok ts cc"
    and run: "find_in_word_up ts spacing w b cc = (r, cc')"
    and p: "p = w * 256 + int b" "b < 256"
  shows "cache_ok ts cc'" and "case r of
      Some t \<Rightarrow> \<exists>c. initd ts c \<and> t = c * spacing \<and> p < c div 16
        \<and> (\<forall>c'. c' < c \<longrightarrow> p < c' div 16 \<longrightarrow> \<not> initd ts c')
    | None \<Rightarrow> \<forall>c. p < c div 16 \<longrightarrow> c div 16 div 256 = w \<longrightarrow> \<not> initd ts c"
proof -
  have pw: "p div 256 = w" using p by (simp add: pos_of_bit(1))
  define found where "found = (if b < 255 then find_next_set_bit (u256_to_array (ts_chunk_bitmap ts w)) (b + 1) else None)"
  have bits: "case found of None \<Rightarrow> \<forall>n. b < n \<longrightarrow> n < 256 \<longrightarrow> \<not> bit (ts_chunk_bitmap ts w) n
    | Some m \<Rightarrow> bit (ts_chunk_bitmap ts w) m \<and> b < m \<and> m < 256
        \<and> (\<forall>n. b < n \<longrightarrow> n < m \<longrightarrow> \<not> bit (ts_chunk_bitmap ts w) n)"
  proof (cases "b < 255")
    case True
    then have "min (b + 1) 255 = b + 1" and "found = find_next_set_bit (u256_to_array (ts_chunk_bitmap ts w)) (b + 1)"
      by (auto simp: found_def)
    with find_next_word [of "ts_chunk_bitmap ts w" "b + 1"] show ?thesis
      by (auto simp: least_from_def Suc_le_eq split: option.splits)
  qed (simp add: found_def)
  have dead: "\<not> initd ts c" if "c div 16 = q" and "q div 256 = w" and "\<not> bit (ts_chunk_bitmap ts w) (nat (q mod 256))" for c q
    using that index_okD(2) [OF ok, of q] initd_chunk_live [of ts c] by auto
  have off: "q div 256 = w \<Longrightarrow> q = w * 256 + int (nat (q mod 256)) \<and> nat (q mod 256) < 256" for q
    by (rule word_form)
  have "cache_ok ts cc' \<and> (case r of
      Some t \<Rightarrow> \<exists>c. initd ts c \<and> t = c * spacing \<and> p < c div 16
        \<and> (\<forall>c'. c' < c \<longrightarrow> p < c' div 16 \<longrightarrow> \<not> initd ts c')
    | None \<Rightarrow> \<forall>c. p < c div 16 \<longrightarrow> c div 16 div 256 = w \<longrightarrow> \<not> initd ts c)"
  proof (cases found)
    case None
    then have "r = None" and "cc' = cc" using run by (simp_all add: find_in_word_up_def found_def [symmetric])
    moreover have "\<not> initd ts c" if "p < c div 16" and "c div 16 div 256 = w" for c
    proof -
      have "b < nat (c div 16 mod 256)" using off [OF that(2)] that(1) p(1) by linarith
      then show ?thesis using bits None off [OF that(2)] by (intro dead [OF refl that(2)]) simp
    qed
    ultimately show ?thesis using cok by simp
  next
    case (Some m)
    with bits have m: "bit (ts_chunk_bitmap ts w) m" "b < m" "m < 256"
      and gap: "\<And>n. b < n \<Longrightarrow> n < m \<Longrightarrow> \<not> bit (ts_chunk_bitmap ts w) n" by simp_all
    let ?q = "w * 256 + int m"
    have qp: "p < ?q" using m(2) p(1) by linarith
    obtain chunk cc1 where get: "cache_get_or_create_chunk ts ?q cc = (chunk, cc1)" by fastforce
    note agree = cache_get_or_create_agree [OF ok cok get]
    have live: "chunk_live ts ?q" using m(1) word_bit [OF ok m(3), of w] by simp
    then obtain s where s: "scan_chunk_lowest_init chunk = Some s"
      using scan_chunk(4) [OF agree(2)] by (cases "scan_chunk_lowest_init chunk") auto
    let ?c = "?q * 16 + int s"
    from scan_chunk(3) [OF agree(2) s] have c: "initd ts ?c" "?c div 16 = ?q"
      and first: "\<And>c'. c' < ?c \<Longrightarrow> c' div 16 = ?q \<Longrightarrow> \<not> initd ts c'" by blast+
    have r: "r = Some (?c * spacing)" and cc': "cc' = cc1"
      using run get s in_range_tick [OF range c(1)]
      by (simp_all add: find_in_word_up_def found_def [symmetric] Some Let_def TICKS_PER_CHUNK_def)
    have "\<not> initd ts c'" if "c' < ?c" and "p < c' div 16" for c'
    proof (cases "c' div 16 = ?q")
      case False
      have "c' div 16 \<le> ?q" using zdiv_mono1 [of c' ?c 16] that(1) c(2) by simp
      with False have below: "c' div 16 < ?q" by simp
      have w': "c' div 16 div 256 = w"
        using zdiv_mono1 [of "c' div 16" ?q 256] zdiv_mono1 [of p "c' div 16" 256] pw below that(2)
          pos_of_bit(1) [OF m(3), of w] by simp
      from off [OF w'] have "nat (c' div 16 mod 256) < m" and "b < nat (c' div 16 mod 256)"
        using below that(2) p(1) by linarith+
      then show ?thesis using gap by (intro dead [OF refl w']) simp
    qed (use first that in blast)
    then show ?thesis using r cc' agree(1) c qp by auto
  qed
  then show "cache_ok ts cc'" and "case r of
      Some t \<Rightarrow> \<exists>c. initd ts c \<and> t = c * spacing \<and> p < c div 16
        \<and> (\<forall>c'. c' < c \<longrightarrow> p < c' div 16 \<longrightarrow> \<not> initd ts c')
    | None \<Rightarrow> \<forall>c. p < c div 16 \<longrightarrow> c div 16 div 256 = w \<longrightarrow> \<not> initd ts c" by blast+
qed

lemma dead_word: "index_ok ts \<Longrightarrow> ts_chunk_bitmap ts (c div 16 div 256) = 0 \<Longrightarrow> \<not> initd ts c"
  using index_okD(2) [of ts "c div 16"] initd_chunk_live [of ts c] by auto

lemma live_word:
  assumes "index_ok ts" and "ts_chunk_bitmap ts w \<noteq> 0"
  shows "\<exists>c. word_tick ts w c"
proof -
  obtain n where n: "bit (ts_chunk_bitmap ts w) n" using assms(2) by (auto simp: bit_eq_iff)
  have n256: "n < 256"
  proof (rule ccontr)
    assume "\<not> ?thesis"
    moreover have "take_bit 256 (ts_chunk_bitmap ts w) = ts_chunk_bitmap ts w"
      by (rule take_bit_nat_eq_self [OF index_okD(4) [OF assms(1)]])
    ultimately show False using n by (metis bit_take_bit_iff)
  qed
  with n word_bit [OF assms(1)] obtain c where "initd ts c" "c div 16 = w * 256 + int n"
    by (auto simp: chunk_live_def)
  then have "word_tick ts w c" by (simp add: word_tick_def pos_of_bit(1) [OF n256])
  then show ?thesis ..
qed

lemma beyond_down:
  assumes ok: "index_ok ts" and range: "ticks_in_range spacing ts"
    and some: "find_beyond_word ts spacing w True = Some t"
  shows "\<exists>c. initd ts c \<and> t = c * spacing \<and> c div 16 div 256 < w
    \<and> (\<forall>c'. c < c' \<longrightarrow> c' div 16 div 256 < w \<longrightarrow> \<not> initd ts c')"
proof -
  from some obtain v where v: "find_adjacent_bitmap_word ts w True = Some v"
    and t: "t = extreme_tick_in_bitmap_word ts v spacing True"
    by (auto simp: find_beyond_word_def Let_def split: option.splits if_splits)
  note adj = adjacent_down [OF ok v]
  from live_word [OF ok adj(2)] extreme_highest [OF ok range, of v] obtain c where c: "word_tick ts v c"
    "t = c * spacing" and top: "\<And>c'. word_tick ts v c' \<Longrightarrow> c' \<le> c" using t by blast
  have "\<not> initd ts c'" if "c < c'" and "c' div 16 div 256 < w" for c'
  proof (cases "c' div 16 div 256 = v")
    case True
    then show ?thesis using top [of c'] that(1) by (auto simp: word_tick_def)
  next
    case False
    have "v \<le> c' div 16 div 256"
      using c(1) that(1) zdiv_mono1 [OF zdiv_mono1 [of c c' 16], of 256] by (simp add: word_tick_def)
    with False that(2) show ?thesis by (intro dead_word [OF ok] adj(3)) simp_all
  qed
  then show ?thesis using c adj(1) by (auto simp: word_tick_def)
qed

lemma beyond_up:
  assumes ok: "index_ok ts" and range: "ticks_in_range spacing ts"
    and some: "find_beyond_word ts spacing w False = Some t"
  shows "\<exists>c. initd ts c \<and> t = c * spacing \<and> w < c div 16 div 256
    \<and> (\<forall>c'. c' < c \<longrightarrow> w < c' div 16 div 256 \<longrightarrow> \<not> initd ts c')"
proof -
  from some obtain v where v: "find_adjacent_bitmap_word ts w False = Some v"
    and t: "t = extreme_tick_in_bitmap_word ts v spacing False"
    by (auto simp: find_beyond_word_def Let_def split: option.splits if_splits)
  note adj = adjacent_up [OF ok v]
  from live_word [OF ok adj(2)] extreme_lowest [OF ok range, of v] obtain c where c: "word_tick ts v c"
    "t = c * spacing" and low: "\<And>c'. word_tick ts v c' \<Longrightarrow> c \<le> c'" using t by blast
  have "\<not> initd ts c'" if "c' < c" and "w < c' div 16 div 256" for c'
  proof (cases "c' div 16 div 256 = v")
    case True
    then show ?thesis using low [of c'] that(1) by (auto simp: word_tick_def)
  next
    case False
    have "c' div 16 div 256 \<le> v"
      using c(1) that(1) zdiv_mono1 [OF zdiv_mono1 [of c' c 16], of 256] by (simp add: word_tick_def)
    with False that(2) show ?thesis by (intro dead_word [OF ok] adj(3)) simp_all
  qed
  then show ?thesis using c adj(1) by (auto simp: word_tick_def)
qed

text \<open>
  What a search from compressed tick \<open>k\<close> promises: the nearest initialized tick in its direction,
  or a boundary up to which there is none.
\<close>

definition nearest_down :: "tick_store \<Rightarrow> int \<Rightarrow> int \<Rightarrow> int \<times> bool \<Rightarrow> bool" where
  "nearest_down ts spacing k r \<longleftrightarrow> (let (t, found) = r in
     if found then \<exists>c. initd ts c \<and> t = c * spacing \<and> c \<le> k \<and> (\<forall>c'. c < c' \<longrightarrow> c' \<le> k \<longrightarrow> \<not> initd ts c')
     else \<forall>c. c \<le> k \<longrightarrow> initd ts c \<longrightarrow> c * spacing < t)"

definition nearest_up :: "tick_store \<Rightarrow> int \<Rightarrow> int \<Rightarrow> int \<times> bool \<Rightarrow> bool" where
  "nearest_up ts spacing k r \<longleftrightarrow> (let (t, found) = r in
     if found then \<exists>c. initd ts c \<and> t = c * spacing \<and> k < c \<and> (\<forall>c'. k < c' \<longrightarrow> c' < c \<longrightarrow> \<not> initd ts c')
     else \<forall>c. k < c \<longrightarrow> initd ts c \<longrightarrow> t < c * spacing)"

lemma find_tick_down_nearest:
  assumes ok: "index_ok ts" and range: "ticks_in_range spacing ts" and cok: "cache_ok ts cc"
    and k: "k * spacing \<le> MAX_TICK"
    and run: "find_tick_down ts k spacing cc = (r, cc')"
  shows "nearest_down ts spacing k r \<and> cache_ok ts cc'"
proof -
  let ?p = "k div 16" and ?s = "nat (k mod 16)"
  obtain chunk cc1 where get: "cache_get_chunk ts ?p cc = (chunk, cc1)" by fastforce
  note agree = cache_get_chunk_agree [OF ok cok get]
  define one where "one = find_in_chunk spacing ?p (rev [0 ..< ?s + 1]) chunk"
  have one: "case one of Some t \<Rightarrow> nearest_down ts spacing k (t, True)
    | None \<Rightarrow> \<forall>c. c \<le> k \<longrightarrow> c div 16 = ?p \<longrightarrow> \<not> initd ts c"
  proof (cases chunk)
    case None
    with agree(2) have dead: "\<And>s. s < 16 \<Longrightarrow> \<not> initd ts (?p * 16 + int s)" by simp
    have "\<not> initd ts c" if in_p: "c div 16 = ?p" for c
    proof -
      obtain s where "c = ?p * 16 + int s" and "s < 16" using slot_form [OF in_p] by blast
      with dead show ?thesis by simp
    qed
    with None show ?thesis by (simp add: one_def find_in_chunk_def)
  next
    case (Some ch)
    with agree(2) have ch: "slots_agree ts ?p ch" by simp
    show ?thesis
    proof (cases "List.find (slot_initialized ch) (rev [0 ..< ?s + 1])")
      case None
      with chunk_step_down(2) [OF ch refl None] Some show ?thesis
        by (simp add: one_def find_in_chunk_def)
    next
      case (Some s)
      let ?c = "?p * 16 + int s"
      from chunk_step_down(1) [OF ch refl Some] have c: "initd ts ?c" "?c \<le> k"
        "\<forall>c. ?c < c \<longrightarrow> c \<le> k \<longrightarrow> \<not> initd ts c" by blast+
      have "one = Some (?c * spacing)"
        using Some \<open>chunk = Some ch\<close> in_range_tick [OF range c(1)]
        by (simp add: one_def find_in_chunk_def TICKS_PER_CHUNK_def)
      with c show ?thesis by (auto simp: nearest_down_def)
    qed
  qed
  show ?thesis
  proof (cases one)
    case (Some t)
    then have "r = (t, True)" and "cc' = cc1"
      using run get by (simp_all add: find_tick_down_def chunk_address_def TICKS_PER_CHUNK_def one_def)
    with one Some agree(1) show ?thesis by simp
  next
    case one_none: None
    with one have none1: "\<And>c. c \<le> k \<Longrightarrow> c div 16 = ?p \<Longrightarrow> \<not> initd ts c" by simp
    obtain two cc2 where two: "find_in_word_down ts spacing (?p div 256) (nat (?p mod 256)) cc1 = (two, cc2)"
      by fastforce
    have pform: "?p = ?p div 256 * 256 + int (nat (?p mod 256))" "nat (?p mod 256) < 256"
      using word_form [OF refl, of ?p] by blast+
    note step2 = word_step_down [OF ok range agree(1) two pform]
    have mono: "c \<le> k \<Longrightarrow> c div 16 \<le> ?p" for c by (rule zdiv_mono1) simp_all
    show ?thesis
    proof (cases two)
      case (Some t)
      then have r: "r = (t, True)" and cc': "cc' = cc2"
        using run get one_none two
        by (simp_all add: find_tick_down_def chunk_address_def TICKS_PER_CHUNK_def one_def chunk_bitmap_position_def)
      from step2(2) Some obtain c where c: "initd ts c" "t = c * spacing" "c div 16 < ?p"
        and gap: "\<And>c'. c < c' \<Longrightarrow> c' div 16 < ?p \<Longrightarrow> \<not> initd ts c'" by auto
      have "\<not> initd ts c'" if "c < c'" and "c' \<le> k" for c'
        using gap [OF that(1)] none1 [OF that(2)] mono [OF that(2)] by (cases "c' div 16 = ?p") auto
      moreover have "c \<le> k"
      proof (rule ccontr)
        assume "\<not> c \<le> k"
        then have "?p \<le> c div 16" by (intro zdiv_mono1) simp_all
        with c(3) show False by simp
      qed
      ultimately show ?thesis using c r cc' step2(1) by (auto simp: nearest_down_def)
    next
      case two_none: None
      with step2(2) have none2: "\<And>c. c div 16 < ?p \<Longrightarrow> c div 16 div 256 = ?p div 256 \<Longrightarrow> \<not> initd ts c" by simp
      have none12: "\<not> initd ts c" if "c \<le> k" and "c div 16 div 256 = ?p div 256" for c
        using none1 [OF that(1)] none2 [OF _ that(2)] mono [OF that(1)] by (cases "c div 16 = ?p") auto
      show ?thesis
      proof (cases "find_beyond_word ts spacing (?p div 256) True")
        case (Some t)
        then have r: "r = (t, True)" and cc': "cc' = cc2"
          using run get one_none two two_none
          by (simp_all add: find_tick_down_def chunk_address_def TICKS_PER_CHUNK_def one_def chunk_bitmap_position_def)
        from beyond_down [OF ok range Some] obtain c where c: "initd ts c" "t = c * spacing"
          "c div 16 div 256 < ?p div 256"
          and gap: "\<And>c'. c < c' \<Longrightarrow> c' div 16 div 256 < ?p div 256 \<Longrightarrow> \<not> initd ts c'" by blast
        have "\<not> initd ts c'" if "c < c'" and "c' \<le> k" for c'
          using gap [OF that(1)] none12 [OF that(2)] zdiv_mono1 [OF mono [OF that(2)], of 256]
          by (cases "c' div 16 div 256 = ?p div 256") auto
        moreover have "c \<le> k"
        proof (rule ccontr)
          assume "\<not> c \<le> k"
          then have "?p div 256 \<le> c div 16 div 256" by (intro zdiv_mono1) simp_all
          with c(3) show False by simp
        qed
        ultimately show ?thesis using c r cc' step2(1) by (auto simp: nearest_down_def)
      next
        case None
        let ?B = "?p div 256 * 256 * 16"
        have r: "r = (compressed_to_tick ?B spacing, False)" and cc': "cc' = cc2"
          using run get one_none two two_none None
          by (simp_all add: find_tick_down_def chunk_address_def TICKS_PER_CHUNK_def one_def chunk_bitmap_position_def)
        have "?B \<le> k" using div256 [of ?p] div16 [of k] by linarith
        with range have "?B * spacing \<le> k * spacing" by (simp add: ticks_in_range_def)
        with k have top: "?B * spacing \<le> MAX_TICK" by linarith
        have "c * spacing < compressed_to_tick ?B spacing" if "c \<le> k" and "initd ts c" for c
        proof -
          have "c div 16 div 256 \<noteq> ?p div 256" using none12 [OF that(1)] that(2) by blast
          moreover have "c div 16 div 256 \<le> ?p div 256"
            using zdiv_mono1 [OF mono [OF that(1)], of 256] by simp
          ultimately have "c div 16 div 256 + 1 \<le> ?p div 256" by simp
          moreover have "c < (c div 16 div 256 + 1) * 256 * 16"
            using div256 [of "c div 16"] div16 [of c] unfolding ring_distribs by linarith
          ultimately have "c < ?B" unfolding ring_distribs by linarith
          then have "c * spacing < ?B * spacing" using range by (simp add: ticks_in_range_def)
          moreover have "MIN_TICK \<le> c * spacing" using range that(2) by (simp add: ticks_in_range_def)
          ultimately show ?thesis using top by (simp add: compressed_to_tick_in_range)
        qed
        then show ?thesis using r cc' step2(1) by (simp add: nearest_down_def)
      qed
    qed
  qed
qed

lemma find_tick_up_nearest:
  assumes ok: "index_ok ts" and range: "ticks_in_range spacing ts" and cok: "cache_ok ts cc"
    and k: "MIN_TICK \<le> (k + 1) * spacing" "- (2 ^ 31) \<le> k + 1" "k + 1 < 2 ^ 31"
    and run: "find_tick_up ts k spacing cc = (r, cc')"
  shows "nearest_up ts spacing k r \<and> cache_ok ts cc'"
proof -
  let ?k = "k + 1"
  let ?p = "?k div 16" and ?s = "nat (?k mod 16)"
  have sat: "saturate_i32 ?k = ?k" using k(2,3) by (simp add: saturate_i32_def)
  obtain chunk cc1 where get: "cache_get_chunk ts ?p cc = (chunk, cc1)" by fastforce
  note agree = cache_get_chunk_agree [OF ok cok get]
  define one where "one = find_in_chunk spacing ?p [?s ..< 16] chunk"
  have one: "case one of Some t \<Rightarrow> nearest_up ts spacing k (t, True)
    | None \<Rightarrow> \<forall>c. ?k \<le> c \<longrightarrow> c div 16 = ?p \<longrightarrow> \<not> initd ts c"
  proof (cases chunk)
    case None
    with agree(2) have dead: "\<And>s. s < 16 \<Longrightarrow> \<not> initd ts (?p * 16 + int s)" by simp
    have "\<not> initd ts c" if in_p: "c div 16 = ?p" for c
    proof -
      obtain s where "c = ?p * 16 + int s" and "s < 16" using slot_form [OF in_p] by blast
      with dead show ?thesis by simp
    qed
    with None show ?thesis by (simp add: one_def find_in_chunk_def)
  next
    case (Some ch)
    with agree(2) have ch: "slots_agree ts ?p ch" by simp
    show ?thesis
    proof (cases "List.find (slot_initialized ch) [?s ..< 16]")
      case None
      with chunk_step_up(2) [OF ch refl None] Some show ?thesis
        by (simp add: one_def find_in_chunk_def)
    next
      case (Some s)
      let ?c = "?p * 16 + int s"
      from chunk_step_up(1) [OF ch refl Some] have c: "initd ts ?c" "?k \<le> ?c"
        "\<forall>c. ?k \<le> c \<longrightarrow> c < ?c \<longrightarrow> \<not> initd ts c" by blast+
      have "one = Some (?c * spacing)"
        using Some \<open>chunk = Some ch\<close> in_range_tick [OF range c(1)]
        by (simp add: one_def find_in_chunk_def TICKS_PER_CHUNK_def)
      with c show ?thesis by (auto simp: nearest_up_def)
    qed
  qed
  show ?thesis
  proof (cases one)
    case (Some t)
    then have "r = (t, True)" and "cc' = cc1"
      using run get by (simp_all add: find_tick_up_def sat chunk_address_def TICKS_PER_CHUNK_def one_def)
    with one Some agree(1) show ?thesis by simp
  next
    case one_none: None
    with one have none1: "\<And>c. ?k \<le> c \<Longrightarrow> c div 16 = ?p \<Longrightarrow> \<not> initd ts c" by simp
    obtain two cc2 where two: "find_in_word_up ts spacing (?p div 256) (nat (?p mod 256)) cc1 = (two, cc2)"
      by fastforce
    have pform: "?p = ?p div 256 * 256 + int (nat (?p mod 256))" "nat (?p mod 256) < 256"
      using word_form [OF refl, of ?p] by blast+
    note step2 = word_step_up [OF ok range agree(1) two pform]
    have mono: "?k \<le> c \<Longrightarrow> ?p \<le> c div 16" for c by (rule zdiv_mono1) simp_all
    show ?thesis
    proof (cases two)
      case (Some t)
      then have r: "r = (t, True)" and cc': "cc' = cc2"
        using run get one_none two
        by (simp_all add: find_tick_up_def sat chunk_address_def TICKS_PER_CHUNK_def one_def chunk_bitmap_position_def)
      from step2(2) Some obtain c where c: "initd ts c" "t = c * spacing" "?p < c div 16"
        and gap: "\<And>c'. c' < c \<Longrightarrow> ?p < c' div 16 \<Longrightarrow> \<not> initd ts c'" by auto
      have "\<not> initd ts c'" if "c' < c" and "?k \<le> c'" for c'
        using gap [OF that(1)] none1 [OF that(2)] mono [OF that(2)] by (cases "c' div 16 = ?p") auto
      moreover have "?k \<le> c"
      proof (rule ccontr)
        assume "\<not> ?k \<le> c"
        then have "c div 16 \<le> ?p" by (intro zdiv_mono1) simp_all
        with c(3) show False by simp
      qed
      ultimately show ?thesis using c r cc' step2(1) by (auto simp: nearest_up_def)
    next
      case two_none: None
      with step2(2) have none2: "\<And>c. ?p < c div 16 \<Longrightarrow> c div 16 div 256 = ?p div 256 \<Longrightarrow> \<not> initd ts c" by simp
      have none12: "\<not> initd ts c" if "?k \<le> c" and "c div 16 div 256 = ?p div 256" for c
        using none1 [OF that(1)] none2 [OF _ that(2)] mono [OF that(1)] by (cases "c div 16 = ?p") auto
      show ?thesis
      proof (cases "find_beyond_word ts spacing (?p div 256) False")
        case (Some t)
        then have r: "r = (t, True)" and cc': "cc' = cc2"
          using run get one_none two two_none
          by (simp_all add: find_tick_up_def sat chunk_address_def TICKS_PER_CHUNK_def one_def chunk_bitmap_position_def)
        from beyond_up [OF ok range Some] obtain c where c: "initd ts c" "t = c * spacing"
          "?p div 256 < c div 16 div 256"
          and gap: "\<And>c'. c' < c \<Longrightarrow> ?p div 256 < c' div 16 div 256 \<Longrightarrow> \<not> initd ts c'" by blast
        have "\<not> initd ts c'" if "c' < c" and "?k \<le> c'" for c'
          using gap [OF that(1)] none12 [OF that(2)] zdiv_mono1 [OF mono [OF that(2)], of 256]
          by (cases "c' div 16 div 256 = ?p div 256") auto
        moreover have "?k \<le> c"
        proof (rule ccontr)
          assume "\<not> ?k \<le> c"
          then have "c div 16 div 256 \<le> ?p div 256" by (intro zdiv_mono1) simp_all
          with c(3) show False by simp
        qed
        ultimately show ?thesis using c r cc' step2(1) by (auto simp: nearest_up_def)
      next
        case None
        let ?B = "(?p div 256 * 256 + 255) * 16 + 15"
        have r: "r = (compressed_to_tick ?B spacing, False)" and cc': "cc' = cc2"
          using run get one_none two two_none None
          by (simp_all add: find_tick_up_def sat chunk_address_def TICKS_PER_CHUNK_def one_def chunk_bitmap_position_def)
        have "?k \<le> ?B" using div256 [of ?p] div16 [of ?k] unfolding ring_distribs by linarith
        with range have "?k * spacing \<le> ?B * spacing" by (simp add: ticks_in_range_def)
        with k have low: "MIN_TICK \<le> ?B * spacing" by linarith
        have "compressed_to_tick ?B spacing < c * spacing" if "?k \<le> c" and "initd ts c" for c
        proof -
          have "c div 16 div 256 \<noteq> ?p div 256" using none12 [OF that(1)] that(2) by blast
          moreover have "?p div 256 \<le> c div 16 div 256"
            using zdiv_mono1 [OF mono [OF that(1)], of 256] by simp
          ultimately have "?p div 256 + 1 \<le> c div 16 div 256" by simp
          moreover have "c div 16 div 256 * 256 * 16 \<le> c"
            using div256 [of "c div 16"] div16 [of c] by linarith
          ultimately have "?B < c" unfolding ring_distribs by linarith
          then have "?B * spacing < c * spacing" using range by (simp add: ticks_in_range_def)
          moreover have "c * spacing \<le> MAX_TICK" using range that(2) by (simp add: ticks_in_range_def)
          ultimately show ?thesis using low by (simp add: compressed_to_tick_in_range)
        qed
        then show ?thesis using r cc' step2(1) by (simp add: nearest_up_def)
      qed
    qed
  qed
qed

end
