(* ===== verification/CL_Tick_Update.thy ===== *)
theory CL_Tick_Update
  imports CL_Index
begin

text \<open>
  \<open>update_tick_liquidity\<close> on the index: it changes the membership of one tick, keeps \<open>index_ok\<close>, and
  keeps the stored bounds around every initialized tick.
\<close>

section \<open>The two bitmaps\<close>

definition indexes :: "tick_store \<Rightarrow> (int \<Rightarrow> bool) \<Rightarrow> bool" where
  \<comment> \<open>the bitmaps hold exactly the chunks \<open>L\<close>\<close>
  "indexes ts L \<longleftrightarrow>
     (\<forall>p. bit (ts_chunk_bitmap ts (p div 256)) (nat (p mod 256)) \<longleftrightarrow> L p)
   \<and> (\<forall>w. bit (ts_word_bitmap ts (w div 256)) (nat (w mod 256)) \<longleftrightarrow> ts_chunk_bitmap ts w \<noteq> 0)
   \<and> (\<forall>w. ts_chunk_bitmap ts w < 2 ^ 256)"

lemma index_ok_iff:
  "index_ok ts \<longleftrightarrow> (\<forall>p chunk. ts_chunks ts p = Some chunk \<longrightarrow> length chunk = 16) \<and> indexes ts (chunk_live ts)"
  by (auto simp: index_ok_def indexes_def)

lemma array_zero: "x < 2 ^ 256 \<Longrightarrow> u256_to_array x = replicate 32 0 \<longleftrightarrow> x = 0"
proof
  assume x: "x < 2 ^ 256" and z: "u256_to_array x = replicate 32 0"
  show "x = 0"
  proof (rule bit_eqI)
    fix n
    show "bit x n \<longleftrightarrow> bit 0 n"
    proof (cases "n < 256")
      case True
      then have "bit x n \<longleftrightarrow> byte_bit (replicate 32 0) n" using to_array_bit [OF True, of x] z by simp
      then show ?thesis using True by (simp add: byte_bit_def)
    next
      case False
      have "take_bit 256 x = x" by (rule take_bit_nat_eq_self [OF x])
      then show ?thesis using False by (metis bit_0_eq bit_take_bit_iff bot_apply bot_bool_def)
    qed
  qed
next
  assume "x = 0"
  then show "u256_to_array x = replicate 32 0"
    by (simp add: u256_to_array_def to_be_bytes_def map_replicate_const)
qed

lemma fold_zero_bytes: "foldl (\<lambda>v b. v * 256 + unat (b :: 8 word)) 0 (replicate n 0) = (0 :: nat)"
  by (induction n) simp_all

lemma set_array_zero:
  assumes "x < 2 ^ 256" and "p < 256"
  shows "set_bit_be (u256_to_array x) p v = replicate 32 0 \<longleftrightarrow> write_bit x p v = 0"
proof -
  let ?w = "set_bit_be (u256_to_array x) p v"
  have len: "length ?w = 32" by simp
  have "?w = replicate 32 0" if "write_bit x p v = 0"
  proof (rule nth_equalityI)
    fix i assume "i < length ?w"
    then have i: "i < 32" by simp
    have "?w ! i = 0"
    proof (rule bit_word_eqI)
      fix k assume "k < LENGTH(8)"
      then have k: "k < 8" by simp
      let ?n = "(31 - i) * 8 + k"
      have "\<not> byte_bit ?w ?n"
        using from_array_bit [OF len, of ?n] that i k by (simp add: write_bit_def)
      then show "bit (?w ! i) k \<longleftrightarrow> bit 0 k" using byte_bit_at [OF i k, of ?w] by simp
    qed
    then show "?w ! i = replicate 32 0 ! i" using i by simp
  qed simp
  moreover have "write_bit x p v = 0" if "?w = replicate 32 0"
    unfolding write_bit_def that by (simp add: u256_from_array_def fold_zero_bytes)
  ultimately show ?thesis by blast
qed

lemma write_bit_less: "write_bit x p v < 2 ^ 256"
  unfolding write_bit_def by (rule from_array_less) simp

lemma div_mod_eq_iff: "q div 256 = p div 256 \<and> nat (q mod 256) = nat (p mod 256) \<longleftrightarrow> q = p" for p q :: int
  by (metis div256 eq_nat_nat_iff)

lemma update_bit_indexes:
  assumes ix: "indexes ts L"
  shows "indexes (update_chunk_bitmap_bit p v ts) (L(p := v))"
    and "ts_chunks (update_chunk_bitmap_bit p v ts) = ts_chunks ts"
    and "ts_min_init (update_chunk_bitmap_bit p v ts) = ts_min_init ts"
    and "ts_max_init (update_chunk_bitmap_bit p v ts) = ts_max_init ts"
proof -
  let ?w = "p div 256" and ?b = "nat (p mod 256)"
  let ?x = "ts_chunk_bitmap ts ?w"
  let ?x' = "write_bit ?x ?b v"
  let ?l = "?w div 256" and ?lb = "nat (?w mod 256)"
  let ?ts = "update_chunk_bitmap_bit p v ts"
  have b: "?b < 256" and lb: "?lb < 256" by auto
  have x: "?x < 2 ^ 256" using ix by (simp add: indexes_def)
  have zero: "u256_to_array ?x = replicate 32 0 \<longleftrightarrow> ?x = 0"
    "set_bit_be (u256_to_array ?x) ?b v = replicate 32 0 \<longleftrightarrow> ?x' = 0"
    by (rule array_zero [OF x], rule set_array_zero [OF x b])
  have upd: "?ts = (let ts = ts\<lparr>ts_chunk_bitmap := (ts_chunk_bitmap ts)(?w := ?x')\<rparr> in
    if (?x = 0) \<noteq> (?x' = 0)
    then ts\<lparr>ts_word_bitmap := (ts_word_bitmap ts)(?l := write_bit (ts_word_bitmap ts ?l) ?lb (?x' \<noteq> 0))\<rparr>
    else ts)"
    unfolding update_chunk_bitmap_bit_def chunk_bitmap_position_def word_bitmap_position_def Let_def
      prod.case zero write_bit_def [symmetric] by simp
  show "ts_chunks ?ts = ts_chunks ts" "ts_min_init ?ts = ts_min_init ts" "ts_max_init ?ts = ts_max_init ts"
    unfolding upd by (simp_all add: Let_def)
  have cb: "ts_chunk_bitmap ?ts = (ts_chunk_bitmap ts)(?w := ?x')"
    unfolding upd by (simp add: Let_def)
  have wb: "bit (ts_word_bitmap ?ts (w div 256)) (nat (w mod 256)) \<longleftrightarrow> ts_chunk_bitmap ?ts w \<noteq> 0" for w
  proof -
    have old: "bit (ts_word_bitmap ts (u div 256)) (nat (u mod 256)) \<longleftrightarrow> ts_chunk_bitmap ts u \<noteq> 0" for u
      using ix by (simp add: indexes_def)
    have nb: "nat (w mod 256) < 256" by auto
    have same: "w div 256 = ?l \<and> nat (w mod 256) = ?lb \<longleftrightarrow> w = ?w" by (rule div_mod_eq_iff)
    show ?thesis
    proof (cases "(?x = 0) \<noteq> (?x' = 0)")
      case True
      then have "ts_word_bitmap ?ts = (ts_word_bitmap ts)(?l := write_bit (ts_word_bitmap ts ?l) ?lb (?x' \<noteq> 0))"
        unfolding upd by (simp add: Let_def)
      then have wbm: "ts_word_bitmap ?ts (w div 256) =
        (if w div 256 = ?l then write_bit (ts_word_bitmap ts ?l) ?lb (?x' \<noteq> 0) else ts_word_bitmap ts (w div 256))"
        by simp
      note wr = write_bit_bit [OF lb, of "ts_word_bitmap ts ?l" "?x' \<noteq> 0" "nat (w mod 256)"]
      show ?thesis
      proof (cases "w = ?w")
        case True
        then show ?thesis using wr lb unfolding wbm cb by simp
      next
        case False
        then have "bit (ts_word_bitmap ?ts (w div 256)) (nat (w mod 256))
          \<longleftrightarrow> bit (ts_word_bitmap ts (w div 256)) (nat (w mod 256))"
        proof (cases "w div 256 = ?l")
          case True
          with same False have "nat (w mod 256) \<noteq> ?lb" by blast
          with wr nb True show ?thesis unfolding wbm by (simp only: if_True if_False simp_thms)
        qed (simp only: wbm if_False)
        also have "\<dots> \<longleftrightarrow> ts_chunk_bitmap ts w \<noteq> 0" by (rule old)
        also have "ts_chunk_bitmap ts w = ts_chunk_bitmap ?ts w" using False unfolding cb by simp
        finally show ?thesis .
      qed
    next
      case False
      then have "ts_word_bitmap ?ts = ts_word_bitmap ts" unfolding upd by (simp add: Let_def)
      with old [of w] False show ?thesis unfolding cb by (cases "w = ?w") auto
    qed
  qed
  have "bit (ts_chunk_bitmap ?ts (q div 256)) (nat (q mod 256)) \<longleftrightarrow> (L(p := v)) q" for q
  proof -
    note wr = write_bit_bit [OF b, of ?x v "nat (q mod 256)"]
    have nb: "nat (q mod 256) < 256" by auto
    have old: "bit (ts_chunk_bitmap ts (q div 256)) (nat (q mod 256)) \<longleftrightarrow> L q"
      using ix unfolding indexes_def by blast
    show ?thesis
    proof (cases "q = p")
      case True
      then show ?thesis using wr b unfolding cb by simp
    next
      case False
      have "bit (ts_chunk_bitmap ?ts (q div 256)) (nat (q mod 256))
        \<longleftrightarrow> bit (ts_chunk_bitmap ts (q div 256)) (nat (q mod 256))"
      proof (cases "q div 256 = ?w")
        case True
        with div_mod_eq_iff [of q p] False have "nat (q mod 256) \<noteq> ?b" by blast
        with wr nb True show ?thesis
          unfolding cb by (simp only: fun_upd_same if_True if_False simp_thms)
      qed (simp only: cb fun_upd_other not_False_eq_True)
      with old False show ?thesis by simp
    qed
  qed
  moreover have "ts_chunk_bitmap ?ts w < 2 ^ 256" for w
  proof -
    have "ts_chunk_bitmap ts w < 2 ^ 256" using ix unfolding indexes_def by blast
    moreover have "ts_chunk_bitmap ?ts w \<in> {?x', ts_chunk_bitmap ts w}" unfolding cb by simp
    ultimately show ?thesis using write_bit_less [of ?x ?b v] by (elim insertE emptyE) (simp_all only:)
  qed
  ultimately show "indexes ?ts (L(p := v))" using wb unfolding indexes_def by blast
qed

section \<open>Writing one tick\<close>

definition write_slot :: "int \<Rightarrow> tick_info \<Rightarrow> tick_store \<Rightarrow> tick_store" where
  \<comment> \<open>the chunk of compressed tick \<open>c\<close> with that tick replaced\<close>
  "write_slot c tick ts = set_tick_chunk (c div 16)
     ((get_or_create_tick_chunk ts (c div 16))[nat (c mod 16) := tick]) ts"

lemma write_slot_initd:
  assumes ok: "index_ok ts"
  shows "initd (write_slot c tick ts) d \<longleftrightarrow> (if d = c then 0 < liquidity_gross tick else initd ts d)"
proof -
  let ?s = "nat (c mod 16)" and ?t = "nat (d mod 16)"
  have len: "length (get_or_create_tick_chunk ts p) = 16" for p
    using created_agree [OF ok, of p] by (simp add: slots_agree_def)
  have t: "?t < 16" by auto
  have same: "d div 16 = c div 16 \<and> ?t = ?s \<longleftrightarrow> d = c"
    by (metis div16 eq_nat_nat_iff)
  show ?thesis
  proof (cases "d div 16 = c div 16")
    case True
    have "initd (write_slot c tick ts) d \<longleftrightarrow>
      slot_initialized ((get_or_create_tick_chunk ts (c div 16))[?s := tick]) ?t"
      using True by (simp add: initd_def write_slot_def set_tick_chunk_def)
    also have "\<dots> \<longleftrightarrow> (if ?t = ?s then 0 < liquidity_gross tick
        else slot_initialized (get_or_create_tick_chunk ts (c div 16)) ?t)"
      using t len by (simp add: slot_initialized_def nth_list_update)
    also have "slot_initialized (get_or_create_tick_chunk ts (c div 16)) ?t \<longleftrightarrow> initd ts d"
      using get_or_create_initd [OF ok t, of "c div 16"] True slot_form [of d "c div 16"] by metis
    finally show ?thesis using True same by auto
  next
    case False
    then show ?thesis using same by (auto simp: initd_def write_slot_def set_tick_chunk_def)
  qed
qed

lemma write_slot_rest [simp]:
  "ts_chunk_bitmap (write_slot c tick ts) = ts_chunk_bitmap ts"
  "ts_word_bitmap (write_slot c tick ts) = ts_word_bitmap ts"
  "ts_min_init (write_slot c tick ts) = ts_min_init ts"
  "ts_max_init (write_slot c tick ts) = ts_max_init ts"
  by (simp_all add: write_slot_def set_tick_chunk_def)

lemma write_slot_lengths:
  assumes "index_ok ts" and "ts_chunks (write_slot c tick ts) p = Some chunk"
  shows "length chunk = 16"
  using assms created_agree [OF assms(1), of "c div 16"]
  by (auto simp: write_slot_def set_tick_chunk_def slots_agree_def index_okD(1) split: if_splits)

lemma write_slot_indexes: "index_ok ts \<Longrightarrow> indexes (write_slot c tick ts) (chunk_live ts)"
  by (simp add: index_ok_iff indexes_def)

lemma write_slot_live:
  assumes "index_ok ts"
  shows "p \<noteq> c div 16 \<Longrightarrow> chunk_live (write_slot c tick ts) p \<longleftrightarrow> chunk_live ts p"
    and "0 < liquidity_gross tick \<Longrightarrow> chunk_live (write_slot c tick ts) (c div 16)"
    and "(0 < liquidity_gross tick \<longleftrightarrow> initd ts c) \<Longrightarrow> chunk_live (write_slot c tick ts) p \<longleftrightarrow> chunk_live ts p"
  unfolding chunk_live_def write_slot_initd [OF assms] by metis+

lemma chunk_has_initialized_live:
  assumes "slots_agree ts p chunk"
  shows "chunk_has_initialized chunk \<longleftrightarrow> chunk_live ts p"
  using assms
  by (auto simp: chunk_has_initialized_def chunk_live_slot slots_agree_def TICKS_PER_CHUNK_def Bex_def)

lemma initd_cong: "ts_chunks t = ts_chunks s \<Longrightarrow> initd t = initd s" "ts_chunks t = ts_chunks s \<Longrightarrow> chunk_live t = chunk_live s"
  by (auto simp: initd_def chunk_live_def fun_eq_iff)

lemma update_bit_ok:
  assumes "indexes ts L" and "\<And>p chunk. ts_chunks ts p = Some chunk \<Longrightarrow> length chunk = 16"
    and "L(p := v) = chunk_live ts"
  shows "index_ok (update_chunk_bitmap_bit p v ts)"
  using update_bit_indexes [OF assms(1), of p v] assms(2,3)
  by (simp add: index_ok_iff initd_cong(2) [OF update_bit_indexes(2) [OF assms(1)]])

section \<open>The bounds\<close>

definition bounds_ok :: "int \<Rightarrow> tick_store \<Rightarrow> bool" where
  "bounds_ok spacing ts \<longleftrightarrow> (\<forall>c. initd ts c \<longrightarrow> ts_min_init ts \<le> c * spacing \<and> c * spacing \<le> ts_max_init ts)"

lemma bounds_ok_no_ticks: "bounds_ok spacing no_ticks"
  by (simp add: bounds_ok_def no_ticks_def initd_def)

lemma word_span: "u div 256 = l \<Longrightarrow> l * 256 \<le> u \<and> u \<le> l * 256 + 255" for u l :: int
  by auto

lemma bounded_words:
  assumes s: "0 < spacing" and c: "MIN_TICK \<le> c * spacing" "c * spacing \<le> MAX_TICK"
  shows "c div 16 div 256 div 256 \<in> {- 1, 0}"
proof -
  have "\<bar>c\<bar> * 1 \<le> \<bar>c\<bar> * spacing" using s by (intro mult_left_mono) simp_all
  also have "\<bar>c\<bar> * spacing = \<bar>c * spacing\<bar>" using s by (simp add: abs_mult)
  also have "\<dots> \<le> 887272" using c by (simp add: tick_defs)
  finally have "- 887272 \<le> c" and "c \<le> 887272" by auto
  then have "- 1048576 \<le> c" and "c \<le> 1048575" by simp_all
  then have "- 65536 \<le> c div 16" and "c div 16 \<le> 65535"
    using zdiv_mono1 [of "- 1048576" c 16] zdiv_mono1 [of c 1048575 16] by simp_all
  then have "- 256 \<le> c div 16 div 256" and "c div 16 div 256 \<le> 255"
    using zdiv_mono1 [of "- 65536" "c div 16" 256] zdiv_mono1 [of "c div 16" 65535 256] by simp_all
  then show ?thesis
    using zdiv_mono1 [of "- 256" "c div 16 div 256" 256] zdiv_mono1 [of "c div 16 div 256" 255 256] by auto
qed

lemma search_none_up:
  "index_ok ts \<Longrightarrow> from \<le> 255 \<Longrightarrow> search_word_bitmap ts False l2 from = None \<Longrightarrow> u div 256 = l2 \<Longrightarrow>
    l2 * 256 + int from \<le> u \<Longrightarrow> ts_chunk_bitmap ts u = 0"
  using search_up [of ts "from" l2] by simp

lemma search_none_down:
  "index_ok ts \<Longrightarrow> from \<le> 255 \<Longrightarrow> search_word_bitmap ts True l2 from = None \<Longrightarrow> u div 256 = l2 \<Longrightarrow>
    u \<le> l2 * 256 + int from \<Longrightarrow> ts_chunk_bitmap ts u = 0"
  using search_down [of ts "from" l2] by simp

lemma two_l2_words: "l \<le> e \<Longrightarrow> e \<noteq> l \<Longrightarrow> e \<noteq> l + 1 \<Longrightarrow> e \<in> {- 1, 0} \<Longrightarrow> l \<in> {- 1, 0} \<Longrightarrow> False" for l e :: int
  by auto

lemma find_next_global_up:
  assumes ok: "index_ok ts" and range: "ticks_in_range spacing ts" and d: "initd ts d"
    and below: "\<And>d. initd ts d \<Longrightarrow> from_tick \<le> d * spacing"
    and from_c: "from_tick = c * spacing" "MIN_TICK \<le> from_tick" "from_tick \<le> MAX_TICK"
  shows "find_next_global_tick ts from_tick spacing False \<le> d * spacing"
proof -
  have s: "0 < spacing" using range by (simp add: ticks_in_range_def)
  have comp: "compress_tick from_tick spacing = c" using s by (simp add: from_c(1) compress_tick_div)
  have ge: "c \<le> d'" if "initd ts d'" for d' using below [OF that] s by (simp add: from_c(1))
  let ?w = "c div 16 div 256"
  have word_ge: "?w \<le> d' div 16 div 256" if "initd ts d'" for d'
    using ge [OF that] by (intro zdiv_mono1) simp_all
  have low: "extreme_tick_in_bitmap_word ts w spacing False \<le> d' * spacing" if "word_tick ts w d'" for w d'
    using extreme_lowest [OF ok range, of w] that s by (auto intro: mult_right_mono)
  have le_max: "d * spacing \<le> MAX_TICK" using range d by (simp add: ticks_in_range_def)
  let ?e = "extreme_tick_in_bitmap_word ts ?w spacing False"
  show ?thesis
  proof (cases "?e = MAX_TICK")
    case False
    have "?e \<le> d * spacing"
    proof (cases "d div 16 div 256 = ?w")
      case True
      then show ?thesis using low [of ?w d] d by (simp add: word_tick_def)
    next
      case other: False
      then have "?w < d div 16 div 256" using word_ge [OF d] by simp
      from False extreme_lowest [OF ok range, of ?w] obtain c' where "word_tick ts ?w c'" and "?e = c' * spacing"
        by auto
      moreover have "c' \<le> d"
      proof (rule ccontr)
        assume "\<not> ?thesis"
        then have "d div 16 div 256 \<le> c' div 16 div 256" by (intro zdiv_mono1) simp_all
        with \<open>?w < d div 16 div 256\<close> \<open>word_tick ts ?w c'\<close> show False by (simp add: word_tick_def)
      qed
      ultimately show ?thesis using s by (simp add: mult_right_mono)
    qed
    then show ?thesis using False comp
      by (simp add: find_next_global_tick_def chunk_address_def chunk_bitmap_position_def TICKS_PER_CHUNK_def Let_def)
  next
    case True
    let ?l = "?w div 256" and ?lb = "nat (?w mod 256)"
    have wf: "?w = ?l * 256 + int ?lb" "?lb < 256" using word_form [OF refl, of ?w] by blast+
    have ext: "extreme_tick_in_bitmap_word ts v spacing False \<le> d * spacing"
      if v: "\<And>u. ?w < u \<Longrightarrow> u < v \<Longrightarrow> ts_chunk_bitmap ts u = 0" "ts_chunk_bitmap ts v \<noteq> 0" for v
    proof -
      from live_word [OF ok v(2)] extreme_lowest [OF ok range, of v] obtain c' where c': "word_tick ts v c'"
        "extreme_tick_in_bitmap_word ts v spacing False = c' * spacing" "\<And>d'. word_tick ts v d' \<Longrightarrow> c' \<le> d'" by blast
      consider "d div 16 div 256 = ?w" | "?w < d div 16 div 256" using word_ge [OF d] by linarith
      then show ?thesis
      proof cases
        case 1
        with low [of ?w d] d True le_max have "d * spacing = MAX_TICK" by (simp add: word_tick_def)
        moreover have "c' * spacing \<le> MAX_TICK" using c'(1) range by (simp add: word_tick_def ticks_in_range_def)
        ultimately show ?thesis using c'(2) by simp
      next
        case 2
        with v(1) [of "d div 16 div 256"] dead_word [OF ok, of d] d have "v \<le> d div 16 div 256" by (meson not_le)
        have "c' \<le> d"
        proof (cases "d div 16 div 256 = v")
          case False
          show ?thesis
          proof (rule ccontr)
            assume "\<not> ?thesis"
            then have "d div 16 div 256 \<le> c' div 16 div 256" by (intro zdiv_mono1) simp_all
            with c'(1) \<open>v \<le> d div 16 div 256\<close> False show False by (simp add: word_tick_def)
          qed
        qed (use c'(3) d in \<open>simp add: word_tick_def\<close>)
        then show ?thesis using s c'(2) by (simp add: mult_right_mono)
      qed
    qed
    have run: "find_next_global_tick ts from_tick spacing False =
      (case find_adjacent_bitmap_word ts ?w False of
        Some v \<Rightarrow> extreme_tick_in_bitmap_word ts v spacing False | None \<Rightarrow> MAX_TICK)"
      using True comp
      by (simp add: find_next_global_tick_def chunk_address_def chunk_bitmap_position_def word_bitmap_position_def
          TICKS_PER_CHUNK_def Let_def find_adjacent_bitmap_word_def split: option.split)
    show ?thesis
    proof (cases "find_adjacent_bitmap_word ts ?w False")
      case (Some v)
      then show ?thesis using ext [OF adjacent_up(3) [OF ok Some] adjacent_up(2) [OF ok Some]] run by simp
    next
      case None
      have "d div 16 div 256 = ?w"
      proof (rule ccontr)
        assume "\<not> ?thesis"
        then have gt: "?w < d div 16 div 256" using word_ge [OF d] by simp
        have own: "search_own_l2_word ts False ?l ?lb = None"
          and next_l2: "search_word_bitmap ts False (?l + 1) 0 = None"
          using None by (auto simp: find_adjacent_bitmap_word_def word_bitmap_position_def split: option.splits)
        have live: "ts_chunk_bitmap ts (d div 16 div 256) \<noteq> 0" using dead_word [OF ok] d by blast
        have "?l \<le> d div 16 div 256 div 256" using gt by (intro zdiv_mono1) simp_all
        moreover have "d div 16 div 256 div 256 \<noteq> ?l"
        proof
          assume same: "d div 16 div 256 div 256 = ?l"
          have u: "d div 16 div 256 \<le> ?l * 256 + 255" using word_span [OF same] by blast
          then have "?lb < 255" using gt wf by linarith
          then have "search_word_bitmap ts False ?l (?lb + 1) = None" and "?lb + 1 \<le> 255"
            using own by (simp_all add: search_own_l2_word_def)
          moreover have "?l * 256 + int (?lb + 1) \<le> d div 16 div 256" using gt wf by linarith
          ultimately have "ts_chunk_bitmap ts (d div 16 div 256) = 0"
            using search_none_up [OF ok _ _ same] by blast
          with live show False ..
        qed
        moreover have "d div 16 div 256 div 256 \<noteq> ?l + 1"
        proof
          assume same: "d div 16 div 256 div 256 = ?l + 1"
          have "(?l + 1) * 256 \<le> d div 16 div 256" using word_span [OF same] by blast
          then have "ts_chunk_bitmap ts (d div 16 div 256) = 0"
            using search_none_up [OF ok _ next_l2 same] by simp
          with live show False ..
        qed
        moreover have "d div 16 div 256 div 256 \<in> {- 1, 0}"
          using range d by (intro bounded_words [OF s]) (simp_all add: ticks_in_range_def)
        moreover have "?l \<in> {- 1, 0}"
          using from_c by (intro bounded_words [OF s]) simp_all
        ultimately show False by (rule two_l2_words)
      qed
      then have "d * spacing = MAX_TICK" using low [of ?w d] d True le_max by (simp add: word_tick_def)
      then show ?thesis using run None by simp
    qed
  qed
qed

lemma find_next_global_down:
  assumes ok: "index_ok ts" and range: "ticks_in_range spacing ts" and d: "initd ts d"
    and above: "\<And>d. initd ts d \<Longrightarrow> d * spacing \<le> from_tick"
    and from_c: "from_tick = c * spacing" "MIN_TICK \<le> from_tick" "from_tick \<le> MAX_TICK"
  shows "d * spacing \<le> find_next_global_tick ts from_tick spacing True"
proof -
  have s: "0 < spacing" using range by (simp add: ticks_in_range_def)
  have comp: "compress_tick from_tick spacing = c" using s by (simp add: from_c(1) compress_tick_div)
  have le: "d' \<le> c" if "initd ts d'" for d' using above [OF that] s by (simp add: from_c(1))
  let ?w = "c div 16 div 256"
  have word_le: "d' div 16 div 256 \<le> ?w" if "initd ts d'" for d'
    using le [OF that] by (intro zdiv_mono1) simp_all
  have high: "d' * spacing \<le> extreme_tick_in_bitmap_word ts w spacing True" if "word_tick ts w d'" for w d'
    using extreme_highest [OF ok range, of w] that s by (auto intro: mult_right_mono)
  have ge_min: "MIN_TICK \<le> d * spacing" using range d by (simp add: ticks_in_range_def)
  let ?e = "extreme_tick_in_bitmap_word ts ?w spacing True"
  show ?thesis
  proof (cases "?e = MIN_TICK")
    case False
    have "d * spacing \<le> ?e"
    proof (cases "d div 16 div 256 = ?w")
      case True
      then show ?thesis using high [of ?w d] d by (simp add: word_tick_def)
    next
      case other: False
      then have "d div 16 div 256 < ?w" using word_le [OF d] by simp
      from False extreme_highest [OF ok range, of ?w] obtain c' where "word_tick ts ?w c'" and "?e = c' * spacing"
        by auto
      moreover have "d \<le> c'"
      proof (rule ccontr)
        assume "\<not> ?thesis"
        then have "c' div 16 div 256 \<le> d div 16 div 256" by (intro zdiv_mono1) simp_all
        with \<open>d div 16 div 256 < ?w\<close> \<open>word_tick ts ?w c'\<close> show False by (simp add: word_tick_def)
      qed
      ultimately show ?thesis using s by (simp add: mult_right_mono)
    qed
    then show ?thesis using False comp
      by (simp add: find_next_global_tick_def chunk_address_def chunk_bitmap_position_def TICKS_PER_CHUNK_def Let_def)
  next
    case True
    let ?l = "?w div 256" and ?lb = "nat (?w mod 256)"
    have wf: "?w = ?l * 256 + int ?lb" "?lb < 256" using word_form [OF refl, of ?w] by blast+
    have ext: "d * spacing \<le> extreme_tick_in_bitmap_word ts v spacing True"
      if v: "\<And>u. v < u \<Longrightarrow> u < ?w \<Longrightarrow> ts_chunk_bitmap ts u = 0" "ts_chunk_bitmap ts v \<noteq> 0" for v
    proof -
      from live_word [OF ok v(2)] extreme_highest [OF ok range, of v] obtain c' where c': "word_tick ts v c'"
        "extreme_tick_in_bitmap_word ts v spacing True = c' * spacing" "\<And>d'. word_tick ts v d' \<Longrightarrow> d' \<le> c'" by blast
      consider "d div 16 div 256 = ?w" | "d div 16 div 256 < ?w" using word_le [OF d] by linarith
      then show ?thesis
      proof cases
        case 1
        with high [of ?w d] d True ge_min have "d * spacing = MIN_TICK" by (simp add: word_tick_def)
        moreover have "MIN_TICK \<le> c' * spacing" using c'(1) range by (simp add: word_tick_def ticks_in_range_def)
        ultimately show ?thesis using c'(2) by simp
      next
        case 2
        with v(1) [of "d div 16 div 256"] dead_word [OF ok, of d] d have "d div 16 div 256 \<le> v" by (meson not_le)
        have "d \<le> c'"
        proof (cases "d div 16 div 256 = v")
          case False
          show ?thesis
          proof (rule ccontr)
            assume "\<not> ?thesis"
            then have "c' div 16 div 256 \<le> d div 16 div 256" by (intro zdiv_mono1) simp_all
            with c'(1) \<open>d div 16 div 256 \<le> v\<close> False show False by (simp add: word_tick_def)
          qed
        qed (use c'(3) d in \<open>simp add: word_tick_def\<close>)
        then show ?thesis using s c'(2) by (simp add: mult_right_mono)
      qed
    qed
    have run: "find_next_global_tick ts from_tick spacing True =
      (case find_adjacent_bitmap_word ts ?w True of
        Some v \<Rightarrow> extreme_tick_in_bitmap_word ts v spacing True | None \<Rightarrow> MIN_TICK)"
      using True comp
      by (simp add: find_next_global_tick_def chunk_address_def chunk_bitmap_position_def word_bitmap_position_def
          TICKS_PER_CHUNK_def Let_def find_adjacent_bitmap_word_def split: option.split)
    show ?thesis
    proof (cases "find_adjacent_bitmap_word ts ?w True")
      case (Some v)
      then show ?thesis using ext [OF adjacent_down(3) [OF ok Some] adjacent_down(2) [OF ok Some]] run by simp
    next
      case None
      have "d div 16 div 256 = ?w"
      proof (rule ccontr)
        assume "\<not> ?thesis"
        then have lt: "d div 16 div 256 < ?w" using word_le [OF d] by simp
        have own: "search_own_l2_word ts True ?l ?lb = None"
          and next_l2: "search_word_bitmap ts True (?l - 1) 255 = None"
          using None by (auto simp: find_adjacent_bitmap_word_def word_bitmap_position_def split: option.splits)
        have live: "ts_chunk_bitmap ts (d div 16 div 256) \<noteq> 0" using dead_word [OF ok] d by blast
        have "d div 16 div 256 div 256 \<le> ?l" using lt by (intro zdiv_mono1) simp_all
        moreover have "?l \<noteq> d div 16 div 256 div 256"
        proof
          assume "?l = d div 16 div 256 div 256"
          then have same: "d div 16 div 256 div 256 = ?l" ..
          have u: "?l * 256 \<le> d div 16 div 256" using word_span [OF same] by blast
          then have "0 < ?lb" using lt wf by linarith
          then have "search_word_bitmap ts True ?l (?lb - 1) = None"
            using own by (simp add: search_own_l2_word_def)
          moreover have "n < 256 \<Longrightarrow> n - 1 \<le> (255 :: nat)" for n by simp
          from this [OF wf(2)] have "?lb - 1 \<le> 255" .
          moreover have "0 < m \<Longrightarrow> int (m - 1) = int m - 1" for m by simp
          from this [OF \<open>0 < ?lb\<close>] have "d div 16 div 256 \<le> ?l * 256 + int (?lb - 1)" using lt wf(1) by linarith
          ultimately have "ts_chunk_bitmap ts (d div 16 div 256) = 0"
            using search_none_down [OF ok _ _ same] by blast
          with live show False ..
        qed
        moreover have "?l \<noteq> d div 16 div 256 div 256 + 1"
        proof
          assume "?l = d div 16 div 256 div 256 + 1"
          then have same: "d div 16 div 256 div 256 = ?l - 1" by simp
          have "d div 16 div 256 \<le> (?l - 1) * 256 + 255" using word_span [OF same] by blast
          then have "ts_chunk_bitmap ts (d div 16 div 256) = 0"
            using search_none_down [OF ok _ next_l2 same] by simp
          with live show False ..
        qed
        moreover have "?l \<in> {- 1, 0}"
          using from_c by (intro bounded_words [OF s]) simp_all
        moreover have "d div 16 div 256 div 256 \<in> {- 1, 0}"
          using range d by (intro bounded_words [OF s]) (simp_all add: ticks_in_range_def)
        ultimately show False by (rule two_l2_words)
      qed
      then have "d * spacing = MIN_TICK" using high [of ?w d] d True ge_min by (simp add: word_tick_def)
      then show ?thesis using run None by simp
    qed
  qed
qed

section \<open>The update\<close>

definition tick_at :: "tick_store \<Rightarrow> int \<Rightarrow> tick_info" where
  "tick_at ts c = get_or_create_tick_chunk ts (c div 16) ! nat (c mod 16)"

lemma initd_tick_at: "index_ok ts \<Longrightarrow> initd ts c \<longleftrightarrow> 0 < liquidity_gross (tick_at ts c)"
proof -
  assume ok: "index_ok ts"
  have s: "nat (c mod 16) < 16" by auto
  have "initd ts (c div 16 * 16 + int (nat (c mod 16))) \<longleftrightarrow>
    slot_initialized (get_or_create_tick_chunk ts (c div 16)) (nat (c mod 16))"
    using get_or_create_initd [OF ok s] by blast
  moreover have "c div 16 * 16 + int (nat (c mod 16)) = c" by simp
  ultimately show ?thesis by (simp only: slot_initialized_def tick_at_def)
qed

lemma tick_at_write:
  assumes ok: "index_ok ts"
  shows "tick_at (write_slot c tick ts) d = (if d = c then tick else tick_at ts d)"
proof -
  have len: "length (get_or_create_tick_chunk ts p) = 16" for p
    using created_agree [OF ok, of p] by (simp add: slots_agree_def)
  have t: "nat (d mod 16) < 16" by auto
  have same: "d div 16 = c div 16 \<and> nat (d mod 16) = nat (c mod 16) \<longleftrightarrow> d = c"
    by (metis div16 eq_nat_nat_iff)
  show ?thesis
  proof (cases "d div 16 = c div 16")
    case True
    then have "tick_at (write_slot c tick ts) d =
      (get_or_create_tick_chunk ts (c div 16))[nat (c mod 16) := tick] ! nat (d mod 16)"
      by (simp add: tick_at_def write_slot_def set_tick_chunk_def get_or_create_tick_chunk_def)
    also have "\<dots> = (if nat (d mod 16) = nat (c mod 16) then tick else tick_at ts d)"
      using t len [of "c div 16"] True by (simp add: nth_list_update tick_at_def)
    finally show ?thesis using True same by auto
  next
    case False
    then show ?thesis using same
      by (auto simp: tick_at_def write_slot_def set_tick_chunk_def get_or_create_tick_chunk_def)
  qed
qed

lemma tick_at_cong: "ts_chunks t = ts_chunks s \<Longrightarrow> tick_at t = tick_at s"
  by (simp add: tick_at_def get_or_create_tick_chunk_def fun_eq_iff)

lemma get_tick_tick_at:
  assumes "0 < spacing"
  shows "get_tick ts t spacing = tick_at ts (t div spacing)"
proof -
  have c: "compress_tick_storage t spacing = t div spacing"
    using compress_tick_div [OF assms, of t] by (simp add: compress_tick_storage_def compress_tick_def)
  have e: "new_empty_chunk ! nat (u mod 16) = empty_tick" for u :: int
    by (simp add: new_empty_chunk_def TICKS_PER_CHUNK_def)
  show ?thesis
    by (simp add: get_tick_def c chunk_address_def TICKS_PER_CHUNK_def tick_at_def
        get_or_create_tick_chunk_def e split: option.split)
qed

definition tick_index :: "int \<Rightarrow> tick_store \<Rightarrow> bool" where
  \<comment> \<open>the invariant of the index of a pool with the given spacing\<close>
  "tick_index spacing ts \<longleftrightarrow> index_ok ts \<and> ticks_in_range spacing ts \<and> bounds_ok spacing ts"

lemma tick_index_empty: "0 < spacing \<Longrightarrow> tick_index spacing no_ticks"
  by (simp add: tick_index_def index_ok_no_ticks ticks_in_range_no_ticks bounds_ok_no_ticks)

lemma change_gross_eq: "change_gross spacing delta g = Inr g' \<Longrightarrow> int g' = int g + delta"
  by (auto simp: change_gross_def Let_def res_simps split: if_splits)

lemma change_net_eq: "change_net up delta n = Inr n' \<Longrightarrow> n' = (if up then n - delta else n + delta)"
  by (auto simp: change_net_def Let_def split: if_splits)

lemma index_opened_ok:
  assumes idx: "index_ok ts" and range: "ticks_in_range spacing ts" and b: "bounds_ok spacing ts"
    and c: "\<not> initd ts c" "0 < liquidity_gross tick"
    and in_range: "MIN_TICK \<le> c * spacing" "c * spacing \<le> MAX_TICK"
  shows "tick_index spacing (index_opened (c * spacing) (c div 16) (write_slot c tick ts))"
    and "ts_chunks (index_opened (c * spacing) (c div 16) (write_slot c tick ts)) = ts_chunks (write_slot c tick ts)"
proof -
  let ?t = "write_slot c tick ts"
  let ?u = "update_chunk_bitmap_bit (c div 16) True ?t"
  let ?ts = "index_opened (c * spacing) (c div 16) ?t"
  note ix = write_slot_indexes [OF idx, of c tick]
  note upd = update_bit_indexes [OF ix, of "c div 16" True]
  have fields: "ts_chunks ?ts = ts_chunks ?t" "ts_chunk_bitmap ?ts = ts_chunk_bitmap ?u"
    "ts_word_bitmap ?ts = ts_word_bitmap ?u"
    "ts_min_init ?ts = min (ts_min_init ts) (c * spacing)" "ts_max_init ?ts = max (ts_max_init ts) (c * spacing)"
    using upd by (auto simp: index_opened_def Let_def)
  show "ts_chunks ?ts = ts_chunks ?t" by (rule fields(1))
  have "(chunk_live ts)(c div 16 := True) = chunk_live ?t"
    using write_slot_live [OF idx] c(2) by (auto simp: fun_eq_iff)
  then have "index_ok ?u"
    by (rule update_bit_ok [OF ix, rotated]) (rule write_slot_lengths [OF idx])
  then have ok: "index_ok ?ts"
    using fields(1-3) upd(2) by (simp add: index_ok_def initd_cong(2) [OF trans [OF fields(1) upd(2) [symmetric]]])
  have init: "initd ?ts d \<longleftrightarrow> d = c \<or> initd ts d" for d
    using write_slot_initd [OF idx, of c tick d] c(2) by (auto simp: initd_cong(1) [OF fields(1)])
  show "tick_index spacing ?ts"
    using ok range b in_range
    by (auto simp: tick_index_def ticks_in_range_def bounds_ok_def init fields(4,5) min_le_iff_disj le_max_iff_disj)
qed

lemma index_closed_ok:
  assumes idx: "index_ok ts" and range: "ticks_in_range spacing ts" and b: "bounds_ok spacing ts"
    and c: "liquidity_gross tick = 0"
    and in_range: "MIN_TICK \<le> c * spacing" "c * spacing \<le> MAX_TICK"
    and chunk: "ts_chunks (write_slot c tick ts) (c div 16) = Some chunk"
  shows "tick_index spacing (index_closed (c * spacing) spacing (c div 16) chunk (write_slot c tick ts))"
    and "ts_chunks (index_closed (c * spacing) spacing (c div 16) chunk (write_slot c tick ts))
      = ts_chunks (write_slot c tick ts)"
proof -
  let ?p = "c div 16"
  let ?t = "write_slot c tick ts"
  let ?u = "if \<not> chunk_has_initialized chunk then update_chunk_bitmap_bit ?p False ?t else ?t"
  note ix = write_slot_indexes [OF idx, of c tick]
  note upd = update_bit_indexes [OF ix, of ?p False]
  note init_t = write_slot_initd [OF idx, of c tick]
  have agree: "slots_agree ?t ?p chunk"
    using chunk write_slot_lengths [OF idx chunk] by (auto simp: slots_agree_def initd_slot)
  have dead: "initd ?t d \<Longrightarrow> initd ts d" for d using init_t [of d] c by (simp split: if_splits)
  have others: "chunk_live ?t q \<longleftrightarrow> chunk_live ts q" if "q \<noteq> ?p" for q
    using write_slot_live(1) [OF idx that] by blast
  have chunks: "ts_chunks ?u = ts_chunks ?t" using upd(2) by simp
  have ok: "index_ok ?u"
  proof (cases "chunk_has_initialized chunk")
    case True
    then have "chunk_live ?t ?p" using chunk_has_initialized_live [OF agree] by blast
    moreover from this have "chunk_live ts ?p" using dead by (auto simp: chunk_live_def)
    ultimately have "chunk_live ts q = chunk_live ?t q" for q using others by (cases "q = ?p") auto
    then have "chunk_live ts = chunk_live ?t" ..
    then have "index_ok ?t" using ix write_slot_lengths [OF idx] by (auto simp: index_ok_iff)
    with True show ?thesis by simp
  next
    case False
    then have "\<not> chunk_live ?t ?p" using chunk_has_initialized_live [OF agree] by blast
    with others have "(chunk_live ts)(?p := False) = chunk_live ?t" by (auto simp: fun_eq_iff)
    then have "index_ok (update_chunk_bitmap_bit ?p False ?t)"
      by (rule update_bit_ok [OF ix, rotated]) (rule write_slot_lengths [OF idx])
    with False show ?thesis by simp
  qed
  have init_u: "initd ?u = initd ?t" by (rule initd_cong(1) [OF chunks])
  have range_u: "ticks_in_range spacing ?u"
    using range dead unfolding ticks_in_range_def init_u by blast
  have bounds_u: "ts_min_init ?u = ts_min_init ts" "ts_max_init ?u = ts_max_init ts"
    using upd(3,4) by simp_all
  have b_u: "bounds_ok spacing ?u"
    using b dead unfolding bounds_ok_def init_u bounds_u by blast
  define v where "v = (if c * spacing = ts_min_init ?u
    then ?u\<lparr>ts_min_init := find_next_global_tick ?u (c * spacing) spacing False\<rparr> else ?u)"
  have v_fields: "ts_chunks v = ts_chunks ?u" "ts_chunk_bitmap v = ts_chunk_bitmap ?u"
    "ts_word_bitmap v = ts_word_bitmap ?u" "ts_max_init v = ts_max_init ?u"
    by (simp_all add: v_def)
  have init_v: "initd v = initd ?u" by (rule initd_cong(1) [OF v_fields(1)])
  have ok_v: "index_ok v"
    using ok v_fields by (simp add: index_ok_def initd_cong(2) [OF v_fields(1)])
  have range_v: "ticks_in_range spacing v" using range_u by (simp add: ticks_in_range_def init_v)
  have min_v: "ts_min_init v \<le> d * spacing" if "initd v d" for d
  proof (cases "c * spacing = ts_min_init ?u")
    case True
    have "find_next_global_tick ?u (c * spacing) spacing False \<le> d * spacing"
    proof (rule find_next_global_up [OF ok range_u, where c = c])
      show "initd ?u d" using that by (simp only: init_v)
      show "c * spacing \<le> d' * spacing" if "initd ?u d'" for d'
        using b_u that unfolding bounds_ok_def True by blast
    qed (use in_range in simp_all)
    then show ?thesis using True by (simp add: v_def)
  next
    case False
    then show ?thesis using b_u that unfolding bounds_ok_def init_v by (simp add: v_def)
  qed
  have max_v: "d * spacing \<le> ts_max_init v" if "initd v d" for d
    using b_u that unfolding bounds_ok_def init_v v_fields by blast
  let ?ts = "index_closed (c * spacing) spacing ?p chunk ?t"
  have closed: "?ts = (if c * spacing = ts_max_init v
    then v\<lparr>ts_max_init := find_next_global_tick v (c * spacing) spacing True\<rparr> else v)"
    unfolding index_closed_def Let_def v_def by (rule refl)
  have fields: "ts_chunks ?ts = ts_chunks v" "ts_chunk_bitmap ?ts = ts_chunk_bitmap v"
    "ts_word_bitmap ?ts = ts_word_bitmap v" "ts_min_init ?ts = ts_min_init v"
    unfolding closed by simp_all
  have init: "initd ?ts = initd v" by (rule initd_cong(1) [OF fields(1)])
  have "index_ok ?ts"
    using ok_v fields by (simp add: index_ok_def initd_cong(2) [OF fields(1)])
  moreover have "ticks_in_range spacing ?ts" using range_v by (simp add: ticks_in_range_def init)
  moreover have "bounds_ok spacing ?ts"
  proof -
    have "d * spacing \<le> ts_max_init ?ts" if "initd v d" for d
    proof (cases "c * spacing = ts_max_init v")
      case True
      have "d * spacing \<le> find_next_global_tick v (c * spacing) spacing True"
      proof (rule find_next_global_down [OF ok_v range_v that, where c = c])
        show "d' * spacing \<le> c * spacing" if "initd v d'" for d'
          using max_v [OF that] unfolding True .
      qed (use in_range in simp_all)
      then show ?thesis using True unfolding closed by simp
    next
      case False
      then show ?thesis using max_v [OF that] unfolding closed by simp
    qed
    then show ?thesis using min_v unfolding bounds_ok_def init fields(4) by blast
  qed
  ultimately show "tick_index spacing ?ts" by (simp add: tick_index_def)
  show "ts_chunks ?ts = ts_chunks ?t" using fields(1) v_fields(1) chunks by simp
qed

definition updated_tick :: "int \<Rightarrow> nat \<Rightarrow> nat \<Rightarrow> int \<Rightarrow> tick_info \<Rightarrow> nat \<Rightarrow> int \<Rightarrow> tick_info" where
  \<comment> \<open>the tick that \<open>update_tick_liquidity\<close> stores\<close>
  "updated_tick tick_now growth0 growth1 tick_idx old gross net =
     (let tick = old\<lparr>liquidity_gross := gross, liquidity_net := net\<rparr> in
      if liquidity_gross old = 0 \<and> 0 < gross then
        (if tick_idx \<le> tick_now
         then tick\<lparr>fee_growth_outside_0 := growth0, fee_growth_outside_1 := growth1\<rparr> else tick)
      else if 0 < liquidity_gross old \<and> gross = 0
      then tick\<lparr>fee_growth_outside_0 := 0, fee_growth_outside_1 := 0\<rparr>
      else tick)"

lemma updated_tick_fields [simp]:
  "liquidity_gross (updated_tick now g0 g1 t old gross net) = gross"
  "liquidity_net (updated_tick now g0 g1 t old gross net) = net"
  by (simp_all add: updated_tick_def Let_def)

lemma update_tick_liquidity_InrD:
  assumes run: "update_tick_liquidity spacing now g0 g1 (c * spacing) delta up ts = Inr ts'" and s: "0 < spacing"
  obtains gross net chunk where
    "change_gross spacing delta (liquidity_gross (tick_at ts c)) = Inr gross"
    "change_net up delta (liquidity_net (tick_at ts c)) = Inr net"
    "ts_chunks (write_slot c (updated_tick now g0 g1 (c * spacing) (tick_at ts c) gross net) ts) (c div 16) = Some chunk"
    "ts' = (let t = write_slot c (updated_tick now g0 g1 (c * spacing) (tick_at ts c) gross net) ts in
      if liquidity_gross (tick_at ts c) = 0 \<and> 0 < gross then index_opened (c * spacing) (c div 16) t
      else if 0 < liquidity_gross (tick_at ts c) \<and> gross = 0
      then index_closed (c * spacing) spacing (c div 16) chunk t else t)"
proof -
  have addr: "chunk_address (compress_tick (c * spacing) spacing) = (c div 16, nat (c mod 16))"
    using s by (simp add: compress_tick_div chunk_address_def TICKS_PER_CHUNK_def)
  define old where "old = tick_at ts c"
  have old: "get_or_create_tick_chunk ts (c div 16) ! nat (c mod 16) = old" by (simp add: old_def tick_at_def)
  from run obtain gross net where g: "change_gross spacing delta (liquidity_gross old) = Inr gross"
    and n: "change_net up delta (liquidity_net old) = Inr net"
    by (auto simp: update_tick_liquidity_def addr Let_def old res_simps)
  let ?tick = "updated_tick now g0 g1 (c * spacing) old gross net"
  let ?chunk = "(get_or_create_tick_chunk ts (c div 16))[nat (c mod 16) := ?tick]"
  have "ts' = (let t = write_slot c ?tick ts in
      if liquidity_gross old = 0 \<and> 0 < gross then index_opened (c * spacing) (c div 16) t
      else if 0 < liquidity_gross old \<and> gross = 0
      then index_closed (c * spacing) spacing (c div 16) ?chunk t else t)"
    using run g n
    by (auto simp: update_tick_liquidity_def addr Let_def old write_slot_def updated_tick_def)
  moreover have "ts_chunks (write_slot c ?tick ts) (c div 16) = Some ?chunk"
    by (simp add: write_slot_def set_tick_chunk_def)
  ultimately show ?thesis using that g n unfolding old_def by blast
qed

lemma update_tick_liquidity_effect:
  assumes inv: "tick_index spacing ts" and range: "MIN_TICK \<le> c * spacing" "c * spacing \<le> MAX_TICK"
    and run: "update_tick_liquidity spacing now g0 g1 (c * spacing) delta up ts = Inr ts'"
  shows "tick_index spacing ts'"
    and "int (liquidity_gross (tick_at ts' c)) = int (liquidity_gross (tick_at ts c)) + delta"
    and "liquidity_net (tick_at ts' c) = liquidity_net (tick_at ts c) + (if up then - delta else delta)"
    and "d \<noteq> c \<Longrightarrow> tick_at ts' d = tick_at ts d"
proof -
  have idx: "index_ok ts" and tr: "ticks_in_range spacing ts" and b: "bounds_ok spacing ts"
    using inv by (simp_all add: tick_index_def)
  then have s: "0 < spacing" by (simp add: ticks_in_range_def)
  define old where "old = tick_at ts c"
  from update_tick_liquidity_InrD [OF run s, folded old_def] obtain gross net chunk where
    g: "change_gross spacing delta (liquidity_gross old) = Inr gross"
    and n: "change_net up delta (liquidity_net old) = Inr net"
    and ch: "ts_chunks (write_slot c (updated_tick now g0 g1 (c * spacing) old gross net) ts) (c div 16) = Some chunk"
    and ts': "ts' = (let t = write_slot c (updated_tick now g0 g1 (c * spacing) old gross net) ts in
      if liquidity_gross old = 0 \<and> 0 < gross then index_opened (c * spacing) (c div 16) t
      else if 0 < liquidity_gross old \<and> gross = 0
      then index_closed (c * spacing) spacing (c div 16) chunk t else t)" .
  define tick where "tick = updated_tick now g0 g1 (c * spacing) old gross net"
  define t where "t = write_slot c tick ts"
  have gross: "liquidity_gross tick = gross" "liquidity_net tick = net" by (simp_all add: tick_def)
  have was: "initd ts c \<longleftrightarrow> 0 < liquidity_gross old" using initd_tick_at [OF idx] by (simp add: old_def)
  consider (opened) "liquidity_gross old = 0" "0 < gross" "ts' = index_opened (c * spacing) (c div 16) t"
    | (closed) "0 < liquidity_gross old" "gross = 0" "ts' = index_closed (c * spacing) spacing (c div 16) chunk t"
    | (same) "0 < liquidity_gross old \<longleftrightarrow> 0 < gross" "ts' = t"
    using ts' unfolding Let_def tick_def [symmetric] t_def [symmetric] by (auto split: if_splits)
  then have "tick_index spacing ts' \<and> ts_chunks ts' = ts_chunks t"
  proof cases
    case opened
    then have "\<not> initd ts c" and "0 < liquidity_gross tick" using was gross by simp_all
    from index_opened_ok [OF idx tr b this range] show ?thesis by (simp add: opened(3) t_def)
  next
    case closed
    then have "liquidity_gross tick = 0" using gross by simp
    from index_closed_ok [OF idx tr b this range ch [folded tick_def]] show ?thesis by (simp add: closed(3) t_def)
  next
    case same
    have init: "initd t = initd ts"
      using write_slot_initd [OF idx, of c tick] was same(1) gross by (auto simp: t_def fun_eq_iff)
    then have live: "chunk_live t = chunk_live ts" by (simp add: chunk_live_def fun_eq_iff)
    have "index_ok t"
      using write_slot_indexes [OF idx, of c tick] write_slot_lengths [OF idx]
      by (auto simp: index_ok_iff live t_def [symmetric]) (auto simp: t_def)
    with tr b show ?thesis
      by (simp add: tick_index_def ticks_in_range_def bounds_ok_def init same(2)) (simp add: t_def)
  qed
  then have inv': "tick_index spacing ts'" and chunks: "ts_chunks ts' = ts_chunks t" by blast+
  note at = tick_at_cong [OF chunks] tick_at_write [OF idx, of c tick, folded t_def]
  show "tick_index spacing ts'" by (rule inv')
  show "int (liquidity_gross (tick_at ts' c)) = int (liquidity_gross (tick_at ts c)) + delta"
    using change_gross_eq [OF g] by (simp add: at gross old_def)
  show "liquidity_net (tick_at ts' c) = liquidity_net (tick_at ts c) + (if up then - delta else delta)"
    using change_net_eq [OF n] by (simp add: at gross old_def)
  show "d \<noteq> c \<Longrightarrow> tick_at ts' d = tick_at ts d" by (simp add: at)
qed

end
