(* ===== verification/CL_Loop.thy ===== *)
theory CL_Loop
  imports CL_Steps CL_Tick_Update
begin

text \<open>
  The loop of a swap: what holds at the start of every round (\<open>loop_ok\<close>), that a round keeps it and
  moves the tick strictly in the direction of the swap or is the last one, and so that the loop
  returns.
\<close>

section \<open>The next tick lies ahead\<close>

lemma find_tick_down_boundary:
  "find_tick_down ts k spacing cc = ((t, False), cc') \<Longrightarrow>
    t = compressed_to_tick (k div 16 div 256 * 256 * 16) spacing"
  by (auto simp: find_tick_down_def chunk_address_def chunk_bitmap_position_def TICKS_PER_CHUNK_def Let_def
      split: prod.splits option.splits)

lemma find_tick_up_boundary:
  "find_tick_up ts k spacing cc = ((t, False), cc') \<Longrightarrow>
    t = compressed_to_tick ((saturate_i32 (k + 1) div 16 div 256 * 256 + 255) * 16 + 15) spacing"
  by (auto simp: find_tick_up_def chunk_address_def chunk_bitmap_position_def TICKS_PER_CHUNK_def Let_def
      split: prod.splits option.splits)

lemma word_floor: "(k :: int) div 16 div 256 * 256 * 16 \<le> k"
  using div16 [of k] div256 [of "k div 16"] by linarith

lemma word_ceiling: "(k :: int) \<le> (k div 16 div 256 * 256 + 255) * 16 + 15"
  using div16 [of k] div256 [of "k div 16"] unfolding ring_distribs by linarith

lemma compressed_bounds:
  fixes tick spacing :: int
  assumes "0 < spacing" and "MIN_TICK \<le> tick" and "tick \<le> MAX_TICK"
  shows "tick div spacing * spacing \<le> tick" and "tick < (tick div spacing + 1) * spacing"
    and "MIN_TICK \<le> tick div spacing" and "tick div spacing \<le> MAX_TICK"
proof -
  show a: "tick div spacing * spacing \<le> tick" using assms(1) by (simp add: minus_mod_eq_div_mult [symmetric])
  show "tick < (tick div spacing + 1) * spacing"
    using pos_mod_bound [OF assms(1), of tick] div_mult_mod_eq [of tick spacing]
    unfolding ring_distribs mult_1 by linarith
  show "MIN_TICK \<le> tick div spacing"
  proof -
    have "MIN_TICK * spacing \<le> MIN_TICK * 1" using assms(1) unfolding MIN_TICK_def by (intro mult_left_mono_neg) simp_all
    then have "MIN_TICK * spacing div spacing \<le> tick div spacing" using assms by (intro zdiv_mono1) simp_all
    then show ?thesis using assms(1) by simp
  qed
  show "tick div spacing \<le> MAX_TICK"
  proof -
    have "tick div spacing \<le> MAX_TICK div spacing" using assms by (intro zdiv_mono1)
    also have "\<dots> \<le> MAX_TICK" using assms(1) unfolding MAX_TICK_def by (intro int_div_le_self) simp_all
    finally show ?thesis .
  qed
qed


lemma next_tick_ahead:
  assumes ok: "index_ok ts" and range: "ticks_in_range spacing ts" and cok: "cache_ok ts cc"
    and tick: "MIN_TICK \<le> tick" "tick \<le> MAX_TICK"
    and run: "find_initialized_tick_in_word ts tick spacing z cc = ((t, found), cc')"
  shows "MIN_TICK \<le> t" and "t \<le> MAX_TICK" and "cache_ok ts cc'"
    and "if z then t \<le> tick else tick < t \<or> t = MAX_TICK"
proof -
  have pos: "0 < spacing" using range by (simp add: ticks_in_range_def)
  define k where "k = tick div spacing"
  note b = compressed_bounds [OF pos tick, folded k_def]
  have k: "compress_tick tick spacing = k" by (simp add: k_def compress_tick_div [OF pos])
  have small: "- (2 ^ 31) \<le> k + 1" "k + 1 < 2 ^ 31" using b(3,4) by (simp_all add: tick_defs)
  have "MIN_TICK \<le> t \<and> t \<le> MAX_TICK \<and> cache_ok ts cc' \<and>
    (if z then t \<le> tick else tick < t \<or> t = MAX_TICK)"
  proof (cases z)
    case True
    with run have down: "find_tick_down ts k spacing cc = ((t, found), cc')"
      by (simp add: find_initialized_tick_in_word_def k Let_def)
    have n: "nearest_down ts spacing k (t, found)" "cache_ok ts cc'"
      using find_tick_down_nearest [OF ok range cok _ down] b(1) tick(2) by simp_all
    show ?thesis
    proof (cases found)
      case True
      with n(1) obtain c where c: "initd ts c" "t = c * spacing" "c \<le> k"
        by (auto simp: nearest_down_def)
      have "c * spacing \<le> k * spacing" using c(3) pos by simp
      with b(1) have "c * spacing \<le> tick" by linarith
      with c range n(2) \<open>z\<close> show ?thesis by (simp add: ticks_in_range_def)
    next
      case False
      with down have t: "t = compressed_to_tick (k div 16 div 256 * 256 * 16) spacing"
        by (intro find_tick_down_boundary) simp
      have "k div 16 div 256 * 256 * 16 * spacing \<le> k * spacing"
        using word_floor pos by (intro mult_right_mono) simp_all
      with t b(1) tick n(2) \<open>z\<close> show ?thesis
        by (simp add: compressed_to_tick_clamp)
    qed
  next
    case False
    with run have up: "find_tick_up ts k spacing cc = ((t, found), cc')"
      by (simp add: find_initialized_tick_in_word_def k Let_def)
    have n: "nearest_up ts spacing k (t, found)" "cache_ok ts cc'"
      using find_tick_up_nearest [OF ok range cok _ small up] b(2) tick(1) by simp_all
    show ?thesis
    proof (cases found)
      case True
      with n(1) obtain c where c: "initd ts c" "t = c * spacing" "k < c"
        by (auto simp: nearest_up_def)
      have "(k + 1) * spacing \<le> c * spacing" using c(3) pos by (intro mult_right_mono) simp_all
      with b(2) have "tick < c * spacing" by linarith
      with c range n(2) \<open>\<not> z\<close> show ?thesis by (simp add: ticks_in_range_def)
    next
      case none: False
      have sat: "saturate_i32 (k + 1) = k + 1" using small by (simp add: saturate_i32_def)
      from none up
      have "t = compressed_to_tick ((saturate_i32 (k + 1) div 16 div 256 * 256 + 255) * 16 + 15) spacing"
        by (intro find_tick_up_boundary) simp
      then have t: "t = compressed_to_tick (((k + 1) div 16 div 256 * 256 + 255) * 16 + 15) spacing"
        by (simp only: sat)
      have "(k + 1) * spacing \<le> (((k + 1) div 16 div 256 * 256 + 255) * 16 + 15) * spacing"
        using word_ceiling pos by (intro mult_right_mono) simp_all
      with t b(2) tick n(2) \<open>\<not> z\<close> show ?thesis
        by (simp add: compressed_to_tick_clamp) (auto simp: tick_defs)
    qed
  qed
  then show "MIN_TICK \<le> t" "t \<le> MAX_TICK" "cache_ok ts cc'"
    "if z then t \<le> tick else tick < t \<or> t = MAX_TICK" by simp_all
qed

section \<open>Crossing keeps the cache\<close>

lemma slots_agree_update:
  assumes "slots_agree ts p chunk" and "liquidity_gross tick = liquidity_gross (chunk ! i)"
  shows "slots_agree ts p (chunk[i := tick])"
proof -
  have "liquidity_gross (chunk[i := tick] ! s) = liquidity_gross (chunk ! s)" for s
    using assms(2) by (metis nth_list_update list_update_beyond not_le_imp_less)
  with assms(1) show ?thesis by (simp add: slots_agree_def slot_initialized_def)
qed

lemma cross_tick_cache:
  assumes "index_ok ts" and "cache_ok ts cc" and "cross_tick ts spacing growth t cc = Inr (net, cc')"
  shows "cache_ok ts cc'"
proof -
  obtain p i where a: "chunk_address (compress_tick t spacing) = (p, i)" by fastforce
  obtain chunk c1 where g: "cache_get_or_create_chunk ts p cc = (chunk, c1)" by fastforce
  note agree = cache_get_or_create_agree [OF assms(1,2) g]
  from assms(3) a g obtain tick where tick: "flip_outside growth (chunk ! i) = Inr tick"
    and cc': "cc' = cache_set_chunk p (chunk[i := tick]) c1"
    by (auto simp: cross_tick_def res_simps)
  have "liquidity_gross tick = liquidity_gross (chunk ! i)"
    using tick by (auto simp: flip_outside_def res_simps)
  with agree have "cache_ok ts (remember p (chunk[i := tick]) c1)"
    by (intro cache_ok_remember slots_agree_update)
  then show ?thesis by (simp add: cc' cache_set_chunk_def cache_ok_def)
qed

lemma cache_get_tick_cache:
  assumes "index_ok ts" and "cache_ok ts cc" and "cache_get_tick ts t spacing cc = (tick, cc')"
  shows "cache_ok ts cc'"
  using assms cache_get_chunk_agree(1) [OF assms(1,2)]
  by (auto simp: cache_get_tick_def Let_def split: prod.splits)


section \<open>The invariant of the loop\<close>

definition slot_ok :: "fixed_point \<Rightarrow> nat \<Rightarrow> int \<Rightarrow> bool" where
  \<comment> \<open>the price lies between the prices at the tick and at the one after it\<close>
  "slot_ok fp sqrt_price tick \<longleftrightarrow> MIN_TICK \<le> tick \<and> tick \<le> MAX_TICK \<and> price_ok sqrt_price
   \<and> (\<forall>p. sqrt_ratio_at_tick fp tick = Inr p \<longrightarrow> p \<le> sqrt_price)
   \<and> (\<forall>p. tick < MAX_TICK \<longrightarrow> sqrt_ratio_at_tick fp (tick + 1) = Inr p \<longrightarrow> sqrt_price \<le> p)"

definition limit_ok :: "swap_params \<Rightarrow> nat \<Rightarrow> bool" where
  "limit_ok p sqrt_price \<longleftrightarrow> ahead (sp_zero_for_one p) sqrt_price (sp_price_limit p)
   \<and> MIN_SQRT_RATIO < sp_price_limit p \<and> sp_price_limit p < MAX_SQRT_RATIO"

definition params_ok :: "swap_params \<Rightarrow> bool" where
  "params_ok p \<longleftrightarrow> fixed_point_lib (sp_fp p) \<and> index_ok (sp_ticks p) \<and> ticks_in_range (sp_spacing p) (sp_ticks p)"

definition loop_ok :: "swap_params \<Rightarrow> swap_state \<Rightarrow> bool" where
  "loop_ok p s \<longleftrightarrow> slot_ok (sp_fp p) (sw_price s) (sw_tick s) \<and> limit_ok p (sw_price s)
   \<and> cache_ok (sp_ticks p) (sw_cache s) \<and> sw_liquidity s \<le> U128_MAX \<and> sw_remaining s \<le> U128_MAX"

lemma loop_okD:
  assumes "loop_ok p s"
  shows "slot_ok (sp_fp p) (sw_price s) (sw_tick s)" and "limit_ok p (sw_price s)"
    and "cache_ok (sp_ticks p) (sw_cache s)" and "sw_liquidity s \<le> U128_MAX" and "sw_remaining s \<le> U128_MAX"
  using assms by (simp_all add: loop_ok_def)

lemma limit_price: "limit_ok p x \<Longrightarrow> price_ok (sp_price_limit p)"
  by (auto simp: limit_ok_def intro: sqrt_bounds_ok)

lemma target_ahead:
  assumes fp: "fixed_point_lib (sp_fp p)" and slot: "slot_ok (sp_fp p) x tick" and limit: "limit_ok p x"
    and t: "MIN_TICK \<le> t" "t \<le> MAX_TICK" "if sp_zero_for_one p then t \<le> tick else tick < t \<or> t = MAX_TICK"
    and q: "sqrt_ratio_at_tick (sp_fp p) t = Inr q"
  shows "ahead (sp_zero_for_one p) x (swap_target p q)" and "price_ok (swap_target p q)"
proof -
  have tick: "MIN_TICK \<le> tick" "tick \<le> MAX_TICK" using slot by (simp_all add: slot_ok_def)
  obtain q' where q': "sqrt_ratio_at_tick (sp_fp p) t = Inr q'" "MIN_SQRT_RATIO \<le> q'" "q' \<le> MAX_SQRT_RATIO"
    using sqrt_ratio_bounds [OF fp t(1,2)] by blast
  then have bounds: "price_ok q" using q by (auto intro: sqrt_bounds_ok)
  with limit_price [OF limit] show "price_ok (swap_target p q)" by (simp add: swap_target_def)
  obtain here where here: "sqrt_ratio_at_tick (sp_fp p) tick = Inr here"
    using sqrt_ratio_bounds [OF fp tick] by blast
  show "ahead (sp_zero_for_one p) x (swap_target p q)"
  proof (cases "sp_zero_for_one p")
    case True
    with t(3) have "q \<le> here" using sqrt_ratio_mono [OF fp _ t(1) tick(2) q here] by simp
    moreover have "here \<le> x" using slot here by (simp add: slot_ok_def)
    ultimately show ?thesis using True limit by (auto simp: ahead_def swap_target_def limit_ok_def)
  next
    case False
    have "x \<le> q"
    proof (cases "tick < MAX_TICK")
      case True
      then obtain above where above: "sqrt_ratio_at_tick (sp_fp p) (tick + 1) = Inr above"
        using sqrt_ratio_bounds [OF fp, of "tick + 1"] tick by force
      have "tick + 1 \<le> t" using True False t(3) by auto
      then have "above \<le> q" using sqrt_ratio_mono [OF fp _ _ t(2) above q] tick by simp
      with slot above True show ?thesis by (auto simp: slot_ok_def)
    next
      case last: False
      then have "t = MAX_TICK" using tick t False by simp
      then have "q = MAX_SQRT_RATIO" using q ratio_at_ends(2) [OF fp] by simp
      with limit False show ?thesis by (simp add: limit_ok_def ahead_def)
    qed
    with False limit show ?thesis by (auto simp: ahead_def swap_target_def limit_ok_def)
  qed
qed


section \<open>One round\<close>

lemma round_step:
  assumes fp: "fixed_point_lib (sp_fp p)"
    and run: "compute_swap_step (sp_fp p) (sw_price s) t (sw_liquidity s) (sw_remaining s) (sp_fee p)
      (sp_zero_for_one p) (sp_exact_input p) = Inr st"
    and price: "price_ok (sw_price s)" and t: "price_ok t" "ahead (sp_zero_for_one p) (sw_price s) t"
    and small: "sw_liquidity s \<le> U128_MAX" "sw_remaining s \<le> U128_MAX"
  shows "ahead (sp_zero_for_one p) (st_sqrt_next st) t" and "price_ok (st_sqrt_next st)"
    and "st_sqrt_next st = t \<or> sw_remaining (book_amounts p st s) = 0"
proof -
  show "ahead (sp_zero_for_one p) (st_sqrt_next st) t" "price_ok (st_sqrt_next st)"
    using exact_in_step [OF fp _ price t small] exact_out_step [OF _ price t small] run
    by (cases "sp_exact_input p"; simp)+
  show "st_sqrt_next st = t \<or> sw_remaining (book_amounts p st s) = 0"
  proof (cases "sp_exact_input p")
    case True
    from True run have run': "compute_swap_step (sp_fp p) (sw_price s) t (sw_liquidity s) (sw_remaining s) (sp_fee p)
      (sp_zero_for_one p) True = Inr st" by simp
    from exact_in_step(5) [OF fp run' price t small] True
    show ?thesis by (auto simp: book_amounts_def sat_sub_def)
  next
    case False
    from False run have run': "compute_swap_step (sp_fp p) (sw_price s) t (sw_liquidity s) (sw_remaining s) (sp_fee p)
      (sp_zero_for_one p) False = Inr st" by simp
    from exact_out_step(5) [OF run' price t small] False
    show ?thesis by (auto simp: book_amounts_def sat_sub_def)
  qed
qed

lemma book_fees_frame:
  assumes "book_fees p st s = Inr t"
  shows "sw_price t = sw_price s" and "sw_tick t = sw_tick s" and "sw_liquidity t = sw_liquidity s"
    and "sw_remaining t = sw_remaining s" and "sw_calculated t = sw_calculated s"
    and "sw_last_liquidity t = sw_last_liquidity s" and "sw_last_tick t = sw_last_tick s"
    and "sw_crossed t = sw_crossed s" and "sw_cache t = sw_cache s"
  using assms by (auto simp: book_fees_def res_simps split: if_splits prod.splits)

lemma book_amounts_frame [simp]:
  "sw_price (book_amounts p st s) = sw_price s" "sw_tick (book_amounts p st s) = sw_tick s"
  "sw_liquidity (book_amounts p st s) = sw_liquidity s" "sw_cache (book_amounts p st s) = sw_cache s"
  "sw_last_liquidity (book_amounts p st s) = sw_last_liquidity s"
  "sw_last_tick (book_amounts p st s) = sw_last_tick s" "sw_crossed (book_amounts p st s) = sw_crossed s"
  by (simp_all add: book_amounts_def)

lemma book_amounts_remaining: "sw_remaining (book_amounts p st s) \<le> sw_remaining s"
  by (auto simp: book_amounts_def sat_sub_def)

lemma note_liquidity_frame [simp]:
  "sw_price (note_liquidity s) = sw_price s" "sw_tick (note_liquidity s) = sw_tick s"
  "sw_liquidity (note_liquidity s) = sw_liquidity s" "sw_cache (note_liquidity s) = sw_cache s"
  "sw_remaining (note_liquidity s) = sw_remaining s" "sw_calculated (note_liquidity s) = sw_calculated s"
  by (simp_all add: note_liquidity_def)

lemma apply_net_bound: "apply_net z net l = Inr l' \<Longrightarrow> l \<le> U128_MAX \<Longrightarrow> l' \<le> U128_MAX"
  by (auto simp: apply_net_def res_simps sat_add_def split: if_splits)

lemma cross_initialized_frame:
  assumes "cross_initialized p t s = Inr s'"
  shows "sw_price s' = sw_price s" and "sw_remaining s' = sw_remaining s"
    and "sw_liquidity s \<le> U128_MAX \<Longrightarrow> sw_liquidity s' \<le> U128_MAX"
    and "index_ok (sp_ticks p) \<Longrightarrow> cache_ok (sp_ticks p) (sw_cache s) \<Longrightarrow> cache_ok (sp_ticks p) (sw_cache s')"
proof -
  obtain net cc l where net: "(if sp_dry_run p
        then let (tick, cc) = cache_get_tick (sp_ticks p) t (sp_spacing p) (sw_cache s)
             in Inr (liquidity_net tick, cc)
        else cross_tick (sp_ticks p) (sp_spacing p) (sw_growth s) t (sw_cache s)) = Inr (net, cc)"
    and l: "apply_net (sp_zero_for_one p) net (sw_liquidity s) = Inr l"
    and s': "s' = s\<lparr>sw_cache := cc, sw_liquidity := l, sw_last_tick := t, sw_crossed := True\<rparr>"
    using assms by (auto simp: cross_initialized_def andthen_eq_Inr)
  show "sw_price s' = sw_price s" "sw_remaining s' = sw_remaining s" by (simp_all add: s')
  show "sw_liquidity s \<le> U128_MAX \<Longrightarrow> sw_liquidity s' \<le> U128_MAX"
    using apply_net_bound [OF l] by (simp add: s')
  assume "index_ok (sp_ticks p)" "cache_ok (sp_ticks p) (sw_cache s)"
  note known = this
  have "cache_ok (sp_ticks p) cc"
  proof (cases "sp_dry_run p")
    case True
    obtain tick c where g: "cache_get_tick (sp_ticks p) t (sp_spacing p) (sw_cache s) = (tick, c)" by fastforce
    with net True have "cc = c" by simp
    with cache_get_tick_cache [OF known g] show ?thesis by simp
  next
    case False
    with net have "cross_tick (sp_ticks p) (sp_spacing p) (sw_growth s) t (sw_cache s) = Inr (net, cc)" by simp
    with cross_tick_cache [OF known] show ?thesis .
  qed
  then show "cache_ok (sp_ticks p) (sw_cache s')" by (simp add: s')
qed

lemma reached_slot:
  assumes fp: "fixed_point_lib fp" and t: "MIN_TICK < t \<or> \<not> z" "MIN_TICK \<le> t" "t \<le> MAX_TICK"
    and q: "sqrt_ratio_at_tick fp t = Inr q"
  shows "slot_ok fp q (tick_after_reaching z t)"
proof -
  have bounds: "price_ok q"
    using sqrt_ratio_bounds [OF fp t(2,3)] q by (auto intro: sqrt_bounds_ok)
  show ?thesis
  proof (cases z)
    case True
    then have "tick_after_reaching z t = t - 1"
      using t by (simp add: tick_after_reaching_def saturate_i32_def tick_defs)
    moreover have "p \<le> q" if "sqrt_ratio_at_tick fp (t - 1) = Inr p" for p
      using sqrt_ratio_mono [OF fp _ _ t(3) that q] t True by simp
    ultimately show ?thesis using t True q bounds by (auto simp: slot_ok_def)
  next
    case False
    then have "tick_after_reaching z t = t" using t by (simp add: tick_after_reaching_def)
    moreover have "q \<le> p" if "t < MAX_TICK" "sqrt_ratio_at_tick fp (t + 1) = Inr p" for p
      using sqrt_ratio_mono [OF fp _ t(2) _ q that(2)] that(1) by simp
    ultimately show ?thesis using t q bounds by (auto simp: slot_ok_def)
  qed
qed

definition progress :: "bool \<Rightarrow> int \<Rightarrow> int \<Rightarrow> bool" where
  "progress zero_for_one tick tick' \<longleftrightarrow> (if zero_for_one then tick' < tick else tick < tick')"

lemma round_progress:
  assumes par: "params_ok p" and ok: "loop_ok p s" and run: "swap_round p s = Inr s'"
  shows "swap_stops p s' \<or> loop_ok p s' \<and> progress (sp_zero_for_one p) (sw_tick s) (sw_tick s')"
proof -
  note lo = loop_okD [OF ok]
  have fp: "fixed_point_lib (sp_fp p)" and index: "index_ok (sp_ticks p)"
    and range: "ticks_in_range (sp_spacing p) (sp_ticks p)"
    using par by (simp_all add: params_ok_def)
  have tick: "MIN_TICK \<le> sw_tick s" "sw_tick s \<le> MAX_TICK" and price: "price_ok (sw_price s)"
    using lo(1) by (simp_all add: slot_ok_def)
  define s0 where "s0 = note_liquidity s"
  obtain t found cc where find: "find_initialized_tick_in_word (sp_ticks p) (sw_tick s) (sp_spacing p)
      (sp_zero_for_one p) (sw_cache s) = ((t, found), cc)"
    by (metis surj_pair)
  define s1 where "s1 = s0\<lparr>sw_cache := cc\<rparr>"
  from run find obtain q st b where q: "sqrt_ratio_at_tick (sp_fp p) t = Inr q"
    and st: "compute_swap_step (sp_fp p) (sw_price s) (swap_target p q) (sw_liquidity s)
        (sw_remaining s) (sp_fee p) (sp_zero_for_one p) (sp_exact_input p) = Inr st"
    and b: "book_fees p st (book_amounts p st s1) = Inr b"
    and move: "move_price p (t, found) q (sw_price s) (st_sqrt_next st) b = Inr s'"
    by (auto simp: swap_round_def Let_def andthen_eq_Inr s1_def s0_def)
  note n = next_tick_ahead [OF index range lo(3) tick find]
  note target = target_ahead [OF fp lo(1,2) n(1,2,4) q]
  have frame: "sw_price s1 = sw_price s" "sw_liquidity s1 = sw_liquidity s" "sw_remaining s1 = sw_remaining s"
    "sw_tick s1 = sw_tick s" "sw_cache s1 = cc"
    by (simp_all add: s1_def s0_def)
  have st': "compute_swap_step (sp_fp p) (sw_price s1) (swap_target p q) (sw_liquidity s1)
        (sw_remaining s1) (sp_fee p) (sp_zero_for_one p) (sp_exact_input p) = Inr st"
    using st by (simp add: frame)
  note step = round_step [OF fp st', unfolded frame, OF price target(2,1) lo(4,5)]
  note fr = book_fees_frame [OF b, unfolded book_amounts_frame frame]
  show ?thesis
  proof (cases "st_sqrt_next st = q")
    case False
    have "sw_price s' = st_sqrt_next st \<and> sw_remaining s' = sw_remaining b"
      using move False by (auto simp: move_price_def Let_def res_simps split: if_splits)
    moreover have "st_sqrt_next st = sp_price_limit p \<or> sw_remaining b = 0"
      using step(3) False fr(4) by (auto simp: swap_target_def split: if_splits)
    ultimately show ?thesis by (auto simp: swap_stops_def)
  next
    case True
    from move True obtain b' where b': "(if found then cross_initialized p t (b\<lparr>sw_price := q\<rparr>)
        else Inr (b\<lparr>sw_price := q\<rparr>)) = Inr b'"
      and s': "s' = b'\<lparr>sw_tick := tick_after_reaching (sp_zero_for_one p) t\<rparr>"
      by (auto simp: move_price_def Let_def andthen_eq_Inr)
    have beyond: "ahead (sp_zero_for_one p) q (sp_price_limit p)"
      using step(1) True by (auto simp: ahead_def swap_target_def split: if_splits)
    have low: "MIN_TICK < t \<or> \<not> sp_zero_for_one p"
    proof (rule ccontr)
      assume "\<not> ?thesis"
      then have "t = MIN_TICK" "sp_zero_for_one p" using n(1) by simp_all
      then have "q = MIN_SQRT_RATIO" using q ratio_at_ends(1) [OF fp] by simp
      with beyond lo(2) \<open>sp_zero_for_one p\<close> show False by (simp add: ahead_def limit_ok_def)
    qed
    have high: "t < MAX_TICK \<or> sp_zero_for_one p"
    proof (rule ccontr)
      assume "\<not> ?thesis"
      then have "t = MAX_TICK" "\<not> sp_zero_for_one p" using n(2) by simp_all
      then have "q = MAX_SQRT_RATIO" using q ratio_at_ends(2) [OF fp] by simp
      with beyond lo(2) \<open>\<not> sp_zero_for_one p\<close> show False by (simp add: ahead_def limit_ok_def)
    qed
    have slot: "slot_ok (sp_fp p) q (tick_after_reaching (sp_zero_for_one p) t)"
      by (rule reached_slot [OF fp low n(1,2) q])
    have rem: "sw_remaining b \<le> U128_MAX"
      using book_amounts_remaining [of p st s1] lo(5) fr(4) frame by simp
    have "sw_price b' = q \<and> sw_remaining b' \<le> U128_MAX \<and> sw_liquidity b' \<le> U128_MAX
      \<and> cache_ok (sp_ticks p) (sw_cache b')"
    proof (cases found)
      case True
      with b' have c: "cross_initialized p t (b\<lparr>sw_price := q\<rparr>) = Inr b'" by simp
      from cross_initialized_frame [OF c] show ?thesis using rem fr lo(4) index n(3) by simp
    next
      case False
      with b' rem fr lo(4) n(3) show ?thesis by auto
    qed
    then have "loop_ok p s'"
      using slot beyond lo(2) by (simp add: loop_ok_def s' limit_ok_def)
    moreover have "progress (sp_zero_for_one p) (sw_tick s) (sw_tick s')"
      using n(1,2,4) low high
      by (auto simp: progress_def s' tick_after_reaching_def saturate_i32_def tick_defs)
    ultimately show ?thesis by blast
  qed
qed

section \<open>The loop returns\<close>

definition ticks_left :: "bool \<Rightarrow> int \<Rightarrow> nat" where
  "ticks_left zero_for_one tick = nat (if zero_for_one then tick - MIN_TICK else MAX_TICK - tick)"

lemma progress_less:
  assumes "progress z t t'" and "MIN_TICK \<le> t'" and "t' \<le> MAX_TICK"
  shows "ticks_left z t' < ticks_left z t"
  using assms by (auto simp: progress_def ticks_left_def)

lemma swap_rounds_return:
  assumes "params_ok p" and "loop_ok p s"
  shows "\<exists>r. swap_rounds p s = Some r"
  using assms(2)
proof (induction "ticks_left (sp_zero_for_one p) (sw_tick s)" arbitrary: s rule: less_induct)
  case less
  show ?case
  proof (cases "swap_stops p s")
    case True
    then show ?thesis by (subst swap_rounds.simps) simp
  next
    case False
    show ?thesis
    proof (cases "swap_round p s")
      case (Inl e)
      with False show ?thesis by (subst swap_rounds.simps) simp
    next
      case (Inr s')
      then have unfold: "swap_rounds p s = swap_rounds p s'"
        using False by (subst swap_rounds.simps) simp
      from round_progress [OF assms(1) less.prems Inr] show ?thesis
      proof
        assume "swap_stops p s'"
        then have "swap_rounds p s' = Some (Inr s')" by (subst swap_rounds.simps) simp
        with unfold show ?thesis by simp
      next
        assume p: "loop_ok p s' \<and> progress (sp_zero_for_one p) (sw_tick s) (sw_tick s')"
        then have "MIN_TICK \<le> sw_tick s'" "sw_tick s' \<le> MAX_TICK" by (simp_all add: loop_ok_def slot_ok_def)
        with p less.hyps [of s'] progress_less show ?thesis unfolding unfold by blast
      qed
    qed
  qed
qed

end
