(* ===== verification/CL_Flow.thy ===== *)
theory CL_Flow
  imports CL_Runs CL_Loop
begin

text \<open>
  What a swap moves: the amounts and fees the loop returns, the tokens transferred and the books
  after it, in terms of the side of the input token and the side of the output token.
\<close>

section \<open>The loop\<close>

lemma swap_rounds_keeps:
  assumes run: "swap_rounds p s = Some (Inr t)" and "P s"
    and step: "\<And>u v. P u \<Longrightarrow> \<not> swap_stops p u \<Longrightarrow> swap_round p u = Inr v \<Longrightarrow> P v"
  shows "P t \<and> swap_stops p t"
proof -
  have "\<forall>t. r = Inr t \<longrightarrow> q = p \<longrightarrow> P u \<longrightarrow> P t \<and> swap_stops p t" if "swap_rounds q u = Some r" for q u r
    using that
  proof (rule swap_rounds.raw_induct [rotated])
    fix f :: "swap_params \<Rightarrow> swap_state \<Rightarrow> swap_state res option" and q u r
    assume ih: "\<And>q u r. f q u = Some r \<Longrightarrow> \<forall>t. r = Inr t \<longrightarrow> q = p \<longrightarrow> P u \<longrightarrow> P t \<and> swap_stops p t"
      and eq: "(if swap_stops q u then Some (Inr u)
        else case swap_round q u of Inl e \<Rightarrow> Some (Inl e) | Inr s' \<Rightarrow> f q s') = Some r"
    show "\<forall>t. r = Inr t \<longrightarrow> q = p \<longrightarrow> P u \<longrightarrow> P t \<and> swap_stops p t"
    proof (intro allI impI)
      fix t assume r: "r = Inr t" and q: "q = p" and u: "P u"
      show "P t \<and> swap_stops p t"
      proof (cases "swap_stops p u")
        case True
        then show ?thesis using eq r q u by simp
      next
        case False
        with eq r q obtain v where v: "swap_round p u = Inr v" "f p v = Some (Inr t)"
          by (auto split: sum.splits)
        from ih [OF v(2)] step [OF u False v(1)] show ?thesis by blast
      qed
    qed
  qed
  from this [OF run] \<open>P s\<close> show ?thesis by blast
qed

lemma cross_initialized_flow:
  "cross_initialized p n s = Inr t \<Longrightarrow> sw_remaining t = sw_remaining s \<and> sw_calculated t = sw_calculated s \<and>
    sw_fees t = sw_fees s"
  by (auto simp: cross_initialized_def Let_def res_simps split: prod.splits)

lemma move_price_flow:
  "move_price p n np p0 p1 s = Inr t \<Longrightarrow> sw_remaining t = sw_remaining s \<and> sw_calculated t = sw_calculated s \<and>
    sw_fees t = sw_fees s"
  by (auto simp: move_price_def Let_def res_simps split: if_splits prod.splits dest!: cross_initialized_flow)

lemma book_fees_flow:
  assumes "book_fees p st s = Inr t" and "\<not> sp_dry_run p"
  shows "\<exists>charge. mul_div_u128 (sp_fp p) (st_fee st) (sp_protocol_fraction p) CL_FEE_DENOMINATOR False = Inr charge \<and>
    sw_fees t = add_protocol_fee (sp_zero_for_one p) charge (sw_fees s)"
  using assms by (auto simp: book_fees_def res_simps split: prod.splits)

lemma round_flow:
  assumes "swap_round p s = Inr t" and "\<not> sp_dry_run p"
  shows "\<exists>st charge. sw_remaining t = sw_remaining (book_amounts p st s) \<and>
    sw_calculated t = sw_calculated (book_amounts p st s) \<and>
    mul_div_u128 (sp_fp p) (st_fee st) (sp_protocol_fraction p) CL_FEE_DENOMINATOR False = Inr charge \<and>
    sw_fees t = add_protocol_fee (sp_zero_for_one p) charge (sw_fees s)"
proof -
  obtain n cc where f: "find_initialized_tick_in_word (sp_ticks p) (sw_tick (note_liquidity s)) (sp_spacing p)
    (sp_zero_for_one p) (sw_cache (note_liquidity s)) = (n, cc)" by fastforce
  let ?s = "(note_liquidity s)\<lparr>sw_cache := cc\<rparr>"
  from assms(1) f obtain np st u where b: "book_fees p st (book_amounts p st ?s) = Inr u"
    and m: "move_price p n np (sw_price ?s) (st_sqrt_next st) u = Inr t"
    by (auto simp: swap_round_def Let_def res_simps)
  have same: "sw_remaining (book_amounts p st ?s) = sw_remaining (book_amounts p st s)"
    "sw_calculated (book_amounts p st ?s) = sw_calculated (book_amounts p st s)"
    "sw_fees (book_amounts p st ?s) = sw_fees s"
    by (simp_all add: book_amounts_def note_liquidity_def)
  from book_fees_flow [OF b assms(2)] obtain charge where
    "mul_div_u128 (sp_fp p) (st_fee st) (sp_protocol_fraction p) CL_FEE_DENOMINATOR False = Inr charge"
    "sw_fees u = add_protocol_fee (sp_zero_for_one p) charge (sw_fees (book_amounts p st ?s))" by blast
  moreover have "sw_remaining u = sw_remaining (book_amounts p st ?s)"
    "sw_calculated u = sw_calculated (book_amounts p st ?s)"
    using b by (auto simp: book_fees_def res_simps split: if_splits prod.splits)
  ultimately show ?thesis using move_price_flow [OF m] same by metis
qed

definition flow_ok :: "swap_params \<Rightarrow> nat \<Rightarrow> nat \<times> nat \<Rightarrow> swap_state \<Rightarrow> bool" where
  \<comment> \<open>fees are only taken on the input side, and only where something was paid in\<close>
  "flow_ok p amount fees s \<longleftrightarrow> sw_remaining s \<le> amount \<and> sw_calculated s \<le> U128_MAX \<and>
     side (\<not> sp_zero_for_one p) (sw_fees s) = side (\<not> sp_zero_for_one p) fees \<and>
     (\<not> sp_exact_input p \<and> sw_calculated s = 0 \<longrightarrow>
       side (sp_zero_for_one p) (sw_fees s) \<le> side (sp_zero_for_one p) fees)"

lemma add_protocol_fee_sides:
  "side (\<not> z) (add_protocol_fee z charge fees) = side (\<not> z) fees"
  "side z (add_protocol_fee z charge fees) = sat_add U128_MAX (side z fees) charge"
  by (auto simp: add_protocol_fee_def side_def)

lemma flow_ok_round:
  assumes run: "swap_round p s = Inr t" and real: "\<not> sp_dry_run p" and lib: "fixed_point_lib (sp_fp p)"
    and ok: "flow_ok p a f s"
  shows "flow_ok p a f t"
proof -
  from round_flow [OF run real] obtain st charge where
    t: "sw_remaining t = sw_remaining (book_amounts p st s)" "sw_calculated t = sw_calculated (book_amounts p st s)"
      "sw_fees t = add_protocol_fee (sp_zero_for_one p) charge (sw_fees s)"
    and charge: "mul_div_u128 (sp_fp p) (st_fee st) (sp_protocol_fraction p) CL_FEE_DENOMINATOR False = Inr charge" by blast
  have charge0: "st_fee st = 0 \<Longrightarrow> charge = 0" using mul_div_u128_InrD [OF lib charge] by simp
  have zero: "sw_calculated s = 0 \<and> st_fee st = 0" if "\<not> sp_exact_input p" "sw_calculated t = 0"
    using that by (auto simp: t(2) book_amounts_def sat_add_def U128_MAX_def min_def split: if_splits)
  have "sw_remaining t \<le> a"
    using ok t(1) book_amounts_remaining [of p st s] by (simp add: flow_ok_def)
  moreover have "sw_calculated t \<le> U128_MAX" by (simp add: t(2) book_amounts_def sat_add_def)
  moreover have "side (\<not> sp_zero_for_one p) (sw_fees t) = side (\<not> sp_zero_for_one p) f"
    using ok by (simp add: t(3) add_protocol_fee_sides flow_ok_def)
  moreover have "side (sp_zero_for_one p) (sw_fees t) \<le> side (sp_zero_for_one p) f"
    if "\<not> sp_exact_input p" "sw_calculated t = 0"
    using zero [OF that] charge0 ok that(1) by (simp add: t(3) add_protocol_fee_sides flow_ok_def sat_add_def min_def)
  ultimately show ?thesis by (simp add: flow_ok_def)
qed

lemma swap_loop_flow:
  assumes run: "swap_loop fp z amount limit False s = Inr (used, st)" and lib: "fixed_point_lib fp"
  shows "used \<le> nat \<bar>amount\<bar> \<and> sw_calculated st \<le> U128_MAX \<and>
    side (\<not> z) (sw_fees st) = side (\<not> z) (cl_protocol_fees s) \<and>
    (\<not> 0 < amount \<and> sw_calculated st = 0 \<longrightarrow> side z (sw_fees st) \<le> side z (cl_protocol_fees s))"
proof -
  from run obtain cf price_limit where
    r: "swap_rounds (start_params fp False z amount price_limit cf s) (start_state False amount s) = Some (Inr st)"
    and u: "used = sat_sub (nat \<bar>amount\<bar>) (sw_remaining st)"
    by (auto simp: swap_loop_def res_simps split: if_splits option.splits)
  let ?p = "start_params fp False z amount price_limit cf s"
  have "flow_ok ?p (nat \<bar>amount\<bar>) (cl_protocol_fees s) (start_state False amount s)"
    by (simp add: flow_ok_def start_state_def)
  with r have "flow_ok ?p (nat \<bar>amount\<bar>) (cl_protocol_fees s) st \<and> swap_stops ?p st"
    by (rule swap_rounds_keeps) (rule flow_ok_round, simp_all add: start_params_def lib)
  then show ?thesis by (simp add: flow_ok_def start_params_def u sat_sub_def)
qed

section \<open>The transfers and the books of a swap\<close>

lemma i128_round_trip: "n \<le> U128_MAX \<Longrightarrow> as_u128 (as_i128 n) = n"
  by (auto simp: as_i128_def as_u128_def I128_MAX_def U128_MAX_def nat_mod_as_int zmod_int [symmetric])

lemma swap_amounts_signed_sides:
  assumes "swap_amounts_signed z ei used calculated = Inr (a0, a1)"
  shows "side z (a0, a1) = as_i128 (if ei then used else calculated) \<and>
    side (\<not> z) (a0, a1) = - as_i128 (if ei then calculated else used)"
  using assms by (auto simp: swap_amounts_signed_def Let_def res_simps side_def split: if_splits)

lemma book_reserves_sides:
  assumes "book_reserves a pf s = Inr r"
  shows "book_flow (side b a) (side b pf) (side b (cl_reserves s)) = Inr (side b r)"
  using assms by (cases b) (auto simp: book_reserves_def res_simps)

lemma add_surplus_sides:
  "add_surplus z n r = Inr r' \<Longrightarrow> side z r' = side z r + n \<and> side (\<not> z) r' = side (\<not> z) r"
  by (cases z) (auto simp: add_surplus_def res_simps)

lemma fee_delta_sides:
  assumes "fee_delta st s = Inr pf"
  shows "side b (cl_protocol_fees s) \<le> side b (sw_fees st) \<and>
    side b pf = side b (sw_fees st) - side b (cl_protocol_fees s)"
  using assms by (cases b) (auto simp: fee_delta_def res_simps)

lemma book_flow_in:
  assumes "book_flow (int n) pf r = Inr r'" and "n \<le> U128_MAX"
  shows "if n = 0 then r' = r else pf \<le> n \<and> r' = r + n - pf"
  using assms by (auto simp: book_flow_def res_simps as_u128_def U128_MAX_def split: if_splits)

lemma book_flow_out:
  assumes "book_flow (- int n) pf r = Inr r'" and "n \<le> U128_MAX"
  shows "n \<le> r \<and> r' = r - n"
  using assms by (auto simp: book_flow_def res_simps as_u128_def U128_MAX_def split: if_splits)

lemma distribute_surplus_flow:
  assumes "distribute_surplus fp z n st cf s = Inr (sp, s')"
  shows "cl_config s' = cl_config s \<and> cl_reserves s' = cl_reserves s \<and>
    side (\<not> z) (cl_protocol_fees s') = side (\<not> z) (cl_protocol_fees s) \<and>
    side z (cl_protocol_fees s') + sp \<le> side z (cl_protocol_fees s) + n"
proof (cases "0 < n \<and> 0 < sw_last_liquidity st")
  case True
  define take where "take c = (if 0 < c then s\<lparr>cl_protocol_fees := add_protocol_fee z c (cl_protocol_fees s)\<rparr> else s)" for c
  from assms True obtain c gd g s1 where c: "u_sub n c = Inr sp"
    and s1: "s1 = (take c)\<lparr>cl_fee_growth := g\<rparr>"
    and s': "(if sw_crossed st \<and> gd \<noteq> 0
        then andthen (tick_surplus z gd (cf_spacing cf) (sw_last_tick st) (cl_ticks s1)) (\<lambda>ts. Inr (s1\<lparr>cl_ticks := ts\<rparr>))
        else Inr s1) = Inr s'"
    unfolding distribute_surplus_def Let_def take_def [symmetric]
    by (clarsimp simp: andthen_eq_Inr split del: if_split)
  have "cl_config s' = cl_config s1 \<and> cl_reserves s' = cl_reserves s1 \<and> cl_protocol_fees s' = cl_protocol_fees s1"
    using s' by (auto simp: res_simps split: if_splits)
  moreover have "cl_config s1 = cl_config s \<and> cl_reserves s1 = cl_reserves s" by (simp add: s1 take_def)
  moreover have "side (\<not> z) (cl_protocol_fees s1) = side (\<not> z) (cl_protocol_fees s)"
    "side z (cl_protocol_fees s1) \<le> side z (cl_protocol_fees s) + c"
    by (simp_all add: s1 take_def add_protocol_fee_sides sat_add_def)
  ultimately show ?thesis using c by (auto simp: res_simps)
next
  case False
  then show ?thesis using assms by (auto simp: distribute_surplus_def)
qed

lemma swap_store_books [simp]:
  "cl_config (swap_store st s) = cl_config s" "cl_reserves (swap_store st s) = cl_reserves s"
  "cl_protocol_fees (swap_store st s) = sw_fees st"
  by (simp_all add: swap_store_def)

lemma swap_internal_sides:
  "swap_internal x e u z amount limit max_in (s, w) =
     andthen (swap_loop (cc_fp x) z amount limit False s) (\<lambda>(used, st).
     andthen (fee_delta st s) (\<lambda>pf.
     if 0 < amount \<and> used = 0 then Inl (ConcentratedError CL_InsufficientLiquidity)
     else
       andthen (swap_amounts_signed z (0 < amount) used (sw_calculated st)) (\<lambda>(a0, a1).
       andthen (stored (cl_config s)) (\<lambda>cf.
       andthen (i128_sub 0 (side (\<not> z) (a0, a1))) (\<lambda>os.
       if max_in < as_u128 (side z (a0, a1)) then Inl (ValidationError V_InMaxNotSatisfied)
       else
         andthen (swap_transfers x e u (side_token z cf) (side_token (\<not> z) cf) (0 < amount) max_in
           (as_u128 (side z (a0, a1))) (as_u128 os) w) (\<lambda>w1.
         andthen (book_reserves (a0, a1) pf (swap_store st s)) (\<lambda>res.
         andthen
           (if 0 < amount then andthen (u_sub max_in (as_u128 (side z (a0, a1)))) (\<lambda>n.
              distribute_surplus (cc_fp x) z n st cf (swap_store st s))
            else Inr (0, swap_store st s)) (\<lambda>(sp, s1).
         andthen (add_surplus z sp res) (\<lambda>res'.
         andthen (cl_update_plane x e (s1\<lparr>cl_reserves := res'\<rparr>) w1) (\<lambda>w'.
         Inr (\<lparr>sr_amount0 = a0, sr_amount1 = a1, sr_liquidity = sw_liquidity st,
               sr_sqrt_price = sw_price st, sr_tick = sw_tick st\<rparr>, s1\<lparr>cl_reserves := res'\<rparr>, w')))))))))))"
  by (cases z) (simp_all add: swap_internal_def Let_def cong: if_cong)

lemma swap_internal_InrE:
  assumes run: "swap_internal x e u z amount limit max_in (s, w) = Inr (r, s', w')"
    and lib: "fixed_point_lib (cc_fp x)" and amount: "i128_fits amount"
  obtains cf in_u out_u pf w1 res sp fees where
    "cl_config s = Some cf" and "cl_config s' = Some cf"
    and "in_u \<le> max_in" and "in_u \<le> U128_MAX" and "out_u \<le> U128_MAX"
    and "swap_transfers x e u (side_token z cf) (side_token (\<not> z) cf) (0 < amount) max_in in_u out_u w = Inr w1"
    and "book_flow (as_i128 in_u) (side z pf) (side z (cl_reserves s)) = Inr (side z res)"
    and "book_flow (- as_i128 out_u) (side (\<not> z) pf) (side (\<not> z) (cl_reserves s)) = Inr (side (\<not> z) res)"
    and "side z (cl_protocol_fees s) + side z pf = side z fees"
    and "side (\<not> z) (cl_protocol_fees s') = side (\<not> z) (cl_protocol_fees s)"
    and "in_u = 0 \<longrightarrow> \<not> 0 < amount \<and> side z pf = 0"
    and "side z (cl_protocol_fees s') + sp \<le> side z fees + (if 0 < amount then max_in - in_u else 0)"
    and "side z (cl_reserves s') = side z res + sp" and "side (\<not> z) (cl_reserves s') = side (\<not> z) res"
    and "cl_update_plane x e s' w1 = Inr w'"
proof -
  from run obtain used st pf a0 a1 cf os w1 res sp s1 res' where
    loop: "swap_loop (cc_fp x) z amount limit False s = Inr (used, st)" and pf: "fee_delta st s = Inr pf"
    and some: "\<not> (0 < amount \<and> used = 0)"
    and am: "swap_amounts_signed z (0 < amount) used (sw_calculated st) = Inr (a0, a1)"
    and cf: "cl_config s = Some cf"
    and os: "i128_sub 0 (side (\<not> z) (a0, a1)) = Inr os" and le: "as_u128 (side z (a0, a1)) \<le> max_in"
    and tr: "swap_transfers x e u (side_token z cf) (side_token (\<not> z) cf) (0 < amount) max_in
      (as_u128 (side z (a0, a1))) (as_u128 os) w = Inr w1"
    and res: "book_reserves (a0, a1) pf (swap_store st s) = Inr res"
    and sp: "(if 0 < amount
        then andthen (u_sub max_in (as_u128 (side z (a0, a1)))) (\<lambda>n.
          distribute_surplus (cc_fp x) z n st cf (swap_store st s))
        else Inr (0, swap_store st s)) = Inr (sp, s1)"
    and add: "add_surplus z sp res = Inr res'" and s': "s' = s1\<lparr>cl_reserves := res'\<rparr>"
    and pl: "cl_update_plane x e s' w1 = Inr w'"
    unfolding swap_internal_sides
    by (clarsimp simp: andthen_eq_Inr if_Inl_eq_Inr stored_def from_option_eq_Inr not_less split del: if_split)
  define in_u where "in_u = (if 0 < amount then used else sw_calculated st)"
  define out_u where "out_u = (if 0 < amount then sw_calculated st else used)"
  note flow = swap_loop_flow [OF loop lib]
  have "nat \<bar>amount\<bar> \<le> U128_MAX" using amount unfolding i128_fits_def U128_MAX_def nat_le_iff by (simp add: abs_le_iff)
  then have io: "in_u \<le> U128_MAX" "out_u \<le> U128_MAX" using flow by (auto simp: in_u_def out_u_def)
  have a: "side z (a0, a1) = as_i128 in_u" "side (\<not> z) (a0, a1) = - as_i128 out_u"
    using swap_amounts_signed_sides [OF am] by (simp_all add: in_u_def out_u_def)
  have os': "os = as_i128 out_u" using os a(2) by (simp add: res_simps)
  have pf': "side b (cl_protocol_fees s) \<le> side b (sw_fees st)"
    "side b pf = side b (sw_fees st) - side b (cl_protocol_fees s)" for b
    using fee_delta_sides [OF pf, of b] by simp_all
  have zero: "in_u = 0 \<longrightarrow> \<not> 0 < amount \<and> side z pf = 0"
  proof
    assume z: "in_u = 0"
    then have "\<not> 0 < amount" using some by (auto simp: in_u_def)
    then show "\<not> 0 < amount \<and> side z pf = 0" using z flow pf'(2) [of z] by (simp add: in_u_def)
  qed
  have sp': "cl_config s1 = cl_config s" "side (\<not> z) (cl_protocol_fees s1) = side (\<not> z) (sw_fees st)"
    "side z (cl_protocol_fees s1) + sp \<le> side z (sw_fees st) + (if 0 < amount then max_in - in_u else 0)"
    using sp distribute_surplus_flow [of "cc_fp x" z "max_in - in_u" st cf "swap_store st s" sp s1]
    by (auto simp: a i128_round_trip io res_simps split: if_splits)
  have flows: "book_flow (as_i128 in_u) (side z pf) (side z (cl_reserves s)) = Inr (side z res)"
    "book_flow (- as_i128 out_u) (side (\<not> z) pf) (side (\<not> z) (cl_reserves s)) = Inr (side (\<not> z) res)"
    using book_reserves_sides [OF res, of z] book_reserves_sides [OF res, of "\<not> z"] by (simp_all add: a)
  have tr': "swap_transfers x e u (side_token z cf) (side_token (\<not> z) cf) (0 < amount) max_in in_u out_u w = Inr w1"
    and le': "in_u \<le> max_in"
    using tr le by (simp_all add: a os' i128_round_trip io)
  have s1: "side z (cl_reserves s') = side z res + sp" "side (\<not> z) (cl_reserves s') = side (\<not> z) res"
    "cl_config s' = Some cf" "side (\<not> z) (cl_protocol_fees s') = side (\<not> z) (cl_protocol_fees s)"
    "side z (cl_protocol_fees s') + sp \<le> side z (sw_fees st) + (if 0 < amount then max_in - in_u else 0)"
    using add_surplus_sides [OF add] sp' cf flow by (simp_all add: s')
  have pfz: "side z (cl_protocol_fees s) + side z pf = side z (sw_fees st)" using pf' [of z] by simp
  show thesis
    by (rule that [OF cf s1(3) le' io tr' flows pfz s1(4) zero s1(5,1,2) pl])
qed

end
