(* ===== verification/CL_Solvency.thy ===== *)
theory CL_Solvency
  imports CL_Flow Pool_World
begin

text \<open>
  A concentrated pool can pay what its books say: for both tokens, its token balance covers the
  reserve (which holds the liquidity and the fees owed to positions) and the protocol's fees.
\<close>

section \<open>Covered books\<close>

definition cl_covered :: "'w tokens \<Rightarrow> address \<Rightarrow> cl_pool \<Rightarrow> 'w \<Rightarrow> bool" where
  "cl_covered tk me s w \<longleftrightarrow> (\<exists>cf. cl_config s = Some cf \<and> cf_token0 cf \<noteq> cf_token1 cf \<and>
     int (fst (cl_reserves s) + fst (cl_protocol_fees s)) \<le> tk_balance tk (cf_token0 cf) me w \<and>
     int (snd (cl_reserves s) + snd (cl_protocol_fees s)) \<le> tk_balance tk (cf_token1 cf) me w)"

definition held :: "cl_pool \<Rightarrow> bool \<Rightarrow> nat" where
  \<comment> \<open>what the books say of one token\<close>
  "held s b = side b (cl_reserves s) + side b (cl_protocol_fees s)"

lemma cl_covered_iff:
  "cl_covered tk me s w \<longleftrightarrow> (\<exists>cf. cl_config s = Some cf \<and> cf_token0 cf \<noteq> cf_token1 cf \<and>
     (\<forall>b. int (held s b) \<le> tk_balance tk (side_token b cf) me w))"
  unfolding cl_covered_def held_def by (auto simp: all_bool_eq)

lemma held_books:
  assumes "cl_books s' = cl_books s"
  shows "held s' = held s"
  by (rule ext) (simp add: held_def cl_booksD [OF assms])

lemma side_token_neq: "cf_token0 cf \<noteq> cf_token1 cf \<Longrightarrow> side_token b cf \<noteq> side_token (\<not> b) cf"
  by (cases b) auto

lemma cl_covered_mono:
  assumes "cl_covered tk me s w" and "cl_books s' = cl_books s" and "no_less tk me w w'"
  shows "cl_covered tk me s' w'"
  using assms(1,3) cl_booksD [OF assms(2)] unfolding cl_covered_def no_less_def by (auto intro: order_trans)

text \<open>
  The calls that solvency is about: the pool runs as itself and signs nothing for others (a contract
  authorizes only the calls it makes), and amounts are of their type.
\<close>

fun cl_arguments :: "cl_trade_op \<Rightarrow> bool" where
  "cl_arguments (ClDeposit u ds m) \<longleftrightarrow> ds ! 0 \<le> U128_MAX \<and> ds ! 1 \<le> U128_MAX"
| "cl_arguments (ClDepositPosition u l h ds m) \<longleftrightarrow> ds ! 0 \<le> U128_MAX \<and> ds ! 1 \<le> U128_MAX"
| "cl_arguments (ClSwap u i j n m) \<longleftrightarrow> n \<le> U128_MAX"
| "cl_arguments (ClSwapStrict u i j n m) \<longleftrightarrow> m \<le> U128_MAX"
| "cl_arguments _ \<longleftrightarrow> True"

definition cl_fair :: "address \<Rightarrow> env \<Rightarrow> cl_op \<Rightarrow> cl_pool \<Rightarrow> bool" where
  "cl_fair me e op s \<longleftrightarrow> current_contract e = me \<and> \<not> authorized e me \<and>
     (case op of ClTrade a \<Rightarrow> cl_arguments a | _ \<Rightarrow> True)"

lemma i128_fits_cast: "n \<le> U128_MAX \<Longrightarrow> i128_fits (as_i128 n)"
  by (simp add: i128_fits_def as_i128_def I128_MAX_def U128_MAX_def)

section \<open>Transfers\<close>

context pool_host
begin

abbreviation solid :: "cl_pool \<Rightarrow> 'w \<Rightarrow> bool" where
  "solid s w \<equiv> cl_covered (cc_tokens x) me s w"

lemma cl_no_lessD: "no_less (cc_tokens x) me w w' \<Longrightarrow> bal t w \<le> bal t w'"
  by (simp add: no_less_def)

lemma solidE:
  assumes "solid s w" and "cl_config s = Some cf"
  shows "cf_token0 cf \<noteq> cf_token1 cf" and "int (held s b) \<le> bal (side_token b cf) w"
  using assms unfolding cl_covered_iff by auto

lemma solidI:
  "cl_config s = Some cf \<Longrightarrow> cf_token0 cf \<noteq> cf_token1 cf \<Longrightarrow>
   (\<And>b. int (held s b) \<le> bal (side_token b cf) w) \<Longrightarrow> solid s w"
  unfolding cl_covered_iff by auto

lemma cl_plane_no_less:
  assumes "cl_update_plane x e s w = Inr w'" and "current_contract e = me"
  shows "no_less (cc_tokens x) me w w'"
  using assms plane_takes_nothing by (auto simp: cl_update_plane_def res_simps)

lemma pay_some_takes:
  assumes "pay_some x e t u n w = Inr w'" and "current_contract e = me"
  shows "bal t w - int n \<le> bal t w'" and "t' \<noteq> t \<Longrightarrow> bal t' w' = bal t' w"
  using assms pay_takes [of e t u n w w'] by (auto simp: pay_some_def split: if_splits)

lemma pay_some_small:
  assumes "pay_some x e t u n w = Inr w'" and "current_contract e = me" and "u \<noteq> me" and "n \<le> U128_MAX"
  shows "n \<le> I128_MAX"
proof (cases "0 < n")
  case True
  then have "tk_transfer (cc_tokens x) t me u (as_i128 n) w = Inr w'"
    using assms(1,2) by (simp add: pay_some_def pay_def)
  then have "0 \<le> as_i128 n" using token_ledger.transfer_moves [OF ledger] assms(3) by metis
  then show ?thesis using as_i128_nonneg_iff [OF assms(4)] by simp
qed (simp add: I128_MAX_def)

lemma collect_some_adds:
  assumes "collect_some x e t u n w = Inr w'" and "current_contract e = me" and "u \<noteq> me" and "n \<le> U128_MAX"
  shows "bal t w' = bal t w + int n" and "t' \<noteq> t \<Longrightarrow> bal t' w' = bal t' w" and "n \<le> I128_MAX"
proof -
  show "bal t w' = bal t w + int n" and "t' \<noteq> t \<Longrightarrow> bal t' w' = bal t' w"
    using assms collect_adds [of e t u n w w'] by (auto simp: collect_some_def split: if_splits)
  show "n \<le> I128_MAX"
  proof (cases "0 < n")
    case True
    then have "tk_transfer (cc_tokens x) t u me (as_i128 n) w = Inr w'"
      using assms(1,2) by (simp add: collect_some_def collect_def)
    then have "0 \<le> as_i128 n" using token_ledger.transfer_moves [OF ledger] assms(3) by metis
    then show ?thesis using as_i128_nonneg_iff [OF assms(4)] by simp
  qed (simp add: I128_MAX_def)
qed

lemma pay_both_takes:
  assumes "pay_both x e cf u a w = Inr w'" and "current_contract e = me" and "cf_token0 cf \<noteq> cf_token1 cf"
  shows "bal (side_token b cf) w - int (side b a) \<le> bal (side_token b cf) w'"
proof -
  from assms(1) obtain w1 where p: "pay_some x e (cf_token0 cf) u (fst a) w = Inr w1"
    "pay_some x e (cf_token1 cf) u (snd a) w1 = Inr w'"
    by (auto simp: pay_both_def res_simps)
  from pay_some_takes [OF p(1) assms(2)] pay_some_takes [OF p(2) assms(2)] assms(3) show ?thesis
    by (cases b) auto
qed

lemma swap_transfers_moves:
  assumes tr: "swap_transfers x e u tin tout ei max_in in_u out_u w = Inr w'" and me: "current_contract e = me"
    and u: "u \<noteq> me" and t: "tin \<noteq> tout" and le: "max_in \<le> U128_MAX" "in_u \<le> max_in" "out_u \<le> U128_MAX"
  shows "bal tin w + int (if ei then max_in else in_u) \<le> bal tin w'" and "bal tout w - int out_u \<le> bal tout w'"
    and "max_in \<le> I128_MAX" and "out_u \<le> I128_MAX"
proof -
  from tr obtain w1 w2 where c: "collect_some x e tin u max_in w = Inr w1"
    and r: "if ei then w2 = w1 else pay_some x e tin u (max_in - in_u) w1 = Inr w2"
    and p: "pay_some x e tout u out_u w2 = Inr w'"
    by (cases ei) (auto simp: swap_transfers_def res_simps)
  note cc = collect_some_adds [OF c me u le(1)]
  show "max_in \<le> I128_MAX" by (rule cc(3))
  show "out_u \<le> I128_MAX" by (rule pay_some_small [OF p me u le(3)])
  have two: "bal tin w1 - int (if ei then 0 else max_in - in_u) \<le> bal tin w2 \<and> bal tout w2 = bal tout w1"
    using r pay_some_takes [of e tin u "max_in - in_u" w1 w2] me t by (cases ei) auto
  show "bal tin w + int (if ei then max_in else in_u) \<le> bal tin w'"
    using cc(1) two pay_some_takes(2) [OF p me t] le(2) by (auto simp: of_nat_diff split: if_splits)
  show "bal tout w - int out_u \<le> bal tout w'"
    using cc(2) [of tout] two pay_some_takes(1) [OF p me] t by auto
qed

section \<open>Swaps\<close>

lemma swap_internal_solid:
  assumes run: "swap_internal x e u z amount limit max_in (s, w) = Inr (r, s', w')"
    and me: "current_contract e = me" and u: "u \<noteq> me" and n: "i128_fits amount" "max_in \<le> U128_MAX"
    and fd: "solid s w"
  shows "solid s' w'"
proof -
  from swap_internal_InrE [OF run lib n(1)] obtain cf in_u out_u pf w1 res sp fees where
    cf: "cl_config s = Some cf" "cl_config s' = Some cf"
    and le: "in_u \<le> max_in" "in_u \<le> U128_MAX" "out_u \<le> U128_MAX"
    and tr: "swap_transfers x e u (side_token z cf) (side_token (\<not> z) cf) (0 < amount) max_in in_u out_u w = Inr w1"
    and flow: "book_flow (as_i128 in_u) (side z pf) (side z (cl_reserves s)) = Inr (side z res)"
      "book_flow (- as_i128 out_u) (side (\<not> z) pf) (side (\<not> z) (cl_reserves s)) = Inr (side (\<not> z) res)"
    and pf: "side z (cl_protocol_fees s) + side z pf = side z fees"
    and fo: "side (\<not> z) (cl_protocol_fees s') = side (\<not> z) (cl_protocol_fees s)"
    and zero: "in_u = 0 \<longrightarrow> \<not> 0 < amount \<and> side z pf = 0"
    and sp: "side z (cl_protocol_fees s') + sp \<le> side z fees + (if 0 < amount then max_in - in_u else 0)"
    and res: "side z (cl_reserves s') = side z res + sp" "side (\<not> z) (cl_reserves s') = side (\<not> z) res"
    and pl: "cl_update_plane x e s' w1 = Inr w'" .
  note t = solidE(1) [OF fd cf(1)] and hold = solidE(2) [OF fd cf(1)]
  note mv = swap_transfers_moves [OF tr me u side_token_neq [OF t] n(2) le(1,3)]
  note grow = cl_no_lessD [OF cl_plane_no_less [OF pl me]]
  have flow': "book_flow (int in_u) (side z pf) (side z (cl_reserves s)) = Inr (side z res)"
    "book_flow (- int out_u) (side (\<not> z) pf) (side (\<not> z) (cl_reserves s)) = Inr (side (\<not> z) res)"
    using flow as_i128_small [of in_u] as_i128_small [of out_u] mv(3,4) le(1) by simp_all
  have "side z res + side z fees \<le> held s z + in_u"
    using book_flow_in [OF flow'(1) le(2)] pf zero by (auto simp: held_def split: if_splits)
  then have zin: "held s' z \<le> held s z + (if 0 < amount then max_in else in_u)"
    using sp res(1) le(1) by (auto simp: held_def split: if_splits)
  have zout: "held s' (\<not> z) + out_u = held s (\<not> z)"
    using book_flow_out [OF flow'(2) le(3)] fo res(2) by (simp add: held_def)
  show ?thesis
  proof (rule solidI [OF cf(2) t])
    fix b
    show "int (held s' b) \<le> bal (side_token b cf) w'"
    proof (cases "b = z")
      case True
      then show ?thesis using zin mv(1) hold [of z] grow [of "side_token z cf"] by (simp split: if_splits)
    next
      case False
      then have "b = (\<not> z)" by auto
      then show ?thesis using zout mv(2) hold [of "\<not> z"] grow [of "side_token (\<not> z) cf"] by simp
    qed
  qed
qed

lemma cl_swap_solid:
  assumes run: "cl_swap x e u i j n m (s, w) = Inr (v, s', w')" and me: "current_contract e = me" "\<not> authorized e me"
    and n: "n \<le> U128_MAX" and fd: "solid s w"
  shows "solid s' w'"
proof -
  from run obtain z r where "authorized e u" and "swap_internal x e u z (as_i128 n) 0 n (s, w) = Inr (r, s', w')"
    by (auto simp: cl_swap_def res_simps)
  then show ?thesis using swap_internal_solid [OF _ me(1) _ i128_fits_cast [OF n] n fd] me(2) by blast
qed

lemma cl_swap_strict_solid:
  assumes run: "cl_swap_strict_receive x e u i j n m (s, w) = Inr (v, s', w')"
    and me: "current_contract e = me" "\<not> authorized e me" and m: "m \<le> U128_MAX" and fd: "solid s w"
  shows "solid s' w'"
proof -
  from run obtain z r a where "authorized e u" and "i128_sub 0 (as_i128 n) = Inr a"
    and sw: "swap_internal x e u z a 0 m (s, w) = Inr (r, s', w')"
    by (auto simp: cl_swap_strict_receive_def andthen_eq_Inr if_Inl_eq_Inr require_auth_eq_Inr)
  then have "i128_fits a" and "u \<noteq> me" using me(2) by (auto simp: i128_eq_Inr)
  show ?thesis by (rule swap_internal_solid [OF sw me(1) \<open>u \<noteq> me\<close> \<open>i128_fits a\<close> m fd])
qed

section \<open>Deposits, withdrawals and fees of positions\<close>

lemma same_books_solid: "solid s w \<Longrightarrow> cl_books s' = cl_books s \<Longrightarrow> no_less (cc_tokens x) me w w' \<Longrightarrow> solid s' w'"
  by (rule cl_covered_mono)

lemma before_change_solid:
  "before_change x e u (s, w) = Inr (s', w') \<Longrightarrow> current_contract e = me \<Longrightarrow> solid s w \<Longrightarrow> solid s' w'"
  using same_books_solid before_change_books gauge_no_less by metis

lemma settle_weight_solid:
  "settle_weight x e u d (s, w) = Inr (s', w') \<Longrightarrow> current_contract e = me \<Longrightarrow> solid s w \<Longrightarrow> solid s' w'"
  using same_books_solid settle_weight_books gauge_no_less by metis

lemma plane_solid:
  "cl_update_plane x e s w = Inr w' \<Longrightarrow> current_contract e = me \<Longrightarrow> solid s w \<Longrightarrow> solid s w'"
  using same_books_solid [OF _ refl] cl_plane_no_less by blast

lemma deposit_amounts_solid:
  assumes run: "deposit_amounts x e u ds am (s, w) = Inr (s', w')" and me: "current_contract e = me"
    and u: "u \<noteq> me" and le: "fst ds \<le> U128_MAX" "snd ds \<le> U128_MAX" and fd: "solid s w"
  shows "solid s' w'"
proof -
  from run obtain cf w1 w2 where cf: "cl_config s = Some cf"
    and c: "collect_some x e (cf_token0 cf) u (fst ds) w = Inr w1"
      "collect_some x e (cf_token1 cf) u (snd ds) w1 = Inr w2"
    and p: "pay_both x e cf u (fst ds - fst am, snd ds - snd am) w2 = Inr w'"
    and am: "fst am \<le> fst ds" "snd am \<le> snd ds"
    and s': "s' = s\<lparr>cl_reserves := (fst (cl_reserves s) + fst am, snd (cl_reserves s) + snd am)\<rparr>"
    by (auto simp: deposit_amounts_def res_simps stored_def)
  note t = solidE(1) [OF fd cf]
  note c1 = collect_some_adds [OF c(1) me u le(1)] and c2 = collect_some_adds [OF c(2) me u le(2)]
  have "bal (side_token b cf) w + int (side b am) \<le> bal (side_token b cf) w'" for b
    using c1(1,2) c2(1,2) t pay_both_takes [OF p me t, of b] am by (cases b) (auto simp: of_nat_diff)
  moreover have "held s' b = held s b + side b am" for b by (cases b) (simp_all add: held_def s')
  moreover have "cl_config s' = Some cf" by (simp add: s' cf)
  ultimately show ?thesis
    using solidE(2) [OF fd cf] t by (intro solidI [of s' cf]) (simp_all, metis add_mono_thms_linordered_semiring(1) order_refl order_trans)
qed

lemma deposit_position_solid:
  assumes run: "deposit_position x e u l h ds m (s, w) = Inr (v, s', w')"
    and me: "current_contract e = me" "\<not> authorized e me"
    and le: "ds ! 0 \<le> U128_MAX" "ds ! 1 \<le> U128_MAX" and fd: "solid s w"
  shows "solid s' w'"
proof -
  from run obtain s1 s2 w2 n am s3 w3 s4 s5 s6 s7 s8 w8 full where u: "authorized e u"
    and a: "first_price (cc_fp x) l h (ds ! 0) (ds ! 1) s = Inr s1" and b: "before_change x e u (s1, w) = Inr (s2, w2)"
    and d: "deposit_amounts x e u (ds ! 0, ds ! 1) am (s2, w2) = Inr (s3, w3)"
    and t: "tick_change l (as_i128 n) False s3 = Inr s4" "tick_change h (as_i128 n) True s4 = Inr s5"
    and g: "grow_position (cc_fp x) u l h n s5 = Inr s6" and al: "add_liquidity full l h n s6 = Inr s7"
    and se: "settle_weight x e u (as_i128 n) (s7, w3) = Inr (s', w8)" and pl: "cl_update_plane x e s' w8 = Inr w'"
    unfolding deposit_position_def Let_def
    by (clarsimp simp: andthen_eq_Inr if_Inl_eq_Inr require_auth_eq_Inr split del: if_split)
  from u me(2) have "u \<noteq> me" by auto
  have "solid s1 w" using same_books_solid [OF fd first_price_books [OF a]] by simp
  from before_change_solid [OF b me(1) this] have "solid s2 w2" .
  from deposit_amounts_solid [OF d me(1) \<open>u \<noteq> me\<close> _ _ this] le have "solid s3 w3" by simp
  then have "solid s7 w3"
    using t g al by (auto intro: same_books_solid simp: tick_change_books grow_books add_liquidity_books)
  from plane_solid [OF pl me(1) settle_weight_solid [OF se me(1) this]] show ?thesis .
qed

lemma take_and_pay_solid:
  assumes take: "take_reserves a s = Inr s1" and pay: "pay_both x e cf u a w = Inr w'"
    and cf: "cl_config s = Some cf" and bk: "cl_books s' = cl_books s1" and me: "current_contract e = me"
    and fd: "solid s w"
  shows "solid s' w'"
proof -
  from take have le: "side b a \<le> side b (cl_reserves s)" "side b (cl_reserves s1) = side b (cl_reserves s) - side b a"
    and s1: "cl_config s1 = cl_config s" "cl_protocol_fees s1 = cl_protocol_fees s" for b
    by (cases b; auto simp: take_reserves_def Let_def not_less split: prod.splits if_splits)+
  note t = solidE [OF fd cf]
  have "held s' b + side b a = held s b" for b using le [of b] cl_booksD [OF bk] s1 by (simp add: held_def)
  then have "int (held s' b) \<le> bal (side_token b cf) w'" for b
    using t(2) [of b] pay_both_takes [OF pay me t(1), of b] by (metis add_le_cancel_right diff_add_cancel le_diff_eq of_nat_add order_trans)
  moreover have "cl_config s' = Some cf" using cl_booksD [OF bk] s1 cf by simp
  ultimately show ?thesis using t(1) by (intro solidI) simp_all
qed

lemma withdraw_position_solid:
  assumes run: "withdraw_position x e u l h n ms (s, w) = Inr (v, s', w')"
    and me: "current_contract e = me" and fd: "solid s w"
  shows "solid s' w'"
proof -
  from run obtain s1 w1 s2 a po s4 s5 s6 w2 w3 full cf where
    b: "before_change x e u (s, w) = Inr (s1, w1)" and take: "take_reserves a s1 = Inr s2"
    and t: "tick_change l (- as_i128 n) False (store_or_drop u l h po s2) = Inr s4" "tick_change h (- as_i128 n) True s4 = Inr s5"
    and dl: "drop_liquidity full l h n s5 = Inr s6" and se: "settle_weight x e u (- as_i128 n) (s6, w1) = Inr (s', w2)"
    and cf: "cl_config s' = Some cf" and p: "pay_both x e cf u a w2 = Inr w3" and pl: "cl_update_plane x e s' w3 = Inr w'"
    unfolding withdraw_position_def Let_def
    by (clarsimp simp: andthen_eq_Inr if_Inl_eq_Inr stored_def from_option_eq_Inr split del: if_split)
  have bk: "cl_books s' = cl_books s2"
    using t dl settle_weight_books [OF se] by (simp add: tick_change_books drop_liquidity_books)
  have "cl_config s2 = cl_config s1" using take by (auto simp: take_reserves_def Let_def split: prod.splits if_splits)
  then have cf1: "cl_config s1 = Some cf" using cl_booksD(1) [OF bk] cf by simp
  have "no_less (cc_tokens x) me w1 w2" using settle_weight_books [OF se] gauge_no_less [OF _ me] by blast
  then have "solid s1 w2" using same_books_solid [OF before_change_solid [OF b me fd] refl] by blast
  from plane_solid [OF pl me take_and_pay_solid [OF take p cf1 bk me this]] show ?thesis .
qed

lemma collect_internal_solid:
  assumes run: "collect_internal x e u l h rs b (s, w) = Inr (v, s', w')" and me: "current_contract e = me"
    and fd: "solid s w"
  shows "solid s' w'"
proof -
  from run obtain a po cf w1 where take: "take_reserves a (store_or_drop u l h po s) = Inr s'"
    and cf: "cl_config (store_or_drop u l h po s) = Some cf" and p: "pay_both x e cf u a w = Inr w1"
    and pl: "cl_update_plane x e s' w1 = Inr w'"
    unfolding collect_internal_def Let_def
    by (clarsimp simp: andthen_eq_Inr if_Inl_eq_Inr stored_def from_option_eq_Inr split del: if_split)
  have "solid (store_or_drop u l h po s) w" using same_books_solid [OF fd] by simp
  from plane_solid [OF pl me take_and_pay_solid [OF take p cf refl me this]] show ?thesis .
qed

lemma claim_range_books:
  "claim_range fp u t rg (tot, s) = Inr (tot', s') \<Longrightarrow> cl_books s' = cl_books s"
  by (auto simp: claim_range_def Let_def res_simps split: option.splits prod.splits)

lemma claim_ranges_books:
  "fold_res (claim_range fp u t) rs (tot, s) = Inr (tot', s') \<Longrightarrow> cl_books s' = cl_books s"
proof (induction rs arbitrary: tot s)
  case (Cons r rs)
  then obtain tot1 s1 where "claim_range fp u t r (tot, s) = Inr (tot1, s1)"
    and "fold_res (claim_range fp u t) rs (tot1, s1) = Inr (tot', s')" by (auto simp: res_simps)
  with Cons.IH show ?case using claim_range_books by metis
qed simp

lemma claim_all_solid:
  assumes run: "claim_all_position_fees x e u (s, w) = Inr (v, s', w')" and me: "current_contract e = me"
    and fd: "solid s w"
  shows "solid s' w'"
proof (cases "us_positions (get_user_state s u) = []")
  case True
  then show ?thesis using run fd by (auto simp: claim_all_position_fees_def Let_def res_simps)
next
  case False
  with run obtain cf tot s1 w1 where cf: "cl_config s = Some cf"
    and f: "fold_res (claim_range (cc_fp x) u (slot_tick (cl_slot0 s))) (us_positions (get_user_state s u)) ((0, 0), s) =
      Inr (tot, s1)"
    and take: "take_reserves tot s1 = Inr s'" and p: "pay_both x e cf u tot w = Inr w1"
    and pl: "cl_update_plane x e s' w1 = Inr w'"
    by (auto simp: claim_all_position_fees_def Let_def andthen_eq_Inr stored_def from_option_eq_Inr split: if_splits)
  note bk = claim_ranges_books [OF f]
  have "cl_config s1 = Some cf" "solid s1 w" using cl_booksD(1) [OF bk] cf same_books_solid [OF fd bk] by simp_all
  from plane_solid [OF pl me take_and_pay_solid [OF take p this(1) refl me this(2)]] show ?thesis .
qed

section \<open>Everything else\<close>

lemma claim_fees_solid:
  assumes run: "cl_claim_protocol_fees x e a d (s, w) = Inr (v, s', w')" and me: "current_contract e = me"
    and fd: "solid s w"
  shows "solid s' w'"
proof (cases "cl_protocol_fees s = (0, 0)")
  case True
  then show ?thesis using run fd by (auto simp: cl_claim_protocol_fees_def Let_def res_simps)
next
  case False
  with run obtain cf where cf: "cl_config s = Some cf" and p: "pay_both x e cf d (cl_protocol_fees s) w = Inr w'"
    and s': "s' = s\<lparr>cl_protocol_fees := (0, 0)\<rparr>"
    by (auto simp: cl_claim_protocol_fees_def Let_def andthen_eq_Inr stored_def from_option_eq_Inr split: if_splits)
  note t = solidE [OF fd cf]
  have "held s' b + side b (cl_protocol_fees s) = held s b" for b by (cases b) (simp_all add: held_def s')
  then have "int (held s' b) \<le> bal (side_token b cf) w'" for b
    using t(2) [of b] pay_both_takes [OF p me t(1), of b]
    by (metis add_le_cancel_right diff_add_cancel le_diff_eq of_nat_add order_trans)
  then show ?thesis using t(1) cf by (intro solidI [of s' cf]) (simp_all add: s')
qed

lemma cl_claim_solid:
  assumes run: "cl_claim x e u (s, w) = Inr (v, s', w')" and me: "current_contract e = me" and fd: "solid s w"
  shows "solid s' w'"
proof -
  define cover where "cover cf token s2 w = (if token = cf_token0 cf
     then claim_covered x e token w (cf_token0 cf, fst (cl_reserves s2), fst (cl_protocol_fees s2))
     else claim_covered x e token w (cf_token1 cf, snd (cl_reserves s2), snd (cl_protocol_fees s2)))"
    for cf :: cl_config and token and s2 :: cl_pool and w
  from run obtain s1 s2 w1 r w2 token cf where r: "recompute_user_weighted_liquidity u s = Inr s1"
    and g1: "gauge_checkpoint x e u (user_weighted s1 u) (cl_total_weighted s1) (new_manager s1, w) = Inr (s2, w1)"
    and cl: "claim_reward (pool_reward_context x e w1) (cc_tokens x) u (cl_total_weighted s1) (user_weighted s1 u)
      (pl_rewards s2, w1) = Inr (v, r, w2)"
    and rt: "get_reward_token r = Inr token" and cf: "cl_config s2 = Some cf"
    and cv: "cover cf token (s2\<lparr>pl_rewards := r\<rparr>) w2 = Inr ()"
    and g2: "gauge_checkpoint x e u (user_weighted s1 u) (cl_total_weighted s1) (new_manager (s2\<lparr>pl_rewards := r\<rparr>), w2) =
      Inr (s', w')"
    unfolding cl_claim_def Let_def cover_def [symmetric]
    by (clarsimp simp: andthen_eq_Inr if_Inl_eq_Inr stored_def from_option_eq_Inr cover_def [symmetric] split del: if_split)
  have bk: "cl_books s' = cl_books s" "cl_books s2 = cl_books s"
    using gauge_checkpoint_books [OF g2] gauge_checkpoint_books [OF g1] recompute_books [OF r] by simp_all
  have cf': "cl_config s = Some cf" "cl_config s' = Some cf"
    using cf cl_booksD(1) [OF bk(2)] cl_booksD(1) [OF bk(1)] by simp_all
  note t = solidE [OF fd cf'(1)]
  have env: "rc_env (pool_reward_context x e w1) = e" by (simp add: pool_reward_context_def)
  from gauge_checkpoint_InrD [OF g1] obtain b1 p1 g where
    c1: "gauges_checkpoint_user (cc_gauges x) e u b1 p1 g w = Inr w1" by blast
  from gauge_checkpoint_InrD [OF g2] obtain b2 p2 g' where
    c2: "gauges_checkpoint_user (cc_gauges x) e u b2 p2 g' w2 = Inr w'" by blast
  have each: "claim_covered x e token w2 (side_token b cf, side b (cl_reserves s), side b (cl_protocol_fees s)) = Inr ()"
    for b
    using cv t(1) cl_booksD(2,3) [OF bk(2)]
    by (cases b) (auto simp: cover_def claim_covered_def split: if_splits)
  have "int (held s b) \<le> bal (side_token b cf) w'" for b
    using claim_keeps [OF c1 cl env rt c2 me _ each [of b]] t(2) [of b] by (simp add: held_def)
  then show ?thesis using t(1) cf'(2) held_books [OF bk(1)] by (intro solidI [of s' cf]) simp_all
qed

lemma cl_unused_InrD:
  assumes "cl_get_unused_reward x e (s, w) = Inr (n, s')" and me: "current_contract e = me"
  shows "cl_books s' = cl_books s \<and> (\<exists>token cf keep. get_reward_token (pl_rewards s') = Inr token \<and>
    cl_config s = Some cf \<and> n = as_u128 (bal token w) - keep \<and>
    (\<forall>b. token = side_token b cf \<longrightarrow> cf_token0 cf \<noteq> cf_token1 cf \<longrightarrow> min U128_MAX (held s b) \<le> keep))"
proof -
  obtain k0 cf token where r: "\<exists>f. cl_with_rewards x e f (s, w) = Inr (k0, s')"
    and token: "get_reward_token (pl_rewards s') = Inr token" and cf: "cl_config s' = Some cf"
    and n: "n = as_u128 (bal token w) -
        (if token = cf_token0 cf
         then sat_add U128_MAX (sat_add U128_MAX k0 (fst (cl_reserves s'))) (fst (cl_protocol_fees s'))
         else if token = cf_token1 cf
         then sat_add U128_MAX (sat_add U128_MAX k0 (snd (cl_reserves s'))) (snd (cl_protocol_fees s'))
         else k0)"
    using assms unfolding cl_get_unused_reward_def Let_def
    by (clarsimp simp: andthen_eq_Inr stored_def from_option_eq_Inr sat_sub_def me split del: if_split) blast
  from r have bk: "cl_books s' = cl_books s" by (elim exE) (rule cl_with_rewards_books)
  then show ?thesis
    using token cf n cl_booksD [OF bk]
    by (intro conjI exI [of _ token] exI [of _ cf] exI [of _ "if token = cf_token0 cf
         then sat_add U128_MAX (sat_add U128_MAX k0 (fst (cl_reserves s'))) (fst (cl_protocol_fees s'))
         else if token = cf_token1 cf
         then sat_add U128_MAX (sat_add U128_MAX k0 (snd (cl_reserves s'))) (snd (cl_protocol_fees s'))
         else k0"]) (auto simp: held_def sat_add_def all_bool_eq)
qed

lemma return_unused_solid:
  assumes run: "cl_return_unused_reward x e a (s, w) = Inr (v, s', w')" and me: "current_contract e = me"
    and fd: "solid s w"
  shows "solid s' w'"
proof -
  from run obtain n where un: "cl_get_unused_reward x e (s, w) = Inr (n, s')"
    and rest: "n = 0 \<and> w' = w \<or> (\<exists>t r. get_reward_token (pl_rewards s') = Inr t \<and> pay x e t r n w = Inr w')"
    by (auto simp: cl_return_unused_reward_def Let_def res_simps split: if_splits)
  from cl_unused_InrD [OF un me] obtain token cf keep where bk: "cl_books s' = cl_books s"
    and token: "get_reward_token (pl_rewards s') = Inr token" and cf: "cl_config s = Some cf"
    and n: "n = as_u128 (bal token w) - keep"
    and keep: "\<And>b. token = side_token b cf \<Longrightarrow> cf_token0 cf \<noteq> cf_token1 cf \<Longrightarrow> min U128_MAX (held s b) \<le> keep"
    by blast
  note t = solidE [OF fd cf]
  have le: "int (held s b) \<le> bal (side_token b cf) w'" for b
    using rest
  proof
    assume "n = 0 \<and> w' = w"
    then show ?thesis using t(2) by simp
  next
    assume "\<exists>t r. get_reward_token (pl_rewards s') = Inr t \<and> pay x e t r n w = Inr w'"
    then obtain r where py: "pay x e token r n w = Inr w'" using token by auto
    show ?thesis
    proof (cases "side_token b cf = token")
      case False
      then show ?thesis using pay_takes(2) [OF py me False] t(2) [of b] by simp
    next
      case True
      have "0 \<le> bal token w" using t(2) [of b] True by simp
      from as_u128_le [OF this] have u: "int (as_u128 (bal token w)) \<le> bal token w" .
      have small: "as_u128 (bal token w) \<le> U128_MAX" by (simp add: as_u128_def U128_MAX_def nat_le_iff)
      have "bal token w - int n \<le> bal token w'" by (rule pay_takes(1) [OF py me])
      moreover have "min U128_MAX (held s b) \<le> keep" using keep True t(1) by simp
      ultimately show ?thesis
        using n u small t(2) [of b] True by (cases "n = 0") (auto simp: min_def split: if_splits)
    qed
  qed
  have "cl_config s' = Some cf" using cf cl_booksD(1) [OF bk] by simp
  then show ?thesis using le t(1) held_books [OF bk] by (intro solidI [of s' cf]) simp_all
qed

lemma cl_apply_upgrade_solid:
  assumes run: "cl_apply_upgrade x e a (s, w) = Inr (v, s', w')" and me: "current_contract e = me" and fd: "solid s w"
  shows "solid s' w'"
proof -
  from run obtain m h p where s': "s' = s\<lparr>pl_managed := m\<rparr>" and g: "gauges_upgrade (cc_gauges x) e h p w = Inr w'"
    by (auto simp: cl_apply_upgrade_def Let_def res_simps)
  have "no_less (cc_tokens x) me w w'"
    using gauge_contracts_for.gauges_upgrade_keeps [OF gauges g me] by (simp add: no_less_def)
  then show ?thesis using same_books_solid [OF fd] by (simp add: s')
qed

lemma checkpoint_step_solid:
  "gauge_checkpoint x e u us tot (s, w) = Inr (s', w') \<Longrightarrow> current_contract e = me \<Longrightarrow> solid s w \<Longrightarrow> solid s' w'"
  using same_books_solid gauge_checkpoint_books gauge_step_no_less by metis

lemma rewards_step_solid:
  "rewards_checkpoint x e u tot us (s, w) = Inr (d, s', w') \<Longrightarrow> solid s w \<Longrightarrow> solid s' w'"
  using same_books_solid rewards_checkpoint_books no_less_refl by metis

lemma books_only_solid: "solid s w \<Longrightarrow> cl_books s' = cl_books s \<Longrightarrow> solid s' w"
  using same_books_solid by simp

lemma rewards_info_solid:
  assumes run: "cl_get_rewards_info x e u (s, w) = Inr (v, s', w')" and me: "current_contract e = me" and fd: "solid s w"
  shows "solid s' w'"
proof -
  from run obtain r s1 w1 d s2 r2 where
    a: "gauge_checkpoint x e u (user_weighted s u) (cl_total_weighted s) (s\<lparr>pl_rewards := r\<rparr>, w) = Inr (s1, w1)"
    and b: "rewards_checkpoint x e u (cl_total_weighted s) (user_weighted s u) (s1, w1) = Inr (d, s2, w')"
    and s': "s' = s2\<lparr>pl_rewards := r2\<rparr>"
    unfolding cl_get_rewards_info_def Let_def split_beta by (fastforce simp: res_simps)
  have "solid (s\<lparr>pl_rewards := r\<rparr>) w" using books_only_solid [OF fd] by simp
  from rewards_step_solid [OF b checkpoint_step_solid [OF a me this]] show ?thesis
    unfolding s' by (rule books_only_solid) simp
qed

lemma change_state_solid:
  assumes run: "cl_change_rewards_state x e u v (s, w) = Inr (s', w')" and me: "current_contract e = me"
    and fd: "solid s w"
  shows "solid s' w'"
proof -
  from run obtain s1 s2 w1 r s3 w3 d n m where r: "recompute_user_weighted_liquidity u s = Inr s1"
    and a: "gauge_checkpoint x e u m n (new_manager s1, w) = Inr (s2, w1)"
    and b: "rewards_checkpoint x e u n m (s2\<lparr>pl_rewards := r\<rparr>, w1) = Inr (d, s3, w3)"
    and c: "gauge_checkpoint x e u m n (s3, w3) = Inr (s', w')"
    unfolding cl_change_rewards_state_def Let_def by (clarsimp simp: andthen_eq_Inr)
  have "solid (new_manager s1) w" using books_only_solid [OF fd] recompute_books [OF r] by simp
  from checkpoint_step_solid [OF a me this] have "solid (s2\<lparr>pl_rewards := r\<rparr>) w1" by (rule books_only_solid) simp
  from checkpoint_step_solid [OF c me rewards_step_solid [OF b this]] show ?thesis .
qed

lemma user_reward_solid:
  assumes run: "cl_get_user_reward x e u (s, w) = Inr (v, s', w')" and me: "current_contract e = me" and fd: "solid s w"
  shows "solid s' w'"
proof -
  from run obtain s1 d where r: "recompute_user_weighted_liquidity u s = Inr s1"
    and c: "rewards_checkpoint_user x e u (s1, w) = Inr (d, s', w')"
    by (auto simp: cl_get_user_reward_def res_simps)
  from checkpoint_user_books [OF c] gauge_no_less [OF _ me] recompute_books [OF r] show ?thesis
    using same_books_solid [OF fd] by metis
qed

lemma gauge_schedule_solid:
  assumes run: "cl_gauge_schedule_reward x e r d g st du n (s, w) = Inr (s', w')"
    and me: "current_contract e = me" "\<not> authorized e me" and fd: "solid s w"
  shows "solid s' w'"
proof -
  from run obtain ws q where d: "authorized e d" and s': "s' = s\<lparr>pl_rewards := q\<rparr>"
    and sc: "gauges_schedule_rewards_config (cc_gauges x) e g d st du n ws w = Inr w'"
    by (auto simp: cl_gauge_schedule_reward_def Let_def res_simps split: prod.splits if_splits)
  from d me(2) have "d \<noteq> me" by auto
  from gauge_contracts_for.gauges_schedule_keeps [OF gauges sc me(1) this] have "no_less (cc_tokens x) me w w'"
    by (simp add: no_less_def)
  then show ?thesis using same_books_solid [OF fd] by (simp add: s')
qed

lemma gauges_claim_solid:
  assumes run: "cl_gauges_claim x e u (s, w) = Inr (v, s', w')" and me: "current_contract e = me" and fd: "solid s w"
  shows "solid s' w'"
proof -
  from run obtain s1 b n p r where rc: "recompute_user_weighted_liquidity u s = Inr s1"
    and wp: "s' = snd (snd (working_pair u (user_weighted s1 u) (cl_total_weighted s1) s1))"
    and g: "gauges_claim (cc_gauges x) e u b n p w = Inr (r, w')"
    by (auto simp: cl_gauges_claim_def Let_def res_simps split_beta)
  from gauge_contracts_for.gauges_claim_keeps [OF gauges g me] have "no_less (cc_tokens x) me w w'"
    by (simp add: no_less_def)
  then show ?thesis using same_books_solid [OF fd] working_pair_books [of u _ _ s1] recompute_books [OF rc] wp by (metis prod.collapse)
qed

lemma gauges_info_solid:
  assumes run: "cl_gauges_get_reward_info x e u (s, w) = Inr (v, s', w')" and me: "current_contract e = me"
    and fd: "solid s w"
  shows "solid s' w'"
proof -
  from run obtain s1 b n p r where rc: "recompute_user_weighted_liquidity u s = Inr s1"
    and wp: "s' = snd (snd (working_pair u (user_weighted s1 u) (cl_total_weighted s1) s1))"
    and g: "gauges_get_rewards_info (cc_gauges x) e u b n p w = Inr (r, w')"
    by (auto simp: cl_gauges_get_reward_info_def Let_def res_simps split_beta)
  from gauge_contracts_for.gauges_info_keeps [OF gauges g me] have "no_less (cc_tokens x) me w w'"
    by (simp add: no_less_def)
  then show ?thesis using same_books_solid [OF fd] working_pair_books [of u _ _ s1] recompute_books [OF rc] wp by (metis prod.collapse)
qed

lemma estimate_working_books:
  "cl_estimate_working_balance x e u l h n (s, w) = Inr (v, s') \<Longrightarrow> cl_books s' = cl_books s"
  by (auto simp: cl_estimate_working_balance_def Let_def split_beta res_simps)

lemma own_quiet:
  assumes run: "cl_own_exec x e s w a = Inr (s', w')" and me: "current_contract e = me"
    and "case a of ClSetRewardsConfig _ _ _ \<Rightarrow> True | ClUnusedReward \<Rightarrow> True | ClEstimateWorking _ _ _ _ \<Rightarrow> True
      | ClTotalAccumulated \<Rightarrow> True | ClTotalConfigured \<Rightarrow> True | ClTotalClaimed \<Rightarrow> True | ClAdjust _ _ \<Rightarrow> True
      | ClInitPlane _ \<Rightarrow> True | ClSetProtocolFee _ _ \<Rightarrow> True | ClInitRewards _ \<Rightarrow> True | ClInitBoost _ _ \<Rightarrow> True
      | _ \<Rightarrow> False"
  shows "cl_books s' = cl_books s \<and> w' = w"
proof -
  have "cl_get_unused_reward x e (s, w) = Inr (n, s') \<Longrightarrow> cl_books s' = cl_books s" for n
    using cl_unused_InrD me by blast
  then show ?thesis
    using assms
    by (auto simp: res_simps cl_set_rewards_config_def cl_get_total_accumulated_reward_def
        cl_get_total_configured_reward_def cl_get_total_claimed_reward_def cl_adjust_total_accumulated_reward_def
        cl_init_pools_plane_def cl_set_protocol_fee_fraction_def cl_initialize_rewards_config_def
        cl_initialize_boost_config_def dest: cl_with_rewards_books estimate_working_books split: cl_own_op.splits if_splits)
qed

lemma own_solid:
  assumes run: "cl_own_exec x e s w a = Inr (s', w')" and me: "current_contract e = me" "\<not> authorized e me"
    and fd: "solid s w"
  shows "solid s' w'"
proof (cases a)
  case ClBackfillPlane
  with run plane_solid [OF _ me(1) fd] show ?thesis by (auto simp: res_simps)
next
  case (ClClaimProtocolFees b d)
  with run claim_fees_solid [OF _ me(1) fd] show ?thesis by (auto simp: res_simps)
next
  case (ClApplyUpgrade b)
  with run cl_apply_upgrade_solid [OF _ me(1) fd] show ?thesis by (auto simp: res_simps)
next
  case (ClReturnUnused b)
  with run return_unused_solid [OF _ me(1) fd] show ?thesis by (auto simp: res_simps)
next
  case (ClRewardsInfo u)
  with run rewards_info_solid [OF _ me(1) fd] show ?thesis by (auto simp: res_simps)
next
  case (ClUserReward u)
  with run user_reward_solid [OF _ me(1) fd] show ?thesis by (auto simp: res_simps)
next
  case (ClClaim u)
  with run cl_claim_solid [OF _ me(1) fd] show ?thesis by (auto simp: res_simps)
next
  case (ClSetRewardsState u v)
  with run change_state_solid [OF _ me(1) fd] show ?thesis by (auto simp: res_simps cl_set_rewards_state_def)
next
  case (ClAdminSetRewardsState b u v)
  with run change_state_solid [OF _ me(1) fd] show ?thesis by (auto simp: res_simps cl_admin_set_rewards_state_def)
next
  case (ClGaugeSchedule r d g st du n)
  with run gauge_schedule_solid [OF _ me fd] show ?thesis by (auto simp: res_simps)
next
  case (ClGaugesClaim u)
  with run gauges_claim_solid [OF _ me(1) fd] show ?thesis by (auto simp: res_simps)
next
  case (ClGaugesInfo u)
  with run gauges_info_solid [OF _ me(1) fd] show ?thesis by (auto simp: res_simps)
qed (use own_quiet [OF run me(1)] books_only_solid [OF fd] in auto)

lemma trade_solid:
  assumes run: "cl_trade_exec x e s w a = Inr (s', w')" and me: "current_contract e = me" "\<not> authorized e me"
    and ok: "cl_arguments a" and fd: "solid s w"
  shows "solid s' w'"
proof (cases a)
  case (ClDeposit u ds m)
  with run obtain r l h where "deposit_position x e u l h ds m (s, w) = Inr (r, s', w')"
    by (auto simp: res_simps cl_deposit_def)
  then show ?thesis using deposit_position_solid [OF _ me _ _ fd] ok ClDeposit by simp
next
  case (ClDepositPosition u l h ds m)
  with run obtain r where "deposit_position x e u l h ds m (s, w) = Inr (r, s', w')" by (auto simp: res_simps)
  then show ?thesis using deposit_position_solid [OF _ me _ _ fd] ok ClDepositPosition by simp
next
  case (ClWithdraw u n ms)
  with run withdraw_position_solid [OF _ me(1) fd] show ?thesis by (auto simp: res_simps cl_withdraw_def)
next
  case (ClWithdrawPosition u l h n ms)
  with run withdraw_position_solid [OF _ me(1) fd] show ?thesis by (auto simp: res_simps)
next
  case (ClSwap u i j n m)
  with run cl_swap_solid [OF _ me _ fd] ok show ?thesis by (auto simp: res_simps)
next
  case (ClSwapStrict u i j n m)
  with run cl_swap_strict_solid [OF _ me _ fd] ok show ?thesis by (auto simp: res_simps)
next
  case (ClClaimFees u l h)
  with run collect_internal_solid [OF _ me(1) fd] show ?thesis by (auto simp: res_simps claim_position_fees_def)
next
  case (ClClaimAllFees u)
  with run claim_all_solid [OF _ me(1) fd] show ?thesis by (auto simp: res_simps)
qed

lemma exec_solid:
  assumes run: "cl_exec x e s w a = Inr (s', w')" and fair: "cl_fair me e a s" and fd: "solid s w"
  shows "solid s' w'"
proof -
  have me: "current_contract e = me" "\<not> authorized e me" using fair by (auto simp: cl_fair_def)
  show ?thesis
  proof (cases a)
    case (ClTrade b)
    with run fair trade_solid [OF _ me _ fd] show ?thesis by (simp add: cl_fair_def)
  next
    case (ClOwn b)
    with run own_solid [OF _ me fd] show ?thesis by simp
  next
    case (ClShared b)
    with run have r: "shared_exec x e s w b = Inr (s', w')" by (simp split: if_splits)
    show ?thesis using same_books_solid [OF fd cl_books_same [OF shared_same [OF r]] shared_no_less [OF r me]] .
  qed
qed

lemma run_solid:
  assumes "cl_run x (cl_fair me) (no_less (cc_tokens x) me) p q" and "solid (fst p) (snd p)"
  shows "solid (fst q) (snd q)"
  using assms
proof (induction rule: cl_run.induct)
  case start
  then show ?case .
next
  case (call s w e a s' w')
  then show ?case using exec_solid by simp
next
  case (world s w w')
  then show ?case using cl_covered_mono [OF _ refl] by simp
qed

end

section \<open>The pool can always pay\<close>

text \<open>
  Claim C4: a concentrated pool can always pay. Over every run of its
  entry points (deposits, withdrawals, swaps in both forms, fee claims and the administration), if
  its balances of both tokens cover the reserve and the protocol's fees at the start, and nobody
  else can take tokens from it in between, they cover them at the end.
\<close>

theorem concentrated_pool_stays_solvent:
  assumes "pool_host x me" and "cl_covered (cc_tokens x) me s w"
    and "cl_run x (cl_fair me) (no_less (cc_tokens x) me) (s, w) (s', w')"
  shows "cl_covered (cc_tokens x) me s' w'"
  using pool_host.run_solid [OF assms(1,3)] assms(2) by simp

definition cl_fee_pool :: cl_pool where
  \<comment> \<open>10000 of each token in reserve, and 7 of the first earned by the protocol\<close>
  "cl_fee_pool = (new_cl_pool 0)\<lparr>pl_managed := sample_managed,
     cl_config := Some \<lparr>cf_token0 = 11, cf_token1 = 12, cf_fee = 30, cf_spacing = 10\<rparr>,
     cl_reserves := (10000, 10000), cl_protocol_fees := (7, 0)\<rparr>"

definition cl_fee_world :: "int \<Rightarrow> int \<Rightarrow> gauge_world" where
  "cl_fee_world p r = (Map.empty, (\<lambda>_. empty_token)
     (11 := empty_token\<lparr>tok_ac := token_admin, tok_balance := [9 \<mapsto> p, 61 \<mapsto> r]\<rparr>, 12 := pool_token))"

lemma cl_fee_world_balance: "tk_balance (gauge_world_tokens anyone) 11 9 (cl_fee_world p r) = p"
  "tk_balance (gauge_world_tokens anyone) 12 9 (cl_fee_world p r) = 10000"
  by (simp_all add: gauge_world_balance token_world_def cl_fee_world_def read_balance_def pool_token_def empty_token_def)

lemma cl_fee_pay:
  "pay (standard_calls anyone) fair_env 11 61 7 (cl_fee_world 10007 0) = Inr (cl_fee_world 10000 7)"
  by (simp add: pay_def cl_fee_world_def i128_fits_def as_i128_def I128_MAX_def fun_upd_twist
      sample_moves [where f = "[9 \<mapsto> 10007, 61 \<mapsto> 0]" and a = 10007 and b = 0])

lemma cl_fee_claim:
  "cl_claim_protocol_fees (standard_calls anyone) fair_env 7 61 (cl_fee_pool, cl_fee_world 10007 0) =
    Inr ((7, 0), cl_fee_pool\<lparr>cl_protocol_fees := (0, 0)\<rparr>, cl_fee_world 10000 7)"
proof -
  have role: "pool_role fair_env 7 require_system_fee_admin_or_owner cl_fee_pool = Inr ()"
    by (simp add: pool_role_def require_auth_def require_system_fee_admin_or_owner_def cl_fee_pool_def sample_managed_def
        address_has_role_def get_role_safe_def or_else_def)
  then show ?thesis
    by (simp add: cl_claim_protocol_fees_def cl_fee_pool_def stored_def pay_both_def pay_some_def cl_fee_pay)
qed

theorem concentrated_pool_stays_solvent_witness:
  "cl_covered (gauge_world_tokens anyone) 9 (cl_fee_pool\<lparr>cl_protocol_fees := (0, 0)\<rparr>) (cl_fee_world 10000 7)"
proof -
  have c: "cl_covered (cc_tokens (standard_calls anyone)) 9 cl_fee_pool (cl_fee_world 10007 0)"
    by (simp add: cl_covered_def cl_fee_pool_def cl_fee_world_balance)
  have "cl_run (standard_calls anyone) (cl_fair 9) (no_less (cc_tokens (standard_calls anyone)) 9)
      (cl_fee_pool, cl_fee_world 10007 0) (cl_fee_pool\<lparr>cl_protocol_fees := (0, 0)\<rparr>, cl_fee_world 10000 7)"
    by (rule cl_run_one [where a = "ClOwn (ClClaimProtocolFees 7 61)" and e = fair_env])
      (simp_all add: cl_fee_claim effect_def cl_fair_def)
  from concentrated_pool_stays_solvent [OF standard_host.pool_host_axioms c this] show ?thesis by simp
qed

end
