(* ===== verification/CL_Search.thy ===== *)
theory CL_Search
  imports CL_Runs CL_Loop
begin

text \<open>
  Two results on the swap loop of a concentrated pool. The tick index with its chunks and two levels of bitmaps
  refines a map from ticks to the liquidity that starts or ends there: \<open>index_run\<close> runs both, and
  the search that a swap makes in the bitmaps is the search for the nearest tick of the map. And a
  swap of a consistent pool (\<open>pool_ready\<close>) always returns.
\<close>

section \<open>The index refines a map\<close>

inductive index_run :: "int \<Rightarrow> tick_store \<Rightarrow> (int \<Rightarrow> int) \<Rightarrow> bool" for spacing where
  start: "0 < spacing \<Longrightarrow> index_run spacing no_ticks (\<lambda>_. 0)"
| update: "index_run spacing ts g \<Longrightarrow> MIN_TICK \<le> c * spacing \<Longrightarrow> c * spacing \<le> MAX_TICK \<Longrightarrow>
    update_tick_liquidity spacing tick_now growth0 growth1 (c * spacing) delta up ts = Inr ts' \<Longrightarrow>
    index_run spacing ts' (g(c * spacing := g (c * spacing) + delta))"

definition simulates :: "int \<Rightarrow> tick_store \<Rightarrow> (int \<Rightarrow> int) \<Rightarrow> bool" where
  "simulates spacing ts g \<longleftrightarrow> tick_index spacing ts \<and> (\<forall>u. g u \<noteq> 0 \<longrightarrow> u mod spacing = 0)
   \<and> (\<forall>c. g (c * spacing) = int (liquidity_gross (tick_at ts c)))"

lemma index_run_simulates: "index_run spacing ts g \<Longrightarrow> simulates spacing ts g"
proof (induction rule: index_run.induct)
  case start
  have "liquidity_gross (tick_at no_ticks c) = 0" for c
    using initd_tick_at [OF index_ok_no_ticks, of c] by (simp add: initd_def no_ticks_def)
  with start show ?case by (simp add: simulates_def tick_index_empty)
next
  case (update ts g c tick_now growth0 growth1 delta up ts')
  then have inv: "tick_index spacing ts" and s: "0 < spacing"
    by (auto simp: simulates_def tick_index_def ticks_in_range_def)
  note effect = update_tick_liquidity_effect [OF inv update.hyps(2,3,4)]
  have gross: "(g(c * spacing := g (c * spacing) + delta)) (d * spacing) = int (liquidity_gross (tick_at ts' d))" for d
    using effect(2) effect(4) [of d] update.IH s by (auto simp: simulates_def)
  have "u mod spacing = 0" if "(g(c * spacing := g (c * spacing) + delta)) u \<noteq> 0" for u
    using that update.IH by (cases "u = c * spacing") (auto simp: simulates_def)
  with gross effect(1) show ?case unfolding simulates_def by blast
qed

lemma simulates_live:
  assumes "simulates spacing ts g"
  shows "g u \<noteq> 0 \<longleftrightarrow> (\<exists>c. u = c * spacing \<and> initd ts c)"
proof
  have gross: "g (c * spacing) \<noteq> 0 \<longleftrightarrow> initd ts c" for c
    using assms initd_tick_at [of ts c] by (simp add: simulates_def tick_index_def)
  show "g u \<noteq> 0 \<Longrightarrow> \<exists>c. u = c * spacing \<and> initd ts c"
  proof -
    assume u: "g u \<noteq> 0"
    then have "u = u div spacing * spacing"
      using assms by (auto simp: simulates_def minus_mod_eq_div_mult [symmetric])
    with u gross show ?thesis by metis
  qed
  show "\<exists>c. u = c * spacing \<and> initd ts c \<Longrightarrow> g u \<noteq> 0" using gross by auto
qed

definition nearest_live :: "(int \<Rightarrow> int) \<Rightarrow> bool \<Rightarrow> int \<Rightarrow> int \<Rightarrow> bool \<Rightarrow> bool" where
  \<comment> \<open>the specification of the search: the nearest tick of the map in the direction of the swap, the
     current tick included on the way down, or a boundary up to which the map has none\<close>
  "nearest_live g zero_for_one tick t found \<longleftrightarrow>
     (if zero_for_one
      then (if found then g t \<noteq> 0 \<and> t \<le> tick \<and> (\<forall>u. t < u \<longrightarrow> u \<le> tick \<longrightarrow> g u = 0)
            else \<forall>u. t \<le> u \<longrightarrow> u \<le> tick \<longrightarrow> g u = 0)
      else if found then g t \<noteq> 0 \<and> tick < t \<and> (\<forall>u. tick < u \<longrightarrow> u < t \<longrightarrow> g u = 0)
      else \<forall>u. tick < u \<longrightarrow> u \<le> t \<longrightarrow> g u = 0)"

lemma compressed_order:
  fixes c :: int
  assumes "0 < spacing"
  shows "c * spacing \<le> tick \<longleftrightarrow> c \<le> tick div spacing"
proof
  assume "c * spacing \<le> tick"
  then show "c \<le> tick div spacing" using assms zdiv_mono1 [of "c * spacing" tick spacing] by simp
next
  assume "c \<le> tick div spacing"
  then have "c * spacing \<le> tick div spacing * spacing" using assms by simp
  also have "\<dots> \<le> tick" using assms by (simp add: minus_mod_eq_div_mult [symmetric])
  finally show "c * spacing \<le> tick" .
qed

lemma nearest_down_live:
  assumes sim: "simulates spacing ts g" and near: "nearest_down ts spacing (tick div spacing) (t, found)"
  shows "nearest_live g True tick t found"
proof -
  have s: "0 < spacing" using sim by (simp add: simulates_def tick_index_def ticks_in_range_def)
  note ord = compressed_order [OF s, of _ tick]
  show ?thesis
  proof (cases found)
    case True
    with near obtain c where c: "initd ts c" "t = c * spacing" "c \<le> tick div spacing"
      and gap: "\<And>d. c < d \<Longrightarrow> d \<le> tick div spacing \<Longrightarrow> \<not> initd ts d" by (auto simp: nearest_down_def)
    have "g u = 0" if "t < u" and "u \<le> tick" for u
    proof (rule ccontr)
      assume "g u \<noteq> 0"
      then obtain d where d: "u = d * spacing" "initd ts d" using simulates_live [OF sim] by auto
      with that c(2) have "c * spacing < d * spacing" "d \<le> tick div spacing" using ord by simp_all
      with s gap d(2) show False by simp
    qed
    with True c ord simulates_live [OF sim] show ?thesis by (auto simp: nearest_live_def)
  next
    case False
    with near have gap: "\<And>c. c \<le> tick div spacing \<Longrightarrow> initd ts c \<Longrightarrow> c * spacing < t" by (simp add: nearest_down_def)
    have "g u = 0" if "t \<le> u" and "u \<le> tick" for u
    proof (rule ccontr)
      assume "g u \<noteq> 0"
      then obtain d where d: "u = d * spacing" "initd ts d" using simulates_live [OF sim] by auto
      with that ord gap [of d] show False by simp
    qed
    with False show ?thesis by (simp add: nearest_live_def)
  qed
qed

lemma nearest_up_live:
  assumes sim: "simulates spacing ts g" and near: "nearest_up ts spacing (tick div spacing) (t, found)"
  shows "nearest_live g False tick t found"
proof -
  have s: "0 < spacing" using sim by (simp add: simulates_def tick_index_def ticks_in_range_def)
  have ord: "tick < c * spacing \<longleftrightarrow> tick div spacing < c" for c
    using compressed_order [OF s, of c tick] by linarith
  show ?thesis
  proof (cases found)
    case True
    with near obtain c where c: "initd ts c" "t = c * spacing" "tick div spacing < c"
      and gap: "\<And>d. tick div spacing < d \<Longrightarrow> d < c \<Longrightarrow> \<not> initd ts d" by (auto simp: nearest_up_def)
    have "g u = 0" if "tick < u" and "u < t" for u
    proof (rule ccontr)
      assume "g u \<noteq> 0"
      then obtain d where d: "u = d * spacing" "initd ts d" using simulates_live [OF sim] by auto
      with that c(2) have "d * spacing < c * spacing" "tick div spacing < d" using ord by simp_all
      with s gap d(2) show False by simp
    qed
    with True c ord simulates_live [OF sim] show ?thesis by (auto simp: nearest_live_def)
  next
    case False
    with near have gap: "\<And>c. tick div spacing < c \<Longrightarrow> initd ts c \<Longrightarrow> t < c * spacing" by (simp add: nearest_up_def)
    have "g u = 0" if "tick < u" and "u \<le> t" for u
    proof (rule ccontr)
      assume "g u \<noteq> 0"
      then obtain d where d: "u = d * spacing" "initd ts d" using simulates_live [OF sim] by auto
      with that ord gap [of d] show False by simp
    qed
    with False show ?thesis by (simp add: nearest_live_def)
  qed
qed

text \<open>
  Claim C13: however the ticks of a pool were updated, the bitmap search of a swap
  answers as a search in the plain map from ticks to liquidity does: the nearest tick with
  liquidity in the direction of the swap, or a boundary up to which there is none.
\<close>

theorem tick_search_refines_map:
  assumes "index_run spacing ts g" and "MIN_TICK \<le> tick" and "tick \<le> MAX_TICK"
    and "find_initialized_tick_in_word ts tick spacing zero_for_one new_cache = ((t, found), cc)"
  shows "nearest_live g zero_for_one tick t found"
proof -
  note sim = index_run_simulates [OF assms(1)]
  have ok: "index_ok ts" and range: "ticks_in_range spacing ts" and s: "0 < spacing"
    using sim by (simp_all add: simulates_def tick_index_def ticks_in_range_def)
  note b = compressed_bounds [OF s assms(2,3)]
  have k: "compress_tick tick spacing = tick div spacing" by (rule compress_tick_div [OF s])
  have small: "- (2 ^ 31) \<le> tick div spacing + 1" "tick div spacing + 1 < 2 ^ 31" using b(3,4) by (simp_all add: tick_defs)
  show ?thesis
  proof (cases zero_for_one)
    case True
    with assms(4) have "find_tick_down ts (tick div spacing) spacing new_cache = ((t, found), cc)"
      by (simp add: find_initialized_tick_in_word_def k)
    from find_tick_down_nearest [OF ok range cache_ok_new _ this] b(1) assms(3) nearest_down_live [OF sim] True
    show ?thesis by simp
  next
    case False
    with assms(4) have "find_tick_up ts (tick div spacing) spacing new_cache = ((t, found), cc)"
      by (simp add: find_initialized_tick_in_word_def k)
    from find_tick_up_nearest [OF ok range cache_ok_new _ small this] b(2) assms(2) nearest_up_live [OF sim] False
    show ?thesis by simp
  qed
qed

section \<open>A swap returns\<close>

definition pool_ready :: "fixed_point \<Rightarrow> cl_config \<Rightarrow> cl_pool \<Rightarrow> bool" where
  \<comment> \<open>the index is consistent, and price and tick belong together\<close>
  "pool_ready fp cf s \<longleftrightarrow> index_ok (cl_ticks s) \<and> ticks_in_range (cf_spacing cf) (cl_ticks s) \<and>
     slot_ok fp (sqrt_price_x96 (cl_slot0 s)) (slot_tick (cl_slot0 s)) \<and>
     sqrt_price_x96 (cl_slot0 s) \<le> MAX_SQRT_RATIO \<and> cl_liquidity s \<le> U128_MAX"

lemma slot_above_min:
  assumes "fixed_point_lib fp" and "slot_ok fp price tick"
  shows "MIN_SQRT_RATIO \<le> price"
  using sqrt_ratio_bounds [OF assms(1), of tick] assms(2) by (auto simp: slot_ok_def)

lemma price_limit_between:
  assumes "validate_price_limit price z limit = Inr l" and "MIN_SQRT_RATIO \<le> price" and "price \<le> MAX_SQRT_RATIO"
  shows "ahead z price l" and "MIN_SQRT_RATIO < l" and "l < MAX_SQRT_RATIO"
  using assms by (auto simp: validate_price_limit_def Let_def ahead_def split: if_splits)

text \<open>
  Claim C12: the loop of a swap of a consistent pool ends, for every direction, amount and
  accepted price limit, in a real swap and in an estimate: no arrangement of positions makes a
  swap run forever.
\<close>

theorem swap_always_returns:
  assumes "fixed_point_lib fp" and "pool_ready fp cf s"
    and "validate_price_limit (sqrt_price_x96 (cl_slot0 s)) zero_for_one limit = Inr l"
    and "nat \<bar>amount\<bar> \<le> U128_MAX"
  shows "\<exists>r. swap_rounds (start_params fp dry_run zero_for_one amount l cf s) (start_state dry_run amount s) = Some r"
proof (rule swap_rounds_return)
  show "params_ok (start_params fp dry_run zero_for_one amount l cf s)"
    using assms(1,2) by (simp add: params_ok_def start_params_def pool_ready_def)
  have "slot_ok fp (sqrt_price_x96 (cl_slot0 s)) (slot_tick (cl_slot0 s))" "sqrt_price_x96 (cl_slot0 s) \<le> MAX_SQRT_RATIO"
    using assms(2) by (simp_all add: pool_ready_def)
  with price_limit_between [OF assms(3)] slot_above_min [OF assms(1)] assms(2,4)
  show "loop_ok (start_params fp dry_run zero_for_one amount l cf s) (start_state dry_run amount s)"
    by (simp add: loop_ok_def limit_ok_def start_params_def start_state_def cache_ok_new pool_ready_def)
qed


lemma first_update: "\<exists>ts. update_tick_liquidity 10 0 0 0 (0 * 10) 500 False no_ticks = Inr ts"
proof -
  have "change_gross 10 500 0 = Inr 500"
    by (simp add: change_gross_def max_liquidity_per_tick_def Let_def tick_defs U128_MAX_def u_div_def u_add_def u_fit_def
        as_u128_def)
  moreover have "change_net False 500 0 = Inr 500" by (simp add: change_net_def i128_fits_def)
  ultimately show ?thesis
    by (simp add: update_tick_liquidity_def chunk_address_def compress_tick_div get_or_create_tick_chunk_def no_ticks_def
        new_empty_chunk_def TICKS_PER_CHUNK_def empty_tick_def)
qed

theorem tick_search_refines_map_witness:
  "\<exists>ts cc. find_initialized_tick_in_word ts 7 10 True new_cache = ((0, True), cc) \<and>
    nearest_live ((\<lambda>_. 0)(0 := 500)) True 7 0 True"
proof -
  obtain ts where ts: "update_tick_liquidity 10 0 0 0 (0 * 10) 500 False no_ticks = Inr ts"
    using first_update by blast
  have "index_run 10 ts ((\<lambda>_. 0)(0 * 10 := (\<lambda>_. 0) (0 * 10 :: int) + 500))"
    by (rule index_run.update [OF index_run.start _ _ ts]) (simp_all add: tick_defs)
  then have run: "index_run 10 ts ((\<lambda>_. 0)(0 := 500))" by simp
  have "initd ts 0" using simulates_live [OF index_run_simulates [OF run], of 0] by auto
  then obtain chunk where chunk: "ts_chunks ts 0 = Some chunk" "slot_initialized chunk 0"
    by (auto simp: initd_def split: option.splits)
  have search: "find_initialized_tick_in_word ts 7 10 True new_cache = ((0, True), remember 0 chunk new_cache)"
    by (simp add: find_initialized_tick_in_word_def compress_tick_div find_tick_down_def chunk_address_def
        TICKS_PER_CHUNK_def cache_get_chunk_def new_cache_def chunk find_in_chunk_def compressed_to_tick_clamp tick_defs)
  from tick_search_refines_map [OF run _ _ search] have "nearest_live ((\<lambda>_. 0)(0 := 500)) True 7 0 True"
    by (simp add: tick_defs)
  with search show ?thesis by blast
qed

definition fresh_pool :: cl_pool where
  \<comment> \<open>price 1, one unit of active liquidity, no initialized tick\<close>
  "fresh_pool = (new_cl_pool 0)\<lparr>cl_slot0 := \<lparr>sqrt_price_x96 = Q96, slot_tick = 0\<rparr>, cl_liquidity := 1\<rparr>"

lemma fresh_slot: "slot_ok exact_fixed_point Q96 0"
proof -
  have "ratio_of (bit (0 :: nat)) = Q128" by (simp add: ratio_of_times times_def)
  then have zero: "sqrt_ratio_at_tick exact_fixed_point 0 = Inr Q96"
    using sqrt_ratio_at_tick_eq [OF exact_lib, of 0] by (simp add: tick_defs Q128_def Q96_def ceil_div_def)
  moreover have "Q96 \<le> p" if "sqrt_ratio_at_tick exact_fixed_point 1 = Inr p" for p
    by (rule sqrt_ratio_mono [OF exact_lib _ _ _ zero that]) (simp_all add: tick_defs)
  ultimately show ?thesis by (simp add: slot_ok_def price_ok_def tick_defs Q96_def)
qed

theorem swap_always_returns_witness:
  "\<exists>r. swap_rounds (start_params exact_fixed_point False True 1000 (MIN_SQRT_RATIO + 1)
      \<lparr>cf_token0 = 11, cf_token1 = 12, cf_fee = 30, cf_spacing = 10\<rparr> fresh_pool) (start_state False 1000 fresh_pool) = Some r"
proof -
  have ready: "pool_ready exact_fixed_point \<lparr>cf_token0 = 11, cf_token1 = 12, cf_fee = 30, cf_spacing = 10\<rparr> fresh_pool"
    using fresh_slot
    by (simp add: pool_ready_def fresh_pool_def new_cl_pool_def index_ok_no_ticks ticks_in_range_no_ticks U128_MAX_def
        Q96_def MAX_SQRT_RATIO_def)
  have "validate_price_limit (sqrt_price_x96 (cl_slot0 fresh_pool)) True 0 = Inr (MIN_SQRT_RATIO + 1)"
    by (simp add: validate_price_limit_def fresh_pool_def Q96_def MIN_SQRT_RATIO_def)
  from swap_always_returns [OF exact_lib ready this, of 1000 False] show ?thesis
    by (simp add: U128_MAX_def)
qed

end
