(* ===== verification/Router_Base.thy ===== *)
theory Router_Base
  imports Pool_Admin Host_Values "HOL-Library.List_Lexorder"
begin

text \<open>
  \<^verbatim>\<open>liquidity_pool_router/src/storage.rs\<close> and the helpers of \<^verbatim>\<open>pool_utils.rs\<close>: the state of the
  router, its registry of pools (a map per set of tokens, under the hash of the set), the counters,
  and the temporary data of the global rewards. A wasm or salt hash is a number; the hash function
  is a parameter over the list of the encoded parts. What the router calls (tokens, pools, the
  liquidity calculator, the configuration storage, the host's deployer) is the parameter
  \<open>router_calls\<close> over a world \<open>'w\<close>; a call to a pool carries the router's environment.
\<close>

section \<open>Constants\<close>

definition MAX_POOLS_FOR_PAIR :: nat where "MAX_POOLS_FOR_PAIR = 10"
definition CONSTANT_PRODUCT_FEE_AVAILABLE :: "nat list" where "CONSTANT_PRODUCT_FEE_AVAILABLE = [10, 30, 100]"
definition CONCENTRATED_FEE_AVAILABLE :: "nat list" where "CONCENTRATED_FEE_AVAILABLE = [10, 30, 100]"
definition STABLESWAP_MAX_POOLS :: nat where "STABLESWAP_MAX_POOLS = 3"
definition CONCENTRATED_MAX_POOLS :: nat where "CONCENTRATED_MAX_POOLS = 3"
definition STABLESWAP_MAX_FEE :: nat where "STABLESWAP_MAX_FEE = 100"
definition STABLESWAP_DEFAULT_A :: nat where "STABLESWAP_DEFAULT_A = 750"
definition STABLESWAP_MAX_TOKENS :: nat where "STABLESWAP_MAX_TOKENS = 3"

definition concentrated_tick_spacing :: "nat \<Rightarrow> int res" where
  "concentrated_tick_spacing fee =
     (if fee = 10 then Inr 20 else if fee = 30 then Inr 60 else if fee = 100 then Inr 200 else Inl HostPanic)"

section \<open>State\<close>

datatype pool_kind = MissingPool | ConstantProduct | StableSwap | Concentrated

record pool_data =
  pd_kind :: pool_kind
  pd_address :: address

type_synonym pool_map = "(nat \<times> pool_data) list"

record rewards_config =
  gr_tps :: nat
  gr_expired_at :: nat

record reward_info =
  ri_voting_share :: nat
  ri_processed :: bool
  ri_total_liquidity :: nat

type_synonym reward_token_map = "(address list \<times> reward_info) list"
type_synonym pools_detail = "(nat \<times> nat \<times> bool) list"

record router =
  rt_managed :: managed
  rt_rewards :: rewards
  rt_config_storage :: "address option"
  rt_tokens_set :: "nat \<Rightarrow> address list option"
  rt_tokens_set_count :: nat
  rt_pools :: "nat \<Rightarrow> pool_map option"
  rt_token_hash :: "nat option"
  rt_payment_token :: "address option"
  rt_standard_payment :: "nat option"
  rt_stable_payment :: "nat option"
  rt_concentrated_payment :: "nat option"
  rt_payment_address :: "address option"
  rt_constant_hash :: "nat option"
  rt_stable_hash :: "nat option"
  rt_concentrated_hash :: "nat option"
  rt_pool_counter :: nat
  rt_plane :: "address option"
  rt_calculator :: "address option"
  rt_protocol_fee_fraction :: nat
  rt_gauge_enabled :: "address \<Rightarrow> bool option"
  rt_rewards_config :: "rewards_config option"
  rt_reward_tokens :: "reward_token_map option"
  rt_detailed :: "nat \<Rightarrow> pools_detail option"

definition new_router :: "nat \<Rightarrow> router" where
  "new_router wasm = \<lparr>rt_managed = new_managed wasm, rt_rewards = empty_rewards, rt_config_storage = None,
     rt_tokens_set = Map.empty, rt_tokens_set_count = 0, rt_pools = Map.empty, rt_token_hash = None,
     rt_payment_token = None, rt_standard_payment = None, rt_stable_payment = None,
     rt_concentrated_payment = None, rt_payment_address = None, rt_constant_hash = None,
     rt_stable_hash = None, rt_concentrated_hash = None, rt_pool_counter = 0, rt_plane = None,
     rt_calculator = None, rt_protocol_fee_fraction = 0, rt_gauge_enabled = Map.empty,
     rt_rewards_config = None, rt_reward_tokens = None, rt_detailed = Map.empty\<rparr>"

section \<open>What the router calls\<close>

datatype encoded = E_Symbol symbol | E_U32 nat | E_I32 int | E_U128 nat | E_Address address | E_Hash nat
  \<comment> \<open>the parts of a salt: \<^verbatim>\<open>to_xdr\<close> of a value\<close>

type_synonym 'w pool_init = "env \<Rightarrow> address \<Rightarrow> address \<Rightarrow> privileged \<Rightarrow> address list \<Rightarrow>
  address \<times> address \<times> address \<Rightarrow> address \<Rightarrow> 'w \<Rightarrow> 'w res"
  \<comment> \<open>pool, admin, privileged addresses, tokens, reward token with boost token and feed, plane\<close>

record 'w router_calls =
  rx_tokens :: "'w tokens"
  rx_transfer_from :: "address \<Rightarrow> address \<Rightarrow> address \<Rightarrow> address \<Rightarrow> int \<Rightarrow> 'w \<Rightarrow> 'w res"
  rx_alive :: "address \<Rightarrow> 'w \<Rightarrow> unit res"
  rx_sha256 :: "encoded list \<Rightarrow> nat"
  rx_deploy :: "nat \<Rightarrow> nat \<Rightarrow> 'w \<Rightarrow> (address \<times> 'w) res"
  rx_deploy_gauge :: "nat \<Rightarrow> nat \<Rightarrow> address \<Rightarrow> address \<Rightarrow> 'w \<Rightarrow> (address \<times> 'w) res"
  rx_init_standard :: "nat \<Rightarrow> nat \<times> nat \<Rightarrow> address \<Rightarrow> 'w pool_init"
  rx_init_stable :: "nat \<Rightarrow> nat \<Rightarrow> nat \<times> nat \<Rightarrow> address \<Rightarrow> 'w pool_init"
  rx_init_concentrated :: "nat \<Rightarrow> int \<Rightarrow> nat \<Rightarrow> 'w pool_init"
  rx_liquidity :: "address \<Rightarrow> address list \<Rightarrow> 'w \<Rightarrow> nat list res"
  rx_config_get :: "address \<Rightarrow> val \<Rightarrow> 'w \<Rightarrow> val option res"
  rx_config_set :: "env \<Rightarrow> address \<Rightarrow> address \<Rightarrow> val \<Rightarrow> val \<Rightarrow> 'w \<Rightarrow> 'w res"
  rx_deposit :: "env \<Rightarrow> address \<Rightarrow> address \<Rightarrow> nat list \<Rightarrow> nat \<Rightarrow> 'w \<Rightarrow> ((nat list \<times> nat) \<times> 'w) res"
  rx_swap :: "env \<Rightarrow> address \<Rightarrow> address \<Rightarrow> nat \<Rightarrow> nat \<Rightarrow> nat \<Rightarrow> nat \<Rightarrow> 'w \<Rightarrow> (nat \<times> 'w) res"
  rx_swap_strict :: "env \<Rightarrow> address \<Rightarrow> address \<Rightarrow> nat \<Rightarrow> nat \<Rightarrow> nat \<Rightarrow> nat \<Rightarrow> 'w \<Rightarrow> (nat \<times> 'w) res"
  rx_estimate :: "env \<Rightarrow> address \<Rightarrow> nat \<Rightarrow> nat \<Rightarrow> nat \<Rightarrow> 'w \<Rightarrow> (nat \<times> 'w) res"
  rx_estimate_strict :: "env \<Rightarrow> address \<Rightarrow> nat \<Rightarrow> nat \<Rightarrow> nat \<Rightarrow> 'w \<Rightarrow> (nat \<times> 'w) res"
  rx_withdraw :: "env \<Rightarrow> address \<Rightarrow> address \<Rightarrow> nat \<Rightarrow> nat list \<Rightarrow> 'w \<Rightarrow> (nat list \<times> 'w) res"
  rx_set_rewards :: "env \<Rightarrow> address \<Rightarrow> address \<Rightarrow> nat \<Rightarrow> nat \<Rightarrow> 'w \<Rightarrow> 'w res"
  rx_configured :: "env \<Rightarrow> address \<Rightarrow> 'w \<Rightarrow> (nat \<times> 'w) res"
  rx_claimed :: "env \<Rightarrow> address \<Rightarrow> 'w \<Rightarrow> (nat \<times> 'w) res"
  rx_reserves :: "env \<Rightarrow> address \<Rightarrow> 'w \<Rightarrow> (nat list \<times> 'w) res"
  rx_protocol_fees :: "address \<Rightarrow> 'w \<Rightarrow> nat list res"
  rx_claim :: "env \<Rightarrow> address \<Rightarrow> address \<Rightarrow> 'w \<Rightarrow> (nat \<times> 'w) res"
  rx_gauges :: "address \<Rightarrow> 'w \<Rightarrow> (address \<times> address) list res"
  rx_gauge_add :: "env \<Rightarrow> address \<Rightarrow> address \<Rightarrow> address \<Rightarrow> 'w \<Rightarrow> 'w res"
  rx_gauge_schedule :: "env \<Rightarrow> address \<Rightarrow> address \<Rightarrow> address \<Rightarrow> address \<Rightarrow> nat option \<Rightarrow> nat \<Rightarrow> nat \<Rightarrow> 'w \<Rightarrow> 'w res"

section \<open>Salts\<close>

definition hash_bytes :: "nat \<Rightarrow> nat list" where
  \<comment> \<open>a hash as the 32 bytes that a generic value holds\<close>
  "hash_bytes h = map (\<lambda>i. h div 256 ^ (31 - i) mod 256) [0..<32]"

definition bytes_hash :: "nat list \<Rightarrow> nat res" where
  "bytes_hash bs = (if length bs = 32 then Inr (foldl (\<lambda>h b. h * 256 + b) 0 bs) else Inl HostPanic)"

definition get_tokens_salt :: "'w router_calls \<Rightarrow> address list \<Rightarrow> nat" where
  "get_tokens_salt x tokens = rx_sha256 x (map E_Address tokens)"

definition get_standard_pool_salt :: "'w router_calls \<Rightarrow> nat \<Rightarrow> nat" where
  "get_standard_pool_salt x fee_fraction =
     rx_sha256 x [E_Symbol ''standard'', E_Symbol ''0x00'', E_U32 fee_fraction, E_Symbol ''0x00'']"

definition get_pool_next_counter :: "router \<Rightarrow> (nat \<times> router) res" where
  "get_pool_next_counter s =
     (let v = rt_pool_counter s in andthen (u128_add v 1) (\<lambda>n. Inr (v, s\<lparr>rt_pool_counter := n\<rparr>)))"

definition get_stableswap_pool_salt :: "'w router_calls \<Rightarrow> router \<Rightarrow> (nat \<times> router) res" where
  "get_stableswap_pool_salt x s =
     andthen (get_pool_next_counter s) (\<lambda>(n, s).
     Inr (rx_sha256 x [E_Symbol ''stable'', E_Symbol ''0x00'', E_U128 n, E_Symbol ''0x00''], s))"

definition get_concentrated_pool_salt :: "'w router_calls \<Rightarrow> nat \<Rightarrow> int \<Rightarrow> nat" where
  "get_concentrated_pool_salt x fee tick_spacing =
     rx_sha256 x [E_Symbol ''cl'', E_Symbol ''0x00'', E_U32 fee, E_Symbol ''0x00'', E_I32 tick_spacing,
       E_Symbol ''0x00'']"

definition get_pool_counter_salt :: "'w router_calls \<Rightarrow> router \<Rightarrow> (nat \<times> router) res" where
  "get_pool_counter_salt x s =
     andthen (get_pool_next_counter s) (\<lambda>(n, s).
     Inr (rx_sha256 x [E_Symbol ''0x00'', E_U128 n, E_Symbol ''0x00''], s))"

definition merge_salt :: "'w router_calls \<Rightarrow> nat \<Rightarrow> nat \<Rightarrow> nat" where
  "merge_salt x left right = rx_sha256 x [E_Hash left, E_Hash right]"

section \<open>Token lists\<close>

fun assert_tokens_sorted :: "address list \<Rightarrow> unit res" where
  \<comment> \<open>\<open>len() - 1\<close> underflows on the empty list\<close>
  "assert_tokens_sorted [] = Inl HostPanic"
| "assert_tokens_sorted [a] = Inr ()"
| "assert_tokens_sorted (a # b # ts) =
    (if b < a then Inl (RouterError RT_TokensNotSorted)
     else if a = b then Inl (RouterError RT_DuplicatesNotAllowed)
     else assert_tokens_sorted (b # ts))"

definition validate_tokens_contracts :: "'w router_calls \<Rightarrow> address list \<Rightarrow> 'w \<Rightarrow> unit res" where
  "validate_tokens_contracts x tokens w = fold_res (\<lambda>t _. rx_alive x t w) tokens ()"

definition index_of :: "'a \<Rightarrow> 'a list \<Rightarrow> nat res" where
  \<comment> \<open>\<^verbatim>\<open>first_index_of(a).unwrap()\<close>\<close>
  "index_of a xs = from_option HostPanic (first_index_of a xs)"

section \<open>The registry\<close>

definition get_pools :: "nat \<Rightarrow> router \<Rightarrow> pool_map" where
  "get_pools salt s = (case rt_pools s salt of Some m \<Rightarrow> m | None \<Rightarrow> [])"

definition put_pools :: "nat \<Rightarrow> pool_map \<Rightarrow> router \<Rightarrow> router" where
  "put_pools salt m s = s\<lparr>rt_pools := (rt_pools s)(salt \<mapsto> m)\<rparr>"

definition get_pools_plain :: "nat \<Rightarrow> router \<Rightarrow> (nat \<times> address) list" where
  "get_pools_plain salt s = map (\<lambda>(k, d). (k, pd_address d)) (get_pools salt s)"

definition has_pool :: "nat \<Rightarrow> nat \<Rightarrow> router \<Rightarrow> bool" where
  "has_pool salt pool_index s \<longleftrightarrow> map_of (get_pools salt s) pool_index \<noteq> None"

definition get_pool :: "'w router_calls \<Rightarrow> address list \<Rightarrow> nat \<Rightarrow> router \<Rightarrow> address res" where
  "get_pool x tokens pool_index s =
     (case map_of (get_pools (get_tokens_salt x tokens) s) pool_index of
        Some d \<Rightarrow> Inr (pd_address d) | None \<Rightarrow> Inl (RegistryError RG_PoolNotFound))"

definition count_kind :: "pool_kind \<Rightarrow> pool_map \<Rightarrow> nat" where
  "count_kind k m = length (filter (\<lambda>p. pd_kind (snd p) = k) m)"

definition add_pool :: "nat \<Rightarrow> nat \<Rightarrow> pool_kind \<Rightarrow> address \<Rightarrow> router \<Rightarrow> router res" where
  "add_pool salt pool_index pool_type pool_address s =
     (let pools = map_set pool_index \<lparr>pd_kind = pool_type, pd_address = pool_address\<rparr> (get_pools salt s) in
      if pool_type = StableSwap \<and> STABLESWAP_MAX_POOLS < count_kind StableSwap pools
      then Inl (RouterError RT_StableswapPoolsOverMax)
      else if pool_type = Concentrated \<and> CONCENTRATED_MAX_POOLS < count_kind Concentrated pools
      then Inl (RouterError RT_ConcentratedPoolsOverMax)
      else if MAX_POOLS_FOR_PAIR < length pools then Inl (RouterError RT_PoolsOverMax)
      else Inr (put_pools salt pools s))"

definition put_tokens_set :: "nat \<Rightarrow> address list \<Rightarrow> router \<Rightarrow> router" where
  "put_tokens_set index tokens s = s\<lparr>rt_tokens_set := (rt_tokens_set s)(index \<mapsto> tokens)\<rparr>"

definition get_tokens_set :: "nat \<Rightarrow> router \<Rightarrow> address list res" where
  "get_tokens_set index s = stored (rt_tokens_set s index)"

definition add_tokens_set :: "'w router_calls \<Rightarrow> address list \<Rightarrow> router \<Rightarrow> router res" where
  "add_tokens_set x tokens s =
     (if 0 < length (get_pools (get_tokens_salt x tokens) s) then Inr s
      else
        let tokens_set_count = rt_tokens_set_count s; s = put_tokens_set tokens_set_count tokens s in
        andthen (u128_add tokens_set_count 1) (\<lambda>n. Inr (s\<lparr>rt_tokens_set_count := n\<rparr>)))"

definition registry_remove_pool :: "nat \<Rightarrow> nat \<Rightarrow> router \<Rightarrow> router" where
  "registry_remove_pool salt pool_index s =
     put_pools salt (map_remove pool_index (get_pools salt s)) s"

section \<open>Stored values\<close>

definition get_rewards_config :: "router \<Rightarrow> rewards_config" where
  "get_rewards_config s = (case rt_rewards_config s of Some c \<Rightarrow> c | None \<Rightarrow> \<lparr>gr_tps = 0, gr_expired_at = 0\<rparr>)"

definition set_rewards_config :: "rewards_config \<Rightarrow> router \<Rightarrow> router" where
  "set_rewards_config c s = s\<lparr>rt_rewards_config := Some c\<rparr>"

definition get_reward_tokens :: "router \<Rightarrow> reward_token_map res" where
  "get_reward_tokens s = from_option (RouterError RT_RewardsNotConfigured) (rt_reward_tokens s)"

definition set_reward_tokens :: "reward_token_map \<Rightarrow> router \<Rightarrow> router" where
  "set_reward_tokens m s = s\<lparr>rt_reward_tokens := Some m\<rparr>"

definition get_reward_tokens_detailed :: "nat \<Rightarrow> router \<Rightarrow> pools_detail res" where
  "get_reward_tokens_detailed salt s = from_option (RouterError RT_LiquidityNotFilled) (rt_detailed s salt)"

definition set_reward_tokens_detailed :: "nat \<Rightarrow> pools_detail \<Rightarrow> router \<Rightarrow> router" where
  "set_reward_tokens_detailed salt m s = s\<lparr>rt_detailed := (rt_detailed s)(salt \<mapsto> m)\<rparr>"

definition get_stableswap_pool_hash :: "router \<Rightarrow> nat res" where
  "get_stableswap_pool_hash s = from_option (RouterError RT_StableswapHashMissing) (rt_stable_hash s)"

definition get_gauge_rewards_enabled_for :: "address \<Rightarrow> router \<Rightarrow> bool" where
  "get_gauge_rewards_enabled_for token s = (case rt_gauge_enabled s token of Some v \<Rightarrow> v | None \<Rightarrow> False)"

definition set_gauge_rewards_enabled_for :: "address \<Rightarrow> bool \<Rightarrow> router \<Rightarrow> router" where
  "set_gauge_rewards_enabled_for token enabled s =
     s\<lparr>rt_gauge_enabled := (rt_gauge_enabled s)(token \<mapsto> enabled)\<rparr>"

section \<open>Guards and configuration\<close>

definition router_role :: "env \<Rightarrow> address \<Rightarrow> (access_control \<Rightarrow> address \<Rightarrow> unit res) \<Rightarrow> router \<Rightarrow> unit res" where
  \<comment> \<open>\<open>admin.require_auth()\<close> and one of the \<open>require_..._or_owner\<close> guards\<close>
  "router_role e admin guard s = andthen (require_auth e admin) (\<lambda>_. guard (mg_ac (rt_managed s)) admin)"

definition router_admin :: "env \<Rightarrow> address \<Rightarrow> router \<Rightarrow> unit res" where
  "router_admin e admin s = as_role e admin Admin (mg_ac (rt_managed s))"

definition config_key :: "symbol \<Rightarrow> val" where
  "config_key name = V_Vec [V_Symbol name]"

definition config_get_value_safe :: "'w router_calls \<Rightarrow> val \<Rightarrow> router \<Rightarrow> 'w \<Rightarrow> val option res" where
  "config_get_value_safe x key s w = andthen (stored (rt_config_storage s)) (\<lambda>c. rx_config_get x c key w)"

definition config_get_value :: "'w router_calls \<Rightarrow> val \<Rightarrow> router \<Rightarrow> 'w \<Rightarrow> val res" where
  "config_get_value x key s w =
     andthen (config_get_value_safe x key s w) (\<lambda>v. from_option (StorageError ST_ValueMissing) v)"

definition config_set_value :: "'w router_calls \<Rightarrow> env \<Rightarrow> address \<Rightarrow> val \<Rightarrow> val \<Rightarrow> router \<Rightarrow> 'w \<Rightarrow> 'w res" where
  "config_set_value x e admin key v s w =
     andthen (stored (rt_config_storage s)) (\<lambda>c. rx_config_set x e c admin key v w)"

end
