(* ===== verification/Router_Pools.thy ===== *)
theory Router_Pools
  imports Router_Base
begin

text \<open>
  Pools of the router: deployment and registration of the three kinds (\<^verbatim>\<open>deploy_*_pool\<close>,
  \<^verbatim>\<open>init_*_pool\<close> of \<^verbatim>\<open>pool_utils.rs\<close> and \<^verbatim>\<open>contract.rs\<close>), their removal and the listings.
\<close>

section \<open>Initialization of a deployed pool\<close>

definition role_or :: "access_control \<Rightarrow> role \<Rightarrow> address \<Rightarrow> address res" where
  \<comment> \<open>\<open>get_role_safe(r).unwrap_or(admin)\<close>\<close>
  "role_or ac r admin =
     andthen (get_role_safe ac r) (\<lambda>a. Inr (case a of Some v \<Rightarrow> v | None \<Rightarrow> admin))"

definition reward_addresses :: "router \<Rightarrow> (address \<times> address \<times> address) res" where
  "reward_addresses s =
     andthen (get_reward_token (rt_rewards s)) (\<lambda>t.
     andthen (stored (rw_boost_token (rt_rewards s))) (\<lambda>b.
     andthen (stored (rw_boost_feed (rt_rewards s))) (\<lambda>f. Inr (t, b, f))))"

definition pool_privileged :: "router \<Rightarrow> (address \<times> privileged) res" where
  "pool_privileged s =
     (let ac = mg_ac (rt_managed s) in
      andthen (get_role ac Admin) (\<lambda>admin.
      andthen (role_or ac EmergencyAdmin admin) (\<lambda>emergency_admin.
      andthen (role_or ac RewardsAdmin admin) (\<lambda>rewards_admin.
      andthen (role_or ac OperationsAdmin admin) (\<lambda>operations_admin.
      andthen (role_or ac PauseAdmin admin) (\<lambda>pause_admin.
      andthen (role_or ac SystemFeeAdmin admin) (\<lambda>system_fee_admin.
      andthen (get_role_addresses ac EmergencyPauseAdmin) (\<lambda>emergency_pause_admins.
      Inr (admin, \<lparr>pv_emergency_admin = emergency_admin, pv_rewards_admin = rewards_admin,
        pv_operations_admin = operations_admin, pv_pause_admin = pause_admin,
        pv_emergency_pause_admins = emergency_pause_admins, pv_system_fee_admin = system_fee_admin\<rparr>)))))))))"

definition init_deployed_standard ::
  "'w router_calls \<Rightarrow> env \<Rightarrow> address list \<Rightarrow> address \<Rightarrow> nat \<Rightarrow> router \<Rightarrow> 'w \<Rightarrow> 'w res" where
  "init_deployed_standard x e tokens pool_contract_id fee_fraction s w =
     andthen (stored (rt_token_hash s)) (\<lambda>token_wasm_hash.
     andthen (reward_addresses s) (\<lambda>reward.
     andthen (pool_privileged s) (\<lambda>(admin, pv).
     andthen (stored (rt_plane s)) (\<lambda>plane.
     andthen (stored (rt_config_storage s)) (\<lambda>storage_config.
     rx_init_standard x token_wasm_hash (fee_fraction, rt_protocol_fee_fraction s) storage_config
       e pool_contract_id admin pv tokens reward plane w)))))"

definition init_deployed_stable ::
  "'w router_calls \<Rightarrow> env \<Rightarrow> address list \<Rightarrow> address \<Rightarrow> nat \<Rightarrow> nat \<Rightarrow> router \<Rightarrow> 'w \<Rightarrow> 'w res" where
  "init_deployed_stable x e tokens pool_contract_id amp fee_fraction s w =
     andthen (stored (rt_token_hash s)) (\<lambda>token_wasm_hash.
     andthen (reward_addresses s) (\<lambda>reward.
     andthen (pool_privileged s) (\<lambda>(admin, pv).
     andthen (stored (rt_plane s)) (\<lambda>plane.
     andthen (stored (rt_config_storage s)) (\<lambda>storage_config.
     rx_init_stable x token_wasm_hash amp (fee_fraction, rt_protocol_fee_fraction s) storage_config
       e pool_contract_id admin pv tokens reward plane w)))))"

definition init_deployed_concentrated ::
  "'w router_calls \<Rightarrow> env \<Rightarrow> address list \<Rightarrow> address \<Rightarrow> nat \<Rightarrow> int \<Rightarrow> router \<Rightarrow> 'w \<Rightarrow> 'w res" where
  "init_deployed_concentrated x e tokens pool_contract_id fee tick_spacing s w =
     andthen (reward_addresses s) (\<lambda>reward.
     andthen (pool_privileged s) (\<lambda>(admin, pv).
     andthen (stored (rt_plane s)) (\<lambda>plane.
     rx_init_concentrated x fee tick_spacing (rt_protocol_fee_fraction s)
       e pool_contract_id admin pv tokens reward plane w)))"

section \<open>Deployment\<close>

definition deploy_standard_pool ::
  "'w router_calls \<Rightarrow> env \<Rightarrow> address list \<Rightarrow> nat \<Rightarrow> router \<times> 'w \<Rightarrow> ((nat \<times> address) \<times> router \<times> 'w) res" where
  "deploy_standard_pool x e tokens fee_fraction sw =
     (let (s, w) = sw; tokens_salt = get_tokens_salt x tokens in
      andthen (stored (rt_constant_hash s)) (\<lambda>liquidity_pool_wasm_hash.
      let subpool_salt = get_standard_pool_salt x fee_fraction in
      andthen (get_pool_counter_salt x s) (\<lambda>(counter_salt, s).
      andthen (rx_deploy x (merge_salt x (merge_salt x tokens_salt subpool_salt) counter_salt)
        liquidity_pool_wasm_hash w) (\<lambda>(pool_contract_id, w).
      andthen (init_deployed_standard x e tokens pool_contract_id fee_fraction s w) (\<lambda>w.
      andthen (add_tokens_set x tokens s) (\<lambda>s.
      andthen (add_pool tokens_salt subpool_salt ConstantProduct pool_contract_id s) (\<lambda>s.
      Inr ((subpool_salt, pool_contract_id), s, w))))))))"

definition deploy_stableswap_pool ::
  "'w router_calls \<Rightarrow> env \<Rightarrow> address list \<Rightarrow> nat \<Rightarrow> nat \<Rightarrow> router \<times> 'w \<Rightarrow> ((nat \<times> address) \<times> router \<times> 'w) res" where
  "deploy_stableswap_pool x e tokens amp fee_fraction sw =
     (let (s, w) = sw; tokens_salt = get_tokens_salt x tokens in
      andthen (get_stableswap_pool_hash s) (\<lambda>liquidity_pool_wasm_hash.
      andthen (get_stableswap_pool_salt x s) (\<lambda>(subpool_salt, s).
      andthen (rx_deploy x (merge_salt x tokens_salt subpool_salt) liquidity_pool_wasm_hash w)
        (\<lambda>(pool_contract_id, w).
      andthen (init_deployed_stable x e tokens pool_contract_id amp fee_fraction s w) (\<lambda>w.
      andthen (add_tokens_set x tokens s) (\<lambda>s.
      andthen (add_pool tokens_salt subpool_salt StableSwap pool_contract_id s) (\<lambda>s.
      Inr ((subpool_salt, pool_contract_id), s, w))))))))"

definition deploy_concentrated_pool ::
  "'w router_calls \<Rightarrow> env \<Rightarrow> address list \<Rightarrow> nat \<Rightarrow> int \<Rightarrow> router \<times> 'w \<Rightarrow> ((nat \<times> address) \<times> router \<times> 'w) res" where
  "deploy_concentrated_pool x e tokens fee tick_spacing sw =
     (let (s, w) = sw; tokens_salt = get_tokens_salt x tokens in
      andthen (stored (rt_concentrated_hash s)) (\<lambda>liquidity_pool_wasm_hash.
      let subpool_salt = get_concentrated_pool_salt x fee tick_spacing in
      andthen (get_pool_counter_salt x s) (\<lambda>(counter_salt, s).
      andthen (rx_deploy x (merge_salt x (merge_salt x tokens_salt subpool_salt) counter_salt)
        liquidity_pool_wasm_hash w) (\<lambda>(pool_contract_id, w).
      andthen (init_deployed_concentrated x e tokens pool_contract_id fee tick_spacing s w) (\<lambda>w.
      andthen (add_tokens_set x tokens s) (\<lambda>s.
      andthen (add_pool tokens_salt subpool_salt Concentrated pool_contract_id s) (\<lambda>s.
      Inr ((subpool_salt, pool_contract_id), s, w))))))))"

section \<open>Entry points\<close>

definition pay_for_creation ::
  "'w router_calls \<Rightarrow> address \<Rightarrow> nat option \<Rightarrow> router \<Rightarrow> 'w \<Rightarrow> 'w res" where
  "pay_for_creation x user amount s w =
     andthen (stored (rt_payment_token s)) (\<lambda>init_pool_token.
     andthen (stored amount) (\<lambda>init_pool_amount.
     andthen (stored (rt_payment_address s)) (\<lambda>init_pool_address.
     if 0 < init_pool_amount
     then tk_transfer (rx_tokens x) init_pool_token user init_pool_address (as_i128 init_pool_amount) w
     else Inr w)))"

definition init_standard_pool ::
  "'w router_calls \<Rightarrow> env \<Rightarrow> address \<Rightarrow> address list \<Rightarrow> nat \<Rightarrow> router \<times> 'w \<Rightarrow> ((nat \<times> address) \<times> router \<times> 'w) res" where
  "init_standard_pool x e user tokens fee_fraction sw =
     (let (s, w) = sw in
      andthen (require_auth e user) (\<lambda>_.
      andthen (validate_tokens_contracts x tokens w) (\<lambda>_.
      andthen (assert_tokens_sorted tokens) (\<lambda>_.
      if fee_fraction \<notin> set CONSTANT_PRODUCT_FEE_AVAILABLE then Inl (RouterError RT_BadFee)
      else
        let pools = get_pools_plain (get_tokens_salt x tokens) s; pool_index = get_standard_pool_salt x fee_fraction in
        case map_of pools pool_index of
          Some pool_address \<Rightarrow> Inr ((pool_index, pool_address), s, w)
        | None \<Rightarrow>
            andthen (pay_for_creation x user (rt_standard_payment s) s w) (\<lambda>w.
            deploy_standard_pool x e tokens fee_fraction (s, w))))))"

definition init_stableswap_pool ::
  "'w router_calls \<Rightarrow> env \<Rightarrow> address \<Rightarrow> address list \<Rightarrow> nat \<Rightarrow> router \<times> 'w \<Rightarrow> ((nat \<times> address) \<times> router \<times> 'w) res" where
  "init_stableswap_pool x e user tokens fee_fraction sw =
     (let (s, w) = sw in
      andthen (require_auth e user) (\<lambda>_.
      andthen (validate_tokens_contracts x tokens w) (\<lambda>_.
      andthen (assert_tokens_sorted tokens) (\<lambda>_.
      if STABLESWAP_MAX_FEE < fee_fraction then Inl (RouterError RT_BadFee)
      else let n_tokens = length tokens in
      if STABLESWAP_MAX_TOKENS < n_tokens then Inl (RouterError RT_UnsupportedTokensNum)
      else
        let pools = get_pools_plain (get_tokens_salt x tokens) s in
        andthen (get_stableswap_pool_salt x s) (\<lambda>(pool_index, s).
        case map_of pools pool_index of
          Some pool_address \<Rightarrow> Inr ((pool_index, pool_address), s, w)
        | None \<Rightarrow>
            andthen (pay_for_creation x user (rt_stable_payment s) s w) (\<lambda>w.
            andthen (u_pow U128_MAX n_tokens (n_tokens - 1)) (\<lambda>p.
            andthen (u128_mul STABLESWAP_DEFAULT_A p) (\<lambda>amp.
            deploy_stableswap_pool x e tokens amp fee_fraction (s, w)))))))))"

definition init_concentrated_pool ::
  "'w router_calls \<Rightarrow> env \<Rightarrow> address \<Rightarrow> address list \<Rightarrow> nat \<Rightarrow> router \<times> 'w \<Rightarrow> ((nat \<times> address) \<times> router \<times> 'w) res" where
  "init_concentrated_pool x e user tokens fee sw =
     (let (s, w) = sw in
      andthen (require_auth e user) (\<lambda>_.
      andthen (validate_tokens_contracts x tokens w) (\<lambda>_.
      andthen (assert_tokens_sorted tokens) (\<lambda>_.
      if length tokens \<noteq> 2 then Inl (RouterError RT_UnsupportedTokensNum)
      else if fee \<notin> set CONCENTRATED_FEE_AVAILABLE then Inl (RouterError RT_BadFee)
      else
        andthen (concentrated_tick_spacing fee) (\<lambda>tick_spacing.
        andthen (stored (rt_concentrated_hash s)) (\<lambda>_.
        let pools = get_pools_plain (get_tokens_salt x tokens) s;
            pool_index = get_concentrated_pool_salt x fee tick_spacing in
        case map_of pools pool_index of
          Some pool_address \<Rightarrow> Inr ((pool_index, pool_address), s, w)
        | None \<Rightarrow>
            andthen (pay_for_creation x user (rt_concentrated_payment s) s w) (\<lambda>w.
            deploy_concentrated_pool x e tokens fee tick_spacing (s, w))))))))"

definition rt_get_pools :: "'w router_calls \<Rightarrow> address list \<Rightarrow> router \<Rightarrow> (nat \<times> address) list res" where
  "rt_get_pools x tokens s =
     andthen (assert_tokens_sorted tokens) (\<lambda>_. Inr (get_pools_plain (get_tokens_salt x tokens) s))"

definition rt_remove_pool ::
  "'w router_calls \<Rightarrow> env \<Rightarrow> address \<Rightarrow> address list \<Rightarrow> nat \<Rightarrow> router \<Rightarrow> router res" where
  "rt_remove_pool x e user tokens pool_hash s =
     andthen (router_role e user require_operations_admin_or_owner s) (\<lambda>_.
     andthen (assert_tokens_sorted tokens) (\<lambda>_.
     let salt = get_tokens_salt x tokens in
     Inr (if has_pool salt pool_hash s then registry_remove_pool salt pool_hash s else s)))"

definition get_pools_for_tokens_range ::
  "'w router_calls \<Rightarrow> nat \<Rightarrow> nat \<Rightarrow> router \<Rightarrow> (address list \<times> (nat \<times> address) list) list res" where
  "get_pools_for_tokens_range x start end_index s =
     map_res (\<lambda>index. andthen (get_tokens_set index s) (\<lambda>tokens.
       andthen (rt_get_pools x tokens s) (\<lambda>pools. Inr (tokens, pools)))) [start..<end_index]"

end
