(* ===== verification/Router_Rewards.thy ===== *)
theory Router_Rewards
  imports Router_Base
begin

text \<open>
  The global rewards of the router (\<^verbatim>\<open>RewardsInterfaceTrait\<close>): a rate for all pools, split over sets of
  tokens by votes and inside a set by liquidity, and the funding of what the pools were promised.
\<close>

section \<open>Liquidity\<close>

definition sum_u256 :: "nat list \<Rightarrow> nat res" where
  "sum_u256 vs = fold_res (\<lambda>v r. u256_add r v) vs 0"

fun zip_liquidity :: "nat list \<Rightarrow> nat list \<Rightarrow> (nat \<times> nat) list \<Rightarrow> nat \<Rightarrow> ((nat \<times> nat) list \<times> nat) res" where
  \<comment> \<open>the loop over the pools: a missing value aborts, more values than pools are ignored\<close>
  "zip_liquidity [] values pools_map result = Inr (pools_map, result)"
| "zip_liquidity (h # hashes) [] pools_map result = Inl HostPanic"
| "zip_liquidity (h # hashes) (v # values) pools_map result =
    andthen (u256_add result v) (\<lambda>r. zip_liquidity hashes values (map_set h v pools_map) r)"

definition pools_total_liquidity ::
  "'w router_calls \<Rightarrow> address list \<Rightarrow> address \<Rightarrow> router \<Rightarrow> 'w \<Rightarrow> ((nat \<times> nat) list \<times> nat) res" where
  "pools_total_liquidity x tokens calculator s w =
     (let pools = get_pools_plain (get_tokens_salt x tokens) s in
      andthen (rx_liquidity x calculator (map snd pools) w) (\<lambda>pools_liquidity.
      zip_liquidity (map fst pools) pools_liquidity [] 0))"

definition rt_get_total_liquidity :: "'w router_calls \<Rightarrow> address list \<Rightarrow> router \<Rightarrow> 'w \<Rightarrow> nat res" where
  "rt_get_total_liquidity x tokens s w =
     andthen (assert_tokens_sorted tokens) (\<lambda>_.
     let pools = get_pools_plain (get_tokens_salt x tokens) s in
     andthen (stored (rt_calculator s)) (\<lambda>calculator.
     andthen (rx_liquidity x calculator (map snd pools) w) (\<lambda>pools_liquidity.
     sum_u256 pools_liquidity)))"

definition rt_get_liquidity :: "'w router_calls \<Rightarrow> address list \<Rightarrow> nat \<Rightarrow> router \<Rightarrow> 'w \<Rightarrow> nat res" where
  "rt_get_liquidity x tokens pool_index s w =
     andthen (assert_tokens_sorted tokens) (\<lambda>_.
     andthen (get_pool x tokens pool_index s) (\<lambda>pool_id.
     andthen (stored (rt_calculator s)) (\<lambda>calculator.
     andthen (rx_liquidity x calculator [pool_id] w) (\<lambda>vs.
     case vs of v # _ \<Rightarrow> Inr v | [] \<Rightarrow> Inl (RouterError RT_LiquidityCalculationError)))))"

section \<open>Global rewards\<close>

definition VOTE_DENOMINATOR :: nat where "VOTE_DENOMINATOR = 10000000"

definition unfilled :: "nat \<Rightarrow> reward_info" where
  "unfilled voting_share = \<lparr>ri_voting_share = voting_share, ri_processed = False, ri_total_liquidity = 0\<rparr>"

definition config_global_rewards ::
  "env \<Rightarrow> address \<Rightarrow> nat \<Rightarrow> nat \<Rightarrow> (address list \<times> nat) list \<Rightarrow> router \<Rightarrow> router res" where
  "config_global_rewards e user reward_tps exp_at tokens_votes s =
     andthen (router_role e user require_rewards_admin_or_owner s) (\<lambda>_.
     andthen (fold_res (\<lambda>(tokens, voting_share) m.
       andthen (assert_tokens_sorted tokens) (\<lambda>_. Inr (map_set tokens (unfilled voting_share) m))) tokens_votes [])
       (\<lambda>tokens_with_liquidity.
     andthen (fold_res (\<lambda>(_, info) n. u32_add n (ri_voting_share info)) tokens_with_liquidity 0) (\<lambda>n.
     if VOTE_DENOMINATOR < n then Inl (RouterError RT_VotingShareExceedsMax)
     else Inr (set_rewards_config \<lparr>gr_tps = reward_tps, gr_expired_at = exp_at\<rparr>
       (set_reward_tokens tokens_with_liquidity s)))))"

definition fill_liquidity ::
  "'w router_calls \<Rightarrow> env \<Rightarrow> address \<Rightarrow> address list \<Rightarrow> router \<times> 'w \<Rightarrow> router res" where
  "fill_liquidity x e admin tokens sw =
     (let (s, w) = sw in
      andthen (router_role e admin require_rewards_admin_or_owner s) (\<lambda>_.
      andthen (assert_tokens_sorted tokens) (\<lambda>_.
      let tokens_salt = get_tokens_salt x tokens in
      andthen (stored (rt_calculator s)) (\<lambda>calculator.
      andthen (pools_total_liquidity x tokens calculator s w) (\<lambda>(pools, total_liquidity).
      let pools_with_processed_info = map (\<lambda>(key, v). (key, v, False)) pools in
      andthen (get_reward_tokens s) (\<lambda>tokens_with_liquidity.
      andthen (from_option (RouterError RT_TokensAreNotForReward) (map_of tokens_with_liquidity tokens)) (\<lambda>token_data.
      if ri_processed token_data then Inl (RouterError RT_LiquidityAlreadyFilled)
      else
        let token_data = token_data\<lparr>ri_processed := True, ri_total_liquidity := total_liquidity\<rparr>;
            s = set_reward_tokens (map_set tokens token_data tokens_with_liquidity) s in
        Inr (set_reward_tokens_detailed tokens_salt pools_with_processed_info s))))))))"

definition pool_share :: "nat \<Rightarrow> reward_info \<Rightarrow> nat \<Rightarrow> nat res" where
  \<comment> \<open>the part of the rate that a pool of this liquidity gets\<close>
  "pool_share rate info pool_liquidity =
     (if 0 < pool_liquidity then
        andthen (u256_mul rate (ri_voting_share info)) (\<lambda>a.
        andthen (u256_mul a pool_liquidity) (\<lambda>a.
        andthen (u_div a (ri_total_liquidity info)) (\<lambda>a.
        andthen (u_div a VOTE_DENOMINATOR) (\<lambda>a.
        to_u128 a))))
      else Inr 0)"

definition pool_detail :: "reward_info option \<Rightarrow> pools_detail \<Rightarrow> nat \<Rightarrow> nat \<times> bool" where
  \<comment> \<open>the liquidity of a pool and whether it was configured; none if its tokens get no rewards\<close>
  "pool_detail tokens_reward_info tokens_detailed pool_index =
     (if tokens_reward_info \<noteq> None
      then (case map_of tokens_detailed pool_index of Some v \<Rightarrow> v | None \<Rightarrow> (0, False))
      else (0, False))"

definition info_or_inactive :: "reward_info option \<Rightarrow> reward_info" where
  "info_or_inactive tokens_reward_info =
     (case tokens_reward_info of Some v \<Rightarrow> v
      | None \<Rightarrow> \<lparr>ri_voting_share = 0, ri_processed = True, ri_total_liquidity = 0\<rparr>)"

definition config_pool_rewards ::
  "'w router_calls \<Rightarrow> env \<Rightarrow> address \<Rightarrow> address list \<Rightarrow> nat \<Rightarrow> router \<times> 'w \<Rightarrow> (nat \<times> router \<times> 'w) res" where
  "config_pool_rewards x e admin tokens pool_index sw =
     (let (s, w) = sw in
      andthen (router_role e admin require_rewards_admin_or_owner s) (\<lambda>_.
      andthen (assert_tokens_sorted tokens) (\<lambda>_.
      andthen (get_pool x tokens pool_index s) (\<lambda>pool_id.
      let rewards_config = get_rewards_config s; tokens_salt = get_tokens_salt x tokens in
      andthen (get_reward_tokens_detailed tokens_salt s) (\<lambda>tokens_detailed.
      andthen (get_reward_tokens s) (\<lambda>tokens_reward.
      let tokens_reward_info = map_of tokens_reward tokens;
          (pool_liquidity, pool_configured) = pool_detail tokens_reward_info tokens_detailed pool_index in
      if pool_configured then Inl (RouterError RT_RewardsAlreadyConfigured)
      else
        let reward_info = info_or_inactive tokens_reward_info in
        if \<not> ri_processed reward_info then Inl (RouterError RT_LiquidityNotFilled)
        else
          andthen (pool_share (gr_tps rewards_config) reward_info pool_liquidity) (\<lambda>pool_tps.
          andthen (rx_set_rewards x e pool_id (current_contract e) (gr_expired_at rewards_config) pool_tps w) (\<lambda>w.
          let s = (if 0 < pool_tps
            then set_reward_tokens_detailed tokens_salt (map_set pool_index (pool_liquidity, True) tokens_detailed) s
            else s) in
          Inr (pool_tps, s, w)))))))))"

section \<open>Funding\<close>

definition total_outstanding_reward ::
  "'w router_calls \<Rightarrow> env \<Rightarrow> address list \<Rightarrow> nat \<Rightarrow> router \<times> 'w \<Rightarrow> (nat \<times> 'w) res" where
  "total_outstanding_reward x e tokens pool_index sw =
     (let (s, w) = sw in
      andthen (assert_tokens_sorted tokens) (\<lambda>_.
      andthen (get_pool x tokens pool_index s) (\<lambda>pool_id.
      andthen (rx_configured x e pool_id w) (\<lambda>(configured_reward, w).
      andthen (rx_claimed x e pool_id w) (\<lambda>(claimed_reward, w).
      andthen (get_reward_token (rt_rewards s)) (\<lambda>reward_token.
      let pool_reward_balance = as_u128 (tk_balance (rx_tokens x) reward_token pool_id w) in
      andthen
        (case first_index_of reward_token tokens of
           Some i \<Rightarrow>
             andthen (rx_reserves x e pool_id w) (\<lambda>(pool_reserves, w).
             andthen (rx_protocol_fees x pool_id w) (\<lambda>protocol_fees.
             andthen (item pool_reserves i) (\<lambda>r.
             andthen (item protocol_fees i) (\<lambda>f.
             Inr (sat_sub (sat_sub pool_reward_balance r) f, w)))))
         | None \<Rightarrow> Inr (pool_reward_balance, w)) (\<lambda>(pool_reward_balance, w).
      andthen (u128_add claimed_reward pool_reward_balance) (\<lambda>have_reward.
      Inr (sat_sub configured_reward have_reward, w)))))))))"

definition distribute_outstanding_reward ::
  "'w router_calls \<Rightarrow> env \<Rightarrow> address \<Rightarrow> address \<Rightarrow> address list \<Rightarrow> nat \<Rightarrow> router \<times> 'w \<Rightarrow> (nat \<times> 'w) res" where
  "distribute_outstanding_reward x e user from_address tokens pool_index sw =
     (let (s, w) = sw in
      andthen (router_role e user require_rewards_admin_or_owner s) (\<lambda>_.
      andthen (assert_tokens_sorted tokens) (\<lambda>_.
      andthen (get_pool x tokens pool_index s) (\<lambda>pool_id.
      andthen (total_outstanding_reward x e tokens pool_index (s, w)) (\<lambda>(outstanding_reward, w).
      andthen (get_reward_token (rt_rewards s)) (\<lambda>reward_token.
      andthen
        (if from_address \<noteq> current_contract e
         then rx_transfer_from x reward_token (current_contract e) from_address pool_id (as_i128 outstanding_reward) w
         else tk_transfer (rx_tokens x) reward_token (current_contract e) pool_id (as_i128 outstanding_reward) w) (\<lambda>w.
      Inr (outstanding_reward, w))))))))"

end
