(* ===== verification/Router_Swaps.thy ===== *)
theory Router_Swaps
  imports Router_Base
begin

text \<open>
  Trading through the router: the calls passed on to one pool (\<^verbatim>\<open>LiquidityPoolInterfaceTrait\<close>), the two
  chained swaps (\<^verbatim>\<open>CombinedSwapInterface\<close>) and the scheduling of gauge rewards, which prices a reward
  with a chain of estimates. A chain is a list of hops: the tokens of a pool, its index, the token to
  obtain. The authorization that the router grants a pool for one transfer of the exact input is the
  host's and has no value in the model.
\<close>

type_synonym hop = "address list \<times> nat \<times> address"

section \<open>One pool\<close>

definition rt_deposit ::
  "'w router_calls \<Rightarrow> env \<Rightarrow> address \<Rightarrow> address list \<Rightarrow> nat \<Rightarrow> nat list \<Rightarrow> nat \<Rightarrow> router \<times> 'w \<Rightarrow>
   ((nat list \<times> nat) \<times> 'w) res" where
  "rt_deposit x e user tokens pool_index desired_amounts min_shares sw =
     (let (s, w) = sw in
      andthen (require_auth e user) (\<lambda>_.
      andthen (assert_tokens_sorted tokens) (\<lambda>_.
      andthen (get_pool x tokens pool_index s) (\<lambda>pool_id.
      rx_deposit x e pool_id user desired_amounts min_shares w))))"

definition rt_swap ::
  "'w router_calls \<Rightarrow> env \<Rightarrow> address \<Rightarrow> address list \<Rightarrow> address \<Rightarrow> address \<Rightarrow> nat \<Rightarrow> nat \<Rightarrow> nat \<Rightarrow> router \<times> 'w \<Rightarrow>
   (nat \<times> 'w) res" where
  "rt_swap x e user tokens token_in token_out pool_index in_amount out_min sw =
     (let (s, w) = sw in
      andthen (require_auth e user) (\<lambda>_.
      andthen (assert_tokens_sorted tokens) (\<lambda>_.
      andthen (get_pool x tokens pool_index s) (\<lambda>pool_id.
      andthen (index_of token_in tokens) (\<lambda>i.
      andthen (index_of token_out tokens) (\<lambda>j.
      rx_swap x e pool_id user i j in_amount out_min w))))))"

definition rt_estimate_swap ::
  "'w router_calls \<Rightarrow> env \<Rightarrow> address list \<Rightarrow> address \<Rightarrow> address \<Rightarrow> nat \<Rightarrow> nat \<Rightarrow> router \<times> 'w \<Rightarrow> (nat \<times> 'w) res" where
  "rt_estimate_swap x e tokens token_in token_out pool_index in_amount sw =
     (let (s, w) = sw in
      andthen (assert_tokens_sorted tokens) (\<lambda>_.
      andthen (get_pool x tokens pool_index s) (\<lambda>pool_id.
      andthen (index_of token_in tokens) (\<lambda>i.
      andthen (index_of token_out tokens) (\<lambda>j.
      rx_estimate x e pool_id i j in_amount w)))))"

definition rt_withdraw ::
  "'w router_calls \<Rightarrow> env \<Rightarrow> address \<Rightarrow> address list \<Rightarrow> nat \<Rightarrow> nat \<Rightarrow> nat list \<Rightarrow> router \<times> 'w \<Rightarrow>
   (nat list \<times> 'w) res" where
  "rt_withdraw x e user tokens pool_index share_amount min_amounts sw =
     (let (s, w) = sw in
      andthen (require_auth e user) (\<lambda>_.
      andthen (assert_tokens_sorted tokens) (\<lambda>_.
      andthen (get_pool x tokens pool_index s) (\<lambda>pool_id.
      rx_withdraw x e pool_id user share_amount min_amounts w))))"

definition rt_claim ::
  "'w router_calls \<Rightarrow> env \<Rightarrow> address \<Rightarrow> address list \<Rightarrow> nat \<Rightarrow> router \<times> 'w \<Rightarrow> (nat \<times> 'w) res" where
  \<comment> \<open>the event names the reward token, which must be set\<close>
  "rt_claim x e user tokens pool_index sw =
     (let (s, w) = sw in
      andthen (require_auth e user) (\<lambda>_.
      andthen (assert_tokens_sorted tokens) (\<lambda>_.
      andthen (get_pool x tokens pool_index s) (\<lambda>pool_id.
      andthen (rx_claim x e pool_id user w) (\<lambda>(amount, w).
      andthen (get_reward_token (rt_rewards s)) (\<lambda>_.
      Inr (amount, w)))))))"

section \<open>Chained swaps\<close>

fun swap_hops ::
  "'w router_calls \<Rightarrow> env \<Rightarrow> router \<Rightarrow> nat \<Rightarrow> hop list \<Rightarrow> address \<Rightarrow> nat \<Rightarrow> 'w \<Rightarrow> (address \<times> nat \<times> 'w) res" where
  \<comment> \<open>the loop: the output of a hop is the input of the next, the minimum guards the last one\<close>
  "swap_hops x e s out_min [] token amount w = Inr (token, amount, w)"
| "swap_hops x e s out_min ((tokens, pool_index, token_out) # hops) token amount w =
    andthen (assert_tokens_sorted tokens) (\<lambda>_.
    andthen (get_pool x tokens pool_index s) (\<lambda>pool_id.
    let out_min_local = (if hops = [] then out_min else 0) in
    andthen (index_of token tokens) (\<lambda>i.
    andthen (index_of token_out tokens) (\<lambda>j.
    andthen (rx_swap x e pool_id (current_contract e) i j amount out_min_local w) (\<lambda>(out_amount, w).
    swap_hops x e s out_min hops token_out out_amount w)))))"

definition rt_swap_chained ::
  "'w router_calls \<Rightarrow> env \<Rightarrow> address \<Rightarrow> hop list \<Rightarrow> address \<Rightarrow> nat \<Rightarrow> nat \<Rightarrow> router \<times> 'w \<Rightarrow> (nat \<times> 'w) res" where
  "rt_swap_chained x e user swaps_chain token_in in_amount out_min sw =
     (let (s, w) = sw in
      andthen (require_auth e user) (\<lambda>_.
      if swaps_chain = [] then Inl (RouterError RT_PathIsEmpty)
      else
        andthen (tk_transfer (rx_tokens x) token_in user (current_contract e) (as_i128 in_amount) w) (\<lambda>w.
        andthen (swap_hops x e s out_min swaps_chain token_in in_amount w) (\<lambda>(token_out, out_amount, w).
        andthen (tk_transfer (rx_tokens x) token_out (current_contract e) user (as_i128 out_amount) w) (\<lambda>w.
        Inr (out_amount, w))))))"

fun required_inputs ::
  "'w router_calls \<Rightarrow> env \<Rightarrow> router \<Rightarrow> nat \<Rightarrow> hop list \<Rightarrow> address \<Rightarrow> 'w \<Rightarrow> (nat list \<times> 'w) res" where
  \<comment> \<open>the reverse pass: later hops first, each asking for the input of its successor\<close>
  "required_inputs x e s out_amount [] token w = Inr ([], w)"
| "required_inputs x e s out_amount ((tokens, pool_index, token_out) # hops) token w =
    andthen (required_inputs x e s out_amount hops token_out w) (\<lambda>(required_amounts, w).
    let desired_out = (case required_amounts of [] \<Rightarrow> out_amount | r # _ \<Rightarrow> r) in
    andthen (get_pool x tokens pool_index s) (\<lambda>pool_id.
    andthen (index_of token tokens) (\<lambda>i.
    andthen (index_of token_out tokens) (\<lambda>j.
    andthen (rx_estimate_strict x e pool_id i j desired_out w) (\<lambda>(required_in, w).
    if required_in = 0 then Inl (RouterError RT_SwapChainAmountIsZero)
    else Inr (required_in # required_amounts, w))))))"

fun swap_hops_strict ::
  "'w router_calls \<Rightarrow> env \<Rightarrow> router \<Rightarrow> hop list \<Rightarrow> nat list \<Rightarrow> address \<Rightarrow> nat \<Rightarrow> 'w \<Rightarrow> (address \<times> nat \<times> 'w) res" where
  \<comment> \<open>the forward pass: \<open>outs\<close> holds the output of every hop, the wanted amount last\<close>
  "swap_hops_strict x e s ((tokens, pool_index, token_out) # hops) (out_local # outs) token current_in w =
    andthen (get_pool x tokens pool_index s) (\<lambda>pool_id.
    andthen (index_of token tokens) (\<lambda>i.
    andthen (index_of token_out tokens) (\<lambda>j.
    andthen (rx_swap_strict x e pool_id (current_contract e) i j out_local current_in w) (\<lambda>(in_local, w).
    swap_hops_strict x e s hops outs token_out out_local w))))"
| "swap_hops_strict x e s hops outs token current_in w = Inr (token, current_in, w)"

definition rt_swap_chained_strict_receive ::
  "'w router_calls \<Rightarrow> env \<Rightarrow> address \<Rightarrow> hop list \<Rightarrow> address \<Rightarrow> nat \<Rightarrow> nat \<Rightarrow> router \<times> 'w \<Rightarrow> (nat \<times> 'w) res" where
  "rt_swap_chained_strict_receive x e user swaps_chain token_in out_amount max_in sw =
     (let (s, w) = sw; me = current_contract e; tk = rx_tokens x in
      andthen (require_auth e user) (\<lambda>_.
      if swaps_chain = [] then Inl (RouterError RT_PathIsEmpty)
      else
        andthen (required_inputs x e s out_amount swaps_chain token_in w) (\<lambda>(required_amounts, w).
        andthen (item required_amounts 0) (\<lambda>total_required_input.
        if max_in < total_required_input then Inl (RouterError RT_InMaxNotSatisfied)
        else
          let balance_before = tk_balance tk token_in me w in
          andthen (tk_transfer tk token_in user me (as_i128 max_in) w) (\<lambda>w.
          andthen (swap_hops_strict x e s swaps_chain (tl required_amounts @ [out_amount]) token_in
            total_required_input w) (\<lambda>(final_token, current_in, w).
          andthen (tk_transfer tk final_token me user (as_i128 current_in) w) (\<lambda>w.
          andthen (i128_sub (tk_balance tk token_in me w) balance_before) (\<lambda>refund.
          andthen (if 0 < refund then tk_transfer tk token_in me user refund w else Inr w) (\<lambda>w.
          Inr (total_required_input, w))))))))))"

section \<open>Gauges\<close>

definition gauge_get_reward_per_day_threshold :: "'w router_calls \<Rightarrow> router \<Rightarrow> 'w \<Rightarrow> nat res" where
  "gauge_get_reward_per_day_threshold x s w =
     andthen (config_get_value x (config_key ''GaugeRewardMinDayAmt'') s w) (\<lambda>v.
     case v of V_U128 n \<Rightarrow> Inr n | _ \<Rightarrow> Inl (StorageError ST_ValueConversionError))"

definition gauge_get_reward_duration_threshold :: "'w router_calls \<Rightarrow> router \<Rightarrow> 'w \<Rightarrow> nat res" where
  "gauge_get_reward_duration_threshold x s w =
     andthen (config_get_value x (config_key ''GaugeRewardMinDuration'') s w) (\<lambda>v.
     case v of V_U64 n \<Rightarrow> Inr n | _ \<Rightarrow> Inl (StorageError ST_ValueConversionError))"

definition pool_gauge_set_reward_thresholds ::
  "'w router_calls \<Rightarrow> env \<Rightarrow> address \<Rightarrow> nat \<Rightarrow> nat \<Rightarrow> router \<times> 'w \<Rightarrow> 'w res" where
  "pool_gauge_set_reward_thresholds x e admin min_reward_equivalent_day min_duration_seconds sw =
     (let (s, w) = sw in
      andthen (router_admin e admin s) (\<lambda>_.
      andthen (config_set_value x e admin (config_key ''GaugeRewardMinDayAmt'') (V_U128 min_reward_equivalent_day) s w) (\<lambda>w.
      config_set_value x e admin (config_key ''GaugeRewardMinDuration'') (V_U64 min_duration_seconds) s w)))"

definition pool_gauge_switch_token :: "env \<Rightarrow> address \<Rightarrow> address \<Rightarrow> bool \<Rightarrow> router \<Rightarrow> router res" where
  "pool_gauge_switch_token e admin token enabled s =
     andthen (router_role e admin require_operations_admin_or_owner s) (\<lambda>_.
     Inr (set_gauge_rewards_enabled_for token enabled s))"

definition deploy_rewards_gauge ::
  "'w router_calls \<Rightarrow> address \<Rightarrow> address \<Rightarrow> router \<Rightarrow> 'w \<Rightarrow> (address \<times> 'w) res" where
  "deploy_rewards_gauge x pool reward_token s w =
     (let salt = rx_sha256 x [E_Address pool, E_Address reward_token] in
      andthen (config_get_value x (config_key ''GaugeWASM'') s w) (\<lambda>v.
      andthen (case v of V_Bytes bs \<Rightarrow> bytes_hash bs | _ \<Rightarrow> Inl HostPanic) (\<lambda>gauge_wasm.
      rx_deploy_gauge x salt gauge_wasm pool reward_token w)))"

fun estimate_hops ::
  "'w router_calls \<Rightarrow> env \<Rightarrow> router \<Rightarrow> hop list \<Rightarrow> address \<Rightarrow> nat \<Rightarrow> 'w \<Rightarrow> (address \<times> nat \<times> 'w) res" where
  "estimate_hops x e s [] token amount w = Inr (token, amount, w)"
| "estimate_hops x e s ((tokens, pool_index, token_out) # hops) token amount w =
    andthen (assert_tokens_sorted tokens) (\<lambda>_.
    andthen (get_pool x tokens pool_index s) (\<lambda>pool_id.
    andthen (index_of token tokens) (\<lambda>i.
    andthen (index_of token_out tokens) (\<lambda>j.
    andthen (rx_estimate x e pool_id i j amount w) (\<lambda>(estimate, w).
    estimate_hops x e s hops token_out estimate w)))))"

definition calculate_equivalent_reward ::
  "'w router_calls \<Rightarrow> env \<Rightarrow> address \<Rightarrow> nat \<Rightarrow> hop list \<Rightarrow> router \<Rightarrow> 'w \<Rightarrow> (nat \<times> 'w) res" where
  "calculate_equivalent_reward x e token_in in_amount swaps_chain s w =
     andthen (get_reward_token (rt_rewards s)) (\<lambda>reward_token.
     if token_in = reward_token then Inr (in_amount, w)
     else if swaps_chain = [] then Inl (RouterError RT_PathIsEmpty)
     else
       andthen (estimate_hops x e s swaps_chain token_in in_amount w) (\<lambda>(last_token, last_estimate, w).
       if last_token \<noteq> reward_token then Inl (RouterError RT_PathMustEndWithRewardToken)
       else Inr (last_estimate, w)))"

definition pool_gauge_schedule_reward ::
  "'w router_calls \<Rightarrow> env \<Rightarrow> address \<Rightarrow> address list \<Rightarrow> nat \<Rightarrow> address \<Rightarrow> nat \<Rightarrow> nat option \<Rightarrow> nat \<Rightarrow> hop list \<Rightarrow>
   router \<times> 'w \<Rightarrow> (address \<times> 'w) res" where
  "pool_gauge_schedule_reward x e distributor pool_tokens pool_hash distribute_token rate start_at duration
     swaps_chain_proof sw =
     (let (s, w) = sw; me = current_contract e in
      andthen (require_auth e distributor) (\<lambda>_.
      andthen (get_pool x pool_tokens pool_hash s) (\<lambda>pool.
      if \<not> list_all (\<lambda>token. get_gauge_rewards_enabled_for token s) pool_tokens
      then Inl (RouterError RT_GaugeRewardsDisabledForPool)
      else
        andthen (rx_gauges x pool w) (\<lambda>gauges_map.
        andthen (case map_of gauges_map distribute_token of
            Some gauge_address \<Rightarrow> Inr (gauge_address, w)
          | None \<Rightarrow>
              andthen (deploy_rewards_gauge x pool distribute_token s w) (\<lambda>(rewards_gauge, w).
              andthen (rx_gauge_add x e pool me rewards_gauge w) (\<lambda>w. Inr (rewards_gauge, w)))) (\<lambda>(rewards_gauge, w).
        andthen (gauge_get_reward_duration_threshold x s w) (\<lambda>min_duration.
        if duration < min_duration then Inl (RouterError RT_RewardDurationTooShort)
        else
          andthen (u128_mul rate 86400) (\<lambda>per_day.
          andthen (calculate_equivalent_reward x e distribute_token per_day swaps_chain_proof s w)
            (\<lambda>(reward_equivalent_per_day, w).
          andthen (gauge_get_reward_per_day_threshold x s w) (\<lambda>min_per_day.
          if reward_equivalent_per_day < min_per_day then Inl (RouterError RT_RewardAmountTooLow)
          else
            andthen (rx_gauge_schedule x e pool me distributor rewards_gauge start_at duration rate w) (\<lambda>w.
            Inr (rewards_gauge, w)))))))))))"

end
