(* ===== verification/Router_Admin.thy ===== *)
theory Router_Admin
  imports Router_Pools Router_Rewards Router_Swaps
begin

text \<open>
  The administration of the router (\<^verbatim>\<open>AdminInterface\<close>, \<^verbatim>\<open>UpgradeableContract\<close>, \<^verbatim>\<open>TransferableContract\<close>,
  \<^verbatim>\<open>PoolPlaneInterface\<close>, \<^verbatim>\<open>ConfigStorageInterface\<close>): roles, the wasm hashes new pools are deployed
  from, the price of a pool, the reward token.
\<close>

section \<open>Upgrades and roles\<close>

definition rt_on_managed :: "(managed \<Rightarrow> managed res) \<Rightarrow> router \<Rightarrow> router res" where
  "rt_on_managed f s = andthen (f (rt_managed s)) (\<lambda>m. Inr (s\<lparr>rt_managed := m\<rparr>))"

definition rt_init_admin :: "address \<Rightarrow> router \<Rightarrow> router res" where
  "rt_init_admin account = rt_on_managed (init_admin account)"

definition rt_commit_upgrade :: "env \<Rightarrow> address \<Rightarrow> nat \<Rightarrow> router \<Rightarrow> router res" where
  "rt_commit_upgrade e admin new_wasm_hash = rt_on_managed (entry_commit_upgrade e admin new_wasm_hash)"

definition rt_apply_upgrade :: "env \<Rightarrow> address \<Rightarrow> router \<Rightarrow> (nat \<times> router) res" where
  "rt_apply_upgrade e admin s =
     andthen (entry_apply_upgrade e admin (rt_managed s)) (\<lambda>(h, m). Inr (h, s\<lparr>rt_managed := m\<rparr>))"

definition rt_revert_upgrade :: "env \<Rightarrow> address \<Rightarrow> router \<Rightarrow> router res" where
  "rt_revert_upgrade e admin = rt_on_managed (entry_revert_upgrade e admin)"

definition rt_set_emergency_mode :: "env \<Rightarrow> address \<Rightarrow> bool \<Rightarrow> router \<Rightarrow> router res" where
  "rt_set_emergency_mode e emergency_admin v = rt_on_managed (entry_set_emergency_mode e emergency_admin v)"

definition rt_commit_transfer_ownership :: "env \<Rightarrow> address \<Rightarrow> symbol \<Rightarrow> address \<Rightarrow> router \<Rightarrow> router res" where
  "rt_commit_transfer_ownership e admin role_name new_address =
     rt_on_managed (entry_commit_transfer_ownership e admin role_name new_address)"

definition rt_apply_transfer_ownership :: "env \<Rightarrow> address \<Rightarrow> symbol \<Rightarrow> router \<Rightarrow> router res" where
  "rt_apply_transfer_ownership e admin role_name = rt_on_managed (entry_apply_transfer_ownership e admin role_name)"

definition rt_revert_transfer_ownership :: "env \<Rightarrow> address \<Rightarrow> symbol \<Rightarrow> router \<Rightarrow> router res" where
  "rt_revert_transfer_ownership e admin role_name = rt_on_managed (entry_revert_transfer_ownership e admin role_name)"

definition rt_get_future_address :: "symbol \<Rightarrow> router \<Rightarrow> address res" where
  "rt_get_future_address role_name s = entry_get_future_address role_name (rt_managed s)"

definition rt_set_privileged_addrs :: "env \<Rightarrow> address \<Rightarrow> privileged \<Rightarrow> router \<Rightarrow> router res" where
  \<comment> \<open>the emergency admin of the record is not read: its transfer is delayed\<close>
  "rt_set_privileged_addrs e admin p s =
     andthen (router_admin e admin s) (\<lambda>_.
     rt_on_managed (with_ac (set_privileged_roles p)) s)"

definition rt_get_privileged_addrs :: "router \<Rightarrow> (symbol \<times> address list) list res" where
  \<comment> \<open>a symbol is a string here and the result a list in the order of the insertions\<close>
  "rt_get_privileged_addrs s =
     (let ac = mg_ac (rt_managed s) in
      andthen (map_res (\<lambda>r. andthen (get_role_safe ac r) (\<lambda>a.
        Inr (as_symbol r, case a of Some v \<Rightarrow> [v] | None \<Rightarrow> [])))
        [Admin, EmergencyAdmin, RewardsAdmin, OperationsAdmin, PauseAdmin, SystemFeeAdmin]) (\<lambda>single.
      andthen (get_role_addresses ac EmergencyPauseAdmin) (\<lambda>addrs.
      Inr (single @ [(as_symbol EmergencyPauseAdmin, addrs)]))))"

section \<open>Configuration\<close>

definition set_liquidity_calculator :: "env \<Rightarrow> address \<Rightarrow> address \<Rightarrow> router \<Rightarrow> router res" where
  "set_liquidity_calculator e admin calculator s =
     andthen (router_admin e admin s) (\<lambda>_. Inr (s\<lparr>rt_calculator := Some calculator\<rparr>))"

definition set_token_hash :: "env \<Rightarrow> address \<Rightarrow> nat \<Rightarrow> router \<Rightarrow> router res" where
  "set_token_hash e admin new_hash s =
     andthen (router_admin e admin s) (\<lambda>_. Inr (s\<lparr>rt_token_hash := Some new_hash\<rparr>))"

definition set_pool_hash :: "env \<Rightarrow> address \<Rightarrow> nat \<Rightarrow> router \<Rightarrow> router res" where
  "set_pool_hash e admin new_hash s =
     andthen (router_admin e admin s) (\<lambda>_. Inr (s\<lparr>rt_constant_hash := Some new_hash\<rparr>))"

definition set_stableswap_pool_hash :: "env \<Rightarrow> address \<Rightarrow> nat \<Rightarrow> router \<Rightarrow> router res" where
  "set_stableswap_pool_hash e admin new_hash s =
     andthen (router_admin e admin s) (\<lambda>_. Inr (s\<lparr>rt_stable_hash := Some new_hash\<rparr>))"

definition set_concentrated_pool_hash :: "env \<Rightarrow> address \<Rightarrow> nat \<Rightarrow> router \<Rightarrow> router res" where
  "set_concentrated_pool_hash e admin new_hash s =
     andthen (router_admin e admin s) (\<lambda>_. Inr (s\<lparr>rt_concentrated_hash := Some new_hash\<rparr>))"

definition set_rewards_gauge_hash ::
  "'w router_calls \<Rightarrow> env \<Rightarrow> address \<Rightarrow> nat \<Rightarrow> router \<times> 'w \<Rightarrow> 'w res" where
  "set_rewards_gauge_hash x e admin new_hash sw =
     (let (s, w) = sw in
      andthen (router_admin e admin s) (\<lambda>_.
      config_set_value x e admin (config_key ''GaugeWASM'') (V_Bytes (hash_bytes new_hash)) s w))"

definition configure_init_pool_payment ::
  "env \<Rightarrow> address \<Rightarrow> address \<Rightarrow> nat \<Rightarrow> nat \<Rightarrow> nat \<Rightarrow> address \<Rightarrow> router \<Rightarrow> router res" where
  "configure_init_pool_payment e admin token standard_pool_amount stable_pool_amount concentrated_pool_amount to s =
     andthen (router_admin e admin s) (\<lambda>_.
     Inr (s\<lparr>rt_payment_token := Some token, rt_stable_payment := Some stable_pool_amount,
       rt_standard_payment := Some standard_pool_amount, rt_concentrated_payment := Some concentrated_pool_amount,
       rt_payment_address := Some to\<rparr>))"

definition rt_set_reward_token :: "env \<Rightarrow> address \<Rightarrow> address \<Rightarrow> router \<Rightarrow> router res" where
  \<comment> \<open>once set, the same token is accepted and another one rejected\<close>
  "rt_set_reward_token e admin reward_token s =
     andthen (router_admin e admin s) (\<lambda>_.
     if has_reward_token (rt_rewards s) then
       andthen (get_reward_token (rt_rewards s)) (\<lambda>t.
       if t \<noteq> reward_token then Inl (RouterError RT_RewardTokenChangeWhileActive) else Inr s)
     else Inr (s\<lparr>rt_rewards := put_reward_token reward_token (rt_rewards s)\<rparr>))"

definition set_reward_boost_config :: "env \<Rightarrow> address \<Rightarrow> address \<Rightarrow> address \<Rightarrow> router \<Rightarrow> router res" where
  "set_reward_boost_config e admin reward_boost_token reward_boost_feed s =
     andthen (router_admin e admin s) (\<lambda>_.
     Inr (s\<lparr>rt_rewards := put_reward_boost_feed reward_boost_feed
       (put_reward_boost_token reward_boost_token (rt_rewards s))\<rparr>))"

definition rt_set_protocol_fee_fraction :: "env \<Rightarrow> address \<Rightarrow> nat \<Rightarrow> router \<Rightarrow> router res" where
  "rt_set_protocol_fee_fraction e admin new_fraction s =
     andthen (router_role e admin require_operations_admin_or_owner s) (\<lambda>_.
     Inr (s\<lparr>rt_protocol_fee_fraction := new_fraction\<rparr>))"

definition set_pools_plane :: "env \<Rightarrow> address \<Rightarrow> address \<Rightarrow> router \<Rightarrow> router res" where
  "set_pools_plane e admin plane s =
     andthen (router_admin e admin s) (\<lambda>_. Inr (s\<lparr>rt_plane := Some plane\<rparr>))"

definition rt_init_config_storage :: "env \<Rightarrow> address \<Rightarrow> address \<Rightarrow> router \<Rightarrow> router res" where
  "rt_init_config_storage e admin config_storage s =
     andthen (router_admin e admin s) (\<lambda>_.
     if rt_config_storage s \<noteq> None then Inl (StorageError ST_AlreadyInitialized)
     else Inr (s\<lparr>rt_config_storage := Some config_storage\<rparr>))"

end
