(* ===== verification/Router_Runs.thy ===== *)
theory Router_Runs
  imports Router_Admin
begin

text \<open>
  Executions of the router: its entry points as a data type, and what the operations other than
  those on the global rewards leave alone.
\<close>

section \<open>Entry points\<close>

datatype router_user_op =
    RtInitStandard address "address list" nat
  | RtInitStable address "address list" nat
  | RtInitConcentrated address "address list" nat
  | RtDeposit address "address list" nat "nat list" nat
  | RtSwap address "address list" address address nat nat nat
  | RtWithdraw address "address list" nat nat "nat list"
  | RtClaim address "address list" nat
  | RtSwapChained address "hop list" address nat nat
  | RtSwapStrict address "hop list" address nat nat
  | RtSchedule address "address list" nat address nat "nat option" nat "hop list"

datatype router_admin_op =
    RtManaged managed_op
  | RtSetPrivileged address privileged
  | RtSetCalculator address address
  | RtSetTokenHash address nat
  | RtSetPoolHash address nat
  | RtSetStableHash address nat
  | RtSetConcentratedHash address nat
  | RtSetGaugeHash address nat
  | RtSetPayment address address nat nat nat address
  | RtSetRewardToken address address
  | RtSetBoost address address address
  | RtSetProtocolFee address nat
  | RtSetPlane address address
  | RtInitConfigStorage address address
  | RtRemovePool address "address list" nat
  | RtSetThresholds address nat nat
  | RtSwitchToken address address bool
  | RtDistribute address address "address list" nat

primrec router_user_exec ::
  "'w router_calls \<Rightarrow> env \<Rightarrow> router \<Rightarrow> 'w \<Rightarrow> router_user_op \<Rightarrow> (router \<times> 'w) res" where
  "router_user_exec x e s w (RtInitStandard u ts f) =
     andthen (init_standard_pool x e u ts f (s, w)) (\<lambda>(_, sw). Inr sw)"
| "router_user_exec x e s w (RtInitStable u ts f) =
     andthen (init_stableswap_pool x e u ts f (s, w)) (\<lambda>(_, sw). Inr sw)"
| "router_user_exec x e s w (RtInitConcentrated u ts f) =
     andthen (init_concentrated_pool x e u ts f (s, w)) (\<lambda>(_, sw). Inr sw)"
| "router_user_exec x e s w (RtDeposit u ts i ds m) =
     andthen (rt_deposit x e u ts i ds m (s, w)) (\<lambda>(_, w). Inr (s, w))"
| "router_user_exec x e s w (RtSwap u ts a b i n m) =
     andthen (rt_swap x e u ts a b i n m (s, w)) (\<lambda>(_, w). Inr (s, w))"
| "router_user_exec x e s w (RtWithdraw u ts i n ms) =
     andthen (rt_withdraw x e u ts i n ms (s, w)) (\<lambda>(_, w). Inr (s, w))"
| "router_user_exec x e s w (RtClaim u ts i) =
     andthen (rt_claim x e u ts i (s, w)) (\<lambda>(_, w). Inr (s, w))"
| "router_user_exec x e s w (RtSwapChained u c t n m) =
     andthen (rt_swap_chained x e u c t n m (s, w)) (\<lambda>(_, w). Inr (s, w))"
| "router_user_exec x e s w (RtSwapStrict u c t n m) =
     andthen (rt_swap_chained_strict_receive x e u c t n m (s, w)) (\<lambda>(_, w). Inr (s, w))"
| "router_user_exec x e s w (RtSchedule d ts h t r st du c) =
     andthen (pool_gauge_schedule_reward x e d ts h t r st du c (s, w)) (\<lambda>(_, w). Inr (s, w))"

primrec router_admin_exec ::
  "'w router_calls \<Rightarrow> env \<Rightarrow> router \<Rightarrow> 'w \<Rightarrow> router_admin_op \<Rightarrow> (router \<times> 'w) res" where
  "router_admin_exec x e s w (RtManaged a) = andthen (rt_on_managed (managed_entry e a) s) (\<lambda>s. Inr (s, w))"
| "router_admin_exec x e s w (RtSetPrivileged a p) = andthen (rt_set_privileged_addrs e a p s) (\<lambda>s. Inr (s, w))"
| "router_admin_exec x e s w (RtSetCalculator a c) = andthen (set_liquidity_calculator e a c s) (\<lambda>s. Inr (s, w))"
| "router_admin_exec x e s w (RtSetTokenHash a h) = andthen (set_token_hash e a h s) (\<lambda>s. Inr (s, w))"
| "router_admin_exec x e s w (RtSetPoolHash a h) = andthen (set_pool_hash e a h s) (\<lambda>s. Inr (s, w))"
| "router_admin_exec x e s w (RtSetStableHash a h) = andthen (set_stableswap_pool_hash e a h s) (\<lambda>s. Inr (s, w))"
| "router_admin_exec x e s w (RtSetConcentratedHash a h) =
     andthen (set_concentrated_pool_hash e a h s) (\<lambda>s. Inr (s, w))"
| "router_admin_exec x e s w (RtSetGaugeHash a h) =
     andthen (set_rewards_gauge_hash x e a h (s, w)) (\<lambda>w. Inr (s, w))"
| "router_admin_exec x e s w (RtSetPayment a t n1 n2 n3 d) =
     andthen (configure_init_pool_payment e a t n1 n2 n3 d s) (\<lambda>s. Inr (s, w))"
| "router_admin_exec x e s w (RtSetRewardToken a t) = andthen (rt_set_reward_token e a t s) (\<lambda>s. Inr (s, w))"
| "router_admin_exec x e s w (RtSetBoost a t f) = andthen (set_reward_boost_config e a t f s) (\<lambda>s. Inr (s, w))"
| "router_admin_exec x e s w (RtSetProtocolFee a n) = andthen (rt_set_protocol_fee_fraction e a n s) (\<lambda>s. Inr (s, w))"
| "router_admin_exec x e s w (RtSetPlane a p) = andthen (set_pools_plane e a p s) (\<lambda>s. Inr (s, w))"
| "router_admin_exec x e s w (RtInitConfigStorage a c) = andthen (rt_init_config_storage e a c s) (\<lambda>s. Inr (s, w))"
| "router_admin_exec x e s w (RtRemovePool a ts h) = andthen (rt_remove_pool x e a ts h s) (\<lambda>s. Inr (s, w))"
| "router_admin_exec x e s w (RtSetThresholds a n d) =
     andthen (pool_gauge_set_reward_thresholds x e a n d (s, w)) (\<lambda>w. Inr (s, w))"
| "router_admin_exec x e s w (RtSwitchToken a t b) = andthen (pool_gauge_switch_token e a t b s) (\<lambda>s. Inr (s, w))"
| "router_admin_exec x e s w (RtDistribute u f ts i) =
     andthen (distribute_outstanding_reward x e u f ts i (s, w)) (\<lambda>(_, w). Inr (s, w))"

datatype router_op = RtUser router_user_op | RtAdmin router_admin_op

primrec router_exec :: "'w router_calls \<Rightarrow> env \<Rightarrow> router \<Rightarrow> 'w \<Rightarrow> router_op \<Rightarrow> (router \<times> 'w) res" where
  "router_exec x e s w (RtUser a) = router_user_exec x e s w a"
| "router_exec x e s w (RtAdmin a) = router_admin_exec x e s w a"

section \<open>The reward data\<close>

definition reward_data ::
  "router \<Rightarrow> rewards_config option \<times> reward_token_map option \<times> (nat \<Rightarrow> pools_detail option)" where
  "reward_data s = (rt_rewards_config s, rt_reward_tokens s, rt_detailed s)"

definition registry_data :: "router \<Rightarrow> (nat \<Rightarrow> pool_map option) \<times> (nat \<Rightarrow> address list option) \<times> nat" where
  "registry_data s = (rt_pools s, rt_tokens_set s, rt_tokens_set_count s)"

lemma counter_frame:
  "get_pool_next_counter s = Inr (n, s') \<Longrightarrow> reward_data s' = reward_data s \<and> registry_data s' = registry_data s"
  by (auto simp: get_pool_next_counter_def Let_def res_simps reward_data_def registry_data_def)

lemma counter_salt_frame:
  "get_pool_counter_salt x s = Inr (n, s') \<Longrightarrow> reward_data s' = reward_data s \<and> registry_data s' = registry_data s"
  by (auto simp: get_pool_counter_salt_def res_simps dest: counter_frame)

lemma stable_salt_frame:
  "get_stableswap_pool_salt x s = Inr (n, s') \<Longrightarrow> reward_data s' = reward_data s \<and> registry_data s' = registry_data s"
  by (auto simp: get_stableswap_pool_salt_def res_simps dest: counter_frame)

definition register_pool :: "'w router_calls \<Rightarrow> address list \<Rightarrow> nat \<Rightarrow> pool_kind \<Rightarrow> address \<Rightarrow> router \<Rightarrow> router res" where
  \<comment> \<open>the end of every deployment\<close>
  "register_pool x tokens index k pool s =
     andthen (add_tokens_set x tokens s) (\<lambda>s. add_pool (get_tokens_salt x tokens) index k pool s)"

lemma add_tokens_set_rewards: "add_tokens_set x tokens s = Inr s' \<Longrightarrow> reward_data s' = reward_data s"
  by (auto simp: add_tokens_set_def put_tokens_set_def Let_def res_simps reward_data_def split: if_splits)

lemma add_pool_rewards: "add_pool salt index k p s = Inr s' \<Longrightarrow> reward_data s' = reward_data s"
  by (auto simp: add_pool_def Let_def put_pools_def reward_data_def split: if_splits)

lemma register_pool_rewards: "register_pool x tokens index k p s = Inr s' \<Longrightarrow> reward_data s' = reward_data s"
  using add_tokens_set_rewards add_pool_rewards by (fastforce simp: register_pool_def res_simps)

lemma deploy_standard_InrE:
  assumes "deploy_standard_pool x e tokens fee (s, w) = Inr (r, s', w')"
  obtains s1 pool where "reward_data s1 = reward_data s" and "registry_data s1 = registry_data s"
    and "register_pool x tokens (get_standard_pool_salt x fee) ConstantProduct pool s1 = Inr s'"
  using assms counter_salt_frame [of x s]
  by (auto simp: deploy_standard_pool_def Let_def res_simps register_pool_def)

lemma deploy_stable_InrE:
  assumes "deploy_stableswap_pool x e tokens amp fee (s, w) = Inr (r, s', w')"
  obtains s1 pool index where "reward_data s1 = reward_data s" and "registry_data s1 = registry_data s"
    and "register_pool x tokens index StableSwap pool s1 = Inr s'"
  using assms stable_salt_frame [of x s]
  by (auto simp: deploy_stableswap_pool_def Let_def res_simps register_pool_def)

lemma deploy_concentrated_InrE:
  assumes "deploy_concentrated_pool x e tokens fee spacing (s, w) = Inr (r, s', w')"
  obtains s1 pool where "reward_data s1 = reward_data s" and "registry_data s1 = registry_data s"
    and "register_pool x tokens (get_concentrated_pool_salt x fee spacing) Concentrated pool s1 = Inr s'"
  using assms counter_salt_frame [of x s]
  by (auto simp: deploy_concentrated_pool_def Let_def res_simps register_pool_def)

definition registers :: "'w router_calls \<Rightarrow> router \<Rightarrow> router \<Rightarrow> bool" where
  \<comment> \<open>the second state is the first one with a new pool\<close>
  "registers x s s' \<longleftrightarrow> (\<exists>s1 tokens index k pool. reward_data s1 = reward_data s \<and>
     registry_data s1 = registry_data s \<and> assert_tokens_sorted tokens = Inr () \<and>
     register_pool x tokens index k pool s1 = Inr s')"

definition same_data :: "router \<Rightarrow> router \<Rightarrow> bool" where
  "same_data s s' \<longleftrightarrow> reward_data s' = reward_data s \<and> registry_data s' = registry_data s"

lemma same_data_refl [simp]: "same_data s s"
  by (simp add: same_data_def)

lemma registersI:
  "assert_tokens_sorted tokens = Inr () \<Longrightarrow> reward_data s1 = reward_data s \<Longrightarrow> registry_data s1 = registry_data s \<Longrightarrow>
    register_pool x tokens index k pool s1 = Inr s' \<Longrightarrow> registers x s s'"
  unfolding registers_def by blast

lemma init_standard_cases:
  assumes "init_standard_pool x e u tokens fee (s, w) = Inr (r, s', w')"
  shows "same_data s s' \<or> registers x s s'"
proof -
  from assms have "(s' = s \<or> (\<exists>w1. deploy_standard_pool x e tokens fee (s, w1) = Inr (r, s', w'))) \<and>
      assert_tokens_sorted tokens = Inr ()"
    by (auto simp: init_standard_pool_def Let_def res_simps split: option.splits)
  then show ?thesis using deploy_standard_InrE registersI same_data_refl by metis
qed

lemma init_concentrated_cases:
  assumes "init_concentrated_pool x e u tokens fee (s, w) = Inr (r, s', w')"
  shows "same_data s s' \<or> registers x s s'"
proof -
  from assms have "(s' = s \<or> (\<exists>w1 t. deploy_concentrated_pool x e tokens fee t (s, w1) = Inr (r, s', w'))) \<and>
      assert_tokens_sorted tokens = Inr ()"
    by (auto simp: init_concentrated_pool_def Let_def res_simps split: option.splits)
  then show ?thesis using deploy_concentrated_InrE registersI same_data_refl by metis
qed

lemma init_stable_cases:
  assumes "init_stableswap_pool x e u tokens fee (s, w) = Inr (r, s', w')"
  shows "same_data s s' \<or> registers x s s'"
proof -
  from assms obtain i s1 where i: "get_stableswap_pool_salt x s = Inr (i, s1)"
    and r: "s' = s1 \<or> (\<exists>w1 amp. deploy_stableswap_pool x e tokens amp fee (s1, w1) = Inr (r, s', w'))"
    and t: "assert_tokens_sorted tokens = Inr ()"
    by (auto simp: init_stableswap_pool_def Let_def res_simps split: option.splits)
  note f = stable_salt_frame [OF i]
  from r show ?thesis
  proof
    assume "s' = s1"
    then show ?thesis using f by (simp add: same_data_def)
  next
    assume "\<exists>w1 amp. deploy_stableswap_pool x e tokens amp fee (s1, w1) = Inr (r, s', w')"
    then show ?thesis using deploy_stable_InrE registersI [OF t] f by metis
  qed
qed

lemma user_exec_cases:
  assumes "router_user_exec x e s w a = Inr (s', w')"
  shows "same_data s s' \<or> registers x s s'"
proof (cases a)
  case (RtInitStandard u ts f)
  with assms obtain r where "init_standard_pool x e u ts f (s, w) = Inr (r, s', w')" by (auto simp: res_simps)
  then show ?thesis by (rule init_standard_cases)
next
  case (RtInitStable u ts f)
  with assms obtain r where "init_stableswap_pool x e u ts f (s, w) = Inr (r, s', w')" by (auto simp: res_simps)
  then show ?thesis by (rule init_stable_cases)
next
  case (RtInitConcentrated u ts f)
  with assms obtain r where "init_concentrated_pool x e u ts f (s, w) = Inr (r, s', w')" by (auto simp: res_simps)
  then show ?thesis by (rule init_concentrated_cases)
qed (use assms in \<open>auto simp: res_simps\<close>)

lemmas admin_defs = rt_on_managed_def rt_set_privileged_addrs_def set_liquidity_calculator_def set_token_hash_def
  set_pool_hash_def set_stableswap_pool_hash_def set_concentrated_pool_hash_def configure_init_pool_payment_def
  rt_set_reward_token_def set_reward_boost_config_def rt_set_protocol_fee_fraction_def set_pools_plane_def
  rt_init_config_storage_def pool_gauge_switch_token_def set_gauge_rewards_enabled_for_def

lemma admin_exec_cases:
  assumes "router_admin_exec x e s w a = Inr (s', w')"
  shows "same_data s s' \<or> (\<exists>salt index. s' = registry_remove_pool salt index s)"
proof (cases "\<exists>u ts h. a = RtRemovePool u ts h")
  case True
  then obtain u ts h where "rt_remove_pool x e u ts h s = Inr s'" using assms by (auto simp: res_simps)
  then have "s' = s \<or> s' = registry_remove_pool (get_tokens_salt x ts) h s"
    by (auto simp: rt_remove_pool_def Let_def res_simps)
  then show ?thesis using same_data_refl by blast
next
  case False
  then have "same_data s s'"
    using assms
    by (cases a) (auto simp: res_simps admin_defs same_data_def reward_data_def registry_data_def split: if_splits)
  then show ?thesis by simp
qed

lemma router_exec_rewards:
  assumes "router_exec x e s w a = Inr (s', w')"
  shows "reward_data s' = reward_data s"
proof (cases a)
  case (RtUser b)
  then have "same_data s s' \<or> registers x s s'" using assms by (intro user_exec_cases) simp
  then show ?thesis unfolding same_data_def registers_def using register_pool_rewards by metis
next
  case (RtAdmin b)
  then have "same_data s s' \<or> (\<exists>salt index. s' = registry_remove_pool salt index s)"
    using assms by (intro admin_exec_cases) simp
  then show ?thesis by (auto simp: same_data_def registry_remove_pool_def put_pools_def reward_data_def)
qed

end
