(* ===== verification/Router_Budget.thy ===== *)
theory Router_Budget
  imports Router_Runs "HOL-Library.Countable"
begin

text \<open>
  The budget of the global rewards: after a configuration, the rates that the router hands out to the
  pools, over all sets of tokens and in any order of calls, never add up to more than the global rate.
\<close>

section \<open>Quotas\<close>

definition cap :: "nat \<Rightarrow> reward_info \<Rightarrow> nat" where
  \<comment> \<open>what the votes give a set of tokens\<close>
  "cap rate info = rate * ri_voting_share info div VOTE_DENOMINATOR"

definition quota :: "nat \<Rightarrow> reward_info \<Rightarrow> nat \<Rightarrow> nat" where
  "quota rate info liq = rate * ri_voting_share info * liq div ri_total_liquidity info div VOTE_DENOMINATOR"

lemma pool_share_quota:
  assumes "pool_share rate info liq = Inr n"
  shows "n = quota rate info liq"
  using assms by (auto simp: pool_share_def quota_def res_simps split: if_splits)

lemma div_superadditive: "(x :: nat) div m + y div m \<le> (x + y) div m"
  by (simp add: div_add1_eq [of x y m])

lemma sum_div_le: "(\<Sum>x \<leftarrow> xs. f x div (m :: nat)) \<le> (\<Sum>x \<leftarrow> xs. f x) div m"
proof (induction xs)
  case (Cons x xs)
  then show ?case using div_superadditive [of "f x" m "\<Sum>x \<leftarrow> xs. f x"] by simp
qed simp

lemma quotas_below_cap:
  assumes "(\<Sum>x \<leftarrow> xs. f x) \<le> ri_total_liquidity info"
  shows "(\<Sum>x \<leftarrow> xs. quota rate info (f x)) \<le> cap rate info"
proof (cases "ri_total_liquidity info = 0")
  case True
  then show ?thesis by (induction xs) (simp_all add: quota_def)
next
  case False
  define a t where "a = rate * ri_voting_share info" and "t = ri_total_liquidity info"
  have "(\<Sum>x \<leftarrow> xs. quota rate info (f x)) = (\<Sum>x \<leftarrow> xs. (a * f x) div (t * VOTE_DENOMINATOR))"
    by (simp add: quota_def a_def t_def div_mult2_eq)
  also have "\<dots> \<le> (\<Sum>x \<leftarrow> xs. a * f x) div (t * VOTE_DENOMINATOR)" by (rule sum_div_le)
  also have "\<dots> = a * (\<Sum>x \<leftarrow> xs. f x) div (t * VOTE_DENOMINATOR)" by (simp add: sum_list_const_mult)
  also have "\<dots> \<le> a * t div (t * VOTE_DENOMINATOR)" using assms by (intro div_le_mono mult_le_mono2) (simp add: t_def)
  also have "\<dots> = cap rate info" using False by (simp add: cap_def a_def t_def)
  finally show ?thesis .
qed

lemma caps_below_rate:
  assumes "(\<Sum>i \<leftarrow> is. ri_voting_share i) \<le> VOTE_DENOMINATOR"
  shows "(\<Sum>i \<leftarrow> is. cap rate i) \<le> rate"
proof -
  have "(\<Sum>i \<leftarrow> is. cap rate i) \<le> (\<Sum>i \<leftarrow> is. rate * ri_voting_share i) div VOTE_DENOMINATOR"
    unfolding cap_def by (rule sum_div_le)
  also have "\<dots> = rate * (\<Sum>i \<leftarrow> is. ri_voting_share i) div VOTE_DENOMINATOR" by (simp add: sum_list_const_mult)
  also have "\<dots> \<le> rate * VOTE_DENOMINATOR div VOTE_DENOMINATOR" using assms by (intro div_le_mono mult_le_mono2)
  also have "\<dots> = rate" by (simp add: VOTE_DENOMINATOR_def)
  finally show ?thesis .
qed

section \<open>Runs\<close>

definition forget :: "bool \<Rightarrow> bool \<Rightarrow> (nat \<Rightarrow> bool) \<Rightarrow> router \<Rightarrow> router" where
  \<comment> \<open>temporary entries end with their time to live\<close>
  "forget config tokens detailed s = s\<lparr>
     rt_rewards_config := (if config then None else rt_rewards_config s),
     rt_reward_tokens := (if tokens then None else rt_reward_tokens s),
     rt_detailed := (\<lambda>salt. if detailed salt then None else rt_detailed s salt)\<rparr>"

text \<open>
  A run with the rate of the last configuration and, since then, every rate that was handed out, with
  the tokens of its pool.
\<close>

inductive budget_run ::
  "'w router_calls \<Rightarrow> router \<times> 'w \<Rightarrow> nat \<Rightarrow> (address list \<times> nat) list \<Rightarrow> bool"
  for x :: "'w router_calls" where
  start: "rt_rewards_config s = None \<Longrightarrow> rt_reward_tokens s = None \<Longrightarrow> budget_run x (s, w) 0 []"
| config: "budget_run x (s, w) rate given \<Longrightarrow>
    config_global_rewards e u rate' exp_at votes s = Inr s' \<Longrightarrow> budget_run x (s', w) rate' []"
| fill: "budget_run x (s, w) rate given \<Longrightarrow> fill_liquidity x e u tokens (s, w) = Inr s' \<Longrightarrow>
    budget_run x (s', w) rate given"
| pool: "budget_run x (s, w) rate given \<Longrightarrow>
    config_pool_rewards x e u tokens index (s, w) = Inr (n, s', w') \<Longrightarrow>
    budget_run x (s', w') rate ((tokens, n) # given)"
| call: "budget_run x (s, w) rate given \<Longrightarrow> router_exec x e s w a = Inr (s', w') \<Longrightarrow>
    budget_run x (s', w') rate given"
| expire: "budget_run x (s, w) rate given \<Longrightarrow> budget_run x (forget c t d s, w) rate given"
| world: "budget_run x (s, w) rate given \<Longrightarrow> budget_run x (s, w') rate given"

section \<open>The invariant\<close>

definition spent :: "(address list \<times> nat) list \<Rightarrow> address list \<Rightarrow> nat" where
  "spent given tokens = (\<Sum>(ts, n) \<leftarrow> given. if ts = tokens then n else 0)"

definition remaining :: "nat \<Rightarrow> reward_info \<Rightarrow> pools_detail \<Rightarrow> nat" where
  "remaining rate info d = (\<Sum>(k, liq, configured) \<leftarrow> d. if configured then 0 else quota rate info liq)"

definition set_ok ::
  "nat \<Rightarrow> (address list \<times> nat) list \<Rightarrow> address list \<Rightarrow> reward_info \<Rightarrow> pools_detail option \<Rightarrow> bool" where
  "set_ok rate given tokens info detail \<longleftrightarrow> spent given tokens \<le> cap rate info \<and>
     (\<not> ri_processed info \<longrightarrow> spent given tokens = 0) \<and>
     (ri_processed info \<longrightarrow> (\<forall>d. detail = Some d \<longrightarrow>
        map_sorted d \<and> spent given tokens + remaining rate info d \<le> cap rate info))"

definition budget_ok :: "'w router_calls \<Rightarrow> router \<Rightarrow> nat \<Rightarrow> (address list \<times> nat) list \<Rightarrow> bool" where
  "budget_ok x s rate given \<longleftrightarrow>
     sum_list (map snd given) \<le> rate \<and>
     (\<forall>c. rt_rewards_config s = Some c \<longrightarrow> gr_tps c = rate) \<and>
     (\<forall>m. rt_reward_tokens s = Some m \<longrightarrow>
        map_sorted m \<and> (\<Sum>p \<leftarrow> m. ri_voting_share (snd p)) \<le> VOTE_DENOMINATOR \<and>
        (\<forall>(ts, n) \<in> set given. n \<noteq> 0 \<longrightarrow> ts \<in> fst ` set m) \<and>
        (\<forall>(ts, info) \<in> set m. set_ok rate given ts info (rt_detailed s (get_tokens_salt x ts))))"

lemma spent_simps [simp]:
  "spent [] tokens = 0"
  "spent ((ts, n) # given) tokens = (if ts = tokens then n else 0) + spent given tokens"
  by (simp_all add: spent_def)

lemma sum_spent:
  assumes "distinct tss" and "\<forall>(ts, n) \<in> set given. n \<noteq> 0 \<longrightarrow> ts \<in> set tss"
  shows "sum_list (map snd given) = (\<Sum>ts \<leftarrow> tss. spent given ts)"
  using assms(2)
proof (induction given)
  case (Cons g given)
  obtain ts n where g: "g = (ts, n)" by fastforce
  have one: "(\<Sum>u \<leftarrow> tss. if ts = u then n else 0) = n"
  proof (cases "n = 0")
    case False
    with Cons.prems g have "ts \<in> set tss" by auto
    then show ?thesis using assms(1) by (induction tss) (auto intro!: sum_list_0)
  qed (simp cong: if_cong)
  from Cons show ?case by (simp add: g sum_list_addf one)
qed simp

lemma total_within:
  assumes "map_sorted m" and "(\<Sum>p \<leftarrow> m. ri_voting_share (snd p)) \<le> VOTE_DENOMINATOR"
    and "\<forall>(ts, n) \<in> set given. n \<noteq> 0 \<longrightarrow> ts \<in> fst ` set m"
    and "\<forall>(ts, info) \<in> set m. spent given ts \<le> cap rate info"
  shows "sum_list (map snd given) \<le> rate"
proof -
  have "sum_list (map snd given) = (\<Sum>ts \<leftarrow> map fst m. spent given ts)"
    using assms(3) by (intro sum_spent map_sorted_distinct assms(1)) auto
  also have "\<dots> = (\<Sum>p \<leftarrow> m. spent given (fst p))" by (simp add: comp_def)
  also have "\<dots> \<le> (\<Sum>p \<leftarrow> m. cap rate (snd p))" using assms(4) by (intro sum_list_mono) auto
  also have "\<dots> = (\<Sum>i \<leftarrow> map snd m. cap rate i)" by (simp add: comp_def)
  also have "\<dots> \<le> rate" using assms(2) by (intro caps_below_rate) (simp add: comp_def)
  finally show ?thesis .
qed

section \<open>Every step keeps it\<close>

lemma map_sorted_member: "map_sorted m \<Longrightarrow> (a, b) \<in> set m \<longleftrightarrow> map_of m a = Some b"
  using map_sorted_distinct [of m] by (auto dest: map_of_SomeD)

lemma map_set_member:
  assumes "map_sorted m"
  shows "(a, b) \<in> set (map_set k v m) \<longleftrightarrow> (if a = k then b = v else (a, b) \<in> set m)"
  using assms by (auto simp: map_sorted_member [OF map_set_sorted [OF assms]] map_sorted_member [OF assms])

lemma config_tokens:
  assumes "fold_res (\<lambda>(tokens, voting_share) m.
       andthen (assert_tokens_sorted tokens) (\<lambda>_. Inr (map_set tokens (unfilled voting_share) m))) votes m0 = Inr m"
    and "map_sorted m0 \<and> (\<forall>p \<in> set m0. \<not> ri_processed (snd p))"
  shows "map_sorted m \<and> (\<forall>p \<in> set m. \<not> ri_processed (snd p))"
  using assms
proof (rule fold_res_invariant)
  fix p m m'
  assume ok: "map_sorted m \<and> (\<forall>p \<in> set m. \<not> ri_processed (snd p))"
    and "(case p of (tokens, voting_share) \<Rightarrow> \<lambda>m.
       andthen (assert_tokens_sorted tokens) (\<lambda>_. Inr (map_set tokens (unfilled voting_share) m))) m = Inr m'"
  then have "m' = map_set (fst p) (unfilled (snd p)) m" by (auto simp: res_simps split: prod.splits)
  then show "map_sorted m' \<and> (\<forall>p \<in> set m'. \<not> ri_processed (snd p))"
    using ok by (auto simp: map_set_member unfilled_def split: if_splits)
qed

lemma config_shares:
  "fold_res (\<lambda>(_, info) n. u32_add n (ri_voting_share info)) m n0 = Inr n \<Longrightarrow>
    n = n0 + (\<Sum>p \<leftarrow> m. ri_voting_share (snd p))"
proof (induction m arbitrary: n0)
  case (Cons p m)
  obtain ts i where p: "p = (ts, i)" by fastforce
  with Cons.prems have "fold_res (\<lambda>(_, info) n. u32_add n (ri_voting_share info)) m (n0 + ri_voting_share i) = Inr n"
    by (auto simp: res_simps)
  from Cons.IH [OF this] show ?case by (simp add: p)
qed simp

lemma budget_config:
  assumes "config_global_rewards e u rate exp_at votes s = Inr s'"
  shows "budget_ok x s' rate []"
proof -
  from assms obtain m n where m: "fold_res (\<lambda>(tokens, voting_share) m.
       andthen (assert_tokens_sorted tokens) (\<lambda>_. Inr (map_set tokens (unfilled voting_share) m))) votes [] = Inr m"
    and n: "fold_res (\<lambda>(_, info) n. u32_add n (ri_voting_share info)) m 0 = Inr n" "n \<le> VOTE_DENOMINATOR"
    and s': "rt_rewards_config s' = Some \<lparr>gr_tps = rate, gr_expired_at = exp_at\<rparr>" "rt_reward_tokens s' = Some m"
    by (auto simp: config_global_rewards_def res_simps set_rewards_config_def set_reward_tokens_def not_less)
  show ?thesis
    using config_tokens [OF m] config_shares [OF n(1)] n(2) s' by (auto simp: budget_ok_def set_ok_def)
qed

lemma zip_liquidity_sum:
  assumes "zip_liquidity hs vs m r = Inr (m', r')" and "map_sorted m" and "(\<Sum>p \<leftarrow> m. snd p) \<le> r"
  shows "map_sorted m' \<and> (\<Sum>p \<leftarrow> m'. snd p) \<le> r'"
  using assms
proof (induction hs vs m r rule: zip_liquidity.induct)
  case (3 h hs v vs m r)
  have "(\<Sum>p \<leftarrow> map_set h v m. snd p) \<le> r + v"
    using map_sum_set [OF "3.prems"(2), where f = snd and k = h and v = v] "3.prems"(3) by simp
  with "3" show ?case by (auto simp: res_simps)
qed auto

lemma fill_InrE:
  assumes "fill_liquidity x e u tokens (s, w) = Inr s'"
  obtains m data pools total_liquidity where "rt_reward_tokens s = Some m" and "map_of m tokens = Some data"
    and "\<not> ri_processed data" and "map_sorted pools" and "(\<Sum>p \<leftarrow> pools. snd p) \<le> total_liquidity"
    and "s' = set_reward_tokens_detailed (get_tokens_salt x tokens) (map (\<lambda>(key, v). (key, v, False)) pools)
      (set_reward_tokens (map_set tokens (data\<lparr>ri_processed := True, ri_total_liquidity := total_liquidity\<rparr>) m) s)"
  using assms
  by (auto simp: fill_liquidity_def Let_def res_simps get_reward_tokens_def pools_total_liquidity_def
      dest!: zip_liquidity_sum)

lemma map_set_share:
  assumes "map_sorted m" and "map_of m k = Some d" and "ri_voting_share v = ri_voting_share d"
  shows "(\<Sum>p \<leftarrow> map_set k v m. ri_voting_share (snd p)) = (\<Sum>p \<leftarrow> m. ri_voting_share (snd p))"
  using map_sum_set [OF assms(1), where f = "\<lambda>p. ri_voting_share (snd p)" and k = k and v = v] assms(2,3) by simp

lemma budget_fill:
  assumes inj: "inj (get_tokens_salt x)" and run: "fill_liquidity x e u tokens (s, w) = Inr s'"
    and ok: "budget_ok x s rate given"
  shows "budget_ok x s' rate given"
proof -
  from fill_InrE [OF run] obtain m data pools total_liquidity where m: "rt_reward_tokens s = Some m"
    and data: "map_of m tokens = Some data" "\<not> ri_processed data"
    and pools: "map_sorted pools" "(\<Sum>p \<leftarrow> pools. snd p) \<le> total_liquidity"
    and s': "s' = set_reward_tokens_detailed (get_tokens_salt x tokens) (map (\<lambda>(key, v). (key, v, False)) pools)
      (set_reward_tokens (map_set tokens (data\<lparr>ri_processed := True, ri_total_liquidity := total_liquidity\<rparr>) m) s)"
    by metis
  let ?info = "data\<lparr>ri_processed := True, ri_total_liquidity := total_liquidity\<rparr>"
  let ?d = "map (\<lambda>(key, v). (key, v, False)) pools"
  from ok m have sorted: "map_sorted m" and share: "(\<Sum>p \<leftarrow> m. ri_voting_share (snd p)) \<le> VOTE_DENOMINATOR"
    and keys: "\<forall>(ts, n) \<in> set given. n \<noteq> 0 \<longrightarrow> ts \<in> fst ` set m"
    and sets: "\<forall>(ts, info) \<in> set m. set_ok rate given ts info (rt_detailed s (get_tokens_salt x ts))"
    by (auto simp: budget_ok_def)
  have none: "spent given tokens = 0"
    using sets data map_of_SomeD [OF data(1)] by (auto simp: set_ok_def)
  have "remaining rate ?info ?d = (\<Sum>p \<leftarrow> pools. quota rate ?info (snd p))"
    by (simp add: remaining_def comp_def split_beta)
  also have "\<dots> \<le> cap rate ?info" using pools(2) by (intro quotas_below_cap) simp
  finally have "set_ok rate given tokens ?info (Some ?d)"
    using none pools(1) by (simp add: set_ok_def comp_def split_beta)
  moreover have "get_tokens_salt x ts \<noteq> get_tokens_salt x tokens" if "ts \<noteq> tokens" for ts
    using inj that by (simp add: inj_eq)
  ultimately have "set_ok rate given ts info (rt_detailed s' (get_tokens_salt x ts))"
    if "(ts, info) \<in> set (map_set tokens ?info m)" for ts info
    using that sets by (auto simp: map_set_member [OF sorted] s' set_reward_tokens_detailed_def
        set_reward_tokens_def split: if_splits)
  then show ?thesis
    using ok m sorted share keys map_set_share [OF sorted data(1), of ?info]
    by (auto simp: budget_ok_def s' set_reward_tokens_detailed_def set_reward_tokens_def map_set_keys)
qed

lemma pool_InrE:
  assumes "config_pool_rewards x e u tokens index (s, w) = Inr (n, s', w')"
  obtains m d where "rt_reward_tokens s = Some m" and "rt_detailed s (get_tokens_salt x tokens) = Some d"
    and "n = 0 \<longrightarrow> s' = s"
    and "n \<noteq> 0 \<longrightarrow> (\<exists>info liq. map_of m tokens = Some info \<and> ri_processed info \<and> map_of d index = Some (liq, False) \<and>
      n = quota (gr_tps (get_rewards_config s)) info liq \<and>
      s' = set_reward_tokens_detailed (get_tokens_salt x tokens) (map_set index (liq, True) d) s)"
proof -
  from assms obtain m d liq where m: "rt_reward_tokens s = Some m"
    and d: "rt_detailed s (get_tokens_salt x tokens) = Some d"
    and liq: "pool_detail (map_of m tokens) d index = (liq, False)"
    and pr: "ri_processed (info_or_inactive (map_of m tokens))"
    and q: "pool_share (gr_tps (get_rewards_config s)) (info_or_inactive (map_of m tokens)) liq = Inr n"
    and s': "s' = (if 0 < n then set_reward_tokens_detailed (get_tokens_salt x tokens) (map_set index (liq, True) d) s else s)"
    unfolding config_pool_rewards_def Let_def split_beta get_reward_tokens_def get_reward_tokens_detailed_def
    by (clarsimp simp: andthen_eq_Inr if_Inl_eq_Inr from_option_eq_Inr prod_eq_iff split del: if_split cong: if_cong)
  show ?thesis
  proof (cases "map_of m tokens = None \<or> map_of d index = None")
    case True
    then have "liq = 0" using liq by (auto simp: pool_detail_def split: if_splits)
    then have "n = 0" using q by (simp add: pool_share_def)
    then show ?thesis using m d s' by (intro that) auto
  next
    case False
    then obtain info v where "map_of m tokens = Some info" "map_of d index = Some v" by auto
    then show ?thesis
      using m d liq pr s' pool_share_quota [OF q] by (intro that) (auto simp: pool_detail_def info_or_inactive_def)
  qed
qed

lemma budget_pool:
  assumes inj: "inj (get_tokens_salt x)" and run: "config_pool_rewards x e u tokens index (s, w) = Inr (n, s', w')"
    and ok: "budget_ok x s rate given"
  shows "budget_ok x s' rate ((tokens, n) # given)"
proof -
  from pool_InrE [OF run] obtain m d where m: "rt_reward_tokens s = Some m"
    and d: "rt_detailed s (get_tokens_salt x tokens) = Some d" and zero: "n = 0 \<longrightarrow> s' = s"
    and pos: "n \<noteq> 0 \<longrightarrow> (\<exists>info liq. map_of m tokens = Some info \<and> ri_processed info \<and> map_of d index = Some (liq, False) \<and>
      n = quota (gr_tps (get_rewards_config s)) info liq \<and>
      s' = set_reward_tokens_detailed (get_tokens_salt x tokens) (map_set index (liq, True) d) s)" .
  from ok m have sorted: "map_sorted m" and share: "(\<Sum>p \<leftarrow> m. ri_voting_share (snd p)) \<le> VOTE_DENOMINATOR"
    and keys: "\<forall>(ts, n) \<in> set given. n \<noteq> 0 \<longrightarrow> ts \<in> fst ` set m"
    and sets: "\<forall>(ts, info) \<in> set m. set_ok rate given ts info (rt_detailed s (get_tokens_salt x ts))"
    by (auto simp: budget_ok_def)
  show ?thesis
  proof (cases "n = 0")
    case True
    with zero ok show ?thesis by (simp add: budget_ok_def set_ok_def)
  next
    case False
    with pos obtain info liq where info: "map_of m tokens = Some info" "ri_processed info"
      and liq: "map_of d index = Some (liq, False)" and n: "n = quota (gr_tps (get_rewards_config s)) info liq"
      and s': "s' = set_reward_tokens_detailed (get_tokens_salt x tokens) (map_set index (liq, True) d) s" by blast
    have rate: "n = quota rate info liq"
      using n False ok by (auto simp: get_rewards_config_def budget_ok_def quota_def split: option.splits)
    from sets map_of_SomeD [OF info(1)] have "set_ok rate given tokens info (Some d)" using d by auto
    then have ds: "map_sorted d" and room: "spent given tokens + remaining rate info d \<le> cap rate info"
      using info(2) by (auto simp: set_ok_def)
    have "remaining rate info (map_set index (liq, True) d) + n = remaining rate info d"
      using map_sum_set [OF ds, where f = "\<lambda>(k, l, c). if c then 0 else quota rate info l" and k = index
          and v = "(liq, True)"] liq by (simp add: remaining_def rate)
    then have here: "set_ok rate ((tokens, n) # given) tokens info (Some (map_set index (liq, True) d))"
      using room info(2) ds by (simp add: set_ok_def)
    have apart: "get_tokens_salt x ts \<noteq> get_tokens_salt x tokens" if "ts \<noteq> tokens" for ts
      using inj that by (simp add: inj_eq)
    have one: "set_ok rate ((tokens, n) # given) ts i (rt_detailed s' (get_tokens_salt x ts))" if "(ts, i) \<in> set m" for ts i
    proof (cases "ts = tokens")
      case True
      then have "i = info" using that info(1) map_sorted_member [OF sorted] by simp
      with here True show ?thesis by (simp add: s' set_reward_tokens_detailed_def)
    next
      case False
      then show ?thesis using sets that apart by (auto simp: s' set_reward_tokens_detailed_def set_ok_def)
    qed
    have all: "\<forall>(ts, i) \<in> set m. set_ok rate ((tokens, n) # given) ts i (rt_detailed s' (get_tokens_salt x ts))"
      using one by blast
    have keys': "\<forall>(ts, k) \<in> set ((tokens, n) # given). k \<noteq> 0 \<longrightarrow> ts \<in> fst ` set m"
      using keys map_of_SomeD [OF info(1)] by force
    have "sum_list (map snd ((tokens, n) # given)) \<le> rate"
      using all by (intro total_within [OF sorted share keys']) (auto simp: set_ok_def)
    moreover have "rt_reward_tokens s' = Some m" "rt_rewards_config s' = rt_rewards_config s"
      by (simp_all add: s' set_reward_tokens_detailed_def m)
    ultimately show ?thesis using ok sorted share keys' all unfolding budget_ok_def by simp
  qed
qed

lemma budget_same: "budget_ok x s rate given \<Longrightarrow> reward_data s' = reward_data s \<Longrightarrow> budget_ok x s' rate given"
  by (simp add: budget_ok_def reward_data_def)

lemma set_ok_forget: "set_ok rate given ts info d \<Longrightarrow> set_ok rate given ts info (if b then None else d)"
  by (simp add: set_ok_def)

lemma budget_forget: "budget_ok x s rate given \<Longrightarrow> budget_ok x (forget c t d s) rate given"
  unfolding budget_ok_def forget_def by (auto intro!: set_ok_forget simp del: if_split_eq1 split del: if_split) (auto split: if_splits)

lemma budget_kept:
  assumes "budget_run x p rate given" and "inj (get_tokens_salt x)"
  shows "budget_ok x (fst p) rate given"
  using assms(1)
proof (induction rule: budget_run.induct)
  case start
  then show ?case by (simp add: budget_ok_def)
next
  case config
  then show ?case using budget_config by simp
next
  case fill
  then show ?case using budget_fill [OF assms(2)] by simp
next
  case pool
  then show ?case using budget_pool [OF assms(2)] by simp
next
  case call
  then show ?case using budget_same router_exec_rewards by (metis fst_conv)
next
  case expire
  then show ?case using budget_forget by simp
next
  case world
  then show ?case by simp
qed

section \<open>The rates handed out stay in the budget\<close>

text \<open>
  Claim C5: after the global rewards are configured, the rates that the
  router hands out to pools, over all sets of tokens and all pools and in any order and repetition
  of its calls, add up to at most the configured rate: the votes, the liquidity shares, the roundings
  and the marks on configured pools never let a part be spent twice. The hash of a set of tokens is
  assumed to have no collisions.
\<close>

theorem global_rewards_stay_in_budget:
  assumes "budget_run x (s, w) rate given" and "inj (get_tokens_salt x)"
  shows "sum_list (map snd given) \<le> rate"
  using budget_kept [OF assms] by (simp add: budget_ok_def)

definition sample_salt :: "encoded list \<Rightarrow> nat" where
  "sample_salt es = list_encode (map (\<lambda>e. case e of E_Address a \<Rightarrow> a | E_U32 n \<Rightarrow> n | E_U128 n \<Rightarrow> n | E_Hash n \<Rightarrow> n
     | E_Symbol _ \<Rightarrow> 0 | E_I32 _ \<Rightarrow> 0) es)"

definition sample_router_calls :: "nat router_calls" where
  \<comment> \<open>every pool has a liquidity of 400; the world adds up the rates that pools were given\<close>
  "sample_router_calls = \<lparr>
     rx_tokens = \<lparr>tk_transfer = (\<lambda>_ _ _ _ w. Inr w), tk_balance = (\<lambda>_ _ _. 0)\<rparr>,
     rx_transfer_from = (\<lambda>_ _ _ _ _ w. Inr w), rx_alive = (\<lambda>_ _. Inr ()), rx_sha256 = sample_salt,
     rx_deploy = (\<lambda>salt _ w. Inr (salt, w)), rx_deploy_gauge = (\<lambda>salt _ _ _ w. Inr (salt, w)),
     rx_init_standard = (\<lambda>_ _ _ _ _ _ _ _ _ _ w. Inr w), rx_init_stable = (\<lambda>_ _ _ _ _ _ _ _ _ _ _ w. Inr w),
     rx_init_concentrated = (\<lambda>_ _ _ _ _ _ _ _ _ _ w. Inr w),
     rx_liquidity = (\<lambda>_ ps _. Inr (map (\<lambda>_. 400) ps)),
     rx_config_get = (\<lambda>_ _ _. Inr None), rx_config_set = (\<lambda>_ _ _ _ _ w. Inr w),
     rx_deposit = (\<lambda>_ _ _ ds _ w. Inr ((ds, 0), w)), rx_swap = (\<lambda>_ _ _ _ _ n _ w. Inr (n, w)),
     rx_swap_strict = (\<lambda>_ _ _ _ _ n _ w. Inr (n, w)), rx_estimate = (\<lambda>_ _ _ _ n w. Inr (n, w)),
     rx_estimate_strict = (\<lambda>_ _ _ _ n w. Inr (n, w)), rx_withdraw = (\<lambda>_ _ _ _ ms w. Inr (ms, w)),
     rx_set_rewards = (\<lambda>_ _ _ _ n w. Inr (w + n)), rx_configured = (\<lambda>_ _ w. Inr (0, w)),
     rx_claimed = (\<lambda>_ _ w. Inr (0, w)), rx_reserves = (\<lambda>_ _ w. Inr ([], w)),
     rx_protocol_fees = (\<lambda>_ _. Inr []), rx_claim = (\<lambda>_ _ _ w. Inr (0, w)), rx_gauges = (\<lambda>_ _. Inr []),
     rx_gauge_add = (\<lambda>_ _ _ _ w. Inr w), rx_gauge_schedule = (\<lambda>_ _ _ _ _ _ _ _ w. Inr w)\<rparr>"

lemma sample_salts: "inj (get_tokens_salt sample_router_calls)"
  by (rule injI, simp add: get_tokens_salt_def sample_router_calls_def sample_salt_def comp_def)
    (metis list_encode_inverse)

lemma sample_calls_simps:
  "rx_liquidity sample_router_calls c ps w = Inr (map (\<lambda>_. 400) ps)"
  "rx_set_rewards sample_router_calls e p r t n w = Inr (w + n)"
  by (simp_all add: sample_router_calls_def)

definition sample_router :: router where
  \<comment> \<open>two pools for the tokens 11 and 12, with the admin 7\<close>
  "sample_router = (new_router 1)\<lparr>rt_managed := sample_managed, rt_calculator := Some 70,
     rt_pools := [get_tokens_salt sample_router_calls [11, 12] \<mapsto>
       [(5, \<lparr>pd_kind = ConstantProduct, pd_address = 9\<rparr>), (6, \<lparr>pd_kind = StableSwap, pd_address = 10\<rparr>)]]\<rparr>"

lemma sample_role: "router_role anyone 7 require_rewards_admin_or_owner s = Inr ()" if "rt_managed s = sample_managed"
  using that
  by (simp add: router_role_def require_auth_def anyone_def require_rewards_admin_or_owner_def sample_managed_def
      address_has_role_def get_role_safe_def or_else_def)

definition voted_router :: router where
  "voted_router = sample_router\<lparr>rt_rewards_config := Some \<lparr>gr_tps = 1000, gr_expired_at = 99\<rparr>,
     rt_reward_tokens := Some [([11, 12], unfilled 5000000)]\<rparr>"

definition filled_router :: router where
  "filled_router = set_reward_tokens_detailed (get_tokens_salt sample_router_calls [11, 12]) [(5, 400, False), (6, 400, False)]
     (set_reward_tokens [([11, 12], (unfilled 5000000)\<lparr>ri_processed := True, ri_total_liquidity := 800\<rparr>)] voted_router)"

lemma sample_vote:
  "config_global_rewards anyone 7 1000 99 [([11, 12], 5000000)] sample_router = Inr voted_router"
  using sample_role [of sample_router]
  by (simp add: config_global_rewards_def sample_router_def unfilled_def u_defs max_defs VOTE_DENOMINATOR_def
      set_rewards_config_def set_reward_tokens_def voted_router_def)

lemma sample_fill:
  "fill_liquidity sample_router_calls anyone 7 [11, 12] (voted_router, w) = Inr filled_router"
  using sample_role [of voted_router]
  by (simp add: fill_liquidity_def voted_router_def sample_router_def pools_total_liquidity_def get_pools_plain_def
      get_pools_def sample_calls_simps stored_def u_defs max_defs get_reward_tokens_def unfilled_def filled_router_def)

lemma sample_config:
  "\<exists>s. config_pool_rewards sample_router_calls anyone 7 [11, 12] 5 (filled_router, w) = Inr (250, s, w + 250)"
  using sample_role [of filled_router]
  by (simp add: config_pool_rewards_def filled_router_def voted_router_def sample_router_def get_pool_def get_pools_def
      get_reward_tokens_detailed_def set_reward_tokens_detailed_def get_reward_tokens_def set_reward_tokens_def
      pool_detail_def info_or_inactive_def pool_share_def get_rewards_config_def unfilled_def VOTE_DENOMINATOR_def
      u_defs max_defs sample_calls_simps Let_def)

theorem global_rewards_stay_in_budget_witness:
  "config_global_rewards anyone 7 1000 99 [([11, 12], 5000000)] sample_router = Inr voted_router \<and>
    sum_list (map snd [([11, 12 :: nat], 250)]) \<le> (1000 :: nat)"
proof -
  have start: "budget_run sample_router_calls (sample_router, 0) 0 []"
    by (rule budget_run.start) (simp_all add: sample_router_def new_router_def)
  from budget_run.config [OF start sample_vote] have "budget_run sample_router_calls (voted_router, 0) 1000 []" .
  from budget_run.fill [OF this sample_fill] have filled: "budget_run sample_router_calls (filled_router, 0) 1000 []" .
  obtain s where "config_pool_rewards sample_router_calls anyone 7 [11, 12] 5 (filled_router, 0) = Inr (250, s, 0 + 250)"
    using sample_config by blast
  from budget_run.pool [OF filled this] have "budget_run sample_router_calls (s, 0 + 250) 1000 [([11, 12], 250)]" .
  from global_rewards_stay_in_budget [OF this sample_salts] have "sum_list (map snd [([11, 12 :: nat], 250)]) \<le> (1000 :: nat)" .
  with sample_vote show ?thesis ..
qed

end
