(* ===== verification/Router_Registry.thy ===== *)
theory Router_Registry
  imports Router_Budget
begin

text \<open>
  The registry of pools: its maps keep the host's order, no set of tokens has more pools than the
  limits allow, and the pools of every set are reachable from the list of sets.
\<close>

section \<open>Well-formedness\<close>

definition pool_map_ok :: "pool_map \<Rightarrow> bool" where
  "pool_map_ok m \<longleftrightarrow> map_sorted m \<and> length m \<le> MAX_POOLS_FOR_PAIR \<and>
     count_kind StableSwap m \<le> STABLESWAP_MAX_POOLS \<and> count_kind Concentrated m \<le> CONCENTRATED_MAX_POOLS"

definition listed :: "'w router_calls \<Rightarrow> router \<Rightarrow> nat \<Rightarrow> bool" where
  "listed x s salt \<longleftrightarrow> (\<exists>i < rt_tokens_set_count s. \<exists>ts. rt_tokens_set s i = Some ts \<and> get_tokens_salt x ts = salt)"

definition registry_ok :: "'w router_calls \<Rightarrow> router \<Rightarrow> bool" where
  "registry_ok x s \<longleftrightarrow> (\<forall>salt. pool_map_ok (get_pools salt s) \<and> (get_pools salt s \<noteq> [] \<longrightarrow> listed x s salt)) \<and>
     (\<forall>i < rt_tokens_set_count s. \<exists>ts. rt_tokens_set s i = Some ts \<and> assert_tokens_sorted ts = Inr ())"

lemma registry_ok_cong: "registry_data s' = registry_data s \<Longrightarrow> registry_ok x s' = registry_ok x s"
  by (simp add: registry_ok_def listed_def registry_data_def get_pools_def)

lemma get_pools_put [simp]: "get_pools salt' (put_pools salt m s) = (if salt' = salt then m else get_pools salt' s)"
  by (simp add: get_pools_def put_pools_def)

lemma put_pools_sets [simp]:
  "rt_tokens_set (put_pools salt m s) = rt_tokens_set s"
  "rt_tokens_set_count (put_pools salt m s) = rt_tokens_set_count s"
  by (simp_all add: put_pools_def)

lemma listed_put [simp]: "listed x (put_pools salt m s) = listed x s"
  by (simp add: listed_def fun_eq_iff)

section \<open>Adding a pool\<close>

lemma count_kind_set:
  assumes "map_sorted m"
  shows "count_kind k (map_set i d m) \<le> count_kind k m + (if pd_kind d = k then 1 else 0)"
proof -
  have c: "count_kind k m = (\<Sum>p \<leftarrow> m. if pd_kind (snd p) = k then 1 else 0)" for m
    by (induction m) (simp_all add: count_kind_def)
  show ?thesis
    using map_sum_set [OF assms, where f = "\<lambda>p. if pd_kind (snd p) = k then 1 else 0" and k = i and v = d]
    unfolding c by simp
qed

lemma add_pool_ok:
  assumes "add_pool salt i k p s = Inr s'" and "pool_map_ok (get_pools salt s)"
  shows "\<exists>m. s' = put_pools salt m s \<and> pool_map_ok m \<and> m \<noteq> []"
proof -
  let ?m = "map_set i \<lparr>pd_kind = k, pd_address = p\<rparr> (get_pools salt s)"
  have ok: "map_sorted (get_pools salt s)" "count_kind StableSwap (get_pools salt s) \<le> STABLESWAP_MAX_POOLS"
    "count_kind Concentrated (get_pools salt s) \<le> CONCENTRATED_MAX_POOLS"
    using assms(2) by (simp_all add: pool_map_ok_def)
  from assms(1) have s': "s' = put_pools salt ?m s" and len: "length ?m \<le> MAX_POOLS_FOR_PAIR"
    and lim: "k = StableSwap \<longrightarrow> count_kind StableSwap ?m \<le> STABLESWAP_MAX_POOLS"
      "k = Concentrated \<longrightarrow> count_kind Concentrated ?m \<le> CONCENTRATED_MAX_POOLS"
    by (auto simp: add_pool_def Let_def split: if_splits)
  have "count_kind StableSwap ?m \<le> STABLESWAP_MAX_POOLS" "count_kind Concentrated ?m \<le> CONCENTRATED_MAX_POOLS"
    using count_kind_set [OF ok(1), of StableSwap i "\<lparr>pd_kind = k, pd_address = p\<rparr>"]
      count_kind_set [OF ok(1), of Concentrated i "\<lparr>pd_kind = k, pd_address = p\<rparr>"] ok(2,3) lim by (auto split: if_splits)
  then have "pool_map_ok ?m" using len ok(1) by (simp add: pool_map_ok_def)
  moreover have "?m \<noteq> []" using map_set_keys [of i _ "get_pools salt s"] by (metis empty_iff image_empty insertI1 list.set(1))
  ultimately show ?thesis using s' by blast
qed

lemma add_tokens_set_ok:
  assumes run: "add_tokens_set x tokens s = Inr s'" and t: "assert_tokens_sorted tokens = Inr ()" and ok: "registry_ok x s"
  shows "registry_ok x s' \<and> rt_pools s' = rt_pools s \<and> listed x s' (get_tokens_salt x tokens)"
proof (cases "get_pools (get_tokens_salt x tokens) s = []")
  case False
  with run ok show ?thesis by (auto simp: add_tokens_set_def registry_ok_def)
next
  case True
  with run have s': "s' = s\<lparr>rt_tokens_set := (rt_tokens_set s)(rt_tokens_set_count s \<mapsto> tokens),
      rt_tokens_set_count := rt_tokens_set_count s + 1\<rparr>"
    by (auto simp: add_tokens_set_def Let_def put_tokens_set_def res_simps)
  have old: "listed x s salt \<Longrightarrow> listed x s' salt" for salt
    by (simp add: listed_def s') (metis less_SucI less_irrefl)
  have "listed x s' (get_tokens_salt x tokens)" by (auto simp: listed_def s')
  moreover have "get_pools salt s' = get_pools salt s" for salt by (simp add: get_pools_def s')
  ultimately show ?thesis
    using ok old t by (auto simp: registry_ok_def s' less_Suc_eq)
qed

lemma register_pool_ok:
  assumes run: "register_pool x tokens i k p s = Inr s'" and t: "assert_tokens_sorted tokens = Inr ()" and ok: "registry_ok x s"
  shows "registry_ok x s'"
proof -
  from run obtain s1 where a: "add_tokens_set x tokens s = Inr s1" and b: "add_pool (get_tokens_salt x tokens) i k p s1 = Inr s'"
    by (auto simp: register_pool_def res_simps)
  note mid = add_tokens_set_ok [OF a t ok]
  from add_pool_ok [OF b] mid obtain m where "s' = put_pools (get_tokens_salt x tokens) m s1" "pool_map_ok m"
    by (auto simp: registry_ok_def)
  with mid show ?thesis by (auto simp: registry_ok_def)
qed

lemma remove_pool_ok: "registry_ok x s \<Longrightarrow> registry_ok x (registry_remove_pool salt i s)"
proof -
  assume ok: "registry_ok x s"
  have "length (filter P (map_remove i m)) \<le> length (filter P m)" for P :: "nat \<times> pool_data \<Rightarrow> bool" and m
    by (induction m) (simp_all add: map_remove_def)
  then have fewer: "count_kind k (map_remove i m) \<le> count_kind k m" for k m
    by (simp add: count_kind_def)
  have "pool_map_ok m \<Longrightarrow> pool_map_ok (map_remove i m)" for m
    using fewer [of _ m] by (auto simp: pool_map_ok_def intro: order_trans)
      (metis le_trans length_filter_le map_remove_def)
  moreover have "map_remove i m = [] " if "m = []" for m :: pool_map using that by (simp add: map_remove_def)
  ultimately show "registry_ok x (registry_remove_pool salt i s)"
    using ok unfolding registry_ok_def registry_remove_pool_def by (auto split: if_splits) metis
qed

lemma router_exec_registry:
  assumes run: "router_exec x e s w a = Inr (s', w')" and ok: "registry_ok x s"
  shows "registry_ok x s'"
proof (cases a)
  case (RtUser b)
  then have "same_data s s' \<or> registers x s s'" using run by (intro user_exec_cases) simp
  then show ?thesis
  proof
    assume "registers x s s'"
    then show ?thesis unfolding registers_def using register_pool_ok registry_ok_cong ok by metis
  qed (simp add: same_data_def registry_ok_cong ok)
next
  case (RtAdmin b)
  then have "same_data s s' \<or> (\<exists>salt i. s' = registry_remove_pool salt i s)" using run by (intro admin_exec_cases) simp
  then show ?thesis unfolding same_data_def using remove_pool_ok [OF ok] registry_ok_cong ok by metis
qed

section \<open>Runs\<close>

inductive router_run :: "'w router_calls \<Rightarrow> router \<times> 'w \<Rightarrow> router \<times> 'w \<Rightarrow> bool" for x :: "'w router_calls" where
  start: "router_run x p p"
| call: "router_run x p (s, w) \<Longrightarrow> router_exec x e s w a = Inr (s', w') \<Longrightarrow> router_run x p (s', w')"
| config: "router_run x p (s, w) \<Longrightarrow> config_global_rewards e u rate exp_at votes s = Inr s' \<Longrightarrow> router_run x p (s', w)"
| fill: "router_run x p (s, w) \<Longrightarrow> fill_liquidity x e u tokens (s, w) = Inr s' \<Longrightarrow> router_run x p (s', w)"
| pool: "router_run x p (s, w) \<Longrightarrow> config_pool_rewards x e u tokens index (s, w) = Inr (n, s', w') \<Longrightarrow> router_run x p (s', w')"
| world: "router_run x p (s, w) \<Longrightarrow> router_run x p (s, w')"

lemma rewards_registry:
  "config_global_rewards e u rate exp_at votes s = Inr s' \<Longrightarrow> registry_data s' = registry_data s"
  "fill_liquidity x e u tokens (s, w) = Inr s' \<Longrightarrow> registry_data s' = registry_data s"
  "config_pool_rewards x e u tokens index (s, w) = Inr (n, s', w') \<Longrightarrow> registry_data s' = registry_data s"
  by (auto simp: config_global_rewards_def fill_liquidity_def config_pool_rewards_def Let_def res_simps split_beta
      registry_data_def set_rewards_config_def set_reward_tokens_def set_reward_tokens_detailed_def)

lemma run_registry:
  assumes "router_run x p q" and "registry_ok x (fst p)"
  shows "registry_ok x (fst q)"
  using assms
proof (induction rule: router_run.induct)
  case call
  then show ?case using router_exec_registry by simp
next
  case config
  then show ?case using rewards_registry(1) registry_ok_cong by (metis fst_conv)
next
  case fill
  then show ?case using rewards_registry(2) registry_ok_cong by (metis fst_conv)
next
  case pool
  then show ?case using rewards_registry(3) registry_ok_cong by (metis fst_conv)
qed simp_all

text \<open>
  Claim C15: over every run of the router from an empty registry, every set of tokens has at most ten
  pools, at most three of them stable and at most three concentrated; and the tokens of every
  registered pool are among the listed sets, so that enumerating the sets finds every pool.
\<close>

theorem router_registry_bounded:
  assumes "router_run x (s0, w0) (s, w)" and "rt_pools s0 = Map.empty" and "rt_tokens_set_count s0 = 0"
    and "inj (get_tokens_salt x)" and "get_pool x tokens index s = Inr pool"
  shows "length (get_pools (get_tokens_salt x tokens) s) \<le> 10 \<and>
    count_kind StableSwap (get_pools (get_tokens_salt x tokens) s) \<le> 3 \<and>
    count_kind Concentrated (get_pools (get_tokens_salt x tokens) s) \<le> 3 \<and>
    (\<exists>i < rt_tokens_set_count s. rt_tokens_set s i = Some tokens)"
proof -
  have "registry_ok x s0"
    using assms(2,3) by (simp add: registry_ok_def get_pools_def pool_map_ok_def count_kind_def)
  with run_registry [OF assms(1)] have ok: "registry_ok x s" by simp
  have "get_pools (get_tokens_salt x tokens) s \<noteq> []" using assms(5) by (auto simp: get_pool_def)
  with ok have m: "pool_map_ok (get_pools (get_tokens_salt x tokens) s)" and l: "listed x s (get_tokens_salt x tokens)"
    by (simp_all add: registry_ok_def)
  have "\<exists>i < rt_tokens_set_count s. rt_tokens_set s i = Some tokens"
    using l assms(4) by (auto simp: listed_def inj_eq)
  with m show ?thesis
    by (simp add: pool_map_ok_def MAX_POOLS_FOR_PAIR_def STABLESWAP_MAX_POOLS_def CONCENTRATED_MAX_POOLS_def)
qed

definition ready_router :: router where
  \<comment> \<open>configured for standard pools, without any pool\<close>
  "ready_router = (new_router 1)\<lparr>rt_managed := sample_managed, rt_config_storage := Some 60,
     rt_rewards := empty_rewards\<lparr>rw_token := Some 50, rw_boost_token := Some 51, rw_boost_feed := Some 52\<rparr>,
     rt_token_hash := Some 2, rt_constant_hash := Some 3, rt_payment_token := Some 50,
     rt_standard_payment := Some 10, rt_payment_address := Some 61, rt_plane := Some 62\<rparr>"

lemma sample_deploy_simps:
  "rx_alive sample_router_calls t w = Inr ()" "rx_deploy sample_router_calls salt h w = Inr (salt, w)"
  "rx_init_standard sample_router_calls h f c e p a pv ts r pl w = Inr w"
  "tk_transfer (rx_tokens sample_router_calls) t a b n w = Inr w"
  by (simp_all add: sample_router_calls_def)

lemma ready_privileged: "\<exists>pv. pool_privileged (s :: router) = Inr (7, pv)" if "rt_managed s = sample_managed"
  using that
  by (simp add: pool_privileged_def get_role_def get_role_safe_def role_or_def get_role_addresses_def
      sample_managed_def)

lemma ready_init:
  "\<exists>r s. init_standard_pool sample_router_calls anyone 5 [11, 12] 30 (ready_router, 0) = Inr (r, s, 0) \<and>
    get_pool sample_router_calls [11, 12] (get_standard_pool_salt sample_router_calls 30) s = Inr (snd r)"
proof -
  let ?s = "ready_router\<lparr>rt_pool_counter := Suc 0\<rparr>"
  obtain pv where "pool_privileged ?s = Inr (7, pv)" using ready_privileged [of ?s] by (auto simp: ready_router_def)
  then have init: "init_deployed_standard sample_router_calls anyone [11, 12] p 30 ?s w = Inr w" for p w
    by (simp add: init_deployed_standard_def ready_router_def reward_addresses_def stored_def get_reward_token_def
        sample_deploy_simps)
  have pay: "pay_for_creation sample_router_calls 5 (rt_standard_payment ready_router) ready_router w = Inr w" for w
    by (simp add: pay_for_creation_def ready_router_def stored_def sample_deploy_simps)
  have none: "get_pools_plain salt ready_router = []" and hash: "rt_constant_hash ready_router = Some 3"
    and count: "rt_pool_counter ready_router = 0" for salt
    by (simp_all add: get_pools_plain_def get_pools_def ready_router_def new_router_def)
  have reg: "\<exists>s'. add_tokens_set x ts ?s = Inr s' \<and> rt_pools s' = Map.empty" for x :: "nat router_calls" and ts
    by (simp add: add_tokens_set_def get_pools_def ready_router_def new_router_def put_tokens_set_def u_defs max_defs)
  have auth: "authorized anyone 5" by (simp add: anyone_def)
  obtain s' where s': "add_tokens_set sample_router_calls [11, 12] ?s = Inr s'" "rt_pools s' = Map.empty"
    using reg by blast
  show ?thesis
    by (simp add: init_standard_pool_def require_auth_def auth validate_tokens_contracts_def sample_deploy_simps CONSTANT_PRODUCT_FEE_AVAILABLE_def
        none pay deploy_standard_pool_def hash stored_def get_pool_counter_salt_def get_pool_next_counter_def
        count u_defs max_defs Let_def init s' add_pool_def get_pools_def MAX_POOLS_FOR_PAIR_def get_pool_def put_pools_def)
qed

theorem router_registry_bounded_witness:
  "\<exists>s tokens pool. get_pool sample_router_calls [11, 12] (get_standard_pool_salt sample_router_calls 30) s = Inr pool \<and>
    (\<exists>i < rt_tokens_set_count s. rt_tokens_set s i = Some [11, 12])"
proof -
  obtain r s where init: "init_standard_pool sample_router_calls anyone 5 [11, 12] 30 (ready_router, 0) = Inr (r, s, 0)"
    and pool: "get_pool sample_router_calls [11, 12] (get_standard_pool_salt sample_router_calls 30) s = Inr (snd r)"
    using ready_init by blast
  have "router_exec sample_router_calls anyone ready_router 0 (RtUser (RtInitStandard 5 [11, 12] 30)) = Inr (s, 0)"
    by (simp add: init)
  from router_run.call [OF router_run.start this] have run: "router_run sample_router_calls (ready_router, 0) (s, 0)" .
  have "rt_pools ready_router = Map.empty" "rt_tokens_set_count ready_router = 0"
    by (simp_all add: ready_router_def new_router_def)
  from router_registry_bounded [OF run this sample_salts pool] pool show ?thesis by blast
qed

section \<open>A removed set is listed again\<close>

text \<open>
  The list of sets is not a list of unique sets, as its comments call it: when the last pool of a set
  is removed and another one registered, the set gets a second entry.
\<close>

lemma removed_set_is_listed_again:
  assumes "get_pools (get_tokens_salt x tokens) s = [(i, d)]"
    and "register_pool x tokens j k p (registry_remove_pool (get_tokens_salt x tokens) i s) = Inr s'"
  shows "rt_tokens_set s' (rt_tokens_set_count s) = Some tokens" and "rt_tokens_set_count s' = rt_tokens_set_count s + 1"
  using assms
  by (auto simp: register_pool_def res_simps registry_remove_pool_def add_tokens_set_def add_pool_def Let_def
      map_remove_def put_tokens_set_def put_pools_def get_pools_def split: if_splits)

end
