(* ===== verification/Router_Trading.thy ===== *)
theory Router_Trading
  imports Router_Registry CP_World
begin

text \<open>
  A chained swap keeps nothing: whatever pools it goes through, the router's balances are the same
  before and after, and the user pays the exact input and gets the exact output of the last pool,
  which is at least the minimum. The pools are an interface (\<open>swap_pools\<close>), interpreted with the
  constant-product pools of \<open>CP_Pool\<close>.
\<close>

section \<open>Pools that swap\<close>

lemma swap_hops_ConsE:
  assumes "swap_hops x e s m ((tokens, index, token_out) # hops) token amount w = Inr r"
  obtains p i j o1 w1 where "get_pool x tokens index s = Inr p"
    and "index_of token tokens = Inr i" and "index_of token_out tokens = Inr j"
    and "rx_swap x e p (current_contract e) i j amount (if hops = [] then m else 0) w = Inr (o1, w1)"
    and "swap_hops x e s m hops token_out o1 w1 = Inr r"
proof -
  from assms obtain p i j q where "get_pool x tokens index s = Inr p"
    and "index_of token tokens = Inr i" and "index_of token_out tokens = Inr j"
    and "rx_swap x e p (current_contract e) i j amount (if hops = [] then m else 0) w = Inr q"
    and "swap_hops x e s m hops token_out (fst q) (snd q) = Inr r"
    unfolding swap_hops.simps Let_def split_beta andthen_eq_Inr by blast
  then show ?thesis using that by (cases q) simp
qed

definition registered ::
  "'w router_calls \<Rightarrow> address \<Rightarrow> (address \<Rightarrow> 'w \<Rightarrow> address list) \<Rightarrow> router \<Rightarrow> 'w \<Rightarrow> bool" where
  \<comment> \<open>the pools of a set of tokens trade those tokens, and the router is not a pool\<close>
  "registered x me pool_tokens s w \<longleftrightarrow>
     (\<forall>ts i p. get_pool x ts i s = Inr p \<longrightarrow> pool_tokens p w = ts \<and> p \<noteq> me)"

locale swap_pools =
  fixes x :: "'w router_calls" and me :: address and pool_tokens :: "address \<Rightarrow> 'w \<Rightarrow> address list"
  assumes ledger: "token_ledger (rx_tokens x)"
    and transfer_tokens: "tk_transfer (rx_tokens x) t a b k w = Inr w' \<Longrightarrow> pool_tokens q w' = pool_tokens q w"
    and swap_tokens: "rx_swap x e p me i j n m w = Inr (out, w') \<Longrightarrow> current_contract e = me \<Longrightarrow> p \<noteq> me \<Longrightarrow>
      pool_tokens q w' = pool_tokens q w"
    and swap_moves: "rx_swap x e p me i j n m w = Inr (out, w') \<Longrightarrow> current_contract e = me \<Longrightarrow> p \<noteq> me \<Longrightarrow>
      m \<le> out \<and> out \<le> U128_MAX \<and>
      tk_balance (rx_tokens x) t me w' = tk_balance (rx_tokens x) t me w
        - (if t = pool_tokens p w ! i then as_i128 n else 0) + (if t = pool_tokens p w ! j then as_i128 out else 0)"
    and swap_others: "rx_swap x e p me i j n m w = Inr (out, w') \<Longrightarrow> current_contract e = me \<Longrightarrow> p \<noteq> me \<Longrightarrow>
      c \<noteq> me \<Longrightarrow> c \<noteq> p \<Longrightarrow> tk_balance (rx_tokens x) t c w' = tk_balance (rx_tokens x) t c w"
begin

lemma index_of_nth: "index_of a xs = Inr i \<Longrightarrow> i < length xs \<and> xs ! i = a"
proof -
  have "first_index_of a xs = Some i \<Longrightarrow> i < length xs \<and> xs ! i = a" for i
    by (induction xs arbitrary: i) (auto split: if_splits)
  then show "index_of a xs = Inr i \<Longrightarrow> i < length xs \<and> xs ! i = a"
    by (simp add: index_of_def res_simps)
qed

lemma hops_move:
  assumes "swap_hops x e s m hops token amount w = Inr (token', out, w')"
    and "current_contract e = me" and "registered x me pool_tokens s w" and "amount \<le> U128_MAX"
  shows "(hops \<noteq> [] \<longrightarrow> m \<le> out \<and> token' = snd (snd (last hops))) \<and> out \<le> U128_MAX \<and>
    (\<forall>t. tk_balance (rx_tokens x) t me w' = tk_balance (rx_tokens x) t me w
      - (if t = token then as_i128 amount else 0) + (if t = token' then as_i128 out else 0)) \<and>
    (\<forall>t c. c \<noteq> me \<longrightarrow> (\<forall>ts i. get_pool x ts i s \<noteq> Inr c) \<longrightarrow>
      tk_balance (rx_tokens x) t c w' = tk_balance (rx_tokens x) t c w)"
  using assms
proof (induction hops arbitrary: token amount w)
  case Nil
  then show ?case by simp
next
  case (Cons hop hops)
  obtain tokens index token_out where hop: "hop = (tokens, index, token_out)" by (cases hop)
  from Cons.prems(1) obtain p i j o1 w1 where p: "get_pool x tokens index s = Inr p"
    and i: "index_of token tokens = Inr i" and j: "index_of token_out tokens = Inr j"
    and sw: "rx_swap x e p me i j amount (if hops = [] then m else 0) w = Inr (o1, w1)"
    and rest: "swap_hops x e s m hops token_out o1 w1 = Inr (token', out, w')"
    unfolding hop Cons.prems(2) [symmetric] by (rule swap_hops_ConsE)
  have ts: "pool_tokens p w = tokens" and pm: "p \<noteq> me" using Cons.prems(3) p by (auto simp: registered_def)
  note mv = swap_moves [OF sw Cons.prems(2) pm, unfolded ts]
  note others = swap_others [OF sw Cons.prems(2) pm]
  have nth: "tokens ! i = token" "tokens ! j = token_out" using index_of_nth [OF i] index_of_nth [OF j] by simp_all
  have "registered x me pool_tokens s w1" using Cons.prems(3) swap_tokens [OF sw Cons.prems(2) pm] by (simp add: registered_def)
  note ih = Cons.IH [OF rest Cons.prems(2) this]
  have ends: "hops = [] \<Longrightarrow> token' = token_out \<and> out = o1" using rest by simp
  have small: "o1 \<le> U128_MAX" using mv by blast
  note ih = ih [OF small]
  have "m \<le> out \<and> token' = snd (snd (last (hop # hops)))"
    using ih ends mv by (cases "hops = []") (auto simp: hop)
  moreover have "tk_balance (rx_tokens x) t c w' = tk_balance (rx_tokens x) t c w"
    if "c \<noteq> me" "\<forall>ts i. get_pool x ts i s \<noteq> Inr c" for t c
  proof -
    have "c \<noteq> p" using p that(2) by auto
    then show ?thesis using ih others [OF that(1)] that by simp
  qed
  moreover have "tk_balance (rx_tokens x) t me w' = tk_balance (rx_tokens x) t me w
      - (if t = token then as_i128 amount else 0) + (if t = token' then as_i128 out else 0)" for t
    using ih mv [of t] by (simp add: nth split: if_splits)
  ultimately show ?case using ih by blast
qed

lemma chained_moves:
  assumes run: "rt_swap_chained x e user chain token_in in_amount out_min (s, w) = Inr (out, w')"
    and me: "current_contract e = me" and known: "registered x me pool_tokens s w" and le: "in_amount \<le> U128_MAX"
    and user: "user \<noteq> me" "\<forall>ts i. get_pool x ts i s \<noteq> Inr user"
  shows "out_min \<le> out \<and> tk_balance (rx_tokens x) t me w' = tk_balance (rx_tokens x) t me w \<and>
    tk_balance (rx_tokens x) t user w' = tk_balance (rx_tokens x) t user w
      - (if t = token_in then int in_amount else 0) + (if t = snd (snd (last chain)) then int out else 0)"
proof -
  from run me obtain w1 w2 token_out where chain: "chain \<noteq> []"
    and a: "tk_transfer (rx_tokens x) token_in user me (as_i128 in_amount) w = Inr w1"
    and b: "swap_hops x e s out_min chain token_in in_amount w1 = Inr (token_out, out, w2)"
    and c: "tk_transfer (rx_tokens x) token_out me user (as_i128 out) w2 = Inr w'"
    by (auto simp: rt_swap_chained_def Let_def res_simps)
  have "registered x me pool_tokens s w1" using known transfer_tokens [OF a] by (simp add: registered_def)
  note mid = hops_move [OF b me this le]
  have t: "token_out = snd (snd (last chain))" and m: "out_min \<le> out" and le': "out \<le> U128_MAX"
    using mid chain by simp_all
  note ta = token_ledger.transfer_moves [OF ledger a user(1)] and fa = token_ledger.transfer_frame [OF ledger a user(1)]
  note tc = token_ledger.transfer_moves [OF ledger c user(1) [symmetric]]
    and fc = token_ledger.transfer_frame [OF ledger c user(1) [symmetric]]
  have in_eq: "as_i128 in_amount = int in_amount" and out_eq: "as_i128 out = int out"
    using ta tc le le' as_i128_exact by blast+
  have A: "tk_balance (rx_tokens x) t me w1 = tk_balance (rx_tokens x) t me w + (if t = token_in then int in_amount else 0)"
    "tk_balance (rx_tokens x) t user w1 = tk_balance (rx_tokens x) t user w - (if t = token_in then int in_amount else 0)"
    using ta fa [of t] by (auto simp: in_eq)
  have C: "tk_balance (rx_tokens x) t me w' = tk_balance (rx_tokens x) t me w2 - (if t = token_out then int out else 0)"
    "tk_balance (rx_tokens x) t user w' = tk_balance (rx_tokens x) t user w2 + (if t = token_out then int out else 0)"
    using tc fc [of t] by (auto simp: out_eq)
  have B: "tk_balance (rx_tokens x) t me w2 = tk_balance (rx_tokens x) t me w1
      - (if t = token_in then int in_amount else 0) + (if t = token_out then int out else 0)"
    "tk_balance (rx_tokens x) t user w2 = tk_balance (rx_tokens x) t user w1"
    using mid user by (simp_all add: in_eq out_eq)
  show ?thesis using m A B C unfolding t by simp
qed

lemma chained_others:
  assumes run: "rt_swap_chained x e user chain token_in in_amount out_min (s, w) = Inr (out, w')"
    and me: "current_contract e = me" and known: "registered x me pool_tokens s w" and le: "in_amount \<le> U128_MAX"
    and c: "c \<noteq> me" "c \<noteq> user" "\<forall>ts i. get_pool x ts i s \<noteq> Inr c" and user: "user \<noteq> me"
  shows "out \<le> U128_MAX \<and> tk_balance (rx_tokens x) t c w' = tk_balance (rx_tokens x) t c w"
proof -
  from run me obtain w1 w2 token_out where chain: "chain \<noteq> []"
    and a: "tk_transfer (rx_tokens x) token_in user me (as_i128 in_amount) w = Inr w1"
    and b: "swap_hops x e s out_min chain token_in in_amount w1 = Inr (token_out, out, w2)"
    and d: "tk_transfer (rx_tokens x) token_out me user (as_i128 out) w2 = Inr w'"
    by (auto simp: rt_swap_chained_def Let_def res_simps)
  have "registered x me pool_tokens s w1" using known transfer_tokens [OF a] by (simp add: registered_def)
  note mid = hops_move [OF b me this le]
  show ?thesis
    using mid c token_ledger.transfer_frame [OF ledger a user] token_ledger.transfer_frame [OF ledger d user [symmetric]]
    by simp
qed

end

section \<open>Constant-product pools at their addresses\<close>

type_synonym pools_world = "(address \<Rightarrow> cp_pool) \<times> gauge_world"

definition callee_env :: "env \<Rightarrow> address \<Rightarrow> env" where
  \<comment> \<open>a call from a contract carries its own authorization\<close>
  "callee_env e p = e\<lparr>current_contract := p, authorized := (\<lambda>a. authorized e a \<or> a = current_contract e)\<rparr>"

definition on_tokens :: "'w tokens \<Rightarrow> ('p \<times> 'w) tokens" where
  "on_tokens tk = \<lparr>
     tk_transfer = (\<lambda>t a b n (P, w). andthen (tk_transfer tk t a b n w) (\<lambda>w. Inr (P, w))),
     tk_balance = (\<lambda>t a (P, w). tk_balance tk t a w)\<rparr>"

definition cp_router_calls :: "pools_world router_calls" where
  \<comment> \<open>swaps run the pool's own code; the other calls are not used by swaps\<close>
  "cp_router_calls = \<lparr>
     rx_tokens = on_tokens (gauge_world_tokens anyone),
     rx_transfer_from = (\<lambda>_ _ _ _ _ _. Inl ExternalError), rx_alive = (\<lambda>_ _. Inr ()), rx_sha256 = sample_salt,
     rx_deploy = (\<lambda>_ _ _. Inl ExternalError), rx_deploy_gauge = (\<lambda>_ _ _ _ _. Inl ExternalError),
     rx_init_standard = (\<lambda>_ _ _ _ _ _ _ _ _ _ _. Inl ExternalError),
     rx_init_stable = (\<lambda>_ _ _ _ _ _ _ _ _ _ _ _. Inl ExternalError),
     rx_init_concentrated = (\<lambda>_ _ _ _ _ _ _ _ _ _ _. Inl ExternalError),
     rx_liquidity = (\<lambda>_ _ _. Inl ExternalError), rx_config_get = (\<lambda>_ _ _. Inr None),
     rx_config_set = (\<lambda>_ _ _ _ _ _. Inl ExternalError), rx_deposit = (\<lambda>_ _ _ _ _ _. Inl ExternalError),
     rx_swap = (\<lambda>e p u i j n m (P, w).
       andthen (cp_swap (standard_calls anyone) (callee_env e p) u i j n m (P p, w)) (\<lambda>(out, s, w).
       Inr (out, P(p := s), w))),
     rx_swap_strict = (\<lambda>e p u i j n m (P, w).
       andthen (cp_swap_strict_receive (standard_calls anyone) (callee_env e p) u i j n m (P p, w)) (\<lambda>(used, s, w).
       Inr (used, P(p := s), w))),
     rx_estimate = (\<lambda>e p i j n (P, w).
       andthen (cp_estimate_swap (standard_calls anyone) (callee_env e p) i j n (P p, w)) (\<lambda>(out, s).
       Inr (out, P(p := s), w))),
     rx_estimate_strict = (\<lambda>e p i j n (P, w).
       andthen (cp_estimate_swap_strict_receive (standard_calls anyone) (callee_env e p) i j n (P p, w)) (\<lambda>(used, s).
       Inr (used, P(p := s), w))),
     rx_withdraw = (\<lambda>_ _ _ _ _ _. Inl ExternalError), rx_set_rewards = (\<lambda>_ _ _ _ _ _. Inl ExternalError),
     rx_configured = (\<lambda>_ _ _. Inl ExternalError), rx_claimed = (\<lambda>_ _ _. Inl ExternalError),
     rx_reserves = (\<lambda>_ _ _. Inl ExternalError), rx_protocol_fees = (\<lambda>_ _. Inl ExternalError),
     rx_claim = (\<lambda>_ _ _ _. Inl ExternalError), rx_gauges = (\<lambda>_ _. Inl ExternalError),
     rx_gauge_add = (\<lambda>_ _ _ _ _. Inl ExternalError), rx_gauge_schedule = (\<lambda>_ _ _ _ _ _ _ _ _. Inl ExternalError)\<rparr>"

definition cp_pool_tokens :: "address \<Rightarrow> pools_world \<Rightarrow> address list" where
  "cp_pool_tokens p pw = (case cp_get_tokens (fst pw p) of Inr (a, b) \<Rightarrow> [a, b] | Inl _ \<Rightarrow> [])"

lemma cp_router_simps:
  "rx_tokens cp_router_calls = on_tokens (gauge_world_tokens anyone)"
  "rx_swap cp_router_calls e p u i j n m (P, w) =
     andthen (cp_swap (standard_calls anyone) (callee_env e p) u i j n m (P p, w)) (\<lambda>(out, s, w).
       Inr (out, P(p := s), w))"
  by (simp_all add: cp_router_calls_def)

lemma on_tokens_simps [simp]:
  "tk_transfer (on_tokens tk) t a b n (P, w) = andthen (tk_transfer tk t a b n w) (\<lambda>w. Inr (P, w))"
  "tk_balance (on_tokens tk) t a (P, w) = tk_balance tk t a w"
  by (simp_all add: on_tokens_def)

lemma on_tokens_ledger:
  fixes tk :: "'w tokens"
  assumes "token_ledger tk"
  shows "token_ledger (on_tokens tk :: ('p \<times> 'w) tokens)"
proof (rule token_ledger.intro)
  have bal: "tk_balance (on_tokens tk) t c w = tk_balance tk t c (snd w)" for t c and w :: "'p \<times> 'w" by (cases w) simp
  have tr: "tk_transfer tk t a b n (snd w) = Inr (snd w')" if "tk_transfer (on_tokens tk) t a b n w = Inr w'"
    for t a b n and w w' :: "'p \<times> 'w"
    using that by (cases w; cases w') (auto simp: res_simps)
  fix t a b n and w w' :: "'p \<times> 'w"
  assume "tk_transfer (on_tokens tk) t a b n w = Inr w'" and "a \<noteq> b"
  note m = tr [OF this(1)] this(2)
  show "0 \<le> n \<and> n \<le> tk_balance (on_tokens tk) t a w \<and>
      tk_balance (on_tokens tk) t a w' = tk_balance (on_tokens tk) t a w - n \<and>
      tk_balance (on_tokens tk) t b w' = tk_balance (on_tokens tk) t b w + n"
    using token_ledger.transfer_moves [OF assms m] by (simp add: bal)
next
  have bal: "tk_balance (on_tokens tk) t c w = tk_balance tk t c (snd w)" for t c and w :: "'p \<times> 'w" by (cases w) simp
  fix t a b n t' c and w w' :: "'p \<times> 'w"
  assume "tk_transfer (on_tokens tk) t a b n w = Inr w'" and "a \<noteq> b" and "t' \<noteq> t \<or> c \<noteq> a \<and> c \<noteq> b"
  then show "tk_balance (on_tokens tk) t' c w' = tk_balance (on_tokens tk) t' c w"
    using token_ledger.transfer_frame [OF assms] by (cases w; cases w') (auto simp: res_simps)
next
  fix t a n t' c and w w' :: "'p \<times> 'w"
  assume "tk_transfer (on_tokens tk) t a a n w = Inr w'"
  then show "tk_balance (on_tokens tk) t' c w' = tk_balance (on_tokens tk) t' c w"
    using token_ledger.transfer_self [OF assms] by (cases w; cases w') (auto simp: res_simps)
qed

lemma get_tokens_books: "cp_get_tokens s = Inr (a, b) \<longleftrightarrow> bk_tokens (books_of s) = (Some a, Some b)"
  by (auto simp: cp_get_tokens_def stored_def res_simps books_of_def)

lemma cp_pool_tokens_books:
  "bk_tokens (books_of s') = bk_tokens (books_of s) \<Longrightarrow> cp_get_tokens s' = cp_get_tokens s"
  by (simp add: cp_get_tokens_def books_of_def stored_def)

lemma cp_swap_effect:
  assumes run: "cp_swap (standard_calls anyone) e u i j n m (s, w) = Inr (out, s', w')"
    and p: "current_contract e = p" "u \<noteq> p"
  shows "bk_tokens (books_of s') = bk_tokens (books_of s) \<and> m \<le> out \<and> out \<le> U128_MAX \<and>
    (\<exists>ts. cp_get_tokens s = Inr (ts ! 0, ts ! 1) \<and> length ts = 2 \<and> i < 2 \<and> j < 2 \<and>
      (\<forall>t. tk_balance (gauge_world_tokens anyone) t u w' = tk_balance (gauge_world_tokens anyone) t u w
        - (if t = ts ! i then as_i128 n else 0) + (if t = ts ! j then as_i128 out else 0)) \<and>
      (\<forall>t c. c \<noteq> u \<and> c \<noteq> p \<longrightarrow>
        tk_balance (gauge_world_tokens anyone) t c w' = tk_balance (gauge_world_tokens anyone) t c w))"
proof -
  let ?x = "standard_calls anyone" and ?bal = "tk_balance (gauge_world_tokens anyone)"
  from cp_swap_InrD [OF run] obtain s1 fee pf w1 ra rb ta tb f where sync: "sync_reserves ?x e s w = Inr s1"
    and tok: "bk_tokens (books_of s1) = (Some ta, Some tb)"
    and q: "get_amount_out (cc_fp ?x) (Inr f) n (pick i (ra, rb)) (pick j (ra, rb)) = Inr (out, fee)"
    and col: "collect ?x e (pick i (ta, tb)) u n w = Inr w1" and m: "m \<le> out"
    and fin: "swap_done ?x e u i j n out fee pf s1 s' w1 w'" by blast
  from fin tok obtain w2 where ij: "i = 0 \<and> j = 1 \<or> i = 1 \<and> j = 0" and n: "0 < n"
    and py: "pay ?x e (pick j (ta, tb)) u out w1 = Inr w2" and pl: "update_plane ?x e s' w2 = Inr w'"
    and bk: "bk_tokens (books_of s') = bk_tokens (books_of s1)"
    by (auto simp: swap_done_def traded_def split: if_splits)
  have "w' = w2" using pl by (auto simp: update_plane_def res_simps)
  have same: "bk_tokens (books_of s1) = bk_tokens (books_of s)"
    using sync_reserves_InrD [OF sync] by (auto simp: books_of_def)
  have small: "out \<le> U128_MAX"
    using q n fixed_point_lib.floor_128 [OF exact_lib]
    by (auto simp: get_amount_out_def res_simps mul_floor_def Let_def split: if_splits)
  have t1: "tk_transfer (gauge_world_tokens anyone) (pick i (ta, tb)) u p (as_i128 n) w = Inr w1"
    and t2: "tk_transfer (gauge_world_tokens anyone) (pick j (ta, tb)) p u (as_i128 out) w1 = Inr w2"
    using col py p(1) by (simp_all add: collect_def pay_def)
  note a = gauge_world_ledger.transfer_moves [OF t1 p(2)] gauge_world_ledger.transfer_frame [OF t1 p(2)]
  note b = gauge_world_ledger.transfer_moves [OF t2 p(2) [symmetric]] gauge_world_ledger.transfer_frame [OF t2 p(2) [symmetric]]
  have nth: "[ta, tb] ! i = pick i (ta, tb)" "[ta, tb] ! j = pick j (ta, tb)" using ij by auto
  have "?bal t u w' = ?bal t u w - (if t = pick i (ta, tb) then as_i128 n else 0)
      + (if t = pick j (ta, tb) then as_i128 out else 0)" for t
    using a(1) a(2) [of t u] b(1) b(2) [of t u] \<open>w' = w2\<close> by auto
  moreover have "?bal t c w' = ?bal t c w" if "c \<noteq> u" "c \<noteq> p" for t c
    using a(2) b(2) that \<open>w' = w2\<close> by simp
  moreover have "cp_get_tokens s = Inr ([ta, tb] ! 0, [ta, tb] ! 1)" using tok same get_tokens_books by simp
  moreover have "i < 2" "j < 2" using ij by auto
  ultimately show ?thesis
    using bk same m small by (intro conjI exI [of _ "[ta, tb]"]) (simp_all add: nth)
qed

lemma cp_router_swap:
  assumes run: "rx_swap cp_router_calls e p me i j n m w = Inr (out, w')" and p: "p \<noteq> me"
  shows "cp_pool_tokens q w' = cp_pool_tokens q w \<and> m \<le> out \<and> out \<le> U128_MAX \<and>
    tk_balance (rx_tokens cp_router_calls) t me w' = tk_balance (rx_tokens cp_router_calls) t me w
      - (if t = cp_pool_tokens p w ! i then as_i128 n else 0) + (if t = cp_pool_tokens p w ! j then as_i128 out else 0) \<and>
    (c \<noteq> me \<longrightarrow> c \<noteq> p \<longrightarrow> tk_balance (rx_tokens cp_router_calls) t c w' = tk_balance (rx_tokens cp_router_calls) t c w)"
proof -
  obtain P g where w: "w = (P, g)" by (rule prod.exhaust)
  from run obtain s' g' where sw: "cp_swap (standard_calls anyone) (callee_env e p) me i j n m (P p, g) = Inr (out, s', g')"
    and w': "w' = (P(p := s'), g')"
    by (auto simp: w cp_router_simps res_simps)
  note eff = cp_swap_effect [OF sw _ p [symmetric], unfolded callee_env_def, simplified]
  then obtain ts where ts: "cp_get_tokens (P p) = Inr (ts ! 0, ts ! 1)" "length ts = 2" "i < 2" "j < 2"
    and me: "\<And>t. tk_balance (gauge_world_tokens anyone) t me g' = tk_balance (gauge_world_tokens anyone) t me g
        - (if t = ts ! i then as_i128 n else 0) + (if t = ts ! j then as_i128 out else 0)"
    and others: "\<And>t c. c \<noteq> me \<Longrightarrow> c \<noteq> p \<Longrightarrow>
        tk_balance (gauge_world_tokens anyone) t c g' = tk_balance (gauge_world_tokens anyone) t c g"
    by auto
  have same: "cp_get_tokens s' = cp_get_tokens (P p)" using eff cp_pool_tokens_books by blast
  have "cp_pool_tokens p w = ts"
  proof -
    from ts(2) obtain a b where "ts = [a, b]" by (auto simp: numeral_2_eq_2 length_Suc_conv)
    then show ?thesis using ts(1) by (simp add: cp_pool_tokens_def w)
  qed
  moreover have "cp_pool_tokens q w' = cp_pool_tokens q w" using same by (simp add: cp_pool_tokens_def w w')
  ultimately show ?thesis using eff me others by (simp add: w w' cp_router_simps)
qed

interpretation cp_swaps: swap_pools cp_router_calls me cp_pool_tokens for me
proof (rule swap_pools.intro)
  show "token_ledger (rx_tokens cp_router_calls)"
    by (simp add: cp_router_simps on_tokens_ledger gauge_world_ledger.token_ledger_axioms)
  fix t a b k q and w w' :: pools_world
  assume "tk_transfer (rx_tokens cp_router_calls) t a b k w = Inr w'"
  then show "cp_pool_tokens q w' = cp_pool_tokens q w"
    by (cases w) (auto simp: cp_router_simps res_simps cp_pool_tokens_def)
qed (use cp_router_swap in blast)+

section \<open>Chained swaps keep nothing\<close>

text \<open>
  Claim C8: a chained swap moves, over all its hops, exactly the input from the
  user and exactly the output of the last pool to the user: the router's own balance of every token
  is what it was, no other token of the user is touched, and the output is at least the minimum
  the user asked for, although the minimum is only passed to the last pool.
\<close>

theorem chained_swap_is_exact:
  assumes "swap_pools x me pool_tokens" and "registered x me pool_tokens s w"
    and "rt_swap_chained x e user chain token_in in_amount out_min (s, w) = Inr (out, w')"
    and "current_contract e = me" and "in_amount \<le> U128_MAX"
    and "user \<noteq> me" and "\<forall>ts i. get_pool x ts i s \<noteq> Inr user"
  shows "out_min \<le> out \<and> tk_balance (rx_tokens x) t me w' = tk_balance (rx_tokens x) t me w \<and>
    tk_balance (rx_tokens x) t user w' = tk_balance (rx_tokens x) t user w
      - (if t = token_in then int in_amount else 0) + (if t = snd (snd (last chain)) then int out else 0)"
  using swap_pools.chained_moves [OF assms(1,3,4,2,5,6,7)] .

definition trading_token :: "(address \<rightharpoonup> int) \<Rightarrow> token_state" where
  "trading_token f = empty_token\<lparr>tok_ac := token_admin, tok_balance := f\<rparr>"

definition trading_world :: "(address \<rightharpoonup> int) \<Rightarrow> (address \<rightharpoonup> int) \<Rightarrow> gauge_world" where
  "trading_world f g = (Map.empty, (\<lambda>_. empty_token)(11 := trading_token f, 12 := trading_token g))"

lemma trading_moves:
  assumes "0 \<le> n" and "n \<le> a" and "i128_fits (a - n)" and "i128_fits (b + n)" and "p \<noteq> q" and "p \<noteq> 1" and "q \<noteq> 1"
  shows "f p = Some a \<Longrightarrow> f q = Some b \<Longrightarrow> tk_transfer (gauge_world_tokens anyone) 11 p q n (trading_world f g) =
      Inr (trading_world (f(p \<mapsto> a - n, q \<mapsto> b + n)) g)"
    and "g p = Some a \<Longrightarrow> g q = Some b \<Longrightarrow> tk_transfer (gauge_world_tokens anyone) 12 p q n (trading_world f g) =
      Inr (trading_world f (g(p \<mapsto> a - n, q \<mapsto> b + n)))"
  using assms
  by (auto simp: trading_world_def trading_token_def fun_upd_twist
      sample_moves [where f = f and a = a and b = b] sample_moves [where f = g and a = a and b = b])

definition trading_router :: router where
  \<comment> \<open>one pool for the tokens 11 and 12, at address 9\<close>
  "trading_router = (new_router 1)\<lparr>rt_pools := [get_tokens_salt cp_router_calls [11, 12] \<mapsto>
     [(5, \<lparr>pd_kind = ConstantProduct, pd_address = 9\<rparr>)]]\<rparr>"

definition trading_env :: env where
  "trading_env = anyone\<lparr>current_contract := 100\<rparr>"

definition pools_at :: "cp_pool \<Rightarrow> address \<Rightarrow> cp_pool" where
  "pools_at s = (\<lambda>_. new_cp_pool 1)(9 := s)"

lemma trading_salts: "get_tokens_salt cp_router_calls ts = get_tokens_salt cp_router_calls us \<longleftrightarrow> ts = us"
  by (simp add: get_tokens_salt_def cp_router_calls_def sample_salt_def comp_def) (metis list_encode_inverse)

lemma trading_get_pool:
  "get_pool cp_router_calls ts i trading_router =
    (if ts = [11, 12] \<and> i = 5 then Inr 9 else Inl (RegistryError RG_PoolNotFound))"
  by (simp add: get_pool_def get_pools_def trading_router_def new_router_def trading_salts)

lemma trading_pool_swap:
  assumes "f 9 = Some 10000" and "f 100 = Some 993" and "g 9 = Some 10000" and "g 100 = Some 0"
  shows "cp_swap (standard_calls anyone) pool_env 100 0 (Suc 0) 993 890 (sample_pool, trading_world f g) =
    Inr (900, swapped_pool, trading_world (f(100 \<mapsto> 0, 9 \<mapsto> 10993)) (g(9 \<mapsto> 9100, 100 \<mapsto> 900)))"
proof -
  have c: "collect (standard_calls anyone) pool_env 11 100 993 (trading_world f g) =
    Inr (trading_world (f(100 \<mapsto> 0, 9 \<mapsto> 10993)) g)"
    using assms by (simp add: collect_def i128_fits_def as_i128_def I128_MAX_def trading_moves(1) [where a = 993 and b = 10000])
  have p: "pay (standard_calls anyone) pool_env 12 100 900 (trading_world f g) =
    Inr (trading_world f (g(9 \<mapsto> 9100, 100 \<mapsto> 900)))" for f
    using assms by (simp add: pay_def i128_fits_def as_i128_def I128_MAX_def trading_moves(2) [where a = 10000 and b = 0])
  show ?thesis by (simp add: cp_swap_def pool_run_defs Let_def c p)
qed

theorem chained_swap_is_exact_witness:
  "\<exists>out w'. rt_swap_chained cp_router_calls trading_env 6 [([11, 12], 5, 12)] 11 993 890 (trading_router,
      pools_at sample_pool, trading_world [9 \<mapsto> 10000, 6 \<mapsto> 5000, 100 \<mapsto> 0] [9 \<mapsto> 10000, 6 \<mapsto> 0, 100 \<mapsto> 0]) = Inr (out, w') \<and>
    890 \<le> out \<and> tk_balance (rx_tokens cp_router_calls) 12 6 w' = int out"
proof -
  define f g :: "address \<rightharpoonup> int" where "f = [9 \<mapsto> 10000, 6 \<mapsto> 5000, 100 \<mapsto> 0]" and "g = [9 \<mapsto> 10000, 6 \<mapsto> 0, 100 \<mapsto> 0]"
  let ?w = "trading_world f g"
  let ?w' = "trading_world (f(6 \<mapsto> 4007, 100 \<mapsto> 0, 9 \<mapsto> 10993)) (g(9 \<mapsto> 9100, 100 \<mapsto> 0, 6 \<mapsto> 900))"
  have a: "tk_transfer (gauge_world_tokens anyone) 11 6 100 993 ?w = Inr (trading_world (f(6 \<mapsto> 4007, 100 \<mapsto> 993)) g)"
    by (simp add: f_def i128_fits_def trading_moves(1) [where a = 5000 and b = 0])
  have sw: "cp_swap (standard_calls anyone) pool_env 100 0 (Suc 0) 993 890
      (sample_pool, trading_world (f(6 \<mapsto> 4007, 100 \<mapsto> 993)) g) =
    Inr (900, swapped_pool, trading_world (f(6 \<mapsto> 4007, 100 \<mapsto> 0, 9 \<mapsto> 10993)) (g(9 \<mapsto> 9100, 100 \<mapsto> 900)))"
    by (subst trading_pool_swap) (simp_all add: f_def g_def)
  have b: "tk_transfer (gauge_world_tokens anyone) 12 100 6 900
      (trading_world (f(6 \<mapsto> 4007, 100 \<mapsto> 0, 9 \<mapsto> 10993)) (g(9 \<mapsto> 9100, 100 \<mapsto> 900))) = Inr ?w'"
    by (simp add: g_def i128_fits_def trading_moves(2) [where a = 900 and b = 0])
  have e: "callee_env trading_env 9 = pool_env" "current_contract trading_env = 100" "authorized trading_env 6"
    by (simp_all add: callee_env_def trading_env_def pool_env_def anyone_def)
  have run: "rt_swap_chained cp_router_calls trading_env 6 [([11, 12], 5, 12)] 11 993 890 (trading_router, pools_at sample_pool, ?w) =
      Inr (900, pools_at swapped_pool, ?w')"
    by (simp add: rt_swap_chained_def require_auth_def e cp_router_simps as_i128_def I128_MAX_def a b sw trading_get_pool
        index_of_def pools_at_def)
  have known: "registered cp_router_calls 100 cp_pool_tokens trading_router (pools_at sample_pool, ?w)"
    by (simp add: registered_def trading_get_pool cp_pool_tokens_def pools_at_def sample_pool_def cp_get_tokens_def stored_def)
  have bal: "tk_balance (rx_tokens cp_router_calls) 12 6 (pools_at sample_pool, ?w) = 0"
    by (simp add: cp_router_simps gauge_world_balance token_world_def trading_world_def read_balance_def trading_token_def
        empty_token_def g_def)
  have "890 \<le> (900 :: nat) \<and> tk_balance (rx_tokens cp_router_calls) 12 6 (pools_at swapped_pool, ?w') = int 900"
    using chained_swap_is_exact [OF cp_swaps.swap_pools_axioms known run e(2), of 12] bal
    by (simp add: U128_MAX_def trading_get_pool)
  with run show ?thesis unfolding f_def g_def by blast
qed

end
