(* ===== verification/Managed_Contracts.thy ===== *)
theory Managed_Contracts
  imports Managed Pool_Base
begin

text \<open>
  The entry points for administration that the plane, the locker feed, the liquidity calculator and
  the factory of swap-fee contracts repeat word for word, over a state that extends \<open>based\<close>: each is
  the entry point of \<open>Managed\<close> on the part that holds the roles and the pending upgrade. Then two of these
  contracts, the plane and the locker feed.
\<close>

record based =
  bs_managed :: managed

definition bs_on_managed :: "(managed \<Rightarrow> managed res) \<Rightarrow> 'z based_scheme \<Rightarrow> 'z based_scheme res" where
  "bs_on_managed f s = andthen (f (bs_managed s)) (\<lambda>m. Inr (s\<lparr>bs_managed := m\<rparr>))"

definition bs_commit_upgrade :: "env \<Rightarrow> address \<Rightarrow> nat \<Rightarrow> 'z based_scheme \<Rightarrow> 'z based_scheme res" where
  "bs_commit_upgrade e admin new_wasm_hash = bs_on_managed (entry_commit_upgrade e admin new_wasm_hash)"

definition bs_apply_upgrade :: "env \<Rightarrow> address \<Rightarrow> 'z based_scheme \<Rightarrow> (nat \<times> 'z based_scheme) res" where
  "bs_apply_upgrade e admin s =
     andthen (entry_apply_upgrade e admin (bs_managed s)) (\<lambda>(h, m). Inr (h, s\<lparr>bs_managed := m\<rparr>))"

definition bs_revert_upgrade :: "env \<Rightarrow> address \<Rightarrow> 'z based_scheme \<Rightarrow> 'z based_scheme res" where
  "bs_revert_upgrade e admin = bs_on_managed (entry_revert_upgrade e admin)"

definition bs_set_emergency_mode :: "env \<Rightarrow> address \<Rightarrow> bool \<Rightarrow> 'z based_scheme \<Rightarrow> 'z based_scheme res" where
  "bs_set_emergency_mode e emergency_admin v = bs_on_managed (entry_set_emergency_mode e emergency_admin v)"

definition bs_get_emergency_mode :: "'z based_scheme \<Rightarrow> bool" where
  "bs_get_emergency_mode s = get_emergency_mode (mg_ac (bs_managed s))"

definition bs_commit_transfer_ownership ::
  "env \<Rightarrow> address \<Rightarrow> symbol \<Rightarrow> address \<Rightarrow> 'z based_scheme \<Rightarrow> 'z based_scheme res" where
  "bs_commit_transfer_ownership e admin role_name new_address =
     bs_on_managed (entry_commit_transfer_ownership e admin role_name new_address)"

definition bs_apply_transfer_ownership :: "env \<Rightarrow> address \<Rightarrow> symbol \<Rightarrow> 'z based_scheme \<Rightarrow> 'z based_scheme res" where
  "bs_apply_transfer_ownership e admin role_name = bs_on_managed (entry_apply_transfer_ownership e admin role_name)"

definition bs_revert_transfer_ownership :: "env \<Rightarrow> address \<Rightarrow> symbol \<Rightarrow> 'z based_scheme \<Rightarrow> 'z based_scheme res" where
  "bs_revert_transfer_ownership e admin role_name = bs_on_managed (entry_revert_transfer_ownership e admin role_name)"

definition bs_get_future_address :: "symbol \<Rightarrow> 'z based_scheme \<Rightarrow> address res" where
  "bs_get_future_address role_name s = entry_get_future_address role_name (bs_managed s)"

definition bs_as_role :: "env \<Rightarrow> address \<Rightarrow> role \<Rightarrow> 'z based_scheme \<Rightarrow> unit res" where
  "bs_as_role e a r s = as_role e a r (mg_ac (bs_managed s))"

section \<open>The first roles\<close>

definition first_emergency_admin :: "env \<Rightarrow> address \<Rightarrow> access_control \<Rightarrow> access_control res" where
  \<comment> \<open>a constructor commits and applies at once: the role has no holder yet\<close>
  "first_emergency_admin e emergency_admin ac =
     andthen (commit_transfer_ownership (ledger_timestamp e) EmergencyAdmin emergency_admin ac) (\<lambda>ac.
     andthen (apply_transfer_ownership (ledger_timestamp e) EmergencyAdmin ac) (\<lambda>(_, ac). Inr ac))"

lemma set_role_address_holds:
  "set_role_address r a ac = Inr ac' \<Longrightarrow> holds ac' a r"
  by (auto simp: set_role_address_def res_simps holds_def split: if_splits)

lemma first_emergency_admin_holds:
  assumes "first_emergency_admin e a ac = Inr ac'"
  shows "holds ac' a EmergencyAdmin" and "holds ac b Admin \<Longrightarrow> holds ac' b Admin"
  using assms
  by (auto simp: first_emergency_admin_def commit_transfer_ownership_def apply_transfer_ownership_def put_transfer_ownership_deadline_def
      res_simps holds_def split: if_splits)

chapter \<open>The plane\<close>

text \<open>
  \<^verbatim>\<open>liquidity_pool_plane\<close>: the contract in which every pool publishes its type, parameters and reserves, for
  the liquidity calculator to read. A pool may write its own entry only.
\<close>

record plane_entry =
  pp_pool_type :: symbol
  pp_init_args :: "nat list"
  pp_reserves :: "nat list"

record pool_plane = based +
  pn_data :: "address \<Rightarrow> plane_entry option"

definition get_default_pool :: plane_entry where
  "get_default_pool = \<lparr>pp_pool_type = ''standard'', pp_init_args = [30], pp_reserves = [0, 0]\<rparr>"

definition plane_data :: "address \<Rightarrow> pool_plane \<Rightarrow> plane_entry" where
  "plane_data contract s = (case pn_data s contract of Some p \<Rightarrow> p | None \<Rightarrow> get_default_pool)"

definition plane_init_admin :: "address \<Rightarrow> pool_plane \<Rightarrow> pool_plane res" where
  "plane_init_admin account = bs_on_managed (init_admin account)"

definition plane_update :: "env \<Rightarrow> address \<Rightarrow> symbol \<Rightarrow> nat list \<Rightarrow> nat list \<Rightarrow> pool_plane \<Rightarrow> pool_plane res" where
  "plane_update e pool pool_type init_args reserves s =
     andthen (require_auth e pool) (\<lambda>_.
     Inr (s\<lparr>pn_data := (pn_data s)(pool \<mapsto> \<lparr>pp_pool_type = pool_type, pp_init_args = init_args, pp_reserves = reserves\<rparr>)\<rparr>))"

definition plane_get :: "address list \<Rightarrow> pool_plane \<Rightarrow> (symbol \<times> nat list \<times> nat list) list" where
  "plane_get pools s = map (\<lambda>p. let d = plane_data p s in (pp_pool_type d, pp_init_args d, pp_reserves d)) pools"

section \<open>Administration\<close>

definition plane_commit_upgrade :: "env \<Rightarrow> address \<Rightarrow> nat \<Rightarrow> pool_plane \<Rightarrow> pool_plane res" where
  "plane_commit_upgrade = bs_commit_upgrade"

definition plane_apply_upgrade :: "env \<Rightarrow> address \<Rightarrow> pool_plane \<Rightarrow> (nat \<times> pool_plane) res" where
  "plane_apply_upgrade = bs_apply_upgrade"

definition plane_revert_upgrade :: "env \<Rightarrow> address \<Rightarrow> pool_plane \<Rightarrow> pool_plane res" where
  "plane_revert_upgrade = bs_revert_upgrade"

definition plane_set_emergency_mode :: "env \<Rightarrow> address \<Rightarrow> bool \<Rightarrow> pool_plane \<Rightarrow> pool_plane res" where
  "plane_set_emergency_mode = bs_set_emergency_mode"

definition plane_commit_transfer_ownership :: "env \<Rightarrow> address \<Rightarrow> symbol \<Rightarrow> address \<Rightarrow> pool_plane \<Rightarrow> pool_plane res" where
  "plane_commit_transfer_ownership = bs_commit_transfer_ownership"

definition plane_apply_transfer_ownership :: "env \<Rightarrow> address \<Rightarrow> symbol \<Rightarrow> pool_plane \<Rightarrow> pool_plane res" where
  "plane_apply_transfer_ownership = bs_apply_transfer_ownership"

definition plane_revert_transfer_ownership :: "env \<Rightarrow> address \<Rightarrow> symbol \<Rightarrow> pool_plane \<Rightarrow> pool_plane res" where
  "plane_revert_transfer_ownership = bs_revert_transfer_ownership"

definition plane_get_future_address :: "symbol \<Rightarrow> pool_plane \<Rightarrow> address res" where
  "plane_get_future_address = bs_get_future_address"

section \<open>Runs\<close>

inductive plane_step :: "pool_plane \<Rightarrow> pool_plane \<Rightarrow> bool" where
  update: "plane_update e pool t a r s = Inr s' \<Longrightarrow> plane_step s s'"
| managed: "bs_on_managed f s = Inr s' \<Longrightarrow> plane_step s s'"
| upgraded: "plane_apply_upgrade e admin s = Inr (h, s') \<Longrightarrow> plane_step s s'"

lemma on_managed_data: "bs_on_managed f s = Inr s' \<Longrightarrow> pn_data s' = pn_data s"
  by (auto simp: bs_on_managed_def res_simps)

lemma upgraded_data: "plane_apply_upgrade e admin s = Inr (h, s') \<Longrightarrow> pn_data s' = pn_data s"
  by (auto simp: plane_apply_upgrade_def bs_apply_upgrade_def res_simps)

text \<open>An entry changes only by a call that its pool authorized.\<close>

lemma entry_changed_by_its_pool:
  assumes "plane_step s s'" and "pn_data s' pool \<noteq> pn_data s pool"
  shows "\<exists>e t a r. plane_update e pool t a r s = Inr s' \<and> authorized e pool"
  using assms
proof cases
  case (update e p t a r)
  with assms(2) have "p = pool" and "authorized e p"
    by (auto simp: plane_update_def require_auth_eq_Inr res_simps split: if_splits)
  with update show ?thesis by blast
qed (use assms(2) in \<open>auto dest: on_managed_data upgraded_data\<close>)

text \<open>What a pool wrote is what a reader gets, in the order of the addresses asked for.\<close>

lemma get_after_update:
  assumes "plane_update e pool t a r s = Inr s'"
  shows "plane_get pools s' = map (\<lambda>p. if p = pool then (t, a, r) else hd (plane_get [p] s)) pools"
  using assms by (auto simp: plane_update_def res_simps plane_get_def plane_data_def Let_def)

chapter \<open>The feed of locked tokens\<close>

text \<open>
  \<^verbatim>\<open>locker_feed\<close>: the contract that publishes the total amount of locked tokens, which the boost of the
  rewards reads (\<open>rc_total_locked\<close> in \<open>Rewards\<close>). The operations admin writes it.
\<close>

record locker_feed = based +
  lf_total_supply :: "nat option"

definition feed_constructor :: "env \<Rightarrow> address \<Rightarrow> address \<Rightarrow> address \<Rightarrow> locker_feed \<Rightarrow> locker_feed res" where
  "feed_constructor e admin operations_admin emergency_admin s =
     bs_on_managed (with_ac (\<lambda>ac.
       andthen (get_role_safe ac Admin) (\<lambda>a.
       if a \<noteq> None then Inl (FeedError FD_AlreadyInitialized)
       else
         andthen (set_role_address Admin admin ac) (\<lambda>ac.
         andthen (set_role_address OperationsAdmin operations_admin ac) (\<lambda>ac.
         first_emergency_admin e emergency_admin ac))))) s"

definition set_total_supply :: "env \<Rightarrow> address \<Rightarrow> nat \<Rightarrow> locker_feed \<Rightarrow> locker_feed res" where
  "set_total_supply e operations_admin total_supply s =
     andthen (bs_as_role e operations_admin OperationsAdmin s) (\<lambda>_. Inr (s\<lparr>lf_total_supply := Some total_supply\<rparr>))"

definition total_supply :: "locker_feed \<Rightarrow> nat" where
  "total_supply s = (case lf_total_supply s of Some v \<Rightarrow> v | None \<Rightarrow> 0)"

definition feed_set_privileged_addrs :: "env \<Rightarrow> address \<Rightarrow> address \<Rightarrow> locker_feed \<Rightarrow> locker_feed res" where
  "feed_set_privileged_addrs e admin operations_admin s =
     andthen (bs_as_role e admin Admin s) (\<lambda>_.
     bs_on_managed (with_ac (set_role_address OperationsAdmin operations_admin)) s)"

definition feed_get_privileged_addrs :: "locker_feed \<Rightarrow> (symbol \<times> address list) list res" where
  "feed_get_privileged_addrs s =
     map_res (\<lambda>r. andthen (get_role_safe (mg_ac (bs_managed s)) r) (\<lambda>a.
       Inr (as_symbol r, case a of Some v \<Rightarrow> [v] | None \<Rightarrow> []))) [Admin, OperationsAdmin]"

section \<open>Administration\<close>

definition feed_commit_upgrade :: "env \<Rightarrow> address \<Rightarrow> nat \<Rightarrow> locker_feed \<Rightarrow> locker_feed res" where
  "feed_commit_upgrade = bs_commit_upgrade"

definition feed_apply_upgrade :: "env \<Rightarrow> address \<Rightarrow> locker_feed \<Rightarrow> (nat \<times> locker_feed) res" where
  "feed_apply_upgrade = bs_apply_upgrade"

definition feed_revert_upgrade :: "env \<Rightarrow> address \<Rightarrow> locker_feed \<Rightarrow> locker_feed res" where
  "feed_revert_upgrade = bs_revert_upgrade"

definition feed_set_emergency_mode :: "env \<Rightarrow> address \<Rightarrow> bool \<Rightarrow> locker_feed \<Rightarrow> locker_feed res" where
  "feed_set_emergency_mode = bs_set_emergency_mode"

definition feed_commit_transfer_ownership :: "env \<Rightarrow> address \<Rightarrow> symbol \<Rightarrow> address \<Rightarrow> locker_feed \<Rightarrow> locker_feed res" where
  "feed_commit_transfer_ownership = bs_commit_transfer_ownership"

definition feed_apply_transfer_ownership :: "env \<Rightarrow> address \<Rightarrow> symbol \<Rightarrow> locker_feed \<Rightarrow> locker_feed res" where
  "feed_apply_transfer_ownership = bs_apply_transfer_ownership"

definition feed_revert_transfer_ownership :: "env \<Rightarrow> address \<Rightarrow> symbol \<Rightarrow> locker_feed \<Rightarrow> locker_feed res" where
  "feed_revert_transfer_ownership = bs_revert_transfer_ownership"

definition feed_get_future_address :: "symbol \<Rightarrow> locker_feed \<Rightarrow> address res" where
  "feed_get_future_address = bs_get_future_address"

section \<open>Who can change what\<close>

lemma feed_constructor_roles:
  assumes "feed_constructor e admin operations_admin emergency_admin s = Inr s'"
  shows "holds (mg_ac (bs_managed s')) admin Admin" and "holds (mg_ac (bs_managed s')) emergency_admin EmergencyAdmin"
proof -
  from assms obtain ac1 ac2 ac3 where "set_role_address Admin admin (mg_ac (bs_managed s)) = Inr ac1"
    and "set_role_address OperationsAdmin operations_admin ac1 = Inr ac2"
    and "first_emergency_admin e emergency_admin ac2 = Inr ac3" and "mg_ac (bs_managed s') = ac3"
    by (auto simp: feed_constructor_def bs_on_managed_def with_ac_def res_simps split: if_splits)
  moreover have "holds ac2 admin Admin"
    using calculation(2) set_role_address_holds [OF calculation(1)]
    by (auto simp: set_role_address_def holds_def res_simps split: if_splits)
  ultimately show "holds (mg_ac (bs_managed s')) admin Admin" "holds (mg_ac (bs_managed s')) emergency_admin EmergencyAdmin"
    using first_emergency_admin_holds by simp_all
qed

lemma supply_set_by_operations_admin:
  assumes "set_total_supply e a n s = Inr s'"
  shows "authorized e a \<and> holds (mg_ac (bs_managed s)) a OperationsAdmin \<and> total_supply s' = n"
  using assms by (auto simp: set_total_supply_def bs_as_role_def total_supply_def res_simps)

end
