(* ===== verification/Swap_Fee.thy ===== *)
theory Swap_Fee
  imports Router_Trading Managed_Contracts
begin

text \<open>
  The swap-fee contracts: \<^verbatim>\<open>liquidity_pool_provider_swap_fee\<close>, a collector that passes chained swaps on to
  the router and keeps a fee of their output, and \<^verbatim>\<open>liquidity_pool_provider_swap_fee_factory\<close>, which
  deploys collectors. The fixed-point library, the tokens and the router are the parameter
  \<open>fee_calls\<close>; \<open>routed_calls\<close> fills it with the modelled router.
\<close>

section \<open>The collector\<close>

record fee_collector =
  fc_router :: "address option"
  fc_operator :: "address option"
  fc_destination :: "address option"
  fc_max_fraction :: "nat option"
  fc_denominator :: "nat option"

type_synonym 'w chained = "env \<Rightarrow> address \<Rightarrow> address \<Rightarrow> hop list \<Rightarrow> address \<Rightarrow> nat \<Rightarrow> nat \<Rightarrow> 'w \<Rightarrow> (nat \<times> 'w) res"
  \<comment> \<open>router, user, chain, token in, amount, limit\<close>

record 'w fee_calls =
  fx_fp :: fixed_point
  fx_tokens :: "'w tokens"
  fx_swap_chained :: "'w chained"
  fx_swap_chained_strict :: "'w chained"

definition fee_collector_constructor :: "address \<Rightarrow> address \<Rightarrow> address \<Rightarrow> nat \<Rightarrow> nat \<Rightarrow> fee_collector" where
  "fee_collector_constructor router operator fee_destination max_swap_fee_fraction fee_denominator =
     \<lparr>fc_router = Some router, fc_operator = Some operator, fc_destination = Some fee_destination,
      fc_max_fraction = Some max_swap_fee_fraction, fc_denominator = Some fee_denominator\<rparr>"

definition is_operator :: "env \<Rightarrow> address \<Rightarrow> fee_collector \<Rightarrow> unit res" where
  \<comment> \<open>the two first lines of the operator's handlers\<close>
  "is_operator e operator s =
     andthen (require_auth e operator) (\<lambda>_.
     andthen (stored (fc_operator s)) (\<lambda>op.
     if operator \<noteq> op then Inl (SwapFeeError SF_Unauthorized) else Inr ()))"

definition token_out_of :: "hop list \<Rightarrow> address res" where
  \<comment> \<open>\<open>swaps_chain.last()\<close>\<close>
  "token_out_of swaps_chain =
     (if swaps_chain = [] then Inl (SwapFeeError SF_PathIsEmpty) else Inr (snd (snd (last swaps_chain))))"

definition pf_claim_fees ::
  "'w fee_calls \<Rightarrow> env \<Rightarrow> address \<Rightarrow> address \<Rightarrow> fee_collector \<times> 'w \<Rightarrow> (nat \<times> 'w) res" where
  "pf_claim_fees x e operator token sw =
     (let (s, w) = sw; me = current_contract e in
      andthen (is_operator e operator s) (\<lambda>_.
      let amount = tk_balance (fx_tokens x) token me w in
      andthen (stored (fc_destination s)) (\<lambda>dest.
      andthen (tk_transfer (fx_tokens x) token me dest amount w) (\<lambda>w.
      Inr (as_u128 amount, w)))))"

definition pf_claim_fees_and_swap ::
  "'w fee_calls \<Rightarrow> env \<Rightarrow> address \<Rightarrow> hop list \<Rightarrow> address \<Rightarrow> nat \<Rightarrow> fee_collector \<times> 'w \<Rightarrow> (nat \<times> 'w) res" where
  "pf_claim_fees_and_swap x e operator swaps_chain token out_min sw =
     (let (s, w) = sw; me = current_contract e in
      andthen (is_operator e operator s) (\<lambda>_.
      andthen (token_out_of swaps_chain) (\<lambda>token_out.
      andthen (stored (fc_router s)) (\<lambda>router.
      let amount = as_u128 (tk_balance (fx_tokens x) token me w) in
      andthen (fx_swap_chained x e router me swaps_chain token amount out_min w) (\<lambda>(out_amount, w).
      andthen (stored (fc_destination s)) (\<lambda>dest.
      andthen (tk_transfer (fx_tokens x) token_out me dest (as_i128 out_amount) w) (\<lambda>w.
      Inr (out_amount, w))))))))"

definition fee_allowed :: "nat \<Rightarrow> fee_collector \<Rightarrow> unit res" where
  "fee_allowed fee_fraction s =
     andthen (stored (fc_max_fraction s)) (\<lambda>m.
     if m < fee_fraction then Inl (SwapFeeError SF_FeeFractionTooHigh) else Inr ())"

definition pf_swap_chained ::
  "'w fee_calls \<Rightarrow> env \<Rightarrow> address \<Rightarrow> hop list \<Rightarrow> address \<Rightarrow> nat \<Rightarrow> nat \<Rightarrow> nat \<Rightarrow> fee_collector \<times> 'w \<Rightarrow> (nat \<times> 'w) res" where
  "pf_swap_chained x e user swaps_chain token_in in_amount out_min fee_fraction sw =
     (let (s, w) = sw; me = current_contract e; tk = fx_tokens x in
      andthen (require_auth e user) (\<lambda>_.
      andthen (fee_allowed fee_fraction s) (\<lambda>_.
      andthen (token_out_of swaps_chain) (\<lambda>token_out.
      andthen (tk_transfer tk token_in user me (as_i128 in_amount) w) (\<lambda>w.
      andthen (stored (fc_router s)) (\<lambda>router.
      andthen (fx_swap_chained x e router me swaps_chain token_in in_amount out_min w) (\<lambda>(amount_out, w).
      andthen (stored (fc_denominator s)) (\<lambda>fee_denominator.
      andthen (mul_ceil (fx_fp x) amount_out fee_fraction fee_denominator) (\<lambda>fee_amount.
      andthen (u_sub amount_out fee_amount) (\<lambda>amount_out_w_fee.
      if amount_out_w_fee < out_min then Inl (SwapFeeError SF_OutMinNotSatisfied)
      else
        andthen (tk_transfer tk token_out me user (as_i128 amount_out_w_fee) w) (\<lambda>w.
        Inr (amount_out_w_fee, w))))))))))))"

definition pf_swap_chained_strict_receive ::
  "'w fee_calls \<Rightarrow> env \<Rightarrow> address \<Rightarrow> hop list \<Rightarrow> address \<Rightarrow> nat \<Rightarrow> nat \<Rightarrow> nat \<Rightarrow> fee_collector \<times> 'w \<Rightarrow> (nat \<times> 'w) res" where
  "pf_swap_chained_strict_receive x e user swaps_chain token_in out_amount in_max fee_fraction sw =
     (let (s, w) = sw; me = current_contract e; tk = fx_tokens x in
      andthen (require_auth e user) (\<lambda>_.
      andthen (fee_allowed fee_fraction s) (\<lambda>_.
      andthen (stored (fc_denominator s)) (\<lambda>fee_denominator.
      andthen (u_sub fee_denominator fee_fraction) (\<lambda>rest.
      andthen (mul_ceil (fx_fp x) out_amount fee_denominator rest) (\<lambda>gross_out.
      andthen (token_out_of swaps_chain) (\<lambda>token_out.
      let balance_before = tk_balance tk token_in me w in
      andthen (tk_transfer tk token_in user me (as_i128 in_max) w) (\<lambda>w.
      andthen (stored (fc_router s)) (\<lambda>router.
      andthen (fx_swap_chained_strict x e router me swaps_chain token_in gross_out in_max w) (\<lambda>(amount_in, w).
      andthen (tk_transfer tk token_out me user (as_i128 out_amount) w) (\<lambda>w.
      let balance_after = tk_balance tk token_in me w in
      andthen (if token_in = token_out then andthen (u_sub gross_out out_amount) (\<lambda>f. Inr (as_i128 f)) else Inr 0)
        (\<lambda>fee_in_delta.
      andthen (i128_sub balance_after balance_before) (\<lambda>delta.
      andthen (i128_sub delta fee_in_delta) (\<lambda>refund.
      andthen (if 0 < refund then tk_transfer tk token_in me user refund w else Inr w) (\<lambda>w.
      andthen (u_sub gross_out out_amount) (\<lambda>_.
      Inr (amount_in, w)))))))))))))))))"

section \<open>The factory\<close>

record fee_factory = based +
  ff_router :: "address option"
  ff_wasm :: "nat option"
  ff_sequence :: "address \<Rightarrow> nat option"

record 'w factory_calls =
  fd_sha256 :: "encoded list \<Rightarrow> nat"
  fd_deploy :: "nat \<Rightarrow> nat \<Rightarrow> fee_collector \<Rightarrow> 'w \<Rightarrow> (address \<times> 'w) res"
    \<comment> \<open>salt, wasm, what the constructor stores\<close>

definition fee_factory_constructor ::
  "env \<Rightarrow> address \<Rightarrow> address \<Rightarrow> address \<Rightarrow> nat \<Rightarrow> fee_factory \<Rightarrow> fee_factory res" where
  "fee_factory_constructor e admin emergency_admin router swap_fee_contract_wasm s =
     andthen (bs_on_managed (with_ac (\<lambda>ac.
       andthen (set_role_address Admin admin ac) (first_emergency_admin e emergency_admin))) s) (\<lambda>s.
     Inr (s\<lparr>ff_router := Some router, ff_wasm := Some swap_fee_contract_wasm\<rparr>))"

definition set_swap_fee_contract_wasm :: "env \<Rightarrow> address \<Rightarrow> nat \<Rightarrow> fee_factory \<Rightarrow> fee_factory res" where
  "set_swap_fee_contract_wasm e admin swap_fee_contract_wasm s =
     andthen (bs_as_role e admin Admin s) (\<lambda>_. Inr (s\<lparr>ff_wasm := Some swap_fee_contract_wasm\<rparr>))"

definition get_contract_sequence :: "address \<Rightarrow> fee_factory \<Rightarrow> nat" where
  "get_contract_sequence operator s = (case ff_sequence s operator of Some n \<Rightarrow> n | None \<Rightarrow> 0)"

definition set_contract_sequence :: "address \<Rightarrow> nat \<Rightarrow> fee_factory \<Rightarrow> fee_factory" where
  "set_contract_sequence operator n s = s\<lparr>ff_sequence := (ff_sequence s)(operator \<mapsto> n)\<rparr>"

definition deploy_swap_fee_contract ::
  "'w factory_calls \<Rightarrow> env \<Rightarrow> address \<Rightarrow> address \<Rightarrow> nat \<Rightarrow> nat \<Rightarrow> fee_factory \<times> 'w \<Rightarrow>
   (address \<times> fee_factory \<times> 'w) res" where
  "deploy_swap_fee_contract x e operator fee_destination max_swap_fee_fraction denominator sw =
     (let (s, w) = sw in
      andthen (require_auth e operator) (\<lambda>_.
      let sequence = get_contract_sequence operator s in
      andthen (u32_add sequence 1) (\<lambda>n.
      let s = set_contract_sequence operator n s;
          salt = fd_sha256 x [E_Address operator, E_U32 sequence] in
      andthen (stored (ff_wasm s)) (\<lambda>wasm.
      andthen (stored (ff_router s)) (\<lambda>router.
      andthen (fd_deploy x salt wasm
        (fee_collector_constructor router operator fee_destination max_swap_fee_fraction denominator) w) (\<lambda>(address, w).
      Inr (address, s, w)))))))"


section \<open>Administration of the factory\<close>

definition factory_commit_upgrade :: "env \<Rightarrow> address \<Rightarrow> nat \<Rightarrow> fee_factory \<Rightarrow> fee_factory res" where
  "factory_commit_upgrade = bs_commit_upgrade"

definition factory_apply_upgrade :: "env \<Rightarrow> address \<Rightarrow> fee_factory \<Rightarrow> (nat \<times> fee_factory) res" where
  "factory_apply_upgrade = bs_apply_upgrade"

definition factory_revert_upgrade :: "env \<Rightarrow> address \<Rightarrow> fee_factory \<Rightarrow> fee_factory res" where
  "factory_revert_upgrade = bs_revert_upgrade"

definition factory_set_emergency_mode :: "env \<Rightarrow> address \<Rightarrow> bool \<Rightarrow> fee_factory \<Rightarrow> fee_factory res" where
  "factory_set_emergency_mode = bs_set_emergency_mode"

definition factory_commit_transfer_ownership :: "env \<Rightarrow> address \<Rightarrow> symbol \<Rightarrow> address \<Rightarrow> fee_factory \<Rightarrow> fee_factory res" where
  "factory_commit_transfer_ownership = bs_commit_transfer_ownership"

definition factory_apply_transfer_ownership :: "env \<Rightarrow> address \<Rightarrow> symbol \<Rightarrow> fee_factory \<Rightarrow> fee_factory res" where
  "factory_apply_transfer_ownership = bs_apply_transfer_ownership"

definition factory_revert_transfer_ownership :: "env \<Rightarrow> address \<Rightarrow> symbol \<Rightarrow> fee_factory \<Rightarrow> fee_factory res" where
  "factory_revert_transfer_ownership = bs_revert_transfer_ownership"

definition factory_get_future_address :: "symbol \<Rightarrow> fee_factory \<Rightarrow> address res" where
  "factory_get_future_address = bs_get_future_address"

section \<open>Every deployment has a salt of its own\<close>

inductive factory_run ::
  "'w factory_calls \<Rightarrow> fee_factory \<times> 'w \<Rightarrow> fee_factory \<times> 'w \<Rightarrow> (address \<times> nat) list \<Rightarrow> bool" for x sw where
  start: "(\<forall>operator. ff_sequence (fst sw) operator = None) \<Longrightarrow> factory_run x sw sw []"
| deploy: "factory_run x sw (s, w) used \<Longrightarrow>
    deploy_swap_fee_contract x e operator dest max_fee denominator (s, w) = Inr (a, s', w') \<Longrightarrow>
    factory_run x sw (s', w') ((operator, get_contract_sequence operator s) # used)"
| set_wasm: "factory_run x sw (s, w) used \<Longrightarrow> set_swap_fee_contract_wasm e admin h s = Inr s' \<Longrightarrow>
    factory_run x sw (s', w) used"
| managed: "factory_run x sw (s, w) used \<Longrightarrow> bs_on_managed f s = Inr s' \<Longrightarrow> factory_run x sw (s', w) used"
| world: "factory_run x sw (s, w) used \<Longrightarrow> factory_run x sw (s, w') used"

lemma sequence_set: "get_contract_sequence a (set_contract_sequence b n s) = (if a = b then n else get_contract_sequence a s)"
  by (simp add: get_contract_sequence_def set_contract_sequence_def)

lemma deploy_sequence:
  "deploy_swap_fee_contract x e operator dest m d (s, w) = Inr (a, s', w') \<Longrightarrow>
    s' = set_contract_sequence operator (get_contract_sequence operator s + 1) s"
  by (auto simp: deploy_swap_fee_contract_def Let_def res_simps)

lemma salts_are_fresh:
  assumes "factory_run x sw sw' used"
  shows "distinct used \<and> (\<forall>(operator, n) \<in> set used. n < get_contract_sequence operator (fst sw'))"
  using assms
proof (induction rule: factory_run.induct)
  case (deploy s w used e operator dest max_fee denominator a s' w')
  then show ?case using deploy_sequence [OF deploy.hyps(2)] by (fastforce simp: sequence_set split: if_splits)
next
  case (set_wasm s w used e admin h s')
  then show ?case by (auto simp: set_swap_fee_contract_wasm_def res_simps get_contract_sequence_def)
next
  case (managed s w used f s')
  then show ?case by (auto simp: bs_on_managed_def res_simps get_contract_sequence_def)
qed simp_all

section \<open>The collector in front of the modelled router\<close>

definition routed_calls :: "fixed_point \<Rightarrow> 'w router_calls \<Rightarrow> address \<Rightarrow> (router \<times> 'w) fee_calls" where
  "routed_calls fp x router = \<lparr>
     fx_fp = fp, fx_tokens = on_tokens (rx_tokens x),
     fx_swap_chained = (\<lambda>e r u chain t n m (s, w).
       if r = router then andthen (rt_swap_chained x (callee_env e r) u chain t n m (s, w)) (\<lambda>(out, w). Inr (out, s, w))
       else Inl ExternalError),
     fx_swap_chained_strict = (\<lambda>e r u chain t n m (s, w).
       if r = router then andthen (rt_swap_chained_strict_receive x (callee_env e r) u chain t n m (s, w))
         (\<lambda>(used, w). Inr (used, s, w))
       else Inl ExternalError)\<rparr>"

lemma pf_swap_chained_InrE:
  assumes "pf_swap_chained x e user chain token_in n m fee (c, w) = Inr (net, w')"
  obtains w1 w2 r gross d f where "chain \<noteq> []"
    and "tk_transfer (fx_tokens x) token_in user (current_contract e) (as_i128 n) w = Inr w1"
    and "fx_swap_chained x e r (current_contract e) chain token_in n m w1 = Inr (gross, w2)"
    and "fc_denominator c = Some d" and "mul_ceil (fx_fp x) gross fee d = Inr f" and "f \<le> gross" and "net = gross - f"
    and "m \<le> net"
    and "tk_transfer (fx_tokens x) (snd (snd (last chain))) (current_contract e) user (as_i128 net) w2 = Inr w'"
  using assms unfolding pf_swap_chained_def Let_def split_beta
  by (clarsimp simp: andthen_eq_Inr if_Inl_eq_Inr stored_def from_option_eq_Inr require_auth_eq_Inr not_less token_out_of_def
      u_sub_eq_Inr split del: if_split cong: if_cong)

lemma provider_swap_moves:
  assumes pools: "swap_pools x r pool_tokens" and known: "registered x r pool_tokens s w" and fp: "fixed_point_lib fp"
    and run: "pf_swap_chained (routed_calls fp x r) e user chain token_in n m fee (c, s, w) = Inr (net, s', w')"
    and me: "current_contract e = me" and n: "n \<le> U128_MAX" and d: "fc_denominator c = Some d"
    and apart: "me \<noteq> r" "user \<noteq> me" "user \<noteq> r" "\<forall>ts i. get_pool x ts i s \<noteq> Inr me \<and> get_pool x ts i s \<noteq> Inr user"
  shows "\<exists>gross. net = gross - ceil_div (gross * fee) d \<and> ceil_div (gross * fee) d \<le> gross \<and> m \<le> net \<and>
    (\<forall>t. tk_balance (rx_tokens x) t r w' = tk_balance (rx_tokens x) t r w \<and>
      tk_balance (rx_tokens x) t me w' = tk_balance (rx_tokens x) t me w
        + (if t = snd (snd (last chain)) then int (gross - net) else 0) \<and>
      tk_balance (rx_tokens x) t user w' = tk_balance (rx_tokens x) t user w
        - (if t = token_in then int n else 0) + (if t = snd (snd (last chain)) then int net else 0))"
proof -
  let ?bal = "tk_balance (rx_tokens x)" and ?out = "snd (snd (last chain))"
  have ledger: "token_ledger (rx_tokens x)" using pools by (simp add: swap_pools_def)
  from run obtain w1 s1 w2 q gross f where
    t1: "tk_transfer (rx_tokens x) token_in user me (as_i128 n) w = Inr w1"
    and sw: "fx_swap_chained (routed_calls fp x r) e q me chain token_in n m (s, w1) = Inr (gross, s1, w2)"
    and f: "mul_ceil fp gross fee d = Inr f" "f \<le> gross" "net = gross - f" "m \<le> net"
    and t2: "tk_transfer (rx_tokens x) ?out me user (as_i128 net) w2 = Inr w'"
    by (rule pf_swap_chained_InrE) (auto simp: routed_calls_def d me res_simps)
  from sw obtain g where q: "q = r" and rt: "rt_swap_chained x (callee_env e r) me chain token_in n m (s, w1) = Inr (gross, w2)"
    by (auto simp: routed_calls_def res_simps split: if_splits)
  have env: "current_contract (callee_env e r) = r" by (simp add: callee_env_def)
  have known1: "registered x r pool_tokens s w1"
    using known swap_pools.transfer_tokens [OF pools t1] by (simp add: registered_def)
  note mv = swap_pools.chained_moves [OF pools rt env known1 n apart(1)]
  have others: "?bal t user w2 = ?bal t user w1" and gross: "gross \<le> U128_MAX" for t
    using swap_pools.chained_others [OF pools rt env known1 n apart(3,2)] apart(1,4) by auto
  note ta = token_ledger.transfer_moves [OF ledger t1 apart(2)] and fa = token_ledger.transfer_frame [OF ledger t1 apart(2)]
  note tc = token_ledger.transfer_moves [OF ledger t2 apart(2) [symmetric]]
    and fc = token_ledger.transfer_frame [OF ledger t2 apart(2) [symmetric]]
  have in_eq: "as_i128 n = int n" using ta n as_i128_exact by blast
  have "net \<le> U128_MAX" using f(3) gross by simp
  then have out_eq: "as_i128 net = int net" using tc as_i128_exact by blast
  have fee: "f = ceil_div (gross * fee) d" using f(1) fixed_point_lib.mul_ceil_eq_Inr [OF fp] by simp
  have "?bal t r w' = ?bal t r w \<and> ?bal t me w' = ?bal t me w + (if t = ?out then int (gross - net) else 0) \<and>
      ?bal t user w' = ?bal t user w - (if t = token_in then int n else 0) + (if t = ?out then int net else 0)" for t
  proof -
    have "?bal t r w2 = ?bal t r w1" "?bal t me w2 = ?bal t me w1
        - (if t = token_in then int n else 0) + (if t = ?out then int gross else 0)"
      using mv apart(4) by blast+
    moreover have "?bal t me w1 = ?bal t me w + (if t = token_in then int n else 0)"
      "?bal t user w1 = ?bal t user w - (if t = token_in then int n else 0)" "?bal t r w1 = ?bal t r w"
      using ta fa [of t] apart by (auto simp: in_eq)
    moreover have "?bal t me w' = ?bal t me w2 - (if t = ?out then int net else 0)"
      "?bal t user w' = ?bal t user w2 + (if t = ?out then int net else 0)" "?bal t r w' = ?bal t r w2"
      using tc fc [of t] apart by (auto simp: out_eq)
    moreover have "int (gross - net) = int gross - int net" using f by simp
    ultimately show ?thesis using others [of t] by simp
  qed
  then show ?thesis using f fee by (intro exI [of _ gross]) simp
qed


text \<open>
  Claim C9: a swap through a swap-fee contract moves, over the contract, the router and all
  pools, exactly the input from the user, and of the output of the last pool exactly the fee, rounded up, to
  the contract and the rest, at least the user's minimum, to the user; the router keeps nothing.
\<close>

theorem provider_fee_is_exact:
  assumes "swap_pools x r pool_tokens" and "registered x r pool_tokens s w" and "fixed_point_lib fp"
    and "pf_swap_chained (routed_calls fp x r) e user chain token_in n m fee (c, s, w) = Inr (net, s', w')"
    and "current_contract e = me" and "n \<le> U128_MAX" and "fc_denominator c = Some d"
    and "me \<noteq> r" and "user \<noteq> me" and "user \<noteq> r"
    and "\<forall>ts i. get_pool x ts i s \<noteq> Inr me \<and> get_pool x ts i s \<noteq> Inr user"
  shows "\<exists>gross. net = gross - ceil_div (gross * fee) d \<and> ceil_div (gross * fee) d \<le> gross \<and> m \<le> net \<and>
    (\<forall>t. tk_balance (rx_tokens x) t r w' = tk_balance (rx_tokens x) t r w \<and>
      tk_balance (rx_tokens x) t me w' = tk_balance (rx_tokens x) t me w
        + (if t = snd (snd (last chain)) then int (ceil_div (gross * fee) d) else 0) \<and>
      tk_balance (rx_tokens x) t user w' = tk_balance (rx_tokens x) t user w
        - (if t = token_in then int n else 0) + (if t = snd (snd (last chain)) then int net else 0))"
proof -
  obtain gross where g: "net = gross - ceil_div (gross * fee) d" "ceil_div (gross * fee) d \<le> gross" "m \<le> net"
    and b: "\<And>t. tk_balance (rx_tokens x) t r w' = tk_balance (rx_tokens x) t r w \<and>
      tk_balance (rx_tokens x) t me w' = tk_balance (rx_tokens x) t me w
        + (if t = snd (snd (last chain)) then int (gross - net) else 0) \<and>
      tk_balance (rx_tokens x) t user w' = tk_balance (rx_tokens x) t user w
        - (if t = token_in then int n else 0) + (if t = snd (snd (last chain)) then int net else 0)"
    using provider_swap_moves [OF assms] by blast
  from g have "gross - net = ceil_div (gross * fee) d" by simp
  with g b show ?thesis by (intro exI [of _ gross]) simp
qed

definition provider :: fee_collector where
  \<comment> \<open>in front of the router 100, at most 1 percent\<close>
  "provider = fee_collector_constructor 100 7 8 100 10000"

definition provider_env :: env where
  "provider_env = anyone\<lparr>current_contract := 200\<rparr>"

lemma provider_run:
  defines "f \<equiv> [9 \<mapsto> 10000, 6 \<mapsto> 5000, 100 \<mapsto> 0, 200 \<mapsto> 0]" and "g \<equiv> [9 \<mapsto> 10000, 6 \<mapsto> 0, 100 \<mapsto> 0, 200 \<mapsto> 0]"
  shows "\<exists>w'. pf_swap_chained (routed_calls exact_fixed_point cp_router_calls 100) provider_env 6 [([11, 12], 5, 12)] 11 993 890 30
    (provider, trading_router, pools_at sample_pool, trading_world f g) = Inr (897, trading_router, w')"
proof -
  have a: "tk_transfer (gauge_world_tokens anyone) 11 6 200 993 (trading_world f g) =
      Inr (trading_world (f(6 \<mapsto> 4007, 200 \<mapsto> 993)) g)"
    by (simp add: f_def i128_fits_def trading_moves(1) [where a = 5000 and b = 0])
  have b: "tk_transfer (gauge_world_tokens anyone) 11 200 100 993 (trading_world (f(6 \<mapsto> 4007, 200 \<mapsto> 993)) g) =
      Inr (trading_world (f(6 \<mapsto> 4007, 200 \<mapsto> 0, 100 \<mapsto> 993)) g)"
    by (simp add: f_def i128_fits_def trading_moves(1) [where a = 993 and b = 0])
  let ?f = "f(6 \<mapsto> 4007, 200 \<mapsto> 0, 100 \<mapsto> 0, 9 \<mapsto> 10993)" and ?g = "g(9 \<mapsto> 9100, 100 \<mapsto> 900)"
  have s: "cp_swap (standard_calls anyone) pool_env 100 0 (Suc 0) 993 890
      (sample_pool, trading_world (f(6 \<mapsto> 4007, 200 \<mapsto> 0, 100 \<mapsto> 993)) g) = Inr (900, swapped_pool, trading_world ?f ?g)"
    by (subst trading_pool_swap) (simp_all add: f_def g_def)
  have c: "tk_transfer (gauge_world_tokens anyone) 12 100 200 900 (trading_world ?f ?g) =
      Inr (trading_world ?f (g(9 \<mapsto> 9100, 100 \<mapsto> 0, 200 \<mapsto> 900)))"
    by (simp add: g_def i128_fits_def trading_moves(2) [where a = 900 and b = 0])
  have d: "tk_transfer (gauge_world_tokens anyone) 12 200 6 897 (trading_world ?f (g(9 \<mapsto> 9100, 100 \<mapsto> 0, 200 \<mapsto> 900))) =
      Inr (trading_world ?f (g(9 \<mapsto> 9100, 100 \<mapsto> 0, 200 \<mapsto> 3, 6 \<mapsto> 897)))"
    by (simp add: g_def i128_fits_def trading_moves(2) [where a = 900 and b = 0])
  have e: "callee_env (callee_env provider_env 100) 9 = pool_env" "current_contract provider_env = 200"
    "authorized provider_env 6" "current_contract (callee_env provider_env 100) = 100" "authorized (callee_env provider_env 100) 200"
    by (simp_all add: callee_env_def provider_env_def pool_env_def anyone_def)
  have fee: "mul_ceil exact_fixed_point 900 30 10000 = Inr 3"
    by (simp add: fixed_point_lib.mul_ceil_eq [OF exact_lib] ceil_div_def U128_MAX_def)
  have run: "rt_swap_chained cp_router_calls (callee_env provider_env 100) 200 [([11, 12], 5, 12)] 11 993 890
      (trading_router, pools_at sample_pool, trading_world (f(6 \<mapsto> 4007, 200 \<mapsto> 993)) g) =
      Inr (900, pools_at swapped_pool, trading_world ?f (g(9 \<mapsto> 9100, 100 \<mapsto> 0, 200 \<mapsto> 900)))"
    by (simp add: rt_swap_chained_def require_auth_def e cp_router_simps as_i128_def I128_MAX_def b c s trading_get_pool
        index_of_def pools_at_def)
  show ?thesis
    by (simp add: pf_swap_chained_def routed_calls_def require_auth_def e provider_def fee_collector_constructor_def
        fee_allowed_def stored_def token_out_of_def cp_router_simps as_i128_def I128_MAX_def a run fee d u_sub_def)
qed

theorem provider_fee_is_exact_witness:
  "\<exists>w w' s gross. pf_swap_chained (routed_calls exact_fixed_point cp_router_calls 100) provider_env 6 [([11, 12], 5, 12)] 11 993 890 30
    (provider, trading_router, w) = Inr (897, s, w') \<and> 897 = gross - ceil_div (gross * 30) 10000"
proof -
  obtain f g w' where run: "pf_swap_chained (routed_calls exact_fixed_point cp_router_calls 100) provider_env 6 [([11, 12], 5, 12)]
      11 993 890 30 (provider, trading_router, pools_at sample_pool, trading_world f g) = Inr (897, trading_router, w')"
    using provider_run by blast
  have known: "registered cp_router_calls 100 cp_pool_tokens trading_router (pools_at sample_pool, trading_world f g)"
    by (simp add: registered_def trading_get_pool cp_pool_tokens_def pools_at_def sample_pool_def cp_get_tokens_def stored_def)
  have apart: "\<forall>ts i. get_pool cp_router_calls ts i trading_router \<noteq> Inr 200 \<and> get_pool cp_router_calls ts i trading_router \<noteq> Inr 6"
    by (simp add: trading_get_pool)
  have "current_contract provider_env = 200" "fc_denominator provider = Some 10000"
    by (simp_all add: provider_env_def provider_def fee_collector_constructor_def)
  from provider_fee_is_exact [OF cp_swaps.swap_pools_axioms known exact_lib run this(1) _ this(2) _ _ _ apart]
  have "\<exists>gross. 897 = gross - ceil_div (gross * 30) 10000" by (auto simp: U128_MAX_def)
  with run show ?thesis by blast
qed

end
