(* ===== verification/Guard_Batcher.thy ===== *)
theory Guard_Batcher
  imports Host_Values
begin

text \<open>
  The two contracts that call other contracts on behalf of a user: \<^verbatim>\<open>guard/src/lib.rs\<close>, which
  compares the result of a call with an expected value, and \<^verbatim>\<open>batcher/src/lib.rs\<close>, which makes a list of
  calls. They keep no state; what they call is the parameter \<open>call\<close> over a world \<open>'w\<close>.
\<close>

type_synonym 'w call = "env \<Rightarrow> address \<Rightarrow> symbol \<Rightarrow> val list \<Rightarrow> 'w \<Rightarrow> (val \<times> 'w) res"

section \<open>Comparison of values\<close>

datatype scval_type = T_Bool | T_Void | T_U32 | T_I32 | T_U64 | T_I64 | T_U128 | T_I128 | T_U256 | T_I256
  | T_Bytes | T_String | T_Symbol | T_Vec | T_Map | T_Address | T_Error | T_Timepoint | T_Duration

fun get_scval_type :: "val \<Rightarrow> scval_type" where
  "get_scval_type (V_Bool _) = T_Bool"
| "get_scval_type V_Void = T_Void"
| "get_scval_type (V_U32 _) = T_U32"
| "get_scval_type (V_I32 _) = T_I32"
| "get_scval_type (V_U64 _) = T_U64"
| "get_scval_type (V_I64 _) = T_I64"
| "get_scval_type (V_U128 _) = T_U128"
| "get_scval_type (V_I128 _) = T_I128"
| "get_scval_type (V_U256 _) = T_U256"
| "get_scval_type (V_I256 _) = T_I256"
| "get_scval_type (V_Bytes _) = T_Bytes"
| "get_scval_type (V_String _) = T_String"
| "get_scval_type (V_Symbol _) = T_Symbol"
| "get_scval_type (V_Vec _) = T_Vec"
| "get_scval_type (V_Map _) = T_Map"
| "get_scval_type (V_Address _) = T_Address"
| "get_scval_type (V_Error _) = T_Error"
| "get_scval_type (V_Timepoint _) = T_Timepoint"
| "get_scval_type (V_Duration _) = T_Duration"

fun recursive_assert :: "val \<Rightarrow> val \<Rightarrow> bool res" and assert_items :: "val list \<Rightarrow> val list \<Rightarrow> bool res" where
  \<comment> \<open>two maps: \<open>extract::<Vec<(Val, Val)>>\<close> of a map value fails, a map is not a vector\<close>
  "recursive_assert (V_Vec as) b =
     (case b of V_Vec bs \<Rightarrow> if length as \<noteq> length bs then Inr False else assert_items as bs
      | _ \<Rightarrow> Inl (GuardError GD_TypesMismatch))"
| "recursive_assert a b =
     (if get_scval_type a \<noteq> get_scval_type b then Inl (GuardError GD_TypesMismatch)
      else if get_scval_type a = T_Map then Inl (GuardError GD_InvalidValue)
      else if get_scval_type a \<in> {T_Error, T_Timepoint, T_Duration} then Inl (GuardError GD_UnsupportedType)
      else Inr (a = b))"
| "assert_items (a # as) (b # bs) =
     andthen (recursive_assert a b) (\<lambda>same. if \<not> same then Inr False else assert_items as bs)"
| "assert_items as bs = Inr True"

definition assert_result ::
  "'w call \<Rightarrow> env \<Rightarrow> address list \<Rightarrow> address \<Rightarrow> symbol \<Rightarrow> val list \<Rightarrow> val \<Rightarrow> 'w \<Rightarrow> (val \<times> 'w) res" where
  "assert_result call e auth_users contract fn_name args expected_result w =
     andthen (fold_res (\<lambda>user _. require_auth e user) auth_users ()) (\<lambda>_.
     andthen (call e contract fn_name args w) (\<lambda>(result, w).
     andthen (recursive_assert result expected_result) (\<lambda>same.
     if \<not> same then Inl (GuardError GD_ResultsMismatch) else Inr (result, w))))"

section \<open>A batch of calls\<close>

definition batch_call ::
  "'w call \<Rightarrow> env \<Rightarrow> bool \<Rightarrow> address \<times> symbol \<times> val list \<Rightarrow> val list \<times> 'w \<Rightarrow> (val list \<times> 'w) res" where
  "batch_call call e return_result c rw =
     (let (contract, fn_name, args) = c; (results, w) = rw in
      andthen (call e contract fn_name args w) (\<lambda>(result, w).
      Inr (if return_result then results @ [result] else results, w)))"

definition batch ::
  "'w call \<Rightarrow> env \<Rightarrow> address list \<Rightarrow> (address \<times> symbol \<times> val list) list \<Rightarrow> bool \<Rightarrow> 'w \<Rightarrow> (val list \<times> 'w) res" where
  "batch call e auth_users calls return_result w =
     andthen (fold_res (\<lambda>user _. require_auth e user) auth_users ()) (\<lambda>_.
     fold_res (batch_call call e return_result) calls ([], w))"

section \<open>What the guard guarantees\<close>

fun comparable :: "val \<Rightarrow> bool" where
  \<comment> \<open>no map and none of the types the guard does not support\<close>
  "comparable (V_Vec vs) \<longleftrightarrow> (\<forall>v \<in> set vs. comparable v)"
| "comparable v \<longleftrightarrow> get_scval_type v \<notin> {T_Map, T_Error, T_Timepoint, T_Duration}"

lemma assert_equal:
  "recursive_assert a b = Inr same \<Longrightarrow> same \<longleftrightarrow> a = b"
  "assert_items as bs = Inr same' \<Longrightarrow> length as = length bs \<Longrightarrow> same' \<longleftrightarrow> as = bs"
  by (induction a b and as bs arbitrary: same and same' rule: recursive_assert_assert_items.induct)
    (auto simp: andthen_eq_Inr split: if_splits val.splits)

lemma assert_True_iff:
  "recursive_assert a b = Inr True \<longleftrightarrow> a = b \<and> comparable b"
  "length as = length bs \<Longrightarrow> assert_items as bs = Inr True \<longleftrightarrow> as = bs \<and> (\<forall>v \<in> set bs. comparable v)"
  by (induction a b and as bs rule: recursive_assert_assert_items.induct)
    (auto simp: andthen_eq_Inr split: if_splits val.splits)

lemma assert_map: "recursive_assert (V_Map m) v = Inr same \<Longrightarrow> False"
  by (simp split: if_splits)

lemma auth_all: "fold_res (\<lambda>user _. require_auth e user) users () = Inr () \<longleftrightarrow> (\<forall>u \<in> set users. authorized e u)"
  by (induction users) (auto simp: require_auth_def require_eq_Inr res_simps)

text \<open>
  Claim C39: a guarded call succeeds exactly if every user it is made for
  authorized it, the call itself succeeds, it returns the expected value, component by
  component, and that value is built of the types that the guard compares (no map, error, time point or duration).
\<close>

theorem guard_lets_only_expected_pass:
  "assert_result call e users c f args expected w = Inr (r, w') \<longleftrightarrow>
    (\<forall>u \<in> set users. authorized e u) \<and> call e c f args w = Inr (r, w') \<and> r = expected \<and> comparable expected"
proof -
  have same: "recursive_assert a expected = Inr s \<and> s \<longleftrightarrow> s \<and> a = expected \<and> comparable expected" for a s
    using assert_True_iff(1) [of a expected] by (cases s) auto
  show ?thesis
    using same by (auto simp: assert_result_def res_simps auth_all split: if_splits)
qed

theorem guard_lets_only_expected_pass_witness:
  "assert_result (\<lambda>_ _ _ args w. Inr (V_Vec args, w)) \<lparr>ledger_timestamp = 0, ledger_sequence = 0, authorized = (\<lambda>a. a = 5), current_contract = 8\<rparr> [5] 9 ''get'' [V_U32 7] (V_Vec [V_U32 7]) (0 :: nat) =
    Inr (V_Vec [V_U32 7], 0)"
  by (subst guard_lets_only_expected_pass) simp

section \<open>What a batch does\<close>

text \<open>A batch of two lists of calls is the first batch, then the second on the world it left.\<close>

lemma batch_append:
  assumes "\<forall>u \<in> set users. authorized e u"
  shows "batch call e users (calls @ calls') True w =
    andthen (batch call e users calls True w) (\<lambda>(rs, w).
    andthen (batch call e users calls' True w) (\<lambda>(rs', w). Inr (rs @ rs', w)))"
proof -
  let ?f = "batch_call call e True"
  have step: "?f c (pre, w) = andthen (?f c ([], w)) (\<lambda>(rs, w). Inr (pre @ rs, w))" for c pre w
    by (cases c; cases "call e (fst c) (fst (snd c)) (snd (snd c)) w") (auto simp: batch_call_def)
  have later: "fold_res ?f cs (pre, w) = andthen (fold_res ?f cs ([], w)) (\<lambda>(rs, w). Inr (pre @ rs, w))" for cs pre w
  proof (induction cs arbitrary: pre w)
    case (Cons c cs)
    show ?case
    proof (cases "?f c ([], w)")
      case (Inr p)
      obtain rs w1 where p: "p = (rs, w1)" by (cases p)
      show ?thesis
      proof (cases "fold_res ?f cs ([], w1)")
        case a: (Inr q)
        then show ?thesis
          using Inr p step [of c pre w] Cons.IH [of "pre @ rs" w1] Cons.IH [of rs w1] by (cases q) simp
      next
        case a: (Inl x)
        then show ?thesis
          using Inr p step [of c pre w] Cons.IH [of "pre @ rs" w1] Cons.IH [of rs w1] by simp
      qed
    qed (use step [of c pre w] in simp)
  qed simp
  show ?thesis
  proof (cases "fold_res ?f calls ([], w)")
    case (Inr p)
    then show ?thesis
      using later [of calls' "fst p" "snd p"] assms auth_all [of e users]
      by (cases p) (simp add: batch_def fold_res_append)
  qed (use assms auth_all [of e users] in \<open>simp add: batch_def fold_res_append\<close>)
qed

end
