(* ===== verification/Config_Store.thy ===== *)
theory Config_Store
  imports Managed_Contracts Host_Values
begin

text \<open>
  \<^verbatim>\<open>config_storage\<close>: values under keys that the admin chooses, each with the time it was set. The
  contract's own roles, deadlines and pending upgrade live in the same storage: a key is one of these if
  it is the vector of the one symbol that names the source's enum variant. The state keeps the
  contract's own entries in \<open>based\<close> and the values in \<open>ks_values\<close>; a value under one of the contract's
  own keys hides the entry, is not of its type (so that reading the entry panics), and is gone when
  the entry is written again.
\<close>

section \<open>Keys\<close>

datatype own_key = Own_AC ac_key | Own_UpgradeDeadline | Own_FutureWASM

fun ac_key_name :: "ac_key \<Rightarrow> symbol" where
  "ac_key_name K_Admin = ''Admin''"
| "ac_key_name K_EmergencyAdmin = ''EmergencyAdmin''"
| "ac_key_name K_Operator = ''Operator''"
| "ac_key_name K_OperationsAdmin = ''OperationsAdmin''"
| "ac_key_name K_PauseAdmin = ''PauseAdmin''"
| "ac_key_name K_EmPauseAdmins = ''EmPauseAdmins''"
| "ac_key_name K_SystemFeeAdmin = ''SystemFeeAdmin''"
| "ac_key_name K_FutureAdmin = ''FutureAdmin''"
| "ac_key_name K_FutureEmergencyAdmin = ''FutureEmergencyAdmin''"
| "ac_key_name K_TransferOwnershipDeadline = ''TransferOwnershipDeadline''"
| "ac_key_name K_EmAdminTransferOwnershipDeadline = ''EmAdminTransferOwnershipDeadline''"
| "ac_key_name K_EmergencyMode = ''EmergencyMode''"

fun own_key_val :: "own_key \<Rightarrow> val" where
  "own_key_val (Own_AC k) = V_Vec [V_Symbol (ac_key_name k)]"
| "own_key_val Own_UpgradeDeadline = V_Vec [V_Symbol ''UpgradeDeadline'']"
| "own_key_val Own_FutureWASM = V_Vec [V_Symbol ''FutureWASM'']"

section \<open>State\<close>

record config_store = based +
  ks_values :: "val \<Rightarrow> (nat \<times> val) option"

fun own_stored :: "own_key \<Rightarrow> config_store \<Rightarrow> bool" where
  \<comment> \<open>the contract wrote this entry\<close>
  "own_stored (Own_AC k) s \<longleftrightarrow>
     (let ac = mg_ac (bs_managed s) in
      ac_addr ac k \<noteq> None \<or> ac_addrs ac k \<noteq> None \<or> ac_time ac k \<noteq> None \<or> k = K_EmergencyMode \<and> ac_emergency ac \<noteq> None)"
| "own_stored Own_UpgradeDeadline s \<longleftrightarrow> up_deadline (mg_up (bs_managed s)) \<noteq> None"
| "own_stored Own_FutureWASM s \<longleftrightarrow> up_future_wasm (mg_up (bs_managed s)) \<noteq> None"

definition own_keys :: "own_key list" where
  "own_keys = map Own_AC [K_Admin, K_EmergencyAdmin, K_Operator, K_OperationsAdmin, K_PauseAdmin, K_EmPauseAdmins,
     K_SystemFeeAdmin, K_FutureAdmin, K_FutureEmergencyAdmin, K_TransferOwnershipDeadline,
     K_EmAdminTransferOwnershipDeadline, K_EmergencyMode] @ [Own_UpgradeDeadline, Own_FutureWASM]"

definition read_own :: "own_key \<Rightarrow> config_store \<Rightarrow> unit res" where
  \<comment> \<open>the conversion of what is stored to the entry's type\<close>
  "read_own k s = (if ks_values s (own_key_val k) \<noteq> None then Inl HostPanic else Inr ())"

definition write_own :: "own_key list \<Rightarrow> config_store \<Rightarrow> config_store" where
  "write_own ks s = s\<lparr>ks_values := (\<lambda>v. if v \<in> own_key_val ` set ks then None else ks_values s v)\<rparr>"

section \<open>Values\<close>

definition config_constructor :: "env \<Rightarrow> address \<Rightarrow> address \<Rightarrow> config_store \<Rightarrow> config_store res" where
  "config_constructor e admin emergency_admin =
     bs_on_managed (with_ac (\<lambda>ac. andthen (set_role_address Admin admin ac) (first_emergency_admin e emergency_admin)))"

definition protected_key :: "val \<Rightarrow> bool res" where
  "protected_key key =
     (case key of
        V_Vec vs \<Rightarrow>
          (case vs of
             [] \<Rightarrow> Inl HostPanic
           | V_Symbol symbol # _ \<Rightarrow> Inr (symbol \<in> {''Admin'', ''EmergencyAdmin'', ''EmergencyMode''})
           | _ \<Rightarrow> Inr False)
      | _ \<Rightarrow> Inr False)"

definition kv_set_value :: "env \<Rightarrow> address \<Rightarrow> val \<Rightarrow> val \<Rightarrow> config_store \<Rightarrow> config_store res" where
  "kv_set_value e admin key v s =
     andthen (bs_as_role e admin Admin s) (\<lambda>_.
     andthen (protected_key key) (\<lambda>protected.
     if protected then Inl (AccessControlError AC_Unauthorized)
     else Inr (s\<lparr>ks_values := (ks_values s)(key \<mapsto> (ledger_timestamp e, v))\<rparr>)))"

definition config_entry :: "val \<Rightarrow> config_store \<Rightarrow> (nat \<times> val) option res" where
  \<comment> \<open>\<open>get::<Val, (u64, Val)>\<close>\<close>
  "config_entry key s =
     (case ks_values s key of
        Some p \<Rightarrow> Inr (Some p)
      | None \<Rightarrow> if list_ex (\<lambda>k. own_key_val k = key \<and> own_stored k s) own_keys then Inl HostPanic else Inr None)"

definition kv_get_value :: "val \<Rightarrow> config_store \<Rightarrow> val option res" where
  "kv_get_value key s =
     andthen (config_entry key s) (\<lambda>p. Inr (case p of Some (_, v) \<Rightarrow> Some v | None \<Rightarrow> None))"

definition config_get_value_updated_at :: "val \<Rightarrow> config_store \<Rightarrow> nat res" where
  "config_get_value_updated_at key s =
     andthen (config_entry key s) (\<lambda>p. Inr (case p of Some (t, _) \<Rightarrow> t | None \<Rightarrow> 0))"

section \<open>Administration\<close>

definition config_commit_transfer_ownership :: "env \<Rightarrow> address \<Rightarrow> symbol \<Rightarrow> address \<Rightarrow> config_store \<Rightarrow> config_store res" where
  "config_commit_transfer_ownership e admin role_name new_address s =
     andthen (bs_as_role e admin Admin s) (\<lambda>_.
     andthen (from_symbol role_name) (\<lambda>r.
     andthen (get_future_deadline_key r) (\<lambda>deadline.
     andthen (get_future_key r) (\<lambda>future.
     andthen (read_own (Own_AC deadline) s) (\<lambda>_.
     andthen (bs_commit_transfer_ownership e admin role_name new_address s) (\<lambda>s.
     Inr (write_own [Own_AC deadline, Own_AC future] s)))))))"

definition config_apply_transfer_ownership :: "env \<Rightarrow> address \<Rightarrow> symbol \<Rightarrow> config_store \<Rightarrow> config_store res" where
  \<comment> \<open>the new holder is read after the deadline allowed it\<close>
  "config_apply_transfer_ownership e admin role_name s =
     andthen (bs_as_role e admin Admin s) (\<lambda>_.
     andthen (from_symbol role_name) (\<lambda>r.
     andthen (get_future_deadline_key r) (\<lambda>deadline.
     andthen (get_future_key r) (\<lambda>future.
     andthen (read_own (Own_AC deadline) s) (\<lambda>_.
     andthen (bs_apply_transfer_ownership e admin role_name s) (\<lambda>s'.
     andthen (read_own (Own_AC future) s) (\<lambda>_.
     Inr (write_own [Own_AC deadline, Own_AC (get_key r)] s'))))))))"

definition config_revert_transfer_ownership :: "env \<Rightarrow> address \<Rightarrow> symbol \<Rightarrow> config_store \<Rightarrow> config_store res" where
  "config_revert_transfer_ownership e admin role_name s =
     andthen (bs_revert_transfer_ownership e admin role_name s) (\<lambda>s.
     andthen (from_symbol role_name) (\<lambda>r.
     andthen (get_future_deadline_key r) (\<lambda>deadline.
     Inr (write_own [Own_AC deadline] s))))"

definition config_get_future_address :: "symbol \<Rightarrow> config_store \<Rightarrow> address res" where
  "config_get_future_address role_name s =
     andthen (from_symbol role_name) (\<lambda>r.
     andthen (get_future_deadline_key r) (\<lambda>deadline.
     andthen (get_future_key r) (\<lambda>future.
     andthen (read_own (Own_AC deadline) s) (\<lambda>_.
     andthen (get_transfer_ownership_deadline (mg_ac (bs_managed s)) r) (\<lambda>d.
     andthen (if d = 0 then Inr () else read_own (Own_AC future) s) (\<lambda>_.
     bs_get_future_address role_name s))))))"

definition config_commit_upgrade :: "env \<Rightarrow> address \<Rightarrow> nat \<Rightarrow> config_store \<Rightarrow> config_store res" where
  "config_commit_upgrade e admin new_wasm_hash s =
     andthen (bs_as_role e admin Admin s) (\<lambda>_.
     andthen (read_own Own_UpgradeDeadline s) (\<lambda>_.
     andthen (bs_commit_upgrade e admin new_wasm_hash s) (\<lambda>s.
     Inr (write_own [Own_UpgradeDeadline, Own_FutureWASM] s))))"

definition config_apply_upgrade :: "env \<Rightarrow> address \<Rightarrow> config_store \<Rightarrow> (nat \<times> config_store) res" where
  "config_apply_upgrade e admin s =
     andthen (bs_as_role e admin Admin s) (\<lambda>_.
     andthen (read_own Own_UpgradeDeadline s) (\<lambda>_.
     andthen (bs_apply_upgrade e admin s) (\<lambda>(h, s').
     andthen (read_own Own_FutureWASM s) (\<lambda>_.
     Inr (h, write_own [Own_UpgradeDeadline] s')))))"

definition config_revert_upgrade :: "env \<Rightarrow> address \<Rightarrow> config_store \<Rightarrow> config_store res" where
  "config_revert_upgrade e admin s =
     andthen (bs_revert_upgrade e admin s) (\<lambda>s. Inr (write_own [Own_UpgradeDeadline] s))"

definition config_set_emergency_mode :: "env \<Rightarrow> address \<Rightarrow> bool \<Rightarrow> config_store \<Rightarrow> config_store res" where
  "config_set_emergency_mode = bs_set_emergency_mode"

section \<open>Histories\<close>

inductive config_step :: "config_store \<Rightarrow> config_store \<Rightarrow> bool" where
  set_value: "kv_set_value e a key v s = Inr s' \<Longrightarrow> config_step s s'"
| commit_transfer: "config_commit_transfer_ownership e a r x s = Inr s' \<Longrightarrow> config_step s s'"
| apply_transfer: "config_apply_transfer_ownership e a r s = Inr s' \<Longrightarrow> config_step s s'"
| revert_transfer: "config_revert_transfer_ownership e a r s = Inr s' \<Longrightarrow> config_step s s'"
| commit_upgrade: "config_commit_upgrade e a h s = Inr s' \<Longrightarrow> config_step s s'"
| apply_upgrade: "config_apply_upgrade e a s = Inr (h, s') \<Longrightarrow> config_step s s'"
| revert_upgrade: "config_revert_upgrade e a s = Inr s' \<Longrightarrow> config_step s s'"
| emergency: "config_set_emergency_mode e a b s = Inr s' \<Longrightarrow> config_step s s'"

lemma bs_keeps_values:
  "bs_on_managed f s = Inr s' \<Longrightarrow> ks_values s' = ks_values s"
  "bs_apply_upgrade e a s = Inr (h, s') \<Longrightarrow> ks_values s' = ks_values s"
  by (auto simp: bs_on_managed_def bs_apply_upgrade_def res_simps)

lemmas bs_entries = bs_commit_upgrade_def bs_revert_upgrade_def bs_set_emergency_mode_def
  bs_commit_transfer_ownership_def bs_apply_transfer_ownership_def bs_revert_transfer_ownership_def

text \<open>Only \<open>set_value\<close> adds a value; every other call may only uncover entries of the contract.\<close>

lemma values_from_set_value:
  assumes "config_step s s'" and "ks_values s' key = Some p" and "ks_values s key \<noteq> Some p"
  shows "\<exists>e a. kv_set_value e a key (snd p) s = Inr s' \<and> fst p = ledger_timestamp e"
  using assms
proof cases
  case (set_value e a key' v)
  have eff: "s' = s\<lparr>ks_values := (ks_values s)(key' \<mapsto> (ledger_timestamp e, v))\<rparr>"
    using set_value by (auto simp: kv_set_value_def res_simps split: if_splits)
  have "key = key'" using assms(2,3) by (auto simp: eff split: if_splits)
  moreover have "p = (ledger_timestamp e, v)" using assms(2) calculation by (simp add: eff)
  ultimately show ?thesis using set_value by (intro exI [of _ e] exI [of _ a]) simp
qed (use assms(2,3) in \<open>auto simp: config_commit_transfer_ownership_def config_apply_transfer_ownership_def
    config_revert_transfer_ownership_def config_commit_upgrade_def config_apply_upgrade_def config_revert_upgrade_def
    config_set_emergency_mode_def bs_entries res_simps write_own_def bs_keeps_values split: if_splits dest: bs_keeps_values\<close>)

text \<open>The keys of the two guarded roles and of the emergency mode never hold a value.\<close>

definition roles_readable :: "config_store \<Rightarrow> bool" where
  "roles_readable s \<longleftrightarrow> (\<forall>k \<in> {K_Admin, K_EmergencyAdmin, K_EmergencyMode}. read_own (Own_AC k) s = Inr ())"

lemma read_own_eq_Inr [res_simps]: "read_own k s = Inr u \<longleftrightarrow> ks_values s (own_key_val k) = None"
  by (cases "ks_values s (own_key_val k)") (simp_all add: read_own_def)

lemma roles_stay_readable:
  assumes "config_step s s'" and "roles_readable s"
  shows "roles_readable s'"
proof -
  have "ks_values s' (own_key_val (Own_AC k)) = None" if k: "k \<in> {K_Admin, K_EmergencyAdmin, K_EmergencyMode}" for k
  proof (rule ccontr)
    assume "\<not> ?thesis"
    then obtain p where p: "ks_values s' (own_key_val (Own_AC k)) = Some p" by auto
    have "ks_values s (own_key_val (Own_AC k)) = None"
      using assms(2) k by (auto simp add: roles_readable_def read_own_eq_Inr)
    then obtain e a where "kv_set_value e a (own_key_val (Own_AC k)) (snd p) s = Inr s'"
      using values_from_set_value [OF assms(1) p] by auto
    then show False using k by (auto simp: kv_set_value_def protected_key_def res_simps)
  qed
  then show ?thesis by (simp add: roles_readable_def read_own_eq_Inr)
qed

text \<open>A value is read back as it was set, with its time.\<close>

lemma value_read_back:
  assumes "kv_set_value e a key v s = Inr s'"
  shows "kv_get_value key s' = Inr (Some v)" and "config_get_value_updated_at key s' = Inr (ledger_timestamp e)"
    and "key' \<noteq> key \<Longrightarrow> ks_values s' key' = ks_values s key'"
  using assms by (auto simp: kv_set_value_def kv_get_value_def config_get_value_updated_at_def config_entry_def
      res_simps split: if_splits)

text \<open>
  A value under the key of the upgrade's deadline is accepted, and stops every upgrade until the
  pending one is reverted.
\<close>

lemma value_blocks_upgrades:
  assumes "bs_as_role e a Admin s = Inr ()"
  shows "\<exists>s'. kv_set_value e a (V_Vec [V_Symbol ''UpgradeDeadline'']) v s = Inr s' \<and>
    (\<forall>e a h. \<exists>err. config_commit_upgrade e a h s' = Inl err) \<and> (\<forall>e a. \<exists>err. config_apply_upgrade e a s' = Inl err)"
proof -
  let ?s = "s\<lparr>ks_values := (ks_values s)(V_Vec [V_Symbol ''UpgradeDeadline''] \<mapsto> (ledger_timestamp e, v))\<rparr>"
  have "kv_set_value e a (V_Vec [V_Symbol ''UpgradeDeadline'']) v s = Inr ?s"
    using assms by (simp add: kv_set_value_def protected_key_def)
  moreover have "\<exists>err. config_commit_upgrade e a h ?s = Inl err" for e a h
    by (cases "bs_as_role e a Admin ?s") (simp_all add: config_commit_upgrade_def read_own_def)
  moreover have "\<exists>err. config_apply_upgrade e a ?s = Inl err" for e a
    by (cases "bs_as_role e a Admin ?s") (simp_all add: config_apply_upgrade_def read_own_def)
  ultimately show ?thesis by blast
qed

end
