(* ===== verification/Calculator.thy ===== *)
theory Calculator
  imports Managed_Contracts Host_Values Fixed_Point
begin

text \<open>
  \<^verbatim>\<open>liquidity_pool_liquidity_calculator\<close>: how much liquidity a pool has, from the data the pool published on
  the plane, for the router to split rewards. A vector of the plane is a list; \<open>item\<close> is \<open>get(i).unwrap()\<close>.
\<close>

section \<open>Prices and weights\<close>

definition LC_FEE_MULTIPLIER :: nat where "LC_FEE_MULTIPLIER = 10000"
definition LC_PRECISION :: nat where "LC_PRECISION = 1000000"
definition RESERVES_NORM :: nat where "RESERVES_NORM = 10000000000"

definition price_weight :: "nat \<Rightarrow> nat \<Rightarrow> nat res" where
  \<comment> \<open>\<open>(min_price / price)^8\<close>, one checked product and one quotient at a time\<close>
  "price_weight price min_price =
     (if price = 0 then Inr 0
      else
        fold_res (\<lambda>_ result. andthen (u128_mul result min_price) (\<lambda>p. u_div p price)) [0..<8] LC_PRECISION)"

definition get_next_in_amt :: "nat \<Rightarrow> nat res" where
  "get_next_in_amt in_amt = andthen (u128_mul in_amt 100) (\<lambda>p. u_div p 125)"

definition get_max_reserve :: "nat list \<Rightarrow> nat" where
  "get_max_reserve reserves = fold (\<lambda>v m. if m < v then v else m) reserves 0"

definition normalize_reserves :: "nat list \<Rightarrow> (nat list \<times> nat \<times> nat) res" where
  "normalize_reserves reserves =
     (let max_reserve = get_max_reserve reserves in
      if max_reserve = 0 then Inr (reserves, 1, 1)
      else if RESERVES_NORM * 2 < max_reserve then
        (let nominator = max_reserve div RESERVES_NORM in
         Inr (map (\<lambda>v. v div nominator) reserves, nominator, 1))
      else if max_reserve < RESERVES_NORM div 2 then
        (let denominator = RESERVES_NORM div max_reserve in
         andthen (map_res (\<lambda>v. u128_mul v denominator) reserves) (\<lambda>rs. Inr (rs, 1, denominator)))
      else Inr (reserves, 1, 1))"

section \<open>Standard pools\<close>

definition standard_liquidity :: "fixed_point \<Rightarrow> nat \<Rightarrow> nat list \<Rightarrow> nat \<Rightarrow> nat res" where
  "standard_liquidity fp fee_fraction reserves in_idx =
     andthen (item reserves in_idx) (\<lambda>x.
     andthen (u_sub LC_FEE_MULTIPLIER fee_fraction) (\<lambda>rest.
     andthen (u128_mul 56 rest) (\<lambda>d.
     mul_floor fp x LC_FEE_MULTIPLIER d)))"

section \<open>Stable pools\<close>

definition lc_a :: "fixed_point \<Rightarrow> env \<Rightarrow> nat \<Rightarrow> nat \<Rightarrow> nat \<Rightarrow> nat \<Rightarrow> nat res" where
  \<comment> \<open>the amplification, along its ramp\<close>
  "lc_a fp e initial_a initial_a_time future_a future_a_time =
     (let now = ledger_timestamp e in
      if now < future_a_time then
        andthen (u_sub now initial_a_time) (\<lambda>dt.
        andthen (u_sub future_a_time initial_a_time) (\<lambda>span.
        if initial_a < future_a then
          andthen (u_sub future_a initial_a) (\<lambda>da. andthen (mul_floor fp da dt span) (\<lambda>k. u128_add initial_a k))
        else
          andthen (u_sub initial_a future_a) (\<lambda>da. andthen (mul_floor fp da dt span) (\<lambda>k. u_sub initial_a k))))
      else Inr future_a)"

definition LC_ROUNDS :: nat where "LC_ROUNDS = 255"

definition close :: "nat \<Rightarrow> nat \<Rightarrow> bool" where
  "close a b \<longleftrightarrow> (if b < a then a - b \<le> 1 else b - a \<le> 1)"

definition lc_d_step :: "fixed_point \<Rightarrow> nat \<Rightarrow> nat \<Rightarrow> nat list \<Rightarrow> nat \<Rightarrow> nat \<Rightarrow> nat res" where
  "lc_d_step fp n ann xp s d =
     andthen (fold_res (\<lambda>x1 d_p. andthen (u128_mul x1 n) (\<lambda>k. mul_floor fp d_p d k)) xp d) (\<lambda>d_p.
     andthen (u128_mul ann s) (\<lambda>a.
     andthen (u128_mul d_p n) (\<lambda>b.
     andthen (u128_add a b) (\<lambda>num.
     andthen (u_sub ann 1) (\<lambda>ann_1.
     andthen (u128_mul ann_1 d) (\<lambda>a.
     andthen (u128_mul (n + 1) d_p) (\<lambda>b.
     andthen (u128_add a b) (\<lambda>den.
     mul_floor fp num d den))))))))"

primrec lc_d_loop :: "nat \<Rightarrow> fixed_point \<Rightarrow> nat \<Rightarrow> nat \<Rightarrow> nat list \<Rightarrow> nat \<Rightarrow> nat \<Rightarrow> nat res" where
  "lc_d_loop 0 fp n ann xp s d = Inl (CalculatorError LC_MaxIterationsReached)"
| "lc_d_loop (Suc k) fp n ann xp s d =
     andthen (lc_d_step fp n ann xp s d) (\<lambda>d'. if close d' d then Inr d' else lc_d_loop k fp n ann xp s d')"

definition lc_get_d :: "fixed_point \<Rightarrow> nat \<Rightarrow> nat list \<Rightarrow> nat \<Rightarrow> nat res" where
  "lc_get_d fp n_coins xp amp =
     andthen (fold_res (\<lambda>x s. u128_add s x) xp 0) (\<lambda>s.
     if s = 0 then Inr 0
     else andthen (u128_mul amp n_coins) (\<lambda>ann. lc_d_loop LC_ROUNDS fp n_coins ann xp s s))"

definition lc_y_step :: "nat \<Rightarrow> nat \<Rightarrow> nat \<Rightarrow> nat \<Rightarrow> nat res" where
  "lc_y_step c b d y =
     andthen (u128_mul y y) (\<lambda>yy.
     andthen (u128_add yy c) (\<lambda>num.
     andthen (u128_mul 2 y) (\<lambda>y2.
     andthen (u128_add y2 b) (\<lambda>y2b.
     andthen (u_sub y2b d) (\<lambda>den. u_div num den)))))"

primrec lc_y_loop :: "nat \<Rightarrow> nat \<Rightarrow> nat \<Rightarrow> nat \<Rightarrow> nat \<Rightarrow> nat res" where
  "lc_y_loop 0 c b d y = Inl (CalculatorError LC_MaxIterationsReached)"
| "lc_y_loop (Suc k) c b d y =
     andthen (lc_y_step c b d y) (\<lambda>y'. if close y' y then Inr y' else lc_y_loop k c b d y')"

definition lc_get_y :: "fixed_point \<Rightarrow> nat \<Rightarrow> nat \<Rightarrow> nat \<Rightarrow> nat \<Rightarrow> nat \<Rightarrow> nat list \<Rightarrow> nat \<Rightarrow> nat res" where
  "lc_get_y fp d n_coins in_idx out_idx x xp amp =
     (if in_idx = out_idx \<or> n_coins \<le> out_idx \<or> n_coins \<le> in_idx then Inl HostPanic
      else
        andthen (u128_mul amp n_coins) (\<lambda>ann.
        andthen (fold_res (\<lambda>i (c, s).
          if i = out_idx then Inr (c, s)
          else
            andthen (if i = in_idx then Inr x else item xp i) (\<lambda>x1.
            andthen (u128_add s x1) (\<lambda>s.
            andthen (u128_mul x1 n_coins) (\<lambda>k.
            andthen (mul_floor fp c d k) (\<lambda>c. Inr (c, s)))))) [0..<n_coins] (d, 0)) (\<lambda>(c, s).
        andthen (u128_mul ann n_coins) (\<lambda>k.
        andthen (mul_floor fp c d k) (\<lambda>c.
        andthen (u_div d ann) (\<lambda>q.
        andthen (u128_add s q) (\<lambda>b.
        lc_y_loop LC_ROUNDS c b d d)))))))"

definition lc_get_dy :: "fixed_point \<Rightarrow> nat \<Rightarrow> nat list \<Rightarrow> nat \<Rightarrow> nat \<Rightarrow> nat \<Rightarrow> nat \<Rightarrow> nat \<Rightarrow> nat res" where
  "lc_get_dy fp d xp fee_fraction amp i j dx =
     andthen (mul_ceil fp dx fee_fraction LC_FEE_MULTIPLIER) (\<lambda>dx_fee.
     andthen (item xp i) (\<lambda>xi.
     andthen (u128_add xi dx) (\<lambda>x.
     andthen (u_sub x dx_fee) (\<lambda>x.
     andthen (lc_get_y fp d (length xp) i j x xp amp) (\<lambda>y.
     if y = 0 then Inr 0
     else andthen (item xp j) (\<lambda>xj. andthen (u_sub xj y) (\<lambda>r. u_sub r 1)))))))"

definition lc_estimate_swap :: "fixed_point \<Rightarrow> nat \<Rightarrow> nat \<Rightarrow> nat \<Rightarrow> nat list \<Rightarrow> nat \<Rightarrow> nat \<Rightarrow> nat \<Rightarrow> nat res" where
  "lc_estimate_swap fp fee_fraction d amp xp in_idx out_idx in_amount =
     lc_get_dy fp d xp fee_fraction amp in_idx out_idx in_amount"

section \<open>Integration of the depth of a stable pool\<close>

record depth_walk =
  dw_result :: nat
  dw_prev_price :: nat
  dw_prev_weight :: nat
  dw_prev_depth :: nat
  dw_first :: bool
  dw_last :: bool
  dw_in_amt :: nat

definition trapezoid :: "nat \<Rightarrow> nat \<Rightarrow> nat \<Rightarrow> depth_walk \<Rightarrow> nat res" where
  \<comment> \<open>\<open>depth_avg * PRECISION * weight_avg / PRECISION * d_price / PRECISION\<close>\<close>
  "trapezoid price weight depth s =
     andthen (u128_add depth (dw_prev_depth s)) (\<lambda>a.
     andthen (u128_add weight (dw_prev_weight s)) (\<lambda>b.
     andthen (u_sub (dw_prev_price s) price) (\<lambda>d_price.
     andthen (u128_mul (a div 2) LC_PRECISION) (\<lambda>k.
     andthen (u128_mul k (b div 2)) (\<lambda>k.
     andthen (u128_mul (k div LC_PRECISION) d_price) (\<lambda>k.
     Inr (k div LC_PRECISION)))))))"

definition depth_round :: "(nat \<Rightarrow> nat res) \<Rightarrow> nat \<Rightarrow> depth_walk \<Rightarrow> depth_walk option res" where
  \<comment> \<open>one pass of the \<open>while\<close>; \<open>None\<close> leaves the loop\<close>
  "depth_round estimate min_price s =
     (if dw_last s \<or> dw_in_amt s \<le> 1 then Inr None
      else
        andthen (estimate (dw_in_amt s)) (\<lambda>depth.
        if depth = 0 then Inr None
        else
          andthen (u128_mul (dw_in_amt s) LC_PRECISION) (\<lambda>k.
          let price = k div depth in
          andthen (price_weight price min_price) (\<lambda>weight.
          if dw_first s then
            Inr (Some (s\<lparr>dw_prev_price := price, dw_prev_depth := depth, dw_prev_weight := weight, dw_first := False\<rparr>))
          else if dw_prev_price s < price \<and> dw_prev_price s < min_price then Inr None
          else
            let last = dw_prev_price s < price;
                (price, weight, depth) = (if last then (min_price, 1, 0) else (price, weight, depth)) in
            andthen (trapezoid price weight depth s) (\<lambda>part.
            andthen (u128_add (dw_result s) part) (\<lambda>result.
            andthen (get_next_in_amt (dw_in_amt s)) (\<lambda>in_amt.
            Inr (Some (s\<lparr>dw_result := result, dw_prev_price := price, dw_prev_weight := weight,
              dw_prev_depth := depth, dw_last := last, dw_in_amt := in_amt\<rparr>)))))))))"

lemma depth_round_decreases:
  assumes "depth_round estimate min_price s = Inr (Some s')"
  shows "2 * dw_in_amt s' + (if dw_first s' then 1 else 0) < 2 * dw_in_amt s + (if dw_first s then 1 else 0)"
proof -
  have "n * 100 div 125 < n" if "1 < n" for n :: nat
    using that by (simp add: less_mult_imp_div_less)
  then show ?thesis
    using assms by (auto simp: depth_round_def Let_def res_simps get_next_in_amt_def split: if_splits)
qed

function depth_rounds :: "(nat \<Rightarrow> nat res) \<Rightarrow> nat \<Rightarrow> depth_walk \<Rightarrow> nat res" where
  "depth_rounds estimate min_price s =
     (case depth_round estimate min_price s of
        Inl err \<Rightarrow> Inl err
      | Inr None \<Rightarrow> Inr (dw_result s)
      | Inr (Some s') \<Rightarrow> depth_rounds estimate min_price s')"
  by pat_completeness auto
termination
  by (relation "measure (\<lambda>(_, _, s). 2 * dw_in_amt s + (if dw_first s then 1 else 0))")
    (auto dest: depth_round_decreases)

declare depth_rounds.simps [simp del]

definition stable_liquidity ::
  "fixed_point \<Rightarrow> nat \<Rightarrow> nat \<Rightarrow> nat list \<Rightarrow> nat list \<Rightarrow> nat \<Rightarrow> nat \<Rightarrow> nat \<Rightarrow> nat \<Rightarrow> nat res" where
  "stable_liquidity fp fee_fraction amp xp_adj xp_norm d_adj d_norm in_idx out_idx =
     andthen (item xp_norm in_idx) (\<lambda>xp_in.
     andthen (item xp_norm out_idx) (\<lambda>xp_out.
     if xp_in = 0 \<or> xp_out = 0 then Inr 0
     else
       andthen (lc_estimate_swap fp fee_fraction d_adj amp xp_adj in_idx out_idx LC_PRECISION) (\<lambda>min_estimate.
       if min_estimate = 0 then Inr 0
       else
         andthen (u128_mul LC_PRECISION LC_PRECISION) (\<lambda>k.
         let min_price = k div min_estimate in
         andthen (u128_mul (get_max_reserve xp_norm) 2) (\<lambda>in_amt.
         andthen (depth_rounds (lc_estimate_swap fp fee_fraction d_norm amp xp_norm in_idx out_idx) min_price
           \<lparr>dw_result = 0, dw_prev_price = 0, dw_prev_weight = 1, dw_prev_depth = 0, dw_first = True,
            dw_last = False, dw_in_amt = in_amt\<rparr>) (\<lambda>result_big.
         Inr (result_big div LC_PRECISION)))))))"

definition stable_pool_liquidity :: "fixed_point \<Rightarrow> nat \<Rightarrow> nat \<Rightarrow> nat list \<Rightarrow> nat res" where
  "stable_pool_liquidity fp fee_fraction amp xp =
     andthen (normalize_reserves xp) (\<lambda>(xp_norm, nominator, denominator).
     let n_tokens = length xp in
     andthen (map_res (\<lambda>v. u128_mul v LC_PRECISION) xp_norm) (\<lambda>xp_adj.
     andthen (lc_get_d fp n_tokens xp_adj amp) (\<lambda>d_adj.
     andthen (lc_get_d fp n_tokens xp_norm amp) (\<lambda>d_norm.
     fold_res (\<lambda>(in_idx, out_idx) result_big.
       if in_idx = out_idx then Inr result_big
       else
         andthen (stable_liquidity fp fee_fraction amp xp_adj xp_norm d_adj d_norm in_idx out_idx) (\<lambda>l.
         andthen (u128_mul l nominator) (\<lambda>l.
         andthen (u_div l denominator) (\<lambda>l.
         u256_add result_big l)))) (List.product [0..<n_tokens] [0..<n_tokens]) 0))))"

chapter \<open>Concentrated pools and the contract\<close>

text \<open>
  The calculator on concentrated pools, whose published data describes the liquidity near the current
  price step by step, and the calculator's contract, which reads the plane.
\<close>

section \<open>Concentrated pools\<close>

record concentrated_data =
  cd_fee :: nat
  cd_tick_spacing :: int
  cd_steps :: nat
  cd_full_range0 :: nat
  cd_full_range1 :: nat
  cd_reserves :: "nat list"

definition RESERVES_PREFIX_SIZE :: nat where "RESERVES_PREFIX_SIZE = 4"

definition get_or_0 :: "nat list \<Rightarrow> nat \<Rightarrow> nat" where
  \<comment> \<open>\<open>get(i).unwrap_or(0)\<close>\<close>
  "get_or_0 xs i = (if i < length xs then xs ! i else 0)"

definition full_range_in :: "concentrated_data \<Rightarrow> nat \<Rightarrow> nat" where
  "full_range_in data in_idx = (if in_idx = 0 then cd_full_range0 data else cd_full_range1 data)"

definition step_pair :: "concentrated_data \<Rightarrow> nat \<Rightarrow> nat \<Rightarrow> nat \<times> nat" where
  "step_pair data step base_offset =
     (if cd_steps data \<le> step then (0, 0)
      else
        let in_idx = sat_add U32_MAX base_offset (sat_mul U32_MAX step 2); out_idx = sat_add U32_MAX in_idx 1 in
        (get_or_0 (cd_reserves data) in_idx, get_or_0 (cd_reserves data) out_idx))"

definition step_0_to_1 :: "concentrated_data \<Rightarrow> nat \<Rightarrow> nat \<times> nat" where
  "step_0_to_1 data step = step_pair data step RESERVES_PREFIX_SIZE"

definition step_1_to_0 :: "concentrated_data \<Rightarrow> nat \<Rightarrow> (nat \<times> nat) res" where
  "step_1_to_0 data step =
     andthen (u32_add RESERVES_PREFIX_SIZE (sat_mul U32_MAX (cd_steps data) 2)) (\<lambda>base.
     Inr (step_pair data step base))"

definition parse_concentrated_data :: "nat list \<Rightarrow> nat list \<Rightarrow> concentrated_data res" where
  "parse_concentrated_data init_args reserves =
     andthen (item init_args 0) (\<lambda>version.
     if version \<noteq> 1 then Inl HostPanic
     else
       andthen (item init_args 1) (\<lambda>fee.
       andthen (item init_args 2) (\<lambda>tick_spacing.
       andthen (item init_args 3) (\<lambda>steps.
       Inr \<lparr>cd_fee = fee, cd_tick_spacing = int (min tick_spacing (2 ^ 31 - 1)), cd_steps = min steps U32_MAX,
         cd_full_range0 = get_or_0 reserves 2, cd_full_range1 = get_or_0 reserves 3, cd_reserves = reserves\<rparr>))))"

definition STEP_GROWTH_SCALE :: nat where "STEP_GROWTH_SCALE = 1000000000000"
definition SQRT_TICK_BASE_FP :: nat where "SQRT_TICK_BASE_FP = 1000049998750"

definition data_step_amounts :: "concentrated_data \<Rightarrow> nat \<Rightarrow> nat \<Rightarrow> (nat \<times> nat) res" where
  "data_step_amounts data in_idx step = (if in_idx = 0 then Inr (step_0_to_1 data step) else step_1_to_0 data step)"

definition relative_price_weight :: "nat \<Rightarrow> nat \<Rightarrow> nat res" where
  "relative_price_weight price reference_price =
     (if price = 0 \<or> reference_price = 0 then Inr 0
      else if reference_price \<le> price then price_weight price reference_price
      else price_weight reference_price price)"

definition chunk_liquidity :: "fixed_point \<Rightarrow> nat \<Rightarrow> nat \<Rightarrow> nat res" where
  "chunk_liquidity fp fee_fraction amount_in =
     (if amount_in = 0 then Inr 0
      else
        andthen (u_sub LC_FEE_MULTIPLIER fee_fraction) (\<lambda>rest.
        andthen (u128_mul 56 rest) (\<lambda>d.
        mul_floor fp amount_in LC_FEE_MULTIPLIER d)))"

fun pow_growth :: "fixed_point \<Rightarrow> nat \<Rightarrow> nat \<Rightarrow> nat \<Rightarrow> nat res" where
  \<comment> \<open>square and multiply; the base is not squared after the last bit\<close>
  "pow_growth fp base exp result =
     (if exp = 0 then Inr result
      else
        andthen (if exp mod 2 = 1 then mul_floor fp result base STEP_GROWTH_SCALE else Inr result) (\<lambda>result.
        andthen (if 0 < exp div 2 then mul_floor fp base base STEP_GROWTH_SCALE else Inr base) (\<lambda>base.
        pow_growth fp base (exp div 2) result)))"

declare pow_growth.simps [simp del]

definition fixed_pow_step_growth :: "fixed_point \<Rightarrow> nat \<Rightarrow> nat \<Rightarrow> nat res" where
  "fixed_pow_step_growth fp base exp = pow_growth fp base exp STEP_GROWTH_SCALE"

definition step_virtual_input :: "fixed_point \<Rightarrow> nat \<Rightarrow> int \<Rightarrow> nat \<Rightarrow> nat res" where
  "step_virtual_input fp amount_in tick_spacing step =
     (if amount_in = 0 \<or> tick_spacing \<le> 0 then Inr amount_in
      else
        let delta_ticks = sat_mul U32_MAX (nat tick_spacing) (sat_add U32_MAX step 1) in
        if delta_ticks = 0 then Inr amount_in
        else
          andthen (fixed_pow_step_growth fp SQRT_TICK_BASE_FP delta_ticks) (\<lambda>sqrt_growth.
          if sqrt_growth \<le> STEP_GROWTH_SCALE then Inr amount_in
          else mul_floor fp amount_in STEP_GROWTH_SCALE (sat_sub sqrt_growth STEP_GROWTH_SCALE)))"

record near_window =
  nw_liquidity :: nat
  nw_raw_in :: nat
  nw_reference :: nat
  nw_edge_weight :: nat

definition near_step :: "fixed_point \<Rightarrow> concentrated_data \<Rightarrow> nat \<Rightarrow> nat \<Rightarrow> near_window \<Rightarrow> near_window res" where
  "near_step fp data in_idx step n =
     andthen (data_step_amounts data in_idx step) (\<lambda>(amount_in, amount_out).
     if amount_in = 0 \<or> amount_out = 0 then Inr n
     else
       andthen (step_virtual_input fp amount_in (cd_tick_spacing data) step) (\<lambda>virtual_in.
       andthen (chunk_liquidity fp (cd_fee data) virtual_in) (\<lambda>l.
       let n = n\<lparr>nw_liquidity := sat_add U128_MAX (nw_liquidity n) l, nw_raw_in := sat_add U128_MAX (nw_raw_in n) amount_in\<rparr> in
       andthen (mul_floor fp amount_in LC_PRECISION amount_out) (\<lambda>price.
       if price = 0 then Inr n
       else
         let reference_price = (if nw_reference n = 0 then price else nw_reference n) in
         andthen (relative_price_weight price reference_price) (\<lambda>weight.
         Inr (n\<lparr>nw_reference := reference_price, nw_edge_weight := weight\<rparr>))))))"

definition near_window_liquidity :: "fixed_point \<Rightarrow> concentrated_data \<Rightarrow> nat \<Rightarrow> nat \<Rightarrow> (nat \<times> nat \<times> nat) res" where
  "near_window_liquidity fp data in_idx steps =
     andthen (fold_res (near_step fp data in_idx) [0..<steps]
       \<lparr>nw_liquidity = 0, nw_raw_in = 0, nw_reference = 0, nw_edge_weight = 0\<rparr>) (\<lambda>n.
     Inr (nw_liquidity n, nw_raw_in n, nw_edge_weight n))"

definition concentrated_liquidity :: "fixed_point \<Rightarrow> concentrated_data \<Rightarrow> nat \<Rightarrow> nat res" where
  "concentrated_liquidity fp data in_idx =
     (let reserve_in = get_or_0 (cd_reserves data) in_idx in
      if reserve_in = 0 then Inr 0
      else
        let full_range = min (full_range_in data in_idx) reserve_in;
            exact_steps = (if 0 < cd_tick_spacing data then cd_steps data else 0) in
        andthen (near_window_liquidity fp data in_idx exact_steps) (\<lambda>(near_liquidity, near_raw_in, edge_weight).
        let remaining_in = sat_sub (sat_sub reserve_in full_range) near_raw_in in
        andthen (if edge_weight = 0 then Inr remaining_in else mul_floor fp remaining_in edge_weight LC_PRECISION) (\<lambda>tail_in.
        andthen (chunk_liquidity fp (cd_fee data) full_range) (\<lambda>full_range_liquidity.
        andthen (chunk_liquidity fp (cd_fee data) tail_in) (\<lambda>tail_liquidity.
        Inr (sat_add U128_MAX (sat_add U128_MAX full_range_liquidity near_liquidity) tail_liquidity))))))"

section \<open>The contract\<close>

record calculator = based +
  lc_plane :: "address option"

type_synonym 'w read_plane = "address \<Rightarrow> address list \<Rightarrow> 'w \<Rightarrow> (symbol \<times> nat list \<times> nat list) list res"
  \<comment> \<open>the plane's \<open>get\<close>, at an address\<close>

definition calculator_init_admin :: "address \<Rightarrow> calculator \<Rightarrow> calculator res" where
  \<comment> \<open>a second call is accepted and changes nothing\<close>
  "calculator_init_admin account =
     bs_on_managed (with_ac (\<lambda>ac.
       andthen (get_role_safe ac Admin) (\<lambda>a.
       if a = None then set_role_address Admin account ac else Inr ac)))"

definition calculator_set_pools_plane :: "env \<Rightarrow> address \<Rightarrow> address \<Rightarrow> calculator \<Rightarrow> calculator res" where
  "calculator_set_pools_plane e admin plane s =
     andthen (bs_as_role e admin Admin s) (\<lambda>_. Inr (s\<lparr>lc_plane := Some plane\<rparr>))"

definition get_pools_plane :: "calculator \<Rightarrow> address res" where
  "get_pools_plane s = from_option HostPanic (lc_plane s)"

definition stable_data_liquidity :: "fixed_point \<Rightarrow> env \<Rightarrow> nat list \<Rightarrow> nat list \<Rightarrow> nat res" where
  \<comment> \<open>\<^verbatim>\<open>parse_stableswap_data\<close>, the amplification now, the liquidity\<close>
  "stable_data_liquidity fp e init_args xp =
     andthen (item init_args 0) (\<lambda>fee.
     andthen (item init_args 1) (\<lambda>initial_a.
     andthen (item init_args 2) (\<lambda>initial_a_time.
     andthen (item init_args 3) (\<lambda>future_a.
     andthen (item init_args 4) (\<lambda>future_a_time.
     andthen (lc_a fp e initial_a initial_a_time future_a future_a_time) (\<lambda>amp.
     stable_pool_liquidity fp fee amp xp))))))"

definition pool_data_liquidity :: "fixed_point \<Rightarrow> env \<Rightarrow> symbol \<times> nat list \<times> nat list \<Rightarrow> nat res" where
  \<comment> \<open>one entry of the plane: both directions of a pool of two tokens\<close>
  "pool_data_liquidity fp e entry =
     (let (pool_type, init_args, reserves) = entry in
      if pool_type = ''standard'' then
        andthen (item init_args 0) (\<lambda>fee.
        andthen (standard_liquidity fp fee reserves 0) (\<lambda>a.
        andthen (standard_liquidity fp fee reserves 1) (\<lambda>b. u256_add a b)))
      else if pool_type = ''stable'' then stable_data_liquidity fp e init_args reserves
      else if pool_type = ''concentrated'' then
        andthen (parse_concentrated_data init_args reserves) (\<lambda>data.
        andthen (concentrated_liquidity fp data 0) (\<lambda>a.
        andthen (concentrated_liquidity fp data 1) (\<lambda>b. u256_add a b)))
      else Inl HostPanic)"

definition calculator_get_liquidity ::
  "fixed_point \<Rightarrow> 'w read_plane \<Rightarrow> env \<Rightarrow> address list \<Rightarrow> calculator \<times> 'w \<Rightarrow> nat list res" where
  "calculator_get_liquidity fp read_plane e pools sw =
     (let (s, w) = sw in
      andthen (get_pools_plane s) (\<lambda>plane.
      andthen (read_plane plane pools w) (\<lambda>data.
      map_res (\<lambda>i. andthen (item data i) (pool_data_liquidity fp e)) [0..<length pools])))"

definition calculator_commit_upgrade :: "env \<Rightarrow> address \<Rightarrow> nat \<Rightarrow> calculator \<Rightarrow> calculator res" where
  "calculator_commit_upgrade = bs_commit_upgrade"

definition calculator_apply_upgrade :: "env \<Rightarrow> address \<Rightarrow> calculator \<Rightarrow> (nat \<times> calculator) res" where
  "calculator_apply_upgrade = bs_apply_upgrade"

definition calculator_revert_upgrade :: "env \<Rightarrow> address \<Rightarrow> calculator \<Rightarrow> calculator res" where
  "calculator_revert_upgrade = bs_revert_upgrade"

definition calculator_set_emergency_mode :: "env \<Rightarrow> address \<Rightarrow> bool \<Rightarrow> calculator \<Rightarrow> calculator res" where
  "calculator_set_emergency_mode = bs_set_emergency_mode"

definition calculator_commit_transfer_ownership :: "env \<Rightarrow> address \<Rightarrow> symbol \<Rightarrow> address \<Rightarrow> calculator \<Rightarrow> calculator res" where
  "calculator_commit_transfer_ownership = bs_commit_transfer_ownership"

definition calculator_apply_transfer_ownership :: "env \<Rightarrow> address \<Rightarrow> symbol \<Rightarrow> calculator \<Rightarrow> calculator res" where
  "calculator_apply_transfer_ownership = bs_apply_transfer_ownership"

definition calculator_revert_transfer_ownership :: "env \<Rightarrow> address \<Rightarrow> symbol \<Rightarrow> calculator \<Rightarrow> calculator res" where
  "calculator_revert_transfer_ownership = bs_revert_transfer_ownership"

definition calculator_get_future_address :: "symbol \<Rightarrow> calculator \<Rightarrow> address res" where
  "calculator_get_future_address = bs_get_future_address"

end
