(* ===== verification/Plane_Data.thy ===== *)
theory Plane_Data
  imports Calculator CL_Plane
begin

text \<open>
  What a concentrated pool publishes on the plane and what the liquidity calculator reads from there
  agree: the calculator's parser recovers the parameters and every step of the pool's data. And the
  normalization of reserves keeps the calculator's arithmetic in range.
\<close>

section \<open>The format of the published data\<close>

lemma collected_length:
  "collect_exact_direction_steps c slot steps base = Inr amounts \<Longrightarrow> length amounts = 2 * steps"
proof -
  have fold: "fold_res (\<lambda>i (st, amounts). andthen (collect_step c k i st) (\<lambda>st.
      Inr (st, amounts @ [wk_in (snd st), wk_out (snd st)]))) is (st, pre) = Inr (st', post) \<Longrightarrow>
    length post = length pre + 2 * length is" for c k "is" st pre st' post
  proof (induction "is" arbitrary: st pre)
    case (Cons i "is")
    then obtain st1 where "fold_res (\<lambda>i (st, amounts). andthen (collect_step c k i st) (\<lambda>st.
        Inr (st, amounts @ [wk_in (snd st), wk_out (snd st)]))) is (st1, pre @ [wk_in (snd st1), wk_out (snd st1)]) =
        Inr (st', post)"
      by (auto simp: andthen_eq_Inr)
    from Cons.IH [OF this] show ?case by simp
  qed simp
  show "collect_exact_direction_steps c slot steps base = Inr amounts \<Longrightarrow> length amounts = 2 * steps"
    by (auto simp: collect_exact_direction_steps_def Let_def andthen_eq_Inr split: if_splits dest!: fold)
qed

lemma exact_steps_bound: "exact_tick_steps_for_spacing spacing \<le> MAX_EXACT_TICK_STEPS"
  by (auto simp: exact_tick_steps_for_spacing_def find_Some_iff split: option.splits dest!: nth_mem)

definition plane_steps :: "fixed_point \<Rightarrow> cl_pool \<Rightarrow> cl_config \<Rightarrow> bool \<Rightarrow> nat list res" where
  \<comment> \<open>the amounts that a pool collects step by step in a direction\<close>
  "plane_steps fp s cf z = collect_exact_direction_steps
     \<lparr>pc_fp = fp, pc_ticks = cl_ticks s, pc_spacing = cf_spacing cf, pc_zero_for_one = z,
      pc_full_range = (0, 0), pc_full_range_liquidity = cl_full_range s\<rparr>
     (cl_slot0 s) (exact_tick_steps_for_spacing (cf_spacing cf)) (sat_sub (cl_liquidity s) (cl_full_range s))"

text \<open>
  Claim C16: the liquidity calculator reads back from the plane exactly what a concentrated pool
  wrote: fee, tick spacing, number of steps, reserves, the reserves of the full range, and, for
  either direction, the two amounts of every step.
\<close>

theorem plane_data_round_trip:
  assumes "get_pool_data fp s = Inr (init_args, reserves)" and "cl_config s = Some cf" and "cf_spacing cf < 2 ^ 31"
  shows "\<exists>data steps0 steps1. parse_concentrated_data init_args reserves = Inr data \<and>
    plane_steps fp s cf True = Inr steps0 \<and> plane_steps fp s cf False = Inr steps1 \<and>
    cd_fee data = cf_fee cf \<and> cd_tick_spacing data = max 0 (cf_spacing cf) \<and>
    cd_steps data = exact_tick_steps_for_spacing (cf_spacing cf) \<and>
    get_or_0 (cd_reserves data) 0 = fst (cl_reserves s) \<and> get_or_0 (cd_reserves data) 1 = snd (cl_reserves s) \<and>
    compute_full_range_reserves fp (cl_slot0 s) (cf_spacing cf) (cl_full_range s) =
      Inr (full_range_in data 0, full_range_in data 1) \<and>
    (\<forall>k < cd_steps data. data_step_amounts data 0 k = Inr (steps0 ! (2 * k), steps0 ! (2 * k + 1)) \<and>
      data_step_amounts data 1 k = Inr (steps1 ! (2 * k), steps1 ! (2 * k + 1)))"
proof -
  define n where "n = exact_tick_steps_for_spacing (cf_spacing cf)"
  from assms(1,2) obtain f0 f1 a b where f: "compute_full_range_reserves fp (cl_slot0 s) (cf_spacing cf) (cl_full_range s) = Inr (f0, f1)"
    and a: "plane_steps fp s cf True = Inr a" and b: "plane_steps fp s cf False = Inr b"
    and i: "init_args = [1, cf_fee cf, (if 0 < cf_spacing cf then nat (cf_spacing cf) else 0), n]"
    and r: "reserves = [fst (cl_reserves s), snd (cl_reserves s), f0, f1] @ a @ b"
    by (auto simp: get_pool_data_def stored_def Let_def andthen_eq_Inr plane_steps_def n_def PLANE_DATA_VERSION_def)
  have len: "length a = 2 * n" "length b = 2 * n"
    using collected_length a b by (auto simp: plane_steps_def n_def)
  have small: "n \<le> 64" using exact_steps_bound [of "cf_spacing cf"] by (simp add: n_def MAX_EXACT_TICK_STEPS_def)
  define data where "data = \<lparr>cd_fee = cf_fee cf, cd_tick_spacing = max 0 (cf_spacing cf), cd_steps = n,
    cd_full_range0 = f0, cd_full_range1 = f1, cd_reserves = reserves\<rparr>"
  have parse: "parse_concentrated_data init_args reserves = Inr data"
    using assms(3) small
    by (auto simp: parse_concentrated_data_def item_def i data_def get_or_0_def r U32_MAX_def)
  have "get_or_0 reserves (4 + k * 2) = a ! (2 * k)" "get_or_0 reserves (5 + k * 2) = a ! (2 * k + 1)" if "k < n" for k
    using that len by (simp_all add: r get_or_0_def nth_append nth_Cons' mult.commute)
  then have "data_step_amounts data 0 k = Inr (a ! (2 * k), a ! (2 * k + 1))" if "k < n" for k
    using that small
    by (simp add: data_step_amounts_def step_0_to_1_def step_pair_def data_def RESERVES_PREFIX_SIZE_def sat_add_def sat_mul_def
        U32_MAX_def Let_def)
  moreover have "get_or_0 reserves (4 + (n * 2 + k * 2)) = b ! (2 * k)"
    "get_or_0 reserves (5 + (n * 2 + k * 2)) = b ! (2 * k + 1)" if "k < n" for k
    using that len by (simp_all add: r get_or_0_def nth_append nth_Cons' mult.commute)
  then have "data_step_amounts data 1 k = Inr (b ! (2 * k), b ! (2 * k + 1))" if "k < n" for k
    using that small
    by (simp add: data_step_amounts_def step_1_to_0_def step_pair_def data_def RESERVES_PREFIX_SIZE_def sat_add_def sat_mul_def
        U32_MAX_def Let_def u_add_def add.assoc)
  ultimately show ?thesis
    using parse a b f
    by (intro exI [of _ data] exI [of _ a] exI [of _ b]) (simp add: data_def n_def full_range_in_def get_or_0_def r)
qed


definition listed_pool :: cl_pool where
  \<comment> \<open>created, with reserves sent in advance, but no price yet\<close>
  "listed_pool = (new_cl_pool 0)\<lparr>cl_config := Some \<lparr>cf_token0 = 11, cf_token1 = 12, cf_fee = 30, cf_spacing = 60\<rparr>,
     cl_reserves := (5, 7)\<rparr>"

theorem plane_data_round_trip_witness:
  "\<exists>init_args reserves data. get_pool_data exact_fixed_point listed_pool = Inr (init_args, reserves) \<and>
    parse_concentrated_data init_args reserves = Inr data \<and> cd_fee data = 30 \<and> cd_tick_spacing data = 60"
proof -
  let ?cf = "\<lparr>cf_token0 = 11, cf_token1 = 12, cf_fee = 30, cf_spacing = 60\<rparr>"
  have c: "cl_config listed_pool = Some ?cf" by (simp add: listed_pool_def)
  obtain init_args reserves where "get_pool_data exact_fixed_point listed_pool = Inr (init_args, reserves)"
    by (simp add: get_pool_data_def listed_pool_def new_cl_pool_def stored_def Let_def compute_full_range_reserves_def
        collect_exact_direction_steps_def)
  with plane_data_round_trip [OF this c] show ?thesis by auto
qed

section \<open>Normalized reserves\<close>

lemma get_max_reserve_eq: "get_max_reserve rs = Max (insert 0 (set rs))"
proof -
  have "fold (\<lambda>v m. if m < v then v else m) rs a = Max (insert a (set rs))" for a
  proof (induction rs arbitrary: a)
    case (Cons r rs)
    have "Max (insert a (insert r (set rs))) = Max (insert (max a r) (set rs))"
      by (cases "rs = []") (simp_all add: max.assoc)
    then show ?case using Cons.IH [of "if a < r then r else a"] by (auto simp: max_def)
  qed simp
  then show ?thesis by (simp add: get_max_reserve_def)
qed

lemma get_max_reserve_map:
  assumes "mono f" and "f 0 = 0"
  shows "get_max_reserve (map f rs) = f (get_max_reserve rs)"
proof -
  have "Max (insert 0 (f ` set rs)) = f (Max (insert 0 (set rs)))"
    using mono_Max_commute [OF assms(1), of "insert 0 (set rs)"] assms(2) by simp
  then show ?thesis by (simp add: get_max_reserve_eq)
qed

lemma map_mul_ok:
  "(\<And>v. v \<in> set rs \<Longrightarrow> v * d \<le> U128_MAX) \<Longrightarrow> map_res (\<lambda>v. u128_mul v d) rs = Inr (map (\<lambda>v. v * d) rs)"
  by (induction rs) (simp_all add: u_mul_def)

lemma normalize_big:
  assumes "RESERVES_NORM * 2 < get_max_reserve reserves"
  shows "\<exists>rs q. normalize_reserves reserves = Inr (rs, q, 1) \<and> length rs = length reserves \<and> 0 < q \<and>
    RESERVES_NORM \<le> get_max_reserve rs \<and> get_max_reserve rs \<le> 2 * RESERVES_NORM"
proof -
  define m where "m = get_max_reserve reserves"
  define q where "q = m div RESERVES_NORM"
  have q: "2 \<le> q" "q * RESERVES_NORM \<le> m" "m < (q + 1) * RESERVES_NORM"
    using assms by (auto simp: q_def m_def [symmetric] RESERVES_NORM_def)
  have "get_max_reserve (map (\<lambda>v. v div q) reserves) = m div q"
    unfolding m_def by (rule get_max_reserve_map) (auto simp: mono_def div_le_mono)
  moreover have "RESERVES_NORM \<le> m div q" using q by (simp add: less_eq_div_iff_mult_less_eq mult.commute)
  moreover have "m div q \<le> 2 * RESERVES_NORM"
  proof -
    have "m \<le> q * (2 * RESERVES_NORM)" using q by (simp add: algebra_simps) (simp add: RESERVES_NORM_def)
    then show ?thesis using q by (metis div_le_mono nonzero_mult_div_cancel_left not_numeral_le_zero)
  qed
  moreover have "normalize_reserves reserves = Inr (map (\<lambda>v. v div q) reserves, q, 1)"
    using assms by (simp add: normalize_reserves_def m_def [symmetric] q_def Let_def)
  ultimately show ?thesis using q by auto
qed

lemma normalize_small:
  assumes "0 < get_max_reserve reserves" and "get_max_reserve reserves < RESERVES_NORM div 2"
  shows "\<exists>rs q. normalize_reserves reserves = Inr (rs, 1, q) \<and> length rs = length reserves \<and> 0 < q \<and>
    RESERVES_NORM \<le> 2 * get_max_reserve rs \<and> get_max_reserve rs \<le> RESERVES_NORM"
proof -
  define m where "m = get_max_reserve reserves"
  define q where "q = RESERVES_NORM div m"
  note small = assms [folded m_def]
  have "2 * m \<le> RESERVES_NORM" using small by (simp add: RESERVES_NORM_def)
  then have q: "2 \<le> q" "q * m \<le> RESERVES_NORM" "RESERVES_NORM < (q + 1) * m"
    using small(1) by (auto simp: q_def less_eq_div_iff_mult_less_eq dividend_less_div_times)
  have "v * q \<le> U128_MAX" if "v \<in> set reserves" for v
  proof -
    have "v \<le> m" using that by (simp add: m_def get_max_reserve_eq)
    then have "v * q \<le> m * q" by (rule mult_right_mono) simp
    also have "m * q \<le> U128_MAX" using q(2) by (simp add: RESERVES_NORM_def U128_MAX_def mult.commute)
    finally show ?thesis .
  qed
  then have run: "normalize_reserves reserves = Inr (map (\<lambda>v. v * q) reserves, 1, q)"
    using small map_mul_ok [of reserves q]
    unfolding normalize_reserves_def m_def [symmetric] Let_def q_def [symmetric]
    by (simp add: RESERVES_NORM_def)
  have "get_max_reserve (map (\<lambda>v. v * q) reserves) = m * q"
    unfolding m_def by (rule get_max_reserve_map) (auto simp: mono_def)
  moreover have "m * 1 \<le> m * q" using q(1) by (intro mult_left_mono) simp_all
  moreover have "RESERVES_NORM < m * q + m" using q(3) by (simp add: algebra_simps)
  moreover have "q * m = m * q" by (rule mult.commute)
  ultimately have "RESERVES_NORM \<le> 2 * get_max_reserve (map (\<lambda>v. v * q) reserves)"
    "get_max_reserve (map (\<lambda>v. v * q) reserves) \<le> RESERVES_NORM"
    using q(2) by linarith+
  then show ?thesis using run q(1) by auto
qed

text \<open>
  Claim C40: the calculator always can normalize the balances of a pool, and afterwards the
  largest of them lies between half its norm and twice its norm, unless all are zero, so
  that its arithmetic works on numbers of a known size.
\<close>

theorem normalized_reserves_bounded:
  "\<exists>rs nominator denominator. normalize_reserves reserves = Inr (rs, nominator, denominator) \<and>
    length rs = length reserves \<and> 0 < nominator \<and> 0 < denominator \<and>
    (get_max_reserve reserves = 0 \<or>
     RESERVES_NORM \<le> 2 * get_max_reserve rs \<and> get_max_reserve rs \<le> 2 * RESERVES_NORM)"
proof -
  consider "get_max_reserve reserves = 0" | "RESERVES_NORM * 2 < get_max_reserve reserves"
    | "0 < get_max_reserve reserves" "get_max_reserve reserves < RESERVES_NORM div 2"
    | "0 < get_max_reserve reserves" "get_max_reserve reserves \<le> RESERVES_NORM * 2"
      "RESERVES_NORM div 2 \<le> get_max_reserve reserves" by linarith
  then show ?thesis
  proof cases
    case 1
    then show ?thesis by (simp add: normalize_reserves_def)
  next
    case 2
    then obtain rs q where "normalize_reserves reserves = Inr (rs, q, 1)" "length rs = length reserves" "0 < q"
      "RESERVES_NORM \<le> get_max_reserve rs" "get_max_reserve rs \<le> 2 * RESERVES_NORM"
      using normalize_big by blast
    then show ?thesis by (intro exI [of _ rs] exI [of _ q] exI [of _ 1]) simp
  next
    case 3
    then obtain rs q where "normalize_reserves reserves = Inr (rs, 1, q)" "length rs = length reserves" "0 < q"
      "RESERVES_NORM \<le> 2 * get_max_reserve rs" "get_max_reserve rs \<le> RESERVES_NORM"
      using normalize_small by blast
    then show ?thesis by (intro exI [of _ rs] exI [of _ 1] exI [of _ q]) simp
  next
    case 4
    then show ?thesis by (auto simp: normalize_reserves_def Let_def RESERVES_NORM_def)
  qed
qed

end
