(* ===== verification/Spec2Isabelle.thy ===== *)
theory Spec2Isabelle
  imports U256_Math Concentrated_Weight CP_Solvency SS_World CL_Solvency CL_Search CL_Entries Swap_Fee Guard_Batcher Managed_Contracts Config_Store Plane_Data
begin

text \<open>
  A verification development for the Soroban AMM under src/.

  \<^bold>\<open>The program.\<close> Liquidity pools hold two or more tokens and trade them against their reserves;
  there are three kinds: constant-product pools, StableSwap pools and pools of concentrated liquidity.
  Depositors own shares of a pool as an LP token, or positions of a concentrated pool. A pool pays its depositors
  rewards over time (crate \<^verbatim>\<open>rewards\<close>), weighted by shares and a boost for locked tokens (published by
  \<^verbatim>\<open>locker_feed\<close>), and may host extra reward programs, the gauges (crates \<^verbatim>\<open>rewards_gauge\<close> and
  \<^verbatim>\<open>liquidity_pool_reward_gauge\<close>). The LP token (crate \<^verbatim>\<open>token\<close>) calls its pool back around every transfer so
  that rewards are settled before shares move. The router creates the pools, keeps their registry, chains swaps
  through them and splits the rewards of the protocol among them by their liquidity. That liquidity comes from a
  calculator, which reads what the pools publish on the plane. Swap-fee contracts, deployed by a factory, pass
  swaps on to the router and keep a fee. Config storage holds values that the router and the pools read; the guard and
  the batcher call other contracts for a user. Roles, delayed transfers of roles and delayed code upgrades (crates
  \<^verbatim>\<open>access_control\<close>, \<^verbatim>\<open>upgrade\<close>) administer every contract.

  \<^bold>\<open>Conventions.\<close> Addresses are natural numbers. An unsigned machine integer is a \<^typ>\<open>nat\<close> and every
  operation on it is checked against its width as the release profile does (\<open>u_fit\<close>, \<open>u128_add\<close>,
  \<open>u_sub\<close>, \<dots> in \<open>Prelude\<close>); a signed one is an \<^typ>\<open>int\<close> with checked or written-out wrapping
  (\<open>as_i128\<close>, \<open>as_u128\<close> are the \<^verbatim>\<open>as\<close> casts). A handler takes and returns its contract's state
  explicitly and returns \<open>Inl e\<close> for every panic: \<open>Errors\<close> holds the error enumerations, \<open>HostPanic\<close> is
  an uncoded abort. An error carries no state because the host rolls the call back. Steps are
  composed with \<open>andthen\<close>. Events, TTL extensions and plain getters have no effect on results and
  are left out.

  \<^bold>\<open>Code outside src/.\<close> The fixed-point library (\<open>fixed_point\<close>, law \<open>fixed_point_lib\<close>), tokens held by a
  contract (\<open>tokens\<close>, locale \<open>token_ledger\<close>), the boost feed, the plane and the share token of a pool are
  record parameters of the definitions that use them; what is relied on is a named hypothesis,
  and \<open>exact_fixed_point\<close>, \<open>token_world\<close>, \<open>gauge_world_tokens\<close>, \<open>standard_calls\<close> and \<open>cp_router_calls\<close> are
  concrete instances of them, all but the first built from the modelled contracts. A contract that calls another
  contract of src/ takes that call as a parameter too (\<open>router_calls\<close>, \<open>fee_calls\<close>); \<open>cp_router_calls\<close> and
  \<open>routed_calls\<close> fill it with the model of the called contract.
\<close>

text \<open>
  \<^bold>\<open>The theories\<close>, in the order of the components:

  \<^item> \<open>Errors\<close>, \<open>Prelude\<close>: error enumerations; results, checked arithmetic, folds over results, the
    environment of a call, the collections \<open>res_simps\<close> and others the proofs share.
  \<^item> \<open>Fixed_Point\<close>, \<open>U256_Math\<close>: the fixed-point library as a parameter with its law and an exact
    instance; the \<open>U256\<close> square root of \<^verbatim>\<open>utils/src/u256_math.rs\<close>, its termination and exactness.
  \<^item> \<open>Delayed_Action\<close>, \<open>Access_Control\<close>, \<open>Managed\<close>: the contract of a commit-wait-apply action, as a
    locale; the roles of \<^verbatim>\<open>access_control\<close>; the delayed upgrade of \<^verbatim>\<open>upgrade\<close> and the managed contract
    \<^verbatim>\<open>fees_collector\<close>, whose handlers every other contract repeats.
  \<^item> \<open>Reward_Storage\<close>, \<open>Reward_Pages\<close>, \<open>Rewards\<close>: storage with the page cache, the page tree of the
    reward index and its summation, and the reward manager of \<^verbatim>\<open>rewards\<close>. \<open>Reward_Solvency\<close> is its
    invariant, \<open>Reward_Runs\<close> its preservation over every run, \<open>Reward_Claims\<close> what accrual and claims do.
    \<open>Concentrated_Weight\<close> holds the weights of concentrated positions.
  \<^item> \<open>Tokens\<close>, \<open>Share_Token\<close>: the interface of tokens as a locale; the LP token of \<^verbatim>\<open>token\<close> with its
    callbacks, and \<^verbatim>\<open>token_share\<close>.
  \<^item> \<open>Gauge\<close>, \<open>Gauge_Runs\<close>, \<open>Pool_Gauges\<close>: a gauge, its reachable states and their invariant, and a
    pool's gauges.
  \<^item> \<open>Pool_Base\<close>, \<open>Pool_Admin\<close>: the state and the entry points that the pools have in common (their sources
    repeat them word for word): administration, rewards, gauges, plane. \<open>Pool_Runs\<close> executes them and
    says what they leave alone; \<open>Pool_Host\<close> is the locale of what a pool relies on in the contracts it
    calls, with its lemmas on payments, and an extension of it in which payments are exact for all
    accounts; \<open>Pool_World\<close> interprets both with the modelled contracts.
  \<^item> \<open>CP_Math\<close>, \<open>CP_Pool\<close>, \<open>CP_Admin\<close>: the constant-product pool of \<^verbatim>\<open>liquidity_pool\<close>: formulas, trading,
    and its own administration. \<open>CP_Trading\<close> says what each successful handler did to the books,
    and what a single trade guarantees, \<open>CP_Runs\<close> and \<open>CP_Solvency\<close> what every run guarantees, and
    \<open>CP_World\<close> holds concrete runs in which the hypotheses hold.
  \<^item> \<open>SS_Math\<close>, \<open>SS_Curve\<close>: the Newton iterations of
    \<^verbatim>\<open>liquidity_pool_stableswap\<close> and what they compute.
  \<^item> \<open>SS_Pool\<close>, \<open>SS_Liquidity\<close>, \<open>SS_Admin\<close>, \<open>SS_Entries\<close>: the stable pool's state, swaps, deposits and
    withdrawals, ramp and fees, and the entry points it shares with the other pool. \<open>SS_Runs\<close>:
    the run of all entry points and the effect of each handler on the books;
    \<open>SS_Params\<close>: amplification and fee over histories; \<open>SS_Solvency\<close>: balances cover reserves and fees over
    runs; \<open>SS_World\<close>: what swaps pay, and concrete runs.
  \<^item> \<open>U512\<close>, \<open>Bitmap\<close>: the 512-bit arithmetic and the bitmap words of \<^verbatim>\<open>liquidity_pool_concentrated\<close>.
    The theories \<open>CL_\<dots>\<close> are the rest of that pool: \<open>CL_Math\<close> the mathematics of prices, \<open>CL_Sqrt\<close> and
    \<open>CL_Price\<close> the range and monotonicity of its prices; \<open>CL_Pool\<close> the state; \<open>CL_Ticks\<close> the tick index, \<open>CL_Index\<close>
    and \<open>CL_Tick_Update\<close> its well-formedness, \<open>CL_Search\<close> that it refines a plain map; \<open>CL_Swap\<close> the swap loop, \<open>CL_Steps\<close> and
    \<open>CL_Loop\<close> its invariants and that it returns; \<open>CL_Positions\<close>, \<open>CL_Liquidity\<close> positions, deposits and withdrawals;
    \<open>CL_Trade\<close> the entry points of a trade; \<open>CL_Plane\<close> the report to the plane; \<open>CL_Admin\<close>, \<open>CL_Entries\<close>
    administration and rewards; \<open>CL_Runs\<close>, \<open>CL_Flow\<close>, \<open>CL_Solvency\<close> the run of all entry points and its solvency.
  \<^item> \<open>Host_Values\<close>: dynamic values, sorted maps and indexed vectors of the host, and counted loops.
  \<^item> \<open>Router_Base\<close>, \<open>Router_Pools\<close>, \<open>Router_Rewards\<close>, \<open>Router_Swaps\<close>, \<open>Router_Admin\<close>: \<^verbatim>\<open>liquidity_pool_router\<close>,
    the registry and its salts, creation and removal of pools, global rewards and gauges, chained swaps,
    administration. \<open>Router_Runs\<close> holds the run of all of them, \<open>Router_Budget\<close> the budget of the global rewards,
    \<open>Router_Registry\<close> the registry's invariant, \<open>Router_Trading\<close> what a chained swap moves.
  \<^item> \<open>Managed_Contracts\<close>, \<open>Config_Store\<close>: the administration the small contracts repeat,
    the plane, the feed of locked tokens, config storage.
  \<^item> \<open>Swap_Fee\<close>: the swap-fee collector and its factory; \<open>Guard_Batcher\<close>: guard and batcher.
  \<^item> \<open>Calculator\<close>, \<open>Plane_Data\<close>: \<^verbatim>\<open>liquidity_pool_liquidity_calculator\<close>, and that it reads
    from the plane what a concentrated pool wrote there.
\<close>

text \<open>
  \<^bold>\<open>Bounds.\<close> Loops of the source are structural recursions or have a termination proof; the only fuel
  is the source's own bound of 255 rounds of the Newton iterations (\<open>NEWTON_ROUNDS\<close>, \<open>LC_ROUNDS\<close>), and running out of
  it is the source's error. The swap loop of a concentrated pool and its walk for the plane are partial functions:
  the former is proved to return for every consistent pool (\<open>swap_always_returns\<close>). The page tree is
  exact up to \<open>10 ^ 15\<close> blocks, far beyond one block per second. The square
  root is exact below the largest \<open>U256\<close>, where the source's own initial estimate overflows.

  \<^bold>\<open>Not modelled:\<close> the crate \<^verbatim>\<open>liquidity_pool_events\<close> and all publishing of events, extension of
  storage lifetimes, getters that return one stored value, names and versions of contracts, the LP
  token's metadata, tests and benchmarks: none of them changes the state or a result of the modelled operations.
\<close>

end
